(* ===== verification/JS_Numbers.thy ===== *)
theory JS_Numbers
  imports Main "HOL-Library.Log_Nat"
begin

text \<open>
  JavaScript numbers (the type \<^verbatim>\<open>number\<close> of every amount, price, quota and time value in the
  sources). A number is not-a-number, one of the two infinities, or a finite value held exactly as
  a rational; every arithmetic operation computes exactly and then rounds with \<open>fl\<close>, which is
  IEEE 754 binary64 rounding to nearest, ties to even, with gradual underflow and overflow to
  infinity. The sign of zero is the one thing left out: minus zero and zero are the same value
  here, so a division by zero takes the sign of its numerator.
  The lemmas: rounding is exact on 53-bit values (\<^verbatim>\<open>fl_exact\<close>), monotone (\<^verbatim>\<open>fl_mono\<close>), has
  relative error at most \<^verbatim>\<open>2^-53\<close> plus half a subnormal (\<^verbatim>\<open>fl_error\<close>), and its results are doubles
  (\<^verbatim>\<open>fl_double\<close>).
\<close>

section \<open>JavaScript numbers: IEEE 754 binary64 over exact rationals\<close>

text \<open>\<^verbatim>\<open>number\<close>: a double, with minus zero identified with zero.\<close>

datatype jsnum = NaN | PInf | NInf | Fin rat

text \<open>\<open>floor_log2 x\<close> is the binary exponent of a positive \<open>x\<close>, \<open>ulp_exp x\<close> the exponent of the unit in
  the last place of the binade of \<open>x\<close> (of the subnormals at least), \<open>fl_val x\<close> the nearest multiple of
  that unit.\<close>

definition floor_log2 :: "rat \<Rightarrow> int" where
  "floor_log2 x =
     (case quotient_of x of (p, q) \<Rightarrow>
        let d = bitlen p - bitlen q in if 2 powi d \<le> x then d else d - 1)"

definition round_even :: "rat \<Rightarrow> int" where
  "round_even x =
     (let f = \<lfloor>x\<rfloor>; r = x - of_int f
      in if r < 1/2 then f else if 1/2 < r then f + 1 else if even f then f else f + 1)"

definition ulp_exp :: "rat \<Rightarrow> int" where
  "ulp_exp x = max (-1074) (floor_log2 \<bar>x\<bar> - 52)"

definition fl_val :: "rat \<Rightarrow> rat" where
  "fl_val x = (let u = 2 powi (ulp_exp x) in of_int (round_even (x / u)) * u)"

definition fl :: "rat \<Rightarrow> jsnum" where
  "fl x =
     (let v = fl_val x
      in if 2 powi 1024 \<le> v then PInf else if v \<le> - (2 powi 1024) then NInf else Fin v)"

subsection \<open>Arithmetic, comparison and the Math functions\<close>

fun js_neg :: "jsnum \<Rightarrow> jsnum" where
  "js_neg NaN = NaN" | "js_neg PInf = NInf" | "js_neg NInf = PInf" | "js_neg (Fin x) = Fin (- x)"

fun js_add :: "jsnum \<Rightarrow> jsnum \<Rightarrow> jsnum" where
  "js_add NaN _ = NaN"
| "js_add _ NaN = NaN"
| "js_add (Fin x) (Fin y) = fl (x + y)"
| "js_add (Fin _) b = b"
| "js_add a (Fin _) = a"
| "js_add a b = (if a = b then a else NaN)"

definition js_sub :: "jsnum \<Rightarrow> jsnum \<Rightarrow> jsnum" where
  "js_sub a b = js_add a (js_neg b)"

definition inf_of :: "bool \<Rightarrow> jsnum" where
  "inf_of positive = (if positive then PInf else NInf)"

fun js_sign :: "jsnum \<Rightarrow> rat" where
  "js_sign NaN = 0" | "js_sign PInf = 1" | "js_sign NInf = -1" | "js_sign (Fin x) = sgn x"

fun js_mul :: "jsnum \<Rightarrow> jsnum \<Rightarrow> jsnum" where
  "js_mul NaN _ = NaN"
| "js_mul _ NaN = NaN"
| "js_mul (Fin x) (Fin y) = fl (x * y)"
| "js_mul a b = (let s = js_sign a * js_sign b in if s = 0 then NaN else inf_of (0 < s))"

fun js_div :: "jsnum \<Rightarrow> jsnum \<Rightarrow> jsnum" where
  "js_div NaN _ = NaN"
| "js_div _ NaN = NaN"
| "js_div (Fin x) (Fin y) =
     (if y \<noteq> 0 then fl (x / y) else if x = 0 then NaN else inf_of (0 < x))"
| "js_div (Fin _) _ = Fin 0"
| "js_div a (Fin y) = inf_of (0 < js_sign a * (if y = 0 then 1 else sgn y))"
| "js_div _ _ = NaN"

fun js_lt :: "jsnum \<Rightarrow> jsnum \<Rightarrow> bool" where
  "js_lt NaN _ = False"
| "js_lt _ NaN = False"
| "js_lt (Fin x) (Fin y) = (x < y)"
| "js_lt NInf b = (b \<noteq> NInf)"
| "js_lt _ NInf = False"
| "js_lt PInf _ = False"
| "js_lt (Fin _) PInf = True"

fun js_eq :: "jsnum \<Rightarrow> jsnum \<Rightarrow> bool" where
  "js_eq NaN _ = False" | "js_eq a b = (a = b)"

definition js_le :: "jsnum \<Rightarrow> jsnum \<Rightarrow> bool" where
  "js_le a b \<longleftrightarrow> js_lt a b \<or> js_eq a b"

abbreviation js_gt :: "jsnum \<Rightarrow> jsnum \<Rightarrow> bool" where "js_gt a b \<equiv> js_lt b a"

abbreviation js_ge :: "jsnum \<Rightarrow> jsnum \<Rightarrow> bool" where "js_ge a b \<equiv> js_le b a"

fun is_finite :: "jsnum \<Rightarrow> bool" where
  "is_finite (Fin _) = True" | "is_finite _ = False"

fun is_integer :: "jsnum \<Rightarrow> bool" where
  "is_integer (Fin x) = (of_int \<lfloor>x\<rfloor> = x)" | "is_integer _ = False"

fun is_safe_integer :: "jsnum \<Rightarrow> bool" where
  "is_safe_integer (Fin x) = (of_int \<lfloor>x\<rfloor> = x \<and> \<bar>x\<bar> \<le> 2 ^ 53 - 1)" | "is_safe_integer _ = False"

fun js_abs :: "jsnum \<Rightarrow> jsnum" where
  "js_abs NaN = NaN" | "js_abs PInf = PInf" | "js_abs NInf = PInf" | "js_abs (Fin x) = Fin \<bar>x\<bar>"

definition js_max :: "jsnum \<Rightarrow> jsnum \<Rightarrow> jsnum" where
  "js_max a b = (if a = NaN \<or> b = NaN then NaN else if js_lt a b then b else a)"

definition js_min :: "jsnum \<Rightarrow> jsnum \<Rightarrow> jsnum" where
  "js_min a b = (if a = NaN \<or> b = NaN then NaN else if js_lt b a then b else a)"

fun js_floor :: "jsnum \<Rightarrow> jsnum" where
  "js_floor (Fin x) = Fin (of_int \<lfloor>x\<rfloor>)" | "js_floor a = a"

fun js_ceil :: "jsnum \<Rightarrow> jsnum" where
  "js_ceil (Fin x) = Fin (of_int \<lceil>x\<rceil>)" | "js_ceil a = a"

fun js_round :: "jsnum \<Rightarrow> jsnum" where
  "js_round (Fin x) = Fin (of_int \<lfloor>x + 1/2\<rfloor>)" | "js_round a = a"

definition EPSILON :: jsnum where "EPSILON = Fin (2 powi (-52))"

definition MIN_VALUE :: jsnum where "MIN_VALUE = Fin (2 powi (-1074))"

subsection \<open>The rounding function\<close>

lemma floor_log2_bounds:
  assumes "0 < x"
  shows "2 powi (floor_log2 x) \<le> x" and "x < 2 powi (floor_log2 x + 1)"
proof -
  obtain p q where pq: "quotient_of x = (p, q)" by fastforce
  have q: "0 < q" using quotient_of_denom_pos[OF pq] .
  have x: "x = of_int p / of_int q" using quotient_of_div[OF pq] .
  have p: "0 < p" using assms x q by (simp add: zero_less_divide_iff)
  define d where "d = bitlen p - bitlen q"
  have two: "(2::rat) powi (bitlen n - 1) \<le> of_int n \<and> of_int n < (2::rat) powi (bitlen n)" if "0 < n" for n :: int
  proof -
    have b: "2 ^ nat (bitlen n - 1) \<le> n \<and> n < 2 ^ nat (bitlen n)"
      using bitlen_bounds[OF that] .
    have bp: "0 < bitlen n"
      using that bitlen_eq_zero_iff[of n] bitlen_nonneg[of n] by linarith
    have "(2::rat) powi (bitlen n - 1) = of_int (2 ^ nat (bitlen n - 1))"
      using bp by (simp add: power_int_def)
    moreover have "(2::rat) powi (bitlen n) = of_int (2 ^ nat (bitlen n))"
      using bp by (simp add: power_int_def)
    ultimately show ?thesis using b by (simp only: of_int_le_iff of_int_less_iff)
  qed
  have P: "(2::rat) powi (bitlen p - 1) \<le> of_int p" "of_int p < (2::rat) powi (bitlen p)"
    and Q: "(2::rat) powi (bitlen q - 1) \<le> of_int q" "of_int q < (2::rat) powi (bitlen q)"
    using two[OF p] two[OF q] by auto
  have lo: "2 powi (d - 1) \<le> x"
  proof -
    have "(2::rat) powi (d - 1) * of_int q \<le> 2 powi (d - 1) * 2 powi (bitlen q)"
      using Q(2) by (intro mult_left_mono) auto
    also have "\<dots> = 2 powi (bitlen p - 1)"
      by (simp add: d_def flip: power_int_add)
    also have "\<dots> \<le> of_int p" by (rule P(1))
    finally show ?thesis using q by (simp add: x pos_le_divide_eq)
  qed
  have hi: "x < 2 powi (d + 1)"
  proof -
    have "of_int p < (2::rat) powi (bitlen p)" by (rule P(2))
    also have "\<dots> = 2 powi (d + 1) * 2 powi (bitlen q - 1)"
      by (simp add: d_def flip: power_int_add)
    also have "\<dots> \<le> 2 powi (d + 1) * of_int q"
      using Q(1) by (intro mult_left_mono) auto
    finally show ?thesis using q by (simp add: x pos_divide_less_eq)
  qed
  show "2 powi (floor_log2 x) \<le> x" and "x < 2 powi (floor_log2 x + 1)"
    using lo hi by (auto simp: floor_log2_def pq d_def[symmetric] Let_def)
qed

lemma round_even_near: "\<bar>of_int (round_even x) - x\<bar> \<le> 1/2"
proof -
  have "of_int \<lfloor>x\<rfloor> \<le> x" "x < of_int \<lfloor>x\<rfloor> + 1" by linarith+
  then show ?thesis unfolding round_even_def Let_def by (auto simp: abs_le_iff)
qed

lemma round_even_of_int [simp]: "round_even (of_int n) = n"
  by (simp add: round_even_def)

lemma floor_log2_less:
  assumes "0 < x" "x < 2 powi k" shows "floor_log2 x < k"
proof (rule ccontr)
  assume "\<not> floor_log2 x < k"
  then have "(2::rat) powi k \<le> 2 powi (floor_log2 x)" by (intro power_int_increasing) auto
  with floor_log2_bounds(1)[OF assms(1)] assms(2) show False by simp
qed

text \<open>A rational with at most 53 significant bits in the exponent range is a double: rounding
  leaves it alone.\<close>

lemma fl_val_exact:
  assumes "x = of_int m * 2 powi k" and m: "\<bar>m\<bar> < 2 ^ 53" and k: "-1074 \<le> k"
  shows "fl_val x = x"
proof (cases "x = 0")
  case True then show ?thesis by (simp add: fl_val_def round_even_def)
next
  case False
  have "\<bar>x\<bar> < 2 powi (53 + k)"
  proof -
    have "\<bar>x\<bar> = of_int \<bar>m\<bar> * 2 powi k" by (simp add: assms(1) abs_mult)
    also have "\<dots> < 2 ^ 53 * 2 powi k"
    proof (rule mult_strict_right_mono)
      have "of_int \<bar>m\<bar> < (of_int (2 ^ 53) :: rat)" using m by (simp only: of_int_less_iff)
      then show "of_int \<bar>m\<bar> < (2 ^ 53 :: rat)" by simp
    qed simp
    also have "\<dots> = 2 powi (53 + k)" by (simp add: power_int_add)
    finally show ?thesis .
  qed
  then have "floor_log2 \<bar>x\<bar> < 53 + k" using False by (intro floor_log2_less) auto
  with k have "ulp_exp x \<le> k" by (simp add: ulp_exp_def)
  then obtain e where e: "ulp_exp x = e" "e \<le> k" by blast
  define j where "j = nat (k - e)"
  have pk: "(2::rat) powi k = 2 ^ j * 2 powi e"
  proof -
    have "(2::rat) ^ j = 2 powi (k - e)" using e by (simp add: j_def power_int_def)
    then show ?thesis by (simp flip: power_int_add)
  qed
  have x: "x = of_int (m * 2 ^ j) * 2 powi e" unfolding assms(1) pk by simp
  then have q: "x / 2 powi e = of_int (m * 2 ^ j)" by simp
  show ?thesis unfolding fl_val_def e(1) Let_def q round_even_of_int using x by simp
qed

lemma fl_exact:
  assumes "x = of_int m * 2 powi k" and "\<bar>m\<bar> < 2 ^ 53" and "-1074 \<le> k" and "\<bar>x\<bar> < 2 powi 1024"
  shows "fl x = Fin x"
  using assms(4) by (auto simp: fl_def fl_val_exact[OF assms(1-3)] Let_def)

lemma powi_less_iff_exp: "(2::rat) powi a < 2 powi b \<longleftrightarrow> a < b"
  by (metis linorder_not_less order_le_less power_int_increasing power_int_strict_increasing
      one_less_numeral_iff one_le_numeral semiring_norm(76))

lemma fl_of_int:
  assumes "\<bar>n\<bar> \<le> 2 ^ 53" shows "fl (of_int n) = Fin (of_int n)"
proof (cases "\<bar>n\<bar> = 2 ^ 53")
  case True
  then have n: "n = 2 ^ 53 \<or> n = - (2 ^ 53)" by linarith
  have "fl (of_int n) = Fin (of_int n)" if "n = s * 2 ^ 53" "\<bar>s\<bar> = 1" for s :: int
  proof (rule fl_exact[where m = s and k = 53])
    show "of_int n = of_int s * (2::rat) powi 53" using that by (simp add: power_int_def)
    show "\<bar>s\<bar> < 2 ^ 53" using that by simp
    have "\<bar>of_int n\<bar> = (2::rat) powi 53" using that by (simp add: abs_mult power_int_def)
    also have "\<dots> < 2 powi 1024" by (simp only: powi_less_iff_exp)
    finally show "\<bar>of_int n\<bar> < (2::rat) powi 1024" .
  qed simp
  from this[of 1] this[of "-1"] n show ?thesis by auto
next
  case False
  have lt: "\<bar>n\<bar> < 2 ^ 53" using assms False by linarith
  show ?thesis
  proof (rule fl_exact[where m = n and k = 0])
    have "of_int \<bar>n\<bar> < (of_int (2 ^ 53) :: rat)" using lt by (simp only: of_int_less_iff)
    then have "\<bar>of_int n\<bar> < (2::rat) powi 53" by (simp add: power_int_def)
    also have "\<dots> < 2 powi 1024" by (simp only: powi_less_iff_exp)
    finally show "\<bar>of_int n\<bar> < (2::rat) powi 1024" .
  qed (use lt in auto)
qed

lemma fl_0 [simp]: "fl 0 = Fin 0" using fl_of_int[of 0] by simp
lemma fl_1 [simp]: "fl 1 = Fin 1" using fl_of_int[of 1] by simp
lemma fl_numeral [simp]:
  assumes "(numeral n :: int) \<le> 9007199254740992" shows "fl (numeral n) = Fin (numeral n)"
  using fl_of_int[of "numeral n"] assms by simp
lemma fl_neg_numeral [simp]:
  assumes "(numeral n :: int) \<le> 9007199254740992" shows "fl (- numeral n) = Fin (- numeral n)"
  using fl_of_int[of "- numeral n"] assms by simp

subsection \<open>Rounding error\<close>

lemma fl_val_near: "\<bar>fl_val x - x\<bar> \<le> 2 powi (ulp_exp x) / 2"
proof -
  obtain u where u: "u = (2::rat) powi (ulp_exp x)" "0 < u" by simp
  have "fl_val x - x = (of_int (round_even (x / u)) - x / u) * u"
    using u by (simp add: fl_val_def Let_def left_diff_distrib)
  then have "\<bar>fl_val x - x\<bar> = \<bar>of_int (round_even (x / u)) - x / u\<bar> * u"
    using u(2) by (simp add: abs_mult)
  also have "\<dots> \<le> 1/2 * u" using round_even_near[of "x / u"] u(2) by (intro mult_right_mono) auto
  finally show ?thesis by (simp add: u(1))
qed

lemma fl_Fin: "fl x = Fin y \<Longrightarrow> y = fl_val x"
  by (auto simp: fl_def Let_def split: if_splits)

lemma fl_error:
  assumes "fl x = Fin y"
  shows "\<bar>y - x\<bar> \<le> \<bar>x\<bar> / 2 ^ 53 + 2 powi (-1075)"
proof (cases "x = 0")
  case True then show ?thesis using assms by simp
next
  case False
  have half: "(2::rat) powi e / 2 = 2 powi (e - 1)" for e by (simp add: power_int_diff)
  have "2 powi (floor_log2 \<bar>x\<bar> - 52) / 2 \<le> \<bar>x\<bar> / 2 ^ 53"
  proof -
    have "(2::rat) powi (floor_log2 \<bar>x\<bar> - 52) = 2 powi (floor_log2 \<bar>x\<bar>) / 2 ^ 52"
      by (simp add: power_int_diff)
    then show ?thesis using floor_log2_bounds(1)[of "\<bar>x\<bar>"] False by (simp add: field_simps)
  qed
  moreover have "(2::rat) powi (-1074) / 2 = 2 powi (-1075)" by (simp add: half)
  moreover have "0 \<le> \<bar>x\<bar> / 2 ^ 53" "0 \<le> (2::rat) powi (-1075)" by auto
  ultimately have "2 powi (ulp_exp x) / 2 \<le> \<bar>x\<bar> / 2 ^ 53 + 2 powi (-1075)"
    unfolding ulp_exp_def max_def by (cases "-1074 \<le> floor_log2 \<bar>x\<bar> - 52") simp_all
  with fl_val_near[of x] fl_Fin[OF assms] show ?thesis by linarith
qed

subsection \<open>Rounding is monotone\<close>

lemma round_even_mono:
  assumes "x \<le> y" shows "round_even x \<le> round_even y"
proof (cases "\<lfloor>x\<rfloor> = \<lfloor>y\<rfloor>")
  case True
  with assms show ?thesis by (auto simp: round_even_def Let_def)
next
  case False
  with assms have "\<lfloor>x\<rfloor> + 1 \<le> \<lfloor>y\<rfloor>" using floor_mono[OF assms] by linarith
  moreover have "round_even x \<le> \<lfloor>x\<rfloor> + 1" "\<lfloor>y\<rfloor> \<le> round_even y"
    by (auto simp: round_even_def Let_def)
  ultimately show ?thesis by linarith
qed

lemma floor_log2_mono:
  assumes "0 < x" "x \<le> y" shows "floor_log2 x \<le> floor_log2 y"
proof (rule ccontr)
  assume "\<not> ?thesis"
  then have "(2::rat) powi (floor_log2 y + 1) \<le> 2 powi (floor_log2 x)" by (intro power_int_increasing) auto
  with floor_log2_bounds(1)[of x] floor_log2_bounds(2)[of y] assms show False by linarith
qed

lemma fl_val_le_pow:
  assumes "0 < x" "x \<le> 2 powi k" "ulp_exp x \<le> k" shows "fl_val x \<le> 2 powi k"
proof -
  obtain e where e: "ulp_exp x = e" "e \<le> k" using assms(3) by blast
  define j where "j = nat (k - e)"
  have pk: "(2::rat) powi k = 2 ^ j * 2 powi e"
  proof -
    have "(2::rat) ^ j = 2 powi (k - e)" using e by (simp add: j_def power_int_def)
    then show ?thesis by (simp flip: power_int_add)
  qed
  have "x / 2 powi e \<le> of_int (2 ^ j)" using assms(2) pk by (simp add: pos_divide_le_eq)
  from round_even_mono[OF this] have "round_even (x / 2 powi e) \<le> 2 ^ j" by (simp only: round_even_of_int)
  then have "of_int (round_even (x / 2 powi e)) \<le> (of_int (2 ^ j) :: rat)" by (simp only: of_int_le_iff)
  then have "of_int (round_even (x / 2 powi e)) * 2 powi e \<le> (2::rat) ^ j * 2 powi e"
    by (intro mult_right_mono) auto
  then show ?thesis by (simp add: fl_val_def Let_def e(1) pk)
qed

lemma fl_val_ge_pow:
  assumes "2 powi k \<le> x" "ulp_exp x \<le> k" shows "2 powi k \<le> fl_val x"
proof -
  obtain e where e: "ulp_exp x = e" "e \<le> k" using assms(2) by blast
  define j where "j = nat (k - e)"
  have pk: "(2::rat) powi k = 2 ^ j * 2 powi e"
  proof -
    have "(2::rat) ^ j = 2 powi (k - e)" using e by (simp add: j_def power_int_def)
    then show ?thesis by (simp flip: power_int_add)
  qed
  have "of_int (2 ^ j) \<le> x / 2 powi e" using assms(1) pk by (simp add: pos_le_divide_eq)
  from round_even_mono[OF this] have "2 ^ j \<le> round_even (x / 2 powi e)" by (simp only: round_even_of_int)
  then have "(of_int (2 ^ j) :: rat) \<le> of_int (round_even (x / 2 powi e))" by (simp only: of_int_le_iff)
  then have "2 ^ j * 2 powi e \<le> of_int (round_even (x / 2 powi e)) * (2::rat) powi e"
    by (intro mult_right_mono) auto
  then show ?thesis by (simp add: fl_val_def Let_def e(1) pk)
qed

lemma fl_val_nonneg: "0 \<le> x \<Longrightarrow> 0 \<le> fl_val x"
  using round_even_mono[of "of_int 0" "x / 2 powi ulp_exp x"]
  by (simp only: round_even_of_int) (simp add: fl_val_def Let_def)

lemma fl_val_pos_mono:
  assumes "0 < x" "x \<le> y" shows "fl_val x \<le> fl_val y"
proof (cases "ulp_exp x = ulp_exp y")
  case True
  have "round_even (x / 2 powi ulp_exp y) \<le> round_even (y / 2 powi ulp_exp y)"
    using assms by (intro round_even_mono divide_right_mono) auto
  then show ?thesis by (simp add: fl_val_def Let_def True mult_right_mono)
next
  case False
  have m: "floor_log2 x \<le> floor_log2 y" using floor_log2_mono assms by blast
  then have k: "ulp_exp x + 52 < floor_log2 y" "ulp_exp y = floor_log2 y - 52" "ulp_exp x \<le> floor_log2 y"
    using False assms by (auto simp: ulp_exp_def max_def split: if_splits)
  have "x \<le> 2 powi (floor_log2 x + 1)" using floor_log2_bounds(2)[OF assms(1)] by simp
  also have "\<dots> \<le> 2 powi (floor_log2 y)"
    using k(1) assms by (intro power_int_increasing) (auto simp: ulp_exp_def)
  finally have "fl_val x \<le> 2 powi (floor_log2 y)" using fl_val_le_pow assms(1) k(3) by blast
  also have "\<dots> \<le> fl_val y"
    using fl_val_ge_pow[of "floor_log2 y" y] floor_log2_bounds(1)[of y] assms k(2) by auto
  finally show ?thesis .
qed

lemma round_even_uminus: "round_even (- x) = - round_even x"
proof (cases "x = of_int \<lfloor>x\<rfloor>")
  case True
  then obtain n where "x = of_int n" by blast
  then show ?thesis using round_even_of_int[of "-n"] by simp
next
  case False
  have "of_int \<lfloor>x\<rfloor> < x" using False of_int_floor_le[of x] by linarith
  then have "\<lfloor>- x\<rfloor> = - \<lfloor>x\<rfloor> - 1" by (simp add: floor_eq_iff) linarith
  then show ?thesis by (auto simp: round_even_def Let_def)
qed

lemma fl_val_uminus: "fl_val (- x) = - fl_val x"
  using round_even_uminus[of "x / 2 powi ulp_exp x"] by (simp add: fl_val_def ulp_exp_def Let_def)

lemma fl_val_mono:
  assumes "x \<le> y" shows "fl_val x \<le> fl_val y"
proof (cases "0 < x")
  case True then show ?thesis using fl_val_pos_mono assms by blast
next
  case False
  show ?thesis
  proof (cases "0 \<le> y")
    case True
    then have "0 \<le> fl_val y" "0 \<le> fl_val (- x)" using False fl_val_nonneg by auto
    then show ?thesis by (simp add: fl_val_uminus)
  next
    case y: False
    then have "fl_val (- y) \<le> fl_val (- x)" using assms by (intro fl_val_pos_mono) auto
    then show ?thesis by (simp add: fl_val_uminus)
  qed
qed

lemma fl_nonneg: "0 \<le> x \<Longrightarrow> fl x = PInf \<or> (\<exists>y. fl x = Fin y \<and> 0 \<le> y)"
proof -
  assume "0 \<le> x"
  then have "0 \<le> fl_val x" by (rule fl_val_nonneg)
  moreover have "(0::rat) < 2 powi 1024" by (rule zero_less_power_int) simp
  ultimately have "\<not> fl_val x \<le> - (2 powi 1024)" by linarith
  with \<open>0 \<le> fl_val x\<close> show ?thesis by (auto simp: fl_def Let_def)
qed

subsection \<open>Lemmas on the comparisons\<close>

lemma is_finite_iff: "is_finite a \<longleftrightarrow> (\<exists>x. a = Fin x)"
  by (cases a) auto

lemma js_le_Fin [simp]: "js_le (Fin x) (Fin y) \<longleftrightarrow> x \<le> y"
  by (auto simp: js_le_def)

lemma js_le_NaN [simp]: "\<not> js_le NaN a" "\<not> js_le a NaN"
  by (cases a; simp add: js_le_def)+

lemma js_lt_irrefl [simp]: "\<not> js_lt a a" by (cases a) auto

lemma js_not_lt_le: "a \<noteq> NaN \<Longrightarrow> b \<noteq> NaN \<Longrightarrow> \<not> js_lt a b \<longleftrightarrow> js_le b a"
  by (cases a; cases b) (auto simp: js_le_def)

lemma js_le_trans: "js_le a b \<Longrightarrow> js_le b c \<Longrightarrow> js_le a c"
  by (cases a; cases b; cases c) (auto simp: js_le_def)

lemma js_le_not_gt: "js_le a b \<Longrightarrow> \<not> js_lt b a"
  by (cases a; cases b) (auto simp: js_le_def)

lemma js_le_not_NaN: "js_le a b \<Longrightarrow> a \<noteq> NaN \<and> b \<noteq> NaN"
  by auto

lemma js_le_refl: "a \<noteq> NaN \<Longrightarrow> js_le a a"
  by (cases a) (auto simp: js_le_def)

lemma js_lt_le_trans: "js_lt a b \<Longrightarrow> js_le b c \<Longrightarrow> js_lt a c"
  by (cases a; cases b; cases c) (auto simp: js_le_def)

lemma js_le_lt_trans: "js_le a b \<Longrightarrow> js_lt b c \<Longrightarrow> js_lt a c"
  by (cases a; cases b; cases c) (auto simp: js_le_def)

lemma js_max_ge: "js_le a (js_max a b) \<or> a = NaN \<or> b = NaN" "js_le b (js_max a b) \<or> a = NaN \<or> b = NaN"
  by (cases a; cases b; auto simp: js_max_def js_le_def)+

lemma js_abs_nonneg: "js_abs a = NaN \<or> js_le (Fin 0) (js_abs a)"
  by (cases a) (auto simp: js_le_def)


lemma fl_mono: "x \<le> y \<Longrightarrow> js_le (fl x) (fl y)"
  using fl_val_mono[of x y] by (auto simp: fl_def Let_def js_le_def)


subsection \<open>Doubles: the values rounding leaves alone\<close>

text \<open>A \<open>Fin x\<close> is a value of the language when \<open>fl x = Fin x\<close>.\<close>

definition is_double :: "rat \<Rightarrow> bool" where
  "is_double x \<longleftrightarrow> fl x = Fin x"

lemma round_even_bound:
  assumes "\<bar>x\<bar> \<le> of_int n" shows "\<bar>round_even x\<bar> \<le> n"
  using round_even_mono[of x "of_int n"] round_even_mono[of "of_int (- n)" x] assms
  by (simp only: round_even_of_int) linarith

lemma fl_val_idem: "fl_val (fl_val x) = fl_val x"
proof (cases "x = 0")
  case True then show ?thesis by (simp add: fl_val_def round_even_def)
next
  case False
  obtain e where e: "e = ulp_exp x" by blast
  define n where "n = round_even (x / 2 powi e)"
  have v: "fl_val x = of_int n * 2 powi e" by (simp add: fl_val_def Let_def n_def e)
  have le: "-1074 \<le> e" and lg: "floor_log2 \<bar>x\<bar> + 1 \<le> 53 + e" by (auto simp: e ulp_exp_def)
  have "\<bar>x\<bar> \<le> 2 powi (floor_log2 \<bar>x\<bar> + 1)" using floor_log2_bounds(2)[of "\<bar>x\<bar>"] False by simp
  also have "\<dots> \<le> 2 powi (53 + e)" using lg by (intro power_int_increasing) auto
  also have "\<dots> = 2 ^ 53 * 2 powi e" by (simp add: power_int_add)
  finally have "\<bar>x / 2 powi e\<bar> \<le> of_int (2 ^ 53)" by (simp add: pos_divide_le_eq)
  then have n: "\<bar>n\<bar> \<le> 2 ^ 53" unfolding n_def by (rule round_even_bound)
  show ?thesis
  proof (cases "\<bar>n\<bar> = 2 ^ 53")
    case False
    with n have "\<bar>n\<bar> < 2 ^ 53" by linarith
    from fl_val_exact[OF v this le] show ?thesis .
  next
    case True
    then obtain s :: int where s: "n = s * 2 ^ 53" "\<bar>s\<bar> = 1"
      by (metis abs_mult_sgn abs_sgn_eq_1 abs_0 mult.commute power_eq_0_iff zero_neq_numeral)
    have "fl_val x = of_int s * 2 powi (53 + e)" unfolding v s by (simp add: power_int_add)
    from fl_val_exact[OF this] s(2) le show ?thesis by simp
  qed
qed

lemma fl_double: "fl x = Fin y \<Longrightarrow> is_double y"
  using fl_val_idem[of x] by (auto simp: is_double_def fl_def Let_def split: if_splits)

lemma fl_uminus: "fl (- x) = js_neg (fl x)"
proof -
  have "(0::rat) < 2 powi 1024" by (rule zero_less_power_int) simp
  then have "\<not> (2 powi 1024 \<le> v \<and> v \<le> - (2 powi 1024))" for v :: rat by linarith
  then show ?thesis by (auto simp: fl_def Let_def fl_val_uminus)
qed

lemma fl_not_NaN [simp]: "fl x \<noteq> NaN"
  by (simp add: fl_def Let_def)

lemma js_abs_fl: "js_abs (fl x) = fl \<bar>x\<bar>"
proof -
  have nn: "js_abs (fl y) = fl y" if "0 \<le> y" for y
    using fl_nonneg[OF that] by auto
  have "js_abs (js_neg a) = js_abs a" for a by (cases a) auto
  then show ?thesis using nn[of x] nn[of "- x"] by (cases "0 \<le> x") (auto simp: fl_uminus)
qed

subsection \<open>Sums of nonnegative numbers\<close>

lemma js_add_nonneg: "js_le (Fin 0) a \<Longrightarrow> 0 \<le> m \<Longrightarrow> js_le (Fin 0) (js_add a (Fin m))"
proof (cases a)
  case (Fin x)
  assume "js_le (Fin 0) a" "0 \<le> m"
  then have "0 \<le> x + m" using Fin by simp
  from fl_mono[OF this] show ?thesis using Fin by simp
qed (auto simp: js_le_def)

lemma js_add_finite_left: "js_le (Fin 0) a \<Longrightarrow> is_finite (js_add a (Fin m)) \<Longrightarrow> is_finite a"
  by (cases a) auto

lemma js_add_abs_le:
  assumes "js_le (js_abs a) (Fin g)"
  shows "js_le (js_abs (js_add a (Fin n))) (js_add (Fin g) (Fin \<bar>n\<bar>))"
proof (cases a)
  case (Fin x)
  have "\<bar>x + n\<bar> \<le> g + \<bar>n\<bar>" using assms Fin abs_triangle_ineq[of x n] by simp
  from fl_mono[OF this] show ?thesis using Fin by (simp add: js_abs_fl)
qed (use assms in \<open>auto simp: js_le_def\<close>)

lemma double_add_ge:
  assumes "is_double x" "0 \<le> y" "fl (x + y) = Fin z" shows "x \<le> z"
  using fl_mono[of x "x + y"] assms by (simp add: is_double_def)

subsection \<open>Finite operands\<close>

lemma finite_sign:
  "is_finite x \<Longrightarrow> \<not> js_le x (Fin 0) \<longleftrightarrow> js_gt x (Fin 0)"
  "is_finite x \<Longrightarrow> \<not> js_lt x (Fin a) \<longleftrightarrow> js_ge x (Fin a)"
  "is_finite x \<Longrightarrow> \<not> js_gt x (Fin a) \<longleftrightarrow> js_le x (Fin a)"
  by (auto simp: is_finite_iff)

lemma js_sub_finite_not_NaN: "is_finite a \<Longrightarrow> is_finite b \<Longrightarrow> js_sub a b \<noteq> NaN"
  by (auto simp: is_finite_iff js_sub_def)

lemma js_add_grows:
  assumes "js_le (Fin 0) (Fin g)" "is_double g" "0 \<le> m" "js_le a (Fin g)" "js_add (Fin g) (Fin m) = Fin z"
  shows "js_le a (Fin z)"
  using double_add_ge[OF assms(2,3)] assms(4,5) js_le_trans[of a "Fin g" "Fin z"] by simp

lemma js_add_double: "js_add a (Fin m) = Fin g \<Longrightarrow> is_double g"
  by (cases a) (auto dest: fl_double)

lemma js_max_nonneg_bound: "js_max (Fin 0) x \<noteq> NaN \<Longrightarrow> x \<noteq> NaN"
  by (auto simp: js_max_def)

lemma js_le_refl_finite: "is_finite a \<Longrightarrow> js_le a a"
  by (auto simp: is_finite_iff)

lemma js_max_finite: "is_finite a \<Longrightarrow> is_finite b \<Longrightarrow> is_finite (js_max a b)"
  by (auto simp: js_max_def is_finite_iff)

lemma js_max_not_NaN: "a \<noteq> NaN \<Longrightarrow> b \<noteq> NaN \<Longrightarrow> js_max a b \<noteq> NaN"
  by (auto simp: js_max_def)

lemma js_max_le: "is_finite a \<Longrightarrow> is_finite b \<Longrightarrow> js_le a (js_max a b) \<and> js_le b (js_max a b)"
  using js_max_ge by (metis is_finite.simps(2))

lemma js_le_NInf: "a \<noteq> NaN \<Longrightarrow> js_le NInf a"
  by (cases a) (auto simp: js_le_def)

lemma js_sub_le: "js_le v (Fin p) \<Longrightarrow> js_le (js_sub v (Fin x)) (js_sub (Fin p) (Fin x))"
  using fl_mono[of _ "p - x"] js_le_NInf[of "fl (p - x)"] by (cases v) (auto simp: js_sub_def js_le_def[of PInf])

subsection \<open>Rounding a value that is no double\<close>

text \<open>The nearest multiple of the unit of a value's binade is its rounding: how a concrete sum is evaluated.\<close>

lemma fl_nearest:
  assumes "2 powi (k + 52) \<le> x" "x < 2 powi (k + 53)" "-1074 \<le> k" "x < 2 powi 1023"
    and near: "\<bar>x - of_int m * 2 powi k\<bar> < 2 powi k / 2"
  shows "fl x = Fin (of_int m * 2 powi k)"
proof -
  have x: "0 < x" using assms(1) by (rule less_le_trans[rotated]) simp
  have "floor_log2 x = k + 52"
  proof (rule antisym)
    show "floor_log2 x \<le> k + 52" using floor_log2_less[OF x, of "k + 53"] assms(2) by simp
    show "k + 52 \<le> floor_log2 x"
    proof (rule ccontr)
      assume "\<not> ?thesis"
      then have "(2::rat) powi (floor_log2 x + 1) \<le> 2 powi (k + 52)" by (intro power_int_increasing) auto
      with floor_log2_bounds(2)[OF x] assms(1) show False by linarith
    qed
  qed
  then have u: "ulp_exp x = k" using x assms(3) by (simp add: ulp_exp_def)
  define p :: rat where "p = 2 powi k"
  have p: "0 < p" by (simp add: p_def)
  have "x - of_int m * p = (x / p - of_int m) * p" using p by (simp add: left_diff_distrib)
  then have "\<bar>x - of_int m * p\<bar> = \<bar>x / p - of_int m\<bar> * p" using p by (simp add: abs_mult)
  with near have "\<bar>x / p - of_int m\<bar> * p < (1/2) * p" by (simp add: p_def)
  then have r: "\<bar>x / p - of_int m\<bar> < 1/2" using p mult_less_cancel_right_pos[of p] by blast
  have "round_even (x / p) = m"
  proof -
    have "\<bar>of_int (round_even (x / p)) - of_int m\<bar> < (1 :: rat)" using round_even_near[of "x / p"] r by linarith
    then have "\<bar>of_int (round_even (x / p) - m)\<bar> < (1 :: rat)" by simp
    then show ?thesis by linarith
  qed
  then have v: "fl_val x = of_int m * 2 powi k" by (simp add: fl_val_def u p_def[symmetric] Let_def)
  have "2 powi k / 2 \<le> x"
  proof -
    have "(2::rat) powi k \<le> 2 powi (k + 52)" by (intro power_int_increasing) auto
    with assms(1) p show ?thesis by (simp add: p_def[symmetric])
  qed
  then have v2: "fl_val x < 2 * x \<and> 0 < fl_val x" using near v by linarith
  moreover have "(2::rat) powi 1024 = 2 * 2 powi 1023" using power_int_add[of "2::rat" 1 1023] by simp
  moreover have "(0::rat) < 2 powi 1024" by (rule zero_less_power_int) simp
  ultimately have "\<not> 2 powi 1024 \<le> fl_val x" "\<not> fl_val x \<le> - (2 powi 1024)" using assms(4) by linarith+
  then show ?thesis by (simp only: fl_def Let_def v if_False)
qed

end
