(* ===== verification/Prelude.thy ===== *)
theory Prelude
  imports JS_Numbers "HOL-Library.AList" "HOL-Library.Sublist"
begin

text \<open>
  What the components share: the collections of simplification rules, results with errors,
  JavaScript objects used as dictionaries (association lists in insertion order), the regular
  expressions and string functions the sources use, and UTC calendar dates.
\<close>

section \<open>Collections\<close>

named_theorems result_simps \<open>inversion of results: what a returned value says of the calls before it\<close>
named_theorems obj_simps \<open>reading and writing the fields of dictionary objects\<close>
named_theorems ledger_defs \<open>the operations of the risk ledger, unfolded\<close>
named_theorems journal_defs \<open>the operations of the execution journal, unfolded\<close>

section \<open>Results\<close>

text \<open>A call that may throw returns a sum, \<open>Inl\<close> the error; \<open>ebind\<close> is sequencing, where the first
  error ends the call.\<close>

definition ebind :: "'e + 'a \<Rightarrow> ('a \<Rightarrow> 'e + 'b) \<Rightarrow> 'e + 'b" where
  "ebind m f = (case m of Inl e \<Rightarrow> Inl e | Inr x \<Rightarrow> f x)"

definition assert_js :: "bool \<Rightarrow> 'e \<Rightarrow> 'e + unit" where
  "assert_js b e = (if b then Inr () else Inl e)"

definition emap_error :: "('e \<Rightarrow> 'f) \<Rightarrow> 'e + 'a \<Rightarrow> 'f + 'a" where
  "emap_error g m = (case m of Inl e \<Rightarrow> Inl (g e) | Inr x \<Rightarrow> Inr x)"

fun emap :: "('a \<Rightarrow> 'e + 'b) \<Rightarrow> 'a list \<Rightarrow> 'e + 'b list" where
  "emap f [] = Inr []"
| "emap f (x # xs) = ebind (f x) (\<lambda>y. ebind (emap f xs) (\<lambda>ys. Inr (y # ys)))"

fun efold :: "('a \<Rightarrow> 's \<Rightarrow> 'e + 's) \<Rightarrow> 'a list \<Rightarrow> 's \<Rightarrow> 'e + 's" where
  "efold f [] s = Inr s"
| "efold f (x # xs) s = ebind (f x s) (efold f xs)"

definition returns :: "'e + 'a \<Rightarrow> bool" where
  "returns m \<longleftrightarrow> (case m of Inl _ \<Rightarrow> False | Inr _ \<Rightarrow> True)"

lemma ebind_simps [simp]: "ebind (Inl e) f = Inl e" "ebind (Inr x) f = f x"
  by (simp_all add: ebind_def)

lemma ebind_Inr [result_simps]: "ebind m f = Inr y \<longleftrightarrow> (\<exists>x. m = Inr x \<and> f x = Inr y)"
  by (cases m) auto

lemma ebind_Inl: "ebind m f = Inl e \<longleftrightarrow> m = Inl e \<or> (\<exists>x. m = Inr x \<and> f x = Inl e)"
  by (cases m) auto

lemma assert_js_Inr [result_simps]: "assert_js b e = Inr u \<longleftrightarrow> b"
  by (simp add: assert_js_def)

lemma assert_js_simps [simp]: "assert_js True e = Inr ()" "assert_js False e = Inl e"
  by (simp_all add: assert_js_def)

lemma emap_error_Inr [result_simps]: "emap_error g m = Inr x \<longleftrightarrow> m = Inr x"
  by (cases m) (auto simp: emap_error_def)

lemma emap_error_simps [simp]: "emap_error g (Inl e) = Inl (g e)" "emap_error g (Inr x) = Inr x"
  by (simp_all add: emap_error_def)

lemma if_Inl_Inr [result_simps]:
  "(if b then Inl e else m) = Inr x \<longleftrightarrow> \<not> b \<and> m = Inr x"
  "(if b then m else Inl e) = Inr x \<longleftrightarrow> b \<and> m = Inr x"
  by auto

lemma returns_simps [simp]: "returns (Inr x)" "\<not> returns (Inl e)"
  by (simp_all add: returns_def)

lemma returns_iff: "returns m \<longleftrightarrow> (\<exists>x. m = Inr x)"
  by (cases m) auto

lemma efold_append: "efold f (xs @ ys) s = ebind (efold f xs s) (efold f ys)"
proof (induction xs arbitrary: s)
  case (Cons x xs)
  show ?case by (cases "f x s") (simp_all add: Cons.IH)
qed simp

lemma emap_length: "emap f xs = Inr ys \<Longrightarrow> length ys = length xs"
  by (induction xs arbitrary: ys) (auto simp: result_simps)

lemma emap_id: "(\<And>x. x \<in> set xs \<Longrightarrow> f x = Inr x) \<Longrightarrow> emap f xs = Inr xs"
  by (induction xs) auto

lemma emap_set: "emap f xs = Inr ys \<Longrightarrow> y \<in> set ys \<Longrightarrow> \<exists>x \<in> set xs. f x = Inr y"
  by (induction xs arbitrary: ys) (auto simp: result_simps)

section \<open>Objects used as dictionaries\<close>

text \<open>\<^verbatim>\<open>Record<string, T>\<close>: own keys in insertion order. Assigning an existing key keeps its place,
  a new key goes to the end, \<^verbatim>\<open>delete\<close> removes it. (JavaScript moves keys that are array indices to
  the front; the keys here are identifiers such as UUIDs, hashes and paths, where the order is
  insertion order.)\<close>

type_synonym 'v obj = "(string \<times> 'v) list"

definition obj_get :: "'v obj \<Rightarrow> string \<Rightarrow> 'v option" where
  "obj_get m k = map_of m k"

definition obj_set :: "'v obj \<Rightarrow> string \<Rightarrow> 'v \<Rightarrow> 'v obj" where
  "obj_set m k v = AList.update k v m"

definition obj_del :: "'v obj \<Rightarrow> string \<Rightarrow> 'v obj" where
  "obj_del m k = filter (\<lambda>kv. fst kv \<noteq> k) m"

abbreviation obj_keys :: "'v obj \<Rightarrow> string list" where
  "obj_keys m \<equiv> map fst m"

abbreviation obj_values :: "'v obj \<Rightarrow> 'v list" where
  "obj_values m \<equiv> map snd m"

lemma obj_get_Nil [simp]: "obj_get [] k = None"
  by (simp add: obj_get_def)

lemma obj_get_Cons [simp]: "obj_get ((k', v) # m) k = (if k = k' then Some v else obj_get m k)"
  by (simp add: obj_get_def)

lemma obj_get_None: "obj_get m k = None \<longleftrightarrow> k \<notin> set (obj_keys m)"
  by (simp add: obj_get_def map_of_eq_None_iff)

lemma obj_get_Some_mem: "obj_get m k = Some v \<Longrightarrow> (k, v) \<in> set m"
  by (simp add: obj_get_def map_of_SomeD)

lemma obj_get_distinct: "distinct (obj_keys m) \<Longrightarrow> obj_get m k = Some v \<longleftrightarrow> (k, v) \<in> set m"
  by (simp add: obj_get_def)

lemma obj_get_set [obj_simps, simp]: "obj_get (obj_set m k v) k' = (if k' = k then Some v else obj_get m k')"
  by (simp add: obj_get_def obj_set_def update_conv)

lemma obj_get_del [obj_simps, simp]: "obj_get (obj_del m k) k' = (if k' = k then None else obj_get m k')"
  by (induction m) (auto simp: obj_get_def obj_del_def)

lemma obj_set_new: "k \<notin> set (obj_keys m) \<Longrightarrow> obj_set m k v = m @ [(k, v)]"
  by (induction m) (auto simp: obj_set_def)

lemma obj_del_absent: "k \<notin> set (obj_keys m) \<Longrightarrow> obj_del m k = m"
  by (induction m) (auto simp: obj_del_def)

lemma obj_del_new: "k \<notin> set (obj_keys m) \<Longrightarrow> obj_del (m @ [(k, v)]) k = m"
  using obj_del_absent[of k m] by (simp add: obj_del_def)

lemma obj_keys_del [obj_simps]: "obj_keys (obj_del m k) = filter (\<lambda>x. x \<noteq> k) (obj_keys m)"
  by (induction m) (auto simp: obj_del_def)

lemma obj_set_mem: "(k, v) \<in> set (obj_set m k' v') \<Longrightarrow> (k = k' \<and> v = v') \<or> (k, v) \<in> set m"
  by (induction m) (auto simp: obj_set_def split: if_splits)

lemma distinct_obj_set: "distinct (obj_keys m) \<Longrightarrow> distinct (obj_keys (obj_set m k v))"
  by (simp add: obj_set_def distinct_update)

lemma distinct_obj_del: "distinct (obj_keys m) \<Longrightarrow> distinct (obj_keys (obj_del m k))"
  by (simp add: obj_keys_del)

lemma obj_keys_set [obj_simps]: "set (obj_keys (obj_set m k v)) = insert k (set (obj_keys m))"
  by (induction m) (auto simp: obj_set_def)

section \<open>JSON values\<close>

text \<open>A value of type \<^verbatim>\<open>unknown\<close> read from a file or a model: what the validators look into.\<close>

datatype json =
    J_undefined | J_null | J_bool bool | J_num jsnum | J_str string
  | J_arr "json list" | J_obj "(string \<times> json) list"

definition jget :: "json obj \<Rightarrow> string \<Rightarrow> json" where
  "jget r k = (case obj_get r k of None \<Rightarrow> J_undefined | Some v \<Rightarrow> v)"

text \<open>The \<^verbatim>\<open>typeof\<close> tests of the validators: the payload of a value of the wanted type.\<close>

fun read_number :: "json \<Rightarrow> jsnum option" where
  "read_number (J_num n) = Some n" | "read_number _ = None"

fun read_string :: "json \<Rightarrow> string option" where
  "read_string (J_str s) = Some s" | "read_string _ = None"

fun read_array :: "json \<Rightarrow> json list option" where
  "read_array (J_arr vs) = Some vs" | "read_array _ = None"

fun read_object :: "json \<Rightarrow> json obj option" where
  "read_object (J_obj r) = Some r" | "read_object _ = None"

lemma read_json_Some [simp]:
  "read_number v = Some n \<longleftrightarrow> v = J_num n" "read_string v = Some s \<longleftrightarrow> v = J_str s"
  "read_array v = Some vs \<longleftrightarrow> v = J_arr vs" "read_object v = Some r \<longleftrightarrow> v = J_obj r"
  by (cases v; simp)+

section \<open>Strings\<close>

text \<open>Strings are lists of characters. The sources match identifiers, symbols and dates, all ASCII,
  with these character classes and anchored expressions.\<close>

definition is_digit :: "char \<Rightarrow> bool" where
  "is_digit c \<longleftrightarrow> c \<in> set ''0123456789''"

definition is_upper :: "char \<Rightarrow> bool" where
  "is_upper c \<longleftrightarrow> c \<in> set ''ABCDEFGHIJKLMNOPQRSTUVWXYZ''"

definition is_lower :: "char \<Rightarrow> bool" where
  "is_lower c \<longleftrightarrow> c \<in> set ''abcdefghijklmnopqrstuvwxyz''"

text \<open>\<^verbatim>\<open>/^[A-Za-z0-9_-]{1,80}$/\<close>\<close>

definition is_identifier :: "string \<Rightarrow> bool" where
  "is_identifier s \<longleftrightarrow> s \<noteq> [] \<and> length s \<le> 80 \<and>
     list_all (\<lambda>c. is_upper c \<or> is_lower c \<or> is_digit c \<or> c \<in> set ''_-'') s"

text \<open>\<^verbatim>\<open>/^[A-Z0-9_-]+$/\<close>, a quote currency\<close>

definition currency_code :: "string \<Rightarrow> bool" where
  "currency_code s \<longleftrightarrow> s \<noteq> [] \<and> list_all (\<lambda>c. is_upper c \<or> is_digit c \<or> c \<in> set ''_-'') s"

text \<open>\<^verbatim>\<open>/^[a-z-]{1,80}$/\<close>, an audit action\<close>

definition action_name :: "string \<Rightarrow> bool" where
  "action_name s \<longleftrightarrow> s \<noteq> [] \<and> length s \<le> 80 \<and> list_all (\<lambda>c. is_lower c \<or> c = CHR ''-'') s"

text \<open>\<^verbatim>\<open>/^\d{4}-\d{2}-\d{2}$/\<close>, a calendar date\<close>

definition date_format :: "string \<Rightarrow> bool" where
  "date_format s \<longleftrightarrow> length s = 10 \<and> s ! 4 = CHR ''-'' \<and> s ! 7 = CHR ''-'' \<and>
     list_all is_digit (take 4 s) \<and> list_all is_digit (take 2 (drop 5 s)) \<and> list_all is_digit (drop 8 s)"

text \<open>\<^verbatim>\<open>text.split(c)\<close> for one character\<close>

fun split_on :: "char \<Rightarrow> string \<Rightarrow> string list" where
  "split_on c [] = [[]]"
| "split_on c (x # xs) =
     (if x = c then [] # split_on c xs
      else case split_on c xs of [] \<Rightarrow> [[x]] | w # ws \<Rightarrow> (x # w) # ws)"

definition is_space :: "char \<Rightarrow> bool" where
  "is_space c \<longleftrightarrow> c \<in> {CHR '' '', CHR 0x09, CHR 0x0A, CHR 0x0B, CHR 0x0C, CHR 0x0D, CHR 0xA0}"

text \<open>\<^verbatim>\<open>text.trim() === ""\<close>\<close>

definition is_blank :: "string \<Rightarrow> bool" where
  "is_blank s \<longleftrightarrow> list_all is_space s"

text \<open>\<^verbatim>\<open>list.slice(-n)\<close> for a positive \<open>n\<close>\<close>

definition slice_last :: "nat \<Rightarrow> 'a list \<Rightarrow> 'a list" where
  "slice_last n xs = drop (length xs - n) xs"

lemma length_slice_last: "length (slice_last n xs) = min n (length xs)"
  by (simp add: slice_last_def)

lemma slice_last_short: "length xs \<le> n \<Longrightarrow> slice_last n xs = xs"
  by (simp add: slice_last_def)

lemma set_slice_last: "set (slice_last n xs) \<subseteq> set xs"
  by (simp add: slice_last_def set_drop_subset)

lemma split_on_nonempty [simp]: "split_on c s \<noteq> []"
  by (induction s) (auto split: list.splits)

section \<open>UTC dates\<close>

text \<open>\<^verbatim>\<open>new Date(t).toISOString().slice(0, 10)\<close>: the proleptic Gregorian date of a time value in
  milliseconds; \<open>None\<close> is the \<^verbatim>\<open>RangeError\<close> of an invalid date. Years outside 0 to 9999 are written with
  a sign and six digits, so the slice cuts them short.\<close>

definition civil_from_days :: "int \<Rightarrow> int \<times> int \<times> int" where
  "civil_from_days z =
     (let z' = z + 719468; era = z' div 146097; doe = z' mod 146097;
          yoe = (doe - doe div 1460 + doe div 36524 - doe div 146096) div 365;
          doy = doe - (365 * yoe + yoe div 4 - yoe div 100);
          mp = (5 * doy + 2) div 153;
          d = doy - (153 * mp + 2) div 5 + 1;
          m = (if mp < 10 then mp + 3 else mp - 9)
      in (yoe + era * 400 + (if m \<le> 2 then 1 else 0), m, d))"

definition digit_char :: "int \<Rightarrow> char" where
  "digit_char n = ''0123456789'' ! nat (n mod 10)"

fun pad_digits :: "nat \<Rightarrow> int \<Rightarrow> string" where
  "pad_digits 0 n = []"
| "pad_digits (Suc w) n = pad_digits w (n div 10) @ [digit_char n]"

definition time_in_range :: "jsnum \<Rightarrow> bool" where
  "time_in_range t \<longleftrightarrow> (case t of Fin x \<Rightarrow> \<bar>x\<bar> \<le> 8640000000000000 | _ \<Rightarrow> False)"

definition truncate_rat :: "rat \<Rightarrow> int" where
  "truncate_rat x = (if 0 \<le> x then \<lfloor>x\<rfloor> else \<lceil>x\<rceil>)"

fun iso_date :: "jsnum \<Rightarrow> string option" where
  "iso_date (Fin x) =
     (if time_in_range (Fin x) then
        (case civil_from_days (truncate_rat x div 86400000) of (y, m, d) \<Rightarrow>
           Some (take 10
             ((if 0 \<le> y \<and> y \<le> 9999 then pad_digits 4 y
               else (if y < 0 then CHR ''-'' else CHR ''+'') # pad_digits 6 \<bar>y\<bar>)
              @ ''-'' @ pad_digits 2 m @ ''-'' @ pad_digits 2 d)))
      else None)"
| "iso_date _ = None"

lemma length_pad_digits [simp]: "length (pad_digits w n) = w"
  by (induction w arbitrary: n) auto

lemma digit_char_is_digit: "is_digit (digit_char n)"
proof -
  have "nat (n mod 10) < length ''0123456789''" by simp
  then have "digit_char n \<in> set ''0123456789''" unfolding digit_char_def by (rule nth_mem)
  then show ?thesis by (simp add: is_digit_def)
qed

lemma pad_digits_digits: "list_all is_digit (pad_digits w n)"
  by (induction w arbitrary: n) (auto simp: digit_char_is_digit)

text \<open>Every date of the years 0 to 9999 has the format the stored dates are checked for.\<close>

lemma date_format_pad: "date_format (pad_digits 4 y @ ''-'' @ pad_digits 2 m @ ''-'' @ pad_digits 2 d)"
  by (simp add: date_format_def nth_append pad_digits_digits)

definition date_in_four_digit_years :: "jsnum \<Rightarrow> bool" where
  "date_in_four_digit_years t \<longleftrightarrow>
     (case t of Fin x \<Rightarrow> (case civil_from_days (truncate_rat x div 86400000) of (y, _, _) \<Rightarrow> 0 \<le> y \<and> y \<le> 9999)
      | _ \<Rightarrow> False)"

lemma iso_date_format:
  assumes "time_in_range t" "date_in_four_digit_years t"
  obtains s where "iso_date t = Some s" "date_format s"
proof (cases t)
  case (Fin x)
  obtain y m d where "civil_from_days (truncate_rat x div 86400000) = (y, m, d)"
    by (metis prod_cases3)
  with assms Fin that date_format_pad[of y m d] show ?thesis
    by (auto simp: date_in_four_digit_years_def)
qed (use assms in \<open>auto simp: time_in_range_def\<close>)

lemma iso_date_four_digits:
  assumes "date_in_four_digit_years t" "iso_date t = Some s" shows "date_format s"
proof (cases t)
  case (Fin x)
  obtain y m d where "civil_from_days (truncate_rat x div 86400000) = (y, m, d)"
    by (metis prod_cases3)
  with assms Fin date_format_pad[of y m d] show ?thesis
    by (auto simp: date_in_four_digit_years_def split: if_splits)
qed (use assms in auto)

lemma iso_date_epoch: "iso_date (Fin 0) = Some ''1970-01-01''"
  by code_simp

declare iso_date.simps [simp del]

text \<open>Decimal digits of an index, as template literals print it.\<close>

fun show_nat :: "nat \<Rightarrow> string" where
  "show_nat n = (if n < 10 then [digit_char (int n)] else show_nat (n div 10) @ [digit_char (int n)])"

declare show_nat.simps [simp del]


end
