(* ===== verification/Triggers.thy ===== *)
theory Triggers
  imports Prelude
begin

text \<open>
  The trigger package: three-valued evaluation of conditions over market facts
  (\<^verbatim>\<open>packages/triggers/src/evaluator.ts\<close>), the trigger state machine and the validation of
  untrusted trigger definitions (\<^verbatim>\<open>packages/triggers/src/schema.ts\<close>).
  \<^verbatim>\<open>Date.parse\<close>, whose accepted formats are left to the implementation beyond ISO dates, is the
  parameter \<open>parse\<close>.
\<close>

section \<open>Data model (model.ts)\<close>

datatype tri_state = T_true | T_false | T_unknown

datatype compare_operator = Op_eq | Op_neq | Op_gt | Op_gte | Op_lt | Op_lte

definition MAX_CHANGE_WINDOW_SEC :: jsnum where
  "MAX_CHANGE_WINDOW_SEC = Fin (60 * 60)"

definition CHANGE_WINDOW_BASELINE_TOLERANCE_MS :: jsnum where
  "CHANGE_WINDOW_BASELINE_TOLERANCE_MS = Fin 15000"

datatype scalar = V_num jsnum | V_str string | V_bool bool

datatype direction = Above | Below

datatype change_unit = Absolute | Percent

text \<open>\<open>C_other\<close> is an object whose kind is none of the known ones: the evaluator has a branch for it.\<close>

datatype condition =
    C_time string
  | C_compare string compare_operator scalar
  | C_cross string direction jsnum
  | C_change string jsnum compare_operator jsnum change_unit
  | C_all "condition list"
  | C_any "condition list"
  | C_not condition
  | C_stable_for condition jsnum
  | C_other string

record trigger_policy =
  policy_mode :: "string option"
  policy_cooldownSec :: "jsnum option"
  policy_expiresAt :: "string option"

datatype trigger_action_kind = Notify | Wake_agent

record trigger_definition =
  trigger_id :: string
  trigger_name :: string
  when_cond :: condition
  then_kind :: trigger_action_kind
  then_message :: string
  def_policy :: "trigger_policy option"

datatype trigger_status = Active | Fired | Expired

record runtime_state =
  rt_status :: trigger_status
  rt_armed :: bool
  rt_baseline :: "jsnum option"
  rt_stableSince :: "jsnum option"
  rt_stableSinceByPath :: "jsnum obj option"
  rt_lastFiredAt :: "jsnum option"
  rt_lastEvaluationAt :: "jsnum option"

record fact_history_sample =
  sample_value :: jsnum
  sample_observedAt :: jsnum

record fact_value =
  fact_scalar :: scalar
  fact_observedAt :: jsnum
  fact_previousValue :: "jsnum option"
  fact_previousObservedAt :: "jsnum option"
  fact_history :: "fact_history_sample list option"

type_synonym fact_snapshot = "fact_value obj"

type_synonym stable_state = "jsnum obj"

record evaluation =
  verdict :: tri_state
  reason :: "string option"

record transition_result =
  tr_state :: runtime_state
  tr_evaluation :: evaluation
  shouldFire :: bool

section \<open>Evaluator options\<close>

record evaluator_options =
  maxAgeMs :: "jsnum option"
  futureToleranceMs :: "jsnum option"
  maxChangeWindowSec :: "jsnum option"
  changeBaselineToleranceMs :: "jsnum option"

record required_options =
  o_maxAgeMs :: jsnum
  o_futureToleranceMs :: jsnum
  o_maxChangeWindowSec :: jsnum
  o_changeBaselineToleranceMs :: jsnum

definition DEFAULT_OPTIONS :: required_options where
  "DEFAULT_OPTIONS =
     \<lparr>o_maxAgeMs = Fin (5 * 60000), o_futureToleranceMs = Fin 5000,
      o_maxChangeWindowSec = MAX_CHANGE_WINDOW_SEC,
      o_changeBaselineToleranceMs = CHANGE_WINDOW_BASELINE_TOLERANCE_MS\<rparr>"

datatype trigger_error = Evaluation_time_not_finite | Invalid_option string

definition option_ok :: "jsnum \<Rightarrow> bool" where
  "option_ok v \<longleftrightarrow> is_finite v \<and> \<not> js_lt v (Fin 0)"

definition normalizeOptions :: "evaluator_options \<Rightarrow> trigger_error + required_options" where
  "normalizeOptions opts =
     (let pick = (\<lambda>v d. case v of None \<Rightarrow> d | Some x \<Rightarrow> x);
          next = \<lparr>o_maxAgeMs = pick (maxAgeMs opts) (o_maxAgeMs DEFAULT_OPTIONS),
                  o_futureToleranceMs = pick (futureToleranceMs opts) (o_futureToleranceMs DEFAULT_OPTIONS),
                  o_maxChangeWindowSec = pick (maxChangeWindowSec opts) (o_maxChangeWindowSec DEFAULT_OPTIONS),
                  o_changeBaselineToleranceMs =
                    pick (changeBaselineToleranceMs opts) (o_changeBaselineToleranceMs DEFAULT_OPTIONS)\<rparr>
      in if \<not> option_ok (o_maxAgeMs next) then Inl (Invalid_option ''maxAgeMs'')
         else if \<not> option_ok (o_futureToleranceMs next) then Inl (Invalid_option ''futureToleranceMs'')
         else if \<not> option_ok (o_maxChangeWindowSec next) then Inl (Invalid_option ''maxChangeWindowSec'')
         else if \<not> option_ok (o_changeBaselineToleranceMs next)
           then Inl (Invalid_option ''changeBaselineToleranceMs'')
         else Inr next)"

section \<open>Leaf conditions\<close>

definition of_bool_tri :: "bool \<Rightarrow> tri_state" where
  "of_bool_tri b = (if b then T_true else T_false)"

fun strict_equal :: "scalar \<Rightarrow> scalar \<Rightarrow> bool" where
  "strict_equal (V_num a) (V_num b) = js_eq a b"
| "strict_equal (V_str a) (V_str b) = (a = b)"
| "strict_equal (V_bool a) (V_bool b) = (a = b)"
| "strict_equal _ _ = False"

fun order_compare :: "jsnum \<Rightarrow> compare_operator \<Rightarrow> jsnum \<Rightarrow> tri_state" where
  "order_compare l Op_gt r = of_bool_tri (js_gt l r)"
| "order_compare l Op_gte r = of_bool_tri (js_ge l r)"
| "order_compare l Op_lt r = of_bool_tri (js_lt l r)"
| "order_compare l _ r = of_bool_tri (js_le l r)"

definition compare :: "scalar option \<Rightarrow> compare_operator \<Rightarrow> scalar \<Rightarrow> tri_state" where
  "compare left operator right =
     (case left of
        None \<Rightarrow> T_unknown
      | Some l \<Rightarrow>
          if (case l of V_num n \<Rightarrow> \<not> is_finite n | _ \<Rightarrow> False) then T_unknown
          else if operator = Op_eq then of_bool_tri (strict_equal l right)
          else if operator = Op_neq then of_bool_tri (\<not> strict_equal l right)
          else (case (l, right) of
                  (V_num a, V_num b) \<Rightarrow> if is_finite b then order_compare a operator b else T_unknown
                | _ \<Rightarrow> T_unknown))"

definition validObservation :: "fact_value option \<Rightarrow> jsnum \<Rightarrow> required_options \<Rightarrow> bool" where
  "validObservation obs now opts =
     (case obs of
        None \<Rightarrow> False
      | Some f \<Rightarrow>
          is_finite (fact_observedAt f) \<and> js_ge (fact_observedAt f) (Fin 0) \<and>
          js_le (fact_observedAt f) (js_add now (o_futureToleranceMs opts)) \<and>
          js_le (js_sub now (fact_observedAt f)) (o_maxAgeMs opts))"

definition validPreviousObservation :: "fact_value \<Rightarrow> jsnum \<Rightarrow> required_options \<Rightarrow> bool" where
  "validPreviousObservation f now opts =
     (case (fact_previousValue f, fact_previousObservedAt f) of
        (Some v, Some t) \<Rightarrow>
          is_finite v \<and> is_finite t \<and> js_ge t (Fin 0) \<and> js_lt t (fact_observedAt f) \<and>
          js_le t (js_add now (o_futureToleranceMs opts)) \<and> js_le (js_sub now t) (o_maxAgeMs opts)
      | _ \<Rightarrow> False)"

definition baseline_candidate :: "fact_value \<Rightarrow> jsnum \<Rightarrow> required_options \<Rightarrow> fact_history_sample \<Rightarrow> bool" where
  "baseline_candidate f targetAt opts s \<longleftrightarrow>
     \<not> (\<not> is_finite (sample_value s) \<or> \<not> is_finite (sample_observedAt s) \<or>
        js_lt (sample_observedAt s) (Fin 0) \<or> js_ge (sample_observedAt s) (fact_observedAt f) \<or>
        js_gt (sample_observedAt s) targetAt \<or>
        js_gt (js_sub targetAt (sample_observedAt s)) (o_changeBaselineToleranceMs opts))"

fun latest_candidate ::
  "(fact_history_sample \<Rightarrow> bool) \<Rightarrow> fact_history_sample list \<Rightarrow> fact_history_sample option \<Rightarrow> fact_history_sample option"
where
  "latest_candidate ok [] best = best"
| "latest_candidate ok (s # ss) best =
     latest_candidate ok ss
       (if \<not> ok s then best
        else case best of None \<Rightarrow> Some s
             | Some b \<Rightarrow> if js_gt (sample_observedAt s) (sample_observedAt b) then Some s else best)"

definition baseline_samples :: "fact_value \<Rightarrow> fact_history_sample list" where
  "baseline_samples f =
     (case (fact_previousValue f, fact_previousObservedAt f) of
        (Some v, Some t) \<Rightarrow>
          if is_finite v \<and> is_finite t then [\<lparr>sample_value = v, sample_observedAt = t\<rparr>] else []
      | _ \<Rightarrow> []) @ (case fact_history f of None \<Rightarrow> [] | Some h \<Rightarrow> h)"

definition changeBaseline :: "fact_value \<Rightarrow> jsnum \<Rightarrow> required_options \<Rightarrow> fact_history_sample option" where
  "changeBaseline f windowSec opts =
     (if \<not> is_finite windowSec \<or> js_le windowSec (Fin 0) \<or> js_gt windowSec (o_maxChangeWindowSec opts) then None
      else let targetAt = js_sub (fact_observedAt f) (js_mul windowSec (Fin 1000))
           in latest_candidate (baseline_candidate f targetAt opts) (baseline_samples f) None)"

definition eval_time :: "(string \<Rightarrow> jsnum) \<Rightarrow> string \<Rightarrow> jsnum \<Rightarrow> evaluation" where
  "eval_time parse at_text now =
     (if is_finite (parse at_text) then \<lparr>verdict = of_bool_tri (js_ge now (parse at_text)), reason = None\<rparr>
      else \<lparr>verdict = T_unknown, reason = Some ''invalid time''\<rparr>)"

definition eval_compare ::
  "fact_snapshot \<Rightarrow> jsnum \<Rightarrow> required_options \<Rightarrow> string \<Rightarrow> compare_operator \<Rightarrow> scalar \<Rightarrow> evaluation" where
  "eval_compare facts now opts key operator v =
     (let obs = obj_get facts key
      in if validObservation obs now opts
         then \<lparr>verdict = compare (map_option fact_scalar obs) operator v, reason = None\<rparr>
         else \<lparr>verdict = T_unknown, reason = Some ''observation is stale or invalid''\<rparr>)"

definition crossed :: "direction \<Rightarrow> jsnum \<Rightarrow> jsnum \<Rightarrow> jsnum \<Rightarrow> bool" where
  "crossed d previous current level =
     (case d of Above \<Rightarrow> js_le previous level \<and> js_gt current level
      | Below \<Rightarrow> js_ge previous level \<and> js_lt current level)"

definition eval_cross ::
  "fact_snapshot \<Rightarrow> jsnum \<Rightarrow> required_options \<Rightarrow> string \<Rightarrow> direction \<Rightarrow> jsnum \<Rightarrow> evaluation" where
  "eval_cross facts now opts key d level =
     (case obj_get facts key of
        Some f \<Rightarrow>
          (case (fact_scalar f, fact_previousValue f) of
             (V_num current, Some previous) \<Rightarrow>
               if validObservation (Some f) now opts \<and> is_finite current \<and> validPreviousObservation f now opts
               then \<lparr>verdict = of_bool_tri (crossed d previous current level), reason = None\<rparr>
               else \<lparr>verdict = T_unknown, reason = Some ''cross baseline unavailable''\<rparr>
           | _ \<Rightarrow> \<lparr>verdict = T_unknown, reason = Some ''cross baseline unavailable''\<rparr>)
      | None \<Rightarrow> \<lparr>verdict = T_unknown, reason = Some ''cross baseline unavailable''\<rparr>)"

definition change_value :: "change_unit \<Rightarrow> jsnum \<Rightarrow> jsnum \<Rightarrow> jsnum option" where
  "change_value u current base =
     (if u = Percent
      then if js_eq base (Fin 0) then None
           else Some (js_mul (js_div (js_sub current base) (js_abs base)) (Fin 100))
      else Some (js_sub current base))"

definition eval_change ::
  "fact_snapshot \<Rightarrow> jsnum \<Rightarrow> required_options \<Rightarrow> string \<Rightarrow> jsnum \<Rightarrow> compare_operator \<Rightarrow> jsnum \<Rightarrow>
   change_unit \<Rightarrow> evaluation" where
  "eval_change facts now opts key windowSec operator v u =
     (let unavailable = \<lparr>verdict = T_unknown, reason = Some ''change window unavailable''\<rparr>
      in case obj_get facts key of
           None \<Rightarrow> unavailable
         | Some f \<Rightarrow>
             (case fact_scalar f of
                V_num current \<Rightarrow>
                  if \<not> validObservation (Some f) now opts \<or> \<not> is_finite current \<or> \<not> is_finite windowSec \<or>
                     js_le windowSec (Fin 0) \<or> js_gt windowSec (o_maxChangeWindowSec opts)
                  then unavailable
                  else (case changeBaseline f windowSec opts of
                          None \<Rightarrow> unavailable
                        | Some b \<Rightarrow>
                            \<lparr>verdict = (case change_value u current (sample_value b) of
                                          None \<Rightarrow> T_unknown
                                        | Some c \<Rightarrow> compare (Some (V_num c)) operator (V_num v)),
                             reason = None\<rparr>)
              | _ \<Rightarrow> unavailable))"

section \<open>Composite conditions\<close>

definition child_path :: "string \<Rightarrow> string \<Rightarrow> string" where
  "child_path path name = path @ ''.'' @ name"

fun not_tri :: "tri_state \<Rightarrow> tri_state" where
  "not_tri T_unknown = T_unknown" | "not_tri T_true = T_false" | "not_tri T_false = T_true"

definition all_tri :: "tri_state list \<Rightarrow> tri_state" where
  "all_tri results =
     (if T_false \<in> set results then T_false
      else if list_all (\<lambda>s. s = T_true) results then T_true else T_unknown)"

definition any_tri :: "tri_state list \<Rightarrow> tri_state" where
  "any_tri results =
     (if T_true \<in> set results then T_true
      else if list_all (\<lambda>s. s = T_false) results then T_false else T_unknown)"

definition stable_step ::
  "jsnum \<Rightarrow> jsnum \<Rightarrow> string \<Rightarrow> tri_state \<Rightarrow> stable_state \<Rightarrow> tri_state \<times> stable_state" where
  "stable_step now durationSec path inner states =
     (let since = (if inner = T_true
                   then Some (case obj_get states path of None \<Rightarrow> now | Some t \<Rightarrow> t) else None);
          next = (case since of None \<Rightarrow> obj_del states path | Some t \<Rightarrow> obj_set states path t)
      in (if (case since of None \<Rightarrow> False | Some t \<Rightarrow> js_ge (js_sub now t) (js_mul durationSec (Fin 1000)))
          then T_true else if inner = T_unknown then T_unknown else T_false, next))"

record eval_env =
  env_parse :: "string \<Rightarrow> jsnum"
  env_facts :: fact_snapshot
  env_now :: jsnum
  env_opts :: required_options

definition plain :: "tri_state \<Rightarrow> evaluation" where
  "plain t = \<lparr>verdict = t, reason = None\<rparr>"

fun evaluate :: "eval_env \<Rightarrow> condition \<Rightarrow> stable_state \<Rightarrow> string \<Rightarrow> evaluation \<times> stable_state"
and evaluate_children ::
  "eval_env \<Rightarrow> condition list \<Rightarrow> nat \<Rightarrow> stable_state \<Rightarrow> string \<Rightarrow> tri_state list \<times> stable_state"
where
  "evaluate E (C_time t) states path = (eval_time (env_parse E) t (env_now E), states)"
| "evaluate E (C_compare key operator v) states path =
     (eval_compare (env_facts E) (env_now E) (env_opts E) key operator v, states)"
| "evaluate E (C_cross key d level) states path =
     (eval_cross (env_facts E) (env_now E) (env_opts E) key d level, states)"
| "evaluate E (C_change key windowSec operator v u) states path =
     (eval_change (env_facts E) (env_now E) (env_opts E) key windowSec operator v u, states)"
| "evaluate E (C_not c) states path =
     (case evaluate E c states (child_path path ''0'') of
        (inner, states') \<Rightarrow> (plain (not_tri (verdict inner)), states'))"
| "evaluate E (C_all cs) states path =
     (case evaluate_children E cs 0 states path of (results, states') \<Rightarrow> (plain (all_tri results), states'))"
| "evaluate E (C_any cs) states path =
     (case evaluate_children E cs 0 states path of (results, states') \<Rightarrow> (plain (any_tri results), states'))"
| "evaluate E (C_stable_for c durationSec) states path =
     (case evaluate E c states (child_path path ''condition'') of
        (inner, states') \<Rightarrow>
          (case stable_step (env_now E) durationSec path (verdict inner) states' of
             (t, states'') \<Rightarrow> (plain t, states'')))"
| "evaluate E (C_other kind) states path =
     (\<lparr>verdict = T_unknown, reason = Some (''unsupported condition kind: '' @ kind)\<rparr>, states)"
| "evaluate_children E [] index states path = ([], states)"
| "evaluate_children E (c # cs) index states path =
     (case evaluate E c states (child_path path (show_nat index)) of
        (r, states') \<Rightarrow>
          (case evaluate_children E cs (Suc index) states' path of
             (rs, states'') \<Rightarrow> (verdict r # rs, states'')))"

record condition_evaluation = evaluation +
  ce_stableSince :: "jsnum option"
  ce_stableSinceByPath :: stable_state

definition evaluateCondition ::
  "(string \<Rightarrow> jsnum) \<Rightarrow> condition \<Rightarrow> fact_snapshot \<Rightarrow> jsnum \<Rightarrow> jsnum option \<Rightarrow> evaluator_options \<Rightarrow>
   stable_state option \<Rightarrow> trigger_error + condition_evaluation" where
  "evaluateCondition parse c facts now since opts byPath =
     (if \<not> is_finite now then Inl Evaluation_time_not_finite
      else
        let initial0 = (case byPath of None \<Rightarrow> [] | Some m \<Rightarrow> m);
            initial = (case since of
                         None \<Rightarrow> initial0
                       | Some t \<Rightarrow> if obj_get initial0 ''$'' = None then obj_set initial0 ''$'' t else initial0)
        in ebind (normalizeOptions opts) (\<lambda>o'.
             case evaluate \<lparr>env_parse = parse, env_facts = facts, env_now = now, env_opts = o'\<rparr> c initial ''$'' of
               (r, states) \<Rightarrow>
                 Inr \<lparr>verdict = verdict r, reason = reason r,
                      ce_stableSince = obj_get states ''$'', ce_stableSinceByPath = states\<rparr>))"

section \<open>The trigger state machine\<close>

definition parse_expiry :: "(string \<Rightarrow> jsnum) \<Rightarrow> trigger_definition \<Rightarrow> jsnum option" where
  "parse_expiry parse d =
     (case def_policy d of
        None \<Rightarrow> None
      | Some p \<Rightarrow> (case policy_expiresAt p of None \<Rightarrow> None | Some s \<Rightarrow> if s = [] then None else Some (parse s)))"

definition trigger_mode :: "trigger_definition \<Rightarrow> string" where
  "trigger_mode d =
     (case def_policy d of None \<Rightarrow> ''on_edge'' | Some p \<Rightarrow> (case policy_mode p of None \<Rightarrow> ''on_edge'' | Some m \<Rightarrow> m))"

definition trigger_cooldown :: "trigger_definition \<Rightarrow> jsnum" where
  "trigger_cooldown d =
     (case def_policy d of None \<Rightarrow> Fin 0 | Some p \<Rightarrow> (case policy_cooldownSec p of None \<Rightarrow> Fin 0 | Some s \<Rightarrow> s))"

definition cooled :: "runtime_state \<Rightarrow> jsnum \<Rightarrow> jsnum \<Rightarrow> bool" where
  "cooled previous now cooldown =
     (case rt_lastFiredAt previous of
        None \<Rightarrow> True | Some t \<Rightarrow> js_ge (js_sub now t) (js_mul cooldown (Fin 1000)))"

definition transitionTrigger ::
  "(string \<Rightarrow> jsnum) \<Rightarrow> trigger_definition \<Rightarrow> runtime_state \<Rightarrow> fact_snapshot \<Rightarrow> jsnum \<Rightarrow> evaluator_options \<Rightarrow>
   trigger_error + transition_result" where
  "transitionTrigger parse d previous facts now opts =
     (if \<not> is_finite now then Inl Evaluation_time_not_finite
      else if rt_status previous \<noteq> Active then
        Inr \<lparr>tr_state = previous,
             tr_evaluation = plain (if rt_status previous = Expired then T_false else T_unknown),
             shouldFire = False\<rparr>
      else
        let expires = parse_expiry parse d;
            unknown_because = (\<lambda>why.
              Inr \<lparr>tr_state = previous\<lparr>rt_lastEvaluationAt := Some now\<rparr>,
                   tr_evaluation = \<lparr>verdict = T_unknown, reason = Some why\<rparr>, shouldFire = False\<rparr>)
        in if (case expires of None \<Rightarrow> False | Some t \<Rightarrow> \<not> is_finite t) then unknown_because ''invalid expiry''
           else if (case expires of None \<Rightarrow> False | Some t \<Rightarrow> js_ge now t) then
             Inr \<lparr>tr_state = previous\<lparr>rt_status := Expired, rt_lastEvaluationAt := Some now\<rparr>,
                  tr_evaluation = \<lparr>verdict = T_false, reason = Some ''expired''\<rparr>, shouldFire = False\<rparr>
           else
             ebind (evaluateCondition parse (when_cond d) facts now (rt_stableSince previous) opts
                      (rt_stableSinceByPath previous)) (\<lambda>ev.
               let m = trigger_mode d
               in if m \<noteq> ''once'' \<and> m \<noteq> ''on_edge'' \<and> m \<noteq> ''while_true'' then unknown_because ''invalid trigger mode''
                  else
                    let cd = trigger_cooldown d
                    in if \<not> is_finite cd \<or> js_lt cd (Fin 0) then unknown_because ''invalid cooldown''
                       else
                         let fire = (verdict ev = T_true \<and> cooled previous now cd \<and>
                                     (m = ''once'' \<or> m = ''while_true'' \<or> rt_armed previous));
                             next = previous\<lparr>rt_lastEvaluationAt := Some now,
                                             rt_stableSince := ce_stableSince ev,
                                             rt_stableSinceByPath := Some (ce_stableSinceByPath ev),
                                             rt_armed := (if verdict ev = T_unknown then rt_armed previous
                                                       else verdict ev \<noteq> T_true)\<rparr>;
                             next' = (if fire
                                      then next\<lparr>rt_lastFiredAt := Some now,
                                                rt_status := (if m = ''once'' then Fired else rt_status next)\<rparr>
                                      else next)
                         in Inr \<lparr>tr_state = next',
                                 tr_evaluation = \<lparr>verdict = verdict ev, reason = reason ev\<rparr>,
                                 shouldFire = fire\<rparr>))"


section \<open>Validation of untrusted definitions (schema.ts)\<close>

definition compareOperators :: "string list" where
  "compareOperators = [''eq'', ''neq'', ''gt'', ''gte'', ''lt'', ''lte'']"

definition record_check :: "json \<Rightarrow> string + json obj" where
  "record_check v = (case read_object v of Some r \<Rightarrow> Inr r | None \<Rightarrow> Inl ''Invalid trigger condition'')"

definition finite_check :: "json \<Rightarrow> string \<Rightarrow> string + jsnum" where
  "finite_check v name =
     (case read_number v of
        Some n \<Rightarrow> if is_finite n then Inr n else Inl (name @ '' must be finite'')
      | None \<Rightarrow> Inl (name @ '' must be finite''))"

definition nonblank_string :: "json \<Rightarrow> bool" where
  "nonblank_string v = (case read_string v of Some s \<Rightarrow> \<not> is_blank s | None \<Rightarrow> False)"

definition fact_check :: "json \<Rightarrow> string + unit" where
  "fact_check v =
     ebind (record_check v) (\<lambda>ref. assert_js (nonblank_string (jget ref ''key'')) ''Fact key must be non-empty'')"

definition date_check :: "(string \<Rightarrow> jsnum) \<Rightarrow> json \<Rightarrow> string \<Rightarrow> string + unit" where
  "date_check parse v name =
     assert_js (case read_string v of Some s \<Rightarrow> \<not> is_blank s \<and> is_finite (parse s) | None \<Rightarrow> False)
       (name @ '' must be a valid date'')"

definition operator_check :: "json \<Rightarrow> string \<Rightarrow> string + unit" where
  "operator_check v message =
     assert_js (case read_string v of Some s \<Rightarrow> s \<in> set compareOperators | None \<Rightarrow> False) message"

definition validate_compare :: "json obj \<Rightarrow> string + unit" where
  "validate_compare r =
     ebind (fact_check (jget r ''fact'')) (\<lambda>_.
     ebind (operator_check (jget r ''operator'') ''Invalid compare operator'') (\<lambda>_.
       case jget r ''value'' of
         J_num n \<Rightarrow> assert_js (is_finite n) ''Compare value must be finite''
       | J_str _ \<Rightarrow> Inr ()
       | J_bool _ \<Rightarrow> Inr ()
       | _ \<Rightarrow> Inl ''Invalid compare value''))"

definition validate_cross :: "json obj \<Rightarrow> string + unit" where
  "validate_cross r =
     ebind (fact_check (jget r ''fact'')) (\<lambda>_.
     ebind (finite_check (jget r ''value'') ''Condition value'') (\<lambda>_.
       assert_js (jget r ''direction'' = J_str ''above'' \<or> jget r ''direction'' = J_str ''below'')
         ''Invalid cross direction''))"

definition validate_change :: "json obj \<Rightarrow> string + unit" where
  "validate_change r =
     ebind (fact_check (jget r ''fact'')) (\<lambda>_.
     ebind (finite_check (jget r ''value'') ''Condition value'') (\<lambda>_.
       case read_number (jget r ''windowSec'') of
         Some w \<Rightarrow>
           if \<not> is_finite w \<or> js_le w (Fin 0) then Inl ''Change windowSec must be positive''
           else if js_gt w MAX_CHANGE_WINDOW_SEC then Inl ''Change windowSec must not exceed 3600''
           else ebind (assert_js (jget r ''unit'' = J_str ''absolute'' \<or> jget r ''unit'' = J_str ''percent'')
                         ''Invalid change unit'') (\<lambda>_.
                operator_check (jget r ''operator'') ''Invalid change operator'')
       | None \<Rightarrow> Inl ''Change windowSec must be positive''))"

definition count_atom :: "nat \<Rightarrow> string + nat" where
  "count_atom atoms = (if 30 < Suc atoms then Inl ''Trigger has too many atomic conditions'' else Inr (Suc atoms))"

function validateCondition :: "(string \<Rightarrow> jsnum) \<Rightarrow> json \<Rightarrow> nat \<Rightarrow> nat \<Rightarrow> string + nat"
and validate_children :: "(string \<Rightarrow> jsnum) \<Rightarrow> json list \<Rightarrow> nat \<Rightarrow> nat \<Rightarrow> string + nat" where
  "validateCondition parse v depth atoms =
     (if 5 < depth then Inl ''Trigger condition nesting is too deep''
      else ebind (record_check v) (\<lambda>r.
        case read_string (jget r ''kind'') of
          Some kind \<Rightarrow>
            if kind = ''time'' then
              ebind (date_check parse (jget r ''at'') ''Condition time'') (\<lambda>_. count_atom atoms)
            else if kind = ''compare'' then ebind (validate_compare r) (\<lambda>_. count_atom atoms)
            else if kind = ''cross'' then ebind (validate_cross r) (\<lambda>_. count_atom atoms)
            else if kind = ''change'' then ebind (validate_change r) (\<lambda>_. count_atom atoms)
            else if kind = ''all'' \<or> kind = ''any'' then
              (case read_array (jget r ''conditions'') of
                 Some cs \<Rightarrow>
                   if cs = [] \<or> 10 < length cs then Inl ''Logical condition must contain 1 to 10 conditions''
                   else validate_children parse cs (Suc depth) atoms
               | None \<Rightarrow> Inl ''Logical condition must contain 1 to 10 conditions'')
            else if kind = ''not'' then validateCondition parse (jget r ''condition'') (Suc depth) atoms
            else if kind = ''stable_for'' then
              ebind (finite_check (jget r ''durationSec'') ''stable_for durationSec'') (\<lambda>d.
                if js_le d (Fin 0) then Inl ''stable_for durationSec must be positive''
                else validateCondition parse (jget r ''condition'') (Suc depth) atoms)
            else Inl (''Unsupported condition: '' @ kind)
        | None \<Rightarrow> Inl ''Condition kind is required''))"
| "validate_children parse [] depth atoms = Inr atoms"
| "validate_children parse (c # cs) depth atoms =
     ebind (validateCondition parse c depth atoms) (\<lambda>atoms'. validate_children parse cs depth atoms')"
  by pat_completeness auto
termination
  by (relation "measures
       [\<lambda>x. case x of Inl (_, _, d, _) \<Rightarrow> 7 - d | Inr (_, _, d, _) \<Rightarrow> 7 - d,
        \<lambda>x. case x of Inl _ \<Rightarrow> 0 | Inr (_, cs, _, _) \<Rightarrow> Suc (length cs)]") auto

declare validateCondition.simps [simp del]

text \<open>\<^verbatim>\<open>String(v)\<close> where it can give the name of a mode: a string, or an array of one such value
  (\<open>None\<close> for every other text).\<close>

fun coerced_string :: "json \<Rightarrow> string option" where
  "coerced_string (J_str s) = Some s"
| "coerced_string (J_arr [v]) = coerced_string v"
| "coerced_string _ = None"

definition optional_json :: "json \<Rightarrow> (json \<Rightarrow> string + unit) \<Rightarrow> string + unit" where
  "optional_json v f = (if v = J_undefined then Inr () else f v)"

definition validate_policy :: "(string \<Rightarrow> jsnum) \<Rightarrow> json \<Rightarrow> string + unit" where
  "validate_policy parse v =
     ebind (record_check v) (\<lambda>p.
     ebind (optional_json (jget p ''mode'') (\<lambda>m.
              assert_js (coerced_string m \<in> {Some ''once'', Some ''on_edge'', Some ''while_true''}) ''Invalid trigger mode'')) (\<lambda>_.
     ebind (optional_json (jget p ''cooldownSec'') (\<lambda>c.
              ebind (finite_check c ''cooldownSec'') (\<lambda>n.
                assert_js (\<not> js_lt n (Fin 0)) ''cooldownSec must not be negative''))) (\<lambda>_.
       optional_json (jget p ''expiresAt'') (\<lambda>e. date_check parse e ''expiresAt''))))"

definition validateTriggerDefinition :: "(string \<Rightarrow> jsnum) \<Rightarrow> json \<Rightarrow> string + unit" where
  "validateTriggerDefinition parse v =
     ebind (record_check v) (\<lambda>t.
     ebind (assert_js (nonblank_string (jget t ''id'')) ''Trigger id must be non-empty'') (\<lambda>_.
     ebind (assert_js (nonblank_string (jget t ''name'')) ''Trigger name must be non-empty'') (\<lambda>_.
     ebind (validateCondition parse (jget t ''when'') 0 0) (\<lambda>_.
     ebind (record_check (jget t ''then'')) (\<lambda>a.
     ebind (assert_js (jget a ''kind'' = J_str ''notify'' \<or> jget a ''kind'' = J_str ''wake_agent'')
              ''Invalid trigger action'') (\<lambda>_.
     ebind (assert_js (nonblank_string (jget a ''message'')) ''Trigger message must be non-empty'') (\<lambda>_.
       optional_json (jget t ''policy'') (validate_policy parse))))))))"

text \<open>The value a validated condition stands for, read off the JSON: what the assertion signature of the
  validator promises its callers.\<close>

fun read_operator :: "json \<Rightarrow> compare_operator option" where
  "read_operator (J_str s) =
     (if s = ''eq'' then Some Op_eq else if s = ''neq'' then Some Op_neq else if s = ''gt'' then Some Op_gt
      else if s = ''gte'' then Some Op_gte else if s = ''lt'' then Some Op_lt
      else if s = ''lte'' then Some Op_lte else None)"
| "read_operator _ = None"

fun read_scalar :: "json \<Rightarrow> scalar option" where
  "read_scalar (J_num n) = Some (V_num n)"
| "read_scalar (J_str s) = Some (V_str s)"
| "read_scalar (J_bool b) = Some (V_bool b)"
| "read_scalar _ = None"

definition read_key :: "json \<Rightarrow> string option" where
  "read_key v = Option.bind (read_object v) (\<lambda>r. read_string (jget r ''key''))"

fun sequence_options :: "'a option list \<Rightarrow> 'a list option" where
  "sequence_options [] = Some []"
| "sequence_options (x # xs) =
     Option.bind x (\<lambda>y. Option.bind (sequence_options xs) (\<lambda>ys. Some (y # ys)))"

primrec read_condition :: "nat \<Rightarrow> json \<Rightarrow> condition option" where
  "read_condition 0 v = None"
| "read_condition (Suc fuel) v =
     Option.bind (read_object v) (\<lambda>r. Option.bind (read_string (jget r ''kind'')) (\<lambda>kind.
               if kind = ''time'' then map_option C_time (read_string (jget r ''at''))
               else if kind = ''compare'' then
                 Option.bind (read_key (jget r ''fact'')) (\<lambda>k.
                 Option.bind (read_operator (jget r ''operator'')) (\<lambda>op.
                 Option.bind (read_scalar (jget r ''value'')) (\<lambda>x. Some (C_compare k op x))))
               else if kind = ''cross'' then
                 Option.bind (read_key (jget r ''fact'')) (\<lambda>k.
                 Option.bind (read_number (jget r ''value'')) (\<lambda>x.
                   Some (C_cross k (if jget r ''direction'' = J_str ''above'' then Above else Below) x)))
               else if kind = ''change'' then
                 Option.bind (read_key (jget r ''fact'')) (\<lambda>k.
                 Option.bind (read_number (jget r ''windowSec'')) (\<lambda>w.
                 Option.bind (read_operator (jget r ''operator'')) (\<lambda>op.
                 Option.bind (read_number (jget r ''value'')) (\<lambda>x.
                   Some (C_change k w op x (if jget r ''unit'' = J_str ''percent'' then Percent else Absolute))))))
               else if kind = ''all'' \<or> kind = ''any'' then
                 Option.bind (read_array (jget r ''conditions'')) (\<lambda>cs.
                   map_option (if kind = ''all'' then C_all else C_any)
                     (sequence_options (map (read_condition fuel) cs)))
               else if kind = ''not'' then map_option C_not (read_condition fuel (jget r ''condition''))
               else if kind = ''stable_for'' then
                 Option.bind (read_number (jget r ''durationSec'')) (\<lambda>d.
                   map_option (\<lambda>c. C_stable_for c d) (read_condition fuel (jget r ''condition'')))
               else Some (C_other kind)))"

fun cond_atoms :: "condition \<Rightarrow> nat" where
  "cond_atoms (C_all cs) = sum_list (map cond_atoms cs)"
| "cond_atoms (C_any cs) = sum_list (map cond_atoms cs)"
| "cond_atoms (C_not c) = cond_atoms c"
| "cond_atoms (C_stable_for c _) = cond_atoms c"
| "cond_atoms _ = 1"

fun cond_depth :: "condition \<Rightarrow> nat" where
  "cond_depth (C_all cs) = Suc (fold max (map cond_depth cs) 0)"
| "cond_depth (C_any cs) = Suc (fold max (map cond_depth cs) 0)"
| "cond_depth (C_not c) = Suc (cond_depth c)"
| "cond_depth (C_stable_for c _) = Suc (cond_depth c)"
| "cond_depth _ = 0"

text \<open>The semantic conditions of validated leaves: dates that parse, finite levels and windows in
  range.\<close>

fun cond_valid :: "(string \<Rightarrow> jsnum) \<Rightarrow> condition \<Rightarrow> bool" where
  "cond_valid parse (C_time t) = is_finite (parse t)"
| "cond_valid parse (C_compare k op x) = (\<not> is_blank k \<and> (case x of V_num n \<Rightarrow> is_finite n | _ \<Rightarrow> True))"
| "cond_valid parse (C_cross k d x) = (\<not> is_blank k \<and> is_finite x)"
| "cond_valid parse (C_change k w op x u) =
     (\<not> is_blank k \<and> is_finite w \<and> js_gt w (Fin 0) \<and> js_le w MAX_CHANGE_WINDOW_SEC \<and> is_finite x)"
| "cond_valid parse (C_all cs) = (1 \<le> length cs \<and> length cs \<le> 10 \<and> list_all (cond_valid parse) cs)"
| "cond_valid parse (C_any cs) = (1 \<le> length cs \<and> length cs \<le> 10 \<and> list_all (cond_valid parse) cs)"
| "cond_valid parse (C_not c) = cond_valid parse c"
| "cond_valid parse (C_stable_for c d) = (is_finite d \<and> js_gt d (Fin 0) \<and> cond_valid parse c)"
| "cond_valid parse (C_other _) = False"



text \<open>A run of the monitor: the trigger is stepped at each event, a fact snapshot with its time. The
  trace holds, for every step, the time, the verdict and whether the trigger fired.\<close>

fun trigger_run ::
  "(string \<Rightarrow> jsnum) \<Rightarrow> trigger_definition \<Rightarrow> evaluator_options \<Rightarrow> (fact_snapshot \<times> jsnum) list \<Rightarrow> runtime_state \<Rightarrow>
   trigger_error + (runtime_state \<times> (jsnum \<times> tri_state \<times> bool) list)" where
  "trigger_run parse d opts [] st = Inr (st, [])"
| "trigger_run parse d opts ((facts, now) # evs) st =
     ebind (transitionTrigger parse d st facts now opts) (\<lambda>r.
       ebind (trigger_run parse d opts evs (tr_state r)) (\<lambda>(st', trace).
         Inr (st', (now, verdict (tr_evaluation r), shouldFire r) # trace)))"

definition fire_times :: "(jsnum \<times> tri_state \<times> bool) list \<Rightarrow> jsnum list" where
  "fire_times trace = map fst (filter (\<lambda>(_, _, fired). fired) trace)"

section \<open>Firing\<close>

lemma transition_inactive:
  "rt_status st \<noteq> Active \<Longrightarrow> transitionTrigger parse d st facts now opts = Inr r \<Longrightarrow>
   tr_state r = st \<and> \<not> shouldFire r"
  by (auto simp: transitionTrigger_def split: if_splits)

lemma transition_fires:
  assumes "transitionTrigger parse d st facts now opts = Inr r" and "shouldFire r"
  shows "verdict (tr_evaluation r) = T_true" and "rt_status st = Active"
    and "cooled st now (trigger_cooldown d)" and "rt_lastFiredAt (tr_state r) = Some now"
    and "trigger_mode d = ''on_edge'' \<Longrightarrow> rt_armed st" and "\<not> rt_armed (tr_state r)"
    and "trigger_mode d = ''once'' \<Longrightarrow> rt_status (tr_state r) = Fired"
  using assms
  by (auto simp: transitionTrigger_def Let_def result_simps split: if_splits)

lemma transition_quiet:
  assumes "transitionTrigger parse d st facts now opts = Inr r" and "\<not> shouldFire r"
  shows "rt_lastFiredAt (tr_state r) = rt_lastFiredAt st"
    and "rt_armed (tr_state r) \<Longrightarrow> rt_armed st \<or> verdict (tr_evaluation r) = T_false"
  using assms
  by (auto simp: transitionTrigger_def Let_def plain_def result_simps split: if_splits;
      metis tri_state.exhaust)+

lemma trigger_run_Cons:
  assumes "trigger_run parse d opts ((facts, now) # evs) st = Inr (st', trace)"
  obtains r trace' where "transitionTrigger parse d st facts now opts = Inr r"
    and "trigger_run parse d opts evs (tr_state r) = Inr (st', trace')"
    and "trace = (now, verdict (tr_evaluation r), shouldFire r) # trace'"
  using assms by (auto simp: result_simps split: prod.splits)

lemma run_inactive_quiet:
  assumes "rt_status st \<noteq> Active" and "trigger_run parse d opts evs st = Inr (st', trace)"
  shows "fire_times trace = []"
  using assms
proof (induction evs arbitrary: st trace)
  case (Cons e evs)
  obtain facts now where e: "e = (facts, now)" by (cases e)
  from Cons.prems(2)[unfolded e] show ?case
    by (rule trigger_run_Cons)
       (use Cons transition_inactive in \<open>fastforce simp: fire_times_def\<close>)
qed (simp add: fire_times_def)

definition cool_gap :: "trigger_definition \<Rightarrow> jsnum \<Rightarrow> jsnum \<Rightarrow> bool" where
  "cool_gap d t t' \<longleftrightarrow> js_ge (js_sub t' t) (js_mul (trigger_cooldown d) (Fin 1000))"

text \<open>C1. A trigger fires only when its condition is true, and the times at which it fires keep the
  cooldown: over any run from any state, each firing is at least \<open>cooldownSec\<close> seconds after the one
  before it, the last one before the run included.\<close>

theorem trigger_cooldown_respected:
  assumes "trigger_run parse d opts evs st = Inr (st', trace)"
  shows "successively (cool_gap d)
           ((case rt_lastFiredAt st of None \<Rightarrow> [] | Some t \<Rightarrow> [t]) @ fire_times trace)
       \<and> (\<forall>(now, v, fired) \<in> set trace. fired \<longrightarrow> v = T_true)"
  using assms
proof (induction evs arbitrary: st trace)
  case Nil
  then show ?case by (auto simp: fire_times_def split: option.splits)
next
  case (Cons e evs)
  obtain facts now where e: "e = (facts, now)" by (cases e)
  from Cons.prems[unfolded e] obtain r trace' where
    r: "transitionTrigger parse d st facts now opts = Inr r" and
    run: "trigger_run parse d opts evs (tr_state r) = Inr (st', trace')" and
    trace: "trace = (now, verdict (tr_evaluation r), shouldFire r) # trace'"
    by (rule trigger_run_Cons)
  note IH = Cons.IH[OF run]
  show ?case
  proof (cases "shouldFire r")
    case True
    note f = transition_fires[OF r True]
    show ?thesis
      using IH f(1,3,4) True
      by (auto simp: trace fire_times_def cooled_def cool_gap_def split: option.splits)
  next
    case False
    note q = transition_quiet[OF r False]
    show ?thesis using IH q(1) False by (auto simp: trace fire_times_def)
  qed
qed


text \<open>A trigger in mode \<open>once\<close> fires at most once over any run.\<close>

theorem once_fires_at_most_once:
  assumes "trigger_run parse d opts evs st = Inr (st', trace)" and "trigger_mode d = ''once''"
  shows "length (fire_times trace) \<le> 1"
  using assms
proof (induction evs arbitrary: st trace)
  case (Cons e evs)
  obtain facts now where e: "e = (facts, now)" by (cases e)
  from Cons.prems(1)[unfolded e] obtain r trace' where
    r: "transitionTrigger parse d st facts now opts = Inr r" and
    run: "trigger_run parse d opts evs (tr_state r) = Inr (st', trace')" and
    trace: "trace = (now, verdict (tr_evaluation r), shouldFire r) # trace'"
    by (rule trigger_run_Cons)
  show ?case
  proof (cases "shouldFire r")
    case True
    with transition_fires(7)[OF r True] Cons.prems(2) have "rt_status (tr_state r) \<noteq> Active" by simp
    from run_inactive_quiet[OF this run] show ?thesis by (simp add: trace fire_times_def True)
  next
    case False
    then show ?thesis using Cons.IH[OF run Cons.prems(2)] by (simp add: trace fire_times_def)
  qed
qed (simp add: fire_times_def)

text \<open>An edge trigger that is disarmed, as it is after every firing, does not fire again until its
  condition has been observed to be false: a run without a false verdict is a run without a firing.\<close>

theorem edge_needs_false_between_fires:
  assumes "trigger_run parse d opts evs st = Inr (st', trace)" and "trigger_mode d = ''on_edge''"
    and "\<not> rt_armed st" and "\<forall>(now, v, fired) \<in> set trace. v \<noteq> T_false"
  shows "fire_times trace = []"
  using assms
proof (induction evs arbitrary: st trace)
  case (Cons e evs)
  obtain facts now where e: "e = (facts, now)" by (cases e)
  from Cons.prems(1)[unfolded e] obtain r trace' where
    r: "transitionTrigger parse d st facts now opts = Inr r" and
    run: "trigger_run parse d opts evs (tr_state r) = Inr (st', trace')" and
    trace: "trace = (now, verdict (tr_evaluation r), shouldFire r) # trace'"
    by (rule trigger_run_Cons)
  have no: "\<not> shouldFire r" using transition_fires(5)[OF r] Cons.prems(2,3) by blast
  have "\<not> rt_armed (tr_state r)"
    using transition_quiet(2)[OF r no] Cons.prems(3,4) by (auto simp: trace)
  then have "fire_times trace' = []" using Cons.IH[OF run Cons.prems(2)] Cons.prems(4) by (simp add: trace)
  with no show ?case by (simp add: trace fire_times_def)
qed (simp add: fire_times_def)

section \<open>Paths of nested conditions\<close>

definition under :: "string \<Rightarrow> string \<Rightarrow> bool" where
  "under p q \<longleftrightarrow> q = p \<or> prefix (p @ ''.'') q"

lemma under_refl [simp]: "under p p" by (simp add: under_def)

lemma under_child: "under (child_path p n) q \<Longrightarrow> under p q \<and> q \<noteq> p"
  by (auto simp: under_def child_path_def prefix_def)

lemma takeWhile_child:
  assumes "CHR ''.'' \<notin> set n" and "under (child_path p n) q"
  shows "takeWhile (\<lambda>c. c \<noteq> CHR ''.'') (drop (Suc (length p)) q) = n"
proof -
  have "\<exists>r. q = p @ ''.'' @ n @ r \<and> (r = [] \<or> hd r = CHR ''.'')"
    using assms(2) by (auto simp: under_def child_path_def prefix_def)
  then obtain r where r: "q = p @ ''.'' @ n @ r" "r = [] \<or> hd r = CHR ''.''" by blast
  have "takeWhile (\<lambda>c. c \<noteq> CHR ''.'') (n @ r) = n @ takeWhile (\<lambda>c. c \<noteq> CHR ''.'') r"
    using assms(1) by (intro takeWhile_append2) auto
  moreover have "takeWhile (\<lambda>c. c \<noteq> CHR ''.'') r = []" using r(2) by (cases r) auto
  ultimately show ?thesis using r(1) by simp
qed

lemma under_siblings:
  "CHR ''.'' \<notin> set n \<Longrightarrow> CHR ''.'' \<notin> set m \<Longrightarrow> n \<noteq> m \<Longrightarrow> under (child_path p n) q \<Longrightarrow>
   \<not> under (child_path p m) q"
  using takeWhile_child by metis

definition digit_value :: "char \<Rightarrow> nat" where
  "digit_value c = of_char c - 48"

lemma digit_value_char: "digit_value (digit_char (int n)) = n mod 10"
proof -
  have "\<forall>k < 10. digit_value (''0123456789'' ! k) = k" by code_simp
  then have "digit_value (''0123456789'' ! (n mod 10)) = n mod 10" by simp
  then show ?thesis by (simp add: digit_char_def nat_mod_distrib)
qed

lemma foldl_show_nat: "foldl (\<lambda>a c. 10 * a + digit_value c) 0 (show_nat n) = n"
proof (induction n rule: show_nat.induct)
  case (1 n)
  show ?case
    by (cases "n < 10") (simp_all add: show_nat.simps[of n] digit_value_char 1)
qed

lemma show_nat_inj: "show_nat i = show_nat j \<Longrightarrow> i = j"
  by (metis foldl_show_nat)

lemma show_nat_no_dot: "CHR ''.'' \<notin> set (show_nat n)"
proof (induction n rule: show_nat.induct)
  case (1 n)
  have d: "digit_char k \<noteq> CHR ''.''" for k
    using digit_char_is_digit[of k] by (auto simp: is_digit_def)
  show ?case using 1 d[of "int n", THEN not_sym] by (cases "n < 10") (simp_all add: show_nat.simps[of n])
qed

lemmas sibling_disjoint = under_siblings[OF show_nat_no_dot show_nat_no_dot]


section \<open>Unknown observations never decide a verdict\<close>

text \<open>A node writes the stable state of its own path and of the paths below it only.\<close>

lemma evaluate_frame:
  "evaluate E c st p = (r, st') \<Longrightarrow> \<not> under p q \<Longrightarrow> obj_get st' q = obj_get st q"
  "evaluate_children E cs i st p = (rs, st') \<Longrightarrow>
     (\<forall>j \<ge> i. \<not> under (child_path p (show_nat j)) q) \<Longrightarrow> obj_get st' q = obj_get st q"
proof (induction E c st p and E cs i st p arbitrary: r st' and rs st'
       rule: evaluate_evaluate_children.induct)
  case (5 E c states path)
  then show ?case using under_child by (fastforce split: prod.splits)
next
  case (6 E cs states path)
  then show ?case using under_child by (fastforce split: prod.splits)
next
  case (7 E cs states path)
  then show ?case using under_child by (fastforce split: prod.splits)
next
  case (8 E c dur states path)
  obtain inner st1 where i: "evaluate E c states (child_path path ''condition'') = (inner, st1)" by fastforce
  have "obj_get st1 q = obj_get states q" using 8 i under_child by blast
  then show ?case using 8(2,3) i
    by (auto simp: stable_step_def Let_def under_def split: if_splits option.splits)
next
  case (11 E c cs i states path)
  obtain r1 st1 where e: "evaluate E c states (child_path path (show_nat i)) = (r1, st1)" by fastforce
  obtain rs2 st2 where e2: "evaluate_children E cs (Suc i) st1 path = (rs2, st2)" by fastforce
  have "obj_get st1 q = obj_get states q" using 11(1)[OF e] 11(4) by blast
  moreover have "obj_get st2 q = obj_get st1 q" using 11(2)[OF e[symmetric] e2] 11(4) by simp
  ultimately show ?case using 11(3) e e2 by simp
qed auto

definition less_defined :: "tri_state \<Rightarrow> tri_state \<Rightarrow> bool" where
  "less_defined a b \<longleftrightarrow> a = T_unknown \<or> a = b"

definition forgets :: "fact_snapshot \<Rightarrow> fact_snapshot \<Rightarrow> bool" where
  "forgets f g \<longleftrightarrow> (\<forall>k. obj_get f k = None \<or> obj_get f k = obj_get g k)"

definition states_agree :: "string \<Rightarrow> stable_state \<Rightarrow> stable_state \<Rightarrow> bool" where
  "states_agree p s t \<longleftrightarrow> (\<forall>q. under p q \<longrightarrow> obj_get s q = obj_get t q)"

lemma less_defined_leaf:
  assumes "forgets f g"
  shows "less_defined (verdict (eval_compare f now opts k op v)) (verdict (eval_compare g now opts k op v))"
    and "less_defined (verdict (eval_cross f now opts k dir l)) (verdict (eval_cross g now opts k dir l))"
    and "less_defined (verdict (eval_change f now opts k w op x u)) (verdict (eval_change g now opts k w op x u))"
proof -
  have c: "obj_get f k = None \<or> obj_get f k = obj_get g k" using assms by (simp add: forgets_def)
  then show "less_defined (verdict (eval_compare f now opts k op v)) (verdict (eval_compare g now opts k op v))"
    by (auto simp: eval_compare_def less_defined_def validObservation_def)
  from c show "less_defined (verdict (eval_cross f now opts k dir l)) (verdict (eval_cross g now opts k dir l))"
    by (auto simp: eval_cross_def less_defined_def)
  from c show "less_defined (verdict (eval_change f now opts k w op x u)) (verdict (eval_change g now opts k w op x u))"
    by (auto simp: eval_change_def less_defined_def)
qed

lemma less_defined_not: "less_defined a b \<Longrightarrow> less_defined (not_tri a) (not_tri b)"
  by (auto simp: less_defined_def)

lemma list_all2_less_defined_true:
  "list_all2 less_defined as bs \<Longrightarrow> list_all (\<lambda>s. s = t) as \<Longrightarrow> t \<noteq> T_unknown \<Longrightarrow> list_all (\<lambda>s. s = t) bs"
  by (induction as bs rule: list_all2_induct) (auto simp: less_defined_def)

lemma list_all2_less_defined_mem:
  "list_all2 less_defined as bs \<Longrightarrow> t \<in> set as \<Longrightarrow> t \<noteq> T_unknown \<Longrightarrow> t \<in> set bs"
  by (induction as bs rule: list_all2_induct) (auto simp: less_defined_def)

lemma less_defined_all: "list_all2 less_defined as bs \<Longrightarrow> less_defined (all_tri as) (all_tri bs)"
  using list_all2_less_defined_true[of as bs T_true] list_all2_less_defined_mem[of as bs T_false]
  by (auto simp: less_defined_def all_tri_def list_all_iff)

lemma less_defined_any: "list_all2 less_defined as bs \<Longrightarrow> less_defined (any_tri as) (any_tri bs)"
  using list_all2_less_defined_true[of as bs T_false] list_all2_less_defined_mem[of as bs T_true]
  by (auto simp: less_defined_def any_tri_def list_all_iff)

lemma less_defined_stable:
  "less_defined a b \<Longrightarrow> obj_get s p = obj_get t p \<Longrightarrow>
   less_defined (fst (stable_step now d p a s)) (fst (stable_step now d p b t))"
  by (auto simp: less_defined_def stable_step_def Let_def split: option.splits)

lemma states_agree_child: "states_agree p s t \<Longrightarrow> states_agree (child_path p n) s t"
  using under_child by (auto simp: states_agree_def)

lemma evaluate_less_defined:
  assumes "forgets f g"
  shows "states_agree p s t \<Longrightarrow>
      less_defined (verdict (fst (evaluate (E\<lparr>env_facts := f\<rparr>) c s p)))
                   (verdict (fst (evaluate (E\<lparr>env_facts := g\<rparr>) c t p)))"
    and "(\<And>j. i \<le> j \<Longrightarrow> states_agree (child_path p (show_nat j)) s t) \<Longrightarrow>
      list_all2 less_defined (fst (evaluate_children (E\<lparr>env_facts := f\<rparr>) cs i s p))
                             (fst (evaluate_children (E\<lparr>env_facts := g\<rparr>) cs i t p))"
proof (induction "E\<lparr>env_facts := f\<rparr>" c s p and "E\<lparr>env_facts := f\<rparr>" cs i s p arbitrary: t and t
       rule: evaluate_evaluate_children.induct)
  case (1 a s p)
  then show ?case by (simp add: less_defined_def)
next
  case (5 c s p)
  have "less_defined (verdict (fst (evaluate (E\<lparr>env_facts := f\<rparr>) c s (child_path p ''0''))))
                     (verdict (fst (evaluate (E\<lparr>env_facts := g\<rparr>) c t (child_path p ''0''))))"
    using 5(1) states_agree_child[OF 5(2)] by blast
  then show ?case using less_defined_not by (auto simp: plain_def split: prod.splits)
next
  case (6 cs s p)
  have "list_all2 less_defined (fst (evaluate_children (E\<lparr>env_facts := f\<rparr>) cs 0 s p))
                               (fst (evaluate_children (E\<lparr>env_facts := g\<rparr>) cs 0 t p))"
    using 6(1) states_agree_child[OF 6(2)] by blast
  then show ?case using less_defined_all by (auto simp: plain_def split: prod.splits)
next
  case (7 cs s p)
  have "list_all2 less_defined (fst (evaluate_children (E\<lparr>env_facts := f\<rparr>) cs 0 s p))
                               (fst (evaluate_children (E\<lparr>env_facts := g\<rparr>) cs 0 t p))"
    using 7(1) states_agree_child[OF 7(2)] by blast
  then show ?case using less_defined_any by (auto simp: plain_def split: prod.splits)
next
  case (8 c d s p)
  obtain r1 s1 where e1: "evaluate (E\<lparr>env_facts := f\<rparr>) c s (child_path p ''condition'') = (r1, s1)" by fastforce
  obtain r2 t1 where e2: "evaluate (E\<lparr>env_facts := g\<rparr>) c t (child_path p ''condition'') = (r2, t1)" by fastforce
  have n: "\<not> under (child_path p ''condition'') p" using under_child by blast
  have "obj_get s1 p = obj_get t1 p"
    using evaluate_frame(1)[OF e1 n] evaluate_frame(1)[OF e2 n] 8(2) by (simp add: states_agree_def)
  moreover have "less_defined (verdict r1) (verdict r2)"
    using 8(1)[OF states_agree_child[OF 8(2)]] e1 e2 by simp
  ultimately have "less_defined (fst (stable_step (env_now E) d p (verdict r1) s1))
                                (fst (stable_step (env_now E) d p (verdict r2) t1))"
    by (intro less_defined_stable)
  then show ?case by (auto simp: e1 e2 plain_def split: prod.splits)
next
  case (11 c cs i s p)
  obtain r1 s1 where e1: "evaluate (E\<lparr>env_facts := f\<rparr>) c s (child_path p (show_nat i)) = (r1, s1)" by fastforce
  obtain r2 t1 where e2: "evaluate (E\<lparr>env_facts := g\<rparr>) c t (child_path p (show_nat i)) = (r2, t1)" by fastforce
  have v: "less_defined (verdict r1) (verdict r2)" using 11(1)[of t] 11(3) e1 e2 by simp
  have "states_agree (child_path p (show_nat j)) s1 t1" if "Suc i \<le> j" for j
    unfolding states_agree_def
  proof (intro allI impI)
    fix q assume q: "under (child_path p (show_nat j)) q"
    have "\<not> under (child_path p (show_nat i)) q"
      using sibling_disjoint[of j i p q] q that show_nat_inj[of j i] by auto
    then show "obj_get s1 q = obj_get t1 q"
      using evaluate_frame(1)[OF e1] evaluate_frame(1)[OF e2] 11(3)[of j] that q
      by (simp add: states_agree_def)
  qed
  then have "list_all2 less_defined (fst (evaluate_children (E\<lparr>env_facts := f\<rparr>) cs (Suc i) s1 p))
                                    (fst (evaluate_children (E\<lparr>env_facts := g\<rparr>) cs (Suc i) t1 p))"
    using 11(2)[OF e1[symmetric]] by blast
  with v show ?case by (auto simp: e1 e2 split: prod.splits)
qed (auto simp: less_defined_def less_defined_leaf[OF assms, unfolded less_defined_def])


text \<open>Missing observations fail closed. Forgetting any facts of the snapshot can only turn the
  verdict of a condition, nested and with stability windows as it may be, into unknown: a definite
  verdict reached with fewer facts is the verdict with all of them.\<close>

theorem definite_verdict_survives_more_facts:
  assumes "forgets f g"
    and "evaluateCondition parse c f now since opts byPath = Inr ev"
    and "verdict ev \<noteq> T_unknown"
  shows "\<exists>ev'. evaluateCondition parse c g now since opts byPath = Inr ev' \<and> verdict ev' = verdict ev"
proof -
  obtain o' where o': "normalizeOptions opts = Inr o'" and now: "is_finite now"
    using assms(2) by (auto simp: evaluateCondition_def result_simps Let_def split: if_splits)
  define E where "E = \<lparr>env_parse = parse, env_facts = f, env_now = now, env_opts = o'\<rparr>"
  define st where "st = (case since of None \<Rightarrow> (case byPath of None \<Rightarrow> [] | Some m \<Rightarrow> m)
     | Some t \<Rightarrow> if obj_get (case byPath of None \<Rightarrow> [] | Some m \<Rightarrow> m) ''$'' = None
                 then obj_set (case byPath of None \<Rightarrow> [] | Some m \<Rightarrow> m) ''$'' t
                 else (case byPath of None \<Rightarrow> [] | Some m \<Rightarrow> m))"
  have "less_defined (verdict (fst (evaluate (E\<lparr>env_facts := f\<rparr>) c st ''$'')))
                     (verdict (fst (evaluate (E\<lparr>env_facts := g\<rparr>) c st ''$'')))"
    by (rule evaluate_less_defined(1)[OF assms(1)]) (simp add: states_agree_def)
  with assms(2,3) o' now show ?thesis
    by (auto simp: evaluateCondition_def Let_def E_def st_def less_defined_def split: prod.splits)
qed

section \<open>Stability windows over a run\<close>

text \<open>A run of one \<open>stable_for\<close> node through successive evaluations, its state threaded: for every
  step the time, the verdict of the inner condition and the verdict of the node. \<open>block_start\<close> is the
  specification: the time at which the current unbroken block of true inner verdicts began.\<close>

fun stable_trace ::
  "condition \<Rightarrow> jsnum \<Rightarrow> string \<Rightarrow> eval_env list \<Rightarrow> stable_state \<Rightarrow> (jsnum \<times> tri_state \<times> tri_state) list" where
  "stable_trace c d path [] st = []"
| "stable_trace c d path (E # Es) st =
     (let (inner, _) = evaluate E c st (child_path path ''condition'');
          (outer, st') = evaluate E (C_stable_for c d) st path
      in (env_now E, verdict inner, verdict outer) # stable_trace c d path Es st')"

definition block_start :: "(jsnum \<times> tri_state \<times> tri_state) list \<Rightarrow> jsnum option" where
  "block_start trace =
     (let block = takeWhile (\<lambda>(_, inner, _). inner = T_true) (rev trace)
      in if block = [] then None else Some (fst (last block)))"

fun true_since :: "(jsnum \<times> tri_state \<times> tri_state) list \<Rightarrow> jsnum option \<Rightarrow> jsnum option" where
  "true_since [] since = since"
| "true_since ((now, inner, _) # steps) since =
     true_since steps (if inner = T_true then Some (case since of None \<Rightarrow> now | Some t \<Rightarrow> t) else None)"

lemma true_since_append: "true_since (xs @ ys) since = true_since ys (true_since xs since)"
  by (induction xs since rule: true_since.induct) auto

lemma block_start_true_since: "block_start trace = true_since trace None"
proof (induction trace rule: rev_induct)
  case (snoc x xs)
  obtain now i v where x: "x = (now, i, v)" by (cases x)
  show ?case
    by (auto simp: x block_start_def Let_def true_since_append simp flip: snoc split: if_splits)
qed (simp add: block_start_def)

definition stable_verdict :: "jsnum \<Rightarrow> jsnum \<Rightarrow> tri_state \<Rightarrow> jsnum option \<Rightarrow> tri_state" where
  "stable_verdict d now inner since =
     (if inner = T_true \<and> (\<exists>t. since = Some t \<and> js_ge (js_sub now t) (js_mul d (Fin 1000))) then T_true
      else if inner = T_unknown then T_unknown else T_false)"

lemma evaluate_stable_for:
  assumes "evaluate E c st (child_path path ''condition'') = (inner, st1)"
    and "evaluate E (C_stable_for c d) st path = (outer, st')"
  shows "obj_get st' path = true_since [(env_now E, verdict inner, v)] (obj_get st path)"
    and "verdict outer =
         stable_verdict d (env_now E) (verdict inner) (true_since [(env_now E, verdict inner, v)] (obj_get st path))"
proof -
  have "\<not> under (child_path path ''condition'') path" using under_child by blast
  from evaluate_frame(1)[OF assms(1) this] have same: "obj_get st1 path = obj_get st path" .
  show "obj_get st' path = true_since [(env_now E, verdict inner, v)] (obj_get st path)"
    using assms(2) by (auto simp: assms(1) same stable_step_def Let_def split: option.splits)
  show "verdict outer =
         stable_verdict d (env_now E) (verdict inner) (true_since [(env_now E, verdict inner, v)] (obj_get st path))"
    using assms(2)
    by (auto simp: assms(1) same stable_step_def stable_verdict_def Let_def plain_def split: option.splits if_splits)
qed

lemma stable_trace_since:
  "stable_trace c d path Es st = pre @ (now, inner, outer) # post \<Longrightarrow>
   outer = stable_verdict d now inner (true_since (pre @ [(now, inner, outer)]) (obj_get st path))"
proof (induction Es arbitrary: st pre)
  case (Cons E Es)
  obtain i st1 where i: "evaluate E c st (child_path path ''condition'') = (i, st1)" by fastforce
  obtain out st' where out: "evaluate E (C_stable_for c d) st path = (out, st')" by fastforce
  note step = evaluate_stable_for[OF i out]
  from Cons.prems have tr: "(env_now E, verdict i, verdict out) # stable_trace c d path Es st'
      = pre @ (now, inner, outer) # post"
    by (simp add: i out del: evaluate.simps)
  show ?case
  proof (cases pre)
    case Nil
    then show ?thesis using tr step(2)[of outer] by auto
  next
    case (Cons x pre')
    then have x: "x = (env_now E, verdict i, verdict out)"
      and rest: "stable_trace c d path Es st' = pre' @ (now, inner, outer) # post" using tr by auto
    show ?thesis using Cons.IH[OF rest] step(1)[of "verdict out"] by (simp add: Cons x)
  qed
qed simp

text \<open>C2. A stability window is exactly a window: from a state with no window open, at every step of
  every run \<open>stable_for\<close> is true exactly when the inner condition is true now and has been true at every
  step since a time at least \<open>durationSec\<close> seconds ago; it is unknown exactly when the inner condition
  is.\<close>

theorem stable_for_is_a_window:
  assumes "obj_get st path = None"
    and "stable_trace c d path Es st = pre @ (now, inner, outer) # post"
  shows "outer = stable_verdict d now inner (block_start (pre @ [(now, inner, outer)]))"
  using stable_trace_since[OF assms(2)] assms(1) by (simp add: block_start_true_since)


section \<open>Soundness of the validator\<close>

definition validated :: "(string \<Rightarrow> jsnum) \<Rightarrow> nat \<Rightarrow> nat \<Rightarrow> nat \<Rightarrow> json \<Rightarrow> bool" where
  "validated parse depth atoms n v \<longleftrightarrow>
     (\<exists>c. read_condition (6 - depth) v = Some c \<and> cond_valid parse c \<and> n = atoms + cond_atoms c \<and>
          cond_depth c + depth \<le> 5)"

lemma count_atom_Inr [result_simps]: "count_atom atoms = Inr n \<longleftrightarrow> n = Suc atoms \<and> n \<le> 30"
  by (auto simp: count_atom_def)

lemma record_check_Inr [result_simps]: "record_check v = Inr r \<longleftrightarrow> v = J_obj r"
  by (cases v) (auto simp: record_check_def)

lemma finite_check_Inr [result_simps]: "finite_check v name = Inr n \<longleftrightarrow> v = J_num n \<and> is_finite n"
  by (cases v) (auto simp: finite_check_def)

lemma fact_check_key: "fact_check v = Inr u \<Longrightarrow> \<exists>k. read_key v = Some k \<and> \<not> is_blank k"
  by (auto simp: fact_check_def result_simps nonblank_string_def read_key_def split: option.splits)

lemma operator_check_read: "operator_check v m = Inr u \<Longrightarrow> \<exists>op. read_operator v = Some op"
  by (auto simp: operator_check_def result_simps compareOperators_def split: option.splits)

lemma date_check_read: "date_check parse v m = Inr u \<Longrightarrow> \<exists>s. v = J_str s \<and> is_finite (parse s)"
  by (auto simp: date_check_def result_simps split: option.splits)

lemma read_leaf_compare:
  assumes "validate_compare r = Inr u"
  obtains k op x where "read_key (jget r ''fact'') = Some k" "\<not> is_blank k"
    "read_operator (jget r ''operator'') = Some op" "read_scalar (jget r ''value'') = Some x"
    "case x of V_num n \<Rightarrow> is_finite n | _ \<Rightarrow> True"
  using assms
  by (cases "jget r ''value''")
     (auto simp: validate_compare_def result_simps dest!: fact_check_key operator_check_read)

lemma read_leaf_cross:
  assumes "validate_cross r = Inr u"
  obtains k x where "read_key (jget r ''fact'') = Some k" "\<not> is_blank k"
    "jget r ''value'' = J_num x" "is_finite x"
  using assms by (auto simp: validate_cross_def result_simps dest!: fact_check_key)

lemma read_leaf_change:
  assumes "validate_change r = Inr u"
  obtains k w op x where "read_key (jget r ''fact'') = Some k" "\<not> is_blank k"
    "jget r ''windowSec'' = J_num w" "is_finite w" "js_gt w (Fin 0)" "js_le w MAX_CHANGE_WINDOW_SEC"
    "read_operator (jget r ''operator'') = Some op" "jget r ''value'' = J_num x" "is_finite x"
proof -
  obtain w where w: "jget r ''windowSec'' = J_num w" "is_finite w" "\<not> js_le w (Fin 0)"
    "\<not> js_gt w MAX_CHANGE_WINDOW_SEC"
    using assms by (auto simp: validate_change_def result_simps split: option.splits)
  moreover have "js_gt w (Fin 0)" "js_le w MAX_CHANGE_WINDOW_SEC"
    using w by (cases w; auto simp: MAX_CHANGE_WINDOW_SEC_def)+
  ultimately show thesis using assms that
    by (auto simp: validate_change_def result_simps dest!: fact_check_key operator_check_read)
qed

lemma fold_max_le: "(\<forall>x \<in> set xs. x \<le> b) \<Longrightarrow> a \<le> b \<Longrightarrow> fold max xs a \<le> (b::nat)"
  by (induction xs arbitrary: a) auto

lemma group_depth:
  assumes "cs \<noteq> []" and "\<forall>c \<in> set cs. cond_depth c + Suc depth \<le> 5"
  shows "Suc (fold max (map cond_depth cs) 0) + depth \<le> 5"
proof -
  have "cond_depth (hd cs) + Suc depth \<le> 5" using assms by simp
  moreover have "fold max (map cond_depth cs) 0 \<le> 4 - depth"
    using assms(2) by (intro fold_max_le) auto
  ultimately show ?thesis by linarith
qed

lemma js_not_le_gt: "is_finite d \<Longrightarrow> \<not> js_le d (Fin x) \<Longrightarrow> js_gt d (Fin x)"
  by (cases d) auto

definition validated_all :: "(string \<Rightarrow> jsnum) \<Rightarrow> nat \<Rightarrow> nat \<Rightarrow> nat \<Rightarrow> json list \<Rightarrow> bool" where
  "validated_all parse depth atoms n vs \<longleftrightarrow>
     (\<exists>cs. sequence_options (map (read_condition (6 - depth)) vs) = Some cs \<and> length cs = length vs \<and>
        list_all (cond_valid parse) cs \<and> n = atoms + sum_list (map cond_atoms cs) \<and>
        (\<forall>c \<in> set cs. cond_depth c + depth \<le> 5))"

lemma validate_children_sound:
  assumes "\<And>v atoms n. validateCondition parse v depth atoms = Inr n \<Longrightarrow> atoms \<le> 30 \<Longrightarrow>
             validated parse depth atoms n v \<and> n \<le> 30"
  shows "validate_children parse vs depth atoms = Inr n \<Longrightarrow> atoms \<le> 30 \<Longrightarrow>
         validated_all parse depth atoms n vs \<and> n \<le> 30"
proof (induction vs arbitrary: atoms)
  case (Cons v vs)
  then obtain m where m: "validateCondition parse v depth atoms = Inr m"
    "validate_children parse vs depth m = Inr n" by (auto simp: result_simps)
  from assms[OF m(1) Cons.prems(2)] have "validated parse depth atoms m v" "m \<le> 30" by auto
  moreover from Cons.IH[OF m(2)] this have "validated_all parse depth m n vs" "n \<le> 30" by auto
  ultimately show ?case by (auto simp: validated_def validated_all_def)
qed (simp add: validated_all_def)

lemma validate_sound:
  "validateCondition parse v depth atoms = Inr n \<Longrightarrow> atoms \<le> 30 \<Longrightarrow> validated parse depth atoms n v \<and> n \<le> 30"
proof (induction "6 - depth" arbitrary: v depth atoms n)
  case 0
  then show ?case by (simp add: validateCondition.simps[of parse v])
next
  case (Suc f)
  note eq = validateCondition.simps[of parse v depth atoms]
  have f: "6 - depth = Suc f" "f = 6 - Suc depth" "\<not> 5 < depth" using Suc(2) by auto
  note IH = Suc(1)[OF f(2)]
  have children: "validate_children parse vs (Suc depth) atoms = Inr n \<Longrightarrow> atoms \<le> 30 \<Longrightarrow>
      validated_all parse (Suc depth) atoms n vs \<and> n \<le> 30" for vs atoms n
    by (rule validate_children_sound) (use IH in auto)
  obtain r kind where v: "v = J_obj r" and k: "jget r ''kind'' = J_str kind"
    using Suc.prems(1) f(3) by (auto simp: eq result_simps split: option.splits)
  have cases: "kind = ''time'' \<or> kind = ''compare'' \<or> kind = ''cross'' \<or> kind = ''change'' \<or>
      kind = ''all'' \<or> kind = ''any'' \<or> kind = ''not'' \<or> kind = ''stable_for''"
    using Suc.prems(1)[unfolded v] f(3) by (auto simp: eq[unfolded v] k record_check_def split: if_splits)
  have simps: "validateCondition parse v depth atoms = Inr n" "\<not> 5 < depth" "atoms \<le> 30"
    using Suc.prems f(3) by auto
  from cases consider (leaf) "kind = ''time'' \<or> kind = ''compare'' \<or> kind = ''cross'' \<or> kind = ''change''"
    | (group) "kind = ''all'' \<or> kind = ''any''" | (wrap) "kind = ''not'' \<or> kind = ''stable_for''" by metis
  then show ?case
  proof cases
    case leaf
    then show ?thesis using simps unfolding v validated_def f(1)
      apply (elim disjE)
      subgoal by (auto simp: eq[unfolded v] record_check_def k result_simps dest!: date_check_read)
      subgoal by (auto simp: eq[unfolded v] record_check_def k result_simps elim!: read_leaf_compare)
      subgoal by (auto simp: eq[unfolded v] record_check_def k result_simps elim!: read_leaf_cross)
      subgoal by (auto simp: eq[unfolded v] record_check_def k result_simps elim!: read_leaf_change)
      done
  next
    case group
    then obtain vs where vs: "jget r ''conditions'' = J_arr vs" "vs \<noteq> []" "length vs \<le> 10"
        "validate_children parse vs (Suc depth) atoms = Inr n"
      using simps unfolding v
      by (auto simp: eq[unfolded v] record_check_def k result_simps split: option.splits)
    from children[OF vs(4) simps(3)] obtain cs where
      cs: "sequence_options (map (read_condition f) vs) = Some cs" "length cs = length vs"
        "list_all (cond_valid parse) cs" "n = atoms + sum_list (map cond_atoms cs)"
        "\<forall>c \<in> set cs. cond_depth c + Suc depth \<le> 5" and n: "n \<le> 30"
      by (auto simp: validated_all_def f(2))
    have "cs \<noteq> []" using cs(2) vs(2) by auto
    from group_depth[OF this cs(5)] group cs vs n show ?thesis
      by (auto simp: validated_def f(1) v k Suc_le_eq)
  next
    case wrap
    then show ?thesis using simps unfolding v validated_def f(1)
      by (elim disjE)
         (auto simp: eq[unfolded v] record_check_def k result_simps f(2) validated_def dest!: IH,
          auto simp: js_not_le_gt)
  qed
qed

text \<open>What the validator of untrusted trigger definitions asserts: an accepted definition holds a
  condition of the known kinds only, with dates that parse, finite levels and windows in range, groups
  of one to ten conditions, nested at most five deep and with at most thirty atomic conditions.\<close>

theorem validated_trigger_is_well_formed:
  assumes "validateTriggerDefinition parse v = Inr ()"
  shows "\<exists>t c. v = J_obj t \<and> read_condition 6 (jget t ''when'') = Some c \<and> cond_valid parse c \<and>
           cond_depth c \<le> 5 \<and> cond_atoms c \<le> 30"
proof -
  obtain t n where t: "v = J_obj t" "validateCondition parse (jget t ''when'') 0 0 = Inr n"
    using assms by (auto simp: validateTriggerDefinition_def result_simps)
  from validate_sound[OF t(2)] t(1) show ?thesis by (auto simp: validated_def)
qed


section \<open>Witnesses\<close>

definition demo_trigger :: "string \<Rightarrow> trigger_definition" where
  "demo_trigger m =
     \<lparr>trigger_id = ''t'', trigger_name = ''price'', when_cond = C_compare ''p'' Op_gt (V_num (Fin 10)),
      then_kind = Notify, then_message = ''up'',
      def_policy = Some \<lparr>policy_mode = Some m, policy_cooldownSec = Some (Fin 60), policy_expiresAt = None\<rparr>\<rparr>"

definition demo_fact :: "rat \<Rightarrow> rat \<Rightarrow> fact_snapshot" where
  "demo_fact price t =
     [(''p'', \<lparr>fact_scalar = V_num (Fin price), fact_observedAt = Fin t, fact_previousValue = None,
               fact_previousObservedAt = None, fact_history = None\<rparr>)]"

definition demo_options :: evaluator_options where
  "demo_options = \<lparr>maxAgeMs = None, futureToleranceMs = None, maxChangeWindowSec = None,
                   changeBaselineToleranceMs = None\<rparr>"

definition demo_state :: "bool \<Rightarrow> runtime_state" where
  "demo_state a = \<lparr>rt_status = Active, rt_armed = a, rt_baseline = None, rt_stableSince = None,
                   rt_stableSinceByPath = None, rt_lastFiredAt = None, rt_lastEvaluationAt = None\<rparr>"

lemmas demo_defs = demo_trigger_def demo_fact_def demo_options_def demo_state_def
  transitionTrigger_def evaluateCondition_def normalizeOptions_def DEFAULT_OPTIONS_def option_ok_def
  MAX_CHANGE_WINDOW_SEC_def CHANGE_WINDOW_BASELINE_TOLERANCE_MS_def eval_compare_def validObservation_def
  compare_def of_bool_tri_def parse_expiry_def trigger_mode_def trigger_cooldown_def cooled_def js_sub_def
  plain_def Let_def

definition demo_events :: "(fact_snapshot \<times> jsnum) list" where
  "demo_events = [(demo_fact 12 1000, Fin 1000), (demo_fact 9 30000, Fin 30000), (demo_fact 13 90000, Fin 90000)]"

lemma demo_run:
  "\<exists>st'. trigger_run (\<lambda>_. NaN) (demo_trigger ''on_edge'') demo_options demo_events (demo_state True)
     = Inr (st', [(Fin 1000, T_true, True), (Fin 30000, T_false, False), (Fin 90000, T_true, True)])"
  by (simp add: demo_events_def demo_defs)


theorem trigger_cooldown_respected_witness:
  "\<exists>st' trace. trigger_run (\<lambda>_. NaN) (demo_trigger ''on_edge'') demo_options demo_events (demo_state True)
      = Inr (st', trace) \<and> fire_times trace = [Fin 1000, Fin 90000] \<and>
    successively (cool_gap (demo_trigger ''on_edge'')) (fire_times trace)"
proof -
  obtain st' where run: "trigger_run (\<lambda>_. NaN) (demo_trigger ''on_edge'') demo_options demo_events (demo_state True)
      = Inr (st', [(Fin 1000, T_true, True), (Fin 30000, T_false, False), (Fin 90000, T_true, True)])"
    using demo_run by blast
  show ?thesis using run trigger_cooldown_respected[OF run] by (auto simp: fire_times_def demo_state_def)
qed

theorem once_fires_at_most_once_witness:
  "\<exists>st' trace. trigger_run (\<lambda>_. NaN) (demo_trigger ''once'') demo_options demo_events (demo_state True)
      = Inr (st', trace) \<and> fire_times trace = [Fin 1000] \<and> length (fire_times trace) \<le> 1"
proof -
  have "\<exists>st'. trigger_run (\<lambda>_. NaN) (demo_trigger ''once'') demo_options demo_events (demo_state True)
      = Inr (st', [(Fin 1000, T_true, True), (Fin 30000, T_unknown, False), (Fin 90000, T_unknown, False)])"
    by (simp add: demo_events_def demo_defs)
  then obtain st' where run: "trigger_run (\<lambda>_. NaN) (demo_trigger ''once'') demo_options demo_events (demo_state True)
      = Inr (st', [(Fin 1000, T_true, True), (Fin 30000, T_unknown, False), (Fin 90000, T_unknown, False)])"
    by blast
  show ?thesis using run once_fires_at_most_once[OF run] by (auto simp: fire_times_def demo_trigger_def trigger_mode_def)
qed

theorem edge_needs_false_between_fires_witness:
  "\<exists>st' trace. trigger_run (\<lambda>_. NaN) (demo_trigger ''on_edge'') demo_options
      [(demo_fact 12 1000, Fin 1000), (demo_fact 13 90000, Fin 90000)] (demo_state False)
      = Inr (st', trace) \<and> map (fst \<circ> snd) trace = [T_true, T_true] \<and> fire_times trace = []"
proof -
  have "\<exists>st'. trigger_run (\<lambda>_. NaN) (demo_trigger ''on_edge'') demo_options
      [(demo_fact 12 1000, Fin 1000), (demo_fact 13 90000, Fin 90000)] (demo_state False)
      = Inr (st', [(Fin 1000, T_true, False), (Fin 90000, T_true, False)])"
    by (simp add: demo_defs)
  then obtain st' where run: "trigger_run (\<lambda>_. NaN) (demo_trigger ''on_edge'') demo_options
      [(demo_fact 12 1000, Fin 1000), (demo_fact 13 90000, Fin 90000)] (demo_state False)
      = Inr (st', [(Fin 1000, T_true, False), (Fin 90000, T_true, False)])" by blast
  have "trigger_mode (demo_trigger ''on_edge'') = ''on_edge''" "\<not> rt_armed (demo_state False)"
    by (simp_all add: demo_trigger_def trigger_mode_def demo_state_def)
  from edge_needs_false_between_fires[OF run this] run show ?thesis by auto
qed

definition demo_nested :: condition where
  "demo_nested = C_any [C_compare ''missing'' Op_lt (V_num (Fin 1)), C_compare ''p'' Op_gt (V_num (Fin 10))]"

theorem definite_verdict_survives_more_facts_witness:
  "\<exists>ev'. evaluateCondition (\<lambda>_. NaN) demo_nested (demo_fact 12 1000 @ [(''q'', snd (hd (demo_fact 5 1000)))])
      (Fin 1000) None demo_options None = Inr ev' \<and> verdict ev' = T_true"
proof -
  have f: "forgets (demo_fact 12 1000) (demo_fact 12 1000 @ [(''q'', snd (hd (demo_fact 5 1000)))])"
    by (simp add: forgets_def demo_fact_def)
  have "\<exists>ev. evaluateCondition (\<lambda>_. NaN) demo_nested (demo_fact 12 1000) (Fin 1000) None demo_options None = Inr ev
      \<and> verdict ev = T_true"
    by (simp add: demo_nested_def demo_defs any_tri_def)
  then obtain ev where ev: "evaluateCondition (\<lambda>_. NaN) demo_nested (demo_fact 12 1000) (Fin 1000) None demo_options None = Inr ev"
      "verdict ev = T_true" by blast
  from definite_verdict_survives_more_facts[OF f ev(1)] ev(2) show ?thesis by auto
qed

definition demo_env :: "rat \<Rightarrow> rat \<Rightarrow> eval_env" where
  "demo_env price t = \<lparr>env_parse = (\<lambda>_. NaN), env_facts = demo_fact price t, env_now = Fin t, env_opts = DEFAULT_OPTIONS\<rparr>"

theorem stable_for_is_a_window_witness:
  "\<exists>pre. stable_trace (C_compare ''p'' Op_gt (V_num (Fin 10))) (Fin 60) ''$''
      [demo_env 9 1000, demo_env 12 2000, demo_env 12 62000] [] = pre @ [(Fin 62000, T_true, T_true)] \<and>
    block_start (pre @ [(Fin 62000, T_true, T_true)]) = Some (Fin 2000) \<and>
    T_true = stable_verdict (Fin 60) (Fin 62000) T_true (block_start (pre @ [(Fin 62000, T_true, T_true)]))"
proof -
  let ?pre = "[(Fin 1000, T_false, T_false), (Fin 2000, T_true, T_false)]"
  have tr: "stable_trace (C_compare ''p'' Op_gt (V_num (Fin 10))) (Fin 60) ''$''
      [demo_env 9 1000, demo_env 12 2000, demo_env 12 62000] [] = ?pre @ (Fin 62000, T_true, T_true) # []"
    by (simp add: demo_env_def demo_defs stable_step_def child_path_def)
  show ?thesis
    using tr stable_for_is_a_window[OF _ tr] by (intro exI[of _ ?pre]) (simp add: block_start_def)
qed

definition demo_json :: json where
  "demo_json = J_obj [(''id'', J_str ''t''), (''name'', J_str ''n''),
     (''when'', J_obj [(''kind'', J_str ''not''), (''condition'', J_obj [(''kind'', J_str ''cross''),
        (''fact'', J_obj [(''key'', J_str ''p'')]), (''value'', J_num (Fin 10)), (''direction'', J_str ''above'')])]),
     (''then'', J_obj [(''kind'', J_str ''notify''), (''message'', J_str ''m'')])]"

theorem validated_trigger_is_well_formed_witness:
  "\<exists>t c. demo_json = J_obj t \<and> read_condition 6 (jget t ''when'') = Some c \<and> cond_valid (\<lambda>_. NaN) c \<and>
     cond_depth c \<le> 5 \<and> cond_atoms c \<le> 30"
proof -
  have "validateTriggerDefinition (\<lambda>_. NaN) demo_json = Inr ()"
    by (simp add: demo_json_def validateTriggerDefinition_def record_check_def jget_def nonblank_string_def
        is_blank_def is_space_def validateCondition.simps[where depth = 0]
        validateCondition.simps[where depth = "Suc 0"] validate_cross_def fact_check_def finite_check_def
        count_atom_def optional_json_def)
  from validated_trigger_is_well_formed[OF this] show ?thesis .
qed

text \<open>A mode given as an array of one name passes the validator, although no evaluation accepts it: the
  mode is coerced to a string before it is compared.\<close>

theorem array_mode_passes_validation:
  "validate_policy parse (J_obj [(''mode'', J_arr [J_str ''once''])]) = Inr ()"
  by (simp add: validate_policy_def record_check_def optional_json_def jget_def)

end
