(* ===== verification/Account_Risk.thy ===== *)
theory Account_Risk
  imports Prelude
begin

text \<open>
  The account risk rules (\<^verbatim>\<open>packages/trading-risk/src/account-risk.ts\<close>): validation of the configured
  limits and of the persisted memory, the assessment of an account observation against the limits,
  and the three smaller assessments of a protection price, a leverage setting and an execution price.
  The validators look at untyped values (\<open>json\<close>); \<open>limits_json\<close> and \<open>memory_json\<close> are the typed
  records seen as the objects they are when the assessment validates them again.
\<close>

section \<open>Data model\<close>

record account_risk_limits =
  maxGrossExposure :: jsnum
  maxNetExposure :: jsnum
  maxAssetExposure :: jsnum
  maxLeverage :: jsnum
  maxMarginUsagePct :: jsnum
  maxDailyLoss :: jsnum
  maxDrawdown :: jsnum
  maxDataAgeMs :: jsnum
  maxPriceDeviationPct :: jsnum
  minDepthRatio :: jsnum
  minLiquidationDistancePct :: jsnum
  minProtectionCoveragePct :: jsnum
  maxStopDistancePct :: jsnum
  cancelEntriesOnBreach :: bool
  reduceOnBreach :: bool

record risk_exposure =
  exp_asset :: string
  exp_symbol :: string
  exp_notional :: jsnum
  exp_pending :: bool
  exp_liquidationDistancePct :: "jsnum option"
  exp_protectionCoveragePct :: jsnum
  exp_stopDistancePct :: "jsnum option"
  exp_futures :: bool
  exp_projected :: "bool option"

record account_risk_facts =
  facts_source :: string
  facts_epoch :: string
  facts_observedAt :: jsnum
  facts_oldestPriceAt :: jsnum
  facts_equity :: jsnum
  facts_netExternalFlows :: jsnum
  facts_marginUsed :: jsnum
  facts_exposures :: "risk_exposure list"

record loss_trip =
  trip_at :: jsnum
  trip_reasons :: "string list"

record account_risk_memory =
  mem_epoch :: string
  mem_date :: string
  mem_dailyOpeningValue :: jsnum
  mem_peakValue :: jsnum
  mem_lastObservedAt :: jsnum
  mem_lastValue :: "jsnum option"
  mem_lossTrip :: "loss_trip option"

record account_risk_assessment =
  as_allowed :: bool
  as_reasons :: "string list"
  as_grossExposure :: jsnum
  as_netExposure :: jsnum
  as_assetExposure :: "jsnum obj"
  as_leverage :: jsnum
  as_marginUsagePct :: jsnum
  as_dailyLoss :: jsnum
  as_drawdown :: jsnum
  as_memory :: account_risk_memory

datatype account_risk_error =
    Limits_not_configured
  | Limit_not_configured string
  | Limit_exceeds_100 string
  | Limit_flag_not_configured string
  | Unknown_limit_field
  | Invalid_memory
  | Invalid_memory_epoch_date
  | Invalid_memory_value string
  | Invalid_last_value
  | Invalid_loss_trip
  | Identity_or_time_unavailable
  | Fact_unavailable string
  | Margin_negative
  | Epoch_changed
  | Observation_moved_backwards
  | Flow_adjusted_equity_unavailable
  | Invalid_time_value
  | Exposure_evidence_unavailable
  | Stop_distance_unavailable string
  | Execution_evidence_unavailable string
  | Execution_evidence_invalid

section \<open>Validation of limits and memory\<close>

definition numericLimits :: "string list" where
  "numericLimits =
     [''maxGrossExposure'', ''maxNetExposure'', ''maxAssetExposure'', ''maxLeverage'', ''maxMarginUsagePct'',
      ''maxDailyLoss'', ''maxDrawdown'', ''maxDataAgeMs'', ''maxPriceDeviationPct'', ''minDepthRatio'',
      ''minLiquidationDistancePct'', ''minProtectionCoveragePct'', ''maxStopDistancePct'']"

definition percentLimits :: "string list" where
  "percentLimits =
     [''maxMarginUsagePct'', ''minLiquidationDistancePct'', ''minProtectionCoveragePct'', ''maxStopDistancePct'']"

definition limitFlags :: "string list" where
  "limitFlags = [''cancelEntriesOnBreach'', ''reduceOnBreach'']"

definition limit_in_range :: "string \<Rightarrow> jsnum \<Rightarrow> bool" where
  "limit_in_range name n \<longleftrightarrow>
     is_finite n \<and> \<not> (if prefix ''min'' name then js_lt n (Fin 0) else js_le n (Fin 0))"

definition check_limit :: "json obj \<Rightarrow> string \<Rightarrow> unit \<Rightarrow> account_risk_error + unit" where
  "check_limit limits name _ =
     (case read_number (jget limits name) of
        None \<Rightarrow> Inl (Limit_not_configured name)
      | Some n \<Rightarrow> assert_js (limit_in_range name n) (Limit_not_configured name))"

definition check_percent :: "json obj \<Rightarrow> string \<Rightarrow> unit \<Rightarrow> account_risk_error + unit" where
  "check_percent limits name _ =
     (case read_number (jget limits name) of
        None \<Rightarrow> Inr ()
      | Some n \<Rightarrow> assert_js (\<not> js_gt n (Fin 100)) (Limit_exceeds_100 name))"

definition check_flag :: "json obj \<Rightarrow> string \<Rightarrow> unit \<Rightarrow> account_risk_error + unit" where
  "check_flag limits name _ =
     (case jget limits name of J_bool _ \<Rightarrow> Inr () | _ \<Rightarrow> Inl (Limit_flag_not_configured name))"

definition validateAccountRiskLimits :: "json \<Rightarrow> account_risk_error + unit" where
  "validateAccountRiskLimits value =
     (case read_object value of
        None \<Rightarrow> Inl Limits_not_configured
      | Some limits \<Rightarrow>
          ebind (efold (check_limit limits) numericLimits ()) (\<lambda>_.
          ebind (efold (check_percent limits) percentLimits ()) (\<lambda>_.
          ebind (efold (check_flag limits) limitFlags ()) (\<lambda>_.
          assert_js (list_all (\<lambda>k. k \<in> set (numericLimits @ limitFlags)) (obj_keys limits)) Unknown_limit_field))))"

fun check_trip :: "json \<Rightarrow> bool" where
  "check_trip (J_obj t) =
     ((case read_number (jget t ''at'') of None \<Rightarrow> False | Some n \<Rightarrow> is_finite n) \<and>
      (case read_array (jget t ''reasons'') of
         None \<Rightarrow> False
       | Some rs \<Rightarrow> rs \<noteq> [] \<and> list_all (\<lambda>r. read_string r \<noteq> None) rs))"
| "check_trip _ = False"

definition check_memory_value :: "json obj \<Rightarrow> string \<Rightarrow> unit \<Rightarrow> account_risk_error + unit" where
  "check_memory_value memory key _ =
     (case read_number (jget memory key) of
        None \<Rightarrow> Inl (Invalid_memory_value key)
      | Some n \<Rightarrow> assert_js (is_finite n) (Invalid_memory_value key))"

text \<open>An array is an object for \<^verbatim>\<open>typeof\<close>: it passes the first test and fails the second.\<close>

definition validateAccountRiskMemory :: "json \<Rightarrow> account_risk_error + unit" where
  "validateAccountRiskMemory value =
     (case (case value of J_obj r \<Rightarrow> Some r | J_arr _ \<Rightarrow> Some [] | _ \<Rightarrow> None) of
        None \<Rightarrow> Inl Invalid_memory
      | Some memory \<Rightarrow>
          ebind (assert_js (read_string (jget memory ''epoch'') \<noteq> None \<and>
                   (case read_string (jget memory ''date'') of None \<Rightarrow> False | Some d \<Rightarrow> date_format d))
                 Invalid_memory_epoch_date) (\<lambda>_.
          ebind (efold (check_memory_value memory) [''dailyOpeningValue'', ''peakValue'', ''lastObservedAt''] ()) (\<lambda>_.
          ebind (assert_js (jget memory ''lastValue'' = J_undefined \<or>
                   (case read_number (jget memory ''lastValue'') of None \<Rightarrow> False | Some n \<Rightarrow> is_finite n))
                 Invalid_last_value) (\<lambda>_.
          assert_js (jget memory ''lossTrip'' = J_undefined \<or> check_trip (jget memory ''lossTrip''))
            Invalid_loss_trip))))"

definition limits_json :: "account_risk_limits \<Rightarrow> json" where
  "limits_json l = J_obj
     [(''maxGrossExposure'', J_num (maxGrossExposure l)), (''maxNetExposure'', J_num (maxNetExposure l)),
      (''maxAssetExposure'', J_num (maxAssetExposure l)), (''maxLeverage'', J_num (maxLeverage l)),
      (''maxMarginUsagePct'', J_num (maxMarginUsagePct l)), (''maxDailyLoss'', J_num (maxDailyLoss l)),
      (''maxDrawdown'', J_num (maxDrawdown l)), (''maxDataAgeMs'', J_num (maxDataAgeMs l)),
      (''maxPriceDeviationPct'', J_num (maxPriceDeviationPct l)), (''minDepthRatio'', J_num (minDepthRatio l)),
      (''minLiquidationDistancePct'', J_num (minLiquidationDistancePct l)),
      (''minProtectionCoveragePct'', J_num (minProtectionCoveragePct l)),
      (''maxStopDistancePct'', J_num (maxStopDistancePct l)),
      (''cancelEntriesOnBreach'', J_bool (cancelEntriesOnBreach l)),
      (''reduceOnBreach'', J_bool (reduceOnBreach l))]"

definition memory_json :: "account_risk_memory \<Rightarrow> json" where
  "memory_json m = J_obj
     ([(''epoch'', J_str (mem_epoch m)), (''date'', J_str (mem_date m)),
       (''dailyOpeningValue'', J_num (mem_dailyOpeningValue m)), (''peakValue'', J_num (mem_peakValue m)),
       (''lastObservedAt'', J_num (mem_lastObservedAt m))]
      @ (case mem_lastValue m of None \<Rightarrow> [] | Some v \<Rightarrow> [(''lastValue'', J_num v)])
      @ (case mem_lossTrip m of None \<Rightarrow> []
         | Some t \<Rightarrow> [(''lossTrip'', J_obj [(''at'', J_num (trip_at t)),
                                           (''reasons'', J_arr (map J_str (trip_reasons t)))])]))"

section \<open>Assessment of an account observation\<close>

definition check_fact :: "account_risk_facts \<Rightarrow> account_risk_error + unit" where
  "check_fact facts =
     efold (\<lambda>(name, v) _. assert_js (is_finite v) (Fact_unavailable name))
       [(''equity'', facts_equity facts), (''netExternalFlows'', facts_netExternalFlows facts),
        (''marginUsed'', facts_marginUsed facts), (''observedAt'', facts_observedAt facts),
        (''oldestPriceAt'', facts_oldestPriceAt facts)] ()"

definition stale_reason :: "account_risk_limits \<Rightarrow> jsnum \<Rightarrow> string \<Rightarrow> jsnum \<Rightarrow> string list" where
  "stale_reason limits now name t =
     (if js_gt t now \<or> js_gt (js_sub now t) (maxDataAgeMs limits) then [''stale:'' @ name] else [])"

definition stale_reasons :: "account_risk_limits \<Rightarrow> account_risk_facts \<Rightarrow> jsnum \<Rightarrow> string list" where
  "stale_reasons limits facts now =
     stale_reason limits now ''observedAt'' (facts_observedAt facts) @
     stale_reason limits now ''oldestPriceAt'' (facts_oldestPriceAt facts)"

definition initial_memory :: "account_risk_facts \<Rightarrow> string \<Rightarrow> jsnum \<Rightarrow> account_risk_memory" where
  "initial_memory facts date v =
     \<lparr>mem_epoch = facts_epoch facts, mem_date = date, mem_dailyOpeningValue = v, mem_peakValue = v,
      mem_lastObservedAt = facts_observedAt facts, mem_lastValue = None, mem_lossTrip = None\<rparr>"

definition roll_day :: "bool \<Rightarrow> string \<Rightarrow> account_risk_memory \<Rightarrow> account_risk_memory" where
  "roll_day fresh date m =
     (if mem_date m \<noteq> date \<and> fresh
      then m\<lparr>mem_date := date,
             mem_dailyOpeningValue := (case mem_lastValue m of None \<Rightarrow> mem_dailyOpeningValue m | Some v \<Rightarrow> v)\<rparr>
      else m)"

definition observe_value :: "bool \<Rightarrow> jsnum \<Rightarrow> jsnum \<Rightarrow> account_risk_memory \<Rightarrow> account_risk_memory" where
  "observe_value fresh observedAt v m =
     (if fresh
      then m\<lparr>mem_peakValue := js_max (mem_peakValue m) v, mem_lastObservedAt := observedAt, mem_lastValue := Some v\<rparr>
      else m)"

definition loss_reasons :: "account_risk_limits \<Rightarrow> jsnum \<Rightarrow> jsnum \<Rightarrow> string list" where
  "loss_reasons limits dailyLoss drawdown =
     (if js_ge dailyLoss (maxDailyLoss limits) then [''maxDailyLoss''] else []) @
     (if js_ge drawdown (maxDrawdown limits) then [''maxDrawdown''] else [])"

definition latch_trip :: "bool \<Rightarrow> jsnum \<Rightarrow> string list \<Rightarrow> account_risk_memory \<Rightarrow> account_risk_memory" where
  "latch_trip fresh now reasons m =
     (if fresh \<and> list_ex (\<lambda>r. r = ''maxDailyLoss'' \<or> r = ''maxDrawdown'') reasons \<and> mem_lossTrip m = None
      then m\<lparr>mem_lossTrip := Some \<lparr>trip_at = now,
               trip_reasons = filter (\<lambda>r. r = ''maxDailyLoss'' \<or> r = ''maxDrawdown'') reasons\<rparr>\<rparr>
      else m)"

record exposure_totals =
  tot_gross :: jsnum
  tot_net :: jsnum
  tot_buys :: jsnum
  tot_sells :: jsnum
  tot_assets :: "jsnum obj"
  tot_reasons :: "string list"

definition protection_reasons :: "account_risk_limits \<Rightarrow> risk_exposure \<Rightarrow> string list" where
  "protection_reasons limits e =
     (if \<not> exp_pending e \<and> js_gt (js_abs (exp_notional e)) (Fin 0) \<and>
         js_lt (exp_protectionCoveragePct e) (minProtectionCoveragePct limits)
      then [''protection:'' @ exp_symbol e] else [])"

definition liquidation_reasons :: "account_risk_limits \<Rightarrow> risk_exposure \<Rightarrow> string list" where
  "liquidation_reasons limits e =
     (if js_gt (js_abs (exp_notional e)) (Fin 0) \<and> exp_futures e \<and> (\<not> exp_pending e \<or> exp_projected e = Some True)
      then (case exp_liquidationDistancePct e of
              None \<Rightarrow> [''missing:liquidation:'' @ exp_symbol e]
            | Some d \<Rightarrow>
                if \<not> is_finite d then [''missing:liquidation:'' @ exp_symbol e]
                else if js_lt d (minLiquidationDistancePct limits) then [''liquidation:'' @ exp_symbol e] else [])
      else [])"

definition stop_reasons :: "account_risk_limits \<Rightarrow> risk_exposure \<Rightarrow> account_risk_error + string list" where
  "stop_reasons limits e =
     (if js_gt (js_abs (exp_notional e)) (Fin 0) \<and> js_gt (exp_protectionCoveragePct e) (Fin 0)
      then (case exp_stopDistancePct e of
              None \<Rightarrow> Inl (Stop_distance_unavailable (exp_symbol e))
            | Some d \<Rightarrow>
                if \<not> is_finite d then Inl (Stop_distance_unavailable (exp_symbol e))
                else Inr (if js_gt d (maxStopDistancePct limits) then [''stopDistance:'' @ exp_symbol e] else []))
      else Inr [])"

definition add_exposure ::
  "account_risk_limits \<Rightarrow> risk_exposure \<Rightarrow> exposure_totals \<Rightarrow> account_risk_error + exposure_totals" where
  "add_exposure limits e t =
     (if exp_asset e = [] \<or> \<not> is_finite (exp_notional e) \<or> \<not> is_finite (exp_protectionCoveragePct e)
      then Inl Exposure_evidence_unavailable
      else
        let magnitude = js_abs (exp_notional e);
            prior = (case obj_get (tot_assets t) (exp_asset e) of None \<Rightarrow> Fin 0 | Some x \<Rightarrow> x);
            buy = exp_pending e \<and> js_gt (exp_notional e) (Fin 0);
            sell = exp_pending e \<and> \<not> js_gt (exp_notional e) (Fin 0)
        in ebind (stop_reasons limits e) (\<lambda>stops.
             Inr \<lparr>tot_gross = js_add (tot_gross t) magnitude,
                  tot_net = (if exp_pending e then tot_net t else js_add (tot_net t) (exp_notional e)),
                  tot_buys = (if buy then js_add (tot_buys t) magnitude else tot_buys t),
                  tot_sells = (if sell then js_add (tot_sells t) magnitude else tot_sells t),
                  tot_assets = obj_set (tot_assets t) (exp_asset e) (js_add prior magnitude),
                  tot_reasons = tot_reasons t @ protection_reasons limits e @ liquidation_reasons limits e @ stops\<rparr>))"

definition limit_reasons ::
  "account_risk_limits \<Rightarrow> account_risk_facts \<Rightarrow> exposure_totals \<Rightarrow> jsnum \<Rightarrow> jsnum \<Rightarrow> jsnum \<Rightarrow> string list" where
  "limit_reasons limits facts t net leverage marginPct =
     (if js_le (facts_equity facts) (Fin 0) then [''equity''] else []) @
     (if js_gt (tot_gross t) (maxGrossExposure limits) then [''maxGrossExposure''] else []) @
     (if js_gt net (maxNetExposure limits) then [''maxNetExposure''] else []) @
     concat (map (\<lambda>(asset, x). if js_gt x (maxAssetExposure limits) then [''maxAssetExposure:'' @ asset] else [])
       (tot_assets t)) @
     (if js_gt leverage (maxLeverage limits) then [''maxLeverage''] else []) @
     (if js_gt marginPct (maxMarginUsagePct limits) then [''maxMarginUsagePct''] else [])"

definition assess_memory ::
  "account_risk_limits \<Rightarrow> account_risk_facts \<Rightarrow> account_risk_memory \<Rightarrow> jsnum \<Rightarrow> string \<Rightarrow> jsnum \<Rightarrow>
   account_risk_memory \<times> jsnum \<times> jsnum \<times> string list" where
  "assess_memory limits facts previous now date v =
     (let reasons = stale_reasons limits facts now;
          fresh = \<not> list_ex (prefix ''stale:'') reasons;
          m = observe_value fresh (facts_observedAt facts) v (roll_day fresh date previous);
          dailyLoss = js_max (Fin 0) (js_sub (mem_dailyOpeningValue m) v);
          drawdown = js_max (Fin 0) (js_sub (mem_peakValue m) v);
          reasons2 = reasons @ loss_reasons limits dailyLoss drawdown;
          m2 = latch_trip fresh now reasons2 m
      in (m2, dailyLoss, drawdown, reasons2 @ (if mem_lossTrip m2 = None then [] else [''lossTrip''])))"

definition assess_preconditions ::
  "account_risk_limits \<Rightarrow> account_risk_facts \<Rightarrow> account_risk_memory option \<Rightarrow> jsnum \<Rightarrow> account_risk_error + (string \<times> jsnum)" where
  "assess_preconditions limits facts previous now =
     ebind (validateAccountRiskLimits (limits_json limits)) (\<lambda>_.
     ebind (case previous of None \<Rightarrow> Inr () | Some m \<Rightarrow> validateAccountRiskMemory (memory_json m)) (\<lambda>_.
     ebind (assert_js (is_finite now \<and> facts_epoch facts \<noteq> [] \<and> facts_source facts \<noteq> [])
              Identity_or_time_unavailable) (\<lambda>_.
     ebind (check_fact facts) (\<lambda>_.
     ebind (assert_js (\<not> js_lt (facts_marginUsed facts) (Fin 0)) Margin_negative) (\<lambda>_.
     ebind (assert_js (case previous of None \<Rightarrow> True | Some m \<Rightarrow> mem_epoch m = facts_epoch facts) Epoch_changed) (\<lambda>_.
     ebind (assert_js (case previous of None \<Rightarrow> True
                       | Some m \<Rightarrow> \<not> js_gt (mem_lastObservedAt m) (facts_observedAt facts))
              Observation_moved_backwards) (\<lambda>_.
     let v = js_sub (facts_equity facts) (facts_netExternalFlows facts)
     in ebind (assert_js (is_finite v) Flow_adjusted_equity_unavailable) (\<lambda>_.
        case iso_date now of None \<Rightarrow> Inl Invalid_time_value | Some date \<Rightarrow> Inr (date, v)))))))))"

definition assessAccountRisk ::
  "account_risk_limits \<Rightarrow> account_risk_facts \<Rightarrow> account_risk_memory option \<Rightarrow> jsnum \<Rightarrow>
   account_risk_error + account_risk_assessment" where
  "assessAccountRisk limits facts previous now =
     ebind (assess_preconditions limits facts previous now) (\<lambda>(date, v).
     let start = (case previous of Some m \<Rightarrow> m | None \<Rightarrow> initial_memory facts date v)
     in case assess_memory limits facts start now date v of (memory, dailyLoss, drawdown, reasons) \<Rightarrow>
        ebind (efold (add_exposure limits) (facts_exposures facts)
                 \<lparr>tot_gross = Fin 0, tot_net = Fin 0, tot_buys = Fin 0, tot_sells = Fin 0, tot_assets = [],
                  tot_reasons = reasons\<rparr>) (\<lambda>t.
        let net = js_max (js_abs (js_add (tot_net t) (tot_buys t))) (js_abs (js_sub (tot_net t) (tot_sells t)));
            positive = js_gt (facts_equity facts) (Fin 0);
            leverage = (if positive then js_div (tot_gross t) (facts_equity facts) else PInf);
            marginPct = (if positive
                         then js_mul (js_div (facts_marginUsed facts) (facts_equity facts)) (Fin 100) else PInf);
            all_reasons = tot_reasons t @ limit_reasons limits facts t net leverage marginPct
        in Inr \<lparr>as_allowed = (all_reasons = []), as_reasons = all_reasons, as_grossExposure = tot_gross t,
                as_netExposure = net, as_assetExposure = tot_assets t, as_leverage = leverage,
                as_marginUsagePct = marginPct, as_dailyLoss = dailyLoss, as_drawdown = drawdown,
                as_memory = memory\<rparr>))"

section \<open>Assessment of prices and leverage\<close>

datatype side = Buy | Sell

definition assessProtectionTarget ::
  "account_risk_limits \<Rightarrow> side \<Rightarrow> jsnum \<Rightarrow> jsnum \<Rightarrow> account_risk_error + string list" where
  "assessProtectionTarget limits sd reference stop =
     ebind (validateAccountRiskLimits (limits_json limits)) (\<lambda>_.
       Inr (if \<not> list_all (\<lambda>v. is_finite v \<and> js_gt v (Fin 0)) [reference, stop] then [''missing:protectionPrice'']
            else let distance = js_mul (js_div (if sd = Sell then js_sub reference stop else js_sub stop reference)
                                          reference) (Fin 100)
                 in if js_le distance (Fin 0) \<or> js_gt distance (maxStopDistancePct limits)
                    then [''maxStopDistancePct''] else []))"

definition assessLeverageSetting :: "account_risk_limits \<Rightarrow> jsnum \<Rightarrow> account_risk_error + string list" where
  "assessLeverageSetting limits leverage =
     ebind (validateAccountRiskLimits (limits_json limits)) (\<lambda>_.
       Inr (if \<not> is_finite leverage \<or> js_le leverage (Fin 0) \<or> js_gt leverage (maxLeverage limits)
            then [''maxLeverage''] else []))"

record execution_facts =
  ef_now :: jsnum
  ef_observedAt :: jsnum
  ef_referencePrice :: jsnum
  ef_orderPrice :: jsnum
  ef_availableDepth :: jsnum
  ef_amount :: jsnum

definition assessExecutionPrice :: "account_risk_limits \<Rightarrow> execution_facts \<Rightarrow> account_risk_error + string list" where
  "assessExecutionPrice limits facts =
     ebind (validateAccountRiskLimits (limits_json limits)) (\<lambda>_.
     ebind (efold (\<lambda>(name, v) _. assert_js (is_finite v) (Execution_evidence_unavailable name))
              [(''now'', ef_now facts), (''observedAt'', ef_observedAt facts),
               (''referencePrice'', ef_referencePrice facts), (''orderPrice'', ef_orderPrice facts),
               (''availableDepth'', ef_availableDepth facts), (''amount'', ef_amount facts)] ()) (\<lambda>_.
     ebind (assert_js (\<not> (js_le (ef_referencePrice facts) (Fin 0) \<or> js_le (ef_orderPrice facts) (Fin 0) \<or>
                          js_le (ef_amount facts) (Fin 0) \<or> js_lt (ef_availableDepth facts) (Fin 0)))
              Execution_evidence_invalid) (\<lambda>_.
     Inr ((if js_gt (ef_observedAt facts) (ef_now facts) \<or>
              js_gt (js_sub (ef_now facts) (ef_observedAt facts)) (maxDataAgeMs limits)
           then [''stale:orderBook''] else []) @
          (if js_gt (js_mul (js_abs (js_sub (js_div (ef_orderPrice facts) (ef_referencePrice facts)) (Fin 1)))
                       (Fin 100)) (maxPriceDeviationPct limits)
           then [''maxPriceDeviationPct''] else []) @
          (if js_lt (js_div (ef_availableDepth facts) (ef_amount facts)) (minDepthRatio limits)
           then [''minDepthRatio''] else [])))))"


section \<open>What the validators accept\<close>

definition limits_valid :: "account_risk_limits \<Rightarrow> bool" where
  "limits_valid l \<longleftrightarrow>
     list_all (\<lambda>x. is_finite x \<and> js_gt x (Fin 0))
       [maxGrossExposure l, maxNetExposure l, maxAssetExposure l, maxLeverage l, maxMarginUsagePct l,
        maxDailyLoss l, maxDrawdown l, maxDataAgeMs l, maxPriceDeviationPct l, maxStopDistancePct l] \<and>
     list_all (\<lambda>x. is_finite x \<and> js_ge x (Fin 0))
       [minDepthRatio l, minLiquidationDistancePct l, minProtectionCoveragePct l] \<and>
     list_all (\<lambda>x. js_le x (Fin 100))
       [maxMarginUsagePct l, minLiquidationDistancePct l, minProtectionCoveragePct l, maxStopDistancePct l]"

definition memory_valid :: "account_risk_memory \<Rightarrow> bool" where
  "memory_valid m \<longleftrightarrow>
     date_format (mem_date m) \<and> is_finite (mem_dailyOpeningValue m) \<and> is_finite (mem_peakValue m) \<and>
     is_finite (mem_lastObservedAt m) \<and> (case mem_lastValue m of None \<Rightarrow> True | Some v \<Rightarrow> is_finite v) \<and>
     (case mem_lossTrip m of None \<Rightarrow> True | Some t \<Rightarrow> is_finite (trip_at t) \<and> trip_reasons t \<noteq> [])"

lemma limit_in_range_iff:
  "limit_in_range name x \<longleftrightarrow> is_finite x \<and> (if prefix ''min'' name then js_ge x (Fin 0) else js_gt x (Fin 0))"
  by (auto simp: limit_in_range_def is_finite_iff)

lemma limits_json_valid: "validateAccountRiskLimits (limits_json l) = Inr () \<longleftrightarrow> limits_valid l"
  unfolding validateAccountRiskLimits_def limits_json_def limits_valid_def numericLimits_def percentLimits_def
    limitFlags_def
  by (auto simp: check_limit_def check_percent_def check_flag_def limit_in_range_iff jget_def result_simps finite_sign(3) dest: js_le_not_gt)

lemma memory_json_valid: "validateAccountRiskMemory (memory_json m) = Inr () \<longleftrightarrow> memory_valid m"
  unfolding validateAccountRiskMemory_def memory_json_def memory_valid_def
  by (auto simp: check_memory_value_def jget_def result_simps list_all_iff split: option.splits)

section \<open>The memory of an assessment\<close>

abbreviation flow_value :: "account_risk_facts \<Rightarrow> jsnum" where
  "flow_value facts \<equiv> js_sub (facts_equity facts) (facts_netExternalFlows facts)"

definition observation_fresh :: "account_risk_limits \<Rightarrow> account_risk_facts \<Rightarrow> jsnum \<Rightarrow> bool" where
  "observation_fresh limits facts now \<longleftrightarrow>
     js_le (facts_observedAt facts) now \<and> js_le (js_sub now (facts_observedAt facts)) (maxDataAgeMs limits) \<and>
     js_le (facts_oldestPriceAt facts) now \<and> js_le (js_sub now (facts_oldestPriceAt facts)) (maxDataAgeMs limits)"

lemma assess_preconditions_Inr:
  assumes "assess_preconditions limits facts previous now = Inr (date, v)"
  shows "limits_valid limits" "\<And>m. previous = Some m \<Longrightarrow> memory_valid m \<and> mem_epoch m = facts_epoch facts"
    "is_finite now" "is_finite (facts_equity facts)" "is_finite (facts_marginUsed facts)"
    "js_le (Fin 0) (facts_marginUsed facts)" "is_finite (facts_observedAt facts)"
    "is_finite (facts_oldestPriceAt facts)" "v = flow_value facts" "is_finite v" "iso_date now = Some date"
  using assms unfolding assess_preconditions_def check_fact_def
  by (auto simp: result_simps limits_json_valid memory_json_valid Let_def finite_sign split: option.splits)

lemma stale_reasons_fresh:
  assumes "limits_valid limits" "is_finite now" "is_finite (facts_observedAt facts)"
    "is_finite (facts_oldestPriceAt facts)"
  shows "stale_reasons limits facts now = [] \<longleftrightarrow> observation_fresh limits facts now"
    "list_ex (prefix ''stale:'') (stale_reasons limits facts now) \<longleftrightarrow> \<not> observation_fresh limits facts now"
proof -
  have ok: "\<not> js_gt t now \<and> \<not> js_gt (js_sub now t) (maxDataAgeMs limits) \<longleftrightarrow>
      js_le t now \<and> js_le (js_sub now t) (maxDataAgeMs limits)" if "is_finite t" for t
    using that assms(1,2) js_sub_finite_not_NaN[OF assms(2) that]
    by (subst (1 2) js_not_lt_le) (auto simp: limits_valid_def)
  show "stale_reasons limits facts now = [] \<longleftrightarrow> observation_fresh limits facts now"
    "list_ex (prefix ''stale:'') (stale_reasons limits facts now) \<longleftrightarrow> \<not> observation_fresh limits facts now"
    using ok[OF assms(3)] ok[OF assms(4)]
    by (auto simp: stale_reasons_def stale_reason_def observation_fresh_def)
qed

lemma assess_decompose:
  assumes "assessAccountRisk limits facts previous now = Inr r"
  obtains date v start reasons t where
    "assess_preconditions limits facts previous now = Inr (date, v)"
    "start = (case previous of Some m \<Rightarrow> m | None \<Rightarrow> initial_memory facts date v)"
    "assess_memory limits facts start now date v = (as_memory r, as_dailyLoss r, as_drawdown r, reasons)"
    "efold (add_exposure limits) (facts_exposures facts)
       \<lparr>tot_gross = Fin 0, tot_net = Fin 0, tot_buys = Fin 0, tot_sells = Fin 0, tot_assets = [], tot_reasons = reasons\<rparr>
       = Inr t"
    "as_grossExposure r = tot_gross t" "as_assetExposure r = tot_assets t"
    "as_netExposure r =
       js_max (js_abs (js_add (tot_net t) (tot_buys t))) (js_abs (js_sub (tot_net t) (tot_sells t)))"
    "as_leverage r =
       (if js_gt (facts_equity facts) (Fin 0) then js_div (tot_gross t) (facts_equity facts) else PInf)"
    "as_marginUsagePct r =
       (if js_gt (facts_equity facts) (Fin 0)
        then js_mul (js_div (facts_marginUsed facts) (facts_equity facts)) (Fin 100) else PInf)"
    "as_reasons r = tot_reasons t @ limit_reasons limits facts t (as_netExposure r) (as_leverage r) (as_marginUsagePct r)"
    "as_allowed r \<longleftrightarrow> as_reasons r = []"
proof -
  obtain date v where p: "assess_preconditions limits facts previous now = Inr (date, v)"
    using assms by (auto simp: assessAccountRisk_def result_simps)
  define start where "start = (case previous of Some m \<Rightarrow> m | None \<Rightarrow> initial_memory facts date v)"
  obtain m d dd reasons where am: "assess_memory limits facts start now date v = (m, d, dd, reasons)"
    by (metis prod_cases4)
  obtain t where t: "efold (add_exposure limits) (facts_exposures facts)
       \<lparr>tot_gross = Fin 0, tot_net = Fin 0, tot_buys = Fin 0, tot_sells = Fin 0, tot_assets = [], tot_reasons = reasons\<rparr>
       = Inr t"
    using assms p am by (auto simp: assessAccountRisk_def start_def[symmetric] result_simps)
  show thesis
    by (rule that[OF p start_def, of reasons t])
       (use assms p am t in \<open>auto simp: assessAccountRisk_def start_def[symmetric] Let_def result_simps\<close>)
qed

lemma assess_memory_keeps_trip:
  assumes "assess_memory limits facts m now date v = (m', d, dd, reasons)" "mem_lossTrip m = Some t"
  shows "mem_lossTrip m' = Some t"
  using assms by (auto simp: assess_memory_def Let_def latch_trip_def observe_value_def roll_day_def split: if_splits)

lemma assess_memory_trip_reason:
  assumes "assess_memory limits facts m now date v = (m', d, dd, reasons)" "mem_lossTrip m' \<noteq> None"
  shows "reasons \<noteq> []"
  using assms by (auto simp: assess_memory_def Let_def split: if_splits)

section \<open>The totals over the exposures\<close>

definition totals_sane :: "exposure_totals \<Rightarrow> bool" where
  "totals_sane t \<longleftrightarrow>
     js_le (Fin 0) (tot_gross t) \<and> (\<forall>g. tot_gross t = Fin g \<longrightarrow> is_double g) \<and>
     (\<forall>a x. (a, x) \<in> set (tot_assets t) \<longrightarrow> js_le (Fin 0) x) \<and>
     js_le (Fin 0) (tot_buys t) \<and> js_le (Fin 0) (tot_sells t) \<and>
     (is_finite (tot_gross t) \<longrightarrow>
        js_le (js_abs (tot_net t)) (tot_gross t) \<and> js_le (tot_buys t) (tot_gross t) \<and>
        js_le (tot_sells t) (tot_gross t))"

definition exposure_safe :: "account_risk_limits \<Rightarrow> risk_exposure \<Rightarrow> bool" where
  "exposure_safe limits e \<longleftrightarrow>
     exp_notional e = Fin 0 \<or>
     ((exp_pending e \<or> js_ge (exp_protectionCoveragePct e) (minProtectionCoveragePct limits)) \<and>
      (exp_futures e \<and> (\<not> exp_pending e \<or> exp_projected e = Some True) \<longrightarrow>
         (\<exists>d. exp_liquidationDistancePct e = Some (Fin d) \<and> js_ge (Fin d) (minLiquidationDistancePct limits))) \<and>
      (js_gt (exp_protectionCoveragePct e) (Fin 0) \<longrightarrow>
         (\<exists>d. exp_stopDistancePct e = Some (Fin d) \<and> js_le (Fin d) (maxStopDistancePct limits))))"

lemma add_exposure_sane:
  assumes "add_exposure limits e t = Inr t'" "totals_sane t"
  shows "totals_sane t'"
proof -
  obtain n where n: "exp_notional e = Fin n" using assms(1) by (auto simp: add_exposure_def is_finite_iff split: if_splits)
  note D = assms(1)[unfolded add_exposure_def Let_def n, simplified]
  have g: "tot_gross t' = js_add (tot_gross t) (Fin \<bar>n\<bar>)" using D by (auto simp: result_simps)
  have assets: "tot_assets t' = obj_set (tot_assets t) (exp_asset e)
      (js_add (case obj_get (tot_assets t) (exp_asset e) of None \<Rightarrow> Fin 0 | Some x \<Rightarrow> x) (Fin \<bar>n\<bar>))"
    using D by (auto simp: result_simps)
  have net: "tot_net t' = tot_net t \<or> tot_net t' = js_add (tot_net t) (Fin n)"
    and buys: "tot_buys t' = tot_buys t \<or> tot_buys t' = js_add (tot_buys t) (Fin \<bar>n\<bar>)"
    and sells: "tot_sells t' = tot_sells t \<or> tot_sells t' = js_add (tot_sells t) (Fin \<bar>n\<bar>)"
    using D by (auto simp: result_simps)
  have nonneg: "js_le (Fin 0) (tot_gross t)" "js_le (Fin 0) (tot_buys t)" "js_le (Fin 0) (tot_sells t)"
    "\<And>a x. (a, x) \<in> set (tot_assets t) \<Longrightarrow> js_le (Fin 0) x"
    using assms(2) by (auto simp: totals_sane_def)
  have prior: "js_le (Fin 0) (case obj_get (tot_assets t) (exp_asset e) of None \<Rightarrow> Fin 0 | Some x \<Rightarrow> x)"
    using nonneg(4) by (auto split: option.splits dest: obj_get_Some_mem)
  have bound: "js_le (js_abs (tot_net t')) (Fin z) \<and> js_le (tot_buys t') (Fin z) \<and> js_le (tot_sells t') (Fin z)"
    if z: "tot_gross t' = Fin z" for z
  proof -
    obtain x where x: "tot_gross t = Fin x"
      using js_add_finite_left[OF nonneg(1), of "\<bar>n\<bar>"] z g by (auto simp: is_finite_iff)
    have old: "is_double x" "0 \<le> x" "js_le (js_abs (tot_net t)) (Fin x)" "js_le (tot_buys t) (Fin x)"
      "js_le (tot_sells t) (Fin x)"
      using assms(2) x by (auto simp: totals_sane_def)
    have zx: "js_add (Fin x) (Fin \<bar>n\<bar>) = Fin z" using z g x by simp
    have up: "js_le a (Fin z)" if "js_le a (Fin x)" for a
      using js_add_grows[OF _ old(1) _ that zx] old(2) by simp
    have plus: "js_le (js_add a (Fin \<bar>n\<bar>)) (Fin z)" if "js_le a (Fin x)" "js_le (Fin 0) a" for a
      using js_add_abs_le[of a x "\<bar>n\<bar>"] that zx js_abs_fl[of "y + \<bar>n\<bar>" for y]
      by (cases a) (auto simp: js_le_def)
    show ?thesis using up old plus nonneg buys sells net js_add_abs_le[OF old(3), of n] zx by auto
  qed
  show ?thesis unfolding totals_sane_def
    using nonneg g assets net buys sells prior bound
    by (auto simp: js_add_nonneg is_finite_iff dest!: obj_set_mem dest: js_add_double)
qed

lemma exposure_reasons_safe:
  assumes "limits_valid limits" "is_finite (exp_notional e)" "is_finite (exp_protectionCoveragePct e)"
    "protection_reasons limits e = []" "liquidation_reasons limits e = []" "stop_reasons limits e = Inr []"
  shows "exposure_safe limits e"
proof -
  obtain n p where e: "exp_notional e = Fin n" "exp_protectionCoveragePct e = Fin p"
    using assms(2,3) by (auto simp: is_finite_iff)
  obtain a b c where l: "minProtectionCoveragePct limits = Fin a" "minLiquidationDistancePct limits = Fin b"
      "maxStopDistancePct limits = Fin c"
    using assms(1) by (auto simp: limits_valid_def is_finite_iff)
  show ?thesis
    using assms(4-6) unfolding exposure_safe_def
    by (auto simp: protection_reasons_def liquidation_reasons_def stop_reasons_def e l is_finite_iff
        split: option.splits if_splits)
qed

lemma efold_add_exposure:
  assumes "efold (add_exposure limits) es t = Inr t'"
  shows "totals_sane t \<Longrightarrow> totals_sane t'"
    and "tot_gross t' = fold (\<lambda>e g. js_add g (js_abs (exp_notional e))) es (tot_gross t)"
    and "limits_valid limits \<Longrightarrow> tot_reasons t' = [] \<Longrightarrow>
           tot_reasons t = [] \<and> (\<forall>e \<in> set es. exposure_safe limits e)"
  using assms
proof (induction es arbitrary: t)
  case (Cons e es)
  { case 1 then show ?case using Cons.IH(1) by (auto simp: result_simps dest: add_exposure_sane) }
  { case 2 then show ?case using Cons.IH(2) by (auto simp: result_simps add_exposure_def Let_def split: if_splits) }
  { case 3
    then obtain u where u: "add_exposure limits e t = Inr u" "efold (add_exposure limits) es u = Inr t'"
      by (auto simp: result_simps)
    from Cons.IH(3)[OF 3(1,2) u(2)] have "tot_reasons u = []" "\<forall>e \<in> set es. exposure_safe limits e" by auto
    moreover from this(1) u(1) have "tot_reasons t = []" "exposure_safe limits e"
      using exposure_reasons_safe[OF 3(1), of e]
      by (auto simp: result_simps add_exposure_def Let_def split: if_splits)
    ultimately show ?case by simp }
qed simp_all

lemma loss_reasons_Nil:
  assumes "limits_valid limits" "d \<noteq> NaN" "dd \<noteq> NaN" "loss_reasons limits d dd = []"
  shows "js_lt d (maxDailyLoss limits)" "js_lt dd (maxDrawdown limits)"
proof -
  have "\<not> js_le (Fin b) x \<Longrightarrow> x \<noteq> NaN \<Longrightarrow> js_lt x (Fin b)" for b x by (cases x) (auto simp: js_le_def)
  moreover obtain a b where "maxDailyLoss limits = Fin a" "maxDrawdown limits = Fin b"
    using assms(1) by (auto simp: limits_valid_def is_finite_iff)
  ultimately show "js_lt d (maxDailyLoss limits)" "js_lt dd (maxDrawdown limits)"
    using assms(2-4) by (auto simp: loss_reasons_def split: if_splits)
qed

definition memory_finite :: "account_risk_memory \<Rightarrow> bool" where
  "memory_finite m \<longleftrightarrow> is_finite (mem_dailyOpeningValue m) \<and> is_finite (mem_peakValue m) \<and>
     (case mem_lastValue m of None \<Rightarrow> True | Some v \<Rightarrow> is_finite v)"

lemma assess_memory_facts:
  assumes am: "assess_memory limits facts m now date v = (m', d, dd, reasons)"
    and m: "memory_finite m" "is_finite v"
  shows "memory_finite m'" "d = js_max (Fin 0) (js_sub (mem_dailyOpeningValue m') v)"
    "dd = js_max (Fin 0) (js_sub (mem_peakValue m') v)" "d \<noteq> NaN" "dd \<noteq> NaN"
    "js_le (mem_peakValue m) (mem_peakValue m')"
proof -
  let ?fresh = "\<not> list_ex (prefix ''stale:'') (stale_reasons limits facts now)"
  define k where "k = observe_value ?fresh (facts_observedAt facts) v (roll_day ?fresh date m)"
  have k: "memory_finite k" "js_le (mem_peakValue m) (mem_peakValue k)"
    using m js_max_le[of "mem_peakValue m" v] js_le_refl_finite[of "mem_peakValue m"]
    by (auto simp: memory_finite_def k_def observe_value_def roll_day_def js_max_finite split: option.splits)
  have "\<exists>R. m' = latch_trip ?fresh now R k"
    using am unfolding assess_memory_def Let_def k_def prod.inject by blast
  then have m': "mem_dailyOpeningValue m' = mem_dailyOpeningValue k" "mem_peakValue m' = mem_peakValue k"
    "mem_lastValue m' = mem_lastValue k"
    by (auto simp: latch_trip_def)
  show "memory_finite m'" "js_le (mem_peakValue m) (mem_peakValue m')"
    using k m' by (auto simp: memory_finite_def)
  show d: "d = js_max (Fin 0) (js_sub (mem_dailyOpeningValue m') v)"
    and dd: "dd = js_max (Fin 0) (js_sub (mem_peakValue m') v)"
    using am m' unfolding assess_memory_def Let_def k_def by simp_all
  show "d \<noteq> NaN" "dd \<noteq> NaN"
    unfolding d dd using k m' m(2) by (simp_all add: js_max_not_NaN js_sub_finite_not_NaN memory_finite_def)
qed

lemma assess_memory_reasons:
  assumes am: "assess_memory limits facts m now date v = (m', d, dd, [])"
  shows "stale_reasons limits facts now = []" "loss_reasons limits d dd = []" "mem_lossTrip m' = None"
  using am by (auto simp: assess_memory_def Let_def split: if_splits)

lemma assess_memory_freshness:
  assumes am: "assess_memory limits facts m now date v = (m', d, dd, reasons)"
    and ok: "limits_valid limits" "is_finite now" "is_finite (facts_observedAt facts)"
      "is_finite (facts_oldestPriceAt facts)"
    and m: "memory_finite m" "is_finite v"
  shows "\<not> observation_fresh limits facts now \<Longrightarrow> m' = m"
    and "observation_fresh limits facts now \<Longrightarrow>
          mem_lastValue m' = Some v \<and> mem_peakValue m' = js_max (mem_peakValue m) v \<and> mem_date m' = date \<and>
          mem_lastObservedAt m' = facts_observedAt facts"
    and "mem_epoch m' = mem_epoch m"
  using am stale_reasons_fresh(2)[OF ok]
  by (auto simp: assess_memory_def Let_def latch_trip_def observe_value_def roll_day_def split: if_splits)

text \<open>The memory an assessment starts from, and the memory it hands on.\<close>

lemma start_memory_finite:
  assumes "assess_preconditions limits facts previous now = Inr (date, v)"
  shows "memory_finite (case previous of Some m \<Rightarrow> m | None \<Rightarrow> initial_memory facts date v)"
  using assess_preconditions_Inr[OF assms]
  by (auto simp: memory_finite_def memory_valid_def initial_memory_def split: option.splits)

lemma js_div_mul_not_NaN:
  assumes "is_finite a" "js_le (Fin 0) a" "js_gt (Fin e) (Fin 0)"
  shows "js_div a (Fin e) \<noteq> NaN" "js_mul (js_div a (Fin e)) (Fin 100) \<noteq> NaN"
proof -
  obtain x where x: "a = Fin x" "0 \<le> x" using assms by (auto simp: is_finite_iff)
  then have "0 \<le> x / e" using assms by simp
  from fl_nonneg[OF this] show "js_div a (Fin e) \<noteq> NaN" "js_mul (js_div a (Fin e)) (Fin 100) \<noteq> NaN"
    using x assms by (auto simp: inf_of_def)
qed

lemma limit_reasons_Nil:
  assumes "limit_reasons limits facts t net leverage marginPct = []" "limits_valid limits"
    "net \<noteq> NaN" "leverage \<noteq> NaN" "marginPct \<noteq> NaN" "totals_sane t" "is_finite (facts_equity facts)"
  shows "js_gt (facts_equity facts) (Fin 0)" "js_le (tot_gross t) (maxGrossExposure limits)"
    "js_le net (maxNetExposure limits)" "\<forall>(a, x) \<in> set (tot_assets t). js_le x (maxAssetExposure limits)"
    "js_le leverage (maxLeverage limits)" "js_le marginPct (maxMarginUsagePct limits)"
proof -
  obtain a b c d e where l: "maxGrossExposure limits = Fin a" "maxNetExposure limits = Fin b"
      "maxAssetExposure limits = Fin c" "maxLeverage limits = Fin d" "maxMarginUsagePct limits = Fin e"
    using assms(2) by (auto simp: limits_valid_def is_finite_iff)
  have up: "js_le x (Fin y)" if "\<not> js_gt x (Fin y)" "x \<noteq> NaN" for x y
    using js_not_lt_le[of "Fin y" x] that by simp
  have sane: "tot_gross t \<noteq> NaN" "\<And>a x. (a, x) \<in> set (tot_assets t) \<Longrightarrow> x \<noteq> NaN"
    using assms(6) by (auto simp: totals_sane_def dest: js_le_not_NaN)
  note N = assms(1)[unfolded limit_reasons_def, simplified]
  show "js_gt (facts_equity facts) (Fin 0)" using N finite_sign(1)[OF assms(7)] by auto
  show "js_le (tot_gross t) (maxGrossExposure limits)" "js_le net (maxNetExposure limits)"
    "js_le leverage (maxLeverage limits)" "js_le marginPct (maxMarginUsagePct limits)"
    using N sane(1) assms(3-5) by (auto simp: l intro!: up split: if_splits)
  show "\<forall>(a, x) \<in> set (tot_assets t). js_le x (maxAssetExposure limits)"
    using N sane(2) by (auto simp: l intro!: up split: if_splits)
qed

lemma net_not_NaN:
  assumes "totals_sane t" "is_finite (tot_gross t)"
  shows "js_max (js_abs (js_add (tot_net t) (tot_buys t))) (js_abs (js_sub (tot_net t) (tot_sells t))) \<noteq> NaN"
proof -
  obtain g where g: "tot_gross t = Fin g" using assms(2) by (auto simp: is_finite_iff)
  have "js_le (js_abs (tot_net t)) (Fin g)" "js_le (tot_buys t) (Fin g)" "js_le (tot_sells t) (Fin g)"
    "js_le (Fin 0) (tot_buys t)" "js_le (Fin 0) (tot_sells t)"
    using assms(1) g by (auto simp: totals_sane_def)
  then obtain n b s where "tot_net t = Fin n" "tot_buys t = Fin b" "tot_sells t = Fin s"
    by (cases "tot_net t"; cases "tot_buys t"; cases "tot_sells t") (auto simp: js_le_def)
  then show ?thesis by (simp add: js_sub_def js_abs_fl js_max_not_NaN)
qed

section \<open>Runs of the monitor\<close>

text \<open>A monitor that assesses one observation after the other and hands the memory on; a failed
  assessment leaves the memory as it was.\<close>

fun assess_run ::
  "account_risk_limits \<Rightarrow> (account_risk_facts \<times> jsnum) list \<Rightarrow> account_risk_memory option \<Rightarrow>
   (account_risk_error + account_risk_assessment) list" where
  "assess_run limits [] m = []"
| "assess_run limits ((facts, now) # obs) m =
     (let r = assessAccountRisk limits facts m now
      in r # assess_run limits obs (case r of Inl _ \<Rightarrow> m | Inr a \<Rightarrow> Some (as_memory a)))"

definition tripped :: "loss_trip \<Rightarrow> account_risk_error + account_risk_assessment \<Rightarrow> bool" where
  "tripped t r \<longleftrightarrow> (case r of Inl _ \<Rightarrow> True | Inr a \<Rightarrow> \<not> as_allowed a \<and> mem_lossTrip (as_memory a) = Some t)"

lemma assess_trip_blocks:
  assumes "assessAccountRisk limits facts previous now = Inr r" "mem_lossTrip (as_memory r) \<noteq> None"
  shows "\<not> as_allowed r"
  using assms(1)
proof (cases rule: assess_decompose)
  case (1 date v start reasons t)
  have "reasons \<noteq> []" using assess_memory_trip_reason[OF 1(3) assms(2)] .
  then show ?thesis
    using efold_add_exposure(3)[OF 1(4) assess_preconditions_Inr(1)[OF 1(1)]] 1(10,11) by auto
qed

lemma assess_keeps_trip:
  assumes "assessAccountRisk limits facts (Some m) now = Inr r" "mem_lossTrip m = Some t"
  shows "mem_lossTrip (as_memory r) = Some t"
  using assms(1) by (cases rule: assess_decompose) (use assms(2) in \<open>auto dest: assess_memory_keeps_trip\<close>)

lemma tripped_run:
  "mem_lossTrip m = Some t \<Longrightarrow> list_all (tripped t) (assess_run limits obs (Some m))"
proof (induction obs arbitrary: m)
  case (Cons o' obs)
  obtain facts now where o': "o' = (facts, now)" by fastforce
  show ?case
  proof (cases "assessAccountRisk limits facts (Some m) now")
    case (Inr a)
    have t: "mem_lossTrip (as_memory a) = Some t" using assess_keeps_trip[OF Inr Cons.prems] .
    then show ?thesis using Cons.IH[OF t] assess_trip_blocks[OF Inr] by (simp add: o' Inr tripped_def)
  qed (use Cons o' in \<open>auto simp: tripped_def\<close>)
qed simp

lemma assess_run_split:
  assumes "assess_run limits obs m = pre @ Inr a # post"
  shows "post = assess_run limits (drop (Suc (length pre)) obs) (Some (as_memory a)) \<and>
    (\<exists>m0. assessAccountRisk limits (fst (obs ! length pre)) m0 (snd (obs ! length pre)) = Inr a)"
  using assms
proof (induction limits obs m arbitrary: pre rule: assess_run.induct)
  case (2 limits facts now obs m)
  then show ?case by (cases pre) (auto simp: Let_def)
qed simp

definition peak_covers :: "jsnum \<Rightarrow> account_risk_memory \<Rightarrow> bool" where
  "peak_covers v m \<longleftrightarrow> js_le v (mem_peakValue m)"

lemma assess_peak:
  assumes "assessAccountRisk limits facts previous now = Inr r"
  shows "previous = Some m \<Longrightarrow> peak_covers v m \<Longrightarrow> peak_covers v (as_memory r)"
    and "as_drawdown r = js_max (Fin 0) (js_sub (mem_peakValue (as_memory r)) (flow_value facts))"
    and "is_finite (mem_peakValue (as_memory r))" "is_finite (flow_value facts)"
    and "mem_lastValue (as_memory r) = Some v \<Longrightarrow>
           (case previous of None \<Rightarrow> True | Some m \<Rightarrow> mem_lastValue m = Some v \<longrightarrow> peak_covers v m) \<Longrightarrow>
           peak_covers v (as_memory r)"
proof -
  obtain date x start reasons t where 1: "assess_preconditions limits facts previous now = Inr (date, x)"
    "start = (case previous of Some m \<Rightarrow> m | None \<Rightarrow> initial_memory facts date x)"
    "assess_memory limits facts start now date x = (as_memory r, as_dailyLoss r, as_drawdown r, reasons)"
    using assms by (rule assess_decompose)
  note pre = assess_preconditions_Inr[OF 1(1)]
  have start: "memory_finite start" using start_memory_finite[OF 1(1)] by (simp add: 1(2))
  note mem = assess_memory_facts[OF 1(3) start pre(10)]
    and fresh = assess_memory_freshness[OF 1(3) pre(1,3,7,8) start pre(10)]
  show "previous = Some m \<Longrightarrow> peak_covers v m \<Longrightarrow> peak_covers v (as_memory r)"
    using mem(6) 1(2) by (auto simp: peak_covers_def intro: js_le_trans)
  show "as_drawdown r = js_max (Fin 0) (js_sub (mem_peakValue (as_memory r)) (flow_value facts))"
    using mem(3) pre(9) by simp
  show "is_finite (mem_peakValue (as_memory r))" "is_finite (flow_value facts)"
    using mem(1) pre(9,10) by (auto simp: memory_finite_def)
  assume v: "mem_lastValue (as_memory r) = Some v"
    "case previous of None \<Rightarrow> True | Some m \<Rightarrow> mem_lastValue m = Some v \<longrightarrow> peak_covers v m"
  show "peak_covers v (as_memory r)"
  proof (cases "observation_fresh limits facts now")
    case True
    then show ?thesis
      using fresh(2) v(1) js_max_le[of "mem_peakValue start" x] start pre(10)
      by (simp add: memory_finite_def peak_covers_def)
  next
    case False
    then show ?thesis using fresh(1) v 1(2) by (auto simp: initial_memory_def split: option.splits)
  qed
qed

lemma last_value_covered:
  assumes "assess_run limits obs m = pre @ Inr a # post" "mem_lastValue (as_memory a) = Some v"
    "case m of None \<Rightarrow> True | Some k \<Rightarrow> (\<forall>v. mem_lastValue k = Some v \<longrightarrow> peak_covers v k)"
  shows "peak_covers v (as_memory a)"
  using assms
proof (induction limits obs m arbitrary: pre rule: assess_run.induct)
  case (2 limits facts now obs m)
  have inv: "case Some (as_memory b) of None \<Rightarrow> True | Some k \<Rightarrow> (\<forall>v. mem_lastValue k = Some v \<longrightarrow> peak_covers v k)"
    if "assessAccountRisk limits facts m now = Inr b" for b
    using assess_peak(5)[OF that] "2.prems"(3) by (auto split: option.splits)
  show ?case
  proof (cases pre)
    case Nil then show ?thesis using "2.prems" inv[of a] by (auto simp: Let_def)
  next
    case (Cons p pre')
    then show ?thesis
      using "2.IH"[OF refl, of pre'] "2.prems" inv by (cases "assessAccountRisk limits facts m now") auto
  qed
qed simp

lemma allowed_drawdown:
  assumes "assessAccountRisk limits facts previous now = Inr r" "as_allowed r"
  shows "js_lt (as_drawdown r) (maxDrawdown limits)"
  using assms(1)
proof (cases rule: assess_decompose)
  case (1 date v start reasons t)
  note pre = assess_preconditions_Inr[OF 1(1)]
  have "reasons = []" using efold_add_exposure(3)[OF 1(4) pre(1)] 1(10,11) assms(2) by auto
  note am = 1(3)[unfolded this]
  have start: "memory_finite start" unfolding 1(2) by (rule start_memory_finite[OF 1(1)])
  show ?thesis
    using loss_reasons_Nil(2)[OF pre(1) _ _ assess_memory_reasons(2)[OF am]]
      assess_memory_facts(4,5)[OF am start pre(10)] by simp
qed

lemma peak_covers_run:
  assumes "assess_run limits obs (Some m) = pre @ Inr b # post" "peak_covers v m"
  shows "peak_covers v (as_memory b)"
  using assms
proof (induction obs arbitrary: m pre)
  case (Cons o' obs)
  obtain facts now where o': "o' = (facts, now)" by fastforce
  show ?case
  proof (cases pre)
    case Nil then show ?thesis using Cons.prems assess_peak(1) by (auto simp: o' Let_def)
  next
    case pre: (Cons p pre')
    show ?thesis
    proof (cases "assessAccountRisk limits facts (Some m) now")
      case (Inl e) then show ?thesis using Cons.IH[of m pre'] Cons.prems pre by (simp add: o')
    next
      case (Inr a)
      then show ?thesis
        using Cons.IH[of "as_memory a" pre'] Cons.prems pre assess_peak(1)[OF Inr, of m v] by (simp add: o')
    qed
  qed
qed simp

lemma latch_trip_valid:
  assumes "memory_valid m" "is_finite now" shows "memory_valid (latch_trip fresh now reasons m)"
  using assms by (auto simp: latch_trip_def memory_valid_def filter_empty_conv list_ex_iff)

lemma assess_memory_valid:
  assumes "assess_memory limits facts m now date v = (m', d, dd, reasons)" "memory_valid m" "is_finite v"
    "is_finite now" "is_finite (facts_observedAt facts)" "date_format date"
  shows "memory_valid m' \<and> mem_epoch m' = mem_epoch m"
proof -
  have "memory_valid (observe_value f (facts_observedAt facts) v (roll_day f date m))" for f
    using assms by (auto simp: memory_valid_def observe_value_def roll_day_def js_max_finite split: option.splits)
  moreover have "mem_epoch (latch_trip f now R (observe_value f (facts_observedAt facts) v (roll_day f date m))) = mem_epoch m"
    for f R by (simp add: latch_trip_def observe_value_def roll_day_def)
  ultimately show ?thesis
    using assms(1,4) latch_trip_valid unfolding assess_memory_def Let_def prod.inject by metis
qed

lemma allowed_within_limits:
  assumes "assessAccountRisk limits facts previous now = Inr r" "as_allowed r"
  shows "observation_fresh limits facts now \<and> mem_lossTrip (as_memory r) = None \<and>
    js_lt (as_dailyLoss r) (maxDailyLoss limits) \<and> js_lt (as_drawdown r) (maxDrawdown limits) \<and>
    as_grossExposure r = fold (\<lambda>e g. js_add g (js_abs (exp_notional e))) (facts_exposures facts) (Fin 0) \<and>
    js_le (as_grossExposure r) (maxGrossExposure limits) \<and> js_le (as_netExposure r) (maxNetExposure limits) \<and>
    (\<forall>(a, x) \<in> set (as_assetExposure r). js_le x (maxAssetExposure limits)) \<and>
    js_gt (facts_equity facts) (Fin 0) \<and>
    js_le (as_leverage r) (maxLeverage limits) \<and> js_le (as_marginUsagePct r) (maxMarginUsagePct limits) \<and>
    (\<forall>e \<in> set (facts_exposures facts). exposure_safe limits e)"
  using assms(1)
proof (cases rule: assess_decompose)
  case (1 date v start reasons t)
  note pre = assess_preconditions_Inr[OF 1(1)]
  have nil: "tot_reasons t = []" and lim: "limit_reasons limits facts t (as_netExposure r) (as_leverage r) (as_marginUsagePct r) = []"
    using 1(10,11) assms(2) by auto
  note ex = efold_add_exposure[OF 1(4), simplified]
  have r0: "reasons = []" and safe: "\<forall>e \<in> set (facts_exposures facts). exposure_safe limits e"
    using ex(3)[OF pre(1) nil] by auto
  have sane: "totals_sane t" by (rule ex(1)) (simp add: totals_sane_def is_double_def)
  note am = 1(3)[unfolded r0]
  have start: "memory_finite start" unfolding 1(2) by (rule start_memory_finite[OF 1(1)])
  note mem = assess_memory_facts[OF am start pre(10)] and none = assess_memory_reasons[OF am]
  have gross: "\<not> js_gt (tot_gross t) (maxGrossExposure limits)"
    using lim by (auto simp: limit_reasons_def split: if_splits)
  moreover have "js_le (Fin 0) (tot_gross t)" "is_finite (maxGrossExposure limits)"
    using sane pre(1) by (auto simp: totals_sane_def limits_valid_def)
  ultimately have gf: "is_finite (tot_gross t)"
    by (cases "tot_gross t"; cases "maxGrossExposure limits") (auto simp: js_le_def)
  obtain e where e: "facts_equity facts = Fin e" using pre(4) by (auto simp: is_finite_iff)
  have nn: "as_netExposure r \<noteq> NaN" "as_leverage r \<noteq> NaN" "as_marginUsagePct r \<noteq> NaN"
    unfolding 1(7,8,9) using net_not_NaN[OF sane gf] js_div_mul_not_NaN[OF gf, of e]
      js_div_mul_not_NaN[OF pre(5,6), of e] \<open>js_le (Fin 0) (tot_gross t)\<close> by (auto simp: e)
  note within = limit_reasons_Nil[OF lim pre(1) nn sane pre(4)]
  show ?thesis
    using none(1) stale_reasons_fresh(1)[OF pre(1,3,7,8)] none(3)
      loss_reasons_Nil[OF pre(1) mem(4,5) none(2)] ex(2) within safe 1(5,6) by simp
qed

section \<open>Properties\<close>

text \<open>C3. An observation the assessment allows is fresh, has no loss trip, and stays within every
  configured limit: daily loss, drawdown, gross, net and per-asset exposure, leverage, margin usage,
  and for every exposure its protection, liquidation distance and stop distance. The gross exposure is
  the sum of the magnitudes of all exposures. Overflow and missing evidence never make a comparison
  pass: the conclusions are the comparisons themselves, false on not-a-number.\<close>

theorem allowed_account_is_within_limits:
  assumes "assessAccountRisk limits facts previous now = Inr r" "as_allowed r"
  shows "observation_fresh limits facts now \<and> mem_lossTrip (as_memory r) = None \<and>
    js_lt (as_dailyLoss r) (maxDailyLoss limits) \<and> js_lt (as_drawdown r) (maxDrawdown limits) \<and>
    as_grossExposure r = fold (\<lambda>e g. js_add g (js_abs (exp_notional e))) (facts_exposures facts) (Fin 0) \<and>
    js_le (as_grossExposure r) (maxGrossExposure limits) \<and> js_le (as_netExposure r) (maxNetExposure limits) \<and>
    (\<forall>(a, x) \<in> set (as_assetExposure r). js_le x (maxAssetExposure limits)) \<and>
    js_gt (facts_equity facts) (Fin 0) \<and>
    js_le (as_leverage r) (maxLeverage limits) \<and> js_le (as_marginUsagePct r) (maxMarginUsagePct limits) \<and>
    (\<forall>e \<in> set (facts_exposures facts). exposure_safe limits e)"
  by (rule allowed_within_limits[OF assms])

text \<open>A stale observation is never allowed and never moves the memory: neither the peak nor the daily
  opening value nor the loss trip can be changed by data that is too old or from the future.\<close>

theorem stale_observation_changes_nothing:
  assumes "assessAccountRisk limits facts (Some m) now = Inr r" "\<not> observation_fresh limits facts now"
  shows "as_memory r = m \<and> \<not> as_allowed r"
  using assms(1)
proof (cases rule: assess_decompose)
  case (1 date v start reasons t)
  note pre = assess_preconditions_Inr[OF 1(1)]
  have start: "memory_finite m" using start_memory_finite[OF 1(1)] by simp
  have "as_memory r = m"
    using assess_memory_freshness(1)[OF 1(3) pre(1,3,7,8) _ pre(10)] start assms(2) 1(2) by simp
  moreover have "reasons \<noteq> []"
    using assess_memory_reasons(1) 1(3) stale_reasons_fresh(1)[OF pre(1,3,7,8)] assms(2) by metis
  then have "\<not> as_allowed r"
    using efold_add_exposure(3)[OF 1(4) pre(1)] 1(10,11) by auto
  ultimately show ?thesis by simp
qed

text \<open>C4. The loss trip is latched: once an assessment of a run has recorded a trip, it and every later
  assessment of the run, whatever it observes, is refused and keeps the same trip.\<close>

theorem loss_trip_is_latched:
  assumes "assess_run limits obs m = pre @ Inr a # post" "mem_lossTrip (as_memory a) = Some t"
  shows "list_all (tripped t) (Inr a # post)"
proof -
  from assess_run_split[OF assms(1)] obtain m0 where
    a: "assessAccountRisk limits (fst (obs ! length pre)) m0 (snd (obs ! length pre)) = Inr a"
    and post: "post = assess_run limits (drop (Suc (length pre)) obs) (Some (as_memory a))" by blast
  show ?thesis
    using tripped_run[OF assms(2)] assess_trip_blocks[OF a] assms(2) by (auto simp: post tripped_def)
qed

text \<open>The drawdown counts from the highest value: in the run of an account from its first observation, the
  drawdown of an assessment is at least the fall from every flow-adjusted value recorded before it, so
  a fall by the configured maximum since any of them refuses the account.\<close>

theorem drawdown_counts_from_every_past_value:
  assumes run: "assess_run limits obs None = pre @ Inr a # mid @ Inr b # post"
    and v: "mem_lastValue (as_memory a) = Some v"
    and facts: "facts = fst (obs ! (length pre + 1 + length mid))"
  shows "js_le (js_sub v (flow_value facts)) (as_drawdown b) \<and>
    (js_ge (js_sub v (flow_value facts)) (maxDrawdown limits) \<longrightarrow> \<not> as_allowed b)"
proof -
  have cov: "peak_covers v (as_memory a)" using last_value_covered[OF run v] by simp
  from assess_run_split[OF run] have rest: "mid @ Inr b # post = assess_run limits (drop (Suc (length pre)) obs) (Some (as_memory a))"
    by blast
  from peak_covers_run[OF rest[symmetric] cov] have c: "js_le v (mem_peakValue (as_memory b))"
    by (simp add: peak_covers_def)
  from assess_run_split[of limits obs None "pre @ Inr a # mid" b post] run facts obtain m0 now where
    bb: "assessAccountRisk limits facts m0 now = Inr b" by auto
  note peak = assess_peak[OF bb]
  obtain p x where p: "mem_peakValue (as_memory b) = Fin p" "flow_value facts = Fin x"
    using peak(3,4) by (auto simp: is_finite_iff)
  have "js_le (js_sub v (Fin x)) (js_sub (Fin p) (Fin x))"
    using c js_sub_le[of v p x] p by simp
  moreover have "js_le (js_sub (Fin p) (Fin x)) (as_drawdown b)"
    using peak(2) js_max_ge(2)[of "fl (p - x)" "Fin 0"] unfolding p by (simp add: js_sub_def)
  ultimately have le: "js_le (js_sub v (flow_value facts)) (as_drawdown b)" using p js_le_trans by metis
  have "\<not> js_le (maxDrawdown limits) (as_drawdown b)" if "as_allowed b"
    using allowed_drawdown[OF bb that] js_le_not_gt by blast
  with le show ?thesis using js_le_trans by blast
qed

text \<open>The memory an assessment hands on is one the validator of persisted memory accepts, so the next
  assessment, or the one after a restart, can use it; the dates must be of the years 0 to 9999, which
  is what the format of the stored date can hold.\<close>

theorem assessment_returns_valid_memory:
  assumes "assessAccountRisk limits facts previous now = Inr r" "date_in_four_digit_years now"
  shows "validateAccountRiskMemory (memory_json (as_memory r)) = Inr () \<and> mem_epoch (as_memory r) = facts_epoch facts"
  using assms(1)
proof (cases rule: assess_decompose)
  case (1 date v start reasons t)
  note pre = assess_preconditions_Inr[OF 1(1)]
  have "date_format date"
    using pre(11) iso_date_four_digits[OF assms(2)] by simp
  then have "memory_valid start \<and> mem_epoch start = facts_epoch facts"
    using pre(2,7,9,10) 1(2) by (auto simp: memory_valid_def initial_memory_def split: option.splits)
  with 1(3) pre(3,7,10) \<open>date_format date\<close> show ?thesis
    using assess_memory_valid[OF 1(3)] by (simp add: memory_json_valid)
qed


section \<open>Witnesses\<close>

definition demo_limits :: account_risk_limits where
  "demo_limits =
     \<lparr>maxGrossExposure = Fin 5000, maxNetExposure = Fin 5000, maxAssetExposure = Fin 5000, maxLeverage = Fin 3,
      maxMarginUsagePct = Fin 50, maxDailyLoss = Fin 400, maxDrawdown = Fin 300, maxDataAgeMs = Fin 60000,
      maxPriceDeviationPct = Fin 1, minDepthRatio = Fin 2, minLiquidationDistancePct = Fin 10,
      minProtectionCoveragePct = Fin 100, maxStopDistancePct = Fin 20, cancelEntriesOnBreach = True,
      reduceOnBreach = False\<rparr>"

definition demo_exposure :: risk_exposure where
  "demo_exposure =
     \<lparr>exp_asset = ''BTC'', exp_symbol = ''BTC/USDT'', exp_notional = Fin 1000, exp_pending = False,
      exp_liquidationDistancePct = None, exp_protectionCoveragePct = Fin 100, exp_stopDistancePct = Some (Fin 5),
      exp_futures = False, exp_projected = None\<rparr>"

definition demo_account :: "rat \<Rightarrow> rat \<Rightarrow> account_risk_facts" where
  "demo_account t equity =
     \<lparr>facts_source = ''exchange'', facts_epoch = ''e1'', facts_observedAt = Fin t, facts_oldestPriceAt = Fin t,
      facts_equity = Fin equity, facts_netExternalFlows = Fin 0, facts_marginUsed = Fin 0,
      facts_exposures = [demo_exposure]\<rparr>"

definition demo_memory :: account_risk_memory where
  "demo_memory =
     \<lparr>mem_epoch = ''e1'', mem_date = ''1970-01-01'', mem_dailyOpeningValue = Fin 1000, mem_peakValue = Fin 1000,
      mem_lastObservedAt = Fin 1000, mem_lastValue = Some (Fin 1000), mem_lossTrip = None\<rparr>"



lemma demo_limits_valid [simp]: "limits_valid demo_limits"
  by (simp add: limits_valid_def demo_limits_def)

lemma demo_dates [simp]:
  "iso_date (Fin 1000) = Some ''1970-01-01''" "iso_date (Fin 2000) = Some ''1970-01-01''"
  "iso_date (Fin 3000) = Some ''1970-01-01''" "iso_date (Fin 90000) = Some ''1970-01-01''"
  by code_simp+

lemma limits_json_Inr [simp]: "limits_valid l \<Longrightarrow> validateAccountRiskLimits (limits_json l) = Inr ()"
  by (simp add: limits_json_valid)

lemma memory_json_Inr [simp]: "memory_valid m \<Longrightarrow> validateAccountRiskMemory (memory_json m) = Inr ()"
  by (simp add: memory_json_valid)

lemma demo_limit_values [simp]:
  "maxGrossExposure demo_limits = Fin 5000" "maxNetExposure demo_limits = Fin 5000"
  "maxAssetExposure demo_limits = Fin 5000" "maxLeverage demo_limits = Fin 3"
  "maxMarginUsagePct demo_limits = Fin 50" "maxDailyLoss demo_limits = Fin 400" "maxDrawdown demo_limits = Fin 300"
  "maxDataAgeMs demo_limits = Fin 60000" "minLiquidationDistancePct demo_limits = Fin 10"
  "minProtectionCoveragePct demo_limits = Fin 100" "maxStopDistancePct demo_limits = Fin 20"
  by (simp_all add: demo_limits_def)

lemma demo_add_exposure [simp]:
  "add_exposure demo_limits demo_exposure
     \<lparr>tot_gross = Fin 0, tot_net = Fin 0, tot_buys = Fin 0, tot_sells = Fin 0, tot_assets = [], tot_reasons = rs\<rparr>
   = Inr \<lparr>tot_gross = Fin 1000, tot_net = Fin 1000, tot_buys = Fin 0, tot_sells = Fin 0,
          tot_assets = [(''BTC'', Fin 1000)], tot_reasons = rs\<rparr>"
  by (simp add: add_exposure_def demo_exposure_def protection_reasons_def liquidation_reasons_def stop_reasons_def
      obj_set_def Let_def)

lemma demo_preconditions:
  assumes "case m of None \<Rightarrow> True | Some k \<Rightarrow> memory_valid k \<and> mem_epoch k = ''e1'' \<and> \<not> js_gt (mem_lastObservedAt k) (Fin t)"
    "fl equity = Fin equity" "iso_date (Fin now) = Some date"
  shows "assess_preconditions demo_limits (demo_account t equity) m (Fin now) = Inr (date, Fin equity)"
  using assms
  by (simp add: assess_preconditions_def check_fact_def demo_account_def js_sub_def split: option.splits)

lemmas demo_assess_defs = assess_memory_def initial_memory_def stale_reasons_def stale_reason_def
  roll_day_def observe_value_def loss_reasons_def latch_trip_def js_sub_def js_max_def Let_def demo_memory_def

lemma demo_memory_valid [simp]: "memory_valid demo_memory" 
  by (simp add: memory_valid_def demo_memory_def date_format_def is_digit_def)

lemma demo_memory_1: "assess_memory demo_limits (demo_account 1000 1000)
    (initial_memory (demo_account 1000 1000) ''1970-01-01'' (Fin 1000)) (Fin 1000) ''1970-01-01'' (Fin 1000)
    = (demo_memory, Fin 0, Fin 0, [])"
  by (simp add: demo_assess_defs demo_account_def)

definition demo_tripped :: account_risk_memory where
  "demo_tripped = demo_memory\<lparr>mem_lastObservedAt := Fin 2000, mem_lastValue := Some (Fin 500),
     mem_lossTrip := Some \<lparr>trip_at = Fin 2000, trip_reasons = [''maxDailyLoss'', ''maxDrawdown'']\<rparr>\<rparr>"

lemma demo_memory_2: "assess_memory demo_limits (demo_account 2000 500) demo_memory (Fin 2000) ''1970-01-01'' (Fin 500)
    = (demo_tripped, Fin 500, Fin 500, [''maxDailyLoss'', ''maxDrawdown'', ''lossTrip''])"
  by (simp add: demo_assess_defs demo_account_def demo_tripped_def)

lemma demo_memory_fields:
  "mem_epoch demo_memory = ''e1''" "mem_lastObservedAt demo_memory = Fin 1000"
  "mem_epoch demo_tripped = ''e1''" "mem_lastObservedAt demo_tripped = Fin 2000"
  by (simp_all add: demo_tripped_def demo_memory_def)

lemma demo_assess:
  assumes "assess_preconditions demo_limits (demo_account t equity) m (Fin now) = Inr (date, v)"
    "assess_memory demo_limits (demo_account t equity)
       (case m of Some k \<Rightarrow> k | None \<Rightarrow> initial_memory (demo_account t equity) date v) (Fin now) date v = (k, d, dd, rs)"
  shows "\<exists>r. assessAccountRisk demo_limits (demo_account t equity) m (Fin now) = Inr r \<and> as_memory r = k \<and>
     (equity = 1000 \<and> rs = [] \<longrightarrow> as_allowed r)"
proof -
  have e: "facts_exposures (demo_account t equity) = [demo_exposure]" "facts_equity (demo_account t equity) = Fin equity"
    "facts_marginUsed (demo_account t equity) = Fin 0" for equity by (simp_all add: demo_account_def)
  show ?thesis
    using assms by (simp add: assessAccountRisk_def e Let_def) (simp add: limit_reasons_def e js_sub_def js_max_def)
qed

lemma demo_first:
  "\<exists>r. assessAccountRisk demo_limits (demo_account 1000 1000) None (Fin 1000) = Inr r \<and> as_allowed r \<and>
     as_memory r = demo_memory"
  using demo_assess[OF demo_preconditions[of 1000 None 1000 1000 "''1970-01-01''"]] demo_memory_1 by auto

theorem allowed_account_is_within_limits_witness:
  "\<exists>r. assessAccountRisk demo_limits (demo_account 1000 1000) None (Fin 1000) = Inr r \<and>
     js_le (as_leverage r) (maxLeverage demo_limits) \<and> js_lt (as_drawdown r) (maxDrawdown demo_limits)"
proof -
  obtain r where r: "assessAccountRisk demo_limits (demo_account 1000 1000) None (Fin 1000) = Inr r" "as_allowed r"
    using demo_first by blast
  from allowed_account_is_within_limits[OF r] r(1) show ?thesis by blast
qed

theorem stale_observation_changes_nothing_witness:
  "\<exists>r. assessAccountRisk demo_limits (demo_account 2000 500) (Some demo_memory) (Fin 90000) = Inr r \<and>
     as_memory r = demo_memory \<and> \<not> as_allowed r"
proof -
  have "\<exists>r. assessAccountRisk demo_limits (demo_account 2000 500) (Some demo_memory) (Fin 90000) = Inr r"
    using demo_assess[OF demo_preconditions[of 2000 "Some demo_memory" 500 90000 "''1970-01-01''"]]
    by (cases "assess_memory demo_limits (demo_account 2000 500) demo_memory (Fin 90000) ''1970-01-01'' (Fin 500)" rule: prod_cases4)
       (auto simp: demo_memory_fields)
  then obtain r where r: "assessAccountRisk demo_limits (demo_account 2000 500) (Some demo_memory) (Fin 90000) = Inr r"
    by blast
  have "\<not> observation_fresh demo_limits (demo_account 2000 500) (Fin 90000)"
    by (simp add: observation_fresh_def demo_account_def demo_limits_def js_sub_def)
  from stale_observation_changes_nothing[OF r this] r show ?thesis by blast
qed

definition demo_observations :: "(account_risk_facts \<times> jsnum) list" where
  "demo_observations = [(demo_account 1000 1000, Fin 1000), (demo_account 2000 500, Fin 2000), (demo_account 3000 1000, Fin 3000)]"

lemma demo_assess_run:
  "\<exists>a b c. assess_run demo_limits demo_observations None = [Inr a, Inr b, Inr c] \<and>
     mem_lastValue (as_memory a) = Some (Fin 1000) \<and>
     mem_lossTrip (as_memory b) = Some \<lparr>trip_at = Fin 2000, trip_reasons = [''maxDailyLoss'', ''maxDrawdown'']\<rparr>"
proof -
  obtain a where a: "assessAccountRisk demo_limits (demo_account 1000 1000) None (Fin 1000) = Inr a" "as_memory a = demo_memory"
    using demo_first by blast
  have "\<exists>b. assessAccountRisk demo_limits (demo_account 2000 500) (Some demo_memory) (Fin 2000) = Inr b \<and> as_memory b = demo_tripped"
    using demo_assess[OF demo_preconditions[of 2000 "Some demo_memory" 500 2000 "''1970-01-01''"]] demo_memory_2
    by (auto simp: demo_memory_fields)
  then obtain b where b: "assessAccountRisk demo_limits (demo_account 2000 500) (Some demo_memory) (Fin 2000) = Inr b"
      "as_memory b = demo_tripped" by blast
  have v: "memory_valid demo_tripped" using demo_memory_valid by (simp add: demo_tripped_def memory_valid_def)
  then have "\<exists>c. assessAccountRisk demo_limits (demo_account 3000 1000) (Some demo_tripped) (Fin 3000) = Inr c"
    using demo_assess[OF demo_preconditions[of 3000 "Some demo_tripped" 1000 3000 "''1970-01-01''"]]
    by (cases "assess_memory demo_limits (demo_account 3000 1000) demo_tripped (Fin 3000) ''1970-01-01'' (Fin 1000)" rule: prod_cases4)
       (auto simp: demo_memory_fields)
  with a b show ?thesis by (auto simp: demo_observations_def demo_memory_def demo_tripped_def)
qed

theorem loss_trip_is_latched_witness:
  "\<exists>a b c t. assess_run demo_limits demo_observations None = [Inr a, Inr b, Inr c] \<and>
     mem_lossTrip (as_memory b) = Some t \<and> \<not> as_allowed c"
proof -
  obtain a b c t where r: "assess_run demo_limits demo_observations None = [Inr a] @ Inr b # [Inr c]"
      "mem_lossTrip (as_memory b) = Some t" using demo_assess_run by fastforce
  from loss_trip_is_latched[OF r] r show ?thesis by (auto simp: tripped_def)
qed

theorem drawdown_counts_from_every_past_value_witness:
  "\<exists>a b c. assess_run demo_limits demo_observations None = [Inr a, Inr b, Inr c] \<and>
     js_le (Fin 500) (as_drawdown b) \<and> \<not> as_allowed b"
proof -
  obtain a b c where r: "assess_run demo_limits demo_observations None = [] @ Inr a # [] @ Inr b # [Inr c]"
      "mem_lastValue (as_memory a) = Some (Fin 1000)" using demo_assess_run by fastforce
  have "flow_value (demo_account 2000 500) = Fin 500" by (simp add: demo_account_def js_sub_def)
  moreover have "maxDrawdown demo_limits = Fin 300" by (simp add: demo_limits_def)
  ultimately show ?thesis
    using drawdown_counts_from_every_past_value[OF r refl] r by (simp add: demo_observations_def js_sub_def)
qed

theorem assessment_returns_valid_memory_witness:
  "\<exists>r. assessAccountRisk demo_limits (demo_account 1000 1000) None (Fin 1000) = Inr r \<and>
     validateAccountRiskMemory (memory_json (as_memory r)) = Inr ()"
proof -
  obtain r where r: "assessAccountRisk demo_limits (demo_account 1000 1000) None (Fin 1000) = Inr r"
    using demo_first by blast
  have "date_in_four_digit_years (Fin 1000)" by code_simp
  from assessment_returns_valid_memory[OF r this] r show ?thesis by blast
qed

end
