(* ===== verification/Claims.thy ===== *)
theory Claims
  imports Main
begin

text \<open>
  The contract between a component that keeps claims (the risk ledger its reservations, the execution
  journal its unresolved executions) and its clients: a claim is opened under a fresh key, closed only
  while it is open, and every other operation leaves the open claims alone. What follows for every run
  is proved here once; the components that provide the operations interpret the locale.
\<close>

datatype ('k, 'c) claim_event = Opened 'k 'c | Closed 'k | Quiet

fun opened :: "'k \<Rightarrow> ('k, 'c) claim_event list \<Rightarrow> nat" where
  "opened k [] = 0"
| "opened k (Opened k' _ # es) = (if k' = k then Suc (opened k es) else opened k es)"
| "opened k (_ # es) = opened k es"

fun closed :: "'k \<Rightarrow> ('k, 'c) claim_event list \<Rightarrow> nat" where
  "closed k [] = 0"
| "closed k (Closed k' # es) = (if k' = k then Suc (closed k es) else closed k es)"
| "closed k (_ # es) = closed k es"

definition held :: "'c option \<Rightarrow> nat" where
  "held c = (case c of None \<Rightarrow> 0 | Some _ \<Rightarrow> 1)"

lemma held_simps [simp]: "held None = 0" "held (Some c) = 1"
  by (simp_all add: held_def)

locale claim_ledger =
  fixes claims :: "'s \<Rightarrow> 'k \<Rightarrow> 'c option"
    and open_step :: "'k \<Rightarrow> 'c \<Rightarrow> 's \<Rightarrow> 's \<Rightarrow> bool"
    and close_step :: "'k \<Rightarrow> 's \<Rightarrow> 's \<Rightarrow> bool"
    and quiet_step :: "'s \<Rightarrow> 's \<Rightarrow> bool"
  assumes open_fresh: "open_step k c s s' \<Longrightarrow> claims s k = None"
    and open_adds: "open_step k c s s' \<Longrightarrow> claims s' = (claims s)(k \<mapsto> c)"
    and close_held: "close_step k s s' \<Longrightarrow> claims s k \<noteq> None"
    and close_removes: "close_step k s s' \<Longrightarrow> claims s' = (claims s)(k := None)"
    and quiet_keeps: "quiet_step s s' \<Longrightarrow> claims s' = claims s"
begin

fun step_of :: "('k, 'c) claim_event \<Rightarrow> 's \<Rightarrow> 's \<Rightarrow> bool" where
  "step_of (Opened k c) = open_step k c"
| "step_of (Closed k) = close_step k"
| "step_of Quiet = quiet_step"

inductive run :: "'s \<Rightarrow> ('k, 'c) claim_event list \<Rightarrow> 's \<Rightarrow> bool" where
  run_Nil: "run s [] s"
| run_Cons: "step_of e s s' \<Longrightarrow> run s' es s'' \<Longrightarrow> run s (e # es) s''"

lemma step_balance:
  assumes "step_of e s s'"
  shows "held (claims s k) + opened k [e] = held (claims s' k) + closed k [e]"
proof (cases e)
  case (Opened k' c)
  then show ?thesis using open_fresh[of k' c s s'] open_adds[of k' c s s'] assms by auto
next
  case (Closed k')
  then show ?thesis using close_held[of k' s s'] close_removes[of k' s s'] assms by (auto simp: held_def)
next
  case Quiet
  then show ?thesis using quiet_keeps[of s s'] assms by simp
qed

lemma run_balance: "run s es s' \<Longrightarrow> held (claims s k) + opened k es = held (claims s' k) + closed k es"
proof (induction rule: run.induct)
  case (run_Cons e s s' es s'')
  have "opened k (e # es) = opened k [e] + opened k es" "closed k (e # es) = closed k [e] + closed k es"
    by (cases e; simp)+
  with step_balance[OF run_Cons.hyps(1), of k] run_Cons.IH show ?case by simp
qed simp

lemma closed_at_most_opened: "run s es s' \<Longrightarrow> closed k es \<le> opened k es + held (claims s k)"
  using run_balance[of s es s' k] by linarith

lemma closed_once_per_open:
  assumes "run s es s'" "opened k es + held (claims s k) \<le> 1"
  shows "closed k es \<le> 1 \<and> (closed k es = 1 \<longrightarrow> claims s' k = None)"
  using run_balance[OF assms(1), of k] assms(2) by (auto simp: held_def split: option.splits)

end

end
