(* ===== verification/Risk_Ledger.thy ===== *)
theory Risk_Ledger
  imports Account_Risk Claims
begin

text \<open>
  The risk ledger (\<^verbatim>\<open>packages/trading-risk/src/risk.ts\<close>): the persisted usage of the daily quota, the
  reservations of orders in flight, the audit history, and the operations of \<^verbatim>\<open>RiskLedger\<close> on them.
  The ledger keeps its configuration; everything else lives in the store, which is the state passed
  here. An operation that throws returns \<open>Inl\<close> and no state: the transaction of the store is atomic.
  The environment of a call (\<open>ledger_env\<close>) holds what the code asks the platform for: the ledger's
  clock, the wall clock that stamps audit events, and the identifier \<^verbatim>\<open>randomUUID\<close> returns.
  Timestamps are kept as time values in milliseconds; the sources store the ISO text of the same instant.
\<close>

section \<open>Data model\<close>

datatype market_type = Spot | Usdm_futures | Both

datatype trading_mode = Paper | Live

record risk_limits =
  maxOrderNotional :: jsnum
  maxDailyNotional :: jsnum
  allowedSymbols :: "string list"
  account_limits :: "account_risk_limits option"

datatype margin_type = Isolated | Cross_margin

datatype mutation_kind = Cancel_orders "string list" | Set_leverage jsnum | Set_margin margin_type

record account_risk_mutation =
  mut_id :: string
  mut_symbol :: string
  mut_kind :: mutation_kind

record account_risk_state =
  ars_limits :: account_risk_limits
  ars_memory :: "account_risk_memory option"
  ars_blockedReasons :: "string list"
  ars_revision :: jsnum
  ars_mutation :: "account_risk_mutation option"

record risk_config =
  cfg_mode :: trading_mode
  cfg_marketType :: market_type
  cfg_quoteCurrency :: string
  cfg_risk :: risk_limits

record risk_reservation_state =
  rsv_id :: string
  rsv_mode :: trading_mode
  rsv_symbol :: string
  rsv_notional :: jsnum
  rsv_executionId :: "string option"

datatype audit_kind = Risk_pause | Risk_resume | Risk_reset | Risk_reconcile | Config_change | Execution_event

datatype settle_outcome = Commit | Release

record trading_audit_event =
  ev_id :: string
  ev_at :: jsnum
  ev_kind :: audit_kind
  ev_mode :: trading_mode
  ev_executionId :: "string option"
  ev_action :: "string option"
  ev_evidenceReference :: "string option"
  ev_settlement :: "(settle_outcome \<times> jsnum) option"

definition AUDIT_HISTORY_LIMIT :: nat where "AUDIT_HISTORY_LIMIT = 500"

record risk_usage_state =
  usage_date :: string
  usedDailyNotional :: jsnum
  reservedDailyNotional :: "jsnum option"
  reservations :: "risk_reservation_state obj option"
  executionBlocks :: "bool obj option"

text \<open>The state the store holds. The execution journal extends it with its own records; the ledger's
  operations take the extended state and leave the extension alone.\<close>

record trading_risk_state =
  st_paper :: risk_usage_state
  st_live :: risk_usage_state
  st_audit :: "trading_audit_event list option"
  st_accountRisk :: "account_risk_state obj option"

record ledger_env =
  le_clock :: jsnum
  le_wall :: jsnum
  le_uuid :: string

section \<open>Errors\<close>

datatype order_rejection =
    Symbol_invalid
  | Notional_not_positive
  | Symbol_not_allowed
  | Exceeds_order_notional
  | Exceeds_daily_notional
  | Blocked_by_executions

datatype state_fault =
    Not_finite_nonnegative
  | Not_finite_positive
  | Total_overflowed
  | Below_reservation
  | Key_id_mismatch
  | Wrong_reservation_mode
  | Blank_reservation_symbol
  | Invalid_execution_correlation
  | Invalid_usage_date
  | Invalid_entry_blocks
  | Reservation_identities_missing
  | Reserved_sum_mismatch
  | Invalid_audit_history
  | Invalid_audit_event
  | Reservation_id_exists
  | Empty_reservation_id
  | Reservation_in_both_modes
  | Reservation_missing_or_settled
  | Execution_linked_reservation
  | Reservation_disappeared

datatype config_fault =
    Quote_currency_invalid
  | Max_order_notional_invalid
  | Max_daily_notional_invalid
  | Daily_below_order_notional
  | Allowed_symbols_invalid

datatype risk_error =
    Reservation_state_error state_fault string
  | Account_risk_invalid account_risk_error
  | Account_risk_identity
  | Account_risk_revision_or_block
  | Account_risk_mutation_invalid
  | Config_invalid config_fault
  | Identity_cannot_change
  | New_exposure_blocked
  | Risk_limit order_rejection
  | Recorded_notional_invalid
  | Reset_with_unresolved_executions
  | Reset_with_reservations
  | Clock_invalid
  | State_persistence_error risk_error
  | Commit_error string risk_error

section \<open>Account risk states\<close>

fun mutation_kind_valid :: "mutation_kind \<Rightarrow> bool" where
  "mutation_kind_valid (Cancel_orders ids) = (ids \<noteq> [] \<and> list_all (\<lambda>i. i \<noteq> []) ids)"
| "mutation_kind_valid (Set_leverage x) = (is_finite x \<and> js_gt x (Fin 0))"
| "mutation_kind_valid (Set_margin _) = True"

definition mutation_valid :: "account_risk_mutation \<Rightarrow> bool" where
  "mutation_valid m \<longleftrightarrow> is_identifier (mut_id m) \<and> mut_symbol m \<noteq> [] \<and> mutation_kind_valid (mut_kind m)"

definition validate_account_state :: "string \<times> account_risk_state \<Rightarrow> unit \<Rightarrow> risk_error + unit" where
  "validate_account_state entry _ =
     (case entry of (k, s) \<Rightarrow>
        ebind (assert_js (is_identifier k) Account_risk_identity) (\<lambda>_.
        ebind (emap_error Account_risk_invalid (validateAccountRiskLimits (limits_json (ars_limits s)))) (\<lambda>_.
        ebind (case ars_memory s of None \<Rightarrow> Inr ()
               | Some m \<Rightarrow> emap_error Account_risk_invalid (validateAccountRiskMemory (memory_json m))) (\<lambda>_.
        ebind (assert_js (is_safe_integer (ars_revision s) \<and> \<not> js_lt (ars_revision s) (Fin 0))
                 Account_risk_revision_or_block) (\<lambda>_.
        case ars_mutation s of None \<Rightarrow> Inr ()
        | Some m \<Rightarrow> assert_js (mutation_valid m) Account_risk_mutation_invalid)))))"

definition validateAccountRiskStates :: "account_risk_state obj \<Rightarrow> risk_error + unit" where
  "validateAccountRiskStates states = efold validate_account_state states ()"

section \<open>Audit history\<close>

abbreviation canonical_time :: "jsnum \<Rightarrow> bool" where
  "canonical_time t \<equiv> time_in_range t \<and> is_integer t"

definition opt_all :: "('a \<Rightarrow> bool) \<Rightarrow> 'a option \<Rightarrow> bool" where
  "opt_all p x = (case x of None \<Rightarrow> True | Some v \<Rightarrow> p v)"

definition audit_event_valid :: "trading_audit_event \<Rightarrow> bool" where
  "audit_event_valid e \<longleftrightarrow>
     is_identifier (ev_id e) \<and> canonical_time (ev_at e) \<and>
     opt_all is_identifier (ev_executionId e) \<and> opt_all action_name (ev_action e) \<and>
     opt_all is_identifier (ev_evidenceReference e) \<and>
     opt_all (\<lambda>(outcome, n). is_finite n \<and> js_ge n (Fin 0) \<and> (outcome \<noteq> Release \<or> js_eq n (Fin 0))) (ev_settlement e)"

definition isTradingAuditState :: "trading_audit_event list \<Rightarrow> bool" where
  "isTradingAuditState events \<longleftrightarrow> length events \<le> AUDIT_HISTORY_LIMIT \<and> list_all audit_event_valid events"

definition STATE_ERROR_ID :: string where "STATE_ERROR_ID = ''<state>''"

definition stateError :: "state_fault \<Rightarrow> string \<Rightarrow> risk_error" where
  "stateError f reservationId = Reservation_state_error f reservationId"

definition appendTradingAuditEvent ::
  "(string \<Rightarrow> jsnum \<Rightarrow> trading_audit_event) \<Rightarrow> string \<Rightarrow> jsnum \<Rightarrow> 'a trading_risk_state_scheme \<Rightarrow>
   risk_error + 'a trading_risk_state_scheme" where
  "appendTradingAuditEvent event uuid now state =
     ebind (assert_js (opt_all isTradingAuditState (st_audit state)) (stateError Invalid_audit_history STATE_ERROR_ID)) (\<lambda>_.
     let prior = (case st_audit state of None \<Rightarrow> [] | Some es \<Rightarrow> es);
         audit = slice_last AUDIT_HISTORY_LIMIT (prior @ [event uuid now])
     in ebind (assert_js (isTradingAuditState audit) (stateError Invalid_audit_event STATE_ERROR_ID)) (\<lambda>_.
        Inr (state\<lparr>st_audit := Some audit\<rparr>)))"

definition audit_event ::
  "audit_kind \<Rightarrow> trading_mode \<Rightarrow> string option \<Rightarrow> string option \<Rightarrow> (settle_outcome \<times> jsnum) option \<Rightarrow> string \<Rightarrow> jsnum \<Rightarrow>
   trading_audit_event" where
  "audit_event kind mode executionId action settlement uuid now =
     \<lparr>ev_id = uuid, ev_at = now, ev_kind = kind, ev_mode = mode, ev_executionId = executionId, ev_action = action,
      ev_evidenceReference = None, ev_settlement = settlement\<rparr>"

section \<open>Amounts\<close>

definition finiteNonNegative :: "jsnum \<Rightarrow> string \<Rightarrow> risk_error + jsnum" where
  "finiteNonNegative value reservationId =
     (if \<not> is_finite value \<or> js_lt value (Fin 0) then Inl (stateError Not_finite_nonnegative reservationId) else Inr value)"

definition finitePositive :: "jsnum \<Rightarrow> string \<Rightarrow> risk_error + jsnum" where
  "finitePositive value reservationId =
     (if \<not> is_finite value \<or> js_le value (Fin 0) then Inl (stateError Not_finite_positive reservationId) else Inr value)"

definition addition :: "jsnum \<Rightarrow> jsnum \<Rightarrow> string \<Rightarrow> risk_error + jsnum" where
  "addition current delta reservationId =
     ebind (finiteNonNegative current reservationId) (\<lambda>_.
     ebind (finiteNonNegative delta reservationId) (\<lambda>_.
     let result = js_add current delta
     in if \<not> is_finite result \<or> js_lt result (Fin 0) then Inl (stateError Total_overflowed reservationId) else Inr result))"

definition EPSILON_MULTIPLIER :: jsnum where "EPSILON_MULTIPLIER = Fin 8"

definition epsilon :: "jsnum \<Rightarrow> jsnum \<Rightarrow> jsnum" where
  "epsilon current delta =
     js_mul (js_mul EPSILON EPSILON_MULTIPLIER) (js_max (js_max (Fin 1) (js_abs current)) (js_abs delta))"

definition subtraction :: "jsnum \<Rightarrow> jsnum \<Rightarrow> string \<Rightarrow> risk_error + jsnum" where
  "subtraction current delta reservationId =
     ebind (finiteNonNegative current reservationId) (\<lambda>_.
     ebind (finitePositive delta reservationId) (\<lambda>_.
     let result = js_sub current delta
     in if js_lt result (Fin 0)
        then if js_le (js_abs result) (epsilon current delta) then Inr (Fin 0)
             else Inl (stateError Below_reservation reservationId)
        else Inr (if js_le result (epsilon current delta) then Fin 0 else result)))"

definition approximatelyEqual :: "jsnum \<Rightarrow> jsnum \<Rightarrow> bool" where
  "approximatelyEqual left right = js_le (js_abs (js_sub left right)) (epsilon left right)"

section \<open>Normalisation of the persisted state\<close>

definition validateReservationState ::
  "trading_mode \<Rightarrow> string \<times> risk_reservation_state \<Rightarrow> risk_error + (string \<times> risk_reservation_state)" where
  "validateReservationState mode entry =
     (case entry of (key, r) \<Rightarrow>
        ebind (assert_js (rsv_id r \<noteq> [] \<and> rsv_id r = key) (stateError Key_id_mismatch key)) (\<lambda>_.
        ebind (assert_js (rsv_mode r = mode) (stateError Wrong_reservation_mode key)) (\<lambda>_.
        ebind (assert_js (\<not> is_blank (rsv_symbol r)) (stateError Blank_reservation_symbol key)) (\<lambda>_.
        ebind (finitePositive (rsv_notional r) key) (\<lambda>notional.
        ebind (assert_js (opt_all is_identifier (rsv_executionId r)) (stateError Invalid_execution_correlation key)) (\<lambda>_.
        Inr (key, \<lparr>rsv_id = rsv_id r, rsv_mode = mode, rsv_symbol = rsv_symbol r, rsv_notional = notional,
                  rsv_executionId = rsv_executionId r\<rparr>)))))))"

definition reservations_total :: "risk_reservation_state obj \<Rightarrow> risk_error + jsnum" where
  "reservations_total rs = efold (\<lambda>r sum. addition sum (rsv_notional r) (rsv_id r)) (obj_values rs) (Fin 0)"

definition normalizedUsage :: "risk_usage_state \<Rightarrow> trading_mode \<Rightarrow> risk_error + risk_usage_state" where
  "normalizedUsage usage mode =
     ebind (assert_js (date_format (usage_date usage)) (stateError Invalid_usage_date STATE_ERROR_ID)) (\<lambda>_.
     ebind (finiteNonNegative (usedDailyNotional usage) STATE_ERROR_ID) (\<lambda>used.
     ebind (assert_js (opt_all (list_all (\<lambda>(k, blocked). is_identifier k \<and> blocked)) (executionBlocks usage))
              (stateError Invalid_entry_blocks STATE_ERROR_ID)) (\<lambda>_.
     ebind (case reservedDailyNotional usage of None \<Rightarrow> Inr (Fin 0)
            | Some v \<Rightarrow> finiteNonNegative v STATE_ERROR_ID) (\<lambda>reserved.
     ebind (case reservations usage of None \<Rightarrow> Inr []
            | Some raw \<Rightarrow> emap (validateReservationState mode) raw) (\<lambda>rs.
     ebind (reservations_total rs) (\<lambda>sum.
     ebind (assert_js (\<not> (reservations usage = None \<and> \<not> js_eq reserved (Fin 0)))
              (stateError Reservation_identities_missing STATE_ERROR_ID)) (\<lambda>_.
     ebind (assert_js (approximatelyEqual sum reserved)
              (stateError Reserved_sum_mismatch (case rs of [] \<Rightarrow> STATE_ERROR_ID | (k, _) # _ \<Rightarrow> k))) (\<lambda>_.
     Inr \<lparr>usage_date = usage_date usage, usedDailyNotional = used, reservedDailyNotional = Some sum,
          reservations = Some rs, executionBlocks = executionBlocks usage\<rparr>))))))))"

definition normalizedState :: "'a trading_risk_state_scheme \<Rightarrow> risk_error + trading_risk_state" where
  "normalizedState state =
     ebind (assert_js (opt_all isTradingAuditState (st_audit state)) (stateError Invalid_audit_history STATE_ERROR_ID)) (\<lambda>_.
     ebind (case st_accountRisk state of None \<Rightarrow> Inr () | Some s \<Rightarrow> validateAccountRiskStates s) (\<lambda>_.
     ebind (normalizedUsage (st_paper state) Paper) (\<lambda>paper.
     ebind (normalizedUsage (st_live state) Live) (\<lambda>live.
     Inr \<lparr>st_paper = paper, st_live = live, st_audit = st_audit state, st_accountRisk = None\<rparr>))))"

definition copyStateInto :: "'a trading_risk_state_scheme \<Rightarrow> trading_risk_state \<Rightarrow> 'a trading_risk_state_scheme" where
  "copyStateInto target source =
     (let t = target\<lparr>st_paper := st_paper source, st_live := st_live source\<rparr>
      in case st_audit source of None \<Rightarrow> t | Some a \<Rightarrow> t\<lparr>st_audit := Some a\<rparr>)"

section \<open>Configuration and symbols\<close>

definition validateTradingSymbol :: "string \<Rightarrow> market_type \<Rightarrow> string \<Rightarrow> order_rejection option" where
  "validateTradingSymbol symbol marketType quote =
     (case split_on (CHR ''/'') symbol of
        [base, rest] \<Rightarrow>
          if base \<noteq> [] \<and>
             (case marketType of
                Both \<Rightarrow> rest = quote \<or> rest = quote @ '':'' @ quote
              | Usdm_futures \<Rightarrow> rest = quote @ '':'' @ quote
              | Spot \<Rightarrow> rest = quote)
          then None else Some Symbol_invalid
      | _ \<Rightarrow> Some Symbol_invalid)"

definition positive_finite :: "jsnum \<Rightarrow> bool" where
  "positive_finite x \<longleftrightarrow> \<not> (\<not> is_finite x \<or> js_le x (Fin 0))"

definition validateConfig :: "risk_config \<Rightarrow> risk_error + risk_config" where
  "validateConfig config =
     (let risk = cfg_risk config
      in ebind (assert_js (currency_code (cfg_quoteCurrency config)) (Config_invalid Quote_currency_invalid)) (\<lambda>_.
         ebind (case account_limits risk of None \<Rightarrow> Inr ()
                | Some l \<Rightarrow> emap_error Account_risk_invalid (validateAccountRiskLimits (limits_json l))) (\<lambda>_.
         ebind (assert_js (positive_finite (maxOrderNotional risk)) (Config_invalid Max_order_notional_invalid)) (\<lambda>_.
         ebind (assert_js (positive_finite (maxDailyNotional risk)) (Config_invalid Max_daily_notional_invalid)) (\<lambda>_.
         ebind (assert_js (\<not> js_lt (maxDailyNotional risk) (maxOrderNotional risk))
                  (Config_invalid Daily_below_order_notional)) (\<lambda>_.
         ebind (assert_js (list_all (\<lambda>s. validateTradingSymbol s (cfg_marketType config) (cfg_quoteCurrency config) = None)
                    (allowedSymbols risk)) (Config_invalid Allowed_symbols_invalid)) (\<lambda>_.
         Inr config)))))))"

definition validateRecordNotional :: "jsnum \<Rightarrow> risk_error + unit" where
  "validateRecordNotional notional = assert_js (is_finite notional \<and> \<not> js_lt notional (Fin 0)) Recorded_notional_invalid"

section \<open>RiskLedger\<close>

fun usage_of :: "trading_mode \<Rightarrow> 'a trading_risk_state_scheme \<Rightarrow> risk_usage_state" where
  "usage_of Paper s = st_paper s" | "usage_of Live s = st_live s"

fun set_usage :: "trading_mode \<Rightarrow> risk_usage_state \<Rightarrow> 'a trading_risk_state_scheme \<Rightarrow> 'a trading_risk_state_scheme" where
  "set_usage Paper u s = s\<lparr>st_paper := u\<rparr>" | "set_usage Live u s = s\<lparr>st_live := u\<rparr>"

definition opt_default :: "'a \<Rightarrow> 'a option \<Rightarrow> 'a" where
  "opt_default d x = (case x of None \<Rightarrow> d | Some v \<Rightarrow> v)"

definition setConfig :: "risk_config \<Rightarrow> risk_config \<Rightarrow> risk_error + risk_config" where
  "setConfig current config =
     ebind (validateConfig config) (\<lambda>next.
       if cfg_mode next \<noteq> cfg_mode current \<or> cfg_marketType next \<noteq> cfg_marketType current \<or>
          cfg_quoteCurrency next \<noteq> cfg_quoteCurrency current
       then Inl Identity_cannot_change else Inr next)"

definition today :: "ledger_env \<Rightarrow> risk_error + string" where
  "today env = (case iso_date (le_clock env) of None \<Rightarrow> Inl Clock_invalid | Some d \<Rightarrow> Inr d)"

definition refreshDraft :: "ledger_env \<Rightarrow> trading_mode \<Rightarrow> trading_risk_state \<Rightarrow> risk_error + trading_risk_state" where
  "refreshDraft env mode state =
     (if mode \<noteq> Live then Inr state
      else ebind (today env) (\<lambda>day.
        let current = st_live state
        in if usage_date current = day then Inr state
           else Inr (state\<lparr>st_live := current\<lparr>usage_date := day, usedDailyNotional := Fin 0,
                  reservedDailyNotional := Some (opt_default (Fin 0) (reservedDailyNotional current)),
                  reservations := Some (opt_default [] (reservations current))\<rparr>\<rparr>)))"

definition loadLatest :: "'a trading_risk_state_scheme \<Rightarrow> risk_error + trading_risk_state" where
  "loadLatest store = normalizedState store"

definition transact ::
  "(trading_risk_state \<Rightarrow> risk_error + trading_risk_state) \<Rightarrow> 'a trading_risk_state_scheme \<Rightarrow>
   risk_error + 'a trading_risk_state_scheme" where
  "transact mutator raw =
     ebind (emap_error State_persistence_error (normalizedState raw)) (\<lambda>draft.
     ebind (mutator draft) (\<lambda>changed.
     ebind (emap_error State_persistence_error (normalizedState changed)) (\<lambda>normalized.
     Inr (copyStateInto raw normalized))))"

definition refresh :: "ledger_env \<Rightarrow> trading_mode \<Rightarrow> 'a trading_risk_state_scheme \<Rightarrow> risk_error + 'a trading_risk_state_scheme" where
  "refresh env mode store =
     (if mode \<noteq> Live then Inr store
      else ebind (today env) (\<lambda>day.
           ebind (loadLatest store) (\<lambda>state.
             if usage_date (st_live state) = day then Inr store
             else transact (refreshDraft env mode) store)))"

definition block_ids :: "risk_usage_state \<Rightarrow> string list" where
  "block_ids u = obj_keys (opt_default [] (executionBlocks u))"

definition assertNewExposureAllowed :: "string option \<Rightarrow> 'a trading_risk_state_scheme \<Rightarrow> risk_error + unit" where
  "assertNewExposureAllowed except store =
     ebind (loadLatest store) (\<lambda>state.
       assert_js (\<not> list_ex (\<lambda>u. list_ex (\<lambda>k. Some k \<noteq> except) (block_ids u)) [st_paper state, st_live state])
         New_exposure_blocked)"

definition validateOrder :: "risk_config \<Rightarrow> string \<Rightarrow> jsnum \<Rightarrow> bool \<Rightarrow> order_rejection option" where
  "validateOrder config symbol notional increasing =
     (let risk = cfg_risk config
      in case validateTradingSymbol symbol (cfg_marketType config) (cfg_quoteCurrency config) of
           Some e \<Rightarrow> Some e
         | None \<Rightarrow>
             if \<not> is_finite notional \<or> js_le notional (Fin 0) then Some Notional_not_positive
             else if \<not> increasing then None
             else if allowedSymbols risk \<noteq> [] \<and> symbol \<notin> set (allowedSymbols risk) then Some Symbol_not_allowed
             else if js_gt notional (maxOrderNotional risk) then Some Exceeds_order_notional
             else None)"

definition has_blocks :: "'a trading_risk_state_scheme \<Rightarrow> bool" where
  "has_blocks state \<longleftrightarrow> list_ex (\<lambda>u. block_ids u \<noteq> []) [st_paper state, st_live state]"

definition daily_total :: "risk_usage_state \<Rightarrow> jsnum \<Rightarrow> risk_error + jsnum" where
  "daily_total usage notional =
     ebind (addition (usedDailyNotional usage) (opt_default (Fin 0) (reservedDailyNotional usage)) STATE_ERROR_ID)
       (\<lambda>total. addition total notional STATE_ERROR_ID)"

definition check ::
  "ledger_env \<Rightarrow> risk_config \<Rightarrow> string \<Rightarrow> jsnum \<Rightarrow> bool \<Rightarrow> 'a trading_risk_state_scheme \<Rightarrow>
   risk_error + (order_rejection option \<times> 'a trading_risk_state_scheme)" where
  "check env config symbol notional count store =
     (case validateOrder config symbol notional count of
        Some e \<Rightarrow> Inr (Some e, store)
      | None \<Rightarrow>
          if \<not> count then Inr (None, store)
          else
            ebind (refresh env (cfg_mode config) store) (\<lambda>store'.
            ebind (loadLatest store') (\<lambda>state.
              if has_blocks state then Inr (Some Blocked_by_executions, store')
              else ebind (daily_total (usage_of (cfg_mode config) state) notional) (\<lambda>total.
                Inr (if js_gt total (maxDailyNotional (cfg_risk config)) then Some Exceeds_daily_notional else None,
                     store')))))"

text \<open>What \<^verbatim>\<open>reserve\<close> returns: the claim and whether it was settled through this handle.\<close>

record risk_reservation =
  res_id :: string
  res_mode :: trading_mode
  res_symbol :: string
  res_notional :: jsnum
  res_count :: bool
  res_finalized :: bool

definition truthy :: "string option \<Rightarrow> string option" where
  "truthy x = (case x of None \<Rightarrow> None | Some s \<Rightarrow> if s = [] then None else Some s)"

definition reserve_draft ::
  "ledger_env \<Rightarrow> risk_config \<Rightarrow> string \<Rightarrow> jsnum \<Rightarrow> string option \<Rightarrow> trading_risk_state \<Rightarrow> risk_error + trading_risk_state" where
  "reserve_draft env config symbol notional executionId draft =
     (let mode = cfg_mode config; uid = le_uuid env
      in ebind (refreshDraft env mode draft) (\<lambda>state.
           let usage = usage_of mode state
           in if has_blocks state then Inl New_exposure_blocked
              else
                let reserved = opt_default (Fin 0) (reservedDailyNotional usage)
                in ebind (daily_total usage notional) (\<lambda>total.
                     if js_gt total (maxDailyNotional (cfg_risk config)) then Inl (Risk_limit Exceeds_daily_notional)
                     else
                       let rs = opt_default [] (reservations usage)
                       in if obj_get rs uid \<noteq> None then Inl (stateError Reservation_id_exists uid)
                          else ebind (addition reserved notional uid) (\<lambda>sum.
                            Inr (set_usage mode (usage\<lparr>reservations := Some (obj_set rs uid
                                    \<lparr>rsv_id = uid, rsv_mode = mode, rsv_symbol = symbol, rsv_notional = notional,
                                     rsv_executionId = truthy executionId\<rparr>),
                                  reservedDailyNotional := Some sum\<rparr>) state)))))"

definition reserve ::
  "ledger_env \<Rightarrow> risk_config \<Rightarrow> string \<Rightarrow> jsnum \<Rightarrow> bool \<Rightarrow> string option \<Rightarrow> 'a trading_risk_state_scheme \<Rightarrow>
   risk_error + (risk_reservation \<times> 'a trading_risk_state_scheme)" where
  "reserve env config symbol notional count executionId store =
     (case validateOrder config symbol notional count of
        Some e \<Rightarrow> Inl (Risk_limit e)
      | None \<Rightarrow>
          let handle = \<lparr>res_id = le_uuid env, res_mode = cfg_mode config, res_symbol = symbol,
                        res_notional = notional, res_count = count, res_finalized = False\<rparr>
          in if count
             then ebind (transact (reserve_draft env config symbol notional executionId) store) (\<lambda>store'.
                    Inr (handle, store'))
             else Inr (handle, store))"

definition claim_of :: "trading_mode \<Rightarrow> string \<Rightarrow> 'a trading_risk_state_scheme \<Rightarrow> risk_reservation_state option" where
  "claim_of mode k state = obj_get (opt_default [] (reservations (usage_of mode state))) k"

definition find_claim ::
  "string \<Rightarrow> trading_risk_state \<Rightarrow> risk_error + (trading_mode \<times> risk_reservation_state)" where
  "find_claim k state =
     (case (claim_of Paper k state, claim_of Live k state) of
        (Some _, Some _) \<Rightarrow> Inl (stateError Reservation_in_both_modes k)
      | (Some c, None) \<Rightarrow> Inr (Paper, c)
      | (None, Some c) \<Rightarrow> Inr (Live, c)
      | (None, None) \<Rightarrow> Inl (stateError Reservation_missing_or_settled k))"

definition reconcile_draft ::
  "ledger_env \<Rightarrow> string \<Rightarrow> settle_outcome \<Rightarrow> jsnum option \<Rightarrow> string option \<Rightarrow> trading_risk_state \<Rightarrow>
   risk_error + trading_risk_state" where
  "reconcile_draft env k outcome committed executionId draft =
     ebind (refreshDraft env Live draft) (\<lambda>state.
     ebind (find_claim k state) (\<lambda>(mode, claim).
       if rsv_executionId claim \<noteq> executionId then Inl (stateError Execution_linked_reservation k)
       else
         let usage = usage_of mode state
         in ebind (subtraction (opt_default (Fin 0) (reservedDailyNotional usage)) (rsv_notional claim) k) (\<lambda>reserved.
            ebind (case outcome of
                     Release \<Rightarrow> Inr (usedDailyNotional usage)
                   | Commit \<Rightarrow>
                       let settled = opt_default (rsv_notional claim) committed
                       in ebind (validateRecordNotional settled) (\<lambda>_. addition (usedDailyNotional usage) settled k)) (\<lambda>used.
            appendTradingAuditEvent
              (audit_event Risk_reconcile mode executionId
                 (Some (case outcome of Commit \<Rightarrow> ''commit'' | Release \<Rightarrow> ''release'')) None)
              (le_uuid env) (le_wall env)
              (set_usage mode (usage\<lparr>reservedDailyNotional := Some reserved, usedDailyNotional := used,
                 reservations := Some (obj_del (opt_default [] (reservations usage)) k)\<rparr>) state)))))"

definition reconcileReservation ::
  "ledger_env \<Rightarrow> string \<Rightarrow> settle_outcome \<Rightarrow> jsnum option \<Rightarrow> string option \<Rightarrow> 'a trading_risk_state_scheme \<Rightarrow>
   risk_error + 'a trading_risk_state_scheme" where
  "reconcileReservation env k outcome committed executionId store =
     (if k = [] then Inl (stateError Empty_reservation_id k)
      else transact (reconcile_draft env k outcome committed executionId) store)"

definition reservation_commit ::
  "ledger_env \<Rightarrow> jsnum option \<Rightarrow> risk_reservation \<Rightarrow> 'a trading_risk_state_scheme \<Rightarrow>
   risk_error + (risk_reservation \<times> 'a trading_risk_state_scheme)" where
  "reservation_commit env committed handle store =
     (if res_finalized handle then Inr (handle, store)
      else if \<not> res_count handle then Inr (handle\<lparr>res_finalized := True\<rparr>, store)
      else ebind (emap_error (Commit_error (res_id handle))
                   (reconcileReservation env (res_id handle) Commit committed None store)) (\<lambda>store'.
             Inr (handle\<lparr>res_finalized := True\<rparr>, store')))"

definition reservation_release ::
  "ledger_env \<Rightarrow> risk_reservation \<Rightarrow> 'a trading_risk_state_scheme \<Rightarrow>
   risk_error + (risk_reservation \<times> 'a trading_risk_state_scheme)" where
  "reservation_release env handle store =
     (if res_finalized handle then Inr (handle, store)
      else ebind (if res_count handle then reconcileReservation env (res_id handle) Release None None store
                  else Inr store) (\<lambda>store'.
             Inr (handle\<lparr>res_finalized := True\<rparr>, store')))"

fun insert_by :: "(string \<Rightarrow> string \<Rightarrow> int) \<Rightarrow> risk_reservation_state \<Rightarrow> risk_reservation_state list \<Rightarrow> risk_reservation_state list" where
  "insert_by cmp x [] = [x]"
| "insert_by cmp x (y # ys) = (if cmp (rsv_id x) (rsv_id y) \<le> 0 then x # y # ys else y # insert_by cmp x ys)"

text \<open>\<open>cmp\<close> is \<^verbatim>\<open>localeCompare\<close>, whose order is the platform's.\<close>

definition listPendingReservations ::
  "(string \<Rightarrow> string \<Rightarrow> int) \<Rightarrow> ledger_env \<Rightarrow> 'a trading_risk_state_scheme \<Rightarrow>
   risk_error + (risk_reservation_state list \<times> 'a trading_risk_state_scheme)" where
  "listPendingReservations cmp env store =
     ebind (refresh env Live store) (\<lambda>store'.
     ebind (loadLatest store') (\<lambda>state.
       Inr (foldr (insert_by cmp)
              (obj_values (opt_default [] (reservations (st_paper state))) @
               obj_values (opt_default [] (reservations (st_live state)))) [], store')))"

definition record_draft :: "ledger_env \<Rightarrow> trading_mode \<Rightarrow> jsnum \<Rightarrow> trading_risk_state \<Rightarrow> risk_error + trading_risk_state" where
  "record_draft env mode notional draft =
     ebind (refreshDraft env mode draft) (\<lambda>state.
     let usage = usage_of mode state
     in ebind (addition (usedDailyNotional usage) notional STATE_ERROR_ID) (\<lambda>used.
        Inr (set_usage mode (usage\<lparr>usedDailyNotional := used\<rparr>) state)))"

definition record_notional ::
  "ledger_env \<Rightarrow> risk_config \<Rightarrow> jsnum \<Rightarrow> bool \<Rightarrow> 'a trading_risk_state_scheme \<Rightarrow> risk_error + 'a trading_risk_state_scheme" where
  "record_notional env config notional count store =
     ebind (validateRecordNotional notional) (\<lambda>_.
       if \<not> count then Inr store else transact (record_draft env (cfg_mode config) notional) store)"

definition reset_draft :: "ledger_env \<Rightarrow> trading_mode \<Rightarrow> trading_risk_state \<Rightarrow> risk_error + trading_risk_state" where
  "reset_draft env mode draft =
     ebind (refreshDraft env mode draft) (\<lambda>state.
     let usage = usage_of mode state
     in ebind (assert_js (block_ids usage = []) Reset_with_unresolved_executions) (\<lambda>_.
        ebind (assert_js (\<not> (opt_default [] (reservations usage) \<noteq> [] \<or>
                   js_gt (opt_default (Fin 0) (reservedDailyNotional usage)) (Fin 0)))
                 Reset_with_reservations) (\<lambda>_.
        ebind (today env) (\<lambda>day.
        appendTradingAuditEvent (audit_event Risk_reset mode None None None) (le_uuid env) (le_wall env)
          (set_usage mode (usage\<lparr>usage_date := day, usedDailyNotional := Fin 0,
             reservedDailyNotional := Some (Fin 0), reservations := Some []\<rparr>) state)))))"

definition reset :: "ledger_env \<Rightarrow> risk_config \<Rightarrow> 'a trading_risk_state_scheme \<Rightarrow> risk_error + 'a trading_risk_state_scheme" where
  "reset env config store = transact (reset_draft env (cfg_mode config)) store"

record usage_report =
  rep_date :: string
  rep_used :: jsnum
  rep_reserved :: jsnum
  rep_limit :: jsnum
  rep_manual_reset :: bool

definition ledger_usage ::
  "ledger_env \<Rightarrow> risk_config \<Rightarrow> 'a trading_risk_state_scheme \<Rightarrow> risk_error + (usage_report \<times> 'a trading_risk_state_scheme)" where
  "ledger_usage env config store =
     ebind (refresh env (cfg_mode config) store) (\<lambda>store'.
     ebind (loadLatest store') (\<lambda>state.
       let u = usage_of (cfg_mode config) state
       in Inr (\<lparr>rep_date = usage_date u, rep_used = usedDailyNotional u,
               rep_reserved = opt_default (Fin 0) (reservedDailyNotional u),
               rep_limit = maxDailyNotional (cfg_risk config), rep_manual_reset = (cfg_mode config = Paper)\<rparr>, store')))"


section \<open>Normalised states\<close>

definition objects_wf :: "'a trading_risk_state_scheme \<Rightarrow> bool" where
  "objects_wf s \<longleftrightarrow>
     (\<forall>u \<in> {st_paper s, st_live s}. distinct (obj_keys (opt_default [] (reservations u))) \<and>
        distinct (obj_keys (opt_default [] (executionBlocks u))))"

definition reservation_ok :: "trading_mode \<Rightarrow> string \<times> risk_reservation_state \<Rightarrow> bool" where
  "reservation_ok mode kr \<longleftrightarrow>
     (case kr of (k, r) \<Rightarrow>
        rsv_id r = k \<and> k \<noteq> [] \<and> rsv_mode r = mode \<and> \<not> is_blank (rsv_symbol r) \<and> positive_finite (rsv_notional r) \<and>
        opt_all is_identifier (rsv_executionId r))"

definition usage_ok :: "trading_mode \<Rightarrow> risk_usage_state \<Rightarrow> bool" where
  "usage_ok mode u \<longleftrightarrow>
     date_format (usage_date u) \<and> is_finite (usedDailyNotional u) \<and> js_le (Fin 0) (usedDailyNotional u) \<and>
     opt_all (list_all (\<lambda>(k, blocked). is_identifier k \<and> blocked)) (executionBlocks u) \<and>
     (\<exists>rs sum. reservations u = Some rs \<and> reservedDailyNotional u = Some sum \<and>
        list_all (reservation_ok mode) rs \<and> reservations_total rs = Inr sum)"

lemma finiteNonNegative_Inr [result_simps]:
  "finiteNonNegative v k = Inr x \<longleftrightarrow> x = v \<and> is_finite v \<and> js_le (Fin 0) v"
  by (cases v) (auto simp: finiteNonNegative_def)

lemma finitePositive_Inr [result_simps]:
  "finitePositive v k = Inr x \<longleftrightarrow> x = v \<and> positive_finite v"
  by (auto simp: finitePositive_def positive_finite_def)

lemma positive_finite_iff: "positive_finite v \<longleftrightarrow> (\<exists>x. v = Fin x \<and> 0 < x)"
  by (cases v) (auto simp: positive_finite_def)

lemma addition_Inr [result_simps]:
  "addition a b k = Inr c \<longleftrightarrow>
     (\<exists>x y z. a = Fin x \<and> b = Fin y \<and> 0 \<le> x \<and> 0 \<le> y \<and> fl (x + y) = Fin z \<and> c = Fin z)"
proof -
  have nn: "fl (x + y) = Fin z \<Longrightarrow> 0 \<le> x \<Longrightarrow> 0 \<le> y \<Longrightarrow> \<not> z < 0" for x y z
    using fl_nonneg[of "x + y"] by auto
  show ?thesis
    by (auto simp: addition_def result_simps Let_def is_finite_iff dest: nn)
qed

lemma validateReservationState_Inr [result_simps]:
  "validateReservationState mode kr = Inr kr' \<longleftrightarrow> reservation_ok mode kr \<and> kr' = kr"
proof (cases kr)
  case (Pair k r)
  have "r = \<lparr>rsv_id = k, rsv_mode = mode, rsv_symbol = rsv_symbol r, rsv_notional = rsv_notional r,
      rsv_executionId = rsv_executionId r\<rparr> \<longleftrightarrow> rsv_id r = k \<and> rsv_mode r = mode"
    by (cases r) auto
  then show ?thesis
    by (auto simp: Pair validateReservationState_def reservation_ok_def result_simps)
qed

lemma emap_validate: "emap (validateReservationState mode) rs = Inr rs' \<longleftrightarrow> list_all (reservation_ok mode) rs \<and> rs' = rs"
  by (induction rs arbitrary: rs') (auto simp: result_simps)

lemma total_double: "reservations_total rs = Inr v \<Longrightarrow> \<exists>x. v = Fin x \<and> 0 \<le> x \<and> is_double x"
proof -
  have "efold (\<lambda>r sum. addition sum (rsv_notional r) (rsv_id r)) xs (Fin a) = Inr v \<Longrightarrow> 0 \<le> a \<Longrightarrow> is_double a \<Longrightarrow>
      \<exists>x. v = Fin x \<and> 0 \<le> x \<and> is_double x" for xs a
  proof (induction xs arbitrary: a)
    case (Cons r xs)
    then obtain y z where "0 \<le> y" "fl (a + y) = Fin z" and
      e: "efold (\<lambda>r sum. addition sum (rsv_notional r) (rsv_id r)) xs (Fin z) = Inr v"
      by (auto simp: result_simps)
    moreover have "is_double z" "0 \<le> z"
      using calculation fl_double[of "a + y"] fl_nonneg[of "a + y"] Cons.prems by auto
    ultimately show ?case using Cons.IH[OF e] by simp
  qed auto
  from this[of _ 0] show "reservations_total rs = Inr v \<Longrightarrow> \<exists>x. v = Fin x \<and> 0 \<le> x \<and> is_double x"
    by (simp add: reservations_total_def is_double_def)
qed

lemma epsilon_unit: "js_mul EPSILON EPSILON_MULTIPLIER = Fin (2 powi (-49))"
proof -
  have "fl (2 powi (-49)) = Fin (2 powi (-49))"
    by (rule fl_exact[of _ 1 "-49"]) (auto simp: power_int_minus)
  moreover have "(2::rat) powi (-52) * 8 = 2 powi (-49)" by (simp add: power_int_minus)
  ultimately show ?thesis by (simp only: EPSILON_def EPSILON_MULTIPLIER_def js_mul.simps)
qed

lemma approximatelyEqual_refl: "is_finite a \<Longrightarrow> approximatelyEqual a a"
proof -
  assume "is_finite a"
  then obtain x where x: "a = Fin x" by (auto simp: is_finite_iff)
  define m where "m = js_max (js_max (Fin 1) (js_abs a)) (js_abs a)"
  have m: "js_le (Fin 0) m \<and> is_finite m" by (auto simp: m_def x js_max_def)
  obtain b where "m = Fin b" "0 \<le> b" using m by (auto simp: is_finite_iff)
  then have "js_le (Fin 0) (epsilon a a)"
    using fl_mono[of 0 "2 powi (-49) * b"] epsilon_unit by (simp add: epsilon_def m_def[symmetric])
  then show ?thesis by (simp add: approximatelyEqual_def x js_sub_def)
qed

lemma normalizedUsage_ok:
  assumes "normalizedUsage u mode = Inr n"
  shows "usage_ok mode n" "usage_date n = usage_date u" "usedDailyNotional n = usedDailyNotional u"
    "executionBlocks n = executionBlocks u" "reservations n = Some (opt_default [] (reservations u))"
proof -
  show "usage_ok mode n" "usage_date n = usage_date u" "usedDailyNotional n = usedDailyNotional u"
    "executionBlocks n = executionBlocks u" "reservations n = Some (opt_default [] (reservations u))"
    using assms
    by (auto simp: normalizedUsage_def usage_ok_def result_simps emap_validate opt_default_def split: option.splits)
qed

lemma normalizedUsage_id:
  assumes "usage_ok mode u" shows "normalizedUsage u mode = Inr u"
proof -
  obtain rs sum where rs: "reservations u = Some rs" "reservedDailyNotional u = Some sum"
    "list_all (reservation_ok mode) rs" "reservations_total rs = Inr sum"
    using assms by (auto simp: usage_ok_def)
  have sum: "is_finite sum" "js_le (Fin 0) sum" using total_double[OF rs(4)] by auto
  then have "finiteNonNegative sum STATE_ERROR_ID = Inr sum" by (simp add: result_simps)
  moreover have "emap (validateReservationState mode) rs = Inr rs" using rs(3) by (simp add: emap_validate)
  moreover have "finiteNonNegative (usedDailyNotional u) STATE_ERROR_ID = Inr (usedDailyNotional u)"
    using assms by (simp add: usage_ok_def result_simps)
  ultimately show ?thesis
    using assms rs sum approximatelyEqual_refl[OF sum(1)]
    by (simp add: normalizedUsage_def usage_ok_def)
qed

definition state_ok :: "trading_risk_state \<Rightarrow> bool" where
  "state_ok n \<longleftrightarrow> usage_ok Paper (st_paper n) \<and> usage_ok Live (st_live n) \<and>
     opt_all isTradingAuditState (st_audit n) \<and> st_accountRisk n = None"

lemma normalizedState_ok:
  assumes "normalizedState s = Inr n"
  shows "state_ok n" "st_audit n = st_audit s" "opt_all isTradingAuditState (st_audit s)"
    "opt_all (\<lambda>a. validateAccountRiskStates a = Inr ()) (st_accountRisk s)"
    "normalizedUsage (usage_of mode s) mode = Inr (usage_of mode n)"
  using assms normalizedUsage_ok(1)
  by (cases mode; auto simp: normalizedState_def state_ok_def result_simps opt_all_def split: option.splits)+

lemma normalizedState_id: "state_ok n \<Longrightarrow> normalizedState n = Inr n"
  by (cases n) (simp add: normalizedState_def state_ok_def normalizedUsage_id)

lemma normalizedState_copy:
  assumes "normalizedState raw = Inr d" "state_ok n" "st_audit d = None \<or> st_audit n \<noteq> None"
  shows "normalizedState (copyStateInto raw n) = Inr n"
proof -
  have a: "st_audit raw = st_audit d" using normalizedState_ok(2)[OF assms(1)] by simp
  have "st_audit (copyStateInto raw n) = st_audit n"
    using assms(3) a by (auto simp: copyStateInto_def Let_def split: option.splits)
  moreover have "st_accountRisk (copyStateInto raw n) = st_accountRisk raw"
    "st_paper (copyStateInto raw n) = st_paper n" "st_live (copyStateInto raw n) = st_live n"
    by (auto simp: copyStateInto_def Let_def split: option.splits)
  ultimately show ?thesis
    using assms(2) normalizedState_ok(4)[OF assms(1)]
    by (cases n) (auto simp: normalizedState_def state_ok_def normalizedUsage_id opt_all_def split: option.splits)
qed

text \<open>What a successful transaction says: the mutator ran on the normalised state, and what it left
  was normalised again and written back, the rest of the stored state untouched.\<close>

lemma transact_Inr:
  assumes "transact f raw = Inr raw'" and "\<And>d d'. f d = Inr d' \<Longrightarrow> st_audit d = None \<or> st_audit d' \<noteq> None"
  obtains d d' n where "normalizedState raw = Inr d" "f d = Inr d'" "normalizedState d' = Inr n"
    "raw' = copyStateInto raw n" "normalizedState raw' = Inr n" "state_ok d" "state_ok n"
proof -
  obtain d d' n where 1: "normalizedState raw = Inr d" "f d = Inr d'" "normalizedState d' = Inr n"
      "raw' = copyStateInto raw n"
    using assms(1) by (auto simp: transact_def result_simps)
  have "state_ok n" "state_ok d" using normalizedState_ok(1) 1 by auto
  moreover have "normalizedState raw' = Inr n"
    unfolding 1(4) by (rule normalizedState_copy[OF 1(1) \<open>state_ok n\<close>])
      (use assms(2)[OF 1(2)] normalizedState_ok(2)[OF 1(3)] in simp)
  ultimately show thesis using that 1 by blast
qed

lemma transact_frame:
  assumes "transact f raw = Inr raw'"
  shows "st_accountRisk raw' = st_accountRisk raw" "trading_risk_state.more raw' = trading_risk_state.more raw"
  using assms by (auto simp: transact_def result_simps copyStateInto_def Let_def split: option.splits)

section \<open>What the operations do to a normalised state\<close>

definition roll_over :: "string \<Rightarrow> risk_usage_state \<Rightarrow> risk_usage_state" where
  "roll_over day u = (if usage_date u = day then u else u\<lparr>usage_date := day, usedDailyNotional := Fin 0\<rparr>)"

lemma usage_ok_totals:
  assumes "usage_ok mode u"
  obtains rs x where "reservations u = Some rs" "reservedDailyNotional u = Some (Fin x)" "0 \<le> x" "is_double x"
    "list_all (reservation_ok mode) rs" "reservations_total rs = Inr (Fin x)"
  using assms total_double by (force simp: usage_ok_def)

lemma refreshDraft_Paper [simp]: "refreshDraft env Paper d = Inr d"
  by (simp add: refreshDraft_def)

lemma refreshDraft_Live:
  assumes "state_ok d"
  shows "refreshDraft env Live d = ebind (today env) (\<lambda>day. Inr (d\<lparr>st_live := roll_over day (st_live d)\<rparr>))"
proof -
  obtain rs x where "reservations (st_live d) = Some rs" "reservedDailyNotional (st_live d) = Some (Fin x)"
    using assms by (auto simp: state_ok_def elim: usage_ok_totals)
  then have "(st_live d)\<lparr>usage_date := day, usedDailyNotional := Fin 0,
      reservedDailyNotional := Some (opt_default (Fin 0) (reservedDailyNotional (st_live d))),
      reservations := Some (opt_default [] (reservations (st_live d)))\<rparr>
      = (st_live d)\<lparr>usage_date := day, usedDailyNotional := Fin 0\<rparr>" for day
    by (cases "st_live d") (simp add: opt_default_def)
  then show ?thesis by (cases "today env") (auto simp: refreshDraft_def roll_over_def Let_def)
qed

lemma roll_over_fields [simp]:
  "reservations (roll_over day u) = reservations u" "reservedDailyNotional (roll_over day u) = reservedDailyNotional u"
  "executionBlocks (roll_over day u) = executionBlocks u" "usage_date (roll_over day u) = day"
  "block_ids (roll_over day u) = block_ids u"
  by (auto simp: roll_over_def block_ids_def)

lemma refreshDraft_Inr:
  assumes "refreshDraft env mode d = Inr e" "state_ok d"
  shows "(mode = Paper \<and> e = d) \<or> (mode = Live \<and> (\<exists>day. today env = Inr day \<and> e = d\<lparr>st_live := roll_over day (st_live d)\<rparr>))"
  using assms by (cases mode) (auto simp: refreshDraft_Live result_simps)

lemma refreshDraft_keeps:
  assumes "refreshDraft env mode d = Inr e" "state_ok d"
  shows "reservations (usage_of m e) = reservations (usage_of m d)"
    "reservedDailyNotional (usage_of m e) = reservedDailyNotional (usage_of m d)"
    "executionBlocks (usage_of m e) = executionBlocks (usage_of m d)"
    "st_audit e = st_audit d" "st_accountRisk e = None" "has_blocks e = has_blocks d" "st_paper e = st_paper d"
    "mode \<noteq> m \<Longrightarrow> usage_of m e = usage_of m d"
  using refreshDraft_Inr[OF assms] assms(2)
  by (cases m; auto simp: state_ok_def has_blocks_def)+

lemma normalizedUsage_eq:
  assumes "normalizedUsage u mode = Inr n"
  obtains s where "reservations_total (opt_default [] (reservations u)) = Inr s"
    "n = u\<lparr>reservations := Some (opt_default [] (reservations u)), reservedDailyNotional := Some s\<rparr>"
proof -
  obtain rs s where n: "reservations n = Some rs" "reservedDailyNotional n = Some s" "reservations_total rs = Inr s"
    using normalizedUsage_ok(1)[OF assms] by (auto simp: usage_ok_def)
  then have "n = u\<lparr>reservations := Some (opt_default [] (reservations u)), reservedDailyNotional := Some s\<rparr>"
    using normalizedUsage_ok(2-5)[OF assms] by (cases n) simp
  with that n normalizedUsage_ok(5)[OF assms] show thesis by simp
qed

lemma normalizedUsage_eq_same:
  assumes "normalizedUsage u mode = Inr n" "reservations u = Some rs" "reservedDailyNotional u = Some s"
    "reservations_total rs = Inr s"
  shows "n = u"
  using assms(1)
  by (rule normalizedUsage_eq) (use assms(2-) in \<open>auto simp: opt_default_def\<close>)

lemma efold_single: "efold f [x] = f x"
proof
  show "efold f [x] s = f x s" for s by (cases "f x s") auto
qed

lemma total_append:
  "reservations_total (rs @ [(k, r)]) = ebind (reservations_total rs) (\<lambda>s. addition s (rsv_notional r) (rsv_id r))"
  unfolding reservations_total_def map_append efold_append by (simp add: efold_single del: efold.simps)

lemma addition_label: "addition a b k = Inr c \<Longrightarrow> addition a b k' = Inr c"
  by (simp add: addition_Inr)

lemma normalizedState_usages:
  assumes "normalizedState s = Inr n"
  shows "normalizedUsage (st_paper s) Paper = Inr (st_paper n)" "normalizedUsage (st_live s) Live = Inr (st_live n)"
  using normalizedState_ok(5)[OF assms, of Paper] normalizedState_ok(5)[OF assms, of Live] by simp_all

lemma normalizedState_same_usage:
  assumes "normalizedState s = Inr n" "usage_ok m (usage_of m d)" "usage_of m s = usage_of m d"
  shows "usage_of m n = usage_of m d"
  using normalizedState_ok(5)[OF assms(1), of m] normalizedUsage_id[OF assms(2)] assms(3) by simp

lemma state_ok_usage: "state_ok d \<Longrightarrow> usage_ok m (usage_of m d)"
  by (cases m) (auto simp: state_ok_def)

lemma usage_of_set_usage [simp]:
  "usage_of m (set_usage m u s) = u" "m' \<noteq> m \<Longrightarrow> usage_of m' (set_usage m u s) = usage_of m' s"
  "st_audit (set_usage m u s) = st_audit s" "st_accountRisk (set_usage m u s) = st_accountRisk s"
  by (cases m; cases m'; simp)+

lemma trading_risk_state_eqI:
  "\<lbrakk>st_paper a = st_paper b; st_live a = st_live b; st_audit a = st_audit b; st_accountRisk a = st_accountRisk b\<rbrakk>
   \<Longrightarrow> a = (b :: trading_risk_state)"
  by (cases a; cases b) simp

lemma states_eqI: "\<lbrakk>\<And>m. usage_of m a = usage_of m b; st_audit a = st_audit b; st_accountRisk a = st_accountRisk b\<rbrakk>
   \<Longrightarrow> a = (b :: trading_risk_state)"
  by (rule trading_risk_state_eqI) (metis usage_of.simps)+

abbreviation new_claim :: "ledger_env \<Rightarrow> risk_config \<Rightarrow> string \<Rightarrow> jsnum \<Rightarrow> string option \<Rightarrow> risk_reservation_state" where
  "new_claim env config symbol notional ex \<equiv>
     \<lparr>rsv_id = le_uuid env, rsv_mode = cfg_mode config, rsv_symbol = symbol, rsv_notional = notional,
      rsv_executionId = truthy ex\<rparr>"

lemma reserve_draft_audit: "reserve_draft env cfg symb n ex d = Inr d' \<Longrightarrow> state_ok d \<Longrightarrow> st_audit d' = st_audit d"
  by (auto simp: reserve_draft_def Let_def result_simps refreshDraft_keeps(4))

lemma validateOrder_None:
  assumes "validateOrder cfg symb n True = None"
  shows "validateTradingSymbol symb (cfg_marketType cfg) (cfg_quoteCurrency cfg) = None" "positive_finite n"
    "allowedSymbols (cfg_risk cfg) = [] \<or> symb \<in> set (allowedSymbols (cfg_risk cfg))"
    "\<not> js_gt n (maxOrderNotional (cfg_risk cfg))"
  using assms by (auto simp: validateOrder_def Let_def positive_finite_def split: option.splits if_splits)

lemma transact_state:
  assumes "transact f raw = Inr raw'" and "\<And>d d'. state_ok d \<Longrightarrow> f d = Inr d' \<Longrightarrow> st_audit d = None \<or> st_audit d' \<noteq> None"
  obtains d d' n where "normalizedState raw = Inr d" "state_ok d" "f d = Inr d'" "normalizedState d' = Inr n"
    "normalizedState raw' = Inr n" "state_ok n"
proof -
  obtain d d' n where 1: "normalizedState raw = Inr d" "f d = Inr d'" "normalizedState d' = Inr n"
      "raw' = copyStateInto raw n"
    using assms(1) by (auto simp: transact_def result_simps)
  have "state_ok n" "state_ok d" using normalizedState_ok(1) 1 by auto
  moreover have "normalizedState raw' = Inr n"
    unfolding 1(4) by (rule normalizedState_copy[OF 1(1) \<open>state_ok n\<close>])
      (use assms(2)[OF _ 1(2)] \<open>state_ok d\<close> normalizedState_ok(2)[OF 1(3)] in simp)
  ultimately show thesis using that 1 by blast
qed

lemma reserve_Inr:
  assumes "reserve env cfg symb n True ex raw = Inr (h, raw')"
  obtains d e rs x y z total where
    "normalizedState raw = Inr d" "state_ok d" "refreshDraft env (cfg_mode cfg) d = Inr e"
    "\<not> has_blocks e" "validateOrder cfg symb n True = None"
    "reservations (usage_of (cfg_mode cfg) e) = Some rs" "reservedDailyNotional (usage_of (cfg_mode cfg) e) = Some (Fin x)"
    "0 \<le> x" "is_double x" "n = Fin y" "0 < y" "fl (x + y) = Fin z"
    "daily_total (usage_of (cfg_mode cfg) e) n = Inr total" "\<not> js_gt total (maxDailyNotional (cfg_risk cfg))"
    "obj_get rs (le_uuid env) = None" "list_all (reservation_ok (cfg_mode cfg)) (rs @ [(le_uuid env, new_claim env cfg symb n ex)])"
    "normalizedState raw' = Inr (set_usage (cfg_mode cfg)
       ((usage_of (cfg_mode cfg) e)\<lparr>reservations := Some (rs @ [(le_uuid env, new_claim env cfg symb n ex)]),
          reservedDailyNotional := Some (Fin z)\<rparr>) e)"
    "h = \<lparr>res_id = le_uuid env, res_mode = cfg_mode cfg, res_symbol = symb, res_notional = n, res_count = True,
          res_finalized = False\<rparr>"
proof -
  let ?m = "cfg_mode cfg"
  have v: "validateOrder cfg symb n True = None"
    and t: "transact (reserve_draft env cfg symb n ex) raw = Inr raw'"
    and h: "h = \<lparr>res_id = le_uuid env, res_mode = ?m, res_symbol = symb, res_notional = n, res_count = True,
          res_finalized = False\<rparr>"
    using assms by (auto simp: reserve_def Let_def result_simps split: option.splits)
  obtain d d' nst where d: "normalizedState raw = Inr d" "state_ok d" "reserve_draft env cfg symb n ex d = Inr d'"
      "normalizedState d' = Inr nst" "normalizedState raw' = Inr nst"
    by (rule transact_state[OF t]) (use reserve_draft_audit[of env cfg symb n ex] in \<open>auto\<close>)
  obtain e where e: "refreshDraft env ?m d = Inr e"
    using d(3) by (auto simp: reserve_draft_def Let_def result_simps)
  obtain rs x where u: "reservations (usage_of ?m e) = Some rs" "reservedDailyNotional (usage_of ?m e) = Some (Fin x)"
      "0 \<le> x" "is_double x" "list_all (reservation_ok ?m) rs" "reservations_total rs = Inr (Fin x)"
    using refreshDraft_keeps(1,2)[OF e d(2), of ?m] by (metis usage_ok_totals state_ok_usage d(2))
  obtain y where y: "n = Fin y" "0 < y" using validateOrder_None(2)[OF v] by (auto simp: positive_finite_iff)
  obtain total z where f: "\<not> has_blocks e" "daily_total (usage_of ?m e) n = Inr total"
      "\<not> js_gt total (maxDailyNotional (cfg_risk cfg))" "obj_get rs (le_uuid env) = None" "fl (x + y) = Fin z"
    and d': "d' = set_usage ?m ((usage_of ?m e)\<lparr>reservations := Some (rs @ [(le_uuid env, new_claim env cfg symb n ex)]),
          reservedDailyNotional := Some (Fin z)\<rparr>) e"
    using d(3) by (auto simp: reserve_draft_def Let_def e u opt_default_def result_simps y
        obj_get_None[THEN iffD1, THEN obj_set_new] split: if_splits)
  have tot: "reservations_total (rs @ [(le_uuid env, new_claim env cfg symb n ex)]) = Inr (Fin z)"
    using u(3,6) y f(5) by (simp add: total_append addition_Inr)
  have nst: "nst = d'"
  proof (rule states_eqI)
    fix m
    show "usage_of m nst = usage_of m d'"
    proof (cases "m = ?m")
      case True
      show ?thesis
        using normalizedUsage_eq_same[OF normalizedState_ok(5)[OF d(4), of m], of "rs @ [(le_uuid env, new_claim env cfg symb n ex)]" "Fin z"] tot
        by (simp add: True d')
    next
      case False
      then have "usage_of m d' = usage_of m d" using refreshDraft_keeps(8)[OF e d(2)] by (simp add: d')
      then show ?thesis using normalizedState_same_usage[OF d(4) state_ok_usage[OF d(2)]] by simp
    qed
  next
    show "st_audit nst = st_audit d'" using normalizedState_ok(2)[OF d(4)] .
    show "st_accountRisk nst = st_accountRisk d'"
      using normalizedState_ok(1)[OF d(4)] refreshDraft_keeps(5)[OF e d(2)] by (simp add: d' state_ok_def)
  qed
  have ok: "list_all (reservation_ok ?m) (rs @ [(le_uuid env, new_claim env cfg symb n ex)])"
    using state_ok_usage[OF normalizedState_ok(1)[OF d(4)], of ?m] nst by (simp add: d' usage_ok_def)
  show thesis
    by (rule that[OF d(1,2) e f(1) v u(1-4) y f(5,2,3,4) ok _ h]) (use d(5) nst d' in simp)
qed

lemma appendTradingAuditEvent_Inr:
  assumes "appendTradingAuditEvent ev uuid now s = Inr s'"
  obtains a where "s' = s\<lparr>st_audit := Some a\<rparr>" "isTradingAuditState a"
    "a = slice_last AUDIT_HISTORY_LIMIT (opt_default [] (st_audit s) @ [ev uuid now])"
  using assms by (auto simp: appendTradingAuditEvent_def Let_def result_simps opt_default_def)

lemma all_modes: "(\<forall>m. P m) \<longleftrightarrow> P Paper \<and> P Live"
  by (metis trading_mode.exhaust)

lemma find_claim_Inr:
  "find_claim k e = Inr (mode, c) \<Longrightarrow> claim_of mode k e = Some c \<and> (\<forall>m. m \<noteq> mode \<longrightarrow> claim_of m k e = None)"
  by (auto simp: find_claim_def all_modes split: option.splits)

definition settled_usage :: "settle_outcome \<Rightarrow> jsnum option \<Rightarrow> risk_reservation_state \<Rightarrow> jsnum \<Rightarrow> jsnum \<Rightarrow> bool" where
  "settled_usage outcome committed claim used used' \<longleftrightarrow>
     (case outcome of
        Release \<Rightarrow> used' = used
      | Commit \<Rightarrow> (\<exists>x y z. used = Fin x \<and> opt_default (rsv_notional claim) committed = Fin y \<and> 0 \<le> y \<and>
                   fl (x + y) = Fin z \<and> used' = Fin z))"

lemma reconcile_draft_Inr:
  assumes "reconcile_draft env k outcome committed ex d = Inr d'" "state_ok d"
  obtains e mode claim rs reserved used a where
    "refreshDraft env Live d = Inr e" "find_claim k e = Inr (mode, claim)" "rsv_executionId claim = ex"
    "reservations (usage_of mode e) = Some rs" "obj_get rs k = Some claim"
    "settled_usage outcome committed claim (usedDailyNotional (usage_of mode e)) used"
    "d' = set_usage mode ((usage_of mode e)\<lparr>reservedDailyNotional := Some reserved, usedDailyNotional := used,
            reservations := Some (obj_del rs k)\<rparr>) e\<lparr>st_audit := Some a\<rparr>"
    "a = slice_last AUDIT_HISTORY_LIMIT (opt_default [] (st_audit d) @
       [audit_event Risk_reconcile mode ex (Some (case outcome of Commit \<Rightarrow> ''commit'' | Release \<Rightarrow> ''release'')) None
          (le_uuid env) (le_wall env)])"
proof -
  obtain e mode claim where e: "refreshDraft env Live d = Inr e" "find_claim k e = Inr (mode, claim)"
      "rsv_executionId claim = ex"
    using assms(1) by (auto simp: reconcile_draft_def result_simps split: if_splits)
  obtain rs where rs: "reservations (usage_of mode e) = Some rs"
    using refreshDraft_keeps(1)[OF e(1) assms(2), of mode] state_ok_usage[OF assms(2), of mode]
    by (auto simp: usage_ok_def)
  have c: "obj_get rs k = Some claim" using find_claim_Inr[OF e(2)] rs by (simp add: claim_of_def opt_default_def)
  obtain reserved used where su: "settled_usage outcome committed claim (usedDailyNotional (usage_of mode e)) used"
    and ap: "appendTradingAuditEvent (audit_event Risk_reconcile mode ex
           (Some (case outcome of Commit \<Rightarrow> ''commit'' | Release \<Rightarrow> ''release'')) None)
        (le_uuid env) (le_wall env)
        (set_usage mode ((usage_of mode e)\<lparr>reservedDailyNotional := Some reserved, usedDailyNotional := used,
           reservations := Some (obj_del rs k)\<rparr>) e) = Inr d'"
    using assms(1) e rs
    by (auto simp: reconcile_draft_def result_simps Let_def settled_usage_def opt_default_def[of "[]"]
        split: settle_outcome.splits if_splits)
  from ap obtain a where a: "d' = set_usage mode ((usage_of mode e)\<lparr>reservedDailyNotional := Some reserved, usedDailyNotional := used,
            reservations := Some (obj_del rs k)\<rparr>) e\<lparr>st_audit := Some a\<rparr>"
      "a = slice_last AUDIT_HISTORY_LIMIT (opt_default [] (st_audit e) @
         [audit_event Risk_reconcile mode ex (Some (case outcome of Commit \<Rightarrow> ''commit'' | Release \<Rightarrow> ''release'')) None
            (le_uuid env) (le_wall env)])"
    by (auto elim!: appendTradingAuditEvent_Inr)
  show thesis
    by (rule that[OF e rs c su a(1)]) (use a(2) refreshDraft_keeps(4)[OF e(1) assms(2)] in simp)
qed

lemma usage_of_audit [simp]: "usage_of m (s\<lparr>st_audit := a\<rparr>) = usage_of m s"
  by (cases m) auto

lemma reconcile_Inr:
  assumes "reconcileReservation env k outcome committed ex raw = Inr raw'"
  obtains d e n mode claim rs used s where
    "normalizedState raw = Inr d" "state_ok d" "refreshDraft env Live d = Inr e" "claim_of mode k d = Some claim"
    "rsv_executionId claim = ex" "reservations (usage_of mode d) = Some rs"
    "settled_usage outcome committed claim (usedDailyNotional (usage_of mode e)) used"
    "normalizedState raw' = Inr n" "state_ok n" "reservations_total (obj_del rs k) = Inr s"
    "usage_of mode n = (usage_of mode e)\<lparr>usedDailyNotional := used, reservations := Some (obj_del rs k),
       reservedDailyNotional := Some s\<rparr>"
    "\<And>m. m \<noteq> mode \<Longrightarrow> usage_of m n = usage_of m e" "\<And>m. m \<noteq> mode \<Longrightarrow> claim_of m k d = None"
    "st_audit n = Some (slice_last AUDIT_HISTORY_LIMIT (opt_default [] (st_audit d) @
       [audit_event Risk_reconcile mode ex (Some (case outcome of Commit \<Rightarrow> ''commit'' | Release \<Rightarrow> ''release'')) None
          (le_uuid env) (le_wall env)]))"
proof -
  have t: "transact (reconcile_draft env k outcome committed ex) raw = Inr raw'"
    using assms by (auto simp: reconcileReservation_def split: if_splits)
  obtain d d' n where d: "normalizedState raw = Inr d" "state_ok d" "reconcile_draft env k outcome committed ex d = Inr d'"
      "normalizedState d' = Inr n" "normalizedState raw' = Inr n" "state_ok n"
    by (rule transact_state[OF t]) (auto elim: reconcile_draft_Inr)
  obtain e mode claim rs reserved used a where r: "refreshDraft env Live d = Inr e" "find_claim k e = Inr (mode, claim)"
    "rsv_executionId claim = ex" "reservations (usage_of mode e) = Some rs" "obj_get rs k = Some claim"
    "settled_usage outcome committed claim (usedDailyNotional (usage_of mode e)) used"
    "d' = set_usage mode ((usage_of mode e)\<lparr>reservedDailyNotional := Some reserved, usedDailyNotional := used,
            reservations := Some (obj_del rs k)\<rparr>) e\<lparr>st_audit := Some a\<rparr>"
    "a = slice_last AUDIT_HISTORY_LIMIT (opt_default [] (st_audit d) @
       [audit_event Risk_reconcile mode ex (Some (case outcome of Commit \<Rightarrow> ''commit'' | Release \<Rightarrow> ''release'')) None
          (le_uuid env) (le_wall env)])"
    using d(3,2) by (rule reconcile_draft_Inr)
  note keeps = refreshDraft_keeps[OF r(1) d(2)]
  obtain s where s: "reservations_total (obj_del rs k) = Inr s"
     "usage_of mode n = (usage_of mode e)\<lparr>usedDailyNotional := used, reservations := Some (obj_del rs k),
       reservedDailyNotional := Some s\<rparr>"
    using normalizedState_ok(5)[OF d(4), of mode] by (rule normalizedUsage_eq) (auto simp: r(7) opt_default_def)
  have other: "usage_of m n = usage_of m e" if "m \<noteq> mode" for m
  proof -
    have "normalizedUsage (usage_of m e) m = Inr (usage_of m n)"
      using normalizedState_ok(5)[OF d(4), of m] that by (simp add: r(7))
    moreover obtain rs' x where "reservations (usage_of m e) = Some rs'" "reservedDailyNotional (usage_of m e) = Some x"
        "reservations_total rs' = Inr x"
      using keeps(1,2)[of m] state_ok_usage[OF d(2), of m] by (auto simp: usage_ok_def)
    ultimately show ?thesis by (rule normalizedUsage_eq_same)
  qed
  have cl: "claim_of m k d = claim_of m k e" for m using keeps(1)[of m] by (simp add: claim_of_def)
  show thesis
  proof (rule that[OF d(1,2) r(1) _ r(3) _ r(6) d(5,6) s other])
    show "claim_of mode k d = Some claim" "reservations (usage_of mode d) = Some rs"
      using find_claim_Inr[OF r(2)] cl keeps(1)[of mode] r(4) by auto
    show "claim_of m k d = None" if "m \<noteq> mode" for m using find_claim_Inr[OF r(2)] cl that by auto
    show "st_audit n = Some (slice_last AUDIT_HISTORY_LIMIT (opt_default [] (st_audit d) @
       [audit_event Risk_reconcile mode ex (Some (case outcome of Commit \<Rightarrow> ''commit'' | Release \<Rightarrow> ''release'')) None
          (le_uuid env) (le_wall env)]))"
      using normalizedState_ok(2)[OF d(4)] by (simp add: r(7,8))
  qed
qed


section \<open>Steps and runs of the ledger\<close>

text \<open>The claims a stored state holds, by mode and reservation identifier.\<close>

definition ledger_claims :: "'a trading_risk_state_scheme \<Rightarrow> trading_mode \<times> string \<Rightarrow> risk_reservation_state option" where
  "ledger_claims s mk =
     (case normalizedState s of Inl _ \<Rightarrow> None | Inr n \<Rightarrow> claim_of (fst mk) (snd mk) n)"

definition ledger_open ::
  "trading_mode \<times> string \<Rightarrow> risk_reservation_state \<Rightarrow> 'a trading_risk_state_scheme \<Rightarrow> 'a trading_risk_state_scheme \<Rightarrow> bool" where
  "ledger_open mk c s s' \<longleftrightarrow>
     (\<exists>env cfg symb n ex h. reserve env cfg symb n True ex s = Inr (h, s') \<and>
        mk = (cfg_mode cfg, le_uuid env) \<and> c = new_claim env cfg symb n ex)"

text \<open>A settlement names the identifier alone; the pair is the mode that does not exclude it. That the claim is in flight is the
  operation's own check.\<close>

definition ledger_close :: "trading_mode \<times> string \<Rightarrow> 'a trading_risk_state_scheme \<Rightarrow> 'a trading_risk_state_scheme \<Rightarrow> bool" where
  "ledger_close mk s s' \<longleftrightarrow>
     (\<exists>env outcome committed ex. reconcileReservation env (snd mk) outcome committed ex s = Inr s') \<and>
     (\<forall>m. m \<noteq> fst mk \<longrightarrow> ledger_claims s (m, snd mk) = None)"

inductive ledger_quiet :: "'a trading_risk_state_scheme \<Rightarrow> 'a trading_risk_state_scheme \<Rightarrow> bool" where
  quiet_record: "record_notional env cfg n count s = Inr s' \<Longrightarrow> ledger_quiet s s'"
| quiet_reset: "reset env cfg s = Inr s' \<Longrightarrow> ledger_quiet s s'"
| quiet_reserve: "reserve env cfg symb n False ex s = Inr (h, s') \<Longrightarrow> ledger_quiet s s'"
| quiet_check: "check env cfg symb n count s = Inr (r, s') \<Longrightarrow> ledger_quiet s s'"
| quiet_usage: "ledger_usage env cfg s = Inr (u, s') \<Longrightarrow> ledger_quiet s s'"
| quiet_list: "listPendingReservations cmp env s = Inr (l, s') \<Longrightarrow> ledger_quiet s s'"

definition loadable :: "'a trading_risk_state_scheme \<Rightarrow> bool" where
  "loadable s \<longleftrightarrow> (\<exists>n. normalizedState s = Inr n)"

text \<open>A quiet transaction: the claims of the normalised state stay as they are.\<close>

definition keeps_claims :: "(trading_risk_state \<Rightarrow> risk_error + trading_risk_state) \<Rightarrow> bool" where
  "keeps_claims f \<longleftrightarrow>
     (\<forall>d d'. state_ok d \<longrightarrow> f d = Inr d' \<longrightarrow>
        (st_audit d = None \<or> st_audit d' \<noteq> None) \<and> (\<forall>m k. claim_of m k d' = claim_of m k d))"

lemma claim_of_normalized: "normalizedState s = Inr n \<Longrightarrow> claim_of m k n = claim_of m k s"
  using normalizedUsage_ok(5)[OF normalizedState_ok(5), of s n m] by (simp add: claim_of_def opt_default_def)

lemma transact_keeps_claims:
  assumes "transact f s = Inr s'" "keeps_claims f"
  shows "ledger_claims s' = ledger_claims s \<and> loadable s'"
proof -
  obtain d d' n where d: "normalizedState s = Inr d" "state_ok d" "f d = Inr d'" "normalizedState d' = Inr n"
      "normalizedState s' = Inr n"
    by (rule transact_state[OF assms(1)]) (use assms(2) in \<open>auto simp: keeps_claims_def\<close>)
  have "claim_of m k n = claim_of m k d" for m k
    using claim_of_normalized[OF d(4), of m k] assms(2) d(2,3) unfolding keeps_claims_def by metis
  then show ?thesis using d(1,5) by (auto simp: ledger_claims_def loadable_def fun_eq_iff)
qed

lemma refreshDraft_keeps_claims: "keeps_claims (refreshDraft env mode)"
  using refreshDraft_keeps(1,4) by (auto simp: keeps_claims_def claim_of_def)

lemma refresh_keeps:
  assumes "refresh env mode s = Inr s'"
  shows "ledger_claims s' = ledger_claims s \<and> (loadable s \<longrightarrow> loadable s')"
  using assms
  by (auto simp: refresh_def result_simps dest: transact_keeps_claims[OF _ refreshDraft_keeps_claims] split: if_splits)

lemma record_keeps_claims: "keeps_claims (record_draft env m n)"
  unfolding keeps_claims_def
proof (intro allI impI conjI)
  fix d d' m' k
  assume d: "state_ok d" "record_draft env m n d = Inr d'"
  then obtain e x where e: "refreshDraft env m d = Inr e" "d' = set_usage m ((usage_of m e)\<lparr>usedDailyNotional := x\<rparr>) e"
    by (auto simp: record_draft_def result_simps Let_def)
  show "st_audit d = None \<or> st_audit d' \<noteq> None" using refreshDraft_keeps(4)[OF e(1) d(1)] by (auto simp: e(2))
  show "claim_of m' k d' = claim_of m' k d"
    using refreshDraft_keeps(1)[OF e(1) d(1), of m'] by (cases "m' = m") (auto simp: claim_of_def e(2))
qed

lemma reset_keeps_claims: "keeps_claims (reset_draft env m)"
  unfolding keeps_claims_def
proof (intro allI impI conjI)
  fix d d' m' k
  assume d: "state_ok d" "reset_draft env m d = Inr d'"
  obtain e where e: "refreshDraft env m d = Inr e" using d(2) by (auto simp: reset_draft_def result_simps)
  have empty: "opt_default [] (reservations (usage_of m e)) = []"
    using d(2) by (auto simp: reset_draft_def result_simps Let_def e)
  from d(2) obtain a day where d': "d' = set_usage m ((usage_of m e)\<lparr>usage_date := day, usedDailyNotional := Fin 0,
             reservedDailyNotional := Some (Fin 0), reservations := Some []\<rparr>) e\<lparr>st_audit := Some a\<rparr>"
    by (auto simp: reset_draft_def result_simps Let_def e elim!: appendTradingAuditEvent_Inr)
  show "st_audit d = None \<or> st_audit d' \<noteq> None" by (simp add: d')
  show "claim_of m' k d' = claim_of m' k d"
    using empty refreshDraft_keeps(1)[OF e d(1), of m']
    by (cases "m' = m") (auto simp: claim_of_def d' opt_default_def)
qed

lemma ledger_quiet_keeps: "ledger_quiet s s' \<Longrightarrow> ledger_claims s' = ledger_claims s \<and> (loadable s \<longrightarrow> loadable s')"
proof (induction rule: ledger_quiet.induct)
  case (quiet_record env cfg n count s s')
  then show ?case
    by (auto simp: record_notional_def result_simps dest: transact_keeps_claims[OF _ record_keeps_claims] split: if_splits)
next
  case (quiet_reset env cfg s s')
  then show ?case by (auto simp: reset_def dest: transact_keeps_claims[OF _ reset_keeps_claims])
next
  case (quiet_reserve env cfg symb n ex s h s')
  then show ?case by (auto simp: reserve_def Let_def split: option.splits)
next
  case (quiet_check env cfg symb n count s r s')
  then show ?case by (auto simp: check_def result_simps dest: refresh_keeps split: option.splits if_splits)
next
  case (quiet_usage env cfg s u s')
  then show ?case by (auto simp: ledger_usage_def result_simps Let_def dest: refresh_keeps)
next
  case (quiet_list cmp env s l s')
  then show ?case by (auto simp: listPendingReservations_def result_simps dest: refresh_keeps)
qed

lemma obj_get_snoc: "obj_get m k = None \<Longrightarrow> obj_get (m @ [(k, v)]) k' = (if k' = k then Some v else obj_get m k')"
  by (induction m) (auto split: if_splits)

lemma ledger_open_claims:
  assumes "ledger_open mk c s s'"
  shows "ledger_claims s mk = None" "ledger_claims s' = (ledger_claims s)(mk \<mapsto> c)" "loadable s'"
proof -
  obtain env cfg symb n ex h where r: "reserve env cfg symb n True ex s = Inr (h, s')"
      "mk = (cfg_mode cfg, le_uuid env)" "c = new_claim env cfg symb n ex"
    using assms by (auto simp: ledger_open_def)
  from r(1) have "ledger_claims s mk = None \<and> ledger_claims s' = (ledger_claims s)(mk \<mapsto> c) \<and> loadable s'"
  proof (cases rule: reserve_Inr)
    case (1 d e rs x y z total)
    have rs: "reservations (usage_of (cfg_mode cfg) d) = Some rs"
      using refreshDraft_keeps(1)[OF 1(3,2), of "cfg_mode cfg"] 1(6) by simp
    have none: "claim_of (cfg_mode cfg) (le_uuid env) d = None"
      using rs 1(15) by (simp add: claim_of_def opt_default_def)
    have "claim_of m k (set_usage (cfg_mode cfg) ((usage_of (cfg_mode cfg) e)
          \<lparr>reservations := Some (rs @ [(le_uuid env, c)]), reservedDailyNotional := Some (Fin z)\<rparr>) e)
        = (if m = cfg_mode cfg \<and> k = le_uuid env then Some c else claim_of m k d)" for m k
      using refreshDraft_keeps(1)[OF 1(3,2), of m] rs 1(15)
      by (cases "m = cfg_mode cfg") (auto simp: obj_get_snoc claim_of_def opt_default_def)
    then show ?thesis using 1(1,17) r(2,3) none by (auto simp: ledger_claims_def loadable_def fun_eq_iff)
  qed
  then show "ledger_claims s mk = None" "ledger_claims s' = (ledger_claims s)(mk \<mapsto> c)" "loadable s'" by auto
qed

lemma ledger_close_claims:
  assumes "ledger_close mk s s'"
  shows "ledger_claims s mk \<noteq> None" "ledger_claims s' = (ledger_claims s)(mk := None)" "loadable s'"
proof -
  obtain env outcome committed ex where r: "reconcileReservation env (snd mk) outcome committed ex s = Inr s'"
    and others: "\<And>m. m \<noteq> fst mk \<Longrightarrow> ledger_claims s (m, snd mk) = None"
    using assms by (auto simp: ledger_close_def)
  from r have both: "ledger_claims s mk \<noteq> None \<and> ledger_claims s' = (ledger_claims s)(mk := None) \<and> loadable s'"
  proof (cases rule: reconcile_Inr)
    case (1 d e n mode claim rs used t)
    have m: "mode = fst mk" using others[of mode] 1(1) 1(4) by (cases "mode = fst mk") (auto simp: ledger_claims_def)
    have "claim_of m k n = (if m = mode \<and> k = snd mk then None else claim_of m k d)" for m k
      using refreshDraft_keeps(1)[OF 1(3,2), of m] 1(6,11) 1(12)[of m]
      by (cases "m = mode") (auto simp: claim_of_def opt_default_def)
    then show ?thesis using 1(1,4,8) m by (cases mk) (auto simp: ledger_claims_def loadable_def fun_eq_iff)
  qed
  then show "ledger_claims s mk \<noteq> None" "ledger_claims s' = (ledger_claims s)(mk := None)" "loadable s'" by auto
qed

lemma ledger_close_found:
  assumes "reconcileReservation env k outcome committed ex s = Inr s'"
  obtains mode where "ledger_close (mode, k) s s'"
  using assms
proof (cases rule: reconcile_Inr)
  case (1 d e n mode claim rs used t)
  have "ledger_close (mode, k) s s'"
    using assms 1(1) 1(13) unfolding ledger_close_def fst_conv snd_conv by (auto simp: ledger_claims_def)
  then show thesis by (rule that)
qed

interpretation ledger_contract: claim_ledger ledger_claims ledger_open ledger_close ledger_quiet
  by unfold_locales (auto simp: ledger_open_claims ledger_close_claims ledger_quiet_keeps)

text \<open>A run of the ledger: every successful call, with the identifier a reservation is given and the identifier a settlement names. A
  settlement is any call of \<^verbatim>\<open>reconcileReservation\<close> that returns.\<close>

inductive ledger_run ::
  "'a trading_risk_state_scheme \<Rightarrow> (string, trading_mode \<times> risk_reservation_state) claim_event list \<Rightarrow>
   'a trading_risk_state_scheme \<Rightarrow> bool" where
  ledger_idle: "ledger_run s [] s"
| ledger_reserve:
    "reserve env cfg symb n True ex s = Inr (h, s') \<Longrightarrow> ledger_run s' es s'' \<Longrightarrow>
     ledger_run s (Opened (le_uuid env) (cfg_mode cfg, new_claim env cfg symb n ex) # es) s''"
| ledger_settle:
    "reconcileReservation env k outcome committed ex s = Inr s' \<Longrightarrow> ledger_run s' es s'' \<Longrightarrow> ledger_run s (Closed k # es) s''"
| ledger_other: "ledger_quiet s s' \<Longrightarrow> ledger_run s' es s'' \<Longrightarrow> ledger_run s (Quiet # es) s''"

lemma ledger_openI:
  "reserve env cfg symb n True ex s = Inr (h, s') \<Longrightarrow>
   ledger_open (cfg_mode cfg, le_uuid env) (new_claim env cfg symb n ex) s s'"
  unfolding ledger_open_def by blast

lemma ledger_closeI:
  assumes "reconcileReservation env k outcome committed ex s = Inr s'" "ledger_claims s (mode, k) \<noteq> None"
  shows "ledger_close (mode, k) s s'"
  using assms(1)
proof (rule ledger_close_found)
  fix m assume m: "ledger_close (m, k) s s'"
  then have "m = mode" using assms(2) by (cases "m = mode") (auto simp: ledger_close_def)
  then show ?thesis using m by simp
qed

text \<open>The events of a run with the mode each settlement found are a run of the contract.\<close>

abbreviation both_opened :: "string \<Rightarrow> (trading_mode \<times> string, risk_reservation_state) claim_event list \<Rightarrow> nat" where
  "both_opened k es \<equiv> opened (Paper, k) es + opened (Live, k) es"

abbreviation both_closed :: "string \<Rightarrow> (trading_mode \<times> string, risk_reservation_state) claim_event list \<Rightarrow> nat" where
  "both_closed k es \<equiv> closed (Paper, k) es + closed (Live, k) es"

lemma ledger_run_contract:
  assumes "ledger_run s es s'"
  shows "\<exists>es'. ledger_contract.run s es' s' \<and> (\<forall>k. opened k es = both_opened k es' \<and> closed k es = both_closed k es')"
  using assms
proof (induction rule: ledger_run.induct)
  case (ledger_idle s)
  show ?case by (rule exI[of _ "[]"]) (simp add: ledger_contract.run_Nil)
next
  case (ledger_reserve env cfg symb n ex s h s' es s'')
  then obtain es' where e: "ledger_contract.run s' es' s''" "\<And>k. opened k es = both_opened k es'" "\<And>k. closed k es = both_closed k es'"
    by blast
  have "ledger_contract.run s (Opened (cfg_mode cfg, le_uuid env) (new_claim env cfg symb n ex) # es') s''"
    using ledger_openI[OF ledger_reserve.hyps(1)] e(1) by (intro ledger_contract.run_Cons[where s' = s']) auto
  then show ?case using e(2,3)
    by (intro exI[of _ "Opened (cfg_mode cfg, le_uuid env) (new_claim env cfg symb n ex) # es'"]) (cases "cfg_mode cfg"; auto)
next
  case (ledger_settle env k outcome committed ex s s' es s'')
  then obtain es' where e: "ledger_contract.run s' es' s''" "\<And>k. opened k es = both_opened k es'" "\<And>k. closed k es = both_closed k es'"
    by blast
  obtain mode where "ledger_close (mode, k) s s'" using ledger_settle.hyps(1) by (rule ledger_close_found)
  then have "ledger_contract.run s (Closed (mode, k) # es') s''"
    using e(1) by (intro ledger_contract.run_Cons[where s' = s']) auto
  then show ?case using e(2,3) by (intro exI[of _ "Closed (mode, k) # es'"]) (cases mode; auto)
next
  case (ledger_other s s' es s'')
  then obtain es' where e: "ledger_contract.run s' es' s''" "\<And>k. opened k es = both_opened k es'" "\<And>k. closed k es = both_closed k es'"
    by blast
  have "ledger_contract.run s (Quiet # es') s''"
    using ledger_other.hyps(1) e(1) by (intro ledger_contract.run_Cons[where s' = s']) auto
  then show ?case using e(2,3) by (intro exI[of _ "Quiet # es'"]) auto
qed

lemma ledger_run_loadable: "ledger_run s es s' \<Longrightarrow> loadable s \<Longrightarrow> loadable s'"
proof (induction rule: ledger_run.induct)
  case (ledger_reserve env cfg symb n ex s h s' es s'')
  then show ?case using ledger_open_claims(3)[OF ledger_openI] by blast
next
  case (ledger_settle env k outcome committed ex s s' es s'')
  then show ?case by (metis ledger_close_claims(3) ledger_close_found)
next
  case (ledger_other s s' es s'')
  then show ?case using ledger_quiet_keeps by blast
qed

section \<open>Properties\<close>

text \<open>C5. Whatever the ledger does to a state it can load, it leaves a state it can load: both usages have
  a valid date and a finite nonnegative amount, every claim is stored under its own identifier and mode
  with a positive amount, the reserved total is the sum of the claims, the audit history is within its
  bound; and loading a loaded state again changes nothing.\<close>

theorem ledger_state_stays_normalised:
  assumes "normalizedState s = Inr d" "ledger_run s es s'"
  shows "\<exists>n. normalizedState s' = Inr n \<and> state_ok n \<and> normalizedState n = Inr n"
  using ledger_run_loadable[OF assms(2)] assms(1) normalizedState_ok(1) normalizedState_id
  by (metis loadable_def)

text \<open>How many reservations an identifier has in flight, over the two modes.\<close>

definition in_flight :: "'a trading_risk_state_scheme \<Rightarrow> string \<Rightarrow> nat" where
  "in_flight s k = held (ledger_claims s (Paper, k)) + held (ledger_claims s (Live, k))"

lemma settled_claim_is_refused:
  assumes "in_flight s k = 0" shows "\<exists>e. reconcileReservation env k outcome committed ex s = Inl e"
proof (cases "reconcileReservation env k outcome committed ex s")
  case (Inr s')
  then obtain mode where c: "ledger_close (mode, k) s s'" by (rule ledger_close_found)
  show ?thesis using ledger_close_claims(1)[OF c] assms by (cases mode) (auto simp: in_flight_def held_def split: option.splits)
qed simp

text \<open>C6. Reservations are settled at most once. Along every run, the calls of \<^verbatim>\<open>reconcileReservation\<close> that return for an
  identifier, whatever outcome they ask for, are at most as many as the reservations made under it (counting the ones the first state
  holds); a reservation is in flight exactly when it was made once more than settled; and after the only settlement of the only
  reservation the identifier is in flight in neither mode, so that every later call is refused.\<close>

theorem every_claim_settled_at_most_once:
  assumes "ledger_run s es s'"
  shows "closed k es \<le> opened k es + in_flight s k \<and>
    in_flight s k + opened k es = in_flight s' k + closed k es \<and>
    (opened k es + in_flight s k \<le> 1 \<longrightarrow> closed k es = 1 \<longrightarrow>
       (\<forall>env outcome committed ex. \<exists>e. reconcileReservation env k outcome committed ex s' = Inl e))"
proof -
  obtain es' where r: "ledger_contract.run s es' s'" "opened k es = both_opened k es'" "closed k es = both_closed k es'"
    using ledger_run_contract[OF assms] by blast
  have balance: "in_flight s k + opened k es = in_flight s' k + closed k es"
    using ledger_contract.run_balance[OF r(1), of "(Paper, k)"] ledger_contract.run_balance[OF r(1), of "(Live, k)"]
    by (simp add: in_flight_def r(2,3))
  have "in_flight s' k = 0" if "opened k es + in_flight s k \<le> 1" "closed k es = 1" using balance that by linarith
  then have "\<exists>e. reconcileReservation env k outcome committed ex s' = Inl e"
    if "opened k es + in_flight s k \<le> 1" "closed k es = 1" for env outcome committed ex
    using that settled_claim_is_refused[of s' k] by blast
  then show ?thesis using balance by auto
qed

lemma daily_total_Inr:
  assumes "daily_total u (Fin y) = Inr t"
  obtains used reserved x z where "usedDailyNotional u = Fin used" "0 \<le> used"
    "opt_default (Fin 0) (reservedDailyNotional u) = Fin reserved" "0 \<le> reserved"
    "fl (used + reserved) = Fin x" "fl (x + y) = Fin z" "t = Fin z" "0 \<le> x"
  using assms unfolding daily_total_def by (auto simp: result_simps) 

lemma fl_lower:
  assumes "fl x = Fin y" "0 \<le> x" shows "x * (1 - 1 / 2 ^ 53) \<le> y + 2 powi (-1075)"
  using fl_error[OF assms(1)] assms(2) by (simp add: algebra_simps abs_le_iff)

text \<open>Two roundings of a sum of three nonnegative numbers.\<close>

lemma double_rounding_bound:
  assumes "fl (a + b) = Fin x" "fl (x + c) = Fin z" "0 \<le> a" "0 \<le> b" "0 \<le> c" "z \<le> M"
  shows "a + b + c \<le> M * (1 + 3 / 2 ^ 53) + 2 powi (-1073)"
proof -
  define d :: rat where "d = 1 / 2 ^ 53"
  define t :: rat where "t = 2 powi (-1075)"
  have t: "0 \<le> t" "2 powi (-1073) = 4 * t"
    using power_int_add[of "2::rat" "-1075" 2] by (simp_all add: t_def)
  have d: "0 < d" "4 * d \<le> 1 / 100" by (simp_all add: d_def)
  have x: "0 \<le> x" using fl_nonneg[of "a + b"] assms by auto
  have 1: "(a + b) * (1 - d) \<le> x + t" using fl_lower[OF assms(1)] assms(3,4) by (simp add: d_def t_def)
  have 2: "(x + c) * (1 - d) \<le> M + t" using fl_lower[OF assms(2)] x assms(5,6) by (simp add: d_def t_def)
  have "(a + b + c) * (1 - d) \<le> x + c + t"
    using 1 mult_nonneg_nonneg[OF assms(5), of d] d(1) unfolding right_diff_distrib distrib_right by linarith
  then have "(a + b + c) * (1 - d) * (1 - d) \<le> (x + c + t) * (1 - d)"
    using d by (intro mult_right_mono) auto
  also have "\<dots> = (x + c) * (1 - d) + t * (1 - d)" by (simp add: algebra_simps)
  also have "\<dots> \<le> M + t + t" using 2 mult_left_mono[of "1 - d" 1 t] d(1) t(1) by simp
  finally have 3: "(a + b + c) * ((1 - d) * (1 - d)) \<le> M + 2 * t" by (simp add: algebra_simps)
  have M: "0 \<le> M" using fl_nonneg[of "x + c"] x assms(2,5,6) by auto
  have "1 \<le> (1 - d) * (1 - d) * (1 + 3 * d)"
  proof -
    have "(1 - d) * (1 - d) * (1 + 3 * d) = 1 + d - 5 * d * d + 3 * d * d * d" by (simp add: algebra_simps)
    moreover have "5 * d * d \<le> d" using d mult_right_mono[of "5 * d" 1 d] by simp
    moreover have "0 \<le> 3 * d * d * d" using d by simp
    ultimately show ?thesis by linarith
  qed
  then have "(a + b + c) * 1 \<le> (a + b + c) * ((1 - d) * (1 - d) * (1 + 3 * d))"
    using assms(3-5) by (intro mult_left_mono) auto
  also have "\<dots> = (a + b + c) * ((1 - d) * (1 - d)) * (1 + 3 * d)" by simp
  also have "\<dots> \<le> (M + 2 * t) * (1 + 3 * d)" using 3 d by (intro mult_right_mono) auto
  also have "\<dots> \<le> M * (1 + 3 * d) + 4 * t"
    using t d mult_right_mono[of "1 + 3 * d" 2 t] by (simp add: algebra_simps)
  finally have bound: "a + b + c \<le> M * (1 + 3 * d) + 4 * t" by simp
  have "3 / 2 ^ 53 = 3 * d" by (simp add: d_def)
  then show ?thesis unfolding t(2) using bound by (simp only:)
qed

text \<open>C7. A reservation is admitted only within the limits: no unresolved execution blocks new exposure in
  either mode, the symbol is well formed and allowed, the amount is positive and at most the limit per
  order, and what the ledger already counts (used and reserved) plus the new amount is at most the daily
  limit, up to the rounding of the two additions. The new claim is stored and every other claim is kept.\<close>

theorem reserve_respects_the_limits:
  assumes "reserve env cfg symb (Fin y) True ex s = Inr (h, s')"
    and "maxDailyNotional (cfg_risk cfg) = Fin limit" "maxOrderNotional (cfg_risk cfg) = Fin per_order"
  shows "\<exists>d e used reserved. normalizedState s = Inr d \<and> refreshDraft env (cfg_mode cfg) d = Inr e \<and> \<not> has_blocks e \<and>
    usedDailyNotional (usage_of (cfg_mode cfg) e) = Fin used \<and>
    reservedDailyNotional (usage_of (cfg_mode cfg) e) = Some (Fin reserved) \<and>
    used + reserved + y \<le> limit * (1 + 3 / 2 ^ 53) + 2 powi (-1073) \<and> 0 < y \<and> y \<le> per_order \<and>
    validateTradingSymbol symb (cfg_marketType cfg) (cfg_quoteCurrency cfg) = None \<and>
    (allowedSymbols (cfg_risk cfg) = [] \<or> symb \<in> set (allowedSymbols (cfg_risk cfg))) \<and>
    ledger_claims s' = (ledger_claims s)((cfg_mode cfg, le_uuid env) \<mapsto> new_claim env cfg symb (Fin y) ex)"
  using assms(1)
proof (cases rule: reserve_Inr)
  case (1 d e rs x y' z total)
  note v = validateOrder_None[OF 1(5)]
  obtain used x2 z2 where t: "usedDailyNotional (usage_of (cfg_mode cfg) e) = Fin used" "0 \<le> used"
      "fl (used + x) = Fin x2" "fl (x2 + y) = Fin z2" "total = Fin z2"
    using 1(7,13) by (auto elim!: daily_total_Inr simp: opt_default_def)
  have "z2 \<le> limit" using 1(14) t(5) assms(2) by simp
  from double_rounding_bound[OF t(3,4) t(2) 1(8) _ this] have
    "used + x + y \<le> limit * (1 + 3 / 2 ^ 53) + 2 powi (-1073)" using 1(10,11) by simp
  then show ?thesis
    using 1(1,3,4,7,10,11) t(1) v(1,3,4) assms(3) ledger_open_claims(2)[OF ledger_openI[OF assms(1)]]
    by (intro exI[of _ d] exI[of _ e] exI[of _ used] exI[of _ x]) simp
qed

lemma valid_symbol_not_blank:
  assumes "validateTradingSymbol symb mt q = None" shows "\<not> is_blank symb"
proof
  assume blank: "is_blank symb"
  have "split_on (CHR ''/'') t = [t]" if "list_all is_space t" for t
    using that by (induction t) (auto simp: is_space_def)
  with blank have "split_on (CHR ''/'') symb = [symb]" by (simp add: is_blank_def)
  with assms show False by (simp add: validateTradingSymbol_def)
qed

lemma refresh_then_load:
  assumes "refresh env mode s = Inr s'" "normalizedState s = Inr d"
  shows "\<exists>e. refreshDraft env mode d = Inr e \<and> normalizedState s' = Inr e \<and> state_ok e"
proof (cases mode)
  case Paper
  then show ?thesis using assms normalizedState_ok(1)[OF assms(2)] by (simp add: refresh_def)
next
  case Live
  have ok: "state_ok d" using normalizedState_ok(1)[OF assms(2)] .
  obtain day where day: "today env = Inr day" using assms Live by (auto simp: refresh_def result_simps)
  define e where "e = d\<lparr>st_live := roll_over day (st_live d)\<rparr>"
  have e: "refreshDraft env Live d = Inr e" using refreshDraft_Live[OF ok, of env] day by (simp add: e_def)
  show ?thesis
  proof (cases "usage_date (st_live d) = day")
    case True
    then have "e = d" "s' = s" using assms Live day by (auto simp: e_def roll_over_def refresh_def loadLatest_def)
    then show ?thesis using e Live assms(2) ok by simp
  next
    case False
    then have t: "transact (refreshDraft env Live) s = Inr s'" using assms Live day by (simp add: refresh_def loadLatest_def)
    obtain d2 d' n where n: "normalizedState s = Inr d2" "refreshDraft env Live d2 = Inr d'" "normalizedState d' = Inr n"
        "normalizedState s' = Inr n" "state_ok n"
      by (rule transact_state[OF t]) (use refreshDraft_keeps(4) in auto)
    then have d': "d' = e" using assms(2) e by simp
    have "n = e"
    proof (rule states_eqI)
      fix m
      obtain rs x where "reservations (usage_of m e) = Some rs" "reservedDailyNotional (usage_of m e) = Some x"
          "reservations_total rs = Inr x"
        using refreshDraft_keeps(1,2)[OF e ok, of m] state_ok_usage[OF ok, of m] by (auto simp: usage_ok_def)
      then show "usage_of m n = usage_of m e"
        using normalizedUsage_eq_same[OF normalizedState_ok(5)[OF n(3), of m]] d' by simp
    next
      show "st_audit n = st_audit e" using normalizedState_ok(2)[OF n(3)] d' by simp
      show "st_accountRisk n = st_accountRisk e"
        using n(5) refreshDraft_keeps(5)[OF e ok] by (simp add: state_ok_def)
    qed
    then show ?thesis using e Live n by simp
  qed
qed

lemma transact_Inr_intro:
  assumes "normalizedState s = Inr d" "f d = Inr d'" "normalizedState d' = Inr n"
  shows "transact f s = Inr (copyStateInto s n)"
  using assms by (simp add: transact_def)

lemma normalizedState_intro:
  assumes "usage_ok Paper (st_paper d)" "usage_ok Live (st_live d)" "opt_all isTradingAuditState (st_audit d)"
    "st_accountRisk d = None"
  shows "normalizedState (d :: trading_risk_state) = Inr d"
  using assms by (intro normalizedState_id) (simp add: state_ok_def)

lemma check_None:
  assumes "check env cfg symb n True s = Inr (None, s')" "normalizedState s = Inr d"
  obtains e total where "refreshDraft env (cfg_mode cfg) d = Inr e" "state_ok e" "\<not> has_blocks e"
    "validateOrder cfg symb n True = None" "daily_total (usage_of (cfg_mode cfg) e) n = Inr total"
    "\<not> js_gt total (maxDailyNotional (cfg_risk cfg))"
proof -
  have v: "validateOrder cfg symb n True = None" and r: "refresh env (cfg_mode cfg) s = Inr s'"
    using assms(1) by (auto simp: check_def result_simps split: option.splits if_splits)
  obtain e where e: "refreshDraft env (cfg_mode cfg) d = Inr e" "normalizedState s' = Inr e" "state_ok e"
    using refresh_then_load[OF r assms(2)] by blast
  show thesis
    using that[OF e(1,3) _ v] assms(1) v r e(2)
    by (auto simp: check_def result_simps loadLatest_def split: if_splits)
qed

lemma reserved_sum_finite:
  assumes "daily_total u (Fin y) = Inr t" "reservedDailyNotional u = Some (Fin x)" "0 \<le> x" "is_double x" "0 < y"
  shows "\<exists>z. fl (x + y) = Fin z"
proof -
  obtain used x2 z2 where t: "0 \<le> used" "fl (used + x) = Fin x2" "fl (x2 + y) = Fin z2"
    using assms(1) by (rule daily_total_Inr) (use assms(2) in \<open>auto simp: opt_default_def\<close>)
  have "x \<le> x2" using double_add_ge[OF assms(4) t(1)] t(2) by (simp add: add.commute)
  then have "js_le (fl (x + y)) (Fin z2)" using fl_mono[of "x + y" "x2 + y"] t(3) by simp
  then show ?thesis using fl_nonneg[of "x + y"] assms(3,5) by (auto simp: js_le_def)
qed

lemma refresh_possible:
  assumes "normalizedState s = Inr d" "refreshDraft env mode d = Inr e" "state_ok e"
  shows "\<exists>s2. refresh env mode s = Inr s2 \<and> normalizedState s2 = Inr e"
proof (cases mode)
  case Paper then show ?thesis using assms by (simp add: refresh_def)
next
  case Live
  have ok: "state_ok d" using normalizedState_ok(1)[OF assms(1)] .
  obtain day where day: "today env = Inr day" "e = d\<lparr>st_live := roll_over day (st_live d)\<rparr>"
    using assms(2) refreshDraft_Live[OF ok, of env] Live by (auto simp: result_simps)
  have audit: "st_audit e = st_audit d" by (simp add: day)
  show ?thesis
  proof (cases "usage_date (st_live d) = day")
    case True
    then show ?thesis using assms(1) day Live by (simp add: refresh_def loadLatest_def roll_over_def)
  next
    case False
    have "transact (refreshDraft env Live) s = Inr (copyStateInto s e)"
      by (rule transact_Inr_intro[OF assms(1)]) (use assms(2) Live normalizedState_id[OF assms(3)] in auto)
    then show ?thesis
      using normalizedState_copy[OF assms(1,3)] audit False day(1) Live assms(1)
      by (cases "st_audit d") (auto simp: refresh_def loadLatest_def)
  qed
qed

lemma reserve_draft_state_ok:
  assumes "state_ok d" "refreshDraft env m d = Inr e"
    "state_ok (set_usage m ((usage_of m e)\<lparr>reservations := r, reservedDailyNotional := t\<rparr>) e)"
  shows "state_ok e"
proof -
  have other: "usage_ok m' (usage_of m' e)" if "m' \<noteq> m" for m'
    using refreshDraft_keeps(8)[OF assms(2,1), of m'] that state_ok_usage[OF assms(1), of m'] by auto
  have "usage_ok m (usage_of m e)"
    using state_ok_usage[OF assms(3), of m] refreshDraft_keeps(1,2)[OF assms(2,1), of m] state_ok_usage[OF assms(1), of m]
    by (simp add: usage_ok_def)
  then have "usage_ok Paper (st_paper e) \<and> usage_ok Live (st_live e)"
    using other[of Paper] other[of Live] by (cases m) auto
  then show ?thesis
    using assms(1) refreshDraft_keeps(4,5)[OF assms(2,1)] by (simp add: state_ok_def)
qed

text \<open>The dry run is honest: when \<^verbatim>\<open>check\<close> finds nothing to object to, \<^verbatim>\<open>reserve\<close> with the same
  arguments on the same state succeeds (for an identifier not in use and a valid execution link), and
  when \<^verbatim>\<open>reserve\<close> succeeds, \<^verbatim>\<open>check\<close> on the same state has no objection.\<close>

theorem check_agrees_with_reserve:
  assumes "normalizedState s = Inr d" "is_identifier (le_uuid env)" "opt_all is_identifier ex"
    "claim_of (cfg_mode cfg) (le_uuid env) d = None"
  shows "(\<exists>s'. check env cfg symb n True s = Inr (None, s')) \<longleftrightarrow> (\<exists>h s'. reserve env cfg symb n True ex s = Inr (h, s'))"
proof
  assume "\<exists>s'. check env cfg symb n True s = Inr (None, s')"
  then obtain s' where c: "check env cfg symb n True s = Inr (None, s')" by blast
  let ?m = "cfg_mode cfg"
  obtain e total where e: "refreshDraft env ?m d = Inr e" "state_ok e" "\<not> has_blocks e"
    "validateOrder cfg symb n True = None" "daily_total (usage_of ?m e) n = Inr total"
    "\<not> js_gt total (maxDailyNotional (cfg_risk cfg))"
    using c assms(1) by (rule check_None)
  have ok: "state_ok d" using normalizedState_ok(1)[OF assms(1)] .
  obtain rs x where u: "reservations (usage_of ?m e) = Some rs" "reservedDailyNotional (usage_of ?m e) = Some (Fin x)"
      "0 \<le> x" "is_double x" "list_all (reservation_ok ?m) rs" "reservations_total rs = Inr (Fin x)"
    using state_ok_usage[OF e(2), of ?m] by (rule usage_ok_totals)
  obtain y where y: "n = Fin y" "0 < y" using validateOrder_None(2)[OF e(4)] by (auto simp: positive_finite_iff)
  obtain z where z: "fl (x + y) = Fin z" using reserved_sum_finite[OF e(5)[unfolded y(1)] u(2-4) y(2)] by blast
  have fresh: "obj_get rs (le_uuid env) = None"
    using assms(4) refreshDraft_keeps(1)[OF e(1) ok, of ?m, symmetric] u(1) by (simp add: claim_of_def opt_default_def)
  let ?rs = "rs @ [(le_uuid env, new_claim env cfg symb n ex)]"
  let ?d' = "set_usage ?m ((usage_of ?m e)\<lparr>reservations := Some ?rs, reservedDailyNotional := Some (Fin z)\<rparr>) e"
  have "addition (Fin x) n (le_uuid env) = Inr (Fin z)" using u(3) z y by (simp add: addition_Inr)
  then have draft: "reserve_draft env cfg symb n ex d = Inr ?d'"
    using e u fresh by (simp add: reserve_draft_def Let_def opt_default_def obj_set_new[OF fresh[unfolded obj_get_None]])
  have "reservations_total ?rs = Inr (Fin z)" using u(3,6) y z by (simp add: total_append addition_Inr)
  moreover have "reservation_ok ?m (le_uuid env, new_claim env cfg symb n ex)"
    using assms(2,3) valid_symbol_not_blank[OF validateOrder_None(1)[OF e(4)]] y
    by (auto simp: reservation_ok_def positive_finite_iff opt_all_def truthy_def is_identifier_def split: option.splits)
  ultimately have "usage_ok ?m (usage_of ?m ?d')"
    using state_ok_usage[OF e(2), of ?m] u(5) by (simp add: usage_ok_def)
  then have "state_ok ?d'"
    using e(2) by (cases ?m) (auto simp: state_ok_def)
  from transact_Inr_intro[where f = "reserve_draft env cfg symb n ex", OF assms(1) draft normalizedState_id[OF this]]
  show "\<exists>h s'. reserve env cfg symb n True ex s = Inr (h, s')"
    using e(4) by (simp add: reserve_def Let_def)
next
  assume "\<exists>h s'. reserve env cfg symb n True ex s = Inr (h, s')"
  then obtain h s' where r: "reserve env cfg symb n True ex s = Inr (h, s')" by blast
  then show "\<exists>s'. check env cfg symb n True s = Inr (None, s')"
  proof (cases rule: reserve_Inr)
    case (1 d2 e rs x y z total)
    have d2: "d2 = d" using 1(1) assms(1) by simp
    obtain s2 where "refresh env (cfg_mode cfg) s = Inr s2" "normalizedState s2 = Inr e"
      using refresh_possible[OF assms(1) 1(3)[unfolded d2]] reserve_draft_state_ok[OF 1(2,3) normalizedState_ok(1)[OF 1(17)]]
      normalizedState_id normalizedState_ok(1)[OF 1(17)] by blast
    then show ?thesis using 1(4,5,13,14) by (simp add: check_def loadLatest_def)
  qed
qed


text \<open>A settlement ends exactly one claim, and only the execution the claim is linked to may end it: the
  claim existed in one mode only, its execution link is the caller's, afterwards it is gone and every
  other claim is kept; a release leaves the used amount of its mode alone, a commit adds the committed
  amount (or the claimed one), and the settlement is the last event of the audit history.\<close>

theorem settlement_moves_the_amount:
  assumes "reconcileReservation env k outcome committed ex s = Inr s'"
  shows "\<exists>d e n mode claim used. normalizedState s = Inr d \<and> refreshDraft env Live d = Inr e \<and>
    normalizedState s' = Inr n \<and> ledger_claims s (mode, k) = Some claim \<and> rsv_executionId claim = ex \<and>
    (\<forall>m. m \<noteq> mode \<longrightarrow> ledger_claims s (m, k) = None \<and> usage_of m n = usage_of m e) \<and>
    ledger_claims s' = (ledger_claims s)((mode, k) := None) \<and>
    settled_usage outcome committed claim (usedDailyNotional (usage_of mode e)) used \<and>
    usedDailyNotional (usage_of mode n) = used \<and>
    (\<exists>events. st_audit n = Some events \<and> events \<noteq> [] \<and> length events \<le> 500 \<and>
       last events = audit_event Risk_reconcile mode ex
         (Some (case outcome of Commit \<Rightarrow> ''commit'' | Release \<Rightarrow> ''release'')) None (le_uuid env) (le_wall env))"
  using assms
proof (cases rule: reconcile_Inr)
  case (1 d e n mode claim rs used t)
  have c: "ledger_claims s (mode, k) = Some claim" using 1(1,4) by (simp add: ledger_claims_def)
  have "ledger_claims s' = (ledger_claims s)((mode, k) := None)"
    using ledger_close_claims(2)[OF ledger_closeI[OF assms]] c by simp
  moreover have "last (slice_last AUDIT_HISTORY_LIMIT (xs @ [x])) = x \<and> slice_last AUDIT_HISTORY_LIMIT (xs @ [x]) \<noteq> []
      \<and> length (slice_last AUDIT_HISTORY_LIMIT (xs @ [x])) \<le> 500" for xs and x :: trading_audit_event
    by (simp add: slice_last_def AUDIT_HISTORY_LIMIT_def)
  ultimately show ?thesis
    using 1(1,3,5,7,8,11,12,13,14) c
    by (intro exI[of _ d] exI[of _ e] exI[of _ n] exI[of _ mode] exI[of _ claim] exI[of _ used])
       (auto simp: ledger_claims_def)
qed

text \<open>The live quota restarts with the UTC day and nothing else does: refreshing on a new day zeroes the
  amount used, keeps every claim in flight, the reserved total and the execution blocks, and never
  touches the paper usage, which has no day.\<close>

theorem live_quota_restarts_each_day:
  assumes "normalizedState s = Inr d" "refresh env Live s = Inr s'"
  shows "\<exists>day n. today env = Inr day \<and> normalizedState s' = Inr n \<and> usage_date (st_live n) = day \<and>
    usedDailyNotional (st_live n) = (if usage_date (st_live d) = day then usedDailyNotional (st_live d) else Fin 0) \<and>
    reservations (st_live n) = reservations (st_live d) \<and>
    reservedDailyNotional (st_live n) = reservedDailyNotional (st_live d) \<and>
    executionBlocks (st_live n) = executionBlocks (st_live d) \<and> st_paper n = st_paper d \<and>
    refresh env' Paper s = Inr s"
proof -
  obtain e where e: "refreshDraft env Live d = Inr e" "normalizedState s' = Inr e"
    using refresh_then_load[OF assms(2,1)] by blast
  obtain day where "today env = Inr day" "e = d\<lparr>st_live := roll_over day (st_live d)\<rparr>"
    using e(1) refreshDraft_Live[OF normalizedState_ok(1)[OF assms(1)], of env] by (auto simp: result_simps)
  then show ?thesis using e(2) by (auto simp: roll_over_def refresh_def)
qed

text \<open>The quota is reset only when nothing is in flight: a reset that succeeds found no claim and no
  execution block in the ledger's mode, sets the used and the reserved amount to zero, leaves the other
  mode alone and is recorded as the last audit event.\<close>

theorem reset_only_when_idle:
  assumes "reset env cfg s = Inr s'"
  shows "\<exists>d n events. normalizedState s = Inr d \<and> normalizedState s' = Inr n \<and>
    reservations (usage_of (cfg_mode cfg) d) = Some [] \<and> block_ids (usage_of (cfg_mode cfg) d) = [] \<and>
    usedDailyNotional (usage_of (cfg_mode cfg) n) = Fin 0 \<and>
    reservedDailyNotional (usage_of (cfg_mode cfg) n) = Some (Fin 0) \<and>
    (\<forall>m. m \<noteq> cfg_mode cfg \<longrightarrow> usage_of m n = usage_of m d) \<and>
    st_audit n = Some events \<and>
    last events = audit_event Risk_reset (cfg_mode cfg) None None None (le_uuid env) (le_wall env)"
proof -
  let ?m = "cfg_mode cfg"
  have t: "transact (reset_draft env ?m) s = Inr s'" using assms by (simp add: reset_def)
  obtain d d' n where d: "normalizedState s = Inr d" "state_ok d" "reset_draft env ?m d = Inr d'"
      "normalizedState d' = Inr n" "normalizedState s' = Inr n" "state_ok n"
    by (rule transact_state[OF t]) (use reset_keeps_claims[of env ?m] in \<open>auto simp: keeps_claims_def\<close>)
  obtain e where e: "refreshDraft env ?m d = Inr e" using d(3) by (auto simp: reset_draft_def result_simps)
  have idle: "opt_default [] (reservations (usage_of ?m e)) = []" "block_ids (usage_of ?m e) = []"
    using d(3) by (auto simp: reset_draft_def result_simps Let_def e)
  obtain a day where d': "d' = set_usage ?m ((usage_of ?m e)\<lparr>usage_date := day, usedDailyNotional := Fin 0,
             reservedDailyNotional := Some (Fin 0), reservations := Some []\<rparr>) e\<lparr>st_audit := Some a\<rparr>"
      "a = slice_last AUDIT_HISTORY_LIMIT (opt_default [] (st_audit e) @
         [audit_event Risk_reset ?m None None None (le_uuid env) (le_wall env)])"
    using d(3) by (auto simp: reset_draft_def result_simps Let_def e elim!: appendTradingAuditEvent_Inr)
  note keeps = refreshDraft_keeps[OF e d(2)]
  have res: "reservations (usage_of ?m d) = Some []"
    using idle(1) keeps(1)[of ?m] state_ok_usage[OF d(2), of ?m] by (auto simp: usage_ok_def opt_default_def)
  have "block_ids (usage_of ?m d) = []" using idle(2) keeps(3)[of ?m] by (simp add: block_ids_def)
  moreover have "usage_of ?m n = usage_of ?m d'"
    using normalizedUsage_eq_same[OF normalizedState_ok(5)[OF d(4), of ?m], of "[]" "Fin 0"]
    by (simp add: d'(1) reservations_total_def)
  moreover have "usage_of m n = usage_of m d" if "m \<noteq> ?m" for m
    using normalizedState_same_usage[OF d(4) state_ok_usage[OF d(2), of m]] keeps(8)[of m] that by (simp add: d'(1))
  moreover have "st_audit n = Some a" using normalizedState_ok(2)[OF d(4)] by (simp add: d'(1))
  moreover have "last a = audit_event Risk_reset ?m None None None (le_uuid env) (le_wall env)"
    by (simp add: d'(2) slice_last_def AUDIT_HISTORY_LIMIT_def)
  ultimately show ?thesis
    using d(1,5) res by (intro exI[of _ d] exI[of _ n] exI[of _ a]) (simp add: d'(1))
qed


section \<open>A settlement that rounding refuses\<close>

definition empty_usage :: risk_usage_state where
  "empty_usage = \<lparr>usage_date = ''2026-01-01'', usedDailyNotional = Fin 0, reservedDailyNotional = Some (Fin 0),
                  reservations = Some [], executionBlocks = None\<rparr>"

definition paper_claim :: "string \<Rightarrow> rat \<Rightarrow> string \<times> risk_reservation_state" where
  "paper_claim k x = (k, \<lparr>rsv_id = k, rsv_mode = Paper, rsv_symbol = ''BTC/USDT'', rsv_notional = Fin x, rsv_executionId = None\<rparr>)"

definition paper_state :: "(string \<times> risk_reservation_state) list \<Rightarrow> rat \<Rightarrow> trading_risk_state" where
  "paper_state rs reserved =
     \<lparr>st_paper = empty_usage\<lparr>reservations := Some rs, reservedDailyNotional := Some (Fin reserved)\<rparr>,
      st_live = empty_usage, st_audit = None, st_accountRisk = None\<rparr>"

definition demo_ledger_env :: "string \<Rightarrow> ledger_env" where
  "demo_ledger_env u = \<lparr>le_clock = Fin 1767225600000, le_wall = Fin 1767225600000, le_uuid = u\<rparr>"

text \<open>10.1 and 1010.1 as doubles\<close>

definition ten_point_one :: rat where "ten_point_one = 5685794529555251 / 562949953421312"

definition both_claims :: rat where "both_claims = 8884933561732301 / 8796093022208"

lemma fl_both: "fl (1000 + ten_point_one) = Fin both_claims"
  using fl_nearest[of "-43" "1000 + ten_point_one" 8884933561732301]
  by (simp add: ten_point_one_def both_claims_def power_int_minus)

lemma fl_ten: "fl ten_point_one = Fin ten_point_one"
  by (rule fl_exact[of _ 5685794529555251 "-49"]) (simp_all add: ten_point_one_def power_int_minus)

definition left_over :: rat where "left_over = 88840539524301 / 8796093022208"

lemma fl_left: "fl (both_claims - 1000) = Fin left_over"
  by (subst fl_exact[of _ 88840539524301 "-43"]) (simp_all add: both_claims_def left_over_def power_int_minus)

lemma fl_diff: "fl (ten_point_one - left_over) = Fin (- 13 / 562949953421312)"
  by (subst fl_exact[of _ "-13" "-49"]) (simp_all add: ten_point_one_def left_over_def power_int_minus)

lemma fl_eps: "fl (2 powi (-49) * left_over) = Fin (2 powi (-49) * left_over)"
  by (rule fl_exact[of _ 88840539524301 "-92"]) (simp_all add: left_over_def power_int_minus)

lemma demo_today [simp]: "today (demo_ledger_env u) = Inr ''2026-01-01''"
proof -
  have "iso_date (Fin 1767225600000) = Some ''2026-01-01''" by code_simp
  then show ?thesis by (simp add: today_def demo_ledger_env_def)
qed

lemma demo_date_format [simp]: "date_format ''2026-01-01''"
  by code_simp

lemma empty_usage_ok [simp]: "usage_ok m empty_usage"
  by (simp add: usage_ok_def empty_usage_def opt_all_def reservations_total_def)

lemma paper_claim_ok [simp]: "reservation_ok Paper (paper_claim k x) \<longleftrightarrow> k \<noteq> [] \<and> 0 < x"
  by (auto simp: reservation_ok_def paper_claim_def positive_finite_iff opt_all_def is_blank_def is_space_def)

lemma paper_state_ok:
  assumes "list_all (reservation_ok Paper) rs" "reservations_total rs = Inr (Fin x)"
  shows "normalizedState (paper_state rs x) = Inr (paper_state rs x)"
  by (rule normalizedState_intro)
     (use assms in \<open>auto simp: paper_state_def usage_ok_def empty_usage_def opt_all_def reservations_total_def\<close>)

definition two_claims :: trading_risk_state where
  "two_claims = paper_state [paper_claim ''a'' 1000, paper_claim ''b'' ten_point_one] both_claims"

lemma two_claims_total: "reservations_total [paper_claim ''a'' 1000, paper_claim ''b'' ten_point_one] = Inr (Fin both_claims)"
proof -
  have a: "addition (Fin 0) (Fin 1000) ''a'' = Inr (Fin 1000)" by (simp add: addition_Inr)
  have b: "addition (Fin 1000) (Fin ten_point_one) ''b'' = Inr (Fin both_claims)"
    using fl_both by (simp add: addition_Inr) (simp add: ten_point_one_def)
  show ?thesis using a b by (simp add: reservations_total_def paper_claim_def)
qed

lemma ten_total: "reservations_total [paper_claim ''b'' ten_point_one] = Inr (Fin ten_point_one)"
proof -
  have "addition (Fin 0) (Fin ten_point_one) ''b'' = Inr (Fin ten_point_one)"
    using fl_ten by (simp add: addition_Inr) (simp add: ten_point_one_def)
  then show ?thesis by (simp add: reservations_total_def paper_claim_def)
qed

lemma left_over_not_equal: "\<not> approximatelyEqual (Fin ten_point_one) (Fin left_over)"
proof -
  have m: "js_max (js_max (Fin 1) (js_abs (Fin ten_point_one))) (js_abs (Fin left_over)) = Fin left_over"
    by (simp add: js_max_def ten_point_one_def left_over_def)
  have "epsilon (Fin ten_point_one) (Fin left_over) = Fin (2 powi (-49) * left_over)"
    unfolding epsilon_def m epsilon_unit js_mul.simps by (rule fl_eps)
  moreover have "js_sub (Fin ten_point_one) (Fin left_over) = Fin (- 13 / 562949953421312)"
    using fl_diff by (simp add: js_sub_def)
  ultimately show ?thesis unfolding approximatelyEqual_def by (simp add: left_over_def power_int_minus)
qed

lemma left_over_subtraction: "subtraction (Fin both_claims) (Fin 1000) ''a'' = Inr (Fin left_over)"
proof -
  have m: "js_max (js_max (Fin 1) (js_abs (Fin both_claims))) (js_abs (Fin 1000)) = Fin both_claims"
    by (simp add: js_max_def both_claims_def)
  have "epsilon (Fin both_claims) (Fin 1000) = Fin (2 powi (-49) * both_claims)"
    unfolding epsilon_def m epsilon_unit js_mul.simps
    by (rule fl_exact[of _ 8884933561732301 "-92"]) (simp_all add: both_claims_def power_int_minus)
  moreover have "js_sub (Fin both_claims) (Fin 1000) = Fin left_over" using fl_left by (simp add: js_sub_def)
  moreover have "finiteNonNegative (Fin both_claims) ''a'' = Inr (Fin both_claims)"
    "finitePositive (Fin 1000) ''a'' = Inr (Fin 1000)"
    by (simp_all add: finiteNonNegative_def finitePositive_def both_claims_def)
  ultimately show ?thesis
    unfolding subtraction_def by (simp add: Let_def left_over_def both_claims_def power_int_minus)
qed

definition after_release :: trading_risk_state where
  "after_release = (paper_state [paper_claim ''b'' ten_point_one] left_over)
     \<lparr>st_audit := Some [audit_event Risk_reconcile Paper None (Some ''release'') None ''e1'' (Fin 1767225600000)]\<rparr>"

lemma demo_audit:
  "isTradingAuditState [audit_event Risk_reconcile Paper None (Some ''release'') None ''e1'' (Fin 1767225600000)]"
  by (simp add: isTradingAuditState_def AUDIT_HISTORY_LIMIT_def audit_event_valid_def audit_event_def opt_all_def
      is_identifier_def is_lower_def is_upper_def is_digit_def action_name_def time_in_range_def)

lemma release_draft: "reconcile_draft (demo_ledger_env ''e1'') ''a'' Release None None two_claims = Inr after_release"
proof -
  have ok: "state_ok two_claims"
    using normalizedState_ok(1)[OF paper_state_ok[OF _ two_claims_total]] by (simp add: two_claims_def ten_point_one_def)
  have r: "refreshDraft (demo_ledger_env ''e1'') Live two_claims = Inr two_claims"
    using refreshDraft_Live[OF ok, of "demo_ledger_env ''e1''"]
    by (simp add: roll_over_def two_claims_def paper_state_def empty_usage_def)
  have f: "find_claim ''a'' two_claims = Inr (Paper, snd (paper_claim ''a'' 1000))"
    by (simp add: find_claim_def claim_of_def two_claims_def paper_state_def empty_usage_def paper_claim_def opt_default_def)
  show ?thesis
    unfolding reconcile_draft_def r f ebind_simps
    using left_over_subtraction demo_audit
    by (simp add: two_claims_def paper_state_def paper_claim_def empty_usage_def opt_default_def Let_def
        appendTradingAuditEvent_def opt_all_def slice_last_def AUDIT_HISTORY_LIMIT_def obj_del_def after_release_def
        demo_ledger_env_def)
qed

lemma after_release_refused:
  "normalizedState after_release = Inl (Reservation_state_error Reserved_sum_mismatch ''b'')"
proof -
  have v: "emap (validateReservationState Paper) [paper_claim ''b'' ten_point_one] = Inr [paper_claim ''b'' ten_point_one]"
    by (simp only: emap_validate) (simp add: ten_point_one_def)
  have n: "finiteNonNegative (Fin left_over) k = Inr (Fin left_over)" "finiteNonNegative (Fin 0) k = Inr (Fin 0)" for k
    by (simp_all add: finiteNonNegative_def left_over_def)
  show ?thesis
    using demo_audit left_over_not_equal v n ten_total
    by (simp add: normalizedState_def after_release_def paper_state_def opt_all_def normalizedUsage_def empty_usage_def
        stateError_def paper_claim_def)
qed

text \<open>C9. A limitation of the reserved total: the state with claims of 1000 and 10.1 is a normal state of the
  ledger, but releasing the larger claim fails. The total is kept by subtraction, which leaves
  10.100000000000023, and the normalisation after the change compares it with the sum of the remaining
  claims within eight units in the last place of 10.1: the transaction is refused as a persistence error and
  the claim stays in flight.\<close>

theorem rounding_can_refuse_a_settlement:
  "normalizedState two_claims = Inr two_claims \<and>
   reconcileReservation (demo_ledger_env ''e1'') ''a'' Release None None two_claims =
     Inl (State_persistence_error (Reservation_state_error Reserved_sum_mismatch ''b''))"
proof
  show n: "normalizedState two_claims = Inr two_claims"
    unfolding two_claims_def by (rule paper_state_ok[OF _ two_claims_total]) (simp add: ten_point_one_def)
  show "reconcileReservation (demo_ledger_env ''e1'') ''a'' Release None None two_claims =
     Inl (State_persistence_error (Reservation_state_error Reserved_sum_mismatch ''b''))"
    using n release_draft after_release_refused by (simp add: reconcileReservation_def transact_def)
qed


definition audit_env_ok :: "ledger_env \<Rightarrow> bool" where
  "audit_env_ok env \<longleftrightarrow> is_identifier (le_uuid env) \<and> canonical_time (le_wall env)"

lemma audit_append_valid:
  assumes "opt_all isTradingAuditState a" "audit_event_valid e"
  shows "isTradingAuditState (slice_last AUDIT_HISTORY_LIMIT (opt_default [] a @ [e]))"
proof -
  have "list_all audit_event_valid (opt_default [] a @ [e])"
    using assms by (auto simp: opt_all_def opt_default_def isTradingAuditState_def split: option.splits)
  then have "list_all audit_event_valid (slice_last AUDIT_HISTORY_LIMIT (opt_default [] a @ [e]))"
    using set_slice_last[of AUDIT_HISTORY_LIMIT "opt_default [] a @ [e]"] unfolding list_all_iff by blast
  then show ?thesis by (simp add: isTradingAuditState_def length_slice_last)
qed

lemma appendTradingAuditEvent_ok:
  assumes "opt_all isTradingAuditState (st_audit s)" "audit_event_valid (ev uuid now)"
  shows "appendTradingAuditEvent ev uuid now s =
    Inr (s\<lparr>st_audit := Some (slice_last AUDIT_HISTORY_LIMIT (opt_default [] (st_audit s) @ [ev uuid now]))\<rparr>)"
  using assms audit_append_valid[OF assms]
  by (simp add: appendTradingAuditEvent_def Let_def opt_default_def)

lemma subtraction_self:
  assumes "0 < y" shows "subtraction (Fin y) (Fin y) k = Inr (Fin 0)"
proof -
  have "js_le (Fin 0) (epsilon (Fin y) (Fin y))"
    using approximatelyEqual_refl[of "Fin y"] by (simp add: approximatelyEqual_def js_sub_def)
  then show ?thesis using assms by (simp add: subtraction_def finiteNonNegative_def finitePositive_def js_sub_def Let_def)
qed

lemma reconcile_event_valid:
  assumes "audit_env_ok env" "opt_all is_identifier ex"
  shows "audit_event_valid (audit_event Risk_reconcile mode ex
     (Some (case outcome of Commit \<Rightarrow> ''commit'' | Release \<Rightarrow> ''release'')) None (le_uuid env) (le_wall env))"
  using assms
  by (cases outcome)
     (simp_all add: audit_env_ok_def audit_event_valid_def audit_event_def opt_all_def action_name_def is_lower_def)

lemma state_okI:
  "\<lbrakk>\<And>m. usage_ok m (usage_of m d); opt_all isTradingAuditState (st_audit d); st_accountRisk d = None\<rbrakk> \<Longrightarrow> state_ok d"
  unfolding state_ok_def by (metis usage_of.simps)

lemma release_only_claim:
  assumes ok: "state_ok n" and rs: "reservations (usage_of m n) = Some [(k, c)]"
    and x: "reservedDailyNotional (usage_of m n) = Some (Fin y)" "rsv_notional c = Fin y"
    and other: "\<And>m'. m' \<noteq> m \<Longrightarrow> reservations (usage_of m' n) = Some []"
    and env: "audit_env_ok env" "today env = Inr day" "date_format day"
    and n: "normalizedState s = Inr n"
  shows "\<exists>s' n'. reconcileReservation env k Release None (rsv_executionId c) s = Inr s' \<and> normalizedState s' = Inr n' \<and>
    (\<forall>m. reservations (usage_of m n') = Some [] \<and> reservedDailyNotional (usage_of m n') = Some (Fin 0))"
proof -
  define e where "e = n\<lparr>st_live := roll_over day (st_live n)\<rparr>"
  have e: "refreshDraft env Live n = Inr e" using refreshDraft_Live[OF ok, of env] env(2) by (simp add: e_def)
  note keeps = refreshDraft_keeps[OF e ok]
  have c: "reservation_ok m (k, c)" using state_ok_usage[OF ok, of m] rs by (auto simp: usage_ok_def)
  then have y: "0 < y" "k \<noteq> []" and ex: "opt_all is_identifier (rsv_executionId c)"
    using x(2) by (auto simp: reservation_ok_def positive_finite_iff)
  have f: "find_claim k e = Inr (m, c)"
    using rs other[of Paper] other[of Live] keeps(1)[of Paper] keeps(1)[of Live]
    by (cases m) (auto simp: find_claim_def claim_of_def opt_default_def)
  let ?ev = "audit_event Risk_reconcile m (rsv_executionId c) (Some ''release'') None"
  let ?u = "(usage_of m e)\<lparr>reservedDailyNotional := Some (Fin 0),
       usedDailyNotional := usedDailyNotional (usage_of m e), reservations := Some []\<rparr>"
  define d' where "d' = set_usage m ?u e
     \<lparr>st_audit := Some (slice_last AUDIT_HISTORY_LIMIT (opt_default [] (st_audit e) @ [?ev (le_uuid env) (le_wall env)]))\<rparr>"
  have audit: "opt_all isTradingAuditState (st_audit e)" using ok keeps(4) by (simp add: state_ok_def)
  have draft: "reconcile_draft env k Release None (rsv_executionId c) n = Inr d'"
    using e f rs x subtraction_self[OF y(1), of k] keeps(1)[of m] keeps(2)[of m]
      appendTradingAuditEvent_ok[of "set_usage m ?u e" ?ev "le_uuid env" "le_wall env"] audit
      reconcile_event_valid[OF env(1) ex, of m Release]
    by (simp add: reconcile_draft_def Let_def opt_default_def[of "[]"] opt_default_def[of "Fin 0"] obj_del_def d'_def)
  have live: "usage_ok m' (usage_of m' e)" for m'
    using state_ok_usage[OF ok, of m'] env(3)
    by (cases m') (auto simp: e_def usage_ok_def roll_over_def)
  have ok': "state_ok d'"
  proof (rule state_okI)
    show "usage_ok m' (usage_of m' d')" for m'
      using live[of m'] by (cases "m' = m") (auto simp: d'_def usage_ok_def reservations_total_def)
    show "opt_all isTradingAuditState (st_audit d')"
      using audit_append_valid[OF audit reconcile_event_valid[OF env(1) ex, of m Release]]
      by (simp add: d'_def opt_all_def)
    show "st_accountRisk d' = None" using keeps(5) by (simp add: d'_def)
  qed
  have t: "transact (reconcile_draft env k Release None (rsv_executionId c)) s = Inr (copyStateInto s d')"
    using n draft normalizedState_id[OF ok'] by (simp add: transact_def)
  have "reservations (usage_of m' d') = Some [] \<and> reservedDailyNotional (usage_of m' d') = Some (Fin 0)" for m'
  proof (cases "m' = m")
    case False
    have "reservations (usage_of m' e) = Some []" using other[OF False] keeps(1)[of m'] by simp
    moreover have "reservedDailyNotional (usage_of m' e) = Some (Fin 0)"
      using live[of m'] calculation by (auto simp: usage_ok_def reservations_total_def)
    ultimately show ?thesis using False by (simp add: d'_def)
  qed (simp add: d'_def)
  moreover have "normalizedState (copyStateInto s d') = Inr d'"
    by (rule normalizedState_copy[OF n ok']) (simp add: d'_def)
  ultimately show ?thesis using t y(2) by (auto simp: reconcileReservation_def)
qed

text \<open>C8. A claim that is alone in flight can always be given back: a reservation made on a ledger without other
  claims, released with the same execution link under a valid clock, succeeds and leaves no claim and no
  reserved amount behind. (With other claims in flight rounding may refuse it.)\<close>

theorem sole_claim_can_be_released:
  assumes r: "reserve env cfg symb (Fin y) True ex s = Inr (h, s')" and y: "is_double y"
    and d: "normalizedState s = Inr d" and alone: "reservations (st_paper d) = Some []" "reservations (st_live d) = Some []"
    and env: "audit_env_ok env2" "today env2 = Inr day" "date_format day"
  shows "\<exists>s'' n. reconcileReservation env2 (le_uuid env) Release None (truthy ex) s' = Inr s'' \<and>
    normalizedState s'' = Inr n \<and>
    (\<forall>m. reservations (usage_of m n) = Some [] \<and> reservedDailyNotional (usage_of m n) = Some (Fin 0))"
  using r
proof (cases rule: reserve_Inr)
  case (1 d2 e rs x y' z total)
  have d2: "d2 = d" using 1(1) d by simp
  have al: "reservations (usage_of m d) = Some []" for m using alone by (cases m) auto
  have rs: "rs = []" using 1(6) refreshDraft_keeps(1)[OF 1(3,2), of "cfg_mode cfg"] al d2 by simp
  have x: "x = 0"
    using state_ok_usage[OF 1(2), of "cfg_mode cfg"] refreshDraft_keeps(2)[OF 1(3,2), of "cfg_mode cfg"] al 1(7) d2
    by (auto simp: usage_ok_def reservations_total_def)
  have z: "z = y" using 1(10,12) y x by (simp add: is_double_def)
  let ?n = "set_usage (cfg_mode cfg)
       ((usage_of (cfg_mode cfg) e)\<lparr>reservations := Some (rs @ [(le_uuid env, new_claim env cfg symb (Fin y) ex)]),
          reservedDailyNotional := Some (Fin z)\<rparr>) e"
  have other: "reservations (usage_of m' ?n) = Some []" if "m' \<noteq> cfg_mode cfg" for m'
    using refreshDraft_keeps(1)[OF 1(3,2), of m'] al[of m'] d2 that by simp
  show ?thesis
    using release_only_claim[OF normalizedState_ok(1)[OF 1(17)], of "cfg_mode cfg" "le_uuid env"
        "new_claim env cfg symb (Fin y) ex" y env2 day s'] other env 1(17) rs z by simp
qed

section \<open>Witnesses\<close>

definition demo_config :: risk_config where
  "demo_config = \<lparr>cfg_mode = Paper, cfg_marketType = Spot, cfg_quoteCurrency = ''USDT'',
     cfg_risk = \<lparr>maxOrderNotional = Fin 500, maxDailyNotional = Fin 1000, allowedSymbols = [], account_limits = None\<rparr>\<rparr>"

definition empty_state :: trading_risk_state where "empty_state = paper_state [] 0"

definition one_claim :: trading_risk_state where "one_claim = paper_state [paper_claim ''r1'' 100] 100"

lemma empty_state_ok: "normalizedState empty_state = Inr empty_state"
  unfolding empty_state_def by (rule paper_state_ok) (simp_all add: reservations_total_def)

lemma one_claim_ok: "normalizedState one_claim = Inr one_claim"
proof -
  have "addition (Fin 0) (Fin 100) ''r1'' = Inr (Fin 100)" by (simp add: addition_Inr)
  then show ?thesis
    unfolding one_claim_def by (intro paper_state_ok) (simp_all add: reservations_total_def paper_claim_def[of "''r1''"]
        reservation_ok_def positive_finite_iff opt_all_def is_blank_def is_space_def)
qed

lemma demo_valid_order: "validateOrder demo_config ''BTC/USDT'' (Fin 100) True = None"
  by (simp add: validateOrder_def demo_config_def validateTradingSymbol_def Let_def)

lemma demo_reserve:
  "reserve (demo_ledger_env ''r1'') demo_config ''BTC/USDT'' (Fin 100) True None empty_state =
     Inr (\<lparr>res_id = ''r1'', res_mode = Paper, res_symbol = ''BTC/USDT'', res_notional = Fin 100, res_count = True,
           res_finalized = False\<rparr>, one_claim)"
proof -
  have tot: "daily_total (st_paper empty_state) (Fin 100) = Inr (Fin 100)"
    by (simp add: daily_total_def addition_def finiteNonNegative_def empty_state_def paper_state_def empty_usage_def opt_default_def Let_def)
  have add: "addition (Fin 0) (Fin 100) ''r1'' = Inr (Fin 100)" by (simp add: addition_Inr)
  have draft: "reserve_draft (demo_ledger_env ''r1'') demo_config ''BTC/USDT'' (Fin 100) None empty_state = Inr one_claim"
    using tot add
    by (simp add: reserve_draft_def demo_config_def demo_ledger_env_def Let_def has_blocks_def block_ids_def)
       (simp add: empty_state_def one_claim_def paper_state_def empty_usage_def opt_default_def paper_claim_def truthy_def
         obj_set_def)
  have "copyStateInto empty_state one_claim = one_claim"
    by (simp add: copyStateInto_def empty_state_def one_claim_def paper_state_def)
  with draft show ?thesis
    using demo_valid_order empty_state_ok one_claim_ok
    by (simp add: reserve_def transact_def Let_def) (simp add: demo_ledger_env_def demo_config_def)
qed

lemma demo_audit_env: "audit_env_ok (demo_ledger_env ''e1'')"
  by (simp add: audit_env_ok_def demo_ledger_env_def is_identifier_def is_lower_def is_upper_def is_digit_def
      time_in_range_def)

lemma empty_state_idle: "reservations (st_paper empty_state) = Some []" "reservations (st_live empty_state) = Some []"
  by (simp_all add: empty_state_def paper_state_def empty_usage_def)

lemma demo_double: "is_double 100"
  by (simp add: is_double_def)

theorem sole_claim_can_be_released_witness:
  "\<exists>s''. reconcileReservation (demo_ledger_env ''e1'') ''r1'' Release None None one_claim = Inr s''"
  using sole_claim_can_be_released[OF demo_reserve demo_double empty_state_ok empty_state_idle demo_audit_env demo_today
      demo_date_format]
  by (auto simp: truthy_def demo_ledger_env_def)

lemma demo_release:
  "\<exists>s''. reconcileReservation (demo_ledger_env ''e1'') ''r1'' Release None None one_claim = Inr s'' \<and>
     ledger_claims one_claim (Paper, ''r1'') \<noteq> None"
proof -
  have "ledger_claims one_claim (Paper, ''r1'') \<noteq> None"
    using one_claim_ok
    by (simp add: ledger_claims_def) (simp add: claim_of_def one_claim_def paper_state_def paper_claim_def opt_default_def)
  moreover have "\<exists>s''. reconcileReservation (demo_ledger_env ''e1'') ''r1'' Release None None one_claim = Inr s''"
  proof -
    have rs: "reservations (usage_of Paper one_claim) = Some [(''r1'', snd (paper_claim ''r1'' 100))]"
      "reservedDailyNotional (usage_of Paper one_claim) = Some (Fin 100)"
      "rsv_notional (snd (paper_claim ''r1'' 100)) = Fin 100" "rsv_executionId (snd (paper_claim ''r1'' 100)) = None"
      by (simp_all add: one_claim_def paper_state_def paper_claim_def)
    have other: "reservations (usage_of m' one_claim) = Some []" if "m' \<noteq> Paper" for m'
      using that by (cases m') (simp_all add: one_claim_def paper_state_def empty_usage_def)
    show ?thesis
      using release_only_claim[OF normalizedState_ok(1)[OF one_claim_ok] rs(1-3) other demo_audit_env demo_today
          demo_date_format one_claim_ok] rs(4) by auto
  qed
  ultimately show ?thesis by blast
qed

definition demo_trace :: "(string, trading_mode \<times> risk_reservation_state) claim_event list" where
  "demo_trace = [Opened ''r1'' (Paper, snd (paper_claim ''r1'' 100)), Closed ''r1'']"

lemma demo_ledger_run: "\<exists>s''. ledger_run empty_state demo_trace s''"
proof -
  obtain s'' where s'': "reconcileReservation (demo_ledger_env ''e1'') ''r1'' Release None None one_claim = Inr s''"
    using demo_release by blast
  have "new_claim (demo_ledger_env ''r1'') demo_config ''BTC/USDT'' (Fin 100) None = snd (paper_claim ''r1'' 100)"
    "cfg_mode demo_config = Paper" "le_uuid (demo_ledger_env ''r1'') = ''r1''"
    by (simp_all add: demo_ledger_env_def demo_config_def paper_claim_def truthy_def)
  then show ?thesis
    using ledger_reserve[OF demo_reserve ledger_settle[OF s'' ledger_idle]] by (auto simp: demo_trace_def)
qed

theorem ledger_state_stays_normalised_witness:
  "\<exists>s' n. ledger_run empty_state demo_trace s' \<and> normalizedState s' = Inr n \<and> state_ok n"
proof -
  obtain s'' where "ledger_run empty_state demo_trace s''" using demo_ledger_run by blast
  from ledger_state_stays_normalised[OF empty_state_ok this] this show ?thesis by blast
qed

theorem every_claim_settled_at_most_once_witness:
  "\<exists>s'. ledger_run empty_state demo_trace s' \<and> closed ''r1'' demo_trace = 1 \<and>
     (\<forall>env outcome committed ex. \<exists>e. reconcileReservation env ''r1'' outcome committed ex s' = Inl e)"
proof -
  obtain s' where r: "ledger_run empty_state demo_trace s'" using demo_ledger_run by blast
  have "in_flight empty_state ''r1'' = 0"
    using empty_state_ok empty_state_idle by (simp add: in_flight_def ledger_claims_def claim_of_def opt_default_def)
  then show ?thesis
    using every_claim_settled_at_most_once[OF r, of "''r1''"] r by (intro exI[of _ s']) (simp add: demo_trace_def)
qed

theorem reserve_respects_the_limits_witness:
  "\<exists>used reserved. used + reserved + 100 \<le> 1000 * (1 + 3 / 2 ^ 53) + (2 powi (-1073) :: rat) \<and>
     usedDailyNotional (usage_of Paper empty_state) = Fin used \<and>
     reservedDailyNotional (usage_of Paper empty_state) = Some (Fin reserved)"
proof -
  have l: "maxDailyNotional (cfg_risk demo_config) = Fin 1000" "maxOrderNotional (cfg_risk demo_config) = Fin 500"
    "cfg_mode demo_config = Paper" by (simp_all add: demo_config_def)
  from reserve_respects_the_limits[OF demo_reserve l(1,2)] obtain d e used reserved where
    "normalizedState empty_state = Inr d" "refreshDraft (demo_ledger_env ''r1'') Paper d = Inr e"
    "usedDailyNotional (usage_of Paper e) = Fin used" "reservedDailyNotional (usage_of Paper e) = Some (Fin reserved)"
    "used + reserved + 100 \<le> 1000 * (1 + 3 / 2 ^ 53) + 2 powi (-1073)"
    unfolding l(3) by blast
  with empty_state_ok show ?thesis by (intro exI[of _ used] exI[of _ reserved]) simp
qed

theorem check_agrees_with_reserve_witness:
  "\<exists>s'. check (demo_ledger_env ''r1'') demo_config ''BTC/USDT'' (Fin 100) True empty_state = Inr (None, s')"
proof -
  have "is_identifier (le_uuid (demo_ledger_env ''r1''))" "opt_all is_identifier (None :: string option)"
    "claim_of (cfg_mode demo_config) (le_uuid (demo_ledger_env ''r1'')) empty_state = None"
    using empty_state_idle
    by (simp_all add: demo_ledger_env_def is_identifier_def is_lower_def is_upper_def is_digit_def opt_all_def
        demo_config_def claim_of_def opt_default_def)
  from check_agrees_with_reserve[OF empty_state_ok this] demo_reserve show ?thesis by blast
qed

theorem settlement_moves_the_amount_witness:
  "\<exists>s'. reconcileReservation (demo_ledger_env ''e1'') ''r1'' Release None None one_claim = Inr s' \<and>
     ledger_claims s' (Paper, ''r1'') = None"
proof -
  obtain s' where s': "reconcileReservation (demo_ledger_env ''e1'') ''r1'' Release None None one_claim = Inr s'"
      "ledger_claims one_claim (Paper, ''r1'') \<noteq> None"
    using demo_release by blast
  from settlement_moves_the_amount[OF s'(1)] s' show ?thesis by (metis fun_upd_same)
qed

theorem live_quota_restarts_each_day_witness:
  "\<exists>n. normalizedState empty_state = Inr n \<and> usage_date (st_live n) = ''2026-01-01''"
proof -
  have "refresh (demo_ledger_env ''e1'') Live empty_state = Inr empty_state"
    using empty_state_ok by (simp add: refresh_def loadLatest_def) (simp add: empty_state_def paper_state_def empty_usage_def)
  from live_quota_restarts_each_day[OF empty_state_ok this, of "demo_ledger_env ''e1''"] show ?thesis by auto
qed

theorem reset_only_when_idle_witness:
  "\<exists>s' n. reset (demo_ledger_env ''e1'') demo_config empty_state = Inr s' \<and> normalizedState s' = Inr n \<and>
     usedDailyNotional (usage_of Paper n) = Fin 0"
proof -
  let ?ev = "audit_event Risk_reset Paper None None None"
  have a: "isTradingAuditState [?ev ''e1'' (Fin 1767225600000)]"
    by (simp add: isTradingAuditState_def AUDIT_HISTORY_LIMIT_def audit_event_valid_def audit_event_def opt_all_def
        is_identifier_def is_lower_def is_upper_def is_digit_def time_in_range_def)
  let ?d = "empty_state\<lparr>st_audit := Some [?ev ''e1'' (Fin 1767225600000)]\<rparr>"
  have e: "st_paper empty_state = empty_usage" "st_live empty_state = empty_usage" "st_audit empty_state = None"
    "st_accountRisk empty_state = None"
    by (simp_all add: empty_state_def paper_state_def empty_usage_def)
  have draft: "reset_draft (demo_ledger_env ''e1'') Paper empty_state = Inr ?d"
    using a unfolding reset_draft_def
    by (simp add: e block_ids_def empty_usage_def opt_default_def appendTradingAuditEvent_def demo_ledger_env_def[of "''e1''"]
        demo_today[of "''e1''", unfolded demo_ledger_env_def] opt_all_def slice_last_def AUDIT_HISTORY_LIMIT_def Let_def
        empty_state_def paper_state_def)
  have "normalizedState ?d = Inr ?d"
    by (rule normalizedState_intro) (use a in \<open>simp_all add: e opt_all_def\<close>)
  with draft have "reset (demo_ledger_env ''e1'') demo_config empty_state = Inr (copyStateInto empty_state ?d)"
    using empty_state_ok by (simp add: reset_def transact_def demo_config_def)
  moreover from reset_only_when_idle[OF this] obtain n where
    "normalizedState (copyStateInto empty_state ?d) = Inr n" "usedDailyNotional (usage_of (cfg_mode demo_config) n) = Fin 0" by blast
  ultimately show ?thesis by (auto simp: demo_config_def)
qed

end
