(* ===== verification/Orders.thy ===== *)
theory Orders
  imports Risk_Ledger
begin

text \<open>
  The order data of the trading engine (\<^verbatim>\<open>packages/trading-engine/src/types.ts\<close>) and the small
  components on it: validation of order input (\<^verbatim>\<open>order-input.ts\<close>), the contract size of a market
  (\<^verbatim>\<open>contract-size.ts\<close>) and whether an order protects a position (\<^verbatim>\<open>protection.ts\<close>).
\<close>

section \<open>Data model (types.ts)\<close>

datatype order_type =
    Market | Limit | Stop | Stop_market | Take_profit | Take_profit_market | Trailing_stop_market
  | Oco_type | Unknown_type

datatype order_status = St_open | St_closed | St_canceled | St_rejected | St_expired | St_unknown

datatype position_side = PS_both | PS_long | PS_short

datatype position_mode = One_way | Hedge

datatype fee_source = Exchange_fees | Paper_ledger

datatype fee_completeness = Fees_complete | Fees_partial

record fee_charge =
  fee_currency :: string
  fee_cost :: jsnum

record order_fee_observation =
  fo_source :: fee_source
  fo_completeness :: fee_completeness
  fo_charges :: "fee_charge list"

record order =
  ord_id :: string
  ord_symbol :: string
  ord_side :: side
  ord_type :: order_type
  ord_price :: "jsnum option"
  ord_stopPrice :: "jsnum option"
  ord_trailingPercent :: "jsnum option"
  ord_activationPrice :: "jsnum option"
  ord_callbackRate :: "jsnum option"
  ord_ocoGroup :: "string option"
  ord_clientOrderId :: "string option"
  ord_orderListId :: "string option"
  ord_listClientOrderId :: "string option"
  ord_listOrderStatus :: "string option"
  ord_positionSide :: "position_side option"
  ord_reduceOnly :: "bool option"
  ord_closePosition :: "bool option"
  ord_amount :: jsnum
  ord_filled :: jsnum
  ord_remaining :: jsnum
  ord_average :: "jsnum option"
  ord_cost :: jsnum
  ord_feeObservation :: "order_fee_observation option"
  ord_status :: order_status
  ord_timestamp :: jsnum

datatype valuation_status = Valuation_complete | Valuation_unavailable

datatype cost_basis_status = Basis_complete | Basis_partial | Basis_unavailable

record position =
  pos_symbol :: string
  pos_asset :: string
  pos_amount :: jsnum
  pos_quoteValue :: "jsnum option"
  pos_valuationStatus :: "valuation_status option"
  pos_valuationReason :: "string option"
  pos_positionSide :: "position_side option"
  pos_leverage :: "jsnum option"
  pos_marginType :: "margin_type option"
  pos_markPrice :: "jsnum option"
  pos_liquidationPrice :: "jsnum option"
  pos_margin :: "jsnum option"
  pos_avgEntryPrice :: "jsnum option"
  pos_unrealizedPnl :: "jsnum option"
  pos_unrealizedPnlPct :: "jsnum option"
  pos_costBasisStatus :: "cost_basis_status option"
  pos_costBasisReason :: "string option"

record place_order_input =
  in_symbol :: string
  in_side :: side
  in_type :: order_type
  in_amount :: jsnum
  in_price :: "jsnum option"
  in_reduceOnly :: "bool option"
  in_positionSide :: "position_side option"
  in_stopPrice :: "jsnum option"
  in_trailingPercent :: "jsnum option"
  in_closePosition :: "bool option"
  in_clientOrderId :: "string option"

record place_oco_input =
  oco_symbol :: string
  oco_side :: side
  oco_amount :: jsnum
  oco_stopLossPrice :: jsnum
  oco_takeProfitPrice :: jsnum
  oco_listClientOrderId :: "string option"
  oco_aboveClientOrderId :: "string option"
  oco_belowClientOrderId :: "string option"

definition fee_currency_valid :: "string \<Rightarrow> bool" where
  "fee_currency_valid s \<longleftrightarrow> currency_code s \<and> length s \<le> 80"

definition isOrderFeeObservation :: "order_fee_observation \<Rightarrow> bool" where
  "isOrderFeeObservation obs \<longleftrightarrow>
     fo_charges obs \<noteq> [] \<and> length (fo_charges obs) \<le> 32 \<and>
     list_all (\<lambda>c. fee_currency_valid (fee_currency c) \<and> is_finite (fee_cost c)) (fo_charges obs) \<and>
     distinct (map fee_currency (fo_charges obs))"

text \<open>\<^verbatim>\<open>/^(\d+)([smhdw])$/\<close>; \<^verbatim>\<open>Number(match[1])\<close> rounds the digits to a double.\<close>

definition digits_value :: "string \<Rightarrow> int" where
  "digits_value s = fold (\<lambda>c n. 10 * n + (int (of_char c) - 48)) s 0"

definition timeframe_unit :: "char \<Rightarrow> rat option" where
  "timeframe_unit c =
     map_of [(CHR ''s'', 1000), (CHR ''m'', 60000), (CHR ''h'', 3600000), (CHR ''d'', 86400000), (CHR ''w'', 604800000)] c"

definition timeframeDurationMs :: "string \<Rightarrow> jsnum option" where
  "timeframeDurationMs t =
     (if length t < 2 \<or> \<not> list_all is_digit (butlast t) then None
      else case timeframe_unit (last t) of None \<Rightarrow> None
           | Some u \<Rightarrow> Some (js_mul (fl (of_int (digits_value (butlast t)))) (Fin u)))"

section \<open>Submission errors\<close>

text \<open>The part of a JavaScript error the engine looks at: its class, the errors an aggregate holds, its cause.\<close>

datatype submission_error =
    Submission_status_unknown
  | Submission_rejected
  | Aggregate_error "submission_error list" "submission_error option"
  | Plain_error "submission_error option"

fun isSubmissionStatusUnknownError :: "submission_error \<Rightarrow> bool" where
  "isSubmissionStatusUnknownError Submission_status_unknown = True"
| "isSubmissionStatusUnknownError Submission_rejected = False"
| "isSubmissionStatusUnknownError (Aggregate_error es cause) =
     (list_ex isSubmissionStatusUnknownError es \<or>
      (case cause of None \<Rightarrow> False | Some c \<Rightarrow> isSubmissionStatusUnknownError c))"
| "isSubmissionStatusUnknownError (Plain_error cause) =
     (case cause of None \<Rightarrow> False | Some c \<Rightarrow> isSubmissionStatusUnknownError c)"

section \<open>Order input (order-input.ts)\<close>

datatype input_error =
    Unsupported_order_type
  | Amount_not_positive
  | Limit_price_required
  | Stop_price_required
  | Trailing_stop_price_invalid
  | Trailing_percent_required

record validated_order_input =
  vi_isLimitExecution :: bool
  vi_isTrigger :: bool

definition ORDER_TYPES :: "order_type list" where
  "ORDER_TYPES = [Market, Limit, Stop, Stop_market, Take_profit, Take_profit_market, Trailing_stop_market]"

definition positive_option :: "jsnum option \<Rightarrow> bool" where
  "positive_option x = (case x of None \<Rightarrow> False | Some v \<Rightarrow> positive_finite v)"

definition validateOrderInput :: "place_order_input \<Rightarrow> input_error + validated_order_input" where
  "validateOrderInput input =
     (let t = in_type input;
          isLimitExecution = (t = Limit \<or> t = Stop \<or> t = Take_profit);
          isTrigger = (t = Stop \<or> t = Stop_market \<or> t = Take_profit \<or> t = Take_profit_market)
      in if t \<notin> set ORDER_TYPES then Inl Unsupported_order_type
         else if \<not> positive_finite (in_amount input) then Inl Amount_not_positive
         else if isLimitExecution \<and> \<not> positive_option (in_price input) then Inl Limit_price_required
         else if isTrigger \<and> \<not> positive_option (in_stopPrice input) then Inl Stop_price_required
         else if t = Trailing_stop_market \<and> in_stopPrice input \<noteq> None \<and> \<not> positive_option (in_stopPrice input)
           then Inl Trailing_stop_price_invalid
         else if t = Trailing_stop_market \<and>
                 \<not> (case in_trailingPercent input of None \<Rightarrow> False
                    | Some p \<Rightarrow> positive_finite p \<and> \<not> js_ge p (Fin 100))
           then Inl Trailing_percent_required
         else Inr \<lparr>vi_isLimitExecution = isLimitExecution, vi_isTrigger = isTrigger\<rparr>)"

section \<open>Contract size (contract-size.ts)\<close>

record contract_size_market =
  cm_contract :: "bool option"
  cm_linear :: "bool option"
  cm_inverse :: "bool option"
  cm_contractSize :: "jsnum option"

datatype contract_error = Market_metadata_unavailable | Contract_not_linear | Contract_size_unavailable

definition futuresAmountsEqual :: "jsnum \<Rightarrow> jsnum \<Rightarrow> bool" where
  "futuresAmountsEqual left right \<longleftrightarrow>
     is_finite left \<and> is_finite right \<and>
     js_le (js_abs (js_sub left right))
       (js_mul (js_mul EPSILON (Fin 8)) (js_max (js_abs left) (js_abs right)))"

definition contractSizeForMarket :: "contract_size_market option \<Rightarrow> contract_error + jsnum" where
  "contractSizeForMarket market =
     (case market of
        None \<Rightarrow> Inl Market_metadata_unavailable
      | Some m \<Rightarrow>
          if cm_contract m \<noteq> Some True then Inr (Fin 1)
          else if cm_linear m \<noteq> Some True \<or> cm_inverse m = Some True then Inl Contract_not_linear
          else if \<not> positive_option (cm_contractSize m) then Inl Contract_size_unavailable
          else Inr (case cm_contractSize m of None \<Rightarrow> NaN | Some c \<Rightarrow> c))"

section \<open>Protection (protection.ts)\<close>

datatype coverage = Protected | Partially_protected | Not_protected

definition reduceSide :: "position \<Rightarrow> side" where
  "reduceSide p = (if pos_positionSide p = Some PS_short \<or> js_lt (pos_amount p) (Fin 0) then Buy else Sell)"

definition hasStopComponent :: "order_type \<Rightarrow> bool" where
  "hasStopComponent t \<longleftrightarrow> t = Oco_type \<or> t \<in> {Stop, Stop_market, Trailing_stop_market}"

definition protectionCoverage :: "order \<Rightarrow> position \<Rightarrow> jsnum \<Rightarrow> position_mode \<Rightarrow> coverage" where
  "protectionCoverage ord p coveragePct mode =
     (if mode = Hedge \<and> ord_positionSide ord \<noteq> pos_positionSide p then Not_protected
      else if ord_symbol ord \<noteq> pos_symbol p \<or> ord_side ord \<noteq> reduceSide p \<or> \<not> hasStopComponent (ord_type ord)
      then Not_protected
      else
        let amount = js_abs (pos_amount p)
        in if js_le amount (Fin 0) then Not_protected
           else if ord_closePosition ord = Some True then Protected
           else
             let remaining = js_max (Fin 0) (js_sub (js_abs (ord_amount ord)) (js_max (Fin 0) (ord_filled ord)))
             in if js_le remaining (Fin 0) then Not_protected
                else if js_ge remaining (js_mul amount (js_div coveragePct (Fin 100))) then Protected
                else Partially_protected)"

definition isProtection :: "order \<Rightarrow> position \<Rightarrow> jsnum \<Rightarrow> position_mode \<Rightarrow> bool" where
  "isProtection ord p coveragePct mode = (protectionCoverage ord p coveragePct mode = Protected)"

end
