(* ===== verification/Precision.thy ===== *)
theory Precision
  imports Orders
begin

text \<open>
  Lot steps (\<^verbatim>\<open>packages/trading-engine/src/ccxt-precision.ts\<close>) and the decimal texts of numbers they use.
  \<^verbatim>\<open>x.toFixed(d)\<close> is exact: the integer nearest to \<open>x * 10^d\<close>, the larger one of two, for \<open>x < 10^21\<close>, and
  the shortest text of \<open>x\<close> beyond. \<^verbatim>\<open>10 ** -n\<close> is approximated by the engine, so it is the parameter
  \<open>pow10\<close> (of \<open>-n\<close>).
\<close>

section \<open>Decimal texts\<close>

definition fixed_units :: "nat \<Rightarrow> rat \<Rightarrow> int" where
  "fixed_units d x = \<lfloor>x * 10 ^ d + 1/2\<rfloor>"

text \<open>The digits after the point of \<open>x.toFixed(16)\<close> once trailing zeros are cut: the least \<open>d\<close> with
  \<open>10^(16 - d)\<close> dividing the units.\<close>

definition fixed_decimals :: "rat \<Rightarrow> nat" where
  "fixed_decimals x = (case find (\<lambda>d. 10 ^ (16 - d) dvd fixed_units 16 x) [0..<16] of Some d \<Rightarrow> d | None \<Rightarrow> 16)"

text \<open>\<^verbatim>\<open>String(x)\<close> for \<open>x \<ge> 10^21\<close> is \<^verbatim>\<open>d.ddde+N\<close>: \<open>k\<close> digits, the fewest that round to \<open>x\<close>, and the exponent
  \<open>N = n - 1\<close>.\<close>

fun digit_count :: "nat \<Rightarrow> nat" where
  "digit_count n = (if n < 10 then 1 else Suc (digit_count (n div 10)))"

fun strip_zeros :: "nat \<Rightarrow> nat" where
  "strip_zeros n = (if n \<noteq> 0 \<and> n mod 10 = 0 then strip_zeros (n div 10) else n)"

definition shortest_form :: "rat \<Rightarrow> nat \<times> nat" where
  "shortest_form x =
     (let d = digit_count (nat \<lfloor>x\<rfloor>);
          fits = (\<lambda>(k, n). list_ex (\<lambda>s. 10 ^ (k - 1) \<le> s \<and> s < 10 ^ k \<and> fl (of_int s * 10 ^ (n - k)) = Fin x)
                    [\<lfloor>x / 10 ^ (n - k)\<rfloor>, \<lceil>x / 10 ^ (n - k)\<rceil>])
      in case find fits (concat (map (\<lambda>k. [(k, d), (k, d + 1)]) [1..<18])) of Some f \<Rightarrow> f | None \<Rightarrow> (17, d))"

text \<open>What \<^verbatim>\<open>text.replace(/0+$/, "")\<close> leaves after the point of such a text: all but the first digit, \<^verbatim>\<open>e+\<close>, and
  the exponent without its trailing zeros; without a point, nothing.\<close>

definition exponential_decimals :: "rat \<Rightarrow> nat" where
  "exponential_decimals x =
     (case shortest_form x of (k, n) \<Rightarrow> if k = 1 then 0 else (k - 1) + 2 + digit_count (strip_zeros (n - 1)))"

definition text_decimals :: "rat \<Rightarrow> nat" where
  "text_decimals x = (if x < 10 ^ 21 then fixed_decimals x else exponential_decimals x)"

section \<open>ccxt-precision.ts\<close>

definition CCXT_DECIMAL_PLACES :: jsnum where "CCXT_DECIMAL_PLACES = Fin 2"
definition CCXT_TICK_SIZE :: jsnum where "CCXT_TICK_SIZE = Fin 4"

definition amountStepFromCcxtPrecision :: "(jsnum \<Rightarrow> jsnum) \<Rightarrow> jsnum option \<Rightarrow> jsnum option \<Rightarrow> jsnum option" where
  "amountStepFromCcxtPrecision pow10 precisionAmount precisionMode =
     (case precisionAmount of
        None \<Rightarrow> None
      | Some a \<Rightarrow>
          if \<not> is_finite a \<or> js_lt a (Fin 0) then None
          else if precisionMode = Some CCXT_TICK_SIZE then (if js_gt a (Fin 0) then Some a else None)
          else if precisionMode = Some CCXT_DECIMAL_PLACES then
            (if \<not> is_integer a then None else Some (pow10 (js_neg a)))
          else None)"

fun amountStepDecimals :: "jsnum \<Rightarrow> nat option" where
  "amountStepDecimals (Fin step) =
     (if step \<le> 0 then None else let decimals = text_decimals step in if 16 < decimals then None else Some decimals)"
| "amountStepDecimals _ = None"

text \<open>\<^verbatim>\<open>Number(x.toFixed(d))\<close>\<close>

fun through_fixed :: "nat \<Rightarrow> jsnum \<Rightarrow> jsnum" where
  "through_fixed d (Fin x) =
     (if \<bar>x\<bar> < 10 ^ 21 then (if x < 0 then js_neg (fl (of_int (fixed_units d (- x)) / 10 ^ d))
                           else fl (of_int (fixed_units d x) / 10 ^ d))
      else Fin x)"
| "through_fixed d a = a"

definition truncateToAmountStep :: "jsnum \<Rightarrow> jsnum \<Rightarrow> jsnum option" where
  "truncateToAmountStep amount step =
     (case amountStepDecimals step of
        None \<Rightarrow> None
      | Some decimals \<Rightarrow>
          if \<not> is_finite amount \<or> js_le amount (Fin 0) then None
          else
            let units = js_floor (js_add (js_div amount step) (fl (1 / 10 ^ 12)))
            in if \<not> is_finite units \<or> js_le units (Fin 0) then None
               else let snapped = through_fixed decimals (js_mul units step)
                    in if is_finite snapped \<and> js_gt snapped (Fin 0) then Some snapped else None)"

end
