(* ===== verification/Capabilities.thy ===== *)
theory Capabilities
  imports Orders
begin

text \<open>
  What the adapters support (\<^verbatim>\<open>packages/trading-engine/src/capabilities.ts\<close>) and the policies of the
  live venues it reads (\<^verbatim>\<open>venues/types.ts\<close>, \<^verbatim>\<open>constants.ts\<close>, \<^verbatim>\<open>experimental.ts\<close>, \<^verbatim>\<open>okx.ts\<close>,
  \<^verbatim>\<open>binance.ts\<close>, \<^verbatim>\<open>index.ts\<close>). Of a venue profile the model has the fields that decide what is
  supported; those that call the exchange library are left out. Texts are strings of UTF-8 bytes.
\<close>

section \<open>Data model\<close>

datatype capability_status = Supported | Unsupported | Capability_unknown

datatype evidence_level = Offline_contract | Experimental | Externally_verified

datatype market_family = Spot_family | Futures_family | Mixed_family | Invalid_family

record capability =
  cap_status :: capability_status
  cap_reason :: string
  cap_level :: evidence_level
  cap_references :: "string list"
  cap_constraints :: "string list"

datatype market_kind = Spot_market | Swap_market

datatype amount_unit = Base_unit | Contract_unit

datatype contract_type = Contract_spot | Contract_perpetual | Contract_delivery | Contract_type_unknown

record market_info =
  mi_symbol :: string
  mi_base :: string
  mi_quote :: string
  mi_settle :: "string option"
  mi_marketType :: market_kind
  mi_contract :: bool
  mi_contractType :: "contract_type option"
  mi_pair :: "string option"
  mi_marginAsset :: "string option"
  mi_status :: "string option"
  mi_onboardDate :: "jsnum option"
  mi_deliveryDate :: "jsnum option"
  mi_orderTypes :: "string list option"
  mi_timeInForce :: "string list option"
  mi_linear :: "bool option"
  mi_inverse :: "bool option"
  mi_active :: "bool option"
  mi_amountUnit :: "amount_unit option"
  mi_contractSize :: "jsnum option"
  mi_pricePrecision :: "jsnum option"
  mi_amountPrecision :: "jsnum option"
  mi_amountStep :: "jsnum option"
  mi_minAmount :: "jsnum option"
  mi_minNotional :: "jsnum option"
  mi_limits_amount_min :: "jsnum option"
  mi_limits_amount_max :: "jsnum option"
  mi_limits_cost_min :: "jsnum option"
  mi_limits_cost_max :: "jsnum option"

record capability_context =
  cc_exchangeId :: string
  cc_mode :: trading_mode
  cc_marketFamily :: market_family
  cc_positionMode :: "position_mode option"
  cc_marketInfo :: "market_info option"
  cc_metadataValid :: "bool option"
  cc_orderType :: "order_type option"

fun order_type_name :: "order_type \<Rightarrow> string" where
  "order_type_name Market = ''market''"
| "order_type_name Limit = ''limit''"
| "order_type_name Stop = ''stop''"
| "order_type_name Stop_market = ''stop_market''"
| "order_type_name Take_profit = ''take_profit''"
| "order_type_name Take_profit_market = ''take_profit_market''"
| "order_type_name Trailing_stop_market = ''trailing_stop_market''"
| "order_type_name Oco_type = ''oco''"
| "order_type_name Unknown_type = ''unknown''"

fun side_name :: "side \<Rightarrow> string" where
  "side_name Buy = ''buy''" | "side_name Sell = ''sell''"

fun family_name :: "market_family \<Rightarrow> string" where
  "family_name Spot_family = ''spot''" | "family_name Futures_family = ''futures''"
| "family_name Mixed_family = ''mixed''" | "family_name Invalid_family = ''invalid''"

section \<open>Order types in market metadata\<close>

definition trim :: "string \<Rightarrow> string" where
  "trim s = rev (dropWhile is_space (rev (dropWhile is_space s)))"

definition to_upper :: "string \<Rightarrow> string" where
  "to_upper = map (\<lambda>c. if is_lower c then char_of (of_char c - 32 :: nat) else c)"

definition to_lower :: "string \<Rightarrow> string" where
  "to_lower = map (\<lambda>c. if is_upper c then char_of (of_char c + 32 :: nat) else c)"

definition replace_all :: "char \<Rightarrow> char \<Rightarrow> string \<Rightarrow> string" where
  "replace_all a b = map (\<lambda>c. if c = a then b else c)"

definition ORDER_TYPE_ALIASES :: "(string \<times> string) list" where
  "ORDER_TYPE_ALIASES =
     [(''STOP_LOSS_LIMIT'', ''stop''), (''STOP_LOSS'', ''stop_market''), (''TAKE_PROFIT_LIMIT'', ''take_profit''),
      (''TAKE_PROFIT'', ''take_profit_market''), (''TRAILING'', ''trailing_stop_market''),
      (''TRAILING_STOP'', ''trailing_stop_market'')]"

definition normalize_order_type :: "market_kind \<Rightarrow> string \<Rightarrow> string" where
  "normalize_order_type kind type =
     (let normalized = to_upper (replace_all (CHR ''-'') (CHR ''_'') (trim type))
      in if kind = Swap_market \<and> normalized = ''TAKE_PROFIT'' then ''take_profit''
         else case map_of ORDER_TYPE_ALIASES normalized of Some t \<Rightarrow> t | None \<Rightarrow> to_lower normalized)"

definition normalizedOrderTypes :: "market_info option \<Rightarrow> string list option" where
  "normalizedOrderTypes info =
     (case info of None \<Rightarrow> None
      | Some i \<Rightarrow> map_option (map (normalize_order_type (mi_marketType i))) (mi_orderTypes i))"

definition canonical_type_name :: "string \<Rightarrow> string" where
  "canonical_type_name name =
     (let normalized = replace_all (CHR ''-'') (CHR ''_'') (to_lower (trim name))
      in if normalized = ''trailing'' \<or> normalized = ''trailing_stop'' then ''trailing_stop_market'' else normalized)"

definition orderTypeFromMarketInfo :: "market_info option \<Rightarrow> string list \<Rightarrow> capability_status option" where
  "orderTypeFromMarketInfo info names =
     (case normalizedOrderTypes info of
        None \<Rightarrow> None
      | Some types \<Rightarrow> Some (if list_ex (\<lambda>n. canonical_type_name n \<in> set types) names then Supported else Unsupported))"

section \<open>Live venues\<close>

datatype password_policy = Password_required | Password_optional | Password_unused

datatype history_mode = Closed_and_canceled | Fetch_orders_by_symbol

datatype client_id_param = ClientOrderId | NewClientOrderId

record venue_capability =
  vc_id :: string
  vc_label :: string
  vc_marketFamily :: market_family
  vc_orderTypes :: "order_type list"
  vc_ocoSides :: "side list"
  vc_limitations :: "string list"
  vc_references :: "string list"

record wire_mapping =
  wm_omitExchangeQuantity :: bool
  wm_omitReduceOnly :: bool
  wm_constraints :: "string list"

record wire_context =
  wc_marketFamily :: market_family
  wc_positionMode :: "position_mode option"
  wc_type :: order_type
  wc_reduceOnly :: "bool option"
  wc_closePosition :: "bool option"

record live_venue =
  lv_id :: string
  lv_password :: password_policy
  lv_liveCapabilities :: "venue_capability list"
  lv_orderHistoryMode :: history_mode
  lv_orderHistoryRequiresSymbol :: bool
  lv_skipGenericSpotAmountCostLimits :: bool
  lv_clientOrderIdParam :: "market_type \<Rightarrow> client_id_param"
  lv_supportsNativeOrderList :: "market_type \<Rightarrow> bool"
  lv_wireMapping :: "wire_context \<Rightarrow> wire_mapping"
  lv_futuresNativeIdAmbiguous :: "order_type option \<Rightarrow> bool"
  lv_clientIdLookupNotes :: "market_family \<Rightarrow> string list"
  lv_closePositionQuantityConstraint :: "market_family \<Rightarrow> order_type \<Rightarrow> string"
  lv_hedgeReductionConstraint :: "position_mode option \<Rightarrow> string option"
  lv_trailingSpotConstraints :: "string list"
  lv_orderTypeMetadataNames :: "market_family \<Rightarrow> order_type \<Rightarrow> string list"
  lv_unsupportedOcoSideReason :: "side \<Rightarrow> string option"
  lv_quantityClosePositionNote :: string

definition LIVE_ADAPTER_LIMITATIONS :: "string list" where
  "LIVE_ADAPTER_LIMITATIONS =
     [''Offline adapter contracts are not live/testnet certification; no externally verified evidence is recorded'',
      ''Exchange permissions, market filters and availability must still be checked at submission'']"

definition CLOSE_USES_POSITION_SNAPSHOT :: string where
  "CLOSE_USES_POSITION_SNAPSHOT = ''Close uses the matching position snapshot as an explicit base quantity''"

definition defaultWireMapping :: wire_mapping where
  "defaultWireMapping = \<lparr>wm_omitExchangeQuantity = False, wm_omitReduceOnly = False, wm_constraints = []\<rparr>"

definition experimentalLiveVenue :: "string \<Rightarrow> password_policy option \<Rightarrow> live_venue" where
  "experimentalLiveVenue k password =
     \<lparr>lv_id = k, lv_password = opt_default Password_optional password, lv_liveCapabilities = [],
      lv_orderHistoryMode = Closed_and_canceled, lv_orderHistoryRequiresSymbol = False,
      lv_skipGenericSpotAmountCostLimits = False,
      lv_clientOrderIdParam = (\<lambda>_. ClientOrderId), lv_supportsNativeOrderList = (\<lambda>_. False),
      lv_wireMapping = (\<lambda>_. defaultWireMapping), lv_futuresNativeIdAmbiguous = (\<lambda>_. False),
      lv_clientIdLookupNotes = (\<lambda>_. []), lv_closePositionQuantityConstraint = (\<lambda>_ _. CLOSE_USES_POSITION_SNAPSHOT),
      lv_hedgeReductionConstraint = (\<lambda>_. None), lv_trailingSpotConstraints = [],
      lv_orderTypeMetadataNames = (\<lambda>_ t. [order_type_name t]), lv_unsupportedOcoSideReason = (\<lambda>_. None),
      lv_quantityClosePositionNote = ''matching_position_snapshot; native trigger closes may omit wire quantity''\<rparr>"

definition OKX_LIVE_VENUE :: live_venue where
  "OKX_LIVE_VENUE = experimentalLiveVenue ''okx'' (Some Password_required)"

definition BINANCE_HEDGE_REDUCTION :: string where
  "BINANCE_HEDGE_REDUCTION =
     ''Binance hedge mode omits reduceOnly; the opposing side plus positionSide enforces the reducing direction''"

definition BINANCE_CLOSE_ALL :: string where
  "BINANCE_CLOSE_ALL = ''Binance close-all triggers use closePosition and omit wire-level reduceOnly and exchange quantity''"

definition BINANCE_OCO_BUY_UNSUPPORTED :: string where
  "BINANCE_OCO_BUY_UNSUPPORTED = ''Binance Spot native OCO buy brackets are not supported safely''"

definition BINANCE_QUANTITY_CLOSE_NOTE :: string where
  "BINANCE_QUANTITY_CLOSE_NOTE = ''matching_position_snapshot; native Binance trigger closes may omit wire quantity''"

definition binanceWireMapping :: "wire_context \<Rightarrow> wire_mapping" where
  "binanceWireMapping input =
     (let futures = (wc_marketFamily input = Futures_family);
          omitExchangeQuantity = (futures \<and> wc_closePosition input = Some True \<and>
            (wc_type input = Stop_market \<or> wc_type input = Take_profit_market));
          hedgeReduction = (futures \<and> wc_positionMode input = Some Hedge \<and>
            (wc_reduceOnly input = Some True \<or> wc_closePosition input = Some True))
      in \<lparr>wm_omitExchangeQuantity = omitExchangeQuantity, wm_omitReduceOnly = (omitExchangeQuantity \<or> hedgeReduction),
          wm_constraints = (if hedgeReduction then [BINANCE_HEDGE_REDUCTION] else []) @
            (if omitExchangeQuantity then [BINANCE_CLOSE_ALL] else [])\<rparr>)"

definition binance_capabilities :: "venue_capability list" where
  "binance_capabilities =
     [\<lparr>vc_id = ''binance-spot'', vc_label = ''Binance Spot'', vc_marketFamily = Spot_family, vc_orderTypes = ORDER_TYPES,
       vc_ocoSides = [Sell], vc_limitations = LIVE_ADAPTER_LIMITATIONS,
       vc_references = [''src/capabilities.test.ts'', ''src/ccxt-client.test.ts'', ''src/ccxt-binance-spot.ts'']\<rparr>,
      \<lparr>vc_id = ''binance-usdm'',
       vc_label = ''Binance USD'' @ [CHR 0xE2, CHR 0x93, CHR 0x88] @ ''-M futures'', vc_marketFamily = Futures_family,
       vc_orderTypes = ORDER_TYPES, vc_ocoSides = [], vc_limitations = LIVE_ADAPTER_LIMITATIONS,
       vc_references = [''src/capabilities.test.ts'', ''src/ccxt-client.test.ts'', ''src/contract-size.test.ts'']\<rparr>]"

definition BINANCE_LIVE_VENUE :: live_venue where
  "BINANCE_LIVE_VENUE =
     \<lparr>lv_id = ''binance'', lv_password = Password_unused, lv_liveCapabilities = binance_capabilities,
      lv_orderHistoryMode = Fetch_orders_by_symbol, lv_orderHistoryRequiresSymbol = True,
      lv_skipGenericSpotAmountCostLimits = True,
      lv_clientOrderIdParam = (\<lambda>m. if m = Spot then NewClientOrderId else ClientOrderId),
      lv_supportsNativeOrderList = (\<lambda>m. m = Spot),
      lv_wireMapping = binanceWireMapping,
      lv_futuresNativeIdAmbiguous = (\<lambda>t. t \<noteq> Some Market \<and> t \<noteq> Some Limit),
      lv_clientIdLookupNotes = (\<lambda>f. if f = Futures_family then
          [''Ordinary orders use origClientOrderId; conditional/trailing Algo orders use clientAlgoId'',
           ''Offline Algo lookup contracts cover correlated parent orders, not terminal child fills; missing fill evidence must remain unresolved'']
        else []),
      lv_closePositionQuantityConstraint = (\<lambda>f t. if f = Futures_family \<and> t \<noteq> Market then BINANCE_CLOSE_ALL
        else CLOSE_USES_POSITION_SNAPSHOT),
      lv_hedgeReductionConstraint = (\<lambda>m. if m = Some Hedge then Some BINANCE_HEDGE_REDUCTION else None),
      lv_trailingSpotConstraints =
        [''Binance trailingPercent must convert to integer BIPS within the market TRAILING_DELTA filter''],
      lv_orderTypeMetadataNames = (\<lambda>f t. if f = Spot_family \<and> t = Trailing_stop_market
        then [''trailing_stop_market'', ''take_profit_market''] else [order_type_name t]),
      lv_unsupportedOcoSideReason = (\<lambda>s. if s = Buy then Some BINANCE_OCO_BUY_UNSUPPORTED else None),
      lv_quantityClosePositionNote = BINANCE_QUANTITY_CLOSE_NOTE\<rparr>"

definition KNOWN_LIVE_VENUES :: "(string \<times> live_venue) list" where
  "KNOWN_LIVE_VENUES =
     [(''binance'', BINANCE_LIVE_VENUE), (''okx'', OKX_LIVE_VENUE), (''bybit'', experimentalLiveVenue ''bybit'' None)]"

definition resolveLiveVenue :: "string \<Rightarrow> live_venue" where
  "resolveLiveVenue k = (case map_of KNOWN_LIVE_VENUES k of Some v \<Rightarrow> v | None \<Rightarrow> experimentalLiveVenue k None)"

datatype credential_error = Missing_key_or_secret | Passphrase_required

record exchange_credentials =
  cred_apiKey :: string
  cred_secret :: string
  cred_password :: "string option"

definition missingApiKeyOrSecret :: "exchange_credentials \<Rightarrow> bool" where
  "missingApiKeyOrSecret c \<longleftrightarrow> trim (cred_apiKey c) = [] \<or> trim (cred_secret c) = []"

definition validateLiveVenueCredentials :: "string \<Rightarrow> exchange_credentials \<Rightarrow> credential_error + unit" where
  "validateLiveVenueCredentials exchangeId c =
     ebind (assert_js (\<not> missingApiKeyOrSecret c) Missing_key_or_secret) (\<lambda>_.
     assert_js (\<not> (lv_password (resolveLiveVenue exchangeId) = Password_required \<and>
       (case cred_password c of None \<Rightarrow> True | Some w \<Rightarrow> trim w = []))) Passphrase_required)"


section \<open>The capability matrix\<close>

record capability_profile = venue_capability +
  cp_mode :: trading_mode
  cp_exchangeId :: string

definition PAPER_LIMITATIONS :: "string list" where
  "PAPER_LIMITATIONS =
     [''Paper fills do not model partial fills, order-book slippage or live execution quality'',
      ''Paper futures do not simulate funding payments or exchange-specific liquidation rules'']"

definition PAPER_CAPABILITY_MATRIX :: "capability_profile list" where
  "PAPER_CAPABILITY_MATRIX =
     [\<lparr>vc_id = ''paper-spot'', vc_label = ''Paper spot'', vc_marketFamily = Spot_family, vc_orderTypes = ORDER_TYPES,
       vc_ocoSides = [Buy, Sell], vc_limitations = PAPER_LIMITATIONS,
       vc_references = [''src/capabilities.test.ts'', ''src/paper-client.test.ts''], cp_mode = Paper, cp_exchangeId = ''*''\<rparr>,
      \<lparr>vc_id = ''paper-futures'', vc_label = ''Paper futures'', vc_marketFamily = Futures_family, vc_orderTypes = ORDER_TYPES,
       vc_ocoSides = [], vc_limitations = PAPER_LIMITATIONS,
       vc_references = [''src/capabilities.test.ts'', ''src/paper-client.test.ts''], cp_mode = Paper, cp_exchangeId = ''*''\<rparr>]"

definition liveCapabilityMatrixRows :: "capability_profile list" where
  "liveCapabilityMatrixRows =
     concat (map (\<lambda>(_, venue). map (\<lambda>row. venue_capability.extend row
                    (capability_profile.fields Live (lv_id venue))) (lv_liveCapabilities venue)) KNOWN_LIVE_VENUES)"

definition TRADING_CAPABILITY_MATRIX :: "capability_profile list" where
  "TRADING_CAPABILITY_MATRIX = PAPER_CAPABILITY_MATRIX @ liveCapabilityMatrixRows"

definition capability_of :: "capability_status \<Rightarrow> string \<Rightarrow> capability" where
  "capability_of status reason =
     \<lparr>cap_status = status, cap_reason = reason, cap_level = Experimental, cap_references = [], cap_constraints = []\<rparr>"

definition unavailableMarketCapability :: "market_family \<Rightarrow> bool \<Rightarrow> market_info option \<Rightarrow> capability option" where
  "unavailableMarketCapability family metadataValid info =
     (if family = Invalid_family then
        Some (capability_of Unsupported ''The symbol is not enabled by the configured market type or quote currency'')
      else if Option.bind info mi_active = Some False then
        Some (capability_of Unsupported (''Market '' @ (case info of None \<Rightarrow> [] | Some i \<Rightarrow> mi_symbol i) @ '' is inactive''))
      else if \<not> metadataValid then
        Some (capability_of Capability_unknown ''Market metadata is unavailable or does not match the requested symbol'')
      else None)"

text \<open>What the closures of \<^verbatim>\<open>getTradingCapabilities\<close> share: the context, the venue, the profile row and the
  capabilities computed first.\<close>

record capability_scope =
  cs_context :: capability_context
  cs_venue :: "live_venue option"
  cs_profile :: "capability_profile option"

definition scope_of :: "capability_context \<Rightarrow> capability_scope" where
  "scope_of ctx =
     \<lparr>cs_context = ctx,
      cs_venue = (if cc_mode ctx = Live then Some (resolveLiveVenue (cc_exchangeId ctx)) else None),
      cs_profile = find (\<lambda>row. cp_mode row = cc_mode ctx \<and> vc_marketFamily row = cc_marketFamily ctx \<and>
         (cp_exchangeId row = ''*'' \<or> cp_exchangeId row = cc_exchangeId ctx)) TRADING_CAPABILITY_MATRIX\<rparr>"

abbreviation cs_family :: "capability_scope \<Rightarrow> market_family" where
  "cs_family sc \<equiv> cc_marketFamily (cs_context sc)"

definition cs_constraints :: "capability_scope \<Rightarrow> string list" where
  "cs_constraints sc =
     (case cs_profile sc of Some p \<Rightarrow> vc_limitations p
      | None \<Rightarrow> if cc_mode (cs_context sc) = Paper then PAPER_LIMITATIONS else LIVE_ADAPTER_LIMITATIONS)"

definition cap_contract :: "capability_scope \<Rightarrow> capability_status \<Rightarrow> string \<Rightarrow> string list \<Rightarrow> capability" where
  "cap_contract sc status reason extra =
     \<lparr>cap_status = status, cap_reason = reason,
      cap_level = (if cs_profile sc \<noteq> None then Offline_contract else Experimental),
      cap_references = (case cs_profile sc of None \<Rightarrow> [] | Some p \<Rightarrow> vc_references p),
      cap_constraints = cs_constraints sc @ extra\<rparr>"

definition cap_unavailable :: "capability_scope \<Rightarrow> capability option" where
  "cap_unavailable sc =
     unavailableMarketCapability (cs_family sc) (cc_metadataValid (cs_context sc) \<noteq> Some False) (cc_marketInfo (cs_context sc))"

definition unresolvedFamily :: "capability_scope \<Rightarrow> capability option" where
  "unresolvedFamily sc =
     (if cs_family sc = Mixed_family
      then Some (cap_contract sc Capability_unknown ''Specify a symbol to distinguish spot and futures support'' []) else None)"

definition cap_experimental :: "capability_scope \<Rightarrow> capability" where
  "cap_experimental sc =
     cap_contract sc Capability_unknown
       (''Live '' @ cc_exchangeId (cs_context sc) @ '' '' @ family_name (cs_family sc) @
        '' remains experimental; market metadata alone does not prove adapter support'') []"

definition or_else :: "'a option \<Rightarrow> 'a option \<Rightarrow> 'a option" where
  "or_else a b = (case a of None \<Rightarrow> b | Some x \<Rightarrow> Some x)"

definition submission_capability :: "capability_scope \<Rightarrow> order_type \<Rightarrow> capability" where
  "submission_capability sc t =
     (let family = cs_family sc; unavailable = cap_unavailable sc
      in if family = Invalid_family then opt_default (cap_experimental sc) unavailable
         else if (case cs_profile sc of None \<Rightarrow> False | Some p \<Rightarrow> t \<notin> set (vc_orderTypes p))
         then cap_contract sc Unsupported
                ((case cs_profile sc of None \<Rightarrow> [] | Some p \<Rightarrow> vc_label p) @ '' does not support '' @ order_type_name t @ '' orders'') []
         else case or_else unavailable (unresolvedFamily sc) of
           Some c \<Rightarrow> c
         | None \<Rightarrow>
             let metadataTypes = (case cs_venue sc of None \<Rightarrow> [order_type_name t] | Some v \<Rightarrow> lv_orderTypeMetadataNames v family t)
             in if orderTypeFromMarketInfo (cc_marketInfo (cs_context sc)) metadataTypes = Some Unsupported
                then cap_contract sc Unsupported
                       (''The exchange market metadata does not support '' @ order_type_name t @ '' orders'') []
                else case cs_profile sc of
                    None \<Rightarrow> cap_experimental sc
                  | Some p \<Rightarrow> cap_contract sc Supported
                      (vc_label p @ '' '' @ order_type_name t @ '' submission has offline adapter contract coverage'')
                      ((if t = Trailing_stop_market \<and> cc_mode (cs_context sc) = Paper
                        then [''Paper trailing stops accept trailingPercent only, not activation stopPrice''] else []) @
                       (if t = Trailing_stop_market \<and> family = Spot_family
                        then (case cs_venue sc of None \<Rightarrow> [] | Some v \<Rightarrow> lv_trailingSpotConstraints v) else [])))"

definition oco_capability :: "capability_scope \<Rightarrow> side \<Rightarrow> capability" where
  "oco_capability sc s =
     (let family = cs_family sc; unavailable = cap_unavailable sc
      in if family = Invalid_family then opt_default (cap_experimental sc) unavailable
         else if family = Futures_family then cap_contract sc Unsupported ''OCO orders are supported only for spot markets'' []
         else if (case cs_profile sc of None \<Rightarrow> False | Some p \<Rightarrow> s \<notin> set (vc_ocoSides p))
         then cap_contract sc Unsupported
                (opt_default (''OCO '' @ side_name s @ '' orders are not supported'')
                   (case cs_venue sc of None \<Rightarrow> None | Some v \<Rightarrow> lv_unsupportedOcoSideReason v s)) []
         else case or_else unavailable (unresolvedFamily sc) of
           Some c \<Rightarrow> c
         | None \<Rightarrow>
             if cs_profile sc = None \<and> orderTypeFromMarketInfo (cc_marketInfo (cs_context sc)) [''oco''] = Some Unsupported
             then cap_contract sc Unsupported ''The exchange market metadata does not support OCO orders'' []
             else case cs_profile sc of
                 None \<Rightarrow> cap_experimental sc
               | Some p \<Rightarrow> cap_contract sc Supported (vc_label p @ '' '' @ side_name s @ '' OCO has offline contract coverage'') [])"

definition readContract :: "capability_scope \<Rightarrow> bool \<Rightarrow> string \<Rightarrow> capability" where
  "readContract sc list operation =
     (let family = cs_family sc
      in if family = Invalid_family then opt_default (cap_experimental sc) (cap_unavailable sc)
         else case unresolvedFamily sc of
           Some c \<Rightarrow> c
         | None \<Rightarrow>
             if list \<and> family = Futures_family
             then cap_contract sc Unsupported (''Futures order-list '' @ operation @ '' is not implemented'') []
             else if list \<and> (case cs_venue sc of None \<Rightarrow> False | Some v \<Rightarrow> \<not> lv_supportsNativeOrderList v Spot)
             then cap_contract sc Unsupported
                    (''Live '' @ cc_exchangeId (cs_context sc) @ '' order-list '' @ operation @ '' is not implemented'') []
             else case cs_profile sc of
                 None \<Rightarrow> cap_experimental sc
               | Some p \<Rightarrow> cap_contract sc Supported
                   (vc_label p @ '' '' @ operation @ '' has offline correlated adapter contract coverage'')
                   [''Only the persisted native/client ID and original symbol/account scope establish identity'',
                    ''Not-found, missing, conflicting or incomplete evidence never proves a submission was rejected''])"

definition positionControls :: "capability_scope \<Rightarrow> capability" where
  "positionControls sc =
     (if cs_family sc = Spot_family
      then cap_contract sc Unsupported ''reduceOnly, positionSide and closePosition are futures-only parameters'' []
      else opt_default
        (case cs_profile sc of
           None \<Rightarrow> cap_experimental sc
         | Some p \<Rightarrow> cap_contract sc Supported (vc_label p @ '' validates matching position reductions'') [])
        (or_else (cap_unavailable sc) (unresolvedFamily sc)))"

definition close_position_capability :: "capability_scope \<Rightarrow> order_type \<Rightarrow> capability" where
  "close_position_capability sc t =
     (if t \<noteq> Market \<and> t \<noteq> Stop_market \<and> t \<noteq> Take_profit_market
      then cap_contract sc Unsupported ''closePosition is supported only for market, stop_market or take_profit_market orders'' []
      else
        let order = submission_capability sc t; controls = positionControls sc;
            result = (if cap_status controls = Unsupported \<or> cap_status order = Supported then controls else order)
        in result\<lparr>cap_constraints := cap_constraints result @
             [''closePosition omits user amount/quoteAmount and requires a matching open position'',
              (case cs_venue sc of None \<Rightarrow> ''Close uses the matching position snapshot as an explicit base quantity''
               | Some v \<Rightarrow> lv_closePositionQuantityConstraint v (cs_family sc) t)]\<rparr>)"

definition nativeIdCapability :: "capability_scope \<Rightarrow> string \<Rightarrow> capability" where
  "nativeIdCapability sc operation =
     (if cs_family sc = Futures_family \<and>
         (case cs_venue sc of None \<Rightarrow> False | Some v \<Rightarrow> lv_futuresNativeIdAmbiguous v (cc_orderType (cs_context sc)))
      then \<lparr>cap_status = Capability_unknown,
            cap_reason = cc_exchangeId (cs_context sc) @ '' futures '' @ operation @
              '' by native ID cannot distinguish overlapping ordinary/Algo ID spaces without order-type routing'',
            cap_level = Experimental, cap_references = [''src/ccxt-client.ts''],
            cap_constraints = [''Use correlated client-ID lookup for recovery; conditional native-ID cancellation is not proven'']\<rparr>
      else readContract sc False operation)"

definition add_constraints :: "string list \<Rightarrow> capability \<Rightarrow> capability" where
  "add_constraints notes c = c\<lparr>cap_constraints := cap_constraints c @ notes\<rparr>"

datatype exchange_unit = Unit_contracts | Unit_base | Unit_unknown

record trading_capabilities =
  tc_profile :: string
  tc_orderTypes :: "order_type \<Rightarrow> capability"
  tc_oco :: "side \<Rightarrow> capability"
  tc_queryOrderById :: capability
  tc_queryOrderByClientId :: capability
  tc_queryOrderListById :: capability
  tc_queryOrderListByClientId :: capability
  tc_cancelOrder :: capability
  tc_cancelOrderList :: capability
  tc_positionModes :: "position_mode \<Rightarrow> capability"
  tc_reduceOnly :: capability
  tc_closePosition :: "order_type \<Rightarrow> capability"
  tc_exchangeUnit :: exchange_unit
  tc_closePositionNote :: string
  tc_fundingRates :: capability
  tc_limitations :: "string list"

fun position_mode_note :: "position_mode \<Rightarrow> string" where
  "position_mode_note One_way = ''positionSide must be BOTH or omitted''"
| "position_mode_note Hedge = ''positionSide LONG or SHORT is required; reductions use the opposing order side''"

definition funding_capability :: "capability_scope \<Rightarrow> capability" where
  "funding_capability sc =
     (if cs_family sc = Spot_family then cap_contract sc Unsupported ''Funding rates are unavailable for spot markets'' []
      else opt_default
        (if cc_mode (cs_context sc) = Paper
         then cap_contract sc Capability_unknown ''Paper futures do not simulate funding; no market rate is observed'' []
         else cap_contract sc Capability_unknown ''Live funding availability requires an exchange observation'' [])
        (or_else (cap_unavailable sc) (unresolvedFamily sc)))"

definition getTradingCapabilities :: "capability_context \<Rightarrow> trading_capabilities" where
  "getTradingCapabilities ctx =
     (let sc = scope_of ctx; controls = positionControls sc
      in \<lparr>tc_profile = (case cs_profile sc of None \<Rightarrow> ''experimental'' | Some p \<Rightarrow> vc_id p),
          tc_orderTypes = submission_capability sc,
          tc_oco = oco_capability sc,
          tc_queryOrderById = nativeIdCapability sc ''native order-ID lookup'',
          tc_queryOrderByClientId = add_constraints
            (case cs_venue sc of None \<Rightarrow> [] | Some v \<Rightarrow> lv_clientIdLookupNotes v (cs_family sc))
            (readContract sc False ''client order-ID lookup''),
          tc_queryOrderListById = readContract sc True ''native list-ID lookup'',
          tc_queryOrderListByClientId = readContract sc True ''client list-ID lookup'',
          tc_cancelOrder = (nativeIdCapability sc ''cancellation'')\<lparr>cap_constraints := cs_constraints sc @
            [''Cancellation applies only to an open order; an already filled order cannot be recalled'']\<rparr>,
          tc_cancelOrderList = readContract sc True ''cancellation'',
          tc_positionModes = (\<lambda>m. add_constraints [position_mode_note m] controls),
          tc_reduceOnly = add_constraints ([''Reduction amount cannot exceed the matching open position''] @
            (case Option.bind (cs_venue sc) (\<lambda>v. lv_hedgeReductionConstraint v (cc_positionMode ctx)) of
               None \<Rightarrow> [] | Some note \<Rightarrow> [note])) controls,
          tc_closePosition = close_position_capability sc,
          tc_exchangeUnit = (case cs_family sc of Futures_family \<Rightarrow> Unit_contracts | Spot_family \<Rightarrow> Unit_base | _ \<Rightarrow> Unit_unknown),
          tc_closePositionNote = (case cs_venue sc of
              None \<Rightarrow> ''matching_position_snapshot; native trigger closes may omit wire quantity''
            | Some v \<Rightarrow> lv_quantityClosePositionNote v),
          tc_fundingRates = funding_capability sc,
          tc_limitations = cs_constraints sc\<rparr>)"

definition supportsCorrelatedLookup :: "capability \<Rightarrow> bool" where
  "supportsCorrelatedLookup c \<longleftrightarrow> cap_status c = Supported \<and> cap_level c \<noteq> Experimental \<and> cap_references c \<noteq> []"

record capability_input =
  ci_type :: order_type
  ci_side :: side
  ci_reduceOnly :: "bool option"
  ci_closePosition :: "bool option"
  ci_positionSide :: "position_side option"

definition venueWireContextFromOrder :: "market_family \<Rightarrow> position_mode option \<Rightarrow> capability_input \<Rightarrow> wire_context" where
  "venueWireContextFromOrder family mode input =
     \<lparr>wc_marketFamily = family, wc_positionMode = mode, wc_type = ci_type input,
      wc_reduceOnly = ci_reduceOnly input, wc_closePosition = ci_closePosition input\<rparr>"

record order_capability =
  oc_capability :: capability
  oc_omitExchangeQuantity :: bool
  oc_omitReduceOnly :: bool
  oc_constraints :: "string list"

fun position_side_name :: "position_side \<Rightarrow> string" where
  "position_side_name PS_both = ''BOTH''" | "position_side_name PS_long = ''LONG''" | "position_side_name PS_short = ''SHORT''"

text \<open>The rules that make an order unsupported, in the order in which they overwrite the reason.\<close>

definition order_objections :: "capability_context \<Rightarrow> capability_input \<Rightarrow> trading_capabilities \<Rightarrow> string list" where
  "order_objections ctx input matrix =
     (let futures = (cc_marketFamily ctx = Futures_family);
          close = (ci_closePosition input = Some True); reduce = (ci_reduceOnly input = Some True)
      in (if \<not> futures \<and> (ci_reduceOnly input \<noteq> None \<or> ci_closePosition input \<noteq> None \<or> ci_positionSide input \<noteq> None)
          then [''reduceOnly, positionSide and closePosition are futures-only parameters''] else []) @
         (if close \<and> cap_status (tc_closePosition matrix (ci_type input)) = Unsupported
          then [cap_reason (tc_closePosition matrix (ci_type input))] else []) @
         (if close \<and> ci_reduceOnly input = Some False then [''closePosition is always reduceOnly''] else []) @
         (if futures \<and> cc_positionMode ctx = Some Hedge then
            (if ci_positionSide input = None \<or> ci_positionSide input = Some PS_both
             then [''Hedge mode futures orders require positionSide LONG or SHORT''] else []) @
            (if (reduce \<or> close) \<and>
                ((ci_positionSide input = Some PS_long \<and> ci_side input \<noteq> Sell) \<or>
                 (ci_positionSide input = Some PS_short \<and> ci_side input \<noteq> Buy))
             then [''Hedge mode '' @ (if reduce then ''reduceOnly'' else ''closePosition'') @
                   '' orders must use the opposing side for positionSide '' @
                   (case ci_positionSide input of None \<Rightarrow> [] | Some s \<Rightarrow> position_side_name s)] else [])
          else []) @
         (if futures \<and> cc_positionMode ctx = Some One_way \<and> ci_positionSide input \<noteq> None \<and> ci_positionSide input \<noteq> Some PS_both
          then [''One-way mode futures orders must use positionSide BOTH or omit it''] else []))"

definition evaluateOrderCapability :: "capability_context \<Rightarrow> capability_input \<Rightarrow> order_capability" where
  "evaluateOrderCapability ctx input =
     (let matrix = getTradingCapabilities ctx;
          objections = order_objections ctx input matrix;
          base = tc_orderTypes matrix (ci_type input);
          mapping = (if cc_mode ctx = Live
            then lv_wireMapping (resolveLiveVenue (cc_exchangeId ctx))
              (venueWireContextFromOrder (cc_marketFamily ctx) (cc_positionMode ctx) input)
            else defaultWireMapping)
      in \<lparr>oc_capability = (if objections = [] then base
            else base\<lparr>cap_status := Unsupported, cap_reason := last objections\<rparr>),
          oc_omitExchangeQuantity = wm_omitExchangeQuantity mapping, oc_omitReduceOnly = wm_omitReduceOnly mapping,
          oc_constraints = wm_constraints mapping\<rparr>)"


section \<open>Support rests on evidence\<close>

definition matrix_capabilities :: "trading_capabilities \<Rightarrow> capability list" where
  "matrix_capabilities m =
     map (tc_orderTypes m) ORDER_TYPES @ map (tc_oco m) [Buy, Sell] @
     [tc_queryOrderById m, tc_queryOrderByClientId m, tc_queryOrderListById m, tc_queryOrderListByClientId m,
      tc_cancelOrder m, tc_cancelOrderList m, tc_reduceOnly m, tc_fundingRates m] @
     map (tc_positionModes m) [One_way, Hedge] @ map (tc_closePosition m) ORDER_TYPES"

text \<open>A capability is backed when it claims no external verification, and claims support only with offline contract
  evidence and references.\<close>

definition backed :: "capability_scope \<Rightarrow> capability \<Rightarrow> bool" where
  "backed sc c \<longleftrightarrow> cap_level c \<noteq> Externally_verified \<and>
     (cap_status c = Supported \<longrightarrow>
        cap_level c = Offline_contract \<and>
        (case cs_profile sc of None \<Rightarrow> False | Some p \<Rightarrow> cap_references c = vc_references p))"

lemma profile_row:
  assumes "cs_profile (scope_of ctx) = Some p"
  shows "vc_references p \<noteq> [] \<and> (cc_mode ctx = Paper \<or> cc_exchangeId ctx = ''binance'') \<and>
    (cc_marketFamily ctx = Spot_family \<or> cc_marketFamily ctx = Futures_family)"
  using assms
  by (auto simp: scope_of_def TRADING_CAPABILITY_MATRIX_def PAPER_CAPABILITY_MATRIX_def liveCapabilityMatrixRows_def
      KNOWN_LIVE_VENUES_def BINANCE_LIVE_VENUE_def OKX_LIVE_VENUE_def experimentalLiveVenue_def binance_capabilities_def
      venue_capability.defs capability_profile.defs split: if_splits)

lemma backed_contract [simp]:
  "backed sc (cap_contract sc status reason extra) \<longleftrightarrow> status \<noteq> Supported \<or> cs_profile sc \<noteq> None"
  by (auto simp: backed_def cap_contract_def split: option.split)

lemma backed_experimental [simp]: "backed sc (cap_experimental sc)"
  by (simp add: cap_experimental_def)

lemma backed_unavailable [simp]: "cap_unavailable sc = Some c \<Longrightarrow> backed sc c"
  by (auto simp: cap_unavailable_def unavailableMarketCapability_def capability_of_def backed_def split: if_splits)

lemma backed_unresolved [simp]: "unresolvedFamily sc = Some c \<Longrightarrow> backed sc c"
  by (auto simp: unresolvedFamily_def split: if_splits)

lemma backed_or_else [simp]: "or_else (cap_unavailable sc) (unresolvedFamily sc) = Some c \<Longrightarrow> backed sc c"
  by (auto simp: or_else_def split: option.splits)

lemmas backed_unfold = opt_default_def Let_def

lemma backed_submission: "backed sc (submission_capability sc t)"
  by (auto simp: submission_capability_def backed_unfold split: option.split)

lemma backed_oco: "backed sc (oco_capability sc s)"
  by (auto simp: oco_capability_def backed_unfold split: option.split)

lemma backed_read: "backed sc (readContract sc l op)"
  by (auto simp: readContract_def backed_unfold split: option.split)

lemma backed_controls: "backed sc (positionControls sc)"
  by (auto simp: positionControls_def backed_unfold split: option.split)

lemma backed_funding: "backed sc (funding_capability sc)"
  by (auto simp: funding_capability_def backed_unfold split: option.split)

lemma backed_constraints [simp]: "backed sc (c\<lparr>cap_constraints := cs\<rparr>) = backed sc c"
  by (simp add: backed_def split: option.split)

lemma backed_native: "backed sc (nativeIdCapability sc op)"
  by (auto simp: nativeIdCapability_def backed_read) (simp add: backed_def)

lemma backed_close: "backed sc (close_position_capability sc t)"
  by (auto simp: close_position_capability_def Let_def backed_submission backed_controls)

lemma matrix_backed: "list_all (backed (scope_of ctx)) (matrix_capabilities (getTradingCapabilities ctx))"
  by (auto simp: matrix_capabilities_def getTradingCapabilities_def Let_def add_constraints_def list_all_iff
      backed_submission backed_oco backed_read backed_controls backed_funding backed_native backed_close)

text \<open>No entry of the capability matrix claims external verification, and an entry that
  says supported (an order type, an OCO side, a lookup, a cancellation, a position control) does so on an offline
  contract with at least one reference, for a spot or futures market, and only on paper or on Binance: the market
  metadata of any other exchange never makes an operation supported.\<close>

theorem support_rests_on_evidence:
  "c \<in> set (matrix_capabilities (getTradingCapabilities ctx)) \<Longrightarrow>
     cap_level c \<noteq> Externally_verified \<and>
     (cap_status c = Supported \<longrightarrow>
        cap_level c = Offline_contract \<and> cap_references c \<noteq> [] \<and>
        (cc_mode ctx = Paper \<or> cc_exchangeId ctx = ''binance'') \<and>
        (cc_marketFamily ctx = Spot_family \<or> cc_marketFamily ctx = Futures_family))"
  using matrix_backed[of ctx] profile_row[of ctx] by (auto simp: list_all_iff backed_def split: option.splits)

definition demo_capability_context :: capability_context where
  "demo_capability_context =
     \<lparr>cc_exchangeId = ''binance'', cc_mode = Live, cc_marketFamily = Futures_family, cc_positionMode = Some Hedge,
      cc_marketInfo = None, cc_metadataValid = None, cc_orderType = None\<rparr>"

lemma demo_scope_profile: "cs_profile (scope_of demo_capability_context) = Some (venue_capability.extend (binance_capabilities ! 1)
     (capability_profile.fields Live ''binance''))"
  by (simp add: scope_of_def demo_capability_context_def TRADING_CAPABILITY_MATRIX_def PAPER_CAPABILITY_MATRIX_def
      liveCapabilityMatrixRows_def KNOWN_LIVE_VENUES_def BINANCE_LIVE_VENUE_def OKX_LIVE_VENUE_def
      experimentalLiveVenue_def binance_capabilities_def venue_capability.defs capability_profile.defs)

lemma demo_context_simps:
  "cc_marketFamily demo_capability_context = Futures_family" "cc_mode demo_capability_context = Live"
  "cc_marketInfo demo_capability_context = None" "cc_metadataValid demo_capability_context = None"
  by (simp_all add: demo_capability_context_def)

lemma demo_scope_simps:
  "cs_context (scope_of demo_capability_context) = demo_capability_context"
  "cs_venue (scope_of demo_capability_context) = Some BINANCE_LIVE_VENUE"
  by (simp_all add: scope_of_def demo_capability_context_def resolveLiveVenue_def KNOWN_LIVE_VENUES_def)

lemma demo_market_supported:
  "cap_status (tc_orderTypes (getTradingCapabilities demo_capability_context) Market) = Supported"
  by (simp add: getTradingCapabilities_def Let_def submission_capability_def demo_scope_profile demo_scope_simps
      cap_contract_def cap_unavailable_def unavailableMarketCapability_def unresolvedFamily_def or_else_def
      orderTypeFromMarketInfo_def normalizedOrderTypes_def binance_capabilities_def ORDER_TYPES_def
      venue_capability.defs capability_profile.defs demo_context_simps)

theorem support_rests_on_evidence_witness:
  "tc_orderTypes (getTradingCapabilities demo_capability_context) Market
     \<in> set (matrix_capabilities (getTradingCapabilities demo_capability_context)) \<and>
   cap_references (tc_orderTypes (getTradingCapabilities demo_capability_context) Market) \<noteq> []"
proof -
  have m: "tc_orderTypes (getTradingCapabilities demo_capability_context) Market
     \<in> set (matrix_capabilities (getTradingCapabilities demo_capability_context))"
    by (simp add: matrix_capabilities_def ORDER_TYPES_def)
  with support_rests_on_evidence[OF m] demo_market_supported show ?thesis by blast
qed

section \<open>Reductions stay reductions on the wire\<close>

lemma supported_without_objections:
  assumes "cap_status (oc_capability (evaluateOrderCapability ctx input)) = Supported"
  shows "order_objections ctx input (getTradingCapabilities ctx) = []"
  using assms by (auto simp: evaluateOrderCapability_def Let_def split: if_splits)

lemma wire_omission:
  assumes "oc_omitReduceOnly (evaluateOrderCapability ctx input)"
  shows "cc_marketFamily ctx = Futures_family \<and>
    (ci_closePosition input = Some True \<and> (ci_type input = Stop_market \<or> ci_type input = Take_profit_market) \<or>
     cc_positionMode ctx = Some Hedge \<and> (ci_reduceOnly input = Some True \<or> ci_closePosition input = Some True))"
  using assms
  by (auto simp: evaluateOrderCapability_def Let_def defaultWireMapping_def venueWireContextFromOrder_def resolveLiveVenue_def
      KNOWN_LIVE_VENUES_def BINANCE_LIVE_VENUE_def OKX_LIVE_VENUE_def experimentalLiveVenue_def binanceWireMapping_def
      split: if_splits)

lemma position_side_choices:
  obtains "ps = None" | "ps = Some PS_both" | "ps = Some PS_long" | "ps = Some PS_short"
  by (cases ps; cases "the ps") auto

text \<open>C17. When a supported order is sent without the exchange's reduceOnly flag
  although it was asked to reduce, the flag was redundant: either the order is a trigger with the native
  closePosition, or it is a hedge-mode futures order that names the LONG or the SHORT leg and trades the side
  opposite to it, which can only shrink that leg.\<close>

theorem wire_mapping_keeps_reductions:
  assumes "cap_status (oc_capability (evaluateOrderCapability ctx input)) = Supported"
    and "oc_omitReduceOnly (evaluateOrderCapability ctx input)"
  shows "cc_marketFamily ctx = Futures_family \<and>
    (ci_closePosition input = Some True \<and> ci_reduceOnly input \<noteq> Some False \<and>
       (ci_type input = Stop_market \<or> ci_type input = Take_profit_market) \<or>
     cc_positionMode ctx = Some Hedge \<and>
       (ci_positionSide input = Some PS_long \<and> ci_side input = Sell \<or>
        ci_positionSide input = Some PS_short \<and> ci_side input = Buy))"
proof -
  have "order_objections ctx input (getTradingCapabilities ctx) = []"
    by (rule supported_without_objections[OF assms(1)])
  with wire_omission[OF assms(2)] show ?thesis
    by (cases "ci_positionSide input" rule: position_side_choices; cases "ci_side input")
       (auto simp: order_objections_def Let_def split: if_splits)
qed

definition demo_reduction :: capability_input where
  "demo_reduction = \<lparr>ci_type = Market, ci_side = Sell, ci_reduceOnly = Some True, ci_closePosition = None,
     ci_positionSide = Some PS_long\<rparr>"

theorem wire_mapping_keeps_reductions_witness:
  "cap_status (oc_capability (evaluateOrderCapability demo_capability_context demo_reduction)) = Supported \<and>
   oc_omitReduceOnly (evaluateOrderCapability demo_capability_context demo_reduction) \<and> ci_side demo_reduction = Sell"
proof -
  have o: "order_objections demo_capability_context demo_reduction (getTradingCapabilities demo_capability_context) = []"
    by (simp add: order_objections_def Let_def demo_reduction_def demo_capability_context_def)
  have s: "cap_status (oc_capability (evaluateOrderCapability demo_capability_context demo_reduction)) = Supported"
    using o demo_market_supported by (simp add: evaluateOrderCapability_def Let_def demo_reduction_def)
  have w: "oc_omitReduceOnly (evaluateOrderCapability demo_capability_context demo_reduction)"
    by (simp add: evaluateOrderCapability_def Let_def venueWireContextFromOrder_def demo_reduction_def
        demo_capability_context_def resolveLiveVenue_def KNOWN_LIVE_VENUES_def BINANCE_LIVE_VENUE_def binanceWireMapping_def)
  show ?thesis using s w wire_mapping_keeps_reductions[OF s w] by (auto simp: demo_reduction_def)
qed

end
