(* ===== verification/Order_Plan.thy ===== *)
theory Order_Plan
  imports Precision Capabilities
begin

text \<open>
  Planning of orders (\<^verbatim>\<open>packages/trading-engine/src/order-plan.ts\<close>): the checks an order intent passes, the
  reference price, the snapping of its amount onto the exchange's lot and the notional it is charged with, for
  single orders and for OCO pairs. The exchange is read through \<open>market_view\<close>: a ticker, the positions and the
  metadata of a market, each of which may fail. The confirmation texts are left out.
\<close>

section \<open>Data model\<close>

record ticker =
  tk_symbol :: string
  tk_last :: "jsnum option"
  tk_bid :: "jsnum option"
  tk_ask :: "jsnum option"
  tk_timestamp :: jsnum
  tk_sourceTimestampKnown :: "bool option"

record market_view =
  mv_id :: string
  mv_ticker :: "string \<Rightarrow> ticker option"
  mv_positions :: "position list option"
  mv_market :: "string \<Rightarrow> market_info option"

record planning_config =
  pc_marketType :: market_type
  pc_quoteCurrency :: string
  pc_positionMode :: position_mode

record planning_context =
  pl_config :: planning_config
  pl_mode :: trading_mode
  pl_exchange :: market_view

record order_intent =
  oi_symbol :: string
  oi_type :: order_type
  oi_amount :: "jsnum option"
  oi_quoteAmount :: "jsnum option"
  oi_price :: "jsnum option"
  oi_reduceOnly :: "bool option"
  oi_positionSide :: "position_side option"
  oi_stopPrice :: "jsnum option"
  oi_trailingPercent :: "jsnum option"
  oi_closePosition :: "bool option"

datatype price_source = Limit_price | Stop_price | Ask_price | Bid_price | Last_price

record prepared_order =
  pr_input :: place_order_input
  pr_capabilityContext :: capability_context
  pr_side :: side
  pr_amount :: jsnum
  pr_notional :: jsnum
  pr_referencePrice :: jsnum
  pr_referencePriceSource :: price_source
  pr_referenceTimestamp :: jsnum
  pr_countTowardsDailyLimit :: bool
  pr_closePosition :: "position option"
  pr_reducingPosition :: "position option"
  pr_reduceOnlyRequested :: bool
  pr_reduceOnlyApplied :: bool
  pr_exchangeConstraint :: "string list option"

record oco_intent =
  bi_symbol :: string
  bi_side :: side
  bi_amount :: jsnum
  bi_stopLossPrice :: jsnum
  bi_takeProfitPrice :: jsnum

record prepared_oco =
  po_input :: place_oco_input
  po_capabilityContext :: capability_context
  po_observedNotional :: jsnum
  po_riskNotional :: jsnum
  po_notional :: jsnum
  po_referencePrice :: jsnum
  po_referenceTimestamp :: jsnum
  po_countTowardsDailyLimit :: bool

datatype plan_error =
    Symbol_rejected order_rejection
  | Order_unsupported string
  | Price_not_accepted
  | Price_required
  | Plan_stop_price_required
  | Stop_price_not_accepted
  | Plan_trailing_percent_required
  | Paper_trailing_stop_price
  | Trailing_percent_not_accepted
  | Close_with_amount
  | One_amount_required
  | Plan_amount_invalid
  | Quote_amount_invalid
  | Ticker_unavailable
  | No_current_price
  | Would_trigger_immediately
  | Stop_limit_direction
  | Trailing_activation_direction
  | Positions_unavailable
  | No_matching_position
  | Several_matching_positions
  | No_reference_price
  | Order_amount_not_positive
  | Spot_metadata_unavailable
  | Spot_precision_unavailable
  | Amount_rounds_to_zero
  | Amount_below_minimum
  | Futures_metadata_unavailable
  | Futures_not_linear
  | Futures_contract_size_unavailable
  | Futures_precision_unavailable
  | Not_representable_in_contracts
  | Exceeds_position
  | Order_notional_not_positive
  | Oco_amount_invalid
  | Oco_stop_loss_invalid
  | Oco_take_profit_invalid
  | Oco_prices_equal
  | Oco_stop_loss_direction
  | Oco_take_profit_direction
  | Oco_notional_not_positive
  | Oco_risk_notional_not_positive

text \<open>Rejections that only say the exchange's metadata is missing: the preflight is indeterminate.\<close>

definition uncertain :: "plan_error \<Rightarrow> bool" where
  "uncertain e \<longleftrightarrow>
     e \<in> {Spot_metadata_unavailable, Spot_precision_unavailable, Futures_metadata_unavailable, Futures_not_linear,
          Futures_contract_size_unavailable, Futures_precision_unavailable}"

section \<open>Lots\<close>

definition isFuturesSymbol :: "string \<Rightarrow> string \<Rightarrow> bool" where
  "isFuturesSymbol symbol quote \<longleftrightarrow> suffix (''/'' @ quote @ '':'' @ quote) symbol"

definition futuresContractLotStep :: "(jsnum \<Rightarrow> jsnum) \<Rightarrow> jsnum option \<Rightarrow> jsnum option" where
  "futuresContractLotStep pow10 precision =
     (case precision of
        None \<Rightarrow> None
      | Some x \<Rightarrow>
          if \<not> is_finite x \<or> js_lt x (Fin 0) then None
          else if is_integer x then Some (pow10 (js_neg x))
          else if js_gt x (Fin 0) \<and> js_lt x (Fin 1) then Some x
          else None)"

definition futuresAmountStep :: "(jsnum \<Rightarrow> jsnum) \<Rightarrow> market_info \<Rightarrow> jsnum option" where
  "futuresAmountStep pow10 market =
     (case mi_amountStep market of
        Some step \<Rightarrow> if positive_finite step then Some step else futuresContractLotStep pow10 (mi_amountPrecision market)
      | None \<Rightarrow> futuresContractLotStep pow10 (mi_amountPrecision market))"

definition ceilToStep :: "jsnum \<Rightarrow> jsnum \<Rightarrow> jsnum" where
  "ceilToStep value step = js_mul (js_ceil (js_sub (js_div value step) (fl (1 / 10 ^ 12)))) step"

definition isMultipleOfStep :: "jsnum \<Rightarrow> jsnum \<Rightarrow> bool" where
  "isMultipleOfStep value step =
     (let units = js_div value step
      in is_finite units \<and> js_le (js_abs (js_sub units (js_round units))) (fl (1 / 10 ^ 9)))"

definition requireFuturesContract :: "market_info \<Rightarrow> plan_error + jsnum" where
  "requireFuturesContract market =
     ebind (assert_js (\<not> (\<not> mi_contract market \<or> mi_linear market \<noteq> Some True \<or>
              (mi_amountUnit market \<noteq> None \<and> mi_amountUnit market \<noteq> Some Contract_unit))) Futures_not_linear) (\<lambda>_.
     case mi_contractSize market of
       None \<Rightarrow> Inl Futures_contract_size_unavailable
     | Some c \<Rightarrow> if positive_finite c then Inr c else Inl Futures_contract_size_unavailable)"

definition requireFuturesLot :: "(jsnum \<Rightarrow> jsnum) \<Rightarrow> market_info \<Rightarrow> plan_error + jsnum \<times> jsnum" where
  "requireFuturesLot pow10 market =
     ebind (requireFuturesContract market) (\<lambda>contractSize.
     case futuresAmountStep pow10 market of
       None \<Rightarrow> Inl Futures_precision_unavailable
     | Some step \<Rightarrow> if positive_finite step then Inr (contractSize, step) else Inl Futures_precision_unavailable)"

definition market_minAmount :: "market_info \<Rightarrow> jsnum option" where
  "market_minAmount m = or_else (mi_minAmount m) (mi_limits_amount_min m)"

definition market_minNotional :: "market_info \<Rightarrow> jsnum option" where
  "market_minNotional m = or_else (mi_minNotional m) (mi_limits_cost_min m)"

definition snapQuoteAmountToFuturesLot :: "(jsnum \<Rightarrow> jsnum) \<Rightarrow> jsnum \<Rightarrow> market_info \<Rightarrow> jsnum \<Rightarrow> plan_error + jsnum" where
  "snapQuoteAmountToFuturesLot pow10 amount market referencePrice =
     ebind (requireFuturesLot pow10 market) (\<lambda>(contractSize, step).
     let wanted = js_div amount contractSize
     in ebind (assert_js (positive_finite wanted) Order_amount_not_positive) (\<lambda>_.
        let contracts0 = ceilToStep wanted step;
            contracts1 = (case market_minAmount market of
                None \<Rightarrow> contracts0
              | Some m \<Rightarrow> if is_finite m \<and> js_lt contracts0 m then ceilToStep m step else contracts0);
            contracts2 = (case market_minNotional market of
                None \<Rightarrow> contracts1
              | Some n \<Rightarrow>
                  if is_finite n \<and> js_gt n (Fin 0) then
                    let minContracts = js_div n (js_mul referencePrice contractSize)
                    in if is_finite minContracts \<and> js_lt contracts1 minContracts then ceilToStep minContracts step else contracts1
                  else contracts1);
            snapped = js_mul contracts2 contractSize
        in ebind (assert_js (positive_finite snapped) Order_amount_not_positive) (\<lambda>_. Inr snapped)))"

definition snapSpotLot :: "jsnum \<Rightarrow> market_info \<Rightarrow> bool \<Rightarrow> plan_error + jsnum" where
  "snapSpotLot amount market requireStep =
     (case (case mi_amountStep market of None \<Rightarrow> None | Some step \<Rightarrow> if positive_finite step then Some step else None) of
        None \<Rightarrow> if requireStep then Inl Spot_precision_unavailable else Inr amount
      | Some step \<Rightarrow>
          (case truncateToAmountStep amount step of
             None \<Rightarrow> Inl Amount_rounds_to_zero
           | Some snapped \<Rightarrow>
               (case market_minAmount market of
                  None \<Rightarrow> Inr snapped
                | Some m \<Rightarrow> if is_finite m \<and> js_lt snapped m then Inl Amount_below_minimum else Inr snapped)))"

definition assertFuturesAmountRepresentable :: "(jsnum \<Rightarrow> jsnum) \<Rightarrow> jsnum \<Rightarrow> market_info \<Rightarrow> plan_error + unit" where
  "assertFuturesAmountRepresentable pow10 amount market =
     ebind (requireFuturesContract market) (\<lambda>contractSize.
     case futuresAmountStep pow10 market of
       None \<Rightarrow> Inr ()
     | Some step \<Rightarrow>
         if \<not> positive_finite step then Inr ()
         else
           let contracts = js_div amount contractSize;
               tolerance = js_max (fl (1 / 10 ^ 12)) (js_mul (js_abs amount) (fl (1 / 10 ^ 9)))
           in assert_js (\<not> (\<not> isMultipleOfStep contracts step \<or>
                           js_gt (js_abs (js_sub (js_mul contracts contractSize) amount)) tolerance))
                Not_representable_in_contracts)"

section \<open>Checks\<close>

definition validateSymbol :: "string \<Rightarrow> string \<Rightarrow> market_type \<Rightarrow> plan_error + bool" where
  "validateSymbol symbol quote marketType =
     (case validateTradingSymbol symbol marketType quote of
        Some e \<Rightarrow> Inl (Symbol_rejected e) | None \<Rightarrow> Inr (isFuturesSymbol symbol quote))"

definition countsTowardsDailyLimit :: "planning_context \<Rightarrow> side \<Rightarrow> order_intent \<Rightarrow> bool" where
  "countsTowardsDailyLimit trading s params =
     (if \<not> isFuturesSymbol (oi_symbol params) (pc_quoteCurrency (pl_config trading)) then s = Buy
      else if oi_reduceOnly params = Some True \<or> oi_closePosition params = Some True then False
      else if pc_positionMode (pl_config trading) = Hedge \<and>
         (oi_positionSide params = Some PS_long \<and> s = Sell \<or> oi_positionSide params = Some PS_short \<and> s = Buy) then False
      else True)"

definition findClosePosition :: "planning_context \<Rightarrow> side \<Rightarrow> order_intent \<Rightarrow> plan_error + position" where
  "findClosePosition trading s params =
     (case mv_positions (pl_exchange trading) of
        None \<Rightarrow> Inl Positions_unavailable
      | Some positions \<Rightarrow>
          (case filter (\<lambda>p. pos_symbol p = oi_symbol params \<and> js_gt (js_abs (pos_amount p)) (Fin 0) \<and> reduceSide p = s \<and>
                          (pc_positionMode (pl_config trading) \<noteq> Hedge \<or> pos_positionSide p = oi_positionSide params)) positions of
             [] \<Rightarrow> Inl No_matching_position
           | [p] \<Rightarrow> Inr p
           | _ \<Rightarrow> Inl Several_matching_positions))"

definition STOP_TYPES :: "order_type list" where
  "STOP_TYPES = [Stop, Stop_market, Take_profit, Take_profit_market]"

definition falls_to_trigger :: "side \<Rightarrow> order_type \<Rightarrow> bool" where
  "falls_to_trigger s t = (if t = Stop \<or> t = Stop_market then s = Sell else s = Buy)"

definition validateTriggerDirection :: "side \<Rightarrow> order_type \<Rightarrow> jsnum \<Rightarrow> jsnum \<Rightarrow> plan_error + unit" where
  "validateTriggerDirection s t currentPrice stopPrice =
     (if t \<notin> set STOP_TYPES then Inr ()
      else assert_js (if falls_to_trigger s t then js_lt stopPrice currentPrice else js_gt stopPrice currentPrice)
             Would_trigger_immediately)"

definition validateStopLimitDirection :: "side \<Rightarrow> order_type \<Rightarrow> jsnum \<Rightarrow> jsnum \<Rightarrow> plan_error + unit" where
  "validateStopLimitDirection s t price stopPrice =
     (if t \<noteq> Stop \<and> t \<noteq> Take_profit then Inr ()
      else assert_js (if t = Stop then (if s = Sell then js_le price stopPrice else js_ge price stopPrice)
                      else (if s = Sell then js_ge price stopPrice else js_le price stopPrice)) Stop_limit_direction)"

definition reference_price :: "side \<Rightarrow> order_intent \<Rightarrow> ticker \<Rightarrow> jsnum option \<times> price_source" where
  "reference_price s params tick =
     (if oi_price params \<noteq> None then (oi_price params, Limit_price)
      else if oi_stopPrice params \<noteq> None then (oi_stopPrice params, Stop_price)
      else if s = Buy \<and> tk_ask tick \<noteq> None then (tk_ask tick, Ask_price)
      else if s = Sell \<and> tk_bid tick \<noteq> None then (tk_bid tick, Bid_price)
      else (tk_last tick, Last_price))"


section \<open>Preparing an order\<close>

definition price_required :: "order_type \<Rightarrow> bool" where
  "price_required t \<longleftrightarrow> t = Limit \<or> t = Stop \<or> t = Take_profit"

definition is_positive :: "jsnum option \<Rightarrow> bool" where
  "is_positive x = (case x of None \<Rightarrow> False | Some v \<Rightarrow> positive_finite v)"

definition check_order_shape :: "trading_mode \<Rightarrow> order_intent \<Rightarrow> plan_error + unit" where
  "check_order_shape mode params =
     (let t = oi_type params; stopType = (t \<in> set STOP_TYPES); close = (oi_closePosition params = Some True)
      in ebind (assert_js (\<not> (\<not> price_required t \<and> oi_price params \<noteq> None)) Price_not_accepted) (\<lambda>_.
         ebind (assert_js (\<not> (price_required t \<and> \<not> is_positive (oi_price params))) Price_required) (\<lambda>_.
         ebind (assert_js (\<not> (stopType \<and> \<not> is_positive (oi_stopPrice params))) Plan_stop_price_required) (\<lambda>_.
         ebind (assert_js (\<not> (\<not> stopType \<and> t \<noteq> Trailing_stop_market \<and> oi_stopPrice params \<noteq> None)) Stop_price_not_accepted) (\<lambda>_.
         ebind (if t = Trailing_stop_market then
                  ebind (assert_js (case oi_trailingPercent params of None \<Rightarrow> False
                           | Some p \<Rightarrow> positive_finite p \<and> \<not> js_ge p (Fin 100)) Plan_trailing_percent_required) (\<lambda>_.
                  assert_js (\<not> (oi_stopPrice params \<noteq> None \<and> mode = Paper)) Paper_trailing_stop_price)
                else assert_js (oi_trailingPercent params = None) Trailing_percent_not_accepted) (\<lambda>_.
         ebind (assert_js (\<not> (close \<and> (oi_amount params \<noteq> None \<or> oi_quoteAmount params \<noteq> None))) Close_with_amount) (\<lambda>_.
         ebind (assert_js (\<not> (\<not> close \<and> (oi_amount params = None) = (oi_quoteAmount params = None))) One_amount_required) (\<lambda>_.
         ebind (assert_js (\<not> (\<not> close \<and> oi_amount params \<noteq> None \<and> \<not> is_positive (oi_amount params))) Plan_amount_invalid) (\<lambda>_.
         assert_js (\<not> (\<not> close \<and> oi_quoteAmount params \<noteq> None \<and> \<not> is_positive (oi_quoteAmount params))) Quote_amount_invalid)))))))))"

definition check_trigger :: "side \<Rightarrow> order_intent \<Rightarrow> ticker \<Rightarrow> plan_error + unit" where
  "check_trigger s params tick =
     (let t = oi_type params; stopType = (t \<in> set STOP_TYPES);
          currentPrice = opt_default NaN (tk_last tick); stopPrice = opt_default NaN (oi_stopPrice params);
          activation = (t = Trailing_stop_market \<and> oi_stopPrice params \<noteq> None)
      in ebind (assert_js (\<not> ((stopType \<or> activation) \<and> \<not> is_positive (tk_last tick))) No_current_price) (\<lambda>_.
         ebind (if stopType then validateTriggerDirection s t currentPrice stopPrice else Inr ()) (\<lambda>_.
         ebind (if t = Stop \<or> t = Take_profit then validateStopLimitDirection s t (opt_default NaN (oi_price params)) stopPrice
                else Inr ()) (\<lambda>_.
         assert_js (\<not> (activation \<and>
           \<not> (if s = Sell then js_gt stopPrice currentPrice else js_lt stopPrice currentPrice))) Trailing_activation_direction))))"

text \<open>The amount before it meets the lot: the position's, the intent's own, or the quote amount converted.\<close>

definition wanted_amount :: "order_intent \<Rightarrow> position option \<Rightarrow> jsnum \<Rightarrow> plan_error + jsnum" where
  "wanted_amount params closePosition referencePrice =
     ebind (case closePosition of
              Some p \<Rightarrow> Inr (js_abs (pos_amount p))
            | None \<Rightarrow>
                (case oi_amount params of
                   Some a \<Rightarrow> Inr a
                 | None \<Rightarrow> (case oi_quoteAmount params of
                     Some q \<Rightarrow> Inr (js_div q referencePrice) | None \<Rightarrow> Inl One_amount_required))) (\<lambda>amount.
     ebind (assert_js (positive_finite amount) Order_amount_not_positive) (\<lambda>_. Inr amount))"

definition lot_amount ::
  "(jsnum \<Rightarrow> jsnum) \<Rightarrow> planning_context \<Rightarrow> order_intent \<Rightarrow> bool \<Rightarrow> position option \<Rightarrow> jsnum \<Rightarrow> jsnum \<Rightarrow> plan_error + jsnum" where
  "lot_amount pow10 trading params futuresOrder closePosition referencePrice amount =
     (if closePosition \<noteq> None then Inr amount
      else let market = mv_market (pl_exchange trading) (oi_symbol params); quoted = (oi_quoteAmount params \<noteq> None)
           in if \<not> futuresOrder then
                (case market of
                   Some m \<Rightarrow> snapSpotLot amount m quoted
                 | None \<Rightarrow> if quoted then Inl Spot_metadata_unavailable else Inr amount)
              else
                (case market of
                   None \<Rightarrow> Inl Futures_metadata_unavailable
                 | Some m \<Rightarrow>
                     if quoted then snapQuoteAmountToFuturesLot pow10 amount m referencePrice
                     else ebind (assertFuturesAmountRepresentable pow10 amount m) (\<lambda>_. Inr amount)))"

definition order_notional :: "order_intent \<Rightarrow> bool \<Rightarrow> position option \<Rightarrow> jsnum \<Rightarrow> jsnum \<Rightarrow> jsnum" where
  "order_notional params futuresOrder closePosition referencePrice amount =
     (case closePosition of
        Some p \<Rightarrow>
          (case pos_quoteValue p of
             Some v \<Rightarrow> if is_finite v \<and> js_gt v (Fin 0) then v else js_mul amount referencePrice
           | None \<Rightarrow> js_mul amount referencePrice)
      | None \<Rightarrow>
          (case oi_quoteAmount params of
             Some q \<Rightarrow> if \<not> futuresOrder then q else js_mul amount referencePrice
           | None \<Rightarrow> js_mul amount referencePrice))"

definition planning_capability_context :: "planning_context \<Rightarrow> bool \<Rightarrow> capability_context" where
  "planning_capability_context trading futuresOrder =
     \<lparr>cc_exchangeId = mv_id (pl_exchange trading), cc_mode = pl_mode trading,
      cc_marketFamily = (if futuresOrder then Futures_family else Spot_family),
      cc_positionMode = Some (pc_positionMode (pl_config trading)), cc_marketInfo = None, cc_metadataValid = None,
      cc_orderType = None\<rparr>"

text \<open>The second half of \<^verbatim>\<open>prepareOrder\<close>: sizing and the plan itself, once the position to reduce and the
  reference price are known.\<close>

definition build_order ::
  "(jsnum \<Rightarrow> jsnum) \<Rightarrow> side \<Rightarrow> order_intent \<Rightarrow> planning_context \<Rightarrow> bool \<Rightarrow> string list \<Rightarrow> ticker \<Rightarrow> position option \<Rightarrow>
   jsnum \<Rightarrow> price_source \<Rightarrow> plan_error + prepared_order" where
  "build_order pow10 s params trading futuresOrder constraints tick reducing referencePrice source =
     (let close = (oi_closePosition params = Some True); closePosition = (if close then reducing else None)
      in ebind (assert_js (positive_finite referencePrice) No_reference_price) (\<lambda>_.
         ebind (wanted_amount params closePosition referencePrice) (\<lambda>wanted.
         ebind (lot_amount pow10 trading params futuresOrder closePosition referencePrice wanted) (\<lambda>amount.
         ebind (assert_js (case reducing of None \<Rightarrow> True
                  | Some p \<Rightarrow> \<not> (js_gt amount (js_abs (pos_amount p)) \<and>
                                \<not> futuresAmountsEqual amount (js_abs (pos_amount p)))) Exceeds_position) (\<lambda>_.
         let notional = order_notional params futuresOrder closePosition referencePrice amount;
             requested = (oi_reduceOnly params = Some True \<or> close)
         in ebind (assert_js (positive_finite notional) Order_notional_not_positive) (\<lambda>_.
            Inr \<lparr>pr_input = \<lparr>in_symbol = oi_symbol params, in_side = s, in_type = oi_type params, in_amount = amount,
                   in_price = (if price_required (oi_type params) then oi_price params else None),
                   in_reduceOnly = (if close then Some True else oi_reduceOnly params),
                   in_positionSide = oi_positionSide params, in_stopPrice = oi_stopPrice params,
                   in_trailingPercent = oi_trailingPercent params, in_closePosition = oi_closePosition params,
                   in_clientOrderId = None\<rparr>,
                 pr_capabilityContext = planning_capability_context trading futuresOrder, pr_side = s, pr_amount = amount,
                 pr_notional = notional, pr_referencePrice = referencePrice, pr_referencePriceSource = source,
                 pr_referenceTimestamp = tk_timestamp tick,
                 pr_countTowardsDailyLimit = countsTowardsDailyLimit trading s params,
                 pr_closePosition = closePosition, pr_reducingPosition = reducing, pr_reduceOnlyRequested = requested,
                 pr_reduceOnlyApplied = (requested \<and> constraints = []),
                 pr_exchangeConstraint = (if constraints \<noteq> [] then Some constraints else None)\<rparr>))))))"

definition position_to_reduce :: "planning_context \<Rightarrow> side \<Rightarrow> order_intent \<Rightarrow> bool \<Rightarrow> plan_error + position option" where
  "position_to_reduce trading s params futuresOrder =
     (if futuresOrder \<and> \<not> countsTowardsDailyLimit trading s params
      then ebind (findClosePosition trading s params) (\<lambda>p. Inr (Some p)) else Inr None)"

definition order_capability_of :: "planning_context \<Rightarrow> side \<Rightarrow> order_intent \<Rightarrow> bool \<Rightarrow> order_capability" where
  "order_capability_of trading s params futuresOrder =
     evaluateOrderCapability (planning_capability_context trading futuresOrder)
       \<lparr>ci_type = oi_type params, ci_side = s, ci_reduceOnly = oi_reduceOnly params,
        ci_closePosition = oi_closePosition params, ci_positionSide = oi_positionSide params\<rparr>"

definition prepareOrder :: "(jsnum \<Rightarrow> jsnum) \<Rightarrow> side \<Rightarrow> order_intent \<Rightarrow> planning_context \<Rightarrow> plan_error + prepared_order" where
  "prepareOrder pow10 s params trading =
     ebind (validateSymbol (oi_symbol params) (pc_quoteCurrency (pl_config trading)) (pc_marketType (pl_config trading)))
       (\<lambda>futuresOrder.
     let cap = order_capability_of trading s params futuresOrder
     in ebind (assert_js (cap_status (oc_capability cap) \<noteq> Unsupported) (Order_unsupported (cap_reason (oc_capability cap)))) (\<lambda>_.
        ebind (check_order_shape (pl_mode trading) params) (\<lambda>_.
        case mv_ticker (pl_exchange trading) (oi_symbol params) of
          None \<Rightarrow> Inl Ticker_unavailable
        | Some tick \<Rightarrow>
            ebind (check_trigger s params tick) (\<lambda>_.
            ebind (position_to_reduce trading s params futuresOrder) (\<lambda>reducing.
            case fst (reference_price s params tick) of
              None \<Rightarrow> Inl No_reference_price
            | Some referencePrice \<Rightarrow>
                build_order pow10 s params trading futuresOrder (oc_constraints cap) tick reducing referencePrice
                  (snd (reference_price s params tick)))))))"

section \<open>Preparing an OCO pair\<close>

definition check_oco_prices :: "oco_intent \<Rightarrow> plan_error + unit" where
  "check_oco_prices params =
     ebind (assert_js (positive_finite (bi_amount params)) Oco_amount_invalid) (\<lambda>_.
     ebind (assert_js (positive_finite (bi_stopLossPrice params)) Oco_stop_loss_invalid) (\<lambda>_.
     ebind (assert_js (positive_finite (bi_takeProfitPrice params)) Oco_take_profit_invalid) (\<lambda>_.
     assert_js (\<not> js_eq (bi_stopLossPrice params) (bi_takeProfitPrice params)) Oco_prices_equal)))"

definition check_oco_direction :: "oco_intent \<Rightarrow> jsnum \<Rightarrow> plan_error + unit" where
  "check_oco_direction params referencePrice =
     (if bi_side params = Sell then
        ebind (assert_js (\<not> js_ge (bi_stopLossPrice params) referencePrice) Oco_stop_loss_direction) (\<lambda>_.
        assert_js (\<not> js_le (bi_takeProfitPrice params) referencePrice) Oco_take_profit_direction)
      else
        ebind (assert_js (\<not> js_le (bi_stopLossPrice params) referencePrice) Oco_stop_loss_direction) (\<lambda>_.
        assert_js (\<not> js_ge (bi_takeProfitPrice params) referencePrice) Oco_take_profit_direction))"

definition prepareOcoOrder :: "oco_intent \<Rightarrow> planning_context \<Rightarrow> plan_error + prepared_oco" where
  "prepareOcoOrder params trading =
     (let config = pl_config trading
      in ebind (validateSymbol (bi_symbol params) (pc_quoteCurrency config) (pc_marketType config)) (\<lambda>futuresOrder.
         let context = planning_capability_context trading futuresOrder;
             ocoCapability = tc_oco (getTradingCapabilities context) (bi_side params)
         in ebind (assert_js (cap_status ocoCapability \<noteq> Unsupported) (Order_unsupported (cap_reason ocoCapability))) (\<lambda>_.
            ebind (check_oco_prices params) (\<lambda>_.
            ebind (if futuresOrder then Inr (bi_amount params)
                   else case mv_market (pl_exchange trading) (bi_symbol params) of
                          None \<Rightarrow> Inl Spot_metadata_unavailable
                        | Some m \<Rightarrow> snapSpotLot (bi_amount params) m False) (\<lambda>amount.
            case mv_ticker (pl_exchange trading) (bi_symbol params) of
              None \<Rightarrow> Inl Ticker_unavailable
            | Some tick \<Rightarrow>
                (case tk_last tick of
                   None \<Rightarrow> Inl No_reference_price
                 | Some referencePrice \<Rightarrow>
                     ebind (assert_js (positive_finite referencePrice) No_reference_price) (\<lambda>_.
                     ebind (check_oco_direction params referencePrice) (\<lambda>_.
                     let observed = js_mul amount referencePrice;
                         riskPrice = (if bi_side params = Buy then js_max (bi_stopLossPrice params) (bi_takeProfitPrice params)
                                      else referencePrice);
                         risk = js_mul amount riskPrice
                     in ebind (assert_js (positive_finite observed) Oco_notional_not_positive) (\<lambda>_.
                        ebind (assert_js (positive_finite risk) Oco_risk_notional_not_positive) (\<lambda>_.
                        Inr \<lparr>po_input = \<lparr>oco_symbol = bi_symbol params, oco_side = bi_side params, oco_amount = amount,
                               oco_stopLossPrice = bi_stopLossPrice params, oco_takeProfitPrice = bi_takeProfitPrice params,
                               oco_listClientOrderId = None, oco_aboveClientOrderId = None, oco_belowClientOrderId = None\<rparr>,
                             po_capabilityContext = context, po_observedNotional = observed, po_riskNotional = risk,
                             po_notional = observed, po_referencePrice = referencePrice, po_referenceTimestamp = tk_timestamp tick,
                             po_countTowardsDailyLimit = (bi_side params = Buy)\<rparr>))))))))))"


section \<open>What a prepared order guarantees\<close>

lemma is_positive_Some: "is_positive x \<Longrightarrow> \<exists>v. x = Some v \<and> positive_finite v"
  by (auto simp: is_positive_def split: option.splits)

lemma findClosePosition_Inr:
  assumes "findClosePosition trading s params = Inr p"
  obtains positions where "mv_positions (pl_exchange trading) = Some positions" "p \<in> set positions"
    "pos_symbol p = oi_symbol params" "js_gt (js_abs (pos_amount p)) (Fin 0)" "reduceSide p = s"
    "pc_positionMode (pl_config trading) = Hedge \<longrightarrow> pos_positionSide p = oi_positionSide params"
proof -
  let ?P = "\<lambda>q. pos_symbol q = oi_symbol params \<and> js_gt (js_abs (pos_amount q)) (Fin 0) \<and> reduceSide q = s \<and>
      (pc_positionMode (pl_config trading) \<noteq> Hedge \<or> pos_positionSide q = oi_positionSide params)"
  from assms obtain positions where a: "mv_positions (pl_exchange trading) = Some positions" "filter ?P positions = [p]"
    by (auto simp: findClosePosition_def split: option.splits list.splits)
  then have "p \<in> set (filter ?P positions)" by simp
  then show thesis using a(1) that by auto
qed

lemma wanted_positive: "wanted_amount params c r = Inr w \<Longrightarrow> positive_finite w"
  by (auto simp: wanted_amount_def result_simps)

lemma build_order_Inr:
  assumes "build_order pow10 s params trading futuresOrder constraints tick reducing referencePrice source = Inr plan"
  shows "pr_countTowardsDailyLimit plan = countsTowardsDailyLimit trading s params" "pr_reducingPosition plan = reducing"
    "\<forall>p. reducing = Some p \<longrightarrow>
       \<not> (js_gt (pr_amount plan) (js_abs (pos_amount p)) \<and> \<not> futuresAmountsEqual (pr_amount plan) (js_abs (pos_amount p)))"
    "pr_side plan = s" "in_side (pr_input plan) = s" "in_type (pr_input plan) = oi_type params"
    "in_symbol (pr_input plan) = oi_symbol params" "in_amount (pr_input plan) = pr_amount plan"
    "in_stopPrice (pr_input plan) = oi_stopPrice params"
    "in_price (pr_input plan) = (if price_required (oi_type params) then oi_price params else None)"
    "positive_finite (pr_notional plan)" "positive_finite (pr_referencePrice plan)" "pr_referencePrice plan = referencePrice"
    "pr_notional plan = order_notional params futuresOrder (pr_closePosition plan) referencePrice (pr_amount plan)"
    "\<exists>wanted. positive_finite wanted \<and> wanted_amount params (pr_closePosition plan) referencePrice = Inr wanted \<and>
       lot_amount pow10 trading params futuresOrder (pr_closePosition plan) referencePrice wanted = Inr (pr_amount plan)"
    "pr_closePosition plan = (if oi_closePosition params = Some True then reducing else None)"
  using assms unfolding build_order_def Let_def
  by (clarsimp simp: result_simps; blast intro: wanted_positive)+

lemma prepareOrder_Inr:
  assumes "prepareOrder pow10 s params trading = Inr plan"
  obtains futuresOrder tick reducing referencePrice where
    "validateSymbol (oi_symbol params) (pc_quoteCurrency (pl_config trading)) (pc_marketType (pl_config trading)) = Inr futuresOrder"
    "check_order_shape (pl_mode trading) params = Inr ()"
    "mv_ticker (pl_exchange trading) (oi_symbol params) = Some tick" "check_trigger s params tick = Inr ()"
    "position_to_reduce trading s params futuresOrder = Inr reducing"
    "fst (reference_price s params tick) = Some referencePrice"
    "build_order pow10 s params trading futuresOrder (oc_constraints (order_capability_of trading s params futuresOrder)) tick reducing
       referencePrice (snd (reference_price s params tick)) = Inr plan"
  using assms unfolding prepareOrder_def Let_def
  by (auto simp: result_simps split: option.splits)

text \<open>C20. An order escapes the daily limit only if it cannot add exposure: it is a spot sell, or a futures order for
  which exactly the position it reduces was found, on the same symbol and (in hedge mode) the same leg, with the
  order on the side that shrinks it and no larger than the position up to the rounding of the amounts.\<close>

theorem exempt_orders_only_reduce:
  assumes "prepareOrder pow10 s params trading = Inr plan" "\<not> pr_countTowardsDailyLimit plan"
  shows "\<not> isFuturesSymbol (in_symbol (pr_input plan)) (pc_quoteCurrency (pl_config trading)) \<and> in_side (pr_input plan) = Sell \<or>
    (\<exists>p positions. pr_reducingPosition plan = Some p \<and> mv_positions (pl_exchange trading) = Some positions \<and> p \<in> set positions \<and>
       pos_symbol p = in_symbol (pr_input plan) \<and> reduceSide p = in_side (pr_input plan) \<and>
       (pc_positionMode (pl_config trading) = Hedge \<longrightarrow> pos_positionSide p = oi_positionSide params) \<and>
       (js_gt (in_amount (pr_input plan)) (js_abs (pos_amount p)) \<longrightarrow>
          futuresAmountsEqual (in_amount (pr_input plan)) (js_abs (pos_amount p))))"
proof (rule prepareOrder_Inr[OF assms(1)], goal_cases)
  case (1 futuresOrder tick reducing referencePrice)
  note b = build_order_Inr[OF 1(7)]
  have f: "futuresOrder = isFuturesSymbol (oi_symbol params) (pc_quoteCurrency (pl_config trading))"
    using 1(1) by (auto simp: validateSymbol_def split: option.splits)
  have n: "\<not> countsTowardsDailyLimit trading s params" using assms(2) b(1) by simp
  show ?case
  proof (cases futuresOrder)
    case False
    then show ?thesis using n f b(5,7) by (cases s) (auto simp: countsTowardsDailyLimit_def)
  next
    case True
    then obtain p where p: "findClosePosition trading s params = Inr p" "reducing = Some p"
      using 1(5) n by (auto simp: position_to_reduce_def result_simps)
    show ?thesis
      by (rule findClosePosition_Inr[OF p(1)]) (use p b(2,3,5,7,8) in auto)
  qed
qed

text \<open>A prepared conditional order does not fire at once: its stop price lies strictly on the far side of the last
  price, below it for a stop that sells or a take-profit that buys and above it otherwise, and a stop-limit's
  limit price lies beyond its stop price so that the triggered order can still fill. Every prepared order has a
  positive finite reference price and notional.\<close>

theorem prepared_triggers_wait:
  assumes "prepareOrder pow10 s params trading = Inr plan"
  shows "positive_finite (pr_referencePrice plan) \<and> positive_finite (pr_notional plan) \<and>
    (in_type (pr_input plan) \<in> set STOP_TYPES \<longrightarrow>
       (\<exists>tick last stop. mv_ticker (pl_exchange trading) (in_symbol (pr_input plan)) = Some tick \<and> tk_last tick = Some last \<and>
          in_stopPrice (pr_input plan) = Some stop \<and> positive_finite last \<and> positive_finite stop \<and>
          (if falls_to_trigger (in_side (pr_input plan)) (in_type (pr_input plan)) then js_lt stop last else js_gt stop last) \<and>
          (in_type (pr_input plan) = Stop \<or> in_type (pr_input plan) = Take_profit \<longrightarrow>
             (\<exists>price. in_price (pr_input plan) = Some price \<and>
                (if (in_type (pr_input plan) = Stop) = (in_side (pr_input plan) = Sell) then js_le price stop else js_ge price stop)))))"
proof (rule prepareOrder_Inr[OF assms], goal_cases)
  case (1 futuresOrder tick reducing referencePrice)
  note b = build_order_Inr[OF 1(7)]
  have main: "\<exists>last stop. tk_last tick = Some last \<and> oi_stopPrice params = Some stop \<and> positive_finite last \<and> positive_finite stop \<and>
      (if falls_to_trigger s (oi_type params) then js_lt stop last else js_gt stop last) \<and>
      (oi_type params = Stop \<or> oi_type params = Take_profit \<longrightarrow>
        (\<exists>price. oi_price params = Some price \<and> price_required (oi_type params) \<and>
          (if (oi_type params = Stop) = (s = Sell) then js_le price stop else js_ge price stop)))"
    if t: "oi_type params \<in> set STOP_TYPES"
  proof -
    obtain stop where stop: "oi_stopPrice params = Some stop" "positive_finite stop"
      using 1(2) t is_positive_Some by (auto simp: check_order_shape_def Let_def result_simps)
    obtain last where last: "tk_last tick = Some last" "positive_finite last"
      using 1(4) t is_positive_Some stop by (auto simp: check_trigger_def Let_def result_simps)
    have d: "if falls_to_trigger s (oi_type params) then js_lt stop last else js_gt stop last"
      using 1(4) t stop last by (auto simp: check_trigger_def Let_def validateTriggerDirection_def opt_default_def result_simps)
    have "\<exists>price. oi_price params = Some price \<and> price_required (oi_type params) \<and>
          (if (oi_type params = Stop) = (s = Sell) then js_le price stop else js_ge price stop)"
      if l: "oi_type params = Stop \<or> oi_type params = Take_profit"
    proof -
      have r: "price_required (oi_type params)" using l by (auto simp: price_required_def)
      then obtain price where price: "oi_price params = Some price"
        using 1(2) is_positive_Some by (auto simp: check_order_shape_def Let_def result_simps)
      have "validateStopLimitDirection s (oi_type params) price stop = Inr ()"
        using 1(4) l price stop by (auto simp: check_trigger_def Let_def opt_default_def result_simps)
      then show ?thesis using price r l by (cases s) (auto simp: validateStopLimitDirection_def result_simps split: if_splits)
    qed
    then show ?thesis using stop last d by blast
  qed
  have "\<exists>tick last stop. mv_ticker (pl_exchange trading) (oi_symbol params) = Some tick \<and> tk_last tick = Some last \<and>
          oi_stopPrice params = Some stop \<and> positive_finite last \<and> positive_finite stop \<and>
          (if falls_to_trigger s (oi_type params) then js_lt stop last else js_gt stop last) \<and>
          (oi_type params = Stop \<or> oi_type params = Take_profit \<longrightarrow>
             (\<exists>price. in_price (pr_input plan) = Some price \<and>
                (if (oi_type params = Stop) = (s = Sell) then js_le price stop else js_ge price stop)))"
    if t: "oi_type params \<in> set STOP_TYPES"
  proof -
    obtain last stop where m: "tk_last tick = Some last" "oi_stopPrice params = Some stop" "positive_finite last" "positive_finite stop"
      "if falls_to_trigger s (oi_type params) then js_lt stop last else js_gt stop last"
      "oi_type params = Stop \<or> oi_type params = Take_profit \<longrightarrow>
        (\<exists>price. oi_price params = Some price \<and> price_required (oi_type params) \<and>
          (if (oi_type params = Stop) = (s = Sell) then js_le price stop else js_ge price stop))"
      using main[OF t] by blast
    show ?thesis
      by (intro exI[of _ tick] exI[of _ last] exI[of _ stop] conjI 1(3) m(1-5)) (use m(6) b(10) in fastforce)
  qed
  then show ?case unfolding b(5,6,7,9) using b(11,12) by blast
qed


section \<open>Witnesses\<close>

definition demo_ticker :: ticker where
  "demo_ticker = \<lparr>tk_symbol = ''BTC/USDT'', tk_last = Some (Fin 100), tk_bid = Some (Fin 99), tk_ask = Some (Fin 101),
     tk_timestamp = Fin 0, tk_sourceTimestampKnown = None\<rparr>"

definition demo_trading :: planning_context where
  "demo_trading = \<lparr>pl_config = \<lparr>pc_marketType = Spot, pc_quoteCurrency = ''USDT'', pc_positionMode = One_way\<rparr>, pl_mode = Paper,
     pl_exchange = \<lparr>mv_id = ''sim'', mv_ticker = (\<lambda>_. Some demo_ticker), mv_positions = Some [], mv_market = (\<lambda>_. None)\<rparr>\<rparr>"

definition demo_stop_intent :: order_intent where
  "demo_stop_intent = \<lparr>oi_symbol = ''BTC/USDT'', oi_type = Stop_market, oi_amount = Some (Fin 1), oi_quoteAmount = None, oi_price = None,
     oi_reduceOnly = None, oi_positionSide = None, oi_stopPrice = Some (Fin 90), oi_trailingPercent = None, oi_closePosition = None\<rparr>"

lemma demo_paper_profile:
  "cs_profile (scope_of (planning_capability_context demo_trading False)) = Some (PAPER_CAPABILITY_MATRIX ! 0)"
  by (simp add: scope_of_def planning_capability_context_def demo_trading_def TRADING_CAPABILITY_MATRIX_def PAPER_CAPABILITY_MATRIX_def)

lemma demo_stop_supported:
  "cap_status (oc_capability (order_capability_of demo_trading Sell demo_stop_intent False)) \<noteq> Unsupported"
proof -
  let ?ctx = "planning_capability_context demo_trading False"
  have c: "cc_marketFamily ?ctx = Spot_family" "cc_mode ?ctx = Paper" "cc_marketInfo ?ctx = None" "cc_metadataValid ?ctx = None"
    by (simp_all add: planning_capability_context_def demo_trading_def)
  have sc: "cs_context (scope_of ?ctx) = ?ctx" "cs_venue (scope_of ?ctx) = None" by (simp_all add: scope_of_def c)
  have "cap_status (submission_capability (scope_of ?ctx) Stop_market) = Supported"
    by (simp add: submission_capability_def Let_def demo_paper_profile sc c cap_contract_def cap_unavailable_def
        unavailableMarketCapability_def unresolvedFamily_def or_else_def orderTypeFromMarketInfo_def normalizedOrderTypes_def
        PAPER_CAPABILITY_MATRIX_def ORDER_TYPES_def)
  moreover have "order_objections ?ctx
       \<lparr>ci_type = Stop_market, ci_side = Sell, ci_reduceOnly = None, ci_closePosition = None, ci_positionSide = None\<rparr> m = []" for m
    by (simp add: order_objections_def Let_def c)
  ultimately show ?thesis
    by (simp add: order_capability_of_def evaluateOrderCapability_def Let_def demo_stop_intent_def getTradingCapabilities_def)
qed

lemma demo_prepare_stop:
  obtains plan where "prepareOrder (\<lambda>x. x) Sell demo_stop_intent demo_trading = Inr plan"
    "pr_countTowardsDailyLimit plan = False" "in_type (pr_input plan) = Stop_market"
    "in_side (pr_input plan) = Sell" "in_symbol (pr_input plan) = ''BTC/USDT''"
proof -
  have f: "\<not> isFuturesSymbol ''BTC/USDT'' ''USDT''" by (simp add: isFuturesSymbol_def suffix_def)
  have v: "validateSymbol ''BTC/USDT'' ''USDT'' Spot = Inr False"
    by (simp add: validateSymbol_def validateTradingSymbol_def f)
  have n: "\<not> countsTowardsDailyLimit demo_trading Sell demo_stop_intent"
    by (simp add: countsTowardsDailyLimit_def demo_trading_def demo_stop_intent_def f)
  have p: "positive_finite (Fin 90)" "positive_finite (Fin 1)" "positive_finite (Fin 100)" by (simp_all add: positive_finite_def)
  have shape: "check_order_shape Paper demo_stop_intent = Inr ()"
    by (simp add: check_order_shape_def Let_def demo_stop_intent_def price_required_def STOP_TYPES_def is_positive_def p)
  have trigger: "check_trigger Sell demo_stop_intent demo_ticker = Inr ()"
    by (simp add: check_trigger_def Let_def demo_stop_intent_def demo_ticker_def STOP_TYPES_def is_positive_def p
        validateTriggerDirection_def falls_to_trigger_def opt_default_def)
  have "\<exists>plan. build_order (\<lambda>x. x) Sell demo_stop_intent demo_trading False cs demo_ticker None (Fin 90) source = Inr plan" for cs source
    by (simp add: build_order_def Let_def demo_stop_intent_def demo_trading_def wanted_amount_def lot_amount_def order_notional_def p)
  then obtain plan where b: "build_order (\<lambda>x. x) Sell demo_stop_intent demo_trading False
      (oc_constraints (order_capability_of demo_trading Sell demo_stop_intent False)) demo_ticker None (Fin 90)
      (snd (reference_price Sell demo_stop_intent demo_ticker)) = Inr plan" by blast
  have fields: "oi_symbol demo_stop_intent = ''BTC/USDT''" "pc_quoteCurrency (pl_config demo_trading) = ''USDT''"
    "pc_marketType (pl_config demo_trading) = Spot" "pl_mode demo_trading = Paper"
    "mv_ticker (pl_exchange demo_trading) k = Some demo_ticker"
    "fst (reference_price Sell demo_stop_intent demo_ticker) = Some (Fin 90)" for k
    by (simp_all add: demo_stop_intent_def demo_trading_def reference_price_def)
  have "prepareOrder (\<lambda>x. x) Sell demo_stop_intent demo_trading = Inr plan"
    using v shape trigger demo_stop_supported b n
    by (simp add: prepareOrder_def Let_def fields position_to_reduce_def)
  then show thesis using that build_order_Inr[OF b] n by (simp add: demo_stop_intent_def)
qed

theorem exempt_orders_only_reduce_witness:
  "\<exists>plan. prepareOrder (\<lambda>x. x) Sell demo_stop_intent demo_trading = Inr plan \<and> \<not> pr_countTowardsDailyLimit plan \<and>
     (in_side (pr_input plan) = Sell \<or> pr_reducingPosition plan \<noteq> None)"
proof (rule demo_prepare_stop, goal_cases)
  case (1 plan)
  then show ?case using exempt_orders_only_reduce[OF 1(1)] by auto
qed

theorem prepared_triggers_wait_witness:
  "\<exists>plan stop last. prepareOrder (\<lambda>x. x) Sell demo_stop_intent demo_trading = Inr plan \<and>
     in_stopPrice (pr_input plan) = Some stop \<and> tk_last demo_ticker = Some last \<and> js_lt stop last"
proof (rule demo_prepare_stop, goal_cases)
  case (1 plan)
  have t: "mv_ticker (pl_exchange demo_trading) k = Some demo_ticker" for k by (simp add: demo_trading_def)
  show ?case using prepared_triggers_wait[OF 1(1)] 1 by (auto simp: STOP_TYPES_def falls_to_trigger_def t)
qed

end
