(* ===== verification/Order_Preflight.thy ===== *)
theory Order_Preflight
  imports Order_Plan
begin

text \<open>
  The check of a prepared order against the exchange right before it is submitted
  (\<^verbatim>\<open>packages/trading-engine/src/order-preflight.ts\<close>): market limits, price and trigger, the position to reduce,
  the balance, and the evidence a confirmation rests on. The reads may fail; the effective leverage is what the
  client reports for the symbol.
\<close>

section \<open>Data model\<close>

record balance =
  bal_asset :: string
  bal_free :: jsnum
  bal_used :: jsnum
  bal_total :: jsnum
  bal_quoteValue :: "jsnum option"

record preflight_view =
  pv_market :: "string \<Rightarrow> market_info option"
  pv_balances :: "balance list option"
  pv_ticker :: "string \<Rightarrow> ticker option"
  pv_positions :: "position list option"
  pv_quoteCurrency :: string
  pv_marketType :: market_type
  pv_leverage :: "string \<Rightarrow> jsnum"
  pv_feeRate :: "jsnum option"

record confirmation_evidence =
  ce_referencePrice :: jsnum
  ce_amount :: jsnum
  ce_notional :: jsnum
  ce_riskNotional :: jsnum
  ce_priceStep :: jsnum

record preflight_result =
  pf_warnings :: "string list"
  pf_evidence :: confirmation_evidence

record oco_preflight_result = preflight_result +
  pf_market :: market_info
  pf_balance :: balance
  pf_balanceAsset :: string
  pf_requiredBalance :: jsnum
  pf_estimatedFee :: "jsnum option"

datatype limit_violation = Below_minimum_amount | Above_maximum_amount | Below_minimum_notional | Above_maximum_notional

datatype preflight_error =
    Not_aligned_to_step
  | Contract_size_missing
  | Not_convertible_to_contracts
  | Market_inactive
  | Market_mismatch
  | Capability_rejected string
  | Limit_violated limit_violation
  | Balance_missing
  | Leverage_unavailable
  | Fee_rate_unavailable
  | Insufficient_balance
  | Preflight_ticker_unavailable
  | Ticker_symbol_mismatch
  | Preflight_price_unavailable
  | Preflight_stop_price_missing
  | Trigger_invalidated
  | Preflight_positions_unavailable
  | Position_not_unique
  | Position_too_small
  | Close_amount_changed
  | Oco_range_invalidated
  | Market_metadata_missing
  | Balances_unavailable

section \<open>Market\<close>

definition marketMatches :: "market_info \<Rightarrow> string \<Rightarrow> string \<Rightarrow> bool \<Rightarrow> bool" where
  "marketMatches market symbol quote futures \<longleftrightarrow>
     mi_symbol market = symbol \<and> mi_quote market = quote \<and>
     (if futures
      then mi_marketType market = Swap_market \<and> mi_contract market \<and> mi_linear market = Some True \<and>
           mi_inverse market \<noteq> Some True \<and> (mi_settle market = None \<or> mi_settle market = Some quote)
      else mi_marketType market = Spot_market \<and> \<not> mi_contract market)"

definition off_step :: "jsnum \<Rightarrow> bool" where
  "off_step units \<longleftrightarrow> js_gt (js_abs (js_sub units (js_round units))) (fl (1 / 10 ^ 9))"

definition exchangeAmount ::
  "(jsnum \<Rightarrow> jsnum) \<Rightarrow> prepared_order \<Rightarrow> market_info \<Rightarrow> bool \<Rightarrow> preflight_error + jsnum \<times> amount_unit" where
  "exchangeAmount pow10 plan market futures =
     (if \<not> futures then
        ebind (case mi_amountStep market of
                 None \<Rightarrow> Inr ()
               | Some step \<Rightarrow>
                   if positive_finite step
                   then let units = js_div (pr_amount plan) step
                        in assert_js (\<not> (\<not> is_finite units \<or> off_step units)) Not_aligned_to_step
                   else Inr ()) (\<lambda>_.
        Inr (pr_amount plan, Base_unit))
      else
        case mi_contractSize market of
          None \<Rightarrow> Inl Contract_size_missing
        | Some contractSize \<Rightarrow>
            ebind (assert_js (positive_finite contractSize) Contract_size_missing) (\<lambda>_.
            let amount = js_div (pr_amount plan) contractSize
            in ebind (assert_js (positive_finite amount) Not_convertible_to_contracts) (\<lambda>_.
               ebind (case futuresAmountStep pow10 market of
                        None \<Rightarrow> Inr ()
                      | Some step \<Rightarrow> assert_js (\<not> off_step (js_div amount step)) Not_aligned_to_step) (\<lambda>_.
               Inr (amount, Contract_unit)))))"

definition marketLimitViolations :: "market_info \<Rightarrow> (jsnum \<times> amount_unit) option \<Rightarrow> jsnum \<Rightarrow> limit_violation list" where
  "marketLimitViolations market amount notional =
     (case amount of
        None \<Rightarrow> []
      | Some (a, _) \<Rightarrow>
          (case market_minAmount market of Some m \<Rightarrow> if js_lt a m then [Below_minimum_amount] else [] | None \<Rightarrow> []) @
          (case mi_limits_amount_max market of Some m \<Rightarrow> if js_gt a m then [Above_maximum_amount] else [] | None \<Rightarrow> [])) @
     (case mi_minNotional market of Some m \<Rightarrow> if js_lt notional m then [Below_minimum_notional] else [] | None \<Rightarrow> []) @
     (case mi_limits_cost_max market of Some m \<Rightarrow> if js_gt notional m then [Above_maximum_notional] else [] | None \<Rightarrow> [])"

definition plan_capability_input :: "place_order_input \<Rightarrow> capability_input" where
  "plan_capability_input i =
     \<lparr>ci_type = in_type i, ci_side = in_side i, ci_reduceOnly = in_reduceOnly i, ci_closePosition = in_closePosition i,
      ci_positionSide = in_positionSide i\<rparr>"

definition plan_capability :: "prepared_order \<Rightarrow> market_info \<Rightarrow> order_capability" where
  "plan_capability plan market =
     evaluateOrderCapability ((pr_capabilityContext plan)\<lparr>cc_marketInfo := Some market\<rparr>) (plan_capability_input (pr_input plan))"

text \<open>\<^verbatim>\<open>symbol.split("/")[1]?.split(":")[0] ?? ""\<close>\<close>

definition symbol_quote_part :: "string \<Rightarrow> string" where
  "symbol_quote_part symbol = (case split_on (CHR ''/'') symbol of _ # rest # _ \<Rightarrow> hd (split_on (CHR '':'') rest) | _ \<Rightarrow> [])"

definition checkMarketLimits :: "(jsnum \<Rightarrow> jsnum) \<Rightarrow> prepared_order \<Rightarrow> market_info \<Rightarrow> bool \<Rightarrow> preflight_error + unit" where
  "checkMarketLimits pow10 plan market futures =
     (let symbol = in_symbol (pr_input plan); cap = plan_capability plan market
      in ebind (assert_js (mi_active market \<noteq> Some False) Market_inactive) (\<lambda>_.
         ebind (assert_js (marketMatches market symbol (symbol_quote_part symbol) futures) Market_mismatch) (\<lambda>_.
         ebind (assert_js (cap_status (oc_capability cap) \<noteq> Unsupported) (Capability_rejected (cap_reason (oc_capability cap)))) (\<lambda>_.
         if oc_omitExchangeQuantity cap then Inr ()
         else ebind (exchangeAmount pow10 plan market futures) (\<lambda>amount.
              case marketLimitViolations market (Some amount) (pr_notional plan) of
                [] \<Rightarrow> Inr () | v # _ \<Rightarrow> Inl (Limit_violated v))))))"

section \<open>Balance\<close>

definition symbol_base :: "string \<Rightarrow> string" where
  "symbol_base symbol = hd (split_on (CHR ''/'') symbol)"

definition requiredBalance :: "prepared_order \<Rightarrow> string \<Rightarrow> bool \<Rightarrow> market_type \<Rightarrow> string option" where
  "requiredBalance plan quote futures marketType =
     (if pr_reducingPosition plan \<noteq> None then None
      else if futures then Some (if marketType = Both then ''futures:'' @ quote else quote)
      else if pr_side plan = Buy then Some quote
      else Some (symbol_base (in_symbol (pr_input plan))))"

definition balance_short :: "jsnum \<Rightarrow> jsnum \<Rightarrow> bool" where
  "balance_short required free \<longleftrightarrow>
     js_gt (js_sub required free) (js_mul (js_mul EPSILON (js_max (js_max (Fin 1) required) (js_abs free))) (Fin 8))"

definition required_amount ::
  "prepared_order \<Rightarrow> bool \<Rightarrow> (string \<Rightarrow> jsnum) \<Rightarrow> jsnum option \<Rightarrow> preflight_error + jsnum" where
  "required_amount plan futures leverageOf feeRate =
     (if \<not> futures then Inr (if pr_side plan = Sell then pr_amount plan else pr_notional plan)
      else
        let leverage = leverageOf (in_symbol (pr_input plan))
        in ebind (assert_js (\<not> (\<not> is_finite leverage \<or> js_lt leverage (Fin 1))) Leverage_unavailable) (\<lambda>_.
           let margin = js_div (pr_notional plan) leverage
           in case feeRate of
                None \<Rightarrow> Inr margin
              | Some rate \<Rightarrow>
                  ebind (assert_js (\<not> (\<not> is_finite rate \<or> js_lt rate (Fin 0) \<or> js_ge rate (Fin 1))) Fee_rate_unavailable) (\<lambda>_.
                  Inr (js_add margin (js_mul (pr_notional plan) rate)))))"

definition checkBalance ::
  "prepared_order \<Rightarrow> balance list \<Rightarrow> string \<Rightarrow> bool \<Rightarrow> market_type \<Rightarrow> (string \<Rightarrow> jsnum) \<Rightarrow> jsnum option \<Rightarrow> preflight_error + unit" where
  "checkBalance plan balances quote futures marketType leverageOf feeRate =
     (case requiredBalance plan quote futures marketType of
        None \<Rightarrow> Inr ()
      | Some asset \<Rightarrow>
          (case find (\<lambda>b. bal_asset b = asset) balances of
             None \<Rightarrow> Inl Balance_missing
           | Some b \<Rightarrow>
               ebind (assert_js (is_finite (bal_free b)) Balance_missing) (\<lambda>_.
               ebind (required_amount plan futures leverageOf feeRate) (\<lambda>required.
               assert_js (\<not> balance_short required (bal_free b)) Insufficient_balance))))"

section \<open>Prices and positions\<close>

definition loadTicker :: "string \<Rightarrow> (string \<Rightarrow> ticker option) \<Rightarrow> preflight_error + ticker" where
  "loadTicker symbol getTicker =
     (case getTicker symbol of
        None \<Rightarrow> Inl Preflight_ticker_unavailable
      | Some t \<Rightarrow> if tk_symbol t \<noteq> symbol then Inl Ticker_symbol_mismatch else Inr t)"

definition finitePrice :: "jsnum option \<Rightarrow> preflight_error + jsnum" where
  "finitePrice value =
     (case value of None \<Rightarrow> Inl Preflight_price_unavailable
      | Some v \<Rightarrow> if positive_finite v then Inr v else Inl Preflight_price_unavailable)"

definition MAX_CONFIRMED_PRICE_DRIFT_RATIO :: jsnum where
  "MAX_CONFIRMED_PRICE_DRIFT_RATIO = fl (1 / 100)"

definition priceStep :: "(jsnum \<Rightarrow> jsnum) \<Rightarrow> market_info \<Rightarrow> jsnum" where
  "priceStep pow10 market =
     (case mi_pricePrecision market of
        None \<Rightarrow> Fin 0
      | Some x \<Rightarrow> if \<not> is_finite x \<or> js_lt x (Fin 0) then Fin 0 else if is_integer x then pow10 (js_neg x) else x)"

definition materiallyChangedPrice :: "jsnum \<Rightarrow> jsnum \<Rightarrow> jsnum \<Rightarrow> bool" where
  "materiallyChangedPrice prepared current step \<longleftrightarrow>
     js_gt (js_abs (js_sub current prepared)) (js_max (js_mul prepared MAX_CONFIRMED_PRICE_DRIFT_RATIO) step)"

definition materiallyChangedNotional :: "jsnum \<Rightarrow> jsnum \<Rightarrow> bool" where
  "materiallyChangedNotional prepared current \<longleftrightarrow>
     js_gt (js_abs (js_sub current prepared)) (js_mul prepared MAX_CONFIRMED_PRICE_DRIFT_RATIO)"

definition marketEvidenceChanged :: "confirmation_evidence \<Rightarrow> 'a preflight_result_scheme \<Rightarrow> bool" where
  "marketEvidenceChanged previous result =
     (let e = pf_evidence result
      in materiallyChangedPrice (ce_referencePrice previous) (ce_referencePrice e) (ce_priceStep e) \<or>
         materiallyChangedNotional (ce_notional previous) (ce_notional e) \<or>
         materiallyChangedNotional (ce_riskNotional previous) (ce_riskNotional e) \<or>
         \<not> futuresAmountsEqual (ce_amount previous) (ce_amount e))"

definition confirmationSnapshotChanged :: "confirmation_evidence \<Rightarrow> string list \<Rightarrow> 'a preflight_result_scheme \<Rightarrow> bool" where
  "confirmationSnapshotChanged previous warnings result \<longleftrightarrow>
     warnings \<noteq> pf_warnings result \<or> marketEvidenceChanged previous result"

definition confirmationEvidence :: "(jsnum \<Rightarrow> jsnum) \<Rightarrow> market_info \<Rightarrow> jsnum \<Rightarrow> jsnum \<Rightarrow> jsnum \<Rightarrow> jsnum \<Rightarrow> confirmation_evidence" where
  "confirmationEvidence pow10 market referencePrice amount notional riskNotional =
     \<lparr>ce_referencePrice = referencePrice, ce_amount = amount, ce_notional = notional, ce_riskNotional = riskNotional,
      ce_priceStep = priceStep pow10 market\<rparr>"

fun currentReferencePrice :: "price_source \<Rightarrow> ticker \<Rightarrow> jsnum option" where
  "currentReferencePrice Ask_price t = tk_ask t"
| "currentReferencePrice Bid_price t = tk_bid t"
| "currentReferencePrice Last_price t = tk_last t"
| "currentReferencePrice _ t = None"

definition dynamic_reference :: "price_source \<Rightarrow> bool" where
  "dynamic_reference src \<longleftrightarrow> src = Ask_price \<or> src = Bid_price \<or> src = Last_price"

definition trigger_order :: "place_order_input \<Rightarrow> bool" where
  "trigger_order i \<longleftrightarrow> in_type i \<in> set STOP_TYPES \<or> (in_type i = Trailing_stop_market \<and> in_stopPrice i \<noteq> None)"

definition validateTrigger :: "prepared_order \<Rightarrow> ticker \<Rightarrow> preflight_error + unit" where
  "validateTrigger plan tick =
     (let t = in_type (pr_input plan)
      in if \<not> trigger_order (pr_input plan) then Inr ()
         else ebind (finitePrice (tk_last tick)) (\<lambda>currentPrice.
              case in_stopPrice (pr_input plan) of
                None \<Rightarrow> Inl Preflight_stop_price_missing
              | Some stopPrice \<Rightarrow>
                  assert_js
                    (if t = Trailing_stop_market
                     then (if pr_side plan = Sell then js_gt stopPrice currentPrice else js_lt stopPrice currentPrice)
                     else (if falls_to_trigger (pr_side plan) t then js_lt stopPrice currentPrice else js_gt stopPrice currentPrice))
                    Trigger_invalidated))"

definition revalidateOrderPrice :: "prepared_order \<Rightarrow> (string \<Rightarrow> ticker option) \<Rightarrow> preflight_error + jsnum" where
  "revalidateOrderPrice plan getTicker =
     (let dynamic = dynamic_reference (pr_referencePriceSource plan)
      in if \<not> dynamic \<and> \<not> trigger_order (pr_input plan) then Inr (pr_referencePrice plan)
         else ebind (loadTicker (in_symbol (pr_input plan)) getTicker) (\<lambda>tick.
              ebind (validateTrigger plan tick) (\<lambda>_.
              if \<not> dynamic then Inr (pr_referencePrice plan)
              else finitePrice (currentReferencePrice (pr_referencePriceSource plan) tick))))"

definition revalidateReducingPosition :: "prepared_order \<Rightarrow> position list option \<Rightarrow> preflight_error + jsnum option" where
  "revalidateReducingPosition plan getPositions =
     (case pr_reducingPosition plan of
        None \<Rightarrow> Inr None
      | Some prepared \<Rightarrow>
          (case getPositions of
             None \<Rightarrow> Inl Preflight_positions_unavailable
           | Some positions \<Rightarrow>
               (case filter (\<lambda>p. pos_symbol p = pos_symbol prepared \<and> js_gt (js_abs (pos_amount p)) (Fin 0) \<and>
                               pos_positionSide p = pos_positionSide prepared \<and> reduceSide p = pr_side plan) positions of
                  [current] \<Rightarrow>
                    let currentAmount = js_abs (pos_amount current)
                    in ebind (assert_js (\<not> (js_lt currentAmount (pr_amount plan) \<and>
                                           \<not> futuresAmountsEqual currentAmount (pr_amount plan))) Position_too_small) (\<lambda>_.
                       if pr_closePosition plan = None then Inr None
                       else ebind (assert_js (futuresAmountsEqual currentAmount (pr_amount plan)) Close_amount_changed) (\<lambda>_.
                            Inr (Some (case pos_quoteValue current of
                                Some v \<Rightarrow> if is_finite v \<and> js_gt v (Fin 0) then v else js_mul currentAmount (pr_referencePrice plan)
                              | None \<Rightarrow> js_mul currentAmount (pr_referencePrice plan)))))
                | _ \<Rightarrow> Inl Position_not_unique)))"

definition revalidateOcoPrice :: "prepared_oco \<Rightarrow> (string \<Rightarrow> ticker option) \<Rightarrow> preflight_error + jsnum" where
  "revalidateOcoPrice plan getTicker =
     ebind (loadTicker (oco_symbol (po_input plan)) getTicker) (\<lambda>tick.
     ebind (finitePrice (tk_last tick)) (\<lambda>currentPrice.
     ebind (assert_js
              (if oco_side (po_input plan) = Sell
               then js_lt (oco_stopLossPrice (po_input plan)) currentPrice \<and> js_lt currentPrice (oco_takeProfitPrice (po_input plan))
               else js_lt (oco_takeProfitPrice (po_input plan)) currentPrice \<and> js_lt currentPrice (oco_stopLossPrice (po_input plan)))
              Oco_range_invalidated) (\<lambda>_.
     Inr currentPrice)))"

section \<open>Preflight\<close>

definition capability_warnings :: "capability \<Rightarrow> string list" where
  "capability_warnings c = (if cap_status c = Capability_unknown then [cap_reason c] else [])"

definition preflightOrder :: "(jsnum \<Rightarrow> jsnum) \<Rightarrow> prepared_order \<Rightarrow> preflight_view \<Rightarrow> preflight_error + preflight_result" where
  "preflightOrder pow10 plan v =
     (let symbol = in_symbol (pr_input plan); futures = isFuturesSymbol symbol (pv_quoteCurrency v)
      in case pv_market v symbol of
           None \<Rightarrow> Inl Market_metadata_missing
         | Some market \<Rightarrow>
             ebind (checkMarketLimits pow10 plan market futures) (\<lambda>_.
             ebind (revalidateOrderPrice plan (pv_ticker v)) (\<lambda>referencePrice.
             ebind (revalidateReducingPosition plan (pv_positions v)) (\<lambda>closeNotional.
             case pv_balances v of
               None \<Rightarrow> Inl Balances_unavailable
             | Some balances \<Rightarrow>
                 ebind (checkBalance plan balances (pv_quoteCurrency v) futures (pv_marketType v) (pv_leverage v) (pv_feeRate v)) (\<lambda>_.
                 let notional = opt_default (if dynamic_reference (pr_referencePriceSource plan)
                       then js_mul (pr_amount plan) referencePrice else pr_notional plan) closeNotional
                 in Inr \<lparr>pf_warnings = capability_warnings (oc_capability (plan_capability plan market)),
                         pf_evidence = confirmationEvidence pow10 market referencePrice (pr_amount plan) notional notional\<rparr>)))))"

definition oco_limit_violation :: "prepared_oco \<Rightarrow> market_info \<Rightarrow> preflight_error + unit" where
  "oco_limit_violation plan market =
     (let amount = oco_amount (po_input plan)
      in ebind (assert_js (case market_minAmount market of None \<Rightarrow> True | Some m \<Rightarrow> \<not> js_lt amount m) (Limit_violated Below_minimum_amount)) (\<lambda>_.
         ebind (assert_js (case mi_limits_amount_max market of None \<Rightarrow> True | Some m \<Rightarrow> \<not> js_gt amount m) (Limit_violated Above_maximum_amount)) (\<lambda>_.
         ebind (assert_js (case mi_minNotional market of None \<Rightarrow> True | Some m \<Rightarrow> \<not> js_lt (po_riskNotional plan) m) (Limit_violated Below_minimum_notional)) (\<lambda>_.
         assert_js (case mi_limits_cost_max market of None \<Rightarrow> True | Some m \<Rightarrow> \<not> js_gt (po_riskNotional plan) m) (Limit_violated Above_maximum_notional)))))"

definition oco_required :: "prepared_oco \<Rightarrow> jsnum option \<Rightarrow> jsnum" where
  "oco_required plan fee =
     (let i = po_input plan
      in if oco_side i = Sell then oco_amount i
         else js_add (js_mul (oco_amount i) (js_max (oco_stopLossPrice i) (oco_takeProfitPrice i))) (opt_default (Fin 0) fee))"

text \<open>\<open>revalidate\<close> says whether the caller passed \<^verbatim>\<open>getTicker\<close>.\<close>

definition preflightOco :: "(jsnum \<Rightarrow> jsnum) \<Rightarrow> bool \<Rightarrow> prepared_oco \<Rightarrow> preflight_view \<Rightarrow> preflight_error + oco_preflight_result" where
  "preflightOco pow10 revalidate plan v =
     (let i = po_input plan
      in case pv_market v (oco_symbol i) of
           None \<Rightarrow> Inl Market_metadata_missing
         | Some market \<Rightarrow>
             ebind (assert_js (mi_active market \<noteq> Some False) Market_inactive) (\<lambda>_.
             ebind (assert_js (marketMatches market (oco_symbol i) (pv_quoteCurrency v) False) Market_mismatch) (\<lambda>_.
             ebind (if revalidate then revalidateOcoPrice plan (pv_ticker v) else Inr (po_referencePrice plan)) (\<lambda>referencePrice.
             let cap = tc_oco (getTradingCapabilities ((po_capabilityContext plan)\<lparr>cc_marketInfo := Some market\<rparr>)) (oco_side i)
             in ebind (assert_js (cap_status cap \<noteq> Unsupported) (Capability_rejected (cap_reason cap))) (\<lambda>_.
                ebind (oco_limit_violation plan market) (\<lambda>_.
                case pv_balances v of
                  None \<Rightarrow> Inl Balances_unavailable
                | Some balances \<Rightarrow>
                    let asset = (if oco_side i = Sell then symbol_base (oco_symbol i) else pv_quoteCurrency v);
                        fee = map_option (js_mul (po_riskNotional plan)) (pv_feeRate v); required = oco_required plan fee
                    in case find (\<lambda>b. bal_asset b = asset) balances of
                         None \<Rightarrow> Inl Balance_missing
                       | Some b \<Rightarrow>
                           ebind (assert_js (is_finite (bal_free b)) Balance_missing) (\<lambda>_.
                           ebind (assert_js (\<not> js_lt (bal_free b) required) Insufficient_balance) (\<lambda>_.
                           let observed = js_mul (oco_amount i) referencePrice;
                               risk = (if oco_side i = Buy then po_riskNotional plan else observed)
                           in Inr \<lparr>pf_warnings = capability_warnings cap,
                                   pf_evidence = confirmationEvidence pow10 market referencePrice (oco_amount i) observed risk,
                                   pf_market = market, pf_balance = b, pf_balanceAsset = asset, pf_requiredBalance = required,
                                   pf_estimatedFee = fee\<rparr>))))))))"


section \<open>An order that passes is covered\<close>

definition covered_by_position :: "prepared_order \<Rightarrow> position list option \<Rightarrow> bool" where
  "covered_by_position plan getPositions \<longleftrightarrow>
     (\<exists>prepared positions p. pr_reducingPosition plan = Some prepared \<and> getPositions = Some positions \<and> p \<in> set positions \<and>
        pos_symbol p = pos_symbol prepared \<and> pos_positionSide p = pos_positionSide prepared \<and> reduceSide p = pr_side plan \<and>
        (js_lt (js_abs (pos_amount p)) (pr_amount plan) \<longrightarrow> futuresAmountsEqual (js_abs (pos_amount p)) (pr_amount plan)) \<and>
        (pr_closePosition plan \<noteq> None \<longrightarrow> futuresAmountsEqual (js_abs (pos_amount p)) (pr_amount plan)))"

text \<open>What an order that opens or adds may rest on, stated from the order and the account only: the asset it spends, the
  amount it takes of it, and that the free balance reaches that amount up to a relative excess of \<open>2 ^ -48\<close>. Numbers
  of the language are doubles; a sum that overflowed to an infinity is no amount.\<close>

definition spent_asset :: "prepared_order \<Rightarrow> preflight_view \<Rightarrow> string" where
  "spent_asset plan v =
     (let symbol = in_symbol (pr_input plan); quote = pv_quoteCurrency v
      in if isFuturesSymbol symbol quote then (if pv_marketType v = Both then ''futures:'' @ quote else quote)
         else case pr_side plan of Buy \<Rightarrow> quote | Sell \<Rightarrow> takeWhile (\<lambda>c. c \<noteq> CHR ''/'') symbol)"

definition needed_balance :: "prepared_order \<Rightarrow> preflight_view \<Rightarrow> jsnum" where
  "needed_balance plan v =
     (let symbol = in_symbol (pr_input plan); margin = js_div (pr_notional plan) (pv_leverage v symbol)
      in if isFuturesSymbol symbol (pv_quoteCurrency v)
         then (case pv_feeRate v of None \<Rightarrow> margin | Some rate \<Rightarrow> js_add margin (js_mul (pr_notional plan) rate))
         else case pr_side plan of Buy \<Rightarrow> pr_notional plan | Sell \<Rightarrow> pr_amount plan)"

definition usable_terms :: "prepared_order \<Rightarrow> preflight_view \<Rightarrow> bool" where
  "usable_terms plan v \<longleftrightarrow>
     (\<exists>l. pv_leverage v (in_symbol (pr_input plan)) = Fin l \<and> 1 \<le> l) \<and>
     (case pv_feeRate v of None \<Rightarrow> True | Some rate \<Rightarrow> (\<exists>x. rate = Fin x \<and> 0 \<le> x \<and> x < 1))"

definition covered_by_balance :: "prepared_order \<Rightarrow> preflight_view \<Rightarrow> bool" where
  "covered_by_balance plan v \<longleftrightarrow>
     (isFuturesSymbol (in_symbol (pr_input plan)) (pv_quoteCurrency v) \<longrightarrow> usable_terms plan v) \<and>
     (\<exists>balances b free.
        pv_balances v = Some balances \<and> b \<in> set balances \<and> bal_asset b = spent_asset plan v \<and> bal_free b = Fin free \<and>
        (\<forall>needed. needed_balance plan v = Fin needed \<longrightarrow> is_double needed \<longrightarrow> is_double free \<longrightarrow>
           needed \<le> free + max 1 (max needed \<bar>free\<bar>) / 2 ^ 48))"

lemma double_below: "is_double x \<Longrightarrow> \<bar>x\<bar> < 2 powi 1024"
  by (auto simp: is_double_def fl_def Let_def split: if_splits)

lemma fl_below_finite:
  assumes "\<bar>x\<bar> \<le> 2 powi 1000" obtains y where "fl x = Fin y"
proof -
  have e: "fl (2 powi 1000) = Fin (2 powi 1000)" by (rule fl_exact[where m = 1 and k = 1000]) (simp_all add: powi_less_iff_exp)
  then have n: "fl (- (2 powi 1000)) = Fin (- (2 powi 1000))" by (simp add: fl_uminus)
  have b: "x \<le> 2 powi 1000" "- (2 powi 1000) \<le> x" using assms by linarith+
  show ?thesis using fl_mono[OF b(1)] fl_mono[OF b(2)] that unfolding e n by (cases "fl x") (auto simp: js_le_def)
qed

lemma small_error: "1 \<le> m \<Longrightarrow> (2::rat) powi (-1075) \<le> m / 2 ^ 200"
proof -
  assume m: "1 \<le> (m::rat)"
  have "(2::rat) powi (-1075) \<le> 2 powi (-200)" by (rule power_int_increasing) auto
  also have "\<dots> = 1 / 2 ^ 200" by (simp add: power_int_def power_one_over inverse_eq_divide)
  also have "\<dots> \<le> m / 2 ^ 200" using m by (rule divide_right_mono) simp
  finally show ?thesis .
qed

lemma tolerance_bound:
  assumes m: "1 \<le> m" "m < 2 powi 1024"
  obtains b where "js_mul (js_mul EPSILON (Fin m)) (Fin 8) = Fin b" "b \<le> m / 2 ^ 49 + m / 2 ^ 90"
proof -
  have p: "(2::rat) powi 1024 = 2 ^ 52 * 2 powi 972" 
    using power_int_add[of "2::rat" 52 972] by simp
  have k: "(2::rat) powi 972 * 16 \<le> 2 powi 1000"
  proof -
    have "(2::rat) powi 972 * 16 = 2 powi 976" using power_int_add[of "2::rat" 972 4] by simp
    also have "\<dots> \<le> 2 powi 1000" by (rule power_int_increasing) auto
    finally show ?thesis .
  qed
  define x where "x = m / 2 ^ 52"
  have x: "0 < x" "x < 2 powi 972" using m p by (auto simp: x_def field_simps)
  have eps: "js_mul EPSILON (Fin m) = fl x"
    by (simp add: EPSILON_def x_def power_int_def power_one_over inverse_eq_divide)
  have "\<bar>x\<bar> \<le> 2 powi 1000" using x k by linarith
  from fl_below_finite[OF this] obtain a where a: "fl x = Fin a" by blast
  have ae: "\<bar>a - x\<bar> \<le> x / 2 ^ 53 + m / 2 ^ 200" using fl_error[OF a] small_error[OF m(1)] x(1) by simp
  have mx: "m / 2 ^ 200 = x / 2 ^ 148" by (simp add: x_def)
  have "a - x \<le> x / 2 ^ 53 + x / 2 ^ 148" "x - a \<le> x / 2 ^ 53 + x / 2 ^ 148" using ae unfolding mx by linarith+
  then have a2: "0 < a" "a \<le> x + x / 2 ^ 52" using x(1) by (simp_all add: field_simps)
  then have "a \<le> 2 * x" using x(1) by (simp add: field_simps)
  then have "\<bar>a * 8\<bar> \<le> 2 powi 1000" using x k a2(1) by (simp add: abs_mult)
  from fl_below_finite[OF this] obtain b where b: "fl (a * 8) = Fin b" by blast
  have be: "\<bar>b - a * 8\<bar> \<le> a * 8 / 2 ^ 53 + m / 2 ^ 200" using fl_error[OF b] small_error[OF m(1)] a2(1) by (simp add: abs_mult)
  then have "b - a * 8 \<le> a * 8 / 2 ^ 53 + m / 2 ^ 200" by linarith
  then have "b \<le> m / 2 ^ 49 + m / 2 ^ 90" using a2 m(1) unfolding x_def by (simp add: field_simps)
  then show ?thesis using eps a b that by simp
qed

lemma not_short_within:
  assumes "\<not> balance_short (Fin q) (Fin f)" "is_double q" "is_double f"
  shows "q \<le> f + max 1 (max q \<bar>f\<bar>) / 2 ^ 48"
proof (cases "q \<le> f")
  case True
  moreover have "0 \<le> max 1 (max q \<bar>f\<bar>) / 2 ^ 48" by (intro divide_nonneg_nonneg) (auto simp: le_max_iff_disj)
  ultimately show ?thesis by linarith
next
  case False
  define m where "m = max 1 (max q \<bar>f\<bar>)"
  have m: "1 \<le> m" "q \<le> m" "\<bar>f\<bar> \<le> m" by (auto simp: m_def)
  have "(1::rat) < 2 powi 1024" using powi_less_iff_exp[of 0 1024] by simp
  then have big: "m < 2 powi 1024" using double_below[OF assms(2)] double_below[OF assms(3)] by (auto simp: m_def)
  have js_m: "js_max (js_max (Fin 1) (Fin q)) (Fin \<bar>f\<bar>) = Fin m" by (auto simp: js_max_def m_def max_def)
  from tolerance_bound[OF m(1) big] obtain b where
    b: "js_mul (js_mul EPSILON (Fin m)) (Fin 8) = Fin b" "b \<le> m / 2 ^ 49 + m / 2 ^ 90" by blast
  have ok: "\<not> js_gt (fl (q - f)) (Fin b)" using assms(1) b(1) by (simp add: balance_short_def js_sub_def js_m)
  from False have d: "0 \<le> q - f" by simp
  from fl_nonneg[OF d] ok obtain c where c: "fl (q - f) = Fin c" by auto
  with ok have cb: "c \<le> b" by simp
  have "\<bar>c - (q - f)\<bar> \<le> (q - f) / 2 ^ 53 + m / 2 ^ 200" using fl_error[OF c] small_error[OF m(1)] d by simp
  then have "(q - f) - c \<le> (q - f) / 2 ^ 53 + m / 2 ^ 200" by linarith
  moreover have "q - f \<le> 2 * m" using m by linarith
  ultimately have "q - f \<le> m / 2 ^ 48" using cb b(2) m(1) by (simp add: field_simps)
  then show ?thesis by (simp add: m_def)
qed

lemma reducing_covered:
  assumes "revalidateReducingPosition plan getPositions = Inr r" "pr_reducingPosition plan \<noteq> None"
  shows "covered_by_position plan getPositions"
proof -
  from assms(2) obtain prepared where prepared: "pr_reducingPosition plan = Some prepared" by auto
  let ?P = "\<lambda>p. pos_symbol p = pos_symbol prepared \<and> js_gt (js_abs (pos_amount p)) (Fin 0) \<and>
      pos_positionSide p = pos_positionSide prepared \<and> reduceSide p = pr_side plan"
  from assms(1) prepared obtain positions p where p: "getPositions = Some positions" "filter ?P positions = [p]"
    "\<not> (js_lt (js_abs (pos_amount p)) (pr_amount plan) \<and> \<not> futuresAmountsEqual (js_abs (pos_amount p)) (pr_amount plan))"
    "pr_closePosition plan = None \<or> futuresAmountsEqual (js_abs (pos_amount p)) (pr_amount plan)"
    by (auto simp: revalidateReducingPosition_def Let_def result_simps split: option.splits list.splits if_splits)
  have "p \<in> set (filter ?P positions)" using p(2) by simp
  then have m: "p \<in> set positions" "?P p" by simp_all
  show ?thesis
    unfolding covered_by_position_def
    by (rule exI[of _ prepared], rule exI[of _ positions], rule exI[of _ p]) (use p(1,3,4) m prepared in auto)
qed

lemma find_SomeD: "find P xs = Some x \<Longrightarrow> x \<in> set xs \<and> P x"
  by (auto simp: find_Some_iff)

lemma hd_split_on: "hd (split_on c s) = takeWhile (\<lambda>x. x \<noteq> c) s"
  by (induction s) (auto split: list.splits simp: neq_Nil_conv)

lemma checked_balance:
  assumes "pr_reducingPosition plan = None"
    "checkBalance plan balances (pv_quoteCurrency v) (isFuturesSymbol (in_symbol (pr_input plan)) (pv_quoteCurrency v))
       (pv_marketType v) (pv_leverage v) (pv_feeRate v) = Inr u"
  obtains b free where "b \<in> set balances" "bal_asset b = spent_asset plan v" "bal_free b = Fin free"
    "\<not> balance_short (needed_balance plan v) (Fin free)"
    "isFuturesSymbol (in_symbol (pr_input plan)) (pv_quoteCurrency v) \<longrightarrow> usable_terms plan v"
proof -
  let ?f = "isFuturesSymbol (in_symbol (pr_input plan)) (pv_quoteCurrency v)"
  have a: "requiredBalance plan (pv_quoteCurrency v) ?f (pv_marketType v) = Some (spent_asset plan v)"
    using assms(1) by (cases "pr_side plan") (auto simp: requiredBalance_def spent_asset_def symbol_base_def hd_split_on Let_def)
  from assms(2) a obtain b required where b: "find (\<lambda>b. bal_asset b = spent_asset plan v) balances = Some b"
    "is_finite (bal_free b)" "required_amount plan ?f (pv_leverage v) (pv_feeRate v) = Inr required"
    "\<not> balance_short required (bal_free b)"
    by (auto simp: checkBalance_def result_simps split: option.splits)
  from b(2) obtain free where free: "bal_free b = Fin free" by (auto simp: is_finite_iff)
  have "required = needed_balance plan v" "?f \<longrightarrow> usable_terms plan v"
    using b(3) by (cases "pr_side plan"; auto simp: required_amount_def needed_balance_def usable_terms_def Let_def result_simps
        is_finite_iff split: if_splits option.splits)+
  then show ?thesis using that find_SomeD[OF b(1)] b(4) free by auto
qed

lemma balance_covered:
  assumes "pv_balances v = Some balances" "pr_reducingPosition plan = None"
    "checkBalance plan balances (pv_quoteCurrency v) (isFuturesSymbol (in_symbol (pr_input plan)) (pv_quoteCurrency v))
       (pv_marketType v) (pv_leverage v) (pv_feeRate v) = Inr u"
  shows "covered_by_balance plan v"
proof -
  from checked_balance[OF assms(2,3)] obtain b free where b: "b \<in> set balances" "bal_asset b = spent_asset plan v"
    "bal_free b = Fin free" "\<not> balance_short (needed_balance plan v) (Fin free)"
    "isFuturesSymbol (in_symbol (pr_input plan)) (pv_quoteCurrency v) \<longrightarrow> usable_terms plan v" by metis
  have "\<forall>needed. needed_balance plan v = Fin needed \<longrightarrow> is_double needed \<longrightarrow> is_double free \<longrightarrow>
      needed \<le> free + max 1 (max needed \<bar>free\<bar>) / 2 ^ 48"
    using b(4) not_short_within by (intro allI impI) metis
  with b show ?thesis using assms(1) unfolding covered_by_balance_def by blast
qed

lemma preflightOrder_Inr:
  assumes "preflightOrder pow10 plan v = Inr r"
  obtains market referencePrice closeNotional balances where
    "pv_market v (in_symbol (pr_input plan)) = Some market"
    "checkMarketLimits pow10 plan market (isFuturesSymbol (in_symbol (pr_input plan)) (pv_quoteCurrency v)) = Inr ()"
    "revalidateOrderPrice plan (pv_ticker v) = Inr referencePrice"
    "revalidateReducingPosition plan (pv_positions v) = Inr closeNotional" "pv_balances v = Some balances"
    "checkBalance plan balances (pv_quoteCurrency v) (isFuturesSymbol (in_symbol (pr_input plan)) (pv_quoteCurrency v))
       (pv_marketType v) (pv_leverage v) (pv_feeRate v) = Inr ()"
    "ce_amount (pf_evidence r) = pr_amount plan" "ce_referencePrice (pf_evidence r) = referencePrice"
    "ce_notional (pf_evidence r) = ce_riskNotional (pf_evidence r)"
  using assms unfolding preflightOrder_def Let_def
  by (auto simp: result_simps confirmationEvidence_def split: option.splits)

lemma revalidated_trigger:
  assumes "revalidateOrderPrice plan getTicker = Inr x" "trigger_order (pr_input plan)" "in_type (pr_input plan) \<in> set STOP_TYPES"
  shows "\<exists>tick last stop. getTicker (in_symbol (pr_input plan)) = Some tick \<and> tk_last tick = Some last \<and>
     in_stopPrice (pr_input plan) = Some stop \<and>
     (if falls_to_trigger (pr_side plan) (in_type (pr_input plan)) then js_lt stop last else js_gt stop last)"
proof -
  from assms(1,2) obtain tick where t: "loadTicker (in_symbol (pr_input plan)) getTicker = Inr tick" "validateTrigger plan tick = Inr ()"
    by (auto simp: revalidateOrderPrice_def Let_def result_simps split: if_splits)
  have n: "in_type (pr_input plan) \<noteq> Trailing_stop_market" using assms(3) by (auto simp: STOP_TYPES_def)
  from t(2) assms(2) n obtain last stop where "tk_last tick = Some last" "in_stopPrice (pr_input plan) = Some stop"
    "if falls_to_trigger (pr_side plan) (in_type (pr_input plan)) then js_lt stop last else js_gt stop last"
    by (auto simp: validateTrigger_def Let_def finitePrice_def result_simps split: option.splits if_splits)
  moreover have "getTicker (in_symbol (pr_input plan)) = Some tick"
    using t(1) by (auto simp: loadTicker_def split: option.splits if_splits)
  ultimately show ?thesis by blast
qed

text \<open>C21. An order that passes its preflight is covered by what the exchange just reported: a reducing order by exactly
  one open position on its leg that is still large enough (for a close, still of the same size), any other order
  by a free balance of the asset it spends that reaches what the order needs (the amount of a spot sale, the notional of
  a spot purchase, the margin and the fee of a futures order) up to one part in \<open>2 ^ 48\<close>. Its
  market is active and is the one asked for, and a conditional order still waits for its trigger.\<close>

theorem preflight_means_covered:
  assumes "preflightOrder pow10 plan v = Inr r"
  shows "(if pr_reducingPosition plan \<noteq> None then covered_by_position plan (pv_positions v) else covered_by_balance plan v) \<and>
    (\<exists>market. pv_market v (in_symbol (pr_input plan)) = Some market \<and> mi_active market \<noteq> Some False \<and>
       mi_symbol market = in_symbol (pr_input plan)) \<and>
    (in_type (pr_input plan) \<in> set STOP_TYPES \<longrightarrow>
       (\<exists>tick last stop. pv_ticker v (in_symbol (pr_input plan)) = Some tick \<and> tk_last tick = Some last \<and>
          in_stopPrice (pr_input plan) = Some stop \<and>
          (if falls_to_trigger (pr_side plan) (in_type (pr_input plan)) then js_lt stop last else js_gt stop last)))"
proof (rule preflightOrder_Inr[OF assms], goal_cases)
  case (1 market referencePrice closeNotional balances)
  have "if pr_reducingPosition plan \<noteq> None then covered_by_position plan (pv_positions v) else covered_by_balance plan v"
    using reducing_covered[OF 1(4)] balance_covered[OF 1(5) _ 1(6)] by simp
  moreover have "mi_active market \<noteq> Some False" "mi_symbol market = in_symbol (pr_input plan)"
    using 1(2) by (auto simp: checkMarketLimits_def Let_def marketMatches_def result_simps)
  moreover have "trigger_order (pr_input plan)" if "in_type (pr_input plan) \<in> set STOP_TYPES"
    using that by (simp add: trigger_order_def)
  ultimately show ?case using 1(1) revalidated_trigger[OF 1(3)] by blast
qed

section \<open>Witness\<close>

definition demo_market :: market_info where
  "demo_market = \<lparr>mi_symbol = ''BTC/USDT'', mi_base = ''BTC'', mi_quote = ''USDT'', mi_settle = None, mi_marketType = Spot_market,
     mi_contract = False, mi_contractType = None, mi_pair = None, mi_marginAsset = None, mi_status = None, mi_onboardDate = None,
     mi_deliveryDate = None, mi_orderTypes = None, mi_timeInForce = None, mi_linear = None, mi_inverse = None, mi_active = Some True,
     mi_amountUnit = None, mi_contractSize = None, mi_pricePrecision = None, mi_amountPrecision = None, mi_amountStep = None,
     mi_minAmount = None, mi_minNotional = None, mi_limits_amount_min = None, mi_limits_amount_max = None,
     mi_limits_cost_min = None, mi_limits_cost_max = None\<rparr>"

definition demo_view :: preflight_view where
  "demo_view = \<lparr>pv_market = (\<lambda>_. Some demo_market),
     pv_balances = Some [\<lparr>bal_asset = ''BTC'', bal_free = Fin 2, bal_used = Fin 0, bal_total = Fin 2, bal_quoteValue = None\<rparr>],
     pv_ticker = (\<lambda>_. Some (demo_ticker\<lparr>tk_last := Some (Fin 110)\<rparr>)), pv_positions = Some [], pv_quoteCurrency = ''USDT'', pv_marketType = Spot,
     pv_leverage = (\<lambda>_. Fin 1), pv_feeRate = None\<rparr>"

definition demo_plan :: prepared_order where
  "demo_plan = \<lparr>pr_input = \<lparr>in_symbol = ''BTC/USDT'', in_side = Sell, in_type = Stop_market, in_amount = Fin 1, in_price = None,
       in_reduceOnly = None, in_positionSide = None, in_stopPrice = Some (Fin 100), in_trailingPercent = None, in_closePosition = None,
       in_clientOrderId = None\<rparr>,
     pr_capabilityContext = planning_capability_context demo_trading False, pr_side = Sell, pr_amount = Fin 1, pr_notional = Fin 100,
     pr_referencePrice = Fin 100, pr_referencePriceSource = Stop_price, pr_referenceTimestamp = Fin 0,
     pr_countTowardsDailyLimit = False, pr_closePosition = None, pr_reducingPosition = None, pr_reduceOnlyRequested = False,
     pr_reduceOnlyApplied = False, pr_exchangeConstraint = None\<rparr>"

lemma demo_plan_capability:
  "cap_status (oc_capability (plan_capability demo_plan demo_market)) = Supported"
  "\<not> oc_omitExchangeQuantity (plan_capability demo_plan demo_market)"
proof -
  let ?ctx = "(planning_capability_context demo_trading False)\<lparr>cc_marketInfo := Some demo_market\<rparr>"
  have c: "cc_marketFamily ?ctx = Spot_family" "cc_mode ?ctx = Paper" "cc_marketInfo ?ctx = Some demo_market" "cc_metadataValid ?ctx = None"
    by (simp_all add: planning_capability_context_def demo_trading_def)
  have sc: "cs_context (scope_of ?ctx) = ?ctx" "cs_venue (scope_of ?ctx) = None" by (simp_all add: scope_of_def c)
  have pr: "cs_profile (scope_of ?ctx) = Some (PAPER_CAPABILITY_MATRIX ! 0)"
    by (simp add: scope_of_def c TRADING_CAPABILITY_MATRIX_def PAPER_CAPABILITY_MATRIX_def)
  have i: "plan_capability_input (pr_input demo_plan) =
      \<lparr>ci_type = Stop_market, ci_side = Sell, ci_reduceOnly = None, ci_closePosition = None, ci_positionSide = None\<rparr>"
    by (simp add: plan_capability_input_def demo_plan_def)
  have x: "pr_capabilityContext demo_plan = planning_capability_context demo_trading False" by (simp add: demo_plan_def)
  have "cap_status (submission_capability (scope_of ?ctx) Stop_market) = Supported"
    by (simp add: submission_capability_def Let_def pr sc c cap_contract_def cap_unavailable_def
        unavailableMarketCapability_def unresolvedFamily_def or_else_def orderTypeFromMarketInfo_def normalizedOrderTypes_def
        PAPER_CAPABILITY_MATRIX_def ORDER_TYPES_def)
       (simp add: demo_market_def)
  moreover have "order_objections ?ctx
       \<lparr>ci_type = Stop_market, ci_side = Sell, ci_reduceOnly = None, ci_closePosition = None, ci_positionSide = None\<rparr> m = []" for m
    by (simp add: order_objections_def Let_def c)
  ultimately show "cap_status (oc_capability (plan_capability demo_plan demo_market)) = Supported"
    by (simp add: plan_capability_def x i evaluateOrderCapability_def Let_def getTradingCapabilities_def)
  show "\<not> oc_omitExchangeQuantity (plan_capability demo_plan demo_market)"
    using c(2) by (simp add: plan_capability_def x i evaluateOrderCapability_def Let_def defaultWireMapping_def)
qed

lemma no_shortfall: "0 \<le> x \<Longrightarrow> \<not> js_gt (fl (- 1)) (js_mul (fl x) (Fin 8))"
proof -
  assume x: "0 \<le> x"
  have m: "fl (- 1) = Fin (- 1)" using fl_uminus[of 1] by simp
  from x consider "fl x = PInf" | y where "fl x = Fin y" "0 \<le> y" using fl_nonneg by blast
  then show ?thesis
  proof cases
    case (2 y)
    then have "0 \<le> y * 8" by simp
    from fl_nonneg[OF this] 2 show ?thesis by (auto simp: m)
  qed (simp add: m inf_of_def)
qed

definition demo_evidence :: confirmation_evidence where
  "demo_evidence = \<lparr>ce_referencePrice = Fin 100, ce_amount = Fin 1, ce_notional = Fin 100, ce_riskNotional = Fin 100, ce_priceStep = Fin 0\<rparr>"

lemma demo_preflight: "preflightOrder (\<lambda>x. x) demo_plan demo_view = Inr \<lparr>pf_warnings = [], pf_evidence = demo_evidence\<rparr>"
proof -
  have f: "in_symbol (pr_input demo_plan) = ''BTC/USDT''" "pv_quoteCurrency demo_view = ''USDT''" "pv_market demo_view k = Some demo_market"
    "pr_reducingPosition demo_plan = None" "pv_ticker demo_view k = Some (demo_ticker\<lparr>tk_last := Some (Fin 110)\<rparr>)" for k
    by (simp_all add: demo_plan_def demo_view_def)
  have s: "\<not> isFuturesSymbol ''BTC/USDT'' ''USDT''" by (simp add: isFuturesSymbol_def suffix_def)
  have m: "marketMatches demo_market ''BTC/USDT'' (symbol_quote_part ''BTC/USDT'') False" "mi_active demo_market = Some True"
    by (simp_all add: marketMatches_def symbol_quote_part_def demo_market_def)
  have "exchangeAmount (\<lambda>x. x) demo_plan demo_market False = Inr (Fin 1, Base_unit)"
    by (simp add: exchangeAmount_def demo_market_def demo_plan_def)
  then have l: "checkMarketLimits (\<lambda>x. x) demo_plan demo_market False = Inr ()"
    using m demo_plan_capability
    by (simp add: checkMarketLimits_def Let_def f marketLimitViolations_def)
       (simp add: demo_market_def market_minAmount_def or_else_def)
  have p: "revalidateOrderPrice demo_plan (pv_ticker demo_view) = Inr (Fin 100)"
    by (simp add: revalidateOrderPrice_def Let_def f loadTicker_def validateTrigger_def finitePrice_def dynamic_reference_def)
       (simp add: demo_plan_def demo_ticker_def trigger_order_def STOP_TYPES_def positive_finite_def falls_to_trigger_def)
  have b: "checkBalance demo_plan balances ''USDT'' False Spot lev fee = Inr ()"
    if "balances = [\<lparr>bal_asset = ''BTC'', bal_free = Fin 2, bal_used = Fin 0, bal_total = Fin 2, bal_quoteValue = None\<rparr>]" for balances lev fee
    using that
    by (simp add: checkBalance_def requiredBalance_def f symbol_base_def required_amount_def)
       (simp add: demo_plan_def balance_short_def js_sub_def js_max_def EPSILON_def no_shortfall)
  have "pv_balances demo_view = Some [\<lparr>bal_asset = ''BTC'', bal_free = Fin 2, bal_used = Fin 0, bal_total = Fin 2, bal_quoteValue = None\<rparr>]"
    "pv_marketType demo_view = Spot"
    by (simp_all add: demo_view_def)
  moreover have "pr_notional demo_plan = Fin 100" "pr_amount demo_plan = Fin 1" "\<not> dynamic_reference (pr_referencePriceSource demo_plan)"
    by (simp_all add: demo_plan_def dynamic_reference_def)
  moreover have "capability_warnings (oc_capability (plan_capability demo_plan demo_market)) = []"
    using demo_plan_capability by (simp add: capability_warnings_def)
  moreover have "confirmationEvidence (\<lambda>x. x) demo_market (Fin 100) (Fin 1) (Fin 100) (Fin 100) = demo_evidence"
    by (simp add: confirmationEvidence_def demo_evidence_def priceStep_def demo_market_def)
  ultimately show ?thesis
    using l p b s by (simp add: preflightOrder_def Let_def f revalidateReducingPosition_def opt_default_def)
qed

theorem preflight_means_covered_witness:
  "\<exists>r. preflightOrder (\<lambda>x. x) demo_plan demo_view = Inr r \<and> covered_by_balance demo_plan demo_view"
proof -
  note r = demo_preflight
  have "pr_reducingPosition demo_plan = None" by (simp add: demo_plan_def)
  with preflight_means_covered[OF r] r show ?thesis by auto
qed

end
