(* ===== verification/Execution_Journal.thy ===== *)
theory Execution_Journal
  imports Orders
begin

text \<open>
  The execution journal (\<^verbatim>\<open>packages/trading-engine/src/execution-journal.ts\<close>): the durable records of
  order submissions, kept in the same stored state as the risk quota, with the validation of the whole
  state before and after every transaction and one definition per method of \<^verbatim>\<open>ExecutionJournal\<close>.
  \<^verbatim>\<open>sha256\<close> and the JSON text of an intent come from the platform (\<open>journal_platform\<close>); what a call
  asks the platform for (clock, wall clock, fresh identifiers) is its environment (\<open>journal_env\<close>). The
  clock is read once per call. Timestamps are time values; the sources compare their ISO texts, which is
  the same order for the years 0 to 9999. Revisions, attempts and generations are natural numbers with
  the bound the code checks, \<^verbatim>\<open>Number.isSafeInteger\<close>.
\<close>

section \<open>Data model\<close>

datatype execution_status =
  Prepared | Submission_started | Acknowledged | Definite_rejection | Unknown_outcome | Reconciled

datatype execution_issue =
    Submission_unknown | Lookup_unavailable | Lookup_unsupported | Evidence_conflict | Account_mismatch
  | Attempts_exhausted

record execution_scope =
  sc_accountId :: string
  sc_exchange :: string
  sc_mode :: trading_mode
  sc_marketType :: market_type
  sc_quoteCurrency :: string
  sc_positionMode :: position_mode

datatype evidence_source = From_submission | From_lookup | From_operator

record evidence_order =
  eo_id :: string
  eo_clientOrderId :: "string option"
  eo_symbol :: string
  eo_side :: side
  eo_amount :: jsnum
  eo_filled :: jsnum
  eo_remaining :: jsnum
  eo_cost :: jsnum
  eo_feeObservation :: "order_fee_observation option"
  eo_status :: order_status
  eo_orderListId :: "string option"
  eo_listClientOrderId :: "string option"
  eo_type :: "order_type option"
  eo_price :: "jsnum option"
  eo_stopPrice :: "jsnum option"
  eo_reduceOnly :: "bool option"
  eo_positionSide :: "position_side option"
  eo_closePosition :: "bool option"
  eo_trailingPercent :: "jsnum option"
  eo_activationPrice :: "jsnum option"
  eo_callbackRate :: "jsnum option"

record execution_evidence =
  evd_source :: evidence_source
  evd_observedAt :: jsnum
  evd_orders :: "evidence_order list"
  evd_reference :: "string option"
  evd_fee :: "jsnum option"

record execution_reference =
  xref_kind :: string
  xref_id :: string
  xref_version :: jsnum

datatype execution_intent = Order_intent place_order_input "string list option" | Oco_intent place_oco_input

record execution_record =
  ex_id :: string
  ex_intentId :: "string option"
  ex_reference :: "execution_reference option"
  ex_archiveAcknowledgedRevision :: "nat option"
  ex_admissionGeneration :: "nat option"
  ex_scope :: execution_scope
  ex_intent :: execution_intent
  ex_notional :: jsnum
  ex_reservationId :: "string option"
  ex_status :: execution_status
  ex_revision :: nat
  ex_createdAt :: jsnum
  ex_updatedAt :: jsnum
  ex_attempts :: nat
  ex_nextAttemptAt :: "jsnum option"
  ex_issue :: "execution_issue option"
  ex_evidence :: "execution_evidence option"
  ex_settlement :: "(settle_outcome \<times> jsnum) option"

record protection_target =
  pt_id :: string
  pt_scope :: execution_scope
  pt_executionId :: string
  pt_symbol :: string
  pt_positionSide :: "position_side option"
  pt_side :: side
  pt_stopPrice :: jsnum
  pt_generation :: nat
  pt_failures :: "nat option"
  pt_lastRepairIntentId :: "string option"

datatype maintenance_action = Paper_reset | Runtime_replacement

record execution_maintenance =
  mt_id :: string
  mt_scope :: execution_scope
  mt_action :: maintenance_action
  mt_createdAt :: jsnum
  mt_nextGeneration :: "nat option"

record execution_journal_state =
  jn_records :: "execution_record list"
  jn_admissionGeneration :: "nat option"
  jn_maintenance :: "execution_maintenance option"
  jn_intentKeys :: "(string \<times> string) obj option"
  jn_protections :: "protection_target list option"

record execution_risk_state = trading_risk_state +
  executions :: "execution_journal_state option"

definition EXECUTION_HISTORY_LIMIT :: nat where "EXECUTION_HISTORY_LIMIT = 200"
definition REFERENCED_EXECUTION_LIMIT :: nat where "REFERENCED_EXECUTION_LIMIT = 1000"
definition UNRESOLVED_EXECUTION_LIMIT :: nat where "UNRESOLVED_EXECUTION_LIMIT = 100"
definition MAX_RECOVERY_ATTEMPTS :: nat where "MAX_RECOVERY_ATTEMPTS = 9"

record journal_platform =
  sha256 :: "string \<Rightarrow> string"
  stringify_intent :: "execution_intent \<Rightarrow> execution_reference option \<Rightarrow> string"

record journal_env =
  je_clock :: jsnum
  je_wall :: jsnum
  je_uuid :: string
  je_ledger_uuid :: string
  je_event_uuid :: string

datatype journal_error =
    Journal_scope_invalid
  | Journal_generation_invalid
  | Journal_invalid
  | Maintenance_generation_invalid
  | Retention_limits_exceeded
  | Maintenance_conflicts
  | Block_without_record
  | Claim_without_execution
  | Fee_invariant_failed
  | Settlement_block_invariant_failed
  | Scope_outcome_invariant_failed
  | Reservation_correlation_failed
  | Risk_failed risk_error
  | Journal_clock_invalid
  | Maintenance_blocks_submissions
  | Admission_generation_changed
  | Maintenance_already_active
  | Admission_generation_exhausted
  | Maintenance_with_work_in_flight
  | Not_maintenance_owner
  | Maintenance_changed
  | Evidence_reference_required
  | Reference_invalid
  | Referenced_capacity_reached
  | Intent_identity_invalid
  | Intent_already_recorded string
  | Intent_reused string
  | Account_changed_after_preflight
  | Account_risk_blocks
  | Unresolved_limit_reached
  | Protection_target_invalid
  | Record_missing string
  | Archive_revision_changed
  | Execution_changed
  | Protection_target_missing
  | Stale_preparation string
  | Execution_generation_changed
  | Final_admission_changed
  | Evidence_required

section \<open>Keys\<close>

fun mode_name :: "trading_mode \<Rightarrow> string" where
  "mode_name Paper = ''paper''" | "mode_name Live = ''live''"

fun market_name :: "market_type \<Rightarrow> string" where
  "market_name Spot = ''spot''" | "market_name Usdm_futures = ''usdm-futures''" | "market_name Both = ''both''"

text \<open>\<^verbatim>\<open>JSON.stringify\<close> of an array of strings without characters to escape: the fields of a valid scope
  are identifiers.\<close>

fun json_strings :: "string list \<Rightarrow> string" where
  "json_strings [] = []"
| "json_strings [s] = CHR 0x22 # s @ [CHR 0x22]"
| "json_strings (s # ss) = (CHR 0x22 # s @ [CHR 0x22]) @ '','' @ json_strings ss"

definition accountRiskKey :: "journal_platform \<Rightarrow> execution_scope \<Rightarrow> string" where
  "accountRiskKey p scope =
     sha256 p (''['' @ json_strings [mode_name (sc_mode scope), sc_exchange scope, sc_accountId scope,
       market_name (sc_marketType scope), sc_quoteCurrency scope] @ '']'')"

definition intentKey :: "journal_platform \<Rightarrow> execution_scope \<Rightarrow> string \<Rightarrow> string" where
  "intentKey p scope intentId = sha256 p (accountRiskKey p scope @ '':'' @ intentId)"

section \<open>Validation of the stored state\<close>

definition safe_nat :: "nat \<Rightarrow> bool" where
  "safe_nat n \<longleftrightarrow> n \<le> 2 ^ 53 - 1"

definition nonnegative :: "jsnum \<Rightarrow> bool" where
  "nonnegative x \<longleftrightarrow> is_finite x \<and> js_ge x (Fin 0)"

definition positive_amount :: "jsnum \<Rightarrow> bool" where
  "positive_amount x \<longleftrightarrow> nonnegative x \<and> js_gt x (Fin 0)"

definition referenceValid :: "execution_reference \<Rightarrow> bool" where
  "referenceValid r \<longleftrightarrow>
     is_identifier (xref_kind r) \<and> is_identifier (xref_id r) \<and> is_safe_integer (xref_version r) \<and>
     js_gt (xref_version r) (Fin 0)"

definition scopeValid :: "execution_scope \<Rightarrow> bool" where
  "scopeValid s \<longleftrightarrow>
     is_identifier (sc_accountId s) \<and> is_identifier (sc_exchange s) \<and> currency_code (sc_quoteCurrency s)"

text \<open>\<^verbatim>\<open>/^[A-Z0-9_-]+\/[A-Z0-9_-]+(?::[A-Z0-9_-]+)?$/\<close>\<close>

definition symbol_format :: "string \<Rightarrow> bool" where
  "symbol_format s =
     (case split_on (CHR ''/'') s of
        [base, rest] \<Rightarrow>
          currency_code base \<and>
          (case split_on (CHR '':'') rest of
             [q] \<Rightarrow> currency_code q | [q, t] \<Rightarrow> currency_code q \<and> currency_code t | _ \<Rightarrow> False)
      | _ \<Rightarrow> False)"

fun intent_symbol :: "execution_intent \<Rightarrow> string" where
  "intent_symbol (Order_intent i _) = in_symbol i" | "intent_symbol (Oco_intent i) = oco_symbol i"

fun intent_side :: "execution_intent \<Rightarrow> side" where
  "intent_side (Order_intent i _) = in_side i" | "intent_side (Oco_intent i) = oco_side i"

fun intent_amount :: "execution_intent \<Rightarrow> jsnum" where
  "intent_amount (Order_intent i _) = in_amount i" | "intent_amount (Oco_intent i) = oco_amount i"

fun option_identifier :: "string option \<Rightarrow> bool" where
  "option_identifier None = False" | "option_identifier (Some s) = is_identifier s"

fun intentValid :: "execution_intent \<Rightarrow> bool" where
  "intentValid (Oco_intent i) =
     (symbol_format (oco_symbol i) \<and> positive_amount (oco_amount i) \<and>
      positive_amount (oco_stopLossPrice i) \<and> positive_amount (oco_takeProfitPrice i) \<and>
      option_identifier (oco_listClientOrderId i) \<and> option_identifier (oco_aboveClientOrderId i) \<and>
      option_identifier (oco_belowClientOrderId i) \<and>
      distinct [oco_listClientOrderId i, oco_aboveClientOrderId i, oco_belowClientOrderId i])"
| "intentValid (Order_intent i replacementIds) =
     (opt_all (\<lambda>ids. ids \<noteq> [] \<and> list_all is_identifier ids \<and> distinct ids) replacementIds \<and>
      symbol_format (in_symbol i) \<and> positive_amount (in_amount i) \<and> in_type i \<in> set ORDER_TYPES \<and>
      option_identifier (in_clientOrderId i) \<and>
      opt_all positive_amount (in_price i) \<and> opt_all positive_amount (in_stopPrice i) \<and>
      opt_all positive_amount (in_trailingPercent i))"

definition evidence_order_valid :: "evidence_order \<Rightarrow> bool" where
  "evidence_order_valid e \<longleftrightarrow>
     is_identifier (eo_id e) \<and>
     list_all nonnegative [eo_amount e, eo_filled e, eo_remaining e, eo_cost e] \<and> eo_status e \<noteq> St_unknown \<and>
     list_all (opt_all is_identifier) [eo_clientOrderId e, eo_orderListId e, eo_listClientOrderId e] \<and>
     opt_all isOrderFeeObservation (eo_feeObservation e) \<and>
     list_all (opt_all positive_amount)
       [eo_price e, eo_stopPrice e, eo_trailingPercent e, eo_activationPrice e, eo_callbackRate e]"

definition evidenceValid :: "execution_evidence \<Rightarrow> bool" where
  "evidenceValid e \<longleftrightarrow>
     canonical_time (evd_observedAt e) \<and> opt_all is_identifier (evd_reference e) \<and> opt_all is_finite (evd_fee e) \<and>
     length (evd_orders e) \<le> 2 \<and> list_all evidence_order_valid (evd_orders e)"

definition isUnresolvedExecution :: "execution_record \<Rightarrow> bool" where
  "isUnresolvedExecution e \<longleftrightarrow>
     ex_status e = Prepared \<or> ex_status e = Submission_started \<or> ex_status e = Unknown_outcome"

definition evidence_orders :: "execution_record \<Rightarrow> evidence_order list" where
  "evidence_orders e = (case ex_evidence e of None \<Rightarrow> [] | Some v \<Rightarrow> evd_orders v)"

definition retainReference :: "execution_record \<Rightarrow> bool" where
  "retainReference e \<longleftrightarrow>
     ex_reference e \<noteq> None \<and>
     (ex_archiveAcknowledgedRevision e \<noteq> Some (ex_revision e) \<or>
      list_ex (\<lambda>ord. eo_status ord = St_open) (evidence_orders e))"

definition trimExecutionHistory :: "execution_record list \<Rightarrow> execution_record list" where
  "trimExecutionHistory records =
     (let closed = slice_last EXECUTION_HISTORY_LIMIT
            (filter (\<lambda>e. \<not> isUnresolvedExecution e \<and> \<not> retainReference e) records);
          keep = set (map ex_id closed)
      in filter (\<lambda>e. isUnresolvedExecution e \<or> retainReference e \<or> ex_id e \<in> keep) records)"

definition expected_fee_source :: "execution_scope \<Rightarrow> fee_source" where
  "expected_fee_source s = (if sc_mode s = Paper then Paper_ledger else Exchange_fees)"

definition observedExecutionFee :: "execution_scope \<Rightarrow> execution_evidence option \<Rightarrow> jsnum option" where
  "observedExecutionFee scope evidence =
     (case evidence of
        None \<Rightarrow> None
      | Some v \<Rightarrow>
          let orders = evd_orders v
          in if orders = [] \<or> evd_source v = From_operator \<or> \<not> distinct (map eo_id orders) \<or>
                \<not> list_all (\<lambda>e. eo_status e \<in> {St_closed, St_canceled, St_rejected, St_expired} \<and>
                     (case eo_feeObservation e of
                        None \<Rightarrow> False
                      | Some f \<Rightarrow> isOrderFeeObservation f \<and> fo_source f = expected_fee_source scope \<and>
                          fo_completeness f = Fees_complete \<and>
                          list_all (\<lambda>c. fee_currency c = sc_quoteCurrency scope) (fo_charges f))) orders
             then None
             else let fee = fold (\<lambda>e sum. js_add sum (case eo_feeObservation e of None \<Rightarrow> NaN
                                   | Some f \<Rightarrow> fold (\<lambda>c s. js_add s (fee_cost c)) (fo_charges f) (Fin 0)))
                              orders (Fin 0)
                  in if is_finite fee then Some fee else None)"

definition hex_digest :: "string \<Rightarrow> bool" where
  "hex_digest s \<longleftrightarrow> length s = 64 \<and> list_all (\<lambda>c. is_digit c \<or> c \<in> set ''abcdef'') s"

definition protection_target_valid :: "protection_target \<Rightarrow> bool" where
  "protection_target_valid t \<longleftrightarrow>
     is_identifier (pt_id t) \<and> is_identifier (pt_executionId t) \<and> scopeValid (pt_scope t) \<and>
     nonnegative (pt_stopPrice t) \<and> \<not> js_eq (pt_stopPrice t) (Fin 0) \<and> safe_nat (pt_generation t) \<and>
     opt_all safe_nat (pt_failures t) \<and> opt_all is_identifier (pt_lastRepairIntentId t)"

definition maintenance_valid :: "execution_maintenance \<Rightarrow> bool" where
  "maintenance_valid m \<longleftrightarrow>
     is_identifier (mt_id m) \<and> scopeValid (mt_scope m) \<and> canonical_time (mt_createdAt m) \<and>
     opt_all (\<lambda>g. safe_nat g \<and> 1 \<le> g) (mt_nextGeneration m)"

definition record_valid :: "execution_record \<Rightarrow> bool" where
  "record_valid e \<longleftrightarrow>
     is_identifier (ex_id e) \<and> scopeValid (ex_scope e) \<and> opt_all is_identifier (ex_intentId e) \<and>
     opt_all (\<lambda>r. referenceValid r \<and> option_identifier (ex_intentId e)) (ex_reference e) \<and>
     opt_all (\<lambda>n. ex_reference e \<noteq> None \<and> safe_nat n \<and> n \<le> ex_revision e) (ex_archiveAcknowledgedRevision e) \<and>
     opt_all safe_nat (ex_admissionGeneration e) \<and> intentValid (ex_intent e) \<and>
     positive_amount (ex_notional e) \<and> opt_all is_identifier (ex_reservationId e) \<and> safe_nat (ex_revision e) \<and>
     canonical_time (ex_createdAt e) \<and> canonical_time (ex_updatedAt e) \<and> js_ge (ex_updatedAt e) (ex_createdAt e) \<and>
     ex_attempts e \<le> MAX_RECOVERY_ATTEMPTS \<and> opt_all (\<lambda>t. canonical_time t) (ex_nextAttemptAt e) \<and>
     opt_all evidenceValid (ex_evidence e) \<and> opt_all (\<lambda>(_, n). nonnegative n) (ex_settlement e)"

definition isExecutionJournalState :: "execution_journal_state \<Rightarrow> bool" where
  "isExecutionJournalState j \<longleftrightarrow>
     opt_all safe_nat (jn_admissionGeneration j) \<and>
     opt_all (list_all (\<lambda>(key, (executionId, fingerprint)).
       is_identifier key \<and> is_identifier executionId \<and> hex_digest fingerprint)) (jn_intentKeys j) \<and>
     opt_all (list_all protection_target_valid) (jn_protections j) \<and>
     opt_all maintenance_valid (jn_maintenance j) \<and>
     length (jn_records j) \<le> EXECUTION_HISTORY_LIMIT + UNRESOLVED_EXECUTION_LIMIT + REFERENCED_EXECUTION_LIMIT \<and>
     distinct (map ex_id (jn_records j)) \<and> list_all record_valid (jn_records j)"

definition journal_records :: "execution_risk_state \<Rightarrow> execution_record list" where
  "journal_records s = (case executions s of None \<Rightarrow> [] | Some j \<Rightarrow> jn_records j)"

definition journal_generation :: "execution_risk_state \<Rightarrow> nat" where
  "journal_generation s = (case executions s of None \<Rightarrow> 0 | Some j \<Rightarrow> opt_default 0 (jn_admissionGeneration j))"

definition journal_maintenance :: "execution_risk_state \<Rightarrow> execution_maintenance option" where
  "journal_maintenance s = (case executions s of None \<Rightarrow> None | Some j \<Rightarrow> jn_maintenance j)"

definition claims_in_flight :: "'a trading_risk_state_scheme \<Rightarrow> bool" where
  "claims_in_flight s \<longleftrightarrow>
     list_ex (\<lambda>u. opt_default [] (reservations u) \<noteq> [] \<or> js_gt (opt_default (Fin 0) (reservedDailyNotional u)) (Fin 0))
       [st_paper s, st_live s]"

definition blocked :: "trading_mode \<Rightarrow> string \<Rightarrow> 'a trading_risk_state_scheme \<Rightarrow> bool" where
  "blocked mode k s \<longleftrightarrow> obj_get (opt_default [] (executionBlocks (usage_of mode s))) k = Some True"

definition symbol_quote :: "string \<Rightarrow> string option" where
  "symbol_quote s =
     (case split_on (CHR ''/'') s of _ # rest # _ \<Rightarrow> Some (hd (split_on (CHR '':'') rest)) | _ \<Rightarrow> None)"

definition record_fees_ok :: "execution_record \<Rightarrow> bool" where
  "record_fees_ok e \<longleftrightarrow>
     \<not> (list_ex (\<lambda>ord. case eo_feeObservation ord of None \<Rightarrow> False
          | Some f \<Rightarrow> fo_source f \<noteq> expected_fee_source (ex_scope e)) (evidence_orders e) \<or>
        (case ex_evidence e of None \<Rightarrow> False
         | Some v \<Rightarrow> (case evd_fee v of None \<Rightarrow> False
             | Some fee \<Rightarrow> list_ex (\<lambda>ord. eo_feeObservation ord \<noteq> None) (evd_orders v) \<and>
                 observedExecutionFee (ex_scope e) (Some v) \<noteq> Some fee)))"

definition record_scope_ok :: "execution_record \<Rightarrow> bool" where
  "record_scope_ok e \<longleftrightarrow>
     (let symbol = intent_symbol (ex_intent e); quote = sc_quoteCurrency (ex_scope e);
          outcome = map_option fst (ex_settlement e); source = map_option evd_source (ex_evidence e)
      in \<not> (symbol_quote symbol \<noteq> Some quote \<or>
            (sc_marketType (ex_scope e) = Spot \<and> CHR '':'' \<in> set symbol) \<or>
            (sc_marketType (ex_scope e) = Usdm_futures \<and> \<not> suffix (CHR '':'' # quote) symbol) \<or>
            (case ex_settlement e of Some (Release, n) \<Rightarrow> \<not> js_eq n (Fin 0) | _ \<Rightarrow> False) \<or>
            (ex_status e = Definite_rejection \<and> outcome \<noteq> Some Release) \<or>
            (ex_status e = Acknowledged \<and> source \<noteq> Some From_submission) \<or>
            (ex_status e = Reconciled \<and> ex_evidence e = None \<and>
               (outcome \<noteq> Some Release \<or> ex_revision e \<noteq> 1 \<or> ex_attempts e \<noteq> 0)) \<or>
            (case ex_evidence e of None \<Rightarrow> False
             | Some v \<Rightarrow> evd_source v = From_operator \<and> (truthy (evd_reference v) = None \<or> evd_orders v \<noteq> [])) \<or>
            (isUnresolvedExecution e \<and> ex_evidence e \<noteq> None)))"

definition record_claim_ok :: "'a trading_risk_state_scheme \<Rightarrow> execution_record \<Rightarrow> bool" where
  "record_claim_ok s e =
     (case truthy (ex_reservationId e) of
        None \<Rightarrow> True
      | Some r \<Rightarrow>
          isUnresolvedExecution e \<longrightarrow>
          (case claim_of (sc_mode (ex_scope e)) r s of
             None \<Rightarrow> False
           | Some c \<Rightarrow> rsv_executionId c = Some (ex_id e) \<and> rsv_symbol c = intent_symbol (ex_intent e) \<and>
               js_eq (rsv_notional c) (ex_notional e)))"

definition validate_record :: "execution_risk_state \<Rightarrow> execution_record \<Rightarrow> unit \<Rightarrow> journal_error + unit" where
  "validate_record s e _ =
     ebind (assert_js (record_fees_ok e) Fee_invariant_failed) (\<lambda>_.
     ebind (assert_js (isUnresolvedExecution e = blocked (sc_mode (ex_scope e)) (ex_id e) s \<and>
                       isUnresolvedExecution e \<noteq> (ex_settlement e \<noteq> None))
              Settlement_block_invariant_failed) (\<lambda>_.
     ebind (assert_js (record_scope_ok e) Scope_outcome_invariant_failed) (\<lambda>_.
     assert_js (record_claim_ok s e) Reservation_correlation_failed)))"

definition blocks_have_records :: "execution_risk_state \<Rightarrow> trading_mode \<Rightarrow> bool" where
  "blocks_have_records s mode \<longleftrightarrow>
     list_all (\<lambda>k. list_ex (\<lambda>e. ex_id e = k \<and> sc_mode (ex_scope e) = mode \<and> isUnresolvedExecution e) (journal_records s))
       (block_ids (usage_of mode s))"

definition claims_have_records :: "execution_risk_state \<Rightarrow> trading_mode \<Rightarrow> bool" where
  "claims_have_records s mode \<longleftrightarrow>
     list_all (\<lambda>c. rsv_executionId c = None \<or>
         list_ex (\<lambda>e. Some (ex_id e) = rsv_executionId c \<and> ex_reservationId e = Some (rsv_id c) \<and>
             sc_mode (ex_scope e) = mode \<and> isUnresolvedExecution e) (journal_records s))
       (obj_values (opt_default [] (reservations (usage_of mode s))))"

definition retention_ok :: "execution_record list \<Rightarrow> bool" where
  "retention_ok records \<longleftrightarrow>
     length (filter isUnresolvedExecution records) \<le> UNRESOLVED_EXECUTION_LIMIT \<and>
     length (filter (\<lambda>e. \<not> isUnresolvedExecution e \<and> \<not> retainReference e) records) \<le> EXECUTION_HISTORY_LIMIT \<and>
     length (filter (\<lambda>e. \<not> isUnresolvedExecution e \<and> retainReference e) records) \<le> REFERENCED_EXECUTION_LIMIT"

definition validateExecutionRiskState :: "execution_risk_state \<Rightarrow> journal_error + unit" where
  "validateExecutionRiskState s =
     ebind (assert_js (opt_all isExecutionJournalState (executions s)) Journal_invalid) (\<lambda>_.
     ebind (assert_js (opt_all (\<lambda>m. opt_all (\<lambda>g. g = journal_generation s + 1) (mt_nextGeneration m)) (journal_maintenance s))
              Maintenance_generation_invalid) (\<lambda>_.
     ebind (assert_js (retention_ok (journal_records s)) Retention_limits_exceeded) (\<lambda>_.
     ebind (assert_js (\<not> (journal_maintenance s \<noteq> None \<and>
                          (list_ex isUnresolvedExecution (journal_records s) \<or> claims_in_flight s)))
              Maintenance_conflicts) (\<lambda>_.
     ebind (assert_js (blocks_have_records s Paper) Block_without_record) (\<lambda>_.
     ebind (assert_js (claims_have_records s Paper) Claim_without_execution) (\<lambda>_.
     ebind (assert_js (blocks_have_records s Live) Block_without_record) (\<lambda>_.
     ebind (assert_js (claims_have_records s Live) Claim_without_execution) (\<lambda>_.
     efold (validate_record s) (journal_records s) ()))))))))"


section \<open>The journal object\<close>

text \<open>What an \<^verbatim>\<open>ExecutionJournal\<close> keeps beside the store: its configuration, the scope it works in, the
  admission generation it captured and the maintenance it started.\<close>

record execution_journal =
  ej_config :: risk_config
  ej_scope :: execution_scope
  ej_generation :: nat
  ej_owned :: "string list"

definition ledger_env_of :: "journal_env \<Rightarrow> ledger_env" where
  "ledger_env_of env = \<lparr>le_clock = je_clock env, le_wall = je_wall env, le_uuid = je_ledger_uuid env\<rparr>"

text \<open>\<^verbatim>\<open>this.clock.now().toISOString()\<close> throws on an invalid date.\<close>

definition iso_now :: "journal_env \<Rightarrow> journal_error + jsnum" where
  "iso_now env = (if canonical_time (je_clock env) then Inr (je_clock env) else Inl Journal_clock_invalid)"

definition new_journal ::
  "risk_config \<Rightarrow> execution_scope \<Rightarrow> nat option \<Rightarrow> execution_risk_state \<Rightarrow> journal_error + execution_journal" where
  "new_journal config scope admissionGeneration s =
     ebind (assert_js (scopeValid scope) Journal_scope_invalid) (\<lambda>_.
     ebind (validateExecutionRiskState s) (\<lambda>_.
     let generation = opt_default (journal_generation s) admissionGeneration
     in ebind (assert_js (safe_nat generation) Journal_generation_invalid) (\<lambda>_.
        Inr \<lparr>ej_config = config, ej_scope = scope, ej_generation = generation, ej_owned = []\<rparr>)))"

text \<open>Every operation runs in one transaction of the store: the state is validated, a risk ledger is built
  on it, the operation runs, the state is validated again; any error abandons the transaction.\<close>

definition new_risk_ledger :: "risk_config \<Rightarrow> execution_risk_state \<Rightarrow> journal_error + unit" where
  "new_risk_ledger config s =
     emap_error Risk_failed (ebind (validateConfig config) (\<lambda>_. ebind (normalizedState s) (\<lambda>_. Inr ())))"

definition journal_transact ::
  "execution_journal \<Rightarrow> (execution_risk_state \<Rightarrow> journal_error + ('a \<times> execution_risk_state)) \<Rightarrow>
   execution_risk_state \<Rightarrow> journal_error + ('a \<times> execution_risk_state)" where
  "journal_transact j operation s =
     ebind (validateExecutionRiskState s) (\<lambda>_.
     ebind (new_risk_ledger (ej_config j) s) (\<lambda>_.
     ebind (operation s) (\<lambda>(result, s').
     ebind (validateExecutionRiskState s') (\<lambda>_. Inr (result, s')))))"

section \<open>Reading\<close>

definition list_executions :: "execution_risk_state \<Rightarrow> journal_error + execution_record list" where
  "list_executions s = ebind (validateExecutionRiskState s) (\<lambda>_. Inr (journal_records s))"

definition next_generation :: "execution_risk_state \<Rightarrow> execution_maintenance \<Rightarrow> nat" where
  "next_generation s m = opt_default (journal_generation s + 1) (mt_nextGeneration m)"

definition getMaintenance :: "execution_risk_state \<Rightarrow> journal_error + execution_maintenance option" where
  "getMaintenance s =
     ebind (validateExecutionRiskState s) (\<lambda>_.
       Inr (map_option (\<lambda>m. m\<lparr>mt_nextGeneration := Some (next_generation s m)\<rparr>) (journal_maintenance s)))"

record admission_status =
  adm_generation :: nat
  adm_currentGeneration :: nat
  adm_stale :: bool

definition getAdmissionStatus :: "execution_journal \<Rightarrow> execution_risk_state \<Rightarrow> journal_error + admission_status" where
  "getAdmissionStatus j s =
     ebind (validateExecutionRiskState s) (\<lambda>_.
       Inr \<lparr>adm_generation = ej_generation j, adm_currentGeneration = journal_generation s,
            adm_stale = (journal_generation s \<noteq> ej_generation j)\<rparr>)"

definition listAuditEvents :: "execution_risk_state \<Rightarrow> trading_audit_event list" where
  "listAuditEvents s = opt_default [] (st_audit s)"

definition findIntent :: "journal_platform \<Rightarrow> execution_journal \<Rightarrow> string \<Rightarrow> execution_risk_state \<Rightarrow> string option" where
  "findIntent p j intentId s =
     (case executions s of None \<Rightarrow> None
      | Some jn \<Rightarrow> map_option fst (obj_get (opt_default [] (jn_intentKeys jn)) (intentKey p (ej_scope j) intentId)))"

definition same_account :: "journal_platform \<Rightarrow> execution_scope \<Rightarrow> execution_scope \<Rightarrow> bool" where
  "same_account p a b \<longleftrightarrow> accountRiskKey p a = accountRiskKey p b"

definition journal_protections :: "execution_risk_state \<Rightarrow> protection_target list" where
  "journal_protections s = (case executions s of None \<Rightarrow> [] | Some jn \<Rightarrow> opt_default [] (jn_protections jn))"

definition protectionTargets :: "journal_platform \<Rightarrow> execution_journal \<Rightarrow> execution_risk_state \<Rightarrow> protection_target list" where
  "protectionTargets p j s = filter (\<lambda>t. same_account p (pt_scope t) (ej_scope j)) (journal_protections s)"

section \<open>Writing helpers\<close>

definition map_journal :: "(execution_journal_state \<Rightarrow> execution_journal_state) \<Rightarrow> execution_risk_state \<Rightarrow> execution_risk_state" where
  "map_journal f s = s\<lparr>executions := map_option f (executions s)\<rparr>"

definition put_entry :: "execution_record \<Rightarrow> execution_risk_state \<Rightarrow> execution_risk_state" where
  "put_entry e = map_journal (jn_records_update (map (\<lambda>r. if ex_id r = ex_id e then e else r)))"

definition new_journal_state :: "execution_journal \<Rightarrow> execution_journal_state" where
  "new_journal_state j =
     \<lparr>jn_records = [], jn_admissionGeneration = Some (ej_generation j), jn_maintenance = None,
      jn_intentKeys = None, jn_protections = None\<rparr>"

definition assertAdmission :: "execution_journal \<Rightarrow> execution_risk_state \<Rightarrow> journal_error + unit" where
  "assertAdmission j s =
     ebind (assert_js (journal_maintenance s = None) Maintenance_blocks_submissions) (\<lambda>_.
     assert_js (journal_generation s = ej_generation j) Admission_generation_changed)"

definition find_entry :: "execution_risk_state \<Rightarrow> string \<Rightarrow> journal_error + execution_record" where
  "find_entry s k = (case find (\<lambda>e. ex_id e = k) (journal_records s) of None \<Rightarrow> Inl (Record_missing k) | Some e \<Rightarrow> Inr e)"

fun status_name :: "execution_status \<Rightarrow> string" where
  "status_name Prepared = ''prepared''"
| "status_name Submission_started = ''submission-started''"
| "status_name Acknowledged = ''acknowledged''"
| "status_name Definite_rejection = ''definite-rejection''"
| "status_name Unknown_outcome = ''unknown''"
| "status_name Reconciled = ''reconciled''"

definition execution_event :: "execution_record \<Rightarrow> string \<Rightarrow> jsnum \<Rightarrow> trading_audit_event" where
  "execution_event e uuid now =
     (let operator = (map_option evd_source (ex_evidence e) = Some From_operator)
      in \<lparr>ev_id = uuid, ev_at = now, ev_kind = Execution_event, ev_mode = sc_mode (ex_scope e),
          ev_executionId = Some (ex_id e), ev_action = Some (status_name (ex_status e)),
          ev_evidenceReference = (if operator then Option.bind (ex_evidence e) evd_reference else None),
          ev_settlement = (if operator then ex_settlement e else None)\<rparr>)"

definition audit_entry :: "journal_env \<Rightarrow> execution_record \<Rightarrow> execution_risk_state \<Rightarrow> journal_error + execution_risk_state" where
  "audit_entry env e s =
     emap_error Risk_failed (appendTradingAuditEvent (execution_event e) (je_event_uuid env) (ex_updatedAt e) s)"

text \<open>The entry is an object of the journal's list: changing it changes the list.\<close>

definition transition ::
  "journal_env \<Rightarrow> execution_status \<Rightarrow> execution_record \<Rightarrow> execution_risk_state \<Rightarrow>
   journal_error + (execution_record \<times> execution_risk_state)" where
  "transition env status e s =
     ebind (iso_now env) (\<lambda>now.
     let e' = e\<lparr>ex_status := status, ex_revision := ex_revision e + 1, ex_updatedAt := now\<rparr>
     in ebind (audit_entry env e' (put_entry e' s)) (\<lambda>s'. Inr (e', s')))"

definition config_event :: "trading_mode \<Rightarrow> string option \<Rightarrow> string \<Rightarrow> string option \<Rightarrow> string \<Rightarrow> jsnum \<Rightarrow> trading_audit_event" where
  "config_event mode executionId action evidenceReference uuid now =
     (audit_event Config_change mode executionId (Some action) None uuid now)\<lparr>ev_evidenceReference := evidenceReference\<rparr>"

definition audit_config ::
  "journal_env \<Rightarrow> trading_mode \<Rightarrow> string option \<Rightarrow> string \<Rightarrow> string option \<Rightarrow> execution_risk_state \<Rightarrow>
   journal_error + execution_risk_state" where
  "audit_config env mode executionId action evidenceReference s =
     emap_error Risk_failed
       (appendTradingAuditEvent (config_event mode executionId action evidenceReference) (je_event_uuid env) (je_wall env) s)"

section \<open>Maintenance\<close>

fun action_label :: "maintenance_action \<Rightarrow> string" where
  "action_label Paper_reset = ''paper-reset''" | "action_label Runtime_replacement = ''runtime-replacement''"

definition begin_maintenance_step ::
  "journal_env \<Rightarrow> execution_journal \<Rightarrow> maintenance_action \<Rightarrow> execution_risk_state \<Rightarrow>
   journal_error + (execution_maintenance \<times> execution_risk_state)" where
  "begin_maintenance_step env j action s =
     ebind (assert_js (journal_maintenance s = None) Maintenance_already_active) (\<lambda>_.
     ebind (assertAdmission j s) (\<lambda>_.
     let nextGeneration = ej_generation j + 1
     in ebind (assert_js (safe_nat nextGeneration) Admission_generation_exhausted) (\<lambda>_.
        ebind (assert_js (\<not> (list_ex isUnresolvedExecution (journal_records s) \<or> claims_in_flight s))
                 Maintenance_with_work_in_flight) (\<lambda>_.
        ebind (iso_now env) (\<lambda>now.
        let m = \<lparr>mt_id = je_uuid env, mt_scope = ej_scope j, mt_action = action, mt_createdAt = now,
                 mt_nextGeneration = Some nextGeneration\<rparr>;
            jn = opt_default (new_journal_state j) (executions s)
        in ebind (audit_config env (sc_mode (ej_scope j)) None (action_label action @ ''-started'') None
                    (s\<lparr>executions := Some (jn\<lparr>jn_maintenance := Some m\<rparr>)\<rparr>)) (\<lambda>s'.
           Inr (m, s')))))))"

definition beginMaintenance ::
  "journal_env \<Rightarrow> maintenance_action \<Rightarrow> execution_journal \<Rightarrow> execution_risk_state \<Rightarrow>
   journal_error + (execution_maintenance \<times> execution_journal \<times> execution_risk_state)" where
  "beginMaintenance env action j s =
     ebind (journal_transact j (begin_maintenance_step env j action) s) (\<lambda>(m, s').
       Inr (m, j\<lparr>ej_owned := List.insert (mt_id m) (ej_owned j)\<rparr>, s'))"

definition active_maintenance :: "string \<Rightarrow> execution_risk_state \<Rightarrow> journal_error + execution_maintenance" where
  "active_maintenance k s =
     (case journal_maintenance s of None \<Rightarrow> Inl Maintenance_changed
      | Some m \<Rightarrow> if mt_id m \<noteq> k then Inl Maintenance_changed else Inr m)"

definition cancel_maintenance_step ::
  "journal_env \<Rightarrow> string \<Rightarrow> execution_risk_state \<Rightarrow> journal_error + (unit \<times> execution_risk_state)" where
  "cancel_maintenance_step env k s =
     ebind (active_maintenance k s) (\<lambda>m.
     ebind (audit_config env (sc_mode (mt_scope m)) (Some k) (action_label (mt_action m) @ ''-cancelled'') None s) (\<lambda>s'.
     Inr ((), map_journal (jn_maintenance_update (\<lambda>_. None)) s')))"

definition cancelMaintenance ::
  "journal_env \<Rightarrow> string \<Rightarrow> execution_journal \<Rightarrow> execution_risk_state \<Rightarrow>
   journal_error + (execution_journal \<times> execution_risk_state)" where
  "cancelMaintenance env k j s =
     ebind (assert_js (k \<in> set (ej_owned j)) Not_maintenance_owner) (\<lambda>_.
     ebind (journal_transact j (cancel_maintenance_step env k) s) (\<lambda>(_, s').
     Inr (j\<lparr>ej_owned := removeAll k (ej_owned j)\<rparr>, s')))"

definition complete_maintenance_step ::
  "journal_env \<Rightarrow> string \<Rightarrow> string option \<Rightarrow> execution_journal \<Rightarrow> execution_risk_state \<Rightarrow>
   journal_error + (unit \<times> execution_risk_state)" where
  "complete_maintenance_step env k evidenceReference j s =
     ebind (active_maintenance k s) (\<lambda>m.
     ebind (assert_js (opt_all is_identifier evidenceReference) Evidence_reference_required) (\<lambda>_.
     ebind (assert_js (\<not> (truthy evidenceReference = None \<and> k \<notin> set (ej_owned j) \<and> ej_generation j \<noteq> next_generation s m))
              Not_maintenance_owner) (\<lambda>_.
     ebind (audit_config env (sc_mode (mt_scope m)) (Some k)
              (case truthy evidenceReference of Some _ \<Rightarrow> ''maintenance-manually-released''
               | None \<Rightarrow> action_label (mt_action m) @ ''-completed'') (truthy evidenceReference) s) (\<lambda>s'.
     Inr ((), map_journal (\<lambda>jn. jn\<lparr>jn_admissionGeneration := Some (next_generation s m), jn_maintenance := None\<rparr>) s')))))"

definition completeMaintenance ::
  "journal_env \<Rightarrow> string \<Rightarrow> string option \<Rightarrow> execution_journal \<Rightarrow> execution_risk_state \<Rightarrow>
   journal_error + (execution_journal \<times> execution_risk_state)" where
  "completeMaintenance env k evidenceReference j s =
     ebind (journal_transact j (complete_maintenance_step env k evidenceReference j) s) (\<lambda>(_, s').
     Inr (j\<lparr>ej_owned := removeAll k (ej_owned j)\<rparr>, s'))"

definition journal_setConfig :: "risk_config \<Rightarrow> execution_journal \<Rightarrow> execution_journal" where
  "journal_setConfig config j = j\<lparr>ej_config := config\<rparr>"

definition recordConfigurationChange ::
  "journal_env \<Rightarrow> string \<Rightarrow> execution_journal \<Rightarrow> execution_risk_state \<Rightarrow> journal_error + (unit \<times> execution_risk_state)" where
  "recordConfigurationChange env action j =
     journal_transact j (\<lambda>s. ebind (audit_config env (sc_mode (ej_scope j)) None action None s) (\<lambda>s'. Inr ((), s')))"


section \<open>Preparing a submission\<close>

record prepare_options =
  po_intentId :: "string option"
  po_reference :: "execution_reference option"
  po_riskRevision :: "jsnum option"
  po_protectionStopPrice :: "jsnum option"

definition intent_fingerprint :: "journal_platform \<Rightarrow> execution_intent \<Rightarrow> execution_reference option \<Rightarrow> string" where
  "intent_fingerprint p intent reference = sha256 p (stringify_intent p intent reference)"

definition prepare_reference_guard :: "prepare_options \<Rightarrow> execution_record list \<Rightarrow> journal_error + unit" where
  "prepare_reference_guard opts records =
     (case po_reference opts of
        None \<Rightarrow> Inr ()
      | Some r \<Rightarrow>
          ebind (assert_js (referenceValid r \<and> option_identifier (po_intentId opts)) Reference_invalid) (\<lambda>_.
          assert_js (length (filter (\<lambda>e. ex_reference e \<noteq> None \<and> (isUnresolvedExecution e \<or> retainReference e)) records)
                     < REFERENCED_EXECUTION_LIMIT) Referenced_capacity_reached))"

definition released_intent :: "string \<Rightarrow> execution_record option \<Rightarrow> string \<Rightarrow> bool" where
  "released_intent known_fingerprint prior fingerprint \<longleftrightarrow>
     known_fingerprint = fingerprint \<and>
     (case prior of None \<Rightarrow> False
      | Some e \<Rightarrow> \<not> isUnresolvedExecution e \<and> map_option fst (ex_settlement e) = Some Release)"

definition prepare_intent_guard ::
  "journal_platform \<Rightarrow> execution_journal \<Rightarrow> string \<Rightarrow> prepare_options \<Rightarrow> execution_journal_state \<Rightarrow> journal_error + unit" where
  "prepare_intent_guard p j fingerprint opts jn =
     (case po_intentId opts of
        None \<Rightarrow> Inr ()
      | Some intentId \<Rightarrow>
          ebind (assert_js (is_identifier intentId) Intent_identity_invalid) (\<lambda>_.
          case obj_get (opt_default [] (jn_intentKeys jn)) (intentKey p (ej_scope j) intentId) of
            None \<Rightarrow> Inr ()
          | Some (executionId, known) \<Rightarrow>
              if released_intent known (find (\<lambda>e. ex_id e = executionId) (jn_records jn)) fingerprint then Inr ()
              else Inl (if known = fingerprint then Intent_already_recorded executionId else Intent_reused executionId)))"

definition account_blocked :: "account_risk_state \<Rightarrow> bool" where
  "account_blocked a \<longleftrightarrow>
     ars_blockedReasons a \<noteq> [] \<or> Option.bind (ars_memory a) mem_lossTrip \<noteq> None \<or> ars_mutation a \<noteq> None"

definition same_revision :: "jsnum option \<Rightarrow> account_risk_state \<Rightarrow> bool" where
  "same_revision r a = (case r of None \<Rightarrow> False | Some v \<Rightarrow> js_eq v (ars_revision a))"

definition account_risk_of :: "journal_platform \<Rightarrow> execution_journal \<Rightarrow> execution_risk_state \<Rightarrow> account_risk_state option" where
  "account_risk_of p j s = obj_get (opt_default [] (st_accountRisk s)) (accountRiskKey p (ej_scope j))"

definition prepare_account ::
  "journal_platform \<Rightarrow> execution_journal \<Rightarrow> bool \<Rightarrow> prepare_options \<Rightarrow> execution_risk_state \<Rightarrow>
   journal_error + execution_risk_state" where
  "prepare_account p j count opts s =
     (case account_risk_of p j s of
        None \<Rightarrow> Inr s
      | Some a \<Rightarrow>
          ebind (assert_js (same_revision (po_riskRevision opts) a) Account_changed_after_preflight) (\<lambda>_.
          ebind (assert_js (\<not> (count \<and> account_blocked a)) Account_risk_blocks) (\<lambda>_.
          Inr (s\<lparr>st_accountRisk := Some (obj_set (opt_default [] (st_accountRisk s)) (accountRiskKey p (ej_scope j))
                   (a\<lparr>ars_revision := js_add (ars_revision a) (Fin 1)\<rparr>))\<rparr>))))"

fun opposite :: "side \<Rightarrow> side" where
  "opposite Buy = Sell" | "opposite Sell = Buy"

fun intent_position_side :: "execution_intent \<Rightarrow> position_side option" where
  "intent_position_side (Order_intent i _) = in_positionSide i" | "intent_position_side (Oco_intent _) = None"

definition prepare_protection ::
  "string \<Rightarrow> execution_journal \<Rightarrow> execution_intent \<Rightarrow> bool \<Rightarrow> prepare_options \<Rightarrow> execution_journal_state \<Rightarrow>
   journal_error + execution_journal_state" where
  "prepare_protection k j intent count opts jn =
     (case po_protectionStopPrice opts of
        None \<Rightarrow> Inr jn
      | Some price \<Rightarrow>
          ebind (assert_js (count \<and> is_finite price \<and> \<not> js_le price (Fin 0)) Protection_target_invalid) (\<lambda>_.
          Inr (jn\<lparr>jn_protections := Some (opt_default [] (jn_protections jn) @
                  [\<lparr>pt_id = k, pt_scope = ej_scope j, pt_executionId = k, pt_symbol = intent_symbol intent,
                    pt_positionSide = intent_position_side intent, pt_side = opposite (intent_side intent),
                    pt_stopPrice = price, pt_generation = 0, pt_failures = None, pt_lastRepairIntentId = None\<rparr>])\<rparr>)))"

definition prepared_entry ::
  "journal_env \<Rightarrow> execution_journal \<Rightarrow> execution_intent \<Rightarrow> jsnum \<Rightarrow> bool \<Rightarrow> prepare_options \<Rightarrow> string \<Rightarrow> jsnum \<Rightarrow> execution_record" where
  "prepared_entry env j intent notional count opts reservationId now =
     \<lparr>ex_id = je_uuid env, ex_intentId = po_intentId opts, ex_reference = po_reference opts,
      ex_archiveAcknowledgedRevision = None, ex_admissionGeneration = Some (ej_generation j), ex_scope = ej_scope j,
      ex_intent = intent, ex_notional = notional, ex_reservationId = (if count then Some reservationId else None),
      ex_status = Prepared, ex_revision = 0, ex_createdAt = now, ex_updatedAt = now, ex_attempts = 0,
      ex_nextAttemptAt = None, ex_issue = None, ex_evidence = None, ex_settlement = None\<rparr>"

definition record_intent_key ::
  "journal_platform \<Rightarrow> execution_journal \<Rightarrow> string \<Rightarrow> string \<Rightarrow> prepare_options \<Rightarrow> execution_journal_state \<Rightarrow> execution_journal_state" where
  "record_intent_key p j fingerprint k opts jn =
     (case map_option (intentKey p (ej_scope j)) (po_intentId opts) of
        None \<Rightarrow> jn
      | Some key \<Rightarrow>
          if key = [] then jn
          else jn\<lparr>jn_intentKeys := Some (obj_set (opt_default [] (jn_intentKeys jn)) key (k, fingerprint))\<rparr>)"

definition add_block :: "trading_mode \<Rightarrow> string \<Rightarrow> 'a trading_risk_state_scheme \<Rightarrow> 'a trading_risk_state_scheme" where
  "add_block mode k s =
     (let u = usage_of mode s
      in set_usage mode (u\<lparr>executionBlocks := Some (obj_set (opt_default [] (executionBlocks u)) k True)\<rparr>) s)"

definition del_block :: "trading_mode \<Rightarrow> string \<Rightarrow> 'a trading_risk_state_scheme \<Rightarrow> 'a trading_risk_state_scheme" where
  "del_block mode k s =
     (let u = usage_of mode s
      in set_usage mode (u\<lparr>executionBlocks := map_option (\<lambda>b. obj_del b k) (executionBlocks u)\<rparr>) s)"

definition prepare_step ::
  "journal_platform \<Rightarrow> journal_env \<Rightarrow> execution_journal \<Rightarrow> execution_intent \<Rightarrow> jsnum \<Rightarrow> bool \<Rightarrow> prepare_options \<Rightarrow>
   execution_risk_state \<Rightarrow> journal_error + (execution_record \<times> execution_risk_state)" where
  "prepare_step p env j intent notional count opts s =
     ebind (assertAdmission j s) (\<lambda>_.
     let jn = opt_default (new_journal_state j) (executions s);
         fingerprint = intent_fingerprint p intent (po_reference opts);
         k = je_uuid env
     in ebind (prepare_reference_guard opts (jn_records jn)) (\<lambda>_.
        ebind (prepare_intent_guard p j fingerprint opts jn) (\<lambda>_.
        ebind (prepare_account p j count opts s) (\<lambda>s1.
        ebind (assert_js (length (filter isUnresolvedExecution (jn_records jn)) < UNRESOLVED_EXECUTION_LIMIT)
                 Unresolved_limit_reached) (\<lambda>_.
        ebind (iso_now env) (\<lambda>now.
        ebind (emap_error Risk_failed
                 (reserve (ledger_env_of env) (ej_config j) (intent_symbol intent) notional count (Some k) s1)) (\<lambda>(reservation, s2).
        let entry = prepared_entry env j intent notional count opts (res_id reservation) now
        in ebind (prepare_protection k j intent count opts (jn\<lparr>jn_records := jn_records jn @ [entry]\<rparr>)) (\<lambda>jn1.
           ebind (audit_entry env entry
                    (add_block (sc_mode (ej_scope j)) k
                       (s2\<lparr>executions := Some (record_intent_key p j fingerprint k opts jn1)\<rparr>))) (\<lambda>s3.
           Inr (entry, s3))))))))))"

definition prepare ::
  "journal_platform \<Rightarrow> journal_env \<Rightarrow> execution_intent \<Rightarrow> jsnum \<Rightarrow> bool \<Rightarrow> prepare_options \<Rightarrow> execution_journal \<Rightarrow>
   execution_risk_state \<Rightarrow> journal_error + (execution_record \<times> execution_risk_state)" where
  "prepare p env intent notional count opts j = journal_transact j (prepare_step p env j intent notional count opts)"

section \<open>The life of a record\<close>

definition archive_step :: "string \<Rightarrow> nat \<Rightarrow> execution_risk_state \<Rightarrow> journal_error + (unit \<times> execution_risk_state)" where
  "archive_step k revision s =
     ebind (find_entry s k) (\<lambda>e.
     ebind (assert_js (\<not> (ex_reference e = None \<or> ex_revision e \<noteq> revision)) Archive_revision_changed) (\<lambda>_.
     Inr ((), map_journal (jn_records_update trimExecutionHistory)
               (put_entry (e\<lparr>ex_archiveAcknowledgedRevision := Some revision\<rparr>) s))))"

definition acknowledgeExecutionArchive ::
  "string \<Rightarrow> nat \<Rightarrow> execution_journal \<Rightarrow> execution_risk_state \<Rightarrow> journal_error + (unit \<times> execution_risk_state)" where
  "acknowledgeExecutionArchive k revision j = journal_transact j (archive_step k revision)"

fun same_fee :: "jsnum option \<Rightarrow> jsnum option \<Rightarrow> bool" where
  "same_fee None None = True"
| "same_fee (Some a) (Some b) = js_eq a b"
| "same_fee _ _ = False"

text \<open>The orders are compared by their JSON texts: records with the same fields have the same text, since
  the code builds them in one place.\<close>

definition same_evidence :: "execution_evidence option \<Rightarrow> execution_evidence \<Rightarrow> bool" where
  "same_evidence old new \<longleftrightarrow>
     map_option evd_orders old = Some (evd_orders new) \<and> same_fee (Option.bind old evd_fee) (evd_fee new)"

definition update_evidence_step ::
  "journal_env \<Rightarrow> string \<Rightarrow> nat \<Rightarrow> execution_evidence \<Rightarrow> execution_risk_state \<Rightarrow> journal_error + (unit \<times> execution_risk_state)" where
  "update_evidence_step env k revision evidence s =
     ebind (find_entry s k) (\<lambda>e.
     ebind (assert_js (\<not> (ex_revision e \<noteq> revision \<or> isUnresolvedExecution e)) Execution_changed) (\<lambda>_.
     if same_evidence (ex_evidence e) evidence then Inr ((), s)
     else ebind (transition env Reconciled (e\<lparr>ex_evidence := Some evidence\<rparr>) s) (\<lambda>(_, s'). Inr ((), s'))))"

definition updateEvidence ::
  "journal_env \<Rightarrow> string \<Rightarrow> nat \<Rightarrow> execution_evidence \<Rightarrow> execution_journal \<Rightarrow> execution_risk_state \<Rightarrow>
   journal_error + (unit \<times> execution_risk_state)" where
  "updateEvidence env k revision evidence j = journal_transact j (update_evidence_step env k revision evidence)"

definition begin_step ::
  "journal_platform \<Rightarrow> journal_env \<Rightarrow> string \<Rightarrow> jsnum option \<Rightarrow> execution_journal \<Rightarrow> execution_risk_state \<Rightarrow>
   journal_error + (execution_record \<times> execution_risk_state)" where
  "begin_step p env k riskRevision j s =
     ebind (assertAdmission j s) (\<lambda>_.
     ebind (find_entry s k) (\<lambda>e.
     ebind (assert_js (ex_status e = Prepared) (Stale_preparation k)) (\<lambda>_.
     ebind (assert_js (opt_default 0 (ex_admissionGeneration e) = ej_generation j) Execution_generation_changed) (\<lambda>_.
     ebind (if truthy (ex_reservationId e) = None then Inr ()
            else emap_error Risk_failed (assertNewExposureAllowed (Some k) s)) (\<lambda>_.
     ebind (case account_risk_of p j s of
              None \<Rightarrow> Inr ()
            | Some a \<Rightarrow> assert_js (\<not> (\<not> same_revision riskRevision a \<or>
                                   (truthy (ex_reservationId e) \<noteq> None \<and> account_blocked a))) Final_admission_changed) (\<lambda>_.
     transition env Submission_started e s))))))"

definition begin_submission ::
  "journal_platform \<Rightarrow> journal_env \<Rightarrow> string \<Rightarrow> jsnum option \<Rightarrow> execution_journal \<Rightarrow> execution_risk_state \<Rightarrow>
   journal_error + (execution_record \<times> execution_risk_state)" where
  "begin_submission p env k riskRevision j = journal_transact j (begin_step p env k riskRevision j)"

definition unknown_step ::
  "journal_env \<Rightarrow> string \<Rightarrow> execution_issue \<Rightarrow> nat option \<Rightarrow> execution_risk_state \<Rightarrow> journal_error + (unit \<times> execution_risk_state)" where
  "unknown_step env k issue revision s =
     ebind (find_entry s k) (\<lambda>e.
     if \<not> isUnresolvedExecution e \<or> (revision \<noteq> None \<and> revision \<noteq> Some (ex_revision e)) then Inr ((), s)
     else ebind (transition env Unknown_outcome (e\<lparr>ex_issue := Some issue\<rparr>) s) (\<lambda>(_, s'). Inr ((), s')))"

definition mark_unknown ::
  "journal_env \<Rightarrow> string \<Rightarrow> execution_issue \<Rightarrow> nat option \<Rightarrow> execution_journal \<Rightarrow> execution_risk_state \<Rightarrow>
   journal_error + (unit \<times> execution_risk_state)" where
  "mark_unknown env k issue revision j = journal_transact j (unknown_step env k issue revision)"

definition claim_attempt_step ::
  "journal_env \<Rightarrow> string \<Rightarrow> jsnum \<Rightarrow> execution_risk_state \<Rightarrow>
   journal_error + (execution_record option \<times> execution_risk_state)" where
  "claim_attempt_step env k nextAttemptAt s =
     ebind (find_entry s k) (\<lambda>e.
     if \<not> isUnresolvedExecution e \<or> ex_status e = Prepared then Inr (None, s)
     else if MAX_RECOVERY_ATTEMPTS \<le> ex_attempts e then
       if ex_issue e \<noteq> Some Attempts_exhausted
       then ebind (transition env Unknown_outcome (e\<lparr>ex_issue := Some Attempts_exhausted\<rparr>) s) (\<lambda>(_, s'). Inr (None, s'))
       else Inr (None, s)
     else ebind (iso_now env) (\<lambda>now.
       if (case ex_nextAttemptAt e of None \<Rightarrow> False | Some t \<Rightarrow> js_gt t now) then Inr (None, s)
       else
         let e' = e\<lparr>ex_attempts := ex_attempts e + 1, ex_nextAttemptAt := Some nextAttemptAt,
                    ex_revision := ex_revision e + 1, ex_updatedAt := now\<rparr>
         in Inr (Some e', put_entry e' s)))"

definition claimAttempt ::
  "journal_env \<Rightarrow> string \<Rightarrow> jsnum \<Rightarrow> execution_journal \<Rightarrow> execution_risk_state \<Rightarrow>
   journal_error + (execution_record option \<times> execution_risk_state)" where
  "claimAttempt env k nextAttemptAt j = journal_transact j (claim_attempt_step env k nextAttemptAt)"


section \<open>Settlement\<close>

definition settled_protections ::
  "journal_platform \<Rightarrow> execution_record \<Rightarrow> protection_target list \<Rightarrow> protection_target list" where
  "settled_protections p e ts =
     (case find (\<lambda>t. pt_executionId t = ex_id e) ts of
        None \<Rightarrow> ts
      | Some t \<Rightarrow> filter (\<lambda>c. pt_id c = pt_id t \<or> \<not> same_account p (pt_scope c) (pt_scope t) \<or>
                           pt_symbol c \<noteq> pt_symbol t \<or> pt_side c \<noteq> pt_side t \<or> pt_positionSide c \<noteq> pt_positionSide t) ts)"

text \<open>A committed replacement of a stop moves the stop price of the targets it replaces. The intent has a
  stop price: the order type needs one (the code writes \<^verbatim>\<open>stopPrice!\<close>, and without one the state fails
  its validation).\<close>

definition moved_protections ::
  "journal_platform \<Rightarrow> execution_record \<Rightarrow> protection_target list \<Rightarrow> protection_target list" where
  "moved_protections p e ts =
     (case ex_intent e of
        Order_intent i (Some _) \<Rightarrow>
          if in_type i = Stop_market
          then map (\<lambda>t. if same_account p (pt_scope t) (ex_scope e) \<and> pt_symbol t = in_symbol i \<and> pt_side t = in_side i
                        then t\<lparr>pt_stopPrice := opt_default NaN (in_stopPrice i), pt_failures := Some 0\<rparr> else t) ts
          else ts
      | _ \<Rightarrow> ts)"

definition commit_protections :: "journal_platform \<Rightarrow> settle_outcome \<Rightarrow> execution_record \<Rightarrow> execution_risk_state \<Rightarrow> execution_risk_state" where
  "commit_protections p outcome e s =
     (if outcome = Commit
      then map_journal (jn_protections_update (map_option (\<lambda>ts. moved_protections p e (settled_protections p e ts)))) s
      else s)"

definition settled_entry ::
  "settle_outcome \<Rightarrow> jsnum \<Rightarrow> execution_evidence option \<Rightarrow> execution_record \<Rightarrow> execution_record" where
  "settled_entry outcome notional evidence e =
     e\<lparr>ex_settlement := Some (outcome, if outcome = Commit then notional else Fin 0),
       ex_evidence := (case evidence of None \<Rightarrow> ex_evidence e | Some v \<Rightarrow> Some v),
       ex_issue := None, ex_nextAttemptAt := None\<rparr>"

definition move_last :: "execution_record \<Rightarrow> execution_record list \<Rightarrow> execution_record list" where
  "move_last e rs = filter (\<lambda>r. ex_id r \<noteq> ex_id e) rs @ [e]"

definition settle_step ::
  "journal_platform \<Rightarrow> journal_env \<Rightarrow> string \<Rightarrow> settle_outcome \<Rightarrow> jsnum \<Rightarrow> execution_status \<Rightarrow> execution_evidence option \<Rightarrow>
   nat option \<Rightarrow> execution_risk_state \<Rightarrow> journal_error + (bool \<times> execution_risk_state)" where
  "settle_step p env k outcome notional status evidence revision s =
     ebind (find_entry s k) (\<lambda>e.
     if \<not> isUnresolvedExecution e then Inr (False, s)
     else if revision \<noteq> None \<and> revision \<noteq> Some (ex_revision e) then Inr (False, s)
     else if status = Reconciled \<and> evidence = None \<and> ex_status e \<noteq> Prepared then Inl Evidence_required
     else
       ebind (case truthy (ex_reservationId e) of
                None \<Rightarrow> Inr s
              | Some r \<Rightarrow> emap_error Risk_failed
                  (reconcileReservation (ledger_env_of env) r outcome (Some notional) (Some (ex_id e)) s)) (\<lambda>s1.
       ebind (transition env status (settled_entry outcome notional evidence e)
                (del_block (sc_mode (ex_scope e)) (ex_id e) (commit_protections p outcome e s1))) (\<lambda>(e', s2).
       Inr (True, map_journal (jn_records_update (\<lambda>rs. trimExecutionHistory (move_last e' rs))) s2))))"

definition settle ::
  "journal_platform \<Rightarrow> journal_env \<Rightarrow> string \<Rightarrow> settle_outcome \<Rightarrow> jsnum \<Rightarrow> execution_status \<Rightarrow> execution_evidence option \<Rightarrow>
   nat option \<Rightarrow> execution_journal \<Rightarrow> execution_risk_state \<Rightarrow> journal_error + (bool \<times> execution_risk_state)" where
  "settle p env k outcome notional status evidence revision j =
     journal_transact j (settle_step p env k outcome notional status evidence revision)"

section \<open>Protection targets\<close>

definition find_target :: "string \<Rightarrow> execution_risk_state \<Rightarrow> journal_error + protection_target" where
  "find_target k s =
     (case find (\<lambda>t. pt_id t = k) (journal_protections s) of
        None \<Rightarrow> Inl Protection_target_missing | Some t \<Rightarrow> Inr t)"

fun put_first :: "protection_target \<Rightarrow> protection_target list \<Rightarrow> protection_target list" where
  "put_first t [] = []"
| "put_first t (x # xs) = (if pt_id x = pt_id t then t # xs else x # put_first t xs)"

definition put_target :: "protection_target \<Rightarrow> execution_risk_state \<Rightarrow> execution_risk_state" where
  "put_target t = map_journal (jn_protections_update (map_option (put_first t)))"

definition repair_intent_id :: "journal_platform \<Rightarrow> string \<Rightarrow> nat \<Rightarrow> string" where
  "repair_intent_id p k generation = sha256 p (k @ '':protection:'' @ show_nat generation)"

definition claim_repair_step ::
  "journal_platform \<Rightarrow> string \<Rightarrow> execution_risk_state \<Rightarrow> journal_error + (string \<times> execution_risk_state)" where
  "claim_repair_step p k s =
     ebind (find_target k s) (\<lambda>t.
       case truthy (pt_lastRepairIntentId t) of
         Some i \<Rightarrow> Inr (i, s)
       | None \<Rightarrow>
           let i = repair_intent_id p k (pt_generation t)
           in Inr (i, put_target (t\<lparr>pt_lastRepairIntentId := Some i\<rparr>) s))"

definition claimProtectionRepair ::
  "journal_platform \<Rightarrow> string \<Rightarrow> execution_journal \<Rightarrow> execution_risk_state \<Rightarrow> journal_error + (string \<times> execution_risk_state)" where
  "claimProtectionRepair p k j = journal_transact j (claim_repair_step p k)"

definition finish_repair_step ::
  "string \<Rightarrow> bool \<Rightarrow> execution_risk_state \<Rightarrow> journal_error + (unit \<times> execution_risk_state)" where
  "finish_repair_step k succeeded s =
     ebind (find_target k s) (\<lambda>t.
       Inr ((), put_target (t\<lparr>pt_lastRepairIntentId := None, pt_generation := pt_generation t + 1,
                  pt_failures := Some (if succeeded then 0 else opt_default 0 (pt_failures t) + 1)\<rparr>) s))"

definition finishProtectionRepair ::
  "string \<Rightarrow> bool \<Rightarrow> execution_journal \<Rightarrow> execution_risk_state \<Rightarrow> journal_error + (unit \<times> execution_risk_state)" where
  "finishProtectionRepair k succeeded j = journal_transact j (finish_repair_step k succeeded)"

definition retire_target_step ::
  "journal_platform \<Rightarrow> execution_journal \<Rightarrow> string \<Rightarrow> execution_risk_state \<Rightarrow> journal_error + (unit \<times> execution_risk_state)" where
  "retire_target_step p j k s =
     ebind (assert_js (list_ex (\<lambda>t. pt_id t = k \<and> same_account p (pt_scope t) (ej_scope j)) (journal_protections s))
              Protection_target_missing) (\<lambda>_.
     Inr ((), map_journal (jn_protections_update (map_option (filter (\<lambda>t. pt_id t \<noteq> k)))) s))"

definition retireProtectionTarget ::
  "journal_platform \<Rightarrow> string \<Rightarrow> execution_journal \<Rightarrow> execution_risk_state \<Rightarrow> journal_error + (unit \<times> execution_risk_state)" where
  "retireProtectionTarget p k j = journal_transact j (retire_target_step p j k)"

record client_ids =
  cid_clientOrderId :: string
  cid_listClientOrderId :: string
  cid_aboveClientOrderId :: string
  cid_belowClientOrderId :: string

definition executionClientIds :: "journal_platform \<Rightarrow> string \<Rightarrow> string option \<Rightarrow> client_ids" where
  "executionClientIds p uuid intentId =
     (let k = take 30 (case truthy intentId of Some i \<Rightarrow> sha256 p i | None \<Rightarrow> filter (\<lambda>c. c \<noteq> CHR ''-'') uuid)
      in \<lparr>cid_clientOrderId = ''ti'' @ k, cid_listClientOrderId = ''tl'' @ k,
          cid_aboveClientOrderId = ''ta'' @ k, cid_belowClientOrderId = ''tb'' @ k\<rparr>)"

end
