(* ===== verification/Journal_Steps.thy ===== *)
theory Journal_Steps
  imports Execution_Journal
begin

text \<open>
  How the execution journal behaves: what a valid stored state says, how each operation changes the
  records, the steps and runs of the journal over a store shared by several processes, and the
  properties of those runs. The unresolved executions of the journal are the claims of the contract
  \<open>claim_ledger\<close>.
\<close>

section \<open>What a valid state says\<close>

definition record_at :: "string \<Rightarrow> execution_risk_state \<Rightarrow> execution_record option" where
  "record_at k s = find (\<lambda>e. ex_id e = k) (journal_records s)"

lemma opt_all_simps [simp]: "opt_all P None" "opt_all P (Some x) = P x"
  by (simp_all add: opt_all_def)

lemma opt_default_simps [simp]: "opt_default d None = d" "opt_default d (Some x) = x"
  by (simp_all add: opt_default_def)

lemma journal_transact_Inr [result_simps]:
  "journal_transact j f s = Inr (r, s') \<longleftrightarrow>
     validateExecutionRiskState s = Inr () \<and> new_risk_ledger (ej_config j) s = Inr () \<and> f s = Inr (r, s') \<and>
     validateExecutionRiskState s' = Inr ()"
  by (auto simp: journal_transact_def ebind_Inr)

lemma efold_unit: "efold f xs () = Inr () \<longleftrightarrow> (\<forall>x \<in> set xs. f x () = Inr ())"
  by (induction xs) (auto simp: result_simps)

lemma validate_record_Inr:
  "validate_record s e () = Inr () \<longleftrightarrow>
     record_fees_ok e \<and> isUnresolvedExecution e = blocked (sc_mode (ex_scope e)) (ex_id e) s \<and>
     isUnresolvedExecution e = (ex_settlement e = None) \<and> record_scope_ok e \<and> record_claim_ok s e"
  by (cases "ex_settlement e") (auto simp: validate_record_def result_simps)

definition all_modes_ok :: "(trading_mode \<Rightarrow> bool) \<Rightarrow> bool" where
  "all_modes_ok P \<longleftrightarrow> P Paper \<and> P Live"

lemma all_modes_ok_iff: "all_modes_ok P \<longleftrightarrow> (\<forall>m. P m)"
  by (auto simp: all_modes_ok_def all_modes)

lemma validate_Inr:
  "validateExecutionRiskState s = Inr () \<longleftrightarrow>
     opt_all isExecutionJournalState (executions s) \<and>
     opt_all (\<lambda>m. opt_all (\<lambda>g. g = journal_generation s + 1) (mt_nextGeneration m)) (journal_maintenance s) \<and>
     retention_ok (journal_records s) \<and>
     \<not> (journal_maintenance s \<noteq> None \<and> (list_ex isUnresolvedExecution (journal_records s) \<or> claims_in_flight s)) \<and>
     all_modes_ok (blocks_have_records s) \<and> all_modes_ok (claims_have_records s) \<and>
     (\<forall>e \<in> set (journal_records s). validate_record s e () = Inr ())"
  unfolding validateExecutionRiskState_def all_modes_ok_def by (auto simp: result_simps efold_unit)

lemma valid_records:
  assumes "validateExecutionRiskState s = Inr ()"
  shows "distinct (map ex_id (journal_records s))" "list_all record_valid (journal_records s)"
    "e \<in> set (journal_records s) \<Longrightarrow> isUnresolvedExecution e = blocked (sc_mode (ex_scope e)) (ex_id e) s"
    "e \<in> set (journal_records s) \<Longrightarrow> isUnresolvedExecution e = (ex_settlement e = None)"
    "e \<in> set (journal_records s) \<Longrightarrow> record_claim_ok s e" "e \<in> set (journal_records s) \<Longrightarrow> record_scope_ok e"
  using assms
  by (auto simp: validate_Inr validate_record_Inr journal_records_def isExecutionJournalState_def split: option.splits)

lemma find_id: "distinct (map ex_id rs) \<Longrightarrow> find (\<lambda>e. ex_id e = k) rs = Some e \<longleftrightarrow> e \<in> set rs \<and> ex_id e = k"
  by (induction rs) force+

lemma find_id_None: "find (\<lambda>e. ex_id e = k) rs = None \<longleftrightarrow> k \<notin> ex_id ` set rs"
  by (induction rs) auto

lemma find_map_id:
  assumes "\<And>r. ex_id (f r) = ex_id r"
  shows "find (\<lambda>e. ex_id e = k) (map f rs) = map_option f (find (\<lambda>e. ex_id e = k) rs)"
  using assms by (induction rs) auto

lemma record_at_id: "record_at k s = Some e \<Longrightarrow> ex_id e = k"
  by (auto simp: record_at_def find_Some_iff)

lemma record_at_mem: "record_at k s = Some e \<Longrightarrow> e \<in> set (journal_records s)"
  by (auto simp: record_at_def find_Some_iff)

lemma record_at_iff:
  "validateExecutionRiskState s = Inr () \<Longrightarrow> record_at k s = Some e \<longleftrightarrow> e \<in> set (journal_records s) \<and> ex_id e = k"
  by (simp add: record_at_def find_id valid_records)

lemma find_entry_Inr [result_simps]: "find_entry s k = Inr e \<longleftrightarrow> record_at k s = Some e"
  by (auto simp: find_entry_def record_at_def split: option.splits)

lemma journal_records_map [simp]: "journal_records (map_journal (jn_records_update f) s) = (if executions s = None then [] else f (journal_records s))"
  by (auto simp: journal_records_def map_journal_def split: option.splits)

lemma put_entry_records: "journal_records (put_entry e s) = map (\<lambda>r. if ex_id r = ex_id e then e else r) (journal_records s)"
  by (auto simp: put_entry_def journal_records_def map_journal_def split: option.splits)

lemma record_at_put: "record_at k (put_entry e s) = (if k = ex_id e \<and> record_at k s \<noteq> None then Some e else record_at k s)"
proof -
  have "record_at k (put_entry e s) = map_option (\<lambda>r. if ex_id r = ex_id e then e else r) (record_at k s)"
    unfolding record_at_def put_entry_records by (rule find_map_id) simp
  then show ?thesis by (cases "record_at k s") (auto dest: record_at_id)
qed

lemma state_map [simp]:
  "usage_of m (map_journal f s) = usage_of m s" "st_audit (map_journal f s) = st_audit s"
  "st_accountRisk (map_journal f s) = st_accountRisk s" "executions (map_journal f s) = map_option f (executions s)"
  by (cases m) (auto simp: map_journal_def)

lemma append_frame:
  assumes "appendTradingAuditEvent ev u t s = Inr s'"
  shows "executions s' = executions s" "usage_of m s' = usage_of m s" "st_accountRisk s' = st_accountRisk s"
  by (use assms in \<open>rule appendTradingAuditEvent_Inr; simp\<close>)+

lemma audit_frame:
  assumes "audit_entry env e s = Inr s'"
  shows "executions s' = executions s" "usage_of m s' = usage_of m s" "st_accountRisk s' = st_accountRisk s"
  using assms append_frame by (auto simp: audit_entry_def result_simps)

lemma config_frame:
  assumes "audit_config env mode k a r s = Inr s'"
  shows "executions s' = executions s" "usage_of m s' = usage_of m s" "st_accountRisk s' = st_accountRisk s"
  using assms append_frame by (auto simp: audit_config_def result_simps)

lemma journal_cong:
  assumes "executions s' = executions s"
  shows "journal_records s' = journal_records s" "record_at k s' = record_at k s"
    "journal_generation s' = journal_generation s" "journal_maintenance s' = journal_maintenance s"
    "journal_protections s' = journal_protections s"
  using assms by (simp_all add: journal_records_def record_at_def journal_generation_def journal_maintenance_def
      journal_protections_def)

lemma transition_Inr:
  assumes "transition env st e s = Inr (e', s')"
  shows "e' = e\<lparr>ex_status := st, ex_revision := ex_revision e + 1, ex_updatedAt := je_clock env\<rparr>"
    "canonical_time (je_clock env)" "executions s' = executions (put_entry e' s)" "usage_of m s' = usage_of m s"
    "st_accountRisk s' = st_accountRisk s" "audit_entry env e' (put_entry e' s) = Inr s'"
proof -
  show 1: "e' = e\<lparr>ex_status := st, ex_revision := ex_revision e + 1, ex_updatedAt := je_clock env\<rparr>"
    "canonical_time (je_clock env)" "audit_entry env e' (put_entry e' s) = Inr s'"
    using assms by (auto simp: transition_def iso_now_def Let_def result_simps)
  show "executions s' = executions (put_entry e' s)" "usage_of m s' = usage_of m s" "st_accountRisk s' = st_accountRisk s"
    using audit_frame[OF 1(3)] by (simp_all add: put_entry_def)
qed

lemma transition_record_at:
  assumes "transition env st e s = Inr (e', s')" "record_at k s = Some e0" "ex_id e = k"
  shows "record_at k' s' = (if k' = k then Some e' else record_at k' s)"
  using assms transition_Inr(1)[OF assms(1)]
  by (simp add: journal_cong(2)[OF transition_Inr(3)[OF assms(1)]] record_at_put)


section \<open>How a record may change\<close>

text \<open>The status graph of the journal: a prepared submission starts or is settled; an unresolved one is
  settled or becomes unknown; a settled one only has its evidence refreshed.\<close>

fun may_follow :: "execution_status \<Rightarrow> execution_status \<Rightarrow> bool" where
  "may_follow Prepared _ = True"
| "may_follow Submission_started st = (st \<noteq> Prepared)"
| "may_follow Unknown_outcome st = (st \<noteq> Prepared \<and> st \<noteq> Submission_started)"
| "may_follow Acknowledged st = (st = Acknowledged \<or> st = Reconciled)"
| "may_follow Definite_rejection st = (st = Definite_rejection \<or> st = Reconciled)"
| "may_follow Reconciled st = (st = Reconciled)"

lemma may_follow_refl [simp]: "may_follow a a"
  by (cases a) auto

lemma may_follow_trans: "may_follow a b \<Longrightarrow> may_follow b c \<Longrightarrow> may_follow a c"
  by (cases a; cases b; cases c) auto

definition same_identity :: "execution_record \<Rightarrow> execution_record \<Rightarrow> bool" where
  "same_identity e e' \<longleftrightarrow>
     ex_id e' = ex_id e \<and> ex_intentId e' = ex_intentId e \<and> ex_reference e' = ex_reference e \<and>
     ex_admissionGeneration e' = ex_admissionGeneration e \<and> ex_scope e' = ex_scope e \<and> ex_intent e' = ex_intent e \<and>
     ex_notional e' = ex_notional e \<and> ex_reservationId e' = ex_reservationId e \<and> ex_createdAt e' = ex_createdAt e"

definition evolves :: "execution_record \<Rightarrow> execution_record \<Rightarrow> bool" where
  "evolves e e' \<longleftrightarrow>
     same_identity e e' \<and> may_follow (ex_status e) (ex_status e') \<and> ex_revision e \<le> ex_revision e' \<and>
     (ex_revision e' = ex_revision e \<longrightarrow> e' = e\<lparr>ex_archiveAcknowledgedRevision := ex_archiveAcknowledgedRevision e'\<rparr>) \<and>
     ex_attempts e \<le> ex_attempts e' \<and> (ex_settlement e \<noteq> None \<longrightarrow> ex_settlement e' = ex_settlement e) \<and>
     (ex_attempts e' = ex_attempts e \<longrightarrow> ex_nextAttemptAt e' = ex_nextAttemptAt e \<or> ex_settlement e' \<noteq> None)"

lemma evolves_refl [simp]: "evolves e e"
  by (simp add: evolves_def same_identity_def)

lemma evolves_trans:
  assumes "evolves a b" "evolves b c" shows "evolves a c"
proof -
  have "c = a\<lparr>ex_archiveAcknowledgedRevision := ex_archiveAcknowledgedRevision c\<rparr>" if "ex_revision c = ex_revision a"
  proof -
    have "ex_revision b = ex_revision a" "ex_revision c = ex_revision b" using assms that by (auto simp: evolves_def)
    then have "b = a\<lparr>ex_archiveAcknowledgedRevision := ex_archiveAcknowledgedRevision b\<rparr>"
      "c = b\<lparr>ex_archiveAcknowledgedRevision := ex_archiveAcknowledgedRevision c\<rparr>"
      using assms by (auto simp: evolves_def)
    then show ?thesis by (cases a; cases b; cases c) simp
  qed
  moreover have "ex_nextAttemptAt c = ex_nextAttemptAt a \<or> ex_settlement c \<noteq> None" if "ex_attempts c = ex_attempts a"
  proof -
    have "ex_attempts b = ex_attempts a" "ex_attempts c = ex_attempts b" using assms that by (auto simp: evolves_def)
    then show ?thesis using assms unfolding evolves_def by metis
  qed
  moreover have "same_identity a c" using assms by (auto simp: evolves_def same_identity_def)
  moreover have "may_follow (ex_status a) (ex_status c)" using assms may_follow_trans unfolding evolves_def by blast
  moreover have "ex_revision a \<le> ex_revision c" "ex_attempts a \<le> ex_attempts c" using assms by (auto simp: evolves_def)
  moreover have "ex_settlement a \<noteq> None \<longrightarrow> ex_settlement c = ex_settlement a" using assms unfolding evolves_def by metis
  ultimately show ?thesis unfolding evolves_def by blast
qed

text \<open>One step of the journal: every record stays with its identity and moves along the graph, or it was
  resolved already and falls out of the history; a record that appears is the one just prepared.\<close>

definition journal_change :: "execution_risk_state \<Rightarrow> execution_risk_state \<Rightarrow> bool" where
  "journal_change s s' \<longleftrightarrow>
     (\<forall>k e. record_at k s = Some e \<longrightarrow>
        (case record_at k s' of None \<Rightarrow> \<not> isUnresolvedExecution e | Some e' \<Rightarrow> evolves e e'))"

lemma journal_change_refl [simp]: "journal_change s s"
  by (simp add: journal_change_def)

lemma journal_change_same: "executions s' = executions s \<Longrightarrow> journal_change s s'"
  by (simp add: journal_change_def journal_cong(2)[of s' s])

lemma journal_changeD:
  "journal_change s s' \<Longrightarrow> record_at k s = Some e \<Longrightarrow>
     (case record_at k s' of None \<Rightarrow> \<not> isUnresolvedExecution e | Some e' \<Rightarrow> evolves e e')"
  by (simp add: journal_change_def)

lemma journal_changeI:
  assumes "record_at k s = Some e" "\<And>k'. record_at k' s' = (if k' = k then Some e' else record_at k' s)" "evolves e e'"
  shows "journal_change s s'"
  using assms by (auto simp: journal_change_def)

lemma transition_change:
  assumes "transition env st e1 s = Inr (e', s')" "record_at k s = Some e" "same_identity e e1"
    "may_follow (ex_status e) st" "ex_revision e1 = ex_revision e" "ex_attempts e1 = ex_attempts e"
    "ex_settlement e \<noteq> None \<longrightarrow> ex_settlement e1 = ex_settlement e" "ex_nextAttemptAt e1 = ex_nextAttemptAt e"
  shows "journal_change s s'" "\<And>k'. record_at k' s' = (if k' = k then Some e' else record_at k' s)" "evolves e e'"
proof -
  have k: "ex_id e1 = k" using assms(2,3) record_at_id by (auto simp: same_identity_def)
  show r: "record_at k' s' = (if k' = k then Some e' else record_at k' s)" for k'
    by (rule transition_record_at[OF assms(1,2) k])
  show ev: "evolves e e'"
    unfolding transition_Inr(1)[OF assms(1)] using assms(3-) by (simp add: evolves_def same_identity_def)
  show "journal_change s s'" by (rule journal_changeI[OF assms(2) r ev])
qed

section \<open>Trimming\<close>

definition closed_record :: "execution_record \<Rightarrow> bool" where
  "closed_record e \<longleftrightarrow> \<not> isUnresolvedExecution e \<and> \<not> retainReference e"

lemma filter_keep_drop:
  assumes "distinct (map ex_id rs)"
  shows "filter (\<lambda>e. P e \<and> ex_id e \<in> set (map ex_id (drop n (filter P rs)))) rs = drop n (filter P rs)"
  using assms
proof (induction rs arbitrary: n)
  case (Cons r rs)
  have out: "ex_id r \<notin> set (map ex_id (drop n (filter P rs)))" for n
    using Cons.prems set_drop_subset[of n "filter P rs"] by force
  show ?case
  proof (cases "P r")
    case True
    show ?thesis
    proof (cases n)
      case 0
      have "filter (\<lambda>e. P e \<and> ex_id e \<in> set (map ex_id (filter P (r # rs)))) (r # rs) = filter P (r # rs)"
        by (rule filter_cong) auto
      with 0 show ?thesis by simp
    next
      case (Suc m)
      with True out[of m] Cons show ?thesis by (simp cong: conj_cong)
    qed
  next
    case False
    with Cons show ?thesis by simp
  qed
qed simp

lemma trim_closed:
  assumes "distinct (map ex_id rs)"
  shows "filter closed_record (trimExecutionHistory rs) = slice_last EXECUTION_HISTORY_LIMIT (filter closed_record rs)"
proof -
  let ?n = "length (filter closed_record rs) - EXECUTION_HISTORY_LIMIT"
  have "filter closed_record (trimExecutionHistory rs) =
      filter (\<lambda>e. closed_record e \<and> ex_id e \<in> set (map ex_id (drop ?n (filter closed_record rs)))) rs"
    unfolding trimExecutionHistory_def Let_def filter_filter slice_last_def closed_record_def[symmetric]
    by (rule filter_cong) (auto simp: closed_record_def)
  then show ?thesis using filter_keep_drop[OF assms] by (simp add: slice_last_def)
qed

lemma trim_kept: "filter (\<lambda>e. \<not> closed_record e) (trimExecutionHistory rs) = filter (\<lambda>e. \<not> closed_record e) rs"
  unfolding trimExecutionHistory_def Let_def filter_filter by (rule filter_cong) (auto simp: closed_record_def)

lemma trim_subset: "set (trimExecutionHistory rs) \<subseteq> set rs"
  by (auto simp: trimExecutionHistory_def Let_def)

lemma trim_distinct: "distinct (map ex_id rs) \<Longrightarrow> distinct (map ex_id (trimExecutionHistory rs))"
  by (simp add: trimExecutionHistory_def Let_def distinct_map_filter)

lemma trim_last:
  assumes "distinct (map ex_id (rs @ [e]))" shows "e \<in> set (trimExecutionHistory (rs @ [e]))"
proof (cases "closed_record e")
  case True
  have "e \<in> set (slice_last EXECUTION_HISTORY_LIMIT (filter closed_record (rs @ [e])))"
    using True by (simp add: slice_last_def EXECUTION_HISTORY_LIMIT_def)
  then show ?thesis using trim_closed[OF assms] by (metis filter_is_subset subsetD)
next
  case False
  then have "e \<in> set (filter (\<lambda>e. \<not> closed_record e) (trimExecutionHistory (rs @ [e])))" by (simp add: trim_kept)
  then show ?thesis by simp
qed

lemma trim_unresolved: "e \<in> set rs \<Longrightarrow> isUnresolvedExecution e \<Longrightarrow> e \<in> set (trimExecutionHistory rs)"
  by (auto simp: trimExecutionHistory_def Let_def)

lemma trim_change:
  assumes d: "distinct (map ex_id (journal_records s))" and rs: "journal_records s' = trimExecutionHistory (journal_records s)"
  shows "\<And>k e. record_at k s' = Some e \<Longrightarrow> record_at k s = Some e"
    "\<And>k e. record_at k s = Some e \<Longrightarrow> isUnresolvedExecution e \<Longrightarrow> record_at k s' = Some e"
    "\<And>k e. record_at k s = Some e \<Longrightarrow> e \<in> set (journal_records s') \<Longrightarrow> record_at k s' = Some e"
  using trim_subset[of "journal_records s"] trim_unresolved[of _ "journal_records s"]
  by (auto simp: record_at_def rs find_id[OF d] find_id[OF trim_distinct[OF d]])

lemma trim_journal_change:
  assumes "distinct (map ex_id (journal_records s))" "journal_records s' = trimExecutionHistory (journal_records s)"
  shows "journal_change s s'"
proof (unfold journal_change_def, intro allI impI)
  fix k e assume e: "record_at k s = Some e"
  show "case record_at k s' of None \<Rightarrow> \<not> isUnresolvedExecution e | Some e' \<Rightarrow> evolves e e'"
    using trim_change(1)[OF assms, of k] trim_change(2)[OF assms e] e by (auto split: option.splits)
qed

lemma journal_change_then_trim:
  assumes "journal_change s s1" "\<And>k e e1. record_at k s = Some e \<Longrightarrow> isUnresolvedExecution e \<Longrightarrow>
      record_at k s1 = Some e1 \<Longrightarrow> e1 \<in> set (journal_records s')"
    "distinct (map ex_id (journal_records s1))" "journal_records s' = trimExecutionHistory (journal_records s1)"
  shows "journal_change s s'"
proof (unfold journal_change_def, intro allI impI)
  fix k e assume e: "record_at k s = Some e"
  show "case record_at k s' of None \<Rightarrow> \<not> isUnresolvedExecution e | Some e' \<Rightarrow> evolves e e'"
  proof (cases "record_at k s1")
    case None
    then have "record_at k s' = None" using trim_change(1)[OF assms(3,4), of k] by (cases "record_at k s'") auto
    then show ?thesis using journal_changeD[OF assms(1) e] None by simp
  next
    case (Some e1)
    have "record_at k s' = Some e1" if "isUnresolvedExecution e"
      by (rule trim_change(3)[OF assms(3,4) Some assms(2)[OF e that Some]])
    moreover have "evolves e e1" using journal_changeD[OF assms(1) e] Some by simp
    ultimately show ?thesis
      using trim_change(1)[OF assms(3,4), of k] Some by (auto split: option.splits)
  qed
qed


section \<open>What each operation does to the records\<close>

lemma more_executions:
  fixes s s' :: execution_risk_state
  assumes "trading_risk_state.more s' = trading_risk_state.more s" shows "executions s' = executions s"
  using assms by (cases s; cases s') simp

lemma reserve_frame:
  fixes s s' :: execution_risk_state
  assumes "reserve env cfg symb n count ex s = Inr (h, s')" shows "executions s' = executions s"
  using assms by (auto simp: reserve_def Let_def result_simps split: option.splits if_splits
      dest!: transact_frame(2) intro: more_executions)

lemma reconcile_frame:
  fixes s s' :: execution_risk_state
  assumes "reconcileReservation env k outcome n ex s = Inr s'" shows "executions s' = executions s"
  using assms by (auto simp: reconcileReservation_def split: if_splits dest!: transact_frame(2) intro: more_executions)

lemma set_usage_frame [simp]:
  "executions (set_usage m u s) = executions s" "st_accountRisk (set_usage m u s) = st_accountRisk s"
  "st_audit (set_usage m u s) = st_audit s"
  by (cases m; simp)+

lemma block_frame [simp]:
  "executions (add_block m k s) = executions s" "executions (del_block m k s) = executions s"
  by (simp_all add: add_block_def del_block_def Let_def)

lemma record_intent_key_frame [simp]:
  "jn_records (record_intent_key p j f k opts jn) = jn_records jn"
  "jn_admissionGeneration (record_intent_key p j f k opts jn) = jn_admissionGeneration jn"
  "jn_maintenance (record_intent_key p j f k opts jn) = jn_maintenance jn"
  by (auto simp: record_intent_key_def split: option.splits)

lemma prepare_protection_frame:
  assumes "prepare_protection k j intent count opts jn = Inr jn'"
  shows "jn_records jn' = jn_records jn" "jn_admissionGeneration jn' = jn_admissionGeneration jn"
    "jn_maintenance jn' = jn_maintenance jn" "jn_intentKeys jn' = jn_intentKeys jn"
  using assms by (auto simp: prepare_protection_def result_simps split: option.splits)

lemma journal_state_default:
  "jn_records (opt_default (new_journal_state j) (executions s)) = journal_records s"
  "jn_maintenance (opt_default (new_journal_state j) (executions s)) = journal_maintenance s"
  by (auto simp: journal_records_def journal_maintenance_def new_journal_state_def split: option.splits)

lemma prepare_account_frame:
  assumes "prepare_account p j count opts s = Inr s1" shows "executions s1 = executions s" "usage_of m s1 = usage_of m s"
  using assms by (cases m; auto simp: prepare_account_def result_simps split: option.splits)+

lemma prepare_step_Inr:
  assumes "prepare_step p env j intent notional count opts s = Inr (entry, s')"
  obtains jn s1 h s2 jn1 where
    "jn = opt_default (new_journal_state j) (executions s)"
    "journal_maintenance s = None" "journal_generation s = ej_generation j"
    "prepare_reference_guard opts (journal_records s) = Inr ()"
    "prepare_intent_guard p j (intent_fingerprint p intent (po_reference opts)) opts jn = Inr ()"
    "prepare_account p j count opts s = Inr s1"
    "length (filter isUnresolvedExecution (journal_records s)) < UNRESOLVED_EXECUTION_LIMIT"
    "canonical_time (je_clock env)"
    "reserve (ledger_env_of env) (ej_config j) (intent_symbol intent) notional count (Some (je_uuid env)) s1 = Inr (h, s2)"
    "entry = prepared_entry env j intent notional count opts (res_id h) (je_clock env)"
    "prepare_protection (je_uuid env) j intent count opts (jn\<lparr>jn_records := journal_records s @ [entry]\<rparr>) = Inr jn1"
    "audit_entry env entry (add_block (sc_mode (ej_scope j)) (je_uuid env)
       (s2\<lparr>executions := Some (record_intent_key p j (intent_fingerprint p intent (po_reference opts)) (je_uuid env) opts jn1)\<rparr>)) = Inr s'"
  using assms unfolding prepare_step_def Let_def
  by (auto simp: assertAdmission_def iso_now_def result_simps journal_state_default)

lemma prepare_step_executions:
  assumes "prepare_step p env j intent notional count opts s = Inr (entry, s')"
  shows "journal_records s' = journal_records s @ [entry]" "ex_id entry = je_uuid env" "ex_status entry = Prepared"
    "ex_intent entry = intent" "ex_notional entry = notional"
proof -
  have "journal_records s' = journal_records s @ [entry] \<and> (\<exists>r. entry = prepared_entry env j intent notional count opts r (je_clock env))"
  proof (rule prepare_step_Inr[OF assms], goal_cases)
    case (1 jn s1 h s2 jn1)
    show ?case using audit_frame(1)[OF 1(12)] prepare_protection_frame(1)[OF 1(11)] 1(10) by (auto simp: journal_records_def)
  qed
  then show "journal_records s' = journal_records s @ [entry]" "ex_id entry = je_uuid env" "ex_status entry = Prepared"
    "ex_intent entry = intent" "ex_notional entry = notional"
    by (auto simp: prepared_entry_def)
qed

lemma settle_step_cases:
  assumes "settle_step p env k outcome notional status evidence revision s = Inr (r, s')"
  shows "(\<not> r \<and> s' = s) \<or>
     r \<and> (\<exists>e. record_at k s = Some e \<and> isUnresolvedExecution e \<and> (revision = None \<or> revision = Some (ex_revision e)))"
  using assms by (auto simp: settle_step_def result_simps split: if_splits)

lemma settle_step_Inr:
  assumes "settle_step p env k outcome notional status evidence revision s = Inr (True, s')"
  obtains e s1 e' s2 where
    "record_at k s = Some e" "isUnresolvedExecution e" "revision = None \<or> revision = Some (ex_revision e)"
    "status = Reconciled \<Longrightarrow> evidence = None \<Longrightarrow> ex_status e = Prepared"
    "(case truthy (ex_reservationId e) of None \<Rightarrow> s1 = s
      | Some r \<Rightarrow> reconcileReservation (ledger_env_of env) r outcome (Some notional) (Some (ex_id e)) s = Inr s1)"
    "transition env status (settled_entry outcome notional evidence e)
       (del_block (sc_mode (ex_scope e)) (ex_id e) (commit_protections p outcome e s1)) = Inr (e', s2)"
    "s' = map_journal (jn_records_update (\<lambda>rs. trimExecutionHistory (move_last e' rs))) s2"
  using assms by (auto simp: settle_step_def result_simps split: if_splits option.splits)

lemma commit_protections_frame [simp]:
  "journal_records (commit_protections p outcome e s) = journal_records s"
  "journal_generation (commit_protections p outcome e s) = journal_generation s"
  "journal_maintenance (commit_protections p outcome e s) = journal_maintenance s"
  "usage_of m (commit_protections p outcome e s) = usage_of m s"
  "map_option jn_intentKeys (executions (commit_protections p outcome e s)) = map_option jn_intentKeys (executions s)"
  by (cases "executions s"; simp add: commit_protections_def journal_records_def journal_generation_def journal_maintenance_def)+

lemma filter_id_map: "filter (\<lambda>r. ex_id r \<noteq> ex_id e) (map (\<lambda>r. if ex_id r = ex_id e then e else r) rs) = filter (\<lambda>r. ex_id r \<noteq> ex_id e) rs"
  by (induction rs) auto

lemma settle_step_records:
  assumes "settle_step p env k outcome notional status evidence revision s = Inr (True, s')"
  obtains e e' where
    "record_at k s = Some e" "isUnresolvedExecution e" "revision = None \<or> revision = Some (ex_revision e)"
    "e' = (settled_entry outcome notional evidence e)\<lparr>ex_status := status, ex_revision := ex_revision e + 1, ex_updatedAt := je_clock env\<rparr>"
    "journal_records s' = trimExecutionHistory (move_last e' (journal_records s))"
proof -
  obtain e s1 e' s2 where
    a: "record_at k s = Some e" "isUnresolvedExecution e" "revision = None \<or> revision = Some (ex_revision e)"
    "(case truthy (ex_reservationId e) of None \<Rightarrow> s1 = s
      | Some r \<Rightarrow> reconcileReservation (ledger_env_of env) r outcome (Some notional) (Some (ex_id e)) s = Inr s1)"
    and t: "transition env status (settled_entry outcome notional evidence e)
       (del_block (sc_mode (ex_scope e)) (ex_id e) (commit_protections p outcome e s1)) = Inr (e', s2)"
    and s': "s' = map_journal (jn_records_update (\<lambda>rs. trimExecutionHistory (move_last e' rs))) s2"
    by (rule settle_step_Inr[OF assms]) (blast intro: that)
  have ex: "executions s1 = executions s" using a(4) reconcile_frame by (auto split: option.splits)
  let ?q = "del_block (sc_mode (ex_scope e)) (ex_id e) (commit_protections p outcome e s1)"
  have q: "journal_records ?q = journal_records s"
    using journal_cong(1)[OF block_frame(2)] journal_cong(1)[OF ex] by simp
  have r2: "journal_records s2 = map (\<lambda>r. if ex_id r = ex_id e' then e' else r) (journal_records s)"
    using journal_cong(1)[OF transition_Inr(3)[OF t]] by (simp add: put_entry_records q)
  have "executions s2 \<noteq> None"
    using a(1) r2 by (auto simp: journal_records_def record_at_def split: option.splits)
  then have "journal_records s' = trimExecutionHistory (move_last e' (journal_records s2))" by (auto simp: s')
  also have "move_last e' (journal_records s2) = move_last e' (journal_records s)"
    by (simp only: move_last_def r2 filter_id_map)
  finally have r: "journal_records s' = trimExecutionHistory (move_last e' (journal_records s))" .
  show thesis
    by (rule that[OF a(1-3) _ r]) (use transition_Inr(1)[OF t] in \<open>simp add: settled_entry_def\<close>)
qed

lemma settled_entry_fields [simp]:
  "ex_id (settled_entry outcome n ev e) = ex_id e" "ex_status (settled_entry outcome n ev e) = ex_status e"
  "ex_settlement (settled_entry outcome n ev e) = Some (outcome, if outcome = Commit then n else Fin 0)"
  "ex_revision (settled_entry outcome n ev e) = ex_revision e" "ex_attempts (settled_entry outcome n ev e) = ex_attempts e"
  "same_identity e (settled_entry outcome n ev e)"
  by (simp_all add: settled_entry_def same_identity_def)


section \<open>Steps and runs of the journal\<close>

text \<open>A step is one successful call of an operation by any of the processes that share the store: each has a
  journal object of its own (\<open>j\<close>), its own clock and identifiers (\<open>env\<close>). The ledger's own operations are
  steps too. \<open>Opened\<close> is a prepared submission, \<open>Closed\<close> an effective settlement.\<close>

inductive journal_step ::
  "journal_platform \<Rightarrow> (string, execution_intent \<times> jsnum) claim_event \<Rightarrow> execution_risk_state \<Rightarrow> execution_risk_state \<Rightarrow> bool"
  for p where
  step_prepare: "prepare p env intent notional count opts j s = Inr (e, s') \<Longrightarrow>
     journal_step p (Opened (ex_id e) (intent, notional)) s s'"
| step_settle: "settle p env k outcome notional status evidence revision j s = Inr (True, s') \<Longrightarrow> journal_step p (Closed k) s s'"
| step_settle_stale: "settle p env k outcome notional status evidence revision j s = Inr (False, s') \<Longrightarrow> journal_step p Quiet s s'"
| step_begin: "begin_submission p env k riskRevision j s = Inr (e, s') \<Longrightarrow> journal_step p Quiet s s'"
| step_unknown: "mark_unknown env k issue revision j s = Inr (u, s') \<Longrightarrow> journal_step p Quiet s s'"
| step_attempt: "claimAttempt env k next_at j s = Inr (r, s') \<Longrightarrow> journal_step p Quiet s s'"
| step_update: "updateEvidence env k rv evidence j s = Inr (u, s') \<Longrightarrow> journal_step p Quiet s s'"
| step_archive: "acknowledgeExecutionArchive k rv j s = Inr (u, s') \<Longrightarrow> journal_step p Quiet s s'"
| step_claim_repair: "claimProtectionRepair p k j s = Inr (i, s') \<Longrightarrow> journal_step p Quiet s s'"
| step_finish_repair: "finishProtectionRepair k ok j s = Inr (u, s') \<Longrightarrow> journal_step p Quiet s s'"
| step_retire: "retireProtectionTarget p k j s = Inr (u, s') \<Longrightarrow> journal_step p Quiet s s'"
| step_maintain: "beginMaintenance env action j s = Inr (m, j', s') \<Longrightarrow> journal_step p Quiet s s'"
| step_cancel: "cancelMaintenance env k j s = Inr (j', s') \<Longrightarrow> journal_step p Quiet s s'"
| step_complete: "completeMaintenance env k reference j s = Inr (j', s') \<Longrightarrow> journal_step p Quiet s s'"
| step_config: "recordConfigurationChange env action j s = Inr (u, s') \<Longrightarrow> journal_step p Quiet s s'"
| step_ledger: "ledger_run s es s' \<Longrightarrow> journal_step p Quiet s s'"

definition journal_claims :: "execution_risk_state \<Rightarrow> string \<Rightarrow> (execution_intent \<times> jsnum) option" where
  "journal_claims s k =
     (case record_at k s of None \<Rightarrow> None
      | Some e \<Rightarrow> if isUnresolvedExecution e then Some (ex_intent e, ex_notional e) else None)"

text \<open>A quiet step: the records change along the graph, none is settled, none appears.\<close>

definition quiet_change :: "execution_risk_state \<Rightarrow> execution_risk_state \<Rightarrow> bool" where
  "quiet_change s s' \<longleftrightarrow> journal_change s s' \<and> journal_claims s' = journal_claims s \<and>
     (\<forall>k. record_at k s = None \<longrightarrow> record_at k s' = None)"

lemma quiet_changeI:
  assumes "record_at k s = Some e" "\<And>k'. record_at k' s' = (if k' = k then Some e' else record_at k' s)" "evolves e e'"
    "isUnresolvedExecution e' = isUnresolvedExecution e"
  shows "quiet_change s s'"
proof -
  have "journal_claims s' k' = journal_claims s k'" for k'
    using assms by (auto simp: journal_claims_def evolves_def same_identity_def)
  then show ?thesis using journal_changeI[OF assms(1-3)] assms(1,2) by (auto simp: quiet_change_def)
qed

lemma quiet_change_same: "executions s' = executions s \<Longrightarrow> quiet_change s s'"
  by (simp add: quiet_change_def journal_change_same journal_claims_def[abs_def] journal_cong(2)[of s' s])

lemma quiet_change_refl [simp]: "quiet_change s s"
  by (rule quiet_change_same) simp

lemma quiet_change_records: "journal_records s' = journal_records s \<Longrightarrow> quiet_change s s'"
  by (simp add: quiet_change_def journal_change_def journal_claims_def[abs_def] record_at_def split: option.splits)

lemma begin_step_Inr:
  assumes "begin_step p env k rv j s = Inr (e', s')"
  obtains e where "record_at k s = Some e" "ex_status e = Prepared" "journal_maintenance s = None"
    "journal_generation s = ej_generation j" "opt_default 0 (ex_admissionGeneration e) = ej_generation j"
    "truthy (ex_reservationId e) \<noteq> None \<Longrightarrow> assertNewExposureAllowed (Some k) s = Inr ()"
    "\<And>a. account_risk_of p j s = Some a \<Longrightarrow>
       same_revision rv a \<and> \<not> (truthy (ex_reservationId e) \<noteq> None \<and> account_blocked a)"
    "transition env Submission_started e s = Inr (e', s')"
  using assms unfolding begin_step_def assertAdmission_def
  by (auto simp: result_simps split: option.splits if_splits)

lemma status_change_quiet:
  assumes "transition env st e1 s = Inr (e', s')" "record_at k s = Some e" "same_identity e e1"
    "may_follow (ex_status e) st" "ex_revision e1 = ex_revision e" "ex_attempts e1 = ex_attempts e"
    "ex_settlement e1 = ex_settlement e" "isUnresolvedExecution e = (st \<in> {Prepared, Submission_started, Unknown_outcome})"
    "ex_nextAttemptAt e1 = ex_nextAttemptAt e"
  shows "quiet_change s s'"
proof -
  have st: "ex_settlement e \<noteq> None \<longrightarrow> ex_settlement e1 = ex_settlement e" by (simp add: assms(7))
  note t = transition_change[OF assms(1-6) st assms(9)]
  have u: "isUnresolvedExecution e' = isUnresolvedExecution e"
    using assms(8) transition_Inr(1)[OF assms(1)] by (simp add: isUnresolvedExecution_def)
  show ?thesis by (rule quiet_changeI[OF assms(2) t(2,3) u])
qed

lemma begin_quiet: "begin_submission p env k rv j s = Inr (e', s') \<Longrightarrow> quiet_change s s'"
  by (auto simp: begin_submission_def journal_transact_Inr isUnresolvedExecution_def same_identity_def
      elim!: begin_step_Inr intro!: status_change_quiet)

lemma unknown_quiet:
  assumes "mark_unknown env k issue rv j s = Inr (u, s')" shows "quiet_change s s'"
proof (cases "s' = s")
  case False
  then obtain e e' where e: "record_at k s = Some e" "isUnresolvedExecution e"
    "transition env Unknown_outcome (e\<lparr>ex_issue := Some issue\<rparr>) s = Inr (e', s')"
    using assms by (auto simp: mark_unknown_def unknown_step_def result_simps split: if_splits)
  have "may_follow (ex_status e) Unknown_outcome" using e(2) by (auto simp: isUnresolvedExecution_def)
  then show ?thesis by (intro status_change_quiet[OF e(3,1)]) (use e(2) in \<open>auto simp: same_identity_def\<close>)
qed simp

lemma attempt_quiet:
  assumes "claimAttempt env k t j s = Inr (r, s')" shows "quiet_change s s'"
proof (cases "s' = s")
  case False
  then obtain e where e: "record_at k s = Some e" "isUnresolvedExecution e" "ex_status e \<noteq> Prepared" and
    c: "(\<exists>e'. transition env Unknown_outcome (e\<lparr>ex_issue := Some Attempts_exhausted\<rparr>) s = Inr (e', s')) \<or>
      s' = put_entry (e\<lparr>ex_attempts := ex_attempts e + 1, ex_nextAttemptAt := Some t,
                    ex_revision := ex_revision e + 1, ex_updatedAt := je_clock env\<rparr>) s"
    using assms
    by (auto simp: claimAttempt_def claim_attempt_step_def iso_now_def Let_def result_simps split: if_splits)
  have f: "may_follow (ex_status e) Unknown_outcome" using e(2) by (auto simp: isUnresolvedExecution_def)
  from c show ?thesis
  proof (elim disjE exE)
    fix e' assume t: "transition env Unknown_outcome (e\<lparr>ex_issue := Some Attempts_exhausted\<rparr>) s = Inr (e', s')"
    show ?thesis by (intro status_change_quiet[OF t e(1)]) (use f e(2) in \<open>auto simp: same_identity_def\<close>)
  next
    assume s': "s' = put_entry (e\<lparr>ex_attempts := ex_attempts e + 1, ex_nextAttemptAt := Some t,
                    ex_revision := ex_revision e + 1, ex_updatedAt := je_clock env\<rparr>) s"
    have k: "ex_id e = k" by (rule record_at_id[OF e(1)])
    show ?thesis
      by (rule quiet_changeI[OF e(1), of s' "e\<lparr>ex_attempts := ex_attempts e + 1, ex_nextAttemptAt := Some t,
                    ex_revision := ex_revision e + 1, ex_updatedAt := je_clock env\<rparr>"])
        (simp_all add: s' k e(1) record_at_put evolves_def same_identity_def isUnresolvedExecution_def)
  qed
qed simp

lemma update_quiet:
  assumes "updateEvidence env k rv evidence j s = Inr (u, s')" shows "quiet_change s s'"
proof (cases "s' = s")
  case False
  then obtain e e' where e: "record_at k s = Some e" "\<not> isUnresolvedExecution e"
    "transition env Reconciled (e\<lparr>ex_evidence := Some evidence\<rparr>) s = Inr (e', s')"
    using assms by (auto simp: updateEvidence_def update_evidence_step_def result_simps split: if_splits)
  have "may_follow (ex_status e) Reconciled" by (cases "ex_status e") (use e(2) in auto)
  then show ?thesis by (intro status_change_quiet[OF e(3,1)]) (use e(2) in \<open>auto simp: same_identity_def\<close>)
qed simp

lemma quiet_trim:
  assumes "quiet_change s s1" "distinct (map ex_id (journal_records s1))"
    "journal_records s' = trimExecutionHistory (journal_records s1)"
  shows "quiet_change s s'"
proof -
  note t = trim_change[OF assms(2,3)]
  have "journal_claims s' k = journal_claims s1 k" for k
    using t(1,2)[of k] by (cases "record_at k s1"; cases "record_at k s'") (auto simp: journal_claims_def)
  moreover have "journal_change s s'"
    unfolding journal_change_def
  proof (intro allI impI)
    fix k e assume e: "record_at k s = Some e"
    have c: "journal_claims s1 k = journal_claims s k" using assms(1) by (simp add: quiet_change_def)
    show "case record_at k s' of None \<Rightarrow> \<not> isUnresolvedExecution e | Some e' \<Rightarrow> evolves e e'"
    proof (cases "record_at k s1")
      case None
      then have "record_at k s' = None" using t(1)[of k] by (cases "record_at k s'") auto
      then show ?thesis using c e None by (simp add: journal_claims_def split: if_splits)
    next
      case (Some e1)
      have "evolves e e1" using journal_changeD[of s s1 k e] assms(1) e Some by (simp add: quiet_change_def)
      moreover have "isUnresolvedExecution e1 = isUnresolvedExecution e"
        using c e Some by (simp add: journal_claims_def split: if_splits)
      ultimately show ?thesis using t(1,2)[of k] Some by (cases "record_at k s'") auto
    qed
  qed
  ultimately show ?thesis
    using assms(1) t(1) by (auto simp: quiet_change_def) (metis option.exhaust)
qed


definition intent_keys :: "execution_risk_state \<Rightarrow> (string \<times> string) obj" where
  "intent_keys s = (case executions s of None \<Rightarrow> [] | Some jn \<Rightarrow> opt_default [] (jn_intentKeys jn))"

text \<open>What every operation but \<^verbatim>\<open>prepare\<close> and \<^verbatim>\<open>completeMaintenance\<close> leaves alone.\<close>

definition journal_frame :: "execution_risk_state \<Rightarrow> execution_risk_state \<Rightarrow> bool" where
  "journal_frame s s' \<longleftrightarrow> journal_generation s' = journal_generation s \<and> intent_keys s' = intent_keys s"

lemma journal_frame_refl [simp]: "journal_frame s s"
  by (simp add: journal_frame_def)

lemma journal_frame_same: "executions s' = executions s \<Longrightarrow> journal_frame s s'"
  by (simp add: journal_frame_def journal_generation_def intent_keys_def)

lemma journal_frame_trans: "journal_frame a b \<Longrightarrow> journal_frame b c \<Longrightarrow> journal_frame a c"
  by (simp add: journal_frame_def)

lemma map_frame:
  assumes "\<And>jn. jn_admissionGeneration (f jn) = jn_admissionGeneration jn" "\<And>jn. jn_intentKeys (f jn) = jn_intentKeys jn"
  shows "journal_frame s (map_journal f s)"
  by (cases "executions s") (simp_all add: journal_frame_def journal_generation_def intent_keys_def assms)

lemma put_frame [simp]: "journal_frame s (put_entry e s)"
  unfolding put_entry_def by (rule map_frame) auto

lemma transition_frame: "transition env st e s = Inr (e', s') \<Longrightarrow> journal_frame s s'"
  by (meson journal_frame_same journal_frame_trans put_frame transition_Inr(3))

lemma commit_protections_keys: "journal_frame s (commit_protections p outcome e s)"
  by (simp add: commit_protections_def map_frame)

subsection \<open>Quiet operations\<close>

lemma archive_quiet:
  assumes "acknowledgeExecutionArchive k rv j s = Inr (u, s')" shows "quiet_change s s'" "journal_frame s s'"
proof -
  have v: "validateExecutionRiskState s = Inr ()" using assms by (simp add: acknowledgeExecutionArchive_def result_simps)
  obtain e where e: "record_at k s = Some e" "ex_revision e = rv"
    and s': "s' = map_journal (jn_records_update trimExecutionHistory) (put_entry (e\<lparr>ex_archiveAcknowledgedRevision := Some rv\<rparr>) s)"
    using assms by (auto simp: acknowledgeExecutionArchive_def archive_step_def result_simps)
  let ?e = "e\<lparr>ex_archiveAcknowledgedRevision := Some rv\<rparr>"
  have k: "ex_id e = k" by (rule record_at_id[OF e(1)])
  have q: "quiet_change s (put_entry ?e s)"
    by (rule quiet_changeI[OF e(1), of _ ?e])
      (simp_all add: k e(1) record_at_put evolves_def same_identity_def isUnresolvedExecution_def)
  have "map ex_id (map (\<lambda>r. if ex_id r = ex_id ?e then ?e else r) rs) = map ex_id rs" for rs
    by (induction rs) auto
  then have d: "distinct (map ex_id (journal_records (put_entry ?e s)))"
    unfolding put_entry_records using valid_records(1)[OF v] by metis
  have "executions s \<noteq> None" using e(1) by (auto simp: record_at_def journal_records_def split: option.splits)
  then have "journal_records s' = trimExecutionHistory (journal_records (put_entry ?e s))"
    by (auto simp: s' put_entry_def)
  then show "quiet_change s s'" by (rule quiet_trim[OF q d])
  show "journal_frame s s'" unfolding s' by (rule journal_frame_trans[OF put_frame]) (rule map_frame; simp)
qed

lemma map_quiet:
  assumes "\<And>jn. jn_records (f jn) = jn_records jn" shows "quiet_change s (map_journal f s)"
  by (rule quiet_change_records) (cases "executions s"; simp add: journal_records_def assms)

lemma target_quiet: "quiet_change s (put_target t s)" "journal_frame s (put_target t s)"
  by (simp_all add: put_target_def map_quiet map_frame)

lemma repair_quiet:
  "claimProtectionRepair p k j s = Inr (i, s') \<Longrightarrow> quiet_change s s' \<and> journal_frame s s'"
  "finishProtectionRepair k ok j s = Inr (u, s') \<Longrightarrow> quiet_change s s' \<and> journal_frame s s'"
  "retireProtectionTarget p k j s = Inr (u, s') \<Longrightarrow> quiet_change s s' \<and> journal_frame s s'"
  by (auto simp: claimProtectionRepair_def claim_repair_step_def finishProtectionRepair_def finish_repair_step_def
      retireProtectionTarget_def retire_target_step_def result_simps target_quiet map_quiet map_frame Let_def
      split: option.splits)

lemma config_quiet:
  "recordConfigurationChange env action j s = Inr (u, s') \<Longrightarrow> quiet_change s s' \<and> journal_frame s s'"
  by (auto simp: recordConfigurationChange_def result_simps quiet_change_same journal_frame_same dest: config_frame(1))

lemma begin_maintenance_Inr:
  assumes "beginMaintenance env action j s = Inr (m, j', s')"
  shows "journal_maintenance s = None" "journal_generation s = ej_generation j"
    "\<not> list_ex isUnresolvedExecution (journal_records s)" "\<not> claims_in_flight s"
    "executions s' = Some ((opt_default (new_journal_state j) (executions s))\<lparr>jn_maintenance := Some m\<rparr>)"
    "mt_nextGeneration m = Some (ej_generation j + 1)" "mt_id m = je_uuid env" "mt_id m \<in> set (ej_owned j')"
  using assms
  by (auto simp: beginMaintenance_def begin_maintenance_step_def assertAdmission_def iso_now_def Let_def result_simps
      dest!: config_frame(1))

lemma begin_maintenance_quiet:
  assumes "beginMaintenance env action j s = Inr (m, j', s')" shows "quiet_change s s' \<and> journal_frame s s'"
proof -
  note b = begin_maintenance_Inr[OF assms]
  have "journal_records s' = journal_records s" using b(5) journal_state_default(1)[of j s] by (simp add: journal_records_def)
  moreover have "journal_frame s s'"
    using b(2,5) by (cases "executions s") (auto simp: journal_frame_def journal_generation_def intent_keys_def new_journal_state_def)
  ultimately show ?thesis by (simp add: quiet_change_records)
qed

lemma cancel_maintenance_Inr:
  assumes "cancelMaintenance env k j s = Inr (j', s')"
  shows "k \<in> set (ej_owned j)" "\<exists>m. journal_maintenance s = Some m \<and> mt_id m = k"
    "executions s' = map_option (jn_maintenance_update (\<lambda>_. None)) (executions s)"
  using assms
  by (auto simp: cancelMaintenance_def cancel_maintenance_step_def active_maintenance_def result_simps
      split: option.splits if_splits dest!: config_frame(1))

lemma complete_maintenance_Inr:
  assumes "completeMaintenance env k r j s = Inr (j', s')"
  obtains m where "journal_maintenance s = Some m" "mt_id m = k" "next_generation s m = journal_generation s + 1"
    "r \<noteq> None \<or> k \<in> set (ej_owned j) \<or> ej_generation j = journal_generation s + 1"
    "executions s' = map_option (\<lambda>jn. jn\<lparr>jn_admissionGeneration := Some (journal_generation s + 1), jn_maintenance := None\<rparr>) (executions s)"
proof -
  have v: "validateExecutionRiskState s = Inr ()" using assms by (auto simp: completeMaintenance_def result_simps)
  obtain m where m: "journal_maintenance s = Some m" "mt_id m = k"
    "truthy r \<noteq> None \<or> k \<in> set (ej_owned j) \<or> ej_generation j = next_generation s m"
    "executions s' = map_option (\<lambda>jn. jn\<lparr>jn_admissionGeneration := Some (next_generation s m), jn_maintenance := None\<rparr>) (executions s)"
    using assms
    by (auto simp: completeMaintenance_def complete_maintenance_step_def active_maintenance_def result_simps
      split: option.splits if_splits dest!: config_frame(1))
  have "next_generation s m = journal_generation s + 1"
    using v m(1) by (auto simp: validate_Inr next_generation_def opt_all_def opt_default_def split: option.splits)
  with m show thesis by (intro that[of m]) (auto simp: truthy_def split: option.splits)
qed

lemma maintenance_end_quiet:
  "cancelMaintenance env k j s = Inr (j', s') \<Longrightarrow> quiet_change s s' \<and> journal_frame s s'"
  "completeMaintenance env k r j s = Inr (j', s') \<Longrightarrow>
     quiet_change s s' \<and> journal_generation s' = journal_generation s + 1 \<and> intent_keys s' = intent_keys s"
proof -
  assume "cancelMaintenance env k j s = Inr (j', s')"
  note c = cancel_maintenance_Inr(3)[OF this]
  have "journal_records s' = journal_records s" "journal_frame s s'"
    by (cases "executions s"; simp add: c journal_records_def journal_frame_def journal_generation_def intent_keys_def)+
  then show "quiet_change s s' \<and> journal_frame s s'" by (simp add: quiet_change_records)
next
  assume "completeMaintenance env k r j s = Inr (j', s')"
  then obtain m where m: "journal_maintenance s = Some m"
    and c: "executions s' = map_option (\<lambda>jn. jn\<lparr>jn_admissionGeneration := Some (journal_generation s + 1), jn_maintenance := None\<rparr>) (executions s)"
    by (rule complete_maintenance_Inr)
  have "journal_records s' = journal_records s" "journal_generation s' = journal_generation s + 1" "intent_keys s' = intent_keys s"
    using m c by (cases "executions s"; simp add: journal_records_def journal_maintenance_def journal_generation_def intent_keys_def)+
  then show "quiet_change s s' \<and> journal_generation s' = journal_generation s + 1 \<and> intent_keys s' = intent_keys s"
    by (simp add: quiet_change_records)
qed


subsection \<open>The ledger's steps, preparing and settling\<close>

lemma ledger_quiet_frame:
  fixes s s' :: execution_risk_state
  assumes "ledger_quiet s s'" shows "executions s' = executions s"
  using assms
  by (cases rule: ledger_quiet.cases)
    (auto simp: record_notional_def reset_def reserve_def check_def refresh_def ledger_usage_def listPendingReservations_def
      Let_def result_simps split: option.splits if_splits dest!: transact_frame(2) intro: more_executions)

lemma ledger_run_frame:
  fixes s s' :: execution_risk_state
  shows "ledger_run s es s' \<Longrightarrow> executions s' = executions s"
proof (induction rule: ledger_run.induct)
  case (ledger_reserve env cfg symb n ex s h s' es s'')
  then show ?case using reserve_frame by metis
next
  case (ledger_settle env k outcome committed ex s s' es s'')
  then show ?case using reconcile_frame by metis
next
  case (ledger_other s s' es s'')
  then show ?case using ledger_quiet_frame by metis
qed simp

lemma prepare_change:
  assumes "prepare p env intent notional count opts j s = Inr (e, s')"
  shows "record_at (ex_id e) s = None" "record_at k s' = (if k = ex_id e then Some e else record_at k s)"
    "journal_claims s (ex_id e) = None" "journal_claims s' = (journal_claims s)(ex_id e \<mapsto> (intent, notional))"
    "journal_change s s'" "ex_id e = je_uuid env" "ex_status e = Prepared"
proof -
  have v: "validateExecutionRiskState s' = Inr ()" and p: "prepare_step p env j intent notional count opts s = Inr (e, s')"
    using assms by (simp_all add: prepare_def result_simps)
  note x = prepare_step_executions[OF p]
  have "ex_id e \<notin> ex_id ` set (journal_records s)" using valid_records(1)[OF v] by (simp add: x(1))
  then show new: "record_at (ex_id e) s = None" by (simp add: record_at_def find_id_None)
  have "find P (xs @ [y]) = (case find P xs of None \<Rightarrow> if P y then Some y else None | Some z \<Rightarrow> Some z)" for P xs and y :: execution_record
    by (induction xs) auto
  then show at: "record_at k s' = (if k = ex_id e then Some e else record_at k s)" for k
    using new by (simp add: record_at_def x(1) split: option.splits)
  show "journal_claims s (ex_id e) = None" by (simp add: journal_claims_def new)
  show "journal_claims s' = (journal_claims s)(ex_id e \<mapsto> (intent, notional))"
    using x(3-5) by (auto simp: journal_claims_def at isUnresolvedExecution_def)
  show "journal_change s s'" using new by (auto simp: journal_change_def at split: option.splits)
  show "ex_id e = je_uuid env" "ex_status e = Prepared" using x by simp_all
qed

lemma settle_cases:
  assumes "settle p env k outcome notional status evidence revision j s = Inr (r, s')"
  shows "\<not> r \<Longrightarrow> s' = s" "r \<Longrightarrow> settle_step p env k outcome notional status evidence revision s = Inr (True, s')"
    "validateExecutionRiskState s = Inr ()" "validateExecutionRiskState s' = Inr ()"
  using assms settle_step_cases[of p env k outcome notional status evidence revision s r s']
  by (auto simp: settle_def result_simps)

lemma settle_change:
  assumes "settle p env k outcome notional status evidence revision j s = Inr (True, s')"
  obtains e e' where "record_at k s = Some e" "isUnresolvedExecution e" "revision = None \<or> revision = Some (ex_revision e)"
    "record_at k s' = Some e'" "\<not> isUnresolvedExecution e'" "ex_status e' = status" "evolves e e'"
    "ex_settlement e' = Some (outcome, if outcome = Commit then notional else Fin 0)" "ex_revision e' = ex_revision e + 1"
    "journal_change s s'" "journal_claims s' = (journal_claims s)(k := None)"
    "\<And>k'. record_at k' s = None \<Longrightarrow> record_at k' s' = None"
proof -
  note c = settle_cases[OF assms]
  obtain e e' where e: "record_at k s = Some e" "isUnresolvedExecution e" "revision = None \<or> revision = Some (ex_revision e)"
    and e': "e' = (settled_entry outcome notional evidence e)\<lparr>ex_status := status, ex_revision := ex_revision e + 1, ex_updatedAt := je_clock env\<rparr>"
    and rs: "journal_records s' = trimExecutionHistory (move_last e' (journal_records s))"
    using c(2)[OF TrueI] by (rule settle_step_records)
  have id: "ex_id e = k" "ex_id e' = k" using record_at_id[OF e(1)] by (simp_all add: e')
  have d: "distinct (map ex_id (move_last e' (journal_records s)))"
    using valid_records(1)[OF c(3)] by (auto simp: move_last_def distinct_map_filter)
  have mem: "e' \<in> set (journal_records s')" unfolding rs using d trim_last by (simp add: move_last_def)
  then have at: "record_at k s' = Some e'" by (simp add: record_at_iff[OF c(4)] id)
  have set: "ex_settlement e' = Some (outcome, if outcome = Commit then notional else Fin 0)" by (simp add: e')
  have u: "\<not> isUnresolvedExecution e'" using valid_records(4)[OF c(4) mem] set by simp
  have st: "ex_status e' = status" "ex_revision e' = ex_revision e + 1" by (simp_all add: e')
  have ev: "evolves e e'"
  proof -
    have "may_follow (ex_status e) (ex_status e')" using e(2) u by (auto simp: isUnresolvedExecution_def)
    moreover have "ex_settlement e = None" using valid_records(4)[OF c(3) record_at_mem[OF e(1)]] e(2) by simp
    moreover have "same_identity e e'" by (simp add: e' settled_entry_def same_identity_def)
    ultimately show ?thesis using st(2) by (simp add: evolves_def e')
  qed
  have other: "record_at k' s' = Some x \<Longrightarrow> record_at k' s = Some x" if "k' \<noteq> k" for k' x
    using that trim_subset[of "move_last e' (journal_records s)"] id
    by (auto simp: record_at_iff[OF c(3)] record_at_iff[OF c(4)] rs move_last_def)
  have stay: "record_at k' s = Some x \<Longrightarrow> isUnresolvedExecution x \<Longrightarrow> record_at k' s' = Some x" if "k' \<noteq> k" for k' x
    using that trim_unresolved[of x "move_last e' (journal_records s)"] id
    by (auto simp: record_at_iff[OF c(3)] record_at_iff[OF c(4)] rs move_last_def)
  have "journal_change s s'"
    unfolding journal_change_def
  proof (intro allI impI)
    fix k' x assume x: "record_at k' s = Some x"
    show "case record_at k' s' of None \<Rightarrow> \<not> isUnresolvedExecution x | Some x' \<Rightarrow> evolves x x'"
      using x other[of k'] stay[of k' x] at ev e(1) by (cases "k' = k"; cases "record_at k' s'") auto
  qed
  moreover have "journal_claims s' = (journal_claims s)(k := None)"
  proof
    fix k'
    show "journal_claims s' k' = ((journal_claims s)(k := None)) k'"
      using other[of k'] stay[of k'] at u
      by (cases "k' = k"; cases "record_at k' s"; cases "record_at k' s'") (auto simp: journal_claims_def)
  qed
  moreover have "record_at k' s = None \<Longrightarrow> record_at k' s' = None" for k'
    using other[of k'] e(1) by (cases "k' = k"; cases "record_at k' s'") auto
  ultimately show thesis by (rule that[OF e at u st(1) ev set st(2)])
qed


subsection \<open>The journal keeps its claims\<close>

lemmas quiet_operations =
  begin_quiet unknown_quiet attempt_quiet update_quiet archive_quiet(1)
  repair_quiet[THEN conjunct1] config_quiet[THEN conjunct1] begin_maintenance_quiet[THEN conjunct1]
  maintenance_end_quiet[THEN conjunct1]

lemma quiet_step_change: "journal_step p Quiet s s' \<Longrightarrow> quiet_change s s'"
  by (cases rule: journal_step.cases, assumption)
    (auto intro: quiet_operations quiet_change_same ledger_run_frame dest: settle_cases(1))

lemma opened_step:
  assumes "journal_step p (Opened k c) s s'"
  shows "journal_claims s k = None" "journal_claims s' = (journal_claims s)(k \<mapsto> c)" "journal_change s s'"
    "record_at k s = None" "k' \<noteq> k \<Longrightarrow> record_at k' s = None \<Longrightarrow> record_at k' s' = None"
  using assms prepare_change by (auto elim!: journal_step.cases)

lemma closed_step:
  assumes "journal_step p (Closed k) s s'"
  shows "journal_claims s k \<noteq> None" "journal_claims s' = (journal_claims s)(k := None)" "journal_change s s'"
    "record_at k' s = None \<Longrightarrow> record_at k' s' = None"
proof -
  from assms obtain env outcome notional status evidence revision j
    where s: "settle p env k outcome notional status evidence revision j s = Inr (True, s')"
    by (auto elim: journal_step.cases)
  show "journal_claims s k \<noteq> None" by (rule settle_change[OF s]) (simp add: journal_claims_def)
  show "journal_claims s' = (journal_claims s)(k := None)" "journal_change s s'" by (rule settle_change[OF s], assumption)+
  show "record_at k' s = None \<Longrightarrow> record_at k' s' = None" by (rule settle_change[OF s]) blast
qed

interpretation journal_contract:
  claim_ledger journal_claims "\<lambda>k c. journal_step p (Opened k c)" "\<lambda>k. journal_step p (Closed k)" "journal_step p Quiet" for p
  by unfold_locales (use opened_step closed_step quiet_step_change in \<open>auto simp: quiet_change_def\<close>)

text \<open>A run of the journal, with the submissions it prepares and settles.\<close>

inductive journal_run ::
  "journal_platform \<Rightarrow> execution_risk_state \<Rightarrow> (string, execution_intent \<times> jsnum) claim_event list \<Rightarrow> execution_risk_state \<Rightarrow> bool"
  for p where
  journal_idle: "journal_run p s [] s"
| journal_next: "journal_step p ev s s' \<Longrightarrow> journal_run p s' es s'' \<Longrightarrow> journal_run p s (ev # es) s''"

lemma journal_run_contract: "journal_run p s es s' \<Longrightarrow> journal_contract.run p s es s'"
proof (induction rule: journal_run.induct)
  case (journal_next ev s s' es s'')
  then show ?case by (intro journal_contract.run_Cons[of p ev s s' es s'']) (cases ev; simp)+
qed (rule journal_contract.run_Nil)

lemma quiet_changeD:
  assumes "quiet_change s s'"
  shows "journal_change s s'" "journal_claims s' = journal_claims s" "record_at k s = None \<Longrightarrow> record_at k s' = None"
  using assms by (simp_all add: quiet_change_def)

lemma step_change: "journal_step p ev s s' \<Longrightarrow> journal_change s s'"
  by (cases ev) (blast intro: opened_step(3) closed_step(3) quiet_changeD(1) quiet_step_change)+

lemma step_no_record:
  "journal_step p ev s s' \<Longrightarrow> opened k [ev] = 0 \<Longrightarrow> record_at k s = None \<Longrightarrow> record_at k s' = None"
  by (cases ev) (auto intro: opened_step(5) closed_step(4) quiet_changeD(3) quiet_step_change split: if_splits)

lemma opened_Cons: "opened k (ev # es) = opened k [ev] + opened k es"
  by (cases ev) auto

lemma run_no_record:
  "journal_run p s es s' \<Longrightarrow> opened k es = 0 \<Longrightarrow> record_at k s = None \<Longrightarrow> record_at k s' = None"
proof (induction rule: journal_run.induct)
  case (journal_next ev s s' es s'')
  then show ?case using step_no_record[of p ev s s' k] opened_Cons[of k ev es] by simp
qed simp

lemma run_evolves:
  "journal_run p s es s' \<Longrightarrow> opened k es = 0 \<Longrightarrow> record_at k s = Some e \<Longrightarrow>
     (case record_at k s' of None \<Rightarrow> True | Some e' \<Rightarrow> evolves e e')"
proof (induction arbitrary: e rule: journal_run.induct)
  case (journal_next ev s s' es s'')
  have z: "opened k es = 0" using journal_next.prems(1) opened_Cons[of k ev es] by simp
  show ?case
  proof (cases "record_at k s'")
    case None
    then show ?thesis using run_no_record[OF journal_next.hyps(2) z] by simp
  next
    case (Some e1)
    then have "evolves e e1" using journal_changeD[OF step_change[OF journal_next.hyps(1)] journal_next.prems(2)] by simp
    then show ?thesis using journal_next.IH[OF z Some] evolves_trans by (auto split: option.splits)
  qed
qed simp

section \<open>Generations and intents along a run\<close>

lemma transition_op_frame:
  "begin_submission p env k rv j s = Inr (e', s') \<Longrightarrow> journal_frame s s'"
  "mark_unknown env k issue rq j s = Inr (u, s') \<Longrightarrow> journal_frame s s'"
  "updateEvidence env k rn evidence j s = Inr (u, s') \<Longrightarrow> journal_frame s s'"
  by (auto simp: begin_submission_def mark_unknown_def unknown_step_def updateEvidence_def update_evidence_step_def
      journal_transact_Inr result_simps elim!: begin_step_Inr intro: transition_frame split: if_splits)

lemma attempt_frame: "claimAttempt env k t j s = Inr (r, s') \<Longrightarrow> journal_frame s s'"
  by (auto simp: claimAttempt_def claim_attempt_step_def iso_now_def Let_def result_simps intro: transition_frame split: if_splits)

lemma settle_frame:
  assumes "settle p env k outcome notional status evidence revision j s = Inr (r, s')" shows "journal_frame s s'"
proof (cases r)
  case True
  obtain e s1 e' s2 where
    c: "(case truthy (ex_reservationId e) of None \<Rightarrow> s1 = s
      | Some r \<Rightarrow> reconcileReservation (ledger_env_of env) r outcome (Some notional) (Some (ex_id e)) s = Inr s1)"
    and t: "transition env status (settled_entry outcome notional evidence e)
       (del_block (sc_mode (ex_scope e)) (ex_id e) (commit_protections p outcome e s1)) = Inr (e', s2)"
    and s': "s' = map_journal (jn_records_update (\<lambda>rs. trimExecutionHistory (move_last e' rs))) s2"
    by (rule settle_step_Inr[OF settle_cases(2)[OF assms True]]) (blast intro: that)
  have "journal_frame s s1" using c by (auto split: option.splits intro: journal_frame_same reconcile_frame)
  then have "journal_frame s (del_block (sc_mode (ex_scope e)) (ex_id e) (commit_protections p outcome e s1))"
    by (meson block_frame(2) commit_protections_keys journal_frame_same journal_frame_trans)
  then have "journal_frame s s2" using transition_frame[OF t] journal_frame_trans by blast
  then show ?thesis unfolding s' by (rule journal_frame_trans) (rule map_frame; simp)
qed (use settle_cases(1)[OF assms] in simp)


lemma prepare_generation:
  assumes "prepare p env intent notional count opts j s = Inr (e, s')"
  shows "journal_generation s' = journal_generation s"
    "intent_keys s' = intent_keys (s\<lparr>executions := Some (record_intent_key p j (intent_fingerprint p intent (po_reference opts))
       (je_uuid env) opts (opt_default (new_journal_state j) (executions s)))\<rparr>)"
    "prepare_intent_guard p j (intent_fingerprint p intent (po_reference opts)) opts
       (opt_default (new_journal_state j) (executions s)) = Inr ()"
    "journal_generation s = ej_generation j" "journal_maintenance s = None"
proof -
  have "prepare_step p env j intent notional count opts s = Inr (e, s')" using assms by (simp add: prepare_def result_simps)
  then have "journal_generation s' = journal_generation s \<and>
    intent_keys s' = intent_keys (s\<lparr>executions := Some (record_intent_key p j (intent_fingerprint p intent (po_reference opts))
       (je_uuid env) opts (opt_default (new_journal_state j) (executions s)))\<rparr>) \<and>
    prepare_intent_guard p j (intent_fingerprint p intent (po_reference opts)) opts
       (opt_default (new_journal_state j) (executions s)) = Inr () \<and>
    journal_generation s = ej_generation j \<and> journal_maintenance s = None"
  proof (rule prepare_step_Inr, goal_cases)
    case (1 jn s1 h s2 jn1)
    have x: "executions s' = Some (record_intent_key p j (intent_fingerprint p intent (po_reference opts)) (je_uuid env) opts jn1)"
      using audit_frame(1)[OF 1(12)] by simp
    note f = prepare_protection_frame[OF 1(11)]
    have "journal_generation s' = journal_generation s"
      using f(2) 1(1,3) by (cases "executions s") (simp_all add: x journal_generation_def new_journal_state_def)
    moreover have "intent_keys s' = intent_keys (s\<lparr>executions := Some (record_intent_key p j (intent_fingerprint p intent (po_reference opts))
       (je_uuid env) opts (opt_default (new_journal_state j) (executions s)))\<rparr>)"
      using f(4) by (simp add: x intent_keys_def record_intent_key_def 1(1) split: option.splits)
    ultimately show ?case using 1(1,2,3,5) by simp
  qed
  then show "journal_generation s' = journal_generation s"
    "intent_keys s' = intent_keys (s\<lparr>executions := Some (record_intent_key p j (intent_fingerprint p intent (po_reference opts))
       (je_uuid env) opts (opt_default (new_journal_state j) (executions s)))\<rparr>)"
    "prepare_intent_guard p j (intent_fingerprint p intent (po_reference opts)) opts
       (opt_default (new_journal_state j) (executions s)) = Inr ()"
    "journal_generation s = ej_generation j" "journal_maintenance s = None" by auto
qed

lemmas framed_operations =
  settle_frame transition_op_frame attempt_frame archive_quiet(2)
  repair_quiet[THEN conjunct2] config_quiet[THEN conjunct2] begin_maintenance_quiet[THEN conjunct2]
  maintenance_end_quiet(1)[THEN conjunct2]

lemma step_frame_cases:
  assumes "journal_step p ev s s'"
  obtains (prepared) env intent notional count opts j e where "prepare p env intent notional count opts j s = Inr (e, s')"
  | (completed) env k r j j' where "completeMaintenance env k r j s = Inr (j', s')"
  | (framed) "journal_frame s s'"
  using assms
  by (cases rule: journal_step.cases)
    (blast intro: framed_operations journal_frame_same ledger_run_frame)+

lemma step_generation: "journal_step p ev s s' \<Longrightarrow> journal_generation s \<le> journal_generation s'"
  by (erule step_frame_cases) (auto simp: prepare_generation(1) journal_frame_def dest: maintenance_end_quiet(2))

lemma run_generation: "journal_run p s es s' \<Longrightarrow> journal_generation s \<le> journal_generation s'"
  by (induction rule: journal_run.induct) (auto dest: step_generation)

lemma admission_needs_generation:
  "prepare p env intent notional count opts j s = Inr (e, s') \<Longrightarrow> journal_generation s = ej_generation j"
  "begin_submission p env k rv j s = Inr (e, s') \<Longrightarrow> journal_generation s = ej_generation j"
  "beginMaintenance env action j s = Inr (m, j', s') \<Longrightarrow> journal_generation s = ej_generation j"
  by (auto simp: prepare_generation(4) begin_maintenance_Inr(2) begin_submission_def journal_transact_Inr elim!: begin_step_Inr)

lemma admission_without_maintenance:
  "prepare p env intent notional count opts j s = Inr (e, s') \<Longrightarrow> journal_maintenance s = None"
  "begin_submission p env k rv j s = Inr (e, s') \<Longrightarrow> journal_maintenance s = None"
  by (auto simp: prepare_generation(5) begin_submission_def journal_transact_Inr elim!: begin_step_Inr)

text \<open>The identifiers of intents: an entry is replaced only when the execution it names was released.\<close>

definition released_record :: "string \<Rightarrow> execution_risk_state \<Rightarrow> bool" where
  "released_record k s \<longleftrightarrow>
     (case record_at k s of None \<Rightarrow> False
      | Some e \<Rightarrow> \<not> isUnresolvedExecution e \<and> map_option fst (ex_settlement e) = Some Release)"

lemma intent_keys_default:
  "intent_keys s = opt_default [] (jn_intentKeys (opt_default (new_journal_state j) (executions s)))"
  by (simp add: intent_keys_def new_journal_state_def split: option.splits)

lemma prepare_intent_known:
  assumes "prepare p env intent notional count opts j s = Inr (e, s')" "po_intentId opts = Some i"
    "obj_get (intent_keys s) (intentKey p (ej_scope j) i) = Some (x, fp)"
  shows "released_record x s" "fp = intent_fingerprint p intent (po_reference opts)"
  using prepare_generation(3)[OF assms(1)] assms(2,3)
  by (auto simp: prepare_intent_guard_def intent_keys_default[of s j] released_intent_def released_record_def record_at_def
      journal_state_default result_simps split: option.splits if_splits)

lemma prepare_keys:
  assumes "prepare p env intent notional count opts j s = Inr (e, s')" "obj_get (intent_keys s) key = Some (x, fp)"
  shows "obj_get (intent_keys s') key = Some (x, fp) \<or> released_record x s"
proof (cases "\<exists>i. po_intentId opts = Some i \<and> intentKey p (ej_scope j) i = key")
  case True
  then show ?thesis using prepare_intent_known[OF assms(1)] assms(2) by auto
next
  case False
  then show ?thesis
    using assms(2) unfolding prepare_generation(2)[OF assms(1)]
    by (auto simp: intent_keys_def record_intent_key_def new_journal_state_def split: option.splits)
qed

lemma step_keys:
  assumes "journal_step p ev s s'" "obj_get (intent_keys s) key = Some (x, fp)"
  shows "obj_get (intent_keys s') key = Some (x, fp) \<or> released_record x s"
  using assms(1)
proof (cases rule: step_frame_cases)
  case prepared then show ?thesis using prepare_keys assms(2) by blast
next
  case completed then show ?thesis using maintenance_end_quiet(2) assms(2) by metis
next
  case framed then show ?thesis using assms(2) by (simp add: journal_frame_def)
qed


lemma normalizedUsage_blocks: "normalizedUsage u m = Inr v \<Longrightarrow> executionBlocks v = executionBlocks u"
  by (auto simp: normalizedUsage_def result_simps)

lemma normalized_blocks:
  assumes "normalizedState s = Inr d" shows "block_ids (usage_of m d) = block_ids (usage_of m s)"
  using normalizedUsage_blocks[OF normalizedState_ok(5)[OF assms]] by (simp add: block_ids_def)

lemma has_blocks_iff: "has_blocks s \<longleftrightarrow> (\<exists>m. block_ids (usage_of m s) \<noteq> [])"
proof -
  have "(\<exists>m. block_ids (usage_of m s) \<noteq> []) \<longleftrightarrow> block_ids (usage_of Paper s) \<noteq> [] \<or> block_ids (usage_of Live s) \<noteq> []"
    by (metis trading_mode.exhaust)
  then show ?thesis by (simp add: has_blocks_def)
qed

section \<open>Properties\<close>

text \<open>C10. However many processes work on the store, the journal's history only moves forward: an execution keeps its
  identity (scope, intent, amount, reservation), its status moves along the status graph, its revision never
  falls and its content changes only with a new revision, and a settlement once recorded never changes. A
  record leaves the journal only after it was settled. (Identifiers of later submissions are fresh.)\<close>

theorem execution_history_only_moves_forward:
  assumes "journal_run p s es s'" "record_at k s = Some e" "opened k es = 0"
  shows "case record_at k s' of
       None \<Rightarrow> isUnresolvedExecution e \<longrightarrow> closed k es = 1
     | Some e' \<Rightarrow> same_identity e e' \<and> may_follow (ex_status e) (ex_status e') \<and> ex_revision e \<le> ex_revision e' \<and>
         (ex_revision e' = ex_revision e \<longrightarrow>
            e' = e\<lparr>ex_archiveAcknowledgedRevision := ex_archiveAcknowledgedRevision e'\<rparr>) \<and>
         (ex_settlement e \<noteq> None \<longrightarrow> ex_settlement e' = ex_settlement e)"
proof -
  have "isUnresolvedExecution e \<longrightarrow> closed k es = 1" if "record_at k s' = None"
    using journal_contract.run_balance[OF journal_run_contract[OF assms(1)], of k] assms(2,3) that
    by (auto simp: journal_claims_def)
  then show ?thesis using run_evolves[OF assms(1,3,2)] by (auto simp: evolves_def split: option.splits)
qed

text \<open>C11. An unresolved execution stays in the journal, with its intent and amount, until it is settled, and it is
  settled at most once; after that it is never unresolved again.\<close>

theorem execution_settled_at_most_once:
  assumes "journal_run p s es s'" "record_at k s = Some e" "isUnresolvedExecution e" "opened k es = 0"
  shows "closed k es \<le> 1 \<and>
    (closed k es = 0 \<longrightarrow> (\<exists>e'. record_at k s' = Some e' \<and> isUnresolvedExecution e' \<and>
       ex_intent e' = ex_intent e \<and> ex_notional e' = ex_notional e)) \<and>
    (closed k es = 1 \<longrightarrow> \<not> (\<exists>e'. record_at k s' = Some e' \<and> isUnresolvedExecution e'))"
proof -
  have c: "journal_claims s k = Some (ex_intent e, ex_notional e)" using assms(2,3) by (simp add: journal_claims_def)
  have b: "held (journal_claims s' k) + closed k es = 1"
    using journal_contract.run_balance[OF journal_run_contract[OF assms(1)], of k] assms(4) c by simp
  have "\<exists>e'. record_at k s' = Some e' \<and> isUnresolvedExecution e' \<and> ex_intent e' = ex_intent e \<and> ex_notional e' = ex_notional e"
    if "closed k es = 0"
    using b that run_evolves[OF assms(1,4,2)]
    by (auto simp: journal_claims_def held_def evolves_def same_identity_def split: option.splits if_splits)
  moreover have "\<not> (\<exists>e'. record_at k s' = Some e' \<and> isUnresolvedExecution e')" if "closed k es = 1"
    using b that by (auto simp: journal_claims_def held_def)
  ultimately show ?thesis using b by auto
qed

lemma settled_never_again:
  assumes "journal_run p s es s'" "opened k es = 0" "record_at k s = Some e" "\<not> isUnresolvedExecution e"
    "record_at k s' = Some e'"
  shows "\<not> isUnresolvedExecution e'"
proof -
  have "may_follow (ex_status e) (ex_status e')" using run_evolves[OF assms(1-3)] assms(5) by (simp add: evolves_def)
  then show ?thesis using assms(4) by (cases "ex_status e") (auto simp: isUnresolvedExecution_def)
qed

text \<open>Settling is first-wins: after an effective settlement, a settlement of the same execution by any process,
  however late and with whatever outcome, either fails or returns false and leaves the store as it is.\<close>

theorem settlement_is_final:
  assumes "settle p env k outcome notional status evidence revision j s = Inr (True, s1)"
    and "journal_run p s1 es s2" "opened k es = 0"
    and "settle p env' k outcome' notional' status' evidence' revision' j' s2 = Inr (r, s3)"
  shows "\<not> r \<and> s3 = s2"
proof -
  obtain e1 where e1: "record_at k s1 = Some e1" "\<not> isUnresolvedExecution e1"
    by (rule settle_change[OF assms(1)])
  have "\<not> r"
  proof
    assume r
    then have "settle p env' k outcome' notional' status' evidence' revision' j' s2 = Inr (True, s3)" using assms(4) by simp
    then show False by (rule settle_change) (use settled_never_again[OF assms(2,3) e1] in blast)
  qed
  then show ?thesis using settle_cases(1)[OF assms(4)] by simp
qed

text \<open>C12. An order is handed to the exchange at most once: \<^verbatim>\<open>begin\<close> succeeds only on a prepared record of the
  caller's own generation, with no maintenance active, and from then on it never succeeds again for that
  record, in any process; nor does it after the preparation was settled.\<close>

theorem submission_starts_at_most_once:
  assumes "begin_submission p env k rv j s = Inr (e1, s1)" "journal_run p s1 es s2" "opened k es = 0"
  shows "(\<exists>e. record_at k s = Some e \<and> ex_status e = Prepared \<and> journal_maintenance s = None \<and>
           opt_default 0 (ex_admissionGeneration e) = ej_generation j \<and> journal_generation s = ej_generation j) \<and>
    record_at k s1 = Some e1 \<and> ex_status e1 = Submission_started \<and>
    \<not> returns (begin_submission p env' k rv' j' s2)"
proof -
  obtain e where e: "record_at k s = Some e" "ex_status e = Prepared" "journal_maintenance s = None"
      "opt_default 0 (ex_admissionGeneration e) = ej_generation j" "journal_generation s = ej_generation j"
    and t: "transition env Submission_started e s = Inr (e1, s1)"
    using assms(1) by (auto simp: begin_submission_def result_simps elim!: begin_step_Inr)
  have r: "record_at k s1 = Some e1" using transition_record_at[OF t e(1) record_at_id[OF e(1)], of k] by simp
  have st: "ex_status e1 = Submission_started" by (simp add: transition_Inr(1)[OF t])
  have "\<not> returns (begin_submission p env' k rv' j' s2)"
  proof
    assume "returns (begin_submission p env' k rv' j' s2)"
    then obtain e3 s3 where "begin_step p env' k rv' j' s2 = Inr (e3, s3)"
      by (auto simp: returns_iff begin_submission_def journal_transact_Inr)
    then obtain e2 where "record_at k s2 = Some e2" "ex_status e2 = Prepared" by (rule begin_step_Inr)
    then show False using run_evolves[OF assms(2,3) r] st by (simp add: evolves_def)
  qed
  then show ?thesis using e r st by blast
qed

lemma unresolved_is_blocked:
  assumes "e \<in> set (journal_records s)" "isUnresolvedExecution e" "validateExecutionRiskState s = Inr ()"
  shows "ex_id e \<in> set (block_ids (usage_of (sc_mode (ex_scope e)) s))"
  using valid_records(3)[OF assms(3,1)] assms(2) obj_get_Some_mem by (force simp: blocked_def block_ids_def)

lemma unresolved_blocks_prepare:
  assumes "e \<in> set (journal_records s)" "isUnresolvedExecution e"
  shows "\<not> returns (prepare p env intent notional True opts j s)"
proof
  assume "returns (prepare p env intent notional True opts j s)"
  then obtain y s' where v: "validateExecutionRiskState s = Inr ()"
    and "prepare_step p env j intent notional True opts s = Inr (y, s')"
    by (auto simp: returns_iff prepare_def journal_transact_Inr)
  from this(2) obtain s1 h s2 where a: "prepare_account p j True opts s = Inr s1"
    and r: "reserve (ledger_env_of env) (ej_config j) (intent_symbol intent) notional True (Some (je_uuid env)) s1 = Inr (h, s2)"
    by (rule prepare_step_Inr)
  obtain d e' where d: "normalizedState s1 = Inr d" "state_ok d" "refreshDraft (ledger_env_of env) (cfg_mode (ej_config j)) d = Inr e'"
    "\<not> has_blocks e'"
    by (rule reserve_Inr[OF r]) (blast intro: that)
  have "block_ids (usage_of m e') = block_ids (usage_of m d)" for m
    using refreshDraft_keeps[OF d(3,2)] by (simp add: block_ids_def)
  moreover have "block_ids (usage_of m d) = block_ids (usage_of m s)" for m
    using normalized_blocks[OF d(1), of m] prepare_account_frame(2)[OF a, of m] by simp
  ultimately show False using unresolved_is_blocked[OF assms v] d(4) by (auto simp: has_blocks_iff)
qed

text \<open>C13. While any execution of the store is unresolved, in either trading mode and for any account, no submission
  that adds exposure is admitted; and a prepared one that adds exposure starts only if no other execution
  is unresolved.\<close>

theorem unresolved_execution_blocks_new_exposure:
  assumes "e \<in> set (journal_records s)" "isUnresolvedExecution e"
  shows "\<not> returns (prepare p env intent notional True opts j s) \<and>
    (\<forall>k x. ex_id e \<noteq> k \<longrightarrow> record_at k s = Some x \<longrightarrow> truthy (ex_reservationId x) \<noteq> None \<longrightarrow>
       \<not> returns (begin_submission p env k rv j s))"
proof -
  note block = unresolved_is_blocked[OF assms]
  have "\<not> returns (prepare p env intent notional True opts j s)" by (rule unresolved_blocks_prepare[OF assms])
  moreover have "\<not> returns (begin_submission p env k rv j s)"
    if o: "ex_id e \<noteq> k" "record_at k s = Some x" "truthy (ex_reservationId x) \<noteq> None" for k x
  proof
    assume "returns (begin_submission p env k rv j s)"
    then obtain y s' where v: "validateExecutionRiskState s = Inr ()" and "begin_step p env k rv j s = Inr (y, s')"
      by (auto simp: returns_iff begin_submission_def journal_transact_Inr)
    from this(2) have "assertNewExposureAllowed (Some k) s = Inr ()" by (rule begin_step_Inr) (use o in auto)
    then obtain d where d: "normalizedState s = Inr d"
      and n: "\<not> list_ex (\<lambda>u. list_ex (\<lambda>b. Some b \<noteq> Some k) (block_ids u)) [st_paper d, st_live d]"
      by (auto simp: assertNewExposureAllowed_def loadLatest_def result_simps)
    have "ex_id e \<in> set (block_ids (usage_of (sc_mode (ex_scope e)) d))" using block[OF v] normalized_blocks[OF d] by simp
    then show False using n o(1) by (cases "sc_mode (ex_scope e)") (auto simp: list_ex_iff)
  qed
  ultimately show ?thesis by blast
qed


text \<open>C15. Completing an account maintenance advances the admission generation by one, and from then on a runtime
  that captured an earlier generation can neither prepare nor start a submission nor begin another
  maintenance, whatever happens to the store in between.\<close>

theorem replaced_runtime_is_fenced:
  assumes "completeMaintenance env k reference j s = Inr (j', s1)" "journal_run p s1 es s2"
    and "ej_generation old \<le> journal_generation s"
  shows "journal_generation s1 = journal_generation s + 1 \<and>
    \<not> returns (prepare p env2 intent notional count opts old s2) \<and>
    \<not> returns (begin_submission p env2 k2 rv old s2) \<and> \<not> returns (beginMaintenance env2 action old s2)"
proof -
  have g: "journal_generation s1 = journal_generation s + 1" using maintenance_end_quiet(2)[OF assms(1)] by simp
  then have "journal_generation s2 \<noteq> ej_generation old" using run_generation[OF assms(2)] assms(3) by simp
  then show ?thesis using g admission_needs_generation by (fastforce simp: returns_iff)
qed

text \<open>Maintenance and submissions exclude each other: maintenance begins only when no execution is unresolved and
  no quota is reserved, no submission is prepared or started while it is active, and every valid state with
  active maintenance is idle in that sense.\<close>

theorem maintenance_excludes_submissions:
  assumes "beginMaintenance env action j s = Inr (m, j', s1)"
  shows "journal_maintenance s1 = Some m \<and> \<not> list_ex isUnresolvedExecution (journal_records s1) \<and> \<not> claims_in_flight s1 \<and>
    (\<forall>s2. journal_maintenance s2 \<noteq> None \<longrightarrow>
       \<not> returns (prepare p env2 intent notional count opts j2 s2) \<and> \<not> returns (begin_submission p env2 k rv j2 s2) \<and>
       \<not> returns (beginMaintenance env2 action2 j2 s2) \<and>
       (returns (validateExecutionRiskState s2) \<longrightarrow>
          \<not> list_ex isUnresolvedExecution (journal_records s2) \<and> \<not> claims_in_flight s2))"
proof -
  note b = begin_maintenance_Inr[OF assms]
  have m: "journal_maintenance s1 = Some m" by (simp add: journal_maintenance_def b(5))
  have valid: "\<not> list_ex isUnresolvedExecution (journal_records s2) \<and> \<not> claims_in_flight s2"
    if "journal_maintenance s2 \<noteq> None" "validateExecutionRiskState s2 = Inr ()" for s2
    using that by (simp add: validate_Inr)
  have "validateExecutionRiskState s1 = Inr ()" using assms by (auto simp: beginMaintenance_def result_simps)
  moreover have "\<not> returns (prepare p env2 intent notional count opts j2 s2)" "\<not> returns (begin_submission p env2 k rv j2 s2)"
    "\<not> returns (beginMaintenance env2 action2 j2 s2)" if "journal_maintenance s2 \<noteq> None" for s2
    using that admission_without_maintenance begin_maintenance_Inr(1) by (fastforce simp: returns_iff)+
  ultimately show ?thesis using m valid by (auto simp: returns_iff)
qed

definition spent_execution :: "string \<Rightarrow> execution_risk_state \<Rightarrow> bool" where
  "spent_execution x s \<longleftrightarrow>
     (case record_at x s of None \<Rightarrow> True | Some e \<Rightarrow> map_option fst (ex_settlement e) = Some Commit)"

lemma spent_not_released: "spent_execution x s \<Longrightarrow> \<not> released_record x s"
  by (auto simp: spent_execution_def released_record_def split: option.splits)

lemma step_spent:
  assumes "journal_step p ev s s'" "opened x [ev] = 0" "spent_execution x s" shows "spent_execution x s'"
proof (cases "record_at x s")
  case None
  then show ?thesis using step_no_record[OF assms(1,2)] by (simp add: spent_execution_def)
next
  case (Some e)
  then show ?thesis
    using journal_changeD[OF step_change[OF assms(1)] Some] assms(3)
    by (auto simp: spent_execution_def evolves_def split: option.splits)
qed

lemma run_spent:
  "journal_run p s es s' \<Longrightarrow> opened x es = 0 \<Longrightarrow> spent_execution x s \<Longrightarrow> obj_get (intent_keys s) key = Some (x, fp) \<Longrightarrow>
     spent_execution x s' \<and> obj_get (intent_keys s') key = Some (x, fp)"
proof (induction rule: journal_run.induct)
  case (journal_next ev s s' es s'')
  then show ?case
    using step_spent[of p ev s s' x] step_keys[of p ev s s' key x fp] spent_not_released opened_Cons[of x ev es] by simp
qed simp

text \<open>A stable intent identity is spent by a committed execution: once the execution recorded for it was committed
  (or its record has left the history), no process prepares that intent again for the same account.\<close>

theorem committed_intent_is_final:
  assumes "journal_run p s es s'" "findIntent p j i s = Some x" "spent_execution x s" "opened x es = 0"
    and "po_intentId opts = Some i"
  shows "findIntent p j i s' = Some x \<and> \<not> returns (prepare p env intent notional count opts j s')"
proof -
  obtain fp where fp: "obj_get (intent_keys s) (intentKey p (ej_scope j) i) = Some (x, fp)"
    using assms(2) by (auto simp: findIntent_def intent_keys_def split: option.splits)
  note r = run_spent[OF assms(1,4,3) fp]
  have "findIntent p j i s' = Some x"
    using r by (auto simp: findIntent_def intent_keys_def split: option.splits)
  moreover have "\<not> returns (prepare p env intent notional count opts j s')"
    using r prepare_intent_known(1)[OF _ assms(5)] spent_not_released by (fastforce simp: returns_iff)
  ultimately show ?thesis by simp
qed

text \<open>Trimming the history keeps every unresolved record and every referenced record whose evidence is not
  archived, and of the others exactly the newest 200, all in their order.\<close>

theorem trimming_keeps_what_matters:
  assumes "distinct (map ex_id rs)"
  shows "filter (\<lambda>e. isUnresolvedExecution e \<or> retainReference e) (trimExecutionHistory rs) =
       filter (\<lambda>e. isUnresolvedExecution e \<or> retainReference e) rs \<and>
    filter (\<lambda>e. \<not> (isUnresolvedExecution e \<or> retainReference e)) (trimExecutionHistory rs) =
       drop (length (filter (\<lambda>e. \<not> (isUnresolvedExecution e \<or> retainReference e)) rs) - 200)
         (filter (\<lambda>e. \<not> (isUnresolvedExecution e \<or> retainReference e)) rs) \<and>
    subseq (trimExecutionHistory rs) rs"
proof -
  have n: "closed_record = (\<lambda>e. \<not> (isUnresolvedExecution e \<or> retainReference e))" by (auto simp: closed_record_def)
  show ?thesis
    using trim_kept[of rs] trim_closed[OF assms] unfolding n
    by (simp add: slice_last_def EXECUTION_HISTORY_LIMIT_def trimExecutionHistory_def Let_def)
qed

lemma claim_attempt_Inr:
  assumes "claimAttempt env k t j s = Inr (Some e', s')"
  obtains e where "record_at k s = Some e" "isUnresolvedExecution e" "ex_status e \<noteq> Prepared"
    "ex_attempts e < MAX_RECOVERY_ATTEMPTS" "\<forall>u. ex_nextAttemptAt e = Some u \<longrightarrow> \<not> js_gt u (je_clock env)"
    "e' = e\<lparr>ex_attempts := ex_attempts e + 1, ex_nextAttemptAt := Some t, ex_revision := ex_revision e + 1,
            ex_updatedAt := je_clock env\<rparr>" "s' = put_entry e' s"
  using assms
  by (auto simp: claimAttempt_def claim_attempt_step_def iso_now_def Let_def result_simps split: if_splits option.splits)

text \<open>C16. A recovery attempt is claimed by one worker at a time and never before its time. A claim is granted only on
  a started, unresolved record that has attempts left and whose waiting time is over; it uses up an attempt, and at most nine are granted. Whatever
  all processes do with the journal afterwards (\<open>es\<close>; a random identifier is not given to a second execution), the next attempt
  on the record is granted only by a clock that has reached the time the last claim has set, and every later one counts higher.\<close>

theorem recovery_attempts_are_exclusive:
  assumes "claimAttempt env k t j s = Inr (Some e1, s1)"
  shows "record_at k s1 = Some e1 \<and> ex_attempts e1 \<le> 9 \<and>
    (\<exists>e. record_at k s = Some e \<and> isUnresolvedExecution e \<and> ex_status e \<noteq> Prepared \<and> ex_attempts e1 = ex_attempts e + 1 \<and>
       (\<forall>u. ex_nextAttemptAt e = Some u \<longrightarrow> \<not> js_gt u (je_clock env))) \<and>
    (\<forall>es s2 env2 t2 j2 e2 s3. journal_run p s1 es s2 \<longrightarrow> opened k es = 0 \<longrightarrow>
       claimAttempt env2 k t2 j2 s2 = Inr (Some e2, s3) \<longrightarrow>
       ex_attempts e1 < ex_attempts e2 \<and> (ex_attempts e2 = ex_attempts e1 + 1 \<longrightarrow> \<not> js_gt t (je_clock env2)))"
proof -
  obtain e where e: "record_at k s = Some e" "isUnresolvedExecution e" "ex_status e \<noteq> Prepared"
    "ex_attempts e < MAX_RECOVERY_ATTEMPTS" "\<forall>u. ex_nextAttemptAt e = Some u \<longrightarrow> \<not> js_gt u (je_clock env)"
    "e1 = e\<lparr>ex_attempts := ex_attempts e + 1, ex_nextAttemptAt := Some t, ex_revision := ex_revision e + 1,
            ex_updatedAt := je_clock env\<rparr>" "s1 = put_entry e1 s"
    using assms by (rule claim_attempt_Inr)
  have at: "record_at k s1 = Some e1" using e(1) record_at_id[OF e(1)] by (simp add: e(6,7) record_at_put)
  have "ex_attempts e1 < ex_attempts e2 \<and> (ex_attempts e2 = ex_attempts e1 + 1 \<longrightarrow> \<not> js_gt t (je_clock env2))"
    if r: "journal_run p s1 es s2" "opened k es = 0" and c: "claimAttempt env2 k t2 j2 s2 = Inr (Some e2, s3)" for es s2 env2 t2 j2 e2 s3
  proof -
    obtain e3 where e3: "record_at k s2 = Some e3" "isUnresolvedExecution e3" "\<forall>u. ex_nextAttemptAt e3 = Some u \<longrightarrow> \<not> js_gt u (je_clock env2)"
      "ex_attempts e2 = ex_attempts e3 + 1"
      using c by (rule claim_attempt_Inr) auto
    have ev: "evolves e1 e3" using run_evolves[OF r at] e3(1) by simp
    have "validateExecutionRiskState s2 = Inr ()" using c by (auto simp: claimAttempt_def journal_transact_Inr)
    then have "ex_settlement e3 = None" using valid_records(4)[OF _ record_at_mem[OF e3(1)]] e3(2) by simp
    then have "ex_attempts e3 = ex_attempts e1 \<longrightarrow> ex_nextAttemptAt e3 = Some t" using ev by (auto simp: evolves_def e(6))
    then show ?thesis using ev e3(3,4) by (auto simp: evolves_def)
  qed
  moreover have "ex_attempts e1 \<le> 9" using e(4) by (simp add: e(6) MAX_RECOVERY_ATTEMPTS_def)
  ultimately show ?thesis using at e(1-5) by (auto simp: e(6))
qed

definition quota_before :: "journal_env \<Rightarrow> trading_mode \<Rightarrow> execution_risk_state \<Rightarrow> jsnum" where
  "quota_before env m s =
     (if m = Live \<and> iso_date (je_clock env) \<noteq> Some (usage_date (st_live s)) then Fin 0 else usedDailyNotional (usage_of m s))"

lemma usage_of_del_block [simp]:
  "usedDailyNotional (usage_of m (del_block m' k s)) = usedDailyNotional (usage_of m s)"
  "reservations (usage_of m (del_block m' k s)) = reservations (usage_of m s)"
  by (cases m; cases m'; simp add: del_block_def Let_def)+

lemma normalized_used: "normalizedState s = Inr d \<Longrightarrow> usedDailyNotional (usage_of m d) = usedDailyNotional (usage_of m s)"
  by (drule normalizedState_ok(5)[where mode = m], erule normalizedUsage_eq) simp

lemma normalized_date: "normalizedState s = Inr d \<Longrightarrow> usage_date (usage_of m d) = usage_date (usage_of m s)"
  by (drule normalizedState_ok(5)[where mode = m], erule normalizedUsage_eq) simp

lemma refreshed_used:
  assumes "normalizedState s = Inr d" "state_ok d" "refreshDraft (ledger_env_of env) Live d = Inr e"
  shows "usedDailyNotional (usage_of m e) = quota_before env m s"
proof -
  obtain day where "iso_date (je_clock env) = Some day" "e = d\<lparr>st_live := roll_over day (st_live d)\<rparr>"
    using refreshDraft_Inr[OF assms(3,2)] by (auto simp: today_def ledger_env_of_def split: option.splits)
  then show ?thesis
    using normalized_used[OF assms(1), of m] normalized_date[OF assms(1), of Live]
    by (cases m) (auto simp: quota_before_def roll_over_def)
qed

text \<open>What a settlement of the ledger leaves as it was: every other claim of both modes, every block and the quota of the other mode (which
  restarts with the day).\<close>

lemma reconcile_leaves:
  assumes "reconcileReservation (ledger_env_of env) r outcome committed ex s = Inr s1" "claim_of mode r s \<noteq> None"
  shows "claim_of m q s1 = (if m = mode \<and> q = r then None else claim_of m q s)" "executionBlocks (usage_of m s1) = executionBlocks (usage_of m s)"
    "m \<noteq> mode \<Longrightarrow> usedDailyNotional (usage_of m s1) = quota_before env m s"
    "\<exists>c used. settled_usage outcome committed c (quota_before env mode s) used \<and> claim_of mode r s = Some c \<and>
       usedDailyNotional (usage_of mode s1) = used"
proof -
  have all: "claim_of m q s1 = (if m = mode \<and> q = r then None else claim_of m q s) \<and>
      executionBlocks (usage_of m s1) = executionBlocks (usage_of m s) \<and>
      (m \<noteq> mode \<longrightarrow> usedDailyNotional (usage_of m s1) = quota_before env m s) \<and>
      (\<exists>c used. settled_usage outcome committed c (quota_before env mode s) used \<and> claim_of mode r s = Some c \<and>
         usedDailyNotional (usage_of mode s1) = used)" for m q
    using assms(1)
  proof (cases rule: reconcile_Inr)
    case (1 d e n md claim rs used t)
    have md: "md = mode" using 1(13)[of mode] claim_of_normalized[OF 1(1), of mode r] assms(2) by (cases "mode = md") auto
    note d_s = claim_of_normalized[OF 1(1)] and n_s = claim_of_normalized[OF 1(8)]
    have claims: "claim_of m q n = (if m = mode \<and> q = r then None else claim_of m q d)"
      using refreshDraft_keeps(1)[OF 1(3,2), of m] 1(6,11) 1(12)[of m]
      by (cases "m = mode") (auto simp: claim_of_def opt_default_def md)
    have "executionBlocks (usage_of m n) = executionBlocks (usage_of m e)"
      using 1(11) 1(12)[of m] by (cases "m = mode") (auto simp: md)
    then have blocks: "executionBlocks (usage_of m s1) = executionBlocks (usage_of m s)"
      using normalizedUsage_ok(4)[OF normalizedState_ok(5)[OF 1(8)], of m] normalizedUsage_ok(4)[OF normalizedState_ok(5)[OF 1(1)], of m]
        refreshDraft_keeps(3)[OF 1(3,2), of m] by simp
    have "usedDailyNotional (usage_of m s1) = quota_before env m s" if "m \<noteq> mode"
      using that 1(12)[of m] normalized_used[OF 1(8), of m] refreshed_used[OF 1(1,2,3), of m] by (simp add: md)
    moreover have "settled_usage outcome committed claim (quota_before env mode s) used"
      using 1(7) refreshed_used[OF 1(1,2,3)] by (simp add: md)
    moreover have "usedDailyNotional (usage_of mode s1) = used" using normalized_used[OF 1(8), of mode] 1(11) by (simp add: md)
    ultimately show ?thesis using claims blocks 1(4) by (auto simp: d_s n_s md)
  qed
  show "claim_of m q s1 = (if m = mode \<and> q = r then None else claim_of m q s)" "executionBlocks (usage_of m s1) = executionBlocks (usage_of m s)"
    "m \<noteq> mode \<Longrightarrow> usedDailyNotional (usage_of m s1) = quota_before env m s"
    "\<exists>c used. settled_usage outcome committed c (quota_before env mode s) used \<and> claim_of mode r s = Some c \<and>
       usedDailyNotional (usage_of mode s1) = used" using all by simp_all
qed

lemma del_block_frame [simp]:
  "claim_of m q (del_block mode k s) = claim_of m q s"
  "usedDailyNotional (usage_of m (del_block mode k s)) = usedDailyNotional (usage_of m s)"
  "blocked m k' (del_block mode k s) \<longleftrightarrow> (m, k') \<noteq> (mode, k) \<and> blocked m k' s"
  by (cases "m = mode"; auto simp: del_block_def claim_of_def blocked_def Let_def opt_default_def split: option.splits)+

text \<open>The part of the store the ledger owns is carried over by the rest of a settlement, up to the block that is removed.\<close>

lemma settled_ledger:
  assumes "transition env status e1 (del_block mode k (commit_protections p outcome e s1)) = Inr (e2, s2)"
    "s' = map_journal (jn_records_update f) s2"
  shows "claim_of m q s' = claim_of m q s1" "usedDailyNotional (usage_of m s') = usedDailyNotional (usage_of m s1)"
    "blocked m k' s' \<longleftrightarrow> (m, k') \<noteq> (mode, k) \<and> blocked m k' s1"
proof -
  have "usage_of m (del_block mode k (commit_protections p outcome e s1)) = usage_of m (del_block mode k s1)" for m
    by (cases "m = mode") (simp_all add: del_block_def Let_def)
  then have u: "usage_of m s' = usage_of m (del_block mode k s1)" for m
    using transition_Inr(4)[OF assms(1)] by (simp add: assms(2))
  show "claim_of m q s' = claim_of m q s1" "usedDailyNotional (usage_of m s') = usedDailyNotional (usage_of m s1)"
    "blocked m k' s' \<longleftrightarrow> (m, k') \<noteq> (mode, k) \<and> blocked m k' s1"
    using del_block_frame[where m = m and mode = mode and k = k and s = s1] by (simp_all add: claim_of_def blocked_def u)
qed

text \<open>C14. A settlement and the quota move in one transaction: an effective settlement of an execution that holds a
  reservation ends exactly that reservation (every other claim of both modes stays), removes exactly the block of the execution (every
  other block stays), records the settlement in the journal and, for a commit, adds the settled amount to the quota used of its mode
  (which starts at zero on a new live day); a release adds nothing, and the quota of the other mode only restarts with its day.\<close>

theorem settlement_and_quota_move_together:
  assumes "settle p env k outcome notional status evidence revision j s = Inr (True, s')"
    and "record_at k s = Some e" "ex_reservationId e = Some r"
  shows "\<exists>c e'. claim_of (sc_mode (ex_scope e)) r s = Some c \<and> rsv_executionId c = Some k \<and>
      js_eq (rsv_notional c) (ex_notional e) \<and>
      (\<forall>m q. claim_of m q s' = (if m = sc_mode (ex_scope e) \<and> q = r then None else claim_of m q s)) \<and>
      (\<forall>m k'. blocked m k' s' \<longleftrightarrow> (m, k') \<noteq> (sc_mode (ex_scope e), k) \<and> blocked m k' s) \<and> record_at k s' = Some e' \<and>
      ex_settlement e' = Some (outcome, if outcome = Commit then notional else Fin 0) \<and>
      (\<forall>m. usedDailyNotional (usage_of m s') =
        (let used = quota_before env m s in if m = sc_mode (ex_scope e) \<and> outcome = Commit then js_add used notional else used))"
proof -
  let ?m = "sc_mode (ex_scope e)"
  note sc = settle_cases[OF assms(1)]
  obtain e0 e' where e': "record_at k s = Some e0" "isUnresolvedExecution e0" "record_at k s' = Some e'"
    "ex_settlement e' = Some (outcome, if outcome = Commit then notional else Fin 0)"
    by (rule settle_change[OF assms(1)]) (blast intro: that)
  have e0: "e0 = e" and id: "ex_id e = k" and mem: "e \<in> set (journal_records s)"
    using e'(1) record_at_id[OF assms(2)] record_at_mem[OF assms(2)] assms(2) by simp_all
  have "record_valid e" using valid_records(2)[OF sc(3)] mem by (simp add: list_all_iff)
  then have r: "truthy (Some r) = Some r" using assms(3) by (auto simp: truthy_def record_valid_def is_identifier_def)
  obtain c where c: "claim_of ?m r s = Some c" "rsv_executionId c = Some k" "js_eq (rsv_notional c) (ex_notional e)"
    using valid_records(5)[OF sc(3) mem] e'(2) r id by (auto simp: record_claim_ok_def e0 assms(3) split: option.splits)
  obtain s1 s2 e2 where rec: "reconcileReservation (ledger_env_of env) r outcome (Some notional) (Some k) s = Inr s1"
    and t: "transition env status (settled_entry outcome notional evidence e)
       (del_block ?m k (commit_protections p outcome e s1)) = Inr (e2, s2)"
    and s': "s' = map_journal (jn_records_update (\<lambda>rs. trimExecutionHistory (move_last e2 rs))) s2"
    by (rule settle_step_Inr[OF sc(2)[OF TrueI]]) (use assms(2,3) r id in \<open>auto intro: that\<close>)
  note ledger = settled_ledger[OF t s'] and leaves = reconcile_leaves[OF rec, of ?m]
  have "blocked m k' s1 = blocked m k' s" for m k' using leaves(2) c(1) by (simp add: blocked_def)
  moreover have "usedDailyNotional (usage_of m s1) =
      (let used = quota_before env m s in if m = ?m \<and> outcome = Commit then js_add used notional else used)" for m
    using leaves(3)[of m] leaves(4) c(1) by (cases "m = ?m"; cases outcome) (auto simp: settled_usage_def)
  ultimately show ?thesis using c e'(3,4) leaves(1) by (auto simp: ledger)
qed


section \<open>Witnesses\<close>

definition demo_platform :: journal_platform where
  "demo_platform = \<lparr>sha256 = (\<lambda>x. replicate 64 (CHR ''a'')), stringify_intent = (\<lambda>intent reference. ''{}'')\<rparr>"

definition demo_scope :: execution_scope where
  "demo_scope = \<lparr>sc_accountId = ''acct'', sc_exchange = ''sim'', sc_mode = Paper, sc_marketType = Spot,
     sc_quoteCurrency = ''USDT'', sc_positionMode = One_way\<rparr>"

definition demo_journal :: execution_journal where
  "demo_journal = \<lparr>ej_config = demo_config, ej_scope = demo_scope, ej_generation = 0, ej_owned = []\<rparr>"

definition demo_journal_env :: "string \<Rightarrow> journal_env" where
  "demo_journal_env u = \<lparr>je_clock = Fin 1767225600000, je_wall = Fin 1767225600000, je_uuid = u, je_ledger_uuid = ''r1'', je_event_uuid = ''v1''\<rparr>"

definition demo_intent :: execution_intent where
  "demo_intent = Order_intent \<lparr>in_symbol = ''BTC/USDT'', in_side = Sell, in_type = Stop_market, in_amount = Fin 1, in_price = None,
     in_reduceOnly = None, in_positionSide = None, in_stopPrice = Some (Fin 100), in_trailingPercent = None, in_closePosition = None,
     in_clientOrderId = Some ''tiaaaaaaaaaaaaaaaaaaaaaaaaaaaaaa''\<rparr> None"

definition demo_opts :: prepare_options where
  "demo_opts = \<lparr>po_intentId = Some ''i1'', po_reference = None, po_riskRevision = None, po_protectionStopPrice = None\<rparr>"

definition demo_entry :: "execution_status \<Rightarrow> nat \<Rightarrow> execution_record" where
  "demo_entry st n =
     \<lparr>ex_id = ''x1'', ex_intentId = Some ''i1'', ex_reference = None, ex_archiveAcknowledgedRevision = None,
      ex_admissionGeneration = Some 0, ex_scope = demo_scope, ex_intent = demo_intent, ex_notional = Fin 100,
      ex_reservationId = None, ex_status = st, ex_revision = n, ex_createdAt = Fin 1767225600000,
      ex_updatedAt = Fin 1767225600000, ex_attempts = 0, ex_nextAttemptAt = None, ex_issue = None, ex_evidence = None,
      ex_settlement = None\<rparr>"

definition demo_event :: "execution_status \<Rightarrow> trading_audit_event" where
  "demo_event st = execution_event (demo_entry st 0) ''v1'' (Fin 1767225600000)"

definition demo_blocks :: "bool obj option \<Rightarrow> execution_journal_state option \<Rightarrow> trading_audit_event list option \<Rightarrow> execution_risk_state" where
  "demo_blocks b jn a = \<lparr>st_paper = empty_usage\<lparr>executionBlocks := b\<rparr>, st_live = empty_usage, st_audit = a, st_accountRisk = None,
     executions = jn\<rparr>"

definition demo_keys :: "(string \<times> string) obj" where
  "demo_keys = [(replicate 64 (CHR ''a''), (''x1'', replicate 64 (CHR ''a'')))]"

definition demo_start :: execution_risk_state where
  "demo_start = demo_blocks None None None"

definition demo_jn :: "execution_record list \<Rightarrow> execution_journal_state" where
  "demo_jn rs = \<lparr>jn_records = rs, jn_admissionGeneration = Some 0, jn_maintenance = None, jn_intentKeys = Some demo_keys, jn_protections = None\<rparr>"

definition demo_prepared :: execution_risk_state where
  "demo_prepared = demo_blocks (Some [(''x1'', True)]) (Some (demo_jn [demo_entry Prepared 0])) (Some [demo_event Prepared])"

lemmas demo_strings = is_identifier_def is_lower_def is_upper_def is_digit_def currency_code_def action_name_def

lemma demo_audit_valid [simp]: "audit_event_valid (demo_event st)"
  by (cases st) (simp_all add: audit_event_valid_def demo_event_def execution_event_def demo_entry_def demo_scope_def
      demo_strings time_in_range_def)

lemma demo_intent_valid: "intentValid demo_intent"
  by (simp add: demo_intent_def symbol_format_def demo_strings positive_amount_def nonnegative_def ORDER_TYPES_def)

lemma demo_scope_valid: "scopeValid demo_scope"
  by (simp add: demo_scope_def scopeValid_def demo_strings)

lemma demo_entry_valid: "n \<le> 5 \<Longrightarrow> record_valid (demo_entry st n)"
  using demo_intent_valid demo_scope_valid
  by (simp add: record_valid_def demo_entry_def demo_strings positive_amount_def nonnegative_def safe_nat_def time_in_range_def)


lemma demo_fields [simp]:
  "je_uuid (demo_journal_env u) = u" "intent_symbol demo_intent = ''BTC/USDT''" "po_intentId demo_opts = Some ''i1''"
  "po_reference demo_opts = None" "po_protectionStopPrice demo_opts = None" "po_riskRevision demo_opts = None"
  "ej_scope demo_journal = demo_scope" "ej_config demo_journal = demo_config" "ej_generation demo_journal = 0"
  "ej_owned demo_journal = []" "sc_mode demo_scope = Paper" "ex_status (demo_entry st n) = st" "ex_id (demo_entry st n) = ''x1''"
  "ex_scope (demo_entry st n) = demo_scope" "ex_reservationId (demo_entry st n) = None"
  "ex_revision (demo_entry st n) = n" "je_clock (demo_journal_env u) = Fin 1767225600000"
  "je_event_uuid (demo_journal_env u) = ''v1''" "ex_updatedAt (demo_entry st n) = Fin 1767225600000"
  "ex_admissionGeneration (demo_entry st n) = Some 0"
  by (simp_all add: demo_journal_env_def demo_intent_def demo_opts_def demo_journal_def demo_scope_def demo_entry_def)

lemma demo_blocks_usage [simp]:
  "usage_of Paper (demo_blocks b jn a) = empty_usage\<lparr>executionBlocks := b\<rparr>" "usage_of Live (demo_blocks b jn a) = empty_usage"
  "executions (demo_blocks b jn a) = jn" "st_audit (demo_blocks b jn a) = a" "st_accountRisk (demo_blocks b jn a) = None"
  "st_paper (demo_blocks b jn a) = empty_usage\<lparr>executionBlocks := b\<rparr>" "st_live (demo_blocks b jn a) = empty_usage"
  by (simp_all add: demo_blocks_def)

lemma demo_normal:
  assumes "opt_all (list_all (\<lambda>(k, y). is_identifier k \<and> y)) b" "opt_all isTradingAuditState a"
  shows "normalizedState (demo_blocks b jn a) =
    Inr \<lparr>st_paper = empty_usage\<lparr>executionBlocks := b\<rparr>, st_live = empty_usage, st_audit = a, st_accountRisk = None\<rparr>"
proof -
  have "usage_ok m (empty_usage\<lparr>executionBlocks := b\<rparr>)" "usage_ok m empty_usage" for m
    using assms(1) by (auto simp: usage_ok_def empty_usage_def reservations_total_def)
  then show ?thesis using assms(2) by (simp add: normalizedState_def normalizedUsage_id)
qed

lemma demo_config_ok: "validateConfig demo_config = Inr demo_config"
  by (simp add: validateConfig_def demo_config_def Let_def currency_code_def is_upper_def positive_finite_def)

lemma demo_ledger:
  assumes "opt_all (list_all (\<lambda>(k, y). is_identifier k \<and> y)) b" "opt_all isTradingAuditState a"
  shows "new_risk_ledger (ej_config demo_journal) (demo_blocks b jn a) = Inr ()"
  using demo_normal[OF assms, of jn] demo_config_ok by (simp add: new_risk_ledger_def demo_journal_def)

lemma demo_identifiers [simp]: "is_identifier ''x1''" "is_identifier ''v1''" "is_identifier ''i1''"
  by (simp_all add: demo_strings)

lemma demo_events [simp]: "list_all audit_event_valid es \<Longrightarrow> length es \<le> 5 \<Longrightarrow> isTradingAuditState es"
  by (simp add: isTradingAuditState_def AUDIT_HISTORY_LIMIT_def)

lemma demo_no_claims: "\<not> claims_in_flight (demo_blocks b jn a)" "claims_have_records (demo_blocks b jn a) m"
  by (cases m; simp add: claims_in_flight_def claims_have_records_def empty_usage_def)+

lemma demo_record_ok:
  assumes "ex_scope e = demo_scope" "ex_intent e = demo_intent" "isUnresolvedExecution e" "ex_evidence e = None" "ex_settlement e = None"
    "ex_reservationId e = None" "ex_id e = ''x1''"
  shows "validate_record (demo_blocks (Some [(''x1'', True)]) jn a) e () = Inr ()"
  unfolding validate_record_Inr using assms
  by (auto simp: record_fees_ok_def evidence_orders_def blocked_def record_scope_ok_def Let_def record_claim_ok_def truthy_def
      demo_scope_def demo_intent_def symbol_quote_def isUnresolvedExecution_def)

lemma demo_digest [simp]: "is_identifier (replicate 64 (CHR ''a''))" "hex_digest (replicate 64 (CHR ''a''))"
  by (simp_all add: is_identifier_def is_lower_def hex_digest_def list_all_iff)

lemma demo_journal_ok:
  assumes "list_all record_valid rs" "distinct (map ex_id rs)" "length rs \<le> 5"
  shows "isExecutionJournalState (demo_jn rs)"
  using assms
  by (simp add: isExecutionJournalState_def demo_jn_def demo_keys_def safe_nat_def
      EXECUTION_HISTORY_LIMIT_def UNRESOLVED_EXECUTION_LIMIT_def REFERENCED_EXECUTION_LIMIT_def)

lemma demo_unresolved_valid:
  assumes "isUnresolvedExecution (demo_entry st n)" "n \<le> 5"
  shows "validateExecutionRiskState (demo_blocks (Some [(''x1'', True)]) (Some (demo_jn [demo_entry st n])) a) = Inr ()"
  unfolding validate_Inr
proof (intro conjI)
  let ?e = "demo_entry st n"
  let ?s = "demo_blocks (Some [(''x1'', True)]) (Some (demo_jn [?e])) a"
  have r: "journal_records ?s = [?e]" "journal_maintenance ?s = None" by (simp_all add: journal_records_def journal_maintenance_def demo_jn_def)
  show "opt_all isExecutionJournalState (executions ?s)" using demo_entry_valid[OF assms(2)] by (simp add: demo_journal_ok)
  show "opt_all (\<lambda>m. opt_all (\<lambda>g. g = journal_generation ?s + 1) (mt_nextGeneration m)) (journal_maintenance ?s)"
    "\<not> (journal_maintenance ?s \<noteq> None \<and> (list_ex isUnresolvedExecution (journal_records ?s) \<or> claims_in_flight ?s))"
    by (simp_all add: r)
  show "retention_ok (journal_records ?s)" using assms(1)
    by (simp add: r retention_ok_def UNRESOLVED_EXECUTION_LIMIT_def)
  show "all_modes_ok (claims_have_records ?s)" by (simp add: all_modes_ok_def demo_no_claims)
  show "all_modes_ok (blocks_have_records ?s)"
    using assms(1) by (simp add: all_modes_ok_def blocks_have_records_def r block_ids_def empty_usage_def)
  show "\<forall>e\<in>set (journal_records ?s). validate_record ?s e () = Inr ()"
    unfolding r using assms(1) by (auto intro!: demo_record_ok) (simp_all add: demo_entry_def)
qed

lemma demo_start_valid: "validateExecutionRiskState demo_start = Inr ()"
  by (simp add: validate_Inr demo_start_def journal_records_def journal_maintenance_def retention_ok_def all_modes_ok_def
      demo_no_claims blocks_have_records_def block_ids_def empty_usage_def)

lemma demo_iso [simp]: "iso_now (demo_journal_env u) = Inr (Fin 1767225600000)"
  by (simp add: iso_now_def demo_journal_env_def time_in_range_def)

lemma demo_validate_order: "validateOrder demo_config ''BTC/USDT'' (Fin 100) False = None"
  by (simp add: validateOrder_def demo_config_def validateTradingSymbol_def Let_def)

lemma demo_append:
  assumes "audit_event_valid (ev u t)" "list_all audit_event_valid (opt_default [] a)" "length (opt_default [] a) \<le> 4"
  shows "appendTradingAuditEvent ev u t (demo_blocks b jn a) = Inr (demo_blocks b jn (Some (opt_default [] a @ [ev u t])))"
  using assms
  by (cases a) (simp_all add: appendTradingAuditEvent_def slice_last_def AUDIT_HISTORY_LIMIT_def isTradingAuditState_def demo_blocks_def)

lemma demo_prepare:
  "prepare demo_platform (demo_journal_env ''x1'') demo_intent (Fin 100) False demo_opts demo_journal demo_start =
     Inr (demo_entry Prepared 0, demo_prepared)"
proof -
  have entry: "prepared_entry (demo_journal_env ''x1'') demo_journal demo_intent (Fin 100) False demo_opts r (Fin 1767225600000) = demo_entry Prepared 0" for r
    by (simp add: prepared_entry_def demo_journal_env_def demo_journal_def demo_opts_def demo_entry_def)
  have res: "reserve (ledger_env_of (demo_journal_env ''x1'')) demo_config ''BTC/USDT'' (Fin 100) False (Some ''x1'') demo_start =
      Inr (\<lparr>res_id = ''r1'', res_mode = Paper, res_symbol = ''BTC/USDT'', res_notional = Fin 100, res_count = False, res_finalized = False\<rparr>, demo_start)"
    using demo_validate_order by (simp add: reserve_def Let_def ledger_env_of_def demo_journal_env_def) (simp add: demo_config_def)
  have aud: "audit_entry (demo_journal_env ''x1'') (demo_entry Prepared 0) (demo_blocks b jn None) =
      Inr (demo_blocks b jn (Some [demo_event Prepared]))" for b jn
  proof -
    have "execution_event (demo_entry Prepared 0) ''v1'' (Fin 1767225600000) = demo_event Prepared" by (simp add: demo_event_def)
    then show ?thesis
      using demo_append[of "execution_event (demo_entry Prepared 0)" "''v1''" "Fin 1767225600000" None b jn]
      by (simp add: audit_entry_def)
  qed
  have blk: "add_block Paper ''x1'' (demo_start\<lparr>executions := jn\<rparr>) = demo_blocks (Some [(''x1'', True)]) jn None" for jn
    by (simp add: add_block_def demo_start_def demo_blocks_def obj_set_def empty_usage_def Let_def)
  have key: "record_intent_key demo_platform demo_journal (intent_fingerprint demo_platform demo_intent None) ''x1'' demo_opts
      ((new_journal_state demo_journal)\<lparr>jn_records := rs\<rparr>) = demo_jn rs" for rs
    by (simp add: record_intent_key_def intentKey_def intent_fingerprint_def demo_platform_def demo_jn_def demo_keys_def
        new_journal_state_def obj_set_def)
  have "prepare_step demo_platform (demo_journal_env ''x1'') demo_journal demo_intent (Fin 100) False demo_opts demo_start =
     Inr (demo_entry Prepared 0, demo_prepared)"
    using res entry aud blk key
    by (simp add: prepare_step_def assertAdmission_def Let_def prepare_reference_guard_def prepare_intent_guard_def prepare_account_def
        account_risk_of_def prepare_protection_def UNRESOLVED_EXECUTION_LIMIT_def journal_maintenance_def journal_generation_def)
      (simp add: demo_start_def demo_prepared_def new_journal_state_def)
  then show ?thesis
    using demo_start_valid demo_unresolved_valid[of Prepared 0] demo_ledger[of None None]
    by (simp add: prepare_def journal_transact_def demo_prepared_def isUnresolvedExecution_def demo_entry_def demo_start_def)
qed


definition demo_started :: execution_risk_state where
  "demo_started = demo_blocks (Some [(''x1'', True)]) (Some (demo_jn [demo_entry Submission_started 1]))
     (Some [demo_event Prepared, demo_event Submission_started])"

lemma demo_record_at: "record_at ''x1'' (demo_blocks b (Some (demo_jn [demo_entry st n])) a) = Some (demo_entry st n)"
  by (simp add: record_at_def journal_records_def demo_jn_def)

lemma demo_event_eq: "execution_event (demo_entry st n) ''v1'' (Fin 1767225600000) = demo_event st"
  by (simp add: demo_event_def execution_event_def demo_entry_def)

lemma demo_put: "ex_id e = ''x1'' \<Longrightarrow> put_entry e (demo_blocks b (Some (demo_jn [demo_entry st n])) a) = demo_blocks b (Some (demo_jn [e])) a"
  by (simp add: put_entry_def map_journal_def demo_blocks_def demo_jn_def)

lemma demo_transition:
  assumes "list_all audit_event_valid es" "length es \<le> 4"
  shows "transition (demo_journal_env u) st' (demo_entry st n) (demo_blocks b (Some (demo_jn [demo_entry st n])) (Some es)) =
    Inr (demo_entry st' (n + 1), demo_blocks b (Some (demo_jn [demo_entry st' (n + 1)])) (Some (es @ [demo_event st'])))"
proof -
  have e: "(demo_entry st n)\<lparr>ex_status := st', ex_revision := n + 1, ex_updatedAt := Fin 1767225600000\<rparr> = demo_entry st' (n + 1)"
    by (simp add: demo_entry_def)
  have "audit_entry (demo_journal_env u) (demo_entry st' (n + 1)) (demo_blocks b jn (Some es)) = Inr (demo_blocks b jn (Some (es @ [demo_event st'])))" for jn
    using demo_append[of "execution_event (demo_entry st' (n + 1))" "''v1''" "Fin 1767225600000" "Some es" b jn] assms
    by (simp add: audit_entry_def demo_event_eq)
  then show ?thesis by (simp add: transition_def demo_put) (simp add: e[simplified] Let_def)
qed

lemma demo_prepared_valid: "validateExecutionRiskState demo_prepared = Inr ()"
  unfolding demo_prepared_def by (rule demo_unresolved_valid) (simp_all add: isUnresolvedExecution_def)

lemma demo_started_valid: "validateExecutionRiskState demo_started = Inr ()"
  unfolding demo_started_def by (rule demo_unresolved_valid) (simp_all add: isUnresolvedExecution_def)

lemma demo_begin: "begin_submission demo_platform (demo_journal_env u) ''x1'' None demo_journal demo_prepared =
    Inr (demo_entry Submission_started 1, demo_started)"
  using demo_prepared_valid demo_started_valid demo_transition[of "[demo_event Prepared]" u Submission_started Prepared 0]
    demo_ledger[of "Some [(''x1'', True)]" "Some [demo_event Prepared]"]
  by (simp add: begin_submission_def journal_transact_def begin_step_def assertAdmission_def find_entry_def[unfolded record_at_def[symmetric]]
      demo_prepared_def demo_started_def demo_record_at journal_maintenance_def journal_generation_def truthy_def account_risk_of_def)
   (simp add: demo_jn_def)

lemma demo_begin_step: "journal_run demo_platform demo_prepared [Quiet] demo_started"
  by (rule journal_next[OF step_begin[OF demo_begin] journal_idle])

lemma demo_prepared_record: "record_at ''x1'' demo_prepared = Some (demo_entry Prepared 0)"
  by (simp add: demo_prepared_def demo_record_at)

lemma demo_started_record: "record_at ''x1'' demo_started = Some (demo_entry Submission_started 1)"
  by (simp add: demo_started_def demo_record_at)

theorem execution_history_only_moves_forward_witness:
  "journal_run demo_platform demo_prepared [Quiet] demo_started \<and>
   (\<exists>e'. record_at ''x1'' demo_started = Some e' \<and> same_identity (demo_entry Prepared 0) e' \<and> may_follow Prepared (ex_status e'))"
  using execution_history_only_moves_forward[OF demo_begin_step demo_prepared_record] demo_begin_step demo_started_record
  by simp

theorem execution_settled_at_most_once_witness:
  "closed ''x1'' [Quiet :: (string, execution_intent \<times> jsnum) claim_event] \<le> 1 \<and>
   (\<exists>e'. record_at ''x1'' demo_started = Some e' \<and> isUnresolvedExecution e')"
  using execution_settled_at_most_once[OF demo_begin_step demo_prepared_record]
  by (simp add: isUnresolvedExecution_def) blast

theorem submission_starts_at_most_once_witness:
  "returns (begin_submission demo_platform (demo_journal_env ''u'') ''x1'' None demo_journal demo_prepared) \<and>
   \<not> returns (begin_submission demo_platform (demo_journal_env ''u'') ''x1'' None demo_journal demo_started)"
  using submission_starts_at_most_once[OF demo_begin journal_idle] demo_begin by simp

theorem unresolved_execution_blocks_new_exposure_witness:
  "demo_entry Prepared 0 \<in> set (journal_records demo_prepared) \<and>
   \<not> returns (prepare demo_platform (demo_journal_env ''x2'') demo_intent (Fin 100) True demo_opts demo_journal demo_prepared)"
  using unresolved_execution_blocks_new_exposure[OF record_at_mem[OF demo_prepared_record]]
    record_at_mem[OF demo_prepared_record]
  by (simp add: isUnresolvedExecution_def)

theorem trimming_keeps_what_matters_witness:
  "subseq (trimExecutionHistory [demo_entry Prepared 0]) [demo_entry Prepared 0] \<and>
   filter isUnresolvedExecution (trimExecutionHistory [demo_entry Prepared 0]) = [demo_entry Prepared 0]"
  using trimming_keeps_what_matters[of "[demo_entry Prepared 0]"]
  by (simp add: trimExecutionHistory_def isUnresolvedExecution_def Let_def)

definition demo_trimmed :: execution_risk_state where
  "demo_trimmed = demo_blocks None (Some (demo_jn [])) None"

theorem committed_intent_is_final_witness:
  "findIntent demo_platform demo_journal ''i1'' demo_trimmed = Some ''x1'' \<and>
   \<not> returns (prepare demo_platform (demo_journal_env ''x2'') demo_intent (Fin 100) False demo_opts demo_journal demo_trimmed)"
proof -
  have f: "findIntent demo_platform demo_journal ''i1'' demo_trimmed = Some ''x1''"
    by (simp add: findIntent_def demo_trimmed_def demo_jn_def demo_keys_def intentKey_def demo_platform_def)
  have s: "spent_execution ''x1'' demo_trimmed"
    by (simp add: spent_execution_def record_at_def journal_records_def demo_trimmed_def demo_jn_def)
  show ?thesis using committed_intent_is_final[OF journal_idle f s, of demo_opts] by simp
qed


lemma demo_find: "find_entry (demo_blocks b (Some (demo_jn [demo_entry st n])) a) ''x1'' = Inr (demo_entry st n)"
  using demo_record_at by (simp add: find_entry_Inr)

definition demo_attempted :: execution_record where
  "demo_attempted = (demo_entry Submission_started 2)\<lparr>ex_attempts := 1, ex_nextAttemptAt := Some (Fin 1767225660000)\<rparr>"

lemma demo_attempted_valid:
  "validateExecutionRiskState (demo_blocks (Some [(''x1'', True)]) (Some (demo_jn [demo_attempted])) a) = Inr ()"
  unfolding validate_Inr
proof (intro conjI)
  let ?s = "demo_blocks (Some [(''x1'', True)]) (Some (demo_jn [demo_attempted])) a"
  have r: "journal_records ?s = [demo_attempted]" "journal_maintenance ?s = None"
    by (simp_all add: journal_records_def journal_maintenance_def demo_jn_def)
  have u: "isUnresolvedExecution demo_attempted" by (simp add: demo_attempted_def isUnresolvedExecution_def)
  have f: "ex_id demo_attempted = ''x1''" "ex_scope demo_attempted = demo_scope" by (simp_all add: demo_attempted_def)
  have "record_valid demo_attempted"
    using demo_intent_valid demo_scope_valid
    by (simp add: demo_attempted_def record_valid_def demo_entry_def demo_strings positive_amount_def nonnegative_def
        safe_nat_def time_in_range_def MAX_RECOVERY_ATTEMPTS_def)
  then show "opt_all isExecutionJournalState (executions ?s)" by (simp add: demo_journal_ok)
  show "opt_all (\<lambda>m. opt_all (\<lambda>g. g = journal_generation ?s + 1) (mt_nextGeneration m)) (journal_maintenance ?s)"
    "\<not> (journal_maintenance ?s \<noteq> None \<and> (list_ex isUnresolvedExecution (journal_records ?s) \<or> claims_in_flight ?s))"
    by (simp_all add: r)
  show "retention_ok (journal_records ?s)" using u by (simp add: r retention_ok_def UNRESOLVED_EXECUTION_LIMIT_def)
  show "all_modes_ok (claims_have_records ?s)" by (simp add: all_modes_ok_def demo_no_claims)
  show "all_modes_ok (blocks_have_records ?s)"
    using u by (simp add: all_modes_ok_def blocks_have_records_def r block_ids_def empty_usage_def f)
  show "\<forall>e\<in>set (journal_records ?s). validate_record ?s e () = Inr ()"
    unfolding r using u by (auto intro!: demo_record_ok) (simp_all add: demo_attempted_def demo_entry_def)
qed

lemma demo_claim_attempt:
  "claimAttempt (demo_journal_env u) ''x1'' (Fin 1767225660000) demo_journal demo_started =
     Inr (Some demo_attempted, demo_blocks (Some [(''x1'', True)]) (Some (demo_jn [demo_attempted]))
       (Some [demo_event Prepared, demo_event Submission_started]))"
proof -
  have e: "(demo_entry Submission_started (Suc 0))\<lparr>ex_attempts := Suc 0, ex_nextAttemptAt := Some (Fin 1767225660000),
      ex_revision := Suc (Suc 0), ex_updatedAt := Fin 1767225600000\<rparr> = demo_attempted"
    by (simp add: demo_attempted_def demo_entry_def)
  have f: "ex_attempts (demo_entry st n) = 0" "ex_nextAttemptAt (demo_entry st n) = None" for st n by (simp_all add: demo_entry_def)
  show ?thesis
    using demo_started_valid demo_attempted_valid demo_ledger[of "Some [(''x1'', True)]" "Some [demo_event Prepared, demo_event Submission_started]"]
    by (simp add: claimAttempt_def journal_transact_def claim_attempt_step_def demo_started_def demo_find f e demo_put Let_def
        isUnresolvedExecution_def MAX_RECOVERY_ATTEMPTS_def)
qed

theorem recovery_attempts_are_exclusive_witness:
  "ex_attempts demo_attempted \<le> 9 \<and>
   (\<exists>s1. claimAttempt (demo_journal_env ''u'') ''x1'' (Fin 1767225660000) demo_journal demo_started = Inr (Some demo_attempted, s1) \<and>
      (\<forall>e2 s2. claimAttempt (demo_journal_env ''w'') ''x1'' (Fin 1767225660000) demo_journal s1 = Inr (Some e2, s2) \<longrightarrow>
         ex_attempts e2 \<noteq> 2))"
proof -
  have "js_gt (Fin 1767225660000) (je_clock (demo_journal_env ''w''))" "ex_attempts demo_attempted = 1"
    by (simp_all add: demo_attempted_def)
  with recovery_attempts_are_exclusive[OF demo_claim_attempt[of "''u''"], where p = demo_platform] demo_claim_attempt[of "''u''"]
    journal_idle[of demo_platform]
  show ?thesis by (metis Suc_eq_plus1 one_add_one opened.simps(1) plus_1_eq_Suc)
qed

text \<open>Maintenance of an idle account\<close>

definition demo_maintenance :: execution_maintenance where
  "demo_maintenance = \<lparr>mt_id = ''m1'', mt_scope = demo_scope, mt_action = Paper_reset, mt_createdAt = Fin 1767225600000,
     mt_nextGeneration = Some 1\<rparr>"

definition demo_maintained :: execution_risk_state where
  "demo_maintained = demo_blocks None
     (Some \<lparr>jn_records = [], jn_admissionGeneration = Some 0, jn_maintenance = Some demo_maintenance, jn_intentKeys = None, jn_protections = None\<rparr>)
     (Some [config_event Paper None ''paper-reset-started'' None ''v1'' (Fin 1767225600000)])"

lemma demo_config_event [simp]:
  "audit_event_valid (config_event Paper None ''paper-reset-started'' None ''v1'' (Fin 1767225600000))"
  "audit_event_valid (config_event Paper (Some ''m1'') ''paper-reset-completed'' None ''v1'' (Fin 1767225600000))"
  by (simp_all add: audit_event_valid_def config_event_def audit_event_def demo_strings time_in_range_def)

lemma demo_wall [simp]: "je_wall (demo_journal_env u) = Fin 1767225600000"
  by (simp add: demo_journal_env_def)

lemma demo_idle_valid:
  assumes "jn_records jn = []" "jn_intentKeys jn = None" "jn_protections jn = None" "opt_all safe_nat (jn_admissionGeneration jn)"
    "opt_all maintenance_valid (jn_maintenance jn)" "opt_all (\<lambda>m. mt_nextGeneration m = Some (opt_default 0 (jn_admissionGeneration jn) + 1)) (jn_maintenance jn)"
  shows "validateExecutionRiskState (demo_blocks None (Some jn) a) = Inr ()"
  using assms
  by (simp add: validate_Inr journal_records_def journal_maintenance_def journal_generation_def retention_ok_def all_modes_ok_def
      demo_no_claims blocks_have_records_def block_ids_def empty_usage_def isExecutionJournalState_def opt_all_def split: option.splits)

lemma demo_maintained_valid: "validateExecutionRiskState demo_maintained = Inr ()"
  unfolding demo_maintained_def
  by (rule demo_idle_valid) (simp_all add: demo_maintenance_def maintenance_valid_def demo_scope_valid safe_nat_def demo_strings time_in_range_def)

lemma demo_begin_maintenance:
  "beginMaintenance (demo_journal_env ''m1'') Paper_reset demo_journal demo_start =
     Inr (demo_maintenance, demo_journal\<lparr>ej_owned := [''m1'']\<rparr>, demo_maintained)"
  using demo_start_valid demo_maintained_valid demo_ledger[of None None None]
    demo_append[of "config_event Paper None ''paper-reset-started'' None" "''v1''" "Fin 1767225600000" None]
  by (simp add: beginMaintenance_def journal_transact_def begin_maintenance_step_def assertAdmission_def Let_def demo_start_def
      journal_maintenance_def journal_generation_def journal_records_def demo_no_claims safe_nat_def audit_config_def
      new_journal_state_def)
    (simp add: demo_blocks_def demo_maintained_def demo_maintenance_def)

theorem maintenance_excludes_submissions_witness:
  "journal_maintenance demo_maintained = Some demo_maintenance \<and>
   \<not> returns (prepare demo_platform (demo_journal_env ''x2'') demo_intent (Fin 100) False demo_opts demo_journal demo_maintained)"
  using maintenance_excludes_submissions[OF demo_begin_maintenance] by auto

lemma demo_complete:
  "\<exists>j' s'. completeMaintenance (demo_journal_env ''u'') ''m1'' None (demo_journal\<lparr>ej_owned := [''m1'']\<rparr>) demo_maintained = Inr (j', s')"
proof -
  let ?jn = "\<lparr>jn_records = [], jn_admissionGeneration = Some 1, jn_maintenance = None, jn_intentKeys = None, jn_protections = None\<rparr>"
  have v: "validateExecutionRiskState (demo_blocks None (Some ?jn) a) = Inr ()" for a
    by (rule demo_idle_valid) (simp_all add: safe_nat_def)
  show ?thesis
    using demo_maintained_valid v demo_ledger[of None "Some [config_event Paper None ''paper-reset-started'' None ''v1'' (Fin 1767225600000)]"]
      demo_append[of "config_event Paper (Some ''m1'') ''paper-reset-completed'' None" "''v1''" "Fin 1767225600000"
         "Some [config_event Paper None ''paper-reset-started'' None ''v1'' (Fin 1767225600000)]"]
    by (simp add: completeMaintenance_def journal_transact_def complete_maintenance_step_def active_maintenance_def demo_maintained_def
        journal_maintenance_def truthy_def audit_config_def)
      (simp add: demo_maintenance_def map_journal_def next_generation_def demo_blocks_def)
qed

theorem replaced_runtime_is_fenced_witness:
  "\<exists>s1. journal_generation s1 = 1 \<and>
     \<not> returns (begin_submission demo_platform (demo_journal_env ''u'') ''x1'' None demo_journal s1)"
proof -
  obtain j' s1 where c: "completeMaintenance (demo_journal_env ''u'') ''m1'' None (demo_journal\<lparr>ej_owned := [''m1'']\<rparr>) demo_maintained = Inr (j', s1)"
    using demo_complete by blast
  have g: "journal_generation demo_maintained = 0" by (simp add: journal_generation_def demo_maintained_def)
  show ?thesis using replaced_runtime_is_fenced[OF c journal_idle, of demo_journal] g by (intro exI[of _ s1]) simp
qed


text \<open>A prepared submission that holds a reservation, and its release\<close>

definition demo_claim :: risk_reservation_state where
  "demo_claim = \<lparr>rsv_id = ''r1'', rsv_mode = Paper, rsv_symbol = ''BTC/USDT'', rsv_notional = Fin 100, rsv_executionId = Some ''x1''\<rparr>"

definition demo_holder :: execution_record where
  "demo_holder = (demo_entry Prepared 0)\<lparr>ex_reservationId := Some ''r1''\<rparr>"

definition demo_claimed :: execution_risk_state where
  "demo_claimed = \<lparr>st_paper = empty_usage\<lparr>reservations := Some [(''r1'', demo_claim)], reservedDailyNotional := Some (Fin 100),
       executionBlocks := Some [(''x1'', True)]\<rparr>,
     st_live = empty_usage, st_audit = None, st_accountRisk = None, executions = Some (demo_jn [demo_holder])\<rparr>"

definition demo_released_events :: "trading_audit_event list" where
  "demo_released_events = [audit_event Risk_reconcile Paper (Some ''x1'') (Some ''release'') None ''r1'' (Fin 1767225600000),
     demo_event Reconciled]"

definition demo_released_entry :: execution_record where
  "demo_released_entry = demo_holder\<lparr>ex_status := Reconciled, ex_revision := 1, ex_settlement := Some (Release, Fin 0)\<rparr>"

definition demo_released :: execution_risk_state where
  "demo_released = demo_blocks (Some []) (Some (demo_jn [demo_released_entry])) (Some demo_released_events)"

lemma demo_claim_total: "reservations_total [(''r1'', demo_claim)] = Inr (Fin 100)"
proof -
  have "addition (Fin 0) (Fin 100) ''r1'' = Inr (Fin 100)" by (simp add: addition_Inr)
  then show ?thesis by (simp add: reservations_total_def demo_claim_def)
qed

lemma demo_claimed_normal: "normalizedState demo_claimed = Inr (trading_risk_state.truncate demo_claimed)"
proof -
  have "usage_ok Paper (st_paper demo_claimed)" "usage_ok Live (st_live demo_claimed)"
    using demo_claim_total
    by (auto simp: usage_ok_def demo_claimed_def empty_usage_def reservation_ok_def demo_claim_def is_blank_def is_space_def
        positive_finite_iff reservations_total_def)
  then show ?thesis
    by (simp add: normalizedState_def normalizedUsage_id trading_risk_state.truncate_def) (simp add: demo_claimed_def)
qed

lemma demo_claimed_valid: "validateExecutionRiskState demo_claimed = Inr ()"
  unfolding validate_Inr
proof (intro conjI)
  have r: "journal_records demo_claimed = [demo_holder]" "journal_maintenance demo_claimed = None"
    by (simp_all add: journal_records_def journal_maintenance_def demo_jn_def demo_claimed_def)
  have u: "isUnresolvedExecution demo_holder" by (simp add: demo_holder_def isUnresolvedExecution_def)
  have f: "ex_id demo_holder = ''x1''" "ex_scope demo_holder = demo_scope" by (simp_all add: demo_holder_def)
  have "record_valid demo_holder"
    using demo_intent_valid demo_scope_valid
    by (simp add: demo_holder_def record_valid_def demo_entry_def demo_strings positive_amount_def nonnegative_def
        safe_nat_def time_in_range_def)
  then show "opt_all isExecutionJournalState (executions demo_claimed)" by (simp add: demo_claimed_def demo_journal_ok)
  show "opt_all (\<lambda>m. opt_all (\<lambda>g. g = journal_generation demo_claimed + 1) (mt_nextGeneration m)) (journal_maintenance demo_claimed)"
    "\<not> (journal_maintenance demo_claimed \<noteq> None \<and> (list_ex isUnresolvedExecution (journal_records demo_claimed) \<or> claims_in_flight demo_claimed))"
    by (simp_all add: r)
  show "retention_ok (journal_records demo_claimed)" using u by (simp add: r retention_ok_def UNRESOLVED_EXECUTION_LIMIT_def)
  show "all_modes_ok (claims_have_records demo_claimed)"
    using u by (simp add: all_modes_ok_def claims_have_records_def r f) (simp add: demo_claimed_def empty_usage_def demo_claim_def demo_holder_def)
  show "all_modes_ok (blocks_have_records demo_claimed)"
    using u by (simp add: all_modes_ok_def blocks_have_records_def r block_ids_def f) (simp add: demo_claimed_def empty_usage_def)
  show "\<forall>e\<in>set (journal_records demo_claimed). validate_record demo_claimed e () = Inr ()"
    using u unfolding r validate_record_Inr
    by (simp add: demo_holder_def demo_entry_def demo_claimed_def demo_claim_def demo_scope_def demo_intent_def record_fees_ok_def
        evidence_orders_def blocked_def record_scope_ok_def record_claim_ok_def truthy_def claim_of_def symbol_quote_def
        isUnresolvedExecution_def Let_def empty_usage_def)
qed

lemma demo_release_event [simp]:
  "audit_event_valid (audit_event Risk_reconcile Paper (Some ''x1'') (Some ''release'') None ''r1'' (Fin 1767225600000))"
  by (simp add: audit_event_valid_def audit_event_def demo_strings time_in_range_def)

lemma demo_reconcile:
  "reconcileReservation (ledger_env_of (demo_journal_env u)) ''r1'' Release (Some n) (Some ''x1'') demo_claimed =
     Inr (demo_blocks (Some [(''x1'', True)]) (Some (demo_jn [demo_holder]))
       (Some [audit_event Risk_reconcile Paper (Some ''x1'') (Some ''release'') None ''r1'' (Fin 1767225600000)]))"
proof -
  let ?t = "trading_risk_state.truncate demo_claimed"
  let ?a = "audit_event Risk_reconcile Paper (Some ''x1'') (Some ''release'') None ''r1'' (Fin 1767225600000)"
  let ?d = "\<lparr>st_paper = empty_usage\<lparr>executionBlocks := Some [(''x1'', True)]\<rparr>, st_live = empty_usage, st_audit = Some [?a], st_accountRisk = None\<rparr>"
  have t: "?t = \<lparr>st_paper = empty_usage\<lparr>reservations := Some [(''r1'', demo_claim)], reservedDailyNotional := Some (Fin 100),
       executionBlocks := Some [(''x1'', True)]\<rparr>, st_live = empty_usage, st_audit = None, st_accountRisk = None\<rparr>"
    by (simp add: trading_risk_state.truncate_def demo_claimed_def)
  have env: "ledger_env_of (demo_journal_env u) = demo_ledger_env ''r1''"
    by (simp add: ledger_env_of_def demo_journal_env_def demo_ledger_env_def)
  have r: "refreshDraft (demo_ledger_env ''r1'') Live ?t = Inr ?t"
    using refreshDraft_Live[OF normalizedState_ok(1)[OF demo_claimed_normal], of "demo_ledger_env ''r1''"]
    by (simp add: t roll_over_def empty_usage_def)
  have f: "find_claim ''r1'' ?t = Inr (Paper, demo_claim)" by (simp add: find_claim_def claim_of_def t empty_usage_def)
  have "js_sub (Fin 100) (Fin 100) = Fin 0" by (simp add: js_sub_def)
  then have sub: "subtraction (Fin 100) (Fin 100) k = Inr (Fin 0)" for k
    by (simp add: subtraction_def finiteNonNegative_def finitePositive_def Let_def)
  have "reconcile_draft (demo_ledger_env ''r1'') ''r1'' Release (Some n) (Some ''x1'') ?t = Inr ?d"
    unfolding reconcile_draft_def using r f sub
    by (simp add: demo_claim_def Let_def appendTradingAuditEvent_def slice_last_def AUDIT_HISTORY_LIMIT_def isTradingAuditState_def demo_ledger_env_def)
      (simp add: t empty_usage_def obj_del_def)
  moreover have "normalizedState ?d = Inr ?d"
    using demo_normal[of "Some [(''x1'', True)]" "Some [?a]" None] by (simp add: normalizedState_def demo_blocks_def)
  ultimately show ?thesis
    using demo_claimed_normal
    by (simp add: reconcileReservation_def transact_def env copyStateInto_def Let_def) (simp add: demo_claimed_def demo_blocks_def)
qed


lemma demo_released_fields:
  "ex_id demo_released_entry = ''x1''" "ex_scope demo_released_entry = demo_scope" "ex_status demo_released_entry = Reconciled"
  "\<not> isUnresolvedExecution demo_released_entry" "ex_settlement demo_released_entry = Some (Release, Fin 0)"
  by (simp_all add: demo_released_entry_def demo_holder_def isUnresolvedExecution_def)

lemma demo_released_valid: "validateExecutionRiskState demo_released = Inr ()"
  unfolding validate_Inr
proof (intro conjI)
  note f = demo_released_fields
  have r: "journal_records demo_released = [demo_released_entry]" "journal_maintenance demo_released = None"
    by (simp_all add: journal_records_def journal_maintenance_def demo_jn_def demo_released_def)
  have "record_valid demo_released_entry"
    using demo_intent_valid demo_scope_valid
    by (simp add: demo_released_entry_def demo_holder_def record_valid_def demo_entry_def demo_strings positive_amount_def
        nonnegative_def safe_nat_def time_in_range_def)
  then show "opt_all isExecutionJournalState (executions demo_released)" by (simp add: demo_released_def demo_journal_ok)
  show "opt_all (\<lambda>m. opt_all (\<lambda>g. g = journal_generation demo_released + 1) (mt_nextGeneration m)) (journal_maintenance demo_released)"
    "\<not> (journal_maintenance demo_released \<noteq> None \<and> (list_ex isUnresolvedExecution (journal_records demo_released) \<or> claims_in_flight demo_released))"
    by (simp_all add: r)
  show "retention_ok (journal_records demo_released)"
    using f(4) by (simp add: r retention_ok_def EXECUTION_HISTORY_LIMIT_def REFERENCED_EXECUTION_LIMIT_def)
  show "all_modes_ok (claims_have_records demo_released)" by (simp add: all_modes_ok_def demo_released_def demo_no_claims)
  show "all_modes_ok (blocks_have_records demo_released)"
    by (simp add: all_modes_ok_def blocks_have_records_def block_ids_def demo_released_def empty_usage_def)
  show "\<forall>e\<in>set (journal_records demo_released). validate_record demo_released e () = Inr ()"
    using f(4) unfolding r validate_record_Inr
    by (simp add: demo_released_entry_def demo_holder_def demo_entry_def demo_released_def demo_scope_def demo_intent_def
        record_fees_ok_def evidence_orders_def blocked_def record_scope_ok_def record_claim_ok_def truthy_def symbol_quote_def
        Let_def isUnresolvedExecution_def)
qed

lemma demo_settle:
  "settle demo_platform (demo_journal_env u) ''x1'' Release (Fin 0) Reconciled None None demo_journal demo_claimed = Inr (True, demo_released)"
proof -
  let ?a = "audit_event Risk_reconcile Paper (Some ''x1'') (Some ''release'') None ''r1'' (Fin 1767225600000)"
  let ?e = "settled_entry Release (Fin 0) None demo_holder"
  have find: "find_entry demo_claimed ''x1'' = Inr demo_holder"
    by (simp add: find_entry_Inr record_at_def journal_records_def demo_claimed_def demo_jn_def demo_holder_def)
  have u: "isUnresolvedExecution demo_holder" "ex_status demo_holder = Prepared" "truthy (ex_reservationId demo_holder) = Some ''r1''"
    "ex_id demo_holder = ''x1''" "ex_scope demo_holder = demo_scope"
    by (simp_all add: demo_holder_def isUnresolvedExecution_def truthy_def)
  have blk: "del_block Paper ''x1'' (commit_protections demo_platform Release demo_holder
      (demo_blocks (Some [(''x1'', True)]) jn a)) = demo_blocks (Some []) jn a" for jn a
    by (simp add: del_block_def commit_protections_def demo_blocks_def obj_del_def Let_def)
  have e': "?e\<lparr>ex_status := Reconciled, ex_revision := Suc 0, ex_updatedAt := Fin 1767225600000\<rparr> = demo_released_entry"
    by (simp add: settled_entry_def demo_released_entry_def demo_holder_def demo_entry_def)
  have rv: "ex_revision demo_holder = 0" by (simp add: demo_holder_def)
  have ev: "execution_event demo_released_entry ''v1'' (Fin 1767225600000) = demo_event Reconciled"
    by (simp add: demo_event_def execution_event_def demo_released_entry_def demo_holder_def demo_entry_def)
  have t: "transition (demo_journal_env u) Reconciled ?e (demo_blocks (Some []) (Some (demo_jn [demo_holder])) (Some [?a])) =
      Inr (demo_released_entry, demo_released)"
  proof -
    have put: "put_entry demo_released_entry (demo_blocks (Some []) (Some (demo_jn [demo_holder])) (Some [?a])) =
        demo_blocks (Some []) (Some (demo_jn [demo_released_entry])) (Some [?a])"
      by (simp add: put_entry_def map_journal_def demo_blocks_def demo_jn_def u(4) demo_released_fields)
    have up: "ex_updatedAt demo_released_entry = Fin 1767225600000" by (simp add: demo_released_entry_def demo_holder_def)
    show ?thesis
      using demo_append[of "execution_event demo_released_entry" "''v1''" "Fin 1767225600000" "Some [?a]" "Some []" "Some (demo_jn [demo_released_entry])"]
      by (simp add: transition_def rv e' Let_def audit_entry_def put up ev demo_released_def demo_released_events_def)
  qed
  have trim: "map_journal (jn_records_update (\<lambda>rs. trimExecutionHistory (move_last demo_released_entry rs))) demo_released = demo_released"
    by (simp add: map_journal_def demo_released_def demo_blocks_def demo_jn_def move_last_def trimExecutionHistory_def Let_def
        slice_last_def EXECUTION_HISTORY_LIMIT_def)
  show ?thesis
    using demo_claimed_valid demo_released_valid demo_claimed_normal demo_config_ok
    by (simp add: settle_def journal_transact_def new_risk_ledger_def settle_step_def find u demo_reconcile blk t trim)
qed

theorem settlement_is_final_witness:
  "settle demo_platform (demo_journal_env ''u'') ''x1'' Release (Fin 0) Reconciled None None demo_journal demo_claimed = Inr (True, demo_released) \<and>
   settle demo_platform (demo_journal_env ''w'') ''x1'' Commit (Fin 100) Acknowledged None None demo_journal demo_released = Inr (False, demo_released)"
proof -
  have find: "find_entry demo_released ''x1'' = Inr demo_released_entry"
    by (simp add: find_entry_Inr record_at_def journal_records_def demo_released_def demo_jn_def demo_released_fields)
  have n: "new_risk_ledger demo_config demo_released = Inr ()"
    using demo_ledger[of "Some []" "Some demo_released_events" "Some (demo_jn [demo_released_entry])"]
    by (simp add: demo_released_def demo_released_events_def)
  have "\<exists>r s3. settle demo_platform (demo_journal_env ''w'') ''x1'' Commit (Fin 100) Acknowledged None None demo_journal demo_released = Inr (r, s3)"
    using demo_released_valid n
    by (intro exI[of _ False] exI[of _ demo_released])
      (simp add: settle_def journal_transact_def settle_step_def find demo_released_fields)
  then show ?thesis using settlement_is_final[OF demo_settle journal_idle] demo_settle by fastforce
qed

theorem settlement_and_quota_move_together_witness:
  "claim_of Paper ''r1'' demo_claimed = Some demo_claim \<and> claim_of Paper ''r1'' demo_released = None \<and>
   usedDailyNotional (usage_of Paper demo_released) = Fin 0"
proof -
  have r: "record_at ''x1'' demo_claimed = Some demo_holder"
    by (simp add: record_at_def journal_records_def demo_claimed_def demo_jn_def demo_holder_def)
  have h: "ex_reservationId demo_holder = Some ''r1''" "sc_mode (ex_scope demo_holder) = Paper" by (simp_all add: demo_holder_def)
  have "claim_of Paper ''r1'' demo_claimed = Some demo_claim" "quota_before (demo_journal_env ''u'') Paper demo_claimed = Fin 0"
    by (simp_all add: claim_of_def demo_claimed_def empty_usage_def quota_before_def)
  moreover have "(\<forall>m. usedDailyNotional (usage_of m demo_released) = quota_before (demo_journal_env ''u'') m demo_claimed) \<and>
      claim_of Paper ''r1'' demo_released = None"
    using settlement_and_quota_move_together[OF demo_settle r h(1), of "''u''"] h(2) by (auto simp: Let_def)
  ultimately show ?thesis by metis
qed

end
