(* ===== verification/Execution_Recovery.thy ===== *)
theory Execution_Recovery
  imports Precision Capabilities Journal_Steps
begin

text \<open>
  Recovery of executions whose outcome is unclear (\<^verbatim>\<open>packages/trading-engine/src/execution-recovery.ts\<close>,
  \<^verbatim>\<open>bounded-lookup.ts\<close>): the evidence an exchange answer gives, the bounded recovery loop and the manual
  resolution by an operator. An exchange lookup is an input of the model (its answer, or none when it fails or
  times out), and so is what other processes do to the store while recovery waits. Every journal call is one
  transaction, so a call that throws leaves what earlier calls stored.
\<close>

section \<open>Evidence\<close>

datatype placement_result = Placed_order order | Placed_oco "order list"

fun placed_orders :: "placement_result \<Rightarrow> order list" where
  "placed_orders (Placed_order ord) = [ord]" | "placed_orders (Placed_oco ords) = ords"

datatype recovery_error =
    Incomplete_evidence
  | Conflicting_evidence
  | Evidence_regressed
  | Incomplete_fill_evidence
  | Uncorrelated_order
  | Conflicting_position_side
  | Uncorrelated_oco_leg
  | Conflicting_oco_list
  | Oco_fills_exceed_amount
  | Invalid_total_cost
  | Invalid_recovery_options
  | Invalid_attempt_date
  | Execution_absent_or_resolved
  | Execution_scope_mismatch
  | Execution_changed_during_confirmation
  | Operator_evidence_required
  | Never_started_cannot_commit
  | Recovery_journal_failed journal_error

definition sameExecutionScope :: "execution_scope \<Rightarrow> execution_scope \<Rightarrow> bool" where
  "sameExecutionScope l r \<longleftrightarrow>
     sc_accountId l = sc_accountId r \<and> sc_exchange l = sc_exchange r \<and> sc_mode l = sc_mode r \<and>
     sc_marketType l = sc_marketType r \<and> sc_quoteCurrency l = sc_quoteCurrency r \<and> sc_positionMode l = sc_positionMode r"

fun decimalStepOf :: "(jsnum \<Rightarrow> jsnum) \<Rightarrow> jsnum \<Rightarrow> jsnum option" where
  "decimalStepOf pow10 (Fin v) =
     (if v < 0 then None
      else let decimals = text_decimals v in if 16 < decimals then None else Some (pow10 (Fin (- of_nat decimals))))"
| "decimalStepOf pow10 _ = None"

definition lit_1e8 :: jsnum where "lit_1e8 = fl (1 / 10 ^ 8)"
definition lit_1e6 :: jsnum where "lit_1e6 = fl (1 / 10 ^ 6)"

definition amount_tolerance :: "jsnum \<Rightarrow> jsnum" where
  "amount_tolerance amount = js_max MIN_VALUE (js_mul (js_abs amount) lit_1e8)"

definition requestedAmountAgreesWithReported :: "(jsnum \<Rightarrow> jsnum) \<Rightarrow> jsnum \<Rightarrow> jsnum \<Rightarrow> bool" where
  "requestedAmountAgreesWithReported pow10 requested reported =
     (let tolerance = amount_tolerance requested
      in if js_le (js_abs (js_sub reported requested)) tolerance then True
         else case decimalStepOf pow10 reported of
             None \<Rightarrow> False
           | Some step \<Rightarrow>
               if js_gt step (js_mul (js_abs requested) (Fin (1/2))) then False
               else let rounded = js_mul (js_round (js_div requested step)) step
                    in js_le (js_abs (js_sub reported rounded)) (js_max tolerance (js_mul step lit_1e6)))"

definition native_oco :: "execution_record \<Rightarrow> bool" where
  "native_oco entry \<longleftrightarrow>
     sc_mode (ex_scope entry) = Paper \<or>
     lv_supportsNativeOrderList (resolveLiveVenue (sc_exchange (ex_scope entry))) Spot"

fun is_oco_intent :: "execution_intent \<Rightarrow> bool" where
  "is_oco_intent (Oco_intent _) = True" | "is_oco_intent (Order_intent _ _) = False"

fun closes_position :: "execution_intent \<Rightarrow> bool" where
  "closes_position (Order_intent i _) = (in_closePosition i = Some True)" | "closes_position (Oco_intent _) = False"

definition previous_order :: "execution_record \<Rightarrow> string \<Rightarrow> evidence_order option" where
  "previous_order entry k = find (\<lambda>saved. eo_id saved = k) (evidence_orders entry)"

definition order_conflicts :: "execution_record \<Rightarrow> string list \<Rightarrow> order \<Rightarrow> bool" where
  "order_conflicts entry ids ord \<longleftrightarrow>
     \<not> is_identifier (ord_id ord) \<or> ord_id ord = ''unknown'' \<or> ord_id ord \<in> set ids \<or>
     ord_symbol ord \<noteq> intent_symbol (ex_intent entry) \<or> ord_side ord \<noteq> intent_side (ex_intent entry) \<or>
     \<not> list_all nonnegative [ord_amount ord, ord_filled ord, ord_remaining ord, ord_cost ord] \<or>
     ord_status ord = St_unknown"

definition order_regressed :: "execution_record \<Rightarrow> order \<Rightarrow> bool" where
  "order_regressed entry ord \<longleftrightarrow>
     evidence_orders entry \<noteq> [] \<and>
     (case previous_order entry (ord_id ord) of
        None \<Rightarrow> True
      | Some previous \<Rightarrow> js_lt (ord_filled ord) (eo_filled previous) \<or> js_lt (ord_cost ord) (eo_cost previous) \<or>
          (eo_status previous \<noteq> St_open \<and> ord_status ord = St_open))"

definition fill_incomplete :: "(jsnum \<Rightarrow> jsnum) \<Rightarrow> execution_record \<Rightarrow> order \<Rightarrow> bool" where
  "fill_incomplete pow10 entry ord \<longleftrightarrow>
     (let amount = intent_amount (ex_intent entry); tolerance = amount_tolerance amount;
          closeAll = closes_position (ex_intent entry)
      in (\<not> closeAll \<and> \<not> requestedAmountAgreesWithReported pow10 amount (ord_amount ord)) \<or>
         js_gt (ord_filled ord) (js_add (js_max amount (ord_amount ord)) tolerance) \<or>
         (\<not> closeAll \<and>
          js_gt (js_abs (js_sub (js_add (ord_filled ord) (ord_remaining ord)) (ord_amount ord))) tolerance) \<or>
         (ord_status ord = St_closed \<and> (js_eq (ord_filled ord) (Fin 0) \<or> js_gt (ord_remaining ord) tolerance)) \<or>
         (js_gt (ord_filled ord) (Fin 0) \<and> js_eq (ord_cost ord) (Fin 0)) \<or>
         (js_eq (ord_filled ord) (Fin 0) \<and> js_gt (ord_cost ord) (Fin 0)))"

text \<open>The correlation of one order with the intent; for an OCO leg the client identifiers seen so far grow.\<close>

fun correlate :: "evidence_source \<Rightarrow> bool \<Rightarrow> string option \<Rightarrow> execution_intent \<Rightarrow> order \<Rightarrow> string list \<Rightarrow> recovery_error + string list" where
  "correlate source nativeOco firstListId (Order_intent i _) ord clientIds =
     (if (ord_clientOrderId ord \<noteq> None \<and> ord_clientOrderId ord \<noteq> in_clientOrderId i) \<or>
         (source = From_lookup \<and> ord_clientOrderId ord \<noteq> in_clientOrderId i)
      then Inl Uncorrelated_order
      else if in_positionSide i \<noteq> None \<and> ord_positionSide ord \<noteq> None \<and> in_positionSide i \<noteq> ord_positionSide ord
      then Inl Conflicting_position_side
      else Inr clientIds)"
| "correlate source nativeOco firstListId (Oco_intent i) ord clientIds =
     (let expected = (if nativeOco then [oco_aboveClientOrderId i, oco_belowClientOrderId i] else [oco_listClientOrderId i])
      in case truthy (ord_clientOrderId ord) of
           None \<Rightarrow> Inl Uncorrelated_oco_leg
         | Some c \<Rightarrow>
             if Some c \<notin> set expected \<or> c \<in> set clientIds then Inl Uncorrelated_oco_leg
             else if nativeOco \<and> (truthy (ord_orderListId ord) = None \<or> ord_orderListId ord \<noteq> firstListId \<or>
                                  ord_listClientOrderId ord \<noteq> oco_listClientOrderId i)
             then Inl Conflicting_oco_list
             else Inr (c # clientIds))"

definition check_evidence_order ::
  "(jsnum \<Rightarrow> jsnum) \<Rightarrow> execution_record \<Rightarrow> evidence_source \<Rightarrow> string option \<Rightarrow> order \<Rightarrow>
   string list \<times> string list \<Rightarrow> recovery_error + string list \<times> string list" where
  "check_evidence_order pow10 entry source firstListId ord seen =
     (case seen of (ids, clientIds) \<Rightarrow>
        ebind (assert_js (\<not> order_conflicts entry ids ord) Conflicting_evidence) (\<lambda>_.
        ebind (assert_js (\<not> order_regressed entry ord) Evidence_regressed) (\<lambda>_.
        ebind (assert_js (\<not> fill_incomplete pow10 entry ord) Incomplete_fill_evidence) (\<lambda>_.
        ebind (correlate source (native_oco entry) firstListId (ex_intent entry) ord clientIds) (\<lambda>clientIds'.
        Inr (ord_id ord # ids, clientIds'))))))"

definition sum_numbers :: "('a \<Rightarrow> jsnum) \<Rightarrow> 'a list \<Rightarrow> jsnum" where
  "sum_numbers f xs = fold (\<lambda>x s. js_add s (f x)) xs (Fin 0)"

text \<open>The fee observation kept for an order: the new one from the right source, or the earlier one when the
  new is missing or is partial where the earlier one is complete for the same fill.\<close>

definition kept_fee :: "execution_record \<Rightarrow> order \<Rightarrow> order_fee_observation option" where
  "kept_fee entry ord =
     (let expected = expected_fee_source (ex_scope entry);
          usable = (\<lambda>f. case f of Some o' \<Rightarrow> if isOrderFeeObservation o' \<and> fo_source o' = expected then Some o' else None
                               | None \<Rightarrow> None);
          fee = usable (ord_feeObservation ord)
      in case previous_order entry (ord_id ord) of
           None \<Rightarrow> fee
         | Some previous \<Rightarrow>
             let same_fill = (js_eq (ord_filled ord) (eo_filled previous) \<and> js_eq (ord_cost ord) (eo_cost previous))
             in case usable (eo_feeObservation previous) of
                  None \<Rightarrow> fee
                | Some prior \<Rightarrow>
                    if (case fee of None \<Rightarrow> True
                        | Some f \<Rightarrow> fo_completeness f = Fees_partial \<and> fo_completeness prior = Fees_complete \<and> same_fill)
                    then Some (if same_fill then prior else prior\<lparr>fo_completeness := Fees_partial\<rparr>)
                    else fee)"

definition observed_order :: "execution_record \<Rightarrow> order \<Rightarrow> evidence_order" where
  "observed_order entry ord =
     \<lparr>eo_id = ord_id ord, eo_clientOrderId = ord_clientOrderId ord, eo_symbol = ord_symbol ord, eo_side = ord_side ord,
      eo_amount = ord_amount ord, eo_filled = ord_filled ord, eo_remaining = ord_remaining ord, eo_cost = ord_cost ord,
      eo_feeObservation = kept_fee entry ord, eo_status = ord_status ord, eo_orderListId = ord_orderListId ord,
      eo_listClientOrderId = ord_listClientOrderId ord, eo_type = Some (ord_type ord), eo_price = ord_price ord,
      eo_stopPrice = ord_stopPrice ord, eo_reduceOnly = ord_reduceOnly ord, eo_positionSide = ord_positionSide ord,
      eo_closePosition = ord_closePosition ord, eo_trailingPercent = ord_trailingPercent ord,
      eo_activationPrice = ord_activationPrice ord, eo_callbackRate = ord_callbackRate ord\<rparr>"

record evidence_observation =
  obs_evidence :: execution_evidence
  obs_notional :: jsnum
  obs_outcome :: settle_outcome

definition executionEvidence ::
  "(jsnum \<Rightarrow> jsnum) \<Rightarrow> jsnum \<Rightarrow> execution_record \<Rightarrow> placement_result \<Rightarrow> evidence_source \<Rightarrow>
   recovery_error + evidence_observation" where
  "executionEvidence pow10 now entry result source =
     (let orders = placed_orders result; intent = ex_intent entry
      in ebind (assert_js (length orders = (if is_oco_intent intent \<and> native_oco entry then 2 else 1)) Incomplete_evidence) (\<lambda>_.
         ebind (efold (check_evidence_order pow10 entry source (ord_orderListId (hd orders))) orders ([], [])) (\<lambda>_.
         ebind (assert_js (\<not> (is_oco_intent intent \<and>
                   js_gt (sum_numbers ord_filled orders) (js_mul (intent_amount intent) (js_add (Fin 1) lit_1e8))))
                  Oco_fills_exceed_amount) (\<lambda>_.
         let cost = sum_numbers ord_cost orders
         in ebind (assert_js (is_finite cost) Invalid_total_cost) (\<lambda>_.
            let notional = (if list_all (\<lambda>ord. ord_status ord \<noteq> St_open) orders then cost else js_max (ex_notional entry) cost);
                evidence = \<lparr>evd_source = source, evd_observedAt = now, evd_orders = map (observed_order entry) orders,
                            evd_reference = None, evd_fee = None\<rparr>
            in Inr \<lparr>obs_evidence = evidence\<lparr>evd_fee := observedExecutionFee (ex_scope entry) (Some evidence)\<rparr>,
                    obs_notional = notional,
                    obs_outcome = (if js_eq notional (Fin 0) then Release else Commit)\<rparr>)))))"


section \<open>Recovery of unresolved executions\<close>

record recovery_report =
  rr_examined :: nat
  rr_reconciled :: nat
  rr_unresolved :: nat
  rr_issues :: "(string \<times> execution_issue) list"


text \<open>What one attempt meets: the clocks of its calls, the answer of the bounded lookup (none when it fails or
  times out) and what other processes did to the store while it waited, for the lookup and for the backoff.\<close>

record attempt_world =
  aw_now :: jsnum
  aw_claim_env :: journal_env
  aw_lookup :: "placement_result option"
  aw_meanwhile :: "execution_risk_state \<Rightarrow> execution_risk_state"
  aw_settle_env :: journal_env
  aw_observedAt :: jsnum
  aw_while_waiting :: "execution_risk_state \<Rightarrow> execution_risk_state"

record record_world =
  rw_env :: journal_env
  rw_attempt :: "nat \<Rightarrow> attempt_world"

text \<open>A computation over the store that may throw: the store keeps what was stored before the error.\<close>

type_synonym 'a store_io = "execution_risk_state \<Rightarrow> (recovery_error + 'a) \<times> execution_risk_state"

definition io_return :: "'a \<Rightarrow> 'a store_io" where
  "io_return x s = (Inr x, s)"

definition io_throw :: "recovery_error \<Rightarrow> 'a store_io" where
  "io_throw e s = (Inl e, s)"

definition io_bind :: "'a store_io \<Rightarrow> ('a \<Rightarrow> 'b store_io) \<Rightarrow> 'b store_io" where
  "io_bind m f s = (case m s of (Inl e, s') \<Rightarrow> (Inl e, s') | (Inr x, s') \<Rightarrow> f x s')"

definition io_call :: "(execution_risk_state \<Rightarrow> journal_error + ('a \<times> execution_risk_state)) \<Rightarrow> 'a store_io" where
  "io_call operation s =
     (case operation s of Inl e \<Rightarrow> (Inl (Recovery_journal_failed e), s) | Inr (x, s') \<Rightarrow> (Inr x, s'))"

definition io_list :: "execution_record list store_io" where
  "io_list s = (case list_executions s of Inl e \<Rightarrow> (Inl (Recovery_journal_failed e), s) | Inr rs \<Rightarrow> (Inr rs, s))"

definition io_await :: "(execution_risk_state \<Rightarrow> execution_risk_state) \<Rightarrow> unit store_io" where
  "io_await others s = (Inr (), others s)"


definition lookup_supported :: "execution_record \<Rightarrow> bool" where
  "lookup_supported e =
     (let capabilities = getTradingCapabilities
            \<lparr>cc_exchangeId = sc_exchange (ex_scope e), cc_mode = sc_mode (ex_scope e),
             cc_marketFamily = (if CHR '':'' \<in> set (intent_symbol (ex_intent e)) then Futures_family else Spot_family),
             cc_positionMode = Some (sc_positionMode (ex_scope e)), cc_marketInfo = None, cc_metadataValid = None,
             cc_orderType = Some (case ex_intent e of Order_intent i _ \<Rightarrow> in_type i | Oco_intent _ \<Rightarrow> Oco_type)\<rparr>
      in supportsCorrelatedLookup (if is_oco_intent (ex_intent e) then tc_queryOrderListByClientId capabilities
                                   else tc_queryOrderByClientId capabilities))"

text \<open>\<^verbatim>\<open>new Date(t).toISOString()\<close> as a time value\<close>

fun iso_time :: "jsnum \<Rightarrow> jsnum option" where
  "iso_time (Fin t) = (if time_in_range (Fin t) then Some (Fin (of_int (truncate_rat t))) else None)"
| "iso_time _ = None"

text \<open>One attempt once its claim is granted: the lookup, and what is done with its answer; \<open>retry\<close> is the next
  round of the loop. The result is whether the record was settled here and the issue to report.\<close>

definition attempt_answer ::
  "journal_platform \<Rightarrow> (jsnum \<Rightarrow> jsnum) \<Rightarrow> execution_journal \<Rightarrow> attempt_world \<Rightarrow> bool \<Rightarrow> execution_issue \<Rightarrow>
   (bool \<times> execution_issue) store_io \<Rightarrow> execution_record \<Rightarrow> (bool \<times> execution_issue) store_io" where
  "attempt_answer p pow10 j a waits issue retry c =
     io_bind (io_await (aw_meanwhile a)) (\<lambda>_.
       case aw_lookup a of
         None \<Rightarrow>
           io_bind (io_call (mark_unknown (aw_settle_env a) (ex_id c) Lookup_unavailable (Some (ex_revision c)) j)) (\<lambda>_.
           io_bind (if waits then io_await (aw_while_waiting a) else io_return ()) (\<lambda>_. retry))
       | Some result \<Rightarrow>
           (case executionEvidence pow10 (aw_observedAt a) c result From_lookup of
              Inl _ \<Rightarrow>
                io_bind (io_call (mark_unknown (aw_settle_env a) (ex_id c) Evidence_conflict (Some (ex_revision c)) j)) (\<lambda>_.
                io_return (False, Evidence_conflict))
            | Inr observation \<Rightarrow>
                io_bind (io_call (settle p (aw_settle_env a) (ex_id c) (obs_outcome observation) (obs_notional observation)
                          Reconciled (Some (obs_evidence observation)) (Some (ex_revision c)) j)) (\<lambda>settled.
                io_return (settled, issue))))"

definition attempts_spent :: "string \<Rightarrow> execution_issue \<Rightarrow> (bool \<times> execution_issue) store_io" where
  "attempts_spent k issue =
     io_bind io_list (\<lambda>rs.
       io_return (False, if (case find (\<lambda>e. ex_id e = k) rs of None \<Rightarrow> False
                             | Some e \<Rightarrow> ex_attempts e = MAX_RECOVERY_ATTEMPTS)
                         then Attempts_exhausted else issue))"

function recover_attempts ::
  "journal_platform \<Rightarrow> (jsnum \<Rightarrow> jsnum) \<Rightarrow> execution_journal \<Rightarrow> record_world \<Rightarrow> nat \<Rightarrow> jsnum \<Rightarrow> string \<Rightarrow> nat \<Rightarrow> execution_issue \<Rightarrow>
   (bool \<times> execution_issue) store_io" where
  "recover_attempts p pow10 j w attempts backoff k attempt issue =
     (if attempts \<le> attempt then io_return (False, issue)
      else
        let a = rw_attempt w attempt; waitMs = js_mul backoff (Fin (2 ^ attempt));
            retry = recover_attempts p pow10 j w attempts backoff k (Suc attempt) Lookup_unavailable
        in case iso_time (js_add (aw_now a) waitMs) of
             None \<Rightarrow> io_throw Invalid_attempt_date
           | Some next_at \<Rightarrow>
               io_bind (io_call (claimAttempt (aw_claim_env a) k next_at j)) (\<lambda>claim.
                 case claim of
                   None \<Rightarrow> attempts_spent k issue
                 | Some c \<Rightarrow>
                     attempt_answer p pow10 j a (attempt < attempts - 1 \<and> js_gt waitMs (Fin 0)) issue retry c))"
  by pat_completeness auto
termination
  by (relation "measure (\<lambda>(_, _, _, _, attempts, _, _, attempt, _). attempts - attempt)") auto

definition report_issue :: "string \<Rightarrow> execution_issue \<Rightarrow> recovery_report \<Rightarrow> recovery_report" where
  "report_issue k issue r = r\<lparr>rr_issues := rr_issues r @ [(k, issue)]\<rparr>"

definition count_reconciled :: "bool \<Rightarrow> recovery_report \<Rightarrow> recovery_report" where
  "count_reconciled settled r = (if settled then r\<lparr>rr_reconciled := rr_reconciled r + 1\<rparr> else r)"

definition recover_record ::
  "journal_platform \<Rightarrow> (jsnum \<Rightarrow> jsnum) \<Rightarrow> execution_journal \<Rightarrow> record_world \<Rightarrow> nat \<Rightarrow> jsnum \<Rightarrow> execution_record \<Rightarrow>
   recovery_report \<Rightarrow> recovery_report store_io" where
  "recover_record p pow10 j w attempts backoff original report0 =
     (let report = report0\<lparr>rr_examined := rr_examined report0 + 1\<rparr>; k = ex_id original
      in if \<not> sameExecutionScope (ex_scope original) (ej_scope j) then io_return (report_issue k Account_mismatch report)
         else if ex_status original = Prepared then
           io_bind (io_call (settle p (rw_env w) k Release (Fin 0) Reconciled None (Some (ex_revision original)) j)) (\<lambda>settled.
           io_return (count_reconciled settled report))
         else if \<not> lookup_supported original then
           io_bind (io_call (mark_unknown (rw_env w) k Lookup_unsupported (Some (ex_revision original)) j)) (\<lambda>_.
           io_return (report_issue k Lookup_unsupported report))
         else
           io_bind (recover_attempts p pow10 j w attempts backoff k 0 Lookup_unavailable) (\<lambda>(settled, issue).
           io_bind io_list (\<lambda>rs.
           io_return (let r = count_reconciled settled report
                      in if list_ex (\<lambda>e. ex_id e = k \<and> isUnresolvedExecution e) rs then report_issue k issue r else r))))"






section \<open>Manual resolution\<close>

record manual_resolution =
  mr_executionId :: string
  mr_expectedRevision :: nat
  mr_accountId :: string
  mr_outcome :: settle_outcome
  mr_notional :: jsnum
  mr_evidenceReference :: string
  mr_verifiedTerminal :: bool

definition manuallyResolveExecution ::
  "journal_platform \<Rightarrow> journal_env \<Rightarrow> jsnum \<Rightarrow> execution_journal \<Rightarrow> manual_resolution \<Rightarrow> execution_risk_state \<Rightarrow>
   recovery_error + execution_risk_state" where
  "manuallyResolveExecution p env now j resolution s =
     ebind (emap_error Recovery_journal_failed (list_executions s)) (\<lambda>rs.
     case find (\<lambda>e. ex_id e = mr_executionId resolution) rs of
       None \<Rightarrow> Inl Execution_absent_or_resolved
     | Some entry \<Rightarrow>
         ebind (assert_js (isUnresolvedExecution entry) Execution_absent_or_resolved) (\<lambda>_.
         ebind (assert_js (sameExecutionScope (ex_scope entry) (ej_scope j) \<and>
                           mr_accountId resolution = sc_accountId (ex_scope entry)) Execution_scope_mismatch) (\<lambda>_.
         ebind (assert_js (ex_revision entry = mr_expectedRevision resolution) Execution_changed_during_confirmation) (\<lambda>_.
         ebind (assert_js (is_identifier (mr_evidenceReference resolution) \<and> nonnegative (mr_notional resolution) \<and>
                           mr_verifiedTerminal resolution \<and>
                           \<not> (mr_outcome resolution = Release \<and> \<not> js_eq (mr_notional resolution) (Fin 0)))
                  Operator_evidence_required) (\<lambda>_.
         ebind (assert_js (\<not> (ex_status entry = Prepared \<and> mr_outcome resolution \<noteq> Release)) Never_started_cannot_commit) (\<lambda>_.
         let evidence = \<lparr>evd_source = From_operator, evd_observedAt = now, evd_orders = [],
                         evd_reference = Some (mr_evidenceReference resolution), evd_fee = None\<rparr>
         in ebind (emap_error Recovery_journal_failed
                    (settle p env (ex_id entry) (mr_outcome resolution) (mr_notional resolution) Reconciled (Some evidence)
                      (Some (mr_expectedRevision resolution)) j s)) (\<lambda>(settled, s').
            ebind (assert_js settled Execution_changed_during_confirmation) (\<lambda>_. Inr s'))))))))"


section \<open>What evidence shows\<close>

definition order_admitted :: "execution_record \<Rightarrow> evidence_source \<Rightarrow> order \<Rightarrow> bool" where
  "order_admitted entry source ord \<longleftrightarrow>
     ord_symbol ord = intent_symbol (ex_intent entry) \<and> ord_side ord = intent_side (ex_intent entry) \<and>
     ord_status ord \<noteq> St_unknown \<and> list_all nonnegative [ord_amount ord, ord_filled ord, ord_remaining ord, ord_cost ord] \<and>
     (js_eq (ord_filled ord) (Fin 0) \<longleftrightarrow> js_eq (ord_cost ord) (Fin 0)) \<and>
     (ord_status ord = St_closed \<longrightarrow> \<not> js_eq (ord_filled ord) (Fin 0)) \<and>
     (\<forall>previous. previous_order entry (ord_id ord) = Some previous \<longrightarrow>
        \<not> js_lt (ord_filled ord) (eo_filled previous) \<and> \<not> js_lt (ord_cost ord) (eo_cost previous) \<and>
        (eo_status previous \<noteq> St_open \<longrightarrow> ord_status ord \<noteq> St_open)) \<and>
     (case ex_intent entry of
        Order_intent i _ \<Rightarrow> source = From_lookup \<longrightarrow> ord_clientOrderId ord = in_clientOrderId i
      | Oco_intent i \<Rightarrow> ord_clientOrderId ord \<in> {oco_aboveClientOrderId i, oco_belowClientOrderId i, oco_listClientOrderId i})"

lemma truthy_Some: "truthy x = Some c \<longleftrightarrow> x = Some c \<and> c \<noteq> []"
  by (auto simp: truthy_def split: option.splits if_splits)

lemma nonnegative_zero: "nonnegative x \<Longrightarrow> \<not> js_gt x (Fin 0) \<longleftrightarrow> js_eq x (Fin 0)"
  by (cases x) (auto simp: nonnegative_def)

lemma correlate_Inr:
  "correlate source native first intent ord ids = Inr ids' \<Longrightarrow>
   (case intent of
      Order_intent i _ \<Rightarrow> source = From_lookup \<longrightarrow> ord_clientOrderId ord = in_clientOrderId i
    | Oco_intent i \<Rightarrow> ord_clientOrderId ord \<in> {oco_aboveClientOrderId i, oco_belowClientOrderId i, oco_listClientOrderId i})"
  by (cases intent) (auto simp: Let_def truthy_Some split: if_splits option.splits)

lemma check_order_admitted:
  assumes "check_evidence_order pow10 entry source first ord seen = Inr seen'"
  shows "order_admitted entry source ord \<and>
    (evidence_orders entry \<noteq> [] \<longrightarrow> previous_order entry (ord_id ord) \<noteq> None) \<and> fst seen' = ord_id ord # fst seen \<and>
    ord_id ord \<notin> set (fst seen)"
proof -
  obtain ids cs where seen: "seen = (ids, cs)" by force
  from assms obtain cs' where c: "\<not> order_conflicts entry ids ord" "\<not> order_regressed entry ord"
    "\<not> fill_incomplete pow10 entry ord"
    and r: "correlate source (native_oco entry) first (ex_intent entry) ord cs = Inr cs'"
    and s: "seen' = (ord_id ord # ids, cs')"
    by (auto simp: check_evidence_order_def seen result_simps)
  have n: "nonnegative (ord_filled ord)" "nonnegative (ord_cost ord)" using c(1) by (simp_all add: order_conflicts_def)
  have z: "js_eq (ord_filled ord) (Fin 0) \<longleftrightarrow> js_eq (ord_cost ord) (Fin 0)"
    "ord_status ord = St_closed \<longrightarrow> \<not> js_eq (ord_filled ord) (Fin 0)"
    using c(3) nonnegative_zero[OF n(1)] nonnegative_zero[OF n(2)] by (auto simp: fill_incomplete_def Let_def)
  have p: "\<not> js_lt (ord_filled ord) (eo_filled previous) \<and> \<not> js_lt (ord_cost ord) (eo_cost previous) \<and>
        (eo_status previous \<noteq> St_open \<longrightarrow> ord_status ord \<noteq> St_open)"
    if "previous_order entry (ord_id ord) = Some previous" for previous
    using c(2) that by (auto simp: order_regressed_def previous_order_def)
  have k: "evidence_orders entry \<noteq> [] \<longrightarrow> previous_order entry (ord_id ord) \<noteq> None"
    using c(2) by (auto simp: order_regressed_def split: option.splits)
  have "order_admitted entry source ord"
    using c(1) z p correlate_Inr[OF r] by (simp add: order_admitted_def order_conflicts_def)
  then show ?thesis using k c(1) s seen by (simp add: order_conflicts_def)
qed

lemma check_orders_admitted:
  "efold (check_evidence_order pow10 entry source first) ords seen = Inr seen' \<Longrightarrow>
   list_all (\<lambda>ord. order_admitted entry source ord \<and>
     (evidence_orders entry \<noteq> [] \<longrightarrow> previous_order entry (ord_id ord) \<noteq> None)) ords \<and>
   distinct (map ord_id ords) \<and> ord_id ` set ords \<inter> set (fst seen) = {}"
proof (induction ords arbitrary: seen)
  case (Cons x xs)
  from Cons.prems obtain mid where m: "check_evidence_order pow10 entry source first x seen = Inr mid"
    "efold (check_evidence_order pow10 entry source first) xs mid = Inr seen'" by (auto simp: ebind_Inr)
  show ?case using check_order_admitted[OF m(1)] Cons.IH[OF m(2)] by auto
qed simp

lemma executionEvidence_Inr:
  assumes "executionEvidence pow10 now entry result source = Inr obs"
  obtains "list_all (\<lambda>ord. order_admitted entry source ord \<and>
        (evidence_orders entry \<noteq> [] \<longrightarrow> previous_order entry (ord_id ord) \<noteq> None)) (placed_orders result)"
    "distinct (map ord_id (placed_orders result))" "placed_orders result \<noteq> []"
    "is_finite (sum_numbers ord_cost (placed_orders result))"
    "obs_notional obs = (if list_all (\<lambda>ord. ord_status ord \<noteq> St_open) (placed_orders result)
       then sum_numbers ord_cost (placed_orders result) else js_max (ex_notional entry) (sum_numbers ord_cost (placed_orders result)))"
    "obs_outcome obs = (if js_eq (obs_notional obs) (Fin 0) then Release else Commit)"
    "evd_orders (obs_evidence obs) = map (observed_order entry) (placed_orders result)"
    "evd_source (obs_evidence obs) = source" "evd_observedAt (obs_evidence obs) = now"
proof -
  from assms obtain seen where l: "length (placed_orders result) = (if is_oco_intent (ex_intent entry) \<and> native_oco entry then 2 else 1)"
    and c: "efold (check_evidence_order pow10 entry source (ord_orderListId (hd (placed_orders result)))) (placed_orders result) ([], []) = Inr seen"
    by (auto simp: executionEvidence_def Let_def result_simps)
  have "placed_orders result \<noteq> []" using l by (auto split: if_splits)
  then show thesis
    using assms check_orders_admitted[OF c] by (intro that) (auto simp: executionEvidence_def Let_def result_simps)
qed

definition doubles :: "jsnum list \<Rightarrow> bool" where
  "doubles xs \<longleftrightarrow> (\<forall>x. Fin x \<in> set xs \<longrightarrow> is_double x)"

lemma sum_fold_bound:
  assumes "list_all (\<lambda>x. nonnegative (f x)) xs" "doubles (map f xs)" "0 \<le> a" "is_double a"
    "fold (\<lambda>x s. js_add s (f x)) xs (Fin a) = Fin t"
  shows "a \<le> t \<and> (\<forall>x \<in> set xs. js_le (f x) (Fin t))"
  using assms
proof (induction xs arbitrary: a)
  case (Cons x xs)
  obtain y where y: "f x = Fin y" "0 \<le> y" using Cons.prems(1) by (cases "f x") (auto simp: nonnegative_def)
  have d: "is_double y" using Cons.prems(2) y(1) by (force simp: doubles_def)
  have ds: "doubles (map f xs)" using Cons.prems(2) by (auto simp: doubles_def)
  have nn: "list_all (\<lambda>x. nonnegative (f x)) xs" using Cons.prems(1) by simp
  have step: "fold (\<lambda>x s. js_add s (f x)) xs (fl (a + y)) = Fin t" using Cons.prems(5) y by simp
  have stuck: "fold (\<lambda>x s. js_add s (f x)) zs PInf \<noteq> Fin t" if "list_all (\<lambda>x. nonnegative (f x)) zs" for zs
    using that
  proof (induction zs)
    case (Cons z zs)
    then show ?case by (cases "f z") (auto simp: nonnegative_def)
  qed simp
  obtain b where b: "fl (a + y) = Fin b" "0 \<le> b"
    using fl_nonneg[of "a + y"] Cons.prems(3) y(2) step stuck[OF nn] by auto
  have "a \<le> b" "y \<le> b"
    using double_add_ge[OF Cons.prems(4) y(2) b(1)] double_add_ge[OF d Cons.prems(3)] b(1) by (simp_all add: add.commute)
  moreover have "b \<le> t \<and> (\<forall>x \<in> set xs. js_le (f x) (Fin t))"
    using Cons.IH[OF nn ds b(2) fl_double[OF b(1)]] step b(1) by simp
  ultimately show ?case using y by auto
qed simp

lemma sum_numbers_bound:
  assumes "list_all (\<lambda>x. nonnegative (f x)) xs" "doubles (map f xs)" "sum_numbers f xs = Fin t" "x \<in> set xs"
  shows "js_le (f x) (Fin t)"
  using sum_fold_bound[of f xs 0 t] assms by (simp add: sum_numbers_def is_double_def)

lemma evidence_settles:
  assumes "executionEvidence pow10 now entry result source = Inr obs" "record_valid entry"
    and "doubles (map ord_cost (placed_orders result))"
  shows "(obs_outcome obs = Release \<longrightarrow>
       (\<forall>ord \<in> set (placed_orders result). ord_status ord \<noteq> St_open \<and> ord_filled ord = Fin 0 \<and> ord_cost ord = Fin 0)) \<and>
    (obs_outcome obs = Commit \<longrightarrow>
       (\<forall>ord \<in> set (placed_orders result). js_le (ord_cost ord) (obs_notional obs) \<and>
          (ord_status ord = St_open \<longrightarrow> js_le (ex_notional entry) (obs_notional obs)))) \<and>
    (\<forall>ord \<in> set (placed_orders result). order_admitted entry source ord)"
proof (rule executionEvidence_Inr[OF assms(1)], goal_cases)
  case 1
  let ?ords = "placed_orders result"
  have adm: "\<And>ord. ord \<in> set ?ords \<Longrightarrow> order_admitted entry source ord" using 1(1) by (auto simp: list_all_iff)
  have nn: "list_all (\<lambda>ord. nonnegative (ord_cost ord)) ?ords" using adm by (auto simp: list_all_iff order_admitted_def)
  obtain t where t: "sum_numbers ord_cost ?ords = Fin t" using 1(4) by (auto simp: is_finite_iff)
  have le: "js_le (ord_cost ord) (Fin t)" if "ord \<in> set ?ords" for ord by (rule sum_numbers_bound[OF nn assms(3) t that])
  obtain n where n: "ex_notional entry = Fin n" "0 < n"
    using assms(2) by (cases "ex_notional entry") (auto simp: record_valid_def positive_amount_def nonnegative_def)
  have commit: "js_le (ord_cost ord) (obs_notional obs) \<and> (ord_status ord = St_open \<longrightarrow> js_le (ex_notional entry) (obs_notional obs))"
    if "ord \<in> set ?ords" for ord
    using le[OF that] that js_le_trans[of "ord_cost ord" "Fin t" "Fin n"]
    by (auto simp: 1(5) t n js_max_def list_all_iff)
  have release: "ord_status ord \<noteq> St_open \<and> ord_filled ord = Fin 0 \<and> ord_cost ord = Fin 0"
    if r: "obs_outcome obs = Release" and o: "ord \<in> set ?ords" for ord
  proof -
    have z: "obs_notional obs = Fin 0" using r 1(6) by (cases "obs_notional obs") (auto split: if_splits)
    have f: "list_all (\<lambda>ord. ord_status ord \<noteq> St_open) ?ords" and t0: "t = 0"
      using z n by (auto simp: 1(5) t js_max_def split: if_splits)
    have c: "ord_cost ord = Fin 0"
      using le[OF o] adm[OF o] t0 by (cases "ord_cost ord") (auto simp: order_admitted_def nonnegative_def)
    moreover have "ord_filled ord = Fin 0"
      using adm[OF o] c by (cases "ord_filled ord") (auto simp: order_admitted_def)
    ultimately show ?thesis using f o by (auto simp: list_all_iff)
  qed
  show ?case using adm commit release by blast
qed

text \<open>C22. Evidence settles an execution conservatively: it is released only when every order of the answer is final,
  without fill and without cost; it is committed for at least the cost of each of its orders, and, while one is still open, for at least the
  amount reserved for it. Every order of the evidence is one of the intent's: its symbol, its side and, for a
  lookup, its client identifier, and none has lost fills since the earlier evidence.\<close>

theorem release_needs_no_fill:
  assumes "executionEvidence pow10 now entry result source = Inr obs" "record_valid entry"
    and "doubles (map ord_cost (placed_orders result))"
  shows "(obs_outcome obs = Release \<longrightarrow>
       (\<forall>ord \<in> set (placed_orders result). ord_status ord \<noteq> St_open \<and> ord_filled ord = Fin 0 \<and> ord_cost ord = Fin 0)) \<and>
    (obs_outcome obs = Commit \<longrightarrow>
       (\<forall>ord \<in> set (placed_orders result). js_le (ord_cost ord) (obs_notional obs) \<and>
          (ord_status ord = St_open \<longrightarrow> js_le (ex_notional entry) (obs_notional obs)))) \<and>
    (\<forall>ord \<in> set (placed_orders result). order_admitted entry source ord)"
  by (rule evidence_settles[OF assms])


section \<open>Recovery as a run of the journal\<close>

definition opens_only :: "string set \<Rightarrow> (string, 'c) claim_event list \<Rightarrow> bool" where
  "opens_only K es \<longleftrightarrow> (\<forall>k. k \<notin> K \<longrightarrow> opened k es = 0)"

lemma opened_append [simp]: "opened k (xs @ ys) = opened k xs + opened k ys"
  by (induction k xs rule: opened.induct) auto

lemma opens_only_simps [simp]: "opens_only K []" "opens_only K [Quiet]" "opens_only K [Closed k]"
  "opens_only K (xs @ ys) \<longleftrightarrow> opens_only K xs \<and> opens_only K ys"
  by (auto simp: opens_only_def)

lemma journal_run_append: "journal_run p s es s1 \<Longrightarrow> journal_run p s1 fs s2 \<Longrightarrow> journal_run p s (es @ fs) s2"
  by (induction rule: journal_run.induct) (auto intro: journal_run.intros)

text \<open>What the store goes through while a computation runs.\<close>

definition runs_to :: "journal_platform \<Rightarrow> string set \<Rightarrow> execution_risk_state \<Rightarrow> execution_risk_state \<Rightarrow> bool" where
  "runs_to p K s s' \<longleftrightarrow> (\<exists>es. journal_run p s es s' \<and> opens_only K es)"

lemma runs_to_refl [simp]: "runs_to p K s s"
  unfolding runs_to_def by (rule exI[of _ "[]"]) (simp add: journal_idle)

lemma runs_to_trans: "runs_to p K a b \<Longrightarrow> runs_to p K b c \<Longrightarrow> runs_to p K a c"
  unfolding runs_to_def by (metis journal_run_append opens_only_simps(4))

lemma runs_to_step: "journal_step p ev s s' \<Longrightarrow> opens_only K [ev] \<Longrightarrow> runs_to p K s s'"
  unfolding runs_to_def by (rule exI[of _ "[ev]"]) (auto intro: journal_run.intros)

lemma runs_to_settle: "settle p env k outcome n st ev rq j s = Inr (r, s') \<Longrightarrow> runs_to p K s s'"
  using runs_to_step[OF step_settle, of p env k outcome n st ev rq j s s' K]
    runs_to_step[OF step_settle_stale, of p env k outcome n st ev rq j s s' K] by (cases r) auto

lemma runs_to_unknown: "mark_unknown env k issue rq j s = Inr (u, s') \<Longrightarrow> runs_to p K s s'"
  by (rule runs_to_step[OF step_unknown]) auto

lemma runs_to_attempt: "claimAttempt env k t j s = Inr (r, s') \<Longrightarrow> runs_to p K s s'"
  by (rule runs_to_step[OF step_attempt]) auto

text \<open>Other processes work on the store by journal operations of their own; the executions they prepare
  have identifiers in \<open>K\<close>.\<close>

definition runs_to_all :: "journal_platform \<Rightarrow> string set \<Rightarrow> (execution_risk_state \<Rightarrow> execution_risk_state) \<Rightarrow> bool" where
  "runs_to_all p K f \<longleftrightarrow> (\<forall>s. runs_to p K s (f s))"

definition peers_run :: "journal_platform \<Rightarrow> string set \<Rightarrow> record_world \<Rightarrow> bool" where
  "peers_run p K w \<longleftrightarrow>
     (\<forall>n. runs_to_all p K (aw_meanwhile (rw_attempt w n)) \<and> runs_to_all p K (aw_while_waiting (rw_attempt w n)))"

declare recover_attempts.simps [simp del]

lemma io_bind_Inr: "io_bind m f s = (Inr y, s') \<longleftrightarrow> (\<exists>x s1. m s = (Inr x, s1) \<and> f x s1 = (Inr y, s'))"
  by (auto simp: io_bind_def split: prod.splits sum.splits)

lemma io_call_Inr: "io_call operation s = (Inr x, s') \<longleftrightarrow> operation s = Inr (x, s')"
  by (auto simp: io_call_def split: sum.splits)

lemma io_list_Inr: "io_list s = (Inr rs, s') \<longleftrightarrow> s' = s \<and> validateExecutionRiskState s = Inr () \<and> rs = journal_records s"
  by (auto simp: io_list_def list_executions_def ebind_def split: sum.splits)

lemma io_return_Inr: "io_return x s = (Inr y, s') \<longleftrightarrow> y = x \<and> s' = s" "io_throw e s \<noteq> (Inr y, s')"
  "io_await f s = (Inr u, s') \<longleftrightarrow> s' = f s"
  by (auto simp: io_return_def io_throw_def io_await_def)

lemmas io_simps = io_bind_Inr io_call_Inr io_list_Inr io_return_Inr



section \<open>What recovery settles\<close>

lemma settle_entry:
  assumes "settle p env k outcome notional status evidence revision j s = Inr (True, s')"
  obtains e where "record_at k s = Some e" "isUnresolvedExecution e" "revision = None \<or> revision = Some (ex_revision e)"
    "status = Reconciled \<Longrightarrow> evidence = None \<Longrightarrow> ex_status e = Prepared"
    "record_at k s' = Some ((settled_entry outcome notional evidence e)
       \<lparr>ex_status := status, ex_revision := ex_revision e + 1, ex_updatedAt := je_clock env\<rparr>)"
proof -
  note c = settle_cases[OF assms]
  obtain e e' where e: "record_at k s = Some e" "isUnresolvedExecution e" "revision = None \<or> revision = Some (ex_revision e)"
    and e': "e' = (settled_entry outcome notional evidence e)\<lparr>ex_status := status, ex_revision := ex_revision e + 1, ex_updatedAt := je_clock env\<rparr>"
    and rs: "journal_records s' = trimExecutionHistory (move_last e' (journal_records s))"
    using c(2)[OF TrueI] by (rule settle_step_records)
  have p: "status = Reconciled \<Longrightarrow> evidence = None \<Longrightarrow> ex_status e = Prepared"
    using c(2)[OF TrueI] e(1) by (auto elim!: settle_step_Inr)
  have "distinct (map ex_id (move_last e' (journal_records s)))"
    using valid_records(1)[OF c(3)] by (auto simp: move_last_def distinct_map_filter)
  then have "e' \<in> set (journal_records s')" unfolding rs using trim_last by (simp add: move_last_def)
  then have "record_at k s' = Some e'" using record_at_id[OF e(1)] by (simp add: record_at_iff[OF c(4)] e')
  then show thesis using e p e' that by blast
qed

lemma settle_others:
  assumes "settle p env k outcome notional status evidence revision j s = Inr (True, s')" "k' \<noteq> k" "record_at k' s' = Some x"
  shows "record_at k' s = Some x"
proof -
  note c = settle_cases[OF assms(1)]
  obtain e e' where e: "record_at k s = Some e"
    and e': "e' = (settled_entry outcome notional evidence e)\<lparr>ex_status := status, ex_revision := ex_revision e + 1, ex_updatedAt := je_clock env\<rparr>"
    and rs: "journal_records s' = trimExecutionHistory (move_last e' (journal_records s))"
    using c(2)[OF TrueI] by (rule settle_step_records)
  then show ?thesis
    using assms(2,3) trim_subset[of "move_last e' (journal_records s)"] record_at_id[OF e]
    by (auto simp: record_at_iff[OF c(3)] record_at_iff[OF c(4)] rs move_last_def)
qed

lemma runs_to_evolves:
  assumes "runs_to p K s s'" "k \<notin> K" "record_at k s = Some e" "record_at k s' = Some e'"
  shows "evolves e e'"
  using assms run_evolves[of p s _ s' k e] by (auto simp: runs_to_def opens_only_def)

lemma runs_to_absent: "runs_to p K s s' \<Longrightarrow> k \<notin> K \<Longrightarrow> record_at k s = None \<Longrightarrow> record_at k s' = None"
  using run_no_record[of p s _ s' k] by (auto simp: runs_to_def opens_only_def)

text \<open>A settlement on an answer of the exchange: the answer to one of the lookups, accepted as evidence for the
  record as recovery had claimed it.\<close>

definition settled_on_lookup ::
  "(jsnum \<Rightarrow> jsnum) \<Rightarrow> record_world \<Rightarrow> execution_record \<Rightarrow> execution_record \<Rightarrow> bool" where
  "settled_on_lookup pow10 w e e' \<longleftrightarrow>
     (\<exists>n c result obs. aw_lookup (rw_attempt w n) = Some result \<and> record_valid c \<and> same_identity e c \<and>
        executionEvidence pow10 (aw_observedAt (rw_attempt w n)) c result From_lookup = Inr obs \<and>
        ex_status e \<noteq> Prepared \<and> ex_evidence e' = Some (obs_evidence obs) \<and>
        ex_settlement e' = Some (obs_outcome obs, if obs_outcome obs = Commit then obs_notional obs else Fin 0))"

lemma same_identity_trans: "same_identity a b \<Longrightarrow> same_identity b c \<Longrightarrow> same_identity a c"
  by (simp add: same_identity_def)

lemma settled_on_lookup_earlier:
  "settled_on_lookup pow10 w e1 e' \<Longrightarrow> evolves e e1 \<Longrightarrow> ex_status e \<noteq> Prepared \<Longrightarrow> settled_on_lookup pow10 w e e'"
  using same_identity_trans unfolding settled_on_lookup_def evolves_def by blast

lemma put_entry_at: "record_at k s = Some e \<Longrightarrow> ex_id c = k \<Longrightarrow> record_at k (put_entry c s) = Some c"
  by (simp add: record_at_put)

section \<open>Recovery as a sequence of allowed changes\<close>

text \<open>What recovery itself may do to a record: nothing; note an attempt, an issue or that the outcome is unknown, as long as it stays unsettled; release it if it
  was never started; or settle it on an accepted answer of the exchange. It never starts a submission. Records it does not touch stay, except settled ones
  that the bounded history drops.\<close>

definition recovery_allowed :: "(jsnum \<Rightarrow> jsnum) \<Rightarrow> record_world \<Rightarrow> execution_record \<Rightarrow> execution_record \<Rightarrow> bool" where
  "recovery_allowed pow10 w e e' \<longleftrightarrow>
     e' = e \<or>
     same_identity e e' \<and> isUnresolvedExecution e \<and>
     (ex_settlement e' = ex_settlement e \<and> (ex_status e' = ex_status e \<or> ex_status e' = Unknown_outcome) \<or>
      ex_status e = Prepared \<and> ex_status e' = Reconciled \<and> ex_settlement e' = Some (Release, Fin 0) \<or>
      ex_status e' = Reconciled \<and> settled_on_lookup pow10 w e e')"

definition recovery_step ::
  "(jsnum \<Rightarrow> jsnum) \<Rightarrow> (string \<Rightarrow> record_world) \<Rightarrow> execution_risk_state \<Rightarrow> execution_risk_state \<Rightarrow> bool" where
  "recovery_step pow10 w s s' \<longleftrightarrow>
     (\<forall>k. case record_at k s of
        None \<Rightarrow> record_at k s' = None
      | Some e \<Rightarrow> (case record_at k s' of None \<Rightarrow> \<not> isUnresolvedExecution e | Some e' \<Rightarrow> recovery_allowed pow10 (w k) e e'))"

inductive recovery_run ::
  "journal_platform \<Rightarrow> (jsnum \<Rightarrow> jsnum) \<Rightarrow> (string \<Rightarrow> record_world) \<Rightarrow> string set \<Rightarrow> execution_risk_state \<Rightarrow> execution_risk_state \<Rightarrow> bool"
  for p pow10 w K where
  recovery_idle: "recovery_run p pow10 w K s s"
| recovery_own: "recovery_step pow10 w s s' \<Longrightarrow> recovery_run p pow10 w K s' s'' \<Longrightarrow> recovery_run p pow10 w K s s''"
| recovery_peers: "runs_to p K s s' \<Longrightarrow> recovery_run p pow10 w K s' s'' \<Longrightarrow> recovery_run p pow10 w K s s''"


lemma recovery_single: "recovery_step pow10 w s s' \<Longrightarrow> recovery_run p pow10 w K s s'" "runs_to p K s s' \<Longrightarrow> recovery_run p pow10 w K s s'"
  by (auto intro: recovery_run.intros)

lemma recovery_step_refl [simp]: "recovery_step pow10 w s s"
  by (simp add: recovery_step_def recovery_allowed_def split: option.splits)

lemma recovery_step_at:
  assumes "record_at k s = Some e" "\<And>k'. record_at k' s' = (if k' = k then Some e' else record_at k' s)"
    "recovery_allowed pow10 (w k) e e'"
  shows "recovery_step pow10 w s s'"
  using assms by (auto simp: recovery_step_def recovery_allowed_def split: option.splits)

lemma noted_step:
  assumes "transition env Unknown_outcome (e\<lparr>ex_issue := issue\<rparr>) s = Inr (e', s')" "record_at k s = Some e" "isUnresolvedExecution e"
  shows "recovery_step pow10 w s s'"
proof (rule recovery_step_at[OF assms(2)])
  show "record_at k' s' = (if k' = k then Some e' else record_at k' s)" for k'
    by (rule transition_record_at[OF assms(1,2)]) (simp add: record_at_id[OF assms(2)])
  show "recovery_allowed pow10 (w k) e e'"
    using assms(3) by (simp add: recovery_allowed_def transition_Inr(1)[OF assms(1)] same_identity_def)
qed

lemma unknown_recovery_step:
  assumes "mark_unknown env k issue revision j s = Inr (u, s')" shows "recovery_step pow10 w s s'"
proof (cases "s' = s")
  case False
  then obtain e e' where "record_at k s = Some e" "isUnresolvedExecution e"
    "transition env Unknown_outcome (e\<lparr>ex_issue := Some issue\<rparr>) s = Inr (e', s')"
    using assms by (auto simp: mark_unknown_def unknown_step_def result_simps split: if_splits)
  then show ?thesis using noted_step by blast
qed simp

lemma attempt_recovery_step:
  assumes "claimAttempt env k t j s = Inr (r, s')" shows "recovery_step pow10 w s s'"
proof (cases r)
  case None
  then show ?thesis
    using assms noted_step[of env _ _ s]
    by (auto simp: claimAttempt_def claim_attempt_step_def iso_now_def Let_def result_simps split: if_splits)
next
  case (Some c)
  obtain e where e: "record_at k s = Some e" "isUnresolvedExecution e"
    "c = e\<lparr>ex_attempts := ex_attempts e + 1, ex_nextAttemptAt := Some t, ex_revision := ex_revision e + 1, ex_updatedAt := je_clock env\<rparr>"
    "s' = put_entry c s"
    by (rule claim_attempt_Inr[OF assms[unfolded Some]])
  show ?thesis
    by (rule recovery_step_at[OF e(1), of s' c])
      (use e(2) in \<open>simp_all add: e(3,4) record_at_put record_at_id[OF e(1)] recovery_allowed_def same_identity_def e(1)\<close>)
qed

text \<open>A settlement changes one record; settled records may leave the bounded history.\<close>

lemma settle_recovery_step:
  assumes "settle p env k outcome n Reconciled evidence (Some rv) j s = Inr (r, s')"
    "\<And>e. record_at k s = Some e \<Longrightarrow> isUnresolvedExecution e \<Longrightarrow> (evidence = None \<Longrightarrow> ex_status e = Prepared) \<Longrightarrow>
       recovery_allowed pow10 (w k) e ((settled_entry outcome n evidence e)
         \<lparr>ex_status := Reconciled, ex_revision := ex_revision e + 1, ex_updatedAt := je_clock env\<rparr>)"
  shows "recovery_step pow10 w s s'"
proof (cases r)
  case True
  then have settled: "settle p env k outcome n Reconciled evidence (Some rv) j s = Inr (True, s')" using assms(1) by simp
  obtain e where e: "record_at k s = Some e" "isUnresolvedExecution e" "evidence = None \<Longrightarrow> ex_status e = Prepared"
    "record_at k s' = Some ((settled_entry outcome n evidence e)
       \<lparr>ex_status := Reconciled, ex_revision := ex_revision e + 1, ex_updatedAt := je_clock env\<rparr>)"
    by (rule settle_entry[OF settled]) auto
  have change: "journal_change s s'" "\<And>k'. record_at k' s = None \<Longrightarrow> record_at k' s' = None"
    by (rule settle_change[OF settled]; blast)+
  show ?thesis
    unfolding recovery_step_def
  proof
    fix k'
    show "case record_at k' s of None \<Rightarrow> record_at k' s' = None
      | Some e \<Rightarrow> (case record_at k' s' of None \<Rightarrow> \<not> isUnresolvedExecution e | Some e' \<Rightarrow> recovery_allowed pow10 (w k') e e')"
      using change(2)[of k'] journal_changeD[OF change(1), of k'] settle_others[OF settled, of k'] e assms(2)[OF e(1,2,3)]
      by (cases "k' = k") (auto simp: recovery_allowed_def split: option.splits)
  qed
next
  case False
  then have "s' = s" using assms(1) settle_cases(1) by blast
  then show ?thesis by simp
qed

lemma prepared_recovery_step:
  "settle p env k Release (Fin 0) Reconciled None (Some rv) j s = Inr (r, s') \<Longrightarrow> recovery_step pow10 w s s'"
  by (erule settle_recovery_step) (simp add: recovery_allowed_def settled_entry_def same_identity_def)

text \<open>A computation follows the relation when every state it can end in is reached by it, also with an error.\<close>

definition follows ::
  "journal_platform \<Rightarrow> (jsnum \<Rightarrow> jsnum) \<Rightarrow> (string \<Rightarrow> record_world) \<Rightarrow> string set \<Rightarrow> 'a store_io \<Rightarrow> bool" where
  "follows p pow10 w K m \<longleftrightarrow> (\<forall>s r s'. m s = (r, s') \<longrightarrow> recovery_run p pow10 w K s s')"

lemma follows_return [simp]: "follows p pow10 w K (io_return x)" "follows p pow10 w K (io_throw e)" "follows p pow10 w K io_list"
  by (auto simp: follows_def io_return_def io_throw_def io_list_def recovery_idle split: sum.splits)


lemma follows_call: "(\<And>s x s'. operation s = Inr (x, s') \<Longrightarrow> recovery_step pow10 w s s') \<Longrightarrow> follows p pow10 w K (io_call operation)"
  by (auto simp: follows_def io_call_def recovery_idle intro: recovery_single split: sum.splits)

lemma follows_calls [simp]:
  "follows p pow10 w K (io_call (mark_unknown env k issue rq j))"
  "follows p pow10 w K (io_call (claimAttempt env k t j))"
  "follows p pow10 w K (io_call (settle p env k Release (Fin 0) Reconciled None (Some rv) j))"
  by (rule follows_call, erule unknown_recovery_step attempt_recovery_step prepared_recovery_step)+









text \<open>The second half of an attempt that ends in a settlement.\<close>

definition attempt_outcome ::
  "journal_platform \<Rightarrow> (jsnum \<Rightarrow> jsnum) \<Rightarrow> execution_journal \<Rightarrow> record_world \<Rightarrow> nat \<Rightarrow> jsnum \<Rightarrow> string \<Rightarrow> nat \<Rightarrow>
   execution_record \<Rightarrow> execution_risk_state \<Rightarrow> execution_issue \<Rightarrow> execution_risk_state \<Rightarrow> bool" where
  "attempt_outcome p pow10 j w attempts backoff k attempt c s1 issue' s' =
     (let a = rw_attempt w attempt
      in case aw_lookup a of
        None \<Rightarrow> (\<exists>s2 s3. mark_unknown (aw_settle_env a) (ex_id c) Lookup_unavailable (Some (ex_revision c)) j (aw_meanwhile a s1) = Inr ((), s2) \<and>
          (s3 = s2 \<or> s3 = aw_while_waiting a s2) \<and>
          recover_attempts p pow10 j w attempts backoff k (Suc attempt) Lookup_unavailable s3 = (Inr (True, issue'), s'))
      | Some result \<Rightarrow> (\<exists>obs. executionEvidence pow10 (aw_observedAt a) c result From_lookup = Inr obs \<and>
          settle p (aw_settle_env a) (ex_id c) (obs_outcome obs) (obs_notional obs) Reconciled (Some (obs_evidence obs))
            (Some (ex_revision c)) j (aw_meanwhile a s1) = Inr (True, s')))"

lemma answer_True:
  assumes "attempt_answer p pow10 j (rw_attempt w attempt) waits issue
      (recover_attempts p pow10 j w attempts backoff k (Suc attempt) Lookup_unavailable) c s1 = (Inr (True, issue'), s')"
  shows "attempt_outcome p pow10 j w attempts backoff k attempt c s1 issue' s'"
  using assms unfolding attempt_answer_def attempt_outcome_def Let_def
  by (cases "aw_lookup (rw_attempt w attempt)") (auto simp: io_simps split: sum.splits if_splits)

lemma attempt_True:
  assumes "recover_attempts p pow10 j w attempts backoff k attempt issue s = (Inr (True, issue'), s')"
  obtains next_at c s1 where "claimAttempt (aw_claim_env (rw_attempt w attempt)) k next_at j s = Inr (Some c, s1)"
    "attempt_outcome p pow10 j w attempts backoff k attempt c s1 issue' s'"
  using assms unfolding recover_attempts.simps[of p pow10 j w attempts backoff k attempt issue]
  by (auto simp: Let_def io_bind_Inr io_call_Inr io_return_Inr attempts_spent_def
      dest!: answer_True split: option.splits if_splits)

lemma attempts_settle:
  assumes "peers_run p K w" "k \<notin> K"
  shows "recover_attempts p pow10 j w attempts backoff k attempt issue s = (Inr (True, issue'), s') \<Longrightarrow>
    \<exists>e e'. record_at k s = Some e \<and> record_at k s' = Some e' \<and> ex_status e' = Reconciled \<and> evolves e e' \<and>
      settled_on_lookup pow10 w e e'"
proof (induction "attempts - attempt" arbitrary: attempt issue s)
  case 0
  then show ?case by (simp add: recover_attempts.simps io_simps)
next
  case (Suc n)
  let ?a = "rw_attempt w attempt"
  obtain next_at c s1 where
    claim: "claimAttempt (aw_claim_env ?a) k next_at j s = Inr (Some c, s1)"
    and rest: "attempt_outcome p pow10 j w attempts backoff k attempt c s1 issue' s'"
    using Suc.prems by (rule attempt_True)
  obtain e where e: "record_at k s = Some e" "ex_status e \<noteq> Prepared"
    "c = e\<lparr>ex_attempts := ex_attempts e + 1, ex_nextAttemptAt := Some next_at, ex_revision := ex_revision e + 1,
            ex_updatedAt := je_clock (aw_claim_env ?a)\<rparr>" "s1 = put_entry c s"
    using claim by (rule claim_attempt_Inr)
  have id: "ex_id c = k" using record_at_id[OF e(1)] by (simp add: e(3))
  have c1: "record_at k s1 = Some c" unfolding e(4) by (rule put_entry_at[OF e(1) id])
  have sc: "same_identity e c" by (simp add: e(3) same_identity_def)
  have v: "record_valid c"
    using claim record_at_mem[OF c1] valid_records(2)[of s1]
    by (auto simp: claimAttempt_def journal_transact_Inr list_all_iff)
  have r1: "runs_to p K s s1" by (rule runs_to_attempt[OF claim])
  have r2: "runs_to p K s1 (aw_meanwhile ?a s1)" using assms(1) by (simp add: peers_run_def runs_to_all_def)
  show ?case
  proof (cases "aw_lookup ?a")
    case (Some result)
    then obtain obs where o: "executionEvidence pow10 (aw_observedAt ?a) c result From_lookup = Inr obs"
      and st: "settle p (aw_settle_env ?a) k (obs_outcome obs) (obs_notional obs) Reconciled (Some (obs_evidence obs))
            (Some (ex_revision c)) j (aw_meanwhile ?a s1) = Inr (True, s')" using rest id by (auto simp: attempt_outcome_def Let_def)
    obtain e2 where e': "record_at k s' = Some ((settled_entry (obs_outcome obs) (obs_notional obs) (Some (obs_evidence obs)) e2)
       \<lparr>ex_status := Reconciled, ex_revision := ex_revision e2 + 1, ex_updatedAt := je_clock (aw_settle_env ?a)\<rparr>)"
      (is "_ = Some ?e'") by (rule settle_entry[OF st])
    have "evolves e ?e'"
      by (rule runs_to_evolves[OF runs_to_trans[OF r1 runs_to_trans[OF r2 runs_to_settle[OF st]]] assms(2) e(1) e'])
    moreover have "settled_on_lookup pow10 w e ?e'"
      unfolding settled_on_lookup_def
      by (intro exI[of _ attempt] exI[of _ c] exI[of _ result] exI[of _ obs]) (simp add: Some v sc o e(2) settled_entry_def)
    ultimately show ?thesis using e(1) e' by auto
  next
    case None
    then obtain s2 s3 where u: "mark_unknown (aw_settle_env ?a) (ex_id c) Lookup_unavailable (Some (ex_revision c)) j (aw_meanwhile ?a s1) = Inr ((), s2)"
      and w3: "s3 = s2 \<or> s3 = aw_while_waiting ?a s2"
      and again: "recover_attempts p pow10 j w attempts backoff k (Suc attempt) Lookup_unavailable s3 = (Inr (True, issue'), s')"
      using rest by (auto simp: attempt_outcome_def Let_def)
    have "runs_to p K s2 s3" using w3 assms(1) by (auto simp: peers_run_def runs_to_all_def)
    then have r3: "runs_to p K s s3" by (meson r1 r2 runs_to_trans runs_to_unknown[OF u])
    have "n = attempts - Suc attempt" using Suc.hyps(2) by simp
    then obtain e3 e' where i: "record_at k s3 = Some e3" "record_at k s' = Some e'" "ex_status e' = Reconciled"
      "evolves e3 e'" "settled_on_lookup pow10 w e3 e'" using Suc.hyps(1)[OF _ again] by blast
    have ev: "evolves e e3" by (rule runs_to_evolves[OF r3 assms(2) e(1) i(1)])
    show ?thesis
      using e(1) i(2,3) evolves_trans[OF ev i(4)] settled_on_lookup_earlier[OF i(5) ev e(2)] by blast
  qed
qed

definition world_doubles :: "record_world \<Rightarrow> bool" where
  "world_doubles w \<longleftrightarrow> (\<forall>n. case aw_lookup (rw_attempt w n) of None \<Rightarrow> True
     | Some result \<Rightarrow> doubles (map ord_cost (placed_orders result)))"

lemma observed_order_fields [simp]:
  "eo_status (observed_order entry ord) = ord_status ord" "eo_filled (observed_order entry ord) = ord_filled ord"
  "eo_cost (observed_order entry ord) = ord_cost ord"
  by (simp_all add: observed_order_def)

definition unfilled_evidence :: "execution_evidence option \<Rightarrow> bool" where
  "unfilled_evidence evidence \<longleftrightarrow>
     (case evidence of None \<Rightarrow> False
      | Some v \<Rightarrow> evd_source v = From_lookup \<and> evd_orders v \<noteq> [] \<and>
          list_all (\<lambda>ord. eo_status ord \<noteq> St_open \<and> eo_filled ord = Fin 0 \<and> eo_cost ord = Fin 0) (evd_orders v))"

lemma lookup_settlement:
  assumes "settled_on_lookup pow10 w e e'" "world_doubles w"
  shows "ex_status e \<noteq> Prepared \<and> (\<exists>outcome n. ex_settlement e' = Some (outcome, n) \<and>
     (outcome = Release \<longrightarrow> unfilled_evidence (ex_evidence e')) \<and>
     (outcome = Commit \<longrightarrow> (\<exists>v. ex_evidence e' = Some v \<and> evd_source v = From_lookup \<and>
        (\<forall>ord \<in> set (evd_orders v). js_le (eo_cost ord) n \<and> (eo_status ord = St_open \<longrightarrow> js_le (ex_notional e) n)))))"
proof -
  from assms(1) obtain n c result obs where l: "aw_lookup (rw_attempt w n) = Some result" "record_valid c" "same_identity e c"
    and o: "executionEvidence pow10 (aw_observedAt (rw_attempt w n)) c result From_lookup = Inr obs"
    and e': "ex_status e \<noteq> Prepared" "ex_evidence e' = Some (obs_evidence obs)"
       "ex_settlement e' = Some (obs_outcome obs, if obs_outcome obs = Commit then obs_notional obs else Fin 0)"
    by (auto simp: settled_on_lookup_def)
  have d: "doubles (map ord_cost (placed_orders result))" using assms(2) l(1) by (auto simp: world_doubles_def split: option.splits)
  have ev: "evd_orders (obs_evidence obs) = map (observed_order c) (placed_orders result)" "placed_orders result \<noteq> []"
    "evd_source (obs_evidence obs) = From_lookup"
    by (rule executionEvidence_Inr[OF o]; simp)+
  have n: "ex_notional c = ex_notional e" using l(3) by (simp add: same_identity_def)
  note s = evidence_settles[OF o l(2) d]
  show ?thesis
    using s e' ev n by (cases "obs_outcome obs") (auto simp: unfilled_evidence_def list_all_iff)
qed

text \<open>When recovery settles an execution, it does so for a reason: either the execution was still prepared, so
  nothing had been sent, and it is released; or it had been started and the exchange answered a lookup of it.
  Then a release rests on an answer in which every order is final and unfilled, and a commit charges at least
  the cost of every order in the answer, and at least the reserved amount while one is still open. This holds
  whatever other processes do to the store while recovery waits.\<close>

theorem recovery_settles_on_evidence:
  assumes "recover_record p pow10 j w attempts backoff original report s = (Inr report', s')"
    and "rr_reconciled report' \<noteq> rr_reconciled report" "peers_run p K w" "ex_id original \<notin> K" "world_doubles w"
  shows "\<exists>e e'. record_at (ex_id original) s = Some e \<and> record_at (ex_id original) s' = Some e' \<and>
    ex_status e' = Reconciled \<and> same_identity e e' \<and> sameExecutionScope (ex_scope original) (ej_scope j) \<and>
    (\<exists>outcome n. ex_settlement e' = Some (outcome, n) \<and>
       (outcome = Release \<longrightarrow> ex_status e = Prepared \<or> unfilled_evidence (ex_evidence e')) \<and>
       (outcome = Commit \<longrightarrow> ex_status e \<noteq> Prepared \<and>
          (\<exists>v. ex_evidence e' = Some v \<and> evd_source v = From_lookup \<and>
             (\<forall>ord \<in> set (evd_orders v). js_le (eo_cost ord) n \<and> (eo_status ord = St_open \<longrightarrow> js_le (ex_notional e) n)))))"
proof -
  let ?k = "ex_id original"
  have sc: "sameExecutionScope (ex_scope original) (ej_scope j)"
    using assms(1,2) by (auto simp: recover_record_def Let_def io_simps report_issue_def split: if_splits)
  from assms(1,2) sc consider
      "settle p (rw_env w) ?k Release (Fin 0) Reconciled None (Some (ex_revision original)) j s = Inr (True, s')"
    | issue where "recover_attempts p pow10 j w attempts backoff ?k 0 Lookup_unavailable s = (Inr (True, issue), s')"
    by (auto simp: recover_record_def Let_def io_simps report_issue_def count_reconciled_def split: if_splits)
  then show ?thesis
  proof cases
    case 1
    obtain e where "record_at ?k s = Some e" "ex_status e = Prepared"
      "record_at ?k s' = Some ((settled_entry Release (Fin 0) None e)
       \<lparr>ex_status := Reconciled, ex_revision := ex_revision e + 1, ex_updatedAt := je_clock (rw_env w)\<rparr>)"
      by (rule settle_entry[OF 1]) auto
    then show ?thesis using sc by (auto simp: same_identity_def settled_entry_def)
  next
    case (2 issue)
    obtain e e' where e: "record_at ?k s = Some e" "record_at ?k s' = Some e'" "ex_status e' = Reconciled" "evolves e e'"
      and l: "settled_on_lookup pow10 w e e'"
      using attempts_settle[OF assms(3,4) 2] by blast
    show ?thesis using e lookup_settlement[OF l assms(5)] sc by (auto simp: evolves_def)
  qed
qed

text \<open>An operator's resolution settles exactly one unresolved execution of the operator's own account, at the revision
  that was confirmed, with an evidence reference and an attestation that the submission is terminal: a
  never-started execution only ever as a release, a release always with amount zero, a commit with the
  stated amount. Every other execution keeps its record.\<close>

theorem manual_resolution_is_attested:
  assumes "manuallyResolveExecution p env now j m s = Inr s'"
  shows "\<exists>e e'. record_at (mr_executionId m) s = Some e \<and> isUnresolvedExecution e \<and>
    ex_revision e = mr_expectedRevision m \<and> sc_accountId (ex_scope e) = mr_accountId m \<and>
    sameExecutionScope (ex_scope e) (ej_scope j) \<and> mr_verifiedTerminal m \<and>
    record_at (mr_executionId m) s' = Some e' \<and> ex_status e' = Reconciled \<and>
    (ex_status e = Prepared \<longrightarrow> mr_outcome m = Release) \<and>
    ex_settlement e' = Some (mr_outcome m, if mr_outcome m = Commit then mr_notional m else Fin 0) \<and>
    map_option evd_source (ex_evidence e') = Some From_operator \<and>
    (\<exists>ref. Option.bind (ex_evidence e') evd_reference = Some ref \<and> is_identifier ref) \<and>
    (\<forall>k x. k \<noteq> mr_executionId m \<longrightarrow> record_at k s' = Some x \<longrightarrow> record_at k s = Some x)"
proof -
  let ?k = "mr_executionId m"
  from assms obtain e evidence where
    f: "find (\<lambda>e. ex_id e = ?k) (journal_records s) = Some e" and
    g: "isUnresolvedExecution e" "sameExecutionScope (ex_scope e) (ej_scope j)" "mr_accountId m = sc_accountId (ex_scope e)"
      "ex_revision e = mr_expectedRevision m" "is_identifier (mr_evidenceReference m)" "mr_verifiedTerminal m"
      "ex_status e = Prepared \<longrightarrow> mr_outcome m = Release"
    and ev: "evidence = \<lparr>evd_source = From_operator, evd_observedAt = now, evd_orders = [],
                         evd_reference = Some (mr_evidenceReference m), evd_fee = None\<rparr>"
    and st: "settle p env (ex_id e) (mr_outcome m) (mr_notional m) Reconciled (Some evidence) (Some (mr_expectedRevision m)) j s
        = Inr (True, s')"
    by (auto simp: manuallyResolveExecution_def list_executions_def Let_def result_simps split: option.splits)
  have e: "record_at ?k s = Some e" using f by (simp add: record_at_def)
  have id: "ex_id e = ?k" by (rule record_at_id[OF e])
  have e': "record_at ?k s' = Some ((settled_entry (mr_outcome m) (mr_notional m) (Some evidence) e)
       \<lparr>ex_status := Reconciled, ex_revision := ex_revision e + 1, ex_updatedAt := je_clock env\<rparr>)"
    (is "_ = Some ?e'") using st unfolding id by (rule settle_entry) (use e in auto)
  have others: "\<forall>k x. k \<noteq> ?k \<longrightarrow> record_at k s' = Some x \<longrightarrow> record_at k s = Some x"
    using settle_others[OF st[unfolded id]] by blast
  show ?thesis
    by (intro exI[of _ e] exI[of _ ?e']) (simp add: e g e' ev others settled_entry_def)
qed


section \<open>Witnesses\<close>

lemma settle_at_revision:
  "record_at k s = Some e \<Longrightarrow>
   settle p env k outcome n st ev (Some (ex_revision e)) j s = settle p env k outcome n st ev None j s"
  by (simp add: settle_def journal_transact_def settle_step_def ebind_def find_entry_def record_at_def)

definition demo_world :: record_world where
  "demo_world = \<lparr>rw_env = demo_journal_env ''u'', rw_attempt = (\<lambda>n. \<lparr>aw_now = Fin 0, aw_claim_env = demo_journal_env ''u'',
     aw_lookup = None, aw_meanwhile = (\<lambda>s. s), aw_settle_env = demo_journal_env ''u'', aw_observedAt = Fin 0,
     aw_while_waiting = (\<lambda>s. s)\<rparr>)\<rparr>"


definition demo_report :: recovery_report where
  "demo_report = \<lparr>rr_examined = 0, rr_reconciled = 0, rr_unresolved = 0, rr_issues = []\<rparr>"

lemma demo_peers: "peers_run p K demo_world" "world_doubles demo_world"
  by (simp_all add: peers_run_def runs_to_all_def demo_world_def world_doubles_def)

lemma demo_holder_fields:
  "ex_id demo_holder = ''x1''" "ex_scope demo_holder = demo_scope" "ex_status demo_holder = Prepared" "ex_revision demo_holder = 0"
  by (simp_all add: demo_holder_def)

lemma demo_holder_at: "record_at ''x1'' demo_claimed = Some demo_holder"
  by (simp add: record_at_def journal_records_def demo_claimed_def demo_jn_def demo_holder_def)

lemma demo_recover_record:
  "recover_record demo_platform (\<lambda>x. x) demo_journal demo_world attempts backoff demo_holder demo_report demo_claimed =
     (Inr (demo_report\<lparr>rr_examined := 1, rr_reconciled := 1\<rparr>), demo_released)"
proof -
  have "io_call (settle demo_platform (rw_env demo_world) ''x1'' Release (Fin 0) Reconciled None (Some 0) demo_journal) demo_claimed =
      (Inr True, demo_released)"
    using settle_at_revision[OF demo_holder_at] demo_settle
    by (simp add: io_call_def demo_world_def demo_holder_fields)
  then show ?thesis
    by (simp add: recover_record_def Let_def demo_holder_fields sameExecutionScope_def io_bind_def io_return_def
        count_reconciled_def demo_report_def)
qed

theorem recovery_settles_on_evidence_witness:
  "recover_record demo_platform (\<lambda>x. x) demo_journal demo_world 3 (Fin 100) demo_holder demo_report demo_claimed =
     (Inr (demo_report\<lparr>rr_examined := 1, rr_reconciled := 1\<rparr>), demo_released) \<and>
   (\<exists>e'. record_at ''x1'' demo_released = Some e' \<and> ex_status e' = Reconciled)"
  using recovery_settles_on_evidence[OF demo_recover_record[of 3 "Fin 100"], of "{}"] demo_recover_record[of 3 "Fin 100"] demo_peers
  by (auto simp: demo_report_def demo_holder_fields)




definition demo_canceled :: order where
  "demo_canceled =
     \<lparr>ord_id = ''o1'', ord_symbol = ''BTC/USDT'', ord_side = Sell, ord_type = Stop_market, ord_price = None, ord_stopPrice = Some (Fin 100),
      ord_trailingPercent = None, ord_activationPrice = None, ord_callbackRate = None, ord_ocoGroup = None,
      ord_clientOrderId = Some ''tiaaaaaaaaaaaaaaaaaaaaaaaaaaaaaa'', ord_orderListId = None, ord_listClientOrderId = None, ord_listOrderStatus = None,
      ord_positionSide = None, ord_reduceOnly = None, ord_closePosition = None, ord_amount = Fin 1, ord_filled = Fin 0,
      ord_remaining = Fin 1, ord_average = None, ord_cost = Fin 0, ord_feeObservation = None, ord_status = St_canceled,
      ord_timestamp = Fin 0\<rparr>"

lemma fl_unit: "0 \<le> x \<Longrightarrow> x \<le> 1 \<Longrightarrow> \<exists>y. fl x = Fin y \<and> 0 \<le> y"
  using fl_nonneg[of x] fl_mono[of x 1] by (auto simp: js_le_def)

lemma tolerance_nonneg: "\<exists>t. amount_tolerance (Fin x) = PInf \<or> amount_tolerance (Fin x) = Fin t \<and> 0 \<le> t"
proof -
  obtain y where y: "lit_1e8 = Fin y" "0 \<le> y" using fl_unit[of "1 / 10 ^ 8"] by (auto simp: lit_1e8_def)
  show ?thesis
    using fl_nonneg[of "\<bar>x\<bar> * y"] y(2)
    by (auto simp: amount_tolerance_def js_max_def MIN_VALUE_def y(1) simp del: power_int_numeral_neg_numeral)
qed

lemma demo_evidence:
  "\<exists>obs. executionEvidence (\<lambda>x. x) (Fin 0) (demo_entry Submission_started 1) (Placed_order demo_canceled) From_lookup = Inr obs \<and>
     obs_outcome obs = Release"
proof -
  define e where "e = demo_entry Submission_started 1"
  obtain t where t: "amount_tolerance (Fin 1) = PInf \<or> amount_tolerance (Fin 1) = Fin t \<and> 0 \<le> t"
    using tolerance_nonneg[of 1] by auto
  have i: "ex_intent e = demo_intent" "evidence_orders e = []" by (simp_all add: e_def demo_entry_def evidence_orders_def)
  have "\<not> order_conflicts e [] demo_canceled"
    by (simp add: order_conflicts_def demo_canceled_def i demo_intent_def demo_strings nonnegative_def)
  moreover have "\<not> order_regressed e demo_canceled" by (simp add: order_regressed_def i)
  moreover have "requestedAmountAgreesWithReported (\<lambda>x. x) (Fin 1) (Fin 1)"
    using t by (auto simp: requestedAmountAgreesWithReported_def Let_def js_sub_def js_le_def)
  then have "\<not> fill_incomplete (\<lambda>x. x) e demo_canceled"
    using t fl_nonneg[of "1 + t"]
    by (auto simp: fill_incomplete_def Let_def demo_canceled_def i demo_intent_def js_max_def js_sub_def)
  moreover have "correlate From_lookup n f demo_intent demo_canceled [] = Inr []" for n f
    by (simp add: demo_intent_def demo_canceled_def)
  ultimately have "check_evidence_order (\<lambda>x. x) e From_lookup f demo_canceled ([], []) = Inr ([ord_id demo_canceled], [])" for f
    by (simp add: check_evidence_order_def i)
  moreover have "\<not> is_oco_intent demo_intent" by (simp add: demo_intent_def)
  moreover have "sum_numbers ord_cost [demo_canceled] = Fin 0" "ord_status demo_canceled = St_canceled"
    by (simp_all add: sum_numbers_def demo_canceled_def)
  ultimately show ?thesis
    unfolding e_def[symmetric] by (simp add: executionEvidence_def Let_def i)
qed

theorem release_needs_no_fill_witness:
  "\<exists>obs. executionEvidence (\<lambda>x. x) (Fin 0) (demo_entry Submission_started 1) (Placed_order demo_canceled) From_lookup = Inr obs \<and>
     obs_outcome obs = Release \<and> ord_filled demo_canceled = Fin 0 \<and> order_admitted (demo_entry Submission_started 1) From_lookup demo_canceled"
proof -
  obtain obs where o: "executionEvidence (\<lambda>x. x) (Fin 0) (demo_entry Submission_started 1) (Placed_order demo_canceled) From_lookup = Inr obs"
    "obs_outcome obs = Release" using demo_evidence by blast
  have "doubles (map ord_cost (placed_orders (Placed_order demo_canceled)))"
    by (simp add: doubles_def demo_canceled_def is_double_def)
  from release_needs_no_fill[OF o(1) demo_entry_valid this] o show ?thesis by auto
qed

definition demo_resolution :: manual_resolution where
  "demo_resolution = \<lparr>mr_executionId = ''x1'', mr_expectedRevision = 0, mr_accountId = ''acct'', mr_outcome = Release,
     mr_notional = Fin 0, mr_evidenceReference = ''ticket-1'', mr_verifiedTerminal = True\<rparr>"

definition demo_operator :: execution_evidence where
  "demo_operator = \<lparr>evd_source = From_operator, evd_observedAt = Fin 0, evd_orders = [], evd_reference = Some ''ticket-1'', evd_fee = None\<rparr>"

definition demo_resolved_entry :: execution_record where
  "demo_resolved_entry = (demo_entry Reconciled 1)\<lparr>ex_settlement := Some (Release, Fin 0), ex_evidence := Some demo_operator\<rparr>"

definition demo_resolved :: execution_risk_state where
  "demo_resolved = demo_blocks (Some []) (Some (demo_jn [demo_resolved_entry]))
     (Some [demo_event Prepared, execution_event demo_resolved_entry ''v1'' (Fin 1767225600000)])"

lemma demo_resolved_fields:
  "ex_id demo_resolved_entry = ''x1''" "ex_updatedAt demo_resolved_entry = Fin 1767225600000" "\<not> isUnresolvedExecution demo_resolved_entry"
  by (simp_all add: demo_resolved_entry_def isUnresolvedExecution_def)

lemma demo_resolved_event: "audit_event_valid (execution_event demo_resolved_entry ''v1'' (Fin 1767225600000))"
  by (simp add: audit_event_valid_def execution_event_def demo_resolved_entry_def demo_operator_def demo_entry_def demo_scope_def
      demo_strings time_in_range_def)

lemma demo_resolved_valid: "validateExecutionRiskState demo_resolved = Inr ()"
  unfolding validate_Inr
proof (intro conjI)
  note f = demo_resolved_fields
  have r: "journal_records demo_resolved = [demo_resolved_entry]" "journal_maintenance demo_resolved = None"
    by (simp_all add: journal_records_def journal_maintenance_def demo_jn_def demo_resolved_def)
  have "record_valid demo_resolved_entry"
    using demo_intent_valid demo_scope_valid
    by (simp add: demo_resolved_entry_def record_valid_def demo_entry_def demo_strings positive_amount_def
        nonnegative_def safe_nat_def time_in_range_def demo_operator_def evidenceValid_def)
  then show "opt_all isExecutionJournalState (executions demo_resolved)" by (simp add: demo_resolved_def demo_journal_ok)
  show "opt_all (\<lambda>m. opt_all (\<lambda>g. g = journal_generation demo_resolved + 1) (mt_nextGeneration m)) (journal_maintenance demo_resolved)"
    "\<not> (journal_maintenance demo_resolved \<noteq> None \<and> (list_ex isUnresolvedExecution (journal_records demo_resolved) \<or> claims_in_flight demo_resolved))"
    by (simp_all add: r)
  show "retention_ok (journal_records demo_resolved)"
    using f(3) by (simp add: r retention_ok_def EXECUTION_HISTORY_LIMIT_def REFERENCED_EXECUTION_LIMIT_def)
  show "all_modes_ok (claims_have_records demo_resolved)" by (simp add: all_modes_ok_def demo_resolved_def demo_no_claims)
  show "all_modes_ok (blocks_have_records demo_resolved)"
    by (simp add: all_modes_ok_def blocks_have_records_def block_ids_def demo_resolved_def empty_usage_def)
  show "\<forall>e\<in>set (journal_records demo_resolved). validate_record demo_resolved e () = Inr ()"
    using f(3) unfolding r validate_record_Inr
    by (simp add: demo_resolved_entry_def demo_entry_def demo_resolved_def demo_scope_def demo_intent_def demo_operator_def
        record_fees_ok_def evidence_orders_def blocked_def record_scope_ok_def record_claim_ok_def truthy_def symbol_quote_def
        Let_def isUnresolvedExecution_def)
qed

lemma demo_settle_operator:
  "settle demo_platform (demo_journal_env u) ''x1'' Release (Fin 0) Reconciled (Some demo_operator) (Some 0) demo_journal demo_prepared =
     Inr (True, demo_resolved)"
proof -
  let ?h = "demo_entry Prepared 0"
  let ?e = "settled_entry Release (Fin 0) (Some demo_operator) ?h"
  let ?q = "\<lambda>e. demo_blocks (Some []) (Some (demo_jn [e])) (Some [demo_event Prepared])"
  have blk: "del_block Paper ''x1'' (commit_protections demo_platform Release ?h demo_prepared) = ?q ?h"
    by (simp add: del_block_def commit_protections_def demo_prepared_def demo_blocks_def Let_def obj_del_def empty_usage_def)
  have e': "?e\<lparr>ex_status := Reconciled, ex_revision := Suc 0, ex_updatedAt := Fin 1767225600000\<rparr> = demo_resolved_entry"
    by (simp add: settled_entry_def demo_resolved_entry_def demo_entry_def)
  have put: "put_entry demo_resolved_entry (?q ?h) = ?q demo_resolved_entry"
    by (simp add: put_entry_def map_journal_def demo_blocks_def demo_jn_def demo_resolved_fields)
  have t: "transition (demo_journal_env u) Reconciled ?e (?q ?h) = Inr (demo_resolved_entry, demo_resolved)"
    using demo_append[of "execution_event demo_resolved_entry" "''v1''" "Fin 1767225600000" "Some [demo_event Prepared]" "Some []"
        "Some (demo_jn [demo_resolved_entry])"] demo_resolved_event
    by (simp add: transition_def e' Let_def audit_entry_def put demo_resolved_fields demo_resolved_def)
  have trim: "map_journal (jn_records_update (\<lambda>rs. trimExecutionHistory (move_last demo_resolved_entry rs))) demo_resolved = demo_resolved"
    by (simp add: map_journal_def demo_resolved_def demo_blocks_def demo_jn_def move_last_def trimExecutionHistory_def Let_def
        slice_last_def EXECUTION_HISTORY_LIMIT_def)
  have "new_risk_ledger (ej_config demo_journal) demo_prepared = Inr ()"
    unfolding demo_prepared_def by (rule demo_ledger) simp_all
  moreover have "find_entry demo_prepared ''x1'' = Inr ?h" "isUnresolvedExecution ?h"
    by (simp_all add: demo_prepared_def demo_find isUnresolvedExecution_def)
  ultimately show ?thesis
    using demo_prepared_valid demo_resolved_valid
    by (simp add: settle_def journal_transact_def settle_step_def truthy_def blk t trim)
qed

theorem manual_resolution_is_attested_witness:
  "manuallyResolveExecution demo_platform (demo_journal_env ''u'') (Fin 0) demo_journal demo_resolution demo_prepared = Inr demo_resolved \<and>
   (\<exists>e'. record_at ''x1'' demo_resolved = Some e' \<and> ex_settlement e' = Some (Release, Fin 0))"
proof -
  have f: "find (\<lambda>e. ex_id e = ''x1'') (journal_records demo_prepared) = Some (demo_entry Prepared 0)"
    using demo_prepared_record by (simp add: record_at_def)
  have "manuallyResolveExecution demo_platform (demo_journal_env ''u'') (Fin 0) demo_journal demo_resolution demo_prepared = Inr demo_resolved"
    using demo_prepared_valid f demo_settle_operator[of "''u''"]
    by (simp add: manuallyResolveExecution_def list_executions_def demo_resolution_def isUnresolvedExecution_def sameExecutionScope_def
        demo_strings nonnegative_def Let_def demo_operator_def) (simp add: demo_scope_def)
  from manual_resolution_is_attested[OF this] this show ?thesis by (auto simp: demo_resolution_def)
qed

end
