(* ===== verification/Trading_Engine.thy ===== *)
theory Trading_Engine
  imports Order_Preflight Execution_Recovery
begin

text \<open>
  The trading engine (\<^verbatim>\<open>packages/trading-engine/src/engine.ts\<close>): it remembers the plans it prepared, revalidates
  a plan, reserves and records the submission in the journal, asks for confirmation, calls the exchange and
  settles on its answer. A submission runs from one await to the next; each stretch in between is one
  function here, and the submissions of an engine, the other processes that share its store and the exchange
  interleave at the awaits. A plan object is a number (its identity). What a callback or the exchange answers and
  the clocks are inputs; texts of messages are error constructors.
\<close>

section \<open>Data model\<close>

datatype unresolved_reason = Outcome_not_persisted | Status_unknown | Rejection_not_persisted | Response_not_settled

datatype engine_error =
    Operation_cancelled
  | Journal_not_configured
  | Plan_not_prepared
  | Replacement_unsupported
  | Plan_already_submitted
  | Plan_already_in_flight
  | Ledger_refused risk_error
  | Plan_expired
  | Preflight_refused preflight_error
  | Exchange_read_failed
  | Reduction_exceeds_holdings
  | Reduction_does_not_fit
  | Reduce_only_required
  | Account_refused
  | Engine_replaced
  | Prepared_evidence_changed
  | Journal_refused journal_error
  | Confirmations_exhausted
  | Confirmation_failed
  | Cancelled_by_user
  | Account_notional_increased
  | Confirmation_required
  | Reference_rejected
  | Reference_not_synchronous
  | Stale_release string
  | Both_failed engine_error engine_error
  | Submission_failed submission_error
  | Still_unresolved string unresolved_reason
  | Mode_cannot_change
  | Quote_cannot_change
  | Market_type_cannot_change
  | Position_mode_cannot_change
  | Removes_protection "string list"
  | Open_identity_required

definition PREPARED_PLAN_TTL_MS :: jsnum where "PREPARED_PLAN_TTL_MS = Fin 60000"

definition PREPARED_PLAN_MAX_CONFIRMATIONS :: nat where "PREPARED_PLAN_MAX_CONFIRMATIONS = 4"

record plan_confirmation =
  cf_evidence :: confirmation_evidence
  cf_warnings :: "string list"
  cf_requote :: bool

record submission_policy =
  sp_intentId :: "string option"
  sp_reference :: "execution_reference option"
  sp_validatesReference :: bool
  sp_timeoutMs :: "jsnum option"
  sp_protectionStopPrice :: "jsnum option"
  sp_replacementIds :: "string list option"
  sp_confirms :: bool
  sp_allowUnconfirmedLive :: "bool option"
  sp_submissionStatusUnknown :: "(submission_error \<Rightarrow> bool option) option"

datatype prepared_plan = Plan_order prepared_order | Plan_oco prepared_oco

record submission_request =
  rq_plan :: nat
  rq_prepared :: prepared_plan
  rq_notional :: jsnum
  rq_countTowardsDailyLimit :: bool
  rq_preparedEvidence :: confirmation_evidence
  rq_intent :: execution_intent
  rq_policy :: submission_policy

record engine_config =
  ec_risk :: risk_config
  ec_positionMode :: position_mode

record trading_engine =
  te_config :: engine_config
  te_ledgerConfig :: risk_config
  te_mode :: trading_mode
  te_quoteCurrency :: string
  te_replaces :: bool
  te_journal :: "execution_journal option"
  te_preparedOrders :: "nat \<Rightarrow> prepared_order option"
  te_preparedOcos :: "nat \<Rightarrow> prepared_oco option"
  te_preparedAt :: "nat \<Rightarrow> jsnum option"
  te_consumedPlans :: "nat set"
  te_inFlightPlans :: "nat set"
  te_submissionsRetired :: bool

text \<open>Where a submission waits.\<close>

datatype submission_phase =
    Revalidating submission_request
  | Prompting submission_request execution_record "jsnum option" plan_confirmation nat
  | Rechecking submission_request execution_record "jsnum option" plan_confirmation nat
  | Sent submission_request execution_record
  | Finished "engine_error + (placement_result \<times> string)"

datatype engine_event =
    Confirmed nat plan_confirmation
  | Called submission_request string preflight_result

type_synonym segment = "trading_engine \<times> execution_risk_state \<times> submission_phase \<times> engine_event list"

section \<open>Configuration and preparation\<close>

text \<open>The error, if any, and the engine afterwards: the configuration is switched before the ledger accepts it.\<close>

definition engine_setConfig :: "engine_config \<Rightarrow> trading_engine \<Rightarrow> engine_error option \<times> trading_engine" where
  "engine_setConfig config te =
     (if cfg_mode (ec_risk config) \<noteq> te_mode te then (Some Mode_cannot_change, te)
      else if cfg_quoteCurrency (ec_risk config) \<noteq> te_quoteCurrency te then (Some Quote_cannot_change, te)
      else if cfg_marketType (ec_risk config) \<noteq> cfg_marketType (ec_risk (te_config te)) then (Some Market_type_cannot_change, te)
      else if ec_positionMode config \<noteq> ec_positionMode (te_config te) then (Some Position_mode_cannot_change, te)
      else
        let switched = te\<lparr>te_config := config\<rparr>
        in case Risk_Ledger.setConfig (te_ledgerConfig te) (ec_risk config) of
             Inl e \<Rightarrow> (Some (Ledger_refused e), switched)
           | Inr accepted \<Rightarrow>
               (None, switched\<lparr>te_ledgerConfig := accepted,
                               te_journal := map_option (journal_setConfig (ec_risk config)) (te_journal te)\<rparr>))"

definition engine_planningContext :: "trading_engine \<Rightarrow> market_view \<Rightarrow> planning_context" where
  "engine_planningContext te exchange =
     \<lparr>pl_config = \<lparr>pc_marketType = cfg_marketType (ec_risk (te_config te)), pc_quoteCurrency = cfg_quoteCurrency (ec_risk (te_config te)),
                   pc_positionMode = ec_positionMode (te_config te)\<rparr>,
      pl_mode = cfg_mode (ec_risk (te_config te)), pl_exchange = exchange\<rparr>"

text \<open>A prepared plan is a new object: \<open>plan\<close> is its identity.\<close>

definition engine_prepareOrder ::
  "(jsnum \<Rightarrow> jsnum) \<Rightarrow> nat \<Rightarrow> jsnum \<Rightarrow> market_view \<Rightarrow> side \<Rightarrow> order_intent \<Rightarrow> trading_engine \<Rightarrow> plan_error + trading_engine" where
  "engine_prepareOrder pow10 plan now exchange side intent te =
     ebind (prepareOrder pow10 side intent (engine_planningContext te exchange)) (\<lambda>prepared.
     Inr (te\<lparr>te_preparedOrders := (te_preparedOrders te)(plan \<mapsto> prepared), te_preparedAt := (te_preparedAt te)(plan \<mapsto> now)\<rparr>))"

definition engine_prepareOcoOrder ::
  "nat \<Rightarrow> jsnum \<Rightarrow> market_view \<Rightarrow> oco_intent \<Rightarrow> trading_engine \<Rightarrow> plan_error + trading_engine" where
  "engine_prepareOcoOrder plan now exchange intent te =
     ebind (prepareOcoOrder intent (engine_planningContext te exchange)) (\<lambda>prepared.
     Inr (te\<lparr>te_preparedOcos := (te_preparedOcos te)(plan \<mapsto> prepared), te_preparedAt := (te_preparedAt te)(plan \<mapsto> now)\<rparr>))"

definition assertPreparedPlanFresh :: "trading_engine \<Rightarrow> nat \<Rightarrow> jsnum \<Rightarrow> engine_error + unit" where
  "assertPreparedPlanFresh te plan now =
     (let age = (case te_preparedAt te plan of None \<Rightarrow> NaN | Some t \<Rightarrow> js_sub now t)
      in assert_js (\<not> (\<not> is_finite age \<or> js_lt age (Fin 0) \<or> js_gt age PREPARED_PLAN_TTL_MS)) Plan_expired)"

section \<open>Preflight of a plan\<close>

text \<open>What a revalidation meets: the abort signal at its three checks, the clock at its two, what the exchange
  reports, and the account guard's answer (its refusal, or, where account limits are configured, the revision it saw and
  the notional it charges).\<close>

record revalidation =
  rv_aborted :: "bool \<times> bool \<times> bool"
  rv_now :: "jsnum \<times> jsnum"
  rv_view :: preflight_view
  rv_snapshotOrders :: "order list option"
  rv_balances :: "balance list option"
  rv_positions :: "position list option"
  rv_account :: "unit + (jsnum \<times> jsnum) option"

text \<open>The spot amount that replaced orders give back; an OCO group is counted once.\<close>

definition released_step :: "order \<Rightarrow> string set \<times> jsnum \<Rightarrow> string set \<times> jsnum" where
  "released_step ord = (\<lambda>(groups, released).
     let g = opt_default (ord_id ord) (ord_ocoGroup ord)
     in (insert g groups, if g \<in> groups then released else js_add released (ord_remaining ord)))"

definition released_amount :: "string list \<Rightarrow> order list \<Rightarrow> jsnum" where
  "released_amount replacementIds orders =
     snd (fold released_step (filter (\<lambda>ord. ord_id ord \<in> set replacementIds) orders) ({}, Fin 0))"

definition replacement_balances :: "string list option \<Rightarrow> string \<Rightarrow> revalidation \<Rightarrow> balance list option" where
  "replacement_balances replacementIds symbol rv =
     (case pv_balances (rv_view rv) of
        None \<Rightarrow> None
      | Some balances \<Rightarrow>
          (case replacementIds of
             None \<Rightarrow> Some balances
           | Some ids \<Rightarrow>
               if CHR '':'' \<in> set symbol then Some balances
               else map_option (\<lambda>orders.
                      let released = released_amount ids orders
                      in map (\<lambda>b. if bal_asset b = symbol_base symbol then b\<lparr>bal_free := js_add (bal_free b) released\<rparr> else b) balances)
                    (rv_snapshotOrders rv)))"

definition reduces_position :: "trading_engine \<Rightarrow> place_order_input \<Rightarrow> position \<Rightarrow> bool" where
  "reduces_position te input p \<longleftrightarrow>
     pos_symbol p = in_symbol input \<and>
     (if in_side input = Buy then pos_positionSide p = Some PS_short \<or> js_lt (pos_amount p) (Fin 0)
      else pos_positionSide p \<noteq> Some PS_short \<and> js_gt (pos_amount p) (Fin 0)) \<and>
     (ec_positionMode (te_config te) \<noteq> Hedge \<or> pos_positionSide p = in_positionSide input)"

definition verifyReduction ::
  "trading_engine \<Rightarrow> place_order_input \<Rightarrow> balance list option \<Rightarrow> position list option \<Rightarrow> engine_error + unit" where
  "verifyReduction te input getBalances getPositions =
     (if CHR '':'' \<notin> set (in_symbol input) then
        (case getBalances of
           None \<Rightarrow> Inl Exchange_read_failed
         | Some balances \<Rightarrow>
             (case find (\<lambda>b. bal_asset b = symbol_base (in_symbol input)) balances of
                None \<Rightarrow> Inl Reduction_exceeds_holdings
              | Some holding \<Rightarrow>
                  assert_js (\<not> (in_side input \<noteq> Sell \<or> \<not> is_finite (bal_free holding) \<or>
                               balance_short (in_amount input) (bal_free holding))) Reduction_exceeds_holdings))
      else
        (case getPositions of
           None \<Rightarrow> Inl Exchange_read_failed
         | Some positions \<Rightarrow>
             (case filter (reduces_position te input) positions of
                [p] \<Rightarrow>
                  ebind (assert_js (\<not> js_gt (in_amount input)
                           (js_mul (js_abs (pos_amount p)) (js_add (Fin 1) (fl (1 / 10 ^ 12))))) Reduction_does_not_fit) (\<lambda>_.
                  assert_js (\<not> (ec_positionMode (te_config te) = One_way \<and> in_reduceOnly input \<noteq> Some True \<and>
                               in_closePosition input \<noteq> Some True)) Reduce_only_required)
              | _ \<Rightarrow> Inl Reduction_does_not_fit)))"

definition preflightPreparedOrder ::
  "(jsnum \<Rightarrow> jsnum) \<Rightarrow> trading_engine \<Rightarrow> prepared_order \<Rightarrow> string list option \<Rightarrow> revalidation \<Rightarrow> engine_error + preflight_result" where
  "preflightPreparedOrder pow10 te prepared replacementIds rv =
     ebind (emap_error Preflight_refused
              (preflightOrder pow10 prepared
                 ((rv_view rv)\<lparr>pv_balances := replacement_balances replacementIds (in_symbol (pr_input prepared)) rv,
                    pv_quoteCurrency := te_quoteCurrency te,
                    pv_marketType := cfg_marketType (ec_risk (te_config te))\<rparr>))) (\<lambda>result.
     ebind (if \<not> pr_countTowardsDailyLimit prepared \<and> replacementIds = None
            then verifyReduction te (pr_input prepared) (rv_balances rv) (rv_positions rv) else Inr ()) (\<lambda>_.
     Inr result))"

text \<open>An OCO pair is checked as its stop: \<^verbatim>\<open>{ ...input, type: "stop_market", stopPrice: input.stopLossPrice }\<close>.\<close>

definition oco_stop_input :: "place_oco_input \<Rightarrow> place_order_input" where
  "oco_stop_input i =
     \<lparr>in_symbol = oco_symbol i, in_side = oco_side i, in_type = Stop_market, in_amount = oco_amount i, in_price = None,
      in_reduceOnly = None, in_positionSide = None, in_stopPrice = Some (oco_stopLossPrice i), in_trailingPercent = None,
      in_closePosition = None, in_clientOrderId = None\<rparr>"

definition preflightPreparedOco ::
  "(jsnum \<Rightarrow> jsnum) \<Rightarrow> trading_engine \<Rightarrow> prepared_oco \<Rightarrow> revalidation \<Rightarrow> engine_error + preflight_result" where
  "preflightPreparedOco pow10 te prepared rv =
     ebind (emap_error Preflight_refused
              (preflightOco pow10 True prepared
                 ((rv_view rv)\<lparr>pv_quoteCurrency := te_quoteCurrency te, pv_feeRate := None\<rparr>))) (\<lambda>result.
     ebind (if \<not> po_countTowardsDailyLimit prepared
            then verifyReduction te (oco_stop_input (po_input prepared)) (rv_balances rv) (rv_positions rv) else Inr ()) (\<lambda>_.
     Inr (preflight_result.truncate result)))"

definition request_preflight ::
  "(jsnum \<Rightarrow> jsnum) \<Rightarrow> trading_engine \<Rightarrow> submission_request \<Rightarrow> revalidation \<Rightarrow> engine_error + preflight_result" where
  "request_preflight pow10 te rq rv =
     (case rq_prepared rq of
        Plan_order prepared \<Rightarrow> preflightPreparedOrder pow10 te prepared (sp_replacementIds (rq_policy rq)) rv
      | Plan_oco prepared \<Rightarrow> preflightPreparedOco pow10 te prepared rv)"

definition revalidatePreparedPlan ::
  "(jsnum \<Rightarrow> jsnum) \<Rightarrow> trading_engine \<Rightarrow> submission_request \<Rightarrow> revalidation \<Rightarrow>
   engine_error + preflight_result \<times> (jsnum \<times> jsnum) option" where
  "revalidatePreparedPlan pow10 te rq rv =
     ebind (assert_js (\<not> fst (rv_aborted rv)) Operation_cancelled) (\<lambda>_.
     ebind (assertPreparedPlanFresh te (rq_plan rq) (fst (rv_now rv))) (\<lambda>_.
     ebind (request_preflight pow10 te rq rv) (\<lambda>preflight.
     ebind (assert_js (\<not> fst (snd (rv_aborted rv))) Operation_cancelled) (\<lambda>_.
     ebind (case rv_account rv of Inl _ \<Rightarrow> Inl Account_refused | Inr a \<Rightarrow> Inr a) (\<lambda>account.
     ebind (assert_js (\<not> snd (snd (rv_aborted rv))) Operation_cancelled) (\<lambda>_.
     ebind (assertPreparedPlanFresh te (rq_plan rq) (snd (rv_now rv))) (\<lambda>_.
     Inr (preflight, account))))))))"


section \<open>Entry\<close>

text \<open>\<^verbatim>\<open>AccountRiskGuard.state()\<close>: the account's own risk state in the store.\<close>

definition guard_state :: "journal_platform \<Rightarrow> trading_engine \<Rightarrow> execution_risk_state \<Rightarrow> engine_error + account_risk_state option" where
  "guard_state p te s =
     (case te_journal te of
        None \<Rightarrow> Inr None
      | Some j \<Rightarrow>
          ebind (emap_error Ledger_refused (case st_accountRisk s of None \<Rightarrow> Inr () | Some states \<Rightarrow> validateAccountRiskStates states)) (\<lambda>_.
          Inr (account_risk_of p j s)))"

definition submit_start :: "bool \<Rightarrow> submission_request \<Rightarrow> trading_engine \<Rightarrow> execution_risk_state \<Rightarrow> engine_error + trading_engine" where
  "submit_start aborted rq te s =
     ebind (assert_js (\<not> aborted) Operation_cancelled) (\<lambda>_.
     ebind (assert_js (te_journal te \<noteq> None) Journal_not_configured) (\<lambda>_.
     ebind (assert_js (rq_plan rq \<notin> te_consumedPlans te) Plan_already_submitted) (\<lambda>_.
     ebind (assert_js (rq_plan rq \<notin> te_inFlightPlans te) Plan_already_in_flight) (\<lambda>_.
     ebind (if rq_countTowardsDailyLimit rq then emap_error Ledger_refused (assertNewExposureAllowed None s) else Inr ()) (\<lambda>_.
     Inr (te\<lparr>te_inFlightPlans := insert (rq_plan rq) (te_inFlightPlans te)\<rparr>))))))"

definition order_request :: "journal_platform \<Rightarrow> string \<Rightarrow> nat \<Rightarrow> prepared_order \<Rightarrow> submission_policy \<Rightarrow> submission_request" where
  "order_request p uuid plan prepared policy =
     \<lparr>rq_plan = plan, rq_prepared = Plan_order prepared, rq_notional = pr_notional prepared,
      rq_countTowardsDailyLimit = pr_countTowardsDailyLimit prepared,
      rq_preparedEvidence = \<lparr>ce_referencePrice = pr_referencePrice prepared, ce_amount = pr_amount prepared,
        ce_notional = pr_notional prepared, ce_riskNotional = pr_notional prepared, ce_priceStep = Fin 0\<rparr>,
      rq_intent = Order_intent ((pr_input prepared)\<lparr>in_clientOrderId :=
        Some (cid_clientOrderId (executionClientIds p uuid (sp_intentId policy)))\<rparr>) (sp_replacementIds policy),
      rq_policy = policy\<rparr>"

definition placeOrder ::
  "journal_platform \<Rightarrow> string \<Rightarrow> bool \<Rightarrow> nat \<Rightarrow> submission_policy \<Rightarrow> trading_engine \<Rightarrow> execution_risk_state \<Rightarrow>
   engine_error + trading_engine \<times> submission_request" where
  "placeOrder p uuid aborted plan policy te s =
     (case te_preparedOrders te plan of
        None \<Rightarrow> Inl Plan_not_prepared
      | Some prepared \<Rightarrow>
          ebind (if sp_replacementIds policy = None then Inr ()
                 else ebind (assert_js (\<not> pr_countTowardsDailyLimit prepared) Replacement_unsupported) (\<lambda>_.
                      ebind (guard_state p te s) (\<lambda>a.
                      assert_js (a \<noteq> None \<and> te_replaces te) Replacement_unsupported))) (\<lambda>_.
          let rq = order_request p uuid plan prepared policy
          in ebind (submit_start aborted rq te s) (\<lambda>te'. Inr (te', rq))))"

definition oco_request :: "journal_platform \<Rightarrow> string \<Rightarrow> nat \<Rightarrow> prepared_oco \<Rightarrow> submission_policy \<Rightarrow> submission_request" where
  "oco_request p uuid plan prepared policy =
     (let ids = executionClientIds p uuid (sp_intentId policy)
      in \<lparr>rq_plan = plan, rq_prepared = Plan_oco prepared, rq_notional = po_riskNotional prepared,
          rq_countTowardsDailyLimit = po_countTowardsDailyLimit prepared,
          rq_preparedEvidence = \<lparr>ce_referencePrice = po_referencePrice prepared, ce_amount = oco_amount (po_input prepared),
            ce_notional = po_observedNotional prepared, ce_riskNotional = po_riskNotional prepared, ce_priceStep = Fin 0\<rparr>,
          rq_intent = Oco_intent ((po_input prepared)\<lparr>oco_listClientOrderId := Some (cid_listClientOrderId ids),
            oco_aboveClientOrderId := Some (cid_aboveClientOrderId ids), oco_belowClientOrderId := Some (cid_belowClientOrderId ids)\<rparr>),
          rq_policy = policy\<rparr>)"

definition placeOco ::
  "journal_platform \<Rightarrow> string \<Rightarrow> bool \<Rightarrow> nat \<Rightarrow> submission_policy \<Rightarrow> trading_engine \<Rightarrow> execution_risk_state \<Rightarrow>
   engine_error + trading_engine \<times> submission_request" where
  "placeOco p uuid aborted plan policy te s =
     (case te_preparedOcos te plan of
        None \<Rightarrow> Inl Plan_not_prepared
      | Some prepared \<Rightarrow>
          let rq = oco_request p uuid plan prepared policy
          in ebind (submit_start aborted rq te s) (\<lambda>te'. Inr (te', rq)))"

section \<open>From the reservation to the call\<close>

datatype reference_check = Reference_ok | Reference_throws | Reference_returns_value

text \<open>What the synchronous stretch up to the call meets: the clocks and identifiers of its journal calls, the abort signal and the
  consumer's check of the reference.\<close>

record admission =
  ad_prepare :: journal_env
  ad_begin :: journal_env
  ad_release :: journal_env
  ad_outcome :: journal_env
  ad_aborted :: bool
  ad_reference :: reference_check

definition leave_flight :: "nat \<Rightarrow> trading_engine \<Rightarrow> trading_engine" where
  "leave_flight plan te = te\<lparr>te_inFlightPlans := te_inFlightPlans te - {plan}\<rparr>"

definition consume_plan :: "nat \<Rightarrow> trading_engine \<Rightarrow> trading_engine" where
  "consume_plan plan te = te\<lparr>te_consumedPlans := insert plan (te_consumedPlans te)\<rparr>"

definition releaseAndThrow ::
  "journal_platform \<Rightarrow> journal_env \<Rightarrow> execution_journal \<Rightarrow> submission_request \<Rightarrow> execution_record \<Rightarrow> engine_error \<Rightarrow>
   trading_engine \<Rightarrow> execution_risk_state \<Rightarrow> segment" where
  "releaseAndThrow p env j rq execution original te s =
     (let failed = leave_flight (rq_plan rq) (consume_plan (rq_plan rq) te)
      in case settle p env (ex_id execution) Release (Fin 0) Definite_rejection None (Some (ex_revision execution)) j s of
           Inl e \<Rightarrow> (failed, s, Finished (Inl (Both_failed original (Journal_refused e))), [])
         | Inr (settled, s') \<Rightarrow>
             if settled then (leave_flight (rq_plan rq) te, s', Finished (Inl original), [])
             else (failed, s', Finished (Inl (Both_failed original (Stale_release (ex_id execution)))), []))"

definition timeout_valid :: "jsnum option \<Rightarrow> bool" where
  "timeout_valid t = (case t of None \<Rightarrow> True | Some ms \<Rightarrow> positive_finite ms)"

definition submission_unclear :: "submission_policy \<Rightarrow> submission_error \<Rightarrow> bool" where
  "submission_unclear policy err \<longleftrightarrow>
     err \<noteq> Submission_rejected \<or> isSubmissionStatusUnknownError err \<or>
     (case sp_submissionStatusUnknown policy of None \<Rightarrow> False | Some classify \<Rightarrow> classify err \<noteq> Some False)"

text \<open>The exchange call failed or timed out.\<close>

definition submission_failed ::
  "journal_platform \<Rightarrow> journal_env \<Rightarrow> execution_journal \<Rightarrow> submission_request \<Rightarrow> execution_record \<Rightarrow> submission_error \<Rightarrow>
   trading_engine \<Rightarrow> execution_risk_state \<Rightarrow> segment" where
  "submission_failed p env j rq execution err te s =
     (if submission_unclear (rq_policy rq) err then
        (case mark_unknown env (ex_id execution) Submission_unknown None j s of
           Inl _ \<Rightarrow> (te, s, Finished (Inl (Still_unresolved (ex_id execution) Outcome_not_persisted)), [])
         | Inr (_, s') \<Rightarrow> (te, s', Finished (Inl (Still_unresolved (ex_id execution) Status_unknown)), []))
      else
        (case settle p env (ex_id execution) Release (Fin 0) Definite_rejection None None j s of
           Inl _ \<Rightarrow> (te, s, Finished (Inl (Still_unresolved (ex_id execution) Rejection_not_persisted)), [])
         | Inr (_, s') \<Rightarrow> (te, s', Finished (Inl (Submission_failed err)), [])))"

text \<open>The exchange answered.\<close>

definition submission_answered ::
  "journal_platform \<Rightarrow> (jsnum \<Rightarrow> jsnum) \<Rightarrow> jsnum \<Rightarrow> journal_env \<Rightarrow> execution_journal \<Rightarrow> execution_record \<Rightarrow> placement_result \<Rightarrow>
   trading_engine \<Rightarrow> execution_risk_state \<Rightarrow> segment" where
  "submission_answered p pow10 now env j execution result te s =
     (let unsettled = Finished (Inl (Still_unresolved (ex_id execution) Response_not_settled))
      in case executionEvidence pow10 now execution result From_submission of
           Inl _ \<Rightarrow> (te, s, unsettled, [])
         | Inr obs \<Rightarrow>
             (case settle p env (ex_id execution) (obs_outcome obs) (obs_notional obs) Acknowledged (Some (obs_evidence obs)) None j s of
                Inl _ \<Rightarrow> (te, s, unsettled, [])
              | Inr (_, s') \<Rightarrow> (te, s', Finished (Inr (result, ex_id execution)), [])))"

definition admit ::
  "journal_platform \<Rightarrow> admission \<Rightarrow> execution_journal \<Rightarrow> submission_request \<Rightarrow> execution_record \<Rightarrow> jsnum option \<Rightarrow>
   execution_risk_state \<Rightarrow> engine_error + execution_record \<times> execution_risk_state" where
  "admit p ad j rq execution riskRevision s =
     ebind (assert_js (\<not> ad_aborted ad) Operation_cancelled) (\<lambda>_.
     ebind (if sp_validatesReference (rq_policy rq)
            then (case ad_reference ad of
                    Reference_ok \<Rightarrow> Inr () | Reference_throws \<Rightarrow> Inl Reference_rejected
                  | Reference_returns_value \<Rightarrow> Inl Reference_not_synchronous)
            else Inr ()) (\<lambda>_.
     ebind (if rq_countTowardsDailyLimit rq then emap_error Ledger_refused (assertNewExposureAllowed (Some (ex_id execution)) s)
            else Inr ()) (\<lambda>_.
     emap_error Journal_refused (begin_submission p (ad_begin ad) (ex_id execution) riskRevision j s))))"

definition begin_and_send ::
  "journal_platform \<Rightarrow> admission \<Rightarrow> execution_journal \<Rightarrow> preflight_result \<Rightarrow> submission_request \<Rightarrow> execution_record \<Rightarrow> jsnum option \<Rightarrow>
   trading_engine \<Rightarrow> execution_risk_state \<Rightarrow> segment" where
  "begin_and_send p ad j preflight rq execution riskRevision te s =
     (case admit p ad j rq execution riskRevision s of
        Inl e \<Rightarrow> releaseAndThrow p (ad_release ad) j rq execution e te s
      | Inr (_, s1) \<Rightarrow>
          let te1 = consume_plan (rq_plan rq) (leave_flight (rq_plan rq) te)
          in if timeout_valid (sp_timeoutMs (rq_policy rq))
             then (te1, s1, Sent rq execution, [Called rq (ex_id execution) preflight])
             else submission_failed p (ad_outcome ad) j rq execution (Plain_error None) te1 s1)"

definition toPreparedPlanConfirmation :: "preflight_result \<Rightarrow> bool \<Rightarrow> plan_confirmation" where
  "toPreparedPlanConfirmation preflight requote =
     \<lparr>cf_evidence = pf_evidence preflight, cf_warnings = pf_warnings preflight, cf_requote = requote\<rparr>"

definition claimed_notional :: "submission_request \<Rightarrow> preflight_result \<Rightarrow> (jsnum \<times> jsnum) option \<Rightarrow> jsnum" where
  "claimed_notional rq preflight account =
     (if rq_countTowardsDailyLimit rq
      then js_max (js_max (rq_notional rq) (ce_notional (pf_evidence preflight))) (case account of None \<Rightarrow> Fin 0 | Some (_, n) \<Rightarrow> n)
      else rq_notional rq)"

text \<open>The stretch inside the first try block: the reservation and the risk revision of the account after it.\<close>

definition reserve_submission ::
  "journal_platform \<Rightarrow> journal_env \<Rightarrow> execution_journal \<Rightarrow> submission_request \<Rightarrow> preflight_result \<Rightarrow> (jsnum \<times> jsnum) option \<Rightarrow>
   trading_engine \<Rightarrow> execution_risk_state \<Rightarrow> engine_error + execution_record \<times> execution_risk_state" where
  "reserve_submission p env j rq preflight account te s =
     ebind (assert_js (\<not> te_submissionsRetired te) Engine_replaced) (\<lambda>_.
     ebind (assert_js (\<not> (\<not> sp_confirms (rq_policy rq) \<and> marketEvidenceChanged (rq_preparedEvidence rq) preflight))
              Prepared_evidence_changed) (\<lambda>_.
     emap_error Journal_refused
       (prepare p env (rq_intent rq) (claimed_notional rq preflight account) (rq_countTowardsDailyLimit rq)
          \<lparr>po_intentId = sp_intentId (rq_policy rq), po_reference = sp_reference (rq_policy rq),
           po_riskRevision = map_option fst account, po_protectionStopPrice = sp_protectionStopPrice (rq_policy rq)\<rparr> j s)))"

definition after_revalidation ::
  "journal_platform \<Rightarrow> (jsnum \<Rightarrow> jsnum) \<Rightarrow> revalidation \<Rightarrow> admission \<Rightarrow> execution_journal \<Rightarrow> submission_request \<Rightarrow>
   trading_engine \<Rightarrow> execution_risk_state \<Rightarrow> segment" where
  "after_revalidation p pow10 rv ad j rq te s =
     (let landed = leave_flight (rq_plan rq) te
      in case revalidatePreparedPlan pow10 te rq rv of
           Inl e \<Rightarrow> (landed, s, Finished (Inl e), [])
         | Inr (preflight, account) \<Rightarrow>
             (case reserve_submission p (ad_prepare ad) j rq preflight account te s of
                Inl e \<Rightarrow> (landed, s, Finished (Inl e), [])
              | Inr (execution, s1) \<Rightarrow>
                  (case guard_state p te s1 of
                     Inl e \<Rightarrow> (landed, s1, Finished (Inl e), [])
                   | Inr a \<Rightarrow>
                       let riskRevision = map_option ars_revision a
                       in if sp_confirms (rq_policy rq)
                          then (te, s1, Prompting rq execution riskRevision (toPreparedPlanConfirmation preflight False) 1, [])
                          else if te_mode te = Live \<and> sp_allowUnconfirmedLive (rq_policy rq) \<noteq> Some True
                          then releaseAndThrow p (ad_release ad) j rq execution Confirmation_required te s1
                          else begin_and_send p ad j preflight rq execution riskRevision te s1)))"

datatype confirm_answer = Answered bool | Answer_throws

definition after_prompt ::
  "journal_platform \<Rightarrow> journal_env \<Rightarrow> confirm_answer \<Rightarrow> execution_journal \<Rightarrow> submission_request \<Rightarrow> execution_record \<Rightarrow> jsnum option \<Rightarrow>
   plan_confirmation \<Rightarrow> nat \<Rightarrow> trading_engine \<Rightarrow> execution_risk_state \<Rightarrow> segment" where
  "after_prompt p env answer j rq execution riskRevision confirmation prompts te s =
     (case answer of
        Answer_throws \<Rightarrow> releaseAndThrow p env j rq execution Confirmation_failed te s
      | Answered confirmed \<Rightarrow>
          if \<not> confirmed then releaseAndThrow p env j rq execution Cancelled_by_user te s
          else (te, s, Rechecking rq execution riskRevision confirmation prompts, [Confirmed (rq_plan rq) confirmation]))"

definition after_recheck ::
  "journal_platform \<Rightarrow> (jsnum \<Rightarrow> jsnum) \<Rightarrow> revalidation \<Rightarrow> admission \<Rightarrow> execution_journal \<Rightarrow> submission_request \<Rightarrow> execution_record \<Rightarrow>
   jsnum option \<Rightarrow> plan_confirmation \<Rightarrow> nat \<Rightarrow> trading_engine \<Rightarrow> execution_risk_state \<Rightarrow> segment" where
  "after_recheck p pow10 rv ad j rq execution riskRevision confirmation prompts te s =
     (case revalidatePreparedPlan pow10 te rq rv of
        Inl e \<Rightarrow> releaseAndThrow p (ad_release ad) j rq execution e te s
      | Inr (preflight, account) \<Rightarrow>
          if rq_countTowardsDailyLimit rq \<and> (case account of None \<Rightarrow> False | Some (_, n) \<Rightarrow> js_gt n (ex_notional execution))
          then releaseAndThrow p (ad_release ad) j rq execution Account_notional_increased te s
          else if \<not> confirmationSnapshotChanged (cf_evidence confirmation) (cf_warnings confirmation) preflight
          then begin_and_send p ad j preflight rq execution riskRevision te s
          else if PREPARED_PLAN_MAX_CONFIRMATIONS < prompts + 1
          then releaseAndThrow p (ad_release ad) j rq execution Confirmations_exhausted te s
          else (te, s, Prompting rq execution riskRevision (toPreparedPlanConfirmation preflight True) (prompts + 1), []))"

section \<open>Interleaving\<close>

text \<open>The engine with its submissions in progress, the shared store, what happened towards the user and the exchange, and the identifiers of
  every execution prepared so far by anyone.\<close>

record engine_world =
  w_engine :: trading_engine
  w_store :: execution_risk_state
  w_tasks :: "nat \<Rightarrow> submission_phase option"
  w_trace :: "engine_event list"
  w_ids :: "string set"

fun advance :: "nat \<Rightarrow> segment \<Rightarrow> string set \<Rightarrow> engine_world \<Rightarrow> engine_world" where
  "advance t (te, s, ph, evs) ids w =
     w\<lparr>w_engine := te, w_store := s, w_tasks := (w_tasks w)(t \<mapsto> ph), w_trace := w_trace w @ evs, w_ids := w_ids w \<union> ids\<rparr>"

text \<open>Steps of the engine's own submissions, of its other methods, of the other processes (journal operations)
  and of the account guards (which change the account risk states only). A new execution has a fresh identifier
  (\<^verbatim>\<open>crypto.randomUUID\<close>).\<close>

inductive engine_step :: "journal_platform \<Rightarrow> (jsnum \<Rightarrow> jsnum) \<Rightarrow> engine_world \<Rightarrow> engine_world \<Rightarrow> bool" for p pow10 where
  order_prepared: "engine_prepareOrder pow10 plan now exchange sd oi (w_engine w) = Inr te \<Longrightarrow>
     engine_step p pow10 w (w\<lparr>w_engine := te\<rparr>)"
| oco_prepared: "engine_prepareOcoOrder plan now exchange bi (w_engine w) = Inr te \<Longrightarrow> engine_step p pow10 w (w\<lparr>w_engine := te\<rparr>)"
| reconfigured: "engine_setConfig config (w_engine w) = (r, te) \<Longrightarrow> engine_step p pow10 w (w\<lparr>w_engine := te\<rparr>)"
| retired: "engine_step p pow10 w (w\<lparr>w_engine := (w_engine w)\<lparr>te_submissionsRetired := True\<rparr>\<rparr>)"
| order_placed: "placeOrder p uuid aborted plan policy (w_engine w) (w_store w) = Inr (te, rq) \<Longrightarrow> w_tasks w t = None \<Longrightarrow>
     engine_step p pow10 w (advance t (te, w_store w, Revalidating rq, []) {} w)"
| oco_placed: "placeOco p uuid aborted plan policy (w_engine w) (w_store w) = Inr (te, rq) \<Longrightarrow> w_tasks w t = None \<Longrightarrow>
     engine_step p pow10 w (advance t (te, w_store w, Revalidating rq, []) {} w)"
| revalidated: "w_tasks w t = Some (Revalidating rq) \<Longrightarrow> te_journal (w_engine w) = Some j \<Longrightarrow> je_uuid (ad_prepare ad) \<notin> w_ids w \<Longrightarrow>
     engine_step p pow10 w (advance t (after_revalidation p pow10 rv ad j rq (w_engine w) (w_store w)) {je_uuid (ad_prepare ad)} w)"
| prompted: "w_tasks w t = Some (Prompting rq e rr cf n) \<Longrightarrow> te_journal (w_engine w) = Some j \<Longrightarrow>
     engine_step p pow10 w (advance t (after_prompt p env answer j rq e rr cf n (w_engine w) (w_store w)) {} w)"
| rechecked: "w_tasks w t = Some (Rechecking rq e rr cf n) \<Longrightarrow> te_journal (w_engine w) = Some j \<Longrightarrow>
     engine_step p pow10 w (advance t (after_recheck p pow10 rv ad j rq e rr cf n (w_engine w) (w_store w)) {} w)"
| call_failed: "w_tasks w t = Some (Sent rq e) \<Longrightarrow> te_journal (w_engine w) = Some j \<Longrightarrow>
     engine_step p pow10 w (advance t (submission_failed p env j rq e err (w_engine w) (w_store w)) {} w)"
| call_answered: "w_tasks w t = Some (Sent rq e) \<Longrightarrow> te_journal (w_engine w) = Some j \<Longrightarrow>
     engine_step p pow10 w (advance t (submission_answered p pow10 now env j e result (w_engine w) (w_store w)) {} w)"
| others_opened: "journal_step p (Opened k c) (w_store w) s \<Longrightarrow> k \<notin> w_ids w \<Longrightarrow>
     engine_step p pow10 w (w\<lparr>w_store := s, w_ids := insert k (w_ids w)\<rparr>)"
| others_moved: "journal_step p ev (w_store w) s \<Longrightarrow> opens_only {} [ev] \<Longrightarrow> engine_step p pow10 w (w\<lparr>w_store := s\<rparr>)"
| guards_moved: "engine_step p pow10 w (w\<lparr>w_store := (w_store w)\<lparr>st_accountRisk := states\<rparr>\<rparr>)"

inductive engine_run :: "journal_platform \<Rightarrow> (jsnum \<Rightarrow> jsnum) \<Rightarrow> engine_world \<Rightarrow> engine_world \<Rightarrow> bool" for p pow10 where
  engine_idle: "engine_run p pow10 w w"
| engine_next: "engine_run p pow10 w w' \<Longrightarrow> engine_step p pow10 w' w'' \<Longrightarrow> engine_run p pow10 w w''"


section \<open>What a stretch does to the records and to the plans\<close>

definition keeps_records :: "string set \<Rightarrow> execution_risk_state \<Rightarrow> execution_risk_state \<Rightarrow> bool" where
  "keeps_records K s s' \<longleftrightarrow>
     (\<forall>k. k \<notin> K \<longrightarrow>
        (case record_at k s of None \<Rightarrow> record_at k s' = None
         | Some e \<Rightarrow> (case record_at k s' of None \<Rightarrow> True | Some e' \<Rightarrow> evolves e e')))"

lemma keeps_records_refl [simp]: "keeps_records K s s"
  by (simp add: keeps_records_def split: option.splits)

lemma keeps_recordsD:
  assumes "keeps_records K s s'" "k \<notin> K" "record_at k s' = Some e'"
  obtains e where "record_at k s = Some e" "evolves e e'"
  using assms by (fastforce simp: keeps_records_def split: option.splits)

lemma keeps_records_trans:
  assumes "keeps_records K a b" "keeps_records K b c" shows "keeps_records K a c"
  unfolding keeps_records_def
proof (intro allI impI)
  fix k assume k: "k \<notin> K"
  show "case record_at k a of None \<Rightarrow> record_at k c = None
    | Some e \<Rightarrow> (case record_at k c of None \<Rightarrow> True | Some e' \<Rightarrow> evolves e e')"
  proof (cases "record_at k c")
    case (Some e2)
    then obtain e1 where 1: "record_at k b = Some e1" "evolves e1 e2" using keeps_recordsD[OF assms(2) k] by blast
    then obtain e0 where "record_at k a = Some e0" "evolves e0 e1" using keeps_recordsD[OF assms(1) k] by blast
    then show ?thesis using Some 1 evolves_trans by simp
  qed (simp split: option.splits)
qed

lemma keeps_records_mono: "keeps_records K a b \<Longrightarrow> K \<subseteq> L \<Longrightarrow> keeps_records L a b"
  by (auto simp: keeps_records_def)

lemma runs_keep_records: "runs_to p K s s' \<Longrightarrow> keeps_records K s s'"
  unfolding runs_to_def opens_only_def keeps_records_def
  using run_evolves run_no_record by (fastforce split: option.splits)

lemma step_keeps_records: "journal_step p ev s s' \<Longrightarrow> opens_only K [ev] \<Longrightarrow> keeps_records K s s'"
  by (rule runs_keep_records[OF runs_to_step])

lemma guard_keeps_records [simp]: "keeps_records K s (s\<lparr>st_accountRisk := states\<rparr>)"
proof -
  have "record_at k (s\<lparr>st_accountRisk := states\<rparr>) = record_at k s" for k by (rule journal_cong(2)) simp
  then show ?thesis by (simp add: keeps_records_def split: option.splits)
qed

lemma prepare_keeps_records: "prepare p env i n c opts j s = Inr (e, s') \<Longrightarrow> keeps_records {je_uuid env} s s'"
  using prepare_change(2,6)[of p env i n c opts j s e s'] by (auto simp: keeps_records_def split: option.splits)

lemma prepare_intent:
  assumes "prepare p env i n c opts j s = Inr (e, s')"
  shows "ex_id e = je_uuid env" "ex_intent e = i" "record_at (je_uuid env) s' = Some e"
  using prepare_change(2,6)[OF assms] prepare_step_executions(4)[of p env j i n c opts s e s'] assms
  by (auto simp: prepare_def result_simps)

lemma settle_keeps_records: "settle p env k out n st ev rq j s = Inr (r, s') \<Longrightarrow> keeps_records {} s s'"
  by (rule runs_keep_records[OF runs_to_settle])

lemma unknown_keeps_records: "mark_unknown env k issue rq j s = Inr (u, s') \<Longrightarrow> keeps_records {} s s'"
  by (rule runs_keep_records[OF runs_to_unknown])

lemma begin_keeps_records: "begin_submission p env k rr j s = Inr (e, s') \<Longrightarrow> keeps_records {} s s'"
  by (rule step_keeps_records[OF step_begin]) auto

lemma begin_records:
  assumes "begin_submission p env k rr j s = Inr (e, s')"
  obtains e0 e1 where "record_at k s = Some e0" "ex_status e0 = Prepared" "record_at k s' = Some e1"
    "ex_status e1 = Submission_started" "ex_intent e1 = ex_intent e0"
proof -
  obtain e0 where e0: "record_at k s = Some e0" "ex_status e0 = Prepared" and t: "transition (env) Submission_started e0 s = Inr (e, s')"
    using assms by (auto simp: begin_submission_def journal_transact_Inr elim!: begin_step_Inr)
  have r: "record_at k s' = Some e" using transition_record_at[OF t e0(1) record_at_id[OF e0(1)], of k] by simp
  have "ex_status e = Submission_started" "ex_intent e = ex_intent e0" by (simp_all add: transition_Inr(1)[OF t])
  with e0 r show thesis by (rule that)
qed

lemma evolves_status: "evolves e e' \<Longrightarrow> ex_status e' = Prepared \<Longrightarrow> ex_status e = Prepared"
  by (cases "ex_status e") (auto simp: evolves_def)

lemma evolves_intent: "evolves e e' \<Longrightarrow> ex_intent e' = ex_intent e"
  by (simp add: evolves_def same_identity_def)

text \<open>A submission that has not been sent holds its plan in flight; when it ends it gives the plan back or consumes it.\<close>

fun pre_send :: "submission_phase \<Rightarrow> submission_request option" where
  "pre_send (Revalidating rq) = Some rq"
| "pre_send (Prompting rq _ _ _ _) = Some rq"
| "pre_send (Rechecking rq _ _ _ _) = Some rq"
| "pre_send _ = None"

fun phase_execution :: "submission_phase \<Rightarrow> (submission_request \<times> execution_record) option" where
  "phase_execution (Prompting rq e _ _ _) = Some (rq, e)"
| "phase_execution (Rechecking rq e _ _ _) = Some (rq, e)"
| "phase_execution (Sent rq e) = Some (rq, e)"
| "phase_execution _ = None"

definition lands :: "submission_request \<Rightarrow> trading_engine \<Rightarrow> trading_engine \<Rightarrow> submission_phase \<Rightarrow> bool" where
  "lands rq te te' ph \<longleftrightarrow> te_mode te' = te_mode te \<and>
     (case pre_send ph of
        Some rq' \<Rightarrow> rq' = rq \<and> te' = te
      | None \<Rightarrow> te_inFlightPlans te' = te_inFlightPlans te - {rq_plan rq} \<and>
          te_consumedPlans te \<subseteq> te_consumedPlans te' \<and> te_consumedPlans te' \<subseteq> insert (rq_plan rq) (te_consumedPlans te))"

definition called_well ::
  "submission_request \<Rightarrow> trading_engine \<Rightarrow> execution_risk_state \<Rightarrow> execution_risk_state \<Rightarrow> string \<Rightarrow> bool" where
  "called_well rq te' s s' k \<longleftrightarrow> rq_plan rq \<in> te_consumedPlans te' \<and>
     (\<exists>e0 e1. record_at k s = Some e0 \<and> ex_status e0 = Prepared \<and> record_at k s' = Some e1 \<and>
        ex_status e1 = Submission_started \<and> ex_intent e1 = ex_intent e0)"

lemma release_segment:
  assumes "releaseAndThrow p env j rq e err te s = (te', s', ph, evs)"
  shows "keeps_records {} s s' \<and> lands rq te te' ph \<and> evs = [] \<and> phase_execution ph = None \<and> pre_send ph = None"
  using assms
  by (auto simp: releaseAndThrow_def Let_def lands_def leave_flight_def consume_plan_def
      intro: settle_keeps_records split: sum.splits prod.splits if_splits)

lemma failed_segment:
  assumes "submission_failed p env j rq e err te s = (te', s', ph, evs)"
  shows "keeps_records {} s s' \<and> te' = te \<and> evs = [] \<and> phase_execution ph = None \<and> pre_send ph = None"
  using assms
  by (auto simp: submission_failed_def intro: settle_keeps_records unknown_keeps_records split: sum.splits prod.splits if_splits)

lemma answered_segment:
  assumes "submission_answered p pow10 now env j e result te s = (te', s', ph, evs)"
  shows "keeps_records {} s s' \<and> te' = te \<and> evs = [] \<and> phase_execution ph = None \<and> pre_send ph = None"
  using assms
  by (auto simp: submission_answered_def Let_def intro: settle_keeps_records split: sum.splits prod.splits)

lemma admit_Inr:
  "admit p ad j rq e rr s = Inr r \<Longrightarrow> begin_submission p (ad_begin ad) (ex_id e) rr j s = Inr r"
  by (auto simp: admit_def result_simps split: if_splits)

lemma send_segment:
  assumes "begin_and_send p ad j preflight rq e rr te s = (te', s', ph, evs)"
  shows "keeps_records {} s s' \<and> lands rq te te' ph \<and> pre_send ph = None \<and>
    (evs = [] \<and> phase_execution ph = None \<or>
     evs = [Called rq (ex_id e) preflight] \<and> phase_execution ph = Some (rq, e) \<and> called_well rq te' s s' (ex_id e))"
proof (cases "admit p ad j rq e rr s")
  case (Inl err)
  then show ?thesis using assms release_segment by (auto simp: begin_and_send_def)
next
  case (Inr r)
  obtain e1 s1 where r: "r = (e1, s1)" by force
  have b: "begin_submission p (ad_begin ad) (ex_id e) rr j s = Inr (e1, s1)" using admit_Inr[OF Inr] r by simp
  note k = begin_keeps_records[OF b]
  have l: "lands rq te (consume_plan (rq_plan rq) (leave_flight (rq_plan rq) te)) ph" if "pre_send ph = None" for ph
    using that by (auto simp: lands_def consume_plan_def leave_flight_def)
  show ?thesis
  proof (cases "timeout_valid (sp_timeoutMs (rq_policy rq))")
    case True
    then have x: "te' = consume_plan (rq_plan rq) (leave_flight (rq_plan rq) te)" "s' = s1" "ph = Sent rq e"
      "evs = [Called rq (ex_id e) preflight]"
      using assms Inr r by (auto simp: begin_and_send_def Let_def)
    obtain e0 e2 where "record_at (ex_id e) s = Some e0" "ex_status e0 = Prepared" "record_at (ex_id e) s1 = Some e2"
      "ex_status e2 = Submission_started" "ex_intent e2 = ex_intent e0" by (rule begin_records[OF b])
    then have "called_well rq te' s s' (ex_id e)" by (auto simp: called_well_def x consume_plan_def)
    then show ?thesis using k l[of ph] by (simp add: x)
  next
    case False
    then have "submission_failed p (ad_outcome ad) j rq e (Plain_error None)
        (consume_plan (rq_plan rq) (leave_flight (rq_plan rq) te)) s1 = (te', s', ph, evs)"
      using assms Inr r by (auto simp: begin_and_send_def Let_def)
    from failed_segment[OF this] show ?thesis using k l[of ph] keeps_records_trans by auto
  qed
qed


lemma reserve_segment:
  assumes "reserve_submission p env j rq preflight account te s = Inr (e, s1)"
  shows "keeps_records {je_uuid env} s s1" "ex_id e = je_uuid env" "ex_intent e = rq_intent rq" "record_at (je_uuid env) s1 = Some e"
  using assms prepare_keeps_records prepare_intent by (auto simp: reserve_submission_def result_simps)

text \<open>What each stretch of a submission that has not been sent guarantees; \<open>K\<close> holds the identifier it may have
  introduced.\<close>

definition stretch_ok ::
  "string set \<Rightarrow> submission_request \<Rightarrow> trading_engine \<Rightarrow> execution_risk_state \<Rightarrow> segment \<Rightarrow> bool" where
  "stretch_ok K rq te s x =
     (case x of (te', s', ph, evs) \<Rightarrow>
        keeps_records K s s' \<and> lands rq te te' ph \<and>
        (\<forall>rq' e. phase_execution ph = Some (rq', e) \<longrightarrow> rq' = rq) \<and>
        (\<forall>rq' k preflight. Called rq' k preflight \<in> set evs \<longrightarrow>
           rq' = rq \<and> rq_plan rq \<in> te_consumedPlans te' \<and> (\<exists>e. record_at k s' = Some e \<and> ex_status e = Submission_started)))"

lemma send_stretch:
  assumes "begin_and_send p ad j preflight rq e rr te s = x" shows "stretch_ok {} rq te s x"
proof -
  obtain te' s' ph evs where x: "x = (te', s', ph, evs)" by (cases x)
  show ?thesis using send_segment[of p ad j preflight rq e rr te s te' s' ph evs] assms
    by (auto simp: stretch_ok_def called_well_def x)
qed

lemma release_stretch:
  assumes "releaseAndThrow p env j rq e err te s = x" shows "stretch_ok {} rq te s x"
proof -
  obtain te' s' ph evs where x: "x = (te', s', ph, evs)" by (cases x)
  show ?thesis using release_segment[of p env j rq e err te s te' s' ph evs] assms by (auto simp: stretch_ok_def x)
qed

lemma stretch_after:
  assumes "keeps_records K s s1" "stretch_ok {} rq te s1 x" shows "stretch_ok K rq te s x"
proof -
  obtain te' s' ph evs where x: "x = (te', s', ph, evs)" by (cases x)
  have "keeps_records K s1 s'" using assms(2) keeps_records_mono[of "{}" s1 s' K] by (simp add: stretch_ok_def x)
  from keeps_records_trans[OF assms(1) this] show ?thesis using assms(2) unfolding stretch_ok_def x prod.case by blast
qed

lemma stretch_mono: "stretch_ok {} rq te s x \<Longrightarrow> stretch_ok K rq te s x"
  by (rule stretch_after[OF keeps_records_refl])

lemma land_stretch: "stretch_ok K rq te s (leave_flight (rq_plan rq) te, s, Finished r, [])"
  by (auto simp: stretch_ok_def lands_def leave_flight_def)

lemma wait_stretch:
  "stretch_ok K rq te s (te, s, Prompting rq e rr cf n, [])"
  "stretch_ok K rq te s (te, s, Rechecking rq e rr cf n, [Confirmed plan cf'])"
  by (auto simp: stretch_ok_def lands_def)

lemma after_revalidation_stretch:
  "stretch_ok {je_uuid (ad_prepare ad)} rq te s (after_revalidation p pow10 rv ad j rq te s)"
proof (cases "revalidatePreparedPlan pow10 te rq rv")
  case (Inr r)
  obtain preflight account where r: "r = (preflight, account)" by force
  show ?thesis
  proof (cases "reserve_submission p (ad_prepare ad) j rq preflight account te s")
    case (Inr q)
    obtain e s1 where q: "q = (e, s1)" by force
    have k: "keeps_records {je_uuid (ad_prepare ad)} s s1" using reserve_segment(1) Inr q by blast
    have "stretch_ok {} rq te s1 (after_revalidation p pow10 rv ad j rq te s)"
      using \<open>revalidatePreparedPlan pow10 te rq rv = Inr r\<close> r Inr q
      by (auto simp: after_revalidation_def Let_def intro: land_stretch wait_stretch release_stretch send_stretch split: sum.splits)
    with k show ?thesis by (rule stretch_after)
  qed (simp add: after_revalidation_def Let_def \<open>revalidatePreparedPlan pow10 te rq rv = Inr r\<close> r land_stretch)
qed (simp add: after_revalidation_def Let_def land_stretch)

lemma after_prompt_stretch: "stretch_ok {} rq te s (after_prompt p env answer j rq e rr cf n te s)"
  by (auto simp: after_prompt_def intro: wait_stretch release_stretch split: confirm_answer.splits)

lemma after_recheck_stretch: "stretch_ok {} rq te s (after_recheck p pow10 rv ad j rq e rr cf n te s)"
  by (auto simp: after_recheck_def intro: wait_stretch release_stretch send_stretch split: sum.splits prod.splits)

text \<open>Which execution a waiting submission holds.\<close>

lemma release_execution: "releaseAndThrow p env j rq e err te s = (te', s', ph, evs) \<Longrightarrow> phase_execution ph = None \<and> evs = []"
  by (drule release_segment) simp

lemma send_execution:
  "begin_and_send p ad j preflight rq e rr te s = (te', s', ph, evs) \<Longrightarrow>
     (phase_execution ph = None \<or> phase_execution ph = Some (rq, e)) \<and> (evs = [] \<or> evs = [Called rq (ex_id e) preflight])"
  by (drule send_segment) auto

lemma after_prompt_execution:
  assumes "after_prompt p env answer j rq e rr cf n te s = (te', s', ph, evs)"
  shows "phase_execution ph = None \<or> phase_execution ph = Some (rq, e)" "Called rq' k preflight \<notin> set evs"
    "ph = Rechecking rq' e' rr' cf' n' \<Longrightarrow> Confirmed (rq_plan rq') cf' \<in> set evs"
  using assms release_execution
  by (fastforce simp: after_prompt_def split: confirm_answer.splits if_splits)+

lemma after_recheck_execution:
  assumes "after_recheck p pow10 rv ad j rq e rr cf n te s = (te', s', ph, evs)"
  shows "phase_execution ph = None \<or> phase_execution ph = Some (rq, e)"
    "evs = [] \<or> (\<exists>preflight. evs = [Called rq (ex_id e) preflight] \<and>
       \<not> confirmationSnapshotChanged (cf_evidence cf) (cf_warnings cf) preflight)"
    "ph \<noteq> Rechecking rq' e' rr' cf' n'"
  using assms release_segment send_segment
  by (fastforce simp: after_recheck_def split: sum.splits prod.splits if_splits)+

lemma after_revalidation_execution:
  assumes "after_revalidation p pow10 rv ad j rq te s = (te', s', ph, evs)"
  shows "phase_execution ph = Some (rq', e) \<Longrightarrow>
      ex_id e = je_uuid (ad_prepare ad) \<and> (\<forall>e'. record_at (ex_id e) s' = Some e' \<longrightarrow> ex_intent e' = rq_intent rq)"
    "evs = [] \<or> (\<exists>preflight. evs = [Called rq (je_uuid (ad_prepare ad)) preflight] \<and>
       (te_mode te = Live \<longrightarrow> sp_allowUnconfirmedLive (rq_policy rq) = Some True) \<and>
       (\<forall>e'. record_at (je_uuid (ad_prepare ad)) s' = Some e' \<longrightarrow> ex_intent e' = rq_intent rq))"
    "ph \<noteq> Rechecking rq' e' rr' cf' n'"
proof -
  have "(\<forall>rq' e. phase_execution ph = Some (rq', e) \<longrightarrow>
      ex_id e = je_uuid (ad_prepare ad) \<and> (\<forall>e'. record_at (ex_id e) s' = Some e' \<longrightarrow> ex_intent e' = rq_intent rq)) \<and>
    (evs = [] \<or> (\<exists>preflight. evs = [Called rq (je_uuid (ad_prepare ad)) preflight] \<and>
       (te_mode te = Live \<longrightarrow> sp_allowUnconfirmedLive (rq_policy rq) = Some True) \<and>
       (\<forall>e'. record_at (je_uuid (ad_prepare ad)) s' = Some e' \<longrightarrow> ex_intent e' = rq_intent rq))) \<and>
    (\<forall>rq' e' rr' cf' n'. ph \<noteq> Rechecking rq' e' rr' cf' n')"
  proof (cases "\<exists>preflight account e s1. revalidatePreparedPlan pow10 te rq rv = Inr (preflight, account) \<and>
      reserve_submission p (ad_prepare ad) j rq preflight account te s = Inr (e, s1)")
    case False
    then show ?thesis using assms by (auto simp: after_revalidation_def Let_def split: sum.splits prod.splits)
  next
    case True
    then obtain preflight account e s1 where r: "revalidatePreparedPlan pow10 te rq rv = Inr (preflight, account)"
      and q: "reserve_submission p (ad_prepare ad) j rq preflight account te s = Inr (e, s1)" by blast
    note f = reserve_segment[OF q]
    have i: "\<forall>e'. record_at (je_uuid (ad_prepare ad)) s' = Some e' \<longrightarrow> ex_intent e' = rq_intent rq" if k: "keeps_records {} s1 s'"
    proof (intro allI impI)
      fix e' assume "record_at (je_uuid (ad_prepare ad)) s' = Some e'"
      then obtain e0 where "record_at (je_uuid (ad_prepare ad)) s1 = Some e0" "evolves e0 e'" using keeps_recordsD[OF k] by blast
      then show "ex_intent e' = rq_intent rq" using f(3,4) evolves_intent by simp
    qed
    consider err where "te' = leave_flight (rq_plan rq) te" "s' = s1" "ph = Finished (Inl err)" "evs = []"
      | rr where "te' = te" "s' = s1" "ph = Prompting rq e rr (toPreparedPlanConfirmation preflight False) 1" "evs = []"
      | "releaseAndThrow p (ad_release ad) j rq e Confirmation_required te s1 = (te', s', ph, evs)"
      | rr where "begin_and_send p ad j preflight rq e rr te s1 = (te', s', ph, evs)"
          "te_mode te = Live \<longrightarrow> sp_allowUnconfirmedLive (rq_policy rq) = Some True"
      using assms r q by (fastforce simp: after_revalidation_def Let_def split: sum.splits if_splits)
    then show ?thesis
    proof cases
      case 1 then show ?thesis by simp
    next
      case 2 then show ?thesis using f(2,3,4) by auto
    next
      case 3 then show ?thesis using release_segment[OF 3] by auto
    next
      case 4
      from send_segment[OF 4(1)] have "keeps_records {} s1 s'" by simp
      from i[OF this] send_segment[OF 4(1)] 4(2) f(2) show ?thesis by auto
    qed
  qed
  then show "phase_execution ph = Some (rq', e) \<Longrightarrow>
      ex_id e = je_uuid (ad_prepare ad) \<and> (\<forall>e'. record_at (ex_id e) s' = Some e' \<longrightarrow> ex_intent e' = rq_intent rq)"
    "evs = [] \<or> (\<exists>preflight. evs = [Called rq (je_uuid (ad_prepare ad)) preflight] \<and>
       (te_mode te = Live \<longrightarrow> sp_allowUnconfirmedLive (rq_policy rq) = Some True) \<and>
       (\<forall>e'. record_at (je_uuid (ad_prepare ad)) s' = Some e' \<longrightarrow> ex_intent e' = rq_intent rq))"
    "ph \<noteq> Rechecking rq' e' rr' cf' n'" by blast+
qed


section \<open>Invariant of an engine\<close>

definition plans_ok :: "trading_engine \<Rightarrow> (nat \<Rightarrow> submission_phase option) \<Rightarrow> bool" where
  "plans_ok te tasks \<longleftrightarrow>
     (\<forall>t ph rq. tasks t = Some ph \<longrightarrow> pre_send ph = Some rq \<longrightarrow>
        rq_plan rq \<in> te_inFlightPlans te \<and> rq_plan rq \<notin> te_consumedPlans te \<and>
        (\<forall>t' ph' rq'. tasks t' = Some ph' \<longrightarrow> pre_send ph' = Some rq' \<longrightarrow> rq_plan rq' = rq_plan rq \<longrightarrow> t' = t))"

definition called_ok :: "string set \<Rightarrow> execution_risk_state \<Rightarrow> trading_engine \<Rightarrow> engine_event list \<Rightarrow> bool" where
  "called_ok ids s te evs \<longleftrightarrow>
     (\<forall>rq k preflight. Called rq k preflight \<in> set evs \<longrightarrow>
        rq_plan rq \<in> te_consumedPlans te \<and> k \<in> ids \<and> (\<forall>e. record_at k s = Some e \<longrightarrow> ex_status e \<noteq> Prepared))"

definition held_ok :: "string set \<Rightarrow> execution_risk_state \<Rightarrow> submission_phase \<Rightarrow> bool" where
  "held_ok ids s ph \<longleftrightarrow>
     (\<forall>rq e. phase_execution ph = Some (rq, e) \<longrightarrow>
        ex_id e \<in> ids \<and> (\<forall>e'. record_at (ex_id e) s = Some e' \<longrightarrow> ex_intent e' = rq_intent rq))"

definition ids_ok :: "string set \<Rightarrow> execution_risk_state \<Rightarrow> bool" where
  "ids_ok ids s \<longleftrightarrow> (\<forall>k. record_at k s \<noteq> None \<longrightarrow> k \<in> ids)"

definition confirmed_ok :: "engine_event list \<Rightarrow> submission_phase \<Rightarrow> bool" where
  "confirmed_ok evs ph \<longleftrightarrow>
     (\<forall>rq e rr cf n. ph = Rechecking rq e rr cf n \<longrightarrow> Confirmed (rq_plan rq) cf \<in> set evs)"

definition engine_inv :: "engine_world \<Rightarrow> bool" where
  "engine_inv w \<longleftrightarrow>
     plans_ok (w_engine w) (w_tasks w) \<and> called_ok (w_ids w) (w_store w) (w_engine w) (w_trace w) \<and> ids_ok (w_ids w) (w_store w) \<and>
     (\<forall>t ph. w_tasks w t = Some ph \<longrightarrow> held_ok (w_ids w) (w_store w) ph \<and> confirmed_ok (w_trace w) ph)"

lemma engine_invD:
  assumes "engine_inv w"
  shows "plans_ok (w_engine w) (w_tasks w)" "called_ok (w_ids w) (w_store w) (w_engine w) (w_trace w)" "ids_ok (w_ids w) (w_store w)"
    "w_tasks w t = Some ph \<Longrightarrow> held_ok (w_ids w) (w_store w) ph" "w_tasks w t = Some ph \<Longrightarrow> confirmed_ok (w_trace w) ph"
  using assms by (auto simp: engine_inv_def)

text \<open>The store moves, fresh identifiers \<open>K\<close> appear.\<close>

lemma called_ok_moves:
  assumes "called_ok ids s te evs" "keeps_records K s s'" "K \<inter> ids = {}" "te_consumedPlans te \<subseteq> te_consumedPlans te'"
  shows "called_ok (ids \<union> K) s' te' evs"
  unfolding called_ok_def
proof (intro allI impI)
  fix rq k preflight assume "Called rq k preflight \<in> set evs"
  then have c: "rq_plan rq \<in> te_consumedPlans te" "k \<in> ids" "\<forall>e. record_at k s = Some e \<longrightarrow> ex_status e \<noteq> Prepared"
    using assms(1) by (auto simp: called_ok_def)
  then have k: "k \<notin> K" using assms(3) by blast
  have "ex_status e \<noteq> Prepared" if "record_at k s' = Some e" for e
    using keeps_recordsD[OF assms(2) k that] c(3) evolves_status by metis
  then show "rq_plan rq \<in> te_consumedPlans te' \<and> k \<in> ids \<union> K \<and> (\<forall>e. record_at k s' = Some e \<longrightarrow> ex_status e \<noteq> Prepared)"
    using c assms(4) by blast
qed

lemma held_ok_moves:
  assumes "held_ok ids s ph" "keeps_records K s s'" "K \<inter> ids = {}" shows "held_ok (ids \<union> K) s' ph"
  unfolding held_ok_def
proof (intro allI impI)
  fix rq e assume "phase_execution ph = Some (rq, e)"
  then have h: "ex_id e \<in> ids" "\<forall>e'. record_at (ex_id e) s = Some e' \<longrightarrow> ex_intent e' = rq_intent rq"
    using assms(1) by (auto simp: held_ok_def)
  then have k: "ex_id e \<notin> K" using assms(3) by blast
  have "ex_intent e' = rq_intent rq" if "record_at (ex_id e) s' = Some e'" for e'
    using keeps_recordsD[OF assms(2) k that] h(2) evolves_intent by metis
  then show "ex_id e \<in> ids \<union> K \<and> (\<forall>e'. record_at (ex_id e) s' = Some e' \<longrightarrow> ex_intent e' = rq_intent rq)" using h by blast
qed

lemma ids_ok_moves:
  assumes "ids_ok ids s" "keeps_records K s s'" shows "ids_ok (ids \<union> K) s'"
  unfolding ids_ok_def
proof (intro allI impI)
  fix k assume "record_at k s' \<noteq> None"
  then obtain e where "record_at k s' = Some e" by blast
  then have "record_at k s \<noteq> None \<or> k \<in> K" using keeps_recordsD[OF assms(2)] by (metis option.distinct(1))
  then show "k \<in> ids \<union> K" using assms(1) by (auto simp: ids_ok_def)
qed

lemma store_moves_inv:
  assumes "engine_inv w" "keeps_records K (w_store w) s" "K \<inter> w_ids w = {}"
  shows "engine_inv (w\<lparr>w_store := s, w_ids := w_ids w \<union> K\<rparr>)"
  unfolding engine_inv_def
  using called_ok_moves[OF engine_invD(2)[OF assms(1)] assms(2,3) order_refl] engine_invD(1)[OF assms(1)]
    ids_ok_moves[OF engine_invD(3)[OF assms(1)] assms(2)] held_ok_moves[OF engine_invD(4)[OF assms(1)] assms(2,3)]
    engine_invD(5)[OF assms(1)]
  by simp

lemma engine_moves_inv:
  assumes "engine_inv w" "te_inFlightPlans te = te_inFlightPlans (w_engine w)" "te_consumedPlans te = te_consumedPlans (w_engine w)"
  shows "engine_inv (w\<lparr>w_engine := te\<rparr>)"
  using assms by (simp add: engine_inv_def plans_ok_def called_ok_def)

lemma confirmed_ok_append: "confirmed_ok evs ph \<Longrightarrow> confirmed_ok (evs @ evs') ph"
  by (fastforce simp: confirmed_ok_def)

text \<open>A submission starts.\<close>

lemma start_inv:
  assumes "engine_inv w" "submit_start aborted rq (w_engine w) s = Inr te" "w_tasks w t = None"
  shows "engine_inv (advance t (te, w_store w, Revalidating rq, []) {} w)"
proof -
  have te: "te = (w_engine w)\<lparr>te_inFlightPlans := insert (rq_plan rq) (te_inFlightPlans (w_engine w))\<rparr>"
    "rq_plan rq \<notin> te_consumedPlans (w_engine w)" "rq_plan rq \<notin> te_inFlightPlans (w_engine w)"
    using assms(2) by (auto simp: submit_start_def result_simps)
  have "plans_ok te ((w_tasks w)(t \<mapsto> Revalidating rq))"
    unfolding plans_ok_def
  proof (intro allI impI)
    fix t1 ph1 rq1 assume 1: "((w_tasks w)(t \<mapsto> Revalidating rq)) t1 = Some ph1" "pre_send ph1 = Some rq1"
    have o: "rq_plan rq' \<in> te_inFlightPlans (w_engine w)" "rq_plan rq' \<notin> te_consumedPlans (w_engine w)"
      "\<And>t2 ph2 rq2. w_tasks w t2 = Some ph2 \<Longrightarrow> pre_send ph2 = Some rq2 \<Longrightarrow> rq_plan rq2 = rq_plan rq' \<Longrightarrow> t2 = t'"
      if "w_tasks w t' = Some ph'" "pre_send ph' = Some rq'" for t' ph' rq'
      using engine_invD(1)[OF assms(1)] that unfolding plans_ok_def by blast+
    show "rq_plan rq1 \<in> te_inFlightPlans te \<and> rq_plan rq1 \<notin> te_consumedPlans te \<and>
      (\<forall>t' ph' rq'. ((w_tasks w)(t \<mapsto> Revalidating rq)) t' = Some ph' \<longrightarrow> pre_send ph' = Some rq' \<longrightarrow> rq_plan rq' = rq_plan rq1 \<longrightarrow> t' = t1)"
    proof (cases "t1 = t")
      case True
      then have "rq1 = rq" using 1 by auto
      then show ?thesis using te True by (auto split: if_splits dest: o(1))
    next
      case False
      then have t1: "w_tasks w t1 = Some ph1" using 1 by simp
      show ?thesis using te o[OF t1 1(2)] by (auto split: if_splits)
    qed
  qed
  moreover have "held_ok (w_ids w) (w_store w) (Revalidating rq)" "confirmed_ok (w_trace w) (Revalidating rq)"
    by (simp_all add: held_ok_def confirmed_ok_def)
  ultimately show ?thesis
    using assms(1) te(1) by (simp add: engine_inv_def called_ok_def)
qed

text \<open>A submission that has not been sent moves on.\<close>

lemma plans_ok_lands:
  assumes "plans_ok te tasks" "tasks t = Some ph0" "pre_send ph0 = Some rq" "lands rq te te' ph"
  shows "plans_ok te' (tasks(t \<mapsto> ph))"
proof (cases "pre_send ph")
  case (Some rq')
  then have "rq' = rq" "te' = te" using assms(4) by (simp_all add: lands_def)
  then show ?thesis using assms(1-3) Some unfolding plans_ok_def by (simp split: if_splits) metis
next
  case None
  then have l: "te_inFlightPlans te' = te_inFlightPlans te - {rq_plan rq}"
    "te_consumedPlans te' \<subseteq> insert (rq_plan rq) (te_consumedPlans te)" using assms(4) by (simp_all add: lands_def)
  show ?thesis
    unfolding plans_ok_def
  proof (intro allI impI)
    fix t1 ph1 rq1 assume 1: "(tasks(t \<mapsto> ph)) t1 = Some ph1" "pre_send ph1 = Some rq1"
    have n: "t1 \<noteq> t" using 1 None by auto
    then have t1: "tasks t1 = Some ph1" using 1 by simp
    have p: "rq_plan rq1 \<noteq> rq_plan rq" using assms(1) t1 1(2) assms(2,3) n unfolding plans_ok_def by metis
    have o: "rq_plan rq1 \<in> te_inFlightPlans te" "rq_plan rq1 \<notin> te_consumedPlans te"
      "\<And>t' ph' rq'. tasks t' = Some ph' \<Longrightarrow> pre_send ph' = Some rq' \<Longrightarrow> rq_plan rq' = rq_plan rq1 \<Longrightarrow> t' = t1"
      using assms(1) t1 1(2) unfolding plans_ok_def by blast+
    show "rq_plan rq1 \<in> te_inFlightPlans te' \<and> rq_plan rq1 \<notin> te_consumedPlans te' \<and>
      (\<forall>t' ph' rq'. (tasks(t \<mapsto> ph)) t' = Some ph' \<longrightarrow> pre_send ph' = Some rq' \<longrightarrow> rq_plan rq' = rq_plan rq1 \<longrightarrow> t' = t1)"
      using o l p None by (auto split: if_splits)
  qed
qed

lemma stretch_inv:
  assumes "engine_inv w" "w_tasks w t = Some ph0" "pre_send ph0 = Some rq" "stretch_ok K rq (w_engine w) (w_store w) (te, s, ph, evs)"
    "K \<inter> w_ids w = {}" "held_ok (w_ids w \<union> K) s ph" "confirmed_ok (w_trace w @ evs) ph"
  shows "engine_inv (advance t (te, s, ph, evs) K w)"
proof -
  have st: "keeps_records K (w_store w) s" "lands rq (w_engine w) te ph"
    "\<And>rq' k preflight. Called rq' k preflight \<in> set evs \<Longrightarrow>
       rq' = rq \<and> rq_plan rq \<in> te_consumedPlans te \<and> (\<exists>e. record_at k s = Some e \<and> ex_status e = Submission_started)"
    using assms(4) unfolding stretch_ok_def prod.case by blast+
  have sub: "te_consumedPlans (w_engine w) \<subseteq> te_consumedPlans te" using st(2) by (auto simp: lands_def split: option.splits)
  have i: "ids_ok (w_ids w \<union> K) s" by (rule ids_ok_moves[OF engine_invD(3)[OF assms(1)] st(1)])
  have "called_ok (w_ids w \<union> K) s te (w_trace w)" by (rule called_ok_moves[OF engine_invD(2)[OF assms(1)] st(1) assms(5) sub])
  moreover have "called_ok (w_ids w \<union> K) s te evs"
    unfolding called_ok_def
  proof (intro allI impI)
    fix rq' k preflight assume "Called rq' k preflight \<in> set evs"
    from st(3)[OF this] obtain e where "rq' = rq" "rq_plan rq \<in> te_consumedPlans te" "record_at k s = Some e" "ex_status e = Submission_started"
      by blast
    then show "rq_plan rq' \<in> te_consumedPlans te \<and> k \<in> w_ids w \<union> K \<and> (\<forall>e. record_at k s = Some e \<longrightarrow> ex_status e \<noteq> Prepared)"
      using i by (auto simp: ids_ok_def)
  qed
  ultimately have "called_ok (w_ids w \<union> K) s te (w_trace w @ evs)" unfolding called_ok_def set_append by blast
  then show ?thesis
    using plans_ok_lands[OF engine_invD(1)[OF assms(1)] assms(2,3) st(2)] i assms(6,7)
      held_ok_moves[OF engine_invD(4)[OF assms(1)] st(1) assms(5)] confirmed_ok_append[OF engine_invD(5)[OF assms(1)]]
    by (simp add: engine_inv_def)
qed

text \<open>A submission that was sent ends.\<close>

lemma sent_inv:
  assumes "engine_inv w" "w_tasks w t = Some ph0" "pre_send ph0 = None" "keeps_records {} (w_store w) s" "phase_execution ph = None" "pre_send ph = None"
  shows "engine_inv (advance t (w_engine w, s, ph, []) {} w)"
proof -
  have e: "engine_inv (w\<lparr>w_store := s\<rparr>)" using store_moves_inv[OF assms(1,4)] by simp
  have "plans_ok (w_engine w) ((w_tasks w)(t \<mapsto> ph))"
    using engine_invD(1)[OF assms(1)] assms(3,6) unfolding plans_ok_def by (simp split: if_splits)
  moreover have "held_ok ids s ph" "confirmed_ok evs ph" for ids evs
    using assms(5,6) by (auto simp: held_ok_def confirmed_ok_def)
  ultimately show ?thesis using e by (simp add: engine_inv_def)
qed


lemma place_start:
  "placeOrder p uuid aborted plan policy te s = Inr (te', rq) \<Longrightarrow> submit_start aborted rq te s = Inr te'"
  "placeOco p uuid aborted plan policy te s = Inr (te', rq) \<Longrightarrow> submit_start aborted rq te s = Inr te'"
  by (auto simp: placeOrder_def placeOco_def Let_def result_simps split: option.splits)

lemma preparation_keeps_plans:
  "engine_prepareOrder pow10 plan now x sd i te = Inr te' \<Longrightarrow>
     te_inFlightPlans te' = te_inFlightPlans te \<and> te_consumedPlans te' = te_consumedPlans te \<and> te_mode te' = te_mode te"
  "engine_prepareOcoOrder plan now x bi te = Inr te' \<Longrightarrow>
     te_inFlightPlans te' = te_inFlightPlans te \<and> te_consumedPlans te' = te_consumedPlans te \<and> te_mode te' = te_mode te"
  "engine_setConfig config te = (r, te') \<Longrightarrow>
     te_inFlightPlans te' = te_inFlightPlans te \<and> te_consumedPlans te' = te_consumedPlans te \<and> te_mode te' = te_mode te"
  by (auto simp: engine_prepareOrder_def engine_prepareOcoOrder_def engine_setConfig_def Let_def result_simps
      split: if_splits sum.splits)

text \<open>What a step does to the trace: nothing, a confirmation, or a call by the submission that moved.\<close>

lemma engine_step_inv:
  assumes "engine_step p pow10 w w'" "engine_inv w" shows "engine_inv w'"
  using assms(1)
proof (cases rule: engine_step.cases)
  case (order_prepared plan now exchange sd oi te)
  then show ?thesis using engine_moves_inv[OF assms(2)] preparation_keeps_plans(1) by simp
next
  case (oco_prepared plan now exchange bi te)
  then show ?thesis using engine_moves_inv[OF assms(2)] preparation_keeps_plans(2) by simp
next
  case (reconfigured config r te)
  then show ?thesis using engine_moves_inv[OF assms(2)] preparation_keeps_plans(3) by simp
next
  case retired
  then show ?thesis using engine_moves_inv[OF assms(2)] by simp
next
  case (order_placed uuid aborted plan policy te rq t)
  then show ?thesis using start_inv[OF assms(2) place_start(1)] by simp
next
  case (oco_placed uuid aborted plan policy te rq t)
  then show ?thesis using start_inv[OF assms(2) place_start(2)] by simp
next
  case (revalidated t rq j ad rv)
  obtain te s ph evs where x: "after_revalidation p pow10 rv ad j rq (w_engine w) (w_store w) = (te, s, ph, evs)" by (rule prod_cases4)
  note f = after_revalidation_execution[OF x]
  have "held_ok (w_ids w \<union> {je_uuid (ad_prepare ad)}) s ph" unfolding held_ok_def
  proof (intro allI impI)
    fix rq' e assume pe: "phase_execution ph = Some (rq', e)"
    have "rq' = rq" using after_revalidation_stretch[of ad rq "w_engine w" "w_store w" p pow10 rv j] pe unfolding x stretch_ok_def prod.case by blast
    then show "ex_id e \<in> w_ids w \<union> {je_uuid (ad_prepare ad)} \<and> (\<forall>e'. record_at (ex_id e) s = Some e' \<longrightarrow> ex_intent e' = rq_intent rq')"
      using f(1)[OF pe] by simp
  qed
  moreover have "confirmed_ok evs' ph" for evs' using f(3) unfolding confirmed_ok_def by blast
  ultimately show ?thesis
    using stretch_inv[OF assms(2) revalidated(2) _ after_revalidation_stretch[of ad rq "w_engine w" "w_store w" p pow10 rv j, unfolded x]] revalidated(1,4)
    by (simp add: x)
next
  case (prompted t rq e rr cf n j env answer)
  obtain te s ph evs where x: "after_prompt p env answer j rq e rr cf n (w_engine w) (w_store w) = (te, s, ph, evs)" by (rule prod_cases4)
  note f = after_prompt_execution[OF x]
  have "keeps_records {} (w_store w) s"
    using after_prompt_stretch[of rq "w_engine w" "w_store w" p env answer j e rr cf n] unfolding x stretch_ok_def prod.case by blast
  from held_ok_moves[OF engine_invD(4)[OF assms(2) prompted(2)] this] have "held_ok (w_ids w) s ph" using f(1) by (auto simp: held_ok_def)
  moreover have "confirmed_ok (w_trace w @ evs) ph" using f(3) by (auto simp: confirmed_ok_def)
  ultimately show ?thesis
    using stretch_inv[OF assms(2) prompted(2) _ after_prompt_stretch[of rq "w_engine w" "w_store w" p env answer j e rr cf n, unfolded x]] prompted(1)
    by (simp add: x)
next
  case (rechecked t rq e rr cf n j rv ad)
  obtain te s ph evs where x: "after_recheck p pow10 rv ad j rq e rr cf n (w_engine w) (w_store w) = (te, s, ph, evs)" by (rule prod_cases4)
  note f = after_recheck_execution[OF x]
  have "keeps_records {} (w_store w) s"
    using after_recheck_stretch[of rq "w_engine w" "w_store w" p pow10 rv ad j e rr cf n] unfolding x stretch_ok_def prod.case by blast
  from held_ok_moves[OF engine_invD(4)[OF assms(2) rechecked(2)] this] have "held_ok (w_ids w) s ph" using f(1) by (auto simp: held_ok_def)
  moreover have "confirmed_ok (w_trace w @ evs) ph" using f(3) unfolding confirmed_ok_def by blast
  ultimately show ?thesis
    using stretch_inv[OF assms(2) rechecked(2) _ after_recheck_stretch[of rq "w_engine w" "w_store w" p pow10 rv ad j e rr cf n, unfolded x]] rechecked(1)
    by (simp add: x)
next
  case (call_failed t rq e j env err)
  obtain te s ph evs where x: "submission_failed p env j rq e err (w_engine w) (w_store w) = (te, s, ph, evs)" by (rule prod_cases4)
  show ?thesis using sent_inv[OF assms(2) call_failed(2)] failed_segment[OF x] call_failed(1) x by simp
next
  case (call_answered t rq e j now env result)
  obtain te s ph evs where x: "submission_answered p pow10 now env j e result (w_engine w) (w_store w) = (te, s, ph, evs)" by (rule prod_cases4)
  show ?thesis using sent_inv[OF assms(2) call_answered(2)] answered_segment[OF x] call_answered(1) x by simp
next
  case (others_opened k c s)
  have "keeps_records {k} (w_store w) s" by (rule step_keeps_records[OF others_opened(2)]) (simp add: opens_only_def)
  from store_moves_inv[OF assms(2) this] show ?thesis using others_opened(1,3) by simp
next
  case (others_moved ev s)
  from store_moves_inv[OF assms(2) step_keeps_records[OF others_moved(2,3)]] show ?thesis using others_moved(1) by simp
next
  case (guards_moved states)
  from store_moves_inv[OF assms(2) guard_keeps_records, of "{}" states] show ?thesis using guards_moved by simp
qed

lemma engine_run_inv: "engine_run p pow10 w w' \<Longrightarrow> engine_inv w \<Longrightarrow> engine_inv w'"
  by (induction rule: engine_run.induct) (auto intro: engine_step_inv)

definition engine_start :: "engine_world \<Rightarrow> bool" where
  "engine_start w \<longleftrightarrow> w_tasks w = (\<lambda>_. None) \<and> w_trace w = [] \<and> te_consumedPlans (w_engine w) = {} \<and> te_inFlightPlans (w_engine w) = {} \<and>
     (\<forall>e \<in> set (journal_records (w_store w)). ex_id e \<in> w_ids w)"

lemma engine_start_inv: "engine_start w \<Longrightarrow> engine_inv w"
  by (auto simp: engine_start_def engine_inv_def plans_ok_def called_ok_def ids_ok_def record_at_def find_Some_iff)

text \<open>A call is made by a submission that has not been sent before, over the plan it holds.\<close>

lemma call_step:
  assumes "engine_step p pow10 w w'" "w_trace w' = w_trace w @ [Called rq k preflight]"
  obtains (direct) t where "w_tasks w t = Some (Revalidating rq)" "k \<notin> w_ids w"
      "te_mode (w_engine w) = Live \<longrightarrow> sp_allowUnconfirmedLive (rq_policy rq) = Some True"
      "\<exists>e. record_at k (w_store w') = Some e \<and> ex_status e = Submission_started \<and> ex_intent e = rq_intent rq"
  | (confirmed) t e rr cf n where "w_tasks w t = Some (Rechecking rq e rr cf n)" "k = ex_id e"
      "\<not> confirmationSnapshotChanged (cf_evidence cf) (cf_warnings cf) preflight"
      "\<exists>e0 e1. record_at k (w_store w) = Some e0 \<and> ex_status e0 = Prepared \<and> record_at k (w_store w') = Some e1 \<and>
         ex_status e1 = Submission_started \<and> ex_intent e1 = ex_intent e0"
  using assms(1)
proof (cases rule: engine_step.cases)
  case (revalidated t rq' j ad rv)
  obtain te s ph evs where x: "after_revalidation p pow10 rv ad j rq' (w_engine w) (w_store w) = (te, s, ph, evs)" by (rule prod_cases4)
  have e: "evs = [Called rq k preflight]" "w_store w' = s" using assms(2) revalidated(1) x by simp_all
  note f = after_revalidation_execution(2)[OF x, unfolded e(1), simplified]
  have "\<exists>e. record_at k s = Some e \<and> ex_status e = Submission_started"
    using after_revalidation_stretch[of ad rq' "w_engine w" "w_store w" p pow10 rv j] unfolding x e(1) stretch_ok_def prod.case by auto
  with f revalidated(2,4) e(2) show thesis by (intro direct) auto
next
  case (prompted t rq' e rr cf n j env answer)
  obtain te s ph evs where x: "after_prompt p env answer j rq' e rr cf n (w_engine w) (w_store w) = (te, s, ph, evs)" by (rule prod_cases4)
  then show thesis using after_prompt_execution(2)[OF x, of rq k preflight] assms(2) prompted(1) by simp
next
  case (rechecked t rq' e rr cf n j rv ad)
  obtain te s ph evs where x: "after_recheck p pow10 rv ad j rq' e rr cf n (w_engine w) (w_store w) = (te, s, ph, evs)" by (rule prod_cases4)
  have e: "evs = [Called rq k preflight]" "w_store w' = s" using assms(2) rechecked(1) x by simp_all
  then have "begin_and_send p ad j preflight rq' e rr (w_engine w) (w_store w) = (te, s, ph, evs)"
    using x release_segment send_segment by (fastforce simp: after_recheck_def split: sum.splits prod.splits if_splits)
  from send_segment[OF this] have "called_well rq te (w_store w) s k" "rq' = rq" "k = ex_id e" using e by auto
  then show thesis using after_recheck_execution(2)[OF x] rechecked(2) e by (intro confirmed) (auto simp: called_well_def)
next
  case (call_failed t rq' e j env err)
  obtain te s ph evs where x: "submission_failed p env j rq' e err (w_engine w) (w_store w) = (te, s, ph, evs)" by (rule prod_cases4)
  show thesis using failed_segment[OF x] assms(2) call_failed(1) x by simp
next
  case (call_answered t rq' e j now env result)
  obtain te s ph evs where x: "submission_answered p pow10 now env j e result (w_engine w) (w_store w) = (te, s, ph, evs)" by (rule prod_cases4)
  show thesis using answered_segment[OF x] assms(2) call_answered(1) x by simp
qed (use assms(2) in simp_all)


section \<open>The outcome of a call\<close>

lemma settle_unresolved:
  assumes "settle p env k out n st ev None j s = Inr (r, s')" "record_at k s = Some e" "isUnresolvedExecution e"
  shows "r" "journal_claims s' k = None"
proof -
  have "settle_step p env k out n st ev None s = Inr (r, s')" using assms(1) by (simp add: settle_def journal_transact_Inr)
  then show r: r using assms(2,3) by (auto simp: settle_step_def result_simps split: if_splits)
  then show "journal_claims s' k = None" using closed_step(2)[OF step_settle, of p env k out n st ev None j s s'] assms(1) by simp
qed

lemma unknown_unresolved:
  assumes "mark_unknown env k issue rq j s = Inr (u, s')" shows "journal_claims s' = journal_claims s"
proof -
  have "journal_step \<lparr>sha256 = id, stringify_intent = \<lambda>_ _. []\<rparr> Quiet s s'" using assms by (rule step_unknown)
  then show ?thesis using quiet_changeD(2) quiet_step_change by blast
qed

lemma journal_claims_Some: "journal_claims s k \<noteq> None \<longleftrightarrow> (\<exists>e. record_at k s = Some e \<and> isUnresolvedExecution e)"
  by (auto simp: journal_claims_def split: option.splits)

lemma failed_outcome:
  assumes "submission_failed p env j rq e err te s = (te', s', Finished outcome, evs)" "journal_claims s (ex_id e) \<noteq> None"
  shows "(\<exists>reason. outcome = Inl (Still_unresolved (ex_id e) reason)) \<and> journal_claims s' (ex_id e) \<noteq> None \<or>
    outcome = Inl (Submission_failed Submission_rejected) \<and> journal_claims s' (ex_id e) = None"
proof (cases "submission_unclear (rq_policy rq) err")
  case True
  then show ?thesis using assms unknown_unresolved
    by (auto simp: submission_failed_def split: sum.splits prod.splits)
next
  case False
  then have "err = Submission_rejected" by (simp add: submission_unclear_def)
  moreover obtain r where "record_at (ex_id e) s = Some r" "isUnresolvedExecution r" using assms(2) journal_claims_Some by blast
  ultimately show ?thesis using False assms settle_unresolved(2)[of p env "ex_id e" _ _ _ _ j s _ _ r]
    by (auto simp: submission_failed_def split: sum.splits prod.splits)
qed

lemma answered_outcome:
  assumes "submission_answered p pow10 now env j e result te s = (te', s', Finished outcome, evs)" "journal_claims s (ex_id e) \<noteq> None"
  shows "(\<exists>reason. outcome = Inl (Still_unresolved (ex_id e) reason)) \<and> journal_claims s' (ex_id e) \<noteq> None \<or>
    outcome = Inr (result, ex_id e) \<and> (\<exists>obs. executionEvidence pow10 now e result From_submission = Inr obs) \<and> journal_claims s' (ex_id e) = None"
proof -
  obtain r where "record_at (ex_id e) s = Some r" "isUnresolvedExecution r" using assms(2) journal_claims_Some by blast
  then show ?thesis using assms settle_unresolved(2)[of p env "ex_id e" _ _ _ _ j s _ _ r]
    by (auto simp: submission_answered_def Let_def split: sum.splits prod.splits)
qed

section \<open>Cancellation\<close>

definition verifiedReducingOrder :: "order \<Rightarrow> position \<Rightarrow> position_mode \<Rightarrow> bool" where
  "verifiedReducingOrder ord pos mode \<longleftrightarrow>
     ord_symbol ord = pos_symbol pos \<and> ord_side ord = reduceSide pos \<and>
     (CHR '':'' \<notin> set (ord_symbol ord) \<or>
      ((ord_reduceOnly ord = Some True \<or> ord_closePosition ord = Some True \<or> mode = Hedge) \<and>
       (mode \<noteq> Hedge \<or> ord_positionSide ord = pos_positionSide pos)))"

definition isProtectiveExit :: "order \<Rightarrow> position \<Rightarrow> position_mode \<Rightarrow> bool" where
  "isProtectiveExit ord pos mode \<longleftrightarrow> verifiedReducingOrder ord pos mode \<and> hasStopComponent (ord_type ord)"

text \<open>What a cancellation meets: the exchange's answers (none when a read fails), the account guard's answer (its refusal, or the revision to claim when
  account limits are configured), the outcome of that claim and the abort signal at its two checks.\<close>

record cancel_world =
  cw_aborted :: "bool \<times> bool"
  cw_openOrders :: "order list option"
  cw_lookup :: "order option"
  cw_orderList :: "order list option"
  cw_positions :: "position list option"
  cw_checkCancellation :: "unit + jsnum option"
  cw_claim :: "unit + string"

definition requireLiveOpenOrder :: "string \<Rightarrow> string \<Rightarrow> cancel_world \<Rightarrow> engine_error + order" where
  "requireLiveOpenOrder k symbol cw =
     (case cw_openOrders cw of
        None \<Rightarrow> Inl Exchange_read_failed
      | Some orders \<Rightarrow>
          (case find (\<lambda>ord. ord_id ord = k) orders of
             Some ord \<Rightarrow> Inr ord
           | None \<Rightarrow>
               (case cw_lookup cw of
                  Some ord \<Rightarrow> if ord_id ord = k \<and> ord_symbol ord = symbol \<and> ord_status ord = St_open then Inr ord
                            else Inl Open_identity_required
                | None \<Rightarrow> Inl Open_identity_required)))"

definition assertLiveCancellationKeepsProtection :: "trading_engine \<Rightarrow> order list \<Rightarrow> cancel_world \<Rightarrow> engine_error + unit" where
  "assertLiveCancellationKeepsProtection te orders cw =
     (case cw_positions cw of
        None \<Rightarrow> Inl Exchange_read_failed
      | Some positions \<Rightarrow>
          let protectedExits = filter (\<lambda>ord. list_ex (\<lambda>pos. isProtectiveExit ord pos (ec_positionMode (te_config te))) positions) orders
          in assert_js (protectedExits = []) (Removes_protection (map ord_id protectedExits)))"

text \<open>The claim the account guard takes before a cancellation, if it asked for one.\<close>

definition claim_cancellation :: "cancel_world \<Rightarrow> jsnum option \<Rightarrow> engine_error + string option" where
  "claim_cancellation cw revision =
     ebind (assert_js (\<not> snd (cw_aborted cw)) Operation_cancelled) (\<lambda>_.
     case revision of
       None \<Rightarrow> Inr None
     | Some _ \<Rightarrow> (case cw_claim cw of Inl _ \<Rightarrow> Inl Account_refused | Inr m \<Rightarrow> Inr (Some m)))"

definition guard_cancellation :: "cancel_world \<Rightarrow> engine_error + jsnum option" where
  "guard_cancellation cw = (case cw_checkCancellation cw of Inl _ \<Rightarrow> Inl Account_refused | Inr r \<Rightarrow> Inr r)"

text \<open>Up to the exchange call: the identifiers it cancels and the guard's mutation to finish afterwards.\<close>

definition cancelOrder ::
  "journal_platform \<Rightarrow> string \<Rightarrow> string \<Rightarrow> cancel_world \<Rightarrow> trading_engine \<Rightarrow> execution_risk_state \<Rightarrow> engine_error + string \<times> string option" where
  "cancelOrder p k symbol cw te s =
     ebind (assert_js (\<not> fst (cw_aborted cw)) Operation_cancelled) (\<lambda>_.
     ebind (if te_mode te = Live
            then ebind (guard_state p te s) (\<lambda>a.
                 if a = None
                 then ebind (requireLiveOpenOrder k symbol cw) (\<lambda>ord. assertLiveCancellationKeepsProtection te [ord] cw)
                 else Inr ())
            else Inr ()) (\<lambda>_.
     ebind (guard_cancellation cw) (\<lambda>revision.
     ebind (claim_cancellation cw revision) (\<lambda>mutation. Inr (k, mutation)))))"

definition cancelOrderList ::
  "journal_platform \<Rightarrow> string \<Rightarrow> cancel_world \<Rightarrow> trading_engine \<Rightarrow> execution_risk_state \<Rightarrow> engine_error + string \<times> string option" where
  "cancelOrderList p listId cw te s =
     ebind (assert_js (\<not> fst (cw_aborted cw)) Operation_cancelled) (\<lambda>_.
     ebind (guard_state p te s) (\<lambda>a.
     ebind (if a \<noteq> None then
              (case cw_orderList cw of
                 None \<Rightarrow> Inl Exchange_read_failed
               | Some _ \<Rightarrow> ebind (guard_cancellation cw) (claim_cancellation cw))
            else if te_mode te = Live then
              (case cw_orderList cw of
                 None \<Rightarrow> Inl Exchange_read_failed
               | Some orders \<Rightarrow>
                   ebind (assert_js (orders \<noteq> []) Open_identity_required) (\<lambda>_.
                   ebind (assertLiveCancellationKeepsProtection te orders cw) (\<lambda>_. Inr None)))
            else Inr None) (\<lambda>mutation. Inr (listId, mutation))))"

section \<open>Properties\<close>

text \<open>C18. Whatever the interleaving of an engine's submissions with each other, with other processes on the same store and with the account
  guards: a call of the exchange is the first for its plan and the first for its execution; at that moment the
  journal holds the execution as started, with exactly the intent that is sent; and a live order is sent only after the user confirmed
  it, on evidence that has not changed since, unless the caller asked for unconfirmed live orders.\<close>

theorem exchange_call_is_single_and_recorded:
  assumes "engine_start w0" "engine_run p pow10 w0 w" "engine_step p pow10 w w'" "w_trace w' = w_trace w @ [Called rq k preflight]"
  shows "(\<forall>rq' k' preflight'. Called rq' k' preflight' \<in> set (w_trace w) \<longrightarrow> rq_plan rq' \<noteq> rq_plan rq \<and> k' \<noteq> k) \<and>
    (\<exists>e. record_at k (w_store w') = Some e \<and> ex_status e = Submission_started \<and> ex_intent e = rq_intent rq) \<and>
    (te_mode (w_engine w) = Live \<longrightarrow> sp_allowUnconfirmedLive (rq_policy rq) = Some True \<or>
       (\<exists>cf. Confirmed (rq_plan rq) cf \<in> set (w_trace w) \<and>
             \<not> confirmationSnapshotChanged (cf_evidence cf) (cf_warnings cf) preflight))"
proof -
  have inv: "engine_inv w" by (rule engine_run_inv[OF assms(2) engine_start_inv[OF assms(1)]])
  have fresh: "rq_plan rq' \<noteq> rq_plan rq" if "Called rq' k' preflight' \<in> set (w_trace w)" "w_tasks w t = Some ph" "pre_send ph = Some rq"
    for rq' k' preflight' t ph
    using engine_invD(1,2)[OF inv] that unfolding plans_ok_def called_ok_def by metis
  from assms(3,4) show ?thesis
  proof (cases rule: call_step)
    case (direct t)
    have "k' \<noteq> k" if "Called rq' k' preflight' \<in> set (w_trace w)" for rq' k' preflight'
      using engine_invD(2)[OF inv] that direct(2) unfolding called_ok_def by metis
    then show ?thesis using fresh[OF _ direct(1)] direct(3,4) by auto
  next
    case (confirmed t e rr cf n)
    obtain e0 e1 where r: "record_at k (w_store w) = Some e0" "ex_status e0 = Prepared" "record_at k (w_store w') = Some e1"
      "ex_status e1 = Submission_started" "ex_intent e1 = ex_intent e0" using confirmed(4) by blast
    have "k' \<noteq> k" if "Called rq' k' preflight' \<in> set (w_trace w)" for rq' k' preflight'
      using engine_invD(2)[OF inv] that r(1,2) unfolding called_ok_def by metis
    moreover have "ex_intent e0 = rq_intent rq" using engine_invD(4)[OF inv confirmed(1)] r(1) confirmed(2) by (simp add: held_ok_def)
    moreover have "Confirmed (rq_plan rq) cf \<in> set (w_trace w)" using engine_invD(5)[OF inv confirmed(1)] by (simp add: confirmed_ok_def)
    ultimately show ?thesis using fresh[OF _ confirmed(1)] r confirmed(3) by auto
  qed
qed

text \<open>C19. A submission that was sent ends in one of three ways. It is still unresolved: then its execution stays unresolved in the store
  and no submission that adds exposure is admitted. It was refused by an error that proves the exchange never
  accepted it: then it is no longer unresolved. Or it was answered with orders the evidence rules accept: then it is
  settled.\<close>

theorem sent_submission_ends_settled_or_blocking:
  assumes "engine_step p pow10 w w'" "w_tasks w t = Some (Sent rq e)" "w_tasks w' t = Some (Finished outcome)"
    "journal_claims (w_store w) (ex_id e) \<noteq> None"
  shows "(\<exists>reason. outcome = Inl (Still_unresolved (ex_id e) reason)) \<and> journal_claims (w_store w') (ex_id e) \<noteq> None \<and>
      \<not> returns (prepare p env intent notional True opts j (w_store w')) \<or>
    outcome = Inl (Submission_failed Submission_rejected) \<and> journal_claims (w_store w') (ex_id e) = None \<or>
    (\<exists>result now obs. outcome = Inr (result, ex_id e) \<and> executionEvidence pow10 now e result From_submission = Inr obs \<and>
       journal_claims (w_store w') (ex_id e) = None)"
proof -
  have block: "\<not> returns (prepare p env intent notional True opts j (w_store w'))" if "journal_claims (w_store w') (ex_id e) \<noteq> None"
  proof -
    obtain r where r: "record_at (ex_id e) (w_store w') = Some r" "isUnresolvedExecution r" using \<open>journal_claims (w_store w') (ex_id e) \<noteq> None\<close> journal_claims_Some by blast
    have "r \<in> set (journal_records (w_store w'))" using r(1) by (auto simp: record_at_def find_Some_iff)
    then show ?thesis using unresolved_blocks_prepare r(2) by blast
  qed
  from assms(1) show ?thesis
  proof (cases rule: engine_step.cases)
    case (call_failed t' rq' e' j' env' err)
    obtain te s ph evs where x: "submission_failed p env' j' rq' e' err (w_engine w) (w_store w) = (te, s, ph, evs)" by (rule prod_cases4)
    have t: "t' = t" using assms(2,3) call_failed(1) x by (cases "t' = t") auto
    then have "ph = Finished outcome" "e' = e" "w_store w' = s" using assms(2,3) call_failed(1,2) x by auto
    then show ?thesis using failed_outcome[of p env' j' rq' e' err "w_engine w" "w_store w" te s outcome evs] x assms(4) block by auto
  next
    case (call_answered t' rq' e' j' now env' result)
    obtain te s ph evs where x: "submission_answered p pow10 now env' j' e' result (w_engine w) (w_store w) = (te, s, ph, evs)" by (rule prod_cases4)
    have t: "t' = t" using assms(2,3) call_answered(1) x by (cases "t' = t") auto
    then have "ph = Finished outcome" "e' = e" "w_store w' = s" using assms(2,3) call_answered(1,2) x by auto
    then show ?thesis
      using answered_outcome[of p pow10 now env' j' e' result "w_engine w" "w_store w" te s outcome evs] x assms(4) block by blast
  next
    case (revalidated t' rq' j ad rv)
    obtain te s ph evs where x: "after_revalidation p pow10 rv ad j rq' (w_engine w) (w_store w) = (te, s, ph, evs)" by (rule prod_cases4)
    then show ?thesis using assms(2,3) revalidated(1,2) by (cases "t' = t") auto
  next
    case (prompted t' rq' e' rr cf n j env answer)
    obtain te s ph evs where x: "after_prompt p env answer j rq' e' rr cf n (w_engine w) (w_store w) = (te, s, ph, evs)" by (rule prod_cases4)
    then show ?thesis using assms(2,3) prompted(1,2) by (cases "t' = t") auto
  next
    case (rechecked t' rq' e' rr cf n j rv ad)
    obtain te s ph evs where x: "after_recheck p pow10 rv ad j rq' e' rr cf n (w_engine w) (w_store w) = (te, s, ph, evs)" by (rule prod_cases4)
    then show ?thesis using assms(2,3) rechecked(1,2) by (cases "t' = t") auto
  qed (use assms(2,3) in \<open>auto split: if_splits\<close>)
qed

text \<open>A live cancellation that no account limit arbitrates reaches the exchange only for an order the exchange reported,
  and only if that order is not a stop exit of a position that is open: protection is never cancelled away.\<close>

theorem live_cancellation_keeps_protection:
  assumes "cancelOrder p k symbol cw te s = Inr r" "te_mode te = Live" "guard_state p te s = Inr None"
  shows "fst r = k \<and> (\<exists>ord positions. ord_id ord = k \<and>
    (\<exists>orders. cw_openOrders cw = Some orders \<and> (ord \<in> set orders \<or> cw_lookup cw = Some ord)) \<and>
    cw_positions cw = Some positions \<and> (\<forall>pos \<in> set positions. \<not> isProtectiveExit ord pos (ec_positionMode (te_config te))))"
proof -
  obtain ord where o: "requireLiveOpenOrder k symbol cw = Inr ord" and a: "assertLiveCancellationKeepsProtection te [ord] cw = Inr ()" and "fst r = k"
    using assms by (auto simp: cancelOrder_def result_simps)
  moreover have "ord_id ord = k \<and> (\<exists>orders. cw_openOrders cw = Some orders \<and> (ord \<in> set orders \<or> cw_lookup cw = Some ord))"
    using o by (auto simp: requireLiveOpenOrder_def find_Some_iff split: option.splits if_splits)
  moreover have "\<exists>positions. cw_positions cw = Some positions \<and> (\<forall>pos \<in> set positions. \<not> isProtectiveExit ord pos (ec_positionMode (te_config te)))"
    using a by (auto simp: assertLiveCancellationKeepsProtection_def Let_def result_simps list_ex_iff split: option.splits if_splits)
  ultimately show ?thesis by blast
qed


section \<open>Witnesses\<close>

definition demo_engine :: trading_engine where
  "demo_engine =
     \<lparr>te_config = \<lparr>ec_risk = demo_config, ec_positionMode = One_way\<rparr>, te_ledgerConfig = demo_config, te_mode = Paper,
      te_quoteCurrency = ''USDT'', te_replaces = False, te_journal = Some demo_journal, te_preparedOrders = [7 \<mapsto> demo_plan],
      te_preparedOcos = Map.empty, te_preparedAt = [7 \<mapsto> Fin 0], te_consumedPlans = {}, te_inFlightPlans = {},
      te_submissionsRetired = False\<rparr>"

definition demo_policy :: submission_policy where
  "demo_policy =
     \<lparr>sp_intentId = Some ''i1'', sp_reference = None, sp_validatesReference = False, sp_timeoutMs = None, sp_protectionStopPrice = None,
      sp_replacementIds = None, sp_confirms = False, sp_allowUnconfirmedLive = None, sp_submissionStatusUnknown = None\<rparr>"

definition demo_request :: submission_request where
  "demo_request =
     \<lparr>rq_plan = 7, rq_prepared = Plan_order demo_plan, rq_notional = Fin 100, rq_countTowardsDailyLimit = False,
      rq_preparedEvidence = demo_evidence, rq_intent = demo_intent, rq_policy = demo_policy\<rparr>"

definition demo_revalidation :: revalidation where
  "demo_revalidation =
     \<lparr>rv_aborted = (False, False, False), rv_now = (Fin 0, Fin 0), rv_view = demo_view, rv_snapshotOrders = None,
      rv_balances = pv_balances demo_view, rv_positions = Some [], rv_account = Inr None\<rparr>"

definition demo_admission :: admission where
  "demo_admission =
     \<lparr>ad_prepare = demo_journal_env ''x1'', ad_begin = demo_journal_env ''x1'', ad_release = demo_journal_env ''x1'',
      ad_outcome = demo_journal_env ''x1'', ad_aborted = False, ad_reference = Reference_ok\<rparr>"

definition demo_engine_start :: engine_world where
  "demo_engine_start = \<lparr>w_engine = demo_engine, w_store = demo_start, w_tasks = Map.empty, w_trace = [], w_ids = {}\<rparr>"

definition demo_placed :: engine_world where
  "demo_placed = advance 0 (demo_engine\<lparr>te_inFlightPlans := {7}\<rparr>, demo_start, Revalidating demo_request, []) {} demo_engine_start"

definition demo_sent :: engine_world where
  "demo_sent = advance 0 (after_revalidation demo_platform (\<lambda>x. x) demo_revalidation demo_admission demo_journal demo_request
     (demo_engine\<lparr>te_inFlightPlans := {7}\<rparr>) demo_start) {''x1''} demo_placed"

lemma demo_engine_fields [simp]:
  "te_preparedOrders demo_engine 7 = Some demo_plan" "te_journal demo_engine = Some demo_journal" "te_consumedPlans demo_engine = {}"
  "te_inFlightPlans demo_engine = {}" "te_mode demo_engine = Paper" "te_submissionsRetired demo_engine = False"
  "sp_replacementIds demo_policy = None" "sp_confirms demo_policy = False" "sp_timeoutMs demo_policy = None"
  "sp_validatesReference demo_policy = False" "rq_plan demo_request = 7" "rq_policy demo_request = demo_policy"
  "rq_countTowardsDailyLimit demo_request = False" "rq_intent demo_request = demo_intent"
  "pr_countTowardsDailyLimit demo_plan = False"
  by (simp_all add: demo_engine_def demo_policy_def demo_request_def demo_plan_def)

lemma js_mul_fl_ge0:
  assumes "0 \<le> x" "0 < y" shows "js_le (Fin 0) (js_mul (fl x) (Fin y))" "js_le (Fin 0) (js_mul (Fin y) (fl x))"
proof -
  consider "fl x = PInf" | z where "fl x = Fin z" "0 \<le> z" using fl_nonneg[OF assms(1)] by blast
  then have "js_le (Fin 0) (js_mul (fl x) (Fin y)) \<and> js_le (Fin 0) (js_mul (Fin y) (fl x))"
  proof cases
    case 1 then show ?thesis using assms(2) by (simp add: inf_of_def js_le_def)
  next
    case (2 z)
    then have "0 \<le> z * y" using assms(2) by simp
    from fl_nonneg[OF this] 2 show ?thesis by (auto simp: mult.commute js_le_def)
  qed
  then show "js_le (Fin 0) (js_mul (fl x) (Fin y))" "js_le (Fin 0) (js_mul (Fin y) (fl x))" by auto
qed

lemma demo_client_id: "cid_clientOrderId (executionClientIds demo_platform u (Some ''i1'')) = ''tiaaaaaaaaaaaaaaaaaaaaaaaaaaaaaa''"
  by (simp add: executionClientIds_def Let_def truthy_def demo_platform_def numeral_eq_Suc)

lemma demo_order_request: "order_request demo_platform u 7 demo_plan demo_policy = demo_request"
  using demo_client_id[of u]
  by (simp add: order_request_def demo_request_def demo_policy_def demo_plan_def demo_evidence_def demo_intent_def)

lemma demo_place_step: "engine_step demo_platform (\<lambda>x. x) demo_engine_start demo_placed"
proof -
  have "placeOrder demo_platform ''u'' False 7 demo_policy demo_engine demo_start = Inr (demo_engine\<lparr>te_inFlightPlans := {7}\<rparr>, demo_request)"
    by (simp add: placeOrder_def demo_order_request submit_start_def Let_def)
  then show ?thesis
    unfolding demo_placed_def
    using order_placed[of demo_platform "''u''" False 7 demo_policy demo_engine_start "demo_engine\<lparr>te_inFlightPlans := {7}\<rparr>" demo_request 0]
    by (simp add: demo_engine_start_def)
qed

lemma demo_revalidate:
  "revalidatePreparedPlan (\<lambda>x. x) (demo_engine\<lparr>te_inFlightPlans := {7}\<rparr>) demo_request demo_revalidation =
     Inr (\<lparr>pf_warnings = [], pf_evidence = demo_evidence\<rparr>, None)"
proof -
  let ?te = "demo_engine\<lparr>te_inFlightPlans := {7}\<rparr>"
  have fresh: "assertPreparedPlanFresh ?te 7 (Fin 0) = Inr ()"
    by (simp add: assertPreparedPlanFresh_def demo_engine_def js_sub_def PREPARED_PLAN_TTL_MS_def)
  have b: "replacement_balances None symbol demo_revalidation = pv_balances demo_view" for symbol
    by (simp add: replacement_balances_def demo_revalidation_def demo_view_def)
  have v: "demo_view\<lparr>pv_balances := pv_balances demo_view, pv_quoteCurrency := ''USDT'', pv_marketType := Spot\<rparr> = demo_view"
    by (simp add: demo_view_def)
  have "verifyReduction ?te (pr_input demo_plan) (pv_balances demo_view) (Some []) = Inr ()"
    by (simp add: verifyReduction_def demo_plan_def demo_view_def symbol_base_def balance_short_def js_sub_def js_max_def EPSILON_def no_shortfall)
  moreover have "te_quoteCurrency ?te = ''USDT''" "cfg_marketType (ec_risk (te_config ?te)) = Spot"
    by (simp_all add: demo_engine_def demo_config_def)
  ultimately have "preflightPreparedOrder (\<lambda>x. x) ?te demo_plan None demo_revalidation = Inr \<lparr>pf_warnings = [], pf_evidence = demo_evidence\<rparr>"
    using demo_preflight b v by (simp add: preflightPreparedOrder_def) (simp add: demo_revalidation_def)
  then show ?thesis
    using fresh by (simp add: revalidatePreparedPlan_def request_preflight_def demo_request_def demo_policy_def) (simp add: demo_revalidation_def)
qed

lemma demo_reserve_submission:
  "reserve_submission demo_platform (demo_journal_env ''x1'') demo_journal demo_request \<lparr>pf_warnings = [], pf_evidence = demo_evidence\<rparr> None
     (demo_engine\<lparr>te_inFlightPlans := {7}\<rparr>) demo_start = Inr (demo_entry Prepared 0, demo_prepared)"
proof -
  have "\<not> materiallyChangedPrice (Fin 100) (Fin 100) (Fin 0)" "\<not> materiallyChangedNotional (Fin 100) (Fin 100)" "futuresAmountsEqual (Fin 1) (Fin 1)"
    using js_mul_fl_ge0(2)[of "1/100" 100, THEN js_le_not_gt] js_mul_fl_ge0(1)[of "1/562949953421312" 1]
    by (simp_all add: materiallyChangedPrice_def materiallyChangedNotional_def futuresAmountsEqual_def js_sub_def js_max_def
        MAX_CONFIRMED_PRICE_DRIFT_RATIO_def EPSILON_def)
  then have "\<not> marketEvidenceChanged (rq_preparedEvidence demo_request) \<lparr>pf_warnings = [], pf_evidence = demo_evidence\<rparr>"
    by (simp add: marketEvidenceChanged_def demo_request_def demo_evidence_def)
  moreover have "\<lparr>po_intentId = sp_intentId demo_policy, po_reference = sp_reference demo_policy, po_riskRevision = None,
      po_protectionStopPrice = sp_protectionStopPrice demo_policy\<rparr> = demo_opts"
    by (simp add: demo_policy_def demo_opts_def)
  moreover have "claimed_notional demo_request preflight None = Fin 100" for preflight by (simp add: claimed_notional_def demo_request_def)
  ultimately show ?thesis using demo_prepare by (simp add: reserve_submission_def)
qed

lemma demo_send_step:
  "engine_step demo_platform (\<lambda>x. x) demo_placed demo_sent"
  "w_trace demo_sent = w_trace demo_placed @ [Called demo_request ''x1'' \<lparr>pf_warnings = [], pf_evidence = demo_evidence\<rparr>]"
  "w_store demo_sent = demo_started" "w_tasks demo_sent 0 = Some (Sent demo_request (demo_entry Prepared 0))"
  "te_journal (w_engine demo_sent) = Some demo_journal"
proof -
  let ?te = "demo_engine\<lparr>te_inFlightPlans := {7}\<rparr>"
  have p: "w_tasks demo_placed 0 = Some (Revalidating demo_request)" "w_engine demo_placed = ?te" "w_store demo_placed = demo_start" "w_ids demo_placed = {}"
    by (simp_all add: demo_placed_def demo_engine_start_def)
  have u: "je_uuid (ad_prepare demo_admission) = ''x1''" by (simp add: demo_admission_def)
  show "engine_step demo_platform (\<lambda>x. x) demo_placed demo_sent"
    using revalidated[OF p(1), of demo_journal demo_admission demo_platform "\<lambda>x. x" demo_revalidation] p u
    by (simp add: demo_sent_def)
  have g: "guard_state demo_platform ?te demo_prepared = Inr None"
    by (simp add: guard_state_def demo_prepared_def account_risk_of_def)
  have b: "begin_and_send demo_platform demo_admission demo_journal preflight demo_request (demo_entry Prepared 0) None ?te demo_prepared =
      (consume_plan 7 (leave_flight 7 ?te), demo_started, Sent demo_request (demo_entry Prepared 0), [Called demo_request ''x1'' preflight])" for preflight
    using demo_begin[of "''x1''"] by (simp add: begin_and_send_def admit_def demo_admission_def timeout_valid_def Let_def)
  have "after_revalidation demo_platform (\<lambda>x. x) demo_revalidation demo_admission demo_journal demo_request ?te demo_start =
      (consume_plan 7 (leave_flight 7 ?te), demo_started, Sent demo_request (demo_entry Prepared 0),
       [Called demo_request ''x1'' \<lparr>pf_warnings = [], pf_evidence = demo_evidence\<rparr>])"
    using demo_revalidate demo_reserve_submission g b by (simp add: after_revalidation_def Let_def demo_admission_def)
  then show "w_trace demo_sent = w_trace demo_placed @ [Called demo_request ''x1'' \<lparr>pf_warnings = [], pf_evidence = demo_evidence\<rparr>]"
    "w_store demo_sent = demo_started" "w_tasks demo_sent 0 = Some (Sent demo_request (demo_entry Prepared 0))"
    "te_journal (w_engine demo_sent) = Some demo_journal"
    by (simp_all add: demo_sent_def consume_plan_def leave_flight_def)
qed

lemma demo_engine_starts: "engine_start demo_engine_start"
  by (simp add: engine_start_def demo_engine_start_def journal_records_def demo_start_def)

theorem exchange_call_is_single_and_recorded_witness:
  "engine_step demo_platform (\<lambda>x. x) demo_placed demo_sent \<and>
   (\<exists>e. record_at ''x1'' (w_store demo_sent) = Some e \<and> ex_status e = Submission_started \<and> ex_intent e = demo_intent)"
  using exchange_call_is_single_and_recorded[OF demo_engine_starts engine_next[OF engine_idle demo_place_step] demo_send_step(1,2)]
    demo_send_step(1)
  by simp

theorem sent_submission_ends_settled_or_blocking_witness:
  "\<exists>w' reason. engine_step demo_platform (\<lambda>x. x) demo_sent w' \<and> w_tasks w' 0 = Some (Finished (Inl (Still_unresolved ''x1'' reason))) \<and>
     \<not> returns (prepare demo_platform (demo_journal_env ''x2'') demo_intent (Fin 100) True demo_opts demo_journal (w_store w'))"
proof -
  obtain te s ph evs where x: "submission_failed demo_platform (demo_journal_env ''x1'') demo_journal demo_request (demo_entry Prepared 0)
      Submission_status_unknown (w_engine demo_sent) (w_store demo_sent) = (te, s, ph, evs)" by (rule prod_cases4)
  define w' where "w' = advance 0 (te, s, ph, evs) {} demo_sent"
  have st: "engine_step demo_platform (\<lambda>x. x) demo_sent w'"
    using call_failed[OF demo_send_step(4,5), of demo_platform "\<lambda>x. x" "demo_journal_env ''x1''" Submission_status_unknown] x by (simp add: w'_def)
  have t: "w_tasks w' 0 = Some ph" by (simp add: w'_def)
  have "\<exists>reason. ph = Finished (Inl (Still_unresolved ''x1'' reason))"
    using x by (auto simp: submission_failed_def submission_unclear_def split: sum.splits prod.splits)
  then obtain reason where ph: "ph = Finished (Inl (Still_unresolved ''x1'' reason))" by blast
  have c: "journal_claims (w_store demo_sent) (ex_id (demo_entry Prepared 0)) \<noteq> None"
    using demo_started_record by (simp add: journal_claims_def demo_send_step(3) isUnresolvedExecution_def)
  from sent_submission_ends_settled_or_blocking[OF st demo_send_step(4) t[unfolded ph] c] st t ph show ?thesis by auto
qed

definition demo_long :: position where
  "demo_long = \<lparr>pos_symbol = ''BTC/USDT'', pos_asset = ''BTC'', pos_amount = Fin 1, pos_quoteValue = None, pos_valuationStatus = None,
     pos_valuationReason = None, pos_positionSide = None, pos_leverage = None, pos_marginType = None, pos_markPrice = None,
     pos_liquidationPrice = None, pos_margin = None, pos_avgEntryPrice = None, pos_unrealizedPnl = None, pos_unrealizedPnlPct = None,
     pos_costBasisStatus = None, pos_costBasisReason = None\<rparr>"

definition demo_cancel :: "order_type \<Rightarrow> cancel_world" where
  "demo_cancel t = \<lparr>cw_aborted = (False, False), cw_openOrders = Some [demo_canceled\<lparr>ord_type := t, ord_status := St_open\<rparr>], cw_lookup = None,
     cw_orderList = None, cw_positions = Some [demo_long], cw_checkCancellation = Inr None, cw_claim = Inl ()\<rparr>"

lemma demo_guard: "guard_state demo_platform (demo_engine\<lparr>te_mode := Live\<rparr>) demo_start = Inr None"
  by (simp add: guard_state_def demo_start_def account_risk_of_def)

lemma demo_cancel_limit:
  "cancelOrder demo_platform ''o1'' ''BTC/USDT'' (demo_cancel Limit) (demo_engine\<lparr>te_mode := Live\<rparr>) demo_start = Inr (''o1'', None)"
  by (simp add: cancelOrder_def demo_guard requireLiveOpenOrder_def assertLiveCancellationKeepsProtection_def guard_cancellation_def
      claim_cancellation_def demo_cancel_def demo_canceled_def isProtectiveExit_def hasStopComponent_def)

theorem live_cancellation_keeps_protection_witness:
  "cancelOrder demo_platform ''o1'' ''BTC/USDT'' (demo_cancel Limit) (demo_engine\<lparr>te_mode := Live\<rparr>) demo_start = Inr (''o1'', None) \<and>
   (\<exists>ord. ord_id ord = ''o1'' \<and> \<not> isProtectiveExit ord demo_long One_way)"
proof -
  have p: "cw_positions (demo_cancel Limit) = Some [demo_long]" "ec_positionMode (te_config (demo_engine\<lparr>te_mode := Live\<rparr>)) = One_way"
    by (simp_all add: demo_cancel_def demo_engine_def)
  show ?thesis
    using live_cancellation_keeps_protection[OF demo_cancel_limit _ demo_guard] demo_cancel_limit p by auto
qed


section \<open>Where the engine falls short\<close>

text \<open>An invalid submission timeout is noticed only after the journal has recorded the start: nothing is sent, yet the execution stays unresolved and
  blocks new exposure until it is recovered.\<close>

theorem invalid_timeout_blocks_without_a_call:
  assumes "begin_and_send p ad j preflight rq e rr te s = (te', s', ph, evs)" "admit p ad j rq e rr s = Inr r"
    "\<not> timeout_valid (sp_timeoutMs (rq_policy rq))"
  shows "evs = [] \<and> journal_claims s' (ex_id e) \<noteq> None"
proof -
  obtain e1 s1 where r: "r = (e1, s1)" by force
  obtain e0 e2 where x: "record_at (ex_id e) s1 = Some e2" "ex_status e2 = Submission_started"
    by (rule begin_records[OF admit_Inr[OF assms(2)[unfolded r]]])
  then have c: "journal_claims s1 (ex_id e) \<noteq> None" by (simp add: journal_claims_def isUnresolvedExecution_def)
  have f: "submission_failed p (ad_outcome ad) j rq e (Plain_error None) (consume_plan (rq_plan rq) (leave_flight (rq_plan rq) te)) s1 =
      (te', s', ph, evs)"
    using assms by (simp add: begin_and_send_def r Let_def)
  obtain outcome where "ph = Finished outcome" using f by (auto simp: submission_failed_def split: sum.splits prod.splits if_splits)
  then show ?thesis using failed_outcome[of p "ad_outcome ad" j rq e "Plain_error None" _ s1 te' s' outcome evs] failed_segment[OF f] f c
    by (auto simp: submission_failed_def submission_unclear_def unknown_unresolved split: sum.splits prod.splits)
qed

text \<open>A configuration the ledger rejects is nevertheless the engine's configuration afterwards.\<close>

theorem rejected_configuration_is_switched_to:
  "\<exists>config. fst (engine_setConfig config demo_engine) \<noteq> None \<and> te_config (snd (engine_setConfig config demo_engine)) = config \<and>
     te_ledgerConfig (snd (engine_setConfig config demo_engine)) = demo_config \<and> ec_risk config \<noteq> demo_config"
proof (rule exI[of _ "\<lparr>ec_risk = demo_config\<lparr>cfg_risk := (cfg_risk demo_config)\<lparr>maxOrderNotional := Fin 0\<rparr>\<rparr>, ec_positionMode = One_way\<rparr>"])
qed (simp add: engine_setConfig_def demo_engine_def demo_config_def Risk_Ledger.setConfig_def validateConfig_def Let_def
    currency_code_def is_upper_def positive_finite_def)

end
