(* ===== verification/Bytes.thy ===== *)
theory Bytes
  imports Prelude "HOL-Library.Word"
begin


text \<open>
  What the wire format of \<^verbatim>\<open>packages/protocol\<close> uses of the language: bytes of a \<^verbatim>\<open>Uint8Array\<close>, big-endian
  integers, the UTF-16 strings of JavaScript with \<^verbatim>\<open>TextEncoder\<close> and the strict \<^verbatim>\<open>TextDecoder\<close>, and the eight
  bytes \<^verbatim>\<open>DataView\<close> writes for a double.
\<close>

section \<open>Bytes and big-endian integers\<close>

type_synonym byte = "8 word"

text \<open>\<^verbatim>\<open>buffer[i] = value\<close> keeps the low eight bits.\<close>

definition byte_of :: "nat \<Rightarrow> byte" where
  "byte_of n = word_of_nat n"

lemma unat_byte_of: "unat (byte_of n) = n mod 256"
  by (simp add: byte_of_def unat_of_nat)

lemma byte_less: "unat (b :: byte) < 256"
  using unsigned_less[of b, where 'a = nat] by simp

lemma byte_of_unat [simp]: "byte_of (unat b) = b"
  by (simp add: byte_of_def)

definition uint16_bytes :: "nat \<Rightarrow> byte list" where
  "uint16_bytes n = [byte_of (n div 2 ^ 8), byte_of n]"

definition uint32_bytes :: "nat \<Rightarrow> byte list" where
  "uint32_bytes n = [byte_of (n div 2 ^ 24), byte_of (n div 2 ^ 16), byte_of (n div 2 ^ 8), byte_of n]"

fun uint16_of :: "byte list \<Rightarrow> nat" where
  "uint16_of [a, b] = unat a * 2 ^ 8 + unat b"
| "uint16_of _ = 0"

fun uint32_of :: "byte list \<Rightarrow> nat" where
  "uint32_of [a, b, c, d] = unat a * 2 ^ 24 + unat b * 2 ^ 16 + unat c * 2 ^ 8 + unat d"
| "uint32_of _ = 0"

lemma length_uint_bytes [simp]: "length (uint16_bytes n) = 2" "length (uint32_bytes n) = 4"
  by (simp_all add: uint16_bytes_def uint32_bytes_def)

lemma digits_256: "n = n div 256 * 256 + n mod (256 :: nat)"
  by simp

lemma uint16_roundtrip: "n < 2 ^ 16 \<Longrightarrow> uint16_of (uint16_bytes n) = n"
  by (simp add: uint16_bytes_def unat_byte_of)

lemma uint32_roundtrip:
  assumes "n < 2 ^ 32" shows "uint32_of (uint32_bytes n) = n"
proof -
  define a b c d where "a = n div 2 ^ 24 mod 256" and "b = n div 2 ^ 16 mod 256" and "c = n div 2 ^ 8 mod 256" and "d = n mod 256"
  have "n div 2 ^ 24 = a" using assms by (simp add: a_def)
  moreover have "n div 2 ^ 16 = n div 2 ^ 24 * 256 + b" using digits_256[of "n div 2 ^ 16"] by (simp add: b_def div_mult2_eq[symmetric])
  moreover have "n div 2 ^ 8 = n div 2 ^ 16 * 256 + c" using digits_256[of "n div 2 ^ 8"] by (simp add: c_def div_mult2_eq[symmetric])
  moreover have "n = n div 2 ^ 8 * 256 + d" using digits_256[of n] by (simp add: d_def)
  ultimately have "a * 2 ^ 24 + b * 2 ^ 16 + c * 2 ^ 8 + d = n" by simp
  then show ?thesis by (simp only: uint32_bytes_def uint32_of.simps unat_byte_of a_def b_def c_def d_def)
qed

lemma uint16_less: "length bs = 2 \<Longrightarrow> uint16_of bs < 2 ^ 16"
proof -
  assume "length bs = 2"
  then obtain a b where bs: "bs = [a, b]" by (auto simp: numeral_2_eq_2 length_Suc_conv)
  show ?thesis using byte_less[of a] byte_less[of b] by (simp add: bs)
qed

lemma uint32_less: "length bs = 4 \<Longrightarrow> uint32_of bs < 2 ^ 32"
proof -
  assume "length bs = 4"
  then obtain a b c d where bs: "bs = [a, b, c, d]" by (auto simp: numeral_eq_Suc length_Suc_conv)
  show ?thesis using byte_less[of a] byte_less[of b] byte_less[of c] byte_less[of d] by (simp add: bs)
qed

section \<open>Texts\<close>

text \<open>A string is a sequence of UTF-16 units. \<^verbatim>\<open>TextEncoder\<close> reads it as scalar values, a lone surrogate as
  U+FFFD, and writes UTF-8.\<close>

type_synonym utf16 = "16 word list"

definition high_surrogate :: "16 word \<Rightarrow> bool" where
  "high_surrogate u \<longleftrightarrow> 0xD800 \<le> unat u \<and> unat u < 0xDC00"

definition low_surrogate :: "16 word \<Rightarrow> bool" where
  "low_surrogate u \<longleftrightarrow> 0xDC00 \<le> unat u \<and> unat u < 0xE000"

fun utf16_scalars :: "utf16 \<Rightarrow> nat list" where
  "utf16_scalars [] = []"
| "utf16_scalars [u] = [if high_surrogate u \<or> low_surrogate u then 0xFFFD else unat u]"
| "utf16_scalars (u # v # us) =
     (if high_surrogate u \<and> low_surrogate v
      then (0x10000 + (unat u - 0xD800) * 0x400 + (unat v - 0xDC00)) # utf16_scalars us
      else (if high_surrogate u \<or> low_surrogate u then 0xFFFD else unat u) # utf16_scalars (v # us))"

definition utf8_char :: "nat \<Rightarrow> byte list" where
  "utf8_char c =
     (if c < 0x80 then [byte_of c]
      else if c < 0x800 then [byte_of (0xC0 + c div 64), byte_of (0x80 + c mod 64)]
      else if c < 0x10000 then [byte_of (0xE0 + c div 4096), byte_of (0x80 + c div 64 mod 64), byte_of (0x80 + c mod 64)]
      else [byte_of (0xF0 + c div 262144), byte_of (0x80 + c div 4096 mod 64), byte_of (0x80 + c div 64 mod 64),
            byte_of (0x80 + c mod 64)])"

definition text_encode :: "utf16 \<Rightarrow> byte list" where
  "text_encode s = concat (map utf8_char (utf16_scalars s))"

text \<open>The decoder with \<^verbatim>\<open>fatal: true\<close>: overlong forms, surrogates and values above U+10FFFF are errors; a byte-order mark is kept.\<close>

definition scalar_value :: "nat \<Rightarrow> bool" where
  "scalar_value c \<longleftrightarrow> c < 0xD800 \<or> 0xE000 \<le> c \<and> c < 0x110000"

definition continuation :: "byte \<Rightarrow> bool" where
  "continuation b \<longleftrightarrow> 0x80 \<le> unat b \<and> unat b < 0xC0"

fun utf8_scalars :: "byte list \<Rightarrow> nat list option" where
  "utf8_scalars [] = Some []"
| "utf8_scalars (a # bs) =
     (if unat a < 0x80 then map_option ((#) (unat a)) (utf8_scalars bs)
      else if 0xC2 \<le> unat a \<and> unat a < 0xE0 then
        (case bs of b # bs' \<Rightarrow>
           if continuation b then map_option ((#) ((unat a - 0xC0) * 64 + (unat b - 0x80))) (utf8_scalars bs') else None
         | _ \<Rightarrow> None)
      else if 0xE0 \<le> unat a \<and> unat a < 0xF0 then
        (case bs of b # c # bs' \<Rightarrow>
           let s = (unat a - 0xE0) * 4096 + (unat b - 0x80) * 64 + (unat c - 0x80)
           in if continuation b \<and> continuation c \<and> 0x800 \<le> s \<and> scalar_value s then map_option ((#) s) (utf8_scalars bs') else None
         | _ \<Rightarrow> None)
      else if 0xF0 \<le> unat a \<and> unat a < 0xF5 then
        (case bs of b # c # d # bs' \<Rightarrow>
           let s = (unat a - 0xF0) * 262144 + (unat b - 0x80) * 4096 + (unat c - 0x80) * 64 + (unat d - 0x80)
           in if continuation b \<and> continuation c \<and> continuation d \<and> 0x10000 \<le> s \<and> scalar_value s
              then map_option ((#) s) (utf8_scalars bs') else None
         | _ \<Rightarrow> None)
      else None)"

definition utf16_char :: "nat \<Rightarrow> utf16" where
  "utf16_char c =
     (if c < 0x10000 then [word_of_nat c]
      else [word_of_nat (0xD800 + (c - 0x10000) div 0x400), word_of_nat (0xDC00 + (c - 0x10000) mod 0x400)])"

definition text_decode :: "byte list \<Rightarrow> utf16 option" where
  "text_decode bs = map_option (\<lambda>cs. concat (map utf16_char cs)) (utf8_scalars bs)"


lemma utf8_bytes_less [simp]: "c < 0x80 \<Longrightarrow> unat (byte_of c) = c"
  by (simp add: unat_byte_of)

lemma utf8_char_decode:
  assumes "scalar_value c"
  shows "utf8_scalars (utf8_char c @ rest) = map_option ((#) c) (utf8_scalars rest)"
proof -
  have m: "c div 64 = c div 4096 * 64 + c div 64 mod 64" "c div 4096 = c div 262144 * 64 + c div 4096 mod 64" "c = c div 64 * 64 + c mod 64"
    using mult_div_mod_eq[of 64 "c div 64"] mult_div_mod_eq[of 64 "c div 4096"] by (simp_all add: div_mult2_eq[symmetric])
  consider "c < 0x80" | "0x80 \<le> c" "c < 0x800" | "0x800 \<le> c" "c < 0x10000" | "0x10000 \<le> c" "c < 0x110000"
    using assms by (fastforce simp: scalar_value_def)
  then show ?thesis
  proof cases
    case 1
    then show ?thesis by (simp add: utf8_char_def unat_byte_of)
  next
    case 2
    define q r where "q = c div 64" and "r = c mod 64"
    have c: "c = q * 64 + r" "r < 64" using m(3) by (simp_all add: q_def r_def)
    then have q: "2 \<le> q" "q < 32" using 2 by linarith+
    have "utf8_char c = [byte_of (0xC0 + q), byte_of (0x80 + r)]" using 2 by (simp add: utf8_char_def q_def r_def)
    then show ?thesis using c q by (simp add: unat_byte_of continuation_def)
  next
    case 3
    define q r t where "q = c div 4096" and "r = c div 64 mod 64" and "t = c mod 64"
    have c: "c = q * 4096 + r * 64 + t" "r < 64" "t < 64" unfolding q_def r_def t_def using m(1,3) by (linarith, simp_all)
    then have q: "q < 16" using 3 by linarith
    have "utf8_char c = [byte_of (0xE0 + q), byte_of (0x80 + r), byte_of (0x80 + t)]" using 3 by (simp add: utf8_char_def q_def r_def t_def)
    then show ?thesis using c(2,3) q 3 assms by (simp add: unat_byte_of continuation_def Let_def c(1)[symmetric])
  next
    case 4
    define q r t u where "q = c div 262144" and "r = c div 4096 mod 64" and "t = c div 64 mod 64" and "u = c mod 64"
    have c: "c = q * 262144 + r * 4096 + t * 64 + u" "r < 64" "t < 64" "u < 64"
      unfolding q_def r_def t_def u_def using m by (linarith, simp_all)
    then have q: "q < 5" using 4 by linarith
    have "utf8_char c = [byte_of (0xF0 + q), byte_of (0x80 + r), byte_of (0x80 + t), byte_of (0x80 + u)]"
      using 4 by (simp add: utf8_char_def q_def r_def t_def u_def)
    then show ?thesis using c(2,3,4) q 4 assms by (simp add: unat_byte_of continuation_def Let_def c(1)[symmetric])
  qed
qed

lemma utf8_decode_encode:
  assumes "list_all scalar_value cs" shows "utf8_scalars (concat (map utf8_char cs)) = Some cs"
  using assms by (induction cs) (auto simp: utf8_char_decode)

lemma digits_64: "y < 64 \<Longrightarrow> (x * 64 + y) div 64 = x" "y < 64 \<Longrightarrow> (x * 64 + y) mod 64 = (y :: nat)"
  by simp_all

lemma utf8_encode_decode:
  "utf8_scalars bs = Some cs \<Longrightarrow> concat (map utf8_char cs) = bs \<and> list_all scalar_value cs"
proof (induction bs arbitrary: cs rule: utf8_scalars.induct)
  case IH: (2 a bs)
  have a: "unat a < 256" by (rule byte_less)
  consider "unat a < 0x80" | "0xC2 \<le> unat a" "unat a < 0xE0" | "0xE0 \<le> unat a" "unat a < 0xF0" | "0xF0 \<le> unat a" "unat a < 0xF5"
    using IH(5) by (fastforce split: if_splits)
  then show ?case
  proof cases
    case 1
    then obtain cs' where "cs = unat a # cs'" "utf8_scalars bs = Some cs'" using IH(5) by auto
    then show ?thesis using IH(1)[OF 1, of cs'] 1 by (simp add: utf8_char_def scalar_value_def)
  next
    case 2
    then obtain b bs' cs' where b: "bs = b # bs'" "continuation b" "cs = ((unat a - 0xC0) * 64 + (unat b - 0x80)) # cs'" "utf8_scalars bs' = Some cs'"
      using IH(5) by (auto split: list.splits if_splits)
    define c where "c = (unat a - 0xC0) * 64 + (unat b - 0x80)"
    have y: "unat b - 0x80 < 64" using b(2) by (auto simp: continuation_def)
    have "c div 64 = unat a - 0xC0" "c mod 64 = unat b - 0x80" unfolding c_def by (rule digits_64[OF y])+
    moreover have c: "0x80 \<le> c" "c < 0x800" using 2 y unfolding c_def by linarith+
    ultimately have "utf8_char c = [a, b]" using 2 b(2) by (simp add: utf8_char_def continuation_def)
    then show ?thesis using IH(2)[OF _ _ b(1,2), of cs'] 2 b c(2) by (simp add: c_def[symmetric] scalar_value_def)
  next
    case 3
    define c where "c = (unat a - 0xE0) * 4096 + (unat (bs ! 0) - 0x80) * 64 + (unat (bs ! 1) - 0x80)"
    obtain b d bs' cs' where b: "bs = b # d # bs'" "continuation b" "continuation d" "cs = c # cs'" "utf8_scalars bs' = Some cs'"
      "0x800 \<le> c" "scalar_value c"
      using IH(5) 3 by (auto simp: c_def Let_def split: list.splits if_splits)
    have y: "unat b - 0x80 < 64" "unat d - 0x80 < 64" using b(2,3) by (auto simp: continuation_def)
    have "c = ((unat a - 0xE0) * 64 + (unat b - 0x80)) * 64 + (unat d - 0x80)" by (simp add: c_def b(1))
    then have 1: "c div 64 = (unat a - 0xE0) * 64 + (unat b - 0x80)" "c mod 64 = unat d - 0x80" by (simp_all only: digits_64[OF y(2)])
    then have "c div 64 mod 64 = unat b - 0x80" "c div 64 div 64 = unat a - 0xE0" by (simp_all only: digits_64[OF y(1)])
    then have 2: "c div 64 mod 64 = unat b - 0x80" "c div 4096 = unat a - 0xE0" by (simp_all add: div_mult2_eq[symmetric])
    have "c < 0x10000" using 3 y unfolding c_def b(1) by simp
    then have "utf8_char c = [a, b, d]" using 3 b(2,3,6) unfolding utf8_char_def continuation_def 1(2) 2 by simp
    then show ?thesis using IH(3)[OF _ _ _ b(1) refl, where cs = cs'] 3 b by (simp add: c_def)
  next
    case 4
    define c where "c = (unat a - 0xF0) * 262144 + (unat (bs ! 0) - 0x80) * 4096 + (unat (bs ! 1) - 0x80) * 64 + (unat (bs ! 2) - 0x80)"
    obtain b d e bs' cs' where b: "bs = b # d # e # bs'" "continuation b" "continuation d" "continuation e" "cs = c # cs'"
      "utf8_scalars bs' = Some cs'" "0x10000 \<le> c" "scalar_value c"
      using IH(5) 4 by (auto simp: c_def Let_def split: list.splits if_splits)
    have y: "unat b - 0x80 < 64" "unat d - 0x80 < 64" "unat e - 0x80 < 64" using b(2-4) by (auto simp: continuation_def)
    have "c = (((unat a - 0xF0) * 64 + (unat b - 0x80)) * 64 + (unat d - 0x80)) * 64 + (unat e - 0x80)" by (simp add: c_def b(1))
    then have 1: "c div 64 = ((unat a - 0xF0) * 64 + (unat b - 0x80)) * 64 + (unat d - 0x80)" "c mod 64 = unat e - 0x80"
      by (simp_all only: digits_64[OF y(3)])
    then have 2: "c div 64 mod 64 = unat d - 0x80" "c div 64 div 64 = (unat a - 0xF0) * 64 + (unat b - 0x80)"
      by (simp_all only: digits_64[OF y(2)])
    then have "c div 64 div 64 mod 64 = unat b - 0x80" "c div 64 div 64 div 64 = unat a - 0xF0" by (simp_all only: digits_64[OF y(1)])
    then have 3: "c div 4096 mod 64 = unat b - 0x80" "c div 262144 = unat a - 0xF0" by (simp_all add: div_mult2_eq[symmetric])
    have "utf8_char c = [a, b, d, e]" using 4 b(2-4,7) unfolding utf8_char_def continuation_def 1(2) 2(1) 3 by simp
    then show ?thesis using IH(4)[OF _ _ _ _ b(1) refl, where cs = cs'] 4 b by (simp add: c_def)
  qed
qed simp


lemma unat_unit_of: "n < 0x10000 \<Longrightarrow> unat (word_of_nat n :: 16 word) = n"
  by (simp add: unat_of_nat)

lemma utf16_scalars_plain:
  "\<not> high_surrogate u \<Longrightarrow> \<not> low_surrogate u \<Longrightarrow> utf16_scalars (u # us) = unat u # utf16_scalars us"
  by (cases us) simp_all

lemma utf16_char_scalars:
  assumes "scalar_value c" shows "utf16_scalars (utf16_char c @ us) = c # utf16_scalars us"
proof (cases "c < 0x10000")
  case True
  define u where "u = (word_of_nat c :: 16 word)"
  have u: "unat u = c" using True by (simp add: u_def unat_of_nat)
  have "\<not> high_surrogate u" "\<not> low_surrogate u" using assms by (auto simp: high_surrogate_def low_surrogate_def scalar_value_def u)
  then show ?thesis using True by (simp add: utf16_char_def u_def[symmetric] utf16_scalars_plain u)
next
  case False
  define q r where "q = (c - 0x10000) div 0x400" and "r = (c - 0x10000) mod 0x400"
  have c: "c = 0x10000 + q * 0x400 + r" "r < 0x400" using False mult_div_mod_eq[of "0x400" "c - 0x10000"] unfolding q_def r_def by (linarith, simp)
  have "q < 0x400" using assms False c unfolding scalar_value_def by linarith
  define u v where "u = (word_of_nat (0xD800 + q) :: 16 word)" and "v = (word_of_nat (0xDC00 + r) :: 16 word)"
  have u: "unat u = 0xD800 + q" "unat v = 0xDC00 + r" using \<open>q < 0x400\<close> c(2) unfolding u_def v_def by (intro unat_unit_of; linarith)+
  have "utf16_char c = [u, v]" using False by (simp add: utf16_char_def u_def v_def q_def r_def)
  moreover have "high_surrogate u" "low_surrogate v" using \<open>q < 0x400\<close> c(2) by (simp_all add: high_surrogate_def low_surrogate_def u)
  ultimately show ?thesis using c(1) by (simp add: u)
qed

lemma utf16_decode_encode:
  "list_all scalar_value cs \<Longrightarrow> utf16_scalars (concat (map utf16_char cs)) = cs"
  by (induction cs) (auto simp: utf16_char_scalars)

text \<open>The strict decoder loses nothing: the text it returns encodes to the bytes read.\<close>

lemma text_encode_decode: "text_decode bs = Some s \<Longrightarrow> text_encode s = bs"
  by (auto simp: text_decode_def text_encode_def dest!: utf8_encode_decode simp: utf16_decode_encode)

lemma text_decode_encode_decode: "text_decode bs = Some s \<Longrightarrow> text_decode (text_encode s) = Some s"
  by (simp add: text_encode_decode)

text \<open>Conversely a string without a lone surrogate survives.\<close>

fun well_formed_text :: "utf16 \<Rightarrow> bool" where
  "well_formed_text [] = True"
| "well_formed_text [u] = (\<not> high_surrogate u \<and> \<not> low_surrogate u)"
| "well_formed_text (u # v # us) =
     (if high_surrogate u \<and> low_surrogate v then well_formed_text us
      else \<not> high_surrogate u \<and> \<not> low_surrogate u \<and> well_formed_text (v # us))"

lemma unat_unit: "unat (u :: 16 word) < 0x10000"
  using unsigned_less[of u, where 'a = nat] by simp

lemma scalar_of_unit: "\<not> high_surrogate u \<Longrightarrow> \<not> low_surrogate u \<Longrightarrow> scalar_value (unat u)"
  using unat_unit[of u] by (auto simp: scalar_value_def high_surrogate_def low_surrogate_def)

lemma utf16_char_unit [simp]: "utf16_char (unat u) = [u]"
  using unat_unit[of u] by (simp add: utf16_char_def)

lemma utf16_char_pair:
  assumes "high_surrogate u" "low_surrogate v"
  shows "utf16_char (0x10000 + (unat u - 0xD800) * 0x400 + (unat v - 0xDC00)) = [u, v]"
    and "scalar_value (0x10000 + (unat u - 0xD800) * 0x400 + (unat v - 0xDC00))"
proof -
  define q r where "q = unat u - 0xD800" and "r = unat v - 0xDC00"
  have q: "unat u = 0xD800 + q" "unat v = 0xDC00 + r" "q < 0x400" "r < 0x400"
    using assms by (auto simp: high_surrogate_def low_surrogate_def q_def r_def)
  then have "word_of_nat (0xD800 + q) = u" "word_of_nat (0xDC00 + r) = v" by (metis of_nat_unat ucast_id)+
  then show "utf16_char (0x10000 + q * 0x400 + r) = [u, v]" "scalar_value (0x10000 + q * 0x400 + r)"
    using q(3,4) by (simp_all add: utf16_char_def scalar_value_def)
qed

lemma utf16_encode_decode:
  "well_formed_text s \<Longrightarrow> list_all scalar_value (utf16_scalars s) \<and> concat (map utf16_char (utf16_scalars s)) = s"
  by (induction s rule: well_formed_text.induct) (auto simp: utf16_char_pair scalar_of_unit split: if_splits)

lemma text_decode_encode: "well_formed_text s \<Longrightarrow> text_decode (text_encode s) = Some s"
  by (simp add: text_decode_def text_encode_def utf8_decode_encode utf16_encode_decode)


section \<open>Doubles\<close>

text \<open>A number with the sign of zero: the one place of the sources that looks at it is the wire format.\<close>

datatype float64 = Minus_zero | Double jsnum

text \<open>The 64 bits: the sign, the biased exponent and the fraction. For a finite value the last two are
  \<open>(e + 1074) * 2 ^ 52 + m\<close> where the magnitude is \<open>m * 2 powi e\<close>; the not-a-number written is the canonical one.\<close>

definition magnitude_bits :: "rat \<Rightarrow> nat" where
  "magnitude_bits x = (if x = 0 then 0 else nat (ulp_exp x + 1074) * 2 ^ 52 + nat \<lfloor>x / 2 powi ulp_exp x\<rfloor>)"

fun float64_bits :: "float64 \<Rightarrow> nat" where
  "float64_bits Minus_zero = 2 ^ 63"
| "float64_bits (Double NaN) = 2047 * 2 ^ 52 + 2 ^ 51"
| "float64_bits (Double PInf) = 2047 * 2 ^ 52"
| "float64_bits (Double NInf) = 2 ^ 63 + 2047 * 2 ^ 52"
| "float64_bits (Double (Fin x)) = (if x < 0 then 2 ^ 63 else 0) + magnitude_bits \<bar>x\<bar>"

definition float64_of_bits :: "nat \<Rightarrow> float64" where
  "float64_of_bits n =
     (let negative = (2 ^ 63 \<le> n); biased = n div 2 ^ 52 mod 2 ^ 11; fraction = n mod 2 ^ 52;
          m = (if biased = 0 then fraction else 2 ^ 52 + fraction); e = (if biased = 0 then - 1074 else int biased - 1075);
          x = of_nat m * 2 powi e
      in if biased = 2047 then Double (if fraction = 0 then inf_of (\<not> negative) else NaN)
         else if negative \<and> m = 0 then Minus_zero
         else Double (Fin (if negative then - x else x)))"

definition uint64_bytes :: "nat \<Rightarrow> byte list" where
  "uint64_bytes n = uint32_bytes (n div 2 ^ 32) @ uint32_bytes (n mod 2 ^ 32)"

definition uint64_of :: "byte list \<Rightarrow> nat" where
  "uint64_of bs = uint32_of (take 4 bs) * 2 ^ 32 + uint32_of (drop 4 bs)"

definition float64_bytes :: "float64 \<Rightarrow> byte list" where
  "float64_bytes x = uint64_bytes (float64_bits x)"

definition float64_of :: "byte list \<Rightarrow> float64" where
  "float64_of bs = float64_of_bits (uint64_of bs)"

lemma length_uint64_bytes [simp]: "length (uint64_bytes n) = 8"
  by (simp add: uint64_bytes_def)

lemma length_float64_bytes [simp]: "length (float64_bytes x) = 8"
  by (simp add: float64_bytes_def)

lemma uint64_roundtrip:
  assumes "n < 2 ^ 64" shows "uint64_of (uint64_bytes n) = n"
proof -
  have "n div 2 ^ 32 < 2 ^ 32" "n mod 2 ^ 32 < 2 ^ 32" using assms by (simp_all add: less_mult_imp_div_less)
  then have "uint64_of (uint64_bytes n) = n div 2 ^ 32 * 2 ^ 32 + n mod 2 ^ 32"
    by (simp only: uint64_of_def uint64_bytes_def uint32_roundtrip take_append drop_append length_uint_bytes) (simp add: uint32_roundtrip)
  then show ?thesis by simp
qed

text \<open>The mantissa of a positive double.\<close>

lemma double_mantissa:
  assumes "is_double x" "0 < x"
  obtains m where "x = of_nat m * 2 powi ulp_exp x" "nat \<lfloor>x / 2 powi ulp_exp x\<rfloor> = m" "m < 2 ^ 53"
    "-1074 \<le> ulp_exp x" "ulp_exp x \<le> 971" "ulp_exp x = -1074 \<or> 2 ^ 52 \<le> m" "0 < m"
proof -
  define e where "e = ulp_exp x"
  define n where "n = round_even (x / 2 powi e)"
  have v: "fl_val x = x" and lt: "x < 2 powi 1024"
    using assms by (auto simp: is_double_def fl_def Let_def split: if_splits)
  have x: "x = of_int n * 2 powi e" using v by (simp add: fl_val_def Let_def n_def e_def)
  moreover have "0 < (2::rat) powi e" by simp
  ultimately have n: "0 < n" using assms(2) by (metis of_int_0_less_iff zero_less_mult_pos2)
  have q: "x / 2 powi e = of_int n" by (subst x) simp
  define g where "g = floor_log2 x"
  have b: "2 powi g \<le> x" "x < 2 powi (g + 1)" using floor_log2_bounds[OF assms(2)] by (simp_all add: g_def)
  have e: "e = max (-1074) (g - 52)" using assms(2) by (simp add: e_def ulp_exp_def g_def)
  have "g < 1024" using floor_log2_less[OF assms(2) lt] by (simp add: g_def)
  have "(2::rat) powi (g + 1) \<le> 2 powi (e + 53)" using e by (intro power_int_increasing) auto
  then have "of_int n * (2::rat) powi e < 2 powi (e + 53)" using b(2) x by linarith
  then have "of_int n < (2::rat) powi 53" by (simp add: power_int_add)
  then have "of_int n < (of_int (2 ^ 53) :: rat)" by simp
  then have hi: "n < 2 ^ 53" by (simp only: of_int_less_iff)
  have lo: "2 ^ 52 \<le> n" if "e \<noteq> -1074"
  proof -
    have "2 powi (e + 52) \<le> of_int n * (2::rat) powi e" using b(1) e x that by (auto simp: max_def split: if_splits)
    then have "(2::rat) powi 52 \<le> of_int n" by (simp add: power_int_add)
    then have "of_int (2 ^ 52) \<le> (of_int n :: rat)" by simp
    then show ?thesis by (simp only: of_int_le_iff)
  qed
  show thesis
  proof (rule that[of "nat n"])
    show "x = of_nat (nat n) * 2 powi ulp_exp x" using x n by (simp add: e_def)
    show "nat \<lfloor>x / 2 powi ulp_exp x\<rfloor> = nat n" using q by (simp add: e_def)
    show "ulp_exp x = -1074 \<or> 2 ^ 52 \<le> nat n" using lo n by (cases "e = -1074") (auto simp: e_def le_nat_iff)
  qed (use n hi e \<open>g < 1024\<close> in \<open>auto simp: e_def\<close>)
qed

lemma digits_base: "f < d \<Longrightarrow> (q * d + f) div d = q" "f < d \<Longrightarrow> (q * d + f) mod d = (f :: nat)"
  by simp_all

lemma bits_digits:
  assumes "f < 2 ^ 52" "b < 2 ^ 11"
  shows "(s * 2 ^ 63 + (b * 2 ^ 52 + f)) div 2 ^ 52 mod 2 ^ 11 = b" "(s * 2 ^ 63 + (b * 2 ^ 52 + f)) mod 2 ^ 52 = f"
    "b * 2 ^ 52 + f < (2 ^ 63 :: nat)"
proof -
  have r: "s * 2 ^ 63 + (b * 2 ^ 52 + f) = (s * 2 ^ 11 + b) * 2 ^ 52 + f" by simp
  show "(s * 2 ^ 63 + (b * 2 ^ 52 + f)) div 2 ^ 52 mod 2 ^ 11 = b" "(s * 2 ^ 63 + (b * 2 ^ 52 + f)) mod 2 ^ 52 = f"
    unfolding r digits_base[OF assms(1)] digits_base[OF assms(2)] by simp_all
  have "b * 2 ^ 52 \<le> (2 ^ 11 - 1) * 2 ^ 52" using assms(2) by (intro mult_right_mono) auto
  then show "b * 2 ^ 52 + f < (2 ^ 63 :: nat)" using assms(1) by simp
qed

text \<open>What the bits of a finite value decode to, with the sign \<open>s\<close>.\<close>

lemma float64_of_bits_parts:
  assumes "f < 2 ^ 52" "b < 2047"
  shows "float64_of_bits ((if s then 2 ^ 63 else 0) + (b * 2 ^ 52 + f)) =
    (let m = (if b = 0 then f else 2 ^ 52 + f); x = of_nat m * 2 powi (if b = 0 then - 1074 else int b - 1075)
     in if s \<and> m = 0 then Minus_zero else Double (Fin (if s then - x else x)))"
proof -
  define n where "n = (if s then 2 ^ 63 else 0) + (b * 2 ^ 52 + f)"
  have "n = of_bool s * 2 ^ 63 + (b * 2 ^ 52 + f)" by (simp add: n_def)
  then have d: "n div 2 ^ 52 mod 2 ^ 11 = b" "n mod 2 ^ 52 = f" using bits_digits(1,2)[of f b "of_bool s"] assms by simp_all
  have "2 ^ 63 \<le> n \<longleftrightarrow> s" using bits_digits(3)[of f b] assms by (auto simp: n_def)
  then show ?thesis using assms(2) unfolding n_def[symmetric] float64_of_bits_def d by (simp add: Let_def)
qed

lemma magnitude_parts:
  assumes "is_double x" "0 \<le> x"
  obtains b f where "magnitude_bits x = b * 2 ^ 52 + f" "f < 2 ^ 52" "b < 2047"
    "x = of_nat (if b = 0 then f else 2 ^ 52 + f) * 2 powi (if b = 0 then - 1074 else int b - 1075)"
proof (cases "x = 0")
  case True
  then show ?thesis using that[of 0 0] by (simp add: magnitude_bits_def)
next
  case False
  then have "0 < x" using assms(2) by simp
  then obtain m where m: "x = of_nat m * 2 powi ulp_exp x" "nat \<lfloor>x / 2 powi ulp_exp x\<rfloor> = m" "m < 2 ^ 53"
    "-1074 \<le> ulp_exp x" "ulp_exp x \<le> 971" "ulp_exp x = -1074 \<or> 2 ^ 52 \<le> m" "0 < m"
    using double_mantissa[OF assms(1)] by metis
  have bits: "magnitude_bits x = nat (ulp_exp x + 1074) * 2 ^ 52 + m" using False m(2) by (simp add: magnitude_bits_def)
  show ?thesis
  proof (cases "m < 2 ^ 52")
    case True
    then have e: "ulp_exp x = -1074" using m(6) by simp
    then have "magnitude_bits x = 0 * 2 ^ 52 + m" using bits by (simp del: of_nat_numeral)
    moreover have "x = of_nat m * 2 powi - 1074" using m(1) by (simp only: e)
    ultimately show ?thesis using that[of 0 m] True by simp
  next
    case ge: False
    define b where "b = nat (ulp_exp x + 1075)"
    have b: "b = Suc (nat (ulp_exp x + 1074))" "b < 2047" "int b - 1075 = ulp_exp x" "b \<noteq> 0" using m(4,5) by (auto simp: b_def)
    define f where "f = m - 2 ^ 52"
    have f: "m = 2 ^ 52 + f" using ge by (simp add: f_def)
    show ?thesis
    proof (rule that[of b f])
      show "magnitude_bits x = b * 2 ^ 52 + f" unfolding bits b(1) f by simp
      show "f < 2 ^ 52" using m(3) unfolding f by simp
      show "x = of_nat (if b = 0 then f else 2 ^ 52 + f) * 2 powi (if b = 0 then - 1074 else int b - 1075)"
        unfolding if_not_P[OF b(4)] b(3) f[symmetric] by (rule m(1))
    qed (rule b(2))
  qed
qed

lemma float64_roundtrip:
  assumes "is_double x" shows "float64_of (float64_bytes (Double (Fin x))) = Double (Fin x)"
proof -
  have "is_double \<bar>x\<bar>" using assms fl_uminus[of x] by (auto simp: is_double_def abs_if)
  then obtain b f where bf: "magnitude_bits \<bar>x\<bar> = b * 2 ^ 52 + f" "f < 2 ^ 52" "b < 2047"
    "\<bar>x\<bar> = of_nat (if b = 0 then f else 2 ^ 52 + f) * 2 powi (if b = 0 then - 1074 else int b - 1075)"
    using magnitude_parts[of "\<bar>x\<bar>"] by auto
  define s where "s \<longleftrightarrow> x < 0"
  have bits: "float64_bits (Double (Fin x)) = (if s then 2 ^ 63 else 0) + (b * 2 ^ 52 + f)" by (simp add: s_def bf(1))
  have "float64_bits (Double (Fin x)) < 2 ^ 64" using bits_digits(3)[of f b] bf(2,3) unfolding bits by simp
  moreover have "(if b = 0 then f else 2 ^ 52 + f) = 0 \<longrightarrow> \<not> s" using bf(4) by (auto simp: s_def)
  ultimately show ?thesis
    using float64_of_bits_parts[OF bf(2,3), of s, folded bits]
    unfolding float64_of_def float64_bytes_def bf(4)[symmetric] Let_def
    by (auto simp: uint64_roundtrip s_def simp del: float64_bits.simps)
qed

lemma minus_zero_roundtrip: "float64_of (float64_bytes Minus_zero) = Minus_zero"
  using float64_of_bits_parts[of 0 0 True] by (simp add: float64_of_def float64_bytes_def uint64_roundtrip)

text \<open>Every finite number read is a double.\<close>

lemma float64_of_double: "float64_of bs = Double (Fin x) \<Longrightarrow> is_double x"
proof -
  assume a: "float64_of bs = Double (Fin x)"
  define n where "n = uint64_of bs"
  define b where "b = n div 2 ^ 52 mod 2 ^ 11"
  define f where "f = n mod 2 ^ 52"
  define m where "m = (if b = 0 then f else 2 ^ 52 + f)"
  define e where "e = (if b = 0 then - 1074 else int b - 1075)"
  have x: "b \<noteq> 2047" "x = of_nat m * 2 powi e \<or> x = - (of_nat m * 2 powi e)"
    using a unfolding float64_of_def n_def[symmetric] float64_of_bits_def Let_def b_def[symmetric] f_def[symmetric] m_def[symmetric] e_def[symmetric]
    by (auto simp: inf_of_def split: if_splits)
  have "b < 2 ^ 11" "f < 2 ^ 52" by (simp_all add: b_def f_def)
  then have m: "m < 2 ^ 53" and e: "-1074 \<le> e" "e \<le> 971" using x(1) by (auto simp: m_def e_def)
  have "of_nat m < (of_nat (2 ^ 53) :: rat)" using m by (simp only: of_nat_less_iff)
  then have "of_nat m * (2::rat) powi e < 2 powi 53 * 2 powi e" by simp
  also have "\<dots> = 2 powi (53 + e)" by (simp add: power_int_add)
  also have "\<dots> \<le> 2 powi 1024" using e(2) by (intro power_int_increasing) auto
  finally have "fl (of_nat m * 2 powi e) = Fin (of_nat m * 2 powi e)"
    using m e(1) by (intro fl_exact[where m = "int m" and k = e]) (auto simp: abs_mult)
  then show ?thesis using x(2) fl_uminus[of "of_nat m * 2 powi e"] by (auto simp: is_double_def)
qed

end
