(* ===== verification/Cbor.thy ===== *)
theory Cbor
  imports Bytes
begin


text \<open>
  The CBOR codec of \<^verbatim>\<open>packages/protocol/src/cbor\<close>: the limits (\<^verbatim>\<open>options.ts\<close>), the growing output buffer and the
  encoder (\<^verbatim>\<open>encoder.ts\<close>) and the strict decoder (\<^verbatim>\<open>decoder.ts\<close>).
\<close>

section \<open>Values\<close>

text \<open>A JavaScript value of type \<^verbatim>\<open>unknown\<close>, as a tree. An object has its prototype, whether it has an enumerable
  symbol key, and its own enumerable string keys in the order of \<^verbatim>\<open>Object.keys\<close>; \<open>V_hole\<close> is an absent index of an
  array and \<open>V_other\<close> a function, a symbol or a bigint. A tree has no cycles, so the \<^verbatim>\<open>ancestors\<close> set of the sources, which
  only detects them, has no counterpart.\<close>

datatype prototype = Object_prototype | Null_prototype | Other_prototype

datatype js_value =
    V_undefined | V_hole | V_null | V_bool bool | V_num float64 | V_text utf16 | V_bytes "byte list"
  | V_array "js_value list" | V_object prototype bool "(utf16 \<times> js_value) list" | V_other

definition V_int :: "int \<Rightarrow> js_value" where
  "V_int n = V_num (Double (Fin (of_int n)))"

text \<open>\<^verbatim>\<open>Object.keys\<close> lists the array indices first, in ascending order, and then the other keys in the order
  of their definition; \<open>define_property\<close> adds a new key to an object.\<close>

definition digit_unit :: "16 word \<Rightarrow> bool" where
  "digit_unit u \<longleftrightarrow> 48 \<le> unat u \<and> unat u \<le> 57"

definition array_index :: "utf16 \<Rightarrow> nat option" where
  "array_index k =
     (let n = foldl (\<lambda>n u. 10 * n + (unat u - 48)) 0 k
      in if k \<noteq> [] \<and> list_all digit_unit k \<and> (hd k \<noteq> 48 \<or> length k = 1) \<and> n < 2 ^ 32 - 1 then Some n else None)"

definition key_before :: "utf16 \<Rightarrow> utf16 \<Rightarrow> bool" where
  "key_before k l \<longleftrightarrow>
     (case (array_index k, array_index l) of
        (Some i, Some j) \<Rightarrow> i < j | (Some _, None) \<Rightarrow> True | (None, _) \<Rightarrow> False)"

fun define_property :: "(utf16 \<times> 'v) list \<Rightarrow> utf16 \<Rightarrow> 'v \<Rightarrow> (utf16 \<times> 'v) list" where
  "define_property [] k v = [(k, v)]"
| "define_property (e # es) k v = (if key_before k (fst e) then (k, v) # e # es else e # define_property es k v)"

section \<open>Limits\<close>

datatype cbor_error =
    Limit_out_of_range string | Byte_length_exceeded | Text_length_exceeded | Byte_string_length_exceeded
  | Array_length_exceeded | Map_length_exceeded | Depth_exceeded
  | Not_unicode | Not_finite | Unsafe_integer | Hole_or_undefined | Symbol_key | Unsupported_value
  | Trailing_data | Truncated | Invalid_utf8 | Key_not_string | Duplicate_key | Tag | Break_marker | Unsupported_simple
  | Indefinite_length | Malformed_additional | Never_returns

record cbor_options =
  maxByteLength_opt :: "jsnum option"
  maxContainerLength_opt :: "jsnum option"
  maxDepth_opt :: "jsnum option"

record resolved_options =
  maxByteLength :: nat
  maxContainerLength :: nat
  maxDepth :: nat

definition MAX_UINT32 :: nat where "MAX_UINT32 = 0xffffffff"

definition UINT32_BASE :: nat where "UINT32_BASE = 0x100000000"

definition MAX_CONFIGURED_DEPTH :: nat where "MAX_CONFIGURED_DEPTH = 512"

definition DEFAULT_MAX_CBOR_BYTE_LENGTH :: nat where "DEFAULT_MAX_CBOR_BYTE_LENGTH = 16 * 1024 * 1024"

definition DEFAULT_MAX_CBOR_CONTAINER_LENGTH :: nat where "DEFAULT_MAX_CBOR_CONTAINER_LENGTH = 1000000"

definition DEFAULT_MAX_CBOR_DEPTH :: nat where "DEFAULT_MAX_CBOR_DEPTH = 64"

definition nat_of_num :: "jsnum \<Rightarrow> nat" where
  "nat_of_num n = (case n of Fin x \<Rightarrow> nat \<lfloor>x\<rfloor> | _ \<Rightarrow> 0)"

definition resolveLimit :: "string \<Rightarrow> jsnum \<Rightarrow> nat \<Rightarrow> cbor_error + nat" where
  "resolveLimit name value maximum =
     (if \<not> is_safe_integer value \<or> js_lt value (Fin 0) \<or> js_gt value (Fin (of_nat maximum)) then Inl (Limit_out_of_range name)
      else Inr (nat_of_num value))"

definition or_default :: "jsnum option \<Rightarrow> nat \<Rightarrow> jsnum" where
  "or_default v d = (case v of Some n \<Rightarrow> n | None \<Rightarrow> Fin (of_nat d))"

definition resolveOptions :: "cbor_options option \<Rightarrow> cbor_error + resolved_options" where
  "resolveOptions options =
     (let field = (\<lambda>f. Option.bind options f)
      in ebind (resolveLimit ''maxByteLength'' (or_default (field maxByteLength_opt) DEFAULT_MAX_CBOR_BYTE_LENGTH) MAX_UINT32)
           (\<lambda>b. ebind (resolveLimit ''maxContainerLength'' (or_default (field maxContainerLength_opt) DEFAULT_MAX_CBOR_CONTAINER_LENGTH) MAX_UINT32)
           (\<lambda>c. ebind (resolveLimit ''maxDepth'' (or_default (field maxDepth_opt) DEFAULT_MAX_CBOR_DEPTH) MAX_CONFIGURED_DEPTH)
           (\<lambda>d. Inr \<lparr>maxByteLength = b, maxContainerLength = c, maxDepth = d\<rparr>))))"

section \<open>The output buffer\<close>

text \<open>\<^verbatim>\<open>CborWriter\<close>: the buffer, zero beyond the offset written so far. A loop that does not end is the error \<open>Never_returns\<close>.\<close>

record cbor_writer =
  buffer :: "byte list"
  woffset :: nat
  wmax :: nat

definition new_writer :: "nat \<Rightarrow> cbor_writer" where
  "new_writer limit = \<lparr>buffer = replicate (min 256 limit) 0, woffset = 0, wmax = limit\<rparr>"

partial_function (option) grow_capacity :: "nat \<Rightarrow> nat \<Rightarrow> nat \<Rightarrow> nat option" where
  "grow_capacity limit required capacity =
     (if capacity < required then grow_capacity limit required (min limit (max required (capacity * 2))) else Some capacity)"

definition ensureCapacity :: "nat \<Rightarrow> cbor_writer \<Rightarrow> cbor_error + cbor_writer" where
  "ensureCapacity additional w =
     (let required = woffset w + additional
      in if wmax w < required then Inl Byte_length_exceeded
         else if required \<le> length (buffer w) then Inr w
         else case grow_capacity (wmax w) required (max 1 (length (buffer w))) of
             None \<Rightarrow> Inl Never_returns
           | Some capacity \<Rightarrow> Inr (w\<lparr>buffer := buffer w @ replicate (capacity - length (buffer w)) 0\<rparr>))"

text \<open>\<^verbatim>\<open>buffer.set(bytes, offset)\<close>\<close>

definition set_bytes :: "byte list \<Rightarrow> nat \<Rightarrow> byte list \<Rightarrow> byte list" where
  "set_bytes buf offset bs = take offset buf @ bs @ drop (offset + length bs) buf"

definition writeBytes :: "byte list \<Rightarrow> cbor_writer \<Rightarrow> cbor_error + cbor_writer" where
  "writeBytes bs w =
     ebind (ensureCapacity (length bs) w) (\<lambda>w.
       Inr (w\<lparr>buffer := set_bytes (buffer w) (woffset w) bs, woffset := woffset w + length bs\<rparr>))"

definition writeByte :: "nat \<Rightarrow> cbor_writer \<Rightarrow> cbor_error + cbor_writer" where
  "writeByte value w =
     ebind (ensureCapacity 1 w) (\<lambda>w.
       Inr (w\<lparr>buffer := (buffer w)[woffset w := byte_of value], woffset := woffset w + 1\<rparr>))"

definition writeUint16 :: "nat \<Rightarrow> cbor_writer \<Rightarrow> cbor_error + cbor_writer" where
  "writeUint16 value w =
     ebind (ensureCapacity 2 w) (\<lambda>w.
       Inr (w\<lparr>buffer := (buffer w)[woffset w := byte_of (value div 2 ^ 8), woffset w + 1 := byte_of value],
              woffset := woffset w + 2\<rparr>))"

definition writeUint32 :: "nat \<Rightarrow> cbor_writer \<Rightarrow> cbor_error + cbor_writer" where
  "writeUint32 value w =
     ebind (ensureCapacity 4 w) (\<lambda>w.
       Inr (w\<lparr>buffer := (buffer w)[woffset w := byte_of (value div 2 ^ 24), woffset w + 1 := byte_of (value div 2 ^ 16),
                                    woffset w + 2 := byte_of (value div 2 ^ 8), woffset w + 3 := byte_of value],
              woffset := woffset w + 4\<rparr>))"

definition writeUint64 :: "nat \<Rightarrow> cbor_writer \<Rightarrow> cbor_error + cbor_writer" where
  "writeUint64 value w =
     (let high = value div UINT32_BASE; low = value - high * UINT32_BASE
      in ebind (writeUint32 high w) (writeUint32 low))"

definition writeFloat64 :: "float64 \<Rightarrow> cbor_writer \<Rightarrow> cbor_error + cbor_writer" where
  "writeFloat64 value w =
     ebind (ensureCapacity 9 w) (\<lambda>w.
       Inr (w\<lparr>buffer := set_bytes ((buffer w)[woffset w := 0xfb]) (woffset w + 1) (float64_bytes value),
              woffset := woffset w + 9\<rparr>))"

definition finish :: "cbor_writer \<Rightarrow> byte list" where
  "finish w = take (woffset w) (buffer w)"

section \<open>The encoder\<close>

definition writeArgument :: "nat \<Rightarrow> nat \<Rightarrow> cbor_writer \<Rightarrow> cbor_error + cbor_writer" where
  "writeArgument majorType value w =
     (let prefix = majorType * 2 ^ 5
      in if value < 24 then writeByte (prefix + value) w
         else if value \<le> 0xff then ebind (writeByte (prefix + 24) w) (writeByte value)
         else if value \<le> 0xffff then ebind (writeByte (prefix + 25) w) (writeUint16 value)
         else if value \<le> MAX_UINT32 then ebind (writeByte (prefix + 26) w) (writeUint32 value)
         else ebind (writeByte (prefix + 27) w) (writeUint64 value))"

definition encodeText :: "resolved_options \<Rightarrow> utf16 \<Rightarrow> cbor_writer \<Rightarrow> cbor_error + cbor_writer" where
  "encodeText opts value w =
     (let bytes = text_encode value
      in if maxByteLength opts < length bytes then Inl Text_length_exceeded
         else if text_decode bytes \<noteq> Some value then Inl Not_unicode
         else ebind (writeArgument 3 (length bytes) w) (writeBytes bytes))"

definition encodeNumber :: "float64 \<Rightarrow> cbor_writer \<Rightarrow> cbor_error + cbor_writer" where
  "encodeNumber value w =
     (case value of
        Minus_zero \<Rightarrow> writeFloat64 value w
      | Double n \<Rightarrow>
          if \<not> is_finite n then Inl Not_finite
          else if is_integer n then
            if \<not> is_safe_integer n then Inl Unsafe_integer
            else if js_ge n (Fin 0) then writeArgument 0 (nat_of_num n) w
            else writeArgument 1 (nat_of_num (js_sub (Fin (- 1)) n)) w
          else writeFloat64 value w)"

fun encodeValue :: "resolved_options \<Rightarrow> nat \<Rightarrow> js_value \<Rightarrow> cbor_writer \<Rightarrow> cbor_error + cbor_writer"
and encode_items :: "resolved_options \<Rightarrow> nat \<Rightarrow> js_value list \<Rightarrow> cbor_writer \<Rightarrow> cbor_error + cbor_writer"
and encode_entries :: "resolved_options \<Rightarrow> nat \<Rightarrow> (utf16 \<times> js_value) list \<Rightarrow> cbor_writer \<Rightarrow> cbor_error + cbor_writer" where
  "encodeValue opts depth value w =
     (if maxDepth opts < depth then Inl Depth_exceeded
      else case value of
          V_null \<Rightarrow> writeByte 0xf6 w
        | V_bool b \<Rightarrow> writeByte (if b then 0xf5 else 0xf4) w
        | V_num n \<Rightarrow> encodeNumber n w
        | V_text s \<Rightarrow> encodeText opts s w
        | V_bytes bs \<Rightarrow>
            if maxByteLength opts < length bs then Inl Byte_string_length_exceeded
            else ebind (writeArgument 2 (length bs) w) (writeBytes bs)
        | V_array vs \<Rightarrow>
            if maxContainerLength opts < length vs then Inl Array_length_exceeded
            else ebind (writeArgument 4 (length vs) w) (encode_items opts (depth + 1) vs)
        | V_object p symbols es \<Rightarrow>
            if p = Other_prototype then Inl Unsupported_value
            else if symbols then Inl Symbol_key
            else if maxContainerLength opts < length (filter (\<lambda>e. snd e \<noteq> V_undefined) es) then Inl Map_length_exceeded
            else ebind (writeArgument 5 (length (filter (\<lambda>e. snd e \<noteq> V_undefined) es)) w) (encode_entries opts (depth + 1) es)
        | _ \<Rightarrow> Inl Unsupported_value)"
| "encode_items opts depth [] w = Inr w"
| "encode_items opts depth (v # vs) w =
     (if v = V_hole \<or> v = V_undefined then Inl Hole_or_undefined
      else ebind (encodeValue opts depth v w) (encode_items opts depth vs))"
| "encode_entries opts depth [] w = Inr w"
| "encode_entries opts depth ((k, v) # es) w =
     (if v = V_undefined then encode_entries opts depth es w
      else ebind (encodeText opts k w) (\<lambda>w. ebind (encodeValue opts depth v w) (encode_entries opts depth es)))"

definition encodeCbor :: "js_value \<Rightarrow> cbor_options option \<Rightarrow> cbor_error + byte list" where
  "encodeCbor value options =
     ebind (resolveOptions options) (\<lambda>opts.
       ebind (encodeValue opts 0 value (new_writer (maxByteLength opts))) (\<lambda>w. Inr (finish w)))"

section \<open>The decoder\<close>

text \<open>\<^verbatim>\<open>CborReader\<close>: the bytes from the offset on are passed along.\<close>

definition readByte :: "byte list \<Rightarrow> cbor_error + (nat \<times> byte list)" where
  "readByte bs = (case bs of [] \<Rightarrow> Inl Truncated | b # bs \<Rightarrow> Inr (unat b, bs))"

definition readBytes :: "nat \<Rightarrow> byte list \<Rightarrow> cbor_error + (byte list \<times> byte list)" where
  "readBytes n bs = (if length bs < n then Inl Truncated else Inr (take n bs, drop n bs))"

definition read_uint32 :: "byte list \<Rightarrow> cbor_error + (nat \<times> byte list)" where
  "read_uint32 bs = ebind (readBytes 4 bs) (\<lambda>(b, bs). Inr (uint32_of b, bs))"

definition readArgument :: "nat \<Rightarrow> byte list \<Rightarrow> cbor_error + (nat \<times> byte list)" where
  "readArgument info bs =
     (if info < 24 then Inr (info, bs)
      else if info = 24 then readByte bs
      else if info = 25 then ebind (readBytes 2 bs) (\<lambda>(b, bs). Inr (uint16_of b, bs))
      else if info = 26 then read_uint32 bs
      else if info = 27 then
        ebind (read_uint32 bs) (\<lambda>(high, bs). ebind (read_uint32 bs) (\<lambda>(low, bs).
          if 0x1fffff < high then Inl Unsafe_integer else Inr (high * UINT32_BASE + low, bs)))
      else if info = 31 then Inl Indefinite_length
      else Inl Malformed_additional)"

definition readLength :: "nat \<Rightarrow> cbor_error \<Rightarrow> nat \<Rightarrow> byte list \<Rightarrow> cbor_error + (nat \<times> byte list)" where
  "readLength info exceeded limit bs =
     (if info = 31 then Inl Indefinite_length
      else ebind (readArgument info bs) (\<lambda>(n, bs). if limit < n then Inl exceeded else Inr (n, bs)))"

definition readSimple :: "nat \<Rightarrow> byte list \<Rightarrow> cbor_error + (js_value \<times> byte list)" where
  "readSimple info bs =
     (if info = 20 then Inr (V_bool False, bs)
      else if info = 21 then Inr (V_bool True, bs)
      else if info = 22 then Inr (V_null, bs)
      else if info = 27 then
        ebind (readBytes 8 bs) (\<lambda>(b, bs).
          case float64_of b of
            Minus_zero \<Rightarrow> Inr (V_num Minus_zero, bs)
          | Double n \<Rightarrow>
              if \<not> is_finite n then Inl Not_finite
              else if is_integer n \<and> \<not> is_safe_integer n then Inl Unsafe_integer
              else Inr (V_num (Double n), bs))
      else if info = 31 then Inl Break_marker
      else Inl Unsupported_simple)"

function readItem :: "resolved_options \<Rightarrow> nat \<Rightarrow> byte list \<Rightarrow> cbor_error + (js_value \<times> byte list)"
and read_items :: "resolved_options \<Rightarrow> nat \<Rightarrow> nat \<Rightarrow> byte list \<Rightarrow> cbor_error + (js_value list \<times> byte list)"
and read_entries :: "resolved_options \<Rightarrow> nat \<Rightarrow> nat \<Rightarrow> (utf16 \<times> js_value) list \<Rightarrow> byte list
    \<Rightarrow> cbor_error + ((utf16 \<times> js_value) list \<times> byte list)" where
  "readItem opts depth bs =
     (if maxDepth opts < depth then Inl Depth_exceeded
      else ebind (readByte bs) (\<lambda>(initial, bs).
        let majorType = initial div 2 ^ 5; info = initial mod 2 ^ 5
        in if majorType = 0 then ebind (readArgument info bs) (\<lambda>(n, bs). Inr (V_int (int n), bs))
           else if majorType = 1 then
             ebind (readArgument info bs) (\<lambda>(n, bs).
               if \<not> is_safe_integer (Fin (of_int (- 1 - int n))) then Inl Unsafe_integer else Inr (V_int (- 1 - int n), bs))
           else if majorType = 2 then
             ebind (readLength info Byte_string_length_exceeded (maxByteLength opts) bs) (\<lambda>(n, bs).
               ebind (readBytes n bs) (\<lambda>(b, bs). Inr (V_bytes b, bs)))
           else if majorType = 3 then
             ebind (readLength info Text_length_exceeded (maxByteLength opts) bs) (\<lambda>(n, bs).
               ebind (readBytes n bs) (\<lambda>(b, bs).
                 case text_decode b of None \<Rightarrow> Inl Invalid_utf8 | Some s \<Rightarrow> Inr (V_text s, bs)))
           else if majorType = 4 then
             ebind (readLength info Array_length_exceeded (maxContainerLength opts) bs) (\<lambda>(n, bs).
               ebind (read_items opts (depth + 1) n bs) (\<lambda>(vs, bs). Inr (V_array vs, bs)))
           else if majorType = 5 then
             ebind (readLength info Map_length_exceeded (maxContainerLength opts) bs) (\<lambda>(n, bs).
               ebind (read_entries opts (depth + 1) n [] bs) (\<lambda>(es, bs). Inr (V_object Object_prototype False es, bs)))
           else if majorType = 6 then Inl Tag
           else readSimple info bs))"
| "read_items opts depth 0 bs = Inr ([], bs)"
| "read_items opts depth (Suc n) bs =
     ebind (readItem opts depth bs) (\<lambda>(v, bs). ebind (read_items opts depth n bs) (\<lambda>(vs, bs). Inr (v # vs, bs)))"
| "read_entries opts depth 0 es bs = Inr (es, bs)"
| "read_entries opts depth (Suc n) es bs =
     ebind (readItem opts depth bs) (\<lambda>(key, bs).
       case key of
         V_text k \<Rightarrow>
           if k \<in> set (map fst es) then Inl Duplicate_key
           else ebind (readItem opts depth bs) (\<lambda>(v, bs). read_entries opts depth n (define_property es k v) bs)
       | _ \<Rightarrow> Inl Key_not_string)"
  by pat_completeness auto
termination
  by (relation "measures [
      \<lambda>x. case x of Inl (opts, d, _) \<Rightarrow> Suc (maxDepth opts) - d | Inr (Inl (opts, d, _, _)) \<Rightarrow> Suc (maxDepth opts) - d
        | Inr (Inr (opts, d, _, _, _)) \<Rightarrow> Suc (maxDepth opts) - d,
      \<lambda>x. case x of Inl _ \<Rightarrow> 0 | Inr (Inl (_, _, n, _)) \<Rightarrow> Suc n | Inr (Inr (_, _, n, _, _)) \<Rightarrow> Suc n]") auto

definition decodeCbor :: "byte list \<Rightarrow> cbor_options option \<Rightarrow> cbor_error + js_value" where
  "decodeCbor bytes options =
     ebind (resolveOptions options) (\<lambda>opts.
       if maxByteLength opts < length bytes then Inl Byte_length_exceeded
       else ebind (readItem opts 0 bytes) (\<lambda>(v, rest). if rest \<noteq> [] then Inl Trailing_data else Inr v))"

declare readItem.simps [simp del] encodeValue.simps [simp del]


section \<open>The buffer holds what was written\<close>

definition writer_ok :: "cbor_writer \<Rightarrow> bool" where
  "writer_ok w \<longleftrightarrow> woffset w \<le> length (buffer w) \<and> length (buffer w) \<le> wmax w"

text \<open>The contract of a write of the bytes \<open>bs\<close>: it fails exactly when the limit is exceeded, and otherwise appends.\<close>

definition emits :: "(cbor_writer \<Rightarrow> cbor_error + cbor_writer) \<Rightarrow> byte list \<Rightarrow> bool" where
  "emits f bs \<longleftrightarrow>
     (\<forall>w. writer_ok w \<longrightarrow>
        (if woffset w + length bs \<le> wmax w
         then \<exists>w'. f w = Inr w' \<and> writer_ok w' \<and> wmax w' = wmax w \<and> finish w' = finish w @ bs
         else f w = Inl Byte_length_exceeded))"

text \<open>The growth loop returns whenever the limit allows what is required.\<close>

lemma grow_capacity_returns:
  assumes "required \<le> limit"
  shows "\<exists>c. grow_capacity limit required capacity = Some c \<and> required \<le> c \<and> capacity \<le> c \<and> (capacity \<le> limit \<longrightarrow> c \<le> limit)"
proof (cases "capacity < required")
  case True
  have "grow_capacity limit required c = Some c" if "required \<le> c" for c
    using that by (subst grow_capacity.simps) simp
  from this[of "min limit (max required (capacity * 2))"] show ?thesis
    using True assms by (subst grow_capacity.simps) auto
qed (subst grow_capacity.simps, simp)

lemma writer_length: "writer_ok w \<Longrightarrow> length (finish w) = woffset w"
  by (simp add: writer_ok_def finish_def)

lemma ensureCapacity_emits:
  assumes "writer_ok w"
  shows "if woffset w + n \<le> wmax w
     then \<exists>w'. ensureCapacity n w = Inr w' \<and> writer_ok w' \<and> wmax w' = wmax w \<and> woffset w' = woffset w \<and> finish w' = finish w
        \<and> woffset w + n \<le> length (buffer w')
     else ensureCapacity n w = Inl Byte_length_exceeded"
proof (cases "woffset w + n \<le> wmax w \<and> length (buffer w) < woffset w + n")
  case True
  then obtain c where "grow_capacity (wmax w) (woffset w + n) (max 1 (length (buffer w))) = Some c"
    "woffset w + n \<le> c" "max 1 (length (buffer w)) \<le> c" "max 1 (length (buffer w)) \<le> wmax w \<longrightarrow> c \<le> wmax w"
    using grow_capacity_returns by metis
  then show ?thesis using True assms by (auto simp: ensureCapacity_def Let_def writer_ok_def finish_def)
qed (use assms in \<open>auto simp: ensureCapacity_def Let_def\<close>)

text \<open>A write that reserves the room and then stores the bytes at the offset.\<close>

lemma emitsI:
  assumes "\<And>w. f w = ebind (ensureCapacity n w) (\<lambda>w. Inr (w\<lparr>buffer := put w, woffset := woffset w + n\<rparr>))"
    and "\<And>w. woffset w + n \<le> length (buffer w) \<Longrightarrow> put w = set_bytes (buffer w) (woffset w) bs" and "length bs = n"
  shows "emits f bs"
  unfolding emits_def
proof (intro allI impI)
  fix w assume "writer_ok w"
  note e = ensureCapacity_emits[OF this, of n]
  show "if woffset w + length bs \<le> wmax w
     then \<exists>w'. f w = Inr w' \<and> writer_ok w' \<and> wmax w' = wmax w \<and> finish w' = finish w @ bs else f w = Inl Byte_length_exceeded"
  proof (cases "woffset w + length bs \<le> wmax w")
    case True
    then obtain w1 where w1: "ensureCapacity n w = Inr w1" "writer_ok w1" "wmax w1 = wmax w" "woffset w1 = woffset w"
      "finish w1 = finish w" "woffset w1 + n \<le> length (buffer w1)" using e assms(3) by auto
    define w2 where "w2 = w1\<lparr>buffer := set_bytes (buffer w1) (woffset w1) bs, woffset := woffset w1 + n\<rparr>"
    have "f w = Inr w2" using w1(1,6) by (simp add: assms w2_def)
    moreover have "writer_ok w2" "wmax w2 = wmax w" "finish w2 = finish w1 @ bs"
      using w1(2,3,6) assms(3) by (auto simp: w2_def writer_ok_def finish_def set_bytes_def)
    ultimately show ?thesis using True w1(5) by simp
  qed (use e assms in simp)
qed

lemma set_bytes_Cons:
  assumes "offset < length buf"
  shows "set_bytes buf offset (b # bs) = set_bytes (buf[offset := b]) (Suc offset) bs"
  using assms by (simp add: set_bytes_def take_Suc_conv_app_nth drop_update_cancel)

lemma set_bytes_Nil [simp]: "set_bytes buf offset [] = buf"
  by (simp add: set_bytes_def)

lemma add_3_eq_Suc: "n + 3 = Suc (Suc (Suc n))"
  by simp

lemma writeBytes_emits: "emits (writeBytes bs) bs"
  by (rule emitsI[where n = "length bs" and put = "\<lambda>w. set_bytes (buffer w) (woffset w) bs"]) (simp_all add: writeBytes_def)

lemma writeByte_emits: "emits (writeByte n) [byte_of n]"
  by (rule emitsI[where n = 1 and put = "\<lambda>w. (buffer w)[woffset w := byte_of n]"]) (simp_all add: writeByte_def set_bytes_Cons)

lemma writeUint16_emits: "emits (writeUint16 n) (uint16_bytes n)"
  by (rule emitsI[where n = 2 and put = "\<lambda>w. (buffer w)[woffset w := byte_of (n div 2 ^ 8), woffset w + 1 := byte_of n]"])
    (simp_all add: writeUint16_def uint16_bytes_def set_bytes_Cons)

lemma writeUint32_emits: "emits (writeUint32 n) (uint32_bytes n)"
  by (rule emitsI[where n = 4 and put = "\<lambda>w. (buffer w)[woffset w := byte_of (n div 2 ^ 24), woffset w + 1 := byte_of (n div 2 ^ 16),
                                    woffset w + 2 := byte_of (n div 2 ^ 8), woffset w + 3 := byte_of n]"])
    (simp_all add: writeUint32_def uint32_bytes_def set_bytes_Cons add_2_eq_Suc' add_3_eq_Suc)

lemma writeFloat64_emits: "emits (writeFloat64 x) (0xfb # float64_bytes x)"
  by (rule emitsI[where n = 9 and put = "\<lambda>w. set_bytes ((buffer w)[woffset w := 0xfb]) (woffset w + 1) (float64_bytes x)"])
    (simp_all add: writeFloat64_def set_bytes_Cons)

lemma emits_then:
  assumes "emits f as" "emits g bs" shows "emits (\<lambda>w. ebind (f w) g) (as @ bs)"
  unfolding emits_def
proof (intro allI impI)
  fix w assume w: "writer_ok w"
  show "if woffset w + length (as @ bs) \<le> wmax w
     then \<exists>w'. ebind (f w) g = Inr w' \<and> writer_ok w' \<and> wmax w' = wmax w \<and> finish w' = finish w @ (as @ bs)
     else ebind (f w) g = Inl Byte_length_exceeded"
  proof (cases "woffset w + length as \<le> wmax w")
    case True
    then obtain w1 where w1: "f w = Inr w1" "writer_ok w1" "wmax w1 = wmax w" "finish w1 = finish w @ as"
      using assms(1) w unfolding emits_def by meson
    have "woffset w1 = woffset w + length as" using w1 writer_length[OF w] writer_length[OF w1(2)] by simp
    then show ?thesis using assms(2) w1 unfolding emits_def by (auto split: if_splits)
  qed (use assms(1) w in \<open>auto simp: emits_def\<close>)
qed

lemma emits_cong: "emits f as \<Longrightarrow> as = bs \<Longrightarrow> emits f bs"
  by simp

lemma emits_return: "emits Inr []"
  by (simp add: emits_def writer_ok_def)

lemma writeUint64_emits: "emits (writeUint64 n) (uint64_bytes n)"
proof -
  have "n - n div UINT32_BASE * UINT32_BASE = n mod 2 ^ 32" by (simp add: UINT32_BASE_def minus_div_mult_eq_mod)
  moreover have "n div UINT32_BASE = n div 2 ^ 32" by (simp add: UINT32_BASE_def)
  ultimately have "writeUint64 n = (\<lambda>w. ebind (writeUint32 (n div 2 ^ 32) w) (writeUint32 (n mod 2 ^ 32)))"
    by (intro ext) (simp only: writeUint64_def Let_def)
  then show ?thesis using emits_then[OF writeUint32_emits writeUint32_emits] by (simp add: uint64_bytes_def)
qed

text \<open>The head of an item: the major type and its argument in the shortest form.\<close>

definition argument_bytes :: "nat \<Rightarrow> nat \<Rightarrow> byte list" where
  "argument_bytes major n =
     (if n < 24 then [byte_of (major * 32 + n)]
      else if n < 2 ^ 8 then [byte_of (major * 32 + 24), byte_of n]
      else if n < 2 ^ 16 then byte_of (major * 32 + 25) # uint16_bytes n
      else if n < 2 ^ 32 then byte_of (major * 32 + 26) # uint32_bytes n
      else byte_of (major * 32 + 27) # uint64_bytes n)"

lemma writeArgument_emits: "emits (writeArgument major n) (argument_bytes major n)"
proof -
  note two = emits_then[OF writeByte_emits, THEN emits_cong]
  show ?thesis
    unfolding writeArgument_def[abs_def] argument_bytes_def Let_def MAX_UINT32_def
    using writeByte_emits[of "major * 32 + n"] two[OF writeByte_emits] two[OF writeUint16_emits] two[OF writeUint32_emits] two[OF writeUint64_emits]
    by simp
qed


section \<open>The encoding as a function\<close>

text \<open>The reference: the bytes of a value, or the error, without the buffer and its limit.\<close>

definition text_bytes :: "resolved_options \<Rightarrow> utf16 \<Rightarrow> cbor_error + byte list" where
  "text_bytes opts s =
     (if maxByteLength opts < length (text_encode s) then Inl Text_length_exceeded
      else if text_decode (text_encode s) \<noteq> Some s then Inl Not_unicode
      else Inr (argument_bytes 3 (length (text_encode s)) @ text_encode s))"

definition number_bytes :: "float64 \<Rightarrow> cbor_error + byte list" where
  "number_bytes value =
     (case value of
        Minus_zero \<Rightarrow> Inr (0xfb # float64_bytes value)
      | Double n \<Rightarrow>
          if \<not> is_finite n then Inl Not_finite
          else if is_integer n then
            if \<not> is_safe_integer n then Inl Unsafe_integer
            else if js_ge n (Fin 0) then Inr (argument_bytes 0 (nat_of_num n))
            else Inr (argument_bytes 1 (nat_of_num (js_sub (Fin (- 1)) n)))
          else Inr (0xfb # float64_bytes value))"

fun cbor_bytes :: "resolved_options \<Rightarrow> nat \<Rightarrow> js_value \<Rightarrow> cbor_error + byte list"
and items_bytes :: "resolved_options \<Rightarrow> nat \<Rightarrow> js_value list \<Rightarrow> cbor_error + byte list"
and entries_bytes :: "resolved_options \<Rightarrow> nat \<Rightarrow> (utf16 \<times> js_value) list \<Rightarrow> cbor_error + byte list" where
  "cbor_bytes opts depth value =
     (if maxDepth opts < depth then Inl Depth_exceeded
      else case value of
          V_null \<Rightarrow> Inr [0xf6]
        | V_bool b \<Rightarrow> Inr [if b then 0xf5 else 0xf4]
        | V_num n \<Rightarrow> number_bytes n
        | V_text s \<Rightarrow> text_bytes opts s
        | V_bytes bs \<Rightarrow>
            if maxByteLength opts < length bs then Inl Byte_string_length_exceeded
            else Inr (argument_bytes 2 (length bs) @ bs)
        | V_array vs \<Rightarrow>
            if maxContainerLength opts < length vs then Inl Array_length_exceeded
            else ebind (items_bytes opts (depth + 1) vs) (\<lambda>bs. Inr (argument_bytes 4 (length vs) @ bs))
        | V_object p symbols es \<Rightarrow>
            if p = Other_prototype then Inl Unsupported_value
            else if symbols then Inl Symbol_key
            else if maxContainerLength opts < length (filter (\<lambda>e. snd e \<noteq> V_undefined) es) then Inl Map_length_exceeded
            else ebind (entries_bytes opts (depth + 1) es)
                   (\<lambda>bs. Inr (argument_bytes 5 (length (filter (\<lambda>e. snd e \<noteq> V_undefined) es)) @ bs))
        | _ \<Rightarrow> Inl Unsupported_value)"
| "items_bytes opts depth [] = Inr []"
| "items_bytes opts depth (v # vs) =
     (if v = V_hole \<or> v = V_undefined then Inl Hole_or_undefined
      else ebind (cbor_bytes opts depth v) (\<lambda>as. ebind (items_bytes opts depth vs) (\<lambda>bs. Inr (as @ bs))))"
| "entries_bytes opts depth [] = Inr []"
| "entries_bytes opts depth ((k, v) # es) =
     (if v = V_undefined then entries_bytes opts depth es
      else ebind (text_bytes opts k) (\<lambda>ks. ebind (cbor_bytes opts depth v) (\<lambda>as.
             ebind (entries_bytes opts depth es) (\<lambda>bs. Inr (ks @ as @ bs)))))"

declare cbor_bytes.simps [simp del]

text \<open>An operation on the buffer implements a reference result: it emits the bytes of a success, and fails on an error,
  with that error unless the limit was exceeded first.\<close>

definition implements :: "(cbor_writer \<Rightarrow> cbor_error + cbor_writer) \<Rightarrow> cbor_error + byte list \<Rightarrow> bool" where
  "implements f r \<longleftrightarrow>
     (case r of Inr bs \<Rightarrow> emits f bs
      | Inl e \<Rightarrow> \<forall>w. writer_ok w \<longrightarrow> f w = Inl e \<or> f w = Inl Byte_length_exceeded)"

lemma implements_Inr [simp]: "implements f (Inr bs) \<longleftrightarrow> emits f bs"
  by (simp add: implements_def)

lemma implements_fail [simp]: "implements (\<lambda>w. Inl e) (Inl e)"
  by (simp add: implements_def)

lemma implements_error: "implements f (Inl e) \<Longrightarrow> implements (\<lambda>w. ebind (f w) g) (Inl e)"
  by (fastforce simp: implements_def)

lemma implements_then:
  assumes f: "implements f r" and g: "\<And>bs. r = Inr bs \<Longrightarrow> implements g t"
  shows "implements (\<lambda>w. ebind (f w) g) (ebind r (\<lambda>as. ebind t (\<lambda>bs. Inr (as @ bs))))"
proof (cases r)
  case (Inl e)
  then show ?thesis using implements_error f by simp
next
  case as: (Inr as)
  show ?thesis
  proof (cases t)
    case (Inl e)
    have "f w = Inl Byte_length_exceeded \<or> (\<exists>w'. f w = Inr w' \<and> writer_ok w')" if "writer_ok w" for w
      using f as that unfolding implements_Inr emits_def by (meson implements_Inr emits_def)
    then show ?thesis using as Inl g unfolding implements_def by fastforce
  next
    case (Inr bs)
    then show ?thesis using emits_then f g as by simp
  qed
qed

lemma encodeText_implements: "implements (encodeText opts s) (text_bytes opts s)"
  using emits_then[OF writeArgument_emits writeBytes_emits, of 3 "length (text_encode s)" "text_encode s"]
  by (simp add: encodeText_def[abs_def] text_bytes_def Let_def)

lemma encodeNumber_implements: "implements (encodeNumber n) (number_bytes n)"
  by (cases n) (auto simp: encodeNumber_def[abs_def] number_bytes_def writeFloat64_emits writeArgument_emits)

lemma emits_byte: "byte_of n = b \<Longrightarrow> emits (writeByte n) [b]"
  using writeByte_emits[of n] by simp

lemma head_then:
  assumes "implements f r"
  shows "implements (\<lambda>w. ebind (writeArgument major n w) f) (ebind r (\<lambda>bs. Inr (argument_bytes major n @ bs)))"
  using implements_then[of "writeArgument major n" "Inr (argument_bytes major n)" f r] assms writeArgument_emits by simp

lemma encode_implements:
  "implements (encodeValue opts depth v) (cbor_bytes opts depth v)"
  "implements (encode_items opts depth vs) (items_bytes opts depth vs)"
  "implements (encode_entries opts depth es) (entries_bytes opts depth es)"
proof (induction opts depth v and opts depth vs and opts depth es rule: cbor_bytes_items_bytes_entries_bytes.induct)
  case (1 opts depth x)
  show ?case
  proof (cases "maxDepth opts < depth")
    case False
    have bytes: "emits (\<lambda>w. ebind (writeArgument 2 (length bs) w) (writeBytes bs)) (argument_bytes 2 (length bs) @ bs)" for bs
      by (rule emits_then[OF writeArgument_emits writeBytes_emits])
    show ?thesis using False 1[OF False]
      by (cases x) (auto simp: encodeValue.simps[abs_def] cbor_bytes.simps encodeNumber_implements encodeText_implements
          bytes head_then simp: byte_of_def intro!: emits_byte)
  qed (simp add: encodeValue.simps[abs_def] cbor_bytes.simps)
next
  case (3 opts depth v vs)
  show ?case
  proof (cases "v = V_hole \<or> v = V_undefined")
    case False
    then show ?thesis using implements_then[OF 3(1) 3(2)] by (auto simp: encode_items.simps(2)[abs_def])
  qed (auto simp: encode_items.simps(2)[abs_def])
next
  case (5 opts depth k v es)
  show ?case
  proof (cases "v = V_undefined")
    case False
    have e: "ebind (ebind m f) g = ebind m (\<lambda>x. ebind (f x) g)" for m :: "cbor_error + 'b" and f and g :: "'c \<Rightarrow> cbor_error + 'd"
      by (cases m) auto
    have "implements (\<lambda>w. ebind (encodeValue opts depth v w) (encode_entries opts depth es))
        (ebind (cbor_bytes opts depth v) (\<lambda>as. ebind (entries_bytes opts depth es) (\<lambda>bs. Inr (as @ bs))))"
      using implements_then[OF 5(2) 5(3)] False by (auto simp: encodeText_implements)
    from implements_then[OF encodeText_implements this] show ?thesis using False
      by (simp add: encode_entries.simps(2)[abs_def] e)
  qed (use 5(1) in \<open>simp add: encode_entries.simps(2)[abs_def]\<close>)
qed (simp_all add: emits_return encode_items.simps(1)[abs_def] encode_entries.simps(1)[abs_def])


section \<open>What is written is read back\<close>

lemma readArgument_head:
  assumes "major < 8" "n < 2 ^ 53"
  obtains info more where "argument_bytes major n = byte_of (major * 32 + info) # more" "info < 31"
    "\<And>rest. readArgument info (more @ rest) = Inr (n, rest)"
proof -
  consider "n < 24" | "24 \<le> n" "n < 2 ^ 8" | "2 ^ 8 \<le> n" "n < 2 ^ 16" | "2 ^ 16 \<le> n" "n < 2 ^ 32" | "2 ^ 32 \<le> n" by linarith
  then show ?thesis
  proof cases
    case 1
    then show ?thesis using that[of n "[]"] by (simp add: argument_bytes_def readArgument_def)
  next
    case 2
    then show ?thesis using that[of 24 "[byte_of n]"] by (simp add: argument_bytes_def readArgument_def readByte_def unat_byte_of)
  next
    case 3
    then show ?thesis using that[of 25 "uint16_bytes n"] uint16_roundtrip[of n]
      by (simp add: argument_bytes_def readArgument_def readBytes_def)
  next
    case 4
    then show ?thesis using that[of 26 "uint32_bytes n"] uint32_roundtrip[of n]
      by (simp add: argument_bytes_def readArgument_def read_uint32_def readBytes_def)
  next
    case 5
    define h l where "h = n div 2 ^ 32" and "l = n mod 2 ^ 32"
    have n: "n = h * 2 ^ 32 + l" and l: "l < 2 ^ 32" by (simp_all add: h_def l_def)
    have h: "h \<le> 0x1fffff" using assms(2) less_mult_imp_div_less[of n "2 ^ 21" "2 ^ 32"] by (simp add: h_def)
    have u: "uint32_of (uint32_bytes h) = h" "uint32_of (uint32_bytes l) = l"
      using h l by (simp_all add: uint32_roundtrip)
    have "argument_bytes major n = byte_of (major * 32 + 27) # uint32_bytes h @ uint32_bytes l"
      using 5 by (simp add: argument_bytes_def uint64_bytes_def h_def l_def)
    moreover have "readArgument 27 ((uint32_bytes h @ uint32_bytes l) @ rest) = Inr (n, rest)" for rest
      using h u n by (simp add: readArgument_def read_uint32_def readBytes_def UINT32_BASE_def)
    ultimately show ?thesis using that[of 27 "uint32_bytes h @ uint32_bytes l"] by simp
  qed
qed

text \<open>Reading an item that starts with a head.\<close>

lemma readByte_head: "major < 8 \<Longrightarrow> info < 32 \<Longrightarrow> readByte (byte_of (major * 32 + info) # bs) = Inr (major * 32 + info, bs)"
  by (simp add: readByte_def unat_byte_of)

lemma head_digits: "info < 32 \<Longrightarrow> (major * 32 + info) div 2 ^ 5 = major" "info < 32 \<Longrightarrow> (major * 32 + info) mod 2 ^ 5 = (info :: nat)"
  by simp_all

lemma readItem_int:
  assumes "depth \<le> maxDepth opts" "n < 2 ^ 53"
  shows "readItem opts depth (argument_bytes 0 n @ rest) = Inr (V_int (int n), rest)"
proof -
  obtain info more where h: "argument_bytes 0 n = byte_of (0 * 32 + info) # more" "info < 31" "\<And>rest. readArgument info (more @ rest) = Inr (n, rest)"
    using readArgument_head[of 0 n] assms(2) by auto
  show ?thesis using assms(1) h readByte_head[of 0 info "more @ rest"] head_digits[of info 0]
    by (simp add: readItem.simps[of opts depth] Let_def)
qed

lemma readItem_negative:
  assumes "depth \<le> maxDepth opts" "n < 2 ^ 53 - 1"
  shows "readItem opts depth (argument_bytes 1 n @ rest) = Inr (V_int (- 1 - int n), rest)"
proof -
  obtain info more where h: "argument_bytes 1 n = byte_of (1 * 32 + info) # more" "info < 31" "\<And>rest. readArgument info (more @ rest) = Inr (n, rest)"
    using readArgument_head[of 1 n] assms(2) by auto
  have "of_nat (n + 2) \<le> (of_nat (2 ^ 53) :: rat)" using assms(2) by (simp only: of_nat_le_iff)
  then have "is_safe_integer (Fin (of_int (- 1 - int n)))" by (simp only: is_safe_integer.simps floor_of_int) simp
  then show ?thesis using assms(1) h readByte_head[of 1 info "more @ rest"] head_digits[of info 1]
    by (simp add: readItem.simps[of opts depth] Let_def)
qed

lemma readItem_string:
  assumes "depth \<le> maxDepth opts" "length bs \<le> maxByteLength opts" "length bs < 2 ^ 53"
  shows "readItem opts depth (argument_bytes 2 (length bs) @ bs @ rest) = Inr (V_bytes bs, rest)"
    and "text_decode bs = Some s \<Longrightarrow> readItem opts depth (argument_bytes 3 (length bs) @ bs @ rest) = Inr (V_text s, rest)"
proof -
  obtain info more where h: "argument_bytes 2 (length bs) = byte_of (2 * 32 + info) # more" "info < 31"
      "\<And>rest. readArgument info (more @ rest) = Inr (length bs, rest)"
    using readArgument_head[of 2 "length bs"] assms(3) by auto
  then show "readItem opts depth (argument_bytes 2 (length bs) @ bs @ rest) = Inr (V_bytes bs, rest)"
    using assms(1,2) readByte_head[of 2 info "more @ bs @ rest"] head_digits[of info 2]
    by (simp add: readItem.simps[of opts depth] Let_def readLength_def readBytes_def)
next
  assume t: "text_decode bs = Some s"
  obtain info more where h: "argument_bytes 3 (length bs) = byte_of (3 * 32 + info) # more" "info < 31"
      "\<And>rest. readArgument info (more @ rest) = Inr (length bs, rest)"
    using readArgument_head[of 3 "length bs"] assms(3) by auto
  then show "readItem opts depth (argument_bytes 3 (length bs) @ bs @ rest) = Inr (V_text s, rest)"
    using assms(1,2) t readByte_head[of 3 info "more @ bs @ rest"] head_digits[of info 3]
    by (simp add: readItem.simps[of opts depth] Let_def readLength_def readBytes_def)
qed

lemma readItem_container:
  assumes "depth \<le> maxDepth opts" "n \<le> maxContainerLength opts" "n < 2 ^ 53"
  shows "read_items opts (depth + 1) n bs = Inr (vs, rest) \<Longrightarrow> readItem opts depth (argument_bytes 4 n @ bs) = Inr (V_array vs, rest)"
    and "read_entries opts (depth + 1) n [] bs = Inr (es, rest) \<Longrightarrow>
      readItem opts depth (argument_bytes 5 n @ bs) = Inr (V_object Object_prototype False es, rest)"
proof -
  obtain info more where h: "argument_bytes 4 n = byte_of (4 * 32 + info) # more" "info < 31" "\<And>rest. readArgument info (more @ rest) = Inr (n, rest)"
    using readArgument_head[of 4 n] assms(3) by auto
  then show "read_items opts (depth + 1) n bs = Inr (vs, rest) \<Longrightarrow> readItem opts depth (argument_bytes 4 n @ bs) = Inr (V_array vs, rest)"
    using assms(1,2) readByte_head[of 4 info "more @ bs"] head_digits[of info 4]
    by (simp add: readItem.simps[of opts depth] Let_def readLength_def)
next
  obtain info more where h: "argument_bytes 5 n = byte_of (5 * 32 + info) # more" "info < 31" "\<And>rest. readArgument info (more @ rest) = Inr (n, rest)"
    using readArgument_head[of 5 n] assms(3) by auto
  then show "read_entries opts (depth + 1) n [] bs = Inr (es, rest) \<Longrightarrow>
      readItem opts depth (argument_bytes 5 n @ bs) = Inr (V_object Object_prototype False es, rest)"
    using assms(1,2) readByte_head[of 5 info "more @ bs"] head_digits[of info 5]
    by (simp add: readItem.simps[of opts depth] Let_def readLength_def)
qed

lemma readItem_simple:
  assumes "depth \<le> maxDepth opts"
  shows "readItem opts depth (0xf6 # rest) = Inr (V_null, rest)" "readItem opts depth (0xf5 # rest) = Inr (V_bool True, rest)"
    "readItem opts depth (0xf4 # rest) = Inr (V_bool False, rest)"
    "readItem opts depth (0xfb # bs) = readSimple 27 bs"
  using assms by (simp_all add: readItem.simps[of opts depth] readByte_def readSimple_def)

section \<open>Well-formed values and what of them is transmitted\<close>

text \<open>Numbers are doubles, and the keys of an object are distinct and in the order of \<^verbatim>\<open>Object.keys\<close>.\<close>

definition keys_ok :: "(utf16 \<times> 'v) list \<Rightarrow> bool" where
  "keys_ok es \<longleftrightarrow> distinct (map fst es) \<and> sorted_wrt (\<lambda>k l. \<not> key_before l k) (map fst es)"

fun wf_value :: "js_value \<Rightarrow> bool" where
  "wf_value (V_num n) = (case n of Double (Fin x) \<Rightarrow> is_double x | _ \<Rightarrow> True)"
| "wf_value (V_array vs) = list_all wf_value vs"
| "wf_value (V_object p symbols es) = (keys_ok es \<and> list_all (\<lambda>e. wf_value (snd e)) es)"
| "wf_value _ = True"

text \<open>The receiver sees a plain object without the keys whose value is \<^verbatim>\<open>undefined\<close>.\<close>

fun transmitted :: "js_value \<Rightarrow> js_value" where
  "transmitted (V_array vs) = V_array (map transmitted vs)"
| "transmitted (V_object p symbols es) =
     V_object Object_prototype False (map (\<lambda>e. (fst e, transmitted (snd e))) (filter (\<lambda>e. snd e \<noteq> V_undefined) es))"
| "transmitted v = v"

definition options_ok :: "resolved_options \<Rightarrow> bool" where
  "options_ok opts \<longleftrightarrow> maxByteLength opts \<le> MAX_UINT32 \<and> maxContainerLength opts \<le> MAX_UINT32 \<and> maxDepth opts \<le> MAX_CONFIGURED_DEPTH"

lemma options_small: "options_ok opts \<Longrightarrow> n \<le> maxByteLength opts \<or> n \<le> maxContainerLength opts \<Longrightarrow> n < 2 ^ 53"
  by (auto simp: options_ok_def MAX_UINT32_def)

lemma define_property_last:
  "(\<forall>l \<in> set (map fst es). \<not> key_before k l) \<Longrightarrow> define_property es k v = es @ [(k, v)]"
  by (induction es) auto

lemma number_read:
  assumes "number_bytes n = Inr bs" "wf_value (V_num n)" "depth \<le> maxDepth opts"
  shows "readItem opts depth (bs @ rest) = Inr (V_num n, rest)"
proof (cases n)
  case Minus_zero
  then show ?thesis using assms minus_zero_roundtrip
    by (auto simp: number_bytes_def readItem_simple readSimple_def readBytes_def)
next
  case (Double num)
  then obtain x where x: "num = Fin x" "is_double x" using assms(1,2) by (cases num) (auto simp: number_bytes_def)
  show ?thesis
  proof (cases "of_int \<lfloor>x\<rfloor> = x")
    case False
    then show ?thesis using assms(1,3) Double x float64_roundtrip
      by (auto simp: number_bytes_def readItem_simple readSimple_def readBytes_def)
  next
    case True
    define i where "i = \<lfloor>x\<rfloor>"
    have xi: "x = of_int i" unfolding i_def using True by (rule sym)
    have "of_int \<bar>i\<bar> \<le> (of_int (2 ^ 53 - 1) :: rat)" using assms(1) Double x(1) True by (auto simp: number_bytes_def xi split: if_splits)
    then have i: "\<bar>i\<bar> \<le> 2 ^ 53 - 1" by (simp only: of_int_le_iff)
    have sub: "js_sub (Fin (- 1)) num = Fin (of_int (- 1 - i))"
      using fl_of_int[of "- 1 - i"] i by (simp add: js_sub_def x(1) xi)
    show ?thesis
    proof (cases "0 \<le> i")
      case True
      then have "bs = argument_bytes 0 (nat i)" using assms(1) Double x(1) i by (auto simp: number_bytes_def xi nat_of_num_def split: if_splits)
      moreover have "nat i < 2 ^ 53" using i by simp
      ultimately show ?thesis using readItem_int[OF assms(3), of "nat i" rest] True by (simp add: V_int_def Double x(1) xi)
    next
      case False
      moreover have "\<lfloor>- 1 :: rat\<rfloor> = - 1" by linarith
      ultimately have "bs = argument_bytes 1 (nat (- 1 - i))"
        using assms(1) Double x(1) i sub by (auto simp: number_bytes_def xi nat_of_num_def split: if_splits)
      moreover have "nat (- 1 - i) < 2 ^ 53 - 1" using i by simp
      ultimately show ?thesis using readItem_negative[OF assms(3), of "nat (- 1 - i)" rest] False by (simp add: V_int_def Double x(1) xi)
    qed
  qed
qed


lemma text_read:
  assumes "text_bytes opts s = Inr bs" "options_ok opts" "depth \<le> maxDepth opts"
  shows "readItem opts depth (bs @ rest) = Inr (V_text s, rest)"
proof -
  have l: "length (text_encode s) \<le> maxByteLength opts" "text_decode (text_encode s) = Some s"
      "bs = argument_bytes 3 (length (text_encode s)) @ text_encode s"
    using assms(1) by (auto simp: text_bytes_def split: if_splits)
  then show ?thesis using readItem_string(2)[OF assms(3) l(1) options_small[OF assms(2)] l(2)] by simp
qed

lemma bytes_depth: "cbor_bytes opts depth v = Inr bs \<Longrightarrow> depth \<le> maxDepth opts"
  by (cases "maxDepth opts < depth") (simp_all add: cbor_bytes.simps)

lemma read_written:
  "cbor_bytes opts depth v = Inr bs \<Longrightarrow> options_ok opts \<Longrightarrow> wf_value v \<Longrightarrow> readItem opts depth (bs @ rest) = Inr (transmitted v, rest)"
  "items_bytes opts depth vs = Inr bs \<Longrightarrow> options_ok opts \<Longrightarrow> list_all wf_value vs \<Longrightarrow>
     read_items opts depth (length vs) (bs @ rest) = Inr (map transmitted vs, rest)"
  "entries_bytes opts depth es = Inr bs \<Longrightarrow> options_ok opts \<Longrightarrow> list_all (\<lambda>e. wf_value (snd e)) es \<Longrightarrow> keys_ok (acc @ es) \<Longrightarrow>
     set (map fst acc') \<subseteq> set (map fst acc) \<Longrightarrow>
     read_entries opts depth (length (filter (\<lambda>e. snd e \<noteq> V_undefined) es)) acc' (bs @ rest) =
       Inr (acc' @ map (\<lambda>e. (fst e, transmitted (snd e))) (filter (\<lambda>e. snd e \<noteq> V_undefined) es), rest)"
proof (induction opts depth v and opts depth vs and opts depth es arbitrary: bs rest and bs rest and bs rest acc acc'
    rule: cbor_bytes_items_bytes_entries_bytes.induct)
  case (1 opts depth x)
  note d = bytes_depth[OF "1.prems"(1)]
  show ?case
  proof (cases x)
    case (V_num n)
    then show ?thesis using number_read[OF _ _ d, of n bs rest] 1 d by (simp add: cbor_bytes.simps)
  next
    case (V_text s)
    then show ?thesis using text_read[OF _ _ d, of s bs rest] 1 d by (simp add: cbor_bytes.simps)
  next
    case (V_bytes b)
    then have b: "length b \<le> maxByteLength opts" "bs = argument_bytes 2 (length b) @ b"
      using 1 d by (auto simp: cbor_bytes.simps split: if_splits)
    then show ?thesis using readItem_string(1)[OF d b(1)] options_small[OF "1.prems"(2)] V_bytes by simp
  next
    case (V_array vs)
    then obtain bs' where b: "length vs \<le> maxContainerLength opts" "bs = argument_bytes 4 (length vs) @ bs'" "items_bytes opts (depth + 1) vs = Inr bs'"
      using "1.prems"(1) d by (auto simp: cbor_bytes.simps result_simps)
    then show ?thesis using readItem_container(1)[OF d b(1)] options_small[OF "1.prems"(2)] "1.IH"(1)[of vs bs'] "1.prems" d V_array by simp
  next
    case (V_object p symbols es)
    let ?es = "filter (\<lambda>e. snd e \<noteq> V_undefined) es"
    obtain bs' where b: "length ?es \<le> maxContainerLength opts" "bs = argument_bytes 5 (length ?es) @ bs'" "p \<noteq> Other_prototype" "\<not> symbols"
        "entries_bytes opts (depth + 1) es = Inr bs'"
      using "1.prems"(1) d V_object by (auto simp: cbor_bytes.simps result_simps)
    have "read_entries opts (depth + 1) (length ?es) [] (bs' @ rest) =
        Inr ([] @ map (\<lambda>e. (fst e, transmitted (snd e))) ?es, rest)"
      using "1.IH"(2)[of p symbols es bs' "[]" "[]"] "1.prems" d V_object b by simp
    then show ?thesis using readItem_container(2)[OF d b(1)] options_small[OF "1.prems"(2)] b V_object by simp
  qed (use 1 d in \<open>auto simp: cbor_bytes.simps readItem_simple\<close>)
next
  case (3 opts depth v vs)
  then show ?case by (auto simp: result_simps split: if_splits)
next
  case (5 opts depth k v es)
  show ?case
  proof (cases "v = V_undefined")
    case True
    have "keys_ok ((acc @ [(k, v)]) @ es)" "set (map fst acc') \<subseteq> set (map fst (acc @ [(k, v)]))" using "5.prems"(4,5) by auto
    then show ?thesis using "5.IH"(1)[of bs "acc @ [(k, v)]" acc'] "5.prems"(1-3) True by simp
  next
    case False
    obtain ks as bs' where b: "text_bytes opts k = Inr ks" "cbor_bytes opts depth v = Inr as" "entries_bytes opts depth es = Inr bs'" "bs = ks @ as @ bs'"
      using "5.prems"(1) False by (auto simp: result_simps)
    have "k \<notin> set (map fst acc)" "\<forall>l \<in> set (map fst acc). \<not> key_before k l"
      using "5.prems"(4) by (auto simp: keys_ok_def sorted_wrt_append)
    then have k: "k \<notin> set (map fst acc')" "\<forall>l \<in> set (map fst acc'). \<not> key_before k l"
      using "5.prems"(5) by blast+
    have key: "readItem opts depth (bs @ rest) = Inr (V_text k, as @ bs' @ rest)"
      using text_read[OF b(1) "5.prems"(2) bytes_depth[OF b(2)], of "as @ bs' @ rest"] b(4) by simp
    have entry: "readItem opts depth (as @ bs' @ rest) = Inr (transmitted v, bs' @ rest)"
      using "5.IH"(2)[OF False b(2)] "5.prems"(2,3,5) by simp
    let ?acc = "acc' @ [(k, transmitted v)]"
    have "keys_ok ((acc @ [(k, v)]) @ es)" "set (map fst ?acc) \<subseteq> set (map fst (acc @ [(k, v)]))" using "5.prems"(4,5) by auto
    then have "read_entries opts depth (length (filter (\<lambda>e. snd e \<noteq> V_undefined) es)) ?acc (bs' @ rest) =
        Inr (?acc @ map (\<lambda>e. (fst e, transmitted (snd e))) (filter (\<lambda>e. snd e \<noteq> V_undefined) es), rest)"
      using "5.IH"(3)[OF False b(3) "5.prems"(2), of "acc @ [(k, v)]" ?acc] "5.prems"(3) by simp
    then show ?thesis using key entry k False by (simp add: define_property_last)
  qed
qed simp_all


section \<open>The codec\<close>

lemma resolveLimit_bound: "resolveLimit name v m = Inr n \<Longrightarrow> n \<le> m"
proof -
  assume r: "resolveLimit name v m = Inr n"
  then obtain x where "v = Fin x" "x \<le> of_nat m" "n = nat \<lfloor>x\<rfloor>" by (cases v) (auto simp: resolveLimit_def nat_of_num_def split: if_splits)
  then show ?thesis by (metis floor_mono floor_of_nat nat_le_iff)
qed

lemma resolveOptions_ok: "resolveOptions options = Inr opts \<Longrightarrow> options_ok opts"
  by (auto simp: resolveOptions_def options_ok_def Let_def result_simps dest!: resolveLimit_bound)

lemma new_writer_ok: "writer_ok (new_writer n)" "finish (new_writer n) = []" "woffset (new_writer n) = 0" "wmax (new_writer n) = n"
  by (simp_all add: new_writer_def writer_ok_def finish_def)

text \<open>\<^verbatim>\<open>encodeCbor\<close> in terms of the reference: the bytes of the value when they fit.\<close>

lemma encodeCbor_spec:
  assumes "resolveOptions options = Inr opts"
  shows "case cbor_bytes opts 0 v of
      Inr bs \<Rightarrow> encodeCbor v options = (if length bs \<le> maxByteLength opts then Inr bs else Inl Byte_length_exceeded)
    | Inl e \<Rightarrow> encodeCbor v options = Inl e \<or> encodeCbor v options = Inl Byte_length_exceeded"
proof -
  note w = new_writer_ok[of "maxByteLength opts"]
  note i = encode_implements(1)[of opts 0 v]
  show ?thesis
  proof (cases "cbor_bytes opts 0 v")
    case (Inl e)
    then show ?thesis using i w(1) assms by (auto simp: implements_def encodeCbor_def)
  next
    case (Inr bs)
    then have "if length bs \<le> maxByteLength opts
       then \<exists>w'. encodeValue opts 0 v (new_writer (maxByteLength opts)) = Inr w' \<and> finish w' = bs
       else encodeValue opts 0 v (new_writer (maxByteLength opts)) = Inl Byte_length_exceeded"
      using i w unfolding implements_Inr Inr emits_def by (auto split: if_splits)
    then show ?thesis using Inr assms by (auto simp: encodeCbor_def split: if_splits)
  qed
qed

lemma encodeCbor_bytes:
  assumes "encodeCbor v options = Inr bs"
  obtains opts where "resolveOptions options = Inr opts" "cbor_bytes opts 0 v = Inr bs" "length bs \<le> maxByteLength opts"
proof -
  obtain opts where o: "resolveOptions options = Inr opts" using assms by (auto simp: encodeCbor_def result_simps)
  show ?thesis using encodeCbor_spec[OF o, of v] assms that[OF o] by (auto split: sum.splits if_splits)
qed


section \<open>What is read can be written again\<close>

text \<open>A value that was read: well formed, transmitted unchanged, and with an encoding no longer than \<open>n\<close> bytes.\<close>

definition rewritable :: "resolved_options \<Rightarrow> nat \<Rightarrow> js_value \<Rightarrow> nat \<Rightarrow> bool" where
  "rewritable opts depth v n \<longleftrightarrow>
     wf_value v \<and> transmitted v = v \<and> v \<noteq> V_undefined \<and> v \<noteq> V_hole \<and>
     (\<exists>out. cbor_bytes opts depth v = Inr out \<and> length out \<le> n)"

definition good_item :: "resolved_options \<Rightarrow> nat \<Rightarrow> bool" where
  "good_item opts depth \<longleftrightarrow>
     (\<forall>bs v rest. readItem opts depth bs = Inr (v, rest) \<longrightarrow> (\<exists>used. bs = used @ rest \<and> rewritable opts depth v (length used)))"

lemma readBytes_used: "readBytes n bs = Inr (b, rest) \<Longrightarrow> bs = b @ rest \<and> length b = n"
  by (auto simp: readBytes_def split: if_splits)

lemma readArgument_used:
  assumes "readArgument info bs = Inr (n, rest)"
  shows "\<exists>used. bs = used @ rest \<and> length (argument_bytes major n) \<le> Suc (length used) \<and> n < 2 ^ 53"
proof -
  consider "info < 24" | "info = 24" | "info = 25" | "info = 26" | "info = 27"
    using assms by (fastforce simp: readArgument_def split: if_splits)
  then show ?thesis
  proof cases
    case 1
    then show ?thesis using assms by (auto simp: readArgument_def argument_bytes_def)
  next
    case 2
    then obtain b where "bs = b # rest" "n = unat b" using assms by (auto simp: readArgument_def readByte_def split: list.splits)
    then show ?thesis using byte_less[of b] by (intro exI[of _ "[b]"]) (simp add: argument_bytes_def)
  next
    case 3
    then obtain b where b: "bs = b @ rest" "length b = 2" "n = uint16_of b" using assms by (auto simp: readArgument_def result_simps dest!: readBytes_used)
    then show ?thesis using uint16_less[OF b(2)] by (intro exI[of _ b]) (simp add: argument_bytes_def)
  next
    case 4
    then obtain b where b: "bs = b @ rest" "length b = 4" "n = uint32_of b"
      using assms by (auto simp: readArgument_def read_uint32_def result_simps dest!: readBytes_used)
    then show ?thesis using uint32_less[OF b(2)] by (intro exI[of _ b]) (simp add: argument_bytes_def)
  next
    case 5
    then obtain b c where b: "bs = b @ c @ rest" "length b = 4" "length c = 4" "n = uint32_of b * 2 ^ 32 + uint32_of c" "uint32_of b \<le> 0x1fffff"
      using assms by (auto simp: readArgument_def read_uint32_def result_simps UINT32_BASE_def not_less dest!: readBytes_used)
    then have "n < 2 ^ 53" using uint32_less[OF b(3)] by simp
    then show ?thesis using b(1-3) by (intro exI[of _ "b @ c"]) (simp add: argument_bytes_def)
  qed
qed

lemma readLength_used:
  assumes "readLength info e limit bs = Inr (n, rest)"
  shows "\<exists>used. bs = used @ rest \<and> length (argument_bytes major n) \<le> Suc (length used) \<and> n \<le> limit"
  using assms readArgument_used[of info bs n rest major] by (auto simp: readLength_def result_simps split: if_splits)

lemma key_before_trans: "key_before k l \<Longrightarrow> key_before l m \<Longrightarrow> key_before k m"
  by (auto simp: key_before_def split: option.splits)

lemma key_before_irrefl: "\<not> key_before k k"
  by (simp add: key_before_def split: option.splits)

lemma define_property_set: "set (define_property es k v) = insert (k, v) (set es)"
  by (induction es) auto

lemma define_property_keys: "k \<notin> set (map fst es) \<Longrightarrow> keys_ok es \<Longrightarrow> keys_ok (define_property es k v)"
proof (induction es)
  case (Cons e es)
  show ?case
  proof (cases "key_before k (fst e)")
    case True
    have "\<not> key_before l k" if "l \<in> set (map fst (e # es))" for l
      using that Cons.prems(2) key_before_trans[OF _ True, of l] key_before_irrefl by (auto simp: keys_ok_def)
    then show ?thesis using Cons.prems True by (simp add: keys_ok_def)
  next
    case False
    then show ?thesis using Cons by (auto simp: keys_ok_def define_property_set image_iff)
  qed
qed (simp add: keys_ok_def)

lemma define_property_bytes:
  assumes "entries_bytes opts depth es = Inr out" "text_bytes opts k = Inr ks" "cbor_bytes opts depth v = Inr as" "v \<noteq> V_undefined"
  shows "\<exists>out'. entries_bytes opts depth (define_property es k v) = Inr out' \<and> length out' = length out + length ks + length as"
  using assms(1)
proof (induction es arbitrary: out)
  case (Cons e es)
  obtain l u where e: "e = (l, u)" by force
  show ?case
  proof (cases "key_before k l")
    case True
    then show ?thesis using Cons.prems assms(2-4) e by simp
  next
    case no: False
    show ?thesis
    proof (cases "u = V_undefined")
      case True
      then show ?thesis using Cons e no by simp
    next
      case False
      then obtain ls us out1 where o: "text_bytes opts l = Inr ls" "cbor_bytes opts depth u = Inr us" "entries_bytes opts depth es = Inr out1"
        "out = ls @ us @ out1" using Cons.prems e by (auto simp: result_simps)
      then show ?thesis using Cons.IH[OF o(3)] False e no by auto
    qed
  qed
qed (use assms in simp)


lemma rewritable_int:
  assumes "depth \<le> maxDepth opts" "n < 2 ^ 53"
  shows "length (argument_bytes 0 n) \<le> m \<Longrightarrow> rewritable opts depth (V_int (int n)) m"
    and "is_safe_integer (Fin (of_int (- 1 - int n))) \<Longrightarrow> length (argument_bytes 1 n) \<le> m \<Longrightarrow> rewritable opts depth (V_int (- 1 - int n)) m"
proof -
  have "of_nat n \<le> (of_nat (2 ^ 53 - 1) :: rat)" using assms(2) by (simp only: of_nat_le_iff)
  then have "number_bytes (Double (Fin (of_int (int n)))) = Inr (argument_bytes 0 n)" by (simp add: number_bytes_def nat_of_num_def)
  moreover have "is_double (of_int (int n))" using fl_of_int[of "int n"] assms(2) by (simp add: is_double_def)
  ultimately show "length (argument_bytes 0 n) \<le> m \<Longrightarrow> rewritable opts depth (V_int (int n)) m"
    using assms(1) by (simp add: rewritable_def V_int_def cbor_bytes.simps)
next
  assume s: "is_safe_integer (Fin (of_int (- 1 - int n)))" "length (argument_bytes 1 n) \<le> m"
  have fl: "fl (of_int (- 1 - int n)) = Fin (of_int (- 1 - int n))" "fl (of_int (int n)) = Fin (of_int (int n))"
    using fl_of_int[of "- 1 - int n"] fl_of_int[of "int n"] assms(2) by simp_all
  have sub: "js_sub (Fin (- 1)) (Fin (of_int (- 1 - int n))) = Fin (of_int (int n))" using fl(2) by (simp add: js_sub_def)
  have neg: "\<not> js_ge (Fin (of_int (- 1 - int n))) (Fin 0)" by (simp del: of_int_diff of_int_minus)
  have "number_bytes (Double (Fin (of_int (- 1 - int n)))) = Inr (argument_bytes 1 n)"
    using s(1) neg by (simp only: number_bytes_def float64.case sub is_finite.simps is_integer.simps floor_of_int nat_of_num_def jsnum.case)
      (simp del: of_int_diff of_int_minus)
  then show "rewritable opts depth (V_int (- 1 - int n)) m"
    using assms(1) s(2) fl(1) by (simp add: rewritable_def V_int_def cbor_bytes.simps is_double_def)
qed

lemma argument_bytes_short: "length (argument_bytes major n) \<le> 9"
  by (simp add: argument_bytes_def)

lemma rewritable_float:
  assumes "depth \<le> maxDepth opts" "readSimple info bs = Inr (v, rest)"
  shows "\<exists>used. bs = used @ rest \<and> rewritable opts depth v (Suc (length used))"
proof -
  consider "info = 20" | "info = 21" | "info = 22" | "info = 27" using assms(2) by (fastforce simp: readSimple_def split: if_splits)
  then show ?thesis
  proof cases
    case 4
    obtain b where b: "bs = b @ rest" "length b = 8"
      and v: "case float64_of b of Minus_zero \<Rightarrow> v = V_num Minus_zero
        | Double n \<Rightarrow> v = V_num (Double n) \<and> is_finite n \<and> (is_integer n \<longrightarrow> is_safe_integer n)"
    proof -
      obtain b bs' where r: "readBytes 8 bs = Inr (b, bs')" using assms(2) 4 by (auto simp: readSimple_def result_simps)
      then show thesis using assms(2) 4 that[of b] readBytes_used[OF r]
        by (cases "float64_of b") (auto simp: readSimple_def split: if_splits)
    qed
    show ?thesis
    proof (cases "float64_of b")
      case Minus_zero
      then show ?thesis using b v assms(1) by (auto simp: rewritable_def cbor_bytes.simps number_bytes_def)
    next
      case (Double n)
      then obtain x where x: "v = V_num (Double (Fin x))" "is_double x" "is_integer (Fin x) \<longrightarrow> is_safe_integer (Fin x)"
        using v float64_of_double by (cases n) auto
      then have "\<exists>out. number_bytes (Double (Fin x)) = Inr out \<and> length out \<le> 9"
        by (auto simp: number_bytes_def argument_bytes_short)
      then show ?thesis using b assms(1) x by (auto simp: rewritable_def cbor_bytes.simps)
    qed
  qed (use assms in \<open>auto simp: readSimple_def rewritable_def cbor_bytes.simps\<close>)
qed

lemma good_itemD: "good_item opts depth \<Longrightarrow> readItem opts depth bs = Inr (v, rest) \<Longrightarrow> \<exists>used. bs = used @ rest \<and> rewritable opts depth v (length used)"
  unfolding good_item_def by blast

lemma good_items:
  assumes "good_item opts depth"
  shows "read_items opts depth n bs = Inr (vs, rest) \<Longrightarrow>
    \<exists>used out. bs = used @ rest \<and> length vs = n \<and> list_all wf_value vs \<and> map transmitted vs = vs \<and>
      items_bytes opts depth vs = Inr out \<and> length out \<le> length used"
proof (induction n arbitrary: bs vs)
  case (Suc n)
  obtain v vs' bs1 where r: "readItem opts depth bs = Inr (v, bs1)" "read_items opts depth n bs1 = Inr (vs', rest)" "vs = v # vs'"
    using Suc.prems by (auto simp: result_simps)
  obtain used where u: "bs = used @ bs1" "rewritable opts depth v (length used)" using good_itemD[OF assms r(1)] by blast
  obtain used' out' where "bs1 = used' @ rest" "length vs' = n" "list_all wf_value vs'" "map transmitted vs' = vs'"
      "items_bytes opts depth vs' = Inr out'" "length out' \<le> length used'" using Suc.IH[OF r(2)] by auto
  then show ?case using u r(3) by - (rule exI[of _ "used @ used'"], auto simp: rewritable_def)
qed simp

lemma define_property_length: "length (define_property es k v) = Suc (length es)"
  by (induction es) auto

lemma good_entries:
  assumes "good_item opts depth"
  shows "read_entries opts depth n acc bs = Inr (es, rest) \<Longrightarrow> keys_ok acc \<Longrightarrow> entries_bytes opts depth acc = Inr out \<Longrightarrow>
    (\<forall>e \<in> set acc. wf_value (snd e) \<and> transmitted (snd e) = snd e \<and> snd e \<noteq> V_undefined) \<Longrightarrow>
    \<exists>used out'. bs = used @ rest \<and> length es = length acc + n \<and> keys_ok es \<and>
      (\<forall>e \<in> set es. wf_value (snd e) \<and> transmitted (snd e) = snd e \<and> snd e \<noteq> V_undefined) \<and>
      entries_bytes opts depth es = Inr out' \<and> length out' \<le> length out + length used"
proof (induction n arbitrary: bs acc out)
  case (Suc n)
  obtain k v bs1 bs2 where r: "readItem opts depth bs = Inr (V_text k, bs1)" "k \<notin> set (map fst acc)" "readItem opts depth bs1 = Inr (v, bs2)"
      "read_entries opts depth n (define_property acc k v) bs2 = Inr (es, rest)"
  proof -
    obtain key bs1 where "readItem opts depth bs = Inr (key, bs1)" using Suc.prems(1) by (auto simp: result_simps)
    then show thesis using Suc.prems(1) that by (cases key) (auto simp: result_simps)
  qed
  obtain used where u: "bs = used @ bs1" "rewritable opts depth (V_text k) (length used)" using good_itemD[OF assms r(1)] by blast
  obtain used' where u': "bs1 = used' @ bs2" "rewritable opts depth v (length used')" using good_itemD[OF assms r(3)] by blast
  obtain ks as where b: "text_bytes opts k = Inr ks" "cbor_bytes opts depth v = Inr as" "length ks \<le> length used" "length as \<le> length used'" "v \<noteq> V_undefined"
    using u(2) u'(2) by (auto simp: rewritable_def cbor_bytes.simps[of _ _ "V_text k"] split: if_splits)
  obtain out1 where o: "entries_bytes opts depth (define_property acc k v) = Inr out1" "length out1 = length out + length ks + length as"
    using define_property_bytes[OF Suc.prems(3) b(1,2,5)] by blast
  have l: "length (define_property acc k v) = Suc (length acc)" by (rule define_property_length)
  have w: "\<forall>e \<in> set (define_property acc k v). wf_value (snd e) \<and> transmitted (snd e) = snd e \<and> snd e \<noteq> V_undefined"
    using Suc.prems(4) u'(2) by (auto simp: define_property_set rewritable_def)
  obtain used3 out' where "bs2 = used3 @ rest" "length es = length (define_property acc k v) + n" "keys_ok es"
      "\<forall>e \<in> set es. wf_value (snd e) \<and> transmitted (snd e) = snd e \<and> snd e \<noteq> V_undefined"
      "entries_bytes opts depth es = Inr out'" "length out' \<le> length out1 + length used3"
    using Suc.IH[OF r(4) define_property_keys[OF r(2) Suc.prems(2)] o(1) w] by blast
  then show ?case using u(1) u'(1) b(3,4) o(2) l by - (rule exI[of _ "used @ used' @ used3"], auto)
qed simp

text \<open>How an item can have been read.\<close>

lemma readItem_cases:
  assumes "readItem opts depth bs = Inr (v, rest)"
  obtains (number) b bs1 n where "bs = b # bs1" "readArgument (unat b mod 32) bs1 = Inr (n, rest)" "v = V_int (int n)"
  | (negative) b bs1 n where "bs = b # bs1" "readArgument (unat b mod 32) bs1 = Inr (n, rest)" "v = V_int (- 1 - int n)"
      "is_safe_integer (Fin (of_int (- 1 - int n)))"
  | (bytes) b bs1 n bs2 x where "bs = b # bs1" "readLength (unat b mod 32) Byte_string_length_exceeded (maxByteLength opts) bs1 = Inr (n, bs2)"
      "readBytes n bs2 = Inr (x, rest)" "v = V_bytes x"
  | (str) b bs1 n bs2 x s where "bs = b # bs1" "readLength (unat b mod 32) Text_length_exceeded (maxByteLength opts) bs1 = Inr (n, bs2)"
      "readBytes n bs2 = Inr (x, rest)" "text_decode x = Some s" "v = V_text s"
  | (array) b bs1 n bs2 vs where "bs = b # bs1" "readLength (unat b mod 32) Array_length_exceeded (maxContainerLength opts) bs1 = Inr (n, bs2)"
      "read_items opts (depth + 1) n bs2 = Inr (vs, rest)" "v = V_array vs"
  | (object) b bs1 n bs2 es where "bs = b # bs1" "readLength (unat b mod 32) Map_length_exceeded (maxContainerLength opts) bs1 = Inr (n, bs2)"
      "read_entries opts (depth + 1) n [] bs2 = Inr (es, rest)" "v = V_object Object_prototype False es"
  | (simple) b bs1 where "bs = b # bs1" "readSimple (unat b mod 32) bs1 = Inr (v, rest)"
proof -
  obtain b bs1 where bs: "bs = b # bs1"
    using assms by (cases bs) (auto simp: readItem.simps[of opts depth] readByte_def split: if_splits)
  show thesis
    using assms that[OF bs] by (auto simp: bs readItem.simps[of opts depth] readByte_def Let_def result_simps split: if_splits option.splits)
qed

lemma good_item_step:
  assumes "good_item opts (depth + 1)" "depth \<le> maxDepth opts" shows "good_item opts depth"
  unfolding good_item_def
proof (intro allI impI)
  fix bs v rest assume "readItem opts depth bs = Inr (v, rest)"
  then show "\<exists>used. bs = used @ rest \<and> rewritable opts depth v (length used)"
  proof (cases rule: readItem_cases)
    case (number b bs1 n)
    obtain u where "bs1 = u @ rest" "length (argument_bytes 0 n) \<le> Suc (length u)" "n < 2 ^ 53" using readArgument_used[OF number(2)] by blast
    then show ?thesis using number rewritable_int(1)[OF assms(2), of n] by (intro exI[of _ "b # u"]) simp
  next
    case (negative b bs1 n)
    obtain u where "bs1 = u @ rest" "length (argument_bytes 1 n) \<le> Suc (length u)" "n < 2 ^ 53" using readArgument_used[OF negative(2)] by blast
    then show ?thesis using negative rewritable_int(2)[OF assms(2), of n] by (intro exI[of _ "b # u"]) simp
  next
    case (bytes b bs1 n bs2 x)
    obtain u where "bs1 = u @ bs2" "length (argument_bytes 2 n) \<le> Suc (length u)" "n \<le> maxByteLength opts" using readLength_used[OF bytes(2)] by blast
    then show ?thesis using bytes readBytes_used[OF bytes(3)] assms(2)
      by (intro exI[of _ "b # u @ x"]) (auto simp: rewritable_def cbor_bytes.simps)
  next
    case (str b bs1 n bs2 x s)
    obtain u where "bs1 = u @ bs2" "length (argument_bytes 3 n) \<le> Suc (length u)" "n \<le> maxByteLength opts" using readLength_used[OF str(2)] by blast
    then show ?thesis using str readBytes_used[OF str(3)] assms(2) text_encode_decode[OF str(4)]
      by (intro exI[of _ "b # u @ x"]) (auto simp: rewritable_def cbor_bytes.simps text_bytes_def)
  next
    case (array b bs1 n bs2 vs)
    obtain u where u: "bs1 = u @ bs2" "length (argument_bytes 4 n) \<le> Suc (length u)" "n \<le> maxContainerLength opts" using readLength_used[OF array(2)] by blast
    obtain used out where o: "bs2 = used @ rest" "length vs = n" "list_all wf_value vs" "map transmitted vs = vs"
      "items_bytes opts (depth + 1) vs = Inr out" "length out \<le> length used" using good_items[OF assms(1) array(3)] by blast
    then show ?thesis using array(1,4) u assms(2)
      by (intro exI[of _ "b # u @ used"]) (auto simp: rewritable_def cbor_bytes.simps)
  next
    case (object b bs1 n bs2 es)
    obtain u where u: "bs1 = u @ bs2" "length (argument_bytes 5 n) \<le> Suc (length u)" "n \<le> maxContainerLength opts" using readLength_used[OF object(2)] by blast
    obtain used out where o: "bs2 = used @ rest" "length es = n" "keys_ok es"
      and e: "\<forall>e \<in> set es. wf_value (snd e) \<and> transmitted (snd e) = snd e \<and> snd e \<noteq> V_undefined"
      and out: "entries_bytes opts (depth + 1) es = Inr out" "length out \<le> length used"
      using good_entries[OF assms(1) object(3), of "[]"] by (auto simp: keys_ok_def)
    have f: "filter (\<lambda>e. snd e \<noteq> V_undefined) es = es" "map (\<lambda>e. (fst e, transmitted (snd e))) es = es"
      using e by (auto intro!: map_idI simp: prod_eq_iff)
    then have "transmitted v = v" using object(4) by simp
    moreover have "cbor_bytes opts depth v = Inr (argument_bytes 5 n @ out)" using object(4) f(1) out(1) u(3) o(2) assms(2) by (simp add: cbor_bytes.simps)
    ultimately show ?thesis using object(1,4) u o e out(2)
      by (intro exI[of _ "b # u @ used"]) (auto simp: rewritable_def list_all_iff)
  next
    case (simple b bs1)
    then obtain u where "bs1 = u @ rest" "rewritable opts depth v (Suc (length u))" using rewritable_float[OF assms(2)] by blast
    then show ?thesis using simple(1) by (intro exI[of _ "b # u"]) simp
  qed
qed

lemma read_good: "good_item opts depth"
proof (induction "Suc (maxDepth opts) - depth" arbitrary: depth)
  case 0
  then show ?case by (simp add: good_item_def readItem.simps[of opts depth])
next
  case (Suc n)
  then show ?case using good_item_step[of opts depth] by simp
qed


section \<open>Properties\<close>

lemma reference_returns:
  "cbor_bytes opts depth v \<noteq> Inl Never_returns"
  "items_bytes opts depth vs \<noteq> Inl Never_returns"
  "entries_bytes opts depth es \<noteq> Inl Never_returns"
proof (induction opts depth v and opts depth vs and opts depth es rule: cbor_bytes_items_bytes_entries_bytes.induct)
  case (1 opts depth x)
  then show ?case
    by (cases x) (auto simp: cbor_bytes.simps[of opts depth] text_bytes_def number_bytes_def ebind_Inl split: float64.splits)
qed (auto simp: ebind_Inl text_bytes_def)

lemma decodeCbor_item:
  assumes "decodeCbor bs options = Inr v"
  obtains opts where "resolveOptions options = Inr opts" "length bs \<le> maxByteLength opts" "readItem opts 0 bs = Inr (v, [])"
  using assms by (auto simp: decodeCbor_def result_simps split: if_splits)

lemma cbor_roundtrip_core:
  assumes "encodeCbor v options = Inr bs" "wf_value v"
  shows "decodeCbor bs options = Inr (transmitted v)"
proof -
  obtain opts where o: "resolveOptions options = Inr opts" "cbor_bytes opts 0 v = Inr bs" "length bs \<le> maxByteLength opts"
    by (rule encodeCbor_bytes[OF assms(1)])
  show ?thesis using read_written(1)[OF o(2) resolveOptions_ok[OF o(1)] assms(2), of "[]"] o by (simp add: decodeCbor_def)
qed

lemma default_options: "resolveOptions None = Inr \<lparr>maxByteLength = 16777216, maxContainerLength = 1000000, maxDepth = 64\<rparr>"
  by (simp add: resolveOptions_def resolveLimit_def or_default_def nat_of_num_def DEFAULT_MAX_CBOR_BYTE_LENGTH_def
      DEFAULT_MAX_CBOR_CONTAINER_LENGTH_def DEFAULT_MAX_CBOR_DEPTH_def MAX_UINT32_def MAX_CONFIGURED_DEPTH_def)

lemmas encode_eval = cbor_bytes.simps text_bytes_def number_bytes_def argument_bytes_def nat_of_num_def byte_of_def
  text_encode_def text_decode_def utf8_char_def utf16_char_def high_surrogate_def low_surrogate_def V_int_def

lemmas decode_eval = decodeCbor_def readItem.simps readByte_def readBytes_def readArgument_def readLength_def readSimple_def

lemma decoded_wf: "decodeCbor bs options = Inr v \<Longrightarrow> wf_value v"
  using good_itemD[OF read_good] by (blast elim: decodeCbor_item dest: rewritable_def[THEN iffD1])

text \<open>C24. Whatever the encoder accepts, within its limits, the decoder reads back with the same options: the
  value itself, as a plain object without the keys whose value is undefined. The output is within the configured limit.\<close>

theorem cbor_roundtrip:
  assumes "encodeCbor v options = Inr bs" "wf_value v"
  shows "decodeCbor bs options = Inr (transmitted v) \<and> (\<exists>opts. resolveOptions options = Inr opts \<and> length bs \<le> maxByteLength opts)"
  using cbor_roundtrip_core[OF assms] encodeCbor_bytes[OF assms(1)] by metis

theorem cbor_roundtrip_witness:
  "decodeCbor [0xA1, 0x61, 0x61, 0x82, 0xF6, 0x18, 0x2A] None =
     Inr (V_object Object_prototype False [([97], V_array [V_null, V_int 42])])"
proof -
  let ?v = "V_object Null_prototype False [([97], V_array [V_null, V_int 42]), ([98], V_undefined)]"
  have "encodeCbor ?v None = Inr [0xA1, 0x61, 0x61, 0x82, 0xF6, 0x18, 0x2A]"
    using encodeCbor_spec[OF default_options, of ?v] by (simp add: encode_eval)
  moreover have "wf_value ?v" by (simp add: keys_ok_def key_before_def array_index_def digit_unit_def V_int_def is_double_def)
  ultimately show ?thesis using cbor_roundtrip[of ?v None] by (simp add: V_int_def)
qed

text \<open>C25. Whatever the strict decoder accepts is a well-formed value, and the encoder accepts it again
  with the same options: its encoding is no longer than the bytes read and decodes to the same value.\<close>

theorem cbor_decoded_reencodes:
  assumes "decodeCbor bs options = Inr v"
  shows "wf_value v \<and> (\<exists>out. encodeCbor v options = Inr out \<and> length out \<le> length bs \<and> decodeCbor out options = Inr v)"
proof -
  obtain opts where o: "resolveOptions options = Inr opts" "length bs \<le> maxByteLength opts" "readItem opts 0 bs = Inr (v, [])"
    by (rule decodeCbor_item[OF assms])
  obtain out where v: "wf_value v" "transmitted v = v" and out: "cbor_bytes opts 0 v = Inr out" "length out \<le> length bs"
    using good_itemD[OF read_good o(3)] by (auto simp: rewritable_def)
  have "encodeCbor v options = Inr out" using encodeCbor_spec[OF o(1), of v] out o(2) by simp
  then show ?thesis using cbor_roundtrip_core[OF _ v(1)] v out(2) by auto
qed

theorem cbor_decoded_reencodes_witness:
  "\<exists>out. encodeCbor (V_array [V_int 1]) None = Inr out \<and> length out \<le> 3 \<and> decodeCbor out None = Inr (V_array [V_int 1])"
proof -
  have "decodeCbor [0x81, 0x18, 0x01] None = Inr (V_array [V_int 1])" by (simp add: decode_eval default_options)
  from cbor_decoded_reencodes[OF this] show ?thesis by (simp add: numeral_3_eq_3)
qed

text \<open>C26. Encoding always returns: the loop that grows the buffer ends whatever the value and the
  limits are.\<close>

theorem cbor_encoding_returns: "encodeCbor v options \<noteq> Inl Never_returns"
proof (cases "resolveOptions options")
  case (Inl e)
  then show ?thesis by (auto simp: encodeCbor_def resolveOptions_def resolveLimit_def ebind_Inl Let_def split: if_splits)
next
  case (Inr opts)
  then show ?thesis using encodeCbor_spec[OF Inr, of v] reference_returns(1)[of opts 0 v] by (auto split: sum.splits if_splits)
qed

end
