(* ===== verification/Framing.thy ===== *)
theory Framing
  imports Cbor
begin


text \<open>
  The framing of \<^verbatim>\<open>packages/protocol/src/framing.ts\<close>: length-prefixed payloads and the incremental \<^verbatim>\<open>FrameDecoder\<close> with its
  partial header and its payload blocks, shown to split any chunking of a byte stream the way the whole stream splits.
\<close>

section \<open>Frames\<close>

datatype frame_error =
    Frame_limit_out_of_range | Payload_too_long | Header_incomplete | Frame_length_exceeded nat | Not_exactly_one_payload
  | Decoder_ended | Decoder_failed | Truncated_frame | Push_never_returns

definition FRAME_HEADER_LENGTH :: nat where "FRAME_HEADER_LENGTH = 4"

definition PAYLOAD_BLOCK_SIZE :: nat where "PAYLOAD_BLOCK_SIZE = 64 * 1024"

definition DEFAULT_MAX_FRAME_LENGTH :: nat where "DEFAULT_MAX_FRAME_LENGTH = 16 * 1024 * 1024"

definition resolveMaxFrameLength :: "jsnum option \<Rightarrow> frame_error + nat" where
  "resolveMaxFrameLength maxFrameLength =
     (let value = or_default maxFrameLength DEFAULT_MAX_FRAME_LENGTH
      in if \<not> is_safe_integer value \<or> js_lt value (Fin 0) \<or> js_gt value (Fin (of_nat MAX_UINT32)) then Inl Frame_limit_out_of_range
         else Inr (nat_of_num value))"

definition encodeFrame :: "byte list \<Rightarrow> frame_error + byte list" where
  "encodeFrame payload =
     (if MAX_UINT32 < length payload then Inl Payload_too_long
      else let n = length payload; frame = replicate (FRAME_HEADER_LENGTH + n) 0;
               frame = frame[0 := byte_of (n div 2 ^ 24), 1 := byte_of (n div 2 ^ 16), 2 := byte_of (n div 2 ^ 8), 3 := byte_of n]
           in Inr (set_bytes frame FRAME_HEADER_LENGTH payload))"

definition assertCompleteFrame :: "byte list \<Rightarrow> jsnum option \<Rightarrow> frame_error + unit" where
  "assertCompleteFrame frame maxFrameLength =
     (if length frame < FRAME_HEADER_LENGTH then Inl Header_incomplete
      else let n = uint32_of (take 4 frame)
           in ebind (resolveMaxFrameLength maxFrameLength) (\<lambda>limit.
                if limit < n then Inl (Frame_length_exceeded n)
                else if length frame \<noteq> FRAME_HEADER_LENGTH + n then Inl Not_exactly_one_payload
                else Inr ()))"

section \<open>The decoder\<close>

datatype decoder_state = Open | Ended | Failed

text \<open>\<^verbatim>\<open>FrameDecoder\<close>. The current payload block is one of the blocks of the list, so it is held as its index there.\<close>

record frame_decoder =
  header :: "byte list"
  headerLength :: nat
  maxFrameLength :: nat
  payloadBlocks :: "byte list list"
  currentPayloadBlock :: "nat option"
  currentPayloadBlockLength :: nat
  expectedPayloadLength :: "nat option"
  payloadLength :: nat
  dstate :: decoder_state

definition new_FrameDecoder :: "jsnum option \<Rightarrow> frame_error + frame_decoder" where
  "new_FrameDecoder options =
     ebind (resolveMaxFrameLength options) (\<lambda>limit.
       Inr \<lparr>header = replicate FRAME_HEADER_LENGTH 0, headerLength = 0, maxFrameLength = limit, payloadBlocks = [],
            currentPayloadBlock = None, currentPayloadBlockLength = 0, expectedPayloadLength = None, payloadLength = 0, dstate = Open\<rparr>)"

definition fail_decoder :: "frame_decoder \<Rightarrow> frame_decoder" where
  "fail_decoder fd = fd\<lparr>dstate := Failed, headerLength := 0, payloadBlocks := [], currentPayloadBlock := None,
     currentPayloadBlockLength := 0, expectedPayloadLength := None, payloadLength := 0\<rparr>"

text \<open>The header part of the loop body: the header needs more bytes, the frame is too long or empty, or its payload starts.\<close>

datatype header_outcome = Needs_more | Too_long nat | Empty_frame | Payload_starts

definition read_header :: "frame_decoder \<Rightarrow> byte list \<Rightarrow> header_outcome \<times> frame_decoder \<times> byte list" where
  "read_header fd chunk =
     (let headerBytes = min (FRAME_HEADER_LENGTH - headerLength fd) (length chunk);
          fd = fd\<lparr>header := set_bytes (header fd) (headerLength fd) (take headerBytes chunk), headerLength := headerLength fd + headerBytes\<rparr>;
          chunk = drop headerBytes chunk
      in if headerLength fd < FRAME_HEADER_LENGTH then (Needs_more, fd, chunk)
         else let n = uint32_of (header fd); fd = fd\<lparr>headerLength := 0\<rparr>
              in if maxFrameLength fd < n then (Too_long n, fd, chunk)
                 else if n = 0 then (Empty_frame, fd, chunk)
                 else (Payload_starts, fd\<lparr>expectedPayloadLength := Some n, payloadBlocks := [], currentPayloadBlock := None,
                         currentPayloadBlockLength := 0, payloadLength := 0\<rparr>, chunk))"

definition current_block :: "frame_decoder \<Rightarrow> byte list option" where
  "current_block fd = map_option (\<lambda>i. payloadBlocks fd ! i) (currentPayloadBlock fd)"

text \<open>The body of the inner loop: open a new block when there is none or it is full, and copy into it.\<close>

definition open_block :: "nat \<Rightarrow> frame_decoder \<Rightarrow> frame_decoder" where
  "open_block expected fd =
     (if (case current_block fd of None \<Rightarrow> True | Some block \<Rightarrow> currentPayloadBlockLength fd = length block)
      then fd\<lparr>payloadBlocks := payloadBlocks fd @ [replicate (min PAYLOAD_BLOCK_SIZE (expected - payloadLength fd)) 0],
              currentPayloadBlock := Some (length (payloadBlocks fd)), currentPayloadBlockLength := 0\<rparr>
      else fd)"

definition fill_block :: "frame_decoder \<Rightarrow> byte list \<Rightarrow> frame_decoder \<times> byte list" where
  "fill_block fd chunk =
     (case currentPayloadBlock fd of
        None \<Rightarrow> (fd, chunk)
      | Some i \<Rightarrow>
          let block = payloadBlocks fd ! i;
              payloadBytes = min (length block - currentPayloadBlockLength fd) (length chunk)
          in (fd\<lparr>payloadBlocks := (payloadBlocks fd)[i := set_bytes block (currentPayloadBlockLength fd) (take payloadBytes chunk)],
                 currentPayloadBlockLength := currentPayloadBlockLength fd + payloadBytes,
                 payloadLength := payloadLength fd + payloadBytes\<rparr>,
              drop payloadBytes chunk))"

partial_function (option) fill_payload :: "nat \<Rightarrow> frame_decoder \<Rightarrow> byte list \<Rightarrow> (frame_decoder \<times> byte list) option" where
  "fill_payload expected fd chunk =
     (if chunk \<noteq> [] \<and> payloadLength fd < expected
      then let r = fill_block (open_block expected fd) chunk in fill_payload expected (fst r) (snd r)
      else Some (fd, chunk))"

definition join_blocks :: "nat \<Rightarrow> byte list list \<Rightarrow> byte list" where
  "join_blocks expected blocks =
     fst (foldl (\<lambda>(payload, offset) block. (set_bytes payload offset block, offset + length block)) (replicate expected 0, 0) blocks)"

definition finish_payload :: "nat \<Rightarrow> frame_decoder \<Rightarrow> frame_decoder \<times> byte list list" where
  "finish_payload expected fd =
     (if payloadLength fd = expected
      then (fd\<lparr>payloadBlocks := [], currentPayloadBlock := None, currentPayloadBlockLength := 0, expectedPayloadLength := None, payloadLength := 0\<rparr>,
            [if length (payloadBlocks fd) = 1 then payloadBlocks fd ! 0 else join_blocks expected (payloadBlocks fd)])
      else (fd, []))"

definition enter_payload :: "frame_decoder \<Rightarrow> byte list \<Rightarrow> header_outcome \<times> frame_decoder \<times> byte list" where
  "enter_payload fd chunk = (if expectedPayloadLength fd = None then read_header fd chunk else (Payload_starts, fd, chunk))"

partial_function (option) push_loop :: "frame_decoder \<Rightarrow> byte list \<Rightarrow> byte list list \<Rightarrow> (frame_decoder \<times> (frame_error + byte list list)) option" where
  "push_loop fd chunk frames =
     (if chunk = [] then Some (fd, Inr frames)
      else case enter_payload fd chunk of
          (Needs_more, fd, chunk) \<Rightarrow> push_loop fd chunk frames
        | (Too_long n, fd, chunk) \<Rightarrow> Some (fail_decoder fd, Inl (Frame_length_exceeded n))
        | (Empty_frame, fd, chunk) \<Rightarrow> push_loop fd chunk (frames @ [[]])
        | (Payload_starts, fd, chunk) \<Rightarrow>
            (case expectedPayloadLength fd of
               None \<Rightarrow> push_loop fd chunk frames
             | Some expected \<Rightarrow>
                 Option.bind (fill_payload expected fd chunk) (\<lambda>r.
                   let f = finish_payload expected (fst r) in push_loop (fst f) (snd r) (frames @ snd f))))"

definition push :: "frame_decoder \<Rightarrow> byte list \<Rightarrow> frame_decoder \<times> (frame_error + byte list list)" where
  "push fd chunk =
     (case dstate fd of
        Ended \<Rightarrow> (fd, Inl Decoder_ended)
      | Failed \<Rightarrow> (fd, Inl Decoder_failed)
      | Open \<Rightarrow> (case push_loop fd chunk [] of None \<Rightarrow> (fd, Inl Push_never_returns) | Some r \<Rightarrow> r))"

definition end_decoder :: "frame_decoder \<Rightarrow> frame_decoder \<times> (frame_error + unit)" where
  "end_decoder fd =
     (case dstate fd of
        Ended \<Rightarrow> (fd, Inl Decoder_ended)
      | Failed \<Rightarrow> (fd, Inl Decoder_failed)
      | Open \<Rightarrow>
          if headerLength fd \<noteq> 0 \<or> expectedPayloadLength fd \<noteq> None then (fail_decoder fd, Inl Truncated_frame)
          else (fd\<lparr>dstate := Ended\<rparr>, Inr ()))"

section \<open>The reference: splitting a whole byte string\<close>

function split_frames :: "nat \<Rightarrow> byte list \<Rightarrow> frame_error + (byte list list \<times> byte list)" where
  "split_frames limit bs =
     (if length bs < 4 then Inr ([], bs)
      else let n = uint32_of (take 4 bs)
           in if limit < n then Inl (Frame_length_exceeded n)
              else if length bs < 4 + n then Inr ([], bs)
              else ebind (split_frames limit (drop (4 + n) bs)) (\<lambda>(fs, rest). Inr (take n (drop 4 bs) # fs, rest)))"
  by pat_completeness auto
termination by (relation "measure (\<lambda>(limit, bs). length bs)") auto

declare split_frames.simps [simp del]

lemma split_frames_append:
  "split_frames limit (as @ bs) =
     ebind (split_frames limit as) (\<lambda>(fs, rest). ebind (split_frames limit (rest @ bs)) (\<lambda>(gs, r). Inr (fs @ gs, r)))"
proof (induction limit as rule: split_frames.induct)
  case (1 limit as)
  define n where "n = uint32_of (take 4 as)"
  show ?case
  proof (cases "length as < 4 \<or> \<not> limit < n \<and> length as < 4 + n")
    case True
    then have "split_frames limit as = Inr ([], as)" by (auto simp: split_frames.simps[of limit as] n_def Let_def)
    then show ?thesis by (cases "split_frames limit (as @ bs)") auto
  next
    case False
    then show ?thesis
    proof (cases "limit < n")
      case True
      then show ?thesis using False by (simp add: split_frames.simps[of limit as] split_frames.simps[of limit "as @ bs"] n_def[symmetric] Let_def)
    next
      case le: False
      then have l: "4 \<le> length as" "4 + n \<le> length as" using False by auto
      have "split_frames limit (drop (4 + n) as @ bs) =
          ebind (split_frames limit (drop (4 + n) as)) (\<lambda>(fs, rest). ebind (split_frames limit (rest @ bs)) (\<lambda>(gs, r). Inr (fs @ gs, r)))"
        using "1.IH"[OF _ n_def le] l by simp
      moreover have "split_frames limit (as @ bs) =
          ebind (split_frames limit (drop (4 + n) as @ bs)) (\<lambda>(fs, rest). Inr (take n (drop 4 as) # fs, rest))"
        using l le by (simp add: split_frames.simps[of limit "as @ bs"] n_def[symmetric] Let_def)
      moreover have "split_frames limit as = ebind (split_frames limit (drop (4 + n) as)) (\<lambda>(fs, rest). Inr (take n (drop 4 as) # fs, rest))"
        using l le by (simp add: split_frames.simps[of limit as] n_def[symmetric] Let_def)
      ultimately show ?thesis by (auto simp: ebind_def split: sum.splits)
    qed
  qed
qed

lemma encodeFrame_bytes: "encodeFrame payload = (if MAX_UINT32 < length payload then Inl Payload_too_long else Inr (uint32_bytes (length payload) @ payload))"
proof -
  have r: "replicate (4 + n) 0 = 0 # 0 # 0 # 0 # replicate n (0 :: byte)" for n by (simp add: numeral_eq_Suc)
  have u: "(0 # 0 # 0 # 0 # bs)[0 := a, 1 := b, 2 := c, 3 := d] = [a, b, c, d] @ bs" for a b c d :: byte and bs by (simp add: numeral_eq_Suc)
  show ?thesis unfolding encodeFrame_def FRAME_HEADER_LENGTH_def Let_def r u by (simp add: set_bytes_def uint32_bytes_def)
qed


section \<open>The invariant of the decoder and the bytes it holds\<close>

definition received :: "frame_decoder \<Rightarrow> byte list" where
  "received fd = (case currentPayloadBlock fd of None \<Rightarrow> []
     | Some i \<Rightarrow> concat (take i (payloadBlocks fd)) @ take (currentPayloadBlockLength fd) (payloadBlocks fd ! i))"

definition pending :: "frame_decoder \<Rightarrow> byte list" where
  "pending fd = (case expectedPayloadLength fd of None \<Rightarrow> take (headerLength fd) (header fd) | Some n \<Rightarrow> uint32_bytes n @ received fd)"

definition blocks_ok :: "nat \<Rightarrow> frame_decoder \<Rightarrow> bool" where
  "blocks_ok n fd \<longleftrightarrow> (case currentPayloadBlock fd of None \<Rightarrow> payloadBlocks fd = [] \<and> payloadLength fd = 0
     | Some i \<Rightarrow> length (payloadBlocks fd) = Suc i \<and> currentPayloadBlockLength fd \<le> length (payloadBlocks fd ! i) \<and>
         payloadLength fd = length (concat (take i (payloadBlocks fd))) + currentPayloadBlockLength fd \<and>
         length (concat (payloadBlocks fd)) \<le> n)"

definition decoder_ok :: "frame_decoder \<Rightarrow> bool" where
  "decoder_ok fd \<longleftrightarrow> dstate fd = Open \<and> length (header fd) = 4 \<and> headerLength fd < 4 \<and> maxFrameLength fd \<le> MAX_UINT32 \<and>
     (case expectedPayloadLength fd of None \<Rightarrow> True
      | Some n \<Rightarrow> headerLength fd = 0 \<and> n \<le> maxFrameLength fd \<and> payloadLength fd < n \<and> blocks_ok n fd)"

text \<open>The fields the payload part of the loop leaves alone.\<close>

definition frame_part :: "frame_decoder \<Rightarrow> byte list \<times> nat \<times> nat \<times> nat option \<times> decoder_state" where
  "frame_part fd = (header fd, headerLength fd, maxFrameLength fd, expectedPayloadLength fd, dstate fd)"

lemma received_length: "blocks_ok n fd \<Longrightarrow> length (received fd) = payloadLength fd"
  by (auto simp: blocks_ok_def received_def split: option.splits)

lemma take_Suc_all: "length xs = Suc i \<Longrightarrow> xs = take i xs @ [xs ! i]"
  by (metis lessI order_refl take_Suc_conv_app_nth take_all)

lemma open_block_ok:
  assumes "blocks_ok n fd" "payloadLength fd < n"
  obtains i where "blocks_ok n (open_block n fd)" "received (open_block n fd) = received fd" "payloadLength (open_block n fd) = payloadLength fd"
    "frame_part (open_block n fd) = frame_part fd" "currentPayloadBlock (open_block n fd) = Some i"
    "currentPayloadBlockLength (open_block n fd) < length (payloadBlocks (open_block n fd) ! i)"
proof (cases "currentPayloadBlock fd")
  case None
  then show ?thesis using assms that[of 0]
    by (simp add: open_block_def current_block_def blocks_ok_def received_def frame_part_def PAYLOAD_BLOCK_SIZE_def)
next
  case (Some i)
  then have b: "length (payloadBlocks fd) = Suc i" "currentPayloadBlockLength fd \<le> length (payloadBlocks fd ! i)"
      "payloadLength fd = length (concat (take i (payloadBlocks fd))) + currentPayloadBlockLength fd" "length (concat (payloadBlocks fd)) \<le> n"
    using assms(1) by (auto simp: blocks_ok_def)
  show ?thesis
  proof (cases "currentPayloadBlockLength fd = length (payloadBlocks fd ! i)")
    case False
    then have "open_block n fd = fd" using Some by (simp add: open_block_def current_block_def)
    then show ?thesis using that[of i] assms(1) Some b(2) False by simp
  next
    case True
    have c: "concat (payloadBlocks fd) = concat (take i (payloadBlocks fd)) @ payloadBlocks fd ! i"
      by (subst take_Suc_all[OF b(1)]) simp
    then have l: "length (concat (payloadBlocks fd)) = payloadLength fd" using b(3) True by simp
    have r: "received fd = concat (payloadBlocks fd)" using Some True c by (simp add: received_def)
    define z where "z = replicate (min PAYLOAD_BLOCK_SIZE (n - payloadLength fd)) (0 :: byte)"
    have z: "0 < length z" "length z \<le> n - payloadLength fd" using assms(2) by (simp_all add: z_def PAYLOAD_BLOCK_SIZE_def)
    have o: "open_block n fd = fd\<lparr>payloadBlocks := payloadBlocks fd @ [z], currentPayloadBlock := Some (Suc i), currentPayloadBlockLength := 0\<rparr>"
      using Some True b(1) by (simp add: open_block_def current_block_def z_def)
    show ?thesis using that[of "Suc i"] z l r b(1) assms(2) unfolding o blocks_ok_def by (auto simp: received_def frame_part_def nth_append)
  qed
qed

lemma fill_block_ok:
  assumes "blocks_ok n fd" "currentPayloadBlock fd = Some i" "currentPayloadBlockLength fd < length (payloadBlocks fd ! i)" "chunk \<noteq> []"
  obtains k where "0 < k" "k \<le> length chunk" "payloadLength fd + k \<le> n" "snd (fill_block fd chunk) = drop k chunk"
    "blocks_ok n (fst (fill_block fd chunk))" "received (fst (fill_block fd chunk)) = received fd @ take k chunk"
    "payloadLength (fst (fill_block fd chunk)) = payloadLength fd + k" "frame_part (fst (fill_block fd chunk)) = frame_part fd"
proof -
  define block l where "block = payloadBlocks fd ! i" and "l = currentPayloadBlockLength fd"
  define k where "k = min (length block - l) (length chunk)"
  have b: "length (payloadBlocks fd) = Suc i" "payloadLength fd = length (concat (take i (payloadBlocks fd))) + l" "length (concat (payloadBlocks fd)) \<le> n"
    using assms(1,2) by (auto simp: blocks_ok_def l_def)
  have c: "concat (payloadBlocks fd) = concat (take i (payloadBlocks fd)) @ block"
    unfolding block_def by (subst take_Suc_all[OF b(1)]) simp
  have k: "0 < k" "k \<le> length chunk" "l + k \<le> length block" using assms(3,4) by (auto simp: k_def block_def l_def)
  define block' where "block' = set_bytes block l (take k chunk)"
  have block': "length block' = length block" "take (l + k) block' = take l block @ take k chunk"
    using k by (simp_all add: block'_def set_bytes_def)
  define fd' where "fd' = fd\<lparr>payloadBlocks := (payloadBlocks fd)[i := block'], currentPayloadBlockLength := l + k, payloadLength := payloadLength fd + k\<rparr>"
  have f: "fill_block fd chunk = (fd', drop k chunk)"
    using assms(2) by (simp add: fill_block_def Let_def fd'_def block'_def block_def l_def k_def)
  have "(payloadBlocks fd)[i := block'] = take i (payloadBlocks fd) @ [block']"
    using b(1) by (metis lessI take_Suc_all upd_conv_take_nth_drop Cons_nth_drop_Suc drop_eq_Nil order_refl)
  then have c': "concat ((payloadBlocks fd)[i := block']) = concat (take i (payloadBlocks fd)) @ block'" by simp
  have n: "payloadLength fd + k \<le> n" using b(2,3) c k(3) by simp
  have ok: "blocks_ok n fd'" unfolding blocks_ok_def using b c c' k(3) block'(1) assms(2) by (simp add: fd'_def)
  have r: "received fd' = received fd @ take k chunk"
    using assms(2) b(1) block'(2) by (simp add: received_def fd'_def l_def block_def)
  show ?thesis
    using that[of k] k(1,2) n ok r unfolding f fst_conv snd_conv by (simp add: fd'_def frame_part_def)
qed

lemma fill_payload_spec:
  assumes "blocks_ok n fd" "payloadLength fd \<le> n"
  shows "\<exists>fd'. fill_payload n fd chunk = Some (fd', drop (n - payloadLength fd) chunk) \<and> blocks_ok n fd' \<and>
     received fd' = received fd @ take (n - payloadLength fd) chunk \<and> frame_part fd' = frame_part fd \<and>
     payloadLength fd' = payloadLength fd + min (n - payloadLength fd) (length chunk)"
  using assms
proof (induction "length chunk" arbitrary: fd chunk rule: less_induct)
  case less
  show ?case
  proof (cases "chunk \<noteq> [] \<and> payloadLength fd < n")
    case False
    then show ?thesis using less.prems by (subst fill_payload.simps) auto
  next
    case True
    define fd1 where "fd1 = open_block n fd"
    obtain i where o: "blocks_ok n fd1" "received fd1 = received fd" "payloadLength fd1 = payloadLength fd" "frame_part fd1 = frame_part fd"
        "currentPayloadBlock fd1 = Some i" "currentPayloadBlockLength fd1 < length (payloadBlocks fd1 ! i)"
      using open_block_ok[OF less.prems(1)] True unfolding fd1_def by metis
    obtain k where k: "0 < k" "k \<le> length chunk" "payloadLength fd1 + k \<le> n" "snd (fill_block fd1 chunk) = drop k chunk"
        "blocks_ok n (fst (fill_block fd1 chunk))" "received (fst (fill_block fd1 chunk)) = received fd1 @ take k chunk"
        "payloadLength (fst (fill_block fd1 chunk)) = payloadLength fd1 + k" "frame_part (fst (fill_block fd1 chunk)) = frame_part fd1"
      using fill_block_ok[OF o(1,5,6)] True by metis
    define fd2 where "fd2 = fst (fill_block fd1 chunk)"
    have step: "fill_payload n fd chunk = fill_payload n fd2 (drop k chunk)"
      using True k(4) by (subst fill_payload.simps) (simp add: fd1_def[symmetric] fd2_def Let_def)
    define j where "j = n - payloadLength fd2"
    have m: "n - payloadLength fd = k + j" and p2: "payloadLength fd2 = payloadLength fd + k" "payloadLength fd2 \<le> n"
      using k(3,7) o(3) by (simp_all add: fd2_def j_def)
    have "length (drop k chunk) < length chunk" using k(1) True by (cases chunk) auto
    then obtain fd' where "fill_payload n fd2 (drop k chunk) = Some (fd', drop j (drop k chunk))" "blocks_ok n fd'"
        "received fd' = received fd2 @ take j (drop k chunk)" "frame_part fd' = frame_part fd2"
        "payloadLength fd' = payloadLength fd2 + min j (length chunk - k)"
      using less.hyps[of "drop k chunk" fd2] k(5) p2(2) unfolding fd2_def[symmetric] j_def[symmetric] by auto
    then show ?thesis using k(2,6,8) o(2,4) p2(1) unfolding step m fd2_def[symmetric]
      by (auto simp: take_add drop_drop add.commute[of j k])
  qed
qed

lemma join_blocks_concat:
  assumes "length (concat blocks) = n" shows "join_blocks n blocks = concat blocks"
proof -
  have "foldl (\<lambda>(payload, offset) block. (set_bytes payload offset block, offset + length block)) (p, offset) bs =
      (take offset p @ concat bs @ drop (offset + length (concat bs)) p, offset + length (concat bs))"
    if "offset + length (concat bs) \<le> length p" for p :: "byte list" and offset bs
    using that
  proof (induction bs arbitrary: p offset)
    case (Cons b bs)
    have "offset + length b + length (concat bs) \<le> length (set_bytes p offset b)" using Cons.prems by (simp add: set_bytes_def)
    from Cons.IH[OF this] show ?case using Cons.prems by (simp add: set_bytes_def ac_simps)
  qed simp
  from this[of 0 blocks "replicate n 0"] assms show ?thesis by (simp add: join_blocks_def)
qed


lemma uint32_bytes_of: "length bs = 4 \<Longrightarrow> uint32_bytes (uint32_of bs) = bs"
proof -
  assume "length bs = 4"
  then obtain a b c d where bs: "bs = [a, b, c, d]" by (auto simp: numeral_eq_Suc length_Suc_conv)
  have "uint32_of bs div 2 ^ 24 mod 256 = unat a" "uint32_of bs div 2 ^ 16 mod 256 = unat b" "uint32_of bs div 2 ^ 8 mod 256 = unat c"
    "uint32_of bs mod 256 = unat d"
  proof -
    define A B C D where "A = unat a" and "B = unat b" and "C = unat c" and "D = unat d"
    have l: "A < 256" "B < 256" "C < 256" "D < 256" by (simp_all only: A_def B_def C_def D_def byte_less)
    have n: "uint32_of bs = ((A * 256 + B) * 256 + C) * 256 + D" by (simp add: bs A_def B_def C_def D_def)
    have 8: "uint32_of bs div 2 ^ 8 = (A * 256 + B) * 256 + C" "uint32_of bs mod 256 = D"
      using digits_base[OF l(4), of "(A * 256 + B) * 256 + C"] unfolding n by simp_all
    have 16: "uint32_of bs div 2 ^ 16 = A * 256 + B" "uint32_of bs div 2 ^ 8 mod 256 = C"
      using digits_base[OF l(3), of "A * 256 + B"] 8(1) div_mult2_eq[of "uint32_of bs" "2 ^ 8" "2 ^ 8"] by (simp_all only:) simp
    have 24: "uint32_of bs div 2 ^ 24 = A" "uint32_of bs div 2 ^ 16 mod 256 = B"
      using digits_base[OF l(2), of A] 16(1) div_mult2_eq[of "uint32_of bs" "2 ^ 16" "2 ^ 8"] by (simp_all only:) simp
    show "uint32_of bs div 2 ^ 24 mod 256 = A" "uint32_of bs div 2 ^ 16 mod 256 = B" "uint32_of bs div 2 ^ 8 mod 256 = C" "uint32_of bs mod 256 = D"
      using 8(2) 16(2) 24 l(1) by simp_all
  qed
  then show ?thesis unfolding uint32_bytes_def bs
    by (metis byte_of_unat unat_byte_of)
qed

section \<open>Pushing chunks splits the stream\<close>

text \<open>The outcome of the loop on the bytes that arrive, in terms of the reference.\<close>

definition loop_spec :: "(frame_decoder \<times> (frame_error + byte list list)) option \<Rightarrow> nat \<Rightarrow> byte list \<Rightarrow> byte list list \<Rightarrow> bool" where
  "loop_spec result limit bs frames \<longleftrightarrow>
     (\<exists>fd r. result = Some (fd, r) \<and>
       (case split_frames limit bs of
          Inl e \<Rightarrow> r = Inl e \<and> dstate fd = Failed
        | Inr (fs, rest) \<Rightarrow> r = Inr (frames @ fs) \<and> decoder_ok fd \<and> pending fd = rest \<and> maxFrameLength fd = limit))"

lemma pending_incomplete:
  assumes "decoder_ok fd" shows "split_frames (maxFrameLength fd) (pending fd) = Inr ([], pending fd)"
proof (cases "expectedPayloadLength fd")
  case None
  then show ?thesis using assms by (simp add: split_frames.simps pending_def decoder_ok_def)
next
  case (Some n)
  then have n: "n \<le> maxFrameLength fd" "n < 2 ^ 32" "length (received fd) < n"
    using assms received_length[of n fd] by (auto simp: decoder_ok_def MAX_UINT32_def)
  then show ?thesis using Some uint32_roundtrip[OF n(2)]
    by (simp add: split_frames.simps[of "maxFrameLength fd"] pending_def Let_def)
qed

lemma split_one:
  assumes "length h = 4" "uint32_of h = length p" "length p \<le> limit"
  shows "split_frames limit (h @ p @ bs) = ebind (split_frames limit bs) (\<lambda>(fs, rest). Inr (p # fs, rest))"
  using assms by (simp add: split_frames.simps[of limit "h @ p @ bs"] Let_def)

lemma loop_spec_add:
  assumes "loop_spec result limit bs (frames @ [p])" "length p \<le> limit" "limit \<le> MAX_UINT32"
  shows "loop_spec result limit (uint32_bytes (length p) @ p @ bs) frames"
proof -
  have "uint32_of (uint32_bytes (length p)) = length p" using assms(2,3) by (intro uint32_roundtrip) (simp add: MAX_UINT32_def)
  then have "split_frames limit (uint32_bytes (length p) @ p @ bs) = ebind (split_frames limit bs) (\<lambda>(fs, rest). Inr (p # fs, rest))"
    using assms(2) by (intro split_one) simp_all
  then show ?thesis using assms(1) by (cases "split_frames limit bs") (auto simp: loop_spec_def)
qed

lemma finish_payload_done:
  assumes "blocks_ok n fd" "payloadLength fd = n" "0 < n"
  shows "snd (finish_payload n fd) = [received fd]"
proof -
  obtain i where i: "currentPayloadBlock fd = Some i" using assms by (auto simp: blocks_ok_def split: option.splits)
  then have b: "length (payloadBlocks fd) = Suc i" "currentPayloadBlockLength fd \<le> length (payloadBlocks fd ! i)"
      "n = length (concat (take i (payloadBlocks fd))) + currentPayloadBlockLength fd" "length (concat (payloadBlocks fd)) \<le> n"
    using assms by (auto simp: blocks_ok_def)
  have c: "concat (payloadBlocks fd) = concat (take i (payloadBlocks fd)) @ payloadBlocks fd ! i"
    by (subst take_Suc_all[OF b(1)]) simp
  then have "currentPayloadBlockLength fd = length (payloadBlocks fd ! i)" using b(2-4) by simp
  then have r: "received fd = concat (payloadBlocks fd)" using i c by (simp add: received_def)
  show ?thesis
  proof (cases "length (payloadBlocks fd) = 1")
    case True
    then show ?thesis using r b(1) c assms(2) by (simp add: finish_payload_def)
  next
    case False
    have "length (concat (payloadBlocks fd)) = n" using r received_length[OF assms(1)] assms(2) by simp
    then show ?thesis using False r assms(2) by (simp add: finish_payload_def join_blocks_concat)
  qed
qed

lemma payload_spec:
  assumes ok: "decoder_ok fd" and n: "expectedPayloadLength fd = Some n"
    and rest: "\<And>fd' frames'. decoder_ok fd' \<Longrightarrow> maxFrameLength fd' = maxFrameLength fd \<Longrightarrow>
      loop_spec (push_loop fd' (drop (n - payloadLength fd) chunk) frames') (maxFrameLength fd') (pending fd' @ drop (n - payloadLength fd) chunk) frames'"
  shows "loop_spec (Option.bind (fill_payload n fd chunk) (\<lambda>r. let f = finish_payload n (fst r) in push_loop (fst f) (snd r) (frames @ snd f)))
      (maxFrameLength fd) (pending fd @ chunk) frames"
proof -
  define k where "k = n - payloadLength fd"
  have p: "payloadLength fd < n" "blocks_ok n fd" "n \<le> maxFrameLength fd" "maxFrameLength fd \<le> MAX_UINT32" "headerLength fd = 0" "dstate fd = Open" "length (header fd) = 4"
    using ok n by (auto simp: decoder_ok_def)
  obtain fd1 where f: "fill_payload n fd chunk = Some (fd1, drop k chunk)" "blocks_ok n fd1" "received fd1 = received fd @ take k chunk"
      "frame_part fd1 = frame_part fd" "payloadLength fd1 = payloadLength fd + min k (length chunk)"
    using fill_payload_spec[OF p(2), of chunk] p(1) unfolding k_def by auto
  show ?thesis
  proof (cases "payloadLength fd1 = n")
    case True
    define fd2 where "fd2 = fst (finish_payload n fd1)"
    have fd2: "decoder_ok fd2" "maxFrameLength fd2 = maxFrameLength fd" "pending fd2 = []"
      using True f(4) p unfolding fd2_def finish_payload_def by (simp_all add: decoder_ok_def frame_part_def pending_def)
    have r: "snd (finish_payload n fd1) = [received fd1]" "length (received fd1) = n"
      using finish_payload_done[OF f(2) True] received_length[OF f(2)] True p(1) by simp_all
    have "loop_spec (push_loop fd2 (drop k chunk) (frames @ [received fd1])) (maxFrameLength fd) (drop k chunk) (frames @ [received fd1])"
      using rest[OF fd2(1,2), of "frames @ [received fd1]"] fd2(2,3) by (simp add: k_def)
    from loop_spec_add[OF this _ p(4)] show ?thesis
      using f(1,3) r p(3) n by (simp add: fd2_def pending_def Let_def)
  next
    case False
    then have short: "drop k chunk = []" "take k chunk = chunk" using f(5) p(1) by (auto simp: k_def min_def split: if_splits)
    have fd1: "decoder_ok fd1" "maxFrameLength fd1 = maxFrameLength fd" "expectedPayloadLength fd1 = Some n"
      using False f p n unfolding decoder_ok_def frame_part_def by (auto simp: k_def)
    then have "pending fd1 = pending fd @ chunk" using n f(3) short by (simp add: pending_def)
    then show ?thesis using rest[OF fd1(1,2), of frames] fd1(2) f(1) short False by (simp add: finish_payload_def k_def)
  qed
qed


lemma read_header_spec:
  assumes ok: "decoder_ok fd" and none: "expectedPayloadLength fd = None" and chunk: "chunk \<noteq> []"
  obtains k where "0 < k" "k \<le> length chunk" "headerLength fd + k < 4" "\<exists>fd'. read_header fd chunk = (Needs_more, fd', drop k chunk) \<and>
      decoder_ok fd' \<and> maxFrameLength fd' = maxFrameLength fd \<and> pending fd' = pending fd @ take k chunk"
  | k h where "0 < k" "k \<le> length chunk" "h = pending fd @ take k chunk" "length h = 4"
      "case read_header fd chunk of (r, fd', chunk') \<Rightarrow> chunk' = drop k chunk \<and> maxFrameLength fd' = maxFrameLength fd \<and>
        (if maxFrameLength fd < uint32_of h then r = Too_long (uint32_of h)
         else if uint32_of h = 0 then r = Empty_frame \<and> decoder_ok fd' \<and> pending fd' = []
         else r = Payload_starts \<and> decoder_ok fd' \<and> expectedPayloadLength fd' = Some (uint32_of h) \<and> payloadLength fd' = 0 \<and> pending fd' = h)"
proof -
  define hl where "hl = headerLength fd"
  define k where "k = min (4 - hl) (length chunk)"
  define fd1 where "fd1 = fd\<lparr>header := set_bytes (header fd) hl (take k chunk), headerLength := hl + k\<rparr>"
  have f: "hl < 4" "length (header fd) = 4" "pending fd = take hl (header fd)" using ok none by (auto simp: decoder_ok_def hl_def pending_def)
  have k: "0 < k" "k \<le> length chunk" "hl + k \<le> 4" using f(1) chunk by (auto simp: k_def)
  have h: "take (hl + k) (header fd1) = pending fd @ take k chunk" "length (header fd1) = 4"
    using f k by (auto simp: fd1_def set_bytes_def)
  note rh = read_header_def[of fd chunk, folded hl_def, unfolded FRAME_HEADER_LENGTH_def, folded k_def, unfolded Let_def, folded fd1_def]
  show thesis
  proof (cases "hl + k < 4")
    case True
    then have "read_header fd chunk = (Needs_more, fd1, drop k chunk)" unfolding rh by (simp add: fd1_def)
    moreover have "decoder_ok fd1" using ok none True h(2) by (simp add: fd1_def decoder_ok_def)
    moreover have "pending fd1 = pending fd @ take k chunk" using h(1) none by (simp add: fd1_def pending_def)
    ultimately show thesis using that(1)[OF k(1,2)] True by (simp add: hl_def fd1_def)
  next
    case False
    define H where "H = pending fd @ take k chunk"
    have four: "hl + k = 4" using False k(3) by simp
    then have H: "header fd1 = H" "length H = 4" using h f k(2) by (simp_all add: H_def)
    have r: "read_header fd chunk =
       (let n = uint32_of H; fd = fd1\<lparr>headerLength := 0\<rparr>
        in if maxFrameLength fd < n then (Too_long n, fd, drop k chunk)
           else if n = 0 then (Empty_frame, fd, drop k chunk)
           else (Payload_starts, fd\<lparr>expectedPayloadLength := Some n, payloadBlocks := [], currentPayloadBlock := None,
                   currentPayloadBlockLength := 0, payloadLength := 0\<rparr>, drop k chunk))"
      unfolding rh using four H(1) by (simp add: fd1_def Let_def)
    show thesis
    proof (rule that(2)[OF k(1,2) H_def H(2)], unfold r Let_def, simp only: prod.case if_distrib[of "case_prod _"] split: if_split, intro conjI impI)
    qed (use ok none H in \<open>auto simp: fd1_def decoder_ok_def pending_def blocks_ok_def received_def uint32_bytes_of\<close>)
  qed
qed

lemma header_spec:
  assumes ok: "decoder_ok fd" and None: "expectedPayloadLength fd = None" and False: "chunk \<noteq> []"
    and shorter: "\<And>k fd' frames'. 0 < k \<Longrightarrow> decoder_ok fd' \<Longrightarrow>
      loop_spec (push_loop fd' (drop k chunk) frames') (maxFrameLength fd') (pending fd' @ drop k chunk) frames'"
  shows "loop_spec (push_loop fd chunk frames) (maxFrameLength fd) (pending fd @ chunk) frames"
  using ok None False
proof (cases rule: read_header_spec)
  case (1 k)
  then obtain fd' where r: "read_header fd chunk = (Needs_more, fd', drop k chunk)" "decoder_ok fd'" "maxFrameLength fd' = maxFrameLength fd"
      "pending fd' = pending fd @ take k chunk" by blast
  have "pending fd' @ drop k chunk = pending fd @ chunk" using r(4) by simp
  then show ?thesis using shorter[OF 1(1) r(2), of frames] r(1,3) False None
    by (subst push_loop.simps) (simp add: enter_payload_def)
next
  case (2 k h)
  obtain r fd' where rh: "read_header fd chunk = (r, fd', drop k chunk)" and m: "maxFrameLength fd' = maxFrameLength fd"
    using 2(5) by (cases "read_header fd chunk") auto
  have all: "pending fd @ chunk = h @ drop k chunk" using 2(3) by simp
  consider (long) "maxFrameLength fd < uint32_of h" "r = Too_long (uint32_of h)"
    | (empty) "uint32_of h = 0" "r = Empty_frame" "decoder_ok fd'" "pending fd' = []"
    | (payload) "r = Payload_starts" "decoder_ok fd'" "expectedPayloadLength fd' = Some (uint32_of h)" "payloadLength fd' = 0" "pending fd' = h"
    using 2(5) rh by (auto split: if_splits)
  then show ?thesis
  proof cases
    case long
    have "split_frames (maxFrameLength fd) (h @ drop k chunk) = Inl (Frame_length_exceeded (uint32_of h))"
      using long(1) 2(4) by (simp add: split_frames.simps[of _ "h @ drop k chunk"] Let_def)
    then show ?thesis using long rh None False unfolding all
      by (subst push_loop.simps) (simp add: enter_payload_def loop_spec_def fail_decoder_def)
  next
    case empty
    have "loop_spec (push_loop fd' (drop k chunk) (frames @ [[]])) (maxFrameLength fd) (drop k chunk) (frames @ [[]])"
      using shorter[OF 2(1) empty(3), of "frames @ [[]]"] m empty(4) by simp
    from loop_spec_add[OF this] have "loop_spec (push_loop fd' (drop k chunk) (frames @ [[]])) (maxFrameLength fd) (h @ drop k chunk) frames"
      using ok empty(1) uint32_bytes_of[OF 2(4)] by (simp add: decoder_ok_def)
    then show ?thesis using empty(2) rh None False unfolding all by (subst push_loop.simps) (simp add: enter_payload_def)
  next
    case payload
    from payload_spec[OF payload(2,3), of "drop k chunk" frames, unfolded payload(4) diff_zero, unfolded drop_drop, OF shorter]
    show ?thesis using 2(1) payload rh None False m unfolding all
      by (subst push_loop.simps) (simp add: enter_payload_def)
  qed
qed

lemma push_loop_spec:
  assumes "decoder_ok fd"
  shows "loop_spec (push_loop fd chunk frames) (maxFrameLength fd) (pending fd @ chunk) frames"
  using assms
proof (induction "length chunk" arbitrary: fd chunk frames rule: less_induct)
  case less
  show ?case
  proof (cases "chunk = []")
    case True
    then show ?thesis using pending_incomplete[OF less.prems] less.prems by (subst push_loop.simps) (auto simp: loop_spec_def)
  next
    case False
    have shorter: "length (drop k chunk) < length chunk" if "0 < k" for k using that False by (cases chunk) auto
    show ?thesis
    proof (cases "expectedPayloadLength fd")
      case (Some n)
      have "0 < n - payloadLength fd" using less.prems Some by (simp add: decoder_ok_def)
      from payload_spec[OF less.prems Some less.hyps[OF shorter[OF this]], of frames] show ?thesis
        using Some False by (subst push_loop.simps) (simp add: enter_payload_def)
    next
      case None
      then show ?thesis using header_spec[OF less.prems _ False less.hyps[OF shorter]] by blast
    qed
  qed
qed


section \<open>Properties\<close>

text \<open>A sequence of calls of \<^verbatim>\<open>push\<close> up to the first error, with all payloads returned.\<close>

fun push_all :: "frame_decoder \<Rightarrow> byte list list \<Rightarrow> frame_decoder \<times> (frame_error + byte list list)" where
  "push_all fd [] = (fd, Inr [])"
| "push_all fd (c # cs) =
     (case push fd c of
        (fd, Inl e) \<Rightarrow> (fd, Inl e)
      | (fd, Inr fs) \<Rightarrow> (case push_all fd cs of (fd, Inl e) \<Rightarrow> (fd, Inl e) | (fd, Inr gs) \<Rightarrow> (fd, Inr (fs @ gs))))"

lemma push_spec:
  assumes "decoder_ok fd"
  shows "case split_frames (maxFrameLength fd) (pending fd @ chunk) of
      Inl e \<Rightarrow> snd (push fd chunk) = Inl e \<and> dstate (fst (push fd chunk)) = Failed
    | Inr (fs, rest) \<Rightarrow> snd (push fd chunk) = Inr fs \<and> decoder_ok (fst (push fd chunk)) \<and> pending (fst (push fd chunk)) = rest \<and>
        maxFrameLength (fst (push fd chunk)) = maxFrameLength fd"
proof -
  have "dstate fd = Open" using assms by (simp add: decoder_ok_def)
  then show ?thesis using push_loop_spec[OF assms, of chunk "[]"]
    by (cases "split_frames (maxFrameLength fd) (pending fd @ chunk)") (auto simp: loop_spec_def push_def)
qed

lemma push_all_spec:
  assumes "decoder_ok fd"
  shows "case split_frames (maxFrameLength fd) (pending fd @ concat chunks) of
      Inl e \<Rightarrow> snd (push_all fd chunks) = Inl e \<and> dstate (fst (push_all fd chunks)) = Failed
    | Inr (fs, rest) \<Rightarrow> snd (push_all fd chunks) = Inr fs \<and> decoder_ok (fst (push_all fd chunks)) \<and> pending (fst (push_all fd chunks)) = rest"
  using assms
proof (induction chunks arbitrary: fd)
  case Nil
  then show ?case by (simp add: pending_incomplete)
next
  case (Cons c cs)
  note p = push_spec[OF Cons.prems, of c]
  have s: "split_frames (maxFrameLength fd) (pending fd @ concat (c # cs)) =
      ebind (split_frames (maxFrameLength fd) (pending fd @ c)) (\<lambda>(fs, rest).
        ebind (split_frames (maxFrameLength fd) (rest @ concat cs)) (\<lambda>(gs, r). Inr (fs @ gs, r)))"
    using split_frames_append[of "maxFrameLength fd" "pending fd @ c" "concat cs"] by simp
  show ?case
  proof (cases "split_frames (maxFrameLength fd) (pending fd @ c)")
    case (Inl e)
    then show ?thesis using p s by (cases "push fd c") simp
  next
    case (Inr r)
    obtain fs rest where r: "r = (fs, rest)" by force
    obtain fd1 where f: "push fd c = (fd1, Inr fs)" "decoder_ok fd1" "pending fd1 = rest" "maxFrameLength fd1 = maxFrameLength fd"
      using p Inr r by (cases "push fd c") auto
    show ?thesis using Cons.IH[OF f(2)] f s Inr r
      by (cases "split_frames (maxFrameLength fd) (rest @ concat cs)"; cases "push_all fd1 cs") auto
  qed
qed

lemma new_decoder_ok:
  assumes "new_FrameDecoder options = Inr fd" shows "decoder_ok fd \<and> pending fd = []"
proof -
  obtain n where n: "resolveMaxFrameLength options = Inr n" "maxFrameLength fd = n" using assms by (auto simp: new_FrameDecoder_def result_simps)
  have "n \<le> MAX_UINT32"
    using n(1) resolveLimit_bound[of "[]" "or_default options DEFAULT_MAX_FRAME_LENGTH" MAX_UINT32 n]
    by (auto simp: resolveMaxFrameLength_def resolveLimit_def Let_def split: if_splits)
  then show ?thesis using assms n by (auto simp: new_FrameDecoder_def result_simps decoder_ok_def pending_def FRAME_HEADER_LENGTH_def)
qed

lemma split_encoded:
  assumes "emap encodeFrame ps = Inr frames" "\<forall>p \<in> set ps. length p \<le> limit"
  shows "split_frames limit (concat frames) = Inr (ps, [])"
  using assms
proof (induction ps arbitrary: frames)
  case (Cons p ps)
  obtain fs where f: "emap encodeFrame ps = Inr fs" "frames = (uint32_bytes (length p) @ p) # fs" "length p \<le> MAX_UINT32"
    using Cons.prems(1) by (auto simp: result_simps encodeFrame_bytes[of p] split: if_splits)
  have "uint32_of (uint32_bytes (length p)) = length p" using f(3) by (intro uint32_roundtrip) (simp add: MAX_UINT32_def)
  then show ?case using split_one[of "uint32_bytes (length p)" p limit "concat fs"] Cons.IH[OF f(1)] Cons.prems(2) f(2) by simp
qed (simp add: split_frames.simps)

lemma frames_arrive:
  assumes "new_FrameDecoder options = Inr fd" "emap encodeFrame payloads = Inr frames" "\<forall>p \<in> set payloads. length p \<le> maxFrameLength fd"
    and "concat chunks = concat frames"
  shows "snd (push_all fd chunks) = Inr payloads \<and> snd (end_decoder (fst (push_all fd chunks))) = Inr ()"
proof -
  have "split_frames (maxFrameLength fd) (concat chunks) = Inr (payloads, [])" using split_encoded[OF assms(2,3)] assms(4) by simp
  then have r: "snd (push_all fd chunks) = Inr payloads" "decoder_ok (fst (push_all fd chunks))" "pending (fst (push_all fd chunks)) = []"
    using push_all_spec[of fd chunks] new_decoder_ok[OF assms(1)] by auto
  then have "headerLength (fst (push_all fd chunks)) = 0" "expectedPayloadLength (fst (push_all fd chunks)) = None"
    by (auto simp: pending_def decoder_ok_def split: option.splits dest: arg_cong[where f = length])
  then show ?thesis using r by (simp add: end_decoder_def decoder_ok_def)
qed

text \<open>C27. The incremental decoder refines the splitting of the whole stream: however the bytes are cut into
  chunks, it returns the payloads of the concatenation and keeps exactly the unfinished rest, or fails with the
  first length over the limit and stays failed.\<close>

theorem push_refines_splitting:
  assumes "new_FrameDecoder options = Inr fd"
  shows "case split_frames (maxFrameLength fd) (concat chunks) of
      Inl e \<Rightarrow> snd (push_all fd chunks) = Inl e \<and> (\<forall>chunk. snd (push (fst (push_all fd chunks)) chunk) = Inl Decoder_failed)
    | Inr (payloads, rest) \<Rightarrow> snd (push_all fd chunks) = Inr payloads \<and> pending (fst (push_all fd chunks)) = rest"
  using new_decoder_ok[OF assms] push_all_spec[of fd chunks]
  by (auto simp: push_def split: sum.splits prod.splits)

lemma default_decoder: "new_FrameDecoder None = Inr \<lparr>header = [0, 0, 0, 0], headerLength = 0, maxFrameLength = 16777216, payloadBlocks = [],
    currentPayloadBlock = None, currentPayloadBlockLength = 0, expectedPayloadLength = None, payloadLength = 0, dstate = Open\<rparr>"
  by (simp add: new_FrameDecoder_def resolveMaxFrameLength_def or_default_def nat_of_num_def DEFAULT_MAX_FRAME_LENGTH_def
      MAX_UINT32_def FRAME_HEADER_LENGTH_def) (simp add: numeral_eq_Suc)

theorem push_refines_splitting_witness:
  "\<exists>fd. new_FrameDecoder None = Inr fd \<and> snd (push_all fd [[0, 0, 0], [1, 7, 0]]) = Inr [[7]] \<and>
     pending (fst (push_all fd [[0, 0, 0], [1, 7, 0]])) = [0]"
  using push_refines_splitting[OF default_decoder, of "[[0, 0, 0], [1, 7, 0]]"] default_decoder
  by (simp add: split_frames.simps)

text \<open>Payloads framed with \<^verbatim>\<open>encodeFrame\<close> and sent one after the other arrive unchanged and in order whatever
  the chunks are, and the stream then ends cleanly.\<close>

theorem frames_roundtrip:
  assumes "new_FrameDecoder options = Inr fd" "emap encodeFrame payloads = Inr frames" "\<forall>p \<in> set payloads. length p \<le> maxFrameLength fd"
    and "concat chunks = concat frames"
  shows "snd (push_all fd chunks) = Inr payloads \<and> snd (end_decoder (fst (push_all fd chunks))) = Inr ()"
  by (rule frames_arrive[OF assms])

theorem frames_roundtrip_witness:
  "\<exists>fd. new_FrameDecoder None = Inr fd \<and> snd (push_all fd [[0, 0], [0, 0, 0, 0, 0], [1, 7]]) = Inr [[], [7]]"
proof -
  have "emap encodeFrame [[], [7]] = Inr [[0, 0, 0, 0], [0, 0, 0, 1, 7]]"
    by (simp add: encodeFrame_bytes MAX_UINT32_def uint32_bytes_def byte_of_def)
  from frames_roundtrip[OF default_decoder this, of "[[0, 0], [0, 0, 0, 0, 0], [1, 7]]"] default_decoder show ?thesis by simp
qed

end
