(* ===== verification/Protocol_Codec.thy ===== *)
theory Protocol_Codec
  imports Framing
begin


text \<open>
  The message codec of \<^verbatim>\<open>packages/protocol/src/codec.ts\<close>: validation, encoding of one framed message, and the incremental
  \<^verbatim>\<open>ValidatedMessageDecoder\<close> over the frame decoder and the CBOR decoder. The TypeBox function \<^verbatim>\<open>Check\<close> applied to a message schema is
  the parameter \<open>check\<close>.
\<close>

section \<open>Validation\<close>

text \<open>\<^verbatim>\<open>every\<close> skips the holes of an array.\<close>

fun isProtocolValue :: "bool \<Rightarrow> js_value \<Rightarrow> bool" where
  "isProtocolValue optionalProperty V_undefined = optionalProperty"
| "isProtocolValue _ V_null = True"
| "isProtocolValue _ (V_bool _) = True"
| "isProtocolValue _ (V_num _) = True"
| "isProtocolValue _ (V_text _) = True"
| "isProtocolValue _ (V_array vs) = list_all (\<lambda>v. v = V_hole \<or> isProtocolValue False v) vs"
| "isProtocolValue _ (V_object p _ es) = (p = Object_prototype \<and> list_all (\<lambda>e. isProtocolValue True (snd e)) es)"
| "isProtocolValue _ _ = False"

datatype message_kind = Client | Server

datatype codec_error = Cbor_failed cbor_error | Frame_failed frame_error

datatype protocol_error =
    Invalid_message message_kind | Unable_to_encode message_kind codec_error
  | Message_decoder_failed message_kind | Invalid_frame message_kind codec_error | Invalid_framing message_kind codec_error
  | Constructor_failed frame_error

definition parse_message :: "message_kind \<Rightarrow> (js_value \<Rightarrow> bool) \<Rightarrow> js_value \<Rightarrow> protocol_error + js_value" where
  "parse_message kind check v = (if \<not> isProtocolValue False v \<or> \<not> check v then Inl (Invalid_message kind) else Inr v)"

definition parseClientMessage :: "(js_value \<Rightarrow> bool) \<Rightarrow> js_value \<Rightarrow> protocol_error + js_value" where
  "parseClientMessage check_client v = parse_message Client check_client v"

definition parseServerMessage :: "(js_value \<Rightarrow> bool) \<Rightarrow> js_value \<Rightarrow> protocol_error + js_value" where
  "parseServerMessage check_server v = parse_message Server check_server v"

section \<open>Encoding\<close>

definition cbor_limit :: "jsnum \<Rightarrow> cbor_options option" where
  "cbor_limit limit = Some \<lparr>maxByteLength_opt = Some limit, maxContainerLength_opt = None, maxDepth_opt = None\<rparr>"

definition encodeProtocolMessage :: "(js_value \<Rightarrow> protocol_error + js_value) \<Rightarrow> message_kind \<Rightarrow> jsnum option \<Rightarrow> js_value \<Rightarrow> protocol_error + byte list" where
  "encodeProtocolMessage parse kind options v =
     ebind (parse v) (\<lambda>validated.
       let limit = or_default options DEFAULT_MAX_FRAME_LENGTH
       in emap_error (Unable_to_encode kind)
            (ebind (emap_error Cbor_failed (encodeCbor validated (cbor_limit limit))) (\<lambda>payload.
             ebind (emap_error Frame_failed (encodeFrame payload)) (\<lambda>frame.
             ebind (emap_error Frame_failed (assertCompleteFrame frame (Some limit))) (\<lambda>_. Inr frame)))))"

definition encodeClientMessage :: "(js_value \<Rightarrow> bool) \<Rightarrow> jsnum option \<Rightarrow> js_value \<Rightarrow> protocol_error + byte list" where
  "encodeClientMessage check options = encodeProtocolMessage (parseClientMessage check) Client options"

definition encodeServerMessage :: "(js_value \<Rightarrow> bool) \<Rightarrow> jsnum option \<Rightarrow> js_value \<Rightarrow> protocol_error + byte list" where
  "encodeServerMessage check options = encodeProtocolMessage (parseServerMessage check) Server options"

section \<open>Incremental decoding\<close>

record message_decoder =
  failed :: bool
  frames :: frame_decoder
  mkind :: message_kind
  frame_limit :: jsnum

definition new_message_decoder :: "message_kind \<Rightarrow> jsnum option \<Rightarrow> protocol_error + message_decoder" where
  "new_message_decoder kind options =
     ebind (emap_error Constructor_failed (new_FrameDecoder options)) (\<lambda>fd.
       Inr \<lparr>failed = False, frames = fd, mkind = kind, frame_limit = or_default options DEFAULT_MAX_FRAME_LENGTH\<rparr>)"

definition decode_frame :: "(js_value \<Rightarrow> protocol_error + js_value) \<Rightarrow> message_decoder \<Rightarrow> byte list \<Rightarrow> protocol_error + js_value" where
  "decode_frame parse md frame =
     ebind (emap_error (\<lambda>e. Invalid_frame (mkind md) (Cbor_failed e)) (decodeCbor frame (cbor_limit (frame_limit md)))) parse"

definition push_message :: "(js_value \<Rightarrow> protocol_error + js_value) \<Rightarrow> message_decoder \<Rightarrow> byte list \<Rightarrow> message_decoder \<times> (protocol_error + js_value list)" where
  "push_message parse md chunk =
     (if failed md then (md, Inl (Message_decoder_failed (mkind md)))
      else case push (frames md) chunk of
          (fd, Inl e) \<Rightarrow> (md\<lparr>frames := fd, failed := True\<rparr>, Inl (Invalid_frame (mkind md) (Frame_failed e)))
        | (fd, Inr fs) \<Rightarrow>
            (case emap (decode_frame parse md) fs of
               Inl e \<Rightarrow> (md\<lparr>frames := fd, failed := True\<rparr>, Inl e)
             | Inr messages \<Rightarrow> (md\<lparr>frames := fd\<rparr>, Inr messages)))"

definition end_messages :: "message_decoder \<Rightarrow> message_decoder \<times> (protocol_error + unit)" where
  "end_messages md =
     (if failed md then (md, Inl (Message_decoder_failed (mkind md)))
      else case end_decoder (frames md) of
          (fd, Inl e) \<Rightarrow> (md\<lparr>frames := fd, failed := True\<rparr>, Inl (Invalid_framing (mkind md) (Frame_failed e)))
        | (fd, Inr _) \<Rightarrow> (md\<lparr>frames := fd\<rparr>, Inr ()))"

definition createClientMessageDecoder :: "jsnum option \<Rightarrow> protocol_error + message_decoder" where
  "createClientMessageDecoder options = new_message_decoder Client options"

definition createServerMessageDecoder :: "jsnum option \<Rightarrow> protocol_error + message_decoder" where
  "createServerMessageDecoder options = new_message_decoder Server options"

definition ClientMessageDecoder_push :: "(js_value \<Rightarrow> bool) \<Rightarrow> message_decoder \<Rightarrow> byte list \<Rightarrow> message_decoder \<times> (protocol_error + js_value list)" where
  "ClientMessageDecoder_push check = push_message (parseClientMessage check)"

definition ServerMessageDecoder_push :: "(js_value \<Rightarrow> bool) \<Rightarrow> message_decoder \<Rightarrow> byte list \<Rightarrow> message_decoder \<times> (protocol_error + js_value list)" where
  "ServerMessageDecoder_push check = push_message (parseServerMessage check)"

text \<open>The calls of \<^verbatim>\<open>push\<close> for a sequence of chunks, up to the first error.\<close>

fun push_messages :: "(js_value \<Rightarrow> protocol_error + js_value) \<Rightarrow> message_decoder \<Rightarrow> byte list list \<Rightarrow> message_decoder \<times> (protocol_error + js_value list)" where
  "push_messages parse md [] = (md, Inr [])"
| "push_messages parse md (c # cs) =
     (case push_message parse md c of
        (md, Inl e) \<Rightarrow> (md, Inl e)
      | (md, Inr ms) \<Rightarrow> (case push_messages parse md cs of (md, Inl e) \<Rightarrow> (md, Inl e) | (md, Inr ns) \<Rightarrow> (md, Inr (ms @ ns))))"

definition PROTOCOL_VERSION :: jsnum where "PROTOCOL_VERSION = Fin 1"

definition isSupportedProtocolVersion :: "jsnum \<Rightarrow> bool" where
  "isSupportedProtocolVersion version \<longleftrightarrow> is_integer version \<and> js_eq version PROTOCOL_VERSION"

section \<open>A message that is sent arrives\<close>

text \<open>The contract between the two ends of a connection: a parser that only ever returns its argument.\<close>

locale message_parser =
  fixes kind :: message_kind and parse :: "js_value \<Rightarrow> protocol_error + js_value"
  assumes parse_id: "parse v = Inr w \<Longrightarrow> w = v"
begin

lemma encoded_message:
  assumes "encodeProtocolMessage parse kind options v = Inr frame"
  obtains payload n where "encodeCbor v (cbor_limit (or_default options DEFAULT_MAX_FRAME_LENGTH)) = Inr payload" "encodeFrame payload = Inr frame"
    "resolveMaxFrameLength options = Inr n" "length payload \<le> n" "parse v = Inr v"
proof -
  let ?limit = "or_default options DEFAULT_MAX_FRAME_LENGTH"
  obtain w payload u where e: "parse v = Inr w" "encodeCbor w (cbor_limit ?limit) = Inr payload" "encodeFrame payload = Inr frame"
      "assertCompleteFrame frame (Some ?limit) = Inr u"
    using assms by (auto simp: encodeProtocolMessage_def Let_def result_simps)
  have f: "frame = uint32_bytes (length payload) @ payload" "length payload < 2 ^ 32"
    using e(3) by (auto simp: encodeFrame_bytes MAX_UINT32_def split: if_splits)
  have "resolveMaxFrameLength (Some ?limit) = resolveMaxFrameLength options" by (simp add: resolveMaxFrameLength_def or_default_def split: option.splits)
  then obtain n where "resolveMaxFrameLength options = Inr n" "length payload \<le> n"
    using e(4) f uint32_roundtrip[OF f(2)] by (auto simp: assertCompleteFrame_def Let_def result_simps split: if_splits)
  then show ?thesis using that[of payload n] e parse_id[OF e(1)] by simp
qed

lemma decode_sent:
  assumes "encodeCbor v (cbor_limit (frame_limit md)) = Inr payload" "wf_value v" "parse (transmitted v) = Inr w"
  shows "decode_frame parse md payload = Inr (transmitted v)"
  using cbor_roundtrip_core[OF assms(1,2)] assms(3) parse_id[OF assms(3)] by (simp add: decode_frame_def)

lemma push_messages_frames:
  assumes "\<not> failed md" "push_all (frames md) chunks = (fd, Inr fs)" "emap (decode_frame parse md) fs = Inr ms"
  shows "push_messages parse md chunks = (md\<lparr>frames := fd\<rparr>, Inr ms)"
  using assms
proof (induction chunks arbitrary: md fs ms)
  case (Cons c cs)
  obtain fd1 gs hs where p: "push (frames md) c = (fd1, Inr gs)" "push_all fd1 cs = (fd, Inr hs)" "fs = gs @ hs"
    using Cons.prems(2) by (auto split: prod.splits sum.splits)
  have append: "emap f (xs @ ys) = ebind (emap f xs) (\<lambda>us. ebind (emap f ys) (\<lambda>vs. Inr (us @ vs)))"
    for f :: "byte list \<Rightarrow> protocol_error + js_value" and xs ys
    by (induction xs) (auto simp: ebind_def split: sum.splits)
  obtain ms1 ms2 where m: "emap (decode_frame parse md) gs = Inr ms1" "emap (decode_frame parse md) hs = Inr ms2" "ms = ms1 @ ms2"
    using Cons.prems(3) unfolding p(3) append by (auto simp: result_simps)
  have same: "decode_frame parse (md\<lparr>frames := fd1\<rparr>) = decode_frame parse md" by (simp add: decode_frame_def fun_eq_iff)
  show ?case using Cons.IH[of "md\<lparr>frames := fd1\<rparr>" hs ms2] Cons.prems(1) p m same by (simp add: push_message_def)
qed simp

theorem sent_messages_arrive:
  assumes "new_message_decoder kind options = Inr md" "emap (encodeProtocolMessage parse kind options) vs = Inr fs"
    and "concat chunks = concat fs" and "\<forall>v \<in> set vs. wf_value v \<and> (\<exists>w. parse (transmitted v) = Inr w)"
  shows "snd (push_messages parse md chunks) = Inr (map transmitted vs) \<and> snd (end_messages (fst (push_messages parse md chunks))) = Inr ()"
proof -
  obtain fd where fd: "new_FrameDecoder options = Inr fd" and md: "md = \<lparr>failed = False, frames = fd, mkind = kind, frame_limit = or_default options DEFAULT_MAX_FRAME_LENGTH\<rparr>"
    using assms(1) by (auto simp: new_message_decoder_def result_simps)
  have "\<exists>ps. emap encodeFrame ps = Inr fs \<and> emap (decode_frame parse md) ps = Inr (map transmitted vs) \<and> (\<forall>p \<in> set ps. length p \<le> maxFrameLength fd)"
    using assms(2,4)
  proof (induction vs arbitrary: fs)
    case (Cons v vs)
    obtain f fs' where f: "encodeProtocolMessage parse kind options v = Inr f" "emap (encodeProtocolMessage parse kind options) vs = Inr fs'" "fs = f # fs'"
      using Cons.prems(1) by (auto simp: result_simps)
    obtain p n where p: "encodeCbor v (cbor_limit (or_default options DEFAULT_MAX_FRAME_LENGTH)) = Inr p" "encodeFrame p = Inr f"
        "resolveMaxFrameLength options = Inr n" "length p \<le> n" by (rule encoded_message[OF f(1)])
    have "length p \<le> maxFrameLength fd" using p(3,4) fd by (auto simp: new_FrameDecoder_def result_simps)
    moreover have "decode_frame parse md p = Inr (transmitted v)" using decode_sent[of v md p] p(1) md Cons.prems(2) by auto
    moreover obtain ps where "emap encodeFrame ps = Inr fs'" "emap (decode_frame parse md) ps = Inr (map transmitted vs)" "\<forall>p \<in> set ps. length p \<le> maxFrameLength fd"
      using Cons.IH[OF f(2)] Cons.prems(2) by auto
    ultimately show ?case using p(2) f(3) by (intro exI[of _ "p # ps"]) simp
  qed (auto intro: exI[of _ "[]"])
  then obtain ps where ps: "emap encodeFrame ps = Inr fs" "emap (decode_frame parse md) ps = Inr (map transmitted vs)" "\<forall>p \<in> set ps. length p \<le> maxFrameLength fd"
    by blast
  obtain fd' where f: "push_all fd chunks = (fd', Inr ps)" "snd (end_decoder fd') = Inr ()"
    using frames_arrive[OF fd ps(1,3) assms(3)] by (cases "push_all fd chunks") auto
  have "push_messages parse md chunks = (md\<lparr>frames := fd'\<rparr>, Inr (map transmitted vs))"
    using push_messages_frames[of md chunks fd' ps] f(1) ps(2) md by simp
  then show ?thesis using f(2) md by (cases "end_decoder fd'") (auto simp: end_messages_def)
qed

end

lemma parse_message_Inr: "parse_message k check v = Inr w \<longleftrightarrow> w = v \<and> isProtocolValue False v \<and> check v"
  by (auto simp: parse_message_def)

interpretation client: message_parser Client "parseClientMessage check" for check
  by unfold_locales (simp add: parseClientMessage_def parse_message_Inr)

interpretation server: message_parser Server "parseServerMessage check" for check
  by unfold_locales (simp add: parseServerMessage_def parse_message_Inr)

lemma transmitted_protocol_value: "isProtocolValue b v \<Longrightarrow> v \<noteq> V_undefined \<Longrightarrow> isProtocolValue c (transmitted v)"
proof (induction v arbitrary: b c rule: transmitted.induct)
  case (1 vs)
  have "transmitted v = V_hole \<or> isProtocolValue False (transmitted v)" if "v \<in> set vs" for v
    using 1(1)[OF that, of False False] 1(2) that by (cases "v = V_undefined") (auto simp: list_all_iff)
  then show ?case by (auto simp: list_all_iff)
next
  case (2 p symbols es)
  then show ?case by (fastforce simp: list_all_iff)
qed auto

section \<open>Properties\<close>

text \<open>C28. Client messages that were encoded arrive at a server that uses the same frame limit, in order and
  each as the value the encoder transmitted, whatever the chunks of the byte stream are; and the stream ends cleanly. The schema
  must accept what is transmitted, which only differs from the message sent by keys with the value undefined.\<close>

theorem client_messages_arrive:
  assumes "createClientMessageDecoder options = Inr md" "emap (encodeClientMessage check options) messages = Inr fs"
    and "concat chunks = concat fs" and "\<forall>v \<in> set messages. wf_value v \<and> check (transmitted v)"
  shows "snd (push_messages (parseClientMessage check) md chunks) = Inr (map transmitted messages) \<and>
    snd (end_messages (fst (push_messages (parseClientMessage check) md chunks))) = Inr ()"
proof (rule client.sent_messages_arrive)
  show "\<forall>v \<in> set messages. wf_value v \<and> (\<exists>w. parseClientMessage check (transmitted v) = Inr w)"
  proof
    fix v assume v: "v \<in> set messages"
    then obtain f where "encodeClientMessage check options v = Inr f" using assms(2) by (induction messages arbitrary: fs) (auto simp: result_simps)
    then have "isProtocolValue False v" by (auto simp: encodeClientMessage_def encodeProtocolMessage_def parseClientMessage_def parse_message_Inr Let_def result_simps)
    moreover from this have "v \<noteq> V_undefined" by auto
    ultimately show "wf_value v \<and> (\<exists>w. parseClientMessage check (transmitted v) = Inr w)"
      using assms(4) v transmitted_protocol_value[of False v False] by (auto simp: parseClientMessage_def parse_message_Inr)
  qed
qed (use assms in \<open>simp_all add: createClientMessageDecoder_def encodeClientMessage_def\<close>)

theorem client_messages_arrive_witness:
  "\<exists>md. createClientMessageDecoder None = Inr md \<and>
     snd (push_messages (parseClientMessage (\<lambda>v. case v of V_object _ _ _ \<Rightarrow> True | _ \<Rightarrow> False)) md [[0, 0, 0], [1, 0xA0, 0, 0, 0, 1], [0xA0]]) =
       Inr [V_object Object_prototype False [], V_object Object_prototype False []]"
proof -
  let ?v = "V_object Object_prototype False [([97], V_undefined)]"
  have o: "resolveOptions (cbor_limit (Fin 16777216)) = Inr \<lparr>maxByteLength = 16777216, maxContainerLength = 1000000, maxDepth = 64\<rparr>"
    by (simp add: cbor_limit_def resolveOptions_def resolveLimit_def or_default_def nat_of_num_def
      DEFAULT_MAX_CBOR_CONTAINER_LENGTH_def DEFAULT_MAX_CBOR_DEPTH_def MAX_UINT32_def MAX_CONFIGURED_DEPTH_def)
  have e: "encodeCbor ?v (cbor_limit (Fin 16777216)) = Inr [0xA0]" using encodeCbor_spec[OF o, of ?v] by (simp add: encode_eval)
  have "encodeClientMessage (\<lambda>v. case v of V_object _ _ _ \<Rightarrow> True | _ \<Rightarrow> False) None ?v = Inr [0, 0, 0, 1, 0xA0]"
    by (simp add: encodeClientMessage_def encodeProtocolMessage_def parseClientMessage_def parse_message_def or_default_def DEFAULT_MAX_FRAME_LENGTH_def e
        encodeFrame_bytes MAX_UINT32_def uint32_bytes_def byte_of_def assertCompleteFrame_def FRAME_HEADER_LENGTH_def resolveMaxFrameLength_def nat_of_num_def)
  then have "emap (encodeClientMessage (\<lambda>v. case v of V_object _ _ _ \<Rightarrow> True | _ \<Rightarrow> False) None) [?v, ?v] = Inr [[0, 0, 0, 1, 0xA0], [0, 0, 0, 1, 0xA0]]" by simp
  from client_messages_arrive[OF _ this, of _ "[[0, 0, 0], [1, 0xA0, 0, 0, 0, 1], [0xA0]]"] show ?thesis
    by (simp add: createClientMessageDecoder_def new_message_decoder_def default_decoder keys_ok_def)
qed

text \<open>Whatever bytes arrive, a decoder hands over only well-formed values that the validation and the schema
  accept; once it reports an error it hands over nothing more.\<close>

theorem only_valid_messages:
  "case push_message (parse_message kind check) md chunk of
     (md', Inr messages) \<Rightarrow> list_all (\<lambda>m. wf_value m \<and> isProtocolValue False m \<and> check m) messages
   | (md', Inl e) \<Rightarrow> failed md' \<and> snd (push_message (parse_message kind check) md' chunk') = Inl (Message_decoder_failed (mkind md'))"
proof -
  have m: "wf_value m \<and> isProtocolValue False m \<and> check m" if "decode_frame (parse_message kind check) md f = Inr m" for f m
  proof -
    have d: "decodeCbor f (cbor_limit (frame_limit md)) = Inr m" "isProtocolValue False m" "check m"
      using that by (auto simp: decode_frame_def result_simps parse_message_Inr)
    then show ?thesis using decoded_wf[OF d(1)] by simp
  qed
  show ?thesis
    by (auto simp: push_message_def list_all_iff split: prod.splits sum.splits if_splits dest!: emap_set m)
qed

end
