(* ===== verification/Paper_Account.thy ===== *)
theory Paper_Account
  imports Order_Plan
begin


text \<open>
  The persisted paper ledger (\<^verbatim>\<open>packages/trading-engine/src/paper-account.ts\<close>): orders, trades, futures lots and accounts,
  the fee evidence of an order, the validation of a stored ledger and the order ids given out after loading.
\<close>

section \<open>Data model\<close>

datatype paper_status = PO_open | PO_closed | PO_canceled

record paper_order =
  po_id :: string
  po_symbol :: string
  po_side :: side
  po_type :: order_type
  po_price :: "jsnum option"
  po_stopPrice :: "jsnum option"
  po_trailingPercent :: "jsnum option"
  po_trailingExtreme :: "jsnum option"
  po_triggered :: "bool option"
  po_reservePrice :: "jsnum option"
  po_reservedMargin :: "jsnum option"
  po_lastCheckedAt :: "jsnum option"
  po_ocoGroup :: "string option"
  po_clientOrderId :: "string option"
  po_listClientOrderId :: "string option"
  po_positionSide :: "position_side option"
  po_reduceOnly :: "bool option"
  po_closePosition :: "bool option"
  po_amount :: jsnum
  po_filled :: jsnum
  po_average :: "jsnum option"
  po_cost :: jsnum
  po_feeObservation :: "order_fee_observation option"
  po_status :: paper_status
  po_timestamp :: jsnum

record futures_lot =
  lt_amount :: jsnum
  lt_price :: jsnum
  lt_leverage :: jsnum
  lt_marginType :: margin_type

record futures_entry =
  fe_amount :: jsnum
  fe_cost :: jsnum
  fe_leverage :: "jsnum option"
  fe_marginType :: "margin_type option"
  fe_lots :: "futures_lot list option"

record paper_trade =
  pt_id :: string
  pt_symbol :: string
  pt_side :: side
  pt_price :: jsnum
  pt_amount :: jsnum
  pt_cost :: jsnum
  pt_fee :: jsnum
  pt_realizedPnl :: "jsnum option"
  pt_positionSide :: "position_side option"
  pt_timestamp :: jsnum

record paper_account =
  pa_quote :: string
  pa_balances :: "jsnum obj"
  pa_entries :: "futures_entry obj"
  pa_orders :: "paper_order list"
  pa_trades :: "paper_trade list"
  pa_realizedPnl :: jsnum
  pa_leverage :: "jsnum option"
  pa_marginType :: "margin_type option"
  pa_leverageBySymbol :: "jsnum obj option"
  pa_marginTypeBySymbol :: "margin_type obj option"
  pa_positionMode :: "position_mode option"
  pa_createdAt :: jsnum

text \<open>The errors thrown with a message of their own; \<open>Invalid_account\<close> carries the label of the field.\<close>

datatype account_error = Invalid_account string | Invalid_ledger_fee

section \<open>Fee evidence\<close>

definition quote_charges :: "string \<Rightarrow> order_fee_observation \<Rightarrow> bool" where
  "quote_charges quote obs \<longleftrightarrow>
     fo_source obs = Paper_ledger \<and> \<not> list_ex (\<lambda>c. fee_currency c \<noteq> quote \<or> js_lt (fee_cost c) (Fin 0)) (fo_charges obs)"

text \<open>\<open>previous\<close> is the amount filled before and the earlier evidence.\<close>

definition paperOrderFeeObservation :: "string \<Rightarrow> jsnum \<Rightarrow> (jsnum \<times> order_fee_observation option) option \<Rightarrow> account_error + order_fee_observation" where
  "paperOrderFeeObservation quote fee previous =
     (let prior = Option.bind previous snd;
          observation = \<lparr>fo_source = Paper_ledger,
            fo_completeness =
              (case previous of None \<Rightarrow> Fees_complete
               | Some (filled, p) \<Rightarrow>
                   if js_gt filled (Fin 0) \<and> map_option fo_completeness p \<noteq> Some Fees_complete then Fees_partial else Fees_complete),
            fo_charges =
              [\<lparr>fee_currency = quote,
                fee_cost = js_add fee (case prior of None \<Rightarrow> Fin 0 | Some p \<Rightarrow> foldl (\<lambda>s c. js_add s (fee_cost c)) (Fin 0) (fo_charges p))\<rparr>]\<rparr>
      in if \<not> is_finite fee \<or> js_lt fee (Fin 0) \<or>
            (case prior of None \<Rightarrow> False | Some p \<Rightarrow> \<not> isOrderFeeObservation p \<or> \<not> quote_charges quote p)
         then Inl Invalid_ledger_fee
         else if \<not> isOrderFeeObservation observation then Inl Invalid_ledger_fee
         else Inr observation)"

section \<open>Validation of a stored ledger\<close>

definition finiteNumber :: "string \<Rightarrow> json \<Rightarrow> account_error + jsnum" where
  "finiteNumber label v =
     (case read_number v of Some n \<Rightarrow> if is_finite n then Inr n else Inl (Invalid_account label) | None \<Rightarrow> Inl (Invalid_account label))"

definition nonNegativeNumber :: "string \<Rightarrow> json \<Rightarrow> account_error + jsnum" where
  "nonNegativeNumber label v =
     ebind (finiteNumber label v) (\<lambda>n. if js_lt n (Fin 0) then Inl (Invalid_account label) else Inr n)"

definition positiveNumber :: "string \<Rightarrow> json \<Rightarrow> account_error + jsnum" where
  "positiveNumber label v =
     ebind (finiteNumber label v) (\<lambda>n. if js_le n (Fin 0) then Inl (Invalid_account label) else Inr n)"

definition optional_field :: "(json \<Rightarrow> account_error + 'a) \<Rightarrow> json \<Rightarrow> account_error + 'a option" where
  "optional_field parse v = (if v = J_undefined then Inr None else ebind (parse v) (\<lambda>x. Inr (Some x)))"

definition optionalFinite :: "string \<Rightarrow> json \<Rightarrow> account_error + jsnum option" where
  "optionalFinite label = optional_field (finiteNumber label)"

definition booleanField :: "string \<Rightarrow> json \<Rightarrow> account_error + bool" where
  "booleanField label v = (case v of J_bool b \<Rightarrow> Inr b | _ \<Rightarrow> Inl (Invalid_account label))"

definition optionalBoolean :: "string \<Rightarrow> json \<Rightarrow> account_error + bool option" where
  "optionalBoolean label = optional_field (booleanField label)"

definition stringField :: "string \<Rightarrow> json \<Rightarrow> account_error + string" where
  "stringField label v = (case v of J_str s \<Rightarrow> Inr s | _ \<Rightarrow> Inl (Invalid_account label))"

definition optionalString :: "string \<Rightarrow> json \<Rightarrow> account_error + string option" where
  "optionalString label = optional_field (stringField label)"

definition nonempty_string :: "string \<Rightarrow> json \<Rightarrow> account_error + string" where
  "nonempty_string label v = (case v of J_str s \<Rightarrow> if s = [] then Inl (Invalid_account label) else Inr s | _ \<Rightarrow> Inl (Invalid_account label))"

text \<open>A string of one of the sets of the sources, as the constructor it stands for.\<close>

definition enum_field :: "(string \<times> 'a) list \<Rightarrow> string \<Rightarrow> json \<Rightarrow> account_error + 'a" where
  "enum_field names label v =
     (case v of J_str s \<Rightarrow> (case map_of names s of Some x \<Rightarrow> Inr x | None \<Rightarrow> Inl (Invalid_account label)) | _ \<Rightarrow> Inl (Invalid_account label))"

definition ORDER_SIDES :: "(string \<times> side) list" where
  "ORDER_SIDES = [(''buy'', Buy), (''sell'', Sell)]"

definition ORDER_STATUSES :: "(string \<times> paper_status) list" where
  "ORDER_STATUSES = [(''open'', PO_open), (''closed'', PO_closed), (''canceled'', PO_canceled)]"

definition STORED_ORDER_TYPES :: "(string \<times> order_type) list" where
  "STORED_ORDER_TYPES =
     [(''market'', Market), (''limit'', Limit), (''stop'', Stop), (''stop_market'', Stop_market), (''take_profit'', Take_profit),
      (''take_profit_market'', Take_profit_market), (''trailing_stop_market'', Trailing_stop_market), (''oco'', Oco_type), (''unknown'', Unknown_type)]"

definition POSITION_SIDES :: "(string \<times> position_side) list" where
  "POSITION_SIDES = [(''BOTH'', PS_both), (''LONG'', PS_long), (''SHORT'', PS_short)]"

definition MARGIN_TYPES :: "(string \<times> margin_type) list" where
  "MARGIN_TYPES = [(''isolated'', Isolated), (''cross'', Cross_margin)]"

definition POSITION_MODES :: "(string \<times> position_mode) list" where
  "POSITION_MODES = [(''one-way'', One_way), (''hedge'', Hedge)]"

definition orderSide :: "string \<Rightarrow> json \<Rightarrow> account_error + side" where
  "orderSide = enum_field ORDER_SIDES"

definition positionSide :: "string \<Rightarrow> json \<Rightarrow> account_error + position_side option" where
  "positionSide label = optional_field (enum_field POSITION_SIDES label)"

definition marginType :: "string \<Rightarrow> json \<Rightarrow> account_error + margin_type" where
  "marginType = enum_field MARGIN_TYPES"

definition leverage_ok :: "jsnum \<Rightarrow> bool" where
  "leverage_ok n \<longleftrightarrow> \<not> (\<not> is_integer n \<or> js_lt n (Fin 1) \<or> js_gt n (Fin 125))"

definition leverageNumber :: "string \<Rightarrow> json \<Rightarrow> account_error + jsnum" where
  "leverageNumber label v = ebind (finiteNumber label v) (\<lambda>n. if leverage_ok n then Inr n else Inl (Invalid_account label))"

definition object_field :: "string \<Rightarrow> json \<Rightarrow> account_error + json obj" where
  "object_field label v = (case read_object v of Some r \<Rightarrow> Inr r | None \<Rightarrow> Inl (Invalid_account label))"

definition array_field :: "string \<Rightarrow> json \<Rightarrow> account_error + json list" where
  "array_field label v = (case read_array v of Some vs \<Rightarrow> Inr vs | None \<Rightarrow> Inl (Invalid_account label))"

definition parseLot :: "json \<Rightarrow> account_error + futures_lot" where
  "parseLot v =
     ebind (object_field ''lot'' v) (\<lambda>r.
     ebind (leverageNumber ''leverage'' (jget r ''leverage'')) (\<lambda>leverage.
     ebind (positiveNumber ''amount'' (jget r ''amount'')) (\<lambda>amount.
     ebind (positiveNumber ''price'' (jget r ''price'')) (\<lambda>price.
     ebind (marginType ''marginType'' (jget r ''marginType'')) (\<lambda>m.
       Inr \<lparr>lt_amount = amount, lt_price = price, lt_leverage = leverage, lt_marginType = m\<rparr>)))))"

definition lots_amount :: "futures_lot list \<Rightarrow> jsnum" where
  "lots_amount lots = foldl (\<lambda>s l. js_add s (lt_amount l)) (Fin 0) lots"

definition lots_cost :: "futures_lot list \<Rightarrow> jsnum" where
  "lots_cost lots = foldl (\<lambda>s l. js_add s (js_mul (lt_amount l) (lt_price l))) (Fin 0) lots"

text \<open>The decimal literals \<^verbatim>\<open>1e-12\<close> and \<^verbatim>\<open>1e-9\<close>.\<close>

definition E_12 :: jsnum where "E_12 = fl (1 / 1000000000000)"

definition E_9 :: jsnum where "E_9 = fl (1 / 1000000000)"

definition lots_agree :: "jsnum \<Rightarrow> jsnum \<Rightarrow> futures_lot list \<Rightarrow> bool" where
  "lots_agree amount cost lots \<longleftrightarrow>
     (let tolerance = js_max E_12 (js_max (js_mul (js_abs amount) E_9) (js_mul cost E_9))
      in \<not> js_gt (js_abs (js_sub (lots_amount lots) (js_abs amount))) tolerance \<and>
         \<not> js_gt (js_abs (js_sub (lots_cost lots) cost)) tolerance)"

definition parseEntry :: "json \<Rightarrow> account_error + futures_entry" where
  "parseEntry v =
     ebind (object_field ''entry'' v) (\<lambda>r.
     ebind (optional_field (leverageNumber ''leverage'') (jget r ''leverage'')) (\<lambda>leverage.
     ebind (optional_field (\<lambda>ls. ebind (array_field ''lots'' ls) (emap parseLot)) (jget r ''lots'')) (\<lambda>lots.
     ebind (finiteNumber ''amount'' (jget r ''amount'')) (\<lambda>amount.
     ebind (nonNegativeNumber ''cost'' (jget r ''cost'')) (\<lambda>cost.
     ebind (assert_js (\<not> (js_eq amount (Fin 0) \<and> \<not> js_eq cost (Fin 0))) (Invalid_account ''cost'')) (\<lambda>_.
     ebind (assert_js (case lots of None \<Rightarrow> True | Some ls \<Rightarrow> lots_agree amount cost ls) (Invalid_account ''lots'')) (\<lambda>_.
     ebind (optional_field (marginType ''marginType'') (jget r ''marginType'')) (\<lambda>m.
       Inr \<lparr>fe_amount = amount, fe_cost = cost, fe_leverage = leverage, fe_marginType = m, fe_lots = lots\<rparr>))))))))"

text \<open>\<^verbatim>\<open>isOrderFeeObservation\<close> on a stored value: the evidence it accepts.\<close>

definition FEE_SOURCES :: "(string \<times> fee_source) list" where
  "FEE_SOURCES = [(''exchange'', Exchange_fees), (''paper-ledger'', Paper_ledger)]"

definition FEE_COMPLETENESS :: "(string \<times> fee_completeness) list" where
  "FEE_COMPLETENESS = [(''complete'', Fees_complete), (''partial'', Fees_partial)]"

definition read_charge :: "json \<Rightarrow> account_error + fee_charge" where
  "read_charge v =
     ebind (object_field ''charge'' v) (\<lambda>r.
     ebind (stringField ''currency'' (jget r ''currency'')) (\<lambda>currency.
     ebind (finiteNumber ''cost'' (jget r ''cost'')) (\<lambda>cost.
     ebind (assert_js (set (obj_keys r) \<subseteq> {''currency'', ''cost''}) (Invalid_account ''charge'')) (\<lambda>_.
       Inr \<lparr>fee_currency = currency, fee_cost = cost\<rparr>))))"

definition read_fee_observation :: "json \<Rightarrow> account_error + order_fee_observation" where
  "read_fee_observation v =
     ebind (object_field ''feeObservation'' v) (\<lambda>r.
     ebind (enum_field FEE_SOURCES ''source'' (jget r ''source'')) (\<lambda>source.
     ebind (enum_field FEE_COMPLETENESS ''completeness'' (jget r ''completeness'')) (\<lambda>completeness.
     ebind (assert_js (set (obj_keys r) \<subseteq> {''source'', ''completeness'', ''charges''}) (Invalid_account ''feeObservation'')) (\<lambda>_.
     ebind (array_field ''charges'' (jget r ''charges'')) (\<lambda>cs.
     ebind (emap read_charge cs) (\<lambda>charges.
       let obs = \<lparr>fo_source = source, fo_completeness = completeness, fo_charges = charges\<rparr>
       in if isOrderFeeObservation obs then Inr obs else Inl (Invalid_account ''feeObservation'')))))))"

definition ledger_fee :: "string \<Rightarrow> jsnum \<Rightarrow> order_fee_observation \<Rightarrow> bool" where
  "ledger_fee quote filled obs \<longleftrightarrow>
     fo_source obs = Paper_ledger \<and> length (fo_charges obs) = 1 \<and>
     \<not> list_ex (\<lambda>c. fee_currency c \<noteq> quote \<or> js_lt (fee_cost c) (Fin 0) \<or> (js_eq filled (Fin 0) \<and> \<not> js_eq (fee_cost c) (Fin 0))) (fo_charges obs)"

definition parse_fee_field :: "string \<Rightarrow> jsnum \<Rightarrow> json \<Rightarrow> account_error + order_fee_observation option" where
  "parse_fee_field quote filled =
     optional_field (\<lambda>v. ebind (emap_error (\<lambda>_. Invalid_account ''feeObservation'') (read_fee_observation v)) (\<lambda>obs.
       if ledger_fee quote filled obs then Inr obs else Inl (Invalid_account ''feeObservation'')))"

definition positive_if_given :: "string \<Rightarrow> jsnum option \<Rightarrow> account_error + unit" where
  "positive_if_given label x = assert_js (case x of None \<Rightarrow> True | Some n \<Rightarrow> \<not> js_le n (Fin 0)) (Invalid_account label)"

definition parseOrder :: "string \<Rightarrow> json \<Rightarrow> account_error + paper_order" where
  "parseOrder quote v =
     ebind (object_field ''order'' v) (\<lambda>r.
     ebind (nonempty_string ''id'' (jget r ''id'')) (\<lambda>id.
     ebind (nonempty_string ''symbol'' (jget r ''symbol'')) (\<lambda>symbol.
     ebind (enum_field STORED_ORDER_TYPES ''type'' (jget r ''type'')) (\<lambda>type.
     ebind (enum_field ORDER_STATUSES ''status'' (jget r ''status'')) (\<lambda>status.
     ebind (positiveNumber ''amount'' (jget r ''amount'')) (\<lambda>amount.
     ebind (nonNegativeNumber ''filled'' (jget r ''filled'')) (\<lambda>filled.
     ebind (assert_js (\<not> js_gt filled amount) (Invalid_account ''filled'')) (\<lambda>_.
     ebind (parse_fee_field quote filled (jget r ''feeObservation'')) (\<lambda>fee.
     ebind (optionalFinite ''price'' (jget r ''price'')) (\<lambda>price.
     ebind (optionalFinite ''stopPrice'' (jget r ''stopPrice'')) (\<lambda>stopPrice.
     ebind (optionalFinite ''trailingPercent'' (jget r ''trailingPercent'')) (\<lambda>trailingPercent.
     ebind (optionalFinite ''trailingExtreme'' (jget r ''trailingExtreme'')) (\<lambda>trailingExtreme.
     ebind (optionalFinite ''reservePrice'' (jget r ''reservePrice'')) (\<lambda>reservePrice.
     ebind (optionalFinite ''average'' (jget r ''average'')) (\<lambda>average.
     ebind (positive_if_given ''price'' price) (\<lambda>_.
     ebind (positive_if_given ''stopPrice'' stopPrice) (\<lambda>_.
     ebind (assert_js (case trailingPercent of None \<Rightarrow> True | Some p \<Rightarrow> \<not> (js_le p (Fin 0) \<or> js_ge p (Fin 100))) (Invalid_account ''trailingPercent'')) (\<lambda>_.
     ebind (positive_if_given ''trailingExtreme'' trailingExtreme) (\<lambda>_.
     ebind (positive_if_given ''reservePrice'' reservePrice) (\<lambda>_.
     ebind (positive_if_given ''average'' average) (\<lambda>_.
     ebind (optional_field (nonNegativeNumber ''reservedMargin'') (jget r ''reservedMargin'')) (\<lambda>reservedMargin.
     ebind (orderSide ''side'' (jget r ''side'')) (\<lambda>side.
     ebind (optionalBoolean ''triggered'' (jget r ''triggered'')) (\<lambda>triggered.
     ebind (optionalFinite ''lastCheckedAt'' (jget r ''lastCheckedAt'')) (\<lambda>lastCheckedAt.
     ebind (optionalString ''ocoGroup'' (jget r ''ocoGroup'')) (\<lambda>ocoGroup.
     ebind (optionalString ''clientOrderId'' (jget r ''clientOrderId'')) (\<lambda>clientOrderId.
     ebind (optionalString ''listClientOrderId'' (jget r ''listClientOrderId'')) (\<lambda>listClientOrderId.
     ebind (positionSide ''positionSide'' (jget r ''positionSide'')) (\<lambda>pside.
     ebind (optionalBoolean ''reduceOnly'' (jget r ''reduceOnly'')) (\<lambda>reduceOnly.
     ebind (optionalBoolean ''closePosition'' (jget r ''closePosition'')) (\<lambda>closePosition.
     ebind (nonNegativeNumber ''cost'' (jget r ''cost'')) (\<lambda>cost.
     ebind (finiteNumber ''timestamp'' (jget r ''timestamp'')) (\<lambda>timestamp.
       Inr \<lparr>po_id = id, po_symbol = symbol, po_side = side, po_type = type, po_price = price, po_stopPrice = stopPrice,
            po_trailingPercent = trailingPercent, po_trailingExtreme = trailingExtreme, po_triggered = triggered,
            po_reservePrice = reservePrice, po_reservedMargin = reservedMargin, po_lastCheckedAt = lastCheckedAt, po_ocoGroup = ocoGroup,
            po_clientOrderId = clientOrderId, po_listClientOrderId = listClientOrderId, po_positionSide = pside,
            po_reduceOnly = reduceOnly, po_closePosition = closePosition, po_amount = amount, po_filled = filled, po_average = average,
            po_cost = cost, po_feeObservation = fee, po_status = status, po_timestamp = timestamp\<rparr>)))))))))))))))))))))))))))))))))"

definition parseTrade :: "json \<Rightarrow> account_error + paper_trade" where
  "parseTrade v =
     ebind (object_field ''trade'' v) (\<lambda>r.
     ebind (nonempty_string ''id'' (jget r ''id'')) (\<lambda>id.
     ebind (nonempty_string ''symbol'' (jget r ''symbol'')) (\<lambda>symbol.
     ebind (positiveNumber ''price'' (jget r ''price'')) (\<lambda>price.
     ebind (positiveNumber ''amount'' (jget r ''amount'')) (\<lambda>amount.
     ebind (nonNegativeNumber ''cost'' (jget r ''cost'')) (\<lambda>cost.
     ebind (nonNegativeNumber ''fee'' (jget r ''fee'')) (\<lambda>fee.
     ebind (orderSide ''side'' (jget r ''side'')) (\<lambda>side.
     ebind (optionalFinite ''realizedPnl'' (jget r ''realizedPnl'')) (\<lambda>realizedPnl.
     ebind (positionSide ''positionSide'' (jget r ''positionSide'')) (\<lambda>pside.
     ebind (finiteNumber ''timestamp'' (jget r ''timestamp'')) (\<lambda>timestamp.
       Inr \<lparr>pt_id = id, pt_symbol = symbol, pt_side = side, pt_price = price, pt_amount = amount, pt_cost = cost, pt_fee = fee,
            pt_realizedPnl = realizedPnl, pt_positionSide = pside, pt_timestamp = timestamp\<rparr>)))))))))))"

text \<open>A dictionary: every own entry in order, with \<^verbatim>\<open>Object.fromEntries\<close>.\<close>

definition parse_dict :: "(json \<Rightarrow> account_error + 'a) \<Rightarrow> json obj \<Rightarrow> account_error + 'a obj" where
  "parse_dict parse r = emap (\<lambda>(k, v). ebind (parse v) (\<lambda>x. Inr (k, x))) r"

definition parseNumberRecord :: "string \<Rightarrow> json \<Rightarrow> account_error + jsnum obj" where
  "parseNumberRecord label v = ebind (object_field label v) (parse_dict (finiteNumber label))"

definition parseLeverageBySymbol :: "json \<Rightarrow> account_error + jsnum obj option" where
  "parseLeverageBySymbol =
     optional_field (\<lambda>v. ebind (parseNumberRecord ''leverageBySymbol'' v) (\<lambda>r.
       if list_all (\<lambda>e. leverage_ok (snd e)) r then Inr r else Inl (Invalid_account ''leverageBySymbol'')))"

definition parseMarginTypeBySymbol :: "json \<Rightarrow> account_error + margin_type obj option" where
  "parseMarginTypeBySymbol =
     optional_field (\<lambda>v. ebind (object_field ''marginTypeBySymbol'' v) (parse_dict (marginType ''marginTypeBySymbol'')))"

text \<open>Legacy orders without fee evidence get that of the one trade with their id, when it matches.\<close>

definition sole_trade :: "paper_trade list \<Rightarrow> string \<Rightarrow> paper_trade option" where
  "sole_trade trades tid = (case filter (\<lambda>t. pt_id t = tid) trades of [t] \<Rightarrow> Some t | _ \<Rightarrow> None)"

definition legacy_trade :: "paper_order list \<Rightarrow> paper_trade list \<Rightarrow> paper_order \<Rightarrow> paper_trade option" where
  "legacy_trade orders trades ord =
     (if po_feeObservation ord \<noteq> None \<or> js_eq (po_filled ord) (Fin 0) \<or> length (filter (\<lambda>x. po_id x = po_id ord) orders) \<noteq> 1 then None
      else case sole_trade trades (po_id ord) of
          None \<Rightarrow> None
        | Some t \<Rightarrow>
            if pt_symbol t = po_symbol ord \<and> pt_side t = po_side ord \<and> pt_positionSide t = po_positionSide ord \<and>
               js_eq (pt_amount t) (po_filled ord) \<and> js_eq (pt_cost t) (po_cost ord)
            then Some t else None)"

definition add_legacy_fee :: "string \<Rightarrow> paper_order list \<Rightarrow> paper_trade list \<Rightarrow> paper_order \<Rightarrow> account_error + paper_order" where
  "add_legacy_fee quote orders trades ord =
     (case legacy_trade orders trades ord of
        None \<Rightarrow> Inr ord
      | Some t \<Rightarrow> ebind (paperOrderFeeObservation quote (pt_fee t) None) (\<lambda>obs. Inr (ord\<lparr>po_feeObservation := Some obs\<rparr>)))"

definition parsePaperAccount :: "json \<Rightarrow> account_error + paper_account" where
  "parsePaperAccount v =
     ebind (object_field ''account'' v) (\<lambda>r.
     ebind (nonempty_string ''quote'' (jget r ''quote'')) (\<lambda>quote.
     ebind (object_field ''entries'' (jget r ''entries'')) (\<lambda>rawEntries.
     ebind (array_field ''orders'' (jget r ''orders'')) (\<lambda>rawOrders.
     ebind (array_field ''trades'' (jget r ''trades'')) (\<lambda>rawTrades.
     ebind (optional_field (leverageNumber ''leverage'') (jget r ''leverage'')) (\<lambda>leverage.
     ebind (optional_field (enum_field POSITION_MODES ''positionMode'') (jget r ''positionMode'')) (\<lambda>positionMode.
     ebind (emap (parseOrder quote) rawOrders) (\<lambda>orders.
     ebind (emap parseTrade rawTrades) (\<lambda>trades.
     ebind (emap (add_legacy_fee quote orders trades) orders) (\<lambda>orders.
     ebind (parseNumberRecord ''balances'' (jget r ''balances'')) (\<lambda>balances.
     ebind (parse_dict parseEntry rawEntries) (\<lambda>entries.
     ebind (finiteNumber ''realizedPnl'' (jget r ''realizedPnl'')) (\<lambda>realizedPnl.
     ebind (optional_field (marginType ''marginType'') (jget r ''marginType'')) (\<lambda>m.
     ebind (parseLeverageBySymbol (jget r ''leverageBySymbol'')) (\<lambda>leverageBySymbol.
     ebind (parseMarginTypeBySymbol (jget r ''marginTypeBySymbol'')) (\<lambda>marginTypeBySymbol.
     ebind (finiteNumber ''createdAt'' (jget r ''createdAt'')) (\<lambda>createdAt.
       Inr \<lparr>pa_quote = quote, pa_balances = balances, pa_entries = entries, pa_orders = orders, pa_trades = trades,
            pa_realizedPnl = realizedPnl, pa_leverage = leverage, pa_marginType = m, pa_leverageBySymbol = leverageBySymbol,
            pa_marginTypeBySymbol = marginTypeBySymbol, pa_positionMode = positionMode, pa_createdAt = createdAt\<rparr>)))))))))))))))))"

definition freshSpotAccount :: "jsnum \<Rightarrow> string \<Rightarrow> jsnum \<Rightarrow> paper_account" where
  "freshSpotAccount now quote startQuote =
     \<lparr>pa_quote = quote, pa_balances = [(quote, startQuote)], pa_entries = [], pa_orders = [], pa_trades = [], pa_realizedPnl = Fin 0,
      pa_leverage = None, pa_marginType = None, pa_leverageBySymbol = None, pa_marginTypeBySymbol = None, pa_positionMode = None, pa_createdAt = now\<rparr>"

definition freshFuturesAccount :: "jsnum \<Rightarrow> string \<Rightarrow> jsnum \<Rightarrow> jsnum \<Rightarrow> margin_type \<Rightarrow> position_mode \<Rightarrow> paper_account" where
  "freshFuturesAccount now quote startQuote leverage m mode =
     (freshSpotAccount now quote startQuote)\<lparr>pa_leverage := Some leverage, pa_marginType := Some m, pa_positionMode := Some mode\<rparr>"


section \<open>Order ids\<close>

text \<open>\<^verbatim>\<open>Number(text)\<close>: the string numeric literals of the language, correctly rounded.\<close>

definition trim :: "string \<Rightarrow> string" where
  "trim s = rev (dropWhile is_space (rev (dropWhile is_space s)))"

definition radix_digit :: "char \<Rightarrow> int" where
  "radix_digit c =
     (if is_digit c then int (of_char c) - 48
      else if is_lower c then int (of_char c) - 87
      else if is_upper c then int (of_char c) - 55 else 99)"

definition radix_value :: "int \<Rightarrow> string \<Rightarrow> jsnum" where
  "radix_value b s =
     (if s \<noteq> [] \<and> list_all (\<lambda>c. radix_digit c < b) s then fl (of_int (fold (\<lambda>c n. b * n + radix_digit c) s 0)) else NaN)"

definition exponent_value :: "string \<Rightarrow> int option" where
  "exponent_value ex =
     (case ex of
        [] \<Rightarrow> Some 0
      | _ # CHR ''-'' # ds \<Rightarrow> if ds \<noteq> [] \<and> list_all is_digit ds then Some (- digits_value ds) else None
      | _ # CHR ''+'' # ds \<Rightarrow> if ds \<noteq> [] \<and> list_all is_digit ds then Some (digits_value ds) else None
      | _ # ds \<Rightarrow> if ds \<noteq> [] \<and> list_all is_digit ds then Some (digits_value ds) else None)"

definition decimal_value :: "string \<Rightarrow> jsnum" where
  "decimal_value s =
     (let is_e = (\<lambda>c. c = CHR ''e'' \<or> c = CHR ''E''); mantissa = takeWhile (\<lambda>c. \<not> is_e c) s; ex = dropWhile (\<lambda>c. \<not> is_e c) s;
          ip = takeWhile (\<lambda>c. c \<noteq> CHR ''.'') mantissa; fp = drop 1 (dropWhile (\<lambda>c. c \<noteq> CHR ''.'') mantissa)
      in if s = ''Infinity'' then PInf
         else if list_all is_digit ip \<and> list_all is_digit fp \<and> ip @ fp \<noteq> [] then
           (case exponent_value ex of None \<Rightarrow> NaN | Some e \<Rightarrow> fl (of_int (digits_value (ip @ fp)) * 10 powi (e - int (length fp))))
         else NaN)"

definition js_Number :: "string \<Rightarrow> jsnum" where
  "js_Number s =
     (let t = trim s
      in if t = [] then Fin 0
         else if take 2 t \<in> {''0x'', ''0X''} then radix_value 16 (drop 2 t)
         else if take 2 t \<in> {''0o'', ''0O''} then radix_value 8 (drop 2 t)
         else if take 2 t \<in> {''0b'', ''0B''} then radix_value 2 (drop 2 t)
         else if hd t = CHR ''-'' then js_neg (decimal_value (tl t))
         else if hd t = CHR ''+'' then decimal_value (tl t)
         else decimal_value t)"

definition record_ids :: "paper_account \<Rightarrow> string list" where
  "record_ids a = map po_id (pa_orders a) @ map pt_id (pa_trades a)"

definition max_id_step :: "string \<Rightarrow> nat \<Rightarrow> nat" where
  "max_id_step s m =
     (let n = js_Number s
      in if \<not> is_finite n \<or> \<not> is_safe_integer n \<or> js_lt n (Fin 0) then m
         else max m (case n of Fin x \<Rightarrow> nat \<lfloor>x\<rfloor> | _ \<Rightarrow> 0))"

definition maxPersistedOrderId :: "paper_account list \<Rightarrow> nat" where
  "maxPersistedOrderId accounts = Suc (fold (\<lambda>a m. fold max_id_step (record_ids a) m) accounts 0)"

lemma show_nat_digits: "list_all is_digit (show_nat n)" "show_nat n \<noteq> []" "digits_value (show_nat n) = int n"
proof -
  have d: "int (of_char (digit_char (int k))) - 48 = int (k mod 10)" for k
  proof -
    have "nat (int k mod 10) = k mod 10" by (simp add: nat_mod_distrib)
    moreover have "j < 10 \<Longrightarrow> int (of_char (''0123456789'' ! j)) - 48 = int j" for j
      by (induction j rule: nat_less_induct) (auto simp: numeral_eq_Suc less_Suc_eq)
    ultimately show ?thesis by (simp add: digit_char_def)
  qed
  show "list_all is_digit (show_nat n)" "show_nat n \<noteq> []" "digits_value (show_nat n) = int n"
  proof (induction n rule: show_nat.induct)
    case (1 n)
    case 1
    then show ?case using "1.IH" by (subst show_nat.simps) (auto simp: digit_char_is_digit)
  next
    case (1 n)
    case 2
    then show ?case by (subst show_nat.simps) auto
  next
    case (1 n)
    case 3
    have "10 * int (n div 10) + int (n mod 10) = int n" by (metis mult_div_mod_eq of_nat_add of_nat_mult of_nat_numeral)
    then show ?case using "1.IH"(3) d[of n] by (subst show_nat.simps) (auto simp: digits_value_def)
  qed
qed

lemma digit_not: "is_digit c \<Longrightarrow> \<not> is_space c" "is_digit c \<Longrightarrow> c \<notin> {CHR ''e'', CHR ''E'', CHR ''.'', CHR ''-'', CHR ''+'', CHR ''I''}"
  "is_digit c \<Longrightarrow> c \<notin> {CHR ''x'', CHR ''X'', CHR ''o'', CHR ''O'', CHR ''b'', CHR ''B''}"
  by (auto simp: is_digit_def is_space_def)

lemma takeWhile_digits: "list_all is_digit s \<Longrightarrow> (\<And>c. is_digit c \<Longrightarrow> P c) \<Longrightarrow> takeWhile P s = s \<and> dropWhile P s = []"
  by (auto simp: list_all_iff)

text \<open>A string of digits is read as the number it writes.\<close>

lemma js_Number_digits:
  assumes "list_all is_digit s" "s \<noteq> []" shows "js_Number s = fl (of_int (digits_value s))"
proof -
  have t: "trim s = s"
  proof -
    have "\<not> is_space (hd s)" "\<not> is_space (hd (rev s))"
      using assms digit_not(1) hd_in_set[of s] last_in_set[of s] by (auto simp: list_all_iff hd_rev)
    then have "dropWhile is_space s = s" "dropWhile is_space (rev s) = rev s" by (auto simp only: dropWhile_eq_self_iff)
    then show ?thesis by (simp add: trim_def)
  qed
  have two: "take 2 s \<notin> {[CHR ''0'', c] | c. \<not> is_digit c}" using assms(1) by (cases s; cases "tl s") auto
  have e: "takeWhile (\<lambda>c. \<not> (c = CHR ''e'' \<or> c = CHR ''E'')) s = s" "dropWhile (\<lambda>c. \<not> (c = CHR ''e'' \<or> c = CHR ''E'')) s = []"
    "takeWhile (\<lambda>c. c \<noteq> CHR ''.'') s = s" "dropWhile (\<lambda>c. c \<noteq> CHR ''.'') s = []"
    using assms(1) digit_not(2) by (auto simp: list_all_iff)
  have i: "s \<noteq> ''Infinity''" using assms(1) by (auto simp: is_digit_def)
  have d: "decimal_value s = fl (of_int (digits_value s))"
    unfolding decimal_value_def Let_def e using assms i by (simp add: exponent_value_def)
  have h: "hd s \<noteq> CHR ''-''" "hd s \<noteq> CHR ''+''" using assms digit_not(2)[of "hd s"] by (cases s; auto)+
  have p: "take 2 s \<noteq> [CHR ''0'', c]" if "c \<in> {CHR ''x'', CHR ''X'', CHR ''o'', CHR ''O'', CHR ''b'', CHR ''B''}" for c
    using two digit_not(3)[of c] that by blast
  show ?thesis unfolding js_Number_def t Let_def using assms(2) h d p by simp
qed

lemma js_Number_show_nat: "n < 2 ^ 53 \<Longrightarrow> js_Number (show_nat n) = Fin (of_nat n)"
  using js_Number_digits[OF show_nat_digits(1,2), of n] fl_of_int[of "int n"] by (simp add: show_nat_digits(3))

lemma max_id_mono: "m \<le> fold max_id_step ids m"
  by (induction ids arbitrary: m) (auto simp: max_id_step_def Let_def intro: order.trans max.cobounded1)

lemma max_id_ge: "show_nat n \<in> set ids \<Longrightarrow> n < 2 ^ 53 \<Longrightarrow> n \<le> fold max_id_step ids m"
proof (induction ids arbitrary: m)
  case (Cons s ids)
  show ?case
  proof (cases "show_nat n = s")
    case True
    have "of_nat n \<le> (of_nat (2 ^ 53 - 1) :: rat)" using Cons.prems(2) by (simp only: of_nat_le_iff)
    then have "n \<le> max_id_step s m" using True js_Number_show_nat[OF Cons.prems(2)] by (auto simp: max_id_step_def)
    then show ?thesis using max_id_mono[of "max_id_step s m" ids] by simp
  qed (use Cons in simp)
qed simp

lemma max_accounts_mono: "m \<le> fold (\<lambda>a m. fold max_id_step (record_ids a) m) accounts m"
  by (induction accounts arbitrary: m) (auto intro: order.trans[OF max_id_mono])

lemma max_accounts_ge:
  "a \<in> set accounts \<Longrightarrow> show_nat n \<in> set (record_ids a) \<Longrightarrow> n < 2 ^ 53 \<Longrightarrow>
    n \<le> fold (\<lambda>a m. fold max_id_step (record_ids a) m) accounts m"
proof (induction accounts arbitrary: m)
  case (Cons b bs)
  then show ?case
    using max_id_ge[of n "record_ids b" m] max_accounts_mono[of "fold max_id_step (record_ids b) m" bs] by (auto intro: order.trans)
qed simp


section \<open>Well-formed ledgers and what is stored\<close>

text \<open>What \<^verbatim>\<open>JSON.stringify\<close> keeps of an object: the fields that are not undefined.\<close>

definition stored_fields :: "json obj \<Rightarrow> json obj" where
  "stored_fields r = filter (\<lambda>e. snd e \<noteq> J_undefined) r"

definition opt_json :: "('a \<Rightarrow> json) \<Rightarrow> 'a option \<Rightarrow> json" where
  "opt_json f x = (case x of None \<Rightarrow> J_undefined | Some y \<Rightarrow> f y)"

definition enum_json :: "(string \<times> 'a) list \<Rightarrow> 'a \<Rightarrow> json" where
  "enum_json names x = J_str (case filter (\<lambda>e. snd e = x) names of e # _ \<Rightarrow> fst e | [] \<Rightarrow> [])"

definition lot_json :: "futures_lot \<Rightarrow> json" where
  "lot_json l = J_obj [(''amount'', J_num (lt_amount l)), (''price'', J_num (lt_price l)), (''leverage'', J_num (lt_leverage l)),
     (''marginType'', enum_json MARGIN_TYPES (lt_marginType l))]"

definition entry_json :: "futures_entry \<Rightarrow> json" where
  "entry_json e = J_obj (stored_fields [(''amount'', J_num (fe_amount e)), (''cost'', J_num (fe_cost e)),
     (''leverage'', opt_json J_num (fe_leverage e)), (''marginType'', opt_json (enum_json MARGIN_TYPES) (fe_marginType e)),
     (''lots'', opt_json (\<lambda>ls. J_arr (map lot_json ls)) (fe_lots e))])"

definition fee_json :: "order_fee_observation \<Rightarrow> json" where
  "fee_json obs = J_obj [(''source'', enum_json FEE_SOURCES (fo_source obs)), (''completeness'', enum_json FEE_COMPLETENESS (fo_completeness obs)),
     (''charges'', J_arr (map (\<lambda>c. J_obj [(''currency'', J_str (fee_currency c)), (''cost'', J_num (fee_cost c))]) (fo_charges obs)))]"

definition order_fields :: "paper_order \<Rightarrow> json obj" where
  "order_fields ord =
     [(''id'', J_str (po_id ord)), (''symbol'', J_str (po_symbol ord)), (''side'', enum_json ORDER_SIDES (po_side ord)),
      (''type'', enum_json STORED_ORDER_TYPES (po_type ord)), (''price'', opt_json J_num (po_price ord)), (''stopPrice'', opt_json J_num (po_stopPrice ord)),
      (''trailingPercent'', opt_json J_num (po_trailingPercent ord)), (''trailingExtreme'', opt_json J_num (po_trailingExtreme ord)),
      (''triggered'', opt_json J_bool (po_triggered ord)), (''reservePrice'', opt_json J_num (po_reservePrice ord)),
      (''reservedMargin'', opt_json J_num (po_reservedMargin ord)), (''lastCheckedAt'', opt_json J_num (po_lastCheckedAt ord)),
      (''ocoGroup'', opt_json J_str (po_ocoGroup ord)), (''clientOrderId'', opt_json J_str (po_clientOrderId ord)),
      (''listClientOrderId'', opt_json J_str (po_listClientOrderId ord)), (''positionSide'', opt_json (enum_json POSITION_SIDES) (po_positionSide ord)),
      (''reduceOnly'', opt_json J_bool (po_reduceOnly ord)), (''closePosition'', opt_json J_bool (po_closePosition ord)),
      (''amount'', J_num (po_amount ord)), (''filled'', J_num (po_filled ord)), (''average'', opt_json J_num (po_average ord)),
      (''cost'', J_num (po_cost ord)), (''feeObservation'', opt_json fee_json (po_feeObservation ord)),
      (''status'', enum_json ORDER_STATUSES (po_status ord)), (''timestamp'', J_num (po_timestamp ord))]"

definition order_json :: "paper_order \<Rightarrow> json" where
  "order_json ord = J_obj (stored_fields (order_fields ord))"

definition trade_json :: "paper_trade \<Rightarrow> json" where
  "trade_json t = J_obj (stored_fields
     [(''id'', J_str (pt_id t)), (''symbol'', J_str (pt_symbol t)), (''side'', enum_json ORDER_SIDES (pt_side t)), (''price'', J_num (pt_price t)),
      (''amount'', J_num (pt_amount t)), (''cost'', J_num (pt_cost t)), (''fee'', J_num (pt_fee t)), (''realizedPnl'', opt_json J_num (pt_realizedPnl t)),
      (''positionSide'', opt_json (enum_json POSITION_SIDES) (pt_positionSide t)), (''timestamp'', J_num (pt_timestamp t))])"

definition dict_json :: "('a \<Rightarrow> json) \<Rightarrow> 'a obj \<Rightarrow> json" where
  "dict_json f m = J_obj (map (\<lambda>(k, x). (k, f x)) m)"

definition account_fields :: "paper_account \<Rightarrow> json obj" where
  "account_fields a =
     [(''quote'', J_str (pa_quote a)), (''balances'', dict_json J_num (pa_balances a)), (''entries'', dict_json entry_json (pa_entries a)),
      (''orders'', J_arr (map order_json (pa_orders a))), (''trades'', J_arr (map trade_json (pa_trades a))), (''realizedPnl'', J_num (pa_realizedPnl a)),
      (''leverage'', opt_json J_num (pa_leverage a)), (''marginType'', opt_json (enum_json MARGIN_TYPES) (pa_marginType a)),
      (''leverageBySymbol'', opt_json (dict_json J_num) (pa_leverageBySymbol a)),
      (''marginTypeBySymbol'', opt_json (dict_json (enum_json MARGIN_TYPES)) (pa_marginTypeBySymbol a)),
      (''positionMode'', opt_json (enum_json POSITION_MODES) (pa_positionMode a)), (''createdAt'', J_num (pa_createdAt a))]"

definition account_json :: "paper_account \<Rightarrow> json" where
  "account_json a = J_obj (stored_fields (account_fields a))"

text \<open>The invariant of a ledger.\<close>

definition nonneg_num :: "jsnum \<Rightarrow> bool" where
  "nonneg_num n \<longleftrightarrow> is_finite n \<and> \<not> js_lt n (Fin 0)"

definition given_all :: "('a \<Rightarrow> bool) \<Rightarrow> 'a option \<Rightarrow> bool" where
  "given_all P x = (case x of None \<Rightarrow> True | Some y \<Rightarrow> P y)"

definition lot_ok :: "futures_lot \<Rightarrow> bool" where
  "lot_ok l \<longleftrightarrow> positive_finite (lt_amount l) \<and> positive_finite (lt_price l) \<and> is_finite (lt_leverage l) \<and> leverage_ok (lt_leverage l)"

definition entry_ok :: "futures_entry \<Rightarrow> bool" where
  "entry_ok e \<longleftrightarrow>
     is_finite (fe_amount e) \<and> nonneg_num (fe_cost e) \<and> (js_eq (fe_amount e) (Fin 0) \<longrightarrow> js_eq (fe_cost e) (Fin 0)) \<and>
     given_all (\<lambda>n. is_finite n \<and> leverage_ok n) (fe_leverage e) \<and>
     given_all (\<lambda>ls. list_all lot_ok ls \<and> lots_agree (fe_amount e) (fe_cost e) ls) (fe_lots e)"

definition order_ok :: "string \<Rightarrow> paper_order \<Rightarrow> bool" where
  "order_ok quote ord \<longleftrightarrow>
     po_id ord \<noteq> [] \<and> po_symbol ord \<noteq> [] \<and> positive_finite (po_amount ord) \<and> nonneg_num (po_filled ord) \<and> \<not> js_gt (po_filled ord) (po_amount ord) \<and>
     nonneg_num (po_cost ord) \<and> is_finite (po_timestamp ord) \<and> given_all positive_finite (po_price ord) \<and> given_all positive_finite (po_stopPrice ord) \<and>
     given_all (\<lambda>p. positive_finite p \<and> \<not> js_ge p (Fin 100)) (po_trailingPercent ord) \<and> given_all positive_finite (po_trailingExtreme ord) \<and>
     given_all positive_finite (po_reservePrice ord) \<and> given_all positive_finite (po_average ord) \<and> given_all nonneg_num (po_reservedMargin ord) \<and>
     given_all is_finite (po_lastCheckedAt ord) \<and> given_all (\<lambda>obs. isOrderFeeObservation obs \<and> ledger_fee quote (po_filled ord) obs) (po_feeObservation ord)"

definition trade_ok :: "paper_trade \<Rightarrow> bool" where
  "trade_ok t \<longleftrightarrow>
     pt_id t \<noteq> [] \<and> pt_symbol t \<noteq> [] \<and> positive_finite (pt_price t) \<and> positive_finite (pt_amount t) \<and> nonneg_num (pt_cost t) \<and> nonneg_num (pt_fee t) \<and>
     given_all is_finite (pt_realizedPnl t) \<and> is_finite (pt_timestamp t)"

definition account_ok :: "paper_account \<Rightarrow> bool" where
  "account_ok a \<longleftrightarrow>
     pa_quote a \<noteq> [] \<and> list_all (\<lambda>e. is_finite (snd e)) (pa_balances a) \<and> list_all (\<lambda>e. entry_ok (snd e)) (pa_entries a) \<and>
     list_all (order_ok (pa_quote a)) (pa_orders a) \<and> list_all trade_ok (pa_trades a) \<and>
     list_all (\<lambda>ord. legacy_trade (pa_orders a) (pa_trades a) ord = None) (pa_orders a) \<and> is_finite (pa_realizedPnl a) \<and>
     given_all (\<lambda>n. is_finite n \<and> leverage_ok n) (pa_leverage a) \<and>
     given_all (list_all (\<lambda>e. is_finite (snd e) \<and> leverage_ok (snd e))) (pa_leverageBySymbol a) \<and> is_finite (pa_createdAt a)"

section \<open>Loading what was stored\<close>

named_theorems load_simps \<open>reading a stored field gives the value that was stored\<close>

lemma jget_stored: "distinct (obj_keys r) \<Longrightarrow> jget (stored_fields r) k = jget r k"
proof (induction r)
  case (Cons e r)
  obtain l v where e: "e = (l, v)" by force
  have "obj_get (stored_fields r) l = None" if "l \<notin> set (obj_keys r)" using that by (auto simp: obj_get_None stored_fields_def)
  then show ?case using Cons e by (auto simp: jget_def stored_fields_def)
qed (simp add: stored_fields_def)

lemma jget_literal: "jget ((k, v) # r) l = (if l = k then v else jget r l)" "jget [] l = J_undefined"
  by (simp_all add: jget_def)

lemma positive_number_iff: "positive_finite n \<longleftrightarrow> is_finite n \<and> \<not> js_le n (Fin 0)"
  by (simp add: positive_finite_def)

lemma number_fields [load_simps]:
  "is_finite n \<Longrightarrow> finiteNumber label (J_num n) = Inr n"
  "nonneg_num n \<Longrightarrow> nonNegativeNumber label (J_num n) = Inr n"
  "positive_finite n \<Longrightarrow> positiveNumber label (J_num n) = Inr n"
  "is_finite n \<Longrightarrow> leverage_ok n \<Longrightarrow> leverageNumber label (J_num n) = Inr n"
  by (simp_all add: finiteNumber_def nonNegativeNumber_def positiveNumber_def leverageNumber_def nonneg_num_def positive_number_iff)

lemma optional_opt [load_simps]:
  assumes "given_all (\<lambda>y. f y \<noteq> J_undefined \<and> parse (f y) = Inr y) x"
  shows "optional_field parse (opt_json f x) = Inr x"
  using assms by (cases x) (simp_all add: optional_field_def opt_json_def given_all_def)

lemma enum_sides [load_simps]: "enum_field ORDER_SIDES label (enum_json ORDER_SIDES s) = Inr s"
  by (cases s) (simp_all add: enum_field_def enum_json_def ORDER_SIDES_def)

lemma enum_statuses [load_simps]: "enum_field ORDER_STATUSES label (enum_json ORDER_STATUSES s) = Inr s"
  by (cases s) (simp_all add: enum_field_def enum_json_def ORDER_STATUSES_def)

lemma enum_types [load_simps]: "enum_field STORED_ORDER_TYPES label (enum_json STORED_ORDER_TYPES s) = Inr s"
  by (cases s) (simp_all add: enum_field_def enum_json_def STORED_ORDER_TYPES_def)

lemma enum_position_sides [load_simps]: "enum_field POSITION_SIDES label (enum_json POSITION_SIDES s) = Inr s"
  by (cases s) (simp_all add: enum_field_def enum_json_def POSITION_SIDES_def)

lemma enum_margin_types [load_simps]: "enum_field MARGIN_TYPES label (enum_json MARGIN_TYPES s) = Inr s"
  by (cases s) (simp_all add: enum_field_def enum_json_def MARGIN_TYPES_def)

lemma enum_position_modes [load_simps]: "enum_field POSITION_MODES label (enum_json POSITION_MODES s) = Inr s"
  by (cases s) (simp_all add: enum_field_def enum_json_def POSITION_MODES_def)

lemma enum_sources [load_simps]: "enum_field FEE_SOURCES label (enum_json FEE_SOURCES s) = Inr s"
  by (cases s) (simp_all add: enum_field_def enum_json_def FEE_SOURCES_def)

lemma enum_completeness [load_simps]: "enum_field FEE_COMPLETENESS label (enum_json FEE_COMPLETENESS s) = Inr s"
  by (cases s) (simp_all add: enum_field_def enum_json_def FEE_COMPLETENESS_def)

lemma enum_json_defined [load_simps]: "enum_json names x \<noteq> J_undefined" "lot_json l \<noteq> J_undefined" "fee_json obs \<noteq> J_undefined" "dict_json f m \<noteq> J_undefined"
  by (simp_all add: enum_json_def lot_json_def fee_json_def dict_json_def)

lemma given_all_mono: "given_all P x \<Longrightarrow> (\<And>y. P y \<Longrightarrow> Q y) \<Longrightarrow> given_all Q x"
  by (cases x) (simp_all add: given_all_def)

lemma given_all_True [simp]: "given_all (\<lambda>y. True) x"
  by (cases x) (simp_all add: given_all_def)

lemma emap_map: "(\<And>x. x \<in> set xs \<Longrightarrow> f (g x) = Inr x) \<Longrightarrow> emap f (map g xs) = Inr xs"
  by (induction xs) auto

lemma lot_reload: "lot_ok l \<Longrightarrow> parseLot (lot_json l) = Inr l"
  by (simp add: parseLot_def lot_json_def object_field_def jget_literal lot_ok_def load_simps marginType_def)

lemma fee_reload: "isOrderFeeObservation obs \<Longrightarrow> read_fee_observation (fee_json obs) = Inr obs"
proof -
  assume ok: "isOrderFeeObservation obs"
  have "emap read_charge (map (\<lambda>c. J_obj [(''currency'', J_str (fee_currency c)), (''cost'', J_num (fee_cost c))]) (fo_charges obs)) = Inr (fo_charges obs)"
    using ok by (intro emap_map) (auto simp: read_charge_def object_field_def jget_literal stringField_def load_simps isOrderFeeObservation_def list_all_iff)
  then show ?thesis using ok
    by (cases obs) (simp add: read_fee_observation_def fee_json_def object_field_def array_field_def jget_literal load_simps)
qed


lemma entry_reload: "entry_ok e \<Longrightarrow> parseEntry (entry_json e) = Inr e"
proof -
  assume ok: "entry_ok e"
  have lots: "optional_field (\<lambda>ls. ebind (array_field ''lots'' ls) (emap parseLot)) (opt_json (\<lambda>ls. J_arr (map lot_json ls)) (fe_lots e)) = Inr (fe_lots e)"
    using ok unfolding entry_ok_def
    by (intro optional_opt) (auto elim!: given_all_mono simp: array_field_def list_all_iff lot_reload intro!: emap_map)
  have lev: "optional_field (leverageNumber ''leverage'') (opt_json J_num (fe_leverage e)) = Inr (fe_leverage e)"
    using ok unfolding entry_ok_def by (intro optional_opt) (auto elim!: given_all_mono simp: load_simps)
  have agree: "case fe_lots e of None \<Rightarrow> True | Some ls \<Rightarrow> lots_agree (fe_amount e) (fe_cost e) ls"
    using ok by (auto simp: entry_ok_def given_all_def split: option.splits)
  show ?thesis using ok
    by (simp add: parseEntry_def entry_json_def object_field_def jget_stored jget_literal marginType_def load_simps lots lev agree entry_ok_def)
qed

lemma trade_reload: "trade_ok t \<Longrightarrow> parseTrade (trade_json t) = Inr t"
proof -
  assume ok: "trade_ok t"
  have "optional_field (finiteNumber ''realizedPnl'') (opt_json J_num (pt_realizedPnl t)) = Inr (pt_realizedPnl t)"
    using ok unfolding trade_ok_def by (intro optional_opt) (auto elim!: given_all_mono simp: load_simps)
  then show ?thesis using ok
    by (simp add: parseTrade_def trade_json_def object_field_def jget_stored jget_literal nonempty_string_def orderSide_def optionalFinite_def positionSide_def
        load_simps trade_ok_def)
qed

lemma order_keys: "distinct (obj_keys (order_fields ord))"
  by (simp add: order_fields_def)

lemma optionalFinite_reload: "given_all is_finite x \<Longrightarrow> optionalFinite label (opt_json J_num x) = Inr x"
  unfolding optionalFinite_def by (intro optional_opt) (auto elim!: given_all_mono simp: load_simps)

lemma optionalBoolean_reload: "optionalBoolean label (opt_json J_bool x) = Inr x"
  unfolding optionalBoolean_def by (intro optional_opt) (simp add: booleanField_def)

lemma optionalString_reload: "optionalString label (opt_json J_str x) = Inr x"
  unfolding optionalString_def by (intro optional_opt) (simp add: stringField_def)

lemma positionSide_reload: "positionSide label (opt_json (enum_json POSITION_SIDES) x) = Inr x"
  unfolding positionSide_def by (intro optional_opt) (simp add: load_simps)

lemma parse_fee_reload:
  assumes "given_all (\<lambda>obs. isOrderFeeObservation obs \<and> ledger_fee quote filled obs) x"
  shows "parse_fee_field quote filled (opt_json fee_json x) = Inr x"
  unfolding parse_fee_field_def using assms by (intro optional_opt) (auto elim!: given_all_mono simp: load_simps fee_reload)

lemma positive_given: "given_all positive_finite x \<Longrightarrow> given_all is_finite x \<and> positive_if_given label x = Inr ()"
  by (cases x) (simp_all add: given_all_def positive_if_given_def positive_number_iff)

lemma order_reload: "order_ok quote ord \<Longrightarrow> parseOrder quote (order_json ord) = Inr ord"
proof -
  assume ok: "order_ok quote ord"
  have given: "given_all positive_finite (po_price ord)" "given_all positive_finite (po_stopPrice ord)" "given_all positive_finite (po_trailingExtreme ord)"
    "given_all positive_finite (po_reservePrice ord)" "given_all positive_finite (po_average ord)" "given_all is_finite (po_lastCheckedAt ord)"
    and fee: "given_all (\<lambda>obs. isOrderFeeObservation obs \<and> ledger_fee quote (po_filled ord) obs) (po_feeObservation ord)"
    and tp: "given_all (\<lambda>p. positive_finite p \<and> \<not> js_ge p (Fin 100)) (po_trailingPercent ord)"
    and rm: "given_all nonneg_num (po_reservedMargin ord)"
    and rest: "po_id ord \<noteq> []" "po_symbol ord \<noteq> []" "positive_finite (po_amount ord)" "nonneg_num (po_filled ord)" "\<not> js_gt (po_filled ord) (po_amount ord)"
     "nonneg_num (po_cost ord)" "is_finite (po_timestamp ord)"
    using ok unfolding order_ok_def by blast+
  have tp': "given_all is_finite (po_trailingPercent ord)"
    "case po_trailingPercent ord of None \<Rightarrow> True | Some p \<Rightarrow> \<not> (js_le p (Fin 0) \<or> js_ge p (Fin 100))"
    using tp by (auto simp: given_all_def positive_number_iff split: option.splits)
  have rm': "optional_field (nonNegativeNumber ''reservedMargin'') (opt_json J_num (po_reservedMargin ord)) = Inr (po_reservedMargin ord)"
    using rm by (intro optional_opt) (auto elim!: given_all_mono simp: load_simps)
  show ?thesis
    unfolding parseOrder_def order_json_def object_field_def read_object.simps option.case ebind_simps jget_stored[OF order_keys]
    by (simp add: order_fields_def jget_literal nonempty_string_def rest orderSide_def load_simps optionalFinite_reload optionalBoolean_reload
        optionalString_reload positionSide_reload parse_fee_reload[OF fee] given(1-5)[THEN positive_given, THEN conjunct1] given(6)
        given(1-5)[THEN positive_given, THEN conjunct2] tp' rm')
qed


text \<open>What an accepted field says.\<close>

named_theorems field_dests \<open>what an accepted field of a stored ledger satisfies\<close>

lemma number_field_dests [field_dests]:
  "finiteNumber label v = Inr n \<Longrightarrow> is_finite n"
  "nonNegativeNumber label v = Inr n \<Longrightarrow> nonneg_num n"
  "positiveNumber label v = Inr n \<Longrightarrow> positive_finite n"
  "leverageNumber label v = Inr n \<Longrightarrow> is_finite n \<and> leverage_ok n"
  "nonempty_string label v = Inr s \<Longrightarrow> s \<noteq> []"
  by (auto simp: finiteNumber_def nonNegativeNumber_def positiveNumber_def leverageNumber_def nonneg_num_def positive_number_iff nonempty_string_def result_simps
      split: option.splits if_splits json.splits)

lemma optional_field_dest: "optional_field parse v = Inr x \<Longrightarrow> (\<And>v y. parse v = Inr y \<Longrightarrow> P y) \<Longrightarrow> given_all P x"
  by (auto simp: optional_field_def given_all_def result_simps split: if_splits)

lemma optional_dests [field_dests]:
  "optionalFinite label v = Inr x \<Longrightarrow> given_all is_finite x"
  "optional_field (nonNegativeNumber label) v = Inr x \<Longrightarrow> given_all nonneg_num x"
  "optional_field (leverageNumber label) v = Inr x \<Longrightarrow> given_all (\<lambda>n. is_finite n \<and> leverage_ok n) x"
  unfolding optionalFinite_def by (erule optional_field_dest, erule field_dests)+

lemma positive_given_dest: "given_all is_finite x \<Longrightarrow> positive_if_given label x = Inr () \<Longrightarrow> given_all positive_finite x"
  by (auto simp: positive_if_given_def given_all_def positive_number_iff result_simps split: option.splits)

lemma read_fee_ok: "read_fee_observation v = Inr obs \<Longrightarrow> isOrderFeeObservation obs"
  by (auto simp: read_fee_observation_def result_simps Let_def split: if_splits)

lemma parse_fee_dest: "parse_fee_field quote filled v = Inr x \<Longrightarrow> given_all (\<lambda>obs. isOrderFeeObservation obs \<and> ledger_fee quote filled obs) x"
  unfolding parse_fee_field_def by (erule optional_field_dest) (auto simp: result_simps read_fee_ok split: if_splits)

lemma parseLot_ok: "parseLot v = Inr l \<Longrightarrow> lot_ok l"
  by (auto simp: parseLot_def result_simps lot_ok_def dest: field_dests)

lemma lots_dest: "optional_field (\<lambda>ls. ebind (array_field ''lots'' ls) (emap parseLot)) v = Inr x \<Longrightarrow> given_all (list_all lot_ok) x"
  by (erule optional_field_dest) (auto simp: result_simps list_all_iff dest!: emap_set intro: parseLot_ok)

lemma parseEntry_ok: "parseEntry v = Inr e \<Longrightarrow> entry_ok e"
  unfolding parseEntry_def result_simps
  apply (elim exE conjE)
  apply (drule field_dests lots_dest)+
  apply (auto simp: entry_ok_def given_all_def split: option.splits)
  done

lemma parseTrade_ok: "parseTrade v = Inr t \<Longrightarrow> trade_ok t"
  unfolding parseTrade_def result_simps
  apply (elim exE conjE)
  apply (drule field_dests)+
  apply (auto simp: trade_ok_def)
  done

lemma trailing_given_dest:
  "given_all is_finite x \<Longrightarrow> (case x of None \<Rightarrow> True | Some p \<Rightarrow> \<not> (js_le p (Fin 0) \<or> js_ge p (Fin 100))) \<Longrightarrow>
    given_all (\<lambda>p. positive_finite p \<and> \<not> js_ge p (Fin 100)) x"
  by (auto simp: given_all_def positive_number_iff split: option.splits)

lemma parseOrder_ok: "parseOrder quote v = Inr ord \<Longrightarrow> order_ok quote ord"
  unfolding parseOrder_def result_simps
  apply (elim exE conjE)
  apply (drule field_dests parse_fee_dest)+
  apply (auto simp: order_ok_def intro: positive_given_dest trailing_given_dest)
  done

section \<open>Accounts\<close>

lemma parse_dict_ok: "parse_dict parse r = Inr m \<Longrightarrow> (\<And>v y. parse v = Inr y \<Longrightarrow> P y) \<Longrightarrow> list_all (\<lambda>e. P (snd e)) m"
  by (auto simp: parse_dict_def list_all_iff result_simps dest!: emap_set)

lemma dict_reload:
  assumes "list_all (\<lambda>e. parse (f (snd e)) = Inr (snd e)) m"
  shows "object_field label (dict_json f m) = Inr (map (\<lambda>(k, x). (k, f x)) m)" "parse_dict parse (map (\<lambda>(k, x). (k, f x)) m) = Inr m"
  using assms by (auto simp: object_field_def dict_json_def parse_dict_def list_all_iff intro!: emap_map)

lemma js_eq_imp: "js_eq a b \<Longrightarrow> a = b"
  by (cases a) auto

lemma paper_fee_ok:
  assumes "paperOrderFeeObservation quote fee None = Inr obs"
  shows "isOrderFeeObservation obs \<and> (filled \<noteq> Fin 0 \<longrightarrow> ledger_fee quote filled obs)"
proof -
  have "is_finite fee" "\<not> js_lt fee (Fin 0)" using assms by (auto simp: paperOrderFeeObservation_def Let_def split: if_splits)
  then obtain x where x: "fee = Fin x" "0 \<le> x" by (cases fee) auto
  show ?thesis using assms x fl_nonneg[of x]
    by (auto simp: paperOrderFeeObservation_def Let_def ledger_fee_def split: if_splits dest: js_eq_imp)
qed

lemma legacy_ids: "map po_id orders' = map po_id orders \<Longrightarrow> legacy_trade orders' trades ord = legacy_trade orders trades ord"
proof -
  assume m: "map po_id orders' = map po_id orders"
  have c: "length (filter (\<lambda>x. po_id x = k) os) = count_list (map po_id os) k" for k os by (induction os) auto
  have "length (filter (\<lambda>x. po_id x = po_id ord) orders') = length (filter (\<lambda>x. po_id x = po_id ord) orders)" by (simp only: c m)
  then show ?thesis unfolding legacy_trade_def by presburger
qed

lemma add_legacy_fee_ok:
  assumes "add_legacy_fee quote orders trades ord = Inr ord'" "order_ok quote ord"
  shows "order_ok quote ord'" "po_id ord' = po_id ord" "legacy_trade orders trades ord' = None"
proof -
  have "order_ok quote ord' \<and> po_id ord' = po_id ord \<and> legacy_trade orders trades ord' = None"
  proof (cases "legacy_trade orders trades ord")
    case None
    then show ?thesis using assms by (simp add: add_legacy_fee_def)
  next
    case (Some t)
    then obtain obs where o: "paperOrderFeeObservation quote (pt_fee t) None = Inr obs" "ord' = ord\<lparr>po_feeObservation := Some obs\<rparr>"
      using assms(1) by (auto simp: add_legacy_fee_def result_simps)
    have "\<not> js_eq (po_filled ord) (Fin 0)" using Some by (auto simp: legacy_trade_def split: if_splits)
    then have "po_filled ord \<noteq> Fin 0" by auto
    then have "order_ok quote ord'" using assms(2) paper_fee_ok[OF o(1), of "po_filled ord"] o(2) by (simp add: order_ok_def given_all_def)
    then show ?thesis using o(2) by (simp add: legacy_trade_def)
  qed
  then show "order_ok quote ord'" "po_id ord' = po_id ord" "legacy_trade orders trades ord' = None" by simp_all
qed

lemma legacy_pass_ok:
  assumes "emap (add_legacy_fee quote orders trades) orders = Inr orders'" "list_all (order_ok quote) orders"
  shows "list_all (order_ok quote) orders'" "list_all (\<lambda>ord. legacy_trade orders' trades ord = None) orders'"
proof -
  have ids: "map po_id ys = map po_id xs" if "emap (add_legacy_fee quote orders trades) xs = Inr ys" "list_all (order_ok quote) xs" for xs ys
    using that add_legacy_fee_ok(2) by (induction xs arbitrary: ys) (fastforce simp: result_simps)+
  note ids = ids[OF assms]
  have "\<exists>ord \<in> set orders. add_legacy_fee quote orders trades ord = Inr ord'" if "ord' \<in> set orders'" for ord'
    using emap_set[OF assms(1) that] .
  then show "list_all (order_ok quote) orders'" "list_all (\<lambda>ord. legacy_trade orders' trades ord = None) orders'"
    using assms(2) add_legacy_fee_ok legacy_ids[OF ids, of trades] unfolding list_all_iff by metis+
qed


lemma account_keys: "distinct (obj_keys (account_fields a))"
  by (simp add: account_fields_def)

lemma balances_reload: "list_all (\<lambda>e. is_finite (snd e)) m \<Longrightarrow> parseNumberRecord label (dict_json J_num m) = Inr m"
  using dict_reload(1)[of "finiteNumber label" J_num m label] dict_reload(2)[of "finiteNumber label" J_num m] by (simp add: parseNumberRecord_def list_all_iff load_simps)

lemma account_reload: "account_ok a \<Longrightarrow> parsePaperAccount (account_json a) = Inr a"
proof -
  assume ok: "account_ok a"
  note ok = ok[unfolded account_ok_def]
  have ents: "parse_dict parseEntry (map (\<lambda>(k, x). (k, entry_json x)) (pa_entries a)) = Inr (pa_entries a)"
    using ok by (intro dict_reload(2)) (auto simp: list_all_iff entry_reload)
  have ords: "emap (parseOrder (pa_quote a)) (map order_json (pa_orders a)) = Inr (pa_orders a)"
    using ok by (intro emap_map) (auto simp: list_all_iff order_reload)
  have trds: "emap parseTrade (map trade_json (pa_trades a)) = Inr (pa_trades a)"
    using ok by (intro emap_map) (auto simp: list_all_iff trade_reload)
  have fees: "emap (add_legacy_fee (pa_quote a) (pa_orders a) (pa_trades a)) (pa_orders a) = Inr (pa_orders a)"
    using ok by (intro emap_id) (auto simp: list_all_iff add_legacy_fee_def)
  have lev: "optional_field (leverageNumber ''leverage'') (opt_json J_num (pa_leverage a)) = Inr (pa_leverage a)"
    using ok by (intro optional_opt) (auto elim!: given_all_mono simp: load_simps)
  have levs: "parseLeverageBySymbol (opt_json (dict_json J_num) (pa_leverageBySymbol a)) = Inr (pa_leverageBySymbol a)"
    using ok unfolding parseLeverageBySymbol_def
    by (intro optional_opt) (auto elim!: given_all_mono simp: load_simps list_all_iff balances_reload)
  have margins: "parseMarginTypeBySymbol (opt_json (dict_json (enum_json MARGIN_TYPES)) (pa_marginTypeBySymbol a)) = Inr (pa_marginTypeBySymbol a)"
    unfolding parseMarginTypeBySymbol_def marginType_def
    by (intro optional_opt) (auto simp: given_all_def load_simps object_field_def dict_json_def dict_reload(2) list_all_iff split: option.splits)
  show ?thesis
    unfolding parsePaperAccount_def account_json_def object_field_def[of "''account''"] read_object.simps option.case ebind_simps jget_stored[OF account_keys]
    using ok by (simp add: account_fields_def jget_literal nonempty_string_def object_field_def dict_json_def[of entry_json] array_field_def lev
        marginType_def load_simps ords trds fees balances_reload ents levs margins)
qed

lemma dict_dests:
  "emap (parseOrder quote) vs = Inr orders \<Longrightarrow> list_all (order_ok quote) orders"
  "emap parseTrade vs = Inr trades \<Longrightarrow> list_all trade_ok trades"
  "parseNumberRecord label v = Inr m \<Longrightarrow> list_all (\<lambda>e. is_finite (snd e)) m"
  "parse_dict parseEntry r = Inr entries \<Longrightarrow> list_all (\<lambda>e. entry_ok (snd e)) entries"
  by (auto simp: list_all_iff parseNumberRecord_def parse_dict_def result_simps dest!: emap_set intro: parseOrder_ok parseTrade_ok parseEntry_ok field_dests)

lemma leverages_dest: "parseLeverageBySymbol v = Inr x \<Longrightarrow> given_all (list_all (\<lambda>e. is_finite (snd e) \<and> leverage_ok (snd e))) x"
  unfolding parseLeverageBySymbol_def
  by (erule optional_field_dest) (fastforce simp: result_simps list_all_iff dest!: dict_dests(3) split: if_splits)

lemma parsed_ok: "parsePaperAccount v = Inr a \<Longrightarrow> account_ok a"
  unfolding parsePaperAccount_def result_simps
  apply (elim exE conjE)
  apply (drule dict_dests leverages_dest field_dests)+
  apply (frule (1) legacy_pass_ok(1))
  apply (drule (1) legacy_pass_ok(2))
  apply (auto simp: account_ok_def)
  done

section \<open>Properties\<close>

text \<open>C29. A ledger that loaded is well formed, and storing it and loading it again gives the same ledger: every
  order, trade, lot and setting is kept, and the fee evidence added to legacy orders is added once.\<close>

theorem ledger_loads_as_stored:
  assumes "parsePaperAccount v = Inr a"
  shows "account_ok a \<and> parsePaperAccount (account_json a) = Inr a"
  using account_reload parsed_ok[OF assms] by blast

definition demo_stored_ledger :: json where
  "demo_stored_ledger = J_obj
     [(''quote'', J_str ''USDT''), (''balances'', J_obj [(''USDT'', J_num (Fin 100)), (''BTC'', J_num (Fin 1))]),
      (''entries'', J_obj [(''BTC'', J_obj [(''amount'', J_num (Fin 1)), (''cost'', J_num (Fin 900))])]),
      (''orders'', J_arr [J_obj [(''id'', J_str ''1''), (''symbol'', J_str ''BTC/USDT''), (''type'', J_str ''market''), (''status'', J_str ''closed''),
        (''side'', J_str ''buy''), (''amount'', J_num (Fin 1)), (''filled'', J_num (Fin 1)), (''cost'', J_num (Fin 899)), (''timestamp'', J_num (Fin 5))]]),
      (''trades'', J_arr [J_obj [(''id'', J_str ''1''), (''symbol'', J_str ''BTC/USDT''), (''side'', J_str ''buy''), (''price'', J_num (Fin 899)),
        (''amount'', J_num (Fin 1)), (''cost'', J_num (Fin 899)), (''fee'', J_num (Fin 1)), (''timestamp'', J_num (Fin 5))]]),
      (''realizedPnl'', J_num (Fin 0)), (''createdAt'', J_num (Fin 1))]"

definition demo_loaded_ledger :: paper_account where
  "demo_loaded_ledger =
     (freshSpotAccount (Fin 1) ''USDT'' (Fin 100))\<lparr>pa_balances := [(''USDT'', Fin 100), (''BTC'', Fin 1)],
        pa_entries := [(''BTC'', \<lparr>fe_amount = Fin 1, fe_cost = Fin 900, fe_leverage = None, fe_marginType = None, fe_lots = None\<rparr>)],
        pa_orders := [\<lparr>po_id = ''1'', po_symbol = ''BTC/USDT'', po_side = Buy, po_type = Market, po_price = None, po_stopPrice = None,
            po_trailingPercent = None, po_trailingExtreme = None, po_triggered = None, po_reservePrice = None, po_reservedMargin = None,
            po_lastCheckedAt = None, po_ocoGroup = None, po_clientOrderId = None, po_listClientOrderId = None, po_positionSide = None,
            po_reduceOnly = None, po_closePosition = None, po_amount = Fin 1, po_filled = Fin 1, po_average = None, po_cost = Fin 899,
            po_feeObservation = Some \<lparr>fo_source = Paper_ledger, fo_completeness = Fees_complete, fo_charges = [\<lparr>fee_currency = ''USDT'', fee_cost = Fin 1\<rparr>]\<rparr>,
            po_status = PO_closed, po_timestamp = Fin 5\<rparr>],
        pa_trades := [\<lparr>pt_id = ''1'', pt_symbol = ''BTC/USDT'', pt_side = Buy, pt_price = Fin 899, pt_amount = Fin 1, pt_cost = Fin 899, pt_fee = Fin 1,
            pt_realizedPnl = None, pt_positionSide = None, pt_timestamp = Fin 5\<rparr>]\<rparr>"

lemmas field_eval = object_field_def array_field_def jget_literal nonempty_string_def optional_field_def finiteNumber_def positiveNumber_def nonNegativeNumber_def
  enum_field_def orderSide_def positionSide_def marginType_def optionalFinite_def optionalBoolean_def optionalString_def parse_fee_field_def positive_if_given_def
  parse_dict_def parseNumberRecord_def parseLeverageBySymbol_def parseMarginTypeBySymbol_def leverageNumber_def

lemma demo_ledger_loads: "parsePaperAccount demo_stored_ledger = Inr demo_loaded_ledger"
proof -
  have fee: "paperOrderFeeObservation ''USDT'' (Fin 1) None =
      Inr \<lparr>fo_source = Paper_ledger, fo_completeness = Fees_complete, fo_charges = [\<lparr>fee_currency = ''USDT'', fee_cost = Fin 1\<rparr>]\<rparr>"
    by (simp add: paperOrderFeeObservation_def isOrderFeeObservation_def fee_currency_valid_def currency_code_def is_upper_def)
  show ?thesis
    by (simp add: demo_stored_ledger_def demo_loaded_ledger_def freshSpotAccount_def parsePaperAccount_def parseOrder_def parseTrade_def parseEntry_def
        field_eval ORDER_SIDES_def ORDER_STATUSES_def STORED_ORDER_TYPES_def add_legacy_fee_def legacy_trade_def sole_trade_def fee)
qed

theorem ledger_loads_as_stored_witness:
  "account_ok demo_loaded_ledger \<and> parsePaperAccount (account_json demo_loaded_ledger) = Inr demo_loaded_ledger"
  by (rule ledger_loads_as_stored[OF demo_ledger_loads])

text \<open>The id the next order gets after loading is not the id of any stored order or trade.\<close>

theorem new_order_ids_are_fresh:
  assumes "maxPersistedOrderId accounts < 2 ^ 53" "a \<in> set accounts"
  shows "show_nat (maxPersistedOrderId accounts) \<notin> po_id ` set (pa_orders a) \<union> pt_id ` set (pa_trades a)"
proof
  let ?n = "maxPersistedOrderId accounts"
  assume "show_nat ?n \<in> po_id ` set (pa_orders a) \<union> pt_id ` set (pa_trades a)"
  then have "show_nat ?n \<in> set (record_ids a)" by (auto simp: record_ids_def)
  from max_accounts_ge[OF assms(2) this assms(1), of 0] show False by (simp add: maxPersistedOrderId_def)
qed

lemma show_nat_small: "n < 10 \<Longrightarrow> show_nat n = [digit_char (int n)]"
  by (simp add: show_nat.simps)

theorem new_order_ids_are_fresh_witness:
  "maxPersistedOrderId [demo_loaded_ledger] = 2 \<and> ''2'' \<notin> po_id ` set (pa_orders demo_loaded_ledger) \<union> pt_id ` set (pa_trades demo_loaded_ledger)"
proof -
  have "js_Number ''1'' = Fin 1" using js_Number_show_nat[of 1] by (simp add: show_nat_small digit_char_def)
  then have m: "maxPersistedOrderId [demo_loaded_ledger] = 2"
    by (simp add: maxPersistedOrderId_def record_ids_def demo_loaded_ledger_def max_id_step_def Let_def)
  have "show_nat 2 = ''2''" by (simp add: show_nat_small digit_char_def)
  then show ?thesis using new_order_ids_are_fresh[of "[demo_loaded_ledger]" demo_loaded_ledger] m by simp
qed

end
