(* ===== verification/Paper_Path.thy ===== *)
theory Paper_Path
  imports Paper_Account
begin


text \<open>
  The market path of the paper exchange (\<^verbatim>\<open>packages/trading-engine/src/paper-path.ts\<close>): triggers and trailing stops, the
  reconstruction of the price path since an order was last checked, and the walk of an order along it.
\<close>

section \<open>Triggers\<close>

definition base_part :: "string \<Rightarrow> string \<Rightarrow> string option" where
  "base_part symbol quote =
     (let suf = ''/'' @ quote in if \<not> suffix suf symbol then None else Some (take (length symbol - length suf) symbol))"

definition isTriggerType :: "order_type \<Rightarrow> bool" where
  "isTriggerType t \<longleftrightarrow> t \<in> {Stop, Stop_market, Take_profit, Take_profit_market}"

definition fall_to :: "order_type \<Rightarrow> side \<Rightarrow> bool" where
  "fall_to t s \<longleftrightarrow> (if t \<in> {Stop, Stop_market} then s = Sell else s = Buy)"

definition triggerFires :: "order_type \<Rightarrow> side \<Rightarrow> jsnum \<Rightarrow> jsnum \<Rightarrow> bool" where
  "triggerFires t s price stopPrice = (if fall_to t s then js_le price stopPrice else js_ge price stopPrice)"

definition trailingStopLevel :: "side \<Rightarrow> jsnum \<Rightarrow> jsnum \<Rightarrow> jsnum" where
  "trailingStopLevel s extreme percent =
     (if s = Sell then js_mul extreme (js_sub (Fin 1) (js_div percent (Fin 100))) else js_mul extreme (js_add (Fin 1) (js_div percent (Fin 100))))"

record path_segment =
  seg_high :: jsnum
  seg_low :: jsnum
  seg_tick :: bool

record market_path =
  mp_segments :: "path_segment list"
  mp_checkedAt :: jsnum

definition isFinitePositive :: "jsnum option \<Rightarrow> bool" where
  "isFinitePositive v = (case v of None \<Rightarrow> False | Some n \<Rightarrow> is_finite n \<and> js_gt n (Fin 0))"

section \<open>The path since the last check\<close>

text \<open>A row of \<^verbatim>\<open>fetchOHLCV\<close>; a missing cell is 0.\<close>

type_synonym ohlcv_row = "jsnum option list"

record kline =
  kl_timestamp :: jsnum
  kl_open :: jsnum
  kl_high :: jsnum
  kl_low :: jsnum
  kl_close :: jsnum
  kl_volume :: jsnum

definition cell :: "ohlcv_row \<Rightarrow> nat \<Rightarrow> jsnum" where
  "cell row i = (case (if i < length row then row ! i else None) of Some x \<Rightarrow> x | None \<Rightarrow> Fin 0)"

definition kline_of_row :: "ohlcv_row \<Rightarrow> kline" where
  "kline_of_row k = \<lparr>kl_timestamp = cell k 0, kl_open = cell k 1, kl_high = cell k 2, kl_low = cell k 3, kl_close = cell k 4, kl_volume = cell k 5\<rparr>"

type_synonym fetch_ohlcv = "string \<Rightarrow> string \<Rightarrow> jsnum \<Rightarrow> jsnum \<Rightarrow> ohlcv_row list option"

definition order_since :: "paper_order \<Rightarrow> jsnum" where
  "order_since ord = (case po_lastCheckedAt ord of Some t \<Rightarrow> t | None \<Rightarrow> po_timestamp ord)"

definition choose_timeframe :: "jsnum \<Rightarrow> string \<times> jsnum" where
  "choose_timeframe gapMinutes =
     (if js_le gapMinutes (Fin 400) then (''1m'', Fin 60000)
      else if js_le gapMinutes (Fin 6000) then (''15m'', Fin 900000) else (''1h'', Fin 3600000))"

definition tail_pages :: "jsnum \<Rightarrow> nat" where
  "tail_pages candleDurationMs = (case js_ceil (js_div (Fin 120000) candleDurationMs) of Fin x \<Rightarrow> Suc (nat \<lfloor>x\<rfloor>) | _ \<Rightarrow> 0)"

definition valid_candle :: "jsnum \<Rightarrow> jsnum \<Rightarrow> kline \<Rightarrow> bool" where
  "valid_candle since now k \<longleftrightarrow>
     is_finite (kl_timestamp k) \<and> js_ge (kl_timestamp k) since \<and> js_le (kl_timestamp k) now \<and> is_finite (kl_high k) \<and> is_finite (kl_low k) \<and>
     js_gt (kl_high k) (Fin 0) \<and> js_gt (kl_low k) (Fin 0)"

definition time_key :: "kline \<Rightarrow> rat" where
  "time_key k = (case kl_timestamp k of Fin x \<Rightarrow> x | _ \<Rightarrow> 0)"

definition valid_candles :: "jsnum \<Rightarrow> jsnum \<Rightarrow> kline list \<Rightarrow> kline list" where
  "valid_candles since now ks = sort_key time_key (filter (valid_candle since now) ks)"

text \<open>The state of the walk: the cursor, the start of the last candle taken, the cursors before each candle (the latest
  first) and the segments (the latest first).\<close>

record path_walk =
  wk_checkedAt :: jsnum
  wk_previous :: "jsnum option"
  wk_checkpoints :: "jsnum list"
  wk_path :: "path_segment list"

definition latest_start :: "paper_order \<Rightarrow> jsnum \<Rightarrow> jsnum \<Rightarrow> jsnum option \<Rightarrow> jsnum" where
  "latest_start ord since dur previous =
     (case previous of
        Some p \<Rightarrow> js_add p dur
      | None \<Rightarrow> if js_eq since (po_timestamp ord) then js_add since dur else js_mul (js_ceil (js_div since dur)) dur)"

fun take_candles :: "paper_order \<Rightarrow> jsnum \<Rightarrow> jsnum \<Rightarrow> jsnum \<Rightarrow> kline list \<Rightarrow> path_walk \<Rightarrow> path_walk" where
  "take_candles ord since now dur [] w = w"
| "take_candles ord since now dur (k # ks) w =
     (if (case wk_previous w of Some p \<Rightarrow> js_le (kl_timestamp k) p | None \<Rightarrow> False) then take_candles ord since now dur ks w
      else if js_gt (kl_timestamp k) (latest_start ord since dur (wk_previous w)) then w
      else take_candles ord since now dur ks
             \<lparr>wk_checkedAt = js_min now (js_add (kl_timestamp k) dur), wk_previous = Some (kl_timestamp k),
              wk_checkpoints = wk_checkedAt w # wk_checkpoints w,
              wk_path = \<lparr>seg_high = kl_high k, seg_low = kl_low k, seg_tick = False\<rparr> # wk_path w\<rparr>)"

definition fetch_page :: "fetch_ohlcv \<Rightarrow> string \<Rightarrow> string \<Rightarrow> jsnum \<Rightarrow> jsnum \<Rightarrow> jsnum option \<Rightarrow> kline list option \<Rightarrow> kline list option option" where
  "fetch_page fetch symbol timeframe dur now cursor candles =
     (case cursor of
        None \<Rightarrow> Some candles
      | Some c \<Rightarrow>
          map_option (\<lambda>rows. Some ((case candles of None \<Rightarrow> [] | Some ks \<Rightarrow> ks) @ map kline_of_row rows))
            (fetch symbol timeframe c (js_min (js_add (js_ceil (js_div (js_sub now c) dur)) (Fin 2)) (Fin 500))))"

text \<open>The paging loop. It returns the walk, unless a fetch failed, and the candles known for the symbol.\<close>

fun path_pages :: "fetch_ohlcv \<Rightarrow> paper_order \<Rightarrow> jsnum \<Rightarrow> jsnum \<Rightarrow> string \<Rightarrow> jsnum \<Rightarrow> nat \<Rightarrow> jsnum option \<Rightarrow> kline list option \<Rightarrow> path_walk
    \<Rightarrow> path_walk option \<times> kline list option" where
  "path_pages fetch ord since now timeframe dur tailPages cursor candles w =
     (case fetch_page fetch (po_symbol ord) timeframe dur now cursor candles of
        None \<Rightarrow> (None, candles)
      | Some candles' \<Rightarrow>
          let w' = take_candles ord since now dur (valid_candles since now (case candles' of None \<Rightarrow> [] | Some ks \<Rightarrow> ks)) w
          in if js_eq (wk_checkedAt w') now \<or> js_gt (js_sub now (wk_checkedAt w')) (Fin 120000) \<or> js_eq (wk_checkedAt w') (wk_checkedAt w)
             then (Some w', candles')
             else (case tailPages of
                     0 \<Rightarrow> (Some w', candles')
                   | Suc n \<Rightarrow> path_pages fetch ord since now timeframe dur n (Some (wk_checkedAt w')) candles' w'))"

declare path_pages.simps [simp del]

text \<open>A short tail that could not be covered is deferred with its segments.\<close>

fun defer_tail :: "jsnum \<Rightarrow> jsnum \<Rightarrow> jsnum list \<Rightarrow> path_segment list \<Rightarrow> jsnum \<times> path_segment list" where
  "defer_tail now checkedAt [] path = (checkedAt, path)"
| "defer_tail now checkedAt (c # cs) path =
     (if js_lt checkedAt now \<and> js_le (js_sub now checkedAt) (Fin 120000) then defer_tail now c cs (tl path) else (checkedAt, path))"

text \<open>The candles of a gap of more than two minutes: the path so far and how far it reaches.\<close>

definition walk_start :: "jsnum \<Rightarrow> path_walk" where
  "walk_start since = \<lparr>wk_checkedAt = since, wk_previous = None, wk_checkpoints = [], wk_path = []\<rparr>"

definition gap_path :: "fetch_ohlcv \<Rightarrow> paper_order \<Rightarrow> jsnum \<Rightarrow> jsnum \<Rightarrow> jsnum \<Rightarrow> kline list option
    \<Rightarrow> (path_segment list \<times> jsnum) option \<times> kline list option" where
  "gap_path fetch ord since now fetchSince candles =
     (let (timeframe, dur) = choose_timeframe (js_div (js_sub now fetchSince) (Fin 60000));
          (walk, candles') = path_pages fetch ord since now timeframe dur (tail_pages dur) (if candles = None then Some fetchSince else None) candles
                               (walk_start since)
      in (map_option (\<lambda>w. let (checkedAt, path) = defer_tail now (wk_checkedAt w) (wk_checkpoints w) (wk_path w)
                          in (rev path, js_max since checkedAt)) walk, candles'))"

text \<open>\<^verbatim>\<open>buildMarketPath\<close> returns the path, unless a fetch failed, and the candle cache.\<close>

definition buildMarketPath :: "fetch_ohlcv \<Rightarrow> paper_order \<Rightarrow> jsnum \<Rightarrow> jsnum \<Rightarrow> (string \<rightharpoonup> jsnum) \<Rightarrow> (string \<rightharpoonup> kline list)
    \<Rightarrow> market_path option \<times> (string \<rightharpoonup> kline list)" where
  "buildMarketPath fetch ord lst now minSince cache =
     (let since = order_since ord;
          (walked, cache') =
            (if js_gt (js_div (js_sub now since) (Fin 60000)) (Fin 2)
             then let (r, candles) = gap_path fetch ord since now (case minSince (po_symbol ord) of Some s \<Rightarrow> s | None \<Rightarrow> since) (cache (po_symbol ord))
                  in (r, cache(po_symbol ord := candles))
             else (Some ([], now), cache))
      in (map_option (\<lambda>(path, checkedAt).
            \<lparr>mp_segments = path @ (if js_eq checkedAt now then [\<lparr>seg_high = lst, seg_low = lst, seg_tick = True\<rparr>] else []), mp_checkedAt = checkedAt\<rparr>)
            walked, cache'))"

definition advanceCheckedAt :: "paper_order \<Rightarrow> jsnum \<Rightarrow> paper_order" where
  "advanceCheckedAt ord checkedAt =
     (if is_finite checkedAt \<and> js_gt checkedAt (order_since ord) then ord\<lparr>po_lastCheckedAt := Some checkedAt\<rparr> else ord)"

section \<open>The walk of an order\<close>

type_synonym path_fire = "nat \<times> jsnum"

definition is_triggered :: "paper_order \<Rightarrow> bool" where
  "is_triggered ord \<longleftrightarrow> po_triggered ord = Some True"

definition segment_triggers :: "paper_order \<Rightarrow> path_segment \<Rightarrow> jsnum \<Rightarrow> bool" where
  "segment_triggers ord seg stopPrice =
     (if fall_to (po_type ord) (po_side ord) then js_le (seg_low seg) stopPrice else js_ge (seg_high seg) stopPrice)"

definition limit_crossed :: "paper_order \<Rightarrow> path_segment \<Rightarrow> jsnum \<Rightarrow> bool" where
  "limit_crossed ord seg price = (if po_side ord = Buy then js_le (seg_low seg) price else js_ge (seg_high seg) price)"

text \<open>One segment: the order after it, and the fill price or whether the walk goes on.\<close>

datatype segment_result = Fires jsnum | Goes_on | Gives_up

definition walk_limit :: "paper_order \<Rightarrow> path_segment \<Rightarrow> segment_result" where
  "walk_limit ord seg =
     (case po_price ord of
        None \<Rightarrow> Goes_on
      | Some price \<Rightarrow>
          if isTriggerType (po_type ord) \<and> \<not> is_triggered ord then Goes_on
          else if limit_crossed ord seg price then Fires price else Goes_on)"

definition walk_segment :: "paper_order \<Rightarrow> path_segment \<Rightarrow> paper_order \<times> segment_result" where
  "walk_segment ord seg =
     (if po_type ord = Trailing_stop_market then
        (case po_trailingPercent ord of
           None \<Rightarrow> (ord, Gives_up)
         | Some percent \<Rightarrow>
             let extreme = (case po_trailingExtreme ord of Some e \<Rightarrow> e | None \<Rightarrow> seg_low seg);
                 level = trailingStopLevel (po_side ord) extreme percent
             in if (po_side ord = Sell \<and> js_le (seg_low seg) level) \<or> (po_side ord = Buy \<and> js_ge (seg_high seg) level) then (ord, Fires level)
                else (ord\<lparr>po_trailingExtreme := Some (if po_side ord = Sell then js_max extreme (seg_high seg) else js_min extreme (seg_low seg))\<rparr>, Goes_on))
      else case (if isTriggerType (po_type ord) \<and> \<not> is_triggered ord then po_stopPrice ord else None) of
          None \<Rightarrow> (ord, walk_limit ord seg)
        | Some stopPrice \<Rightarrow>
            if \<not> segment_triggers ord seg stopPrice then (ord, Goes_on)
            else if po_type ord = Stop_market \<or> po_type ord = Take_profit_market then (ord, Fires stopPrice)
            else let ord' = ord\<lparr>po_triggered := Some True\<rparr>
                 in if seg_tick seg then (ord', walk_limit ord' seg) else (ord', Goes_on))"

fun evaluate_from :: "nat \<Rightarrow> paper_order \<Rightarrow> path_segment list \<Rightarrow> paper_order \<times> path_fire option" where
  "evaluate_from i ord [] = (ord, None)"
| "evaluate_from i ord (seg # path) =
     (case walk_segment ord seg of
        (ord', Fires p) \<Rightarrow> (ord', Some (i, p))
      | (ord', Gives_up) \<Rightarrow> (ord', None)
      | (ord', Goes_on) \<Rightarrow> evaluate_from (Suc i) ord' path)"

definition evaluatePath :: "paper_order \<Rightarrow> path_segment list \<Rightarrow> paper_order \<times> path_fire option" where
  "evaluatePath ord path = evaluate_from 0 ord path"

definition paper_order_status :: "paper_status \<Rightarrow> order_status" where
  "paper_order_status s = (case s of PO_open \<Rightarrow> St_open | PO_closed \<Rightarrow> St_closed | PO_canceled \<Rightarrow> St_canceled)"

definition toOrder :: "paper_order \<Rightarrow> order" where
  "toOrder ord =
     \<lparr>ord_id = po_id ord, ord_symbol = po_symbol ord, ord_side = po_side ord, ord_type = po_type ord, ord_price = po_price ord,
      ord_stopPrice = po_stopPrice ord, ord_trailingPercent = po_trailingPercent ord, ord_activationPrice = None, ord_callbackRate = None,
      ord_ocoGroup = po_ocoGroup ord, ord_clientOrderId = po_clientOrderId ord, ord_orderListId = po_ocoGroup ord,
      ord_listClientOrderId = po_listClientOrderId ord,
      ord_listOrderStatus = (case truthy (po_ocoGroup ord) of None \<Rightarrow> None | Some _ \<Rightarrow> Some (if po_status ord = PO_open then ''EXECUTING'' else ''ALL_DONE'')),
      ord_positionSide = po_positionSide ord, ord_reduceOnly = po_reduceOnly ord, ord_closePosition = po_closePosition ord,
      ord_amount = po_amount ord, ord_filled = po_filled ord, ord_remaining = js_sub (po_amount ord) (po_filled ord), ord_average = po_average ord,
      ord_cost = po_cost ord, ord_feeObservation = po_feeObservation ord, ord_status = paper_order_status (po_status ord),
      ord_timestamp = po_timestamp ord\<rparr>"


section \<open>Where an order fills\<close>

text \<open>The price a resting order waits for, and how far a segment has to reach for it.\<close>

definition reaches :: "bool \<Rightarrow> path_segment \<Rightarrow> jsnum \<Rightarrow> bool" where
  "reaches falling seg level = (if falling then js_le (seg_low seg) level else js_ge (seg_high seg) level)"

text \<open>The extreme of a trailing stop after a stretch of the path.\<close>

fun trail_extreme :: "side \<Rightarrow> jsnum option \<Rightarrow> path_segment list \<Rightarrow> jsnum option" where
  "trail_extreme s e [] = e"
| "trail_extreme s e (seg # path) =
     trail_extreme s (Some (let x = (case e of Some x \<Rightarrow> x | None \<Rightarrow> seg_low seg) in if s = Sell then js_max x (seg_high seg) else js_min x (seg_low seg))) path"

definition trail_level :: "paper_order \<Rightarrow> jsnum \<Rightarrow> path_segment list \<Rightarrow> nat \<Rightarrow> jsnum" where
  "trail_level ord percent path i =
     trailingStopLevel (po_side ord)
       (case trail_extreme (po_side ord) (po_trailingExtreme ord) (take i path) of Some e \<Rightarrow> e | None \<Rightarrow> seg_low (path ! i)) percent"

text \<open>The specification of a fill at the segment \<open>i\<close>, read off the whole path: the kind of the order decides which price it fills at
  and which segments before must not have reached it. A trigger order is activated by the segment \<open>j\<close>; the limit of a
  stop-limit order counts from the next segment, unless the segment is a single price.\<close>

definition fills_after :: "paper_order \<Rightarrow> path_segment list \<Rightarrow> jsnum \<Rightarrow> nat \<Rightarrow> nat \<Rightarrow> jsnum \<Rightarrow> bool" where
  "fills_after ord path stopPrice j i p \<longleftrightarrow>
     j \<le> i \<and> reaches (fall_to (po_type ord) (po_side ord)) (path ! j) stopPrice \<and>
     (\<forall>k < j. \<not> reaches (fall_to (po_type ord) (po_side ord)) (path ! k) stopPrice) \<and>
     (if po_type ord = Stop_market \<or> po_type ord = Take_profit_market then i = j \<and> p = stopPrice
      else po_price ord = Some p \<and> (j < i \<or> seg_tick (path ! j)) \<and> reaches (po_side ord = Buy) (path ! i) p \<and>
        (\<forall>k < i. j < k \<or> k = j \<and> seg_tick (path ! j) \<longrightarrow> \<not> reaches (po_side ord = Buy) (path ! k) p))"

definition fills_at :: "paper_order \<Rightarrow> path_segment list \<Rightarrow> nat \<Rightarrow> jsnum \<Rightarrow> bool" where
  "fills_at ord path i p \<longleftrightarrow>
     i < length path \<and>
     (if po_type ord = Trailing_stop_market then
        (\<exists>percent. po_trailingPercent ord = Some percent \<and> p = trail_level ord percent path i \<and> reaches (po_side ord = Sell) (path ! i) p \<and>
           (\<forall>j < i. \<not> reaches (po_side ord = Sell) (path ! j) (trail_level ord percent path j)))
      else if isTriggerType (po_type ord) \<and> \<not> is_triggered ord then
        (\<exists>stopPrice j. po_stopPrice ord = Some stopPrice \<and> fills_after ord path stopPrice j i p)
      else po_price ord = Some p \<and> reaches (po_side ord = Buy) (path ! i) p \<and> (\<forall>j < i. \<not> reaches (po_side ord = Buy) (path ! j) p))"

lemma evaluate_from_Suc: "evaluate_from (Suc i) ord path = map_prod id (map_option (map_prod Suc id)) (evaluate_from i ord path)"
  by (induction path arbitrary: i ord) (auto split: prod.splits segment_result.splits)

lemma fills_at_Nil [simp]: "\<not> fills_at ord [] i p"
  by (simp add: fills_at_def)

text \<open>Whether the first segment ends the walk or is passed.\<close>

lemma reaches_simps: "segment_triggers ord seg = reaches (fall_to (po_type ord) (po_side ord)) seg"
  "limit_crossed ord seg = reaches (po_side ord = Buy) seg"
  by (auto simp: segment_triggers_def limit_crossed_def reaches_def fun_eq_iff)

lemma all_less_Suc0: "(\<forall>j < Suc n. P j) \<longleftrightarrow> P 0 \<and> (\<forall>j < n. P (Suc j))" for P :: "nat \<Rightarrow> bool"
  using less_Suc_eq_0_disj by auto

lemma market_triggers: "isTriggerType Stop_market" "isTriggerType Take_profit_market" "\<not> isTriggerType Trailing_stop_market"
  by (simp_all add: isTriggerType_def)

lemma fires_fills_at:
  assumes "walk_segment ord seg = (ord', Fires p)" shows "fills_at ord (seg # path) 0 p"
  using assms
  by (auto simp: walk_segment_def walk_limit_def fills_at_def fills_after_def Let_def trail_level_def reaches_simps reaches_def[of "_ = Sell"] is_triggered_def market_triggers
      split: option.splits if_splits side.splits)


lemma not_side: "s \<noteq> Sell \<longleftrightarrow> s = Buy" "s \<noteq> Buy \<longleftrightarrow> s = Sell"
  by (cases s; simp)+

lemma trail_level_Suc:
  "trail_level ord percent (seg # path) (Suc i) =
     trail_level (ord\<lparr>po_trailingExtreme := Some (if po_side ord = Sell then js_max (case po_trailingExtreme ord of Some e \<Rightarrow> e | None \<Rightarrow> seg_low seg) (seg_high seg)
        else js_min (case po_trailingExtreme ord of Some e \<Rightarrow> e | None \<Rightarrow> seg_low seg) (seg_low seg))\<rparr>) percent path i"
  by (simp add: trail_level_def Let_def cong: option.case_cong)

lemma passed_first:
  assumes "walk_segment ord seg = (ord', Goes_on)" shows "\<not> fills_at ord (seg # path) 0 q"
  using assms
  by (auto simp: walk_segment_def walk_limit_def fills_at_def fills_after_def Let_def trail_level_def reaches_simps reaches_def[of "_ = Sell"]
      is_triggered_def market_triggers not_side split: option.splits if_splits)

lemma passed_trailing:
  assumes "walk_segment ord seg = (ord', Goes_on)" "po_type ord = Trailing_stop_market"
  shows "fills_at ord (seg # path) (Suc i) q \<longleftrightarrow> fills_at ord' path i q"
proof -
  obtain percent where p: "po_trailingPercent ord = Some percent"
    and r: "\<not> reaches (po_side ord = Sell) seg (trail_level ord percent (seg # path) 0)"
    and o': "ord' = ord\<lparr>po_trailingExtreme := Some (if po_side ord = Sell then js_max (case po_trailingExtreme ord of Some e \<Rightarrow> e | None \<Rightarrow> seg_low seg) (seg_high seg)
        else js_min (case po_trailingExtreme ord of Some e \<Rightarrow> e | None \<Rightarrow> seg_low seg) (seg_low seg))\<rparr>"
    using assms by (auto simp: walk_segment_def Let_def trail_level_def reaches_def not_side split: option.splits if_splits)
  have l: "trail_level ord percent (seg # path) (Suc j) = trail_level ord' percent path j" for j
    by (simp only: trail_level_Suc o')
  have f: "po_trailingPercent ord' = Some percent" "po_side ord' = po_side ord" "po_type ord' = Trailing_stop_market"
    using p assms(2) by (simp_all add: o')
  show ?thesis using p r assms(2) f by (simp add: fills_at_def all_less_Suc0 l)
qed

lemma passed_limit:
  assumes "walk_segment ord seg = (ord', Goes_on)" "po_type ord \<noteq> Trailing_stop_market" "\<not> (isTriggerType (po_type ord) \<and> \<not> is_triggered ord)"
  shows "fills_at ord (seg # path) (Suc i) q \<longleftrightarrow> fills_at ord' path i q"
  using assms by (auto simp: walk_segment_def walk_limit_def fills_at_def reaches_simps all_less_Suc0 split: option.splits if_splits)

lemma fills_after_0:
  "fills_after ord (seg # path) stopPrice 0 (Suc i) p \<longleftrightarrow>
     reaches (fall_to (po_type ord) (po_side ord)) seg stopPrice \<and> \<not> (po_type ord = Stop_market \<or> po_type ord = Take_profit_market) \<and>
     po_price ord = Some p \<and> reaches (po_side ord = Buy) (path ! i) p \<and> (seg_tick seg \<longrightarrow> \<not> reaches (po_side ord = Buy) seg p) \<and>
     (\<forall>k < i. \<not> reaches (po_side ord = Buy) (path ! k) p)"
  by (auto simp: fills_after_def all_less_Suc0)

lemma fills_after_Suc:
  "fills_after ord (seg # path) stopPrice (Suc j) (Suc i) p \<longleftrightarrow>
     \<not> reaches (fall_to (po_type ord) (po_side ord)) seg stopPrice \<and> fills_after ord path stopPrice j i p"
  by (auto simp: fills_after_def all_less_Suc0)

lemma ex_nat_split: "(\<exists>j. P j) \<longleftrightarrow> P 0 \<or> (\<exists>j. P (Suc j))" for P :: "nat \<Rightarrow> bool"
  by (metis not0_implies_Suc)

lemma waiting_Suc:
  assumes "po_stopPrice ord = Some stopPrice" "po_type ord \<noteq> Trailing_stop_market" "isTriggerType (po_type ord)" "\<not> is_triggered ord"
  shows "fills_at ord (seg # path) (Suc i) q \<longleftrightarrow>
     i < length path \<and> (fills_after ord (seg # path) stopPrice 0 (Suc i) q \<or> (\<exists>j. fills_after ord (seg # path) stopPrice (Suc j) (Suc i) q))"
  using assms ex_nat_split[of "\<lambda>j. fills_after ord (seg # path) stopPrice j (Suc i) q"] by (simp add: fills_at_def)

lemma fires_no_later:
  assumes w: "walk_segment ord seg = (ord', Fires p)" shows "\<not> fills_at ord (seg # path) (Suc i) q"
proof (cases "po_type ord \<noteq> Trailing_stop_market \<and> isTriggerType (po_type ord) \<and> \<not> is_triggered ord")
  case True
  then obtain stopPrice where "po_stopPrice ord = Some stopPrice" "reaches (fall_to (po_type ord) (po_side ord)) seg stopPrice"
    "po_type ord = Stop_market \<or> po_type ord = Take_profit_market \<or> seg_tick seg \<and> po_price ord = Some p \<and> reaches (po_side ord = Buy) seg p"
    using w by (auto simp: walk_segment_def walk_limit_def reaches_simps Let_def is_triggered_def split: option.splits if_splits)
  then show ?thesis using True by (auto simp: waiting_Suc fills_after_0 fills_after_Suc)
next
  case False
  show ?thesis
  proof (cases "po_type ord = Trailing_stop_market")
    case True
    then obtain percent where "po_trailingPercent ord = Some percent" "reaches (po_side ord = Sell) seg (trail_level ord percent (seg # path) 0)"
      using w by (auto simp: walk_segment_def Let_def trail_level_def reaches_def not_side split: option.splits if_splits)
    then show ?thesis using True by (simp add: fills_at_def all_less_Suc0)
  next
    case f: False
    then have "po_price ord = Some p" "reaches (po_side ord = Buy) seg p"
      using w False by (auto simp: walk_segment_def walk_limit_def reaches_simps split: option.splits if_splits)
    then show ?thesis using f False by (auto simp: fills_at_def all_less_Suc0)
  qed
qed

lemma fires_fills_only:
  assumes w: "walk_segment ord seg = (ord', Fires p)" and f: "fills_at ord (seg # path) i q" shows "i = 0 \<and> q = p"
proof (cases i)
  case 0
  then show ?thesis using assms
    by (auto simp: walk_segment_def walk_limit_def fills_at_def fills_after_def Let_def trail_level_def reaches_simps
        is_triggered_def market_triggers split: option.splits if_splits)
next
  case (Suc k)
  then show ?thesis using f fires_no_later[OF w] by simp
qed

lemma passed_waiting:
  assumes "\<not> reaches (fall_to (po_type ord) (po_side ord)) seg stopPrice" "po_stopPrice ord = Some stopPrice"
    "po_type ord \<noteq> Trailing_stop_market" "isTriggerType (po_type ord) \<and> \<not> is_triggered ord"
  shows "fills_at ord (seg # path) (Suc i) q \<longleftrightarrow> fills_at ord path i q"
  using assms by (simp add: waiting_Suc fills_after_0 fills_after_Suc) (simp add: fills_at_def)

lemma passed_trigger:
  assumes "reaches (fall_to (po_type ord) (po_side ord)) seg stopPrice" "po_stopPrice ord = Some stopPrice"
    "po_type ord \<noteq> Trailing_stop_market" "isTriggerType (po_type ord) \<and> \<not> is_triggered ord" "po_type ord \<noteq> Stop_market" "po_type ord \<noteq> Take_profit_market"
    "\<not> seg_tick seg \<or> (\<forall>p. po_price ord = Some p \<longrightarrow> \<not> reaches (po_side ord = Buy) seg p)"
  shows "fills_at ord (seg # path) (Suc i) q \<longleftrightarrow> fills_at (ord\<lparr>po_triggered := Some True\<rparr>) path i q"
  using assms by (simp add: waiting_Suc fills_after_0 fills_after_Suc) (auto simp: fills_at_def is_triggered_def)

lemma passed_segment:
  assumes "walk_segment ord seg = (ord', Goes_on)" shows "fills_at ord (seg # path) (Suc i) q \<longleftrightarrow> fills_at ord' path i q"
proof (cases "po_type ord \<noteq> Trailing_stop_market \<and> isTriggerType (po_type ord) \<and> \<not> is_triggered ord")
  case False
  then show ?thesis using passed_trailing[OF assms] passed_limit[OF assms] by blast
next
  case t: True
  show ?thesis
  proof (cases "po_stopPrice ord")
    case None
    then have "ord' = ord" "po_stopPrice ord = None" using t assms by (auto simp: walk_segment_def)
    then show ?thesis using t by (simp add: fills_at_def)
  next
    case (Some s)
    show ?thesis
    proof (cases "reaches (fall_to (po_type ord) (po_side ord)) seg s")
      case False
      then have "ord' = ord" using t assms Some by (simp add: walk_segment_def reaches_simps)
      then show ?thesis using passed_waiting[OF False Some] t by simp
    next
      case True
      then have "ord' = ord\<lparr>po_triggered := Some True\<rparr>" "po_type ord \<noteq> Stop_market" "po_type ord \<noteq> Take_profit_market"
        "\<not> seg_tick seg \<or> (\<forall>p. po_price ord = Some p \<longrightarrow> \<not> reaches (po_side ord = Buy) seg p)"
        using t assms Some by (auto simp: walk_segment_def walk_limit_def Let_def reaches_simps is_triggered_def split: if_splits option.splits)
      then show ?thesis using passed_trigger[OF True Some] t by simp
    qed
  qed
qed

lemma gives_up_never: "walk_segment ord seg = (ord', Gives_up) \<Longrightarrow> \<not> fills_at ord path i q"
  by (auto simp: walk_segment_def walk_limit_def fills_at_def fills_after_def Let_def split: option.splits if_splits)

lemma evaluate_fills: "snd (evaluate_from 0 ord path) = Some (i, p) \<longleftrightarrow> fills_at ord path i p"
proof (induction path arbitrary: ord i p)
  case Nil
  then show ?case by simp
next
  case (Cons seg path)
  obtain ord' r where w: "walk_segment ord seg = (ord', r)" by fastforce
  show ?case
  proof (cases r)
    case (Fires q)
    then show ?thesis using w fires_fills_at[of ord seg ord' q path] fires_fills_only[of ord seg ord' q path i p] by auto
  next
    case Gives_up
    then show ?thesis using w gives_up_never[of ord seg ord' "seg # path"] by simp
  next
    case Goes_on
    then have "snd (evaluate_from 0 ord (seg # path)) = map_option (map_prod Suc id) (snd (evaluate_from 0 ord' path))"
      using w by (simp add: evaluate_from_Suc)
    then show ?thesis
      using w Goes_on passed_first[of ord seg ord' path p] passed_segment[of ord seg ord' path _ p] Cons.IH[of ord' _ p] by (cases i) auto
  qed
qed


section \<open>Checking in pieces\<close>

lemma evaluate_from_add: "evaluate_from (i + n) ord path = map_prod id (map_option (map_prod (\<lambda>k. k + n) id)) (evaluate_from i ord path)"
  by (induction path arbitrary: i ord) (auto split: prod.splits segment_result.splits simp flip: add_Suc)

text \<open>Without a percent a trailing stop never fires and never changes.\<close>

lemma gives_up: "walk_segment ord seg = (ord', Gives_up) \<Longrightarrow> ord' = ord \<and> po_type ord = Trailing_stop_market \<and> po_trailingPercent ord = None"
  by (auto simp: walk_segment_def walk_limit_def Let_def split: option.splits if_splits)

lemma no_percent: "po_type ord = Trailing_stop_market \<Longrightarrow> po_trailingPercent ord = None \<Longrightarrow> evaluate_from i ord path = (ord, None)"
  by (cases path) (simp_all add: walk_segment_def)

lemma evaluate_append:
  "evaluate_from i ord (xs @ ys) = (case evaluate_from i ord xs of (ord', Some f) \<Rightarrow> (ord', Some f) | (ord', None) \<Rightarrow> evaluate_from (i + length xs) ord' ys)"
proof (induction xs arbitrary: i ord)
  case Nil
  then show ?case by simp
next
  case (Cons seg xs)
  obtain ord' r where w: "walk_segment ord seg = (ord', r)" by fastforce
  show ?case
  proof (cases r)
    case Gives_up
    with w have "ord' = ord" "po_type ord = Trailing_stop_market" "po_trailingPercent ord = None" using gives_up by blast+
    then show ?thesis using w Gives_up by (simp add: no_percent)
  next
    case Goes_on
    then show ?thesis using w Cons.IH[of "Suc i" ord'] by (simp cong: option.case_cong)
  qed (use w in simp)
qed

section \<open>What a path covers\<close>

text \<open>The candles a path was made of, the latest first. The cursor is the end of the last candle.\<close>

definition cursor :: "jsnum \<Rightarrow> jsnum \<Rightarrow> jsnum \<Rightarrow> kline list \<Rightarrow> jsnum" where
  "cursor since now dur ks = (case ks of [] \<Rightarrow> since | k # _ \<Rightarrow> js_min now (js_add (kl_timestamp k) dur))"

definition last_start :: "kline list \<Rightarrow> jsnum option" where
  "last_start ks = (case ks of [] \<Rightarrow> None | k # _ \<Rightarrow> Some (kl_timestamp k))"

text \<open>What the walk keeps, in the arithmetic of the code.\<close>

fun taken_in_order :: "paper_order \<Rightarrow> jsnum \<Rightarrow> jsnum \<Rightarrow> jsnum \<Rightarrow> kline list \<Rightarrow> bool" where
  "taken_in_order ord since now dur [] \<longleftrightarrow> True"
| "taken_in_order ord since now dur (k # ks) \<longleftrightarrow>
     valid_candle since now k \<and> (\<forall>p. last_start ks = Some p \<longrightarrow> js_gt (kl_timestamp k) p) \<and>
     js_le (kl_timestamp k) (latest_start ord since dur (last_start ks)) \<and> taken_in_order ord since now dur ks"

definition candle_segment :: "kline \<Rightarrow> path_segment" where
  "candle_segment k = \<lparr>seg_high = kl_high k, seg_low = kl_low k, seg_tick = False\<rparr>"

fun cursors :: "jsnum \<Rightarrow> jsnum \<Rightarrow> jsnum \<Rightarrow> kline list \<Rightarrow> jsnum list" where
  "cursors since now dur [] = []"
| "cursors since now dur (k # ks) = cursor since now dur ks # cursors since now dur ks"

definition walk_of :: "jsnum \<Rightarrow> jsnum \<Rightarrow> jsnum \<Rightarrow> kline list \<Rightarrow> path_walk" where
  "walk_of since now dur ks =
     \<lparr>wk_checkedAt = cursor since now dur ks, wk_previous = last_start ks, wk_checkpoints = cursors since now dur ks, wk_path = map candle_segment ks\<rparr>"

lemma take_candles_walk:
  assumes "list_all (valid_candle since now) cs" "taken_in_order ord since now dur ks" "latest_start ord since dur None \<noteq> NaN" "is_finite dur"
  shows "\<exists>ks'. take_candles ord since now dur cs (walk_of since now dur ks) = walk_of since now dur ks' \<and> taken_in_order ord since now dur ks'"
  using assms
proof (induction cs arbitrary: ks)
  case Nil
  then show ?case by auto
next
  case (Cons k cs)
  have g: "taken_in_order ord since now dur (k # ks)"
    if "\<not> (case last_start ks of Some p \<Rightarrow> js_le (kl_timestamp k) p | None \<Rightarrow> False)" "\<not> js_gt (kl_timestamp k) (latest_start ord since dur (last_start ks))"
  proof -
    have v: "valid_candle since now k" "taken_in_order ord since now dur ks" using Cons.prems by auto
    have f: "is_finite (kl_timestamp k)" using v by (simp add: valid_candle_def)
    have p: "is_finite p" if "last_start ks = Some p" for p
      using that v(2) by (cases ks) (auto simp: last_start_def valid_candle_def)
    have n: "latest_start ord since dur (last_start ks) \<noteq> NaN"
      using Cons.prems(3,4) p by (cases "last_start ks") (auto simp: latest_start_def is_finite_iff)
    have "js_gt (kl_timestamp k) q" if "last_start ks = Some q" for q
      using that \<open>\<not> (case last_start ks of Some p \<Rightarrow> js_le (kl_timestamp k) p | None \<Rightarrow> False)\<close> f p[OF that] js_not_lt_le[of q "kl_timestamp k"]
      by (auto simp: is_finite_iff)
    moreover have "js_le (kl_timestamp k) (latest_start ord since dur (last_start ks))"
      using that(2) n f js_not_lt_le[of "latest_start ord since dur (last_start ks)" "kl_timestamp k"] by (auto simp: is_finite_iff)
    ultimately show ?thesis using v by simp
  qed
  have s: "\<lparr>wk_checkedAt = js_min now (js_add (kl_timestamp k) dur), wk_previous = Some (kl_timestamp k), wk_checkpoints = cursor since now dur ks # cursors since now dur ks,
     wk_path = \<lparr>seg_high = kl_high k, seg_low = kl_low k, seg_tick = False\<rparr> # map candle_segment ks\<rparr> = walk_of since now dur (k # ks)"
    by (simp add: walk_of_def cursor_def last_start_def candle_segment_def)
  have w: "wk_previous (walk_of since now dur ks) = last_start ks" "wk_checkedAt (walk_of since now dur ks) = cursor since now dur ks"
    "wk_checkpoints (walk_of since now dur ks) = cursors since now dur ks" "wk_path (walk_of since now dur ks) = map candle_segment ks"
    by (simp_all add: walk_of_def)
  consider "case last_start ks of Some p \<Rightarrow> js_le (kl_timestamp k) p | None \<Rightarrow> False"
    | "\<not> (case last_start ks of Some p \<Rightarrow> js_le (kl_timestamp k) p | None \<Rightarrow> False)" "js_gt (kl_timestamp k) (latest_start ord since dur (last_start ks))"
    | "\<not> (case last_start ks of Some p \<Rightarrow> js_le (kl_timestamp k) p | None \<Rightarrow> False)" "\<not> js_gt (kl_timestamp k) (latest_start ord since dur (last_start ks))"
    by blast
  then show ?case
  proof cases
    case 1
    then show ?thesis using Cons.IH[of ks] Cons.prems by (simp add: w)
  next
    case 2
    then show ?thesis using Cons.prems by (auto simp: w)
  next
    case 3
    then have e: "take_candles ord since now dur (k # cs) (walk_of since now dur ks) = take_candles ord since now dur cs (walk_of since now dur (k # ks))"
      by (simp only: take_candles.simps w s if_False)
    show ?thesis unfolding e using Cons.IH[of "k # ks"] Cons.prems g[OF 3] by auto
  qed
qed

lemma valid_candles_valid: "list_all (valid_candle since now) (valid_candles since now ks)"
  by (simp add: valid_candles_def list_all_iff)

lemma path_pages_walk:
  assumes "path_pages fetch ord since now timeframe dur n c candles (walk_of since now dur ks) = (Some w, candles')" "taken_in_order ord since now dur ks"
    "latest_start ord since dur None \<noteq> NaN" "is_finite dur"
  shows "\<exists>ks'. w = walk_of since now dur ks' \<and> taken_in_order ord since now dur ks'"
  using assms(1,2)
proof (induction n arbitrary: c candles ks)
  case (0 c candles ks)
  then show ?case using take_candles_walk[OF _ 0(2) assms(3,4)]
    by (auto simp: path_pages.simps[of _ _ _ _ _ _ 0] Let_def valid_candles_def list_all_iff split: option.splits if_splits)
next
  case (Suc n c candles ks)
  obtain cs where f: "fetch_page fetch (po_symbol ord) timeframe dur now c candles = Some cs"
    using Suc.prems(1) by (cases "fetch_page fetch (po_symbol ord) timeframe dur now c candles") (simp_all add: path_pages.simps[of _ _ _ _ _ _ "Suc n"])
  obtain ks1 where t: "take_candles ord since now dur (valid_candles since now (case cs of None \<Rightarrow> [] | Some ks \<Rightarrow> ks)) (walk_of since now dur ks) = walk_of since now dur ks1"
    and g: "taken_in_order ord since now dur ks1"
    using take_candles_walk[OF valid_candles_valid Suc.prems(2) assms(3,4)] by blast
  have "(Some w, candles') = (Some (walk_of since now dur ks1), cs) \<or>
      (Some w, candles') = path_pages fetch ord since now timeframe dur n (Some (wk_checkedAt (walk_of since now dur ks1))) cs (walk_of since now dur ks1)"
    using Suc.prems(1) unfolding path_pages.simps[of _ _ _ _ _ _ "Suc n"] f option.case t Let_def nat.case by (simp split: if_splits)
  then show ?case
  proof
    assume "(Some w, candles') = (Some (walk_of since now dur ks1), cs)"
    then show ?thesis using g by auto
  qed (use Suc.IH[OF _ g] in metis)
qed

lemma defer_tail_walk:
  "\<exists>ks'. defer_tail now (cursor since now dur ks) (cursors since now dur ks) (map candle_segment ks) = (cursor since now dur ks', map candle_segment ks') \<and>
     suffix ks' ks \<and> (ks' = [] \<or> \<not> (js_lt (cursor since now dur ks') now \<and> js_le (js_sub now (cursor since now dur ks')) (Fin 120000)))"
proof (induction ks)
  case Nil
  show ?case by (auto intro: exI[of _ "[]"])
next
  case (Cons k ks)
  then show ?case
    by (cases "js_lt (cursor since now dur (k # ks)) now \<and> js_le (js_sub now (cursor since now dur (k # ks))) (Fin 120000)")
      (auto intro: suffix_ConsI exI[of _ "k # ks"])
qed

lemma durations: "choose_timeframe g = (tf, dur) \<Longrightarrow> dur \<in> {Fin 60000, Fin 900000, Fin 3600000}"
  by (auto simp: choose_timeframe_def split: if_splits)

lemma latest_start_not_NaN:
  assumes "is_finite since" "dur \<in> {Fin 60000, Fin 900000, Fin 3600000}" shows "latest_start ord since dur None \<noteq> NaN"
proof -
  obtain x d where x: "since = Fin x" and d: "dur = Fin d" "0 < d" using assms by (auto simp: is_finite_iff)
  have m: "js_mul a (Fin d) \<noteq> NaN" if "a \<noteq> NaN" for a
    using d(2) that by (cases a) (simp_all add: inf_of_def)
  have c: "js_ceil a \<noteq> NaN" if "a \<noteq> NaN" for a
    using that by (cases a) simp_all
  have "js_div since dur \<noteq> NaN" using x d by simp
  from m[OF c[OF this]] have "js_mul (js_ceil (js_div since dur)) dur \<noteq> NaN" by (simp only: d(1) not_False_eq_True)
  moreover have "js_add since dur \<noteq> NaN" by (simp add: x d(1))
  ultimately show ?thesis by (simp add: latest_start_def)
qed

lemma js_lt_le: "js_lt a b \<Longrightarrow> js_le a b"
  by (simp add: js_le_def)

lemma js_min_le: "is_finite a \<Longrightarrow> b \<noteq> NaN \<Longrightarrow> js_le (js_min a b) a"
  by (auto simp: js_min_def js_lt_le js_le_refl is_finite_iff)

lemma cursor_le_now:
  assumes "taken_in_order ord since now dur ks" "is_finite now" "is_finite dur" "js_le since now" shows "js_le (cursor since now dur ks) now"
proof (cases ks)
  case (Cons k ks')
  then obtain x d where "kl_timestamp k = Fin x" "dur = Fin d" using assms by (auto simp: valid_candle_def is_finite_iff)
  then show ?thesis using Cons js_min_le[OF assms(2), of "fl (x + d)"] by (simp add: cursor_def)
qed (simp add: cursor_def assms)

lemma taken_in_order_suffix: "suffix ks' ks \<Longrightarrow> taken_in_order ord since now dur ks \<Longrightarrow> taken_in_order ord since now dur ks'"
  by (induction ks) (auto simp: suffix_Cons)


text \<open>The reading of it in exact time, in milliseconds. A time value is a whole number of milliseconds in the range of the
  language's dates. A usable candle starts between the last check and now and has positive prices. The candles, the
  latest first, follow one another: each starts after the one before and no later than it ends, to the
  millisecond. The first starts at most one candle after the order was placed, if the order was never checked, and otherwise
  no later than the first candle boundary (the multiples of the duration) that does not precede the last check.\<close>

definition time_value :: "jsnum \<Rightarrow> bool" where
  "time_value t \<longleftrightarrow> (\<exists>n::int. t = Fin (of_int n) \<and> \<bar>n\<bar> \<le> 8640000000000000)"

definition usable_candle :: "jsnum \<Rightarrow> jsnum \<Rightarrow> kline \<Rightarrow> bool" where
  "usable_candle since now k \<longleftrightarrow>
     (\<exists>x n t h l. since = Fin x \<and> now = Fin n \<and> kl_timestamp k = Fin t \<and> kl_high k = Fin h \<and> kl_low k = Fin l \<and>
        x \<le> t \<and> t \<le> n \<and> 0 < h \<and> 0 < l)"

definition starts_by :: "kline \<Rightarrow> rat \<Rightarrow> bool" where
  "starts_by k bound \<longleftrightarrow> (\<exists>t. kl_timestamp k = Fin t \<and> t \<le> bound)"

definition follows_candle :: "rat \<Rightarrow> kline \<Rightarrow> kline \<Rightarrow> bool" where
  "follows_candle dur k k' \<longleftrightarrow> (\<exists>t t'. kl_timestamp k = Fin t \<and> kl_timestamp k' = Fin t' \<and> t' < t \<and> t \<le> of_int \<lceil>t'\<rceil> + dur)"

fun gapless :: "bool \<Rightarrow> rat \<Rightarrow> rat \<Rightarrow> kline list \<Rightarrow> bool" where
  "gapless fresh since dur [] \<longleftrightarrow> True"
| "gapless fresh since dur [k] \<longleftrightarrow>
     (if fresh then starts_by k (since + dur) else (\<forall>n::int. since \<le> of_int n * dur \<longrightarrow> starts_by k (of_int n * dur)))"
| "gapless fresh since dur (k # k' # ks) \<longleftrightarrow> follows_candle dur k k' \<and> gapless fresh since dur (k' # ks)"

lemma rounded_sum_within:
  assumes "js_le (Fin t) (fl (p + of_int d))" "\<bar>p\<bar> \<le> 8640000000000000" "0 \<le> d" "d \<le> 3600000"
  shows "t \<le> of_int \<lceil>p\<rceil> + of_int d"
proof -
  have "- 8640000000000000 \<le> \<lceil>p\<rceil>" "\<lceil>p\<rceil> \<le> 8640000000000000" using assms(2) by (linarith, simp add: ceiling_le_iff abs_le_iff)
  then have "\<bar>\<lceil>p\<rceil> + d\<bar> \<le> 9007199254740992" using assms(3,4) by linarith
  then have "fl (of_int (\<lceil>p\<rceil> + d)) = Fin (of_int (\<lceil>p\<rceil> + d))" by (intro fl_of_int) simp
  moreover have "js_le (fl (p + of_int d)) (fl (of_int (\<lceil>p\<rceil> + d)))" by (intro fl_mono) simp
  ultimately show ?thesis using js_le_trans[OF assms(1)] by fastforce
qed

lemma boundary_within:
  assumes t: "js_le (Fin t) (js_mul (js_ceil (fl (x / of_int d))) (Fin (of_int d)))" and x: "\<bar>x\<bar> \<le> 8640000000000000"
    and d: "1 \<le> d" "d \<le> 3600000" and n: "x \<le> of_int n * of_int d"
  shows "t \<le> of_int n * of_int d"
proof -
  define c where "c = \<lceil>x / of_int d\<rceil>"
  have dp: "(0::rat) < of_int d" "(1::rat) \<le> of_int d" using d by simp_all
  have cn: "c \<le> n" using n dp by (simp add: c_def ceiling_le_iff pos_divide_le_eq)
  have lo: "x \<le> of_int c * of_int d" 
    using le_of_int_ceiling[of "x / of_int d"] unfolding pos_divide_le_eq[OF dp(1)] c_def .
  have hi: "of_int c * of_int d < x + of_int d"
  proof -
    have "of_int c - 1 < x / of_int d" unfolding c_def by linarith
    then have "(of_int c - 1) * of_int d < x" using dp by (simp add: pos_less_divide_eq)
    then show ?thesis by (simp add: left_diff_distrib)
  qed
  have cd: "\<bar>c * d\<bar> \<le> 2 ^ 53"
  proof -
    have "of_int (c * d) < (of_int (8640000000000000 + 3600000) :: rat)" "(of_int (- 8640000000000000) :: rat) \<le> of_int (c * d)"
      using lo hi x d(2) of_int_le_iff[of d 3600000, where 'a = rat] by (simp_all add: abs_le_iff)
    then have "c * d < 8640000000000000 + 3600000" "- 8640000000000000 \<le> c * d" by (simp_all only: of_int_less_iff of_int_le_iff)
    then show ?thesis by simp
  qed
  have "\<bar>c\<bar> \<le> \<bar>c * d\<bar>" using d(1) by (simp add: abs_mult mult_le_cancel_left1)
  then have c: "fl (of_int c) = Fin (of_int c)" using cd by (intro fl_of_int) linarith
  have "js_le (fl (x / of_int d)) (Fin (of_int c))" using fl_mono[of "x / of_int d" "of_int c"] c by (simp add: c_def)
  then have "js_le (js_mul (js_ceil (fl (x / of_int d))) (Fin (of_int d))) (fl (of_int (c * d)))"
  proof (cases "fl (x / of_int d)")
    case (Fin y)
    then have "\<lceil>y\<rceil> \<le> c" using \<open>js_le (fl (x / of_int d)) (Fin (of_int c))\<close> by (simp add: ceiling_le_iff)
    then have "of_int \<lceil>y\<rceil> * of_int d \<le> (of_int (c * d) :: rat)" using dp by simp
    then show ?thesis using Fin fl_mono by simp
  qed (use dp in \<open>auto simp: js_le_NInf js_le_def[of PInf] inf_of_def\<close>)
  then have "js_le (Fin t) (Fin (of_int (c * d)))" using js_le_trans[OF t] fl_of_int[OF cd] by metis
  then have "t \<le> of_int c * of_int d" by simp
  also have "\<dots> \<le> of_int n * of_int d" using cn dp by simp
  finally show ?thesis .
qed

lemma duration_whole:
  assumes "dur \<in> {Fin 60000, Fin 900000, Fin 3600000}"
  obtains d :: int where "dur = Fin (of_int d)" "1 \<le> d" "d \<le> 3600000"
proof -
  have "dur = Fin (of_int 60000) \<or> dur = Fin (of_int 900000) \<or> dur = Fin (of_int 3600000)" using assms by simp
  then show ?thesis using that by fastforce
qed

lemma valid_usable: "valid_candle (Fin x) (Fin n) k \<Longrightarrow> usable_candle (Fin x) (Fin n) k"
  by (auto simp: valid_candle_def usable_candle_def is_finite_iff)

lemma usable_between:
  assumes "usable_candle (Fin x) (Fin n) k" "\<bar>x\<bar> \<le> b" "\<bar>n\<bar> \<le> b"
  obtains t where "kl_timestamp k = Fin t" "\<bar>t\<bar> \<le> b"
proof -
  from assms(1) obtain t where "kl_timestamp k = Fin t" "x \<le> t" "t \<le> n" by (auto simp: usable_candle_def)
  then show ?thesis using assms(2,3) that by (simp add: abs_le_iff)
qed

lemma taken_gapless:
  assumes "taken_in_order ord (Fin (of_int x)) (Fin (of_int n)) (Fin (of_int d)) ks" "\<bar>x\<bar> \<le> 8640000000000000" "\<bar>n\<bar> \<le> 8640000000000000"
    "1 \<le> d" "d \<le> 3600000"
  shows "gapless (Fin (of_int x) = po_timestamp ord) (of_int x) (of_int d) ks \<and> list_all (usable_candle (Fin (of_int x)) (Fin (of_int n))) ks"
  using assms(1)
proof (induction ks rule: induct_list012)
  case (2 k)
  have v: "usable_candle (Fin (of_int x)) (Fin (of_int n)) k" using 2 by (simp add: valid_usable)
  have b: "\<bar>of_int x :: rat\<bar> \<le> 8640000000000000" "\<bar>of_int n :: rat\<bar> \<le> 8640000000000000"
    using assms(2,3) by (simp_all flip: of_int_abs)
  from usable_between[OF v b] obtain t where t: "kl_timestamp k = Fin t" by blast
  have l: "js_le (Fin t) (latest_start ord (Fin (of_int x)) (Fin (of_int d)) None)" using 2 t by (simp add: last_start_def)
  have "if Fin (of_int x) = po_timestamp ord then t \<le> of_int x + of_int d else \<forall>m::int. of_int x \<le> of_int m * (of_int d :: rat) \<longrightarrow> t \<le> of_int m * (of_int d :: rat)"
  proof (cases "Fin (of_int x) = po_timestamp ord")
    case True
    then have "js_le (Fin t) (fl (of_int x + of_int d))" using l by (simp add: latest_start_def flip: True)
    from rounded_sum_within[OF this b(1)] True assms(4,5) show ?thesis by simp
  next
    case False
    then have "js_le (Fin t) (js_mul (js_ceil (fl (of_int x / of_int d))) (Fin (of_int d)))"
      using l assms(4) by (simp add: latest_start_def)
    from boundary_within[OF this b(1) assms(4,5)] False show ?thesis by simp
  qed
  then show ?case using v t by (auto simp: starts_by_def)
next
  case (3 k k' ks)
  have v: "usable_candle (Fin (of_int x)) (Fin (of_int n)) k" "usable_candle (Fin (of_int x)) (Fin (of_int n)) k'"
    using 3 by (simp_all add: valid_usable)
  have b: "\<bar>of_int x :: rat\<bar> \<le> 8640000000000000" "\<bar>of_int n :: rat\<bar> \<le> 8640000000000000"
    using assms(2,3) by (simp_all flip: of_int_abs)
  from usable_between[OF v(1) b] obtain t where t: "kl_timestamp k = Fin t" by blast
  from usable_between[OF v(2) b] obtain p where p: "kl_timestamp k' = Fin p" "\<bar>p\<bar> \<le> 8640000000000000" by blast
  have "p < t" "js_le (Fin t) (fl (p + of_int d))" using 3(3) t p(1) by (simp_all add: last_start_def latest_start_def)
  then have "follows_candle (of_int d) k k'"
    using rounded_sum_within[OF _ p(2), of t d] assms(4,5) t p(1) by (auto simp: follows_candle_def)
  then show ?case using 3 v by simp
qed simp

section \<open>The properties\<close>

text \<open>C30. The walk of an order agrees with the declarative reading of the path: it fills at a segment and a price
  exactly when the kind of the order says so. A limit order fills at its price on the first segment that crosses it; a market trigger at its stop price on the first segment
  that reaches it; a stop-limit order at its limit price on the first crossing after it was activated, never on the candle that activated it;
  a trailing stop on the first segment that reaches the level set by the extreme of the segments before it, so the high of
  a candle never tightens the stop for its own low.\<close>

theorem fills_where_the_path_reaches: "snd (evaluatePath ord path) = Some (i, p) \<longleftrightarrow> fills_at ord path i p"
  by (simp add: evaluatePath_def evaluate_fills)

text \<open>Checking an order in pieces gives what one check of the whole path gives: the progress kept in the order (its
  activation, its trailing extreme) is all that the rest of the path needs.\<close>

theorem checking_in_pieces:
  "evaluatePath ord (xs @ ys) =
     (case evaluatePath ord xs of
        (ord', Some f) \<Rightarrow> (ord', Some f)
      | (ord', None) \<Rightarrow> map_prod id (map_option (map_prod (\<lambda>k. k + length xs) id)) (evaluatePath ord' ys))"
  using evaluate_append[of 0 ord xs ys] evaluate_from_add[of 0 "length xs"] 
  by (simp add: evaluatePath_def cong: option.case_cong split: prod.splits option.splits)

lemma gap_path_covers:
  assumes r: "gap_path fetch ord since now fetchSince candles = (Some (path, checkedAt), candles')" and fin: "is_finite since" "is_finite now" "js_le since now"
  shows "\<exists>dur ks. dur \<in> {Fin 60000, Fin 900000, Fin 3600000} \<and> taken_in_order ord since now dur ks \<and> path = map candle_segment (rev ks) \<and>
     checkedAt = js_max since (cursor since now dur ks) \<and> js_le (cursor since now dur ks) now \<and>
     (ks = [] \<or> \<not> (js_lt (cursor since now dur ks) now \<and> js_le (js_sub now (cursor since now dur ks)) (Fin 120000)))"
proof -
  obtain timeframe dur where c: "choose_timeframe (js_div (js_sub now fetchSince) (Fin 60000)) = (timeframe, dur)" by fastforce
  note d = durations[OF c]
  obtain w cs where p: "path_pages fetch ord since now timeframe dur (tail_pages dur) (if candles = None then Some fetchSince else None) candles (walk_start since) = (Some w, cs)"
    and e: "(path, checkedAt) = (let (checkedAt, path) = defer_tail now (wk_checkedAt w) (wk_checkpoints w) (wk_path w) in (rev path, js_max since checkedAt))"
    using r by (cases "path_pages fetch ord since now timeframe dur (tail_pages dur) (if candles = None then Some fetchSince else None) candles (walk_start since)")
      (auto simp: gap_path_def c)
  have s: "walk_start since = walk_of since now dur []" by (simp add: walk_start_def walk_of_def cursor_def last_start_def)
  have df: "is_finite dur" using d by auto
  obtain ks where w: "w = walk_of since now dur ks" "taken_in_order ord since now dur ks"
    using path_pages_walk[OF p[unfolded s] _ latest_start_not_NaN[OF fin(1) d] df] by auto
  obtain ks' where t: "defer_tail now (cursor since now dur ks) (cursors since now dur ks) (map candle_segment ks) = (cursor since now dur ks', map candle_segment ks')"
    "suffix ks' ks" "ks' = [] \<or> \<not> (js_lt (cursor since now dur ks') now \<and> js_le (js_sub now (cursor since now dur ks')) (Fin 120000))"
    using defer_tail_walk[of now since dur ks] by blast
  have g: "taken_in_order ord since now dur ks'" using taken_in_order_suffix[OF t(2) w(2)] .
  have "path = map candle_segment (rev ks')" "checkedAt = js_max since (cursor since now dur ks')"
    using e by (simp_all add: w(1) walk_of_def t(1) rev_map)
  then show ?thesis using d g t(3) cursor_le_now[OF g fin(2) df fin(3)] by blast
qed

lemma gap_path_gapless:
  assumes "gap_path fetch ord since now fetchSince candles = (Some (path, checkedAt), candles')" "time_value since" "time_value now" "js_le since now"
  shows "\<exists>x d ks. since = Fin x \<and> d \<in> {60000, 900000, 3600000} \<and> gapless (since = po_timestamp ord) x d ks \<and>
     list_all (usable_candle since now) ks \<and> path = map candle_segment (rev ks) \<and>
     checkedAt = js_max since (cursor since now (Fin d) ks) \<and> js_le (cursor since now (Fin d) ks) now \<and>
     (ks = [] \<or> \<not> (js_lt (cursor since now (Fin d) ks) now \<and> js_le (js_sub now (cursor since now (Fin d) ks)) (Fin 120000)))"
proof -
  from assms(2,3) obtain x n where x: "since = Fin (of_int x)" "\<bar>x\<bar> \<le> 8640000000000000" "now = Fin (of_int n)" "\<bar>n\<bar> \<le> 8640000000000000"
    by (auto simp: time_value_def)
  have "is_finite since" "is_finite now" by (simp_all add: x)
  from gap_path_covers[OF assms(1) this assms(4)] obtain dur ks where k: "dur \<in> {Fin 60000, Fin 900000, Fin 3600000}" "taken_in_order ord since now dur ks"
    "path = map candle_segment (rev ks)" "checkedAt = js_max since (cursor since now dur ks)" "js_le (cursor since now dur ks) now"
    "ks = [] \<or> \<not> (js_lt (cursor since now dur ks) now \<and> js_le (js_sub now (cursor since now dur ks)) (Fin 120000))" by blast
  obtain d where d: "dur = Fin (of_int d)" "1 \<le> d" "d \<le> 3600000" using duration_whole[OF k(1)] by blast
  have "gapless (since = po_timestamp ord) (of_int x) (of_int d) ks \<and> list_all (usable_candle since now) ks"
    using taken_gapless[of ord x n d ks] k(2) x d by simp
  moreover have "(of_int d :: rat) \<in> {60000, 900000, 3600000}" using k(1) by (auto simp: d(1))
  ultimately show ?thesis using k(3-6) x(1) d(1) by (intro exI[of _ "of_int x"] exI[of _ "of_int d"] exI[of _ ks]) simp
qed

text \<open>C31. The reconstructed path of an order is made of usable candles that follow one another without a hole, each
  starting no later than the one before ends, followed by the current price only when the history is covered up to now.
  The first candle starts no later than the first candle boundary at or after the last check; for an order that was never
  checked, at most one candle after it was placed. The cursor is the end of the last candle, between the last check and
  now; a rest of at most two minutes is never left behind a candle that was used, so the next read fetches it again.\<close>

theorem path_candles_are_contiguous:
  assumes "buildMarketPath fetch ord lst now minSince cache = (Some path, cache')"
    and "time_value (order_since ord)" "time_value now" "js_le (order_since ord) now"
  shows "js_le (order_since ord) (mp_checkedAt path) \<and> js_le (mp_checkedAt path) now \<and>
    (\<exists>since d ks. order_since ord = Fin since \<and> d \<in> {60000, 900000, 3600000} \<and>
       gapless (order_since ord = po_timestamp ord) since d ks \<and> list_all (usable_candle (order_since ord) now) ks \<and>
       mp_segments path = map candle_segment (rev ks) @ (if js_eq (mp_checkedAt path) now then [\<lparr>seg_high = lst, seg_low = lst, seg_tick = True\<rparr>] else []) \<and>
       (js_gt (js_div (js_sub now (order_since ord)) (Fin 60000)) (Fin 2) \<longrightarrow>
          mp_checkedAt path = js_max (order_since ord) (cursor (order_since ord) now (Fin d) ks) \<and>
          (ks = [] \<or> \<not> (js_lt (cursor (order_since ord) now (Fin d) ks) now \<and>
                          js_le (js_sub now (cursor (order_since ord) now (Fin d) ks)) (Fin 120000)))))"
proof (cases "js_gt (js_div (js_sub now (order_since ord)) (Fin 60000)) (Fin 2)")
  case True
  obtain segs checkedAt cs fetchSince where "gap_path fetch ord (order_since ord) now fetchSince (cache (po_symbol ord)) = (Some (segs, checkedAt), cs)"
    and p: "mp_segments path = segs @ (if js_eq checkedAt now then [\<lparr>seg_high = lst, seg_low = lst, seg_tick = True\<rparr>] else [])" "mp_checkedAt path = checkedAt"
    using assms(1) True by (auto simp: buildMarketPath_def Let_def split: prod.splits)
  from gap_path_gapless[OF this(1) assms(2,3,4)] obtain x d ks where k: "order_since ord = Fin x" "d \<in> {60000, 900000, 3600000}"
    "gapless (order_since ord = po_timestamp ord) x d ks" "list_all (usable_candle (order_since ord) now) ks"
    "segs = map candle_segment (rev ks)" "checkedAt = js_max (order_since ord) (cursor (order_since ord) now (Fin d) ks)"
    "js_le (cursor (order_since ord) now (Fin d) ks) now"
    "ks = [] \<or> \<not> (js_lt (cursor (order_since ord) now (Fin d) ks) now \<and> js_le (js_sub now (cursor (order_since ord) now (Fin d) ks)) (Fin 120000))"
    by blast
  have "order_since ord \<noteq> NaN" "cursor (order_since ord) now (Fin d) ks \<noteq> NaN" using k(1) js_le_not_NaN[OF k(7)] by auto
  then have "js_le (order_since ord) checkedAt" "js_le checkedAt now"
    using js_max_ge(1)[of "order_since ord" "cursor (order_since ord) now (Fin d) ks"] assms(4) k(6,7) by (auto simp: js_max_def)
  then show ?thesis unfolding p by (intro conjI exI[of _ x] exI[of _ d] exI[of _ ks] impI) (use k in simp_all)
next
  case False
  from assms(2,3) obtain x n where t: "order_since ord = Fin x" "now = Fin n" by (auto simp: time_value_def)
  then have "mp_segments path = [\<lparr>seg_high = lst, seg_low = lst, seg_tick = True\<rparr>]" "mp_checkedAt path = now"
    using assms(1) False by (auto simp: buildMarketPath_def Let_def)
  then show ?thesis using False assms(4) js_le_refl[of now] t
    by (intro conjI exI[of _ x] exI[of _ 60000] exI[of _ "[]"]) simp_all
qed


definition demo_resting_order :: paper_order where
  "demo_resting_order =
     \<lparr>po_id = ''7'', po_symbol = ''BTC/USDT'', po_side = Sell, po_type = Limit, po_price = Some (Fin 120), po_stopPrice = None,
      po_trailingPercent = None, po_trailingExtreme = None, po_triggered = None, po_reservePrice = None, po_reservedMargin = None,
      po_lastCheckedAt = None, po_ocoGroup = None, po_clientOrderId = None, po_listClientOrderId = None, po_positionSide = None,
      po_reduceOnly = None, po_closePosition = None, po_amount = Fin 1, po_filled = Fin 0, po_average = None, po_cost = Fin 0,
      po_feeObservation = None, po_status = PO_open, po_timestamp = Fin 0\<rparr>"

definition demo_candles :: fetch_ohlcv where
  "demo_candles symbol timeframe since limit =
     Some [[Some (Fin 0), Some (Fin 100), Some (Fin 110), Some (Fin 90), Some (Fin 105), Some (Fin 1)],
           [Some (Fin 60000), Some (Fin 105), Some (Fin 125), Some (Fin 100), Some (Fin 115), Some (Fin 1)],
           [Some (Fin 120000), Some (Fin 115), Some (Fin 118), Some (Fin 110), Some (Fin 116), Some (Fin 1)]]"

definition demo_path :: market_path where
  "demo_path = \<lparr>mp_segments = [\<lparr>seg_high = Fin 110, seg_low = Fin 90, seg_tick = False\<rparr>, \<lparr>seg_high = Fin 125, seg_low = Fin 100, seg_tick = False\<rparr>,
     \<lparr>seg_high = Fin 118, seg_low = Fin 110, seg_tick = False\<rparr>, \<lparr>seg_high = Fin 116, seg_low = Fin 116, seg_tick = True\<rparr>], mp_checkedAt = Fin 180000\<rparr>"

lemma demo_market_path: "fst (buildMarketPath demo_candles demo_resting_order (Fin 116) (Fin 180000) (\<lambda>_. None) (\<lambda>_. None)) = Some demo_path"
  by (simp add: buildMarketPath_def gap_path_def demo_resting_order_def demo_candles_def order_since_def choose_timeframe_def tail_pages_def
      path_pages.simps fetch_page_def kline_of_row_def cell_def valid_candles_def valid_candle_def time_key_def walk_start_def latest_start_def
      js_sub_def js_min_def js_max_def demo_path_def)

text \<open>Three one-minute candles cover the gap of three minutes, and the limit order at 120 fills on the second of them.\<close>

theorem path_candles_are_contiguous_witness:
  "js_le (mp_checkedAt demo_path) (Fin 180000) \<and>
   (\<exists>d ks. gapless True 0 d ks \<and> mp_segments demo_path = map candle_segment (rev ks) @ [\<lparr>seg_high = Fin 116, seg_low = Fin 116, seg_tick = True\<rparr>]) \<and>
   evaluatePath demo_resting_order (mp_segments demo_path) = (demo_resting_order, Some (1, Fin 120))"
proof -
  have s: "order_since demo_resting_order = Fin 0" "po_timestamp demo_resting_order = Fin 0" by (simp_all add: order_since_def demo_resting_order_def)
  obtain cache where b: "buildMarketPath demo_candles demo_resting_order (Fin 116) (Fin 180000) (\<lambda>_. None) (\<lambda>_. None) = (Some demo_path, cache)"
    using demo_market_path by (metis prod.collapse)
  have t: "time_value (Fin 0)" "time_value (Fin 180000)"
    unfolding time_value_def by (rule exI[of _ 0], simp) (rule exI[of _ 180000], simp)
  have e: "evaluatePath demo_resting_order (mp_segments demo_path) = (demo_resting_order, Some (1, Fin 120))"
    by (simp add: evaluatePath_def demo_path_def walk_segment_def walk_limit_def limit_crossed_def isTriggerType_def demo_resting_order_def)
  have "mp_checkedAt demo_path = Fin 180000" by (simp add: demo_path_def)
  with path_candles_are_contiguous[OF b] e t show ?thesis unfolding s by auto
qed

end
