(* ===== verification/Paper_Spot.thy ===== *)
theory Paper_Spot
  imports Paper_Path
begin


text \<open>
  The paper exchange in spot mode (\<^verbatim>\<open>packages/trading-engine/src/paper-client.ts\<close>): reservations, fills, the lazy settlement of resting
  orders, placement, OCO groups and cancellation, as functions of the client's in-memory ledgers. An order object is identified by
  its id. The tickers and candles an operation fetches are inputs; a fetch that throws is \<open>None\<close>.
\<close>

section \<open>The client\<close>

record paper_client =
  cl_quote :: string
  cl_feeRate :: jsnum
  cl_account :: paper_account
  cl_futures :: paper_account
  cl_nextOrderId :: nat

datatype paper_error =
    Not_a_market string
  | Futures_disabled
  | Futures_only_parameters
  | Futures_oco_unsupported
  | Insufficient string
  | No_reserve_price
  | Amount_not_finite_positive
  | Unsupported_market
  | Amount_rounds_to_zero
  | Amount_below_minimum
  | Amount_above_maximum
  | Cost_below_minimum
  | Cost_above_maximum
  | No_finite_price
  | Paper_limit_price_required
  | Paper_stop_price_required
  | Would_trigger_immediately
  | Bad_trailing_percent
  | No_activation_price
  | Bad_oco_price
  | Oco_price_on_wrong_side
  | Fetch_failed
  | Order_not_found
  | Replacement_changed
  | Replacement_empty
  | Ledger_fee account_error
  | Bad_start_quote
  | Bad_fee_rate

definition baseAsset :: "string \<Rightarrow> string \<Rightarrow> paper_error + string" where
  "baseAsset symbol quote = (case base_part symbol quote of None \<Rightarrow> Inl (Not_a_market symbol) | Some b \<Rightarrow> Inr b)"

definition futures_symbol :: "paper_client \<Rightarrow> string \<Rightarrow> bool" where
  "futures_symbol c symbol = suffix (''/'' @ cl_quote c @ '':'' @ cl_quote c) symbol"

definition spot_account_for :: "paper_client \<Rightarrow> string \<Rightarrow> paper_error + unit" where
  "spot_account_for c symbol = (if futures_symbol c symbol then Inl Futures_disabled else ebind (baseAsset symbol (cl_quote c)) (\<lambda>_. Inr ()))"

section \<open>Balances and reservations\<close>

definition balance_of :: "paper_account \<Rightarrow> string \<Rightarrow> jsnum" where
  "balance_of a asset = (case obj_get (pa_balances a) asset of None \<Rightarrow> Fin 0 | Some b \<Rightarrow> b)"

definition set_balance :: "string \<Rightarrow> jsnum \<Rightarrow> paper_account \<Rightarrow> paper_account" where
  "set_balance asset b a = a\<lparr>pa_balances := obj_set (pa_balances a) asset b\<rparr>"

definition credit :: "string \<Rightarrow> jsnum \<Rightarrow> paper_client \<Rightarrow> paper_client" where
  "credit asset amount c = c\<lparr>cl_account := set_balance asset (js_add (balance_of (cl_account c) asset) amount) (cl_account c)\<rparr>"

definition with_fee :: "paper_client \<Rightarrow> jsnum \<Rightarrow> jsnum \<Rightarrow> jsnum" where
  "with_fee c amount unitPrice = js_mul (js_mul amount unitPrice) (js_add (Fin 1) (cl_feeRate c))"

definition reserve_funds :: "side \<Rightarrow> string \<Rightarrow> jsnum \<Rightarrow> jsnum \<Rightarrow> paper_client \<Rightarrow> paper_error + paper_client" where
  "reserve_funds s symbol amount unitPrice c =
     (if s = Buy then
        if js_le unitPrice (Fin 0) then Inl No_reserve_price
        else let cost = with_fee c amount unitPrice; free = balance_of (cl_account c) (cl_quote c)
             in if js_lt free cost then Inl (Insufficient (cl_quote c))
                else Inr (c\<lparr>cl_account := set_balance (cl_quote c) (js_sub free cost) (cl_account c)\<rparr>)
      else ebind (baseAsset symbol (cl_quote c)) (\<lambda>asset.
             let free = balance_of (cl_account c) asset
             in if js_lt free amount then Inl (Insufficient asset)
                else Inr (c\<lparr>cl_account := set_balance asset (js_sub free amount) (cl_account c)\<rparr>)))"

definition reserve_unit :: "paper_order \<Rightarrow> jsnum option" where
  "reserve_unit ord = (case po_reservePrice ord of Some p \<Rightarrow> Some p | None \<Rightarrow> po_price ord)"

text \<open>\<^verbatim>\<open>releaseReservation\<close> returns the client and the order, whose \<^verbatim>\<open>reservedMargin\<close> it may clear.\<close>

definition releaseReservation :: "paper_order \<Rightarrow> paper_client \<Rightarrow> paper_error + (paper_order \<times> paper_client)" where
  "releaseReservation ord c =
     (if futures_symbol c (po_symbol ord) then
        let reserved = (case po_reservedMargin ord of None \<Rightarrow> Fin 0 | Some m \<Rightarrow> m)
        in Inr (ord\<lparr>po_reservedMargin := Some (Fin 0)\<rparr>,
             if js_gt reserved (Fin 0)
             then c\<lparr>cl_futures := set_balance (cl_quote c) (js_add (balance_of (cl_futures c) (cl_quote c)) reserved) (cl_futures c)\<rparr> else c)
      else let remaining = js_sub (po_amount ord) (po_filled ord)
        in if po_side ord = Buy then
             Inr (ord, case reserve_unit ord of None \<Rightarrow> c | Some unitPrice \<Rightarrow> credit (cl_quote c) (with_fee c remaining unitPrice) c)
           else ebind (baseAsset (po_symbol ord) (cl_quote c)) (\<lambda>asset. Inr (ord, credit asset remaining c)))"

section \<open>Fills\<close>

definition entry_of :: "paper_account \<Rightarrow> string \<Rightarrow> futures_entry" where
  "entry_of a asset =
     (case obj_get (pa_entries a) asset of
        None \<Rightarrow> \<lparr>fe_amount = Fin 0, fe_cost = Fin 0, fe_leverage = None, fe_marginType = None, fe_lots = None\<rparr> | Some e \<Rightarrow> e)"

definition buy_side :: "string \<Rightarrow> jsnum \<Rightarrow> jsnum \<Rightarrow> paper_client \<Rightarrow> paper_error + paper_client" where
  "buy_side asset amount totalCost c =
     (let free = balance_of (cl_account c) (cl_quote c)
      in if js_lt free totalCost then Inl (Insufficient (cl_quote c))
         else let c1 = credit asset amount (c\<lparr>cl_account := set_balance (cl_quote c) (js_sub free totalCost) (cl_account c)\<rparr>);
                  entry = entry_of (cl_account c1) asset
              in Inr (c1\<lparr>cl_account := (cl_account c1)\<lparr>pa_entries := obj_set (pa_entries (cl_account c1)) asset
                   (entry\<lparr>fe_amount := js_add (fe_amount entry) amount, fe_cost := js_add (fe_cost entry) totalCost\<rparr>)\<rparr>\<rparr>))"

definition close_entry :: "string \<Rightarrow> jsnum \<Rightarrow> jsnum \<Rightarrow> jsnum \<Rightarrow> paper_account \<Rightarrow> jsnum option \<times> paper_account" where
  "close_entry asset amount price fee a =
     (case obj_get (pa_entries a) asset of
        None \<Rightarrow> (None, a)
      | Some entry \<Rightarrow>
          if \<not> js_gt (fe_amount entry) (Fin 0) then (None, a)
          else let entryPrice = js_div (fe_cost entry) (fe_amount entry);
                   closing = js_min amount (fe_amount entry);
                   pnl = js_sub (js_mul (js_sub price entryPrice) closing) fee;
                   entry' = entry\<lparr>fe_amount := js_sub (fe_amount entry) closing, fe_cost := js_sub (fe_cost entry) (js_mul entryPrice closing)\<rparr>
               in (Some pnl, a\<lparr>pa_realizedPnl := js_add (pa_realizedPnl a) pnl,
                     pa_entries := (if js_le (fe_amount entry') E_12 then obj_del (pa_entries a) asset else obj_set (pa_entries a) asset entry')\<rparr>))"

definition sell_side :: "string \<Rightarrow> jsnum \<Rightarrow> jsnum \<Rightarrow> jsnum \<Rightarrow> jsnum \<Rightarrow> paper_client \<Rightarrow> paper_error + (jsnum option \<times> paper_client)" where
  "sell_side asset amount price notional fee c =
     (let free = balance_of (cl_account c) asset
      in if js_lt free amount then Inl (Insufficient asset)
         else let c1 = credit (cl_quote c) (js_sub notional fee) (c\<lparr>cl_account := set_balance asset (js_sub free amount) (cl_account c)\<rparr>);
                  (pnl, a) = close_entry asset amount price fee (cl_account c1)
              in Inr (pnl, c1\<lparr>cl_account := a\<rparr>))"

definition market_fill :: "jsnum \<Rightarrow> string \<Rightarrow> string \<Rightarrow> side \<Rightarrow> jsnum \<Rightarrow> jsnum \<Rightarrow> jsnum \<Rightarrow> order_fee_observation \<Rightarrow> string option \<Rightarrow> paper_order" where
  "market_fill now i symbol s amount price notional obs clientOrderId =
     \<lparr>po_id = i, po_symbol = symbol, po_side = s, po_type = Market, po_price = None, po_stopPrice = None, po_trailingPercent = None,
      po_trailingExtreme = None, po_triggered = None, po_reservePrice = None, po_reservedMargin = None, po_lastCheckedAt = None, po_ocoGroup = None,
      po_clientOrderId = clientOrderId, po_listClientOrderId = None, po_positionSide = None, po_reduceOnly = None, po_closePosition = None,
      po_amount = amount, po_filled = amount, po_average = Some price, po_cost = notional, po_feeObservation = Some obs, po_status = PO_closed,
      po_timestamp = now\<rparr>"

text \<open>\<^verbatim>\<open>executeFill\<close>: the fill order, its fee and the client with the fill order and its trade.\<close>

definition executeFill :: "jsnum \<Rightarrow> string \<Rightarrow> side \<Rightarrow> jsnum \<Rightarrow> jsnum \<Rightarrow> string option \<Rightarrow> paper_client
    \<Rightarrow> paper_error + (paper_order \<times> jsnum \<times> paper_client)" where
  "executeFill now symbol s amount price clientOrderId c =
     ebind (baseAsset symbol (cl_quote c)) (\<lambda>asset.
       let notional = js_mul amount price; fee = js_mul notional (cl_feeRate c)
       in ebind (if s = Buy then ebind (buy_side asset amount (js_add notional fee) c) (\<lambda>c. Inr (None, c)) else sell_side asset amount price notional fee c)
            (\<lambda>(pnl, c1).
          ebind (emap_error Ledger_fee (paperOrderFeeObservation (cl_quote c) fee None)) (\<lambda>obs.
            let ord = market_fill now (show_nat (cl_nextOrderId c1)) symbol s amount price notional obs clientOrderId;
                trade = \<lparr>pt_id = po_id ord, pt_symbol = symbol, pt_side = s, pt_price = price, pt_amount = amount, pt_cost = notional, pt_fee = fee,
                  pt_realizedPnl = pnl, pt_positionSide = None, pt_timestamp = now\<rparr>
            in Inr (ord, fee, c1\<lparr>cl_nextOrderId := Suc (cl_nextOrderId c1),
                 cl_account := (cl_account c1)\<lparr>pa_orders := pa_orders (cl_account c1) @ [ord], pa_trades := pa_trades (cl_account c1) @ [trade]\<rparr>\<rparr>))))"


section \<open>Settlement of resting orders\<close>

text \<open>What an operation reads from the market: the clock, the tickers of the settlement, of the input normalisation and of the placement, and
  the candles.\<close>

record spot_market =
  mk_quote :: string
  mk_spot :: "bool option"
  mk_swap :: "bool option"
  mk_active :: "bool option"
  mk_minAmount :: "jsnum option"
  mk_maxAmount :: "jsnum option"
  mk_minCost :: "jsnum option"
  mk_maxCost :: "jsnum option"

type_synonym ticker_source = "string \<Rightarrow> jsnum option option"

record market_view =
  mv_now :: jsnum
  mv_settleTicker :: ticker_source
  mv_inputTicker :: ticker_source
  mv_placeTicker :: ticker_source
  mv_ohlcv :: fetch_ohlcv
  mv_markets :: "string \<Rightarrow> spot_market option"
  mv_amountToPrecision :: "string \<Rightarrow> jsnum \<Rightarrow> jsnum"
  mv_priceToPrecision :: "string \<Rightarrow> jsnum \<Rightarrow> jsnum"

definition order_at :: "paper_account \<Rightarrow> string \<Rightarrow> paper_order option" where
  "order_at a i = find (\<lambda>x. po_id x = i) (pa_orders a)"

definition put_order :: "paper_order \<Rightarrow> paper_account \<Rightarrow> paper_account" where
  "put_order ord a = a\<lparr>pa_orders := map (\<lambda>x. if po_id x = po_id ord then ord else x) (pa_orders a)\<rparr>"

definition put_client_order :: "paper_order \<Rightarrow> paper_client \<Rightarrow> paper_client" where
  "put_client_order ord c = c\<lparr>cl_account := put_order ord (cl_account c)\<rparr>"

text \<open>One cancels the other: the open siblings of a leg.\<close>

definition cancel_siblings :: "paper_order \<Rightarrow> paper_account \<Rightarrow> paper_account" where
  "cancel_siblings ord a =
     (case truthy (po_ocoGroup ord) of
        None \<Rightarrow> a
      | Some g \<Rightarrow> a\<lparr>pa_orders := map (\<lambda>x. if po_ocoGroup x = Some g \<and> po_id x \<noteq> po_id ord \<and> po_status x = PO_open then x\<lparr>po_status := PO_canceled\<rparr> else x)
                     (pa_orders a)\<rparr>)"

definition filled_order :: "paper_order \<Rightarrow> jsnum \<Rightarrow> order_fee_observation \<Rightarrow> paper_order" where
  "filled_order ord cost obs =
     ord\<lparr>po_feeObservation := Some obs, po_filled := po_amount ord, po_cost := js_add (po_cost ord) cost,
         po_average := Some (js_div (js_add (po_cost ord) cost) (po_amount ord)), po_status := PO_closed\<rparr>"

text \<open>\<^verbatim>\<open>fillRestingOrder\<close> on the spot ledger.\<close>

definition fillRestingOrder :: "jsnum \<Rightarrow> paper_order \<Rightarrow> jsnum \<Rightarrow> paper_client \<Rightarrow> paper_error + paper_client" where
  "fillRestingOrder now ord fillPrice c =
     ebind (releaseReservation ord c) (\<lambda>(ord, c).
       let c1 = put_client_order ord c; c2 = c1\<lparr>cl_account := cancel_siblings ord (cl_account c1)\<rparr>
       in ebind (executeFill now (po_symbol ord) (po_side ord) (js_sub (po_amount ord) (po_filled ord)) fillPrice None c2) (\<lambda>(fill, fee, c3).
            ebind (emap_error Ledger_fee (paperOrderFeeObservation (cl_quote c) fee (Some (po_filled ord, po_feeObservation ord)))) (\<lambda>obs.
              let ord' = filled_order ord (po_cost fill) obs;
                  orders = filter (\<lambda>x. po_id x \<noteq> po_id fill) (pa_orders (cl_account c3))
              in Inr (c3\<lparr>cl_account := (cl_account c3)\<lparr>pa_orders := filter (\<lambda>x. po_id x \<noteq> po_id ord) orders @ [ord']\<rparr>\<rparr>))))"

text \<open>The legs of a group along one path: every leg keeps its progress, and the one that fires earliest wins, the first one on a tie.\<close>

fun walk_legs :: "path_segment list \<Rightarrow> jsnum \<Rightarrow> string list \<Rightarrow> paper_account \<Rightarrow> (paper_order \<times> nat \<times> jsnum) option
    \<Rightarrow> paper_account \<times> (paper_order \<times> nat \<times> jsnum) option" where
  "walk_legs path checkedAt [] a winner = (a, winner)"
| "walk_legs path checkedAt (i # is) a winner =
     (case order_at a i of
        None \<Rightarrow> walk_legs path checkedAt is a winner
      | Some leg \<Rightarrow>
          let (leg1, fire) = evaluatePath leg path; leg2 = advanceCheckedAt leg1 checkedAt;
              winner' = (case fire of
                  None \<Rightarrow> winner
                | Some (idx, p) \<Rightarrow> (case winner of None \<Rightarrow> Some (leg2, idx, p) | Some (_, k, _) \<Rightarrow> if idx < k then Some (leg2, idx, p) else winner))
          in walk_legs path checkedAt is (put_order leg2 a) winner')"

definition is_open_at :: "paper_account \<Rightarrow> string \<Rightarrow> bool" where
  "is_open_at a i = (case order_at a i of None \<Rightarrow> False | Some x \<Rightarrow> po_status x = PO_open)"

definition open_legs :: "paper_account \<Rightarrow> string list \<Rightarrow> string \<Rightarrow> string list" where
  "open_legs a is g = filter (\<lambda>i. case order_at a i of None \<Rightarrow> False | Some x \<Rightarrow> po_ocoGroup x = Some g \<and> po_status x = PO_open) is"

text \<open>One order of the pass. The ticker of a symbol is fetched once in a pass.\<close>

definition settle_one :: "market_view \<Rightarrow> (string \<rightharpoonup> jsnum) \<Rightarrow> string list \<Rightarrow> string \<Rightarrow> (string \<rightharpoonup> kline list) \<times> bool \<times> paper_client
    \<Rightarrow> paper_error + ((string \<rightharpoonup> kline list) \<times> bool \<times> paper_client)" where
  "settle_one mv minSince waiting i = (\<lambda>(cache, dirty, c).
     (case order_at (cl_account c) i of
        None \<Rightarrow> Inr (cache, dirty, c)
      | Some ord \<Rightarrow>
          if po_status ord \<noteq> PO_open then Inr (cache, dirty, c)
          else (case mv_settleTicker mv (po_symbol ord) of
                  None \<Rightarrow> Inl Fetch_failed
                | Some lst \<Rightarrow>
                    if \<not> isFinitePositive lst then Inl No_finite_price
                    else (case buildMarketPath (mv_ohlcv mv) ord (the lst) (mv_now mv) minSince cache of
                            (None, _) \<Rightarrow> Inl Fetch_failed
                          | (Some mp, cache') \<Rightarrow>
                              (case truthy (po_ocoGroup ord) of
                                 Some g \<Rightarrow>
                                   let (a, winner) = walk_legs (mp_segments mp) (mp_checkedAt mp) (open_legs (cl_account c) waiting g) (cl_account c) None;
                                       c1 = c\<lparr>cl_account := a\<rparr>
                                   in (case winner of
                                         None \<Rightarrow> Inr (cache', True, c1)
                                       | Some (leg, _, p) \<Rightarrow> ebind (fillRestingOrder (mv_now mv) leg p c1) (\<lambda>c2. Inr (cache', True, c2)))
                               | None \<Rightarrow>
                                   let (ord1, fire) = evaluatePath ord (mp_segments mp); ord2 = advanceCheckedAt ord1 (mp_checkedAt mp);
                                       c1 = put_client_order ord2 c
                                   in (case fire of
                                         None \<Rightarrow> Inr (cache', True, c1)
                                       | Some (_, p) \<Rightarrow> ebind (fillRestingOrder (mv_now mv) ord2 p c1) (\<lambda>c2. Inr (cache', True, c2))))))))"

definition min_since :: "paper_order list \<Rightarrow> string \<rightharpoonup> jsnum" where
  "min_since waiting = fold (\<lambda>x m. m(po_symbol x \<mapsto> js_min (case m (po_symbol x) of Some t \<Rightarrow> t | None \<Rightarrow> order_since x) (order_since x))) waiting Map.empty"

definition settleAccountOpenOrders :: "market_view \<Rightarrow> paper_client \<Rightarrow> paper_error + (bool \<times> paper_client)" where
  "settleAccountOpenOrders mv c =
     (let waiting = filter (\<lambda>x. po_status x = PO_open) (pa_orders (cl_account c)); ids = map po_id waiting
      in if waiting = [] then Inr (False, c)
         else ebind (efold (settle_one mv (min_since waiting) ids) ids (Map.empty, False, c)) (\<lambda>(_, dirty, c'). Inr (dirty, c')))"


section \<open>Placing orders\<close>

definition opt_below :: "jsnum \<Rightarrow> jsnum option \<Rightarrow> bool" where
  "opt_below x bound = (case bound of None \<Rightarrow> False | Some m \<Rightarrow> js_lt x m)"

definition opt_above :: "jsnum \<Rightarrow> jsnum option \<Rightarrow> bool" where
  "opt_above x bound = (case bound of None \<Rightarrow> False | Some m \<Rightarrow> js_gt x m)"

definition spot_market_ok :: "string \<Rightarrow> spot_market option \<Rightarrow> bool" where
  "spot_market_ok quote m = (case m of None \<Rightarrow> False | Some m \<Rightarrow> mk_quote m = quote \<and> mk_spot m = Some True \<and> mk_swap m \<noteq> Some True \<and> mk_active m \<noteq> Some False)"

text \<open>\<^verbatim>\<open>normalizeOrderInput\<close> for a spot market.\<close>

definition normalizeOrderInput :: "market_view \<Rightarrow> paper_client \<Rightarrow> place_order_input \<Rightarrow> paper_error + place_order_input" where
  "normalizeOrderInput mv c input =
     (let symbol = in_symbol input
      in if futures_symbol c symbol then Inl Futures_disabled
         else if \<not> is_finite (in_amount input) \<or> js_le (in_amount input) (Fin 0) then Inl Amount_not_finite_positive
         else if \<not> spot_market_ok (cl_quote c) (mv_markets mv symbol) then Inl Unsupported_market
         else let market = the (mv_markets mv symbol); amount = mv_amountToPrecision mv symbol (in_amount input);
                  price = map_option (mv_priceToPrecision mv symbol) (in_price input); stopPrice = map_option (mv_priceToPrecision mv symbol) (in_stopPrice input)
              in if \<not> is_finite amount \<or> js_le amount (Fin 0) then Inl Amount_rounds_to_zero
                 else if opt_below amount (mk_minAmount market) then Inl Amount_below_minimum
                 else if opt_above amount (mk_maxAmount market) then Inl Amount_above_maximum
                 else (case mv_inputTicker mv symbol of
                         None \<Rightarrow> Inl Fetch_failed
                       | Some tickerPrice \<Rightarrow>
                           let reference = (case price of Some p \<Rightarrow> Some p | None \<Rightarrow> (case stopPrice of Some p \<Rightarrow> Some p | None \<Rightarrow> tickerPrice))
                           in if \<not> isFinitePositive reference then Inl No_finite_price
                              else let cost = js_mul amount (the reference)
                                in if opt_below cost (mk_minCost market) then Inl Cost_below_minimum
                                   else if opt_above cost (mk_maxCost market) then Inl Cost_above_maximum
                                   else Inr (input\<lparr>in_amount := amount, in_price := price, in_stopPrice := stopPrice\<rparr>)))"

definition lastPrice :: "ticker_source \<Rightarrow> string \<Rightarrow> paper_error + jsnum" where
  "lastPrice source symbol =
     (case source symbol of None \<Rightarrow> Inl Fetch_failed | Some lst \<Rightarrow> if isFinitePositive lst then Inr (the lst) else Inl No_finite_price)"

definition not_positive :: "jsnum option \<Rightarrow> bool" where
  "not_positive x = (case x of None \<Rightarrow> True | Some p \<Rightarrow> js_le p (Fin 0))"

definition configureRestingOrder :: "paper_order \<Rightarrow> place_order_input \<Rightarrow> jsnum option \<Rightarrow> paper_error + paper_order" where
  "configureRestingOrder ord input lst =
     (if in_type input = Limit then
        if not_positive (in_price input) then Inl Paper_limit_price_required
        else Inr (ord\<lparr>po_price := in_price input, po_reservePrice := in_price input\<rparr>)
      else if \<not> isFinitePositive lst then Inl No_finite_price
      else if isTriggerType (in_type input) then
        if not_positive (in_stopPrice input) then Inl Paper_stop_price_required
        else let isLimit = (in_type input = Stop \<or> in_type input = Take_profit)
          in if isLimit \<and> not_positive (in_price input) then Inl Paper_limit_price_required
             else if triggerFires (in_type input) (in_side input) (the lst) (the (in_stopPrice input)) then Inl Would_trigger_immediately
             else Inr (ord\<lparr>po_stopPrice := in_stopPrice input, po_price := (if isLimit then in_price input else po_price ord),
                       po_reservePrice := (if isLimit then in_price input else in_stopPrice input)\<rparr>)
      else if in_type input = Trailing_stop_market then
        (case in_trailingPercent input of
           None \<Rightarrow> Inl Bad_trailing_percent
         | Some percent \<Rightarrow>
             if \<not> is_finite percent \<or> js_le percent (Fin 0) \<or> js_ge percent (Fin 100) then Inl Bad_trailing_percent
             else if in_stopPrice input \<noteq> None then Inl No_activation_price
             else Inr (ord\<lparr>po_trailingPercent := Some percent, po_trailingExtreme := lst,
                       po_reservePrice := Some (trailingStopLevel (in_side input) (the lst) percent)\<rparr>))
      else Inl Unsupported_market)"

definition new_order :: "jsnum \<Rightarrow> nat \<Rightarrow> string \<Rightarrow> side \<Rightarrow> order_type \<Rightarrow> jsnum \<Rightarrow> order_fee_observation \<Rightarrow> string option \<Rightarrow> paper_order" where
  "new_order now n symbol s t amount obs clientOrderId =
     \<lparr>po_id = show_nat n, po_symbol = symbol, po_side = s, po_type = t, po_price = None, po_stopPrice = None, po_trailingPercent = None,
      po_trailingExtreme = None, po_triggered = None, po_reservePrice = None, po_reservedMargin = None, po_lastCheckedAt = None, po_ocoGroup = None,
      po_clientOrderId = clientOrderId, po_listClientOrderId = None, po_positionSide = None, po_reduceOnly = None, po_closePosition = None,
      po_amount = amount, po_filled = Fin 0, po_average = None, po_cost = Fin 0, po_feeObservation = Some obs, po_status = PO_open, po_timestamp = now\<rparr>"

definition push_orders :: "paper_order list \<Rightarrow> paper_client \<Rightarrow> paper_client" where
  "push_orders os c = c\<lparr>cl_account := (cl_account c)\<lparr>pa_orders := pa_orders (cl_account c) @ os\<rparr>\<rparr>"

text \<open>The order object of a fresh resting order: a missing client id is derived from the next order id.\<close>

definition place_resting :: "market_view \<Rightarrow> place_order_input \<Rightarrow> paper_client \<Rightarrow> paper_error + (paper_order \<times> paper_client)" where
  "place_resting mv input c =
     ebind (emap_error Ledger_fee (paperOrderFeeObservation (cl_quote c) (Fin 0) None)) (\<lambda>obs.
     ebind (if in_type input = Limit then Inr None else ebind (lastPrice (mv_placeTicker mv) (in_symbol input)) (\<lambda>p. Inr (Some p))) (\<lambda>lst.
     ebind (configureRestingOrder
             (new_order (mv_now mv) (cl_nextOrderId c) (in_symbol input) (in_side input) (in_type input) (in_amount input) obs (in_clientOrderId input)) input lst) (\<lambda>ord.
     ebind (reserve_funds (in_side input) (in_symbol input) (in_amount input) (case po_reservePrice ord of None \<Rightarrow> Fin 0 | Some p \<Rightarrow> p) c) (\<lambda>c1.
       let ord' = ord\<lparr>po_lastCheckedAt := Some (po_timestamp ord)\<rparr>
       in Inr (ord', push_orders [ord'] (c1\<lparr>cl_nextOrderId := Suc (cl_nextOrderId c1)\<rparr>))))))"

text \<open>\<^verbatim>\<open>submitPaperOrder\<close> in spot mode after the settlement and the cancellation of replaced orders: the order and the fee of an immediate fill.\<close>

definition place_spot :: "market_view \<Rightarrow> place_order_input \<Rightarrow> paper_client \<Rightarrow> paper_error + (paper_order \<times> jsnum option \<times> paper_client)" where
  "place_spot mv input0 c =
     ebind (normalizeOrderInput mv c input0) (\<lambda>input1.
       let input = input1\<lparr>in_clientOrderId := Some (case in_clientOrderId input1 of Some i \<Rightarrow> i | None \<Rightarrow> ''paper-'' @ show_nat (cl_nextOrderId c))\<rparr>
       in ebind (baseAsset (in_symbol input) (cl_quote c)) (\<lambda>_.
          if js_le (in_amount input) (Fin 0) then Inl Amount_not_finite_positive
          else if in_reduceOnly input \<noteq> None \<or> in_positionSide input \<noteq> None \<or> in_closePosition input \<noteq> None then Inl Futures_only_parameters
          else if in_type input = Market then
            ebind (lastPrice (mv_placeTicker mv) (in_symbol input)) (\<lambda>price.
            ebind (executeFill (mv_now mv) (in_symbol input) (in_side input) (in_amount input) price (in_clientOrderId input) c) (\<lambda>(ord, fee, c1).
              Inr (ord, Some fee, c1)))
          else ebind (place_resting mv input c) (\<lambda>(ord, c1). Inr (ord, None, c1))))"

text \<open>\<^verbatim>\<open>cancelForReplacement\<close>: every named order has to be open, of the same symbol and side; a group is released once.\<close>

definition replaced_order :: "place_order_input \<Rightarrow> paper_account \<Rightarrow> string \<Rightarrow> paper_error + paper_order" where
  "replaced_order input a i =
     (case find (\<lambda>x. po_id x = i \<and> po_symbol x = in_symbol input \<and> po_status x = PO_open) (pa_orders a) of
        None \<Rightarrow> Inl Replacement_changed
      | Some ord \<Rightarrow> if po_side ord \<noteq> in_side input then Inl Replacement_changed else Inr ord)"

definition cancel_group :: "paper_order \<Rightarrow> paper_account \<Rightarrow> paper_account" where
  "cancel_group ord a =
     (case truthy (po_ocoGroup ord) of
        None \<Rightarrow> a
      | Some g \<Rightarrow> a\<lparr>pa_orders := map (\<lambda>x. if po_ocoGroup x = Some g \<and> po_status x = PO_open then x\<lparr>po_status := PO_canceled\<rparr> else x) (pa_orders a)\<rparr>)"

definition release_and_cancel :: "paper_order \<Rightarrow> paper_client \<Rightarrow> paper_error + paper_client" where
  "release_and_cancel ord c =
     ebind (releaseReservation ord c) (\<lambda>(ord, c).
       let c1 = put_client_order (ord\<lparr>po_status := PO_canceled\<rparr>) c
       in Inr (c1\<lparr>cl_account := cancel_group ord (cl_account c1)\<rparr>))"

definition replacement_step :: "paper_order \<Rightarrow> string list \<times> paper_client \<Rightarrow> paper_error + (string list \<times> paper_client)" where
  "replacement_step ord = (\<lambda>(groups, c).
     let g = (case po_ocoGroup ord of Some g \<Rightarrow> g | None \<Rightarrow> po_id ord)
     in if g \<in> set groups then Inr (groups, c) else ebind (release_and_cancel ord c) (\<lambda>c1. Inr (g # groups, c1)))"

definition cancelForReplacement :: "place_order_input \<Rightarrow> string list \<Rightarrow> paper_client \<Rightarrow> paper_error + paper_client" where
  "cancelForReplacement input ids c =
     ebind (spot_account_for c (in_symbol input)) (\<lambda>_.
     ebind (emap (replaced_order input (cl_account c)) ids) (\<lambda>orders.
     ebind (efold replacement_step orders ([], c)) (\<lambda>(_, c1). Inr c1)))"

section \<open>OCO groups\<close>

definition oco_leg :: "jsnum \<Rightarrow> nat \<Rightarrow> place_oco_input \<Rightarrow> jsnum \<Rightarrow> order_fee_observation \<Rightarrow> string \<Rightarrow> string \<Rightarrow> jsnum \<Rightarrow> order_type \<Rightarrow> jsnum \<Rightarrow> string option \<Rightarrow> paper_order" where
  "oco_leg now n input amount obs grp listId reservePrice t stopPrice clientOrderId =
     (new_order now n (oco_symbol input) (oco_side input) t amount obs clientOrderId)
       \<lparr>po_listClientOrderId := Some listId, po_stopPrice := Some stopPrice, po_reservePrice := Some reservePrice, po_ocoGroup := Some grp,
        po_lastCheckedAt := Some now\<rparr>"

text \<open>The stop leg comes first: on a candle that crosses both triggers the losing leg wins.\<close>

definition oco_legs :: "jsnum \<Rightarrow> nat \<Rightarrow> place_oco_input \<Rightarrow> jsnum \<Rightarrow> order_fee_observation \<Rightarrow> jsnum \<Rightarrow> jsnum \<Rightarrow> paper_order list" where
  "oco_legs now n input amount obs stopLoss takeProfit =
     (let grp = ''oco-'' @ show_nat n; listId = (case oco_listClientOrderId input of Some l \<Rightarrow> l | None \<Rightarrow> ''paper-list-'' @ show_nat n);
          reservePrice = js_max stopLoss takeProfit
      in [oco_leg now n input amount obs grp listId reservePrice Stop_market stopLoss (oco_belowClientOrderId input),
          oco_leg now (Suc n) input amount obs grp listId reservePrice Take_profit_market takeProfit (oco_aboveClientOrderId input)])"

definition oco_prices_bracket :: "side \<Rightarrow> jsnum \<Rightarrow> jsnum \<Rightarrow> jsnum \<Rightarrow> bool" where
  "oco_prices_bracket s stopLoss takeProfit lst =
     (if s = Sell then \<not> js_ge stopLoss lst \<and> \<not> js_le takeProfit lst else \<not> js_le stopLoss lst \<and> \<not> js_ge takeProfit lst)"

definition place_oco :: "market_view \<Rightarrow> place_oco_input \<Rightarrow> paper_client \<Rightarrow> paper_error + (paper_order list \<times> paper_client)" where
  "place_oco mv input c =
     (let symbol = oco_symbol input
      in if futures_symbol c symbol then Inl Futures_oco_unsupported
         else ebind (baseAsset symbol (cl_quote c)) (\<lambda>_.
           if js_le (oco_amount input) (Fin 0) then Inl Amount_not_finite_positive
           else ebind (normalizeOrderInput mv c
                  \<lparr>in_symbol = symbol, in_side = oco_side input, in_type = Market, in_amount = oco_amount input, in_price = None, in_reduceOnly = None,
                   in_positionSide = None, in_stopPrice = None, in_trailingPercent = None, in_closePosition = None, in_clientOrderId = None\<rparr>) (\<lambda>normalized.
             let amount = in_amount normalized; stopLoss = mv_priceToPrecision mv symbol (oco_stopLossPrice input);
                 takeProfit = mv_priceToPrecision mv symbol (oco_takeProfitPrice input)
             in if \<not> isFinitePositive (Some stopLoss) \<or> \<not> isFinitePositive (Some takeProfit) then Inl Bad_oco_price
                else ebind (lastPrice (mv_placeTicker mv) symbol) (\<lambda>lst.
                  if \<not> oco_prices_bracket (oco_side input) stopLoss takeProfit lst then Inl Oco_price_on_wrong_side
                  else ebind (emap_error Ledger_fee (paperOrderFeeObservation (cl_quote c) (Fin 0) None)) (\<lambda>obs.
                    let n = cl_nextOrderId c; legs = oco_legs (mv_now mv) n input amount obs stopLoss takeProfit
                    in ebind (reserve_funds (oco_side input) symbol amount (js_max stopLoss takeProfit) (c\<lparr>cl_nextOrderId := Suc (Suc n)\<rparr>)) (\<lambda>c1.
                         Inr (legs, push_orders legs c1)))))))"

section \<open>Cancellation\<close>

definition cancel_order :: "string \<Rightarrow> string \<Rightarrow> paper_client \<Rightarrow> paper_error + paper_client" where
  "cancel_order i symbol c =
     ebind (spot_account_for c symbol) (\<lambda>_.
       case find (\<lambda>x. po_id x = i \<and> po_symbol x = symbol \<and> po_status x = PO_open) (pa_orders (cl_account c)) of
         None \<Rightarrow> Inl Order_not_found
       | Some ord \<Rightarrow> release_and_cancel ord c)"

definition cancel_list :: "string \<Rightarrow> string \<Rightarrow> paper_client \<Rightarrow> paper_error + paper_client" where
  "cancel_list listId symbol c =
     ebind (spot_account_for c symbol) (\<lambda>_.
       let member = (\<lambda>x. po_ocoGroup x = Some listId \<and> po_symbol x = symbol \<and> po_status x = PO_open)
       in (case filter member (pa_orders (cl_account c)) of
             [] \<Rightarrow> Inl Order_not_found
           | ord # _ \<Rightarrow>
               ebind (releaseReservation ord c) (\<lambda>(ord', c).
                 let c1 = put_client_order ord' c
                 in Inr (c1\<lparr>cl_account := (cl_account c1)\<lparr>pa_orders := map (\<lambda>x. if member x then x\<lparr>po_status := PO_canceled\<rparr> else x) (pa_orders (cl_account c1))\<rparr>\<rparr>))))"

definition reset_account :: "jsnum \<Rightarrow> jsnum \<Rightarrow> jsnum \<Rightarrow> margin_type \<Rightarrow> position_mode \<Rightarrow> paper_client \<Rightarrow> paper_error + paper_client" where
  "reset_account now startQuote leverage m mode c =
     (if \<not> is_finite startQuote \<or> js_le startQuote (Fin 0) then Inl Bad_start_quote
      else Inr (c\<lparr>cl_account := freshSpotAccount now (cl_quote c) startQuote,
                  cl_futures := (freshFuturesAccount now (cl_quote c) startQuote leverage m mode)\<lparr>pa_leverageBySymbol := Some [], pa_marginTypeBySymbol := Some []\<rparr>,
                  cl_nextOrderId := 1\<rparr>))"


section \<open>Operations\<close>

text \<open>Every operation of a client reads the ledgers again, settles the open orders and then acts. What is written to disk is the ledger after the
  settlement, when the action fails, and the ledger after the action otherwise; a failed settlement is rolled back. The next operation finds the
  written ledger and numbers its orders above every stored id.\<close>

definition reload_client :: "paper_client \<Rightarrow> paper_client" where
  "reload_client c = c\<lparr>cl_nextOrderId := maxPersistedOrderId [cl_account c, cl_futures c]\<rparr>"

definition settleOpenOrdersUnlocked :: "market_view \<Rightarrow> paper_client \<Rightarrow> paper_error + paper_client" where
  "settleOpenOrdersUnlocked mv c = ebind (settleAccountOpenOrders mv c) (\<lambda>(dirty, c'). Inr c')"

definition settle_then :: "market_view \<Rightarrow> (paper_client \<Rightarrow> paper_error + ('a \<times> paper_client)) \<Rightarrow> paper_client \<Rightarrow> (paper_error + 'a) \<times> paper_client" where
  "settle_then mv act c =
     (case settleOpenOrdersUnlocked mv c of
        Inl e \<Rightarrow> (Inl e, c)
      | Inr c1 \<Rightarrow> (case act c1 of Inl e \<Rightarrow> (Inl e, c1) | Inr (r, c2) \<Rightarrow> (Inr r, c2)))"

definition paper_resetAccount ::
  "jsnum \<Rightarrow> jsnum \<Rightarrow> jsnum \<Rightarrow> margin_type \<Rightarrow> position_mode \<Rightarrow> paper_client \<Rightarrow> (paper_error + unit) \<times> paper_client" where
  "paper_resetAccount now startQuote leverage m mode c =
     (case reset_account now startQuote leverage m mode c of Inl e \<Rightarrow> (Inl e, c) | Inr c' \<Rightarrow> (Inr (), c'))"

definition submitPaperOrder :: "market_view \<Rightarrow> place_order_input \<Rightarrow> string list option \<Rightarrow> paper_client \<Rightarrow> (paper_error + (order \<times> jsnum option)) \<times> paper_client" where
  "submitPaperOrder mv input replacementIds c =
     (if futures_symbol c (in_symbol input) then (Inl Futures_disabled, c)
      else settle_then mv (\<lambda>c.
             ebind (case replacementIds of None \<Rightarrow> Inr c | Some ids \<Rightarrow> cancelForReplacement input ids c) (\<lambda>c1.
             ebind (place_spot mv input c1) (\<lambda>(ord, fee, c2). Inr ((toOrder ord, fee), c2)))) c)"

definition paper_placeOrder :: "market_view \<Rightarrow> place_order_input \<Rightarrow> paper_client \<Rightarrow> (paper_error + (order \<times> jsnum option)) \<times> paper_client" where
  "paper_placeOrder mv input c = submitPaperOrder mv input None c"

definition replaceProtectiveOrders :: "market_view \<Rightarrow> place_order_input \<Rightarrow> string list \<Rightarrow> paper_client \<Rightarrow> (paper_error + (order \<times> jsnum option)) \<times> paper_client" where
  "replaceProtectiveOrders mv input ids c = (if ids = [] then (Inl Replacement_empty, c) else submitPaperOrder mv input (Some ids) c)"

definition placeOcoOrder :: "market_view \<Rightarrow> place_oco_input \<Rightarrow> paper_client \<Rightarrow> (paper_error + order list) \<times> paper_client" where
  "placeOcoOrder mv input c = settle_then mv (\<lambda>c. ebind (place_oco mv input c) (\<lambda>(os, c1). Inr (map toOrder os, c1))) c"

definition paper_cancelOrder :: "market_view \<Rightarrow> string \<Rightarrow> string \<Rightarrow> paper_client \<Rightarrow> (paper_error + unit) \<times> paper_client" where
  "paper_cancelOrder mv i symbol c =
     (case spot_account_for c symbol of Inl e \<Rightarrow> (Inl e, c) | Inr _ \<Rightarrow> settle_then mv (\<lambda>c. ebind (cancel_order i symbol c) (\<lambda>c1. Inr ((), c1))) c)"

definition paper_cancelOrderList :: "market_view \<Rightarrow> string \<Rightarrow> string \<Rightarrow> paper_client \<Rightarrow> (paper_error + unit) \<times> paper_client" where
  "paper_cancelOrderList mv i symbol c =
     (case spot_account_for c symbol of Inl e \<Rightarrow> (Inl e, c) | Inr _ \<Rightarrow> settle_then mv (\<lambda>c. ebind (cancel_list i symbol c) (\<lambda>c1. Inr ((), c1))) c)"

definition paper_getOrder :: "market_view \<Rightarrow> string \<Rightarrow> string \<Rightarrow> paper_client \<Rightarrow> (paper_error + order) \<times> paper_client" where
  "paper_getOrder mv i symbol c =
     (case spot_account_for c symbol of
        Inl e \<Rightarrow> (Inl e, c)
      | Inr _ \<Rightarrow> settle_then mv (\<lambda>c.
          case find (\<lambda>x. po_id x = i \<and> po_symbol x = symbol) (pa_orders (cl_account c)) of None \<Rightarrow> Inl Order_not_found | Some ord \<Rightarrow> Inr (toOrder ord, c)) c)"

definition paper_getOrderByClientId :: "market_view \<Rightarrow> string \<Rightarrow> string \<Rightarrow> paper_client \<Rightarrow> (paper_error + order) \<times> paper_client" where
  "paper_getOrderByClientId mv i symbol c =
     (case spot_account_for c symbol of
        Inl e \<Rightarrow> (Inl e, c)
      | Inr _ \<Rightarrow> settle_then mv (\<lambda>c.
          case find (\<lambda>x. po_clientOrderId x = Some i \<and> po_symbol x = symbol) (pa_orders (cl_account c)) of
            None \<Rightarrow> Inl Order_not_found | Some ord \<Rightarrow> Inr (toOrder ord, c)) c)"

definition list_status :: "order list \<Rightarrow> order_status" where
  "list_status os = (if list_ex (\<lambda>x. ord_status x = St_open) os then St_open else if list_ex (\<lambda>x. ord_status x = St_closed) os then St_closed else St_canceled)"

definition orderListFromOrders :: "string \<Rightarrow> paper_order list \<Rightarrow> string \<times> string \<times> order_status \<times> order list" where
  "orderListFromOrders i os =
     (let mapped = map toOrder os; s = list_status mapped in (i, if s = St_open then ''EXECUTING'' else ''ALL_DONE'', s, mapped))"

definition paper_getOrderList :: "market_view \<Rightarrow> string \<Rightarrow> paper_client \<Rightarrow> (paper_error + (string \<times> string \<times> order_status \<times> order list)) \<times> paper_client" where
  "paper_getOrderList mv i c =
     settle_then mv (\<lambda>c. case filter (\<lambda>x. po_ocoGroup x = Some i) (pa_orders (cl_account c)) of
        [] \<Rightarrow> Inl Order_not_found | os \<Rightarrow> Inr (orderListFromOrders i os, c)) c"

definition paper_getOrderListByClientId :: "market_view \<Rightarrow> string \<Rightarrow> paper_client \<Rightarrow> (paper_error + (string \<times> string \<times> order_status \<times> order list)) \<times> paper_client" where
  "paper_getOrderListByClientId mv i c =
     settle_then mv (\<lambda>c. case filter (\<lambda>x. po_listClientOrderId x = Some i) (pa_orders (cl_account c)) of
        [] \<Rightarrow> Inl Order_not_found | os \<Rightarrow> Inr (orderListFromOrders i os, c)) c"

text \<open>A client that was just created in spot mode, after the checks of its constructor on the amounts.\<close>

definition new_client :: "jsnum \<Rightarrow> string \<Rightarrow> jsnum \<Rightarrow> jsnum \<Rightarrow> jsnum \<Rightarrow> margin_type \<Rightarrow> position_mode \<Rightarrow> paper_error + paper_client" where
  "new_client now quote startQuote feeRate leverage m mode =
     (if \<not> is_finite startQuote \<or> js_lt startQuote (Fin 0) then Inl Bad_start_quote
      else if \<not> is_finite feeRate \<or> js_lt feeRate (Fin 0) \<or> js_ge feeRate (Fin 1) then Inl Bad_fee_rate
      else Inr (reload_client \<lparr>cl_quote = quote, cl_feeRate = feeRate, cl_account = freshSpotAccount now quote startQuote,
                  cl_futures = freshFuturesAccount now quote startQuote leverage m mode, cl_nextOrderId = 0\<rparr>))"

section \<open>Runs of operations\<close>

text \<open>The ledger is found as it was stored, and order ids stay safe integers.\<close>

definition loads :: "paper_client \<Rightarrow> bool" where
  "loads c \<longleftrightarrow> parsePaperAccount (account_json (cl_account c)) = Inr (cl_account c)"

inductive spot_order_step :: "paper_client \<Rightarrow> paper_client \<Rightarrow> bool" where
  place: "spot_order_step c c'" if "loads c" "paper_placeOrder mv input (reload_client c) = (r, c')" "cl_nextOrderId c' \<le> 2 ^ 53"
| replace: "spot_order_step c c'" if "loads c" "replaceProtectiveOrders mv input ids (reload_client c) = (r, c')" "cl_nextOrderId c' \<le> 2 ^ 53"
| place_group: "spot_order_step c c'" if "loads c" "placeOcoOrder mv oco (reload_client c) = (s, c')" "cl_nextOrderId c' \<le> 2 ^ 53"
| cancel: "spot_order_step c c'" if "loads c" "paper_cancelOrder mv i symbol (reload_client c) = (t, c')" "cl_nextOrderId c' \<le> 2 ^ 53"
| cancel_list: "spot_order_step c c'" if "loads c" "paper_cancelOrderList mv i symbol (reload_client c) = (t, c')" "cl_nextOrderId c' \<le> 2 ^ 53"
| look_up: "spot_order_step c c'" if "loads c" "paper_getOrder mv i symbol (reload_client c) = (u, c')" "cl_nextOrderId c' \<le> 2 ^ 53"
| look_up_client: "spot_order_step c c'" if "loads c" "paper_getOrderByClientId mv i symbol (reload_client c) = (u, c')" "cl_nextOrderId c' \<le> 2 ^ 53"
| look_up_list: "spot_order_step c c'" if "loads c" "paper_getOrderList mv i (reload_client c) = (v, c')" "cl_nextOrderId c' \<le> 2 ^ 53"
| look_up_client_list: "spot_order_step c c'" if "loads c" "paper_getOrderListByClientId mv i (reload_client c) = (v, c')" "cl_nextOrderId c' \<le> 2 ^ 53"

text \<open>Resetting the account wipes its history; the other operations only add to it.\<close>

inductive spot_order_run :: "paper_client \<Rightarrow> paper_client \<Rightarrow> bool" where
  refl: "spot_order_run c c"
| step: "spot_order_run c c''" if "spot_order_run c c'" "spot_order_step c' c''"

inductive spot_step :: "paper_client \<Rightarrow> paper_client \<Rightarrow> bool" where
  order: "spot_step c c'" if "spot_order_step c c'"
| reset: "spot_step c c'" if "loads c" "paper_resetAccount now startQuote leverage m mode (reload_client c) = (t, c')" "cl_nextOrderId c' \<le> 2 ^ 53"

inductive spot_run :: "paper_client \<Rightarrow> paper_client \<Rightarrow> bool" where
  refl: "spot_run c c"
| step: "spot_run c c''" if "spot_run c c'" "spot_step c' c''"

end
