(* ===== verification/Paper_Spot_Safety.thy ===== *)
theory Paper_Spot_Safety
  imports Paper_Spot
begin

text \<open>
  The simulated spot account over every run of operations: balances are never negative, at most one leg of an OCO group is filled, finished orders
  are final. The steps of the account keep one invariant (\<open>good\<close>) and change the orders in a controlled way (\<open>step_ok\<close>); a concrete session gives
  the witnesses, and a second one shows where the reservation falls short of the fill.
\<close>


section \<open>Balances are never negative\<close>

text \<open>A number that is not below zero; \<open>NaN\<close> counts, since every comparison with it fails.\<close>

definition not_neg :: "jsnum \<Rightarrow> bool" where
  "not_neg x \<longleftrightarrow> \<not> js_lt x (Fin 0)"

lemma not_neg_simps [simp]: "not_neg (Fin x) \<longleftrightarrow> 0 \<le> x" "not_neg NaN" "not_neg PInf" "\<not> not_neg NInf"
  by (auto simp: not_neg_def)

lemma not_neg_fl: "0 \<le> x \<Longrightarrow> not_neg (fl x)"
  using fl_nonneg[of x] by auto

lemma not_neg_add: "not_neg a \<Longrightarrow> not_neg b \<Longrightarrow> not_neg (js_add a b)"
  by (cases a; cases b) (auto intro: not_neg_fl)

lemma not_neg_sub: "\<not> js_lt a b \<Longrightarrow> not_neg (js_sub a b)"
  by (cases a; cases b) (auto simp: js_sub_def intro: not_neg_fl)

lemma not_neg_mul: "not_neg a \<Longrightarrow> not_neg b \<Longrightarrow> not_neg (js_mul a b)"
proof (cases a; cases b)
  fix x y assume "a = Fin x" "b = Fin y" "not_neg a" "not_neg b"
  then show ?thesis by (auto intro: not_neg_fl)
qed (auto simp: Let_def inf_of_def sgn_if mult_le_0_iff zero_less_mult_iff)

lemma not_neg_max: "not_neg a \<Longrightarrow> not_neg b \<Longrightarrow> not_neg (js_max a b)"
  by (simp add: js_max_def)

lemma not_neg_min: "not_neg a \<Longrightarrow> not_neg b \<Longrightarrow> not_neg (js_min a b)"
  by (simp add: js_min_def)

text \<open>What is left of an amount after a fee below it.\<close>

lemma fee_below:
  assumes "0 \<le> f" "f < 1" "not_neg a" "not_neg b" shows "\<not> js_lt (js_mul a b) (js_mul (js_mul a b) (Fin f))"
proof (cases "js_mul a b")
  case (Fin n)
  obtain x y where xy: "a = Fin x" "b = Fin y" using Fin by (cases a; cases b) (auto simp: Let_def inf_of_def split: if_splits)
  have d: "fl n = Fin n" using Fin xy fl_double[of "x * y" n] by (simp add: is_double_def)
  have "0 \<le> n" using not_neg_mul[OF assms(3,4)] Fin by simp
  then have "n * f \<le> n" using assms(1,2) mult_left_le[of f n] by simp
  then have "js_le (fl (n * f)) (fl n)" by (rule fl_mono)
  then show ?thesis using Fin d js_le_not_gt[of "fl (n * f)" "Fin n"] by simp
next
  case NaN
  then show ?thesis by simp
next
  case PInf
  then show ?thesis by (simp add: Let_def inf_of_def)
next
  case NInf
  then show ?thesis using not_neg_mul[OF assms(3,4)] by simp
qed


text \<open>The part of the state the balances depend on: fees below the amount, balances and reservations that are not negative.\<close>

definition order_funds_ok :: "paper_order \<Rightarrow> bool" where
  "order_funds_ok ord \<longleftrightarrow>
     not_neg (po_amount ord) \<and> \<not> js_lt (po_amount ord) (po_filled ord) \<and> given_all not_neg (po_price ord) \<and> given_all not_neg (po_stopPrice ord) \<and>
     given_all not_neg (po_reservePrice ord) \<and> given_all not_neg (po_trailingExtreme ord) \<and>
     given_all (\<lambda>p. is_finite p \<and> js_gt p (Fin 0) \<and> js_lt p (Fin 100)) (po_trailingPercent ord)"

definition fee_rate_ok :: "jsnum \<Rightarrow> bool" where
  "fee_rate_ok r \<longleftrightarrow> is_finite r \<and> \<not> js_lt r (Fin 0) \<and> js_lt r (Fin 1)"

definition balances_ok :: "paper_account \<Rightarrow> bool" where
  "balances_ok a \<longleftrightarrow> list_all (\<lambda>e. not_neg (snd e)) (pa_balances a)"

definition funds_ok :: "paper_client \<Rightarrow> bool" where
  "funds_ok c \<longleftrightarrow> fee_rate_ok (cl_feeRate c) \<and> balances_ok (cl_account c) \<and> list_all order_funds_ok (pa_orders (cl_account c))"

named_theorems funds_intros \<open>steps that keep the balances from becoming negative\<close>

lemma balance_not_neg: "balances_ok a \<Longrightarrow> not_neg (balance_of a asset)"
  by (auto simp: balance_of_def balances_ok_def obj_get_def list_all_iff dest!: map_of_SomeD split: option.splits)

lemma set_balance_ok [funds_intros]: "balances_ok a \<Longrightarrow> not_neg b \<Longrightarrow> balances_ok (set_balance asset b a)"
  by (auto simp: balances_ok_def set_balance_def list_all_iff dest!: obj_set_mem)

lemma balances_ok_frame [simp]: "balances_ok (a\<lparr>pa_orders := os\<rparr>) = balances_ok a" "balances_ok (a\<lparr>pa_trades := ts\<rparr>) = balances_ok a"
  "balances_ok (a\<lparr>pa_entries := es\<rparr>) = balances_ok a"
  by (simp_all add: balances_ok_def)

lemma set_balance_frame [simp]: "pa_orders (set_balance asset b a) = pa_orders a" "pa_trades (set_balance asset b a) = pa_trades a"
  "pa_quote (set_balance asset b a) = pa_quote a" "pa_entries (set_balance asset b a) = pa_entries a"
  by (simp_all add: set_balance_def)

lemma credit_frame [simp]: "pa_orders (cl_account (credit asset x c)) = pa_orders (cl_account c)" "cl_feeRate (credit asset x c) = cl_feeRate c"
  "cl_quote (credit asset x c) = cl_quote c" "cl_nextOrderId (credit asset x c) = cl_nextOrderId c" "cl_futures (credit asset x c) = cl_futures c"
  "pa_trades (cl_account (credit asset x c)) = pa_trades (cl_account c)"
  by (simp_all add: credit_def)

lemma credit_ok: "balances_ok (cl_account c) \<Longrightarrow> not_neg x \<Longrightarrow> balances_ok (cl_account (credit asset x c))"
  by (simp add: credit_def set_balance_ok not_neg_add balance_not_neg)

lemma one_plus_fee: "fee_rate_ok r \<Longrightarrow> not_neg (js_add (Fin 1) r)"
  by (cases r) (auto simp: fee_rate_ok_def intro: not_neg_fl)

lemma with_fee_not_neg: "fee_rate_ok (cl_feeRate c) \<Longrightarrow> not_neg a \<Longrightarrow> not_neg p \<Longrightarrow> not_neg (with_fee c a p)"
  by (simp add: with_fee_def not_neg_mul one_plus_fee)

lemma remaining_not_neg: "order_funds_ok ord \<Longrightarrow> not_neg (js_sub (po_amount ord) (po_filled ord))"
  by (simp add: order_funds_ok_def not_neg_sub)

text \<open>What a step leaves alone.\<close>

definition same_orders :: "paper_client \<Rightarrow> paper_client \<Rightarrow> bool" where
  "same_orders c c' \<longleftrightarrow> pa_orders (cl_account c') = pa_orders (cl_account c) \<and> cl_quote c' = cl_quote c \<and> cl_feeRate c' = cl_feeRate c \<and>
     cl_nextOrderId c' = cl_nextOrderId c"

lemma reserve_same: "reserve_funds s symbol amount p c = Inr c' \<Longrightarrow> same_orders c c'"
  by (auto simp: reserve_funds_def same_orders_def Let_def result_simps split: if_splits)

lemma reserve_balances: "reserve_funds s symbol amount p c = Inr c' \<Longrightarrow> balances_ok (cl_account c) \<Longrightarrow> balances_ok (cl_account c')"
  by (auto simp: reserve_funds_def Let_def result_simps split: if_splits intro!: set_balance_ok not_neg_sub)

lemma release_same: "releaseReservation ord c = Inr (ord', c') \<Longrightarrow> same_orders c c' \<and> (\<exists>m. ord' = ord\<lparr>po_reservedMargin := m\<rparr>)"
  by (auto simp: releaseReservation_def same_orders_def Let_def result_simps split: if_splits option.splits intro: exI[of _ "po_reservedMargin ord"])

lemma release_balances:
  assumes "releaseReservation ord c = Inr (ord', c')" "balances_ok (cl_account c)" "fee_rate_ok (cl_feeRate c)" "order_funds_ok ord"
  shows "balances_ok (cl_account c')"
proof -
  have "not_neg p" if "reserve_unit ord = Some p" for p
    using that assms(4) by (auto simp: reserve_unit_def order_funds_ok_def given_all_def split: option.splits)
  then show ?thesis using assms remaining_not_neg[OF assms(4)]
    by (auto simp: releaseReservation_def Let_def result_simps split: if_splits option.splits intro!: credit_ok with_fee_not_neg)
qed

lemma order_funds_margin [simp]: "order_funds_ok (ord\<lparr>po_reservedMargin := m\<rparr>) = order_funds_ok ord"
  by (simp add: order_funds_ok_def)

lemma order_funds_status [simp]: "order_funds_ok (ord\<lparr>po_status := m\<rparr>) = order_funds_ok ord"
  by (simp add: order_funds_ok_def)

subsection \<open>Fills\<close>

lemma close_entry_frame:
  assumes "close_entry asset amount price fee a = (pnl, a')"
  shows "pa_orders a' = pa_orders a \<and> pa_trades a' = pa_trades a \<and> pa_balances a' = pa_balances a"
  using assms by (auto simp: close_entry_def Let_def split: option.splits if_splits)

lemma market_fill_id [simp]: "po_id (market_fill now i symbol s amount price notional obs cid) = i"
  by (simp add: market_fill_def)

lemma buy_side_frame:
  assumes "buy_side asset amount totalCost c = Inr c'"
  shows "same_orders c c' \<and> pa_trades (cl_account c') = pa_trades (cl_account c) \<and> cl_futures c' = cl_futures c"
  using assms by (auto simp: buy_side_def same_orders_def Let_def split: if_splits)

lemma sell_side_frame:
  assumes "sell_side asset amount price notional fee c = Inr (pnl, c')"
  shows "same_orders c c' \<and> pa_trades (cl_account c') = pa_trades (cl_account c) \<and> cl_futures c' = cl_futures c"
  using assms by (auto simp: sell_side_def same_orders_def Let_def split: if_splits prod.splits dest!: close_entry_frame)

lemma executeFill_Inr:
  assumes "executeFill now symbol s amount price i c = Inr (ord, fee, c')"
  obtains obs trade where "paperOrderFeeObservation (cl_quote c) fee None = Inr obs"
    "ord = market_fill now (show_nat (cl_nextOrderId c)) symbol s amount price (js_mul amount price) obs i" "pt_id trade = show_nat (cl_nextOrderId c)"
    "pa_orders (cl_account c') = pa_orders (cl_account c) @ [ord]" "pa_trades (cl_account c') = pa_trades (cl_account c) @ [trade]"
    "cl_nextOrderId c' = Suc (cl_nextOrderId c)" "cl_quote c' = cl_quote c" "cl_feeRate c' = cl_feeRate c" "cl_futures c' = cl_futures c"
proof -
  obtain asset pnl c1 obs where s: "(if s = Buy then ebind (buy_side asset amount (js_add (js_mul amount price) fee) c) (\<lambda>c. Inr (None, c))
        else sell_side asset amount price (js_mul amount price) fee c) = Inr (pnl, c1)"
    and o: "paperOrderFeeObservation (cl_quote c) fee None = Inr obs"
    and r: "ord = market_fill now (show_nat (cl_nextOrderId c1)) symbol s amount price (js_mul amount price) obs i"
      "pa_orders (cl_account c') = pa_orders (cl_account c1) @ [ord]" "\<exists>t. pt_id t = po_id ord \<and> pa_trades (cl_account c') = pa_trades (cl_account c1) @ [t]"
      "cl_nextOrderId c' = Suc (cl_nextOrderId c1)" "cl_quote c' = cl_quote c1" "cl_feeRate c' = cl_feeRate c1" "cl_futures c' = cl_futures c1"
    using assms unfolding executeFill_def Let_def ebind_Inr by (auto simp: result_simps)
  have "same_orders c c1 \<and> pa_trades (cl_account c1) = pa_trades (cl_account c) \<and> cl_futures c1 = cl_futures c"
    using s by (auto simp: result_simps split: if_splits dest: buy_side_frame sell_side_frame)
  then show thesis using that o r by (auto simp: same_orders_def)
qed

lemma buy_side_balances:
  assumes "buy_side asset amount totalCost c = Inr c'" "balances_ok (cl_account c)" "not_neg amount" shows "balances_ok (cl_account c')"
proof -
  let ?c = "credit asset amount (c\<lparr>cl_account := set_balance (cl_quote c) (js_sub (balance_of (cl_account c) (cl_quote c)) totalCost) (cl_account c)\<rparr>)"
  have "pa_balances (cl_account c') = pa_balances (cl_account ?c)" "\<not> js_lt (balance_of (cl_account c) (cl_quote c)) totalCost"
    using assms(1) by (auto simp: buy_side_def Let_def split: if_splits)
  then show ?thesis using assms(2,3) credit_ok[of "c\<lparr>cl_account := set_balance (cl_quote c) (js_sub (balance_of (cl_account c) (cl_quote c)) totalCost) (cl_account c)\<rparr>" amount asset]
    by (simp add: balances_ok_def[of "cl_account c'"] balances_ok_def[of "cl_account ?c"] set_balance_ok not_neg_sub)
qed

lemma sell_side_balances:
  assumes "sell_side asset amount price notional fee c = Inr (pnl, c')" "balances_ok (cl_account c)" "not_neg (js_sub notional fee)"
  shows "balances_ok (cl_account c')"
proof -
  let ?d = "c\<lparr>cl_account := set_balance asset (js_sub (balance_of (cl_account c) asset) amount) (cl_account c)\<rparr>"
  let ?c = "credit (cl_quote c) (js_sub notional fee) ?d"
  have "pa_balances (cl_account c') = pa_balances (cl_account ?c)" "\<not> js_lt (balance_of (cl_account c) asset) amount"
    using assms(1) by (auto simp: sell_side_def Let_def split: if_splits prod.splits dest!: close_entry_frame)
  then show ?thesis using assms(2,3) credit_ok[of ?d "js_sub notional fee" "cl_quote c"]
    by (simp add: balances_ok_def[of "cl_account c'"] balances_ok_def[of "cl_account ?c"] set_balance_ok not_neg_sub)
qed

lemma executeFill_balances:
  assumes x: "executeFill now symbol s amount price i c = Inr (ord, fee, c')" and ok: "balances_ok (cl_account c)" "fee_rate_ok (cl_feeRate c)"
    and n: "not_neg amount" "not_neg price"
  shows "balances_ok (cl_account c')"
proof -
  obtain f where f: "cl_feeRate c = Fin f" "0 \<le> f" "f < 1" using ok(2) by (auto simp: fee_rate_ok_def is_finite_iff)
  have p: "not_neg (js_sub (js_mul amount price) (js_mul (js_mul amount price) (cl_feeRate c)))"
    unfolding f(1) by (rule not_neg_sub[OF fee_below[OF f(2,3) n]])
  show ?thesis
    using x buy_side_balances[OF _ ok(1) n(1)] sell_side_balances[OF _ ok(1) p]
    by (auto simp: executeFill_def Let_def result_simps split: if_splits prod.splits)
qed


subsection \<open>Prices along a path\<close>

definition segment_ok :: "path_segment \<Rightarrow> bool" where
  "segment_ok s \<longleftrightarrow> not_neg (seg_high s) \<and> not_neg (seg_low s)"

lemma take_candles_ok:
  "list_all (valid_candle since now) cs \<Longrightarrow> list_all segment_ok (wk_path w) \<Longrightarrow> list_all segment_ok (wk_path (take_candles ord since now dur cs w))"
  by (induction ord since now dur cs w rule: take_candles.induct)
    (auto simp: segment_ok_def valid_candle_def not_neg_def is_finite_iff split: option.splits)

lemma path_pages_ok:
  "path_pages fetch ord since now tf dur n cur candles w = (Some w', cs) \<Longrightarrow> list_all segment_ok (wk_path w) \<Longrightarrow> list_all segment_ok (wk_path w')"
proof (induction n arbitrary: cur candles w)
  case 0
  then show ?case by (auto simp: path_pages.simps[of _ _ _ _ _ _ 0] Let_def valid_candles_valid split: option.splits if_splits intro!: take_candles_ok)
next
  case (Suc n)
  obtain ks where f: "fetch_page fetch (po_symbol ord) tf dur now cur candles = Some ks"
    using Suc.prems(1) by (cases "fetch_page fetch (po_symbol ord) tf dur now cur candles") (simp_all add: path_pages.simps[of _ _ _ _ _ _ "Suc n"])
  define w1 where "w1 = take_candles ord since now dur (valid_candles since now (case ks of None \<Rightarrow> [] | Some ks \<Rightarrow> ks)) w"
  have "list_all segment_ok (wk_path w1)" unfolding w1_def by (rule take_candles_ok[OF valid_candles_valid Suc.prems(2)])
  moreover have "w' = w1 \<or> path_pages fetch ord since now tf dur n (Some (wk_checkedAt w1)) ks w1 = (Some w', cs)"
    using Suc.prems(1) unfolding path_pages.simps[of _ _ _ _ _ _ "Suc n"] f option.case w1_def[symmetric] Let_def nat.case by (simp split: if_splits)
  ultimately show ?case using Suc.IH by blast
qed

lemma list_all_tl: "list_all P xs \<Longrightarrow> list_all P (tl xs)"
  by (cases xs) auto

lemma defer_tail_ok: "list_all segment_ok path \<Longrightarrow> list_all segment_ok (snd (defer_tail now t cs path))"
  by (induction now t cs path rule: defer_tail.induct) (auto intro: list_all_tl)

lemma gap_path_ok:
  assumes "gap_path fetch ord since now fs candles = (Some (path, t), cs)" shows "list_all segment_ok path"
proof -
  obtain tf dur where c: "choose_timeframe (js_div (js_sub now fs) (Fin 60000)) = (tf, dur)" by fastforce
  obtain w' ks where p: "path_pages fetch ord since now tf dur (tail_pages dur) (if candles = None then Some fs else None) candles (walk_start since) = (w', ks)" by fastforce
  then obtain w where w: "w' = Some w" "path = rev (snd (defer_tail now (wk_checkedAt w) (wk_checkpoints w) (wk_path w)))"
    using assms by (auto simp: gap_path_def c p case_prod_beta)
  then have "list_all segment_ok (wk_path w)" using path_pages_ok[OF p[unfolded w(1)]] by (simp add: walk_start_def)
  then show ?thesis unfolding w(2) list_all_rev by (rule defer_tail_ok)
qed

lemma market_path_ok:
  assumes "buildMarketPath fetch ord lst now ms cache = (Some mp, cache')" "not_neg lst" shows "list_all segment_ok (mp_segments mp)"
  using assms by (auto simp: buildMarketPath_def Let_def segment_ok_def split: prod.splits if_splits dest: gap_path_ok)

lemma trailing_level_not_neg:
  assumes "not_neg e" "is_finite p" "js_gt p (Fin 0)" "js_lt p (Fin 100)" shows "not_neg (trailingStopLevel s e p)"
proof -
  obtain x where x: "p = Fin x" "0 < x" "x < 100" using assms(2-4) by (auto simp: is_finite_iff)
  have q: "js_le (fl (x / 100)) (Fin 1)" using fl_mono[of "x / 100" 1] x(3) by simp
  have "not_neg (js_sub (Fin 1) (js_div p (Fin 100)))" using js_le_not_gt[OF q] x by (simp add: not_neg_sub)
  moreover have "not_neg (js_add (Fin 1) (js_div p (Fin 100)))" using x by (simp add: not_neg_add not_neg_fl)
  ultimately show ?thesis using assms(1) by (simp add: trailingStopLevel_def not_neg_mul)
qed

lemma walk_segment_ok:
  assumes "order_funds_ok ord" "segment_ok seg" "walk_segment ord seg = (ord', r)"
  shows "order_funds_ok ord' \<and> (\<forall>p. r = Fires p \<longrightarrow> not_neg p)"
proof (cases "po_type ord = Trailing_stop_market")
  case True
  define e where "e = (case po_trailingExtreme ord of Some e \<Rightarrow> e | None \<Rightarrow> seg_low seg)"
  have e: "not_neg e" using assms(1,2) by (auto simp: e_def order_funds_ok_def segment_ok_def given_all_def split: option.splits)
  show ?thesis
  proof (cases "po_trailingPercent ord")
    case None
    then show ?thesis using assms True by (simp add: walk_segment_def)
  next
    case (Some p)
    then have "not_neg (trailingStopLevel (po_side ord) e p)" using assms(1) e by (auto simp: order_funds_ok_def given_all_def intro: trailing_level_not_neg)
    moreover have "r = Fires (trailingStopLevel (po_side ord) e p) \<and> ord' = ord \<or>
        r = Goes_on \<and> ord' = ord\<lparr>po_trailingExtreme := Some (if po_side ord = Sell then js_max e (seg_high seg) else js_min e (seg_low seg))\<rparr>"
      using assms(3) True Some unfolding walk_segment_def e_def[symmetric] by (auto simp: Let_def e_def[symmetric] split: if_splits)
    moreover have "not_neg (if po_side ord = Sell then js_max e (seg_high seg) else js_min e (seg_low seg))"
      using e assms(2) by (simp add: segment_ok_def not_neg_max not_neg_min)
    ultimately show ?thesis using assms(1) by (auto simp: order_funds_ok_def given_all_def)
  qed
next
  case False
  then have "(ord' = ord \<or> ord' = ord\<lparr>po_triggered := Some True\<rparr>) \<and> (\<forall>p. r = Fires p \<longrightarrow> po_stopPrice ord = Some p \<or> po_price ord = Some p)"
    using assms(3) by (auto simp: walk_segment_def walk_limit_def Let_def split: option.splits if_splits)
  then show ?thesis using assms(1) by (auto simp: order_funds_ok_def given_all_def)
qed

lemma evaluate_ok:
  "evaluate_from i ord path = (ord', fire) \<Longrightarrow> order_funds_ok ord \<Longrightarrow> list_all segment_ok path \<Longrightarrow>
     order_funds_ok ord' \<and> (\<forall>k p. fire = Some (k, p) \<longrightarrow> not_neg p)"
proof (induction path arbitrary: i ord)
  case (Cons seg path)
  obtain ord1 r where w: "walk_segment ord seg = (ord1, r)" by fastforce
  show ?case using Cons walk_segment_ok[OF Cons.prems(2) _ w] w by (cases r) auto
qed simp

text \<open>What the walk of an order keeps of it.\<close>

definition same_order :: "paper_order \<Rightarrow> paper_order \<Rightarrow> bool" where
  "same_order ord ord' \<longleftrightarrow> po_id ord' = po_id ord \<and> po_ocoGroup ord' = po_ocoGroup ord \<and> po_status ord' = po_status ord \<and> po_symbol ord' = po_symbol ord \<and>
     po_side ord' = po_side ord \<and> po_amount ord' = po_amount ord \<and> po_filled ord' = po_filled ord"

lemma walk_segment_same: "walk_segment ord seg = (ord', r) \<Longrightarrow> same_order ord ord'"
  by (auto simp: walk_segment_def same_order_def Let_def split: option.splits if_splits)

lemma evaluate_same: "evaluate_from i ord path = (ord', fire) \<Longrightarrow> same_order ord ord'"
proof (induction path arbitrary: i ord)
  case (Cons seg path)
  obtain ord1 r where w: "walk_segment ord seg = (ord1, r)" by fastforce
  show ?case using Cons walk_segment_same[OF w] w by (cases r) (auto simp: same_order_def)
qed (simp add: same_order_def)

lemma advance_same: "same_order ord (advanceCheckedAt ord t)" "order_funds_ok (advanceCheckedAt ord t) = order_funds_ok ord"
  by (auto simp: advanceCheckedAt_def same_order_def order_funds_ok_def)


section \<open>The orders of a ledger\<close>

text \<open>Ids are distinct and the next ones are unused; a group is numbered by an id that was given out; a group that has a filled leg has no other leg that is open or filled.\<close>

definition group_of :: "paper_order \<Rightarrow> string option" where
  "group_of ord = truthy (po_ocoGroup ord)"

definition group_numbered :: "paper_order \<Rightarrow> bool" where
  "group_numbered x \<longleftrightarrow> (\<forall>k. group_of x = Some (''oco-'' @ show_nat k) \<longrightarrow> (\<exists>j \<ge> k. po_id x = show_nat j))"

definition ids_ok :: "paper_client \<Rightarrow> bool" where
  "ids_ok c \<longleftrightarrow>
     distinct (map po_id (pa_orders (cl_account c))) \<and> (\<forall>n \<ge> cl_nextOrderId c. show_nat n \<notin> po_id ` set (pa_orders (cl_account c))) \<and>
     (\<forall>x \<in> set (pa_orders (cl_account c)). group_numbered x)"

definition oco_ok :: "paper_order list \<Rightarrow> bool" where
  "oco_ok os \<longleftrightarrow> (\<forall>x \<in> set os. \<forall>y \<in> set os. group_of x \<noteq> None \<and> group_of x = group_of y \<and> po_id x \<noteq> po_id y \<and> po_status x = PO_closed \<longrightarrow> po_status y = PO_canceled)"

text \<open>How the orders of a ledger may change: no order is lost, its group stays, and a closed or cancelled one stays as it is.\<close>

definition orders_evolve :: "paper_order list \<Rightarrow> paper_order list \<Rightarrow> bool" where
  "orders_evolve os os' \<longleftrightarrow>
     (\<forall>x \<in> set os. \<exists>y \<in> set os'. po_id y = po_id x \<and> group_of y = group_of x \<and> (po_status x \<noteq> PO_open \<longrightarrow> y = x))"

lemma evolve_refl: "orders_evolve os os"
  by (auto simp: orders_evolve_def)

lemma evolve_trans: "orders_evolve os os1 \<Longrightarrow> orders_evolve os1 os2 \<Longrightarrow> orders_evolve os os2"
  by (fastforce simp: orders_evolve_def)

lemma evolve_append: "orders_evolve os (os @ os1)"
  by (auto simp: orders_evolve_def)

text \<open>The good states of the ledger, and what every step promises.\<close>

definition good :: "paper_client \<Rightarrow> bool" where
  "good c \<longleftrightarrow> funds_ok c \<and> ids_ok c \<and> oco_ok (pa_orders (cl_account c))"

definition step_ok :: "paper_client \<Rightarrow> paper_client \<Rightarrow> bool" where
  "step_ok c c' \<longleftrightarrow> good c' \<and> orders_evolve (pa_orders (cl_account c)) (pa_orders (cl_account c')) \<and> cl_quote c' = cl_quote c \<and> cl_feeRate c' = cl_feeRate c \<and>
     cl_nextOrderId c \<le> cl_nextOrderId c'"

lemma step_ok_refl: "good c \<Longrightarrow> step_ok c c"
  by (simp add: step_ok_def evolve_refl)

lemma step_ok_trans: "step_ok c c1 \<Longrightarrow> step_ok c1 c2 \<Longrightarrow> step_ok c c2"
  by (auto simp: step_ok_def intro: evolve_trans)

subsection \<open>Replacing one order\<close>

lemma put_order_orders: "pa_orders (put_order ord a) = map (\<lambda>x. if po_id x = po_id ord then ord else x) (pa_orders a)"
  by (simp add: put_order_def)

lemma put_client_frame [simp]: "cl_quote (put_client_order ord c) = cl_quote c" "cl_feeRate (put_client_order ord c) = cl_feeRate c"
  "cl_nextOrderId (put_client_order ord c) = cl_nextOrderId c" "cl_account (put_client_order ord c) = put_order ord (cl_account c)"
  by (simp_all add: put_client_order_def)

lemma balances_put [simp]: "balances_ok (put_order ord a) = balances_ok a"
  by (simp add: put_order_def)

lemma same_id_same: "distinct (map po_id os) \<Longrightarrow> x \<in> set os \<Longrightarrow> y \<in> set os \<Longrightarrow> po_id x = po_id y \<Longrightarrow> x = y"
  by (auto simp: distinct_map dest: inj_onD)

lemma order_at_mem: "order_at a i = Some ord \<Longrightarrow> ord \<in> set (pa_orders a) \<and> po_id ord = i"
  by (auto simp: order_at_def find_Some_iff)

text \<open>A ledger whose orders are changed one by one, each open one at most to an open or cancelled order of the same id and group.\<close>

definition harmless :: "paper_order \<Rightarrow> paper_order \<Rightarrow> bool" where
  "harmless x y \<longleftrightarrow> po_id y = po_id x \<and> group_of y = group_of x \<and> (order_funds_ok x \<longrightarrow> order_funds_ok y) \<and>
     (y = x \<or> po_status x = PO_open \<and> po_status y \<noteq> PO_closed)"

lemma harmless_map:
  assumes g: "good c" and h: "\<And>x. x \<in> set (pa_orders (cl_account c)) \<Longrightarrow> harmless x (f x)"
    and o: "pa_orders (cl_account c') = map f (pa_orders (cl_account c))" and b: "balances_ok (cl_account c')"
    and r: "cl_quote c' = cl_quote c" "cl_feeRate c' = cl_feeRate c" "cl_nextOrderId c' = cl_nextOrderId c"
  shows "step_ok c c'"
proof -
  let ?os = "pa_orders (cl_account c)"
  have i: "map po_id (map f ?os) = map po_id ?os" using h by (simp add: harmless_def)
  then have "po_id ` set (map f ?os) = po_id ` set ?os" by (metis set_map)
  moreover have "\<forall>x \<in> set (map f ?os). group_numbered x" using g h by (auto simp: good_def ids_ok_def harmless_def group_numbered_def)
  ultimately have ids: "ids_ok c'" using g i o r(3) by (simp add: good_def ids_ok_def del: map_map)
  have "list_all order_funds_ok (map f ?os)" using g h by (auto simp: good_def funds_ok_def list_all_iff harmless_def)
  then have fu: "funds_ok c'" using g b o r by (simp add: good_def funds_ok_def)
  have "oco_ok (map f ?os)"
    unfolding oco_ok_def
  proof (intro ballI impI)
    fix u v assume uv: "u \<in> set (map f ?os)" "v \<in> set (map f ?os)"
      and p: "group_of u \<noteq> None \<and> group_of u = group_of v \<and> po_id u \<noteq> po_id v \<and> po_status u = PO_closed"
    then obtain x y where x: "x \<in> set ?os" "u = f x" and y: "y \<in> set ?os" "v = f y" by auto
    have "u = x" using p h[OF x(1)] x(2) by (auto simp: harmless_def)
    then have "group_of x \<noteq> None \<and> group_of x = group_of y \<and> po_id x \<noteq> po_id y \<and> po_status x = PO_closed"
      using p h[OF y(1)] y(2) by (auto simp: harmless_def)
    moreover have "oco_ok ?os" using g by (simp add: good_def)
    ultimately have "po_status y = PO_canceled" using x(1) y(1) unfolding oco_ok_def by blast
    then show "po_status v = PO_canceled" using h[OF y(1)] y(2) by (auto simp: harmless_def)
  qed
  moreover have "orders_evolve ?os (map f ?os)" using h by (fastforce simp: orders_evolve_def harmless_def)
  ultimately show ?thesis using ids fu r o by (simp add: step_ok_def good_def)
qed

lemma put_step:
  assumes "good c" "order_at (cl_account c) i = Some ord" "harmless ord ord'" shows "step_ok c (put_client_order ord' c)"
proof (rule harmless_map[OF assms(1), where f = "\<lambda>x. if po_id x = po_id ord' then ord' else x"])
  have m: "ord \<in> set (pa_orders (cl_account c))" "po_id ord' = po_id ord" using order_at_mem[OF assms(2)] assms(3) by (auto simp: harmless_def)
  fix x assume "x \<in> set (pa_orders (cl_account c))"
  then show "harmless x (if po_id x = po_id ord' then ord' else x)"
    using m assms(1,3) same_id_same[of "pa_orders (cl_account c)" x ord] by (auto simp: good_def ids_ok_def harmless_def)
qed (use assms(1) in \<open>simp_all add: put_order_orders good_def funds_ok_def\<close>)


subsection \<open>Settlement\<close>

lemma group_margin [simp]: "group_of (ord\<lparr>po_reservedMargin := m\<rparr>) = group_of ord" "group_of (ord\<lparr>po_status := s\<rparr>) = group_of ord"
  by (simp_all add: group_of_def)

lemma cancel_siblings_orders:
  "pa_orders (cancel_siblings ord a) =
     map (\<lambda>x. if group_of ord \<noteq> None \<and> po_ocoGroup x = group_of ord \<and> po_id x \<noteq> po_id ord \<and> po_status x = PO_open then x\<lparr>po_status := PO_canceled\<rparr> else x) (pa_orders a)"
  by (auto simp: cancel_siblings_def group_of_def split: option.splits)

lemma balances_cancel [simp]: "balances_ok (cancel_siblings ord a) = balances_ok a" "balances_ok (cancel_group ord a) = balances_ok a"
  by (auto simp: cancel_siblings_def cancel_group_def split: option.splits)

lemma group_of_Some: "group_of x = Some g \<longleftrightarrow> po_ocoGroup x = Some g \<and> g \<noteq> []"
  by (auto simp: group_of_def truthy_def split: option.splits if_splits)

lemma filled_order_fields [simp]: "po_id (filled_order ord cost obs) = po_id ord" "group_of (filled_order ord cost obs) = group_of ord"
  "po_status (filled_order ord cost obs) = PO_closed"
  by (simp_all add: filled_order_def group_of_def)

lemma filled_order_funds: "order_funds_ok ord \<Longrightarrow> order_funds_ok (filled_order ord cost obs)"
  by (simp add: order_funds_ok_def filled_order_def)

text \<open>The orders after a fill: the siblings cancelled, the order closed and moved to the end.\<close>

lemma filter_other_ids:
  assumes "\<And>x. po_id (f x) = po_id x" "\<And>x. po_id x \<noteq> i \<Longrightarrow> f x = g x" "\<And>x. po_id (g x) = po_id x"
  shows "filter (\<lambda>x. po_id x \<noteq> i) (map f os) = filter (\<lambda>x. po_id x \<noteq> i) (map g os)"
  using assms by (induction os) auto

lemma fill_orders:
  assumes f: "fillRestingOrder now ord p c = Inr c'" and g: "good c" and o: "order_at (cl_account c) i = Some ord"
  shows "\<exists>m cost obs. pa_orders (cl_account c') =
        filter (\<lambda>x. po_id x \<noteq> po_id ord) (pa_orders (cancel_siblings ord (cl_account c))) @ [filled_order (ord\<lparr>po_reservedMargin := m\<rparr>) cost obs]"
    and "cl_nextOrderId c' = Suc (cl_nextOrderId c)" "cl_quote c' = cl_quote c" "cl_feeRate c' = cl_feeRate c" "not_neg p \<Longrightarrow> balances_ok (cl_account c')"
proof -
  obtain ord1 c1 fill fee c3 obs where r: "releaseReservation ord c = Inr (ord1, c1)"
    and x: "executeFill now (po_symbol ord1) (po_side ord1) (js_sub (po_amount ord1) (po_filled ord1)) p None
       (put_client_order ord1 c1\<lparr>cl_account := cancel_siblings ord1 (put_order ord1 (cl_account c1))\<rparr>) = Inr (fill, fee, c3)"
    and c': "c' = c3\<lparr>cl_account := (cl_account c3)\<lparr>pa_orders := filter (\<lambda>x. po_id x \<noteq> po_id ord1) (filter (\<lambda>x. po_id x \<noteq> po_id fill) (pa_orders (cl_account c3))) @
        [filled_order ord1 (po_cost fill) obs]\<rparr>\<rparr>"
    using f unfolding fillRestingOrder_def Let_def ebind_Inr emap_error_Inr by (auto simp: result_simps)
  obtain m where m: "ord1 = ord\<lparr>po_reservedMargin := m\<rparr>" and s: "same_orders c c1" using release_same[OF r] by blast
  have fresh: "show_nat (cl_nextOrderId c) \<notin> po_id ` set (pa_orders (cl_account c))" using g by (auto simp: good_def ids_ok_def)
  let ?c2 = "put_client_order ord1 c1\<lparr>cl_account := cancel_siblings ord1 (put_order ord1 (cl_account c1))\<rparr>"
  have q: "pa_orders (cl_account c3) = pa_orders (cl_account ?c2) @ [fill]" "po_id fill = show_nat (cl_nextOrderId c)"
    "cl_nextOrderId c3 = Suc (cl_nextOrderId c)" "cl_quote c3 = cl_quote c" "cl_feeRate c3 = cl_feeRate c"
    by (rule executeFill_Inr[OF x], use s in \<open>simp add: same_orders_def\<close>)+
  have o2: "filter (\<lambda>x. po_id x \<noteq> po_id fill) (pa_orders (cl_account c3)) = pa_orders (cl_account ?c2)"
  proof -
    have "\<forall>y \<in> set (pa_orders (cl_account ?c2)). po_id y \<noteq> po_id fill"
      using fresh s unfolding q(2) by (auto simp: cancel_siblings_orders put_order_orders same_orders_def image_iff)
    then show ?thesis unfolding q(1) by (simp add: filter_id_conv)
  qed
  have "filter (\<lambda>x. po_id x \<noteq> po_id ord) (pa_orders (cl_account ?c2)) = filter (\<lambda>x. po_id x \<noteq> po_id ord) (pa_orders (cancel_siblings ord (cl_account c)))"
    using s by (simp add: cancel_siblings_orders put_order_orders same_orders_def m o_def) (rule filter_other_ids, auto)
  then show "\<exists>m cost obs. pa_orders (cl_account c') =
        filter (\<lambda>x. po_id x \<noteq> po_id ord) (pa_orders (cancel_siblings ord (cl_account c))) @ [filled_order (ord\<lparr>po_reservedMargin := m\<rparr>) cost obs]"
    unfolding c' o2 m by auto
  show "cl_nextOrderId c' = Suc (cl_nextOrderId c)" "cl_quote c' = cl_quote c" "cl_feeRate c' = cl_feeRate c" using q c' by simp_all
  have fo: "order_funds_ok ord" "fee_rate_ok (cl_feeRate c)" "balances_ok (cl_account c)"
    using g order_at_mem[OF o] by (auto simp: good_def funds_ok_def list_all_iff)
  have "balances_ok (cl_account ?c2)" using release_balances[OF r fo(3,2,1)] by simp
  then show "balances_ok (cl_account c')" if "not_neg p"
    using executeFill_balances[OF x] fo remaining_not_neg[of ord] s that c' by (simp add: m same_orders_def)
qed


definition cancelled_sibling :: "paper_order \<Rightarrow> paper_order \<Rightarrow> paper_order" where
  "cancelled_sibling ord x =
     (if group_of ord \<noteq> None \<and> po_ocoGroup x = group_of ord \<and> po_id x \<noteq> po_id ord \<and> po_status x = PO_open then x\<lparr>po_status := PO_canceled\<rparr> else x)"

lemma cancelled_sibling_simps [simp]: "po_id (cancelled_sibling ord x) = po_id x" "group_of (cancelled_sibling ord x) = group_of x"
  "order_funds_ok (cancelled_sibling ord x) = order_funds_ok x" "po_status x \<noteq> PO_open \<Longrightarrow> cancelled_sibling ord x = x"
  "po_status (cancelled_sibling ord x) = PO_closed \<longleftrightarrow> po_status x = PO_closed"
  by (simp_all add: cancelled_sibling_def)

lemma sibling_cancelled:
  "group_of x = group_of ord \<Longrightarrow> group_of ord \<noteq> None \<Longrightarrow> po_id x \<noteq> po_id ord \<Longrightarrow> po_status x = PO_open \<Longrightarrow> po_status (cancelled_sibling ord x) = PO_canceled"
  using group_of_Some[of x] by (cases "group_of ord") (auto simp: cancelled_sibling_def)

lemma oco_after_fill:
  assumes "oco_ok os" "ord \<in> set os" "po_status ord = PO_open" "po_id F = po_id ord" "group_of F = group_of ord" "po_status F = PO_closed"
  shows "oco_ok (filter (\<lambda>x. po_id x \<noteq> po_id ord) (map (cancelled_sibling ord) os) @ [F])"
proof -
  have no_closed: "po_status x \<noteq> PO_closed" if "x \<in> set os" "group_of x = group_of ord" "group_of ord \<noteq> None" "po_id x \<noteq> po_id ord" for x
  proof
    assume "po_status x = PO_closed"
    then have "po_status ord = PO_canceled" using assms(1,2) that unfolding oco_ok_def by metis
    then show False using assms(3) by simp
  qed
  show ?thesis
    unfolding oco_ok_def
  proof (intro ballI impI)
    let ?os = "filter (\<lambda>x. po_id x \<noteq> po_id ord) (map (cancelled_sibling ord) os) @ [F]"
    fix u v assume uv: "u \<in> set ?os" "v \<in> set ?os"
      and p: "group_of u \<noteq> None \<and> group_of u = group_of v \<and> po_id u \<noteq> po_id v \<and> po_status u = PO_closed"
    have c: "w = F \<or> (\<exists>x. w = cancelled_sibling ord x \<and> x \<in> set os \<and> po_id x \<noteq> po_id ord)" if "w \<in> set ?os" for w
      using that by auto
    consider (first) y where "u = F" "v = cancelled_sibling ord y" "y \<in> set os" "po_id y \<noteq> po_id ord"
      | (second) x where "v = F" "u = cancelled_sibling ord x" "x \<in> set os" "po_id x \<noteq> po_id ord"
      | (both) x y where "u = cancelled_sibling ord x" "v = cancelled_sibling ord y" "x \<in> set os" "y \<in> set os"
      using c[OF uv(1)] c[OF uv(2)] p by blast
    then show "po_status v = PO_canceled"
    proof cases
      case first
      then have y: "group_of y = group_of ord" "group_of ord \<noteq> None" using p assms(5) by auto
      then show ?thesis using first no_closed[of y] sibling_cancelled[of y ord] by (cases "po_status y") auto
    next
      case second
      then show ?thesis using p no_closed[of x] assms(5) by auto
    next
      case both
      then have "po_status y = PO_canceled" using p assms(1) unfolding oco_ok_def by (metis cancelled_sibling_simps(1,2,5))
      then show ?thesis using both by simp
    qed
  qed
qed

lemma fill_step:
  assumes f: "fillRestingOrder now ord p c = Inr c'" and g: "good c" and o: "order_at (cl_account c) i = Some ord" and op: "po_status ord = PO_open" and p: "not_neg p"
  shows "step_ok c c'"
proof -
  let ?os = "pa_orders (cl_account c)"
  note r = fill_orders[OF f g o]
  obtain m cost obs where os': "pa_orders (cl_account c') =
      filter (\<lambda>x. po_id x \<noteq> po_id ord) (map (cancelled_sibling ord) ?os) @ [filled_order (ord\<lparr>po_reservedMargin := m\<rparr>) cost obs]"
    using r(1) by (auto simp: cancel_siblings_orders cancelled_sibling_def[abs_def])
  let ?F = "filled_order (ord\<lparr>po_reservedMargin := m\<rparr>) cost obs"
  have F: "po_id ?F = po_id ord" "group_of ?F = group_of ord" "po_status ?F = PO_closed" by simp_all
  have gd: "funds_ok c" "ids_ok c" "oco_ok ?os" using g by (simp_all add: good_def)
  have mem: "ord \<in> set ?os" "order_funds_ok ord" using order_at_mem[OF o] gd(1) by (auto simp: funds_ok_def list_all_iff)
  have "distinct (map po_id (filter (\<lambda>x. po_id x \<noteq> po_id ord) (map (cancelled_sibling ord) ?os)))"
    using gd(2) by (auto simp: ids_ok_def o_def intro!: distinct_map_filter)
  moreover have "po_id ` set (pa_orders (cl_account c')) \<subseteq> po_id ` set ?os" using mem(1) by (auto simp: os')
  moreover have "\<forall>x \<in> set (pa_orders (cl_account c')). group_numbered x" using gd(2) mem(1) F(1,2) by (auto simp: os' ids_ok_def group_numbered_def)
  ultimately have ids: "ids_ok c'" using gd(2) r(2) by (auto simp: ids_ok_def os' dest: Suc_leD)
  have "funds_ok c'" using gd(1) r(2-5) mem p filled_order_funds[of "ord\<lparr>po_reservedMargin := m\<rparr>"] by (auto simp: funds_ok_def os' list_all_iff)
  moreover have "oco_ok (pa_orders (cl_account c'))" unfolding os' by (rule oco_after_fill[OF gd(3) mem(1) op F])
  moreover have "orders_evolve ?os (pa_orders (cl_account c'))"
    unfolding orders_evolve_def
  proof
    fix x assume x: "x \<in> set ?os"
    show "\<exists>y \<in> set (pa_orders (cl_account c')). po_id y = po_id x \<and> group_of y = group_of x \<and> (po_status x \<noteq> PO_open \<longrightarrow> y = x)"
    proof (cases "po_id x = po_id ord")
      case True
      then have "x = ord" using same_id_same[of ?os x ord] x mem gd(2) by (simp add: ids_ok_def)
      then show ?thesis using op by (auto simp: os')
    next
      case False
      then show ?thesis using x unfolding os' by (intro bexI[of _ "cancelled_sibling ord x"]) auto
    qed
  qed
  ultimately show ?thesis using ids r by (simp add: step_ok_def good_def)
qed


lemma same_order_harmless:
  "same_order x y \<Longrightarrow> (order_funds_ok x \<longrightarrow> order_funds_ok y) \<Longrightarrow> po_status x = PO_open \<Longrightarrow> harmless x y"
  by (auto simp: same_order_def harmless_def group_of_def)

lemma walked_order:
  assumes "evaluatePath ord path = (ord1, fire)" "order_funds_ok ord" "list_all segment_ok path"
  shows "same_order ord (advanceCheckedAt ord1 t)" "order_funds_ok (advanceCheckedAt ord1 t)"
  using evaluate_same[of 0 ord path ord1 fire] evaluate_ok[of 0 ord path ord1 fire] advance_same[of ord1 t] assms
  by (auto simp: evaluatePath_def same_order_def)

lemma walked_price:
  "evaluatePath ord path = (ord1, Some (k, p)) \<Longrightarrow> order_funds_ok ord \<Longrightarrow> list_all segment_ok path \<Longrightarrow> not_neg p"
  using evaluate_ok[of 0 ord path ord1 "Some (k, p)"] by (simp add: evaluatePath_def)

lemma open_leg_at: "i \<in> set (open_legs a is g) \<Longrightarrow> is_open_at a i"
  by (auto simp: open_legs_def is_open_at_def split: option.splits)

lemma order_at_put:
  "order_at a (po_id ord) \<noteq> None \<Longrightarrow> order_at (put_order ord a) i = (if i = po_id ord then Some ord else order_at a i)"
proof -
  have f: "find (\<lambda>x. po_id x = i) (map (\<lambda>x. if po_id x = po_id ord then ord else x) os) =
      (if i = po_id ord then (if find (\<lambda>x. po_id x = i) os = None then None else Some ord) else find (\<lambda>x. po_id x = i) os)" for os
    by (induction os) auto
  assume "order_at a (po_id ord) \<noteq> None"
  then show ?thesis by (auto simp: order_at_def put_order_orders f)
qed

text \<open>Along the legs of a group the ledger stays good, the legs stay open, and the winner is the leg as it is in the ledger.\<close>

definition winner_ok :: "paper_client \<Rightarrow> (paper_order \<times> nat \<times> jsnum) option \<Rightarrow> bool" where
  "winner_ok c winner = (case winner of None \<Rightarrow> True | Some (leg, _, p) \<Rightarrow> order_at (cl_account c) (po_id leg) = Some leg \<and> po_status leg = PO_open \<and> not_neg p)"

lemma client_same: "c\<lparr>cl_account := cl_account c\<rparr> = c"
  by simp

lemma walk_legs_step:
  assumes "list_all segment_ok path" "good c" "\<forall>i \<in> set is. is_open_at (cl_account c) i" "distinct is" "winner_ok c winner"
    "\<forall>leg k p. winner = Some (leg, k, p) \<longrightarrow> po_id leg \<notin> set is"
    "walk_legs path t is (cl_account c) winner = (a', winner')"
  shows "step_ok c (c\<lparr>cl_account := a'\<rparr>) \<and> winner_ok (c\<lparr>cl_account := a'\<rparr>) winner'"
  using assms(2-)
proof (induction "is" arbitrary: c winner)
  case Nil
  then show ?case using client_same[of c] by (auto simp: step_ok_refl)
next
  case (Cons i "is")
  obtain leg where l: "order_at (cl_account c) i = Some leg" "po_status leg = PO_open" using Cons.prems(2) by (auto simp: is_open_at_def split: option.splits)
  have id: "po_id leg = i" "leg \<in> set (pa_orders (cl_account c))" using order_at_mem[OF l(1)] by auto
  then have fo: "order_funds_ok leg" using Cons.prems(1) by (auto simp: good_def funds_ok_def list_all_iff)
  obtain leg1 fire where e: "evaluatePath leg path = (leg1, fire)" by fastforce
  define leg2 where "leg2 = advanceCheckedAt leg1 t"
  define w where "w = (case fire of None \<Rightarrow> winner
      | Some (idx, p) \<Rightarrow> (case winner of None \<Rightarrow> Some (leg2, idx, p) | Some (_, k, _) \<Rightarrow> if idx < k then Some (leg2, idx, p) else winner))"
  note wo = walked_order[OF e fo assms(1), where t = t, folded leg2_def]
  let ?c = "put_client_order leg2 c"
  have st: "step_ok c ?c" by (rule put_step[OF Cons.prems(1) l(1) same_order_harmless[OF wo(1) _ l(2)]]) (use wo(2) in simp)
  have p2: "po_id leg2 = i" "po_status leg2 = PO_open" using wo(1) id l(2) by (auto simp: same_order_def)
  have at: "order_at (put_order leg2 (cl_account c)) j = (if j = i then Some leg2 else order_at (cl_account c) j)" for j
    using order_at_put[of "cl_account c" leg2 j] p2 l(1) by simp
  have o: "\<forall>j \<in> set is. is_open_at (cl_account ?c) j" using Cons.prems(2,3) by (auto simp: is_open_at_def at)
  have wk: "winner_ok ?c w" "\<forall>leg k p. w = Some (leg, k, p) \<longrightarrow> po_id leg \<notin> set is"
    using Cons.prems(3,4,5) walked_price[OF _ fo assms(1)] e p2 by (auto simp: w_def winner_ok_def at split: option.splits)
  have "walk_legs path t is (cl_account ?c) w = (a', winner')"
    using Cons.prems(6) unfolding w_def leg2_def by (simp add: l(1) e Let_def)
  then have "step_ok ?c (?c\<lparr>cl_account := a'\<rparr>) \<and> winner_ok (?c\<lparr>cl_account := a'\<rparr>) winner'"
    using Cons.IH[of ?c w] st o wk Cons.prems(3) by (simp add: step_ok_def)
  then show ?case using step_ok_trans[OF st] by (simp add: put_client_order_def)
qed

lemma settle_one_step:
  assumes s: "settle_one mv ms ids i (cache, dirty, c) = Inr (cache', dirty', c')" and g: "good c" and d: "distinct ids"
  shows "step_ok c c'"
proof (cases "order_at (cl_account c) i")
  case None
  then show ?thesis using s g by (simp add: settle_one_def step_ok_refl)
next
  case (Some ord)
  show ?thesis
  proof (cases "po_status ord = PO_open")
    case False
    then show ?thesis using s g Some by (simp add: settle_one_def step_ok_refl)
  next
    case op: True
    obtain lst mp cache1 where l: "mv_settleTicker mv (po_symbol ord) = Some lst" "isFinitePositive lst"
      and b: "buildMarketPath (mv_ohlcv mv) ord (the lst) (mv_now mv) ms cache = (Some mp, cache1)"
      using s Some op by (auto simp: settle_one_def result_simps split: option.splits prod.splits if_splits)
    have "not_neg (the lst)" using l(2) by (auto simp: isFinitePositive_def not_neg_def is_finite_iff split: option.splits)
    note path = market_path_ok[OF b this]
    note mem = order_at_mem[OF Some]
    have fo: "order_funds_ok ord" using mem g by (auto simp: good_def funds_ok_def list_all_iff)
    show ?thesis
    proof (cases "truthy (po_ocoGroup ord)")
      case (Some grp)
      obtain a winner where w: "walk_legs (mp_segments mp) (mp_checkedAt mp) (open_legs (cl_account c) ids grp) (cl_account c) None = (a, winner)" by fastforce
      have st: "step_ok c (c\<lparr>cl_account := a\<rparr>)" "winner_ok (c\<lparr>cl_account := a\<rparr>) winner"
        using walk_legs_step[OF path g _ _ _ _ w] open_leg_at d by (auto simp: winner_ok_def open_legs_def)
      have "c' = c\<lparr>cl_account := a\<rparr> \<or> (\<exists>leg k p. winner = Some (leg, k, p) \<and> fillRestingOrder (mv_now mv) leg p (c\<lparr>cl_account := a\<rparr>) = Inr c')"
        using s \<open>order_at (cl_account c) i = Some ord\<close> op l b w Some by (auto simp: settle_one_def Let_def result_simps split: option.splits)
      moreover have "step_ok (c\<lparr>cl_account := a\<rparr>) c'" if "winner = Some (leg, k, p)" "fillRestingOrder (mv_now mv) leg p (c\<lparr>cl_account := a\<rparr>) = Inr c'" for leg k p
        using fill_step[OF that(2), of "po_id leg"] st that(1) by (simp add: winner_ok_def step_ok_def)
      ultimately show ?thesis using st(1) step_ok_trans[OF st(1)] by blast
    next
      case None
      obtain ord1 fire where e: "evaluatePath ord (mp_segments mp) = (ord1, fire)" by fastforce
      let ?o = "advanceCheckedAt ord1 (mp_checkedAt mp)"
      note wo = walked_order[OF e fo path, where t = "mp_checkedAt mp"]
      have st: "step_ok c (put_client_order ?o c)" by (rule put_step[OF g Some same_order_harmless[OF wo(1) _ op]]) (use wo(2) in simp)
      have at: "order_at (cl_account (put_client_order ?o c)) i = Some ?o" "po_status ?o = PO_open"
        using order_at_put[of "cl_account c" ?o i] wo(1) mem Some op by (auto simp: same_order_def)
      have "c' = put_client_order ?o c \<or> (\<exists>k p. fire = Some (k, p) \<and> fillRestingOrder (mv_now mv) ?o p (put_client_order ?o c) = Inr c')"
        using s Some op l b e None by (auto simp: settle_one_def Let_def result_simps split: option.splits)
      moreover have "step_ok (put_client_order ?o c) c'" if "fire = Some (k, p)" "fillRestingOrder (mv_now mv) ?o p (put_client_order ?o c) = Inr c'" for k p
        using fill_step[OF that(2) _ at walked_price[OF e[unfolded that(1)] fo path]] st by (simp add: step_ok_def)
      ultimately show ?thesis using st step_ok_trans[OF st] by blast
    qed
  qed
qed

lemma settle_step:
  assumes "settleAccountOpenOrders mv c = Inr (dirty, c')" "good c" shows "step_ok c c'"
proof -
  have f: "efold (settle_one mv ms ids) is (cache, d, c) = Inr (cache', d', c') \<Longrightarrow> good c \<Longrightarrow> distinct ids \<Longrightarrow> step_ok c c'" for ms ids "is" cache d c cache' d' c'
  proof (induction "is" arbitrary: cache d c)
    case Nil
    then show ?case by (simp add: step_ok_refl)
  next
    case (Cons i "is")
    then obtain cache1 d1 c1 where s: "settle_one mv ms ids i (cache, d, c) = Inr (cache1, d1, c1)" "efold (settle_one mv ms ids) is (cache1, d1, c1) = Inr (cache', d', c')"
      by (auto simp: result_simps)
    then have "step_ok c c1" using settle_one_step Cons.prems by blast
    moreover from this have "step_ok c1 c'" using Cons.IH[OF s(2) _ Cons.prems(3)] by (simp add: step_ok_def)
    ultimately show ?case by (rule step_ok_trans)
  qed
  have "distinct (map po_id (filter (\<lambda>x. po_status x = PO_open) (pa_orders (cl_account c))))"
    using assms(2) by (auto simp: good_def ids_ok_def intro: distinct_map_filter)
  then show ?thesis using assms f by (auto simp: settleAccountOpenOrders_def Let_def result_simps step_ok_refl split: if_splits)
qed


lemma show_nat_eq: "show_nat i = show_nat j \<longleftrightarrow> i = j"
  by (metis of_nat_eq_iff show_nat_digits(3))

subsection \<open>Adding orders\<close>

lemma id_unused: "ids_ok c \<Longrightarrow> cl_nextOrderId c \<le> n \<Longrightarrow> x \<in> set (pa_orders (cl_account c)) \<Longrightarrow> po_id x \<noteq> show_nat n"
  unfolding ids_ok_def by (metis image_eqI)

lemma fresh_group:
  assumes "ids_ok c" "cl_nextOrderId c \<le> n" "x \<in> set (pa_orders (cl_account c))" shows "group_of x \<noteq> Some (''oco-'' @ show_nat n)"
proof
  assume "group_of x = Some (''oco-'' @ show_nat n)"
  then obtain j where "n \<le> j" "po_id x = show_nat j" using assms(1,3) unfolding ids_ok_def group_numbered_def by blast
  then show False using id_unused[OF assms(1) _ assms(3), of j] assms(2) by simp
qed

text \<open>Orders with the next ids are appended; one with a group is open and its group is new.\<close>

lemma push_step:
  assumes g: "good c" and b: "balances_ok (cl_account c')" and r: "cl_quote c' = cl_quote c" "cl_feeRate c' = cl_feeRate c"
    and o: "pa_orders (cl_account c') = pa_orders (cl_account c) @ os" and n: "cl_nextOrderId c' = cl_nextOrderId c + length os"
    and i: "map po_id os = map show_nat [cl_nextOrderId c..<cl_nextOrderId c + length os]"
    and f: "list_all order_funds_ok os"
    and gr: "\<forall>x \<in> set os. group_of x = None \<or> po_status x = PO_open \<and> group_of x = Some (''oco-'' @ show_nat (cl_nextOrderId c))"
  shows "step_ok c c'"
proof -
  let ?n = "cl_nextOrderId c" let ?old = "pa_orders (cl_account c)"
  have gd: "funds_ok c" "ids_ok c" "oco_ok ?old" using g by (simp_all add: good_def)
  have ids: "po_id ` set os = show_nat ` {?n..<?n + length os}" using i by (metis list.set_map set_upt)
  have "po_id ` set ?old \<inter> po_id ` set os = {}" unfolding ids using id_unused[OF gd(2)] by auto
  moreover have "distinct (map po_id os)" unfolding i by (simp add: distinct_map inj_on_def show_nat_eq)
  ultimately have d: "distinct (map po_id (?old @ os))" using gd(2) by (simp add: ids_ok_def)
  have fr: "show_nat m \<notin> po_id ` set (?old @ os)" if "?n + length os \<le> m" for m
    using that id_unused[OF gd(2), of m] unfolding set_append image_Un ids by (fastforce simp: show_nat_eq)
  have "\<exists>j \<ge> ?n. po_id x = show_nat j" if "x \<in> set os" for x
    using that ids by (metis (no_types, lifting) atLeastLessThan_iff image_iff)
  then have gn: "\<forall>x \<in> set (?old @ os). group_numbered x"
    using gd(2) gr unfolding ids_ok_def group_numbered_def by (fastforce simp: show_nat_eq)
  have "oco_ok (?old @ os)"
    unfolding oco_ok_def
  proof (intro ballI impI)
    fix x y assume xy: "x \<in> set (?old @ os)" "y \<in> set (?old @ os)" "group_of x \<noteq> None \<and> group_of x = group_of y \<and> po_id x \<noteq> po_id y \<and> po_status x = PO_closed"
    then have x: "x \<in> set ?old" using gr by auto
    then have "group_of x \<noteq> Some (''oco-'' @ show_nat ?n)" by (rule fresh_group[OF gd(2) order.refl])
    then have "y \<in> set ?old" using xy gr by auto
    then show "po_status y = PO_canceled" using xy x gd(3) unfolding oco_ok_def by blast
  qed
  then show ?thesis
    using gd(1) d fr gn b r f n unfolding step_ok_def good_def funds_ok_def ids_ok_def o by (simp add: evolve_append)
qed

lemma market_fill_order: "not_neg amount \<Longrightarrow> order_funds_ok (market_fill now i symbol s amount price notional obs cid)"
  "group_of (market_fill now i symbol s amount price notional obs cid) = None"
  by (simp_all add: market_fill_def order_funds_ok_def group_of_def truthy_def given_all_def)

lemma executeFill_step:
  assumes x: "executeFill now symbol s amount price i c = Inr (ord, fee, c')" and g: "good c" and n: "not_neg amount" "not_neg price"
  shows "step_ok c c'"
proof (rule executeFill_Inr[OF x])
  fix obs trade
  assume o: "ord = market_fill now (show_nat (cl_nextOrderId c)) symbol s amount price (js_mul amount price) obs i"
    and r: "pa_orders (cl_account c') = pa_orders (cl_account c) @ [ord]" "cl_nextOrderId c' = Suc (cl_nextOrderId c)" "cl_quote c' = cl_quote c" "cl_feeRate c' = cl_feeRate c"
  have "balances_ok (cl_account c')" using executeFill_balances[OF x _ _ n] g by (simp add: good_def funds_ok_def)
  then show ?thesis
    by (rule push_step[OF g _, where os = "[ord]"]) (use r o n in \<open>simp_all add: market_fill_order\<close>)
qed

lemma new_order_fields [simp]: "po_id (new_order now n symbol s t amount obs cid) = show_nat n" "po_status (new_order now n symbol s t amount obs cid) = PO_open"
  "group_of (new_order now n symbol s t amount obs cid) = None"
  by (simp_all add: new_order_def group_of_def truthy_def)

lemma new_order_funds: "not_neg amount \<Longrightarrow> order_funds_ok (new_order now n symbol s t amount obs cid)"
  by (simp add: new_order_def order_funds_ok_def given_all_def not_neg_def)

lemma positive_not_neg: "\<not> not_positive x \<Longrightarrow> given_all not_neg x"
  by (auto simp: not_positive_def given_all_def not_neg_def js_le_def split: option.splits)

lemma configured_order:
  assumes "configureRestingOrder ord input lst = Inr ord'" "order_funds_ok ord" "po_trailingExtreme ord = None"
  shows "order_funds_ok ord' \<and> po_id ord' = po_id ord \<and> group_of ord' = group_of ord \<and> po_status ord' = po_status ord \<and> po_timestamp ord' = po_timestamp ord"
proof -
  have l: "isFinitePositive lst \<Longrightarrow> not_neg (the lst) \<and> given_all not_neg lst"
    by (auto simp: isFinitePositive_def not_neg_def is_finite_iff given_all_def split: option.splits)
  have "order_funds_ok ord'" if t: "in_type input = Trailing_stop_market"
  proof -
    obtain percent where p: "in_trailingPercent input = Some percent" "is_finite percent" "\<not> js_le percent (Fin 0)" "\<not> js_ge percent (Fin 100)" "isFinitePositive lst"
      and o: "ord' = ord\<lparr>po_trailingPercent := Some percent, po_trailingExtreme := lst, po_reservePrice := Some (trailingStopLevel (in_side input) (the lst) percent)\<rparr>"
      using assms(1) t by (auto simp: configureRestingOrder_def isTriggerType_def split: if_splits option.splits)
    have "js_gt percent (Fin 0)" "js_lt percent (Fin 100)" using p(2-4) by (auto simp: is_finite_iff)
    then show ?thesis using assms(2) l[OF p(5)] p(2) trailing_level_not_neg[of "the lst" percent "in_side input"] unfolding o by (simp add: order_funds_ok_def given_all_def)
  qed
  moreover have "order_funds_ok ord'" if "in_type input \<noteq> Trailing_stop_market"
    using assms(1,2) that positive_not_neg[of "in_price input"] positive_not_neg[of "in_stopPrice input"]
    by (auto simp: configureRestingOrder_def order_funds_ok_def Let_def split: if_splits)
  moreover have "po_id ord' = po_id ord \<and> group_of ord' = group_of ord \<and> po_status ord' = po_status ord \<and> po_timestamp ord' = po_timestamp ord"
    using assms(1) by (auto simp: configureRestingOrder_def group_of_def Let_def split: if_splits option.splits)
  ultimately show ?thesis by blast
qed


lemma normalized_amount:
  assumes "normalizeOrderInput mv c input = Inr input'" shows "not_neg (in_amount input')"
proof -
  have "is_finite (in_amount input')" "\<not> js_le (in_amount input') (Fin 0)"
    using assms by (auto simp: normalizeOrderInput_def Let_def split: if_splits option.splits)
  then show ?thesis by (auto simp: is_finite_iff)
qed

lemma lastPrice_not_neg: "lastPrice src symbol = Inr p \<Longrightarrow> not_neg p"
  by (auto simp: lastPrice_def isFinitePositive_def not_neg_def is_finite_iff split: option.splits if_splits)

lemma place_resting_step:
  assumes p: "place_resting mv input c = Inr (ord, c')" and g: "good c" and a: "not_neg (in_amount input)" shows "step_ok c c'"
proof -
  obtain obs lst ord0 c1 unitPrice where
      cf: "configureRestingOrder (new_order (mv_now mv) (cl_nextOrderId c) (in_symbol input) (in_side input) (in_type input) (in_amount input) obs (in_clientOrderId input)) input lst = Inr ord0"
    and r: "reserve_funds (in_side input) (in_symbol input) (in_amount input) unitPrice c = Inr c1"
    and o: "ord = ord0\<lparr>po_lastCheckedAt := Some (po_timestamp ord0)\<rparr>" "c' = push_orders [ord] (c1\<lparr>cl_nextOrderId := Suc (cl_nextOrderId c1)\<rparr>)"
    using p unfolding place_resting_def ebind_Inr Let_def by (auto simp: result_simps)
  note q = configured_order[OF cf new_order_funds[OF a], simplified]
  have e: "po_trailingExtreme (new_order (mv_now mv) (cl_nextOrderId c) (in_symbol input) (in_side input) (in_type input) (in_amount input) obs (in_clientOrderId input)) = None"
    by (simp add: new_order_def)
  have s: "same_orders c c1" "balances_ok (cl_account c1)" using reserve_same[OF r] reserve_balances[OF r] g by (simp_all add: good_def funds_ok_def)
  have q': "order_funds_ok ord" "po_id ord = show_nat (cl_nextOrderId c)" "group_of ord = None"
    using q[OF e] by (simp_all add: o(1) order_funds_ok_def group_of_def)
  show ?thesis
    by (rule push_step[OF g _, where os = "[ord]"]) (use s q' in \<open>simp_all add: o(2) push_orders_def same_orders_def\<close>)
qed

lemma place_spot_step:
  assumes p: "place_spot mv input c = Inr (ord, fee, c')" and g: "good c" shows "step_ok c c'"
proof -
  obtain input1 where n: "normalizeOrderInput mv c input = Inr input1" using p by (auto simp: place_spot_def result_simps)
  define inp where "inp = input1\<lparr>in_clientOrderId := Some (case in_clientOrderId input1 of Some i \<Rightarrow> i | None \<Rightarrow> ''paper-'' @ show_nat (cl_nextOrderId c))\<rparr>"
  have a: "not_neg (in_amount inp)" using normalized_amount[OF n] by (simp add: inp_def)
  consider price fee' where "lastPrice (mv_placeTicker mv) (in_symbol inp) = Inr price"
      "executeFill (mv_now mv) (in_symbol inp) (in_side inp) (in_amount inp) price (in_clientOrderId inp) c = Inr (ord, fee', c')"
    | "place_resting mv inp c = Inr (ord, c')"
    using p unfolding place_spot_def n ebind_simps Let_def inp_def[symmetric] by (auto simp: result_simps split: if_splits)
  then show ?thesis
    using executeFill_step[OF _ g a lastPrice_not_neg] place_resting_step[OF _ g a] by cases blast+
qed

lemma oco_leg_fields:
  "po_id (oco_leg now n input amount obs grp listId rp t sp cid) = show_nat n" "po_status (oco_leg now n input amount obs grp listId rp t sp cid) = PO_open"
  "group_of (oco_leg now n input amount obs grp listId rp t sp cid) = truthy (Some grp)"
  "not_neg amount \<Longrightarrow> not_neg rp \<Longrightarrow> not_neg sp \<Longrightarrow> order_funds_ok (oco_leg now n input amount obs grp listId rp t sp cid)"
  by (simp_all add: oco_leg_def new_order_def group_of_def order_funds_ok_def given_all_def) (simp add: not_neg_def)

lemma oco_push:
  assumes r: "reserve_funds s symbol amount u (c\<lparr>cl_nextOrderId := Suc (Suc (cl_nextOrderId c))\<rparr>) = Inr c1" and g: "good c"
    and n: "not_neg amount" "isFinitePositive (Some stopLoss)" "isFinitePositive (Some takeProfit)"
  shows "step_ok c (push_orders (oco_legs now (cl_nextOrderId c) input amount obs stopLoss takeProfit) c1)"
proof -
  let ?n = "cl_nextOrderId c" let ?os = "oco_legs now (cl_nextOrderId c) input amount obs stopLoss takeProfit"
  have nn: "not_neg stopLoss" "not_neg takeProfit" using n by (auto simp: isFinitePositive_def not_neg_def is_finite_iff)
  have sm: "pa_orders (cl_account c1) = pa_orders (cl_account c)" "cl_quote c1 = cl_quote c" "cl_feeRate c1 = cl_feeRate c" "cl_nextOrderId c1 = Suc (Suc ?n)"
    "balances_ok (cl_account c1)"
    using reserve_same[OF r] reserve_balances[OF r] g by (simp_all add: same_orders_def good_def funds_ok_def)
  have l: "length ?os = 2" "map po_id ?os = [show_nat ?n, show_nat (Suc ?n)]" "list_all order_funds_ok ?os"
    "\<forall>x \<in> set ?os. po_status x = PO_open \<and> group_of x = Some (''oco-'' @ show_nat ?n)"
    using n(1) nn by (simp_all add: oco_legs_def oco_leg_fields not_neg_max truthy_def Let_def)
  show ?thesis
    by (rule push_step[OF g, where os = ?os]) (use sm l in \<open>simp_all add: push_orders_def upt_rec\<close>)
qed

lemma place_oco_step: "place_oco mv input c = Inr (os, c') \<Longrightarrow> good c \<Longrightarrow> step_ok c c'"
  unfolding place_oco_def Let_def by (auto simp: result_simps split: if_splits intro!: oco_push dest: normalized_amount)

subsection \<open>Cancellation\<close>

lemma cancel_group_orders:
  "pa_orders (cancel_group ord a) = map (\<lambda>x. if group_of ord \<noteq> None \<and> po_ocoGroup x = group_of ord \<and> po_status x = PO_open then x\<lparr>po_status := PO_canceled\<rparr> else x) (pa_orders a)"
  by (auto simp: cancel_group_def group_of_def split: option.splits)

lemma cancelled_harmless: "po_status x = PO_open \<Longrightarrow> harmless x (x\<lparr>po_reservedMargin := m, po_status := PO_canceled\<rparr>)"
  "po_status x = PO_open \<Longrightarrow> harmless x (x\<lparr>po_status := PO_canceled\<rparr>)" "harmless x x"
  by (simp_all add: harmless_def)

lemma release_and_cancel_step:
  assumes r: "release_and_cancel ord c = Inr c'" and g: "good c" and m: "ord \<in> set (pa_orders (cl_account c))" "po_status ord = PO_open"
  shows "step_ok c c'"
proof -
  obtain ord1 c1 where rl: "releaseReservation ord c = Inr (ord1, c1)"
    and c': "c' = put_client_order (ord1\<lparr>po_status := PO_canceled\<rparr>) c1\<lparr>cl_account := cancel_group ord1 (put_order (ord1\<lparr>po_status := PO_canceled\<rparr>) (cl_account c1))\<rparr>"
    using r by (auto simp: release_and_cancel_def Let_def result_simps)
  obtain mg where ord1: "ord1 = ord\<lparr>po_reservedMargin := mg\<rparr>" and s: "same_orders c c1" using release_same[OF rl] by blast
  have fo: "order_funds_ok ord" "fee_rate_ok (cl_feeRate c)" "balances_ok (cl_account c)" using g m by (auto simp: good_def funds_ok_def list_all_iff)
  let ?f = "\<lambda>x. if po_id x = po_id ord then ord\<lparr>po_reservedMargin := mg, po_status := PO_canceled\<rparr> else
       if group_of ord \<noteq> None \<and> po_ocoGroup x = group_of ord \<and> po_status x = PO_open then x\<lparr>po_status := PO_canceled\<rparr> else x"
  show ?thesis
  proof (rule harmless_map[OF g, where f = ?f])
    fix x assume x: "x \<in> set (pa_orders (cl_account c))"
    have "x = ord" if "po_id x = po_id ord" using same_id_same[OF _ x m(1) that] g by (simp add: good_def ids_ok_def)
    then show "harmless x (?f x)" using m(2) by (auto simp: cancelled_harmless)
  qed (use s release_balances[OF rl fo(3,2,1)] in \<open>simp_all add: c' ord1 cancel_group_orders put_order_orders same_orders_def\<close>)
qed

lemma find_member: "find P xs = Some x \<Longrightarrow> x \<in> set xs \<and> P x"
  by (auto simp: find_Some_iff)

lemma cancel_order_step:
  assumes c: "cancel_order i symbol c = Inr c'" and g: "good c" shows "step_ok c c'"
  using c by (auto simp: cancel_order_def result_simps split: option.splits dest!: find_member intro: release_and_cancel_step[OF _ g])

lemma cancel_list_step:
  assumes l: "cancel_list i symbol c = Inr c'" and g: "good c" shows "step_ok c c'"
proof -
  let ?m = "\<lambda>x. po_ocoGroup x = Some i \<and> po_symbol x = symbol \<and> po_status x = PO_open"
  obtain ord rest where f: "filter ?m (pa_orders (cl_account c)) = ord # rest"
    using l by (cases "filter ?m (pa_orders (cl_account c))") (auto simp: cancel_list_def result_simps)
  then obtain ord1 c1 where rl: "releaseReservation ord c = Inr (ord1, c1)"
    and c': "c' = put_client_order ord1 c1\<lparr>cl_account := (put_order ord1 (cl_account c1))\<lparr>pa_orders :=
        map (\<lambda>x. if ?m x then x\<lparr>po_status := PO_canceled\<rparr> else x) (pa_orders (put_order ord1 (cl_account c1)))\<rparr>\<rparr>"
    using l by (auto simp: cancel_list_def Let_def result_simps)
  have m: "ord \<in> set (pa_orders (cl_account c))" "?m ord" using arg_cong[OF f, of set] by auto
  obtain mg where ord1: "ord1 = ord\<lparr>po_reservedMargin := mg\<rparr>" and s: "same_orders c c1" using release_same[OF rl] by blast
  have fo: "order_funds_ok ord" "fee_rate_ok (cl_feeRate c)" "balances_ok (cl_account c)" using g m by (auto simp: good_def funds_ok_def list_all_iff)
  let ?f = "\<lambda>x. if po_id x = po_id ord then ord\<lparr>po_reservedMargin := mg, po_status := PO_canceled\<rparr> else if ?m x then x\<lparr>po_status := PO_canceled\<rparr> else x"
  show ?thesis
  proof (rule harmless_map[OF g, where f = ?f])
    fix x assume x: "x \<in> set (pa_orders (cl_account c))"
    have "x = ord" if "po_id x = po_id ord" using same_id_same[OF _ x m(1) that] g by (simp add: good_def ids_ok_def)
    then show "harmless x (?f x)" using m(2) by (auto simp: cancelled_harmless)
  qed (use s m(2) release_balances[OF rl fo(3,2,1)] in \<open>simp_all add: c' ord1 put_order_orders same_orders_def\<close>)
qed


lemma untouched_by_cancel:
  assumes r: "release_and_cancel ord c = Inr c'" and x: "x \<in> set (pa_orders (cl_account c))" "po_id x \<noteq> po_id ord"
    "\<not> (group_of ord \<noteq> None \<and> po_ocoGroup x = group_of ord)"
  shows "x \<in> set (pa_orders (cl_account c'))"
proof -
  obtain ord1 c1 where rl: "releaseReservation ord c = Inr (ord1, c1)"
    and c': "c' = put_client_order (ord1\<lparr>po_status := PO_canceled\<rparr>) c1\<lparr>cl_account := cancel_group ord1 (put_order (ord1\<lparr>po_status := PO_canceled\<rparr>) (cl_account c1))\<rparr>"
    using r by (auto simp: release_and_cancel_def Let_def result_simps)
  obtain mg where ord1: "ord1 = ord\<lparr>po_reservedMargin := mg\<rparr>" and s: "same_orders c c1" using release_same[OF rl] by blast
  show ?thesis using x s by (force simp: c' ord1 cancel_group_orders put_order_orders same_orders_def)
qed

definition group_key :: "paper_order \<Rightarrow> string" where
  "group_key ord = (case po_ocoGroup ord of Some g \<Rightarrow> g | None \<Rightarrow> po_id ord)"

lemma group_key_eq: "group_of ord \<noteq> None \<Longrightarrow> po_ocoGroup x = group_of ord \<Longrightarrow> group_key x = group_key ord"
  by (cases "group_of ord") (auto simp: group_key_def group_of_Some)

lemma replacement_fold:
  assumes "efold replacement_step os (groups, c) = Inr (groups', c')" "good c"
    "\<forall>x \<in> set os. group_key x \<in> set groups \<or> x \<in> set (pa_orders (cl_account c)) \<and> po_status x = PO_open"
    "\<forall>x \<in> set os. \<forall>y \<in> set os. po_id x = po_id y \<longrightarrow> x = y"
  shows "step_ok c c'"
  using assms
proof (induction os arbitrary: groups c)
  case Nil
  then show ?case by (simp add: step_ok_refl)
next
  case (Cons ord os)
  obtain groups1 c1 where s: "replacement_step ord (groups, c) = Inr (groups1, c1)" "efold replacement_step os (groups1, c1) = Inr (groups', c')"
    using Cons.prems(1) by (auto simp: result_simps)
  show ?case
  proof (cases "group_key ord \<in> set groups")
    case True
    then have "groups1 = groups" "c1 = c" using s(1) by (auto simp: replacement_step_def group_key_def)
    then show ?thesis using Cons.IH[OF s(2)] Cons.prems by simp
  next
    case False
    then have r: "release_and_cancel ord c = Inr c1" "groups1 = group_key ord # groups" using s(1) by (auto simp: replacement_step_def group_key_def result_simps)
    have st: "step_ok c c1" using release_and_cancel_step[OF r(1)] Cons.prems(2,3) False by auto
    have "group_key x \<in> set groups1 \<or> x \<in> set (pa_orders (cl_account c1)) \<and> po_status x = PO_open" if "x \<in> set os" for x
    proof (cases "po_id x = po_id ord \<or> group_of ord \<noteq> None \<and> po_ocoGroup x = group_of ord")
      case True
      then have "group_key x = group_key ord" using group_key_eq[of ord x] Cons.prems(4) that by auto
      then show ?thesis using r(2) by simp
    next
      case False
      then show ?thesis using untouched_by_cancel[OF r(1), of x] Cons.prems(3) that r(2) by auto
    qed
    then have "step_ok c1 c'" using Cons.IH[OF s(2)] st Cons.prems(4) by (simp add: step_ok_def)
    then show ?thesis by (rule step_ok_trans[OF st])
  qed
qed

lemma replacement_cancel_step:
  assumes r: "cancelForReplacement input ids c = Inr c'" and g: "good c" shows "step_ok c c'"
proof -
  obtain os gs where e: "emap (replaced_order input (cl_account c)) ids = Inr os" "efold replacement_step os ([], c) = Inr (gs, c')"
    using r by (auto simp: cancelForReplacement_def result_simps)
  have "x \<in> set (pa_orders (cl_account c)) \<and> po_status x = PO_open" if "x \<in> set os" for x
  proof -
    obtain i where "replaced_order input (cl_account c) i = Inr x" using emap_set[OF e(1) \<open>x \<in> set os\<close>] by blast
    then show ?thesis by (auto simp: replaced_order_def dest!: find_member split: option.splits if_splits)
  qed
  then show ?thesis
    using replacement_fold[OF e(2) g] same_id_same[of "pa_orders (cl_account c)"] g by (auto simp: good_def ids_ok_def)
qed

subsection \<open>Runs\<close>

lemma settle_then_step:
  assumes "settle_then mv act c = (r, c')" "good c" "\<And>c1 x c2. good c1 \<Longrightarrow> act c1 = Inr (x, c2) \<Longrightarrow> step_ok c1 c2" shows "step_ok c c'"
proof -
  have "step_ok c c1" if "settleOpenOrdersUnlocked mv c = Inr c1" for c1
    using that assms(2) settle_step[of mv c] by (auto simp: settleOpenOrdersUnlocked_def result_simps)
  note st = this
  show ?thesis
  proof (cases "settleOpenOrdersUnlocked mv c")
    case (Inl e)
    then show ?thesis using assms(1) step_ok_refl[OF assms(2)] by (simp add: settle_then_def)
  next
    case (Inr c1)
    then have s1: "step_ok c c1" "good c1" using st by (auto simp: step_ok_def)
    then show ?thesis using assms(1) Inr assms(3)[OF s1(2)] step_ok_trans[OF s1(1)]
      by (cases "act c1") (auto simp: settle_then_def)
  qed
qed

lemma reload_good:
  assumes "good c" "cl_nextOrderId c \<le> 2 ^ 53" shows "good (reload_client c)"
proof -
  let ?m = "maxPersistedOrderId [cl_account c, cl_futures c]"
  have "show_nat n \<notin> po_id ` set (pa_orders (cl_account c))" if "?m \<le> n" for n
  proof
    assume i: "show_nat n \<in> po_id ` set (pa_orders (cl_account c))"
    then have "n < cl_nextOrderId c" using assms(1) not_le by (auto simp: good_def ids_ok_def)
    moreover have "show_nat n \<in> set (record_ids (cl_account c))" using i by (auto simp: record_ids_def)
    ultimately have "n < ?m" using max_accounts_ge[of "cl_account c" "[cl_account c, cl_futures c]" n 0] assms(2) by (simp add: maxPersistedOrderId_def)
    then show False using that by simp
  qed
  then show ?thesis using assms(1) by (simp add: reload_client_def good_def ids_ok_def funds_ok_def)
qed


lemma submit_step:
  assumes "submitPaperOrder mv input ids c = (r, c')" "good c" shows "step_ok c c'"
proof (cases "futures_symbol c (in_symbol input)")
  case True
  then show ?thesis using assms step_ok_refl by (simp add: submitPaperOrder_def)
next
  case False
  then show ?thesis
  proof (intro settle_then_step[OF _ assms(2)])
    fix c1 x c2 assume g: "good c1" and "ebind (case ids of None \<Rightarrow> Inr c1 | Some is \<Rightarrow> cancelForReplacement input is c1)
        (\<lambda>c1. ebind (place_spot mv input c1) (\<lambda>(ord, fee, c2). Inr ((toOrder ord, fee), c2))) = Inr (x, c2)"
    then obtain d ord fee where d: "(case ids of None \<Rightarrow> Inr c1 | Some is \<Rightarrow> cancelForReplacement input is c1) = Inr d" "place_spot mv input d = Inr (ord, fee, c2)"
      by (auto simp: result_simps)
    then have s: "step_ok c1 d" using g replacement_cancel_step by (auto simp: step_ok_refl split: option.splits)
    then have "step_ok d c2" using place_spot_step[OF d(2)] by (simp add: step_ok_def)
    then show "step_ok c1 c2" by (rule step_ok_trans[OF s])
  qed (use assms(1) in \<open>simp add: submitPaperOrder_def\<close>)
qed

lemma cancel_steps:
  "paper_cancelOrder mv i symbol c = (t, c') \<Longrightarrow> good c \<Longrightarrow> step_ok c c'"
  "paper_cancelOrderList mv i symbol c = (t, c') \<Longrightarrow> good c \<Longrightarrow> step_ok c c'"
  by (auto simp: paper_cancelOrder_def paper_cancelOrderList_def result_simps step_ok_refl split: sum.splits elim!: settle_then_step
      intro: cancel_order_step cancel_list_step)

lemma look_up_steps:
  "paper_getOrder mv i symbol c = (u, c') \<Longrightarrow> good c \<Longrightarrow> step_ok c c'"
  "paper_getOrderByClientId mv i symbol c = (u, c') \<Longrightarrow> good c \<Longrightarrow> step_ok c c'"
  "paper_getOrderList mv i c = (v, c') \<Longrightarrow> good c \<Longrightarrow> step_ok c c'"
  "paper_getOrderListByClientId mv i c = (v, c') \<Longrightarrow> good c \<Longrightarrow> step_ok c c'"
  by (auto simp: paper_getOrder_def paper_getOrderByClientId_def paper_getOrderList_def paper_getOrderListByClientId_def step_ok_refl
      split: sum.splits elim!: settle_then_step split: option.splits list.splits)

lemma oco_op_step: "placeOcoOrder mv oco c = (s, c') \<Longrightarrow> good c \<Longrightarrow> step_ok c c'"
  by (auto simp: placeOcoOrder_def result_simps elim!: settle_then_step intro: place_oco_step)

lemma spot_order_step_good:
  assumes "spot_order_step c c'" "good c" "cl_nextOrderId c \<le> 2 ^ 53"
  shows "good c' \<and> orders_evolve (pa_orders (cl_account c)) (pa_orders (cl_account c')) \<and> cl_nextOrderId c' \<le> 2 ^ 53"
proof -
  have g: "good (reload_client c)" by (rule reload_good[OF assms(2,3)])
  have "step_ok (reload_client c) c' \<and> cl_nextOrderId c' \<le> 2 ^ 53"
    using assms(1)
    by cases (auto simp: paper_placeOrder_def replaceProtectiveOrders_def step_ok_refl[OF g] split: if_splits
        dest: submit_step[OF _ g] oco_op_step[OF _ g] cancel_steps[OF _ g] look_up_steps[OF _ g])
  then show ?thesis by (simp add: step_ok_def reload_client_def)
qed

lemma spot_order_run_good:
  assumes "spot_order_run c c'" "good c" "cl_nextOrderId c \<le> 2 ^ 53"
  shows "good c' \<and> orders_evolve (pa_orders (cl_account c)) (pa_orders (cl_account c')) \<and> cl_nextOrderId c' \<le> 2 ^ 53"
  using assms by (induction rule: spot_order_run.induct) (auto simp: evolve_refl dest: spot_order_step_good intro: evolve_trans)

lemma fresh_account_good:
  assumes "cl_account c = freshSpotAccount now quote startQuote" "fee_rate_ok (cl_feeRate c)" "is_finite startQuote" "\<not> js_lt startQuote (Fin 0)"
  shows "good c"
  using assms by (auto simp: good_def funds_ok_def balances_ok_def ids_ok_def oco_ok_def freshSpotAccount_def not_neg_def is_finite_iff)

lemma reset_good:
  assumes "paper_resetAccount now startQuote leverage m mode c = (t, c')" "good c" shows "good c'"
proof (cases "reset_account now startQuote leverage m mode c")
  case (Inr d)
  then have d: "c' = d" "is_finite startQuote" "\<not> js_le startQuote (Fin 0)" "cl_account d = freshSpotAccount now (cl_quote c) startQuote" "cl_feeRate d = cl_feeRate c"
    using assms(1) by (auto simp: paper_resetAccount_def reset_account_def split: if_splits)
  moreover have "\<not> js_lt startQuote (Fin 0)" using d(3) by (auto simp: js_le_def)
  ultimately show ?thesis using assms(2) by (intro fresh_account_good) (simp_all add: good_def funds_ok_def)
qed (use assms in \<open>simp add: paper_resetAccount_def\<close>)

lemma spot_step_good:
  assumes "spot_step c c'" "good c" "cl_nextOrderId c \<le> 2 ^ 53" shows "good c' \<and> cl_nextOrderId c' \<le> 2 ^ 53"
  using assms(1)
proof cases
  case order
  then show ?thesis using spot_order_step_good assms(2,3) by blast
next
  case reset
  then show ?thesis using reset_good[OF _ reload_good[OF assms(2,3)]] by simp
qed

lemma spot_run_good:
  assumes "spot_run c c'" "good c" "cl_nextOrderId c \<le> 2 ^ 53" shows "good c' \<and> cl_nextOrderId c' \<le> 2 ^ 53"
  using assms by (induction rule: spot_run.induct) (auto dest: spot_step_good)

lemma new_client_good:
  assumes "new_client now quote startQuote feeRate leverage m mode = Inr c" shows "good c" "cl_nextOrderId c \<le> 2 ^ 53"
proof -
  have "cl_account c = freshSpotAccount now quote startQuote" "cl_feeRate c = feeRate" "cl_nextOrderId c = 1"
    and s: "is_finite startQuote" "\<not> js_lt startQuote (Fin 0)" "is_finite feeRate" "\<not> js_lt feeRate (Fin 0)" "\<not> js_ge feeRate (Fin 1)"
    using assms by (auto simp: new_client_def reload_client_def maxPersistedOrderId_def record_ids_def freshSpotAccount_def freshFuturesAccount_def split: if_splits)
  moreover have "fee_rate_ok feeRate" using s(3-5) by (auto simp: fee_rate_ok_def is_finite_iff)
  ultimately show "good c" "cl_nextOrderId c \<le> 2 ^ 53" by (auto intro: fresh_account_good)
qed

section \<open>The properties\<close>

text \<open>C32. No run of operations on the simulated spot account makes a balance negative: placing, replacing, settling,
  cancelling orders and resetting the account, at whatever prices the market reports, never spends more than is there, in the rounded arithmetic of the code. A
  balance that is stored and loads again is therefore a finite amount of at least zero.\<close>

theorem spot_balances_never_negative:
  assumes "new_client now quote startQuote feeRate leverage m mode = Inr c0" "spot_run c0 c" "obj_get (pa_balances (cl_account c)) asset = Some b"
  shows "\<not> js_lt b (Fin 0)"
  using spot_run_good[OF assms(2) new_client_good[OF assms(1)]] assms(3)
  by (auto simp: good_def funds_ok_def balances_ok_def list_all_iff not_neg_def obj_get_def dest!: map_of_SomeD)

text \<open>C33. One cancels the other: when an order of an OCO group is filled, every other order of the group is cancelled, and
  no state of the account, whatever happened to it, has two legs filled.\<close>

theorem oco_fills_at_most_one_leg:
  assumes "new_client now quote startQuote feeRate leverage m mode = Inr c0" "spot_run c0 c"
    "x \<in> set (pa_orders (cl_account c))" "y \<in> set (pa_orders (cl_account c))" "po_id x \<noteq> po_id y"
    "po_ocoGroup x = Some g" "po_ocoGroup y = Some g" "g \<noteq> []" "po_status x = PO_closed"
  shows "po_status y = PO_canceled"
proof -
  have "oco_ok (pa_orders (cl_account c))" using spot_run_good[OF assms(2) new_client_good[OF assms(1)]] by (simp add: good_def)
  moreover have "group_of x = Some g" "group_of y = Some g" using assms by (simp_all add: group_of_Some)
  ultimately show ?thesis using assms unfolding oco_ok_def by (metis option.distinct(1))
qed

text \<open>C34. In whatever state a simulated account is, after any operations and resets: an order that was filled or cancelled
  stays in its history exactly as it is, however many order operations and reads follow, until the account is reset; no order is lost
  before that, and no two orders of an account ever have the same id.\<close>

theorem finished_orders_are_final:
  assumes "new_client now quote startQuote feeRate leverage m mode = Inr c0" "spot_run c0 c" "spot_order_run c c'"
  shows "distinct (map po_id (pa_orders (cl_account c'))) \<and>
    (\<forall>x \<in> set (pa_orders (cl_account c)). (\<exists>y \<in> set (pa_orders (cl_account c')). po_id y = po_id x) \<and>
       (po_status x \<noteq> PO_open \<longrightarrow> x \<in> set (pa_orders (cl_account c'))))"
proof -
  have g: "good c" "cl_nextOrderId c \<le> 2 ^ 53" using spot_run_good[OF assms(2) new_client_good[OF assms(1)]] by auto
  show ?thesis using spot_order_run_good[OF assms(3) g] by (fastforce simp: good_def ids_ok_def orders_evolve_def)
qed


text \<open>A session without fees: buy 2 BTC at 100, protect them with an OCO group at 90 and 120, and look the order up when the price is 80.\<close>

definition demo_spot_view :: "rat \<Rightarrow> rat \<Rightarrow> market_view" where
  "demo_spot_view now p =
     \<lparr>mv_now = Fin now, mv_settleTicker = (\<lambda>_. Some (Some (Fin p))), mv_inputTicker = (\<lambda>_. Some (Some (Fin p))), mv_placeTicker = (\<lambda>_. Some (Some (Fin p))),
      mv_ohlcv = (\<lambda>_ _ _ _. None),
      mv_markets = (\<lambda>_. Some \<lparr>mk_quote = ''USDT'', mk_spot = Some True, mk_swap = None, mk_active = Some True, mk_minAmount = None, mk_maxAmount = None,
        mk_minCost = None, mk_maxCost = None\<rparr>),
      mv_amountToPrecision = (\<lambda>_ x. x), mv_priceToPrecision = (\<lambda>_ x. x)\<rparr>"

definition demo_fee :: order_fee_observation where
  "demo_fee = \<lparr>fo_source = Paper_ledger, fo_completeness = Fees_complete, fo_charges = [\<lparr>fee_currency = ''USDT'', fee_cost = Fin 0\<rparr>]\<rparr>"

definition demo_buy_input :: place_order_input where
  "demo_buy_input = \<lparr>in_symbol = ''BTC/USDT'', in_side = Buy, in_type = Market, in_amount = Fin 2, in_price = None, in_reduceOnly = None, in_positionSide = None,
     in_stopPrice = None, in_trailingPercent = None, in_closePosition = None, in_clientOrderId = None\<rparr>"

definition demo_oco_input :: place_oco_input where
  "demo_oco_input = \<lparr>oco_symbol = ''BTC/USDT'', oco_side = Sell, oco_amount = Fin 2, oco_stopLossPrice = Fin 90, oco_takeProfitPrice = Fin 120,
     oco_listClientOrderId = None, oco_aboveClientOrderId = None, oco_belowClientOrderId = None\<rparr>"

definition demo_futures_account :: paper_account where
  "demo_futures_account = freshFuturesAccount (Fin 0) ''USDT'' (Fin 1000) (Fin 1) Isolated One_way"

definition demo_new_client :: paper_client where
  "demo_new_client = \<lparr>cl_quote = ''USDT'', cl_feeRate = Fin 0, cl_account = freshSpotAccount (Fin 0) ''USDT'' (Fin 1000), cl_futures = demo_futures_account, cl_nextOrderId = 1\<rparr>"

definition demo_buy_order :: paper_order where
  "demo_buy_order = market_fill (Fin 1000) ''1'' ''BTC/USDT'' Buy (Fin 2) (Fin 100) (Fin 200) demo_fee (Some ''paper-1'')"

definition demo_trade :: "string \<Rightarrow> rat \<Rightarrow> side \<Rightarrow> rat \<Rightarrow> rat \<Rightarrow> jsnum option \<Rightarrow> paper_trade" where
  "demo_trade i t s p cost pnl = \<lparr>pt_id = i, pt_symbol = ''BTC/USDT'', pt_side = s, pt_price = Fin p, pt_amount = Fin 2, pt_cost = Fin cost, pt_fee = Fin 0,
     pt_realizedPnl = pnl, pt_positionSide = None, pt_timestamp = Fin t\<rparr>"

definition demo_bought :: paper_client where
  "demo_bought = demo_new_client\<lparr>cl_account := (freshSpotAccount (Fin 0) ''USDT'' (Fin 1000))
     \<lparr>pa_balances := [(''USDT'', Fin 800), (''BTC'', Fin 2)],
      pa_entries := [(''BTC'', \<lparr>fe_amount = Fin 2, fe_cost = Fin 200, fe_leverage = None, fe_marginType = None, fe_lots = None\<rparr>)],
      pa_orders := [demo_buy_order], pa_trades := [demo_trade ''1'' 1000 Buy 100 200 None]\<rparr>, cl_nextOrderId := 2\<rparr>"

lemmas demo_client_defs = demo_spot_view_def demo_fee_def demo_buy_input_def demo_oco_input_def demo_futures_account_def demo_new_client_def demo_buy_order_def
  demo_trade_def demo_bought_def freshSpotAccount_def freshFuturesAccount_def market_fill_def

lemma demo_new: "new_client (Fin 0) ''USDT'' (Fin 1000) (Fin 0) (Fin 1) Isolated One_way = Inr demo_new_client"
  by (simp add: new_client_def reload_client_def maxPersistedOrderId_def record_ids_def demo_client_defs)

lemma demo_base: "baseAsset ''BTC/USDT'' ''USDT'' = Inr ''BTC''"
  by (simp add: baseAsset_def base_part_def Let_def suffix_def)

lemma demo_not_futures: "\<not> suffix ''/USDT:USDT'' ''BTC/USDT''"
  by (simp add: suffix_def)

lemma demo_observation: "paperOrderFeeObservation ''USDT'' (Fin 0) None = Inr demo_fee"
  by (simp add: paperOrderFeeObservation_def demo_fee_def isOrderFeeObservation_def fee_currency_valid_def currency_code_def is_upper_def Let_def)

lemma demo_number: "show_nat (Suc 0) = ''1''" "show_nat 2 = ''2''" "show_nat 3 = ''3''" "show_nat 4 = ''4''"
  by (simp_all add: show_nat_small digit_char_def)

lemma demo_loads_new: "loads demo_new_client"
  unfolding loads_def by (rule account_reload) (simp add: account_ok_def demo_client_defs given_all_def)

lemma demo_reload_new: "reload_client demo_new_client = demo_new_client"
  by (simp add: reload_client_def maxPersistedOrderId_def record_ids_def demo_client_defs)

lemma demo_buy: "snd (paper_placeOrder (demo_spot_view 1000 100) demo_buy_input demo_new_client) = demo_bought"
  by (simp add: paper_placeOrder_def submitPaperOrder_def settle_then_def settleOpenOrdersUnlocked_def settleAccountOpenOrders_def place_spot_def normalizeOrderInput_def
      futures_symbol_def spot_market_ok_def opt_below_def opt_above_def isFinitePositive_def lastPrice_def executeFill_def buy_side_def credit_def set_balance_def
      balance_of_def entry_of_def obj_get_def obj_set_def demo_client_defs demo_base demo_not_futures demo_observation[unfolded demo_fee_def] demo_number js_sub_def Let_def)

definition demo_stop_leg :: paper_order where
  "demo_stop_leg = oco_leg (Fin 2000) 2 demo_oco_input (Fin 2) demo_fee ''oco-2'' ''paper-list-2'' (Fin 120) Stop_market (Fin 90) None"

definition demo_profit_leg :: paper_order where
  "demo_profit_leg = oco_leg (Fin 2000) 3 demo_oco_input (Fin 2) demo_fee ''oco-2'' ''paper-list-2'' (Fin 120) Take_profit_market (Fin 120) None"

definition demo_protected :: paper_client where
  "demo_protected = demo_bought\<lparr>cl_account := (cl_account demo_bought)\<lparr>pa_balances := [(''USDT'', Fin 800), (''BTC'', Fin 0)],
     pa_orders := [demo_buy_order, demo_stop_leg, demo_profit_leg]\<rparr>, cl_nextOrderId := 4\<rparr>"

definition demo_stopped :: paper_client where
  "demo_stopped = demo_protected\<lparr>cl_account := (cl_account demo_protected)\<lparr>pa_balances := [(''USDT'', Fin 980), (''BTC'', Fin 0)], pa_entries := [],
     pa_realizedPnl := Fin (- 20), pa_trades := [demo_trade ''1'' 1000 Buy 100 200 None, demo_trade ''4'' 3000 Sell 90 180 (Some (Fin (- 20)))],
     pa_orders := [demo_buy_order, demo_profit_leg\<lparr>po_lastCheckedAt := Some (Fin 3000), po_status := PO_canceled\<rparr>,
       demo_stop_leg\<lparr>po_lastCheckedAt := Some (Fin 3000), po_feeObservation := Some demo_fee, po_filled := Fin 2, po_cost := Fin 180, po_average := Some (Fin 90),
         po_status := PO_closed\<rparr>]\<rparr>, cl_nextOrderId := 5\<rparr>"

lemmas demo_leg_defs = demo_stop_leg_def demo_profit_leg_def demo_protected_def demo_stopped_def oco_leg_def new_order_def

lemma demo_ids: "js_Number ''1'' = Fin 1" "js_Number ''2'' = Fin 2" "js_Number ''3'' = Fin 3"
  using js_Number_show_nat[of 1] js_Number_show_nat[of 2] js_Number_show_nat[of 3] by (simp_all add: demo_number)

lemma demo_reloads: "reload_client demo_bought = demo_bought" "reload_client demo_protected = demo_protected"
  by (simp_all add: reload_client_def maxPersistedOrderId_def record_ids_def max_id_step_def demo_ids demo_number demo_client_defs demo_leg_defs Let_def)

lemma demo_loads: "loads demo_bought" "loads demo_protected"
  unfolding loads_def
  by (rule account_reload, simp add: account_ok_def order_ok_def trade_ok_def entry_ok_def legacy_trade_def ledger_fee_def quote_charges_def isOrderFeeObservation_def
      fee_currency_valid_def currency_code_def is_upper_def nonneg_num_def positive_finite_def demo_number demo_client_defs demo_leg_defs given_all_def)+

lemma demo_protect: "snd (placeOcoOrder (demo_spot_view 2000 100) demo_oco_input demo_bought) = demo_protected"
  by (simp add: placeOcoOrder_def settle_then_def settleOpenOrdersUnlocked_def settleAccountOpenOrders_def place_oco_def normalizeOrderInput_def
      futures_symbol_def spot_market_ok_def opt_below_def opt_above_def isFinitePositive_def lastPrice_def oco_prices_bracket_def reserve_funds_def oco_legs_def push_orders_def
      balance_of_def set_balance_def obj_get_def obj_set_def demo_client_defs demo_leg_defs demo_base demo_not_futures demo_observation[unfolded demo_fee_def] demo_number
      js_sub_def js_max_def Let_def)


lemma demo_gap: "\<not> js_lt (Fin 2) (fl (1 / 60))"
  using fl_mono[of "1 / 60" 2] js_le_not_gt by fastforce

lemma demo_tick: "buildMarketPath f demo_stop_leg (Fin 80) (Fin 3000) ms cache =
    (Some \<lparr>mp_segments = [\<lparr>seg_high = Fin 80, seg_low = Fin 80, seg_tick = True\<rparr>], mp_checkedAt = Fin 3000\<rparr>, cache)"
  by (simp add: buildMarketPath_def order_since_def demo_leg_defs demo_oco_input_def js_sub_def demo_gap Let_def)

lemma demo_winner:
  "walk_legs [\<lparr>seg_high = Fin 80, seg_low = Fin 80, seg_tick = True\<rparr>] (Fin 3000) [''2'', ''3''] (cl_account demo_protected) None =
     (put_order (demo_profit_leg\<lparr>po_lastCheckedAt := Some (Fin 3000)\<rparr>) (put_order (demo_stop_leg\<lparr>po_lastCheckedAt := Some (Fin 3000)\<rparr>) (cl_account demo_protected)),
      Some (demo_stop_leg\<lparr>po_lastCheckedAt := Some (Fin 3000)\<rparr>, 0, Fin 90))"
  by (simp add: order_at_def put_order_def evaluatePath_def walk_segment_def walk_limit_def segment_triggers_def isTriggerType_def is_triggered_def fall_to_def advanceCheckedAt_def
      order_since_def demo_client_defs demo_leg_defs demo_number Let_def)

lemma demo_fill:
  "fillRestingOrder (Fin 3000) (demo_stop_leg\<lparr>po_lastCheckedAt := Some (Fin 3000)\<rparr>) (Fin 90) (demo_protected\<lparr>cl_account :=
     put_order (demo_profit_leg\<lparr>po_lastCheckedAt := Some (Fin 3000)\<rparr>) (put_order (demo_stop_leg\<lparr>po_lastCheckedAt := Some (Fin 3000)\<rparr>) (cl_account demo_protected))\<rparr>) =
   Inr demo_stopped"
proof -
  have o: "paperOrderFeeObservation ''USDT'' (Fin 0) (Some (Fin 0, Some demo_fee)) = Inr demo_fee"
    by (simp add: paperOrderFeeObservation_def quote_charges_def demo_fee_def isOrderFeeObservation_def fee_currency_valid_def currency_code_def is_upper_def Let_def)
  have e: "js_le (Fin 0) E_12" using fl_mono[of 0 "1 / 1000000000000"] by (simp add: E_12_def)
  show ?thesis
    by (simp add: fillRestingOrder_def releaseReservation_def executeFill_def sell_side_def close_entry_def credit_def put_client_order_def put_order_def cancel_siblings_def
        truthy_def filled_order_def futures_symbol_def balance_of_def set_balance_def obj_get_def obj_set_def obj_del_def demo_client_defs demo_leg_defs demo_base demo_not_futures
        demo_observation[unfolded demo_fee_def] o[unfolded demo_fee_def] e demo_number js_sub_def js_min_def Let_def)
qed

lemma demo_stop: "snd (paper_getOrder (demo_spot_view 3000 80) ''2'' ''BTC/USDT'' demo_protected) = demo_stopped"
proof -
  have a: "spot_account_for demo_protected ''BTC/USDT'' = Inr ()"
    by (simp add: spot_account_for_def futures_symbol_def demo_client_defs demo_leg_defs demo_base demo_not_futures)
  have ids: "filter (\<lambda>x. po_status x = PO_open) (pa_orders (cl_account demo_protected)) = [demo_stop_leg, demo_profit_leg]" "po_id demo_stop_leg = ''2''" "po_id demo_profit_leg = ''3''"
    by (simp_all add: demo_client_defs demo_leg_defs demo_number)
  have at: "order_at (cl_account demo_protected) ''2'' = Some demo_stop_leg" "order_at (cl_account demo_stopped) ''3'' \<noteq> None"
    "\<forall>x. order_at (cl_account demo_stopped) ''3'' = Some x \<longrightarrow> po_status x = PO_canceled"
    "open_legs (cl_account demo_protected) [''2'', ''3''] ''oco-2'' = [''2'', ''3'']" "truthy (po_ocoGroup demo_stop_leg) = Some ''oco-2''" "po_status demo_stop_leg = PO_open"
    by (simp_all add: order_at_def open_legs_def truthy_def demo_client_defs demo_leg_defs demo_number)
  have first: "settle_one (demo_spot_view 3000 80) ms [''2'', ''3''] ''2'' (cache, d, demo_protected) = Inr (cache, True, demo_stopped)" for ms cache d
    by (simp add: settle_one_def at demo_tick demo_winner demo_fill demo_spot_view_def isFinitePositive_def del: walk_legs.simps)
  have second: "settle_one (demo_spot_view 3000 80) ms [''2'', ''3''] ''3'' (cache, d, demo_stopped) = Inr (cache, d, demo_stopped)" for ms cache d
    using at(2,3) by (auto simp: settle_one_def)
  have s: "settleOpenOrdersUnlocked (demo_spot_view 3000 80) demo_protected = Inr demo_stopped"
    by (simp add: settleOpenOrdersUnlocked_def settleAccountOpenOrders_def ids first second)
  show ?thesis by (simp add: paper_getOrder_def a settle_then_def s split: option.splits)
qed

lemma demo_order_steps: "spot_order_step demo_new_client demo_bought" "spot_order_step demo_bought demo_protected" "spot_order_step demo_protected demo_stopped"
proof -
  show "spot_order_step demo_new_client demo_bought"
    by (rule spot_order_step.place[OF demo_loads_new, of "demo_spot_view 1000 100" demo_buy_input "fst (paper_placeOrder (demo_spot_view 1000 100) demo_buy_input demo_new_client)"])
      (simp_all add: demo_reload_new prod_eq_iff demo_buy, simp add: demo_bought_def)
  show "spot_order_step demo_bought demo_protected"
    by (rule spot_order_step.place_group[OF demo_loads(1), of "demo_spot_view 2000 100" demo_oco_input "fst (placeOcoOrder (demo_spot_view 2000 100) demo_oco_input demo_bought)"])
      (simp_all add: demo_reloads prod_eq_iff demo_protect, simp add: demo_protected_def)
  show "spot_order_step demo_protected demo_stopped"
    by (rule spot_order_step.look_up[OF demo_loads(2), of "demo_spot_view 3000 80" "''2''" "''BTC/USDT''" "fst (paper_getOrder (demo_spot_view 3000 80) ''2'' ''BTC/USDT'' demo_protected)"])
      (simp_all add: demo_reloads prod_eq_iff demo_stop, simp add: demo_stopped_def)
qed

lemma demo_spot_runs: "spot_run demo_new_client demo_bought" "spot_order_run demo_bought demo_stopped" "spot_run demo_new_client demo_stopped"
  by (meson demo_order_steps spot_step.order spot_run.intros spot_order_run.intros)+

theorem spot_balances_never_negative_witness:
  "obj_get (pa_balances (cl_account demo_stopped)) ''USDT'' = Some (Fin 980) \<and> \<not> js_lt (Fin 980) (Fin 0)"
proof -
  have b: "obj_get (pa_balances (cl_account demo_stopped)) ''USDT'' = Some (Fin 980)" by (simp add: demo_stopped_def obj_get_def)
  then show ?thesis using spot_balances_never_negative[OF demo_new demo_spot_runs(3) b] by simp
qed

theorem oco_fills_at_most_one_leg_witness:
  "\<exists>x y. x \<in> set (pa_orders (cl_account demo_stopped)) \<and> y \<in> set (pa_orders (cl_account demo_stopped)) \<and> po_ocoGroup x = Some ''oco-2'' \<and> po_ocoGroup y = Some ''oco-2'' \<and>
     po_status x = PO_closed \<and> po_status y = PO_canceled"
proof -
  obtain p x y where o: "pa_orders (cl_account demo_stopped) = [p, y, x]" and f: "po_id x \<noteq> po_id y" "po_ocoGroup x = Some ''oco-2''" "po_ocoGroup y = Some ''oco-2''" "po_status x = PO_closed"
    by (simp add: demo_leg_defs demo_number)
  have "po_status y = PO_canceled" using oco_fills_at_most_one_leg[OF demo_new demo_spot_runs(3), of x y "''oco-2''"] o f by simp
  then show ?thesis using o f by auto
qed

theorem finished_orders_are_final_witness:
  "distinct (map po_id (pa_orders (cl_account demo_stopped))) \<and> demo_buy_order \<in> set (pa_orders (cl_account demo_stopped))"
proof -
  have "demo_buy_order \<in> set (pa_orders (cl_account demo_bought))" "po_status demo_buy_order \<noteq> PO_open" by (simp_all add: demo_bought_def demo_buy_order_def market_fill_def)
  then show ?thesis using finished_orders_are_final[OF demo_new demo_spot_runs(1,2)] by blast
qed


section \<open>A reservation that does not cover its fill\<close>

definition tenth_percent :: rat where "tenth_percent = 4611686018427388 / 4611686018427387904"

definition tight_balance :: rat where "tight_balance = 6762154840496799 / 562949953421312"

lemma tenth_percent_rounded: "fl (1 / 1000) = Fin tenth_percent"
  using fl_nearest[of "-62" "1 / 1000" 4611686018427388] by (simp add: tenth_percent_def power_int_minus)

lemma tight_one_plus: "fl (1 + tenth_percent) = Fin (4508103226997866 / 4503599627370496)"
  using fl_nearest[of "-52" "1 + tenth_percent" 4508103226997866] by (simp add: tenth_percent_def power_int_minus)

lemma tight_reserve: "fl (12 * (4508103226997866 / 4503599627370496)) = Fin tight_balance"
  using fl_nearest[of "-49" "12 * (4508103226997866 / 4503599627370496)" 6762154840496799] by (simp add: tight_balance_def power_int_minus)

definition tight_fee :: rat where "tight_fee = 6917529027641082 / 576460752303423488"

lemma tight_fee_rounded: "fl (12 * tenth_percent) = Fin tight_fee"
  using fl_nearest[of "-59" "12 * tenth_percent" 6917529027641082] by (simp add: tenth_percent_def tight_fee_def power_int_minus)

lemma tight_total: "fl (12 + tight_fee) = Fin (6762154840496800 / 562949953421312)"
  using fl_nearest[of "-49" "12 + tight_fee" 6762154840496800] by (simp add: tight_fee_def power_int_minus)

lemma tight_exact: "fl tight_balance = Fin tight_balance"
  by (rule fl_exact[of _ 6762154840496799 "-49"]) (simp_all add: tight_balance_def power_int_minus)

definition demo_tight_client :: paper_client where
  "demo_tight_client = demo_new_client\<lparr>cl_feeRate := Fin tenth_percent, cl_account := freshSpotAccount (Fin 0) ''USDT'' (Fin tight_balance)\<rparr>"

definition demo_limit_input :: place_order_input where
  "demo_limit_input = demo_buy_input\<lparr>in_type := Limit, in_amount := Fin 12, in_price := Some (Fin 1)\<rparr>"

definition demo_tight_order :: paper_order where
  "demo_tight_order = (new_order (Fin 1000) 1 ''BTC/USDT'' Buy Limit (Fin 12) demo_fee (Some ''paper-1''))\<lparr>po_price := Some (Fin 1), po_reservePrice := Some (Fin 1),
     po_lastCheckedAt := Some (Fin 1000)\<rparr>"

definition demo_tight_waiting :: paper_client where
  "demo_tight_waiting = demo_tight_client\<lparr>cl_account := (cl_account demo_tight_client)\<lparr>pa_balances := [(''USDT'', Fin 0)], pa_orders := [demo_tight_order]\<rparr>, cl_nextOrderId := 2\<rparr>"

lemma tight_placed: "snd (paper_placeOrder (demo_spot_view 1000 2) demo_limit_input demo_tight_client) = demo_tight_waiting"
  by (simp add: paper_placeOrder_def submitPaperOrder_def settle_then_def settleOpenOrdersUnlocked_def settleAccountOpenOrders_def place_spot_def normalizeOrderInput_def
      futures_symbol_def spot_market_ok_def opt_below_def opt_above_def isFinitePositive_def place_resting_def configureRestingOrder_def not_positive_def reserve_funds_def
      with_fee_def balance_of_def set_balance_def obj_get_def obj_set_def push_orders_def demo_client_defs demo_leg_defs demo_base demo_not_futures demo_tight_client_def
      demo_limit_input_def demo_tight_order_def demo_tight_waiting_def demo_observation[unfolded demo_fee_def] demo_number js_sub_def
      tight_one_plus tight_reserve[simplified] Let_def)

lemma tight_fill_fails: "fillRestingOrder (Fin 3000) (demo_tight_order\<lparr>po_lastCheckedAt := Some (Fin 3000)\<rparr>) (Fin 1)
    (put_client_order (demo_tight_order\<lparr>po_lastCheckedAt := Some (Fin 3000)\<rparr>) demo_tight_waiting) = Inl (Insufficient ''USDT'')"
proof -
  have "tight_balance < 6762154840496800 / 562949953421312" by (simp add: tight_balance_def)
  then show ?thesis
    by (simp add: fillRestingOrder_def releaseReservation_def executeFill_def buy_side_def credit_def put_client_order_def put_order_def cancel_siblings_def truthy_def
        reserve_unit_def with_fee_def futures_symbol_def balance_of_def set_balance_def obj_get_def obj_set_def demo_client_defs demo_leg_defs demo_tight_client_def
        demo_tight_order_def demo_tight_waiting_def demo_base demo_not_futures js_sub_def tight_one_plus tight_reserve[simplified] tight_fee_rounded[simplified] tight_total
        tight_exact Let_def)
qed

text \<open>A limitation of the reservation: it takes \<^verbatim>\<open>amount * price * (1 + feeRate)\<close>, while the fill takes
  \<^verbatim>\<open>amount * price + amount * price * feeRate\<close>, and the two round differently. With a fee of 0.1 percent and a balance of exactly the reserved amount, a limit order for
  12 units at price 1 is accepted; when the market reaches its price the fill is refused for lack of funds, the settlement of the account fails with it, and
  since every operation settles first, the order can not even be cancelled.\<close>

theorem covered_order_can_block_the_account:
  "snd (paper_placeOrder (demo_spot_view 1000 2) demo_limit_input demo_tight_client) = demo_tight_waiting \<and>
   settleOpenOrdersUnlocked (demo_spot_view 3000 1) demo_tight_waiting = Inl (Insufficient ''USDT'') \<and>
   paper_cancelOrder (demo_spot_view 3000 1) ''1'' ''BTC/USDT'' demo_tight_waiting = (Inl (Insufficient ''USDT''), demo_tight_waiting)"
proof -
  have "js_le (fl (1 / 30)) (Fin 2)" using fl_mono[of "1 / 30" 2] by simp
  from js_le_not_gt[OF this] have tick: "buildMarketPath f demo_tight_order (Fin 1) (Fin 3000) ms cache =
      (Some \<lparr>mp_segments = [\<lparr>seg_high = Fin 1, seg_low = Fin 1, seg_tick = True\<rparr>], mp_checkedAt = Fin 3000\<rparr>, cache)" for f ms cache
    by (simp add: buildMarketPath_def order_since_def demo_tight_order_def new_order_def js_sub_def Let_def)
  have o: "pa_orders (cl_account demo_tight_waiting) = [demo_tight_order]" "po_id demo_tight_order = ''1''" "po_status demo_tight_order = PO_open"
    "truthy (po_ocoGroup demo_tight_order) = None" "cl_quote demo_tight_waiting = ''USDT''"
    by (simp_all add: demo_tight_waiting_def demo_tight_client_def demo_new_client_def demo_tight_order_def new_order_def demo_number truthy_def)
  have w: "evaluatePath demo_tight_order [\<lparr>seg_high = Fin 1, seg_low = Fin 1, seg_tick = True\<rparr>] = (demo_tight_order, Some (0, Fin 1))"
    "advanceCheckedAt demo_tight_order (Fin 3000) = demo_tight_order\<lparr>po_lastCheckedAt := Some (Fin 3000)\<rparr>"
    by (simp_all add: evaluatePath_def walk_segment_def walk_limit_def limit_crossed_def isTriggerType_def advanceCheckedAt_def order_since_def demo_tight_order_def new_order_def)
  have s: "settleOpenOrdersUnlocked (demo_spot_view 3000 1) demo_tight_waiting = Inl (Insufficient ''USDT'')"
    by (simp add: settleOpenOrdersUnlocked_def settleAccountOpenOrders_def settle_one_def order_at_def o tick w tight_fill_fails demo_spot_view_def isFinitePositive_def)
  have "spot_account_for demo_tight_waiting ''BTC/USDT'' = Inr ()" by (simp add: spot_account_for_def futures_symbol_def o demo_base demo_not_futures)
  then show ?thesis using tight_placed s by (simp add: paper_cancelOrder_def settle_then_def)
qed

end
