(* ===== verification/Paper_Store.thy ===== *)
theory Paper_Store
  imports Paper_Account
begin

text \<open>
  The stored ledgers of the paper exchange (\<^verbatim>\<open>packages/trading-engine/src/paper-client.ts\<close>): the constructor of the client, the reload that
  precedes every operation, and the writes that follow one. A change of both ledgers is first written to a transaction file, then to the
  two account files, then the transaction file is removed. A single durable write or removal is atomic; the process can stop between
  any two of them, during a change and during a recovery.
\<close>

section \<open>Files and writes\<close>

record paper_files =
  pf_account :: "json option"
  pf_futures :: "json option"
  pf_transaction :: "json option"

datatype file_write = Write_account json | Write_futures json | Write_transaction json | Remove_transaction

fun apply_write :: "file_write \<Rightarrow> paper_files \<Rightarrow> paper_files" where
  "apply_write (Write_account v) d = d\<lparr>pf_account := Some v\<rparr>"
| "apply_write (Write_futures v) d = d\<lparr>pf_futures := Some v\<rparr>"
| "apply_write (Write_transaction v) d = d\<lparr>pf_transaction := Some v\<rparr>"
| "apply_write Remove_transaction d = d\<lparr>pf_transaction := None\<rparr>"

abbreviation apply_writes :: "file_write list \<Rightarrow> paper_files \<Rightarrow> paper_files" where
  "apply_writes ws d \<equiv> fold apply_write ws d"

definition transaction_json :: "paper_account \<Rightarrow> paper_account \<Rightarrow> json" where
  "transaction_json a f = J_obj [(''version'', J_num (Fin 1)), (''account'', account_json a), (''futuresAccount'', account_json f)]"

definition persistAccountsUnlocked :: "bool \<Rightarrow> bool \<Rightarrow> paper_account \<Rightarrow> paper_account \<Rightarrow> file_write list" where
  "persistAccountsUnlocked spot futures a f =
     (if \<not> spot \<and> \<not> futures then []
      else if spot \<and> futures then [Write_transaction (transaction_json a f), Write_account (account_json a), Write_futures (account_json f), Remove_transaction]
      else (if spot then [Write_account (account_json a)] else []) @ (if futures then [Write_futures (account_json f)] else []))"

definition persistAllUnlocked :: "paper_account \<Rightarrow> paper_account \<Rightarrow> file_write list" where
  "persistAllUnlocked a f = persistAccountsUnlocked True True a f"

datatype store_error =
    Invalid_transaction
  | Invalid_ledger account_error
  | Transaction_quote_mismatch
  | Missing_account
  | Position_mode_mismatch
  | Bad_option string

definition recoverTransactionUnlocked :: "string \<Rightarrow> paper_files \<Rightarrow> store_error + file_write list" where
  "recoverTransactionUnlocked quote d =
     (case pf_transaction d of
        None \<Rightarrow> Inr []
      | Some raw \<Rightarrow>
          (case read_object raw of
             None \<Rightarrow> Inl Invalid_transaction
           | Some r \<Rightarrow>
               if jget r ''version'' \<noteq> J_num (Fin 1) then Inl Invalid_transaction
               else ebind (emap_error Invalid_ledger (parsePaperAccount (jget r ''account''))) (\<lambda>a.
                    ebind (emap_error Invalid_ledger (parsePaperAccount (jget r ''futuresAccount''))) (\<lambda>f.
                      if pa_quote a \<noteq> quote \<or> pa_quote f \<noteq> quote then Inl Transaction_quote_mismatch
                      else Inr [Write_account (account_json a), Write_futures (account_json f), Remove_transaction]))))"

section \<open>Loading\<close>

text \<open>The configuration of a client and the ledgers it holds in memory.\<close>

record store_client =
  ps_quote :: string
  ps_feeRate :: jsnum
  ps_maintenanceMarginRate :: jsnum
  ps_marketType :: market_type
  ps_startQuote :: jsnum
  ps_positionMode :: position_mode
  ps_account :: paper_account
  ps_futures :: paper_account
  ps_nextOrderId :: nat
  ps_leverage :: jsnum
  ps_marginType :: margin_type

definition given_or :: "'a option \<Rightarrow> 'a \<Rightarrow> 'a" where
  "given_or x y = (case x of None \<Rightarrow> y | Some z \<Rightarrow> z)"

definition legacyFuturesSettings :: "store_client \<Rightarrow> jsnum \<times> margin_type" where
  "legacyFuturesSettings c = (given_or (pa_leverage (ps_futures c)) (ps_leverage c), given_or (pa_marginType (ps_futures c)) (ps_marginType c))"

definition snapshotFuturesLots :: "store_client \<Rightarrow> futures_entry \<Rightarrow> futures_lot list" where
  "snapshotFuturesLots c e =
     (case fe_lots e of
        Some ls \<Rightarrow> ls
      | None \<Rightarrow>
          if js_eq (fe_amount e) (Fin 0) then []
          else let (leverage, m) = legacyFuturesSettings c
               in [\<lparr>lt_amount = js_abs (fe_amount e), lt_price = js_div (fe_cost e) (js_abs (fe_amount e)),
                    lt_leverage = given_or (fe_leverage e) leverage, lt_marginType = given_or (fe_marginType e) m\<rparr>])"

definition upgrade_entry :: "store_client \<Rightarrow> futures_entry \<Rightarrow> futures_entry" where
  "upgrade_entry c e = (if js_eq (fe_amount e) (Fin 0) \<or> fe_lots e \<noteq> None then e else e\<lparr>fe_lots := Some (snapshotFuturesLots c e)\<rparr>)"

definition has_futures_exposure :: "paper_account \<Rightarrow> bool" where
  "has_futures_exposure f \<longleftrightarrow> list_ex (\<lambda>e. \<not> js_eq (fe_amount (snd e)) (Fin 0)) (pa_entries f) \<or> list_ex (\<lambda>ord. po_status ord = PO_open) (pa_orders f)"

definition applyLoadedFuturesState :: "position_mode \<Rightarrow> jsnum \<Rightarrow> margin_type \<Rightarrow> store_client \<Rightarrow> store_error + store_client" where
  "applyLoadedFuturesState mode defaultLeverage defaultMarginType c =
     (let f = ps_futures c
      in if given_or (pa_positionMode f) One_way \<noteq> mode \<and> has_futures_exposure f then Inl Position_mode_mismatch
         else let c = c\<lparr>ps_leverage := given_or (pa_leverage f) defaultLeverage, ps_marginType := given_or (pa_marginType f) defaultMarginType\<rparr>
              in Inr (c\<lparr>ps_futures := f\<lparr>pa_positionMode := Some mode, pa_entries := map (\<lambda>(k, e). (k, upgrade_entry c e)) (pa_entries f)\<rparr>\<rparr>))"

definition renumber :: "store_client \<Rightarrow> store_client" where
  "renumber c = c\<lparr>ps_nextOrderId := maxPersistedOrderId [ps_account c, ps_futures c]\<rparr>"

text \<open>The branch without a usable futures file: outside spot mode a fresh futures ledger replaces the one in memory.\<close>

definition reload_without_futures :: "jsnum \<Rightarrow> paper_account \<Rightarrow> store_client \<Rightarrow> store_error option \<times> store_client" where
  "reload_without_futures now a c =
     (if ps_marketType c = Spot then (None, renumber (c\<lparr>ps_account := a\<rparr>))
      else let c = c\<lparr>ps_futures := freshFuturesAccount now (ps_quote c) (ps_startQuote c) (ps_leverage c) (ps_marginType c) (ps_positionMode c)\<rparr>
           in case applyLoadedFuturesState (ps_positionMode c) (ps_leverage c) (ps_marginType c) c of
                Inl e \<Rightarrow> (Some e, c)
              | Inr c \<Rightarrow> (None, renumber (c\<lparr>ps_account := a\<rparr>)))"

definition load_files :: "jsnum \<Rightarrow> paper_files \<Rightarrow> store_client \<Rightarrow> store_error option \<times> store_client" where
  "load_files now d c =
     (case pf_account d of
        None \<Rightarrow> (Some Missing_account, c)
      | Some stored \<Rightarrow>
          (case parsePaperAccount stored of
             Inl e \<Rightarrow> (Some (Invalid_ledger e), c)
           | Inr a \<Rightarrow>
               if pa_quote a \<noteq> ps_quote c
               then (None, renumber (c\<lparr>ps_account := freshSpotAccount now (ps_quote c) (given_or (obj_get (pa_balances (ps_account c)) (ps_quote c)) (Fin 0))\<rparr>))
               else (case pf_futures d of
                       None \<Rightarrow> reload_without_futures now a c
                     | Some storedFutures \<Rightarrow>
                         (case parsePaperAccount storedFutures of
                            Inl e \<Rightarrow> (Some (Invalid_ledger e), c)
                          | Inr f \<Rightarrow>
                              if pa_quote f \<noteq> ps_quote c then reload_without_futures now a c
                              else let c = c\<lparr>ps_account := a, ps_futures := f\<rparr>
                                   in case applyLoadedFuturesState (ps_positionMode c) (ps_leverage c) (ps_marginType c) c of
                                        Inl e \<Rightarrow> (Some e, c)
                                      | Inr c \<Rightarrow> (None, renumber c)))))"

text \<open>The error thrown, if any, the client afterwards and the writes done.\<close>

definition reloadAccountsUnlocked :: "jsnum \<Rightarrow> paper_files \<Rightarrow> store_client \<Rightarrow> store_error option \<times> store_client \<times> file_write list" where
  "reloadAccountsUnlocked now d c =
     (case recoverTransactionUnlocked (ps_quote c) d of
        Inl e \<Rightarrow> (Some e, c, [])
      | Inr ws \<Rightarrow> let (e, c') = load_files now (apply_writes ws d) c in (e, c', ws))"

section \<open>The constructor\<close>

record client_options =
  op_id :: string
  op_quote :: string
  op_startQuote :: jsnum
  op_feeRate :: jsnum
  op_marketType :: market_type
  op_leverage :: jsnum
  op_marginType :: margin_type
  op_positionMode :: position_mode
  op_maintenanceMarginRate :: jsnum

definition quote_char :: "char \<Rightarrow> bool" where
  "quote_char ch \<longleftrightarrow> is_upper ch \<or> is_digit ch \<or> ch \<in> {CHR ''_'', CHR ''-''}"

text \<open>\<open>known\<close>: the exchange library has a class for the id.\<close>

definition check_options :: "(string \<Rightarrow> bool) \<Rightarrow> client_options \<Rightarrow> store_error + unit" where
  "check_options known opts =
     (if op_id opts = [] then Inl (Bad_option ''id'')
      else if op_quote opts = [] \<or> \<not> list_all quote_char (op_quote opts) then Inl (Bad_option ''quoteCurrency'')
      else if \<not> is_finite (op_startQuote opts) \<or> js_lt (op_startQuote opts) (Fin 0) then Inl (Bad_option ''startQuote'')
      else if \<not> is_finite (op_feeRate opts) \<or> js_lt (op_feeRate opts) (Fin 0) \<or> js_ge (op_feeRate opts) (Fin 1) then Inl (Bad_option ''feeRate'')
      else if \<not> leverage_ok (op_leverage opts) then Inl (Bad_option ''leverage'')
      else if \<not> is_finite (op_maintenanceMarginRate opts) \<or> js_le (op_maintenanceMarginRate opts) (Fin 0) \<or> js_ge (op_maintenanceMarginRate opts) (Fin 1)
           then Inl (Bad_option ''maintenanceMarginRate'')
      else if \<not> known (op_id opts) then Inl (Bad_option ''exchange'')
      else Inr ())"

definition read_ledger :: "json option \<Rightarrow> store_error + paper_account option" where
  "read_ledger stored =
     (case stored of None \<Rightarrow> Inr None | Some v \<Rightarrow> ebind (emap_error Invalid_ledger (parsePaperAccount v)) (\<lambda>a. Inr (Some a)))"

definition adopted :: "string \<Rightarrow> paper_account option \<Rightarrow> paper_account \<Rightarrow> paper_account" where
  "adopted quote stored fresh = (case stored of None \<Rightarrow> fresh | Some a \<Rightarrow> if pa_quote a \<noteq> quote then fresh else a)"

definition open_ledgers :: "jsnum \<Rightarrow> client_options \<Rightarrow> paper_files \<Rightarrow> store_error + (store_client \<times> file_write list)" where
  "open_ledgers now opts d =
     ebind (read_ledger (pf_account d)) (\<lambda>storedAccount.
     ebind (read_ledger (pf_futures d)) (\<lambda>storedFutures.
     ebind (applyLoadedFuturesState (op_positionMode opts) (op_leverage opts) (op_marginType opts)
              \<lparr>ps_quote = op_quote opts, ps_feeRate = op_feeRate opts, ps_maintenanceMarginRate = op_maintenanceMarginRate opts, ps_marketType = op_marketType opts, ps_startQuote = op_startQuote opts, ps_positionMode = op_positionMode opts,
               ps_account = adopted (op_quote opts) storedAccount (freshSpotAccount now (op_quote opts) (op_startQuote opts)),
               ps_futures = adopted (op_quote opts) storedFutures
                 (freshFuturesAccount now (op_quote opts) (op_startQuote opts) (op_leverage opts) (op_marginType opts) (op_positionMode opts)),
               ps_nextOrderId = 0, ps_leverage = op_leverage opts, ps_marginType = op_marginType opts\<rparr>) (\<lambda>c.
       Inr (renumber c,
            if storedAccount = None \<and> storedFutures = None \<and> op_marketType opts \<noteq> Spot then persistAllUnlocked (ps_account c) (ps_futures c)
            else if storedAccount = None then persistAccountsUnlocked True False (ps_account c) (ps_futures c)
            else if storedFutures = None \<and> op_marketType opts \<noteq> Spot then persistAccountsUnlocked False True (ps_account c) (ps_futures c)
            else []))))"

text \<open>The result of the constructor and the writes it does, also when it throws.\<close>

definition paper_constructor :: "(string \<Rightarrow> bool) \<Rightarrow> jsnum \<Rightarrow> client_options \<Rightarrow> paper_files \<Rightarrow> (store_error + store_client) \<times> file_write list" where
  "paper_constructor known now opts d =
     (case check_options known opts of
        Inl e \<Rightarrow> (Inl e, [])
      | Inr _ \<Rightarrow>
          (case recoverTransactionUnlocked (op_quote opts) d of
             Inl e \<Rightarrow> (Inl e, [])
           | Inr ws \<Rightarrow>
               (case open_ledgers now opts (apply_writes ws d) of
                  Inl e \<Rightarrow> (Inl e, ws)
                | Inr (c, ws') \<Rightarrow> (Inr c, ws @ ws'))))"

section \<open>Crashes\<close>

text \<open>The files after the first \<open>k\<close> writes, and recoveries that may stop anywhere.\<close>

definition cut :: "nat \<Rightarrow> file_write list \<Rightarrow> paper_files \<Rightarrow> paper_files" where
  "cut k ws d = apply_writes (take k ws) d"

inductive recovers :: "string \<Rightarrow> paper_files \<Rightarrow> paper_files \<Rightarrow> bool" for quote where
  none: "recovers quote d d"
| attempt: "recovers quote d (cut k ws d')" if "recovers quote d d'" "recoverTransactionUnlocked quote d' = Inr ws"

text \<open>A futures ledger as a client holds it: its mode is set and its open positions have lots.\<close>

definition held_futures :: "position_mode \<Rightarrow> paper_account \<Rightarrow> bool" where
  "held_futures mode f \<longleftrightarrow> pa_positionMode f = Some mode \<and> list_all (\<lambda>e. js_eq (fe_amount (snd e)) (Fin 0) \<or> fe_lots (snd e) \<noteq> None) (pa_entries f)"

text \<open>The states of the files between the start and the end of a change of both ledgers.\<close>

definition between :: "paper_files \<Rightarrow> paper_account \<Rightarrow> paper_account \<Rightarrow> paper_files \<Rightarrow> bool" where
  "between d0 a f d \<longleftrightarrow>
     d = d0 \<or>
     pf_transaction d = Some (transaction_json a f) \<and> pf_account d \<in> {pf_account d0, Some (account_json a)} \<and> pf_futures d \<in> {pf_futures d0, Some (account_json f)} \<or>
     d = \<lparr>pf_account = Some (account_json a), pf_futures = Some (account_json f), pf_transaction = None\<rparr>"

lemma apply_holds_futures:
  assumes "applyLoadedFuturesState mode l m c = Inr c'" shows "held_futures mode (ps_futures c')"
  using assms by (auto simp: applyLoadedFuturesState_def Let_def held_futures_def list_all_iff upgrade_entry_def split: if_splits)

lemma apply_held_futures:
  assumes "held_futures mode (ps_futures c)"
  shows "applyLoadedFuturesState mode l m c = Inr (c\<lparr>ps_leverage := given_or (pa_leverage (ps_futures c)) l, ps_marginType := given_or (pa_marginType (ps_futures c)) m\<rparr>)"
proof -
  have "map (\<lambda>(k, e). (k, upgrade_entry c' e)) (pa_entries (ps_futures c)) = pa_entries (ps_futures c)" for c'
    using assms by (intro map_idI) (auto simp: held_futures_def upgrade_entry_def list_all_iff)
  with assms show ?thesis by (simp add: applyLoadedFuturesState_def Let_def held_futures_def given_or_def)
qed

lemma cut_simps: "cut k [] d = d" "cut 0 ws d = d" "cut (Suc k) (w # ws) d = cut k ws (apply_write w d)"
  by (simp_all add: cut_def)

lemma recovery_writes:
  assumes "pf_transaction d = Some (transaction_json a f)" "account_ok a" "account_ok f" "pa_quote a = quote" "pa_quote f = quote"
  shows "recoverTransactionUnlocked quote d = Inr [Write_account (account_json a), Write_futures (account_json f), Remove_transaction]"
  using assms account_reload[of a] account_reload[of f]
  by (simp add: recoverTransactionUnlocked_def transaction_json_def jget_literal emap_error_def)

lemma cut_four: "cut k [w, x, y, z] d \<in> {d, apply_write w d, apply_write x (apply_write w d), apply_write y (apply_write x (apply_write w d)),
    apply_write z (apply_write y (apply_write x (apply_write w d)))}"
  by (cases k; cases "k - 1"; cases "k - 2"; cases "k - 3") (auto simp: cut_def take_Cons')

lemma cut_three: "cut k [w, x, y] d \<in> {d, apply_write w d, apply_write x (apply_write w d), apply_write y (apply_write x (apply_write w d))}"
  by (cases k; cases "k - 1"; cases "k - 2") (auto simp: cut_def take_Cons')

lemma persist_between:
  assumes "pf_transaction d0 = None" shows "between d0 a f (cut k (persistAllUnlocked a f) d0)"
  using cut_four[of k "Write_transaction (transaction_json a f)" "Write_account (account_json a)" "Write_futures (account_json f)" Remove_transaction d0] assms
  by (auto simp: persistAllUnlocked_def persistAccountsUnlocked_def between_def)

lemma recover_between:
  assumes "recovers quote d d'" "between d0 a f d" "pf_transaction d0 = None" "account_ok a" "account_ok f" "pa_quote a = quote" "pa_quote f = quote"
  shows "between d0 a f d'"
  using assms(1,2)
proof (induction rule: recovers.induct)
  case (attempt d d' ws k)
  then have b: "between d0 a f d'" by simp
  show ?case
  proof (cases "pf_transaction d'")
    case None
    then show ?thesis using attempt.hyps(2) b by (simp add: recoverTransactionUnlocked_def cut_simps)
  next
    case (Some t)
    then have t: "pf_transaction d' = Some (transaction_json a f)" using b assms(3) by (auto simp: between_def)
    then have "ws = [Write_account (account_json a), Write_futures (account_json f), Remove_transaction]"
      using attempt.hyps(2) recovery_writes[OF t assms(4-7)] by simp
    then show ?thesis using b t assms(3) cut_three[of k "Write_account (account_json a)" "Write_futures (account_json f)" Remove_transaction d']
      by (auto simp: between_def)
  qed
qed simp

text \<open>What the next reload finds.\<close>

lemma load_new_ledgers:
  assumes "pf_account d = Some (account_json a)" "pf_futures d = Some (account_json f)" "account_ok a" "account_ok f"
    "pa_quote a = ps_quote c" "pa_quote f = ps_quote c" "held_futures (ps_positionMode c) f"
  shows "\<exists>c'. load_files now d c = (None, c') \<and> ps_account c' = a \<and> ps_futures c' = f \<and> ps_nextOrderId c' = maxPersistedOrderId [a, f]"
  using assms account_reload[of a] account_reload[of f]
    apply_held_futures[of "ps_positionMode c" "c\<lparr>ps_account := a, ps_futures := f\<rparr>" "ps_leverage c" "ps_marginType c"]
  by (simp add: load_files_def Let_def renumber_def)

text \<open>C35. A change of both ledgers survives crashes as a whole: if the process stops after any number of the
  writes of a change, and any number of recoveries stop anywhere too, the next reload removes the transaction file and finds either
  the files from before the change, or both changed ledgers exactly as they were in memory.\<close>

theorem crash_keeps_both_ledgers_or_neither:
  assumes "pf_transaction d0 = None" "account_ok a" "account_ok f" "pa_quote a = ps_quote c" "pa_quote f = ps_quote c" "held_futures (ps_positionMode c) f"
    and "recovers (ps_quote c) (cut k (persistAllUnlocked a f) d0) d"
  shows "\<exists>e c' ws. reloadAccountsUnlocked now d c = (e, c', ws) \<and> pf_transaction (apply_writes ws d) = None \<and>
    (apply_writes ws d = d0 \<and> (e, c') = load_files now d0 c \<or>
     pf_account (apply_writes ws d) = Some (account_json a) \<and> pf_futures (apply_writes ws d) = Some (account_json f) \<and>
     e = None \<and> ps_account c' = a \<and> ps_futures c' = f)"
proof -
  have b: "between d0 a f d" using recover_between[OF assms(7) persist_between[OF assms(1)] assms(1-5)] .
  show ?thesis
  proof (cases "pf_transaction d")
    case None
    then have r: "reloadAccountsUnlocked now d c = (fst (load_files now d c), snd (load_files now d c), [])"
      by (simp add: reloadAccountsUnlocked_def recoverTransactionUnlocked_def split: prod.split)
    from b None consider "d = d0" | "pf_account d = Some (account_json a)" "pf_futures d = Some (account_json f)" by (auto simp: between_def)
    then show ?thesis
    proof cases
      case 1
      then show ?thesis using r None by simp
    next
      case 2
      from load_new_ledgers[OF this assms(2-6), of now] r None 2 show ?thesis by auto
    qed
  next
    case (Some t)
    then have t: "pf_transaction d = Some (transaction_json a f)" using b assms(1) by (auto simp: between_def)
    let ?ws = "[Write_account (account_json a), Write_futures (account_json f), Remove_transaction]"
    from load_new_ledgers[of "apply_writes ?ws d" a f c now] assms(2-6)
    obtain c' where "load_files now (apply_writes ?ws d) c = (None, c')" "ps_account c' = a" "ps_futures c' = f" by auto
    moreover from this recovery_writes[OF t assms(2-5)] have "reloadAccountsUnlocked now d c = (None, c', ?ws)"
      by (simp add: reloadAccountsUnlocked_def)
    ultimately show ?thesis by auto
  qed
qed

definition demo_spot_before :: paper_account where
  "demo_spot_before = freshSpotAccount (Fin 1) ''USDT'' (Fin 100)"

definition demo_futures_before :: paper_account where
  "demo_futures_before = freshFuturesAccount (Fin 1) ''USDT'' (Fin 100) (Fin 5) Isolated One_way"

definition demo_spot_after :: paper_account where
  "demo_spot_after = demo_spot_before\<lparr>pa_balances := [(''USDT'', Fin 40)]\<rparr>"

definition demo_futures_after :: paper_account where
  "demo_futures_after = demo_futures_before\<lparr>pa_balances := [(''USDT'', Fin 160)]\<rparr>"

definition demo_files :: paper_files where
  "demo_files = \<lparr>pf_account = Some (account_json demo_spot_before), pf_futures = Some (account_json demo_futures_before), pf_transaction = None\<rparr>"

definition demo_store_client :: store_client where
  "demo_store_client = \<lparr>ps_quote = ''USDT'', ps_feeRate = Fin 0, ps_maintenanceMarginRate = fl (1 / 200), ps_marketType = Both, ps_startQuote = Fin 100, ps_positionMode = One_way, ps_account = demo_spot_before,
     ps_futures = demo_futures_before, ps_nextOrderId = 1, ps_leverage = Fin 5, ps_marginType = Isolated\<rparr>"

text \<open>A stop after the spot ledger was written, then a recovery that stops after its first write.\<close>

definition demo_crashed_files :: paper_files where
  "demo_crashed_files = cut 1 [Write_account (account_json demo_spot_after), Write_futures (account_json demo_futures_after), Remove_transaction]
     (cut 2 (persistAllUnlocked demo_spot_after demo_futures_after) demo_files)"

lemma demo_ledgers_ok: "account_ok demo_spot_after" "account_ok demo_futures_after" "held_futures One_way demo_futures_after"
  by (simp_all add: demo_spot_after_def demo_spot_before_def demo_futures_after_def demo_futures_before_def freshSpotAccount_def freshFuturesAccount_def
      account_ok_def given_all_def leverage_ok_def held_futures_def)

lemma demo_quotes: "pa_quote demo_spot_after = ''USDT''" "pa_quote demo_futures_after = ''USDT''"
  by (simp_all add: demo_spot_after_def demo_spot_before_def demo_futures_after_def demo_futures_before_def freshSpotAccount_def freshFuturesAccount_def)

lemma demo_client_values: "ps_quote demo_store_client = ''USDT''" "ps_positionMode demo_store_client = One_way"
  by (simp_all add: demo_store_client_def)

lemma demo_recovers: "recovers ''USDT'' (cut 2 (persistAllUnlocked demo_spot_after demo_futures_after) demo_files) demo_crashed_files"
  unfolding demo_crashed_files_def
  by (rule recovers.attempt[OF recovers.none])
    (rule recovery_writes, simp_all add: demo_ledgers_ok demo_quotes persistAllUnlocked_def persistAccountsUnlocked_def cut_def)

theorem crash_keeps_both_ledgers_or_neither_witness:
  "\<exists>e c' ws. reloadAccountsUnlocked (Fin 9) demo_crashed_files demo_store_client = (e, c', ws) \<and> pf_transaction (apply_writes ws demo_crashed_files) = None \<and>
    (apply_writes ws demo_crashed_files = demo_files \<and> (e, c') = load_files (Fin 9) demo_files demo_store_client \<or>
     pf_account (apply_writes ws demo_crashed_files) = Some (account_json demo_spot_after) \<and>
     pf_futures (apply_writes ws demo_crashed_files) = Some (account_json demo_futures_after) \<and>
     e = None \<and> ps_account c' = demo_spot_after \<and> ps_futures c' = demo_futures_after)"
  by (rule crash_keeps_both_ledgers_or_neither[where k = 2])
    (simp_all add: demo_ledgers_ok demo_quotes demo_client_values demo_recovers, simp add: demo_files_def)

section \<open>Startup\<close>

text \<open>C36. Opening a client never overwrites a stored ledger, not even one of another quote currency: when no
  interrupted change is pending, a file that exists is left as it is, also when the constructor throws, and after a successful
  start the spot ledger is on disk.\<close>

theorem startup_keeps_existing_files:
  assumes "pf_transaction d = None" "paper_constructor known now opts d = (r, ws)"
  shows "(pf_account d \<noteq> None \<longrightarrow> pf_account (apply_writes ws d) = pf_account d) \<and> (pf_futures d \<noteq> None \<longrightarrow> pf_futures (apply_writes ws d) = pf_futures d) \<and>
    pf_transaction (apply_writes ws d) = None \<and> (\<forall>c. r = Inr c \<longrightarrow> pf_account (apply_writes ws d) \<noteq> None)"
proof (cases "open_ledgers now opts d")
  case (Inl e)
  then show ?thesis using assms by (auto simp: paper_constructor_def recoverTransactionUnlocked_def split: sum.splits)
next
  case (Inr p)
  obtain c ws' where p: "p = (c, ws')" by force
  have absent: "storedAccount = None \<longleftrightarrow> pf_account d = None" if "read_ledger (pf_account d) = Inr storedAccount" for storedAccount
    using that by (auto simp: read_ledger_def result_simps split: option.splits)
  have absent': "storedFutures = None \<longleftrightarrow> pf_futures d = None" if "read_ledger (pf_futures d) = Inr storedFutures" for storedFutures
    using that by (auto simp: read_ledger_def result_simps split: option.splits)
  from Inr p have "pf_transaction (apply_writes ws' d) = None \<and> pf_account (apply_writes ws' d) \<noteq> None \<and>
      (pf_account d \<noteq> None \<longrightarrow> pf_account (apply_writes ws' d) = pf_account d) \<and> (pf_futures d \<noteq> None \<longrightarrow> pf_futures (apply_writes ws' d) = pf_futures d)"
    using assms(1) absent absent'
    by (auto simp: open_ledgers_def result_simps persistAllUnlocked_def persistAccountsUnlocked_def split: if_splits)
  with Inr p assms show ?thesis by (auto simp: paper_constructor_def recoverTransactionUnlocked_def split: sum.splits)
qed

definition demo_store_options :: client_options where
  "demo_store_options = \<lparr>op_id = ''binance'', op_quote = ''USDC'', op_startQuote = Fin 100, op_feeRate = Fin 0, op_marketType = Both, op_leverage = Fin 5,
     op_marginType = Isolated, op_positionMode = One_way, op_maintenanceMarginRate = fl (1 / 200)\<rparr>"

theorem startup_keeps_existing_files_witness:
  "pf_account (apply_writes (snd (paper_constructor (\<lambda>i. i = ''binance'') (Fin 9) demo_store_options demo_files)) demo_files) = Some (account_json demo_spot_before)"
  using startup_keeps_existing_files[of demo_files "\<lambda>i. i = ''binance''" "Fin 9" demo_store_options
      "fst (paper_constructor (\<lambda>i. i = ''binance'') (Fin 9) demo_store_options demo_files)"
      "snd (paper_constructor (\<lambda>i. i = ''binance'') (Fin 9) demo_store_options demo_files)"]
  by (simp add: demo_files_def)

section \<open>Legacy positions\<close>

text \<open>The upgrade of a position without lots divides its cost by its amount. A stored position of cost zero is accepted, and
  becomes a lot of price zero: the ledger it is then part of is stored by the next change but refused by the next load.\<close>

definition free_position :: futures_entry where
  "free_position = \<lparr>fe_amount = Fin 1, fe_cost = Fin 0, fe_leverage = None, fe_marginType = None, fe_lots = None\<rparr>"

definition free_futures :: paper_account where
  "free_futures = demo_futures_before\<lparr>pa_entries := [(''BTC'', free_position)]\<rparr>"

lemma stored_entries_load:
  assumes "parsePaperAccount (account_json f) = Inr a"
  shows "\<exists>es. parse_dict parseEntry (map (\<lambda>(k, x). (k, entry_json x)) (pa_entries f)) = Inr es"
proof -
  have "jget (stored_fields (account_fields f)) ''entries'' = J_obj (map (\<lambda>(k, x). (k, entry_json x)) (pa_entries f))"
    unfolding jget_stored[OF account_keys] by (simp add: account_fields_def jget_literal dict_json_def)
  with assms show ?thesis by (auto simp: parsePaperAccount_def account_json_def object_field_def result_simps)
qed

theorem upgraded_ledger_can_be_unreadable:
  "parsePaperAccount (account_json free_futures) = Inr free_futures \<and>
   (\<exists>c. applyLoadedFuturesState One_way (Fin 5) Isolated (demo_store_client\<lparr>ps_futures := free_futures\<rparr>) = Inr c \<and>
        (\<exists>e. parsePaperAccount (account_json (ps_futures c)) = Inl e))"
proof -
  have ok: "account_ok free_futures"
    by (simp add: free_futures_def demo_futures_before_def freshSpotAccount_def freshFuturesAccount_def account_ok_def entry_ok_def free_position_def
        nonneg_num_def given_all_def leverage_ok_def)
  obtain c where c: "applyLoadedFuturesState One_way (Fin 5) Isolated (demo_store_client\<lparr>ps_futures := free_futures\<rparr>) = Inr c"
    "pa_entries (ps_futures c) = [(''BTC'', free_position\<lparr>fe_lots := Some [\<lparr>lt_amount = Fin 1, lt_price = Fin 0, lt_leverage = Fin 5, lt_marginType = Isolated\<rparr>]\<rparr>)]"
    by (simp add: applyLoadedFuturesState_def free_futures_def demo_futures_before_def freshSpotAccount_def freshFuturesAccount_def free_position_def
        upgrade_entry_def snapshotFuturesLots_def legacyFuturesSettings_def given_or_def Let_def)
  have "parseEntry (entry_json (free_position\<lparr>fe_lots := Some [\<lparr>lt_amount = Fin 1, lt_price = Fin 0, lt_leverage = Fin 5, lt_marginType = Isolated\<rparr>]\<rparr>)) =
      Inl (Invalid_account ''price'')"
    by (simp add: parseEntry_def entry_json_def lot_json_def parseLot_def free_position_def stored_fields_def opt_json_def field_eval leverage_ok_def)
  then have "parse_dict parseEntry (map (\<lambda>(k, x). (k, entry_json x)) (pa_entries (ps_futures c))) \<noteq> Inr es" for es
    by (simp add: c(2) parse_dict_def)
  then have "parsePaperAccount (account_json (ps_futures c)) \<noteq> Inr a" for a using stored_entries_load by blast
  then have "\<exists>e. parsePaperAccount (account_json (ps_futures c)) = Inl e" by (cases "parsePaperAccount (account_json (ps_futures c))") auto
  then show ?thesis using c(1) account_reload[OF ok] by blast
qed

end
