(* ===== verification/Paper_Futures.thy ===== *)
theory Paper_Futures
  imports Paper_Spot Paper_Store
begin

text \<open>
  The paper exchange in futures mode (\<^verbatim>\<open>packages/trading-engine/src/paper-client.ts\<close>): positions as lists of lots in one-way or hedge mode,
  margin reservations of working orders, fills, orphaned and stale orders, liquidation of isolated and cross lots, and the operations
  of the client over them. An order object is identified by its id. Tickers, candles and market metadata are inputs; a fetch that
  throws is \<open>None\<close>.
\<close>

section \<open>Errors and settings\<close>

datatype futures_error =
    Insufficient_margin
  | Close_is_reduce_only
  | Amount_must_be_positive
  | Hedge_side_required
  | One_way_side_required
  | Close_needs_position
  | Reduce_exceeds_position
  | Reduce_needs_position
  | Reduce_would_increase
  | Cannot_open_side
  | Exceeds_hedge_position
  | No_margin_price
  | Margin_not_finite
  | Close_order_type
  | Spot_disabled
  | Unsupported_futures_market
  | Futures_amount_unrepresentable
  | Liquidation_not_finite
  | Entry_gone
  | Invalid_leverage
  | Projection_price
  | Projection_mixed
  | Projection_not_opening
  | Paper_failed paper_error

text \<open>\<^verbatim>\<open>isStaleFuturesWorkingOrderError\<close>: the errors whose message marks a working order that no longer fits its position.\<close>

definition isStaleFuturesWorkingOrderError :: "futures_error \<Rightarrow> bool" where
  "isStaleFuturesWorkingOrderError e \<longleftrightarrow>
     e \<in> {Reduce_exceeds_position, Reduce_needs_position, Reduce_would_increase, Close_needs_position, Exceeds_hedge_position, Hedge_side_required, Cannot_open_side}"

definition futures_market_symbol :: "store_client \<Rightarrow> string \<Rightarrow> bool" where
  "futures_market_symbol c symbol = suffix (''/'' @ ps_quote c @ '':'' @ ps_quote c) symbol"

definition futures_asset :: "store_client \<Rightarrow> string \<Rightarrow> futures_error + string" where
  "futures_asset c symbol = emap_error Paper_failed (baseAsset symbol (ps_quote c @ '':'' @ ps_quote c))"

definition futuresSettings :: "store_client \<Rightarrow> string \<Rightarrow> jsnum \<times> margin_type" where
  "futuresSettings c symbol =
     (let f = ps_futures c
      in (given_or (Option.bind (pa_leverageBySymbol f) (\<lambda>m. obj_get m symbol)) (given_or (pa_leverage f) (ps_leverage c)),
          given_or (Option.bind (pa_marginTypeBySymbol f) (\<lambda>m. obj_get m symbol)) (given_or (pa_marginType f) (ps_marginType c))))"

definition uniformFuturesLotSettings :: "futures_lot list \<Rightarrow> jsnum option \<times> margin_type option" where
  "uniformFuturesLotSettings lots =
     (case lots of
        [] \<Rightarrow> (None, None)
      | l # _ \<Rightarrow>
          if list_all (\<lambda>x. js_eq (lt_leverage x) (lt_leverage l)) lots \<and> list_all (\<lambda>x. lt_marginType x = lt_marginType l) lots
          then (Some (lt_leverage l), Some (lt_marginType l)) else (None, None))"

fun side_label :: "position_side \<Rightarrow> string" where
  "side_label PS_both = ''BOTH''" | "side_label PS_long = ''LONG''" | "side_label PS_short = ''SHORT''"

definition resolveFuturesPositionSide :: "store_client \<Rightarrow> position_side option \<Rightarrow> futures_error + position_side" where
  "resolveFuturesPositionSide c ps =
     (if ps_positionMode c = Hedge then (case ps of Some PS_long \<Rightarrow> Inr PS_long | Some PS_short \<Rightarrow> Inr PS_short | _ \<Rightarrow> Inl Hedge_side_required)
      else if ps \<noteq> None \<and> ps \<noteq> Some PS_both then Inl One_way_side_required else Inr PS_both)"

definition futuresEntryKey :: "store_client \<Rightarrow> string \<Rightarrow> position_side \<Rightarrow> string" where
  "futuresEntryKey c asset ps = (if ps_positionMode c = Hedge then asset @ '':'' @ side_label ps else asset)"

definition free_margin :: "store_client \<Rightarrow> jsnum" where
  "free_margin c = balance_of (ps_futures c) (ps_quote c)"

definition set_free_margin :: "jsnum \<Rightarrow> store_client \<Rightarrow> store_client" where
  "set_free_margin b c = c\<lparr>ps_futures := set_balance (ps_quote c) b (ps_futures c)\<rparr>"

definition put_futures_order :: "paper_order \<Rightarrow> store_client \<Rightarrow> store_client" where
  "put_futures_order ord c = c\<lparr>ps_futures := put_order ord (ps_futures c)\<rparr>"

section \<open>Preparing a fill\<close>

text \<open>A position of this sign is reduced by an order of this side.\<close>

definition side_reduces :: "side \<Rightarrow> jsnum \<Rightarrow> bool" where
  "side_reduces s amount = (if s = Buy then js_lt amount (Fin 0) else js_gt amount (Fin 0))"

definition locks_position :: "store_client \<Rightarrow> paper_order \<Rightarrow> jsnum \<Rightarrow> bool" where
  "locks_position c ord signed \<longleftrightarrow>
     po_reduceOnly ord = Some True \<or> po_closePosition ord = Some True \<or>
     ps_positionMode c = Hedge \<and> \<not> js_eq signed (Fin 0) \<and> side_reduces (po_side ord) signed"

definition locked_step :: "store_client \<Rightarrow> string \<Rightarrow> string option \<Rightarrow> paper_order \<Rightarrow> jsnum \<Rightarrow> futures_error + jsnum" where
  "locked_step c entryKey excluded ord locked =
     (let signed = fe_amount (entry_of (ps_futures c) entryKey)
      in if po_status ord \<noteq> PO_open \<or> Some (po_id ord) = excluded then Inr locked
         else ebind (futures_asset c (po_symbol ord)) (\<lambda>asset.
                if futuresEntryKey c asset (given_or (po_positionSide ord) PS_both) \<noteq> entryKey then Inr locked
                else if \<not> locks_position c ord signed then Inr locked
                else Inr (js_add locked (if po_closePosition ord = Some True then js_abs signed else js_sub (po_amount ord) (po_filled ord)))))"

definition futuresLockedAmount :: "store_client \<Rightarrow> string \<Rightarrow> string option \<Rightarrow> futures_error + jsnum" where
  "futuresLockedAmount c entryKey excluded = efold (locked_step c entryKey excluded) (pa_orders (ps_futures c)) (Fin 0)"

record prepared_fill =
  fp_positionSide :: position_side
  fp_entryKey :: string
  fp_current :: futures_entry
  fp_currentQty :: jsnum
  fp_currentLots :: "futures_lot list"
  fp_leverage :: jsnum
  fp_marginType :: margin_type
  fp_requested :: jsnum
  fp_reducing :: bool

text \<open>The amount a fill is asked for, after the clamps for rounding tails.\<close>

definition requested_amount :: "place_order_input \<Rightarrow> bool \<Rightarrow> jsnum \<Rightarrow> jsnum \<Rightarrow> jsnum" where
  "requested_amount input reducing currentQty unlocked =
     (let r0 = (if in_closePosition input = Some True then currentQty else in_amount input);
          r1 = (if reducing \<and> futuresAmountsEqual r0 currentQty then currentQty else r0)
      in if (in_reduceOnly input = Some True \<or> in_closePosition input = Some True) \<and> futuresAmountsEqual r1 unlocked then unlocked else r1)"

definition exceeds :: "jsnum \<Rightarrow> jsnum \<Rightarrow> bool" where
  "exceeds requested bound \<longleftrightarrow> js_gt requested bound \<and> \<not> futuresAmountsEqual requested bound"

definition prepareFuturesFill :: "place_order_input \<Rightarrow> string option \<Rightarrow> store_client \<Rightarrow> futures_error + prepared_fill" where
  "prepareFuturesFill input excluded c =
     (let closes = (in_closePosition input = Some True); reduces = (in_reduceOnly input = Some True)
      in if closes \<and> in_reduceOnly input = Some False then Inl Close_is_reduce_only
         else if \<not> closes \<and> (\<not> is_finite (in_amount input) \<or> js_le (in_amount input) (Fin 0)) then Inl Amount_must_be_positive
         else ebind (resolveFuturesPositionSide c (in_positionSide input)) (\<lambda>ps.
              ebind (futures_asset c (in_symbol input)) (\<lambda>asset.
                let entryKey = futuresEntryKey c asset ps; current = entry_of (ps_futures c) entryKey; currentQty = js_abs (fe_amount current)
                in ebind (futuresLockedAmount c entryKey excluded) (\<lambda>locked.
                     let unlocked = js_max (Fin 0) (js_sub currentQty locked);
                         reducing = (js_gt currentQty (Fin 0) \<and> side_reduces (in_side input) (fe_amount current));
                         requested = requested_amount input reducing currentQty unlocked
                     in if closes \<and> (\<not> reducing \<or> js_eq currentQty (Fin 0)) then Inl Close_needs_position
                        else if closes \<and> js_gt locked (Fin 0) \<and> \<not> futuresAmountsEqual locked (Fin 0) then Inl Reduce_exceeds_position
                        else if reduces \<and> js_eq currentQty (Fin 0) then Inl Reduce_needs_position
                        else if reduces \<and> \<not> reducing then Inl Reduce_would_increase
                        else if reduces \<and> exceeds requested unlocked then Inl Reduce_exceeds_position
                        else if ps_positionMode c = Hedge \<and> js_eq currentQty (Fin 0) \<and> in_side input \<noteq> (if ps = PS_long then Buy else Sell)
                             then Inl Cannot_open_side
                        else if ps_positionMode c = Hedge \<and> reducing \<and> (exceeds requested unlocked \<or> exceeds requested currentQty)
                             then Inl Exceeds_hedge_position
                        else Inr \<lparr>fp_positionSide = ps, fp_entryKey = entryKey, fp_current = current, fp_currentQty = currentQty,
                                  fp_currentLots = snapshotFuturesLots c current, fp_leverage = fst (futuresSettings c (in_symbol input)),
                                  fp_marginType = snd (futuresSettings c (in_symbol input)), fp_requested = requested, fp_reducing = reducing\<rparr>))))"

section \<open>Margin reservations\<close>

definition reserved_of :: "paper_order \<Rightarrow> jsnum" where
  "reserved_of ord = given_or (po_reservedMargin ord) (Fin 0)"

definition applyFuturesReservation :: "paper_order \<Rightarrow> jsnum \<Rightarrow> store_client \<Rightarrow> futures_error + (paper_order \<times> store_client)" where
  "applyFuturesReservation ord new c =
     (let delta = js_sub new (reserved_of ord); free = free_margin c; ord' = ord\<lparr>po_reservedMargin := Some new\<rparr>
      in if js_eq delta (Fin 0) then Inr (ord', c)
         else if js_gt delta (Fin 0) \<and> js_lt free delta then Inl Insufficient_margin
         else Inr (ord', set_free_margin (js_sub free delta) c))"

text \<open>The market input that fills the rest of a working order.\<close>

definition working_input :: "paper_order \<Rightarrow> string option \<Rightarrow> place_order_input" where
  "working_input ord clientOrderId =
     \<lparr>in_symbol = po_symbol ord, in_side = po_side ord, in_type = Market, in_amount = js_sub (po_amount ord) (po_filled ord), in_price = None,
      in_reduceOnly = po_reduceOnly ord, in_positionSide = po_positionSide ord, in_stopPrice = None, in_trailingPercent = None,
      in_closePosition = po_closePosition ord, in_clientOrderId = clientOrderId\<rparr>"

definition closing_amount :: "prepared_fill \<Rightarrow> jsnum" where
  "closing_amount p = (if fp_reducing p then js_min (fp_currentQty p) (fp_requested p) else Fin 0)"

definition reserveFuturesOrder :: "paper_order \<Rightarrow> store_client \<Rightarrow> futures_error + (paper_order \<times> store_client)" where
  "reserveFuturesOrder ord c =
     (if po_reduceOnly ord = Some True \<or> po_closePosition ord = Some True then applyFuturesReservation ord (Fin 0) c
      else if \<not> isFinitePositive (po_reservePrice ord) then Inl No_margin_price
      else let unitPrice = the (po_reservePrice ord); remaining = js_sub (po_amount ord) (po_filled ord)
           in if js_le remaining (Fin 0) then applyFuturesReservation ord (Fin 0) c
              else ebind (prepareFuturesFill (working_input ord None) (Some (po_id ord)) c) (\<lambda>p.
                let opening = js_sub (fp_requested p) (closing_amount p);
                    margin = js_add (js_div (js_mul opening unitPrice) (fst (futuresSettings c (po_symbol ord)))) (js_mul (js_mul remaining unitPrice) (ps_feeRate c))
                in if \<not> is_finite margin \<or> js_lt margin (Fin 0) then Inl Margin_not_finite else applyFuturesReservation ord margin c))"

text \<open>\<^verbatim>\<open>releaseReservation\<close> for the orders of the futures ledger; an order of another market is released from the spot ledger.\<close>

definition release_working :: "paper_order \<Rightarrow> store_client \<Rightarrow> futures_error + (paper_order \<times> store_client)" where
  "release_working ord c =
     (if futures_market_symbol c (po_symbol ord) then
        Inr (ord\<lparr>po_reservedMargin := Some (Fin 0)\<rparr>,
             if js_gt (reserved_of ord) (Fin 0) then set_free_margin (js_add (free_margin c) (reserved_of ord)) c else c)
      else let remaining = js_sub (po_amount ord) (po_filled ord); credit = (\<lambda>asset x. c\<lparr>ps_account := set_balance asset (js_add (balance_of (ps_account c) asset) x) (ps_account c)\<rparr>)
        in if po_side ord = Buy then
             Inr (ord, case reserve_unit ord of None \<Rightarrow> c | Some unitPrice \<Rightarrow> credit (ps_quote c) (js_mul (js_mul remaining unitPrice) (js_add (Fin 1) (ps_feeRate c))))
           else ebind (emap_error Paper_failed (baseAsset (po_symbol ord) (ps_quote c))) (\<lambda>asset. Inr (ord, credit asset remaining)))"

text \<open>\<^verbatim>\<open>syncFuturesOpeningReserve\<close>: the order, the client, and whether the order is margined.\<close>

definition syncFuturesOpeningReserve :: "paper_order \<Rightarrow> jsnum option \<Rightarrow> store_client \<Rightarrow> futures_error + (bool \<times> paper_order \<times> store_client)" where
  "syncFuturesOpeningReserve ord fillPrice c =
     (if po_reduceOnly ord = Some True \<or> po_closePosition ord = Some True then Inr (True, ord, c)
      else let nextPrice =
             (if isFinitePositive fillPrice then fillPrice
              else if po_type ord = Trailing_stop_market \<and> po_trailingPercent ord \<noteq> None \<and> isFinitePositive (po_trailingExtreme ord)
                   then Some (trailingStopLevel (po_side ord) (the (po_trailingExtreme ord)) (the (po_trailingPercent ord)))
              else po_reservePrice ord)
           in if \<not> isFinitePositive nextPrice then Inr (True, ord, c)
              else case reserveFuturesOrder (ord\<lparr>po_reservePrice := nextPrice\<rparr>) c of
                     Inr (ord', c') \<Rightarrow> Inr (True, ord', c')
                   | Inl e \<Rightarrow> if e = Insufficient_margin then Inr (False, ord, c) else Inl e)"

definition futuresReservedMargin :: "store_client \<Rightarrow> jsnum" where
  "futuresReservedMargin c = foldl (\<lambda>s ord. if po_status ord = PO_open then js_add s (reserved_of ord) else s) (Fin 0) (pa_orders (ps_futures c))"

text \<open>A reducing order still fits the position it reduces.\<close>

definition orphaned :: "store_client \<Rightarrow> string \<Rightarrow> paper_order \<Rightarrow> bool" where
  "orphaned c asset ord =
     (case obj_get (pa_entries (ps_futures c)) (futuresEntryKey c asset (given_or (po_positionSide ord) PS_both)) of
        None \<Rightarrow> True
      | Some e \<Rightarrow>
          let remaining = js_sub (po_amount ord) (po_filled ord)
          in \<not> (side_reduces (po_side ord) (fe_amount e) \<and>
                (po_closePosition ord = Some True \<or> js_le remaining (js_abs (fe_amount e)) \<or> futuresAmountsEqual remaining (js_abs (fe_amount e)))))"

definition cancel_working :: "paper_order \<Rightarrow> store_client \<Rightarrow> futures_error + store_client" where
  "cancel_working ord c = ebind (release_working (ord\<lparr>po_status := PO_canceled\<rparr>) c) (\<lambda>(ord', c'). Inr (put_futures_order ord' c'))"

definition orphan_step :: "string \<Rightarrow> bool \<times> store_client \<Rightarrow> futures_error + (bool \<times> store_client)" where
  "orphan_step i = (\<lambda>(dirty, c).
     (case order_at (ps_futures c) i of
        None \<Rightarrow> Inr (dirty, c)
      | Some ord \<Rightarrow>
          if po_status ord \<noteq> PO_open \<or> po_reduceOnly ord \<noteq> Some True \<and> po_closePosition ord \<noteq> Some True then Inr (dirty, c)
          else ebind (futures_asset c (po_symbol ord)) (\<lambda>asset.
                 if orphaned c asset ord then ebind (cancel_working ord c) (\<lambda>c'. Inr (True, c')) else Inr (dirty, c))))"

definition cancelOrphanedFuturesReduceOrders :: "store_client \<Rightarrow> futures_error + (bool \<times> store_client)" where
  "cancelOrphanedFuturesReduceOrders c = efold orphan_step (map po_id (pa_orders (ps_futures c))) (False, c)"

definition refresh_step :: "string \<Rightarrow> store_client \<Rightarrow> futures_error + store_client" where
  "refresh_step i c =
     (case order_at (ps_futures c) i of
        None \<Rightarrow> Inr c
      | Some ord \<Rightarrow>
          if po_status ord \<noteq> PO_open then Inr c
          else case syncFuturesOpeningReserve ord None c of
                 Inr (_, ord', c') \<Rightarrow> Inr (put_futures_order ord' c')
               | Inl e \<Rightarrow> if isStaleFuturesWorkingOrderError e then cancel_working ord c else Inl e)"

definition refreshFuturesOpeningReserves :: "store_client \<Rightarrow> futures_error + store_client" where
  "refreshFuturesOpeningReserves c = efold refresh_step (map po_id (pa_orders (ps_futures c))) c"

section \<open>Fills\<close>

definition math_sign :: "jsnum \<Rightarrow> jsnum" where
  "math_sign x = (case x of NaN \<Rightarrow> NaN | _ \<Rightarrow> Fin (js_sign x))"

text \<open>The lots of the position are closed in order: the lots left, the margin released and the profit.\<close>

fun close_lots :: "bool \<Rightarrow> jsnum \<Rightarrow> jsnum \<Rightarrow> futures_lot list \<Rightarrow> jsnum \<Rightarrow> jsnum \<Rightarrow> jsnum \<Rightarrow> futures_lot list \<times> jsnum \<times> jsnum" where
  "close_lots all price dir [] toClose released pnl = ([], released, pnl)"
| "close_lots all price dir (l # ls) toClose released pnl =
     (let closed = (if all \<or> futuresAmountsEqual (lt_amount l) toClose then lt_amount l else js_min (lt_amount l) toClose);
          (rest, released', pnl') =
            (if js_gt closed (Fin 0)
             then close_lots all price dir ls (js_max (Fin 0) (js_sub toClose closed)) (js_add released (js_div (js_mul closed (lt_price l)) (lt_leverage l)))
                    (js_add pnl (js_mul (js_mul closed (js_sub price (lt_price l))) dir))
             else close_lots all price dir ls toClose released pnl)
      in (if js_gt (lt_amount l) closed then l\<lparr>lt_amount := js_sub (lt_amount l) closed\<rparr> # rest else rest, released', pnl'))"

definition entry_of_lots :: "jsnum \<Rightarrow> futures_lot list \<Rightarrow> futures_entry" where
  "entry_of_lots direction lots =
     \<lparr>fe_amount = js_mul direction (lots_amount lots), fe_cost = lots_cost lots, fe_leverage = fst (uniformFuturesLotSettings lots),
      fe_marginType = snd (uniformFuturesLotSettings lots), fe_lots = Some lots\<rparr>"

definition store_lots :: "string \<Rightarrow> jsnum \<Rightarrow> futures_lot list \<Rightarrow> futures_entry obj \<Rightarrow> futures_entry obj" where
  "store_lots entryKey direction lots entries =
     (if lots = [] then obj_del entries entryKey else obj_set entries entryKey (entry_of_lots direction lots))"

definition futures_market_order :: "jsnum \<Rightarrow> nat \<Rightarrow> place_order_input \<Rightarrow> prepared_fill \<Rightarrow> jsnum \<Rightarrow> jsnum \<Rightarrow> order_fee_observation \<Rightarrow> paper_order" where
  "futures_market_order now n input p price notional obs =
     (market_fill now (show_nat n) (in_symbol input) (in_side input) (fp_requested p) price notional obs
        (Some (given_or (in_clientOrderId input) (''paper-'' @ show_nat n))))
       \<lparr>po_positionSide := Some (fp_positionSide p), po_reduceOnly := in_reduceOnly input, po_closePosition := in_closePosition input\<rparr>"

definition finished_working :: "paper_order \<Rightarrow> jsnum \<Rightarrow> jsnum \<Rightarrow> order_fee_observation \<Rightarrow> paper_order" where
  "finished_working ord requested notional obs =
     (let amount = js_add (po_filled ord) requested; cost = js_add (po_cost ord) notional
      in ord\<lparr>po_amount := amount, po_filled := amount, po_cost := cost, po_average := Some (js_div cost amount), po_status := PO_closed,
             po_reservedMargin := Some (Fin 0), po_feeObservation := Some obs\<rparr>)"

definition record_fill :: "place_order_input \<Rightarrow> prepared_fill \<Rightarrow> jsnum \<Rightarrow> jsnum \<Rightarrow> jsnum \<Rightarrow> jsnum \<Rightarrow> paper_order \<Rightarrow> paper_trade" where
  "record_fill input p price notional fee realizedPnl ord =
     \<lparr>pt_id = po_id ord, pt_symbol = in_symbol input, pt_side = in_side input, pt_price = price, pt_amount = fp_requested p, pt_cost = notional,
      pt_fee = fee, pt_realizedPnl = Some realizedPnl, pt_positionSide = Some (fp_positionSide p), pt_timestamp = po_timestamp ord\<rparr>"

text \<open>The part of \<^verbatim>\<open>executeFuturesFill\<close> that changes the position, the balance and the order; \<open>existing\<close> is the working order that is filled.\<close>

definition fill_position :: "jsnum \<Rightarrow> place_order_input \<Rightarrow> jsnum \<Rightarrow> paper_order option \<Rightarrow> store_client \<Rightarrow> futures_error + (paper_order \<times> jsnum \<times> store_client)" where
  "fill_position now input price existing c =
     ebind (prepareFuturesFill input (map_option po_id existing) c) (\<lambda>p.
       let requested = fp_requested p; signed = (if in_side input = Buy then requested else js_neg requested); closing = closing_amount p;
           notional = js_mul requested price; fee = js_mul notional (ps_feeRate c)
       in ebind (emap_error (Paper_failed \<circ> Ledger_fee)
                  (paperOrderFeeObservation (ps_quote c) fee (map_option (\<lambda>x. (po_filled x, po_feeObservation x)) existing))) (\<lambda>obs.
            let (rest, released, pnl) = close_lots (js_eq closing (fp_currentQty p)) price (math_sign (fe_amount (fp_current p))) (fp_currentLots p) closing (Fin 0) (Fin 0);
                remaining = js_add (fe_amount (fp_current p)) signed; opening = js_sub requested closing;
                openingMargin = js_div (js_mul opening price) (fp_leverage p); available = free_margin c;
                funds = js_add (js_add available released) pnl
            in if js_lt funds (js_add fee openingMargin) then Inl Insufficient_margin
               else let c1 = set_free_margin (js_sub (js_sub funds fee) openingMargin) c;
                        lots = rest @ (if js_gt opening (Fin 0) then [\<lparr>lt_amount = opening, lt_price = price, lt_leverage = fp_leverage p, lt_marginType = fp_marginType p\<rparr>] else []);
                        realizedPnl = js_sub pnl fee; f1 = ps_futures c1;
                        f2 = f1\<lparr>pa_entries := store_lots (fp_entryKey p) (math_sign remaining) lots (pa_entries f1), pa_realizedPnl := js_add (pa_realizedPnl f1) realizedPnl\<rparr>;
                        (ord, f3, n) = (case existing of
                            Some x \<Rightarrow> let x' = finished_working x requested notional obs in (x', put_order x' f2, ps_nextOrderId c)
                          | None \<Rightarrow> let x' = futures_market_order now (ps_nextOrderId c) input p price notional obs
                                     in (x', f2\<lparr>pa_orders := pa_orders f2 @ [x']\<rparr>, Suc (ps_nextOrderId c)))
                    in Inr (ord, fee, c1\<lparr>ps_nextOrderId := n,
                         ps_futures := f3\<lparr>pa_trades := pa_trades f3 @ [record_fill input p price notional fee realizedPnl ord]\<rparr>\<rparr>)))"

definition executeFuturesFill :: "jsnum \<Rightarrow> place_order_input \<Rightarrow> jsnum \<Rightarrow> paper_order option \<Rightarrow> store_client \<Rightarrow> futures_error + (paper_order \<times> jsnum \<times> store_client)" where
  "executeFuturesFill now input price existing c =
     ebind (fill_position now input price existing c) (\<lambda>(ord, fee, c1).
     ebind (cancelOrphanedFuturesReduceOrders c1) (\<lambda>(_, c2).
     ebind (refreshFuturesOpeningReserves c2) (\<lambda>c3. Inr (ord, fee, c3))))"

section \<open>What an operation reads from the market\<close>

text \<open>\<^verbatim>\<open>info.markPrice\<close> and \<^verbatim>\<open>info.indexPrice\<close> of a ticker as numbers, not-a-number when they are missing.\<close>

record futures_ticker =
  ft_markPrice :: jsnum
  ft_indexPrice :: jsnum
  ft_last :: "jsnum option"

record futures_market =
  fm_quote :: string
  fm_settle :: "string option"
  fm_swap :: "bool option"
  fm_contract :: "bool option"
  fm_active :: "bool option"
  fm_linear :: "bool option"
  fm_inverse :: "bool option"
  fm_contractSize :: "jsnum option"
  fm_minAmount :: "jsnum option"
  fm_maxAmount :: "jsnum option"
  fm_minCost :: "jsnum option"
  fm_maxCost :: "jsnum option"

record futures_view =
  fv_now :: jsnum
  fv_orderTicker :: "string \<Rightarrow> futures_ticker option"
  fv_riskTicker :: "string \<Rightarrow> futures_ticker option"
  fv_settleTicker :: ticker_source
  fv_ohlcv :: fetch_ohlcv
  fv_markets :: "string \<Rightarrow> futures_market option"
  fv_amountToPrecision :: "string \<Rightarrow> jsnum \<Rightarrow> jsnum"
  fv_priceToPrecision :: "string \<Rightarrow> jsnum \<Rightarrow> jsnum"

definition futuresReferencePrice :: "futures_ticker \<Rightarrow> jsnum option" where
  "futuresReferencePrice t =
     (if positive_finite (ft_markPrice t) then Some (ft_markPrice t)
      else if positive_finite (ft_indexPrice t) then Some (ft_indexPrice t)
      else if isFinitePositive (ft_last t) then ft_last t else None)"

section \<open>Liquidation\<close>

record liquidation_group =
  lg_entryKey :: string
  lg_symbol :: string
  lg_marginType :: margin_type
  lg_amount :: jsnum
  lg_price :: jsnum
  lg_margin :: jsnum
  lg_pnl :: jsnum
  lg_maintenance :: jsnum

text \<open>An entry key of hedge mode is the asset, a colon and the side.\<close>

definition key_asset :: "string \<Rightarrow> string" where
  "key_asset k = rev (tl (dropWhile (\<lambda>ch. ch \<noteq> CHR '':'') (rev k)))"

definition key_side :: "string \<Rightarrow> string" where
  "key_side k = rev (takeWhile (\<lambda>ch. ch \<noteq> CHR '':'') (rev k))"

definition hedge_key :: "store_client \<Rightarrow> string \<Rightarrow> bool" where
  "hedge_key c k \<longleftrightarrow> ps_positionMode c = Hedge \<and> CHR '':'' \<in> set k"

definition entry_symbol :: "store_client \<Rightarrow> string \<Rightarrow> string" where
  "entry_symbol c k = (if hedge_key c k then key_asset k else k) @ ''/'' @ ps_quote c @ '':'' @ ps_quote c"

definition lots_margin :: "futures_lot list \<Rightarrow> jsnum" where
  "lots_margin lots = foldl (\<lambda>s l. js_add s (js_div (js_mul (lt_amount l) (lt_price l)) (lt_leverage l))) (Fin 0) lots"

definition lots_pnl :: "jsnum \<Rightarrow> jsnum \<Rightarrow> futures_lot list \<Rightarrow> jsnum" where
  "lots_pnl price direction lots = foldl (\<lambda>s l. js_add s (js_mul (js_mul (lt_amount l) (js_sub price (lt_price l))) direction)) (Fin 0) lots"

definition liquidation_group_of :: "store_client \<Rightarrow> string \<Rightarrow> futures_entry \<Rightarrow> futures_lot list \<Rightarrow> jsnum \<Rightarrow> margin_type \<Rightarrow> liquidation_group list \<Rightarrow> futures_error + liquidation_group list" where
  "liquidation_group_of c k e entryLots price m groups =
     (let lots = filter (\<lambda>l. lt_marginType l = m) entryLots; amount = lots_amount lots; margin = lots_margin lots;
          pnl = lots_pnl price (math_sign (fe_amount e)) lots; maintenance = js_mul (js_mul amount price) (ps_maintenanceMarginRate c)
      in if lots = [] then Inr groups
         else if \<not> list_all is_finite [amount, margin, pnl, maintenance, js_add margin pnl] then Inl Liquidation_not_finite
         else Inr (groups @ [\<lparr>lg_entryKey = k, lg_symbol = entry_symbol c k, lg_marginType = m, lg_amount = amount, lg_price = price,
                               lg_margin = margin, lg_pnl = pnl, lg_maintenance = maintenance\<rparr>]))"

type_synonym price_map = "string \<rightharpoonup> jsnum option"

definition look_up_price :: "futures_view \<Rightarrow> string \<Rightarrow> price_map \<Rightarrow> price_map" where
  "look_up_price fv symbol prices =
     (if prices symbol \<noteq> None then prices else prices(symbol \<mapsto> Option.bind (fv_riskTicker fv symbol) futuresReferencePrice))"

definition group_step :: "futures_view \<Rightarrow> store_client \<Rightarrow> string \<times> futures_entry \<Rightarrow> price_map \<times> liquidation_group list \<times> bool
    \<Rightarrow> futures_error + (price_map \<times> liquidation_group list \<times> bool)" where
  "group_step fv c = (\<lambda>(k, e) (prices, groups, complete).
     if js_eq (fe_amount e) (Fin 0) then Inr (prices, groups, complete)
     else (case fv_markets fv (entry_symbol c k) of
             None \<Rightarrow> Inl Unsupported_futures_market
           | Some m \<Rightarrow>
               if fm_contract m \<noteq> Some True \<or> fm_swap m \<noteq> Some True then Inl Unsupported_futures_market
               else let lots = snapshotFuturesLots c e; prices' = look_up_price fv (entry_symbol c k) prices
                    in (case Option.bind (prices' (entry_symbol c k)) (\<lambda>p. p) of
                          Some price \<Rightarrow>
                            if \<not> positive_finite price then Inr (prices', groups, complete \<and> \<not> list_ex (\<lambda>l. lt_marginType l = Cross_margin) lots)
                            else ebind (liquidation_group_of c k e lots price Isolated groups) (\<lambda>groups.
                                 ebind (liquidation_group_of c k e lots price Cross_margin groups) (\<lambda>groups. Inr (prices', groups, complete)))
                        | None \<Rightarrow> Inr (prices', groups, complete \<and> \<not> list_ex (\<lambda>l. lt_marginType l = Cross_margin) lots))))"

definition futuresLiquidationGroups :: "futures_view \<Rightarrow> price_map \<Rightarrow> store_client \<Rightarrow> futures_error + (liquidation_group list \<times> bool)" where
  "futuresLiquidationGroups fv prices c =
     ebind (efold (group_step fv c) (pa_entries (ps_futures c)) (prices, [], True)) (\<lambda>(_, groups, complete). Inr (groups, complete))"

text \<open>The side a liquidation records: the keys the code writes end in \<^verbatim>\<open>LONG\<close> or \<^verbatim>\<open>SHORT\<close> in hedge mode.\<close>

definition liquidation_side :: "store_client \<Rightarrow> string \<Rightarrow> position_side" where
  "liquidation_side c k = (if hedge_key c k then if key_side k = ''LONG'' then PS_long else PS_short else PS_both)"

definition liquidation_loss :: "liquidation_group \<Rightarrow> jsnum" where
  "liquidation_loss g = (if lg_marginType g = Cross_margin then lg_pnl g else js_max (lg_pnl g) (js_neg (lg_margin g)))"

definition liquidateFuturesGroup :: "jsnum \<Rightarrow> liquidation_group \<Rightarrow> store_client \<Rightarrow> futures_error + store_client" where
  "liquidateFuturesGroup now g c =
     (case obj_get (pa_entries (ps_futures c)) (lg_entryKey g) of
        None \<Rightarrow> Inl Entry_gone
      | Some e \<Rightarrow>
          let direction = math_sign (fe_amount e); s = (if js_gt direction (Fin 0) then Sell else Buy); ps = liquidation_side c (lg_entryKey g);
              realizedPnl = liquidation_loss g; c1 = set_free_margin (js_add (js_add (free_margin c) (lg_margin g)) realizedPnl) c; f = ps_futures c1;
              lots = filter (\<lambda>l. lt_marginType l \<noteq> lg_marginType g) (snapshotFuturesLots c e);
              i = ''liquidation-'' @ show_nat (ps_nextOrderId c); cost = js_mul (lg_amount g) (lg_price g)
          in ebind (emap_error (Paper_failed \<circ> Ledger_fee) (paperOrderFeeObservation (ps_quote c) (Fin 0) None)) (\<lambda>obs.
               Inr (c1\<lparr>ps_nextOrderId := Suc (ps_nextOrderId c),
                 ps_futures := f\<lparr>pa_realizedPnl := js_add (pa_realizedPnl f) realizedPnl, pa_entries := store_lots (lg_entryKey g) direction lots (pa_entries f),
                   pa_orders := pa_orders f @ [(market_fill now i (lg_symbol g) s (lg_amount g) (lg_price g) cost obs None)\<lparr>po_positionSide := Some ps, po_reduceOnly := Some True\<rparr>],
                   pa_trades := pa_trades f @ [\<lparr>pt_id = i, pt_symbol = lg_symbol g, pt_side = s, pt_price = lg_price g, pt_amount = lg_amount g, pt_cost = cost,
                     pt_fee = Fin 0, pt_realizedPnl = Some realizedPnl, pt_positionSide = Some ps, pt_timestamp = now\<rparr>]\<rparr>\<rparr>)))"

definition liquidated :: "bool \<Rightarrow> liquidation_group \<Rightarrow> bool" where
  "liquidated crossLiquidation g =
     (if lg_marginType g = Cross_margin then crossLiquidation else js_le (js_add (lg_margin g) (lg_pnl g)) (lg_maintenance g))"

text \<open>\<^verbatim>\<open>settleFuturesLiquidationsUnlocked\<close>: whether something was liquidated, and the client.\<close>

definition settleFuturesLiquidationsUnlocked :: "futures_view \<Rightarrow> price_map \<Rightarrow> store_client \<Rightarrow> futures_error + (bool \<times> store_client)" where
  "settleFuturesLiquidationsUnlocked fv prices c =
     ebind (futuresLiquidationGroups fv prices c) (\<lambda>(groups, complete).
       let crossGroups = filter (\<lambda>g. lg_marginType g = Cross_margin) groups;
           crossEquity = foldl (\<lambda>s g. js_add (js_add s (lg_margin g)) (lg_pnl g)) (js_add (free_margin c) (futuresReservedMargin c)) crossGroups;
           crossMaintenance = foldl (\<lambda>s g. js_add s (lg_maintenance g)) (Fin 0) crossGroups
       in if \<not> is_finite crossEquity \<or> \<not> is_finite crossMaintenance then Inl Liquidation_not_finite
          else let liquidations = filter (liquidated (complete \<and> js_le crossEquity crossMaintenance)) groups
               in if liquidations = [] then Inr (False, c)
                  else ebind (efold (liquidateFuturesGroup (fv_now fv)) liquidations c) (\<lambda>c'. Inr (True, c')))"

section \<open>Settlement of working orders\<close>

definition fillRestingFutures :: "jsnum \<Rightarrow> paper_order \<Rightarrow> jsnum \<Rightarrow> store_client \<Rightarrow> futures_error + store_client" where
  "fillRestingFutures now ord fillPrice c =
     ebind (release_working ord c) (\<lambda>(ord1, c0).
       let c1 = put_futures_order ord1 c0; c2 = c1\<lparr>ps_futures := cancel_siblings ord1 (ps_futures c1)\<rparr>
       in case executeFuturesFill now (working_input ord1 (po_clientOrderId ord1)) fillPrice (Some ord1) c2 of
            Inr (_, _, c3) \<Rightarrow> Inr c3
          | Inl e \<Rightarrow>
              if e = Insufficient_margin then
                (case reserveFuturesOrder ord1 c2 of
                   Inr (ord2, c3) \<Rightarrow> Inr (put_futures_order ord2 c3)
                 | Inl _ \<Rightarrow> (case applyFuturesReservation ord1 (reserved_of ord) c2 of
                              Inr (ord2, c3) \<Rightarrow> Inr (put_futures_order ord2 c3)
                            | Inl _ \<Rightarrow> Inr (put_futures_order (ord1\<lparr>po_reservedMargin := Some (Fin 0)\<rparr>) c2)))
              else if isStaleFuturesWorkingOrderError e then Inr (put_futures_order (ord1\<lparr>po_status := PO_canceled\<rparr>) c2)
              else Inl e)"

definition settle_futures_one :: "futures_view \<Rightarrow> (string \<rightharpoonup> jsnum) \<Rightarrow> string list \<Rightarrow> string \<Rightarrow> (string \<rightharpoonup> kline list) \<times> bool \<times> store_client
    \<Rightarrow> futures_error + ((string \<rightharpoonup> kline list) \<times> bool \<times> store_client)" where
  "settle_futures_one fv minSince waiting i = (\<lambda>(cache, dirty, c).
     (case order_at (ps_futures c) i of
        None \<Rightarrow> Inr (cache, dirty, c)
      | Some ord \<Rightarrow>
          if po_status ord \<noteq> PO_open then Inr (cache, dirty, c)
          else (case fv_settleTicker fv (po_symbol ord) of
                  None \<Rightarrow> Inl (Paper_failed Fetch_failed)
                | Some lst \<Rightarrow>
                    if \<not> isFinitePositive lst then Inl (Paper_failed No_finite_price)
                    else (case buildMarketPath (fv_ohlcv fv) ord (the lst) (fv_now fv) minSince cache of
                            (None, _) \<Rightarrow> Inl (Paper_failed Fetch_failed)
                          | (Some mp, cache') \<Rightarrow>
                              (case truthy (po_ocoGroup ord) of
                                 Some g \<Rightarrow>
                                   let (a, winner) = walk_legs (mp_segments mp) (mp_checkedAt mp) (open_legs (ps_futures c) waiting g) (ps_futures c) None;
                                       c1 = c\<lparr>ps_futures := a\<rparr>
                                   in (case winner of
                                         None \<Rightarrow> Inr (cache', True, c1)
                                       | Some (leg, _, p) \<Rightarrow> ebind (fillRestingFutures (fv_now fv) leg p c1) (\<lambda>c2. Inr (cache', True, c2)))
                               | None \<Rightarrow>
                                   let (ord1, fire) = evaluatePath ord (mp_segments mp); ord2 = advanceCheckedAt ord1 (mp_checkedAt mp)
                                   in ebind (syncFuturesOpeningReserve ord2 (map_option snd fire) (put_futures_order ord2 c)) (\<lambda>(margined, ord3, c0).
                                        let c1 = put_futures_order ord3 c0
                                        in (case fire of
                                              None \<Rightarrow> Inr (cache', True, c1)
                                            | Some (_, p) \<Rightarrow>
                                                if \<not> margined then Inr (cache', True, c1)
                                                else ebind (fillRestingFutures (fv_now fv) ord3 p c1) (\<lambda>c2. Inr (cache', True, c2)))))))))"

definition settleFuturesOpenOrders :: "futures_view \<Rightarrow> store_client \<Rightarrow> futures_error + (bool \<times> store_client)" where
  "settleFuturesOpenOrders fv c =
     (let waiting = filter (\<lambda>x. po_status x = PO_open) (pa_orders (ps_futures c)); ids = map po_id waiting
      in if waiting = [] then Inr (False, c)
         else ebind (efold (settle_futures_one fv (min_since waiting) ids) ids (Map.empty, False, c)) (\<lambda>(_, dirty, c'). Inr (dirty, c')))"

text \<open>\<^verbatim>\<open>settleOpenOrdersUnlocked\<close> in futures mode. The first component is the client as it is stored when the pass ends, the second the
  client in memory or the error.\<close>

definition settle_futures :: "futures_view \<Rightarrow> price_map \<Rightarrow> store_client \<Rightarrow> store_client \<times> (futures_error + store_client)" where
  "settle_futures fv prices c =
     (case settleFuturesLiquidationsUnlocked fv prices c of
        Inl e \<Rightarrow> (c, Inl e)
      | Inr (liq, c1) \<Rightarrow>
          (case cancelOrphanedFuturesReduceOrders c1 of
             Inl e \<Rightarrow> (if liq then c1 else c, Inl e)
           | Inr (dirty, c2) \<Rightarrow>
               let stored = (if dirty then c2 else if liq then c1 else c)
               in (case refreshFuturesOpeningReserves c2 of
                     Inl e \<Rightarrow> (stored, Inl e)
                   | Inr c3 \<Rightarrow>
                       (case settleFuturesOpenOrders fv c3 of
                          Inl e \<Rightarrow> (stored, Inl e)
                        | Inr (dirty', c4) \<Rightarrow> (if dirty' then c4 else stored, Inr c4)))))"

text \<open>An operation that acts settles first. Its second component is the client as it is stored: what settlement wrote when it or the action
  fails, and the client after the action, which persists both ledgers, otherwise.\<close>

definition futures_settle_then :: "futures_view \<Rightarrow> price_map \<Rightarrow> (store_client \<Rightarrow> futures_error + ('a \<times> store_client)) \<Rightarrow> store_client
    \<Rightarrow> (futures_error + 'a) \<times> store_client" where
  "futures_settle_then fv prices act c =
     (case settle_futures fv prices c of
        (stored, Inl e) \<Rightarrow> (Inl e, stored)
      | (stored, Inr c1) \<Rightarrow> (case act c1 of Inl e \<Rightarrow> (Inl e, stored) | Inr (r, c2) \<Rightarrow> (Inr r, c2)))"

text \<open>A read settles too and answers from the client in memory, but writes nothing of its own: only what settlement persisted is stored. The
  two differ when refreshing the reserves cancelled the last working order, which no later write of the pass records.\<close>

definition futures_settle_and_read :: "futures_view \<Rightarrow> price_map \<Rightarrow> (store_client \<Rightarrow> futures_error + 'a) \<Rightarrow> store_client \<Rightarrow> (futures_error + 'a) \<times> store_client" where
  "futures_settle_and_read fv prices look c =
     (case settle_futures fv prices c of
        (stored, Inl e) \<Rightarrow> (Inl e, stored)
      | (stored, Inr c1) \<Rightarrow> (look c1, stored))"

section \<open>Placing and cancelling\<close>

definition futures_market_ok :: "string \<Rightarrow> futures_market option \<Rightarrow> bool" where
  "futures_market_ok quote m =
     (case m of None \<Rightarrow> False
      | Some m \<Rightarrow> fm_quote m = quote \<and> fm_settle m = Some quote \<and> fm_swap m = Some True \<and> fm_contract m = Some True \<and> fm_active m = Some True \<and>
                  fm_linear m = Some True \<and> fm_inverse m \<noteq> Some True)"

definition baseAmountToContracts :: "futures_view \<Rightarrow> string \<Rightarrow> jsnum \<Rightarrow> futures_market \<Rightarrow> futures_error + (jsnum \<times> jsnum)" where
  "baseAmountToContracts fv symbol amount m =
     (if \<not> isFinitePositive (fm_contractSize m) then Inl Unsupported_futures_market
      else let size = the (fm_contractSize m); contracts = js_div amount size
           in if \<not> is_finite contracts \<or> js_le contracts (Fin 0) then Inl Futures_amount_unrepresentable
              else let precise = fv_amountToPrecision fv symbol contracts; base = js_mul precise size
                   in if \<not> is_finite precise \<or> js_le precise (Fin 0) then Inl (Paper_failed Amount_rounds_to_zero)
                      else if js_gt (js_abs (js_sub base amount)) (js_max E_12 (js_mul (js_abs amount) E_9)) then Inl Futures_amount_unrepresentable
                      else Inr (precise, base))"

definition normalizeFuturesInput :: "futures_view \<Rightarrow> store_client \<Rightarrow> place_order_input \<Rightarrow> jsnum option \<Rightarrow> futures_error + place_order_input" where
  "normalizeFuturesInput fv c input tickerPrice =
     (let symbol = in_symbol input
      in if \<not> is_finite (in_amount input) \<or> js_le (in_amount input) (Fin 0) then Inl (Paper_failed Amount_not_finite_positive)
         else if \<not> futures_market_ok (ps_quote c) (fv_markets fv symbol) then Inl Unsupported_futures_market
         else let market = the (fv_markets fv symbol)
              in ebind (baseAmountToContracts fv symbol (in_amount input) market) (\<lambda>(contracts, amount).
                   let price = map_option (fv_priceToPrecision fv symbol) (in_price input); stopPrice = map_option (fv_priceToPrecision fv symbol) (in_stopPrice input);
                       reference = (case price of Some p \<Rightarrow> Some p | None \<Rightarrow> (case stopPrice of Some p \<Rightarrow> Some p | None \<Rightarrow> tickerPrice))
                   in if \<not> is_finite amount \<or> js_le amount (Fin 0) then Inl (Paper_failed Amount_rounds_to_zero)
                      else if opt_below contracts (fm_minAmount market) then Inl (Paper_failed Amount_below_minimum)
                      else if opt_above contracts (fm_maxAmount market) then Inl (Paper_failed Amount_above_maximum)
                      else if \<not> isFinitePositive reference then Inl (Paper_failed No_finite_price)
                      else let cost = js_mul amount (the reference)
                           in if opt_below cost (fm_minCost market) then Inl (Paper_failed Cost_below_minimum)
                              else if opt_above cost (fm_maxCost market) then Inl (Paper_failed Cost_above_maximum)
                              else Inr (input\<lparr>in_amount := amount, in_price := price, in_stopPrice := stopPrice\<rparr>)))"

definition working_order :: "jsnum \<Rightarrow> store_client \<Rightarrow> place_order_input \<Rightarrow> prepared_fill \<Rightarrow> order_fee_observation \<Rightarrow> paper_order" where
  "working_order now c input p obs =
     (new_order now (ps_nextOrderId c) (in_symbol input) (in_side input) (in_type input) (fp_requested p) obs
        (Some (given_or (in_clientOrderId input) (''paper-'' @ show_nat (ps_nextOrderId c)))))
       \<lparr>po_positionSide := Some (fp_positionSide p), po_reduceOnly := in_reduceOnly input, po_closePosition := in_closePosition input\<rparr>"

definition placeFuturesOrder :: "futures_view \<Rightarrow> place_order_input \<Rightarrow> jsnum option \<Rightarrow> store_client \<Rightarrow> futures_error + (paper_order \<times> jsnum option \<times> store_client)" where
  "placeFuturesOrder fv input lst c =
     (if \<not> isFinitePositive lst then Inl (Paper_failed No_finite_price)
      else if in_closePosition input = Some True \<and> in_type input \<notin> {Market, Stop_market, Take_profit_market} then Inl Close_order_type
      else if in_type input = Market then
        ebind (executeFuturesFill (fv_now fv) input (the lst) None c) (\<lambda>(ord, fee, c1). Inr (ord, Some fee, c1))
      else ebind (prepareFuturesFill input None c) (\<lambda>p.
           ebind (emap_error (Paper_failed \<circ> Ledger_fee) (paperOrderFeeObservation (ps_quote c) (Fin 0) None)) (\<lambda>obs.
           ebind (emap_error Paper_failed (configureRestingOrder (working_order (fv_now fv) c input p obs) input lst)) (\<lambda>ord.
           ebind (reserveFuturesOrder ord c) (\<lambda>(ord1, c1).
             let ord2 = ord1\<lparr>po_lastCheckedAt := Some (po_timestamp ord1)\<rparr>; f = ps_futures c1
             in Inr (ord2, None, c1\<lparr>ps_nextOrderId := Suc (ps_nextOrderId c1), ps_futures := f\<lparr>pa_orders := pa_orders f @ [ord2]\<rparr>\<rparr>))))))"

definition futures_account_for :: "store_client \<Rightarrow> string \<Rightarrow> futures_error + unit" where
  "futures_account_for c symbol = (if futures_market_symbol c symbol then ebind (futures_asset c symbol) (\<lambda>_. Inr ()) else Inl Spot_disabled)"

definition drop_working :: "paper_order \<Rightarrow> store_client \<Rightarrow> futures_error + store_client" where
  "drop_working ord c =
     ebind (release_working ord c) (\<lambda>(ord1, c0).
       let c1 = put_futures_order (ord1\<lparr>po_status := PO_canceled\<rparr>) c0 in Inr (c1\<lparr>ps_futures := cancel_group ord1 (ps_futures c1)\<rparr>))"

definition futures_replacement_step :: "paper_order \<Rightarrow> string list \<times> store_client \<Rightarrow> futures_error + (string list \<times> store_client)" where
  "futures_replacement_step ord = (\<lambda>(groups, c).
     let g = (case po_ocoGroup ord of Some g \<Rightarrow> g | None \<Rightarrow> po_id ord)
     in if g \<in> set groups then Inr (groups, c) else ebind (drop_working ord c) (\<lambda>c1. Inr (g # groups, c1)))"

definition cancelFuturesForReplacement :: "place_order_input \<Rightarrow> string list \<Rightarrow> store_client \<Rightarrow> futures_error + store_client" where
  "cancelFuturesForReplacement input ids c =
     ebind (futures_account_for c (in_symbol input)) (\<lambda>_.
     ebind (emap_error Paper_failed (emap (replaced_order input (ps_futures c)) ids)) (\<lambda>orders.
     ebind (efold futures_replacement_step orders ([], c)) (\<lambda>(_, c1). Inr c1)))"

definition submitFuturesOrder :: "futures_view \<Rightarrow> place_order_input \<Rightarrow> string list option \<Rightarrow> store_client \<Rightarrow> (futures_error + (order \<times> jsnum option)) \<times> store_client" where
  "submitFuturesOrder fv input replacementIds c =
     (if \<not> futures_market_symbol c (in_symbol input) then futures_settle_then fv Map.empty (\<lambda>_. Inl Spot_disabled) c
      else (case fv_orderTicker fv (in_symbol input) of
              None \<Rightarrow> (Inl (Paper_failed Fetch_failed), c)
            | Some t \<Rightarrow>
                futures_settle_then fv [in_symbol input \<mapsto> futuresReferencePrice t] (\<lambda>c.
                  ebind (case replacementIds of None \<Rightarrow> Inr c | Some ids \<Rightarrow> cancelFuturesForReplacement input ids c) (\<lambda>c1.
                  ebind (normalizeFuturesInput fv c1 input (ft_last t)) (\<lambda>input1.
                  ebind (placeFuturesOrder fv input1 (ft_last t) c1) (\<lambda>(ord, fee, c2). Inr ((toOrder ord, fee), c2))))) c))"

definition cancelFuturesOrder :: "futures_view \<Rightarrow> string \<Rightarrow> string \<Rightarrow> store_client \<Rightarrow> (futures_error + unit) \<times> store_client" where
  "cancelFuturesOrder fv i symbol c =
     (case futures_account_for c symbol of
        Inl e \<Rightarrow> (Inl e, c)
      | Inr _ \<Rightarrow> futures_settle_then fv Map.empty (\<lambda>c.
          case find (\<lambda>x. po_id x = i \<and> po_symbol x = symbol \<and> po_status x = PO_open) (pa_orders (ps_futures c)) of
            None \<Rightarrow> Inl (Paper_failed Order_not_found)
          | Some ord \<Rightarrow> ebind (drop_working ord c) (\<lambda>c1. Inr ((), c1))) c)"

definition getFuturesOrder :: "futures_view \<Rightarrow> string \<Rightarrow> string \<Rightarrow> store_client \<Rightarrow> (futures_error + order) \<times> store_client" where
  "getFuturesOrder fv i symbol c =
     (case futures_account_for c symbol of
        Inl e \<Rightarrow> (Inl e, c)
      | Inr _ \<Rightarrow> futures_settle_and_read fv Map.empty (\<lambda>c.
          case find (\<lambda>x. po_id x = i \<and> po_symbol x = symbol) (pa_orders (ps_futures c)) of
            None \<Rightarrow> Inl (Paper_failed Order_not_found) | Some ord \<Rightarrow> Inr (toOrder ord)) c)"

section \<open>Settings\<close>

definition releverage_step :: "string \<Rightarrow> string \<Rightarrow> store_client \<Rightarrow> futures_error + store_client" where
  "releverage_step symbol i c =
     (case order_at (ps_futures c) i of
        None \<Rightarrow> Inr c
      | Some ord \<Rightarrow>
          if po_status ord \<noteq> PO_open \<or> po_symbol ord \<noteq> symbol then Inr c
          else ebind (reserveFuturesOrder ord c) (\<lambda>(ord', c'). Inr (put_futures_order ord' c')))"

definition setFuturesLeverage :: "futures_view \<Rightarrow> string \<Rightarrow> jsnum \<Rightarrow> store_client \<Rightarrow> (futures_error + unit) \<times> store_client" where
  "setFuturesLeverage fv symbol leverage c =
     (if \<not> leverage_ok leverage then (Inl Invalid_leverage, c)
      else if \<not> futures_market_symbol c symbol \<or> \<not> futures_market_ok (ps_quote c) (fv_markets fv symbol) then (Inl Unsupported_futures_market, c)
      else let f = ps_futures c; c1 = c\<lparr>ps_futures := f\<lparr>pa_leverageBySymbol := Some (obj_set (given_or (pa_leverageBySymbol f) []) symbol leverage)\<rparr>\<rparr>
           in case efold (releverage_step symbol) (map po_id (pa_orders f)) c1 of Inl e \<Rightarrow> (Inl e, c) | Inr c2 \<Rightarrow> (Inr (), c2))"

definition setFuturesMarginMode :: "futures_view \<Rightarrow> string \<Rightarrow> margin_type \<Rightarrow> store_client \<Rightarrow> (futures_error + unit) \<times> store_client" where
  "setFuturesMarginMode fv symbol m c =
     (if \<not> futures_market_symbol c symbol \<or> \<not> futures_market_ok (ps_quote c) (fv_markets fv symbol) then (Inl Unsupported_futures_market, c)
      else let f = ps_futures c
           in (Inr (), c\<lparr>ps_futures := f\<lparr>pa_marginTypeBySymbol := Some (obj_set (given_or (pa_marginTypeBySymbol f) []) symbol m)\<rparr>\<rparr>))"

definition projectOpeningRisk :: "futures_view \<Rightarrow> place_order_input \<Rightarrow> jsnum \<Rightarrow> store_client \<Rightarrow> futures_error + jsnum" where
  "projectOpeningRisk fv input referencePrice c =
     (if \<not> futures_market_symbol c (in_symbol input) \<or> \<not> futures_market_ok (ps_quote c) (fv_markets fv (in_symbol input)) then Inl Unsupported_futures_market
      else if \<not> positive_finite referencePrice then Inl Projection_price
      else ebind (prepareFuturesFill input None c) (\<lambda>p.
        if fp_marginType p \<noteq> Isolated \<or> \<not> fp_reducing p \<and> list_ex (\<lambda>l. lt_marginType l \<noteq> Isolated \<or> \<not> js_eq (lt_leverage l) (fp_leverage p)) (fp_currentLots p)
        then Inl Projection_mixed
        else let opening = js_sub (fp_requested p) (closing_amount p);
                 retainedAmount = (if fp_reducing p then Fin 0 else fp_currentQty p); retainedCost = (if fp_reducing p then Fin 0 else fe_cost (fp_current p));
                 average = js_div (js_add retainedCost (js_mul opening referencePrice)) (js_add retainedAmount opening);
                 liquidation = js_mul average
                   (if in_side input = Buy then js_sub (js_add (Fin 1) (ps_maintenanceMarginRate c)) (js_div (Fin 1) (fp_leverage p))
                    else js_add (js_sub (Fin 1) (ps_maintenanceMarginRate c)) (js_div (Fin 1) (fp_leverage p)))
             in if js_le opening (Fin 0) then Inl Projection_not_opening
                else Inr (js_mul (js_div (if in_side input = Buy then js_sub referencePrice liquidation else js_sub liquidation referencePrice) referencePrice) (Fin 100))))"

section \<open>Runs of operations\<close>

text \<open>A client in futures mode reads its stored ledgers again before an operation: \<open>c\<close> is the client that was stored last, \<open>c1\<close> the client
  the operation starts from.\<close>

definition futures_loads :: "jsnum \<Rightarrow> store_client \<Rightarrow> store_client \<Rightarrow> bool" where
  "futures_loads now c c1 \<longleftrightarrow>
     ps_marketType c = Usdm_futures \<and> parsePaperAccount (account_json (ps_futures c)) = Inr (ps_futures c) \<and>
     load_files now \<lparr>pf_account = Some (account_json (ps_account c)), pf_futures = Some (account_json (ps_futures c)), pf_transaction = None\<rparr> c = (None, c1)"

definition resetFuturesAccount :: "jsnum \<Rightarrow> jsnum \<Rightarrow> store_client \<Rightarrow> (futures_error + unit) \<times> store_client" where
  "resetFuturesAccount now startQuote c =
     (if \<not> is_finite startQuote \<or> js_le startQuote (Fin 0) then (Inl (Paper_failed Bad_start_quote), c)
      else (Inr (), c\<lparr>ps_account := freshSpotAccount now (ps_quote c) startQuote,
              ps_futures := (freshFuturesAccount now (ps_quote c) startQuote (ps_leverage c) (ps_marginType c) (ps_positionMode c))
                \<lparr>pa_leverageBySymbol := Some [], pa_marginTypeBySymbol := Some []\<rparr>,
              ps_nextOrderId := 1\<rparr>))"

inductive futures_step :: "store_client \<Rightarrow> store_client \<Rightarrow> bool" where
  submit: "futures_step c c'" if "futures_loads now c c1" "submitFuturesOrder fv input ids c1 = (r, c')"
| cancel: "futures_step c c'" if "futures_loads now c c1" "cancelFuturesOrder fv i symbol c1 = (t, c')"
| look_up: "futures_step c c'" if "futures_loads now c c1" "getFuturesOrder fv i symbol c1 = (u, c')"
| leverage: "futures_step c c'" if "futures_loads now c c1" "setFuturesLeverage fv symbol l c1 = (t, c')"
| margin: "futures_step c c'" if "futures_loads now c c1" "setFuturesMarginMode fv symbol m c1 = (t, c')"
| reset: "futures_step c c'" if "futures_loads now c c1" "resetFuturesAccount now startQuote c1 = (t, c')"

inductive futures_run :: "store_client \<Rightarrow> store_client \<Rightarrow> bool" where
  refl: "futures_run c c"
| step: "futures_run c c''" if "futures_run c c'" "futures_step c' c''"

end
