(* ===== verification/Paper_Futures_Safety.thy ===== *)
theory Paper_Futures_Safety
  imports Paper_Spot_Safety Paper_Futures
begin

text \<open>
  The simulated futures account over every run of operations. One invariant (\<open>book_ok\<close>: working orders have an amount left, other orders hold no margin,
  amounts are doubles, hedge positions face their side) is kept by every operation; it gives the properties of runs, and bounds what a
  reducing fill takes. Liquidation of isolated lots is bounded by their collateral. A concrete session gives the witnesses.
\<close>

section \<open>Signs and rounding\<close>

definition dbl :: "jsnum \<Rightarrow> bool" where
  "dbl x \<longleftrightarrow> (\<forall>r. x = Fin r \<longrightarrow> is_double r)"

lemma dbl_simps [simp]: "dbl NaN" "dbl PInf" "dbl NInf" "dbl (Fin r) = is_double r"
  by (auto simp: dbl_def)

lemma is_double_0 [simp]: "is_double 0"
  by (simp add: is_double_def)

lemma dbl_fl [simp]: "dbl (fl x)"
  by (auto simp: dbl_def dest: fl_double)

lemma dbl_mul: "dbl (js_mul a b)"
  by (cases a; cases b) (auto simp: Let_def inf_of_def)

lemma dbl_add: "dbl (js_add a b)"
  by (cases a; cases b) auto

lemma is_double_neg: "is_double r \<Longrightarrow> is_double (- r)"
  by (simp add: is_double_def fl_uminus)

lemma dbl_neg [simp]: "dbl (js_neg a) = dbl a"
  by (cases a) (use is_double_neg is_double_neg[of "- r" for r] in \<open>auto dest: is_double_neg\<close>)

lemma js_neg_add: "js_neg (js_add a b) = js_add (js_neg a) (js_neg b)"
  by (cases a; cases b) (auto simp: fl_uminus[symmetric])

lemma js_neg_neg [simp]: "js_neg (js_neg a) = a"
  by (cases a) auto

lemma js_abs_neg [simp]: "js_abs (js_neg a) = js_abs a"
  by (cases a) auto

lemma js_abs_id: "not_neg a \<Longrightarrow> js_abs a = a"
  by (cases a) auto

lemma js_lt_neg: "js_lt a (Fin 0) = js_gt (js_neg a) (Fin 0)" "js_gt a (Fin 0) = js_lt (js_neg a) (Fin 0)"
  by (cases a; simp)+

text \<open>Taking away what is not negative leaves at most a double.\<close>

lemma js_sub_at_most:
  assumes "not_neg b" "dbl a" shows "\<not> js_gt (js_sub a b) a"
proof (cases a; cases b)
  fix x y assume a: "a = Fin x" "b = Fin y"
  with assms have "js_le (fl (x + - y)) (fl x)" by (intro fl_mono) simp
  with a assms show ?thesis by (auto simp: js_sub_def is_double_def dest: js_le_not_gt)
qed (use assms in \<open>auto simp: js_sub_def\<close>)

text \<open>What a sign contributes to a position.\<close>

lemma not_neg_signed:
  assumes "not_neg x" "not_neg s" shows "not_neg (js_mul (math_sign x) s)"
  by (rule not_neg_mul[OF _ assms(2)]) (use assms(1) in \<open>cases x; simp add: math_sign_def sgn_if\<close>)

lemma math_sign_neg: "math_sign (js_neg x) = js_neg (math_sign x)"
  by (cases x) (auto simp: math_sign_def)

lemma js_mul_neg: "js_mul (js_neg a) b = js_neg (js_mul a b)"
  by (cases a; cases b) (auto simp: fl_uminus[symmetric] Let_def inf_of_def)

definition lot_held :: "futures_lot \<Rightarrow> bool" where
  "lot_held l \<longleftrightarrow> not_neg (lt_amount l) \<and> dbl (lt_amount l)"

lemma lots_amount_not_neg: "list_all lot_held lots \<Longrightarrow> not_neg (lots_amount lots)"
proof -
  assume "list_all lot_held lots"
  then have "not_neg s \<Longrightarrow> not_neg (foldl (\<lambda>s l. js_add s (lt_amount l)) s lots)" for s
    by (induction lots arbitrary: s) (auto simp: lot_held_def intro: not_neg_add)
  then show ?thesis by (simp add: lots_amount_def)
qed

section \<open>The book of a client\<close>

text \<open>A working order is unfilled and has a positive amount to fill, and an order that is not working holds no margin.\<close>

definition order_held :: "store_client \<Rightarrow> paper_order \<Rightarrow> bool" where
  "order_held c x \<longleftrightarrow> futures_market_symbol c (po_symbol x) \<and> po_ocoGroup x = None \<and>
     (po_status x = PO_open \<longrightarrow> po_filled x = Fin 0 \<and> js_gt (po_amount x) (Fin 0)) \<and> (po_status x \<noteq> PO_open \<longrightarrow> reserved_of x = Fin 0)"

definition position_held :: "store_client \<Rightarrow> string \<Rightarrow> futures_entry \<Rightarrow> bool" where
  "position_held c k e \<longleftrightarrow> dbl (fe_amount e) \<and> given_all (list_all lot_held) (fe_lots e) \<and>
     (ps_positionMode c = Hedge \<longrightarrow> (suffix '':LONG'' k \<longrightarrow> not_neg (fe_amount e)) \<and> (suffix '':SHORT'' k \<longrightarrow> not_neg (js_neg (fe_amount e))))"

definition orders_held :: "store_client \<Rightarrow> bool" where
  "orders_held c \<longleftrightarrow> (\<forall>x \<in> set (pa_orders (ps_futures c)). order_held c x)"

definition positions_held :: "store_client \<Rightarrow> bool" where
  "positions_held c \<longleftrightarrow> (\<forall>(k, e) \<in> set (pa_entries (ps_futures c)). position_held c k e)"

definition book_ok :: "store_client \<Rightarrow> bool" where
  "book_ok c \<longleftrightarrow> orders_held c \<and> positions_held c"

text \<open>Two clients of the same configuration; with the same positions; with the same orders too.\<close>

definition same_config :: "store_client \<Rightarrow> store_client \<Rightarrow> bool" where
  "same_config c c' \<longleftrightarrow> ps_quote c' = ps_quote c \<and> ps_positionMode c' = ps_positionMode c \<and> ps_marketType c' = ps_marketType c"

definition same_positions :: "store_client \<Rightarrow> store_client \<Rightarrow> bool" where
  "same_positions c c' \<longleftrightarrow> same_config c c' \<and> pa_entries (ps_futures c') = pa_entries (ps_futures c)"

definition same_book :: "store_client \<Rightarrow> store_client \<Rightarrow> bool" where
  "same_book c c' \<longleftrightarrow> same_positions c c' \<and> pa_orders (ps_futures c') = pa_orders (ps_futures c)"

lemmas same_defs = same_config_def same_positions_def same_book_def

lemma same_refl [simp]: "same_config c c" "same_positions c c" "same_book c c"
  by (simp_all add: same_defs)

lemma same_config_held:
  assumes "same_config c c'"
  shows "order_held c' = order_held c" "position_held c' = position_held c"
  using assms by (auto simp: same_config_def order_held_def position_held_def futures_market_symbol_def fun_eq_iff)

lemma same_book_held: "same_book c c' \<Longrightarrow> orders_held c' = orders_held c" "same_positions c c' \<Longrightarrow> positions_held c' = positions_held c"
  using same_config_held[of c c'] by (auto simp: same_defs orders_held_def positions_held_def)

lemma free_margin_book [simp]: "same_book c (set_free_margin b c)" "pa_orders (ps_futures (set_free_margin b c)) = pa_orders (ps_futures c)"
  "pa_entries (ps_futures (set_free_margin b c)) = pa_entries (ps_futures c)" "same_config c (set_free_margin b c)"
  by (simp_all add: same_defs set_free_margin_def set_balance_def)

lemma spot_book [simp]: "same_book c (c\<lparr>ps_account := a\<rparr>)" "same_config c (c\<lparr>ps_futures := f\<rparr>)" "same_config c (c\<lparr>ps_nextOrderId := n\<rparr>)"
  by (simp_all add: same_defs)

lemma order_held_margin: "order_held c x \<Longrightarrow> po_status x = PO_open \<Longrightarrow> order_held c (x\<lparr>po_reservePrice := p, po_reservedMargin := m\<rparr>)"
  "order_held c x \<Longrightarrow> po_status x = PO_open \<Longrightarrow> order_held c (x\<lparr>po_reservedMargin := m\<rparr>)"
  by (auto simp: order_held_def)

lemma order_held_cancelled: "order_held c x \<Longrightarrow> order_held c (x\<lparr>po_status := PO_canceled, po_reservedMargin := Some (Fin 0)\<rparr>)"
  by (auto simp: order_held_def reserved_of_def given_or_def)

lemma put_held: "orders_held c \<Longrightarrow> order_held c x \<Longrightarrow> orders_held (put_futures_order x c)"
  using same_config_held(1)[of c "put_futures_order x c"]
  by (auto simp: orders_held_def put_futures_order_def put_order_def)

lemma put_same [simp]: "same_positions c (put_futures_order x c)"
  by (simp add: same_defs put_futures_order_def put_order_def)

section \<open>Margin\<close>

lemma apply_reservation:
  assumes "applyFuturesReservation ord new c = Inr (ord', c')"
  shows "ord' = ord\<lparr>po_reservedMargin := Some new\<rparr> \<and> same_book c c'"
  using assms by (auto simp: applyFuturesReservation_def Let_def split: if_splits)

lemma reserve_order:
  assumes "reserveFuturesOrder ord c = Inr (ord', c')"
  shows "\<exists>m. ord' = ord\<lparr>po_reservedMargin := Some m\<rparr> \<and> same_book c c'"
  using assms by (auto simp: reserveFuturesOrder_def Let_def result_simps dest!: apply_reservation split: if_splits)

lemma release_order:
  assumes "release_working ord c = Inr (ord', c')" "futures_market_symbol c (po_symbol ord)"
  shows "ord' = ord\<lparr>po_reservedMargin := Some (Fin 0)\<rparr> \<and> same_book c c'"
  using assms by (auto simp: release_working_def)

text \<open>The order with another reserve.\<close>

definition repriced :: "paper_order \<Rightarrow> paper_order \<Rightarrow> bool" where
  "repriced ord ord' \<longleftrightarrow> (\<exists>p m. ord' = ord\<lparr>po_reservePrice := p, po_reservedMargin := m\<rparr>)"

lemma repriced_refl [simp]: "repriced ord ord"
  unfolding repriced_def by (rule exI[of _ "po_reservePrice ord"], rule exI[of _ "po_reservedMargin ord"]) simp

lemma repriced_held: "repriced ord ord' \<Longrightarrow> order_held c ord \<Longrightarrow> po_status ord = PO_open \<Longrightarrow> order_held c ord' \<and> po_status ord' = PO_open"
  by (auto simp: repriced_def order_held_def)

lemma sync_order:
  assumes "syncFuturesOpeningReserve ord fillPrice c = Inr (margined, ord', c')"
  shows "repriced ord ord' \<and> same_book c c'"
proof -
  have "repriced ord ord' \<and> same_book c c'" if "reserveFuturesOrder (ord\<lparr>po_reservePrice := p\<rparr>) c = Inr (ord', c')" for p
    using reserve_order[OF that] by (auto simp: repriced_def)
  from this this[of "po_reservePrice ord"] assms show ?thesis
    unfolding syncFuturesOpeningReserve_def Let_def by (auto split: if_splits sum.splits prod.splits)
qed

text \<open>A pass over the orders keeps the positions and the invariant of the orders.\<close>

definition orders_pass :: "store_client \<Rightarrow> store_client \<Rightarrow> bool" where
  "orders_pass c c' \<longleftrightarrow> same_positions c c' \<and> (orders_held c \<longrightarrow> orders_held c')"

lemma orders_pass_refl [simp]: "orders_pass c c"
  by (simp add: orders_pass_def)

lemma orders_pass_trans: "orders_pass c c1 \<Longrightarrow> orders_pass c1 c2 \<Longrightarrow> orders_pass c c2"
  by (simp add: orders_pass_def same_defs)

lemma orders_pass_held: "orders_pass c c' \<Longrightarrow> orders_held c \<Longrightarrow> orders_held c'"
  by (simp add: orders_pass_def)

lemma efold_pass:
  assumes "efold f xs s = Inr s'" "orders_held (g s)" "\<And>x s s'. f x s = Inr s' \<Longrightarrow> orders_held (g s) \<Longrightarrow> orders_pass (g s) (g s')"
  shows "orders_pass (g s) (g s')"
  using assms(1,2)
proof (induction xs arbitrary: s)
  case (Cons x xs)
  from Cons.prems(1) obtain s1 where s1: "f x s = Inr s1" "efold f xs s1 = Inr s'" by (auto simp: result_simps)
  note p = assms(3)[OF s1(1) Cons.prems(2)]
  from Cons.IH[OF s1(2) orders_pass_held[OF p Cons.prems(2)]] p show ?case by (rule orders_pass_trans[rotated])
qed simp

lemma orders_pass_book: "orders_pass c c' \<Longrightarrow> book_ok c \<Longrightarrow> book_ok c' \<and> same_config c c'"
  using same_book_held(2)[of c c'] by (auto simp: orders_pass_def book_ok_def same_positions_def)

lemma same_put_pass:
  assumes "same_book c c'" "order_held c x" shows "orders_pass c (put_futures_order x c')"
proof -
  have "same_config c c'" using assms(1) by (simp add: same_defs)
  then have "order_held c' x" using same_config_held(1) assms(2) by simp
  then have "orders_held (put_futures_order x c')" if "orders_held c" using put_held same_book_held(1)[OF assms(1)] that by blast
  moreover have "same_positions c (put_futures_order x c')" using assms(1) by (simp add: same_defs put_futures_order_def put_order_def)
  ultimately show ?thesis by (simp add: orders_pass_def)
qed

lemma order_at_held: "orders_held c \<Longrightarrow> order_at (ps_futures c) i = Some ord \<Longrightarrow> order_held c ord"
  by (auto simp: orders_held_def dest: order_at_mem)

lemma cancel_working_pass:
  assumes "cancel_working ord c = Inr c'" "order_held c ord" shows "orders_pass c c'"
proof -
  from assms(2) have s: "futures_market_symbol c (po_symbol (ord\<lparr>po_status := PO_canceled\<rparr>))" by (simp add: order_held_def)
  from assms(1) obtain ord' c1 where r: "release_working (ord\<lparr>po_status := PO_canceled\<rparr>) c = Inr (ord', c1)" "c' = put_futures_order ord' c1"
    by (auto simp: cancel_working_def result_simps)
  from release_order[OF r(1) s] have "ord' = ord\<lparr>po_status := PO_canceled, po_reservedMargin := Some (Fin 0)\<rparr>" "same_book c c1" by simp_all
  then show ?thesis using r(2) same_put_pass order_held_cancelled[OF assms(2)] by simp
qed

lemma orphan_pass:
  assumes "orphan_step i (dirty, c) = Inr (dirty', c')" "orders_held c" shows "orders_pass c c'"
  using assms order_at_held[OF assms(2)]
  by (auto simp: orphan_step_def result_simps split: option.splits if_splits intro: cancel_working_pass)

lemma cancelOrphaned_pass:
  assumes "cancelOrphanedFuturesReduceOrders c = Inr (dirty, c')" "orders_held c" shows "orders_pass c c'"
proof -
  have "orders_pass (snd (False, c)) (snd (dirty, c'))"
    by (rule efold_pass[OF assms(1)[unfolded cancelOrphanedFuturesReduceOrders_def]]) (use assms(2) in \<open>auto dest: orphan_pass\<close>)
  then show ?thesis by simp
qed

lemma refresh_pass:
  assumes "refresh_step i c = Inr c'" "orders_held c" shows "orders_pass c c'"
proof (cases "order_at (ps_futures c) i")
  case (Some ord)
  note held = order_at_held[OF assms(2) Some]
  show ?thesis
  proof (cases "po_status ord = PO_open")
    case True
    then show ?thesis using assms(1) Some held
      by (auto simp: refresh_step_def split: sum.splits if_splits prod.splits intro: cancel_working_pass
          dest!: sync_order intro!: same_put_pass dest: repriced_held)
  qed (use assms Some in \<open>simp add: refresh_step_def\<close>)
qed (use assms in \<open>simp add: refresh_step_def\<close>)

lemma refreshReserves_pass:
  assumes "refreshFuturesOpeningReserves c = Inr c'" "orders_held c" shows "orders_pass c c'"
  using efold_pass[where g = "\<lambda>c. c", OF assms(1)[unfolded refreshFuturesOpeningReserves_def]] assms(2) refresh_pass by blast

section \<open>How much a fill takes\<close>

lemma not_neg_abs: "not_neg (js_abs a)"
  by (cases a) auto

lemma js_add_ge0: "js_le (Fin 0) a \<Longrightarrow> js_le (Fin 0) b \<Longrightarrow> js_le (Fin 0) (js_add a b)"
proof (cases a; cases b)
  fix x y assume "js_le (Fin 0) a" "js_le (Fin 0) b" "a = Fin x" "b = Fin y"
  then show ?thesis using fl_mono[of 0 "x + y"] by simp
qed (auto simp: js_le_def)

lemma dbl_abs: "dbl a \<Longrightarrow> dbl (js_abs a)"
  using is_double_neg by (cases a) (auto simp: abs_if)

lemma ge0_abs: "a \<noteq> NaN \<Longrightarrow> js_le (Fin 0) (js_abs a)"
  by (cases a) (auto simp: js_le_def)

lemma pos_minus_0: "js_gt a (Fin 0) \<Longrightarrow> js_le (Fin 0) (js_sub a (Fin 0))"
  using fl_mono[of 0] by (cases a) (auto simp: js_sub_def js_le_def[of _ PInf])

lemma locked_ge0:
  assumes "futuresLockedAmount c k excluded = Inr locked" "orders_held c" "fe_amount (entry_of (ps_futures c) k) \<noteq> NaN" shows "js_le (Fin 0) locked"
proof -
  have step: "js_le (Fin 0) s'" if "locked_step c k excluded x s = Inr s'" "js_le (Fin 0) s" "x \<in> set (pa_orders (ps_futures c))" for x s s'
    using that assms(2,3) by (auto simp: locked_step_def Let_def result_simps orders_held_def order_held_def split: if_splits
        intro!: js_add_ge0 ge0_abs pos_minus_0)
  have "efold (locked_step c k excluded) xs s = Inr locked \<Longrightarrow> js_le (Fin 0) s \<Longrightarrow> set xs \<subseteq> set (pa_orders (ps_futures c)) \<Longrightarrow> js_le (Fin 0) locked" for xs s
    by (induction xs arbitrary: s) (auto simp: result_simps dest: step)
  then show ?thesis using assms(1) by (auto simp: futuresLockedAmount_def)
qed

lemma exec_prepare:
  assumes "prepareFuturesFill input excluded c = Inr p"
  obtains asset locked where
    "resolveFuturesPositionSide c (in_positionSide input) = Inr (fp_positionSide p)" "futures_asset c (in_symbol input) = Inr asset"
    "fp_entryKey p = futuresEntryKey c asset (fp_positionSide p)" "fp_current p = entry_of (ps_futures c) (fp_entryKey p)"
    "fp_currentQty p = js_abs (fe_amount (fp_current p))" "fp_currentLots p = snapshotFuturesLots c (fp_current p)"
    "futuresLockedAmount c (fp_entryKey p) excluded = Inr locked"
    "fp_reducing p = (js_gt (fp_currentQty p) (Fin 0) \<and> side_reduces (in_side input) (fe_amount (fp_current p)))"
    "fp_requested p = requested_amount input (fp_reducing p) (fp_currentQty p) (js_max (Fin 0) (js_sub (fp_currentQty p) locked))"
    "in_closePosition input = Some True \<or> is_finite (in_amount input) \<and> \<not> js_le (in_amount input) (Fin 0)"
    "in_closePosition input = Some True \<or> in_reduceOnly input = Some True \<Longrightarrow> fp_reducing p"
    "in_reduceOnly input = Some True \<Longrightarrow> \<not> exceeds (fp_requested p) (js_max (Fin 0) (js_sub (fp_currentQty p) locked))"
    "ps_positionMode c = Hedge \<Longrightarrow> js_eq (fp_currentQty p) (Fin 0) \<Longrightarrow> in_side input = (if fp_positionSide p = PS_long then Buy else Sell)"
    "ps_positionMode c = Hedge \<Longrightarrow> fp_reducing p \<Longrightarrow> \<not> exceeds (fp_requested p) (fp_currentQty p)"
proof -
  let ?closes = "in_closePosition input = Some True" and ?reduces = "in_reduceOnly input = Some True"
  have "resolveFuturesPositionSide c (in_positionSide input) \<noteq> Inl err" for err
    using assms by (intro notI) (simp add: prepareFuturesFill_def Let_def split: if_splits)
  then obtain ps where ps: "resolveFuturesPositionSide c (in_positionSide input) = Inr ps" by (metis sum.exhaust)
  have "futures_asset c (in_symbol input) \<noteq> Inl err" for err
    using assms by (intro notI) (simp add: prepareFuturesFill_def Let_def ps split: if_splits)
  then obtain asset where a: "futures_asset c (in_symbol input) = Inr asset" by (metis sum.exhaust)
  define k where "k = futuresEntryKey c asset ps"
  define e where "e = entry_of (ps_futures c) k"
  define qty where "qty = js_abs (fe_amount e)"
  define reducing where "reducing = (js_gt qty (Fin 0) \<and> side_reduces (in_side input) (fe_amount e))"
  have "futuresLockedAmount c k excluded \<noteq> Inl err" for err
    using assms by (intro notI) (simp add: prepareFuturesFill_def Let_def ps a k_def split: if_splits)
  then obtain locked where l: "futuresLockedAmount c k excluded = Inr locked" by (metis sum.exhaust)
  define unlocked where "unlocked = js_max (Fin 0) (js_sub qty locked)"
  define requested where "requested = requested_amount input reducing qty unlocked"
  define opens where "opens = (if ps = PS_long then Buy else Sell)"
  note vars = opens_def[symmetric] k_def[symmetric] e_def[symmetric] qty_def[symmetric] reducing_def[symmetric] unlocked_def[symmetric] requested_def[symmetric]
  define r where "r = \<lparr>fp_positionSide = ps, fp_entryKey = k, fp_current = e, fp_currentQty = qty, fp_currentLots = snapshotFuturesLots c e,
      fp_leverage = fst (futuresSettings c (in_symbol input)), fp_marginType = snd (futuresSettings c (in_symbol input)), fp_requested = requested, fp_reducing = reducing\<rparr>"
  from assms[unfolded prepareFuturesFill_def Let_def ps a ebind_simps vars l r_def[symmetric]] have p: "p = r"
    and g: "?closes \<or> is_finite (in_amount input) \<and> \<not> js_le (in_amount input) (Fin 0)" "?closes \<or> ?reduces \<Longrightarrow> reducing"
      "?reduces \<Longrightarrow> \<not> exceeds requested unlocked" "ps_positionMode c = Hedge \<Longrightarrow> js_eq qty (Fin 0) \<Longrightarrow> in_side input = opens"
      "ps_positionMode c = Hedge \<Longrightarrow> reducing \<Longrightarrow> \<not> exceeds requested qty"
    by (auto split: if_splits)
  show thesis
    by (rule that[of asset locked]) (use ps a l g in \<open>simp_all add: p r_def opens_def k_def[symmetric] e_def[symmetric] qty_def[symmetric] reducing_def[symmetric] unlocked_def[symmetric] requested_def[symmetric]\<close>)
qed

text \<open>What is unlocked is at most the position; not-a-number only against an infinite position.\<close>

lemma unlocked_within:
  assumes "js_le (Fin 0) locked" "js_gt qty (Fin 0)" "dbl qty"
  shows "js_le (js_max (Fin 0) (js_sub qty locked)) qty \<or> qty = PInf"
proof (cases qty; cases locked)
  fix x y assume q: "qty = Fin x" "locked = Fin y"
  with assms have "js_le (fl (x + - y)) (fl x)" by (intro fl_mono) simp
  then show ?thesis using q assms by (auto simp: js_sub_def is_double_def js_max_def)
qed (use assms in \<open>auto simp: js_sub_def js_max_def js_le_def\<close>)

lemma not_exceeds: "\<not> exceeds r b \<Longrightarrow> \<not> futuresAmountsEqual r b \<Longrightarrow> is_finite r \<Longrightarrow> b \<noteq> NaN \<Longrightarrow> js_le r b"
  by (cases r; cases b) (auto simp: exceeds_def js_le_def)

lemma amounts_finite: "futuresAmountsEqual a b \<Longrightarrow> is_finite b"
  by (simp add: futuresAmountsEqual_def)

lemma requested_amount_within:
  fixes input qty unlocked
  defines "r \<equiv> requested_amount input True qty unlocked"
  assumes u: "js_le unlocked qty \<or> qty = PInf" "qty \<noteq> NaN" and amount: "in_closePosition input = Some True \<or> is_finite (in_amount input)"
    and bound: "hedge \<or> in_closePosition input = Some True \<or> in_reduceOnly input = Some True"
      "in_reduceOnly input = Some True \<Longrightarrow> \<not> exceeds r unlocked" "hedge \<Longrightarrow> \<not> exceeds r qty"
  shows "js_le r qty"
proof -
  have "r = unlocked \<and> is_finite unlocked \<or> r = qty \<or> r = in_amount input \<and> in_closePosition input \<noteq> Some True \<and> \<not> futuresAmountsEqual r qty \<and>
      (in_reduceOnly input = Some True \<longrightarrow> \<not> futuresAmountsEqual r unlocked)"
    unfolding r_def requested_amount_def Let_def by (auto dest: amounts_finite)
  then consider "r = unlocked" "is_finite unlocked" | "r = qty"
    | "r = in_amount input" "in_closePosition input \<noteq> Some True" "\<not> futuresAmountsEqual r qty" "in_reduceOnly input = Some True \<Longrightarrow> \<not> futuresAmountsEqual r unlocked"
    by blast
  then show ?thesis
  proof cases
    case 1
    then show ?thesis using u by (cases unlocked) (auto simp: js_le_def)
  next
    case 2
    then show ?thesis using u(2) js_le_refl by simp
  next
    case 3
    then have fin: "is_finite r" using amount by simp
    consider hedge | "qty \<noteq> PInf" "in_reduceOnly input = Some True" | "qty = PInf" using bound(1) 3(2) by blast
    then show ?thesis
    proof cases
      case 1
      then show ?thesis using not_exceeds[OF bound(3) 3(3) fin u(2)] by simp
    next
      case 2
      then have "js_le unlocked qty" "unlocked \<noteq> NaN" using u(1) js_le_not_NaN by blast+
      then show ?thesis using not_exceeds[OF bound(2)[OF 2(2)] 3(4)[OF 2(2)] fin] js_le_trans by blast
    next
      case 3
      then show ?thesis using fin by (cases r) (auto simp: js_le_def)
    qed
  qed
qed

lemma requested_within:
  assumes p: "prepareFuturesFill input excluded c = Inr p" and held: "orders_held c" "dbl (fe_amount (fp_current p))" and red: "fp_reducing p"
    and bound: "ps_positionMode c = Hedge \<or> in_closePosition input = Some True \<or> in_reduceOnly input = Some True"
  shows "js_le (fp_requested p) (fp_currentQty p)"
proof -
  obtain asset locked where f: "fp_current p = entry_of (ps_futures c) (fp_entryKey p)" "fp_currentQty p = js_abs (fe_amount (fp_current p))"
    "futuresLockedAmount c (fp_entryKey p) excluded = Inr locked" "js_gt (fp_currentQty p) (Fin 0)"
    "fp_requested p = requested_amount input True (fp_currentQty p) (js_max (Fin 0) (js_sub (fp_currentQty p) locked))"
    "in_closePosition input = Some True \<or> is_finite (in_amount input) \<and> \<not> js_le (in_amount input) (Fin 0)"
    "in_reduceOnly input = Some True \<Longrightarrow> \<not> exceeds (fp_requested p) (js_max (Fin 0) (js_sub (fp_currentQty p) locked))"
    "ps_positionMode c = Hedge \<Longrightarrow> \<not> exceeds (fp_requested p) (fp_currentQty p)"
    by (rule exec_prepare[OF p]) (use red in simp)
  let ?qty = "fp_currentQty p" and ?unlocked = "js_max (Fin 0) (js_sub (fp_currentQty p) locked)"
  have nan: "?qty \<noteq> NaN" using f(4) by auto
  then have "fe_amount (fp_current p) \<noteq> NaN" using f(2) by auto
  then have u: "js_le ?unlocked ?qty \<or> ?qty = PInf"
    using locked_ge0[OF f(3) held(1)] f(1,2,4) dbl_abs[OF held(2)] by (intro unlocked_within) simp_all
  show ?thesis
    unfolding f(5) by (rule requested_amount_within[where hedge = "ps_positionMode c = Hedge", OF u nan]) (use f(5-8) bound in auto)
qed

section \<open>Fills keep the book\<close>

lemma asset_symbol: "futures_asset c symbol = Inr asset \<Longrightarrow> futures_market_symbol c symbol"
  by (auto simp: futures_asset_def baseAsset_def base_part_def Let_def futures_market_symbol_def split: option.splits if_splits)

lemma entry_of_held: "positions_held c \<Longrightarrow> position_held c k (entry_of (ps_futures c) k)"
  by (auto simp: positions_held_def entry_of_def position_held_def given_all_def dest!: obj_get_Some_mem split: option.splits)

lemma ge0_not_neg: "js_le (Fin 0) a \<Longrightarrow> not_neg a"
  by (simp add: not_neg_def js_le_not_gt)

lemma js_lt_asym: "js_lt a b \<Longrightarrow> \<not> js_lt b a"
  by (cases a; cases b) auto

lemma requested_ge0:
  assumes "prepareFuturesFill input excluded c = Inr p" shows "js_le (Fin 0) (fp_requested p)"
proof -
  obtain locked where f: "fp_reducing p \<Longrightarrow> js_gt (fp_currentQty p) (Fin 0)"
    "fp_requested p = requested_amount input (fp_reducing p) (fp_currentQty p) (js_max (Fin 0) (js_sub (fp_currentQty p) locked))"
    "in_closePosition input = Some True \<or> is_finite (in_amount input) \<and> \<not> js_le (in_amount input) (Fin 0)"
    "in_closePosition input = Some True \<or> in_reduceOnly input = Some True \<Longrightarrow> fp_reducing p"
    by (rule exec_prepare[OF assms]) simp
  let ?u = "js_max (Fin 0) (js_sub (fp_currentQty p) locked)"
  have "fp_requested p = ?u \<and> is_finite ?u \<or> fp_requested p = fp_currentQty p \<and> fp_reducing p \<or> fp_requested p = in_amount input \<and> in_closePosition input \<noteq> Some True"
    using f(4) unfolding f(2) requested_amount_def Let_def by (auto dest: amounts_finite)
  then show ?thesis
  proof (elim disjE conjE)
    assume "fp_requested p = ?u" "is_finite ?u"
    then show ?thesis using js_max_ge(1)[of "Fin 0" "js_sub (fp_currentQty p) locked"] by (auto simp: js_max_def)
  next
    assume "fp_requested p = fp_currentQty p" "fp_reducing p"
    then show ?thesis using f(1) by (auto simp: js_le_def)
  next
    assume "fp_requested p = in_amount input" "in_closePosition input \<noteq> Some True"
    then show ?thesis using f(3) by (cases "in_amount input") auto
  qed
qed

text \<open>No positive double is equal to zero up to the tolerance, so an amount that is clamped stays positive.\<close>

lemma double_lower:
  assumes "is_double x" "0 < x" shows "2 powi (-1074) \<le> x"
proof -
  have v: "fl_val x = x" using assms(1) by (auto simp: is_double_def fl_def Let_def split: if_splits)
  define u where "u = (2::rat) powi (ulp_exp x)"
  define n where "n = round_even (x / u)"
  have u: "0 < u" "2 powi (-1074) \<le> u" unfolding u_def ulp_exp_def by (simp, rule power_int_increasing) simp_all
  have x: "x = of_int n * u" using v by (simp add: fl_val_def Let_def u_def n_def)
  then have "0 < n" using assms(2) u(1) by (simp add: zero_less_mult_iff)
  then have "1 * u \<le> of_int n * u" using u(1) by (intro mult_right_mono) auto
  then show ?thesis using u(2) x by linarith
qed

lemma positive_not_equal_zero:
  assumes "is_double x" "0 < x" shows "\<not> futuresAmountsEqual (Fin x) (Fin 0)"
proof
  assume e: "futuresAmountsEqual (Fin x) (Fin 0)"
  have m: "js_max (Fin x) (Fin 0) = Fin x" using assms(2) by (simp add: js_max_def)
  have k: "js_mul EPSILON (Fin 8) = Fin (1 / 2 ^ 49)"
  proof -
    have e: "(2::rat) powi (-52) * 8 = 1 / 2 ^ 49" by (simp add: power_int_def power_one_over)
    have l: "(1::rat) / 2 ^ 49 < 2 powi 1024"
      using powi_less_iff_exp[of 0 1024] by (simp add: field_simps)
    have "fl (1 / 2 ^ 49) = Fin (1 / 2 ^ 49)"
      by (rule fl_exact[where m = 1 and k = "-49"]) (use l in \<open>simp_all add: power_int_def power_one_over\<close>)
    then show ?thesis unfolding EPSILON_def js_mul.simps e .
  qed
  have "fl x = Fin x" using assms(1) by (simp add: is_double_def)
  then have le: "js_le (Fin x) (fl (x / 2 ^ 49))" using e assms(2) by (simp add: futuresAmountsEqual_def js_sub_def m k)
  have "js_le (fl (x / 2 ^ 49)) (fl x)" using assms(2) by (intro fl_mono) (simp add: field_simps)
  with le \<open>fl x = Fin x\<close> obtain y where y: "fl (x / 2 ^ 49) = Fin y" "x \<le> y" by (cases "fl (x / 2 ^ 49)") (auto simp: js_le_def)
  have "2 powi (-1075) = (2 powi (-1074)) / (2::rat)" using power_int_diff[of "2::rat" "-1074" 1] by simp
  then have "2 powi (-1075) \<le> x / 2" using double_lower[OF assms] by simp
  then have "\<bar>y - x / 2 ^ 49\<bar> \<le> x / 2 ^ 49 / 2 ^ 53 + x / 2" using fl_error[OF y(1)] assms(2) by simp
  then have "y - x / 2 ^ 49 \<le> x / 2 ^ 49 / 2 ^ 53 + x / 2" by linarith
  then show False using y(2) assms(2) by (simp add: field_simps)
qed

lemma clamped_pos:
  assumes "js_gt r (Fin 0)" "dbl r" "futuresAmountsEqual r u" "\<not> js_lt u (Fin 0)" shows "js_gt u (Fin 0)"
proof -
  from assms(3) obtain x y where x: "r = Fin x" "u = Fin y" by (auto simp: futuresAmountsEqual_def is_finite_iff)
  with assms positive_not_equal_zero[of x] have "y \<noteq> 0" by auto
  with assms(4) x show ?thesis by simp
qed

lemma requested_pos:
  assumes "prepareFuturesFill input excluded c = Inr p" "in_closePosition input = Some True \<or> dbl (in_amount input)" "dbl (fe_amount (fp_current p))"
  shows "js_gt (fp_requested p) (Fin 0)"
proof -
  obtain locked where f: "fp_reducing p \<Longrightarrow> js_gt (fp_currentQty p) (Fin 0)"
    "fp_requested p = requested_amount input (fp_reducing p) (fp_currentQty p) (js_max (Fin 0) (js_sub (fp_currentQty p) locked))"
    "in_closePosition input = Some True \<or> is_finite (in_amount input) \<and> \<not> js_le (in_amount input) (Fin 0)"
    "in_closePosition input = Some True \<or> in_reduceOnly input = Some True \<Longrightarrow> fp_reducing p" "fp_currentQty p = js_abs (fe_amount (fp_current p))"
    by (rule exec_prepare[OF assms(1)]) simp
  let ?u = "js_max (Fin 0) (js_sub (fp_currentQty p) locked)"
  have qty: "fp_reducing p \<Longrightarrow> js_gt (fp_currentQty p) (Fin 0) \<and> dbl (fp_currentQty p)" using f(1,5) dbl_abs[OF assms(3)] by simp
  have amount: "in_closePosition input \<noteq> Some True \<Longrightarrow> js_gt (in_amount input) (Fin 0) \<and> dbl (in_amount input)"
    using f(3) assms(2) by (cases "in_amount input") auto
  define r where "r = (let r0 = (if in_closePosition input = Some True then fp_currentQty p else in_amount input)
    in if fp_reducing p \<and> futuresAmountsEqual r0 (fp_currentQty p) then fp_currentQty p else r0)"
  have r: "js_gt r (Fin 0)" "dbl r" using qty amount f(4) by (auto simp: r_def Let_def)
  have u: "\<not> js_lt ?u (Fin 0)" by (auto simp: js_max_def dest: js_lt_asym)
  have "fp_requested p = r \<or> fp_requested p = ?u \<and> futuresAmountsEqual r ?u" unfolding f(2) requested_amount_def r_def Let_def by auto
  then show ?thesis using r(1) clamped_pos[OF r _ u] by auto
qed

text \<open>The direction of a hedge position: what a long has on the positive side, a short has on the negative side.\<close>

definition facing :: "position_side \<Rightarrow> jsnum \<Rightarrow> jsnum" where
  "facing ps x = (if ps = PS_long then x else js_neg x)"

lemma facing_add: "facing ps (js_add a b) = js_add (facing ps a) (facing ps b)"
  by (simp add: facing_def js_neg_add)

lemma facing_signed: "facing ps (js_mul (math_sign x) s) = js_mul (math_sign (facing ps x)) s"
  by (simp add: facing_def math_sign_neg js_mul_neg)

lemma hedge_resolves: "resolveFuturesPositionSide c s = Inr ps \<Longrightarrow> ps_positionMode c = Hedge \<Longrightarrow> ps = PS_long \<or> ps = PS_short"
  by (auto simp: resolveFuturesPositionSide_def split: option.splits position_side.splits)

lemma hedge_key_side:
  assumes "ps_positionMode c = Hedge" "ps = PS_long \<or> ps = PS_short"
  shows "position_held c (futuresEntryKey c asset ps) e \<longleftrightarrow>
    dbl (fe_amount e) \<and> given_all (list_all lot_held) (fe_lots e) \<and> not_neg (facing ps (fe_amount e))"
proof -
  have "suffix '':LONG'' (asset @ '':LONG'')" "suffix '':SHORT'' (asset @ '':SHORT'')" by (auto simp: suffix_def)
  moreover have "\<not> suffix '':SHORT'' (asset @ '':LONG'')" "\<not> suffix '':LONG'' (asset @ '':SHORT'')" by (auto simp: suffix_def dest: arg_cong[where f = last])
  ultimately show ?thesis using assms by (auto simp: position_held_def futuresEntryKey_def facing_def)
qed

lemma hedge_fill_direction:
  assumes p: "prepareFuturesFill input excluded c = Inr p" and held: "book_ok c" and hedge: "ps_positionMode c = Hedge"
  shows "not_neg (facing (fp_positionSide p) (js_add (fe_amount (fp_current p)) (if in_side input = Buy then fp_requested p else js_neg (fp_requested p))))"
proof -
  obtain asset where f: "resolveFuturesPositionSide c (in_positionSide input) = Inr (fp_positionSide p)"
    "fp_entryKey p = futuresEntryKey c asset (fp_positionSide p)" "fp_current p = entry_of (ps_futures c) (fp_entryKey p)"
    "fp_currentQty p = js_abs (fe_amount (fp_current p))" "fp_reducing p = (js_gt (fp_currentQty p) (Fin 0) \<and> side_reduces (in_side input) (fe_amount (fp_current p)))"
    "js_eq (fp_currentQty p) (Fin 0) \<Longrightarrow> in_side input = (if fp_positionSide p = PS_long then Buy else Sell)"
    by (rule exec_prepare[OF p]) (use hedge in simp)
  let ?ps = "fp_positionSide p" and ?a = "fe_amount (fp_current p)" and ?r = "fp_requested p"
  have side: "?ps = PS_long \<or> ?ps = PS_short" using hedge_resolves[OF f(1) hedge] .
  have cur: "dbl ?a" "not_neg (facing ?ps ?a)"
    using entry_of_held[of c "fp_entryKey p"] held hedge_key_side[OF hedge side, of asset] by (auto simp: book_ok_def f(2,3))
  have qty: "fp_currentQty p = facing ?ps ?a" using js_abs_id[OF cur(2)] side f(4) by (auto simp: facing_def)
  show ?thesis
  proof (cases "in_side input = (if ?ps = PS_long then Buy else Sell)")
    case True
    then have "facing ?ps (if in_side input = Buy then ?r else js_neg ?r) = ?r" using side by (auto simp: facing_def)
    then show ?thesis unfolding facing_add using cur(2) requested_ge0[OF p] by (simp add: not_neg_add ge0_not_neg)
  next
    case False
    then have s: "facing ?ps (if in_side input = Buy then ?r else js_neg ?r) = js_neg ?r" using side by (cases "in_side input") (auto simp: facing_def)
    have "fp_currentQty p = NaN \<or> fp_reducing p"
      using f(6) False cur(2) side unfolding f(5) qty
      by (cases ?a; cases "in_side input") (auto simp: facing_def side_reduces_def order.strict_iff_order)
    then have "\<not> js_lt (fp_currentQty p) ?r"
    proof
      assume "fp_reducing p"
      with requested_within[OF p _ cur(1)] held hedge show ?thesis by (auto simp: book_ok_def dest: js_le_not_gt)
    qed simp
    then show ?thesis unfolding facing_add s qty[symmetric] js_sub_def[symmetric] by (rule not_neg_sub)
  qed
qed

lemma close_lots_step:
  assumes "close_lots all price d (l # lots) toClose released pnl = (rest, released', pnl')"
  obtains closed t r q rest1 where "close_lots all price d lots t r q = (rest1, released', pnl')"
    "rest = (if js_gt (lt_amount l) closed then l\<lparr>lt_amount := js_sub (lt_amount l) closed\<rparr> # rest1 else rest1)"
    "closed = (if all \<or> futuresAmountsEqual (lt_amount l) toClose then lt_amount l else js_min (lt_amount l) toClose)"
    "t = (if js_gt closed (Fin 0) then js_max (Fin 0) (js_sub toClose closed) else toClose)"
proof -
  define closed where "closed = (if all \<or> futuresAmountsEqual (lt_amount l) toClose then lt_amount l else js_min (lt_amount l) toClose)"
  note u = assms[unfolded close_lots.simps Let_def closed_def[symmetric]]
  show thesis
  proof (cases "js_gt closed (Fin 0)")
    case True
    with u show thesis by (auto split: prod.splits intro: that[OF _ _ closed_def])
  next
    case False
    with u show thesis by (auto split: prod.splits intro: that[OF _ _ closed_def])
  qed
qed

lemma close_lots_amounts: "close_lots all price d lots toClose released pnl = (rest, released', pnl') \<Longrightarrow> list_all lot_held rest"
proof (induction lots arbitrary: toClose released pnl rest)
  case (Cons l lots)
  obtain closed t r q rest1 where s: "close_lots all price d lots t r q = (rest1, released', pnl')"
    "rest = (if js_gt (lt_amount l) closed then l\<lparr>lt_amount := js_sub (lt_amount l) closed\<rparr> # rest1 else rest1)"
    by (rule close_lots_step[OF Cons.prems])
  then show ?case using Cons.IH[OF s(1)] by (auto simp: lot_held_def js_sub_def[of "lt_amount l" closed] dbl_add intro: not_neg_sub[unfolded js_sub_def] dest: js_lt_asym)
qed simp

lemma store_lots_held:
  assumes "\<forall>(k, e) \<in> set entries. position_held c k e" "lots \<noteq> [] \<Longrightarrow> position_held c key (entry_of_lots d lots)"
  shows "\<forall>(k, e) \<in> set (store_lots key d lots entries). position_held c k e"
  using assms by (auto simp: store_lots_def obj_del_def dest: obj_set_mem split: if_splits)

lemma one_way_held: "ps_positionMode c \<noteq> Hedge \<Longrightarrow> position_held c k e \<longleftrightarrow> dbl (fe_amount e) \<and> given_all (list_all lot_held) (fe_lots e)"
  by (simp add: position_held_def)

lemma new_entry_held:
  assumes p: "prepareFuturesFill input excluded c = Inr p" and held: "book_ok c" and lots: "list_all lot_held lots"
  shows "position_held c (fp_entryKey p) (entry_of_lots (math_sign (js_add (fe_amount (fp_current p)) (if in_side input = Buy then fp_requested p else js_neg (fp_requested p)))) lots)"
proof (cases "ps_positionMode c = Hedge")
  case True
  obtain asset where f: "resolveFuturesPositionSide c (in_positionSide input) = Inr (fp_positionSide p)" "fp_entryKey p = futuresEntryKey c asset (fp_positionSide p)"
    by (rule exec_prepare[OF p])
  show ?thesis unfolding f(2) hedge_key_side[OF True hedge_resolves[OF f(1) True]]
    using not_neg_signed[OF hedge_fill_direction[OF p held True] lots_amount_not_neg[OF lots]] lots by (simp add: entry_of_lots_def dbl_mul facing_signed given_all_def)
qed (use lots in \<open>simp add: one_way_held entry_of_lots_def dbl_mul given_all_def\<close>)

lemma finished_held: "order_held c x \<Longrightarrow> order_held c (finished_working x requested notional obs)"
  by (simp add: order_held_def finished_working_def Let_def reserved_of_def given_or_def)

lemma market_order_held:
  "futures_market_symbol c (in_symbol input) \<Longrightarrow> order_held c (futures_market_order now n input p price notional obs)"
  by (simp add: order_held_def futures_market_order_def market_fill_def reserved_of_def given_or_def)

abbreviation signed_amount :: "place_order_input \<Rightarrow> prepared_fill \<Rightarrow> jsnum" where
  "signed_amount input p \<equiv> (if in_side input = Buy then fp_requested p else js_neg (fp_requested p))"

lemma exec_fill_position:
  assumes "fill_position now input price existing c = Inr (ord, fee, c')"
  obtains p obs rest released pnl lots where "prepareFuturesFill input (map_option po_id existing) c = Inr p"
    "close_lots (js_eq (closing_amount p) (fp_currentQty p)) price (math_sign (fe_amount (fp_current p))) (fp_currentLots p) (closing_amount p) (Fin 0) (Fin 0) = (rest, released, pnl)"
    "lots = rest @ (if js_gt (js_sub (fp_requested p) (closing_amount p)) (Fin 0)
       then [\<lparr>lt_amount = js_sub (fp_requested p) (closing_amount p), lt_price = price, lt_leverage = fp_leverage p, lt_marginType = fp_marginType p\<rparr>] else [])"
    "pa_entries (ps_futures c') = store_lots (fp_entryKey p) (math_sign (js_add (fe_amount (fp_current p)) (signed_amount input p))) lots (pa_entries (ps_futures c))"
    "same_config c c'"
    "ord = (case existing of Some x \<Rightarrow> finished_working x (fp_requested p) (js_mul (fp_requested p) price) obs
            | None \<Rightarrow> futures_market_order now (ps_nextOrderId c) input p price (js_mul (fp_requested p) price) obs)"
    "pa_orders (ps_futures c') = (case existing of Some x \<Rightarrow> map (\<lambda>y. if po_id y = po_id ord then ord else y) (pa_orders (ps_futures c))
            | None \<Rightarrow> pa_orders (ps_futures c) @ [ord])"
proof -
  have "prepareFuturesFill input (map_option po_id existing) c \<noteq> Inl err" for err using assms by (auto simp: fill_position_def)
  then obtain p where p: "prepareFuturesFill input (map_option po_id existing) c = Inr p" by (metis sum.exhaust)
  let ?fees = "emap_error (Paper_failed \<circ> Ledger_fee) (paperOrderFeeObservation (ps_quote c) (js_mul (js_mul (fp_requested p) price) (ps_feeRate c))
    (map_option (\<lambda>x. (po_filled x, po_feeObservation x)) existing))"
  have "?fees \<noteq> Inl err" for err using assms by (auto simp: fill_position_def p Let_def)
  then obtain obs where o: "?fees = Inr obs" by (metis sum.exhaust)
  obtain rest released pnl where cl: "close_lots (js_eq (closing_amount p) (fp_currentQty p)) price (math_sign (fe_amount (fp_current p))) (fp_currentLots p)
      (closing_amount p) (Fin 0) (Fin 0) = (rest, released, pnl)" by (metis prod_cases3)
  note u = assms[unfolded fill_position_def p ebind_simps Let_def o cl prod.case]
  show thesis
    by (rule that[OF p cl HOL.refl, of obs])
      (use u in \<open>auto simp: set_free_margin_def set_balance_def same_config_def put_order_def Let_def split: if_splits option.splits\<close>)
qed

lemma fill_position_book:
  assumes "fill_position now input price existing c = Inr (ord, fee, c')" "book_ok c" "\<And>x. existing = Some x \<Longrightarrow> order_held c x"
  shows "book_ok c' \<and> same_config c c'"
proof -
  obtain p obs rest released pnl lots where f: "prepareFuturesFill input (map_option po_id existing) c = Inr p"
    "close_lots (js_eq (closing_amount p) (fp_currentQty p)) price (math_sign (fe_amount (fp_current p))) (fp_currentLots p) (closing_amount p) (Fin 0) (Fin 0) = (rest, released, pnl)"
    "lots = rest @ (if js_gt (js_sub (fp_requested p) (closing_amount p)) (Fin 0)
       then [\<lparr>lt_amount = js_sub (fp_requested p) (closing_amount p), lt_price = price, lt_leverage = fp_leverage p, lt_marginType = fp_marginType p\<rparr>] else [])"
    "pa_entries (ps_futures c') = store_lots (fp_entryKey p) (math_sign (js_add (fe_amount (fp_current p)) (signed_amount input p))) lots (pa_entries (ps_futures c))"
    "same_config c c'"
    "ord = (case existing of Some x \<Rightarrow> finished_working x (fp_requested p) (js_mul (fp_requested p) price) obs
            | None \<Rightarrow> futures_market_order now (ps_nextOrderId c) input p price (js_mul (fp_requested p) price) obs)"
    "pa_orders (ps_futures c') = (case existing of Some x \<Rightarrow> map (\<lambda>y. if po_id y = po_id ord then ord else y) (pa_orders (ps_futures c))
            | None \<Rightarrow> pa_orders (ps_futures c) @ [ord])"
    by (rule exec_fill_position[OF assms(1)])
  have lots: "list_all lot_held lots"
    using close_lots_amounts[OF f(2)] unfolding f(3) by (auto simp: lot_held_def js_sub_def dbl_add not_neg_def dest: js_lt_asym)
  have sym: "futures_market_symbol c (in_symbol input)" by (rule exec_prepare[OF f(1)]) (rule asset_symbol)
  have ord: "order_held c ord" using assms(3) sym unfolding f(6) by (auto intro: finished_held market_order_held split: option.splits)
  have "positions_held c'"
    unfolding positions_held_def f(4) same_config_held(2)[OF f(5)]
    by (rule store_lots_held) (use assms(2) new_entry_held[OF f(1) assms(2) lots] in \<open>auto simp: book_ok_def positions_held_def\<close>)
  moreover have "orders_held c'"
    unfolding orders_held_def f(7) same_config_held(1)[OF f(5)] using ord assms(2) by (auto simp: book_ok_def orders_held_def split: option.splits)
  ultimately show ?thesis using f(5) by (simp add: book_ok_def)
qed

lemma same_config_trans: "same_config c c1 \<Longrightarrow> same_config c1 c2 \<Longrightarrow> same_config c c2"
  by (simp add: same_config_def)

lemma executeFuturesFill_book:
  assumes "executeFuturesFill now input price existing c = Inr (ord, fee, c')" "book_ok c" "\<And>x. existing = Some x \<Longrightarrow> order_held c x"
  shows "book_ok c' \<and> same_config c c'"
proof -
  from assms(1) obtain c1 c2 dirty where f: "fill_position now input price existing c = Inr (ord, fee, c1)"
    "cancelOrphanedFuturesReduceOrders c1 = Inr (dirty, c2)" "refreshFuturesOpeningReserves c2 = Inr c'"
    by (auto simp: executeFuturesFill_def result_simps)
  have b1: "book_ok c1 \<and> same_config c c1" by (rule fill_position_book[OF f(1) assms(2,3)])
  then have b2: "book_ok c2 \<and> same_config c1 c2" using orders_pass_book[OF cancelOrphaned_pass[OF f(2)]] by (simp add: book_ok_def)
  then have "book_ok c' \<and> same_config c2 c'" using orders_pass_book[OF refreshReserves_pass[OF f(3)]] by (simp add: book_ok_def)
  with b1 b2 show ?thesis using same_config_trans by blast
qed

section \<open>Settlement keeps the book\<close>

text \<open>One step of the exchange: the invariant and the configuration are kept.\<close>

definition keeps_book :: "store_client \<Rightarrow> store_client \<Rightarrow> bool" where
  "keeps_book c c' \<longleftrightarrow> (book_ok c \<longrightarrow> book_ok c') \<and> same_config c c'"

lemma keeps_refl [simp]: "keeps_book c c"
  by (simp add: keeps_book_def)

lemma keeps_trans: "keeps_book c c1 \<Longrightarrow> keeps_book c1 c2 \<Longrightarrow> keeps_book c c2"
  using same_config_trans by (auto simp: keeps_book_def)

lemma pass_keeps: "orders_pass c c' \<Longrightarrow> book_ok c \<Longrightarrow> book_ok c' \<and> keeps_book c c'"
  using orders_pass_book by (auto simp: keeps_book_def)

lemma no_siblings: "po_ocoGroup ord = None \<Longrightarrow> cancel_siblings ord a = a" "po_ocoGroup ord = None \<Longrightarrow> cancel_group ord a = a"
  by (simp_all add: cancel_siblings_def cancel_group_def truthy_def)

lemma client_same_futures: "c\<lparr>ps_futures := ps_futures c\<rparr> = c"
  by simp

lemma held_released: "order_held c x \<Longrightarrow> order_held c (x\<lparr>po_reservedMargin := Some (Fin 0)\<rparr>)"
  by (auto simp: order_held_def reserved_of_def given_or_def)

lemma held_released_cancelled: "order_held c x \<Longrightarrow> order_held c (x\<lparr>po_reservedMargin := Some (Fin 0), po_status := PO_canceled\<rparr>)"
  by (auto simp: order_held_def reserved_of_def given_or_def)

lemma fillRestingFutures_book:
  assumes "fillRestingFutures now ord price c = Inr c'" "book_ok c" "order_held c ord" "po_status ord = PO_open"
  shows "book_ok c' \<and> same_config c c'"
proof -
  let ?ord = "ord\<lparr>po_reservedMargin := Some (Fin 0)\<rparr>"
  from assms(1) obtain ord1 c0 where r: "release_working ord c = Inr (ord1, c0)" by (auto simp: fillRestingFutures_def result_simps)
  have r1: "ord1 = ?ord" "same_book c c0" using release_order[OF r] assms(3) by (auto simp: order_held_def)
  define c2 where "c2 = put_futures_order ?ord c0"
  have pass: "orders_pass c c2" unfolding c2_def by (rule same_put_pass[OF r1(2) held_released[OF assms(3)]])
  then have b2: "book_ok c2" "same_config c c2" using orders_pass_book assms(2) by auto
  have held: "order_held c2 ?ord" using held_released[OF assms(3)] same_config_held(1)[OF b2(2)] by simp
  have put: "book_ok (put_futures_order x c3) \<and> same_config c (put_futures_order x c3)" if "same_book c2 c3" "order_held c2 x" for x c3
    using orders_pass_book[OF same_put_pass[OF that] b2(1)] same_config_trans[OF b2(2)] by blast
  have fallback: "book_ok (put_futures_order (ord\<lparr>po_reservedMargin := m\<rparr>) c3)" "same_config c (put_futures_order (ord\<lparr>po_reservedMargin := m\<rparr>) c3)"
    if "same_book c2 c3" for m c3
    using put[OF that, of "ord\<lparr>po_reservedMargin := m\<rparr>"] order_held_margin(2)[OF held, of m] assms(4) by simp_all
  have none: "cancel_siblings ?ord (ps_futures c2) = ps_futures c2" using assms(3) by (intro no_siblings) (simp add: order_held_def)
  note u = assms(1)[unfolded fillRestingFutures_def r ebind_simps prod.case Let_def r1(1) c2_def[symmetric] none client_same_futures]
  show ?thesis
  proof (cases "executeFuturesFill now (working_input ?ord (po_clientOrderId ?ord)) price (Some ?ord) c2")
    case (Inr res)
    then obtain o' fee where "executeFuturesFill now (working_input ?ord (po_clientOrderId ?ord)) price (Some ?ord) c2 = Inr (o', fee, c')"
      using u by (cases res) auto
    from executeFuturesFill_book[OF this b2(1)] held show ?thesis using same_config_trans[OF b2(2)] by auto
  next
    case (Inl e)
    show ?thesis
    proof (cases "e = Insufficient_margin")
      case True
      show ?thesis using u Inl True
        by (auto split: sum.splits prod.splits dest!: reserve_order apply_reservation intro: fallback)
    next
      case False
      then have "c' = put_futures_order (?ord\<lparr>po_status := PO_canceled\<rparr>) c2" using u Inl by (auto split: if_splits)
      then show ?thesis using put[of c2] held_released_cancelled[OF held] by simp
    qed
  qed
qed

lemma efold_book:
  assumes "efold f xs s = Inr s'" "book_ok (g s)" "\<And>x s s'. x \<in> set xs \<Longrightarrow> f x s = Inr s' \<Longrightarrow> book_ok (g s) \<Longrightarrow> same_config c0 (g s) \<Longrightarrow> book_ok (g s') \<and> same_config (g s) (g s')"
    "same_config c0 (g s)"
  shows "book_ok (g s') \<and> same_config (g s) (g s')"
  using assms
proof (induction xs arbitrary: s)
  case (Cons x xs)
  from Cons.prems(1) obtain s1 where s1: "f x s = Inr s1" "efold f xs s1 = Inr s'" by (auto simp: result_simps)
  have b: "book_ok (g s1) \<and> same_config (g s) (g s1)" by (rule Cons.prems(3)[OF _ s1(1) Cons.prems(2,4)]) simp
  have "book_ok (g s') \<and> same_config (g s1) (g s')"
    by (rule Cons.IH[OF s1(2)]) (use b Cons.prems(3) same_config_trans[OF Cons.prems(4)] in auto)
  with b show ?case using same_config_trans by blast
qed simp

lemma same_order_held: "same_order ord ord' \<Longrightarrow> order_held c ord \<Longrightarrow> po_status ord = PO_open \<Longrightarrow> order_held c ord' \<and> po_status ord' = PO_open"
  by (simp add: same_order_def order_held_def)

lemma walked_held:
  assumes "evaluatePath ord path = (ord1, fire)" "order_held c ord" "po_status ord = PO_open"
  shows "order_held c (advanceCheckedAt ord1 t) \<and> po_status (advanceCheckedAt ord1 t) = PO_open"
proof -
  have "same_order ord ord1" using evaluate_same assms(1) by (auto simp: evaluatePath_def)
  then show ?thesis using same_order_held[OF advance_same(1)] same_order_held assms(2,3) by blast
qed

lemma settle_futures_one_book:
  assumes "settle_futures_one fv minSince waiting i (cache, dirty, c) = Inr (cache', dirty', c')" "book_ok c"
  shows "book_ok c' \<and> same_config c c'"
proof (cases "order_at (ps_futures c) i")
  case (Some ord)
  note held = order_at_held[OF _ Some]
  show ?thesis
  proof (cases "po_status ord = PO_open")
    case True
    have h: "order_held c ord" using held assms(2) by (simp add: book_ok_def)
    then have oco: "truthy (po_ocoGroup ord) = None" by (simp add: order_held_def truthy_def)
    obtain lst mp cache1 where m: "buildMarketPath (fv_ohlcv fv) ord (the lst) (fv_now fv) minSince cache = (Some mp, cache1)" "fv_settleTicker fv (po_symbol ord) = Some lst"
      "isFinitePositive lst"
      using assms(1) Some True by (auto simp: settle_futures_one_def split: option.splits if_splits prod.splits)
    obtain ord1 fire where w: "evaluatePath ord (mp_segments mp) = (ord1, fire)" by fastforce
    define ord2 where "ord2 = advanceCheckedAt ord1 (mp_checkedAt mp)"
    define c1 where "c1 = put_futures_order ord2 c"
    have h2: "order_held c ord2" "po_status ord2 = PO_open" using walked_held[OF w h True] by (simp_all add: ord2_def)
    have p1: "book_ok c1" "same_config c c1" unfolding c1_def using orders_pass_book[OF same_put_pass[OF same_refl(3) h2(1)] assms(2)] by auto
    note u = assms(1)[unfolded settle_futures_one_def prod.case Some option.case True m oco w Let_def ord2_def[symmetric] c1_def[symmetric]]
    obtain margined ord3 c2 where s: "syncFuturesOpeningReserve ord2 (map_option snd fire) c1 = Inr (margined, ord3, c2)"
      using u m(3) by (auto simp: result_simps)
    have h3: "order_held c1 ord3" "po_status ord3 = PO_open" "same_book c1 c2"
      using sync_order[OF s] repriced_held[of ord2 ord3 c1] h2 same_config_held(1)[OF p1(2)] by auto
    define c3 where "c3 = put_futures_order ord3 c2"
    have p3: "book_ok c3" "same_config c1 c3" unfolding c3_def using orders_pass_book[OF same_put_pass[OF h3(3,1)] p1(1)] by auto
    have "c' = c3 \<or> (\<exists>p. fillRestingFutures (fv_now fv) ord3 p c3 = Inr c')"
      using u m(3) s unfolding c3_def by (auto simp: result_simps split: option.splits if_splits)
    then have "book_ok c' \<and> same_config c3 c'"
      using fillRestingFutures_book[OF _ p3(1) _ h3(2)] h3(1) same_config_held(1)[OF p3(2)] p3(1) by auto
    then show ?thesis using p1 p3 same_config_trans by blast
  qed (use assms Some in \<open>simp add: settle_futures_one_def\<close>)
qed (use assms in \<open>simp add: settle_futures_one_def\<close>)

lemma settleFuturesOpenOrders_book:
  assumes "settleFuturesOpenOrders fv c = Inr (dirty, c')" "book_ok c" shows "book_ok c' \<and> same_config c c'"
proof (cases "filter (\<lambda>x. po_status x = PO_open) (pa_orders (ps_futures c)) = []")
  case False
  then obtain cache ids m where e: "efold (settle_futures_one fv m ids) ids (Map.empty, False, c) = Inr (cache, dirty, c')"
    using assms(1) by (auto simp: settleFuturesOpenOrders_def Let_def result_simps)
  have "book_ok (snd (snd (cache, dirty, c'))) \<and> same_config (snd (snd (Map.empty :: string \<rightharpoonup> kline list, False, c))) (snd (snd (cache, dirty, c')))"
  proof (rule efold_book[OF e, where ?c0.0 = c])
    fix x s s' assume "settle_futures_one fv m ids x s = Inr s'" "book_ok (snd (snd s))"
    then show "book_ok (snd (snd s')) \<and> same_config (snd (snd s)) (snd (snd s'))"
      by (cases s; cases s') (simp add: settle_futures_one_book)
  qed (use assms(2) in simp_all)
  then show ?thesis by simp
qed (use assms in \<open>simp add: settleFuturesOpenOrders_def\<close>)

section \<open>Liquidation keeps the book\<close>

lemma snapshot_amounts: "position_held c k e \<Longrightarrow> list_all lot_held (snapshotFuturesLots c' e)"
  by (auto simp: position_held_def snapshotFuturesLots_def given_all_def lot_held_def not_neg_abs dbl_abs case_prod_beta split: option.splits)

lemma rest_entry_held:
  assumes "position_held c k e" "list_all lot_held lots"
  shows "position_held c k (entry_of_lots (math_sign (fe_amount e)) lots)"
proof -
  note s = lots_amount_not_neg[OF assms(2)]
  have "not_neg (js_neg (js_mul (math_sign (fe_amount e)) (lots_amount lots)))" if "not_neg (js_neg (fe_amount e))"
    using not_neg_signed[OF that s] by (simp add: math_sign_neg js_mul_neg)
  then show ?thesis using assms not_neg_signed[OF _ s, of "fe_amount e"] by (auto simp: position_held_def entry_of_lots_def dbl_mul given_all_def)
qed

lemma liquidate_book:
  assumes "liquidateFuturesGroup now g c = Inr c'" "book_ok c" "futures_market_symbol c (lg_symbol g)"
  shows "book_ok c' \<and> same_config c c'"
proof -
  obtain e where e: "obj_get (pa_entries (ps_futures c)) (lg_entryKey g) = Some e"
    using assms(1) by (auto simp: liquidateFuturesGroup_def split: option.splits)
  let ?lots = "filter (\<lambda>l. lt_marginType l \<noteq> lg_marginType g) (snapshotFuturesLots c e)"
  have held: "position_held c (lg_entryKey g) e" using obj_get_Some_mem[OF e] assms(2) by (auto simp: book_ok_def positions_held_def)
  have lots: "list_all lot_held ?lots" using snapshot_amounts[OF held] by (auto simp: list_all_iff)
  have f: "pa_entries (ps_futures c') = store_lots (lg_entryKey g) (math_sign (fe_amount e)) ?lots (pa_entries (ps_futures c))" "same_config c c'"
    "\<exists>x. pa_orders (ps_futures c') = pa_orders (ps_futures c) @ [x] \<and> order_held c x"
    using assms(1,3) e by (auto simp: liquidateFuturesGroup_def Let_def result_simps set_free_margin_def set_balance_def same_config_def order_held_def market_fill_def
        reserved_of_def given_or_def)
  have "positions_held c'"
    unfolding positions_held_def f(1) same_config_held(2)[OF f(2)]
    by (rule store_lots_held) (use assms(2) rest_entry_held[OF held lots] in \<open>auto simp: book_ok_def positions_held_def\<close>)
  moreover have "orders_held c'"
    using f(3) assms(2) unfolding orders_held_def same_config_held(1)[OF f(2)] by (auto simp: book_ok_def orders_held_def)
  ultimately show ?thesis using f(2) by (simp add: book_ok_def)
qed

lemma entry_symbol_market: "futures_market_symbol c (entry_symbol c k)"
  by (auto simp: futures_market_symbol_def entry_symbol_def suffix_def)

lemma group_of_symbols:
  "liquidation_group_of c k e lots price m groups = Inr groups' \<Longrightarrow> list_all (\<lambda>g. futures_market_symbol c (lg_symbol g)) groups \<Longrightarrow>
   list_all (\<lambda>g. futures_market_symbol c (lg_symbol g)) groups'"
  using entry_symbol_market by (auto simp: liquidation_group_of_def Let_def split: if_splits)

lemma groups_symbols:
  assumes "futuresLiquidationGroups fv prices c = Inr (groups, priced)"
  shows "list_all (\<lambda>g. futures_market_symbol c (lg_symbol g)) groups"
proof -
  have step: "list_all (\<lambda>g. futures_market_symbol c (lg_symbol g)) (fst (snd s'))"
    if "group_step fv c x s = Inr s'" "list_all (\<lambda>g. futures_market_symbol c (lg_symbol g)) (fst (snd s))" for x s s'
    using that group_of_symbols by (cases x; cases s) (auto simp: group_step_def Let_def result_simps split: if_splits option.splits)
  have "efold (group_step fv c) xs s = Inr s' \<Longrightarrow> list_all (\<lambda>g. futures_market_symbol c (lg_symbol g)) (fst (snd s)) \<Longrightarrow>
      list_all (\<lambda>g. futures_market_symbol c (lg_symbol g)) (fst (snd s'))" for xs s s'
    by (induction xs arbitrary: s) (auto simp: result_simps dest: step)
  from this[where s = "(prices, [], True)" and xs = "pa_entries (ps_futures c)"] show ?thesis
    using assms by (auto simp: futuresLiquidationGroups_def result_simps)
qed

lemma liquidations_book:
  assumes "settleFuturesLiquidationsUnlocked fv prices c = Inr (liq, c')" "book_ok c" shows "book_ok c' \<and> same_config c c'"
proof -
  obtain groups priced where g: "futuresLiquidationGroups fv prices c = Inr (groups, priced)"
    using assms(1) by (auto simp: settleFuturesLiquidationsUnlocked_def result_simps)
  have "c' = c \<or> (\<exists>gs. set gs \<subseteq> set groups \<and> efold (liquidateFuturesGroup (fv_now fv)) gs c = Inr c')"
    using assms(1) g by (auto simp: settleFuturesLiquidationsUnlocked_def Let_def result_simps split: if_splits intro!: exI[of _ "filter P groups" for P])
  then show ?thesis
  proof
    assume "\<exists>gs. set gs \<subseteq> set groups \<and> efold (liquidateFuturesGroup (fv_now fv)) gs c = Inr c'"
    then obtain gs where gs: "set gs \<subseteq> set groups" "efold (liquidateFuturesGroup (fv_now fv)) gs c = Inr c'" by blast
    show ?thesis
    proof (rule efold_book[OF gs(2), where g = "\<lambda>c. c" and ?c0.0 = c])
      fix x s s' assume "x \<in> set gs" "liquidateFuturesGroup (fv_now fv) x s = Inr s'" "book_ok s" "same_config c s"
      moreover have "futures_market_symbol s (lg_symbol x)"
        using groups_symbols[OF g] gs(1) \<open>x \<in> set gs\<close> \<open>same_config c s\<close> by (auto simp: list_all_iff futures_market_symbol_def same_config_def)
      ultimately show "book_ok s' \<and> same_config s s'" using liquidate_book by blast
    qed (use assms(2) in simp_all)
  qed (use assms(2) in simp)
qed

lemma settle_futures_book:
  assumes "settle_futures fv prices c = (stored, r)" "book_ok c"
  shows "book_ok stored \<and> same_config c stored \<and> (\<forall>c'. r = Inr c' \<longrightarrow> book_ok c' \<and> same_config c c')"
proof (cases "settleFuturesLiquidationsUnlocked fv prices c")
  case (Inr p1)
  obtain liq c1 where p1: "p1 = (liq, c1)" by force
  have b1: "book_ok c1 \<and> same_config c c1" using liquidations_book Inr p1 assms(2) by simp
  show ?thesis
  proof (cases "cancelOrphanedFuturesReduceOrders c1")
    case o: (Inr p2)
    obtain dirty c2 where p2: "p2 = (dirty, c2)" by force
    have b2: "book_ok c2 \<and> same_config c c2"
      using b1 o p2 orders_pass_book[OF cancelOrphaned_pass] same_config_trans by (metis book_ok_def)
    show ?thesis
    proof (cases "refreshFuturesOpeningReserves c2")
      case r: (Inr c3)
      have b3: "book_ok c3 \<and> same_config c c3"
        using b2 r orders_pass_book[OF refreshReserves_pass] same_config_trans by (metis book_ok_def)
      have "book_ok c4 \<and> same_config c c4" if "settleFuturesOpenOrders fv c3 = Inr (d, c4)" for d c4
        using settleFuturesOpenOrders_book[OF that] b3 same_config_trans by blast
      then show ?thesis using assms b1 b2 Inr p1 o p2 r by (auto simp: settle_futures_def Let_def split: sum.splits prod.splits if_splits)
    qed (use assms b1 b2 Inr p1 o p2 in \<open>auto simp: settle_futures_def Let_def\<close>)
  qed (use assms b1 Inr p1 in \<open>auto simp: settle_futures_def\<close>)
qed (use assms in \<open>auto simp: settle_futures_def\<close>)

lemma settle_then_book:
  assumes "futures_settle_then fv prices act c = (r, c')" "book_ok c" "\<And>c1 x c2. act c1 = Inr (x, c2) \<Longrightarrow> book_ok c1 \<Longrightarrow> same_config c c1 \<Longrightarrow> book_ok c2 \<and> same_config c1 c2"
  shows "book_ok c' \<and> same_config c c'"
proof -
  obtain stored m where s: "settle_futures fv prices c = (stored, m)" by force
  note b = settle_futures_book[OF s assms(2)]
  show ?thesis
  proof (cases m)
    case (Inr c1)
    then have b1: "book_ok c1" "same_config c c1" using b by auto
    show ?thesis using assms(1) s Inr b assms(3)[OF _ b1] same_config_trans[OF b1(2)]
      by (auto simp: futures_settle_then_def split: sum.splits)
  qed (use assms(1) s b in \<open>auto simp: futures_settle_then_def\<close>)
qed

section \<open>Operations keep the book\<close>

lemma append_order_book:
  assumes "same_book c c1" "book_ok c" "order_held c x" "c2 = c1\<lparr>ps_nextOrderId := n, ps_futures := (ps_futures c1)\<lparr>pa_orders := pa_orders (ps_futures c1) @ [x]\<rparr>\<rparr>"
  shows "book_ok c2 \<and> same_config c c2"
proof -
  have s: "same_config c c2" using assms(1,4) by (simp add: same_defs)
  have "orders_held c2" unfolding orders_held_def same_config_held(1)[OF s] using assms by (auto simp: book_ok_def orders_held_def same_defs)
  moreover have "positions_held c2" unfolding positions_held_def same_config_held(2)[OF s] using assms by (auto simp: book_ok_def positions_held_def same_defs)
  ultimately show ?thesis using s by (simp add: book_ok_def)
qed

lemma configured_held:
  assumes "configureRestingOrder ord input lst = Inr ord'" "order_held c ord" shows "order_held c ord'"
  using assms by (auto simp: configureRestingOrder_def order_held_def reserved_of_def Let_def split: if_splits option.splits)

lemma working_order_held:
  assumes "prepareFuturesFill input excluded c = Inr p" "book_ok c" "in_closePosition input = Some True \<or> dbl (in_amount input)"
  shows "order_held c (working_order now c input p obs)"
proof -
  have "futures_market_symbol c (in_symbol input)" by (rule exec_prepare[OF assms(1)]) (rule asset_symbol)
  moreover have "fp_current p = entry_of (ps_futures c) (fp_entryKey p)" by (rule exec_prepare[OF assms(1)])
  then have "dbl (fe_amount (fp_current p))" using assms(2) entry_of_held[of c "fp_entryKey p"] by (simp add: book_ok_def position_held_def)
  note requested_pos[OF assms(1,3) this]
  ultimately show ?thesis by (simp add: working_order_def new_order_def order_held_def reserved_of_def given_or_def)
qed

lemma placeFuturesOrder_book:
  assumes "placeFuturesOrder fv input lst c = Inr (ord, fee, c')" "book_ok c" "dbl (in_amount input)" shows "book_ok c' \<and> same_config c c'"
proof (cases "in_type input = Market")
  case True
  then obtain fee' where "executeFuturesFill (fv_now fv) input (the lst) None c = Inr (ord, fee', c')"
    using assms(1) by (auto simp: placeFuturesOrder_def result_simps split: if_splits)
  from executeFuturesFill_book[OF this assms(2)] show ?thesis by simp
next
  case False
  then obtain p obs ord0 ord1 c1 where f: "prepareFuturesFill input None c = Inr p"
    "configureRestingOrder (working_order (fv_now fv) c input p obs) input lst = Inr ord0" "reserveFuturesOrder ord0 c = Inr (ord1, c1)"
    "c' = c1\<lparr>ps_nextOrderId := Suc (ps_nextOrderId c1), ps_futures := (ps_futures c1)\<lparr>pa_orders := pa_orders (ps_futures c1) @ [ord1\<lparr>po_lastCheckedAt := Some (po_timestamp ord1)\<rparr>]\<rparr>\<rparr>"
    using assms(1) by (auto simp: placeFuturesOrder_def result_simps Let_def split: if_splits)
  have h: "order_held c ord0" using configured_held[OF f(2) working_order_held[OF f(1) assms(2)]] assms(3) by simp
  have st: "po_status ord0 = PO_open"
    using f(2) by (auto simp: configureRestingOrder_def working_order_def new_order_def Let_def split: if_splits option.splits)
  from reserve_order[OF f(3)] obtain m where m: "ord1 = ord0\<lparr>po_reservedMargin := Some m\<rparr>" "same_book c c1" by blast
  have "order_held c (ord1\<lparr>po_lastCheckedAt := Some (po_timestamp ord1)\<rparr>)" using h st by (simp add: m(1) order_held_def)
  from append_order_book[OF m(2) assms(2) this f(4)] show ?thesis .
qed

lemma drop_working_book:
  assumes "drop_working ord c = Inr c'" "book_ok c" "order_held c ord" shows "book_ok c' \<and> same_config c c'"
proof -
  obtain ord1 c0 where r: "release_working ord c = Inr (ord1, c0)" using assms(1) by (auto simp: drop_working_def result_simps)
  have r1: "ord1 = ord\<lparr>po_reservedMargin := Some (Fin 0)\<rparr>" "same_book c c0" using release_order[OF r] assms(3) by (auto simp: order_held_def)
  have "cancel_group ord1 a = a" for a using assms(3) by (intro no_siblings) (simp add: r1(1) order_held_def)
  then have "c' = put_futures_order (ord1\<lparr>po_status := PO_canceled\<rparr>) c0" using assms(1) r by (simp add: drop_working_def Let_def)
  then show ?thesis using orders_pass_book[OF same_put_pass[OF r1(2) held_released_cancelled[OF assms(3)]] assms(2)] r1(1) by simp
qed

lemma replacements_book:
  assumes "efold futures_replacement_step orders (groups, c) = Inr (groups', c')" "book_ok c" "\<forall>x \<in> set orders. order_held c x"
  shows "book_ok c' \<and> same_config c c'"
proof -
  have "book_ok (snd (groups', c')) \<and> same_config (snd (groups, c)) (snd (groups', c'))"
  proof (rule efold_book[OF assms(1), where ?c0.0 = c])
    fix x s s' assume a: "x \<in> set orders" "futures_replacement_step x s = Inr s'" "book_ok (snd s)" "same_config c (snd s)"
    have "order_held (snd s) x" using a(1) assms(3) same_config_held(1)[OF a(4)] by simp
    with a(2,3) show "book_ok (snd s') \<and> same_config (snd s) (snd s')"
      by (cases s) (auto simp: futures_replacement_step_def Let_def result_simps dest: drop_working_book split: if_splits)
  qed (use assms(2) in simp_all)
  then show ?thesis by simp
qed

lemmas found_in = find_member[THEN conjunct1]

lemma replacement_book:
  assumes "cancelFuturesForReplacement input ids c = Inr c'" "book_ok c" shows "book_ok c' \<and> same_config c c'"
proof -
  obtain orders groups where o: "emap (replaced_order input (ps_futures c)) ids = Inr orders" "efold futures_replacement_step orders ([], c) = Inr (groups, c')"
    using assms(1) by (auto simp: cancelFuturesForReplacement_def result_simps)
  have "\<forall>x \<in> set orders. x \<in> set (pa_orders (ps_futures c))"
    using emap_set[OF o(1)] by (fastforce simp: replaced_order_def dest: found_in split: option.splits if_splits)
  then show ?thesis using replacements_book[OF o(2) assms(2)] assms(2) by (auto simp: book_ok_def orders_held_def)
qed

lemma normalized_double: "normalizeFuturesInput fv c input lst = Inr input' \<Longrightarrow> dbl (in_amount input')"
  by (auto simp: normalizeFuturesInput_def baseAmountToContracts_def Let_def result_simps dbl_mul split: if_splits)

lemma submit_book:
  assumes "submitFuturesOrder fv input ids c = (r, c')" "book_ok c" shows "book_ok c' \<and> same_config c c'"
proof (cases "futures_market_symbol c (in_symbol input)")
  case True
  show ?thesis
  proof (cases "fv_orderTicker fv (in_symbol input)")
    case (Some t)
    note u = assms(1)[unfolded submitFuturesOrder_def Some option.case]
    show ?thesis
    proof (rule settle_then_book[OF _ assms(2)])
      fix c1 x c2
      assume a: "ebind (case ids of None \<Rightarrow> Inr c1 | Some ids \<Rightarrow> cancelFuturesForReplacement input ids c1) (\<lambda>c1.
          ebind (normalizeFuturesInput fv c1 input (ft_last t)) (\<lambda>input1.
          ebind (placeFuturesOrder fv input1 (ft_last t) c1) (\<lambda>(ord, fee, c2). Inr ((toOrder ord, fee), c2)))) = Inr (x, c2)" and b: "book_ok c1"
      obtain c3 where c3: "(case ids of None \<Rightarrow> Inr c1 | Some ids \<Rightarrow> cancelFuturesForReplacement input ids c1) = Inr c3"
        and rest: "ebind (normalizeFuturesInput fv c3 input (ft_last t)) (\<lambda>input1.
          ebind (placeFuturesOrder fv input1 (ft_last t) c3) (\<lambda>(ord, fee, c2). Inr ((toOrder ord, fee), c2))) = Inr (x, c2)"
        using a by (auto simp: result_simps)
      have b3: "book_ok c3 \<and> same_config c1 c3" using c3 b replacement_book by (auto split: option.splits)
      obtain input1 ord fee where n: "normalizeFuturesInput fv c3 input (ft_last t) = Inr input1"
        and "placeFuturesOrder fv input1 (ft_last t) c3 = Inr (ord, fee, c2)" using rest by (auto simp: result_simps)
      from placeFuturesOrder_book[OF this(2) _ normalized_double[OF n]] b3 show "book_ok c2 \<and> same_config c1 c2" using same_config_trans by blast
    qed (use u True in simp)
  qed (use assms True in \<open>simp add: submitFuturesOrder_def\<close>)
next
  case False
  show ?thesis by (rule settle_then_book[OF _ assms(2)]) (use assms(1) False in \<open>auto simp: submitFuturesOrder_def\<close>)
qed

lemma cancel_book:
  assumes "cancelFuturesOrder fv i symbol c = (r, c')" "book_ok c" shows "book_ok c' \<and> same_config c c'"
proof (cases "futures_account_for c symbol")
  case (Inr a)
  show ?thesis
  proof (rule settle_then_book[OF _ assms(2)])
    show "futures_settle_then fv Map.empty (\<lambda>c. case find (\<lambda>x. po_id x = i \<and> po_symbol x = symbol \<and> po_status x = PO_open) (pa_orders (ps_futures c)) of
        None \<Rightarrow> Inl (Paper_failed Order_not_found) | Some ord \<Rightarrow> ebind (drop_working ord c) (\<lambda>c1. Inr ((), c1))) c = (r, c')"
      using assms(1) Inr by (simp add: cancelFuturesOrder_def)
  next
    fix c1 x c2 assume "(case find (\<lambda>x. po_id x = i \<and> po_symbol x = symbol \<and> po_status x = PO_open) (pa_orders (ps_futures c1)) of
        None \<Rightarrow> Inl (Paper_failed Order_not_found) | Some ord \<Rightarrow> ebind (drop_working ord c1) (\<lambda>c1. Inr ((), c1))) = Inr (x, c2)" and b: "book_ok c1"
    then obtain ord where o: "ord \<in> set (pa_orders (ps_futures c1))" "drop_working ord c1 = Inr c2"
      by (auto simp: result_simps dest: found_in split: option.splits)
    then show "book_ok c2 \<and> same_config c1 c2" using drop_working_book[OF o(2) b] b by (auto simp: book_ok_def orders_held_def)
  qed
qed (use assms in \<open>simp add: cancelFuturesOrder_def\<close>)

lemma get_book:
  assumes "getFuturesOrder fv i symbol c = (r, c')" "book_ok c" shows "book_ok c' \<and> same_config c c'"
proof (cases "futures_account_for c symbol")
  case (Inr a)
  obtain stored m where s: "settle_futures fv Map.empty c = (stored, m)" by force
  have "c' = stored" using assms(1) Inr s by (auto simp: getFuturesOrder_def futures_settle_and_read_def split: sum.splits)
  then show ?thesis using settle_futures_book[OF s assms(2)] by simp
qed (use assms in \<open>simp add: getFuturesOrder_def\<close>)

lemma settings_book [simp]:
  "same_book c (c\<lparr>ps_futures := (ps_futures c)\<lparr>pa_leverageBySymbol := l\<rparr>\<rparr>)" "same_book c (c\<lparr>ps_futures := (ps_futures c)\<lparr>pa_marginTypeBySymbol := m\<rparr>\<rparr>)"
  by (simp_all add: same_defs)

lemma same_book_ok: "same_book c c' \<Longrightarrow> book_ok c \<Longrightarrow> book_ok c' \<and> same_config c c'"
  using same_book_held[of c c'] by (auto simp: book_ok_def same_book_def same_positions_def)

lemma releverage_pass:
  assumes "releverage_step symbol i c = Inr c'" "orders_held c" shows "orders_pass c c'"
proof (cases "order_at (ps_futures c) i")
  case (Some ord)
  note h = order_at_held[OF assms(2) Some]
  show ?thesis using assms(1) Some h
    by (auto simp: releverage_step_def result_simps split: if_splits dest!: reserve_order intro!: same_put_pass order_held_margin(2))
qed (use assms in \<open>simp add: releverage_step_def\<close>)

lemma leverage_book:
  assumes "setFuturesLeverage fv symbol l c = (r, c')" "book_ok c" shows "book_ok c' \<and> same_config c c'"
proof -
  let ?c = "c\<lparr>ps_futures := (ps_futures c)\<lparr>pa_leverageBySymbol := Some (obj_set (given_or (pa_leverageBySymbol (ps_futures c)) []) symbol l)\<rparr>\<rparr>"
  have b: "book_ok ?c \<and> same_config c ?c" using same_book_ok[OF settings_book(1) assms(2)] .
  have "book_ok c2 \<and> same_config c c2" if "efold (releverage_step symbol) ids ?c = Inr c2" for ids c2
  proof -
    have "orders_pass ?c c2"
      by (rule efold_pass[where g = "\<lambda>c. c", OF that]) (use b releverage_pass in \<open>auto simp: book_ok_def\<close>)
    then show ?thesis using orders_pass_book b same_config_trans by blast
  qed
  then show ?thesis using assms by (auto simp: setFuturesLeverage_def Let_def split: if_splits sum.splits)
qed

lemma margin_book:
  assumes "setFuturesMarginMode fv symbol m c = (r, c')" "book_ok c" shows "book_ok c' \<and> same_config c c'"
  using assms same_book_ok[OF settings_book(2) assms(2)] by (auto simp: setFuturesMarginMode_def Let_def split: if_splits)

lemma empty_book: "pa_entries (ps_futures c) = [] \<Longrightarrow> pa_orders (ps_futures c) = [] \<Longrightarrow> book_ok c"
  by (simp add: book_ok_def orders_held_def positions_held_def)

lemma reset_book:
  assumes "resetFuturesAccount now startQuote c = (r, c')" "book_ok c" shows "book_ok c' \<and> same_config c c'"
  using assms by (auto simp: resetFuturesAccount_def same_config_def freshFuturesAccount_def freshSpotAccount_def intro!: empty_book split: if_splits)

section \<open>Runs\<close>

lemma upgraded_held: "position_held c k e \<Longrightarrow> position_held c k (upgrade_entry c' e)"
  using snapshot_amounts[of c k e c'] by (auto simp: upgrade_entry_def position_held_def given_all_def)

lemma apply_loaded_book:
  assumes "applyLoadedFuturesState mode l m c = Inr c'" "book_ok c" shows "book_ok c' \<and> same_config c c'"
proof -
  define c0 where "c0 = c\<lparr>ps_leverage := given_or (pa_leverage (ps_futures c)) l, ps_marginType := given_or (pa_marginType (ps_futures c)) m\<rparr>"
  have f: "same_config c c'" "pa_orders (ps_futures c') = pa_orders (ps_futures c)"
    "pa_entries (ps_futures c') = map (\<lambda>(k, e). (k, upgrade_entry c0 e)) (pa_entries (ps_futures c))"
    using assms(1) unfolding c0_def by (auto simp: applyLoadedFuturesState_def Let_def same_config_def split: if_splits)
  have "orders_held c'" using assms(2) unfolding orders_held_def f(2) same_config_held(1)[OF f(1)] by (simp add: book_ok_def orders_held_def)
  moreover have "positions_held c'"
    using assms(2) upgraded_held unfolding positions_held_def f(3) same_config_held(2)[OF f(1)] by (fastforce simp: book_ok_def positions_held_def)
  ultimately show ?thesis using f(1) by (simp add: book_ok_def)
qed

lemma renumber_book: "book_ok (renumber c) = book_ok c" "same_config c' (renumber c) = same_config c' c"
  using same_book_held[of c "renumber c"] by (auto simp: renumber_def same_defs book_ok_def)

lemma reload_without_futures_book:
  assumes "reload_without_futures now a c = (None, c')" "book_ok c" shows "book_ok c' \<and> same_config c c'"
proof (cases "ps_marketType c = Spot")
  case True
  then show ?thesis using assms same_book_ok[OF spot_book(1)[of c a] assms(2)] by (auto simp: reload_without_futures_def renumber_book)
next
  case False
  define c0 where "c0 = c\<lparr>ps_futures := freshFuturesAccount now (ps_quote c) (ps_startQuote c) (ps_leverage c) (ps_marginType c) (ps_positionMode c)\<rparr>"
  have b0: "book_ok c0" "same_config c c0" by (auto simp: c0_def same_config_def freshFuturesAccount_def freshSpotAccount_def intro: empty_book)
  obtain c1 where c1: "applyLoadedFuturesState (ps_positionMode c0) (ps_leverage c0) (ps_marginType c0) c0 = Inr c1" "c' = renumber (c1\<lparr>ps_account := a\<rparr>)"
    using assms(1) False by (auto simp: reload_without_futures_def Let_def c0_def split: sum.splits)
  have b1: "book_ok c1" "same_config c0 c1" using apply_loaded_book[OF c1(1) b0(1)] by auto
  have b2: "book_ok (c1\<lparr>ps_account := a\<rparr>)" "same_config c1 (c1\<lparr>ps_account := a\<rparr>)" using same_book_ok[OF spot_book(1) b1(1)] by auto
  show ?thesis unfolding c1(2) renumber_book using b2 same_config_trans[OF same_config_trans[OF b0(2) b1(2)]] by blast
qed

lemma loads_book:
  assumes "futures_loads now c c1" "book_ok c" shows "book_ok c1 \<and> same_config c c1"
proof -
  obtain a where a: "parsePaperAccount (account_json (ps_account c)) = Inr a"
    using assms(1) by (auto simp: futures_loads_def load_files_def split: sum.splits)
  have f: "parsePaperAccount (account_json (ps_futures c)) = Inr (ps_futures c)" using assms(1) by (simp add: futures_loads_def)
  define d where "d = c\<lparr>ps_account := a\<rparr>"
  have dd: "c\<lparr>ps_account := a, ps_futures := ps_futures c\<rparr> = d" by (simp add: d_def)
  have d: "book_ok d" "same_config c d" using same_book_ok[OF spot_book(1)[of c a] assms(2)] by (auto simp: d_def)
  have u: "(if pa_quote a \<noteq> ps_quote c
       then (None, renumber (c\<lparr>ps_account := freshSpotAccount now (ps_quote c) (given_or (obj_get (pa_balances (ps_account c)) (ps_quote c)) (Fin 0))\<rparr>))
       else if pa_quote (ps_futures c) \<noteq> ps_quote c then reload_without_futures now a c
       else case applyLoadedFuturesState (ps_positionMode d) (ps_leverage d) (ps_marginType d) d of Inl e \<Rightarrow> (Some e, d) | Inr c \<Rightarrow> (None, renumber c)) = (None, c1)"
    using assms(1) unfolding futures_loads_def load_files_def paper_files.simps option.case a f sum.case Let_def dd by (elim conjE)
  consider "pa_quote a \<noteq> ps_quote c" | "pa_quote a = ps_quote c" "pa_quote (ps_futures c) \<noteq> ps_quote c" | "pa_quote a = ps_quote c" "pa_quote (ps_futures c) = ps_quote c"
    by blast
  then show ?thesis
  proof cases
    case 1
    with u have "c1 = renumber (c\<lparr>ps_account := freshSpotAccount now (ps_quote c) (given_or (obj_get (pa_balances (ps_account c)) (ps_quote c)) (Fin 0))\<rparr>)"
      by (simp only: if_True prod.inject simp_thms)
    then show ?thesis using same_book_ok[OF spot_book(1) assms(2)] by (simp only: renumber_book)
  next
    case 2
    with u have "reload_without_futures now a c = (None, c1)" by (simp only: if_True if_False simp_thms)
    then show ?thesis by (rule reload_without_futures_book[OF _ assms(2)])
  next
    case 3
    with u have "(case applyLoadedFuturesState (ps_positionMode d) (ps_leverage d) (ps_marginType d) d of Inl e \<Rightarrow> (Some e, d) | Inr c \<Rightarrow> (None, renumber c)) = (None, c1)"
      by (simp only: if_False simp_thms)
    then obtain c2 where c2: "applyLoadedFuturesState (ps_positionMode d) (ps_leverage d) (ps_marginType d) d = Inr c2" "renumber c2 = c1"
      by (auto split: sum.splits)
    show ?thesis unfolding c2(2)[symmetric] renumber_book using apply_loaded_book[OF c2(1) d(1)] same_config_trans[OF d(2)] by blast
  qed
qed

lemma futures_step_book:
  assumes "futures_step c c'" "book_ok c" shows "book_ok c' \<and> same_config c c'"
proof -
  have op: "book_ok c' \<and> same_config c c'" if "futures_loads now c c1" "book_ok c1 \<Longrightarrow> book_ok c' \<and> same_config c1 c'" for now c1
    using loads_book[OF that(1) assms(2)] that(2) same_config_trans by blast
  from assms(1) show ?thesis
    by cases (erule op, erule (1) submit_book cancel_book get_book leverage_book margin_book reset_book)+
qed

lemma futures_run_book: "futures_run c c' \<Longrightarrow> book_ok c \<Longrightarrow> book_ok c' \<and> same_config c c'"
  by (induction rule: futures_run.induct) (auto dest: futures_step_book intro: same_config_trans)

definition no_files :: paper_files where
  "no_files = \<lparr>pf_account = None, pf_futures = None, pf_transaction = None\<rparr>"

lemma constructed_book:
  assumes "paper_constructor known now opts no_files = (Inr c, ws)" shows "book_ok c \<and> ps_positionMode c = op_positionMode opts"
proof -
  obtain c0 c1 where c: "c = renumber c1" "applyLoadedFuturesState (op_positionMode opts) (op_leverage opts) (op_marginType opts) c0 = Inr c1"
    "ps_positionMode c0 = op_positionMode opts"
    "ps_futures c0 = freshFuturesAccount now (op_quote opts) (op_startQuote opts) (op_leverage opts) (op_marginType opts) (op_positionMode opts)"
    using assms by (auto simp: paper_constructor_def no_files_def recoverTransactionUnlocked_def open_ledgers_def read_ledger_def adopted_def result_simps
        split: sum.splits prod.splits)
  have "book_ok c0" by (rule empty_book) (simp_all add: c(4) freshFuturesAccount_def freshSpotAccount_def)
  from apply_loaded_book[OF c(2) this] c(3) show ?thesis unfolding c(1) renumber_book by (simp add: same_config_def renumber_def)
qed

text \<open>C37. In hedge mode no sequence of operations on the simulated futures account ever turns a position around:
  whatever is placed, filled, cancelled or liquidated, the amount of a long position is never negative and that of a short position
  never positive, in rounded arithmetic.\<close>

theorem hedge_positions_keep_their_side:
  assumes "paper_constructor known now opts no_files = (Inr c0, ws)" "op_positionMode opts = Hedge" "futures_run c0 c" "(k, e) \<in> set (pa_entries (ps_futures c))"
  shows "(suffix '':LONG'' k \<longrightarrow> \<not> js_lt (fe_amount e) (Fin 0)) \<and> (suffix '':SHORT'' k \<longrightarrow> \<not> js_gt (fe_amount e) (Fin 0))"
proof -
  have "book_ok c" "ps_positionMode c = Hedge"
    using futures_run_book[OF assms(3)] constructed_book[OF assms(1)] assms(2) by (auto simp: same_config_def)
  then show ?thesis using assms(4) by (auto simp: book_ok_def positions_held_def position_held_def not_neg_def js_lt_neg(2))
qed

text \<open>C40. Over every sequence of operations on the simulated futures account, an order that was filled, cancelled
  or recorded by a liquidation holds no margin, and an order that is still working has its whole amount, more than zero, left to
  fill: an order that filled is closed, and none is accepted with nothing to fill.\<close>

theorem only_working_orders_hold_margin:
  assumes "paper_constructor known now opts no_files = (Inr c0, ws)" "futures_run c0 c" "x \<in> set (pa_orders (ps_futures c))"
  shows "if po_status x = PO_open then po_filled x = Fin 0 \<and> js_gt (po_amount x) (Fin 0) else given_or (po_reservedMargin x) (Fin 0) = Fin 0"
proof -
  have "book_ok c" using futures_run_book[OF assms(2)] constructed_book[OF assms(1)] by simp
  then show ?thesis using assms(3) by (auto simp: book_ok_def orders_held_def order_held_def reserved_of_def)
qed

section \<open>Reducing orders\<close>

text \<open>The lots on the left come from the lots on the right, in order, by dropping some and shrinking others.\<close>

fun shrunk :: "futures_lot list \<Rightarrow> futures_lot list \<Rightarrow> bool" where
  "shrunk ms [] = (ms = [])"
| "shrunk ms (l # ls) \<longleftrightarrow> shrunk ms ls \<or> (ms \<noteq> [] \<and> hd ms = l\<lparr>lt_amount := lt_amount (hd ms)\<rparr> \<and> \<not> js_gt (lt_amount (hd ms)) (lt_amount l) \<and> shrunk (tl ms) ls)"

lemma close_lots_shrunk:
  "close_lots all price d lots toClose released pnl = (rest, released', pnl') \<Longrightarrow> list_all lot_held lots \<Longrightarrow> not_neg toClose \<Longrightarrow> shrunk rest lots"
proof (induction lots arbitrary: toClose released pnl rest)
  case (Cons l lots)
  obtain closed t r q rest1 where s: "close_lots all price d lots t r q = (rest1, released', pnl')"
    "rest = (if js_gt (lt_amount l) closed then l\<lparr>lt_amount := js_sub (lt_amount l) closed\<rparr> # rest1 else rest1)"
    "closed = (if all \<or> futuresAmountsEqual (lt_amount l) toClose then lt_amount l else js_min (lt_amount l) toClose)"
    "t = (if js_gt closed (Fin 0) then js_max (Fin 0) (js_sub toClose closed) else toClose)"
    by (rule close_lots_step[OF Cons.prems(1)])
  have l: "not_neg (lt_amount l)" "dbl (lt_amount l)" "list_all lot_held lots" using Cons.prems(2) by (simp_all add: lot_held_def[of l])
  have "not_neg closed" using l(1) Cons.prems(3) not_neg_min by (simp add: s(3))
  then have "\<not> js_gt (js_sub (lt_amount l) closed) (lt_amount l)" by (rule js_sub_at_most[OF _ l(2)])
  moreover have "not_neg t"
    using Cons.prems(3) by (simp add: s(4)) (auto simp: js_max_def not_neg_def dest: js_lt_asym)
  ultimately show ?case using Cons.IH[OF s(1) l(3)] by (auto simp: s(2))
qed simp

lemma js_lt_not_le: "js_le a b \<Longrightarrow> js_lt b a \<Longrightarrow> False"
  using js_le_not_gt by blast

text \<open>An order that only reduces takes its amount from the position and opens nothing.\<close>

lemma reducing_closes_all:
  assumes "js_le (fp_requested p) (fp_currentQty p)" "fp_reducing p" shows "closing_amount p = fp_requested p" "\<not> js_gt (js_sub (fp_requested p) (closing_amount p)) (Fin 0)"
proof -
  show c: "closing_amount p = fp_requested p" using assms by (auto simp: closing_amount_def js_min_def dest: js_lt_not_le js_le_not_NaN) (auto simp: js_le_def dest: js_eq_imp split: if_splits)
  show "\<not> js_gt (js_sub (fp_requested p) (closing_amount p)) (Fin 0)" unfolding c by (cases "fp_requested p") (auto simp: js_sub_def)
qed

lemma reducing_direction:
  assumes "fp_reducing p" "js_le (fp_requested p) (fp_currentQty p)" "fp_currentQty p = js_abs (fe_amount (fp_current p))"
    "fp_reducing p = (js_gt (fp_currentQty p) (Fin 0) \<and> side_reduces (in_side input) (fe_amount (fp_current p)))" "list_all lot_held lots"
  shows "js_gt (fe_amount (fp_current p)) (Fin 0) \<longrightarrow> not_neg (js_mul (math_sign (js_add (fe_amount (fp_current p)) (signed_amount input p))) (lots_amount lots))"
    "js_lt (fe_amount (fp_current p)) (Fin 0) \<longrightarrow> not_neg (js_neg (js_mul (math_sign (js_add (fe_amount (fp_current p)) (signed_amount input p))) (lots_amount lots)))"
proof -
  let ?a = "fe_amount (fp_current p)"
  have lt: "\<not> js_lt (fp_currentQty p) (fp_requested p)" using assms(2) js_le_not_gt by blast
  note s = lots_amount_not_neg[OF assms(5)]
  show "js_gt ?a (Fin 0) \<longrightarrow> not_neg (js_mul (math_sign (js_add ?a (signed_amount input p))) (lots_amount lots))"
  proof
    assume a: "js_gt ?a (Fin 0)"
    then have "in_side input = Sell" using assms(1,4) js_lt_asym by (auto simp: side_reduces_def split: if_splits) (metis side.exhaust)
    moreover have "fp_currentQty p = ?a" using a assms(3) by (cases ?a) auto
    ultimately have "not_neg (js_add ?a (signed_amount input p))" using not_neg_sub[OF lt] by (simp add: js_sub_def)
    then show "not_neg (js_mul (math_sign (js_add ?a (signed_amount input p))) (lots_amount lots))" using not_neg_signed s by blast
  qed
  show "js_lt ?a (Fin 0) \<longrightarrow> not_neg (js_neg (js_mul (math_sign (js_add ?a (signed_amount input p))) (lots_amount lots)))"
  proof
    assume a: "js_lt ?a (Fin 0)"
    then have "in_side input = Buy" using assms(1,4) js_lt_asym by (auto simp: side_reduces_def split: if_splits)
    moreover have "fp_currentQty p = js_neg ?a" using a assms(3) by (cases ?a) auto
    ultimately have "not_neg (js_neg (js_add ?a (signed_amount input p)))" using not_neg_sub[OF lt] by (simp add: js_sub_def js_neg_add)
    from not_neg_signed[OF this s] show "not_neg (js_neg (js_mul (math_sign (js_add ?a (signed_amount input p))) (lots_amount lots)))"
      by (simp add: math_sign_neg js_mul_neg)
  qed
qed

lemma store_lots_get: "obj_get (store_lots key d lots entries) k =
    (if k = key then if lots = [] then None else Some (entry_of_lots d lots) else obj_get entries k)"
  by (simp add: store_lots_def)

text \<open>C38. A fill of a reduce-only or close-position order touches one position only, opens no lot and never turns
  the position around: the lots that are left are lots of the position before, in their order, at the same price, leverage and margin
  mode and none of them larger.\<close>

theorem reducing_fill_never_increases:
  assumes "book_ok c" "executeFuturesFill now input price existing c = Inr (ord, fee, c')" "\<And>x. existing = Some x \<Longrightarrow> order_held c x"
    "in_reduceOnly input = Some True \<or> in_closePosition input = Some True"
  shows "\<exists>k. (\<forall>k'. k' \<noteq> k \<longrightarrow> obj_get (pa_entries (ps_futures c')) k' = obj_get (pa_entries (ps_futures c)) k') \<and>
    (case obj_get (pa_entries (ps_futures c')) k of
       None \<Rightarrow> True
     | Some e \<Rightarrow> \<exists>lots. fe_lots e = Some lots \<and> shrunk lots (snapshotFuturesLots c (entry_of (ps_futures c) k)) \<and>
         (js_gt (fe_amount (entry_of (ps_futures c) k)) (Fin 0) \<longrightarrow> \<not> js_lt (fe_amount e) (Fin 0)) \<and>
         (js_lt (fe_amount (entry_of (ps_futures c) k)) (Fin 0) \<longrightarrow> \<not> js_gt (fe_amount e) (Fin 0)))"
proof -
  from assms(2) obtain c1 c2 dirty where x: "fill_position now input price existing c = Inr (ord, fee, c1)"
    "cancelOrphanedFuturesReduceOrders c1 = Inr (dirty, c2)" "refreshFuturesOpeningReserves c2 = Inr c'"
    by (auto simp: executeFuturesFill_def result_simps)
  obtain p rest released pnl lots where f: "prepareFuturesFill input (map_option po_id existing) c = Inr p"
    "close_lots (js_eq (closing_amount p) (fp_currentQty p)) price (math_sign (fe_amount (fp_current p))) (fp_currentLots p) (closing_amount p) (Fin 0) (Fin 0) = (rest, released, pnl)"
    "lots = rest @ (if js_gt (js_sub (fp_requested p) (closing_amount p)) (Fin 0)
       then [\<lparr>lt_amount = js_sub (fp_requested p) (closing_amount p), lt_price = price, lt_leverage = fp_leverage p, lt_marginType = fp_marginType p\<rparr>] else [])"
    "pa_entries (ps_futures c1) = store_lots (fp_entryKey p) (math_sign (js_add (fe_amount (fp_current p)) (signed_amount input p))) lots (pa_entries (ps_futures c))"
    by (rule exec_fill_position[OF x(1)])
  obtain g: "fp_current p = entry_of (ps_futures c) (fp_entryKey p)" "fp_currentQty p = js_abs (fe_amount (fp_current p))"
      "fp_currentLots p = snapshotFuturesLots c (fp_current p)" "fp_reducing p"
      "fp_reducing p = (js_gt (fp_currentQty p) (Fin 0) \<and> side_reduces (in_side input) (fe_amount (fp_current p)))"
    by (rule exec_prepare[OF f(1)]) (use assms(4) in blast)
  have held: "position_held c (fp_entryKey p) (fp_current p)" using entry_of_held assms(1) by (auto simp: g(1) book_ok_def)
  have within: "js_le (fp_requested p) (fp_currentQty p)"
    by (rule requested_within[OF f(1) _ _ g(4)]) (use assms(1,4) held in \<open>auto simp: book_ok_def position_held_def\<close>)
  note all = reducing_closes_all[OF within g(4)]
  have rest: "lots = rest" using f(3) all(2) by simp
  have lots: "shrunk rest (snapshotFuturesLots c (fp_current p))"
    using close_lots_shrunk[OF f(2)] snapshot_amounts[OF held, of c] requested_ge0[OF f(1)] by (simp add: g(3) all(1) ge0_not_neg)
  note dir = reducing_direction[OF g(4) within g(2) g(5) close_lots_amounts[OF f(2)]]
  have "book_ok c1" using fill_position_book[OF x(1) assms(1,3)] by blast
  then have p1: "orders_pass c1 c2" "book_ok c2" using cancelOrphaned_pass[OF x(2)] orders_pass_book by (auto simp: book_ok_def)
  then have "pa_entries (ps_futures c') = pa_entries (ps_futures c1)"
    using refreshReserves_pass[OF x(3)] by (auto simp: book_ok_def orders_pass_def same_positions_def)
  then show ?thesis using lots dir
    by (intro exI[of _ "fp_entryKey p"]) (auto simp: f(4) store_lots_get rest entry_of_lots_def g(1)[symmetric] not_neg_def js_lt_neg(2) split: option.splits)
qed

section \<open>Isolated margin\<close>

lemma foldl_add_dbl: "dbl s \<Longrightarrow> dbl (foldl (\<lambda>s l. js_add s (f l)) s ls)"
  by (induction ls arbitrary: s) (auto simp: dbl_add)

lemma isolated_settlement:
  assumes "not_neg free" "is_finite margin" "dbl margin" "is_finite pnl"
  shows "not_neg (js_add (js_add free margin) (js_max pnl (js_neg margin)))"
proof -
  obtain m q where mq: "margin = Fin m" "pnl = Fin q" using assms by (auto simp: is_finite_iff)
  have r: "js_max pnl (js_neg margin) = Fin (max q (- m))" by (simp add: mq js_max_def max_def)
  show ?thesis
  proof (cases free)
    case (Fin x)
    have "js_le (fl m) (fl (x + m))" by (rule fl_mono) (use assms(1) Fin in simp)
    then have "js_le (Fin m) (js_add free margin)" using assms(3) by (simp add: Fin mq is_double_def)
    then consider a where "js_add free margin = Fin a" "m \<le> a" | "js_add free margin = PInf"
      by (cases "js_add free margin") (auto simp: js_le_def)
    then show ?thesis by cases (auto simp: r intro!: not_neg_fl)
  qed (use assms(1) in \<open>simp_all add: mq js_max_def\<close>)
qed

definition isolated_group :: "liquidation_group \<Rightarrow> bool" where
  "isolated_group g \<longleftrightarrow> lg_marginType g = Isolated \<and> is_finite (lg_margin g) \<and> dbl (lg_margin g) \<and> is_finite (lg_pnl g)"

lemma isolated_group_of:
  assumes "liquidation_group_of c k e lots price m groups = Inr groups'" "list_all (\<lambda>l. lt_marginType l = Isolated) lots" "list_all isolated_group groups"
  shows "list_all isolated_group groups'"
proof (cases "m = Isolated")
  case True
  have "dbl (lots_margin ls)" for ls unfolding lots_margin_def by (rule foldl_add_dbl) simp
  then show ?thesis using assms True by (auto simp: liquidation_group_of_def Let_def isolated_group_def split: if_splits)
next
  case False
  then have "filter (\<lambda>l. lt_marginType l = m) lots = []" using assms(2) by (auto simp: list_all_iff filter_empty_conv)
  then show ?thesis using assms by (simp add: liquidation_group_of_def)
qed

lemma isolated_groups:
  assumes "futuresLiquidationGroups fv prices c = Inr (groups, priced)"
    "\<forall>(k, e) \<in> set (pa_entries (ps_futures c)). list_all (\<lambda>l. lt_marginType l = Isolated) (snapshotFuturesLots c e)"
  shows "list_all isolated_group groups"
proof -
  have step: "list_all isolated_group (fst (snd s'))"
    if "group_step fv c x s = Inr s'" "list_all isolated_group (fst (snd s))" "x \<in> set (pa_entries (ps_futures c))" for x s s'
    using that assms(2) isolated_group_of by (cases x; cases s) (fastforce simp: group_step_def Let_def result_simps split: if_splits option.splits)
  have "efold (group_step fv c) xs s = Inr s' \<Longrightarrow> list_all isolated_group (fst (snd s)) \<Longrightarrow> set xs \<subseteq> set (pa_entries (ps_futures c)) \<Longrightarrow>
      list_all isolated_group (fst (snd s'))" for xs s s'
    by (induction xs arbitrary: s) (auto simp: result_simps dest: step)
  from this[where s = "(prices, [], True)" and xs = "pa_entries (ps_futures c)"] show ?thesis
    using assms(1) by (auto simp: futuresLiquidationGroups_def result_simps)
qed

lemma liquidate_isolated:
  assumes "liquidateFuturesGroup now g c = Inr c'" "isolated_group g" "not_neg (free_margin c)" shows "not_neg (free_margin c')"
proof -
  have "free_margin c' = js_add (js_add (free_margin c) (lg_margin g)) (js_max (lg_pnl g) (js_neg (lg_margin g)))"
    using assms(1,2) by (auto simp: liquidateFuturesGroup_def Let_def result_simps free_margin_def set_free_margin_def set_balance_def balance_of_def
        liquidation_loss_def isolated_group_def split: option.splits)
  then show ?thesis using isolated_settlement[OF assms(3)] assms(2) by (simp add: isolated_group_def)
qed

text \<open>C39. While every lot of the simulated futures account is isolated, liquidation never takes more than the
  collateral of the lots it closes: however far the price has moved, a free balance that is not negative is not negative afterwards.\<close>

theorem isolated_liquidation_leaves_no_debt:
  assumes "settleFuturesLiquidationsUnlocked fv prices c = Inr (liq, c')" "\<not> js_lt (free_margin c) (Fin 0)"
    "\<forall>(k, e) \<in> set (pa_entries (ps_futures c)). list_all (\<lambda>l. lt_marginType l = Isolated) (snapshotFuturesLots c e)"
  shows "\<not> js_lt (free_margin c') (Fin 0)"
proof -
  obtain groups priced where g: "futuresLiquidationGroups fv prices c = Inr (groups, priced)"
    using assms(1) by (auto simp: settleFuturesLiquidationsUnlocked_def result_simps)
  note iso = isolated_groups[OF g assms(3)]
  have run: "efold (liquidateFuturesGroup (fv_now fv)) gs s = Inr c' \<Longrightarrow> not_neg (free_margin s) \<Longrightarrow> list_all isolated_group gs \<Longrightarrow> not_neg (free_margin c')" for gs s
    by (induction gs arbitrary: s) (auto simp: result_simps dest: liquidate_isolated)
  have "list_all isolated_group (filter P groups)" for P using iso by (auto simp: list_all_iff)
  then have "not_neg (free_margin c')"
    using assms(1,2) g run[of "filter P groups" c for P]
    by (auto simp: settleFuturesLiquidationsUnlocked_def Let_def result_simps not_neg_def split: if_splits)
  then show ?thesis by (simp add: not_neg_def)
qed

section \<open>A session\<close>

text \<open>A hedge-mode account with ten times leverage opens a long of two at 100, sells one of it at 110, and is liquidated at 80 in another course of events.\<close>

definition demo_hedge_options :: client_options where
  "demo_hedge_options = \<lparr>op_id = ''binance'', op_quote = ''USDT'', op_startQuote = Fin 1000, op_feeRate = Fin 0, op_marketType = Usdm_futures, op_leverage = Fin 10,
     op_marginType = Isolated, op_positionMode = Hedge, op_maintenanceMarginRate = Fin (1 / 256)\<rparr>"

definition demo_hedge_client :: store_client where
  "demo_hedge_client = \<lparr>ps_quote = ''USDT'', ps_feeRate = Fin 0, ps_maintenanceMarginRate = Fin (1 / 256), ps_marketType = Usdm_futures, ps_startQuote = Fin 1000,
     ps_positionMode = Hedge, ps_account = freshSpotAccount (Fin 0) ''USDT'' (Fin 1000),
     ps_futures = freshFuturesAccount (Fin 0) ''USDT'' (Fin 1000) (Fin 10) Isolated Hedge, ps_nextOrderId = 1, ps_leverage = Fin 10, ps_marginType = Isolated\<rparr>"

definition demo_swap :: futures_market where
  "demo_swap = \<lparr>fm_quote = ''USDT'', fm_settle = Some ''USDT'', fm_swap = Some True, fm_contract = Some True, fm_active = Some True, fm_linear = Some True,
     fm_inverse = None, fm_contractSize = Some (Fin 1), fm_minAmount = None, fm_maxAmount = None, fm_minCost = None, fm_maxCost = None\<rparr>"

definition demo_futures_view :: "rat \<Rightarrow> rat \<Rightarrow> futures_view" where
  "demo_futures_view t p = \<lparr>fv_now = Fin t, fv_orderTicker = (\<lambda>_. Some \<lparr>ft_markPrice = Fin p, ft_indexPrice = NaN, ft_last = Some (Fin p)\<rparr>),
     fv_riskTicker = (\<lambda>_. Some \<lparr>ft_markPrice = Fin p, ft_indexPrice = NaN, ft_last = Some (Fin p)\<rparr>), fv_settleTicker = (\<lambda>_. Some (Some (Fin p))), fv_ohlcv = (\<lambda>_ _ _ _. None),
     fv_markets = (\<lambda>s. if s = ''BTC/USDT:USDT'' then Some demo_swap else None), fv_amountToPrecision = (\<lambda>_ x. x), fv_priceToPrecision = (\<lambda>_ x. x)\<rparr>"

definition demo_long_input :: place_order_input where
  "demo_long_input = \<lparr>in_symbol = ''BTC/USDT:USDT'', in_side = Buy, in_type = Market, in_amount = Fin 2, in_price = None, in_reduceOnly = None,
     in_positionSide = Some PS_long, in_stopPrice = None, in_trailingPercent = None, in_closePosition = None, in_clientOrderId = None\<rparr>"

definition demo_long_order :: paper_order where
  "demo_long_order = (market_fill (Fin 1000) ''1'' ''BTC/USDT:USDT'' Buy (Fin 2) (Fin 100) (Fin 200) demo_fee (Some ''paper-1''))\<lparr>po_positionSide := Some PS_long\<rparr>"

definition demo_lot :: "rat \<Rightarrow> futures_lot" where
  "demo_lot x = \<lparr>lt_amount = Fin x, lt_price = Fin 100, lt_leverage = Fin 10, lt_marginType = Isolated\<rparr>"

definition demo_long_position :: futures_entry where
  "demo_long_position = \<lparr>fe_amount = Fin 2, fe_cost = Fin 200, fe_leverage = Some (Fin 10), fe_marginType = Some Isolated, fe_lots = Some [demo_lot 2]\<rparr>"

definition demo_long_client :: store_client where
  "demo_long_client = demo_hedge_client\<lparr>ps_nextOrderId := 2, ps_futures := (ps_futures demo_hedge_client)\<lparr>pa_balances := [(''USDT'', Fin 980)],
     pa_entries := [(''BTC:LONG'', demo_long_position)], pa_orders := [demo_long_order],
     pa_trades := [\<lparr>pt_id = ''1'', pt_symbol = ''BTC/USDT:USDT'', pt_side = Buy, pt_price = Fin 100, pt_amount = Fin 2, pt_cost = Fin 200, pt_fee = Fin 0,
       pt_realizedPnl = Some (Fin 0), pt_positionSide = Some PS_long, pt_timestamp = Fin 1000\<rparr>]\<rparr>\<rparr>"

lemmas demo_hedge_defs = demo_hedge_options_def demo_hedge_client_def demo_swap_def demo_futures_view_def demo_long_input_def demo_long_order_def demo_lot_def
  demo_long_position_def demo_long_client_def demo_fee_def freshSpotAccount_def freshFuturesAccount_def market_fill_def

lemma demo_constructed: "\<exists>ws. paper_constructor (\<lambda>i. i = ''binance'') (Fin 0) demo_hedge_options no_files = (Inr demo_hedge_client, ws)"
  by (simp add: paper_constructor_def check_options_def quote_char_def is_upper_def leverage_ok_def no_files_def recoverTransactionUnlocked_def open_ledgers_def read_ledger_def
      adopted_def applyLoadedFuturesState_def has_futures_exposure_def given_or_def renumber_def maxPersistedOrderId_def record_ids_def demo_hedge_defs Let_def)

lemma demo_futures_base: "baseAsset ''BTC/USDT:USDT'' ''USDT:USDT'' = Inr ''BTC''"
  by (simp add: baseAsset_def base_part_def Let_def suffix_def)

lemma demo_futures_symbol: "suffix ''/USDT:USDT'' ''BTC/USDT:USDT''"
  by (simp add: suffix_def)

lemma demo_contract: "\<not> js_lt (js_max E_12 (js_mul (Fin 2) E_9)) (Fin 0)"
proof -
  have "not_neg E_12" "not_neg E_9" by (auto simp: E_12_def E_9_def intro: not_neg_fl)
  then have "not_neg (js_max E_12 (js_mul (Fin 2) E_9))" by (intro not_neg_max not_neg_mul) simp_all
  then show ?thesis by (simp add: not_neg_def)
qed

lemma demo_loads_hedge: "futures_loads (Fin 1000) demo_hedge_client demo_hedge_client"
proof -
  have ok: "account_ok (ps_account demo_hedge_client)" "account_ok (ps_futures demo_hedge_client)"
    by (simp_all add: account_ok_def demo_hedge_defs given_all_def leverage_ok_def)
  show ?thesis using account_reload[OF ok(1)] account_reload[OF ok(2)]
    by (simp add: futures_loads_def load_files_def applyLoadedFuturesState_def has_futures_exposure_def given_or_def renumber_def maxPersistedOrderId_def record_ids_def
        Let_def) (simp add: demo_hedge_defs given_or_def)
qed

lemma demo_empty_settle: "settle_futures (demo_futures_view t p) prices demo_hedge_client = (demo_hedge_client, Inr demo_hedge_client)"
  by (simp add: settle_futures_def settleFuturesLiquidationsUnlocked_def futuresLiquidationGroups_def futuresReservedMargin_def free_margin_def balance_of_def
      cancelOrphanedFuturesReduceOrders_def refreshFuturesOpeningReserves_def settleFuturesOpenOrders_def demo_hedge_defs Let_def)

lemma demo_normalized: "normalizeFuturesInput (demo_futures_view 1000 100) demo_hedge_client demo_long_input (Some (Fin 100)) = Inr demo_long_input"
  by (simp add: normalizeFuturesInput_def futures_market_ok_def baseAmountToContracts_def demo_contract isFinitePositive_def opt_below_def opt_above_def
      js_sub_def demo_hedge_defs Let_def)

definition demo_prepared_long :: prepared_fill where
  "demo_prepared_long = \<lparr>fp_positionSide = PS_long, fp_entryKey = ''BTC:LONG'',
     fp_current = \<lparr>fe_amount = Fin 0, fe_cost = Fin 0, fe_leverage = None, fe_marginType = None, fe_lots = None\<rparr>, fp_currentQty = Fin 0, fp_currentLots = [],
     fp_leverage = Fin 10, fp_marginType = Isolated, fp_requested = Fin 2, fp_reducing = False\<rparr>"

lemma demo_prepare_long: "prepareFuturesFill demo_long_input None demo_hedge_client = Inr demo_prepared_long"
  by (simp add: prepareFuturesFill_def resolveFuturesPositionSide_def futures_asset_def demo_futures_base futuresEntryKey_def entry_of_def futuresLockedAmount_def
      requested_amount_def snapshotFuturesLots_def futuresSettings_def given_or_def js_sub_def js_max_def demo_prepared_long_def demo_hedge_defs Let_def)

lemma demo_fill_long: "fill_position (Fin 1000) demo_long_input (Fin 100) None demo_hedge_client = Inr (demo_long_order, Fin 0, demo_long_client)"
  by (simp add: fill_position_def demo_prepare_long)
     (simp add: demo_prepared_long_def closing_amount_def demo_observation[unfolded demo_fee_def] math_sign_def free_margin_def set_free_margin_def
      balance_of_def set_balance_def obj_get_def obj_set_def store_lots_def entry_of_lots_def lots_amount_def lots_cost_def uniformFuturesLotSettings_def
      futures_market_order_def record_fill_def given_or_def demo_number js_sub_def demo_hedge_defs Let_def)

lemma demo_quiet: "cancelOrphanedFuturesReduceOrders demo_long_client = Inr (False, demo_long_client)" "refreshFuturesOpeningReserves demo_long_client = Inr demo_long_client"
  by (simp_all add: cancelOrphanedFuturesReduceOrders_def orphan_step_def refreshFuturesOpeningReserves_def refresh_step_def order_at_def demo_hedge_defs)

lemma demo_opened: "submitFuturesOrder (demo_futures_view 1000 100) demo_long_input None demo_hedge_client = (Inr (toOrder demo_long_order, Some (Fin 0)), demo_long_client)"
proof -
  have t: "fv_orderTicker (demo_futures_view 1000 100) s = Some \<lparr>ft_markPrice = Fin 100, ft_indexPrice = NaN, ft_last = Some (Fin 100)\<rparr>" "fv_now (demo_futures_view 1000 100) = Fin 1000" for s
    by (simp_all add: demo_futures_view_def)
  have i: "in_symbol demo_long_input = ''BTC/USDT:USDT''" "in_type demo_long_input = Market" "in_closePosition demo_long_input = None" by (simp_all add: demo_long_input_def)
  have q: "ps_quote demo_hedge_client = ''USDT''" by (simp add: demo_hedge_client_def)
  show ?thesis
    by (simp add: submitFuturesOrder_def futures_settle_then_def demo_empty_settle futures_market_symbol_def demo_futures_symbol t i q demo_normalized placeFuturesOrder_def
        isFinitePositive_def executeFuturesFill_def demo_fill_long demo_quiet)
qed

lemma demo_long_run: "futures_run demo_hedge_client demo_long_client"
  by (rule futures_run.step[OF futures_run.refl futures_step.submit[OF demo_loads_hedge demo_opened]])

theorem hedge_positions_keep_their_side_witness:
  "(''BTC:LONG'', demo_long_position) \<in> set (pa_entries (ps_futures demo_long_client)) \<and> suffix '':LONG'' ''BTC:LONG'' \<and> \<not> js_lt (fe_amount demo_long_position) (Fin 0)"
proof -
  obtain ws where c: "paper_constructor (\<lambda>i. i = ''binance'') (Fin 0) demo_hedge_options no_files = (Inr demo_hedge_client, ws)" using demo_constructed by blast
  have m: "(''BTC:LONG'', demo_long_position) \<in> set (pa_entries (ps_futures demo_long_client))" by (simp add: demo_long_client_def)
  have s: "suffix '':LONG'' ''BTC:LONG''" by (simp add: suffix_def)
  from hedge_positions_keep_their_side[OF c _ demo_long_run m] s m show ?thesis by (simp add: demo_hedge_options_def)
qed

theorem only_working_orders_hold_margin_witness:
  "demo_long_order \<in> set (pa_orders (ps_futures demo_long_client)) \<and> given_or (po_reservedMargin demo_long_order) (Fin 0) = Fin 0"
proof -
  obtain ws where c: "paper_constructor (\<lambda>i. i = ''binance'') (Fin 0) demo_hedge_options no_files = (Inr demo_hedge_client, ws)" using demo_constructed by blast
  have m: "demo_long_order \<in> set (pa_orders (ps_futures demo_long_client))" by (simp add: demo_long_client_def)
  from only_working_orders_hold_margin[OF c demo_long_run m] m show ?thesis by (simp add: demo_long_order_def market_fill_def)
qed

definition demo_reduce_input :: place_order_input where
  "demo_reduce_input = demo_long_input\<lparr>in_side := Sell, in_amount := Fin 1, in_reduceOnly := Some True\<rparr>"

definition demo_reduce :: prepared_fill where
  "demo_reduce = \<lparr>fp_positionSide = PS_long, fp_entryKey = ''BTC:LONG'', fp_current = demo_long_position, fp_currentQty = Fin 2, fp_currentLots = [demo_lot 2],
     fp_leverage = Fin 10, fp_marginType = Isolated, fp_requested = Fin 1, fp_reducing = True\<rparr>"

lemma demo_apart: "\<not> futuresAmountsEqual (Fin 1) (Fin 2)" "\<not> futuresAmountsEqual (Fin 2) (Fin 1)"
proof -
  have "fl (2 powi - 52 * 8) = Fin (2 powi - 52 * 8)" by (rule fl_exact[of _ 1 "-49"]) (auto simp: power_int_minus)
  moreover have "fl (2 powi - 52 * 8 * 2) = Fin (2 powi - 52 * 8 * 2)" by (rule fl_exact[of _ 1 "-48"]) (auto simp: power_int_minus)
  ultimately show "\<not> futuresAmountsEqual (Fin 1) (Fin 2)" "\<not> futuresAmountsEqual (Fin 2) (Fin 1)"
    by (simp_all add: futuresAmountsEqual_def EPSILON_def js_max_def js_sub_def js_abs_fl power_int_minus)
qed

lemma demo_prepare_reduce: "prepareFuturesFill demo_reduce_input None demo_long_client = Inr demo_reduce"
  by (simp add: prepareFuturesFill_def resolveFuturesPositionSide_def futures_asset_def demo_futures_base futuresEntryKey_def entry_of_def futuresLockedAmount_def
      locked_step_def requested_amount_def demo_apart exceeds_def side_reduces_def snapshotFuturesLots_def futuresSettings_def given_or_def js_sub_def js_max_def
      demo_reduce_input_def demo_reduce_def demo_hedge_defs Let_def)

lemma demo_reduced: "\<exists>ord c'. executeFuturesFill (Fin 2000) demo_reduce_input (Fin 110) None demo_long_client = Inr (ord, Fin 0, c') \<and>
    obj_get (pa_entries (ps_futures c')) ''BTC:LONG'' = Some (entry_of_lots (Fin 1) [demo_lot 1])"
proof -
  obtain ord c1 where f: "fill_position (Fin 2000) demo_reduce_input (Fin 110) None demo_long_client = Inr (ord, Fin 0, c1)"
    "pa_entries (ps_futures c1) = [(''BTC:LONG'', entry_of_lots (Fin 1) [demo_lot 1])]" "pa_orders (ps_futures c1) = [demo_long_order, ord]" "po_status ord = PO_closed" "po_id ord = ''2''"
    by (simp add: fill_position_def demo_prepare_reduce)
       (simp add: demo_reduce_def demo_reduce_input_def closing_amount_def demo_apart js_min_def js_max_def demo_observation[unfolded demo_fee_def] math_sign_def free_margin_def
        set_free_margin_def balance_of_def set_balance_def obj_get_def obj_set_def store_lots_def futures_market_order_def given_or_def demo_number js_sub_def demo_hedge_defs Let_def)
  have q: "cancelOrphanedFuturesReduceOrders c1 = Inr (False, c1)" "refreshFuturesOpeningReserves c1 = Inr c1"
    using f(3-5) by (simp_all add: cancelOrphanedFuturesReduceOrders_def orphan_step_def refreshFuturesOpeningReserves_def refresh_step_def order_at_def
        demo_long_order_def market_fill_def)
  show ?thesis using f(1,2) by (simp add: executeFuturesFill_def q obj_get_def)
qed

lemma demo_long_ok: "book_ok demo_long_client"
  using futures_run_book[OF demo_long_run] demo_constructed constructed_book by blast

theorem reducing_fill_never_increases_witness:
  "\<exists>ord c'. executeFuturesFill (Fin 2000) demo_reduce_input (Fin 110) None demo_long_client = Inr (ord, Fin 0, c') \<and>
    (\<exists>k. (\<forall>k'. k' \<noteq> k \<longrightarrow> obj_get (pa_entries (ps_futures c')) k' = obj_get (pa_entries (ps_futures demo_long_client)) k') \<and>
      (case obj_get (pa_entries (ps_futures c')) k of
         None \<Rightarrow> True
       | Some e \<Rightarrow> \<exists>lots. fe_lots e = Some lots \<and> shrunk lots (snapshotFuturesLots demo_long_client (entry_of (ps_futures demo_long_client) k)) \<and>
           (js_gt (fe_amount (entry_of (ps_futures demo_long_client) k)) (Fin 0) \<longrightarrow> \<not> js_lt (fe_amount e) (Fin 0)) \<and>
           (js_lt (fe_amount (entry_of (ps_futures demo_long_client) k)) (Fin 0) \<longrightarrow> \<not> js_gt (fe_amount e) (Fin 0))))"
proof -
  obtain ord c' where f: "executeFuturesFill (Fin 2000) demo_reduce_input (Fin 110) None demo_long_client = Inr (ord, Fin 0, c')" using demo_reduced by blast
  from reducing_fill_never_increases[OF demo_long_ok f] f show ?thesis by (simp add: demo_reduce_input_def)
qed

lemma demo_small: "fl (5 / 8) = Fin (5 / 8)"
  by (rule fl_exact[of _ 5 "-3"]) (simp_all add: power_int_minus)

lemma demo_liquidated: "\<exists>c'. settleFuturesLiquidationsUnlocked (demo_futures_view 2000 80) Map.empty demo_long_client = Inr (True, c') \<and> pa_entries (ps_futures c') = []"
  by (simp add: settleFuturesLiquidationsUnlocked_def futuresLiquidationGroups_def group_step_def liquidation_group_of_def entry_symbol_def hedge_key_def key_asset_def look_up_price_def
      futuresReferencePrice_def positive_finite_def snapshotFuturesLots_def lots_amount_def lots_margin_def lots_pnl_def math_sign_def futuresReservedMargin_def free_margin_def balance_of_def
      obj_get_def liquidated_def liquidateFuturesGroup_def demo_observation[unfolded demo_fee_def] store_lots_def obj_del_def set_free_margin_def set_balance_def js_sub_def demo_small
      demo_hedge_defs Let_def)

theorem isolated_liquidation_leaves_no_debt_witness:
  "\<exists>c'. settleFuturesLiquidationsUnlocked (demo_futures_view 2000 80) Map.empty demo_long_client = Inr (True, c') \<and> \<not> js_lt (free_margin c') (Fin 0)"
proof -
  obtain c' where f: "settleFuturesLiquidationsUnlocked (demo_futures_view 2000 80) Map.empty demo_long_client = Inr (True, c')" using demo_liquidated by blast
  have b: "\<not> js_lt (free_margin demo_long_client) (Fin 0)" by (simp add: free_margin_def balance_of_def obj_get_def demo_hedge_defs)
  have l: "\<forall>(k, e) \<in> set (pa_entries (ps_futures demo_long_client)). list_all (\<lambda>l. lt_marginType l = Isolated) (snapshotFuturesLots demo_long_client e)"
    by (simp add: snapshotFuturesLots_def demo_hedge_defs)
  from isolated_liquidation_leaves_no_debt[OF f b l] f show ?thesis by blast
qed

end
