(* ===== verification/Spec2Isabelle.thy ===== *)
theory Spec2Isabelle
  imports Triggers Trading_Engine Protocol_Codec Paper_Futures_Safety
begin

text \<open>
  \<^bold>\<open>Verification of the trading core of Ti-trader.\<close>

  Ti-trader lets a language model trade. The model only ever speaks to a deterministic core that keeps the money
  safe: triggers decide when a rule fires (\<^verbatim>\<open>packages/triggers\<close>), a risk ledger counts what may still be
  spent and watches the account (\<^verbatim>\<open>packages/trading-risk\<close>), and the trading engine plans orders, checks them
  against the exchange, records every submission in a durable journal, calls the exchange at most once and
  recovers what is left unclear (\<^verbatim>\<open>packages/trading-engine\<close>). The same engine can trade on a simulated exchange that keeps its ledgers in files
  (\<^verbatim>\<open>paper-client.ts\<close>). Sessions talk to the core over a binary wire protocol (\<^verbatim>\<open>packages/protocol\<close>). This development models these
  parts and proves what the rest of the program relies on.

  \<^bold>\<open>How the parts interact.\<close> A prepared plan (\<^verbatim>\<open>order-plan.ts\<close>) is revalidated (\<^verbatim>\<open>order-preflight.ts\<close>) under the
  capability matrix (\<^verbatim>\<open>capabilities.ts\<close>, \<^verbatim>\<open>venues/\<close>); the engine (\<^verbatim>\<open>engine.ts\<close>) asks the journal
  (\<^verbatim>\<open>execution-journal.ts\<close>) to prepare an execution, which reserves its amount in the risk ledger (\<^verbatim>\<open>risk.ts\<close>) and
  blocks new exposure; after the confirmation the start is recorded and the exchange is called; the answer is
  turned into evidence (\<^verbatim>\<open>execution-recovery.ts\<close>) that settles the execution and its reservation in one
  transaction, or the execution stays unresolved until recovery or an operator settles it. All processes share one
  store, which runs one transaction at a time. The simulated exchange reloads its ledgers (\<^verbatim>\<open>paper-account.ts\<close>) before every operation, walks its
  resting orders along the prices seen since they were last checked (\<^verbatim>\<open>paper-path.ts\<close>), then executes the operation and writes the
  ledgers back. A message of the protocol is validated, encoded as CBOR and framed; the receiver splits the stream of bytes into frames, decodes
  strictly and validates again.

  \<^bold>\<open>Theories.\<close>
  \<^item> \<open>JS_Numbers\<close>: the numbers of JavaScript, exact rationals rounded to binary64 (\<open>fl\<close>) with infinities and NaN, and the laws of
    rounding the amounts need.
  \<^item> \<open>Prelude\<close>: results (\<open>error + value\<close>, \<open>ebind\<close>, \<open>assert_js\<close>), JavaScript objects as association lists,
    identifiers and texts; the collection \<open>result_simps\<close> inverts a returned value.
  \<^item> \<open>Triggers\<close> (\<^verbatim>\<open>triggers/src/model.ts, evaluator.ts, schema.ts\<close>): three-valued evaluation of conditions, windows of
    stability, the trigger state machine, validation of untrusted definitions.
  \<^item> \<open>Account_Risk\<close> (\<^verbatim>\<open>trading-risk/src/account-risk.ts\<close>): limits, memory and assessments of an account.
  \<^item> \<open>Claims\<close>: the contract of a component that keeps claims, as the locale \<open>claim_ledger\<close> over its opening, closing and quiet
    steps; what follows for every run is proved there once. The risk ledger and the journal interpret it on their own
    operations.
  \<^item> \<open>Risk_Ledger\<close> (\<^verbatim>\<open>trading-risk/src/risk.ts\<close>): the persisted state, its normalisation and every method of \<^verbatim>\<open>RiskLedger\<close>.
  \<^item> \<open>Orders\<close> (\<^verbatim>\<open>types.ts, client-types.ts, order-input.ts, contract-size.ts, protection.ts\<close> of \<^verbatim>\<open>trading-engine/src\<close>): the order data.
  \<^item> \<open>Execution_Journal\<close> and \<open>Journal_Steps\<close> (\<^verbatim>\<open>execution-journal.ts\<close>): the stored journal with its validation and every method; then
    the step relation \<open>journal_step\<close> of all processes on the store, and what holds along its runs.
  \<^item> \<open>Capabilities\<close> (\<^verbatim>\<open>capabilities.ts, venues/\<close>), \<open>Precision\<close> (\<^verbatim>\<open>ccxt-precision.ts\<close>).
  \<^item> \<open>Execution_Recovery\<close> (\<^verbatim>\<open>execution-recovery.ts, bounded-lookup.ts\<close>): evidence, the recovery loop, manual resolution.
  \<^item> \<open>Order_Plan\<close> (\<^verbatim>\<open>order-plan.ts\<close>), \<open>Order_Preflight\<close> (\<^verbatim>\<open>order-preflight.ts\<close>).
  \<^item> \<open>Trading_Engine\<close> (\<^verbatim>\<open>engine.ts\<close>): a submission as its stretches between awaits, and the relation \<open>engine_step\<close> that interleaves
    the submissions of an engine with other processes and with the account guards.
  \<^item> \<open>Bytes\<close>, \<open>Cbor\<close> (\<^verbatim>\<open>protocol/src/cbor\<close>), \<open>Framing\<close> (\<^verbatim>\<open>framing.ts\<close>), \<open>Protocol_Codec\<close> (\<^verbatim>\<open>codec.ts\<close>): the wire protocol.
  \<^item> \<open>Paper_Account\<close> (\<^verbatim>\<open>paper-account.ts\<close>): the stored ledger of the simulated exchange and its validation; \<open>Paper_Path\<close> (\<^verbatim>\<open>paper-path.ts\<close>): triggers,
    trailing stops and the price path.
  \<^item> \<open>Paper_Spot\<close>, \<open>Paper_Futures\<close> (\<^verbatim>\<open>paper-client.ts\<close>): the operations of the simulated exchange in spot and in futures mode, and
    \<open>Paper_Store\<close>: its constructor, loading, the writes and the recovery of an interrupted write. \<open>Paper_Spot_Safety\<close> and \<open>Paper_Futures_Safety\<close>: the
    runs of each mode with their invariants.

  State is a \<open>record\<close> with the fields of the source, an operation is a function of the same name; a method that throws
  returns \<open>Inl\<close>, one constructor per reason; a name that clashes with another is prefixed or
  suffixed (\<open>begin_submission\<close> is \<^verbatim>\<open>ExecutionJournal.begin\<close>, \<open>mark_unknown\<close> is \<^verbatim>\<open>ExecutionJournal.unknown\<close>, \<open>engine_setConfig\<close> is
  \<^verbatim>\<open>TradingEngine.setConfig\<close>, \<open>paper_placeOrder\<close> is \<^verbatim>\<open>PaperClient.placeOrder\<close>). A long method is cut into the steps it takes, in order.

  \<^bold>\<open>What is shown.\<close>
  \<^item> Triggers: cooldowns, single fires and edges hold along every run; verdicts are monotone in the known facts; \<open>stable_for\<close> is the
    window it promises; accepted definitions are well formed and bounded.
  \<^item> Account: an allowed observation is within every limit; a loss trip is latched; the drawdown counts from every past
    value; memory stays valid.
  \<^item> Ledger: the stored state stays loadable; a reservation is admitted only within the limits and settled at most once, and a
    call for a settled one is refused; one made with nothing else in flight can be released right after (with several in flight rounding can refuse
    one: a theorem shows a concrete case).
  \<^item> Journal: records only move forward along the status graph; an execution starts at most once and is settled at most once, together with
    its reservation, which leaves every other claim and block alone; unresolved executions block new exposure; identities and generations are
    never reused; maintenance excludes submissions; recovery attempts are bounded, and whatever happens in between the next one waits for its time.
  \<^item> Plans and preflight: an order exempt from the daily limit cannot add exposure; conditional orders do not fire at once; a preflighted order is
    covered by the position it reduces or by the balance of the asset it spends, as just reported, up to one part in \<open>2\<^sup>4\<^sup>8\<close>; support and wire mappings rest on evidence.
  \<^item> Recovery: evidence releases only what did not fill; recovery refines a relation (\<open>recovery_run\<close>) whose own steps start no
    submission and settle only what was never started or what an accepted answer proves; manual resolutions are attested.
  \<^item> Engine: at most one exchange call per plan and per execution, recorded before it is made and confirmed on unchanged
    evidence; a sent submission ends settled, provably rejected, or unresolved and blocking; live cancellations keep
    protection.
  \<^item> Protocol: what is encoded decodes to itself; what decodes is well formed and encodes again, in no more bytes; encoding returns on every value; the
    incremental frame decoder implements splitting of the whole stream, whatever the chunks; messages arrive in order and only valid ones are
    accepted.
  \<^item> Simulated exchange: a stored ledger loads as it was stored; the walk along a path fills an order where, and only where, the path
    reaches it, and the candles of a reconstructed path follow one another without a hole (the first may start up to a candle after the
    last check); spot balances are never negative, at most one leg of an OCO group fills, finished orders are final until the account is reset; a crash during a write leaves both ledgers changed or neither; starting never replaces an existing file; hedge
    positions keep their side, a reducing fill never increases a position, the liquidation of an isolated position costs at most its
    collateral, only working orders hold margin and each has something left to fill. Two lemmas record limits of the code: the reservation of a covered spot order can fall
    short of its fill by a rounding step (\<open>covered_order_can_block_the_account\<close>), and a legacy futures position of zero cost is upgraded to a ledger that no longer
    loads (\<open>upgraded_ledger_can_be_unreadable\<close>).

  \<^bold>\<open>Bounds and termination.\<close> Every definition is total: structural recursion, or a measure (recovery attempts count down
  from the configured number, at most 3; conditions recurse on their depth; the pages of a path count down from a
  number fixed by the duration of a candle). The loop of the encoder's growing buffer (\<open>grow_capacity\<close>) and those of the frame decoder (\<open>fill_payload\<close>, \<open>push_loop\<close>) are partial functions into
  \<open>option\<close>, proved to return. No fuel is used.

  \<^bold>\<open>Assumptions of the model.\<close> Minus zero is identified with zero. ISO time texts are their time values. A call reads the clock
  once. The static types of TypeScript hold for values of the program itself; untrusted values are
  untyped trees where the source validates them. Strings are byte strings. A store transaction is atomic. \<^verbatim>\<open>JSON.stringify\<close> comparisons of
  records are equalities of the records. SHA-256, the JSON text of an intent and the power of ten are parameters. A UUID is fresh. The
  exchange, the clocks, callbacks and the work of other processes during an await are inputs, arbitrary within
  their documented interface. In the simulated exchange an order object is identified by its id, tickers, candles and market metadata are
  inputs (a fetch that throws is \<open>None\<close>), an operation reads the clock once, a single write or removal of a file is atomic; the runs of a mode
  go from stored ledger to stored ledger: every step loads it, settles, and leaves what the operation has written; runs of the spot mode keep
  order numbers below \<open>2\<^sup>5\<^sup>3\<close>.

  \<^bold>\<open>Not modelled.\<close> Within \<^verbatim>\<open>trading-engine\<close>: of the simulated exchange, the mode that trades spot and futures at once, the reads of
  balances, positions and market data, and the file lock; the account guard's observations and preflight (\<^verbatim>\<open>account-risk.ts\<close>), the supervisor
  (\<^verbatim>\<open>risk-supervisor.ts\<close>), the mapping of exchange payloads (\<^verbatim>\<open>ccxt-map.ts\<close>) and the engine's leverage and margin
  changes: they sit around the modelled decisions and call them. The adapters that call the CCXT library, file locking and
  durability (\<^verbatim>\<open>persist.ts\<close>) are input and output. The schemas of the protocol are declarations for the TypeBox library, which is a parameter of
  the codec. \<^verbatim>\<open>trading-agent\<close> holds the plans, decisions, the autonomous runtime and the monitor of triggers; these drive the core through the
  operations modelled here. The other packages (\<^verbatim>\<open>agent, ai, client, coding-agent, telemetry,
  tui\<close>) and the extensions are the assistant around the core: model providers, sessions, terminal and transport; they do
  not decide about orders.
\<close>

end
